(* ===== verification/Prelude.thy ===== *)
theory Prelude
  imports Main
begin

text \<open>
  Shared vocabulary of the development: results of fallible operations, and
  database tables.  A table is the list of its rows in insertion order; an SQL
  statement is a list function: \<open>SELECT .. WHERE p\<close> is \<^const>\<open>filter\<close>,
  \<open>UPDATE .. SET f WHERE p\<close> is \<open>update_rows p f\<close>, \<open>INSERT\<close> appends a row and a
  lookup by a unique column is \<open>find_row\<close>.  The collections \<open>row_simps\<close> (rewriting
  lookups and updates) and \<open>result_simps\<close> (results) are what the component
  theories pass to the simplifier.
\<close>

named_theorems row_simps "rewriting of table lookups and updates"
named_theorems result_simps "rewriting of results of fallible operations"
named_theorems inv_intros "introduction rules for the invariants of components"

section \<open>Results\<close>

text \<open>A Python call that returns or raises: \<open>Inl\<close> is the exception, \<open>Inr\<close> the value.\<close>

fun res_bind :: "('e + 'a) \<Rightarrow> ('a \<Rightarrow> 'e + 'b) \<Rightarrow> 'e + 'b" where
  "res_bind (Inl e) f = Inl e"
| "res_bind (Inr x) f = f x"

fun is_ok :: "'e + 'a \<Rightarrow> bool" where
  "is_ok (Inl e) = False"
| "is_ok (Inr x) = True"

definition guard_res :: "bool \<Rightarrow> 'e \<Rightarrow> 'e + unit" where
  "guard_res b e = (if b then Inr () else Inl e)"

lemma res_bind_Inr_iff [result_simps]:
  "res_bind r f = Inr y \<longleftrightarrow> (\<exists>x. r = Inr x \<and> f x = Inr y)"
  by (cases r) auto

lemma res_bind_Inl_iff [result_simps]:
  "res_bind r f = Inl e \<longleftrightarrow> r = Inl e \<or> (\<exists>x. r = Inr x \<and> f x = Inl e)"
  by (cases r) auto

lemma guard_res_Inr [result_simps]: "guard_res b e = Inr u \<longleftrightarrow> b"
  by (simp add: guard_res_def)

lemma guard_res_Inl [result_simps]: "guard_res b e = Inl e' \<longleftrightarrow> \<not> b \<and> e' = e"
  by (auto simp: guard_res_def)

lemma is_ok_iff: "is_ok r \<longleftrightarrow> (\<exists>x. r = Inr x)"
  by (cases r) auto

section \<open>Tables\<close>

fun find_row :: "('r \<Rightarrow> bool) \<Rightarrow> 'r list \<Rightarrow> 'r option" where
  "find_row p [] = None"
| "find_row p (r # rs) = (if p r then Some r else find_row p rs)"

definition update_rows :: "('r \<Rightarrow> bool) \<Rightarrow> ('r \<Rightarrow> 'r) \<Rightarrow> 'r list \<Rightarrow> 'r list" where
  "update_rows p f rs = map (\<lambda>r. if p r then f r else r) rs"

definition exists_row :: "('r \<Rightarrow> bool) \<Rightarrow> 'r list \<Rightarrow> bool" where
  "exists_row p rs = list_ex p rs"

lemma find_row_Some_iff_ex: "(\<exists>r. find_row p rs = Some r) \<longleftrightarrow> (\<exists>r\<in>set rs. p r)"
  by (induction rs) auto

lemma find_row_SomeD: "find_row p rs = Some r \<Longrightarrow> r \<in> set rs \<and> p r"
  by (induction rs) (auto split: if_splits)

lemma find_row_None_iff [row_simps]: "find_row p rs = None \<longleftrightarrow> (\<forall>r\<in>set rs. \<not> p r)"
  by (induction rs) auto

lemma find_row_False [simp]: "find_row (\<lambda>r. False) rs = None"
  by (induction rs) auto

lemma find_row_append [row_simps]:
  "find_row p (xs @ ys) = (case find_row p xs of None \<Rightarrow> find_row p ys | Some r \<Rightarrow> Some r)"
  by (induction xs) auto

lemma exists_row_iff [row_simps]: "exists_row p rs \<longleftrightarrow> (\<exists>r\<in>set rs. p r)"
  by (simp add: exists_row_def list_ex_iff)

lemma update_rows_Nil [row_simps]: "update_rows p f [] = []"
  by (simp add: update_rows_def)

lemma update_rows_Cons [row_simps]:
  "update_rows p f (r # rs) = (if p r then f r else r) # update_rows p f rs"
  by (simp add: update_rows_def)

lemma update_rows_append [row_simps]:
  "update_rows p f (xs @ ys) = update_rows p f xs @ update_rows p f ys"
  by (simp add: update_rows_def)

lemma length_update_rows [simp]: "length (update_rows p f rs) = length rs"
  by (simp add: update_rows_def)

lemma update_rows_id: "(\<And>r. r \<in> set rs \<Longrightarrow> \<not> p r) \<Longrightarrow> update_rows p f rs = rs"
  by (induction rs) (auto simp: row_simps)

lemma in_update_rows:
  "r \<in> set (update_rows p f rs) \<longleftrightarrow>
     (r \<in> set rs \<and> \<not> p r) \<or> (\<exists>r0 \<in> set rs. p r0 \<and> r = f r0)"
  by (auto simp: update_rows_def)

lemma map_key_update_rows [row_simps]:
  "(\<And>r. p r \<Longrightarrow> k (f r) = k r) \<Longrightarrow> map k (update_rows p f rs) = map k rs"
  by (simp add: update_rows_def)

lemma find_row_update_rows_stable:
  assumes "\<And>r. p r \<Longrightarrow> q (f r) = q r"
  shows "find_row q (update_rows p f rs) =
           map_option (\<lambda>r. if p r then f r else r) (find_row q rs)"
  using assms by (induction rs) (auto simp: row_simps)

lemma filter_update_rows_other:
  assumes "\<And>r. p r \<Longrightarrow> \<not> q r" and "\<And>r. p r \<Longrightarrow> \<not> q (f r)"
  shows "filter q (update_rows p f rs) = filter q rs"
  using assms by (induction rs) (auto simp: row_simps)

lemma distinct_map_same:
  "distinct (map k rs) \<Longrightarrow> r \<in> set rs \<Longrightarrow> s \<in> set rs \<Longrightarrow> k r = k s \<Longrightarrow> r = s"
  by (auto simp: distinct_map inj_on_def)

lemma find_row_unique:
  assumes "distinct (map k rs)" and "r \<in> set rs" and "k r = x"
  shows "find_row (\<lambda>s. k s = x) rs = Some r"
  using assms
proof (induction rs)
  case (Cons a rs)
  then show ?case by (cases "r = a") (auto simp: image_iff)
qed simp

lemma filter_key_le_one: "distinct (map k rs) \<Longrightarrow> length (filter (\<lambda>r. k r = y) rs) \<le> 1"
proof (induction rs)
  case (Cons r rs)
  have "filter (\<lambda>r. k r = y) rs = []" if "k r = y"
    using Cons.prems that by (auto simp: filter_empty_conv image_iff)
  with Cons show ?case by auto
qed simp

end
