(* ===== verification/Domain_Values.thy ===== *)
theory Domain_Values
  imports Prelude
begin

text \<open>
  The closed value sets of \<open>app/domain/value_objects.py\<close>: one datatype per
  Python enum, with the constructors in the order of the source, and the text
  each member is stored as.
\<close>

datatype OperationType = CREATE_WORLD | START | STOP | KILL | BACKUP | RESTORE
  | CLEANUP | SYNC | CONFIG_EDIT | CRASH_DETECTED | DELETE_WORLD

fun optype_value :: "OperationType \<Rightarrow> string" where
  "optype_value CREATE_WORLD = ''CreateWorld''"
| "optype_value START = ''Start''"
| "optype_value STOP = ''Stop''"
| "optype_value KILL = ''Kill''"
| "optype_value BACKUP = ''Backup''"
| "optype_value RESTORE = ''Restore''"
| "optype_value CLEANUP = ''Cleanup''"
| "optype_value SYNC = ''Sync''"
| "optype_value CONFIG_EDIT = ''ConfigEdit''"
| "optype_value CRASH_DETECTED = ''CrashDetected''"
| "optype_value DELETE_WORLD = ''DeleteWorld''"

datatype WorldState = WS_OFF | WS_QUEUED | WS_STARTING | WS_RUNNING | WS_STOPPING
  | WS_RESTORING | WS_BACKING_UP | WS_CRASHED | WS_ERROR | WS_EULA_REQUIRED

fun world_state_value :: "WorldState \<Rightarrow> string" where
  "world_state_value WS_OFF = ''off''"
| "world_state_value WS_QUEUED = ''queued''"
| "world_state_value WS_STARTING = ''starting''"
| "world_state_value WS_RUNNING = ''running''"
| "world_state_value WS_STOPPING = ''stopping''"
| "world_state_value WS_RESTORING = ''restoring''"
| "world_state_value WS_BACKING_UP = ''backing_up''"
| "world_state_value WS_CRASHED = ''crashed''"
| "world_state_value WS_ERROR = ''error''"
| "world_state_value WS_EULA_REQUIRED = ''eula_required''"

datatype OperationStatus = OS_CREATED | OS_QUEUED | OS_VALIDATING | OS_RUNNING
  | OS_COMPLETED | OS_FAILED | OS_CANCELLED | OS_TIMED_OUT

fun opstatus_value :: "OperationStatus \<Rightarrow> string" where
  "opstatus_value OS_CREATED = ''Created''"
| "opstatus_value OS_QUEUED = ''Queued''"
| "opstatus_value OS_VALIDATING = ''Validating''"
| "opstatus_value OS_RUNNING = ''Running''"
| "opstatus_value OS_COMPLETED = ''Completed''"
| "opstatus_value OS_FAILED = ''Failed''"
| "opstatus_value OS_CANCELLED = ''Cancelled''"
| "opstatus_value OS_TIMED_OUT = ''TimedOut''"

datatype EndReason = GRACEFUL_STOP | FORCED_STOP | ER_CRASHED | EMERGENCY_STOP
  | RECONCILED_MISSING

datatype TriggerType = SESSION_END | MANUAL | SCHEDULED | PRE_RESTORE | EMERGENCY
  | MANAGER_CONFIG

fun trigger_value :: "TriggerType \<Rightarrow> string" where
  "trigger_value SESSION_END = ''session_end''"
| "trigger_value MANUAL = ''manual''"
| "trigger_value SCHEDULED = ''scheduled''"
| "trigger_value PRE_RESTORE = ''pre_restore''"
| "trigger_value EMERGENCY = ''emergency''"
| "trigger_value MANAGER_CONFIG = ''manager_config''"

datatype NotificationSeverity = SEV_CRITICAL | SEV_HIGH | SEV_NORMAL | SEV_INFORMATIONAL

fun severity_value :: "NotificationSeverity \<Rightarrow> string" where
  "severity_value SEV_CRITICAL = ''critical''"
| "severity_value SEV_HIGH = ''high''"
| "severity_value SEV_NORMAL = ''normal''"
| "severity_value SEV_INFORMATIONAL = ''informational''"

datatype SyncOutcome = SYNC_SUCCEEDED | SYNC_FAILED_TRANSIENT | SYNC_FAILED_PERMANENT

datatype SyncRecordStatus = SR_PENDING | SR_SUCCEEDED | SR_FAILED

datatype ScheduleType = SCHED_BACKUP | SCHED_CLEANUP | SCHED_MAINTENANCE

datatype Scope = SCOPE_GLOBAL | SCOPE_WORLD

datatype UserStatus = US_ACTIVE | US_DISABLED | US_LOCKED

datatype DeviceStatus = UNRECOGNIZED | REGISTERED

datatype ActorType = ACTOR_USER | ACTOR_SYSTEM

fun actor_value :: "ActorType \<Rightarrow> string" where
  "actor_value ACTOR_USER = ''user''"
| "actor_value ACTOR_SYSTEM = ''system''"

datatype ConfigEditEntity = CE_SCHEDULES | CE_CLEANUP_POLICIES | CE_GLOBAL_SETTINGS
  | CE_WORLD_SETTINGS | CE_TEMPLATES | CE_ROLES | CE_SYNC_TARGETS | CE_WORLD_INSTANCES
  | CE_SERVER_PROPERTIES | CE_JAVA_RUNTIMES | CE_USERS | CE_DEVICES | CE_EULA

datatype EulaState = NOT_PRESENT | UNACCEPTED | ACCEPTED

datatype ServerReadinessLevel = PROCESS_ALIVE | PORT_BOUND | RCON_READY | PROBE_OK
  | OPERATIONALLY_VALID

fun readiness_rank :: "ServerReadinessLevel \<Rightarrow> nat" where
  "readiness_rank PROCESS_ALIVE = 0"
| "readiness_rank PORT_BOUND = 1"
| "readiness_rank RCON_READY = 2"
| "readiness_rank PROBE_OK = 3"
| "readiness_rank OPERATIONALLY_VALID = 4"

datatype SyncTargetType = ST_NAS | ST_GOOGLE_DRIVE | ST_OTHER

datatype ServerType = VANILLA | PAPER | FABRIC | FORGE

datatype ExitClass = EC_RUNNING | EC_GRACEFUL | EC_FORCED | EC_CRASHED
  | EC_RECONCILED_MISSING | EC_SPAWN_FAILED

datatype ProcSignal = SIG_TERMINATE | SIG_KILL

datatype ProcessState = PS_RUNNING | PS_EXITED | PS_MISSING

text \<open>The readiness ladder is ordered by its rank, so the library's order and
  automation on linear orders apply to it.\<close>

lemma readiness_rank_inj: "readiness_rank a = readiness_rank b \<Longrightarrow> a = b"
  by (cases a; cases b) simp_all

instantiation ServerReadinessLevel :: linorder
begin

definition less_eq_ServerReadinessLevel :: "ServerReadinessLevel \<Rightarrow> ServerReadinessLevel \<Rightarrow> bool" where
  "less_eq_ServerReadinessLevel a b = (readiness_rank a \<le> readiness_rank b)"

definition less_ServerReadinessLevel :: "ServerReadinessLevel \<Rightarrow> ServerReadinessLevel \<Rightarrow> bool" where
  "less_ServerReadinessLevel a b = (readiness_rank a < readiness_rank b)"

instance
  by standard
    (auto simp: less_eq_ServerReadinessLevel_def less_ServerReadinessLevel_def
          intro: readiness_rank_inj)

end

lemmas readiness_order_defs = less_eq_ServerReadinessLevel_def less_ServerReadinessLevel_def

lemma optype_value_inj [simp]: "optype_value a = optype_value b \<longleftrightarrow> a = b"
  by (cases a; cases b) simp_all

lemma opstatus_value_inj [simp]: "opstatus_value a = opstatus_value b \<longleftrightarrow> a = b"
  by (cases a; cases b) simp_all

lemma trigger_value_inj [simp]: "trigger_value a = trigger_value b \<longleftrightarrow> a = b"
  by (cases a; cases b) simp_all

lemma world_state_value_inj [simp]: "world_state_value a = world_state_value b \<longleftrightarrow> a = b"
  by (cases a; cases b) simp_all

end
