(* ===== verification/Json.thy ===== *)
theory Json
  imports Prelude "HOL-Library.Char_ord"
begin

text \<open>
  JSON values as the program stores and sends them, and the text \<open>json.dumps\<close>
  gives for them with \<open>separators=(',', ':')\<close> and the default \<open>ensure_ascii\<close>.  A
  character is one byte here, so an escaped character is always \<open>\u00XX\<close>.  A JSON column
  of the database holds the value itself (\<open>json.loads\<close> of what \<open>json.dumps\<close> wrote).
  The theory also holds the text helpers the other theories share; text is Latin-1, and the three
  superscript digits of it are not counted as digits.
\<close>

datatype json = JNull | JBool bool | JInt int | JStr string | JArr "json list"
  | JObj "(string \<times> json) list"

type_synonym jdict = "(string \<times> json) list"

definition jget :: "string \<Rightarrow> jdict \<Rightarrow> json option" where
  "jget k d = map_of d k"

fun jopt_str :: "string option \<Rightarrow> json" where
  "jopt_str None = JNull"
| "jopt_str (Some s) = JStr s"

fun jopt_int :: "int option \<Rightarrow> json" where
  "jopt_int None = JNull"
| "jopt_int (Some i) = JInt i"

text \<open>The truth value Python gives a value that \<open>dict.get\<close> returned.\<close>

fun json_truthy :: "json option \<Rightarrow> bool" where
  "json_truthy None = False"
| "json_truthy (Some JNull) = False"
| "json_truthy (Some (JBool b)) = b"
| "json_truthy (Some (JInt i)) = (i \<noteq> 0)"
| "json_truthy (Some (JStr s)) = (s \<noteq> [])"
| "json_truthy (Some (JArr xs)) = (xs \<noteq> [])"
| "json_truthy (Some (JObj d)) = (d \<noteq> [])"

section \<open>Text helpers\<close>

definition lower_char :: "char \<Rightarrow> char" where
  "lower_char c =
     (let n = (of_char c :: nat) in
      if (65 \<le> n \<and> n \<le> 90) \<or> (192 \<le> n \<and> n \<le> 222 \<and> n \<noteq> 215) then char_of (n + 32) else c)"

definition lower :: "string \<Rightarrow> string" where
  "lower s = map lower_char s"

fun join :: "string \<Rightarrow> string list \<Rightarrow> string" where
  "join sep [] = []"
| "join sep [x] = x"
| "join sep (x # y # xs) = x @ sep @ join sep (y # xs)"

definition digit :: "nat \<Rightarrow> char" where
  "digit n = ''0123456789abcdef'' ! (n mod 16)"

function nat_dec :: "nat \<Rightarrow> string" where
  "nat_dec n = (if n < 10 then [digit n] else nat_dec (n div 10) @ [digit (n mod 10)])"
  by pat_completeness auto
termination by (relation "measure id") auto

declare nat_dec.simps [simp del]

definition int_dec :: "int \<Rightarrow> string" where
  "int_dec i = (if i < 0 then ''-'' @ nat_dec (nat (- i)) else nat_dec (nat i))"

fun starts_with :: "string \<Rightarrow> string \<Rightarrow> bool" where
  "starts_with [] s = True"
| "starts_with (c # p) [] = False"
| "starts_with (c # p) (d # s) = (c = d \<and> starts_with p s)"

fun contains_str :: "string \<Rightarrow> string \<Rightarrow> bool" where
  "contains_str p [] = (p = [])"
| "contains_str p (c # s) = (starts_with p (c # s) \<or> contains_str p s)"

text \<open>\<open>int(text)\<close> for text: surrounding blanks, an optional sign and decimal digits (the
  underscores Python also allows between digits are refused here).\<close>

definition is_blank :: "char \<Rightarrow> bool" where
  "is_blank c \<longleftrightarrow> (of_char c :: nat) \<in> {9, 10, 11, 12, 13, 28, 29, 30, 31, 32, 133, 160}"

definition strip :: "string \<Rightarrow> string" where
  "strip s = rev (dropWhile is_blank (rev (dropWhile is_blank s)))"

definition is_digit :: "char \<Rightarrow> bool" where
  "is_digit c \<longleftrightarrow> 48 \<le> (of_char c :: nat) \<and> (of_char c :: nat) \<le> 57"

definition digits_value :: "string \<Rightarrow> int" where
  "digits_value s = foldl (\<lambda>n c. 10 * n + (of_char c - 48)) 0 s"

fun parse_digits :: "string \<Rightarrow> int option" where
  "parse_digits s = (if s = [] \<or> \<not> list_all is_digit s then None else Some (digits_value s))"

definition py_int :: "string \<Rightarrow> int option" where
  "py_int s =
     (case strip s of
        [] \<Rightarrow> None
      | c # r \<Rightarrow> (if c = CHR ''-'' then map_option uminus (parse_digits r)
                   else if c = CHR ''+'' then parse_digits r
                   else parse_digits (c # r)))"

text \<open>\<open>text.split(sep, 1)\<close> on a separator of one character, when it occurs.\<close>

fun split_once :: "char \<Rightarrow> string \<Rightarrow> (string \<times> string) option" where
  "split_once sep [] = None"
| "split_once sep (c # s) =
     (if c = sep then Some ([], s) else map_option (\<lambda>(a, b). (c # a, b)) (split_once sep s))"

section \<open>Serialisation\<close>

definition esc_char :: "char \<Rightarrow> string" where
  "esc_char c =
     (let n = (of_char c :: nat) in
      if n = 34 then [CHR 0x5C, CHR 0x22]
      else if n = 92 then [CHR 0x5C, CHR 0x5C]
      else if n = 10 then [CHR 0x5C, CHR ''n'']
      else if n = 13 then [CHR 0x5C, CHR ''r'']
      else if n = 9 then [CHR 0x5C, CHR ''t'']
      else if n = 12 then [CHR 0x5C, CHR ''f'']
      else if n = 8 then [CHR 0x5C, CHR ''b'']
      else if 32 \<le> n \<and> n \<le> 126 then [c]
      else [CHR 0x5C, CHR ''u'', CHR ''0'', CHR ''0'', digit (n div 16), digit (n mod 16)])"

definition quote :: "string \<Rightarrow> string" where
  "quote s = [CHR 0x22] @ concat (map esc_char s) @ [CHR 0x22]"

fun dumps :: "json \<Rightarrow> string" and dumps_pairs :: "(string \<times> json) list \<Rightarrow> string list"
  and dumps_list :: "json list \<Rightarrow> string list" where
  "dumps JNull = ''null''"
| "dumps (JBool b) = (if b then ''true'' else ''false'')"
| "dumps (JInt i) = int_dec i"
| "dumps (JStr s) = quote s"
| "dumps (JArr xs) = ''['' @ join '','' (dumps_list xs) @ '']''"
| "dumps (JObj d) = ''{'' @ join '','' (dumps_pairs d) @ ''}''"
| "dumps_pairs [] = []"
| "dumps_pairs ((k, v) # d) = (quote k @ '':'' @ dumps v) # dumps_pairs d"
| "dumps_list [] = []"
| "dumps_list (x # xs) = dumps x # dumps_list xs"

section \<open>Serialised text is printable ASCII\<close>

definition printable :: "string \<Rightarrow> bool" where
  "printable s \<longleftrightarrow> (\<forall>c\<in>set s. 32 \<le> (of_char c :: nat) \<and> (of_char c :: nat) \<le> 126)"

lemma printable_Nil [simp]: "printable []"
  by (simp add: printable_def)

lemma printable_append [simp]: "printable (s @ t) \<longleftrightarrow> printable s \<and> printable t"
  by (auto simp: printable_def)

lemma printable_Cons [simp]:
  "printable (c # s) \<longleftrightarrow> 32 \<le> (of_char c :: nat) \<and> (of_char c :: nat) \<le> 126 \<and> printable s"
  by (auto simp: printable_def)

lemma digit_printable [simp]: "32 \<le> (of_char (digit n) :: nat) \<and> (of_char (digit n) :: nat) \<le> 126"
proof -
  have "digit n \<in> set ''0123456789abcdef''"
    unfolding digit_def by (rule nth_mem) simp
  then show ?thesis by auto
qed

lemma nat_dec_printable [simp]: "printable (nat_dec n)"
proof (induction n rule: nat_dec.induct)
  case (1 n)
  then show ?case by (subst nat_dec.simps) (auto simp: digit_printable)
qed

lemma int_dec_printable [simp]: "printable (int_dec i)"
  by (simp add: int_dec_def)

lemma esc_char_printable [simp]: "printable (esc_char c)"
  by (auto simp: esc_char_def Let_def)

lemma concat_printable: "(\<forall>x\<in>set xs. printable x) \<Longrightarrow> printable (concat xs)"
  by (induction xs) auto

lemma quote_printable [simp]: "printable (quote s)"
  by (auto simp: quote_def intro!: concat_printable)

lemma join_printable: "printable sep \<Longrightarrow> (\<forall>x\<in>set xs. printable x) \<Longrightarrow> printable (join sep xs)"
  by (induction sep xs rule: join.induct) auto

lemma dumps_printable [simp]:
  "printable (dumps j)"
  "\<forall>x\<in>set (dumps_pairs d). printable x"
  "\<forall>x\<in>set (dumps_list xs). printable x"
  by (induction j and d and xs rule: dumps_dumps_pairs_dumps_list.induct)
    (auto intro!: join_printable)

lemma printable_no_newline: "printable s \<Longrightarrow> CHR 0x0A \<notin> set s"
  by (auto simp: printable_def)

section \<open>Decimal text determines the number\<close>

lemma nat_dec_digits: "list_all is_digit (nat_dec n) \<and> nat_dec n \<noteq> [] \<and> digits_value (nat_dec n) = int n"
proof (induction n rule: nat_dec.induct)
  case (1 n)
  have small: "is_digit (digit m) \<and> (of_char (digit m) :: int) - 48 = int m" if "m < 10" for m
  proof -
    from that have "m \<in> {0, 1, 2, 3, 4, 5, 6, 7, 8, 9}" by auto
    then show ?thesis by (auto simp: digit_def is_digit_def)
  qed
  show ?case
  proof (cases "n < 10")
    case True
    with small[OF True] show ?thesis by (subst nat_dec.simps, subst nat_dec.simps, subst nat_dec.simps)
        (simp add: digits_value_def)
  next
    case False
    from 1[OF False] small[of "n mod 10"] have "digits_value (nat_dec (n div 10) @ [digit (n mod 10)]) = int n"
      by (simp add: digits_value_def) presburger
    with False 1[OF False] small[of "n mod 10"] show ?thesis
      by (subst nat_dec.simps, subst nat_dec.simps, subst nat_dec.simps) simp
  qed
qed

lemma nat_dec_value: "digits_value (nat_dec n) = int n"
  using nat_dec_digits by blast

lemma nat_dec_char: "c \<in> set (nat_dec n) \<Longrightarrow> is_digit c"
  using nat_dec_digits[of n] by (simp only: list_all_iff)

lemma nat_dec_inj [simp]: "nat_dec m = nat_dec n \<longleftrightarrow> m = n"
  by (metis nat_dec_value of_nat_eq_iff)

lemma minus_not_digit: "\<not> is_digit (CHR ''-'')" and colon_not_digit: "\<not> is_digit (CHR '':'')"
  by (simp_all add: is_digit_def)

lemma nat_dec_no_minus: "nat_dec n \<noteq> CHR ''-'' # x"
  using nat_dec_char[of "CHR ''-''" n] minus_not_digit by (metis list.set_intros(1))

lemma int_dec_inj [simp]: "int_dec i = int_dec j \<longleftrightarrow> i = j"
  using nat_dec_no_minus nat_dec_no_minus[symmetric]
  by (cases "i < 0"; cases "j < 0") (auto simp: int_dec_def)

lemma colon_not_in_int_dec: "CHR '':'' \<notin> set (int_dec i)"
  using nat_dec_char[of "CHR '':''"] colon_not_digit by (auto simp: int_dec_def)

lemma split_last_colon:
  assumes "xs @ CHR '':'' # int_dec i = ys @ CHR '':'' # int_dec j"
  shows "xs = ys \<and> i = j"
proof -
  let ?tail = "\<lambda>s. takeWhile (\<lambda>c. c \<noteq> CHR '':'') (rev s)"
  have tail: "?tail (zs @ CHR '':'' # int_dec k) = rev (int_dec k)" for zs k
    using colon_not_in_int_dec[of k] by (subst rev_append) (auto intro!: takeWhile_append2[THEN trans])
  have "rev (int_dec i) = rev (int_dec j)"
    using arg_cong[OF assms, of ?tail] by (simp only: tail)
  with assms show ?thesis by simp
qed

end
