(* ===== verification/Store.thy ===== *)
theory Store
  imports Domain_Values Json
begin

text \<open>
  The database the services share: one record per table row (\<open>src/migrations\<close>) and one
  record whose fields are the tables.  The columns that hold a closed value set hold the
  datatype; a JSON column holds the value.  A transaction is a function from the database to
  a result: \<open>Inl\<close> is the exception that makes the code roll back, so the caller goes on with
  the database it had.  Primary keys, the unique indexes and the foreign keys the services
  can run into are checked by the insert functions, which give \<open>None\<close> where SQLite raises
  \<open>IntegrityError\<close>.
\<close>

record op_row =
  op_id :: string
  op_type :: OperationType
  op_world :: "string option"
  op_actor_type :: ActorType
  op_actor_user :: "string option"
  op_key :: "string option"
  op_status :: OperationStatus
  op_checkpoint :: "jdict option"
  op_attempt :: int
  op_compensates :: "string option"
  op_intent_at :: int
  op_started_at :: "int option"
  op_finished_at :: "int option"
  op_error_code :: "string option"
  op_message :: "string option"
  op_data :: "jdict option"
  op_created_at :: int
  op_updated_at :: int

record user_row =
  us_id :: string
  us_username :: string
  us_secret :: string
  us_status :: UserStatus
  us_failed :: int
  us_locked_until :: "int option"
  us_deleted_at :: "int option"
  us_updated_at :: int
  us_display :: "string option"
  us_created_at :: int

record audit_row =
  au_id :: string
  au_event :: string
  au_actor_type :: ActorType
  au_user :: "string option"
  au_username :: "string option"
  au_device :: "string option"
  au_device_name :: "string option"
  au_ip :: "string option"
  au_operation :: "string option"
  au_world :: "string option"
  au_payload :: "jdict option"
  au_annotation_of :: "string option"
  au_created_at :: int

record notification_row =
  no_id :: string
  no_category :: string
  no_severity :: NotificationSeverity
  no_message :: string
  no_operation :: "string option"
  no_world :: "string option"
  no_requires_action :: bool
  no_action_taken :: "string option"
  no_created_at :: int

record read_row =
  nr_notification :: string
  nr_user :: string
  nr_read_at :: "int option"
  nr_dismissed_at :: "int option"

text \<open>\<open>launch_args\<close> holds a JSON list of strings, the whole command line, or an object whose
  \<open>server_args\<close> and \<open>java_args\<close> are lists of strings; a text that is no JSON reads as NULL.\<close>

datatype launch_column = LaunchArgv "string list" | LaunchExtra "string list" "string list"

record world_row =
  wo_id :: string
  wo_display_name :: string
  wo_template :: string
  wo_server_type :: ServerType
  wo_mc_version :: string
  wo_java_runtime :: string
  wo_port :: int
  wo_strategy :: string
  wo_address :: string
  wo_state :: WorldState
  wo_pre_backup :: "WorldState option"
  wo_launch_args :: "launch_column option"
  wo_metadata_version :: int
  wo_deleted_at :: "int option"
  wo_deleted_by :: "string option"
  wo_created_at :: int
  wo_updated_at :: int

record artifact_row =
  ar_id :: string
  ar_world :: "string option"
  ar_category :: TriggerType
  ar_path :: string
  ar_size :: int
  ar_checksum :: string
  ar_suspect :: bool
  ar_operation :: string
  ar_deleted_at :: "int option"
  ar_deleted_by :: "string option"
  ar_created_at :: int

record schedule_row =
  sc_id :: string
  sc_world :: "string option"
  sc_type :: string
  sc_interval :: jdict
  sc_time :: string
  sc_enabled :: bool
  sc_last_changed_at :: int
  sc_deleted_at :: "int option"
  sc_created_at :: int

record missed_row =
  mr_id :: string
  mr_schedule :: string
  mr_name :: string
  mr_type :: string
  mr_expected :: int
  mr_detected :: int
  mr_resolution :: string
  mr_created_at :: int
  mr_resolved_at :: "int option"
  mr_resolved_by :: "string option"

text \<open>The launch snapshot of a session: the command line and the fingerprint of the process.\<close>

record launch_snapshot =
  ln_argv :: "string list"
  ln_pid :: int
  ln_epoch :: int
  ln_cwd :: string
  ln_marker :: string

record runtime_session_row =
  rs_id :: string
  rs_world :: string
  rs_started_at :: int
  rs_ended_at :: "int option"
  rs_end_reason :: "EndReason option"
  rs_rcon_secret :: string
  rs_port :: int
  rs_java :: string
  rs_snapshot :: launch_snapshot
  rs_rcon_port :: "int option"
  rs_created_at :: int

record sync_target_row =
  tg_id :: string
  tg_scope :: Scope
  tg_world :: "string option"
  tg_type :: string
  tg_config :: jdict
  tg_secret :: string
  tg_enabled :: bool
  tg_deleted_at :: "int option"
  tg_created_at :: int

record sync_record_row =
  sy_id :: string
  sy_artifact :: string
  sy_target :: string
  sy_operation :: string
  sy_status :: SyncRecordStatus
  sy_started_at :: int
  sy_finished_at :: "int option"

record sync_attempt_row =
  sa_id :: string
  sa_sync :: string
  sa_number :: int
  sa_started_at :: int
  sa_finished_at :: "int option"
  sa_outcome :: SyncOutcome
  sa_error :: "string option"

record store =
  operations :: "op_row list"
  users :: "user_row list"
  audits :: "audit_row list"
  notifications :: "notification_row list"
  reads :: "read_row list"
  worlds :: "world_row list"
  artifacts :: "artifact_row list"
  schedules :: "schedule_row list"
  missed_runs :: "missed_row list"
  runtime_sessions :: "runtime_session_row list"
  sync_targets :: "sync_target_row list"
  sync_records :: "sync_record_row list"
  sync_attempts :: "sync_attempt_row list"

definition empty_store :: store where
  "empty_store = \<lparr>operations = [], users = [], audits = [], notifications = [], reads = [],
     worlds = [], artifacts = [], schedules = [], missed_runs = [], runtime_sessions = [],
     sync_targets = [], sync_records = [], sync_attempts = []\<rparr>"

section \<open>Foreign keys and inserts\<close>

definition fk_world :: "string option \<Rightarrow> store \<Rightarrow> bool" where
  "fk_world w st = (case w of None \<Rightarrow> True | Some i \<Rightarrow> exists_row (\<lambda>r. wo_id r = i) (worlds st))"

definition fk_user :: "string option \<Rightarrow> store \<Rightarrow> bool" where
  "fk_user u st = (case u of None \<Rightarrow> True | Some i \<Rightarrow> exists_row (\<lambda>r. us_id r = i) (users st))"

definition fk_op :: "string option \<Rightarrow> store \<Rightarrow> bool" where
  "fk_op p st = (case p of None \<Rightarrow> True | Some i \<Rightarrow> exists_row (\<lambda>r. op_id r = i) (operations st))"

definition insert_op :: "op_row \<Rightarrow> store \<Rightarrow> store option" where
  "insert_op r st =
     (if exists_row (\<lambda>o'. op_id o' = op_id r) (operations st) \<or>
         (op_key r \<noteq> None \<and>
          exists_row (\<lambda>o'. op_type o' = op_type r \<and> op_key o' = op_key r) (operations st)) \<or>
         \<not> fk_world (op_world r) st \<or> \<not> fk_user (op_actor_user r) st \<or>
         \<not> fk_op (op_compensates r) st
      then None else Some (st\<lparr>operations := operations st @ [r]\<rparr>))"

definition insert_audit :: "audit_row \<Rightarrow> store \<Rightarrow> store option" where
  "insert_audit r st =
     (if exists_row (\<lambda>a. au_id a = au_id r) (audits st) \<or> \<not> fk_op (au_operation r) st \<or>
         \<not> fk_world (au_world r) st \<or>
         (case au_annotation_of r of None \<Rightarrow> False
          | Some i \<Rightarrow> \<not> exists_row (\<lambda>a. au_id a = i) (audits st))
      then None else Some (st\<lparr>audits := audits st @ [r]\<rparr>))"

definition insert_notification :: "notification_row \<Rightarrow> store \<Rightarrow> store option" where
  "insert_notification r st =
     (if exists_row (\<lambda>n. no_id n = no_id r) (notifications st) \<or> \<not> fk_op (no_operation r) st \<or>
         \<not> fk_world (no_world r) st
      then None else Some (st\<lparr>notifications := notifications st @ [r]\<rparr>))"

lemma insert_op_Some:
  "insert_op r st = Some st' \<Longrightarrow>
     st' = st\<lparr>operations := operations st @ [r]\<rparr> \<and>
     (\<forall>o'\<in>set (operations st). op_id o' \<noteq> op_id r) \<and>
     (\<forall>o'\<in>set (operations st). op_key r \<noteq> None \<longrightarrow> op_type o' \<noteq> op_type r \<or> op_key o' \<noteq> op_key r)"
  by (auto simp: insert_op_def row_simps split: if_splits)

lemma insert_audit_Some:
  "insert_audit r st = Some st' \<Longrightarrow> st' = st\<lparr>audits := audits st @ [r]\<rparr> \<and>
     (\<forall>a\<in>set (audits st). au_id a \<noteq> au_id r)"
  by (auto simp: insert_audit_def row_simps split: if_splits)

lemma insert_notification_Some:
  "insert_notification r st = Some st' \<Longrightarrow>
     st' = st\<lparr>notifications := notifications st @ [r]\<rparr> \<and>
     (\<forall>n\<in>set (notifications st). no_id n \<noteq> no_id r)"
  by (auto simp: insert_notification_def row_simps split: if_splits)

end
