(* ===== verification/Audit_Notify.thy ===== *)
theory Audit_Notify
  imports Store "HOL-Library.Product_Lexorder"
begin

text \<open>
  The audit writer (\<open>app/services/audit.py\<close>) and the notification service
  (\<open>app/services/notifications.py\<close>).  Both write inside the caller's transaction or one of
  their own; \<open>None\<close> is an integrity error.  Identifiers drawn from \<open>uuid4\<close> and the clock
  are arguments.  The tables are append-only for both services except for the per-user
  read and dismiss markers.
\<close>

section \<open>Audit\<close>

record ActorSnapshot =
  as_actor_type :: ActorType
  as_user :: "string option"
  as_username :: "string option"
  as_device :: "string option"
  as_device_name :: "string option"
  as_ip :: "string option"

fun terminal_status :: "OperationStatus \<Rightarrow> bool" where
  "terminal_status OS_COMPLETED = True"
| "terminal_status OS_FAILED = True"
| "terminal_status OS_CANCELLED = True"
| "terminal_status OS_TIMED_OUT = True"
| "terminal_status _ = False"

definition operation_event_type :: "OperationType \<Rightarrow> OperationStatus \<Rightarrow> string option" where
  "operation_event_type ty st =
     (if \<not> terminal_status st then None
      else Some (''operation.'' @ lower (optype_value ty) @ ''.'' @ lower (opstatus_value st)))"

definition username_of :: "string \<Rightarrow> store \<Rightarrow> string option" where
  "username_of uid st = map_option us_username (find_row (\<lambda>u. us_id u = uid) (users st))"

definition snapshot_for_user ::
  "string \<Rightarrow> string option \<Rightarrow> string option \<Rightarrow> string option \<Rightarrow> store \<Rightarrow> ActorSnapshot" where
  "snapshot_for_user uid dev devname ip st =
     \<lparr>as_actor_type = ACTOR_USER, as_user = Some uid, as_username = username_of uid st,
      as_device = dev, as_device_name = devname, as_ip = ip\<rparr>"

definition audit_system :: ActorSnapshot where
  "audit_system = \<lparr>as_actor_type = ACTOR_SYSTEM, as_user = None, as_username = None,
     as_device = None, as_device_name = None, as_ip = None\<rparr>"

record audit_input =
  ai_event :: string
  ai_actor :: ActorSnapshot
  ai_operation :: "string option"
  ai_world :: "string option"
  ai_payload :: "jdict option"
  ai_target :: "jdict option"
  ai_annotation :: "string option"
  ai_when :: "int option"

definition audit_write :: "string \<Rightarrow> int \<Rightarrow> audit_input \<Rightarrow> store \<Rightarrow> store option" where
  "audit_write uid now i st =
     (let base = (case ai_payload i of None \<Rightarrow> [] | Some p \<Rightarrow> p);
          payload = (case ai_target i of None \<Rightarrow> base
                     | Some t \<Rightarrow> filter (\<lambda>kv. fst kv \<noteq> ''target_snapshot'') base @
                                 [(''target_snapshot'', JObj t)]);
          a = ai_actor i in
      insert_audit
        \<lparr>au_id = ''au_'' @ uid, au_event = ai_event i, au_actor_type = as_actor_type a,
         au_user = as_user a, au_username = as_username a, au_device = as_device a,
         au_device_name = as_device_name a, au_ip = as_ip a, au_operation = ai_operation i,
         au_world = ai_world i, au_payload = (if payload = [] then None else Some payload),
         au_annotation_of = ai_annotation i,
         au_created_at = (case ai_when i of None \<Rightarrow> now | Some t \<Rightarrow> t)\<rparr> st)"

section \<open>Notifications\<close>

definition supported_categories :: "string list" where
  "supported_categories = [''world_lifecycle'', ''backup_restore'', ''sync'', ''security'',
     ''storage'', ''scheduler'']"

record NotificationInput =
  ni_category :: string
  ni_severity :: NotificationSeverity
  ni_message :: string
  ni_requires_action :: bool
  ni_operation :: "string option"
  ni_world :: "string option"

definition terminal_notification_rules ::
  "((OperationType \<times> OperationStatus) \<times> string \<times> NotificationSeverity \<times> string) list" where
  "terminal_notification_rules = [
     ((START, OS_COMPLETED), ''world_lifecycle'', SEV_INFORMATIONAL, ''World started.''),
     ((STOP, OS_COMPLETED), ''world_lifecycle'', SEV_INFORMATIONAL, ''World stopped.''),
     ((KILL, OS_COMPLETED), ''world_lifecycle'', SEV_INFORMATIONAL, ''World stopped.''),
     ((CRASH_DETECTED, OS_COMPLETED), ''world_lifecycle'', SEV_CRITICAL, ''World crashed.''),
     ((BACKUP, OS_COMPLETED), ''backup_restore'', SEV_INFORMATIONAL, ''Backup completed.''),
     ((BACKUP, OS_FAILED), ''backup_restore'', SEV_HIGH, ''Backup failed.''),
     ((RESTORE, OS_COMPLETED), ''backup_restore'', SEV_INFORMATIONAL, ''Restore completed.''),
     ((RESTORE, OS_FAILED), ''backup_restore'', SEV_HIGH, ''Restore failed.''),
     ((CLEANUP, OS_COMPLETED), ''backup_restore'', SEV_INFORMATIONAL, ''Cleanup completed.''),
     ((SYNC, OS_FAILED), ''sync'', SEV_HIGH, ''Sync failed.'')]"

definition terminal_notification_rule ::
  "OperationType \<Rightarrow> OperationStatus \<Rightarrow> (string \<times> NotificationSeverity \<times> string) option" where
  "terminal_notification_rule ty st = map_of terminal_notification_rules (ty, st)"

datatype notify_error = UnsupportedCategory string | NotifyIntegrity | MissingOpId

definition notification_row_of :: "string \<Rightarrow> int \<Rightarrow> NotificationInput \<Rightarrow> notification_row" where
  "notification_row_of uid now n =
     \<lparr>no_id = ''n_'' @ uid, no_category = ni_category n, no_severity = ni_severity n,
      no_message = ni_message n, no_operation = ni_operation n, no_world = ni_world n,
      no_requires_action = ni_requires_action n, no_action_taken = None, no_created_at = now\<rparr>"

definition notify_validate :: "NotificationInput \<Rightarrow> notify_error + unit" where
  "notify_validate n = guard_res (ni_category n \<in> set supported_categories)
     (UnsupportedCategory (ni_category n))"

definition notify_insert ::
  "string \<Rightarrow> int \<Rightarrow> NotificationInput \<Rightarrow> store \<Rightarrow> notify_error + string \<times> store" where
  "notify_insert uid now n st =
     (case insert_notification (notification_row_of uid now n) st of
        None \<Rightarrow> Inl NotifyIntegrity
      | Some st' \<Rightarrow> Inr (''n_'' @ uid, st'))"

definition notify_publish ::
  "string \<Rightarrow> int \<Rightarrow> NotificationInput \<Rightarrow> store \<Rightarrow> notify_error + string \<times> store" where
  "notify_publish uid now n st =
     res_bind (notify_validate n) (\<lambda>_. notify_insert uid now n st)"

definition publish_terminal_operation ::
  "string \<Rightarrow> int \<Rightarrow> op_row \<Rightarrow> store \<Rightarrow> notify_error + string option \<times> store" where
  "publish_terminal_operation uid now r st =
     (if \<not> terminal_status (op_status r) then Inr (None, st)
      else case terminal_notification_rule (op_type r) (op_status r) of
        None \<Rightarrow> Inr (None, st)
      | Some (cat, sev, msg) \<Rightarrow>
          (if op_id r = [] then Inl MissingOpId
           else
             let n = \<lparr>ni_category = cat, ni_severity = sev, ni_message = msg,
                      ni_requires_action = False, ni_operation = Some (op_id r),
                      ni_world = op_world r\<rparr> in
             res_bind (notify_validate n)
               (\<lambda>_. case find_row (\<lambda>x. no_operation x = Some (op_id r)) (notifications st) of
                      Some x \<Rightarrow> Inr (Some (no_id x), st)
                    | None \<Rightarrow> res_bind (notify_insert uid now n st)
                                (\<lambda>(i, st'). Inr (Some i, st')))))"

definition read_key :: "string \<Rightarrow> string \<Rightarrow> read_row \<Rightarrow> bool" where
  "read_key n u r = (nr_notification r = n \<and> nr_user r = u)"

definition read_upsert ::
  "string \<Rightarrow> string \<Rightarrow> (read_row \<Rightarrow> read_row) \<Rightarrow> store \<Rightarrow> store option" where
  "read_upsert n u f st =
     (if exists_row (read_key n u) (reads st)
      then Some (st\<lparr>reads := update_rows (read_key n u) f (reads st)\<rparr>)
      else if exists_row (\<lambda>x. no_id x = n) (notifications st) \<and> fk_user (Some u) st
      then Some (st\<lparr>reads := reads st @
             [f \<lparr>nr_notification = n, nr_user = u, nr_read_at = None, nr_dismissed_at = None\<rparr>]\<rparr>)
      else None)"

definition mark_read :: "int \<Rightarrow> string \<Rightarrow> string \<Rightarrow> store \<Rightarrow> store option" where
  "mark_read now n u = read_upsert n u (\<lambda>r. r\<lparr>nr_read_at := Some now\<rparr>)"

definition dismiss :: "int \<Rightarrow> string \<Rightarrow> string \<Rightarrow> store \<Rightarrow> store option" where
  "dismiss now n u = read_upsert n u (\<lambda>r. r\<lparr>nr_dismissed_at := Some now\<rparr>)"

fun severity_rank :: "NotificationSeverity \<Rightarrow> int" where
  "severity_rank SEV_CRITICAL = 0"
| "severity_rank SEV_HIGH = 1"
| "severity_rank SEV_NORMAL = 2"
| "severity_rank SEV_INFORMATIONAL = 3"

text \<open>The view joins a notification with the marker row of the user, if there is one;
  \<open>ORDER BY severity, created_at DESC\<close> is a stable sort.\<close>

definition list_for_user ::
  "string \<Rightarrow> bool \<Rightarrow> store \<Rightarrow> (notification_row \<times> int option \<times> int option) list" where
  "list_for_user u include_dismissed st =
     (let joined = map (\<lambda>n. case find_row (read_key (no_id n) u) (reads st) of
                              None \<Rightarrow> (n, None, None)
                            | Some r \<Rightarrow> (n, nr_read_at r, nr_dismissed_at r)) (notifications st);
          visible = (if include_dismissed then joined
                     else filter (\<lambda>(n, rd, ds). ds = None) joined) in
      sort_key (\<lambda>(n, rd, ds). (severity_rank (no_severity n), - no_created_at n)) visible)"

section \<open>Lemmas\<close>

lemma terminal_status_cases:
  "terminal_status s \<longleftrightarrow> s \<in> {OS_COMPLETED, OS_FAILED, OS_CANCELLED, OS_TIMED_OUT}"
  by (cases s) simp_all

lemma rule_category_supported:
  "terminal_notification_rule t s = Some (c, v, m) \<Longrightarrow> c \<in> set supported_categories"
  by (auto simp: terminal_notification_rule_def terminal_notification_rules_def
      supported_categories_def split: if_splits)

lemma audit_write_Some:
  assumes "audit_write uid now i st = Some st'"
  shows "\<exists>r. st' = st\<lparr>audits := audits st @ [r]\<rparr> \<and> au_id r = ''au_'' @ uid \<and>
     au_event r = ai_event i \<and> au_operation r = ai_operation i \<and> au_world r = ai_world i \<and>
     (\<forall>a\<in>set (audits st). au_id a \<noteq> au_id r)"
  using assms insert_audit_Some unfolding audit_write_def Let_def by fastforce

lemma publish_terminal_cases:
  assumes "publish_terminal_operation uid now r st = Inr (res, st')"
  shows "st' = st \<or>
     (\<exists>n. st' = st\<lparr>notifications := notifications st @ [n]\<rparr> \<and> no_operation n = Some (op_id r) \<and>
        (\<forall>x\<in>set (notifications st). no_operation x \<noteq> Some (op_id r)) \<and>
        (\<forall>x\<in>set (notifications st). no_id x \<noteq> no_id n) \<and>
        (\<exists>c v m. terminal_notification_rule (op_type r) (op_status r) = Some (c, v, m) \<and>
           no_category n = c \<and> no_severity n = v \<and> no_message n = m))"
proof (cases "st' = st")
  case False
  from False assms obtain c v m where
    rule: "terminal_notification_rule (op_type r) (op_status r) = Some (c, v, m)"
    and none: "find_row (\<lambda>x. no_operation x = Some (op_id r)) (notifications st) = None"
    and ins: "insert_notification (notification_row_of uid now
       \<lparr>ni_category = c, ni_severity = v, ni_message = m, ni_requires_action = False,
        ni_operation = Some (op_id r), ni_world = op_world r\<rparr>) st = Some st'"
    by (auto simp: publish_terminal_operation_def notify_insert_def Let_def result_simps
        split: if_splits option.splits prod.splits)
  with insert_notification_Some[OF ins] none show ?thesis
    by (auto simp: notification_row_of_def row_simps)
qed simp

lemma read_upsert_frame:
  "read_upsert n u f st = Some st' \<Longrightarrow>
     notifications st' = notifications st \<and> audits st' = audits st \<and> operations st' = operations st"
  by (auto simp: read_upsert_def split: if_splits)

end
