(* ===== verification/Realtime.thy ===== *)
theory Realtime
  imports Json
begin

text \<open>
  The realtime hub of \<open>app/services/realtime.py\<close>: events numbered per stream, a bounded
  replay buffer per stream and subscribers with a bounded queue.  A subscriber object is
  shared between the hub and the response that drains it, so subscribers live in a store
  of objects addressed by an identity, and the hub's lists hold identities.
\<close>

section \<open>Bounded buffers\<close>

definition last_n :: "nat \<Rightarrow> 'a list \<Rightarrow> 'a list" where
  "last_n n xs = drop (length xs - n) xs"

text \<open>\<open>collections.deque(maxlen=n).append\<close>.\<close>

definition deque_append :: "nat \<Rightarrow> 'a list \<Rightarrow> 'a \<Rightarrow> 'a list" where
  "deque_append n xs x =
     (let ys = (if n \<le> length xs then drop 1 xs else xs) in
      if n = 0 then [] else ys @ [x])"

lemma length_last_n [simp]: "length (last_n n xs) = min n (length xs)"
  by (simp add: last_n_def)

lemma last_n_all: "length xs \<le> n \<Longrightarrow> last_n n xs = xs"
  by (simp add: last_n_def)

lemma last_n_snoc: "last_n n (last_n n xs @ ys) = last_n n (xs @ ys)"
  by (cases "n \<le> length xs") (simp_all add: last_n_def drop_append add.commute)

lemma last_n_suffix: "\<exists>zs. xs = zs @ last_n n xs"
  unfolding last_n_def by (metis append_take_drop_id)

lemma deque_append_last_n: "length xs \<le> n \<Longrightarrow> deque_append n xs x = last_n n (xs @ [x])"
  by (cases "length xs < n") (auto simp: deque_append_def last_n_def Let_def)

locale bounded_buffer =
  fixes push :: "'b \<Rightarrow> 'x \<Rightarrow> 'b" and items :: "'b \<Rightarrow> 'x list" and cap :: "'b \<Rightarrow> nat"
    and wf :: "'b \<Rightarrow> bool"
  assumes wf_cap: "wf b \<Longrightarrow> length (items b) \<le> cap b"
    and wf_push: "wf b \<Longrightarrow> wf (push b x)"
    and cap_push: "wf b \<Longrightarrow> cap (push b x) = cap b"
    and items_push: "wf b \<Longrightarrow> items (push b x) = last_n (cap b) (items b @ [x])"
begin

lemma pushes:
  assumes "wf b"
  shows "wf (foldl push b xs) \<and> cap (foldl push b xs) = cap b \<and>
         items (foldl push b xs) = last_n (cap b) (items b @ xs)"
  using assms
proof (induction xs arbitrary: b)
  case Nil
  then show ?case by (simp add: last_n_all wf_cap)
next
  case (Cons x xs)
  then show ?case by (simp add: wf_push cap_push items_push last_n_snoc)
qed

lemma push_bounded: "wf b \<Longrightarrow> length (items (foldl push b xs)) \<le> cap b"
  using pushes[of b xs] by simp

lemma pushes_lossless:
  "wf b \<Longrightarrow> length (items b) + length xs \<le> cap b \<Longrightarrow> items (foldl push b xs) = items b @ xs"
  using pushes[of b xs] by (simp add: last_n_all)

end

interpretation deque: bounded_buffer "\<lambda>(n, xs) x. (n, deque_append n xs x)" snd fst
    "\<lambda>(n, xs). length xs \<le> n"
  by unfold_locales (auto simp: deque_append_last_n)

section \<open>Events and subscribers\<close>

record StreamEvent =
  se_sequence :: int
  se_event :: string
  se_data :: jdict

definition encode :: "StreamEvent \<Rightarrow> string" where
  "encode e = ''id: '' @ int_dec (se_sequence e) @ [CHR 0x0A] @ ''event: '' @ se_event e @ [CHR 0x0A]
     @ ''data: '' @ dumps (JObj (se_data e)) @ [CHR 0x0A, CHR 0x0A]"

record StreamSubscriber =
  sub_queue :: "string option list"
  sub_closed :: bool

definition queue_maxsize :: nat where
  "queue_maxsize = 200"

definition sub_new :: StreamSubscriber where
  "sub_new = \<lparr>sub_queue = [], sub_closed = False\<rparr>"

definition put_nowait :: "string option \<Rightarrow> string option list \<Rightarrow> string option list option" where
  "put_nowait x q = (if length q < queue_maxsize then Some (q @ [x]) else None)"

definition sub_close :: "StreamSubscriber \<Rightarrow> StreamSubscriber" where
  "sub_close s =
     (if sub_closed s then s
      else (case put_nowait None (sub_queue s) of
              None \<Rightarrow> s\<lparr>sub_closed := True\<rparr>
            | Some q \<Rightarrow> s\<lparr>sub_closed := True, sub_queue := q\<rparr>))"

definition sub_put :: "string \<Rightarrow> StreamSubscriber \<Rightarrow> bool \<times> StreamSubscriber" where
  "sub_put frame s =
     (if sub_closed s then (False, s)
      else (case put_nowait (Some frame) (sub_queue s) of
              Some q \<Rightarrow> (True, s\<lparr>sub_queue := q\<rparr>)
            | None \<Rightarrow> (False, sub_close s)))"

definition auth_expired_frame :: string where
  "auth_expired_frame = ''event: stream.error'' @ [CHR 0x0A] @ ''data: '' @
     dumps (JObj [(''code'', JStr ''AUTH_SESSION_EXPIRED'')]) @ [CHR 0x0A, CHR 0x0A]"

text \<open>One turn of the loop of \<open>frames\<close>: \<open>auth\<close> is the verdict of \<open>auth_check\<close> (absent when no
  check is given), \<open>now\<close> the monotonic clock after the wait.  An empty queue is the timeout.\<close>

datatype frame_out = Idle | Emit string | EmitLast string | Finished

definition ping_frame :: string where
  "ping_frame = '': ping'' @ [CHR 0x0A, CHR 0x0A]"

definition frames_turn ::
  "bool option \<Rightarrow> int \<Rightarrow> int \<Rightarrow> StreamSubscriber \<Rightarrow> frame_out \<times> int \<times> StreamSubscriber" where
  "frames_turn auth now keepalive s =
     (case sub_queue s of
        [] \<Rightarrow>
          (if sub_closed s then (Finished, keepalive, s)
           else if auth = Some False then (EmitLast auth_expired_frame, keepalive, s)
           else if keepalive \<le> now then (Emit ping_frame, now + 15, s)
           else (Idle, keepalive, s))
      | item # q \<Rightarrow>
          (let s' = s\<lparr>sub_queue := q\<rparr> in
           case item of
             None \<Rightarrow> (Finished, keepalive, s')
           | Some frame \<Rightarrow>
               (if auth = Some False \<and> \<not> contains_str ''event: manager.shutdown'' frame
                then (EmitLast auth_expired_frame, keepalive, s')
                else (Emit frame, keepalive, s'))))"

section \<open>The hub\<close>

record RealtimeHub =
  hub_replay_limit :: nat
  hub_next_sequence :: "(string \<times> int) list"
  hub_buffers :: "(string \<times> StreamEvent list) list"
  hub_subscribers :: "(string \<times> nat list) list"
  hub_closed :: bool
  hub_objects :: "StreamSubscriber list"

definition SSE_REPLAY_BUFFER_EVENTS :: nat where
  "SSE_REPLAY_BUFFER_EVENTS = 200"

definition hub_new :: "nat \<Rightarrow> RealtimeHub" where
  "hub_new limit = \<lparr>hub_replay_limit = limit, hub_next_sequence = [], hub_buffers = [],
     hub_subscribers = [], hub_closed = False, hub_objects = []\<rparr>"

definition dict_get :: "string \<Rightarrow> 'v \<Rightarrow> (string \<times> 'v) list \<Rightarrow> 'v" where
  "dict_get k d xs = (case map_of xs k of None \<Rightarrow> d | Some v \<Rightarrow> v)"

text \<open>Assignment to a key of a Python dict: an old key keeps its place.\<close>

fun dict_set :: "'k \<Rightarrow> 'v \<Rightarrow> ('k \<times> 'v) list \<Rightarrow> ('k \<times> 'v) list" where
  "dict_set k v [] = [(k, v)]"
| "dict_set k v ((k', v') # xs) = (if k' = k then (k, v) # xs else (k', v') # dict_set k v xs)"

lemma map_of_dict_set [simp]: "map_of (dict_set k v xs) = (map_of xs)(k \<mapsto> v)"
  by (induction xs) auto

lemma dict_get_set [simp]: "dict_get k d (dict_set k' v xs) = (if k = k' then v else dict_get k d xs)"
  by (simp add: dict_get_def)

definition next_sequence :: "string \<Rightarrow> RealtimeHub \<Rightarrow> int" where
  "next_sequence stream h = dict_get stream 1 (hub_next_sequence h)"

definition hub_buffer :: "string \<Rightarrow> RealtimeHub \<Rightarrow> StreamEvent list" where
  "hub_buffer stream h = dict_get stream [] (hub_buffers h)"

definition stream_subscribers :: "string \<Rightarrow> RealtimeHub \<Rightarrow> nat list" where
  "stream_subscribers stream h = dict_get stream [] (hub_subscribers h)"

definition append_event :: "string \<Rightarrow> StreamEvent \<Rightarrow> RealtimeHub \<Rightarrow> RealtimeHub" where
  "append_event stream ev h = h\<lparr>
     hub_next_sequence := dict_set stream (next_sequence stream h + 1) (hub_next_sequence h),
     hub_buffers := dict_set stream (deque_append (hub_replay_limit h) (hub_buffer stream h) ev)
                      (hub_buffers h)\<rparr>"

text \<open>The fan-out loop: each subscriber gets the frame; those that took it stay.\<close>

fun fan_out :: "string \<Rightarrow> nat list \<Rightarrow> StreamSubscriber list \<Rightarrow> nat list \<times> StreamSubscriber list" where
  "fan_out frame [] objs = ([], objs)"
| "fan_out frame (i # is) objs =
     (let (took, s) = sub_put frame (objs ! i);
          (live, objs') = fan_out frame is (objs[i := s]) in
      (if took then i # live else live, objs'))"

definition publish :: "string \<Rightarrow> string \<Rightarrow> jdict \<Rightarrow> RealtimeHub \<Rightarrow> StreamEvent \<times> RealtimeHub" where
  "publish stream event data h =
     (let ev = \<lparr>se_sequence = next_sequence stream h, se_event = event, se_data = data\<rparr>;
          h1 = append_event stream ev h;
          (live, objs) = fan_out (encode ev) (stream_subscribers stream h) (hub_objects h) in
      (ev, h1\<lparr>hub_subscribers := dict_set stream live (hub_subscribers h1), hub_objects := objs\<rparr>))"

definition replay :: "string \<Rightarrow> int option \<Rightarrow> RealtimeHub \<Rightarrow> StreamEvent list" where
  "replay stream last_id h =
     (case last_id of
        None \<Rightarrow> hub_buffer stream h
      | Some n \<Rightarrow> filter (\<lambda>e. n < se_sequence e) (hub_buffer stream h))"

definition subscribe :: "string \<Rightarrow> int option \<Rightarrow> RealtimeHub \<Rightarrow> nat \<times> RealtimeHub" where
  "subscribe stream last_id h =
     (let i = length (hub_objects h);
          s = foldl (\<lambda>s e. snd (sub_put (encode e) s)) sub_new (replay stream last_id h) in
      (i, h\<lparr>hub_subscribers := dict_set stream (stream_subscribers stream h @ [i]) (hub_subscribers h),
            hub_objects := hub_objects h @ [s]\<rparr>))"

definition unsubscribe :: "string \<Rightarrow> nat \<Rightarrow> RealtimeHub \<Rightarrow> RealtimeHub" where
  "unsubscribe stream i h =
     (let h1 = h\<lparr>hub_objects := (hub_objects h)[i := sub_close (hub_objects h ! i)]\<rparr> in
      case map_of (hub_subscribers h1) stream of
        None \<Rightarrow> h1
      | Some subs \<Rightarrow>
          h1\<lparr>hub_subscribers := dict_set stream (filter (\<lambda>j. j \<noteq> i) subs) (hub_subscribers h1)\<rparr>)"

definition subscriber_count :: "string \<Rightarrow> RealtimeHub \<Rightarrow> nat" where
  "subscriber_count stream h = length (stream_subscribers stream h)"

fun shutdown_streams :: "(string \<times> nat list) list \<Rightarrow> RealtimeHub \<Rightarrow> RealtimeHub" where
  "shutdown_streams [] h = h"
| "shutdown_streams ((stream, subs) # rest) h =
     (let ev = \<lparr>se_sequence = next_sequence stream h, se_event = ''manager.shutdown'', se_data = []\<rparr>;
          h1 = append_event stream ev h;
          objs = foldl (\<lambda>objs i. objs[i := sub_close (snd (sub_put (encode ev) (objs ! i)))])
                   (hub_objects h1) subs in
      shutdown_streams rest (h1\<lparr>hub_objects := objs\<rparr>))"

definition shutdown :: "RealtimeHub \<Rightarrow> RealtimeHub" where
  "shutdown h =
     (if hub_closed h then h
      else (shutdown_streams (hub_subscribers h) (h\<lparr>hub_closed := True\<rparr>))\<lparr>hub_subscribers := []\<rparr>)"

section \<open>Lemmas\<close>

lemma encode_no_blank_line_in_body:
  assumes "CHR 0x0A \<notin> set (se_event e)"
  shows "CHR 0x0A \<notin> set (''id: '' @ int_dec (se_sequence e)) \<and>
         CHR 0x0A \<notin> set (''event: '' @ se_event e) \<and>
         CHR 0x0A \<notin> set (''data: '' @ dumps (JObj (se_data e)))"
  using assms printable_no_newline[OF int_dec_printable[of "se_sequence e"]]
    printable_no_newline[OF dumps_printable(1)[of "JObj (se_data e)"]] by auto

text \<open>The well-formed hub: per stream the buffer is a run of consecutive sequence numbers
  that ends just below the next one and is no longer than the limit.\<close>

definition buffer_ok :: "nat \<Rightarrow> int \<Rightarrow> StreamEvent list \<Rightarrow> bool" where
  "buffer_ok limit nxt buf \<longleftrightarrow>
     length buf \<le> limit \<and> (\<forall>i < length buf. se_sequence (buf ! i) = nxt - int (length buf) + int i)"

definition hub_ok :: "RealtimeHub \<Rightarrow> bool" where
  "hub_ok h \<longleftrightarrow> (\<forall>stream. buffer_ok (hub_replay_limit h) (next_sequence stream h) (hub_buffer stream h))"

lemma hub_new_ok [inv_intros]: "hub_ok (hub_new limit)"
  by (simp add: hub_ok_def hub_new_def buffer_ok_def hub_buffer_def dict_get_def)

lemma buffer_ok_append:
  assumes "buffer_ok limit nxt buf" and "se_sequence ev = nxt"
  shows "buffer_ok limit (nxt + 1) (deque_append limit buf ev)"
proof -
  have "\<forall>i < length (drop 1 buf @ [ev]). se_sequence ((drop 1 buf @ [ev]) ! i) =
          nxt + 1 - int (length (drop 1 buf @ [ev])) + int i" if "buf \<noteq> []"
    using assms that by (auto simp: buffer_ok_def nth_append less_Suc_eq)
  moreover have "\<forall>i < length (buf @ [ev]). se_sequence ((buf @ [ev]) ! i) =
          nxt + 1 - int (length (buf @ [ev])) + int i"
    using assms by (auto simp: buffer_ok_def nth_append less_Suc_eq)
  ultimately show ?thesis
    using assms(1) by (cases "buf = []") (auto simp: buffer_ok_def deque_append_def Let_def)
qed

lemma next_sequence_append_event [simp]:
  "next_sequence s (append_event stream ev h) = next_sequence s h + (if s = stream then 1 else 0)"
  by (simp add: next_sequence_def append_event_def)

lemma hub_buffer_append_event [simp]:
  "hub_buffer s (append_event stream ev h) =
     (if s = stream then deque_append (hub_replay_limit h) (hub_buffer stream h) ev else hub_buffer s h)"
  by (simp add: hub_buffer_def append_event_def)

lemma hub_limit_append_event [simp]:
  "hub_replay_limit (append_event stream ev h) = hub_replay_limit h"
  by (simp add: append_event_def)

lemma append_event_ok [inv_intros]:
  "hub_ok h \<Longrightarrow> se_sequence ev = next_sequence stream h \<Longrightarrow> hub_ok (append_event stream ev h)"
  by (simp add: hub_ok_def buffer_ok_append)

lemma hub_ok_update [simp]:
  "hub_ok (h\<lparr>hub_subscribers := a\<rparr>) = hub_ok h" "hub_ok (h\<lparr>hub_objects := b\<rparr>) = hub_ok h"
  "hub_ok (h\<lparr>hub_closed := c\<rparr>) = hub_ok h"
  by (simp_all add: hub_ok_def next_sequence_def hub_buffer_def)

lemma publish_ok [inv_intros]: "hub_ok h \<Longrightarrow> hub_ok (snd (publish stream event data h))"
  by (simp add: publish_def Let_def append_event_ok split: prod.split)

lemma subscribe_ok [inv_intros]: "hub_ok h \<Longrightarrow> hub_ok (snd (subscribe stream last_id h))"
  by (simp add: subscribe_def Let_def)

lemma unsubscribe_ok [inv_intros]: "hub_ok h \<Longrightarrow> hub_ok (unsubscribe stream i h)"
  by (simp add: unsubscribe_def Let_def split: option.split)

lemma shutdown_streams_ok: "hub_ok h \<Longrightarrow> hub_ok (shutdown_streams subs h)"
proof (induction subs arbitrary: h)
  case (Cons a subs)
  then show ?case by (cases a) (simp add: Let_def append_event_ok)
qed simp

lemma shutdown_ok [inv_intros]: "hub_ok h \<Longrightarrow> hub_ok (shutdown h)"
  by (simp add: shutdown_def shutdown_streams_ok)

section \<open>Delivery\<close>

definition hub_subs_ok :: "RealtimeHub \<Rightarrow> bool" where
  "hub_subs_ok h \<longleftrightarrow> (\<forall>stream. distinct (stream_subscribers stream h) \<and>
     (\<forall>i\<in>set (stream_subscribers stream h). i < length (hub_objects h)))"

lemma fan_out_Cons:
  "fan_out f (i # is) objs =
     (let o' = objs[i := snd (sub_put f (objs ! i))]; r = fan_out f is o' in
      (if fst (sub_put f (objs ! i)) then i # fst r else fst r, snd r))"
  by (simp add: Let_def case_prod_beta)

lemmas fan_out_rec = fan_out.simps(1) fan_out_Cons

lemma fan_out_length [simp]: "length (snd (fan_out f is objs)) = length objs"
  by (induction "is" arbitrary: objs) (simp_all add: fan_out_rec Let_def del: fan_out.simps(2))

lemma fan_out_other: "i \<notin> set is \<Longrightarrow> snd (fan_out f is objs) ! i = objs ! i"
  by (induction "is" arbitrary: objs) (simp_all add: fan_out_rec Let_def del: fan_out.simps(2))

lemma fan_out_subset: "i \<in> set (fst (fan_out f is objs)) \<Longrightarrow> i \<in> set is"
  by (induction "is" arbitrary: objs)
    (auto simp add: fan_out_rec Let_def simp del: fan_out.simps(2) split: if_splits)

lemma fan_out_distinct: "distinct is \<Longrightarrow> distinct (fst (fan_out f is objs))"
  by (induction "is" arbitrary: objs)
    (auto simp add: fan_out_rec Let_def simp del: fan_out.simps(2) dest: fan_out_subset)

lemma fan_out_member:
  assumes "distinct is" and "\<forall>i\<in>set is. i < length objs" and "i \<in> set is"
  shows "snd (fan_out f is objs) ! i = snd (sub_put f (objs ! i)) \<and>
         (i \<in> set (fst (fan_out f is objs)) \<longleftrightarrow> fst (sub_put f (objs ! i)))"
  using assms
proof (induction "is" arbitrary: objs)
  case (Cons j "is")
  let ?o = "objs[j := snd (sub_put f (objs ! j))]"
  show ?case
  proof (cases "i = j")
    case True
    with Cons.prems fan_out_other[of j "is" f ?o] fan_out_subset[of j f "is" ?o]
    show ?thesis by (auto simp add: fan_out_rec Let_def simp del: fan_out.simps(2))
  next
    case False
    with Cons.IH[of ?o] Cons.prems show ?thesis
      by (auto simp add: fan_out_rec Let_def simp del: fan_out.simps(2))
  qed
qed simp

lemma stream_subscribers_publish:
  "stream_subscribers s (snd (publish stream event data h)) =
     (if s = stream then fst (fan_out (encode \<lparr>se_sequence = next_sequence stream h,
        se_event = event, se_data = data\<rparr>) (stream_subscribers stream h) (hub_objects h))
      else stream_subscribers s h)"
  by (simp add: publish_def Let_def stream_subscribers_def append_event_def split: prod.split)

lemma hub_objects_publish:
  "hub_objects (snd (publish stream event data h)) =
     snd (fan_out (encode \<lparr>se_sequence = next_sequence stream h, se_event = event,
        se_data = data\<rparr>) (stream_subscribers stream h) (hub_objects h))"
  by (simp add: publish_def Let_def split: prod.split)

lemma hub_buffer_publish:
  "hub_buffer s (snd (publish stream event data h)) =
     (if s = stream then deque_append (hub_replay_limit h) (hub_buffer stream h)
        \<lparr>se_sequence = next_sequence stream h, se_event = event, se_data = data\<rparr> else hub_buffer s h)"
  by (simp add: publish_def Let_def hub_buffer_def append_event_def split: prod.split)

lemma next_sequence_publish:
  "next_sequence s (snd (publish stream event data h)) =
     next_sequence s h + (if s = stream then 1 else 0)"
  by (simp add: publish_def Let_def next_sequence_def append_event_def split: prod.split)

lemma hub_limit_publish: "hub_replay_limit (snd (publish stream event data h)) = hub_replay_limit h"
  by (simp add: publish_def Let_def split: prod.split)

lemmas publish_simps = stream_subscribers_publish hub_objects_publish hub_buffer_publish
  next_sequence_publish hub_limit_publish

lemma publish_subs_ok [inv_intros]:
  assumes "hub_subs_ok h" shows "hub_subs_ok (snd (publish stream event data h))"
  using assms fan_out_subset
  by (fastforce simp: hub_subs_ok_def publish_simps fan_out_distinct)

lemma subscribe_subs_ok [inv_intros]:
  assumes "hub_subs_ok h" shows "hub_subs_ok (snd (subscribe stream last_id h))"
  using assms
  by (fastforce simp: hub_subs_ok_def subscribe_def Let_def stream_subscribers_def less_SucI)

text \<open>A client's run of publications on one stream, and the events they become.\<close>

definition publish_all :: "string \<Rightarrow> (string \<times> jdict) list \<Rightarrow> RealtimeHub \<Rightarrow> RealtimeHub" where
  "publish_all stream evs h = foldl (\<lambda>h (e, d). snd (publish stream e d h)) h evs"

fun numbered :: "int \<Rightarrow> (string \<times> jdict) list \<Rightarrow> StreamEvent list" where
  "numbered n [] = []"
| "numbered n ((e, d) # evs) = \<lparr>se_sequence = n, se_event = e, se_data = d\<rparr> # numbered (n + 1) evs"

lemma length_numbered [simp]: "length (numbered n evs) = length evs"
  by (induction n evs rule: numbered.induct) auto

lemma numbered_sequences: "map se_sequence (numbered n evs) = [n..n + int (length evs) - 1]"
proof (induction n evs rule: numbered.induct)
  case (2 n e d evs)
  have "[n..n + (1 + int (length evs)) - 1] = n # [n + 1..n + (1 + int (length evs)) - 1]"
    by (rule upto_rec1) simp
  with 2 show ?case by (simp add: algebra_simps)
qed simp

lemma publish_all_Cons: "publish_all stream ((e, d) # evs) h =
    publish_all stream evs (snd (publish stream e d h))"
  by (simp add: publish_all_def)

lemma publish_all_Nil [simp]: "publish_all stream [] h = h"
  by (simp add: publish_all_def)

lemma publish_all_buffer:
  assumes "hub_ok h"
  shows "hub_buffer stream (publish_all stream evs h) =
     last_n (hub_replay_limit h) (hub_buffer stream h @ numbered (next_sequence stream h) evs)"
proof -
  have "(hub_replay_limit (publish_all stream evs h), hub_buffer stream (publish_all stream evs h)) =
      foldl (\<lambda>(n, xs) x. (n, deque_append n xs x)) (hub_replay_limit h, hub_buffer stream h)
        (numbered (next_sequence stream h) evs)" for h
  proof (induction evs arbitrary: h)
    case (Cons a evs)
    then show ?case by (cases a) (simp add: publish_all_Cons publish_simps)
  qed simp
  from this[of h] deque.pushes[of "(hub_replay_limit h, hub_buffer stream h)"
      "numbered (next_sequence stream h) evs"] assms
  show ?thesis by (auto simp: hub_ok_def buffer_ok_def dest: arg_cong[where f = snd])
qed

lemma sub_put_room:
  assumes "\<not> sub_closed s" and "length (sub_queue s) < queue_maxsize"
  shows "sub_put f s = (True, s\<lparr>sub_queue := sub_queue s @ [Some f]\<rparr>)"
  using assms by (simp add: sub_put_def put_nowait_def)

lemma sub_puts_room:
  assumes "\<not> sub_closed s" and "length (sub_queue s) + length es \<le> queue_maxsize"
  shows "foldl (\<lambda>s e. snd (sub_put (encode e) s)) s es =
     s\<lparr>sub_queue := sub_queue s @ map (\<lambda>e. Some (encode e)) es\<rparr>"
  using assms by (induction es arbitrary: s) (simp_all add: sub_put_room)

lemma publish_all_delivers:
  assumes "hub_subs_ok h" and "i \<in> set (stream_subscribers stream h)"
    and "\<not> sub_closed (hub_objects h ! i)"
    and "length (sub_queue (hub_objects h ! i)) + length evs \<le> queue_maxsize"
  shows "sub_queue (hub_objects (publish_all stream evs h) ! i) = sub_queue (hub_objects h ! i) @
           map (\<lambda>e. Some (encode e)) (numbered (next_sequence stream h) evs) \<and>
         \<not> sub_closed (hub_objects (publish_all stream evs h) ! i)"
  using assms
proof (induction evs arbitrary: h)
  case (Cons a evs)
  obtain e d where a: "a = (e, d)" by fastforce
  let ?f = "encode \<lparr>se_sequence = next_sequence stream h, se_event = e, se_data = d\<rparr>"
  let ?h = "snd (publish stream e d h)"
  have put: "sub_put ?f (hub_objects h ! i) =
      (True, (hub_objects h ! i)\<lparr>sub_queue := sub_queue (hub_objects h ! i) @ [Some ?f]\<rparr>)"
    using Cons.prems by (intro sub_put_room) simp_all
  have mem: "i \<in> set (stream_subscribers stream ?h)"
      "hub_objects ?h ! i = (hub_objects h ! i)\<lparr>sub_queue := sub_queue (hub_objects h ! i) @ [Some ?f]\<rparr>"
    using Cons.prems(1,2) fan_out_member[of "stream_subscribers stream h" "hub_objects h" i ?f] put
    by (auto simp: publish_simps hub_subs_ok_def)
  show ?case
    using Cons.IH[of ?h] mem Cons.prems publish_subs_ok[OF Cons.prems(1), of stream e d]
    by (simp add: a publish_all_Cons next_sequence_publish)
qed simp

section \<open>Properties\<close>

lemma hub_subs_new: "hub_subs_ok (hub_new n)"
  by (simp add: hub_subs_ok_def hub_new_def stream_subscribers_def dict_get_def)

lemma later_sequences:
  assumes "buffer_ok limit nxt buf" and "n < nxt" and "nxt - 1 - n \<le> int (length buf)"
  shows "filter (\<lambda>e. n < se_sequence e) buf = last_n (nat (nxt - 1 - n)) buf"
proof -
  define k where "k = length buf - nat (nxt - 1 - n)"
  have k: "k \<le> length buf" "int k = int (length buf) - (nxt - 1 - n)"
    using assms(2,3) by (auto simp: k_def)
  have seq: "se_sequence (buf ! i) = nxt - int (length buf) + int i" if "i < length buf" for i
    using assms(1) that by (simp add: buffer_ok_def)
  have "filter (\<lambda>e. n < se_sequence e) (take k buf) = []"
    using seq k by (auto simp: filter_empty_conv in_set_conv_nth)
  moreover have "filter (\<lambda>e. n < se_sequence e) (drop k buf) = drop k buf"
    using seq k by (auto simp: filter_id_conv in_set_conv_nth)
  ultimately have "filter (\<lambda>e. n < se_sequence e) (take k buf @ drop k buf) = drop k buf"
    by (simp only: filter_append) simp
  then show ?thesis by (simp add: last_n_def k_def)
qed

lemma last_n_sequences:
  assumes "buffer_ok limit nxt buf" and "m \<le> length buf"
  shows "map se_sequence (last_n m buf) = [nxt - int m..nxt - 1]"
proof (rule nth_equalityI)
  show "length (map se_sequence (last_n m buf)) = length [nxt - int m..nxt - 1]"
    using assms(2) by simp
  fix i assume "i < length (map se_sequence (last_n m buf))"
  with assms show "map se_sequence (last_n m buf) ! i = [nxt - int m..nxt - 1] ! i"
    by (auto simp: last_n_def buffer_ok_def)
qed

text \<open>C37: Resuming a stream loses nothing and repeats nothing.  A client that has seen the
  events up to sequence number \<open>n\<close> and reconnects with \<open>last_event_id = n\<close>, while the replay
  buffer still covers what it missed and its queue of 200 frames has room, finds in its queue
  the frames of exactly the events \<open>n + 1, n + 2, ...\<close> in order: first what it missed, then
  everything published on the stream afterwards.\<close>

theorem resume_is_complete:
  assumes "hub_ok h" and "hub_subs_ok h" and "n < next_sequence stream h"
    and "next_sequence stream h - 1 - n \<le> int (length (hub_buffer stream h))"
    and "next_sequence stream h - 1 - n + int (length evs) \<le> int queue_maxsize"
    and "subscribe stream (Some n) h = (i, h1)"
  shows "\<exists>delivered. sub_queue (hub_objects (publish_all stream evs h1) ! i) =
           map (\<lambda>e. Some (encode e)) delivered \<and>
         map se_sequence delivered = [n + 1..next_sequence stream h - 1 + int (length evs)] \<and>
         (\<exists>missed. delivered = missed @ numbered (next_sequence stream h) evs \<and>
            set missed \<subseteq> set (hub_buffer stream h))"
proof -
  let ?nxt = "next_sequence stream h" and ?buf = "hub_buffer stream h"
  define m where "m = nat (?nxt - 1 - n)"
  have buf: "buffer_ok (hub_replay_limit h) ?nxt ?buf" using assms(1) by (simp add: hub_ok_def)
  have m: "m \<le> length ?buf" "int m = ?nxt - 1 - n" using assms(3,4) by (auto simp: m_def)
  have rep: "replay stream (Some n) h = last_n m ?buf"
    using later_sequences[OF buf assms(3,4)] by (simp add: replay_def m_def)
  have obj: "hub_objects h1 ! i = sub_new\<lparr>sub_queue := map (\<lambda>e. Some (encode e)) (last_n m ?buf)\<rparr>"
    using assms(5,6) m sub_puts_room[of sub_new "last_n m ?buf"]
    by (auto simp: subscribe_def Let_def rep sub_new_def)
  have mem: "i \<in> set (stream_subscribers stream h1)" "next_sequence stream h1 = ?nxt"
    using assms(6) by (auto simp: subscribe_def Let_def stream_subscribers_def next_sequence_def)
  have "hub_subs_ok h1" using subscribe_subs_ok[OF assms(2), of stream "Some n"] assms(6) by simp
  from publish_all_delivers[OF this mem(1), of evs] obj assms(5) m mem(2)
  have "sub_queue (hub_objects (publish_all stream evs h1) ! i) =
      map (\<lambda>e. Some (encode e)) (last_n m ?buf @ numbered ?nxt evs)"
    by (simp add: sub_new_def)
  moreover have "map se_sequence (last_n m ?buf @ numbered ?nxt evs) =
      [n + 1..?nxt - 1 + int (length evs)]"
  proof -
    have "[n + 1..?nxt - 1 + int (length evs)] =
        [n + 1..?nxt - 1] @ [?nxt..?nxt - 1 + int (length evs)]"
      using upto_split1[of "n + 1" "?nxt" "?nxt - 1 + int (length evs)"] assms(3)
      by (cases "evs = []") auto
    moreover have "map se_sequence (last_n m ?buf) = [n + 1..?nxt - 1]"
      using last_n_sequences[OF buf m(1)] m(2) by (simp add: algebra_simps)
    moreover have "map se_sequence (numbered ?nxt evs) = [?nxt..?nxt - 1 + int (length evs)]"
      using numbered_sequences[of ?nxt evs] by (simp add: algebra_simps)
    ultimately show ?thesis by simp
  qed
  moreover have "set (last_n m ?buf) \<subseteq> set ?buf"
    by (simp add: last_n_def set_drop_subset)
  ultimately show ?thesis by (intro exI[of _ "last_n m ?buf @ numbered ?nxt evs"]) blast
qed

text \<open>The replay buffer of a stream never exceeds its limit and always holds the latest
  events: after any publications on a well-formed hub it is the longest suffix, within the
  limit, of what it held followed by the new events with consecutive sequence numbers.\<close>

lemma replay_buffer_holds_latest:
  assumes "hub_ok h"
  shows "length (hub_buffer stream (publish_all stream evs h)) \<le> hub_replay_limit h \<and>
     hub_buffer stream (publish_all stream evs h) =
       last_n (hub_replay_limit h) (hub_buffer stream h @ numbered (next_sequence stream h) evs)"
  by (simp add: publish_all_buffer[OF assms])

lemma replay_buffer_holds_latest_witness:
  "length (hub_buffer ''events'' (publish_all ''events'' [(''a'', []), (''b'', []), (''c'', [])] (hub_new 2))) \<le> hub_replay_limit (hub_new 2) \<and>
   hub_buffer ''events'' (publish_all ''events'' [(''a'', []), (''b'', []), (''c'', [])] (hub_new 2)) =
     last_n (hub_replay_limit (hub_new 2)) (hub_buffer ''events'' (hub_new 2) @
       numbered (next_sequence ''events'' (hub_new 2)) [(''a'', []), (''b'', []), (''c'', [])])"
  by (rule replay_buffer_holds_latest[OF hub_new_ok])

definition sample_hub :: RealtimeHub where
  "sample_hub = publish_all ''s'' [(''a'', []), (''x'', [])] (hub_new 5)"

lemma sample_hub_facts:
  "hub_ok sample_hub" "hub_subs_ok sample_hub" "next_sequence ''s'' sample_hub = 3"
  "length (hub_buffer ''s'' sample_hub) = 2"
proof -
  show "hub_ok sample_hub" "hub_subs_ok sample_hub"
    by (simp_all add: sample_hub_def publish_all_def publish_ok publish_subs_ok hub_new_ok hub_subs_new)
  have "next_sequence ''s'' (hub_new 5) = 1" "hub_buffer ''s'' (hub_new 5) = []" "hub_replay_limit (hub_new 5) = 5"
    by (simp_all add: hub_new_def next_sequence_def hub_buffer_def dict_get_def)
  then show "next_sequence ''s'' sample_hub = 3" "length (hub_buffer ''s'' sample_hub) = 2"
    by (simp_all add: sample_hub_def publish_all_def next_sequence_publish hub_buffer_publish
        hub_limit_publish deque_append_def Let_def)
qed

theorem resume_is_complete_witness:
  "\<exists>delivered. sub_queue (hub_objects (publish_all ''s'' [(''b'', [])]
       (snd (subscribe ''s'' (Some 1) sample_hub))) ! fst (subscribe ''s'' (Some 1) sample_hub)) =
      map (\<lambda>e. Some (encode e)) delivered \<and>
    map se_sequence delivered =
      [1 + 1..next_sequence ''s'' sample_hub - 1 + int (length [(''b'', [] :: jdict)])] \<and>
    (\<exists>missed. delivered = missed @ numbered (next_sequence ''s'' sample_hub) [(''b'', [])] \<and>
       set missed \<subseteq> set (hub_buffer ''s'' sample_hub))"
  by (rule resume_is_complete) (simp_all add: sample_hub_facts queue_maxsize_def)

text \<open>An encoded event is exactly one SSE message, whatever its payload holds: as long as the
  event name has no line feed, the text is the three lines \<open>id\<close>, \<open>event\<close> and \<open>data\<close> followed by
  the blank line that ends the message, and no other line feed, since the serialised payload is
  printable ASCII.\<close>

lemma encode_is_one_message:
  assumes "CHR 0x0A \<notin> set (se_event e)"
  shows "\<exists>l1 l2 l3. encode e = l1 @ [CHR 0x0A] @ l2 @ [CHR 0x0A] @ l3 @ [CHR 0x0A, CHR 0x0A] \<and>
     l1 = ''id: '' @ int_dec (se_sequence e) \<and> l2 = ''event: '' @ se_event e \<and>
     starts_with ''data: '' l3 \<and> CHR 0x0A \<notin> set (l1 @ l2 @ l3) \<and> printable (dumps (JObj (se_data e)))"
  using encode_no_blank_line_in_body[OF assms]
  by (intro exI[of _ "''id: '' @ int_dec (se_sequence e)"] exI[of _ "''event: '' @ se_event e"]
      exI[of _ "''data: '' @ dumps (JObj (se_data e))"]) (simp add: encode_def del: dumps.simps)

lemma encode_is_one_message_witness:
  "\<exists>l1 l2 l3. encode \<lparr>se_sequence = 7, se_event = ''log.line'', se_data = [(''line'', JStr [CHR 0x0A])]\<rparr> =
      l1 @ [CHR 0x0A] @ l2 @ [CHR 0x0A] @ l3 @ [CHR 0x0A, CHR 0x0A] \<and>
     l1 = ''id: '' @ int_dec (se_sequence \<lparr>se_sequence = 7, se_event = ''log.line'', se_data = [(''line'', JStr [CHR 0x0A])]\<rparr>) \<and>
     l2 = ''event: '' @ se_event \<lparr>se_sequence = 7, se_event = ''log.line'', se_data = [(''line'', JStr [CHR 0x0A])]\<rparr> \<and>
     starts_with ''data: '' l3 \<and> CHR 0x0A \<notin> set (l1 @ l2 @ l3) \<and>
     printable (dumps (JObj (se_data \<lparr>se_sequence = 7, se_event = ''log.line'', se_data = [(''line'', JStr [CHR 0x0A])]\<rparr>)))"
  by (rule encode_is_one_message) simp

end
