(* ===== verification/Machines.thy ===== *)
theory Machines
  imports Prelude
begin

text \<open>
  Interfaces of components that move one state by guarded actions.  An action
  that is refused (the code raises) leaves the state as it was; a run attempts
  a list of actions.  The laws a component owes are the preservation of its
  invariant and, where it has them, final states that refuse every action.
\<close>

fun run_attempts :: "('s \<Rightarrow> 'a \<Rightarrow> 's option) \<Rightarrow> 's \<Rightarrow> 'a list \<Rightarrow> 's" where
  "run_attempts stp s [] = s"
| "run_attempts stp s (a # as) =
     run_attempts stp (case stp s a of None \<Rightarrow> s | Some s' \<Rightarrow> s') as"

lemma run_attempts_append:
  "run_attempts stp s (as @ bs) = run_attempts stp (run_attempts stp s as) bs"
  by (induction as arbitrary: s) auto

text \<open>Quantification over the prefixes of a concrete run, unfolded.\<close>

lemma all_le_zero: "(\<forall>n \<le> (0::nat). P n) \<longleftrightarrow> P 0"
  by simp

lemma all_le_Suc: "(\<forall>n \<le> Suc m. P n) \<longleftrightarrow> P 0 \<and> (\<forall>n \<le> m. P (Suc n))"
  using All_less_Suc2[of "Suc m" P] by (simp only: less_Suc_eq_le)

lemmas prefix_cases = all_le_zero all_le_Suc

locale guarded_machine =
  fixes stp :: "'s \<Rightarrow> 'a \<Rightarrow> 's option"
    and inv :: "'s \<Rightarrow> bool"
  assumes inv_step: "inv s \<Longrightarrow> stp s a = Some s' \<Longrightarrow> inv s'"
begin

lemma inv_run: "inv s \<Longrightarrow> inv (run_attempts stp s as)"
proof (induction as arbitrary: s)
  case (Cons a as)
  then show ?case by (cases "stp s a") (auto dest: inv_step)
qed simp

lemma stable_run:
  assumes "\<And>s s' a. inv s \<Longrightarrow> P s \<Longrightarrow> stp s a = Some s' \<Longrightarrow> P s'" and "inv s" and "P s"
  shows "P (run_attempts stp s as)"
  using assms(2,3)
proof (induction as arbitrary: s)
  case (Cons a as)
  then show ?case by (cases "stp s a") (auto dest: inv_step assms(1))
qed simp

end

locale machine_with_final = guarded_machine stp inv
  for stp :: "'s \<Rightarrow> 'a \<Rightarrow> 's option" and inv :: "'s \<Rightarrow> bool" +
  fixes final :: "'s \<Rightarrow> bool"
  assumes final_stuck: "inv s \<Longrightarrow> final s \<Longrightarrow> stp s a = None"
begin

lemma final_run: "inv s \<Longrightarrow> final s \<Longrightarrow> run_attempts stp s as = s"
  by (induction as) (auto simp: final_stuck)

lemma final_split:
  assumes "inv s" and "final (run_attempts stp s as)"
  shows "run_attempts stp s (as @ bs) = run_attempts stp s as"
  using assms by (simp add: run_attempts_append final_run inv_run)

end

end
