(* ===== verification/Operations.thy ===== *)
theory Operations
  imports Audit_Notify Realtime Machines "HOL-Library.List_Lexorder"
begin

text \<open>
  The operation engine of \<open>app/services/operations.py\<close>: durable rows with a status, the
  per-world lock derived from the rows in flight, the admission policy, idempotent replay,
  claiming of queued rows and the terminal transition with its audit record and notification.
  \<open>op_sys\<close> is the service with what it shares: the database, the hub (absent when the service
  runs without one), the two in-memory progress maps and whether a notification service is
  attached.  The identifiers one call draws from \<open>uuid4\<close> are a function \<open>u\<close> of their number;
  \<open>now\<close> is the clock.
\<close>

section \<open>Status classes and derived locks\<close>

fun in_flight :: "OperationStatus \<Rightarrow> bool" where
  "in_flight OS_CREATED = True"
| "in_flight OS_QUEUED = True"
| "in_flight OS_VALIDATING = True"
| "in_flight OS_RUNNING = True"
| "in_flight _ = False"

fun active_status :: "OperationStatus \<Rightarrow> bool" where
  "active_status OS_CREATED = True"
| "active_status OS_VALIDATING = True"
| "active_status OS_RUNNING = True"
| "active_status _ = False"

definition single_flight_types :: "OperationType set" where
  "single_flight_types = {BACKUP, RESTORE, CLEANUP}"

definition runtime_types :: "OperationType set" where
  "runtime_types = {START, STOP, KILL}"

definition has_in_flight_operation :: "string \<Rightarrow> string option \<Rightarrow> store \<Rightarrow> bool" where
  "has_in_flight_operation w exclude st =
     exists_row (\<lambda>r. op_world r = Some w \<and> in_flight (op_status r) \<and>
       (case exclude of None \<Rightarrow> True | Some i \<Rightarrow> op_id r \<noteq> i)) (operations st)"

definition has_active_operation :: "string \<Rightarrow> string \<Rightarrow> store \<Rightarrow> bool" where
  "has_active_operation w exclude st =
     exists_row (\<lambda>r. op_world r = Some w \<and> op_id r \<noteq> exclude \<and> active_status (op_status r))
       (operations st)"

definition find_op :: "string \<Rightarrow> store \<Rightarrow> op_row option" where
  "find_op i st = find_row (\<lambda>r. op_id r = i) (operations st)"

definition find_by_key :: "OperationType \<Rightarrow> string \<Rightarrow> store \<Rightarrow> op_row option" where
  "find_by_key ty k st = find_row (\<lambda>r. op_type r = ty \<and> op_key r = Some k) (operations st)"

definition active_for :: "string \<Rightarrow> store \<Rightarrow> op_row list" where
  "active_for w st = sort_key op_created_at
     (filter (\<lambda>r. op_world r = Some w \<and> in_flight (op_status r)) (operations st))"

definition list_incomplete :: "store \<Rightarrow> op_row list" where
  "list_incomplete st = sort_key op_created_at (filter (\<lambda>r. in_flight (op_status r)) (operations st))"

definition list_queued :: "OperationType list \<Rightarrow> store \<Rightarrow> op_row list" where
  "list_queued tys st = sort_key (\<lambda>r. (op_created_at r, op_id r))
     (filter (\<lambda>r. op_status r = OS_QUEUED \<and> op_type r \<in> set tys) (operations st))"

section \<open>The service\<close>

record op_sys =
  os_store :: store
  os_hub :: "RealtimeHub option"
  os_progress :: "(string \<times> jdict) list"
  os_pending :: "(string \<times> jdict) list"
  os_notify :: bool

record OperationInput =
  oi_type :: OperationType
  oi_actor_type :: ActorType
  oi_world :: "string option"
  oi_actor_user :: "string option"
  oi_key :: "string option"
  oi_data :: "jdict option"
  oi_compensates :: "string option"

datatype op_error =
    OperationConflictError OperationType "string option"
  | OperationNotFound string
  | OperationAlreadyTerminal string
  | OpIntegrityError
  | OpValueError

definition sync_artifact_id :: "jdict option \<Rightarrow> string option" where
  "sync_artifact_id d =
     (case jget ''artifact_id'' (case d of None \<Rightarrow> [] | Some x \<Rightarrow> x) of
        Some (JStr s) \<Rightarrow> (if s = [] then None else Some s)
      | _ \<Rightarrow> None)"

definition cleanup_scope :: "string option \<Rightarrow> jdict option \<Rightarrow> string option" where
  "cleanup_scope w d =
     (let default = map_option (\<lambda>i. ''world:'' @ i) w in
      case jget ''scope'' (case d of None \<Rightarrow> [] | Some x \<Rightarrow> x) of
        Some (JStr s) \<Rightarrow> (if s = [] then default else Some s)
      | _ \<Rightarrow> default)"

definition row_scope :: "op_row \<Rightarrow> string option" where
  "row_scope r = cleanup_scope (op_world r) (op_data r)"

definition has_in_flight_sync :: "string \<Rightarrow> store \<Rightarrow> bool" where
  "has_in_flight_sync a st = exists_row (\<lambda>r. op_type r = SYNC \<and> in_flight (op_status r) \<and>
     sync_artifact_id (op_data r) = Some a) (operations st)"

definition has_in_flight_cleanup_scope :: "string \<Rightarrow> store \<Rightarrow> bool" where
  "has_in_flight_cleanup_scope s st = exists_row (\<lambda>r. op_type r = CLEANUP \<and>
     in_flight (op_status r) \<and> row_scope r = Some s) (operations st)"

definition cancel_row :: "int \<Rightarrow> string \<Rightarrow> op_row \<Rightarrow> store \<Rightarrow> op_row \<times> store" where
  "cancel_row now code r st =
     (let f = (\<lambda>x. x\<lparr>op_status := OS_CANCELLED, op_finished_at := Some now,
                     op_error_code := Some code, op_updated_at := now\<rparr>);
          st' = st\<lparr>operations :=
            update_rows (\<lambda>x. op_id x = op_id r \<and> in_flight (op_status x)) f (operations st)\<rparr> in
      (case find_op (op_id r) st' of None \<Rightarrow> r | Some x \<Rightarrow> x, st'))"

fun cancel_rows :: "int \<Rightarrow> string \<Rightarrow> op_row list \<Rightarrow> store \<Rightarrow> op_row list \<times> store" where
  "cancel_rows now code [] st = ([], st)"
| "cancel_rows now code (r # rs) st =
     (let (x, st1) = cancel_row now code r st; (xs, st2) = cancel_rows now code rs st1 in
      (x # xs, st2))"

section \<open>Admission\<close>

text \<open>What remains of the policy when no row was superseded; \<open>types\<close> are the types of the
  rows in flight for the world (\<open>Some status\<close> admits, \<open>None\<close> is the conflict error).\<close>

definition policy_decision ::
  "OperationInput \<Rightarrow> op_row list \<Rightarrow> OperationStatus \<Rightarrow> OperationStatus option" where
  "policy_decision req active status =
     (let ty = oi_type req; types = set (map op_type active) in
      if ty = BACKUP then
        (if types - runtime_types - {BACKUP} \<noteq> {} then None
         else if BACKUP \<in> types then Some OS_QUEUED else Some status)
      else if ty = RESTORE \<and> types = {RESTORE} then Some OS_QUEUED
      else if ty = CLEANUP then
        (let scope = cleanup_scope (oi_world req) (oi_data req) in
         if list_ex (\<lambda>r. op_type r = CLEANUP \<and> scope \<noteq> None \<and> row_scope r = scope) active
         then Some OS_QUEUED
         else if types - runtime_types - {CLEANUP} \<noteq> {} then None else Some status)
      else if ty = STOP \<and> BACKUP \<in> types then
        (if types - {BACKUP, CLEANUP} \<noteq> {} then None else Some OS_QUEUED)
      else if ty = STOP \<and> types \<subseteq> {CLEANUP} then Some status
      else if (ty = START \<or> ty = KILL) \<and> types \<subseteq> {BACKUP, CLEANUP} then Some status
      else None)"

definition supersede_deletes ::
  "OperationInput \<Rightarrow> op_row list \<Rightarrow> op_row list \<Rightarrow> OperationStatus \<Rightarrow> int \<Rightarrow> store
    \<Rightarrow> op_error + (OperationStatus \<times> op_row list) \<times> store" where
  "supersede_deletes req active deletes status now st =
     (let (xs, st') = cancel_rows now ''superseded_by_restore'' deletes st;
          rest = filter (\<lambda>r. r \<notin> set deletes) active in
      if rest = [] then Inr ((status, xs), st')
      else if set (map op_type rest) = {RESTORE} then Inr ((OS_QUEUED, xs), st')
      else Inl (OperationConflictError (oi_type req) (oi_world req)))"

definition apply_conflict_policy ::
  "OperationInput \<Rightarrow> op_row list \<Rightarrow> OperationStatus \<Rightarrow> int \<Rightarrow> store
    \<Rightarrow> op_error + (OperationStatus \<times> op_row list) \<times> store" where
  "apply_conflict_policy req active status now st =
     (let ty = oi_type req; types = set (map op_type active);
          conflict = Inl (OperationConflictError ty (oi_world req));
          deletes = filter (\<lambda>r. op_type r = DELETE_WORLD \<and> op_status r = OS_QUEUED) active in
      if active = [] then Inr ((status, []), st)
      else if ty \<in> types \<and> ty \<notin> single_flight_types then conflict
      else if ty = KILL \<and> types = {STOP} then
        (let (xs, st') = cancel_rows now ''superseded_by_kill'' active st in Inr ((status, xs), st'))
      else if ty = RESTORE \<and> deletes \<noteq> [] then
        supersede_deletes req active deletes status now st
      else (case policy_decision req active status of
              None \<Rightarrow> conflict
            | Some s \<Rightarrow> Inr ((s, []), st)))"

section \<open>Audit and publication of terminal rows\<close>

definition terminal_payload :: "op_row \<Rightarrow> jdict" where
  "terminal_payload r =
     [(''op_type'', JStr (optype_value (op_type r))), (''status'', JStr (opstatus_value (op_status r))),
      (''error_code'', jopt_str (op_error_code r)), (''message'', jopt_str (op_message r))] @
     (if op_type r = CONFIG_EDIT then
        (let d = (case op_data r of None \<Rightarrow> [] | Some x \<Rightarrow> x) in
         map (\<lambda>k. (k, case jget k d of None \<Rightarrow> JObj [] | Some v \<Rightarrow> v))
           [''entity'', ''row_id'', ''before'', ''after''])
      else [])"

definition write_terminal_audit :: "string \<Rightarrow> int \<Rightarrow> op_row \<Rightarrow> store \<Rightarrow> store option" where
  "write_terminal_audit uid now r st =
     audit_write uid now
       \<lparr>ai_event = ''operation.'' @ lower (optype_value (op_type r)) @ ''.'' @
                   lower (opstatus_value (op_status r)),
        ai_actor = \<lparr>as_actor_type = op_actor_type r, as_user = op_actor_user r,
          as_username = (case op_actor_user r of None \<Rightarrow> None | Some i \<Rightarrow> username_of i st),
          as_device = None, as_device_name = None, as_ip = None\<rparr>,
        ai_operation = Some (op_id r), ai_world = op_world r,
        ai_payload = Some (terminal_payload r), ai_target = None, ai_annotation = None,
        ai_when = op_finished_at r\<rparr> st"

fun write_terminal_audits ::
  "(nat \<Rightarrow> string) \<Rightarrow> nat \<Rightarrow> int \<Rightarrow> op_row list \<Rightarrow> store \<Rightarrow> store option" where
  "write_terminal_audits u n now [] st = Some st"
| "write_terminal_audits u n now (r # rs) st =
     (case write_terminal_audit (u n) now r st of
        None \<Rightarrow> None
      | Some st' \<Rightarrow> write_terminal_audits u (Suc n) now rs st')"

definition op_publish :: "string \<Rightarrow> jdict \<Rightarrow> string option \<Rightarrow> op_sys \<Rightarrow> op_sys" where
  "op_publish event payload w sys =
     (case os_hub sys of
        None \<Rightarrow> sys
      | Some h \<Rightarrow>
          (let h1 = snd (publish ''events'' event payload h) in
           sys\<lparr>os_hub := Some (case w of
             None \<Rightarrow> h1
           | Some i \<Rightarrow> snd (publish (''world:'' @ i @ '':events'') event payload h1))\<rparr>))"

definition publish_created :: "op_row \<Rightarrow> op_sys \<Rightarrow> op_sys" where
  "publish_created r sys =
     (let position = (if op_status r = OS_QUEUED \<and> op_world r \<noteq> None then
            length (filter (\<lambda>x. op_world x = op_world r \<and> op_status x = OS_QUEUED \<and>
                (op_created_at x < op_created_at r \<or>
                 op_created_at x = op_created_at r \<and> op_id x \<le> op_id r)) (operations (os_store sys)))
          else 0);
          sys1 = op_publish ''operation.created''
            [(''op_id'', JStr (op_id r)), (''op_type'', JStr (optype_value (op_type r))),
             (''world_id'', jopt_str (op_world r)), (''actor_type'', JStr (actor_value (op_actor_type r))),
             (''status'', JStr (opstatus_value (op_status r))), (''queue_position'', JInt (int position))]
            (op_world r) sys in
      if 0 < position then op_publish ''queue.position''
            [(''op_id'', JStr (op_id r)), (''op_type'', JStr (optype_value (op_type r))),
             (''queue_position'', JInt (int position))] (op_world r) sys1
      else sys1)"

fun jopt_obj :: "jdict option \<Rightarrow> json" where
  "jopt_obj None = JNull"
| "jopt_obj (Some d) = JObj d"

definition publish_status :: "op_row \<Rightarrow> OperationStatus \<Rightarrow> jdict option \<Rightarrow> op_sys \<Rightarrow> op_sys" where
  "publish_status r status checkpoint sys =
     op_publish ''operation.progress''
       [(''op_id'', JStr (op_id r)), (''op_type'', JStr (optype_value (op_type r))),
        (''status'', JStr (opstatus_value status)), (''checkpoint'', jopt_obj checkpoint)]
       (op_world r) sys"

definition notification_payload :: "notification_row \<Rightarrow> jdict" where
  "notification_payload n =
     [(''notification_id'', JStr (no_id n)), (''category'', JStr (no_category n)),
      (''severity'', JStr (severity_value (no_severity n))), (''message'', JStr (no_message n)),
      (''related_operation_id'', jopt_str (no_operation n)), (''related_world_id'', jopt_str (no_world n)),
      (''requires_action'', JInt (if no_requires_action n then 1 else 0)),
      (''action_taken'', jopt_str (no_action_taken n)), (''created_at'', JInt (no_created_at n))]"

definition publish_terminal :: "op_row \<Rightarrow> op_sys \<Rightarrow> op_sys" where
  "publish_terminal r sys =
     (let sys1 = op_publish ''operation.terminal''
        [(''op_id'', JStr (op_id r)), (''op_type'', JStr (optype_value (op_type r))),
         (''world_id'', jopt_str (op_world r)), (''status'', JStr (opstatus_value (op_status r))),
         (''error_code'', jopt_str (op_error_code r)), (''message'', jopt_str (op_message r))]
        (op_world r) sys in
      if os_hub sys = None then sys1
      else case find_row (\<lambda>n. no_operation n = Some (op_id r)) (notifications (os_store sys1)) of
             None \<Rightarrow> sys1
           | Some n \<Rightarrow> op_publish ''notification'' (notification_payload n) (op_world r) sys1)"

section \<open>Creation\<close>

definition new_op_row :: "string \<Rightarrow> int \<Rightarrow> OperationInput \<Rightarrow> OperationStatus \<Rightarrow> op_row" where
  "new_op_row i now req status =
     \<lparr>op_id = i, op_type = oi_type req, op_world = oi_world req, op_actor_type = oi_actor_type req,
      op_actor_user = oi_actor_user req, op_key = oi_key req, op_status = status,
      op_checkpoint = None, op_attempt = 1, op_compensates = oi_compensates req,
      op_intent_at = now, op_started_at = (if status = OS_RUNNING then Some now else None),
      op_finished_at = None, op_error_code = None, op_message = None, op_data = oi_data req,
      op_created_at = now, op_updated_at = now\<rparr>"

text \<open>The status before the admission policy: a second sync of one artifact or a second
  cleanup of one scope waits in the queue.\<close>

definition initial_status :: "OperationInput \<Rightarrow> OperationStatus \<Rightarrow> store \<Rightarrow> OperationStatus" where
  "initial_status req status st =
     (let s1 = (if oi_type req = SYNC then
                  (case sync_artifact_id (oi_data req) of
                     None \<Rightarrow> status
                   | Some a \<Rightarrow> if has_in_flight_sync a st then OS_QUEUED else status)
                else status) in
      if oi_type req = CLEANUP then
        (case cleanup_scope (oi_world req) (oi_data req) of
           None \<Rightarrow> s1
         | Some c \<Rightarrow> if has_in_flight_cleanup_scope c st then OS_QUEUED else s1)
      else s1)"

datatype create_result = Replayed op_row | Created op_row "op_row list"

definition create_insert ::
  "(nat \<Rightarrow> string) \<Rightarrow> int \<Rightarrow> OperationInput \<Rightarrow> OperationStatus \<Rightarrow> op_row list \<Rightarrow> store
    \<Rightarrow> op_error + create_result \<times> store" where
  "create_insert u now req status terminal st =
     (let r = new_op_row (''op_'' @ u 0) now req status in
      case insert_op r st of
        None \<Rightarrow> Inl OpIntegrityError
      | Some st1 \<Rightarrow>
          (case write_terminal_audits u 1 now terminal st1 of
             None \<Rightarrow> Inl OpIntegrityError
           | Some st2 \<Rightarrow> Inr (Created r terminal, st2)))"

text \<open>The transaction of \<open>create_with_replay\<close>, from \<open>BEGIN IMMEDIATE\<close> to the commit.\<close>

definition create_tx ::
  "(nat \<Rightarrow> string) \<Rightarrow> int \<Rightarrow> OperationInput \<Rightarrow> OperationStatus \<Rightarrow> bool \<Rightarrow> store
    \<Rightarrow> op_error + create_result \<times> store" where
  "create_tx u now req init allow_world_conflict st =
     (case (case oi_key req of None \<Rightarrow> None | Some k \<Rightarrow> find_by_key (oi_type req) k st) of
        Some r \<Rightarrow> Inr (Replayed r, st)
      | None \<Rightarrow>
          (let active = (case oi_world req of None \<Rightarrow> [] | Some w \<Rightarrow> active_for w st);
               status = initial_status req init st in
           if oi_world req \<noteq> None \<and> \<not> allow_world_conflict \<and> oi_type req \<noteq> SYNC then
             (case find_row (\<lambda>r. op_type r = oi_type req \<and> (oi_type req = START \<or> oi_type req = STOP))
                     active of
                Some r \<Rightarrow> Inr (Replayed r, st)
              | None \<Rightarrow> res_bind (apply_conflict_policy req active status now st)
                  (\<lambda>((s, xs), st1). create_insert u now req s xs st1))
           else create_insert u now req status [] st))"

definition create_with_replay ::
  "(nat \<Rightarrow> string) \<Rightarrow> int \<Rightarrow> OperationInput \<Rightarrow> OperationStatus \<Rightarrow> bool \<Rightarrow> op_sys
    \<Rightarrow> op_error + (op_row \<times> bool) \<times> op_sys" where
  "create_with_replay u now req init allow sys =
     res_bind (create_tx u now req init allow (os_store sys))
       (\<lambda>(res, st'). let sys1 = sys\<lparr>os_store := st'\<rparr> in
          case res of
            Replayed r \<Rightarrow> Inr ((r, True), sys1)
          | Created r xs \<Rightarrow> Inr ((r, False), publish_created r (fold publish_terminal xs sys1)))"

section \<open>Claiming\<close>

definition claim_tx :: "int \<Rightarrow> string \<Rightarrow> store \<Rightarrow> op_row option \<times> store" where
  "claim_tx now i st =
     (case find_row (\<lambda>r. op_id r = i \<and> op_status r = OS_QUEUED) (operations st) of
        None \<Rightarrow> (None, st)
      | Some cur \<Rightarrow>
          (if (case op_world cur of None \<Rightarrow> False | Some w \<Rightarrow> has_active_operation w i st)
           then (None, st)
           else
             let st' = st\<lparr>operations := update_rows (\<lambda>r. op_id r = i \<and> op_status r = OS_QUEUED)
                   (\<lambda>r. r\<lparr>op_status := OS_RUNNING,
                          op_started_at := (case op_started_at r of None \<Rightarrow> Some now | Some t \<Rightarrow> Some t),
                          op_updated_at := now\<rparr>) (operations st)\<rparr> in
             (find_op i st', st')))"

definition claim_queued :: "int \<Rightarrow> string \<Rightarrow> op_sys \<Rightarrow> op_row option \<times> op_sys" where
  "claim_queued now i sys =
     (let (res, st') = claim_tx now i (os_store sys); sys1 = sys\<lparr>os_store := st'\<rparr> in
      case res of
        None \<Rightarrow> (None, sys1)
      | Some r \<Rightarrow> (Some r, publish_status r OS_RUNNING None sys1))"

section \<open>Transitions and progress\<close>

record transition_input =
  ti_checkpoint :: "jdict option"
  ti_error_code :: "string option"
  ti_message :: "string option"
  ti_data :: "jdict option"

definition plain_transition :: transition_input where
  "plain_transition = \<lparr>ti_checkpoint = None, ti_error_code = None, ti_message = None, ti_data = None\<rparr>"

definition transitioned_row ::
  "int \<Rightarrow> OperationStatus \<Rightarrow> transition_input \<Rightarrow> jdict option \<Rightarrow> op_row \<Rightarrow> op_row" where
  "transitioned_row now status ti checkpoint r =
     r\<lparr>op_status := status,
       op_checkpoint := (case checkpoint of None \<Rightarrow> op_checkpoint r | Some c \<Rightarrow> Some c),
       op_started_at := (if status = OS_RUNNING \<and> op_started_at r = None then Some now
                         else op_started_at r),
       op_finished_at := (if terminal_status status then Some now else op_finished_at r),
       op_error_code := ti_error_code ti, op_message := ti_message ti,
       op_data := (case ti_data ti of None \<Rightarrow> op_data r | Some d \<Rightarrow> Some d),
       op_updated_at := now\<rparr>"

definition pop_key :: "string \<Rightarrow> (string \<times> 'v) list \<Rightarrow> (string \<times> 'v) list" where
  "pop_key k xs = filter (\<lambda>kv. fst kv \<noteq> k) xs"

definition transition_tx ::
  "(nat \<Rightarrow> string) \<Rightarrow> int \<Rightarrow> bool \<Rightarrow> OperationStatus \<Rightarrow> op_row \<Rightarrow> op_row \<Rightarrow> store
    \<Rightarrow> op_error + store" where
  "transition_tx u now notify status cur updated st =
     (let st1 = st\<lparr>operations :=
            update_rows (\<lambda>x. op_id x = op_id cur) (\<lambda>_. updated) (operations st)\<rparr> in
      if \<not> terminal_status status then Inr st1
      else case write_terminal_audit (u 0) now updated st1 of
             None \<Rightarrow> Inl OpIntegrityError
           | Some st2 \<Rightarrow>
               (if \<not> notify then Inr st2
                else case publish_terminal_operation (u 1) now updated st2 of
                       Inl e \<Rightarrow> Inl (if e = NotifyIntegrity then OpIntegrityError else OpValueError)
                     | Inr (i, st3) \<Rightarrow> Inr st3))"

definition transition ::
  "(nat \<Rightarrow> string) \<Rightarrow> int \<Rightarrow> string \<Rightarrow> OperationStatus \<Rightarrow> transition_input \<Rightarrow> op_sys
    \<Rightarrow> op_error + op_row \<times> op_sys" where
  "transition u now i status ti sys =
     (case find_op i (os_store sys) of
        None \<Rightarrow> Inl (OperationNotFound i)
      | Some cur \<Rightarrow>
          (if terminal_status (op_status cur) then Inl (OperationAlreadyTerminal i)
           else if status \<noteq> OS_RUNNING \<and> \<not> terminal_status status then
             (let sys1 = (case ti_checkpoint ti of None \<Rightarrow> sys
                          | Some c \<Rightarrow> sys\<lparr>os_pending := dict_set i c (os_pending sys)\<rparr>) in
              Inr (cur, publish_status cur status (ti_checkpoint ti) sys1))
           else
             let checkpoint = (case ti_checkpoint ti of
                   Some c \<Rightarrow> Some c
                 | None \<Rightarrow> (case map_of (os_pending sys) i of
                       Some c \<Rightarrow> Some c
                     | None \<Rightarrow> map_of (os_progress sys) i));
                 updated = transitioned_row now status ti checkpoint cur in
             res_bind (transition_tx u now (os_notify sys) status cur updated (os_store sys))
               (\<lambda>st'. let sys1 = sys\<lparr>os_store := st',
                     os_progress := (if terminal_status status then pop_key i (os_progress sys)
                                     else os_progress sys),
                     os_pending := pop_key i (os_pending sys)\<rparr> in
                  Inr (updated, if terminal_status status then publish_terminal updated sys1
                                else publish_status updated status None sys1))))"

definition update_progress_in_memory ::
  "int \<Rightarrow> string \<Rightarrow> int \<Rightarrow> string \<Rightarrow> op_sys \<Rightarrow> op_error + op_sys" where
  "update_progress_in_memory now i pct step sys =
     (if \<not> (0 \<le> pct \<and> pct \<le> 100) then Inl OpValueError
      else case find_op i (os_store sys) of
        None \<Rightarrow> Inl (OperationNotFound i)
      | Some r \<Rightarrow>
          (if terminal_status (op_status r) then Inl (OperationAlreadyTerminal i)
           else
             let progress = [(''progress_pct'', JInt pct), (''step'', JStr step), (''ts'', JInt now)];
                 sys1 = sys\<lparr>os_progress := dict_set i progress (os_progress sys)\<rparr>;
                 sys2 = op_publish ''operation.progress''
                   [(''op_id'', JStr i), (''op_type'', JStr (optype_value (op_type r))),
                    (''status'', JStr (opstatus_value (op_status r))), (''checkpoint'', JObj progress),
                    (''pct'', JInt pct), (''step'', JStr step), (''ts'', JInt now)] (op_world r) sys1;
                 ev = [(''world_id'', jopt_str (op_world r)), (''operation_id'', JStr i),
                       (''stage'', JStr step), (''pct'', JInt pct)] in
             Inr (if op_type r = BACKUP then op_publish ''backup.progress'' ev (op_world r) sys2
                  else if op_type r = RESTORE then
                    op_publish ''restore.progress'' (ev @ [(''reverted'', JBool False)]) (op_world r) sys2
                  else sys2)))"

end
