(* ===== verification/Operations_Inv.thy ===== *)
theory Operations_Inv
  imports Operations
begin

text \<open>
  Invariants and properties of the operation engine: what each call does to the tables, the
  engine as a machine over its calls, key uniqueness, permanence of ended rows, exactly-once
  creation, the per-world lock, exclusive claiming and the terminal bookkeeping.
\<close>

section \<open>How rows evolve\<close>

definition row_evolves :: "op_row \<Rightarrow> op_row \<Rightarrow> bool" where
  "row_evolves r r' \<longleftrightarrow> op_id r' = op_id r \<and> op_type r' = op_type r \<and> op_world r' = op_world r \<and>
     op_key r' = op_key r \<and> op_actor_user r' = op_actor_user r \<and> op_created_at r' = op_created_at r \<and>
     (terminal_status (op_status r) \<longrightarrow> r' = r)"

definition rows_evolve :: "op_row list \<Rightarrow> op_row list \<Rightarrow> bool" where
  "rows_evolve xs ys \<longleftrightarrow> length xs \<le> length ys \<and> (\<forall>i < length xs. row_evolves (xs ! i) (ys ! i))"

lemma in_flight_not_terminal: "in_flight s \<longleftrightarrow> \<not> terminal_status s"
  by (cases s) simp_all

lemma active_in_flight: "active_status s \<Longrightarrow> in_flight s"
  by (cases s) simp_all

lemma row_evolves_refl [simp]: "row_evolves r r"
  by (simp add: row_evolves_def)

lemma row_evolves_trans: "row_evolves a b \<Longrightarrow> row_evolves b c \<Longrightarrow> row_evolves a c"
  by (auto simp: row_evolves_def)

lemma rows_evolve_refl [simp]: "rows_evolve xs xs"
  by (simp add: rows_evolve_def)

lemma rows_evolve_trans: "rows_evolve a b \<Longrightarrow> rows_evolve b c \<Longrightarrow> rows_evolve a c"
  unfolding rows_evolve_def by (meson order_trans order_less_le_trans row_evolves_trans)

lemma rows_evolve_append: "rows_evolve xs ys \<Longrightarrow> rows_evolve xs (ys @ zs)"
  by (auto simp: rows_evolve_def nth_append)

lemma rows_evolve_update:
  "(\<And>r. r \<in> set xs \<Longrightarrow> p r \<Longrightarrow> row_evolves r (f r)) \<Longrightarrow> rows_evolve xs (update_rows p f xs)"
  by (auto simp: rows_evolve_def update_rows_def)

lemma rows_evolve_member:
  assumes "rows_evolve xs ys" and "r \<in> set xs"
  shows "\<exists>r'\<in>set ys. row_evolves r r'"
  using assms unfolding rows_evolve_def by (metis in_set_conv_nth nth_mem order_less_le_trans)

section \<open>Keys\<close>

definition op_keyed :: "op_row \<Rightarrow> OperationType \<times> string option" where
  "op_keyed r = (op_type r, op_key r)"

definition ops_ok :: "op_row list \<Rightarrow> bool" where
  "ops_ok ops \<longleftrightarrow> distinct (map op_id ops) \<and>
     distinct (map op_keyed (filter (\<lambda>r. op_key r \<noteq> None) ops))"

lemma ops_ok_append:
  "ops_ok ops \<Longrightarrow> (\<forall>o'\<in>set ops. op_id o' \<noteq> op_id r) \<Longrightarrow>
   (\<forall>o'\<in>set ops. op_key r \<noteq> None \<longrightarrow> op_type o' \<noteq> op_type r \<or> op_key o' \<noteq> op_key r) \<Longrightarrow>
   ops_ok (ops @ [r])"
  by (auto simp: ops_ok_def op_keyed_def)

lemma filter_update_rows_keep:
  "(\<And>r. r \<in> set xs \<Longrightarrow> p r \<Longrightarrow> q (f r) = q r) \<Longrightarrow>
   (\<And>r. r \<in> set xs \<Longrightarrow> p r \<Longrightarrow> k (f r) = k r) \<Longrightarrow>
   map k (filter q (update_rows p f xs)) = map k (filter q xs)"
  by (induction xs) (auto simp: row_simps)

lemma map_update_rows_keep:
  "(\<And>r. r \<in> set xs \<Longrightarrow> p r \<Longrightarrow> k (f r) = k r) \<Longrightarrow> map k (update_rows p f xs) = map k xs"
  by (induction xs) (auto simp: row_simps)

lemma ops_ok_update:
  assumes "ops_ok ops" and "\<And>r. r \<in> set ops \<Longrightarrow> p r \<Longrightarrow> row_evolves r (f r)"
  shows "ops_ok (update_rows p f ops)"
proof -
  have "map op_id (update_rows p f ops) = map op_id ops"
    by (rule map_update_rows_keep) (use assms(2) in \<open>auto simp: row_evolves_def\<close>)
  moreover have "map op_keyed (filter (\<lambda>r. op_key r \<noteq> None) (update_rows p f ops)) =
      map op_keyed (filter (\<lambda>r. op_key r \<noteq> None) ops)"
    by (rule filter_update_rows_keep) (use assms(2) in \<open>auto simp: row_evolves_def op_keyed_def\<close>)
  ultimately show ?thesis using assms(1) by (simp add: ops_ok_def)
qed

lemma ops_ok_unique:
  "ops_ok ops \<Longrightarrow> r \<in> set ops \<Longrightarrow> s \<in> set ops \<Longrightarrow> op_id r = op_id s \<Longrightarrow> r = s"
  unfolding ops_ok_def using distinct_map_same by metis

lemma ops_ok_key_unique:
  assumes "ops_ok ops" and "r \<in> set ops" and "s \<in> set ops" and "op_key r = Some k"
    and "op_key s = Some k" and "op_type r = op_type s"
  shows "r = s"
  using assms distinct_map_same[of op_keyed "filter (\<lambda>r. op_key r \<noteq> None) ops" r s]
  by (auto simp: ops_ok_def op_keyed_def)

lemma find_op_SomeD: "find_op i st = Some r \<Longrightarrow> r \<in> set (operations st) \<and> op_id r = i"
  by (auto simp: find_op_def dest: find_row_SomeD)

lemma find_op_unique:
  "ops_ok (operations st) \<Longrightarrow> r \<in> set (operations st) \<Longrightarrow> find_op (op_id r) st = Some r"
  unfolding find_op_def ops_ok_def using find_row_unique by metis

lemma find_by_key_SomeD:
  "find_by_key ty k st = Some r \<Longrightarrow> r \<in> set (operations st) \<and> op_type r = ty \<and> op_key r = Some k"
  by (auto simp: find_by_key_def dest: find_row_SomeD)

lemma find_by_key_unique:
  assumes "ops_ok (operations st)" and "r \<in> set (operations st)" and "op_key r = Some k"
  shows "find_by_key (op_type r) k st = Some r"
proof -
  obtain s where "find_by_key (op_type r) k st = Some s"
    using find_row_Some_iff_ex[of "\<lambda>s. op_type s = op_type r \<and> op_key s = Some k" "operations st"]
      assms(2,3) by (auto simp: find_by_key_def)
  with find_by_key_SomeD[OF this] ops_ok_key_unique[OF assms(1)] assms show ?thesis by metis
qed

section \<open>Cancelling rows\<close>

definition cancelled :: "int \<Rightarrow> string \<Rightarrow> op_row \<Rightarrow> op_row" where
  "cancelled now code x = x\<lparr>op_status := OS_CANCELLED, op_finished_at := Some now,
     op_error_code := Some code, op_updated_at := now\<rparr>"

lemma cancelled_evolves: "in_flight (op_status r) \<Longrightarrow> row_evolves r (cancelled now code r)"
  by (simp add: row_evolves_def cancelled_def in_flight_not_terminal)

lemma update_rows_comp:
  assumes "\<And>r. p r \<Longrightarrow> \<not> q (f r)"
  shows "update_rows q f (update_rows p f xs) = update_rows (\<lambda>r. p r \<or> q r) f xs"
  using assms by (auto simp: update_rows_def)

lemma cancel_row_store:
  "snd (cancel_row now code r st) = st\<lparr>operations :=
     update_rows (\<lambda>x. op_id x = op_id r \<and> in_flight (op_status x)) (cancelled now code) (operations st)\<rparr>"
  by (simp add: cancel_row_def Let_def cancelled_def[abs_def])

lemma cancel_rows_store:
  "snd (cancel_rows now code rs st) = st\<lparr>operations :=
     update_rows (\<lambda>x. op_id x \<in> op_id ` set rs \<and> in_flight (op_status x)) (cancelled now code)
       (operations st)\<rparr>"
proof (induction rs arbitrary: st)
  case Nil
  then show ?case by (simp add: update_rows_def)
next
  case (Cons r rs)
  let ?st = "snd (cancel_row now code r st)"
  have "snd (cancel_rows now code (r # rs) st) = snd (cancel_rows now code rs ?st)"
    by (simp add: case_prod_beta Let_def)
  also have "\<dots> = st\<lparr>operations := update_rows (\<lambda>x. op_id x \<in> op_id ` set rs \<and> in_flight (op_status x))
      (cancelled now code) (update_rows (\<lambda>x. op_id x = op_id r \<and> in_flight (op_status x))
        (cancelled now code) (operations st))\<rparr>"
    by (simp add: Cons.IH cancel_row_store)
  also have "\<dots> = st\<lparr>operations := update_rows (\<lambda>x. op_id x \<in> op_id ` set (r # rs) \<and>
      in_flight (op_status x)) (cancelled now code) (operations st)\<rparr>"
    by (subst update_rows_comp) (auto simp: cancelled_def update_rows_def)
  finally show ?case .
qed

lemma cancel_row_result:
  assumes "ops_ok (operations st)" and "r \<in> set (operations st)" and "in_flight (op_status r)"
  shows "fst (cancel_row now code r st) = cancelled now code r"
proof -
  let ?ops = "update_rows (\<lambda>x. op_id x = op_id r \<and> in_flight (op_status x)) (cancelled now code) (operations st)"
  have "ops_ok ?ops"
    by (rule ops_ok_update[OF assms(1)]) (auto intro: cancelled_evolves)
  moreover have "cancelled now code r \<in> set ?ops"
    using assms by (auto simp: in_update_rows)
  moreover have "op_id (cancelled now code r) = op_id r" by (simp add: cancelled_def)
  ultimately have "find_op (op_id r) (st\<lparr>operations := ?ops\<rparr>) = Some (cancelled now code r)"
    using find_op_unique[of "st\<lparr>operations := ?ops\<rparr>" "cancelled now code r"] by simp
  then show ?thesis
    by (simp add: cancel_row_def Let_def cancelled_def[abs_def])
qed

lemma cancel_rows_result:
  assumes "ops_ok (operations st)" and "distinct (map op_id rs)"
    and "\<forall>r\<in>set rs. r \<in> set (operations st) \<and> in_flight (op_status r)"
  shows "fst (cancel_rows now code rs st) = map (cancelled now code) rs"
  using assms
proof (induction rs arbitrary: st)
  case (Cons r rs)
  let ?st = "snd (cancel_row now code r st)"
  have ok: "ops_ok (operations ?st)"
    unfolding cancel_row_store using Cons.prems(1)
    by (auto intro!: ops_ok_update cancelled_evolves)
  have "\<forall>x\<in>set rs. x \<in> set (operations ?st) \<and> in_flight (op_status x)"
  proof
    fix x assume x: "x \<in> set rs"
    with Cons.prems(2) have "op_id x \<noteq> op_id r" by (auto simp: image_iff)
    with x Cons.prems(3) show "x \<in> set (operations ?st) \<and> in_flight (op_status x)"
      by (simp add: cancel_row_store in_update_rows)
  qed
  with Cons.IH[OF ok] Cons.prems have "fst (cancel_rows now code rs ?st) = map (cancelled now code) rs"
    by simp
  with cancel_row_result[OF Cons.prems(1), of r now code] Cons.prems(3) show ?case
    by (simp add: case_prod_beta Let_def)
qed simp

section \<open>Audits of ended rows\<close>

lemma write_terminal_audit_Some:
  assumes "write_terminal_audit u now r st = Some st'"
  shows "\<exists>a. st' = st\<lparr>audits := audits st @ [a]\<rparr> \<and> au_operation a = Some (op_id r) \<and>
     au_world a = op_world r \<and>
     au_event a = ''operation.'' @ lower (optype_value (op_type r)) @ ''.'' @
                    lower (opstatus_value (op_status r))"
  using audit_write_Some[OF assms[unfolded write_terminal_audit_def]] by auto

lemma write_terminal_audits_Some:
  assumes "write_terminal_audits u n now rs st = Some st'"
  shows "\<exists>as. st' = st\<lparr>audits := audits st @ as\<rparr> \<and>
     map au_operation as = map (\<lambda>r. Some (op_id r)) rs \<and>
     (\<forall>a\<in>set as. starts_with ''operation.'' (au_event a))"
  using assms
proof (induction rs arbitrary: n st)
  case Nil
  then show ?case by (intro exI[of _ "[]"]) simp
next
  case (Cons r rs)
  from Cons.prems obtain st1 where st1: "write_terminal_audit (u n) now r st = Some st1"
      "write_terminal_audits u (Suc n) now rs st1 = Some st'"
    by (auto split: option.splits)
  from write_terminal_audit_Some[OF st1(1)] obtain a where
    a: "st1 = st\<lparr>audits := audits st @ [a]\<rparr>" "au_operation a = Some (op_id r)"
      "starts_with ''operation.'' (au_event a)" by auto
  from Cons.IH[OF st1(2)] obtain as where
    "st' = st1\<lparr>audits := audits st1 @ as\<rparr>" "map au_operation as = map (\<lambda>r. Some (op_id r)) rs"
    "\<forall>a\<in>set as. starts_with ''operation.'' (au_event a)" by blast
  with a show ?case by (intro exI[of _ "a # as"]) simp
qed

section \<open>The admission policy\<close>

definition coexist :: "OperationType \<Rightarrow> OperationType \<Rightarrow> bool" where
  "coexist a b \<longleftrightarrow> a = SYNC \<or> b = SYNC \<or> (a = b \<and> a \<in> single_flight_types) \<or>
     (a \<in> runtime_types \<and> b \<in> {BACKUP, CLEANUP}) \<or> (b \<in> runtime_types \<and> a \<in> {BACKUP, CLEANUP})"

lemma coexist_sym: "coexist a b \<longleftrightarrow> coexist b a"
  by (auto simp: coexist_def)

lemma policy_decision_coexist:
  assumes "policy_decision req active status = Some s"
    and lock: "\<And>r q. r \<in> set active \<Longrightarrow> q \<in> set active \<Longrightarrow> r \<noteq> q \<Longrightarrow> coexist (op_type r) (op_type q)"
    and r: "r \<in> set active"
  shows "coexist (oi_type req) (op_type r)"
proof -
  let ?ty = "oi_type req" and ?types = "op_type ` set active"
  note defs = policy_decision_def Let_def coexist_def runtime_types_def single_flight_types_def
  have r': "op_type r \<in> ?types" using r by simp
  consider "?ty = BACKUP" | "?ty = RESTORE" | "?ty = CLEANUP" | "?ty = STOP" | "?ty = START \<or> ?ty = KILL"
    | "?ty \<notin> {BACKUP, RESTORE, CLEANUP, STOP, START, KILL}" by blast
  then show ?thesis
  proof cases
    case 1
    with assms(1) r' show ?thesis by (auto simp: defs split: if_splits)
  next
    case 2
    with assms(1) r' show ?thesis by (auto simp: defs split: if_splits)
  next
    case 3
    show ?thesis
    proof (cases "list_ex (\<lambda>r. op_type r = CLEANUP) active")
      case True
      then obtain q where q: "q \<in> set active" "op_type q = CLEANUP" by (auto simp: list_ex_iff)
      with lock[OF q(1) r] 3 show ?thesis by (cases "q = r") (auto simp: defs)
    next
      case False
      then have "\<not> list_ex (\<lambda>r. op_type r = CLEANUP \<and> cleanup_scope (oi_world req) (oi_data req) \<noteq> None \<and>
          row_scope r = cleanup_scope (oi_world req) (oi_data req)) active"
        by (auto simp: list_ex_iff)
      with 3 assms(1) have "?types - runtime_types - {CLEANUP} = {}"
        by (simp add: policy_decision_def Let_def split: if_splits)
      with 3 r' show ?thesis by (auto simp: defs)
    qed
  next
    case 4
    with assms(1) r' show ?thesis by (auto simp: defs split: if_splits)
  next
    case 5
    with assms(1) have "?types \<subseteq> {BACKUP, CLEANUP}"
      by (auto simp: policy_decision_def Let_def split: if_splits)
    with 5 r' show ?thesis by (auto simp: coexist_def runtime_types_def)
  next
    case 6
    with assms(1) show ?thesis by (auto simp: policy_decision_def Let_def split: if_splits)
  qed
qed

lemma supersede_deletes_Inr:
  assumes "supersede_deletes req active dels status now st = Inr ((s, xs), st')"
  shows "(xs, st') = cancel_rows now ''superseded_by_restore'' dels st"
    and "filter (\<lambda>r. r \<notin> set dels) active = [] \<or>
         set (map op_type (filter (\<lambda>r. r \<notin> set dels) active)) = {RESTORE}"
proof -
  define rest where "rest = filter (\<lambda>r. r \<notin> set dels) active"
  obtain ys st1 where c: "cancel_rows now ''superseded_by_restore'' dels st = (ys, st1)" by fastforce
  have "(if rest = [] then Inr ((status, ys), st1)
      else if set (map op_type rest) = {RESTORE} then Inr ((OS_QUEUED, ys), st1)
      else Inl (OperationConflictError (oi_type req) (oi_world req))) = Inr ((s, xs), st')"
    using assms unfolding supersede_deletes_def c Let_def rest_def[symmetric] by simp
  then have *: "(rest = [] \<or> set (map op_type rest) = {RESTORE}) \<and> ys = xs \<and> st1 = st'"
    by (cases "rest = []"; cases "set (map op_type rest) = {RESTORE}") simp_all
  show "(xs, st') = cancel_rows now ''superseded_by_restore'' dels st" using * c by simp
  show "filter (\<lambda>r. r \<notin> set dels) active = [] \<or>
      set (map op_type (filter (\<lambda>r. r \<notin> set dels) active)) = {RESTORE}"
    using * unfolding rest_def by blast
qed

definition pairwise_coexist :: "op_row list \<Rightarrow> bool" where
  "pairwise_coexist active \<longleftrightarrow> (\<forall>r\<in>set active. \<forall>q\<in>set active. r \<noteq> q \<longrightarrow> coexist (op_type r) (op_type q))"

lemma apply_policy_effect:
  assumes "apply_conflict_policy req active status now st = Inr ((s, xs), st')"
  shows "\<exists>code dead. (xs, st') = cancel_rows now code dead st \<and>
     (\<exists>p. dead = filter p active) \<and>
     (pairwise_coexist active \<longrightarrow> (\<forall>r\<in>set active. r \<notin> set dead \<longrightarrow> coexist (oi_type req) (op_type r)))"
proof -
  let ?dels = "filter (\<lambda>r. op_type r = DELETE_WORLD \<and> op_status r = OS_QUEUED) active"
  consider (none) "active = []"
    | (kill) "active \<noteq> []" "oi_type req = KILL" "set (map op_type active) = {STOP}"
    | (restore) "active \<noteq> []" "oi_type req = RESTORE" "?dels \<noteq> []"
    | (other) "active \<noteq> []" "\<not> (oi_type req = KILL \<and> set (map op_type active) = {STOP})"
        "\<not> (oi_type req = RESTORE \<and> ?dels \<noteq> [])" by blast
  then show ?thesis
  proof cases
    case none
    with assms(1) show ?thesis
      by (intro exI[of _ "[]"] exI[of _ "[]"]) (simp add: apply_conflict_policy_def)
  next
    case kill
    with assms(1) have "(xs, st') = cancel_rows now ''superseded_by_kill'' active st"
      by (simp add: apply_conflict_policy_def Let_def split: if_splits prod.splits)
    then show ?thesis
      by (intro exI[of _ "''superseded_by_kill''"] exI[of _ active] conjI exI[of _ "\<lambda>_. True"]) simp_all
  next
    case restore
    let ?rest = "filter (\<lambda>r. r \<notin> set ?dels) active"
    from restore assms(1) have "supersede_deletes req active ?dels status now st = Inr ((s, xs), st')"
      by (simp add: apply_conflict_policy_def Let_def single_flight_types_def del: filter_empty_conv)
    then have c: "(xs, st') = cancel_rows now ''superseded_by_restore'' ?dels st"
        "?rest = [] \<or> set (map op_type ?rest) = {RESTORE}"
      by (rule supersede_deletes_Inr)+
    have "coexist RESTORE (op_type r)" if "r \<in> set active" "r \<notin> set ?dels" for r
    proof -
      from that have "r \<in> set ?rest" by simp
      then have "op_type r \<in> set (map op_type ?rest)" "?rest \<noteq> []"
        unfolding set_map by (blast, metis empty_iff empty_set)
      with c(2) have "op_type r = RESTORE" by blast
      then show ?thesis by (simp add: coexist_def single_flight_types_def)
    qed
    with restore(2) have all: "\<forall>r\<in>set active. r \<notin> set ?dels \<longrightarrow> coexist (oi_type req) (op_type r)"
      by metis
    show ?thesis
      by (rule exI, rule exI, rule conjI, rule c(1), rule conjI, rule exI, rule refl, rule impI, rule all)
  next
    case other
    with assms(1) have "policy_decision req active status = Some s \<and> xs = [] \<and> st' = st"
      by (simp add: apply_conflict_policy_def Let_def split: if_splits option.splits del: set_map set_filter)
    with policy_decision_coexist[of req active status s] show ?thesis
      by (intro exI[of _ "[]"] exI[of _ "[]"] conjI exI[of _ "\<lambda>_. False"]) (simp_all add: pairwise_coexist_def)
  qed
qed

lemma policy_decision_status:
  "policy_decision req active status = Some s \<Longrightarrow> s = status \<or> s = OS_QUEUED"
  unfolding policy_decision_def Let_def by (simp split: if_splits)

lemma supersede_deletes_status:
  assumes "supersede_deletes req active dels status now st = Inr ((s, xs), st')"
  shows "s = status \<or> s = OS_QUEUED"
proof -
  define rest where "rest = filter (\<lambda>r. r \<notin> set dels) active"
  show ?thesis
    using assms unfolding supersede_deletes_def case_prod_beta Let_def rest_def[symmetric]
    by (cases "rest = []"; cases "set (map op_type rest) = {RESTORE}") simp_all
qed

lemma apply_policy_status:
  assumes "apply_conflict_policy req active status now st = Inr ((s, xs), st')"
  shows "s = status \<or> s = OS_QUEUED"
proof -
  define dels where "dels = filter (\<lambda>r. op_type r = DELETE_WORLD \<and> op_status r = OS_QUEUED) active"
  define kill where "kill \<longleftrightarrow> oi_type req = KILL \<and> set (map op_type active) = {STOP}"
  have "(if active = [] then Inr ((status, []), st)
      else if oi_type req \<in> set (map op_type active) \<and> oi_type req \<notin> single_flight_types
        then Inl (OperationConflictError (oi_type req) (oi_world req))
      else if kill then (let (xs, st') = cancel_rows now ''superseded_by_kill'' active st in Inr ((status, xs), st'))
      else if oi_type req = RESTORE \<and> dels \<noteq> [] then supersede_deletes req active dels status now st
      else (case policy_decision req active status of
              None \<Rightarrow> Inl (OperationConflictError (oi_type req) (oi_world req))
            | Some s \<Rightarrow> Inr ((s, []), st))) = Inr ((s, xs), st')"
    using assms unfolding apply_conflict_policy_def Let_def dels_def kill_def by simp
  then show ?thesis
    using supersede_deletes_status[of req active dels status now st s xs st']
      policy_decision_status[of req active status s]
    by (auto simp: Let_def case_prod_beta split: if_splits option.splits)
qed

lemma initial_status_cases: "initial_status req init st = init \<or> initial_status req init st = OS_QUEUED"
  by (simp add: initial_status_def Let_def split: option.split)

section \<open>What creation does\<close>

lemma active_for_set:
  "set (active_for w st) = {r \<in> set (operations st). op_world r = Some w \<and> in_flight (op_status r)}"
  by (auto simp: active_for_def)

lemma active_for_distinct: "ops_ok (operations st) \<Longrightarrow> distinct (map op_id (active_for w st))"
  unfolding active_for_def ops_ok_def
  by (auto simp: distinct_map inj_on_def)

definition create_effect ::
  "int \<Rightarrow> OperationInput \<Rightarrow> op_row \<Rightarrow> string \<Rightarrow> op_row list \<Rightarrow> store \<Rightarrow> store \<Rightarrow> bool" where
  "create_effect now req r code dead st st' \<longleftrightarrow>
     set dead \<subseteq> {x \<in> set (operations st). op_world x = oi_world req \<and> op_world x \<noteq> None \<and> in_flight (op_status x)} \<and>
     distinct (map op_id dead) \<and>
     operations st' = update_rows (\<lambda>x. op_id x \<in> op_id ` set dead \<and> in_flight (op_status x))
       (cancelled now code) (operations st) @ [r] \<and>
     (\<exists>as. audits st' = audits st @ as \<and> map au_operation as = map (\<lambda>x. Some (op_id x)) dead \<and>
        (\<forall>a\<in>set as. starts_with ''operation.'' (au_event a))) \<and>
     notifications st' = notifications st \<and>
     (\<exists>ops al. st' = st\<lparr>operations := ops, audits := al\<rparr>) \<and>
     (\<forall>x\<in>set (operations st). op_id x \<noteq> op_id r \<and>
        (op_key r \<noteq> None \<longrightarrow> op_type x \<noteq> op_type r \<or> op_key x \<noteq> op_key r))"

lemma create_insert_effect:
  assumes ok: "ops_ok (operations st)"
    and dead: "set dead \<subseteq> {x \<in> set (operations st). op_world x = oi_world req \<and> op_world x \<noteq> None \<and> in_flight (op_status x)}"
      "distinct (map op_id dead)"
    and c: "cancel_rows now code dead st = (xs, st1)"
    and ins: "create_insert u now req s xs st1 = Inr (res, st')"
  shows "xs = map (cancelled now code) dead \<and>
     res = Created (new_op_row (''op_'' @ u 0) now req s) xs \<and>
     create_effect now req (new_op_row (''op_'' @ u 0) now req s) code dead st st'"
proof -
  let ?r = "new_op_row (''op_'' @ u 0) now req s"
  let ?ops = "update_rows (\<lambda>x. op_id x \<in> op_id ` set dead \<and> in_flight (op_status x)) (cancelled now code) (operations st)"
  have xs: "xs = map (cancelled now code) dead"
    using cancel_rows_result[OF ok dead(2), of now code] dead(1) c by auto
  have st1: "st1 = st\<lparr>operations := ?ops\<rparr>"
    using cancel_rows_store[of now code dead st] c by simp
  from ins obtain st2 where st2: "insert_op ?r st1 = Some st2"
      "write_terminal_audits u 1 now xs st2 = Some st'" "res = Created ?r xs"
    by (auto simp: create_insert_def Let_def split: option.splits)
  from insert_op_Some[OF st2(1)] st1 have i: "st2 = st1\<lparr>operations := ?ops @ [?r]\<rparr>"
    "\<forall>x\<in>set ?ops. op_id x \<noteq> op_id ?r"
    "\<forall>x\<in>set ?ops. op_key ?r \<noteq> None \<longrightarrow> op_type x \<noteq> op_type ?r \<or> op_key x \<noteq> op_key ?r"
    by auto
  have evo: "rows_evolve (operations st) ?ops"
    by (rule rows_evolve_update) (auto intro: cancelled_evolves)
  have fresh: "\<forall>x\<in>set (operations st). op_id x \<noteq> op_id ?r \<and>
        (op_key ?r \<noteq> None \<longrightarrow> op_type x \<noteq> op_type ?r \<or> op_key x \<noteq> op_key ?r)"
  proof
    fix x assume "x \<in> set (operations st)"
    from rows_evolve_member[OF evo this] obtain y where y: "y \<in> set ?ops" "row_evolves x y" by blast
    from y(2) have "op_id y = op_id x" "op_type y = op_type x" "op_key y = op_key x"
      by (simp_all add: row_evolves_def)
    with bspec[OF i(2) y(1)] bspec[OF i(3) y(1)] show "op_id x \<noteq> op_id ?r \<and>
        (op_key ?r \<noteq> None \<longrightarrow> op_type x \<noteq> op_type ?r \<or> op_key x \<noteq> op_key ?r)"
      by simp
  qed
  from write_terminal_audits_Some[OF st2(2)] obtain as where
    as: "st' = st2\<lparr>audits := audits st2 @ as\<rparr>" "map au_operation as = map (\<lambda>r. Some (op_id r)) xs"
      "\<forall>a\<in>set as. starts_with ''operation.'' (au_event a)" by blast
  have "map (\<lambda>r. Some (op_id r)) xs = map (\<lambda>r. Some (op_id r)) dead"
    by (simp add: xs cancelled_def)
  with as i(1) st1 have "operations st' = ?ops @ [?r]"
      "audits st' = audits st @ as \<and> map au_operation as = map (\<lambda>x. Some (op_id x)) dead"
      "notifications st' = notifications st"
    by simp_all
  moreover from as i(1) st1 have "st' = st\<lparr>operations := ?ops @ [?r], audits := audits st @ as\<rparr>"
    by simp
  ultimately show ?thesis
    using fresh dead xs st2(3) as(3) by (simp add: create_effect_def) blast
qed

definition guarded_request :: "OperationInput \<Rightarrow> bool \<Rightarrow> bool" where
  "guarded_request req allow \<longleftrightarrow> oi_world req \<noteq> None \<and> \<not> allow \<and> oi_type req \<noteq> SYNC"

lemma create_tx_effect:
  assumes ok: "ops_ok (operations st)" and tx: "create_tx u now req init allow st = Inr (res, st')"
  shows "(\<exists>r. res = Replayed r \<and> st' = st \<and> r \<in> set (operations st) \<and> op_type r = oi_type req) \<or>
     (\<exists>r s code dead. res = Created r (map (cancelled now code) dead) \<and>
        r = new_op_row (''op_'' @ u 0) now req s \<and> (s = init \<or> s = OS_QUEUED) \<and>
        create_effect now req r code dead st st' \<and>
        (guarded_request req allow \<longrightarrow> pairwise_coexist (active_for (the (oi_world req)) st) \<longrightarrow>
           (\<forall>x\<in>set (active_for (the (oi_world req)) st). x \<notin> set dead \<longrightarrow>
              coexist (oi_type req) (op_type x))))"
proof (cases "case oi_key req of None \<Rightarrow> None | Some k \<Rightarrow> find_by_key (oi_type req) k st")
  case (Some r)
  with tx show ?thesis
    by (auto simp: create_tx_def dest: find_by_key_SomeD split: option.splits)
next
  case None
  note nokey = this
  let ?status = "initial_status req init st"
  show ?thesis
  proof (cases "guarded_request req allow")
    case False
    with tx nokey have "create_insert u now req ?status [] st = Inr (res, st')"
      by (auto simp: create_tx_def guarded_request_def Let_def)
    from create_insert_effect[OF ok, of "[]" req now "[]" "[]" st u ?status res st'] this False
      initial_status_cases[of req init st]
    show ?thesis by (auto intro!: exI[of _ "[]"])
  next
    case True
    then obtain w where w: "oi_world req = Some w" by (auto simp: guarded_request_def)
    let ?active = "active_for w st"
    show ?thesis
    proof (cases "find_row (\<lambda>r. op_type r = oi_type req \<and> (oi_type req = START \<or> oi_type req = STOP)) ?active")
      case (Some r)
      with tx nokey True w have "res = Replayed r \<and> st' = st"
        by (simp add: create_tx_def guarded_request_def)
      with find_row_SomeD[OF Some] show ?thesis by (auto simp: active_for_set)
    next
      case None
      with tx nokey True w obtain s xs st1 where
        pol: "apply_conflict_policy req ?active ?status now st = Inr ((s, xs), st1)"
        and ins: "create_insert u now req s xs st1 = Inr (res, st')"
        by (auto simp: create_tx_def guarded_request_def result_simps)
      from apply_policy_effect[OF pol] obtain code dead p where
        c: "cancel_rows now code dead st = (xs, st1)" and d: "dead = filter p ?active"
        and co: "pairwise_coexist ?active \<longrightarrow>
          (\<forall>r\<in>set ?active. r \<notin> set dead \<longrightarrow> coexist (oi_type req) (op_type r))" by metis
      have "set dead \<subseteq> {x \<in> set (operations st). op_world x = oi_world req \<and> op_world x \<noteq> None \<and> in_flight (op_status x)}"
        using d w active_for_set[of w st] by auto
      moreover have "distinct (map op_id dead)"
        using d active_for_distinct[OF ok, of w] by (simp add: distinct_map_filter)
      ultimately have "xs = map (cancelled now code) dead \<and>
          res = Created (new_op_row (''op_'' @ u 0) now req s) xs \<and>
          create_effect now req (new_op_row (''op_'' @ u 0) now req s) code dead st st'"
        by (rule create_insert_effect[OF ok _ _ c ins])
      with co w apply_policy_status[OF pol] initial_status_cases[of req init st] show ?thesis
        by auto
    qed
  qed
qed

section \<open>What claiming and transitions do\<close>

lemma op_publish_store [simp]: "os_store (op_publish e d w sys) = os_store sys"
  by (simp add: op_publish_def Let_def split: option.split)

lemma op_publish_notify [simp]: "os_notify (op_publish e d w sys) = os_notify sys"
  by (simp add: op_publish_def Let_def split: option.split)

lemma publish_created_store [simp]: "os_store (publish_created r sys) = os_store sys"
  by (simp add: publish_created_def Let_def)

lemma publish_status_store [simp]: "os_store (publish_status r s c sys) = os_store sys"
  by (simp add: publish_status_def)

lemma publish_terminal_store [simp]: "os_store (publish_terminal r sys) = os_store sys"
  by (simp add: publish_terminal_def Let_def split: option.split)

lemma fold_publish_terminal_store [simp]: "os_store (fold publish_terminal rs sys) = os_store sys"
  by (induction rs arbitrary: sys) simp_all

definition claimed_row :: "int \<Rightarrow> op_row \<Rightarrow> op_row" where
  "claimed_row now r = r\<lparr>op_status := OS_RUNNING,
     op_started_at := (case op_started_at r of None \<Rightarrow> Some now | Some t \<Rightarrow> Some t), op_updated_at := now\<rparr>"

lemma claim_tx_effect:
  "claim_tx now i st = (None, st) \<or>
   (\<exists>cur. cur \<in> set (operations st) \<and> op_id cur = i \<and> op_status cur = OS_QUEUED \<and>
     (\<forall>w. op_world cur = Some w \<longrightarrow> \<not> has_active_operation w i st) \<and>
     (let st' = st\<lparr>operations :=
        update_rows (\<lambda>r. op_id r = i \<and> op_status r = OS_QUEUED) (claimed_row now) (operations st)\<rparr> in
      claim_tx now i st = (find_op i st', st')))"
proof (cases "find_row (\<lambda>r. op_id r = i \<and> op_status r = OS_QUEUED) (operations st)")
  case None
  then show ?thesis by (simp add: claim_tx_def)
next
  case (Some cur)
  from find_row_SomeD[OF Some] show ?thesis
    by (cases "op_world cur") (auto simp: claim_tx_def Some Let_def claimed_row_def[abs_def])
qed

lemma claimed_evolves: "op_status r = OS_QUEUED \<Longrightarrow> row_evolves r (claimed_row now r)"
  by (simp add: row_evolves_def claimed_row_def)

lemma transitioned_evolves:
  "\<not> terminal_status (op_status r) \<Longrightarrow> row_evolves r (transitioned_row now s ti c r)"
  by (simp add: row_evolves_def transitioned_row_def)

definition transition_effect ::
  "int \<Rightarrow> OperationStatus \<Rightarrow> transition_input \<Rightarrow> op_row \<Rightarrow> op_row \<Rightarrow> store \<Rightarrow> store \<Rightarrow> bool" where
  "transition_effect now status ti cur r st st' \<longleftrightarrow>
     (\<exists>c. r = transitioned_row now status ti c cur) \<and>
     operations st' = update_rows (\<lambda>x. op_id x = op_id cur) (\<lambda>_. r) (operations st) \<and>
     (\<exists>ops al nl. st' = st\<lparr>operations := ops, audits := al, notifications := nl\<rparr>) \<and>
     (if terminal_status status then
        (\<exists>a. audits st' = audits st @ [a] \<and> au_operation a = Some (op_id cur) \<and>
           operation_event_type (op_type cur) status = Some (au_event a)) \<and>
        (notifications st' = notifications st \<or>
         (\<exists>n. notifications st' = notifications st @ [n] \<and> no_operation n = Some (op_id cur) \<and>
            (\<forall>x\<in>set (notifications st). no_operation x \<noteq> Some (op_id cur))))
      else audits st' = audits st \<and> notifications st' = notifications st)"

lemma transition_tx_effect:
  assumes "transition_tx u now notify status cur (transitioned_row now status ti c cur) st = Inr st'"
  shows "transition_effect now status ti cur (transitioned_row now status ti c cur) st st'"
proof (cases "terminal_status status")
  case False
  let ?ops = "update_rows (\<lambda>x. op_id x = op_id cur) (\<lambda>_. transitioned_row now status ti c cur) (operations st)"
  from False assms have st': "st' = st\<lparr>operations := ?ops\<rparr>"
    by (auto simp: transition_tx_def Let_def)
  have "st' = st\<lparr>operations := ?ops, audits := audits st, notifications := notifications st\<rparr>"
    by (simp add: st')
  then show ?thesis unfolding transition_effect_def using False by fastforce
next
  case True
  let ?r = "transitioned_row now status ti c cur"
  let ?st1 = "st\<lparr>operations := update_rows (\<lambda>x. op_id x = op_id cur) (\<lambda>_. ?r) (operations st)\<rparr>"
  have r: "op_id ?r = op_id cur" "op_type ?r = op_type cur" "op_status ?r = status"
    by (simp_all add: transitioned_row_def)
  from True assms obtain st2 where st2: "write_terminal_audit (u 0) now ?r ?st1 = Some st2"
    "st' = st2 \<or> (\<exists>i. publish_terminal_operation (u 1) now ?r st2 = Inr (i, st'))"
    by (auto simp: transition_tx_def Let_def split: option.splits if_splits sum.splits)
  from write_terminal_audit_Some[OF st2(1)] obtain a where
    a: "st2 = ?st1\<lparr>audits := audits ?st1 @ [a]\<rparr>" "au_operation a = Some (op_id ?r)"
      "operation_event_type (op_type cur) status = Some (au_event a)"
    using True r by (auto simp: operation_event_type_def)
  from st2(2) have "st' = st2 \<or> (\<exists>n. st' = st2\<lparr>notifications := notifications st2 @ [n]\<rparr> \<and>
      no_operation n = Some (op_id ?r) \<and> (\<forall>x\<in>set (notifications st2). no_operation x \<noteq> Some (op_id ?r)))"
    using publish_terminal_cases[of "u 1" now ?r st2] by metis
  then have st': "st' = ?st1\<lparr>audits := audits st @ [a], notifications := notifications st'\<rparr> \<and>
      (notifications st' = notifications st \<or> (\<exists>n. notifications st' = notifications st @ [n] \<and>
        no_operation n = Some (op_id cur) \<and> (\<forall>x\<in>set (notifications st). no_operation x \<noteq> Some (op_id cur))))"
    using a(1) r(1) by auto
  have ops: "operations st' = operations ?st1" "audits st' = audits st @ [a]"
    using arg_cong[OF conjunct1[OF st'], of operations] arg_cong[OF conjunct1[OF st'], of audits] by simp_all
  have "\<exists>ops al nl. st' = st\<lparr>operations := ops, audits := al, notifications := nl\<rparr>"
    by (rule exI, rule exI, rule exI, rule trans[OF conjunct1[OF st']], simp)
  with st' ops a(2,3) r True show ?thesis
    unfolding transition_effect_def by auto
qed

lemma transition_cases:
  assumes "transition u now i status ti sys = Inr (r, sys')"
  obtains cur where "find_op i (os_store sys) = Some cur" "\<not> terminal_status (op_status cur)"
    "(status = OS_CREATED \<or> status = OS_QUEUED \<or> status = OS_VALIDATING) \<and> r = cur \<and> os_store sys' = os_store sys \<or>
     (status = OS_RUNNING \<or> terminal_status status) \<and>
       transition_effect now status ti cur r (os_store sys) (os_store sys')"
proof -
  from assms obtain cur where cur: "find_op i (os_store sys) = Some cur" "\<not> terminal_status (op_status cur)"
    by (auto simp: transition_def split: option.splits if_splits)
  show thesis
  proof (cases "status \<noteq> OS_RUNNING \<and> \<not> terminal_status status")
    case True
    with assms cur have "r = cur \<and> os_store sys' = os_store sys"
      by (auto simp: transition_def Let_def split: option.splits)
    moreover have "status = OS_CREATED \<or> status = OS_QUEUED \<or> status = OS_VALIDATING"
      using True by (cases status) simp_all
    ultimately show thesis using that cur by blast
  next
    case False
    with assms cur obtain c st' where
      "transition_tx u now (os_notify sys) status cur (transitioned_row now status ti c cur) (os_store sys) = Inr st'"
      "r = transitioned_row now status ti c cur" "os_store sys' = st'"
      by (auto simp: transition_def Let_def result_simps split: if_splits)
    with transition_tx_effect False that cur show thesis by metis
  qed
qed

lemma transition_artifacts:
  assumes "transition u now i status ti sys = Inr (r, sys')"
  shows "artifacts (os_store sys') = artifacts (os_store sys)"
    and "worlds (os_store sys') = worlds (os_store sys)"
    and "runtime_sessions (os_store sys') = runtime_sessions (os_store sys)"
proof -
  obtain ops al nl where "os_store sys' = os_store sys \<or>
      os_store sys' = (os_store sys)\<lparr>operations := ops, audits := al, notifications := nl\<rparr>"
    by (rule transition_cases[OF assms]) (auto simp: transition_effect_def)
  then show "artifacts (os_store sys') = artifacts (os_store sys)"
    "worlds (os_store sys') = worlds (os_store sys)"
    "runtime_sessions (os_store sys') = runtime_sessions (os_store sys)" by auto
qed

lemma progress_store:
  "update_progress_in_memory now i pct step sys = Inr sys' \<Longrightarrow> os_store sys' = os_store sys"
  by (auto simp: update_progress_in_memory_def Let_def split: if_splits option.splits)

lemma create_with_replay_store:
  assumes "create_with_replay u now req init allow sys = Inr ((r, replayed), sys')"
  shows "\<exists>res. create_tx u now req init allow (os_store sys) = Inr (res, os_store sys') \<and>
     (replayed \<and> res = Replayed r \<or> \<not> replayed \<and> (\<exists>xs. res = Created r xs))"
proof -
  from assms obtain res st' where tx: "create_tx u now req init allow (os_store sys) = Inr (res, st')"
    by (auto simp: create_with_replay_def result_simps)
  with assms show ?thesis
    by (cases res) (auto simp: create_with_replay_def Let_def)
qed

section \<open>The engine as a machine\<close>

datatype op_action =
    DoCreate "nat \<Rightarrow> string" int OperationInput OperationStatus bool
  | DoClaim int string
  | DoMove "nat \<Rightarrow> string" int string OperationStatus transition_input
  | DoProgress int string int string

text \<open>Every caller creates rows in flight (\<open>Queued\<close> by default, \<open>Running\<close> for some); a
  creation that would be born ended is not a call of the program.\<close>

fun op_step :: "op_sys \<Rightarrow> op_action \<Rightarrow> op_sys option" where
  "op_step sys (DoCreate u now req init allow) =
     (if \<not> in_flight init then None
      else case create_with_replay u now req init allow sys of
             Inl e \<Rightarrow> None | Inr (res, sys') \<Rightarrow> Some sys')"
| "op_step sys (DoClaim now i) = Some (snd (claim_queued now i sys))"
| "op_step sys (DoMove u now i status ti) =
     (case transition u now i status ti sys of Inl e \<Rightarrow> None | Inr (r, sys') \<Rightarrow> Some sys')"
| "op_step sys (DoProgress now i pct step) =
     (case update_progress_in_memory now i pct step sys of Inl e \<Rightarrow> None | Inr sys' \<Rightarrow> Some sys')"

text \<open>The three ways a step changes the tables.\<close>

definition created_step :: "op_action \<Rightarrow> store \<Rightarrow> store \<Rightarrow> bool" where
  "created_step a st st' \<longleftrightarrow> (\<exists>u now req init allow r s code dead.
     a = DoCreate u now req init allow \<and> in_flight s \<and>
     r = new_op_row (''op_'' @ u 0) now req s \<and> create_effect now req r code dead st st' \<and>
     (guarded_request req allow \<longrightarrow> pairwise_coexist (active_for (the (oi_world req)) st) \<longrightarrow>
        (\<forall>x\<in>set (active_for (the (oi_world req)) st). x \<notin> set dead \<longrightarrow>
           coexist (oi_type req) (op_type x))))"

definition claimed_step :: "store \<Rightarrow> store \<Rightarrow> bool" where
  "claimed_step st st' \<longleftrightarrow> (\<exists>now i. st' = st\<lparr>operations :=
     update_rows (\<lambda>r. op_id r = i \<and> op_status r = OS_QUEUED) (claimed_row now) (operations st)\<rparr>)"

definition moved_step :: "store \<Rightarrow> store \<Rightarrow> bool" where
  "moved_step st st' \<longleftrightarrow> (\<exists>now status ti cur r. cur \<in> set (operations st) \<and>
     \<not> terminal_status (op_status cur) \<and> (status = OS_RUNNING \<or> terminal_status status) \<and>
     transition_effect now status ti cur r st st')"

lemma create_step:
  assumes ok: "ops_ok (operations (os_store sys))"
    and st: "op_step sys (DoCreate u now req init allow) = Some sys'"
  shows "os_store sys' = os_store sys \<or>
    created_step (DoCreate u now req init allow) (os_store sys) (os_store sys')"
proof -
  from st obtain r replayed where c: "in_flight init"
    "create_with_replay u now req init allow sys = Inr ((r, replayed), sys')"
    by (auto split: if_splits sum.splits)
  from create_with_replay_store[OF c(2)] obtain res where
    tx: "create_tx u now req init allow (os_store sys) = Inr (res, os_store sys')" by blast
  have fl: "in_flight s" if "s = init \<or> s = OS_QUEUED" for s
    using that c(1) by auto
  show ?thesis
  proof (cases "os_store sys' = os_store sys")
    case False
    with create_tx_effect[OF ok tx] obtain r s code dead where
      "r = new_op_row (''op_'' @ u 0) now req s" "s = init \<or> s = OS_QUEUED"
      "create_effect now req r code dead (os_store sys) (os_store sys')"
      "guarded_request req allow \<longrightarrow> pairwise_coexist (active_for (the (oi_world req)) (os_store sys)) \<longrightarrow>
           (\<forall>x\<in>set (active_for (the (oi_world req)) (os_store sys)). x \<notin> set dead \<longrightarrow>
              coexist (oi_type req) (op_type x))"
      by metis
    then show ?thesis
      unfolding created_step_def
      by (intro disjI2) (rule exI[of _ u], rule exI[of _ now], rule exI[of _ req], rule exI[of _ init],
          rule exI[of _ allow], rule exI[of _ r], rule exI[of _ s], rule exI[of _ code],
          rule exI[of _ dead], simp add: fl)
  qed simp
qed

lemma op_step_effect:
  assumes "ops_ok (operations (os_store sys))" and "op_step sys a = Some sys'"
  shows "os_store sys' = os_store sys \<or> created_step a (os_store sys) (os_store sys') \<or>
     claimed_step (os_store sys) (os_store sys') \<or> moved_step (os_store sys) (os_store sys')"
proof (cases a)
  case (DoCreate u now req init allow)
  with assms create_step show ?thesis by blast
next
  case (DoClaim now i)
  with assms(2) have "os_store sys' = snd (claim_tx now i (os_store sys))"
    by (auto simp: claim_queued_def Let_def case_prod_beta split: option.splits)
  with claim_tx_effect[of now i "os_store sys"] show ?thesis
    unfolding claimed_step_def Let_def by (elim disjE exE conjE) auto
next
  case (DoMove u now i status ti)
  with assms(2) obtain r where t: "transition u now i status ti sys = Inr (r, sys')"
    by (auto split: sum.splits)
  show ?thesis
  proof (rule transition_cases[OF t], elim disjE conjE)
    fix cur assume "os_store sys' = os_store sys"
    then show ?thesis by simp
  next
    fix cur assume cur: "find_op i (os_store sys) = Some cur" "\<not> terminal_status (op_status cur)"
      "transition_effect now status ti cur r (os_store sys) (os_store sys')"
      "status = OS_RUNNING"
    with find_op_SomeD[OF cur(1)] show ?thesis unfolding moved_step_def by blast
  next
    fix cur assume cur: "find_op i (os_store sys) = Some cur" "\<not> terminal_status (op_status cur)"
      "transition_effect now status ti cur r (os_store sys) (os_store sys')"
      "terminal_status status"
    with find_op_SomeD[OF cur(1)] show ?thesis unfolding moved_step_def by blast
  qed simp_all
next
  case (DoProgress now i pct step)
  with assms(2) progress_store show ?thesis by (auto split: sum.splits)
qed

lemma create_effect_ops:
  assumes e: "create_effect now req r code dead st st'" and "ops_ok (operations st)"
  shows "ops_ok (operations st') \<and> rows_evolve (operations st) (operations st')"
proof -
  let ?u = "update_rows (\<lambda>x. op_id x \<in> op_id ` set dead \<and> in_flight (op_status x)) (cancelled now code) (operations st)"
  have evo: "rows_evolve (operations st) ?u"
    by (rule rows_evolve_update) (auto intro: cancelled_evolves)
  have ok: "ops_ok ?u"
    by (rule ops_ok_update[OF assms(2)]) (auto intro: cancelled_evolves)
  have ids: "op_id x \<noteq> op_id r \<and> (op_key r \<noteq> None \<longrightarrow> op_type x \<noteq> op_type r \<or> op_key x \<noteq> op_key r)"
    if "x \<in> set ?u" for x
    using that e by (auto simp: in_update_rows create_effect_def cancelled_def)
  have "ops_ok (?u @ [r])" using ops_ok_append[OF ok, of r] ids by blast
  moreover have "operations st' = ?u @ [r]" using e by (simp add: create_effect_def)
  ultimately show ?thesis using rows_evolve_append[OF evo] by simp
qed

lemma created_step_ops:
  assumes "created_step a st st'" and "ops_ok (operations st)"
  shows "ops_ok (operations st') \<and> rows_evolve (operations st) (operations st')"
  using assms create_effect_ops unfolding created_step_def by blast

lemma claimed_step_ops:
  assumes "claimed_step st st'" and "ops_ok (operations st)"
  shows "ops_ok (operations st') \<and> rows_evolve (operations st) (operations st')"
  using assms by (auto simp: claimed_step_def intro!: ops_ok_update rows_evolve_update claimed_evolves)

lemma moved_row_evolves:
  assumes "transition_effect now status ti cur r st st'" and "cur \<in> set (operations st)"
    and "\<not> terminal_status (op_status cur)" and "ops_ok (operations st)"
    and "x \<in> set (operations st)" and "op_id x = op_id cur"
  shows "x = cur \<and> row_evolves x r"
  using assms ops_ok_unique[OF assms(4,5,2,6)] transitioned_evolves
  by (auto simp: transition_effect_def)

lemma moved_step_ops:
  assumes "moved_step st st'" and ok: "ops_ok (operations st)"
  shows "ops_ok (operations st') \<and> rows_evolve (operations st) (operations st')"
proof -
  from assms(1) obtain now status ti cur r where
    m: "transition_effect now status ti cur r st st'" "cur \<in> set (operations st)"
       "\<not> terminal_status (op_status cur)" unfolding moved_step_def by blast
  have "operations st' = update_rows (\<lambda>x. op_id x = op_id cur) (\<lambda>_. r) (operations st)"
    using m(1) by (simp add: transition_effect_def)
  with moved_row_evolves[OF m ok] ok show ?thesis
    by (auto intro!: ops_ok_update rows_evolve_update)
qed

lemma op_step_ops:
  assumes "op_step sys a = Some sys'" and "ops_ok (operations (os_store sys))"
  shows "ops_ok (operations (os_store sys')) \<and>
         rows_evolve (operations (os_store sys)) (operations (os_store sys'))"
  using op_step_effect[OF assms(2,1)] created_step_ops claimed_step_ops moved_step_ops assms(2)
  by (metis rows_evolve_refl)

interpretation engine_keys: guarded_machine op_step "\<lambda>sys. ops_ok (operations (os_store sys))"
  by unfold_locales (use op_step_ops in blast)

abbreviation run_ops :: "op_sys \<Rightarrow> op_action list \<Rightarrow> op_sys" where
  "run_ops \<equiv> run_attempts op_step"

lemma run_ops_evolve:
  assumes "ops_ok (operations (os_store sys))"
  shows "rows_evolve (operations (os_store sys)) (operations (os_store (run_ops sys as)))"
  by (rule engine_keys.stable_run[where s = sys]) (use assms op_step_ops rows_evolve_trans in auto)

section \<open>One audit record and at most one notification per ended operation\<close>

definition op_audit :: "string \<Rightarrow> audit_row \<Rightarrow> bool" where
  "op_audit i a \<longleftrightarrow> au_operation a = Some i \<and> starts_with ''operation.'' (au_event a)"

definition op_audit_count :: "string \<Rightarrow> audit_row list \<Rightarrow> nat" where
  "op_audit_count i as = length (filter (op_audit i) as)"

definition books_ok :: "store \<Rightarrow> bool" where
  "books_ok st \<longleftrightarrow> ops_ok (operations st) \<and>
     (\<forall>i. (\<forall>r\<in>set (operations st). op_id r \<noteq> i) \<longrightarrow> op_audit_count i (audits st) = 0) \<and>
     (\<forall>r\<in>set (operations st). op_audit_count (op_id r) (audits st) =
        (if terminal_status (op_status r) then 1 else 0)) \<and>
     (\<forall>i. length (filter (\<lambda>n. no_operation n = Some i) (notifications st)) \<le> 1)"

lemma op_audit_count_append [simp]:
  "op_audit_count i (xs @ ys) = op_audit_count i xs + op_audit_count i ys"
  by (simp add: op_audit_count_def)

lemma op_audit_count_dead:
  assumes "map au_operation as = map (\<lambda>x. Some (op_id x)) dead"
    and "\<forall>a\<in>set as. starts_with ''operation.'' (au_event a)" and "distinct (map op_id dead)"
  shows "op_audit_count i as = (if i \<in> op_id ` set dead then 1 else 0)"
  using assms
proof (induction as arbitrary: dead)
  case (Cons a as)
  then obtain d ds where d: "dead = d # ds" by (cases dead) auto
  with Cons.prems have "op_audit_count i as = (if i \<in> op_id ` set ds then 1 else 0)"
    by (intro Cons.IH) simp_all
  with d Cons.prems show ?case
    by (auto simp: op_audit_count_def op_audit_def split: if_splits)
qed (simp add: op_audit_count_def)

lemma created_step_books:
  assumes "created_step a st st'" and "books_ok st"
  shows "books_ok st'"
proof -
  have ok: "ops_ok (operations st)" using assms(2) by (simp add: books_ok_def)
  from assms(1) obtain r s code dead now req u where e: "create_effect now req r code dead st st'"
    and r: "r = new_op_row (''op_'' @ u (0::nat)) now req s" "in_flight s"
    unfolding created_step_def by blast
  from e obtain as where as: "audits st' = audits st @ as"
      "map au_operation as = map (\<lambda>x. Some (op_id x)) dead"
      "\<forall>a\<in>set as. starts_with ''operation.'' (au_event a)"
    by (auto simp: create_effect_def)
  have dist: "distinct (map op_id dead)" and dead: "\<forall>x\<in>set dead. x \<in> set (operations st) \<and> in_flight (op_status x)"
    using e by (auto simp: create_effect_def)
  have cnt: "op_audit_count i (audits st') =
      op_audit_count i (audits st) + (if i \<in> op_id ` set dead then 1 else 0)" for i
    using op_audit_count_dead[OF as(2,3) dist] as(1) by simp
  have fresh: "\<forall>x\<in>set (operations st). op_id x \<noteq> op_id r" using e by (simp add: create_effect_def)
  let ?p = "\<lambda>x. op_id x \<in> op_id ` set dead \<and> in_flight (op_status x)"
  have ops: "operations st' = update_rows ?p (cancelled now code) (operations st) @ [r]"
    using e by (simp add: create_effect_def)
  have row: "op_audit_count (op_id x) (audits st') = (if terminal_status (op_status x) then 1 else 0)"
    if "x \<in> set (operations st')" for x
  proof -
    from that ops consider (new) "x = r" | (same) "x \<in> set (operations st)" "\<not> ?p x"
      | (cancel) x0 where "x0 \<in> set (operations st)" "?p x0" "x = cancelled now code x0"
      by (auto simp: in_update_rows)
    then show ?thesis
    proof cases
      case new
      with fresh dead have "op_id x \<notin> op_id ` set dead" by force
      with new fresh assms(2) r show ?thesis
        by (simp add: cnt books_ok_def new_op_row_def in_flight_not_terminal)
    next
      case same
      have "op_id x \<notin> op_id ` set dead"
      proof
        assume "op_id x \<in> op_id ` set dead"
        then obtain d where d: "d \<in> set dead" "op_id x = op_id d" by auto
        with ops_ok_unique[OF ok same(1)] dead have "x = d" by blast
        with same(2) d dead show False by auto
      qed
      with same(1) assms(2) show ?thesis by (simp add: cnt books_ok_def)
    next
      case cancel
      with assms(2) show ?thesis
        by (simp add: cnt books_ok_def cancelled_def in_flight_not_terminal)
    qed
  qed
  have none: "op_audit_count i (audits st') = 0" if "\<forall>x\<in>set (operations st'). op_id x \<noteq> i" for i
  proof -
    have "\<forall>x\<in>set (operations st). op_id x \<noteq> i"
      using that created_step_ops[OF assms(1) ok] rows_evolve_member
      by (metis row_evolves_def)
    moreover from this dead have "i \<notin> op_id ` set dead" by auto
    ultimately show ?thesis using assms(2) by (simp add: cnt books_ok_def)
  qed
  have "notifications st' = notifications st" using e by (simp add: create_effect_def)
  with row none created_step_ops[OF assms(1) ok] assms(2) show ?thesis
    by (simp add: books_ok_def)
qed

lemma claimed_step_books:
  assumes "claimed_step st st'" and "books_ok st"
  shows "books_ok st'"
proof -
  from assms(1) obtain now i where st': "st' = st\<lparr>operations :=
     update_rows (\<lambda>r. op_id r = i \<and> op_status r = OS_QUEUED) (claimed_row now) (operations st)\<rparr>"
    unfolding claimed_step_def by blast
  have ok: "ops_ok (operations st)" using assms(2) by (simp add: books_ok_def)
  have ids: "map op_id (operations st') = map op_id (operations st)"
    by (simp add: st' map_key_update_rows claimed_row_def)
  have "op_audit_count (op_id x) (audits st) = (if terminal_status (op_status x) then 1 else 0)"
    if "x \<in> set (operations st')" for x
    using that assms(2) by (auto simp: st' in_update_rows books_ok_def claimed_row_def)
  moreover have "op_audit_count j (audits st) = 0" if "\<forall>x\<in>set (operations st'). op_id x \<noteq> j" for j
  proof -
    have "j \<notin> set (map op_id (operations st))"
      unfolding ids[symmetric] using that by auto
    then have "\<forall>r\<in>set (operations st). op_id r \<noteq> j" by auto
    with assms(2) show ?thesis by (simp add: books_ok_def st')
  qed
  ultimately show ?thesis
    using claimed_step_ops[OF assms(1) ok] assms(2) by (simp add: books_ok_def st')
qed

lemma operation_event_prefix:
  "operation_event_type ty s = Some e \<Longrightarrow> starts_with ''operation.'' e"
  by (auto simp: operation_event_type_def split: if_splits)

lemma moved_step_books:
  assumes "moved_step st st'" and "books_ok st"
  shows "books_ok st'"
proof -
  have ok: "ops_ok (operations st)" using assms(2) by (simp add: books_ok_def)
  from assms(1) obtain now status ti cur r where m: "transition_effect now status ti cur r st st'"
    and cur: "cur \<in> set (operations st)" "\<not> terminal_status (op_status cur)"
    and status: "status = OS_RUNNING \<or> terminal_status status" unfolding moved_step_def by blast
  have r: "op_id r = op_id cur" "op_status r = status"
    using m by (auto simp: transition_effect_def transitioned_row_def)
  have ops: "operations st' = update_rows (\<lambda>x. op_id x = op_id cur) (\<lambda>_. r) (operations st)"
    using m by (simp add: transition_effect_def)
  have cnt: "op_audit_count i (audits st') = op_audit_count i (audits st) +
      (if i = op_id cur \<and> terminal_status status then 1 else 0)" for i
    using m by (auto simp: transition_effect_def op_audit_count_def op_audit_def
        dest: operation_event_prefix split: if_splits)
  have row: "op_audit_count (op_id x) (audits st') = (if terminal_status (op_status x) then 1 else 0)"
    if "x \<in> set (operations st')" for x
    using that assms(2) cur r by (auto simp: ops in_update_rows cnt books_ok_def)
  have ids: "map op_id (operations st') = map op_id (operations st)"
    by (simp add: ops map_key_update_rows r)
  have none: "op_audit_count j (audits st') = 0" if "\<forall>x\<in>set (operations st'). op_id x \<noteq> j" for j
  proof -
    have "j \<notin> set (map op_id (operations st))" unfolding ids[symmetric] using that by auto
    then have "\<forall>r\<in>set (operations st). op_id r \<noteq> j" by auto
    with assms(2) cur(1) show ?thesis by (auto simp: cnt books_ok_def)
  qed
  have note1: "length (filter (\<lambda>n. no_operation n = Some i) (notifications st')) \<le> 1" for i
  proof (cases "notifications st' = notifications st")
    case True
    with assms(2) show ?thesis by (simp add: books_ok_def)
  next
    case False
    with m obtain n where n: "notifications st' = notifications st @ [n]" "no_operation n = Some (op_id cur)"
      "\<forall>x\<in>set (notifications st). no_operation x \<noteq> Some (op_id cur)"
      by (auto simp: transition_effect_def split: if_splits)
    then have "filter (\<lambda>n. no_operation n = Some (op_id cur)) (notifications st) = []"
      by (auto simp: filter_empty_conv)
    with n assms(2) show ?thesis by (auto simp: books_ok_def)
  qed
  from row none note1 moved_step_ops[OF assms(1) ok] show ?thesis
    by (simp add: books_ok_def)
qed

lemma op_step_books:
  assumes "books_ok (os_store sys)" and "op_step sys a = Some sys'"
  shows "books_ok (os_store sys')"
proof -
  have "ops_ok (operations (os_store sys))" using assms(1) by (simp add: books_ok_def)
  from op_step_effect[OF this assms(2)] show ?thesis
    using assms(1) created_step_books claimed_step_books moved_step_books by metis
qed

interpretation engine_books: guarded_machine op_step "\<lambda>sys. books_ok (os_store sys)"
  by unfold_locales (use op_step_books in blast)

section \<open>The world lock\<close>

definition world_lock :: "op_row list \<Rightarrow> bool" where
  "world_lock ops \<longleftrightarrow> (\<forall>r\<in>set ops. \<forall>q\<in>set ops. op_id r \<noteq> op_id q \<and> op_world r \<noteq> None \<and>
     op_world r = op_world q \<and> in_flight (op_status r) \<and> in_flight (op_status q) \<longrightarrow>
     coexist (op_type r) (op_type q))"

definition lock_ok :: "op_sys \<Rightarrow> bool" where
  "lock_ok sys \<longleftrightarrow> ops_ok (operations (os_store sys)) \<and> world_lock (operations (os_store sys))"

text \<open>Steps whose creations go through the admission policy (or are syncs, or have no world).\<close>

fun lock_step :: "op_sys \<Rightarrow> op_action \<Rightarrow> op_sys option" where
  "lock_step sys (DoCreate u now req init allow) =
     (if allow then None else op_step sys (DoCreate u now req init allow))"
| "lock_step sys a = op_step sys a"

lemma world_lock_update:
  assumes "world_lock ops" and "\<And>r. r \<in> set ops \<Longrightarrow> p r \<Longrightarrow> op_id (f r) = op_id r \<and>
     op_type (f r) = op_type r \<and> op_world (f r) = op_world r \<and>
     (in_flight (op_status (f r)) \<longrightarrow> in_flight (op_status r))"
  shows "world_lock (update_rows p f ops)"
proof -
  have "\<exists>x0\<in>set ops. op_id x0 = op_id x \<and> op_type x0 = op_type x \<and> op_world x0 = op_world x \<and>
      (in_flight (op_status x) \<longrightarrow> in_flight (op_status x0))" if "x \<in> set (update_rows p f ops)" for x
    using that assms(2) by (auto simp: in_update_rows)
  then show ?thesis using assms(1) unfolding world_lock_def by metis
qed

lemma world_lock_append:
  assumes "world_lock ops"
    and "\<And>x. x \<in> set ops \<Longrightarrow> op_world x = op_world r \<Longrightarrow> op_world x \<noteq> None \<Longrightarrow>
          in_flight (op_status x) \<Longrightarrow> coexist (op_type r) (op_type x)"
  shows "world_lock (ops @ [r])"
  using assms coexist_sym unfolding world_lock_def by (auto simp del: not_None_eq)

lemma created_step_lock:
  assumes "created_step (DoCreate u now req init False) st st'" and "ops_ok (operations st)"
    and "world_lock (operations st)"
  shows "world_lock (operations st')"
proof -
  from assms(1) obtain r s code dead where e: "create_effect now req r code dead st st'"
    and r: "r = new_op_row (''op_'' @ u 0) now req s"
    and co: "guarded_request req False \<longrightarrow> pairwise_coexist (active_for (the (oi_world req)) st) \<longrightarrow>
     (\<forall>x\<in>set (active_for (the (oi_world req)) st). x \<notin> set dead \<longrightarrow> coexist (oi_type req) (op_type x))"
    unfolding created_step_def by blast
  let ?p = "\<lambda>x. op_id x \<in> op_id ` set dead \<and> in_flight (op_status x)"
  let ?u = "update_rows ?p (cancelled now code) (operations st)"
  have ops: "operations st' = ?u @ [r]" using e by (simp add: create_effect_def)
  have lock: "world_lock ?u"
    by (rule world_lock_update[OF assms(3)]) (simp add: cancelled_def)
  have "coexist (op_type r) (op_type x)"
    if x: "x \<in> set ?u" "op_world x = op_world r" "op_world x \<noteq> None" "in_flight (op_status x)" for x
  proof (cases "oi_type req = SYNC")
    case True
    then show ?thesis by (simp add: r new_op_row_def coexist_def)
  next
    case False
    have x0: "x \<in> set (operations st)" "\<not> ?p x"
      using x(1,4) by (auto simp: in_update_rows cancelled_def)
    obtain w where w: "oi_world req = Some w" "op_world x = Some w"
      using x(2,3) r by (auto simp: new_op_row_def)
    have act: "x \<in> set (active_for w st)" using x0 x(4) w by (simp add: active_for_set)
    have "pairwise_coexist (active_for w st)"
      unfolding pairwise_coexist_def
    proof (intro ballI impI)
      fix a b assume ab: "a \<in> set (active_for w st)" "b \<in> set (active_for w st)" "a \<noteq> b"
      then have "op_id a \<noteq> op_id b" using ops_ok_unique[OF assms(2)] by (auto simp: active_for_set)
      with ab assms(3) show "coexist (op_type a) (op_type b)"
        by (simp add: world_lock_def active_for_set)
    qed
    with co w False have "\<forall>x\<in>set (active_for w st). x \<notin> set dead \<longrightarrow> coexist (oi_type req) (op_type x)"
      by (simp add: guarded_request_def)
    with act have "x \<notin> set dead \<longrightarrow> coexist (oi_type req) (op_type x)" by blast
    moreover have "x \<notin> set dead" using x0(2) x(4) by auto
    ultimately show ?thesis by (simp add: r new_op_row_def)
  qed
  with world_lock_append[OF lock, of r] ops show ?thesis by simp
qed

lemma other_step_lock:
  assumes "claimed_step st st' \<or> moved_step st st'" and ok: "ops_ok (operations st)"
    and lock: "world_lock (operations st)"
  shows "world_lock (operations st')"
  using assms(1)
proof
  assume "claimed_step st st'"
  then show ?thesis
    using lock by (auto simp: claimed_step_def claimed_row_def intro!: world_lock_update)
next
  assume "moved_step st st'"
  then obtain now status ti cur r where m: "transition_effect now status ti cur r st st'"
    "cur \<in> set (operations st)" "\<not> terminal_status (op_status cur)"
    unfolding moved_step_def by blast
  have "world_lock (update_rows (\<lambda>x. op_id x = op_id cur) (\<lambda>_. r) (operations st))"
  proof (rule world_lock_update[OF lock])
    fix x assume "x \<in> set (operations st)" "op_id x = op_id cur"
    with moved_row_evolves[OF m ok] m(3) show "op_id r = op_id x \<and> op_type r = op_type x \<and>
        op_world r = op_world x \<and> (in_flight (op_status r) \<longrightarrow> in_flight (op_status x))"
      by (auto simp: row_evolves_def in_flight_not_terminal)
  qed
  with m(1) show ?thesis by (simp add: transition_effect_def)
qed

interpretation engine_lock: guarded_machine lock_step lock_ok
proof
  fix sys a sys' assume inv: "lock_ok sys" and st: "lock_step sys a = Some sys'"
  have op: "op_step sys a = Some sys'" and na: "\<And>u now req init allow. a = DoCreate u now req init allow \<Longrightarrow> \<not> allow"
    using st by (cases a; simp split: if_splits)+
  have ok: "ops_ok (operations (os_store sys))" using inv by (simp add: lock_ok_def)
  have "world_lock (operations (os_store sys'))"
    using op_step_effect[OF ok op]
  proof (elim disjE)
    assume c: "created_step a (os_store sys) (os_store sys')"
    then obtain u now req init where "a = DoCreate u now req init False"
      using na unfolding created_step_def by blast
    with c created_step_lock ok inv show ?thesis by (auto simp: lock_ok_def)
  qed (use inv other_step_lock ok in \<open>auto simp: lock_ok_def\<close>)
  with op_step_ops[OF op ok] show "lock_ok sys'" by (simp add: lock_ok_def)
qed

section \<open>Properties\<close>

text \<open>A concrete service for the witnesses: one world with a running start and an ended backup.\<close>

definition sample_world :: world_row where
  "sample_world = \<lparr>wo_id = ''w1'', wo_display_name = ''One'', wo_template = ''t1'', wo_server_type = PAPER,
     wo_mc_version = ''1.20.4'', wo_java_runtime = ''j17'', wo_port = 25565, wo_strategy = ''name'', wo_address = ''one'', wo_state = WS_OFF,
     wo_pre_backup = None, wo_launch_args = None, wo_metadata_version = 1, wo_deleted_at = None,
     wo_deleted_by = None, wo_created_at = 1, wo_updated_at = 0\<rparr>"

definition sample_request :: "OperationType \<Rightarrow> string option \<Rightarrow> OperationInput" where
  "sample_request ty k = \<lparr>oi_type = ty, oi_actor_type = ACTOR_SYSTEM, oi_world = Some ''w1'',
     oi_actor_user = None, oi_key = k, oi_data = None, oi_compensates = None\<rparr>"

definition sample_store :: "op_row list \<Rightarrow> store" where
  "sample_store ops = empty_store\<lparr>worlds := [sample_world], operations := ops\<rparr>"

definition sample_sys :: "op_row list \<Rightarrow> op_sys" where
  "sample_sys ops = \<lparr>os_store = sample_store ops, os_hub = None, os_progress = [], os_pending = [],
     os_notify = True\<rparr>"

definition sample_op :: "string \<Rightarrow> OperationType \<Rightarrow> OperationStatus \<Rightarrow> op_row" where
  "sample_op i ty s = (new_op_row i 5 (sample_request ty None) OS_QUEUED)\<lparr>op_status := s\<rparr>"

lemmas sample_defs = sample_world_def sample_request_def sample_store_def sample_sys_def
  sample_op_def new_op_row_def empty_store_def

text \<open>C19: Rows are permanent.  Whatever calls are made on the engine, every operation row that
  existed is still there with the same identity (id, type, world, key, user, creation time), a row
  that had ended is unchanged in every column, and ids and (type, key) pairs stay unique.\<close>

theorem ended_rows_are_permanent:
  assumes "ops_ok (operations (os_store sys))"
  shows "(\<forall>r\<in>set (operations (os_store sys)). \<exists>r'\<in>set (operations (os_store (run_ops sys as))).
            op_id r' = op_id r \<and> op_type r' = op_type r \<and> op_world r' = op_world r \<and>
            op_key r' = op_key r \<and> op_created_at r' = op_created_at r \<and>
            (terminal_status (op_status r) \<longrightarrow> r' = r)) \<and>
         ops_ok (operations (os_store (run_ops sys as)))"
  using rows_evolve_member[OF run_ops_evolve[OF assms]] engine_keys.inv_run[OF assms]
  by (simp add: row_evolves_def) metis

theorem ended_rows_are_permanent_witness:
  "sample_op ''op_1'' BACKUP OS_FAILED \<in> set (operations (os_store (run_ops
     (sample_sys [sample_op ''op_1'' BACKUP OS_FAILED])
     [DoMove (\<lambda>n. ''u'') 9 ''op_1'' OS_COMPLETED plain_transition])))"
  using ended_rows_are_permanent[of "sample_sys [sample_op ''op_1'' BACKUP OS_FAILED]"
      "[DoMove (\<lambda>n. ''u'') 9 ''op_1'' OS_COMPLETED plain_transition]"]
  by (simp add: sample_defs ops_ok_def del: run_attempts.simps)

lemma created_row_present:
  assumes "ops_ok (operations (os_store sys))"
    and "create_with_replay u now req init allow sys = Inr ((r, False), sys')"
  shows "r \<in> set (operations (os_store sys')) \<and> op_type r = oi_type req \<and> op_key r = oi_key req \<and>
     ops_ok (operations (os_store sys'))"
proof -
  from create_with_replay_store[OF assms(2)] obtain xs where
    tx: "create_tx u now req init allow (os_store sys) = Inr (Created r xs, os_store sys')" by auto
  from create_tx_effect[OF assms(1) tx] obtain s code dead where
    r: "r = new_op_row (''op_'' @ u 0) now req s"
    and e: "create_effect now req r code dead (os_store sys) (os_store sys')" by auto
  let ?u = "update_rows (\<lambda>x. op_id x \<in> op_id ` set dead \<and> in_flight (op_status x)) (cancelled now code)
     (operations (os_store sys))"
  have "ops_ok ?u"
    by (rule ops_ok_update[OF assms(1)]) (auto intro: cancelled_evolves)
  then have "ops_ok (?u @ [r])"
    by (rule ops_ok_append) (use e in \<open>auto simp: in_update_rows create_effect_def cancelled_def\<close>)
  with e r show ?thesis by (simp add: create_effect_def new_op_row_def)
qed

lemma replay_by_key:
  assumes "ops_ok (operations (os_store sys))" and "r \<in> set (operations (os_store sys))"
    and "oi_key req = op_key r" and "oi_type req = op_type r" and "op_key r = Some k"
  shows "create_with_replay u now req init allow sys = Inr ((r, True), sys)"
  using find_by_key_unique[OF assms(1,2,5)] assms(3-5)
  by (simp add: create_with_replay_def create_tx_def)

text \<open>C8: A request with an idempotency key is carried out once.  After a creation that inserted
  a row, and after any further calls, every later request of the same type with the same key,
  whatever its other fields, is answered with that same operation in its current state; it is
  reported as a replay and leaves the service exactly as it was.\<close>

theorem idempotent_creation:
  assumes "ops_ok (operations (os_store sys))" and "oi_key req = Some k"
    and "create_with_replay u now req init allow sys = Inr ((r, False), sys1)"
    and "oi_key req2 = Some k" and "oi_type req2 = oi_type req"
  shows "\<exists>r2. create_with_replay u2 now2 req2 init2 allow2 (run_ops sys1 as) =
           Inr ((r2, True), run_ops sys1 as) \<and> op_id r2 = op_id r \<and>
         (terminal_status (op_status r) \<longrightarrow> r2 = r)"
proof -
  from created_row_present[OF assms(1,3)] assms(2) have
    r: "r \<in> set (operations (os_store sys1))" "op_type r = oi_type req" "op_key r = Some k"
    and ok: "ops_ok (operations (os_store sys1))" by simp_all
  from rows_evolve_member[OF run_ops_evolve[OF ok] r(1), of as] obtain r2 where
    r2: "r2 \<in> set (operations (os_store (run_ops sys1 as)))" "row_evolves r r2" by blast
  have "create_with_replay u2 now2 req2 init2 allow2 (run_ops sys1 as) = Inr ((r2, True), run_ops sys1 as)"
    by (rule replay_by_key[OF engine_keys.inv_run[OF ok] r2(1), where k = k])
      (use r2(2) r assms in \<open>simp_all add: row_evolves_def\<close>)
  with r2(2) show ?thesis by (auto simp: row_evolves_def)
qed

definition sample_created :: op_row where
  "sample_created = new_op_row ''op_a'' 7 (sample_request BACKUP (Some ''k'')) OS_QUEUED"

lemma sample_creation:
  "create_with_replay (\<lambda>n. ''a'') 7 (sample_request BACKUP (Some ''k'')) OS_QUEUED False (sample_sys []) =
     Inr ((sample_created, False), sample_sys [sample_created])"
  by (simp add: create_with_replay_def create_tx_def sample_created_def sample_defs find_by_key_def
      active_for_def initial_status_def apply_conflict_policy_def create_insert_def insert_op_def
      row_simps fk_world_def fk_user_def fk_op_def Let_def publish_created_def op_publish_def)

theorem idempotent_creation_witness:
  "\<exists>r2. create_with_replay (\<lambda>n. ''b'') 9 (sample_request BACKUP (Some ''k'')) OS_RUNNING True
      (run_ops (sample_sys [sample_created]) [DoClaim 8 ''op_a'']) =
      Inr ((r2, True), run_ops (sample_sys [sample_created]) [DoClaim 8 ''op_a'']) \<and>
    op_id r2 = ''op_a''"
  using idempotent_creation[OF _ _ sample_creation, of "''k''" "sample_request BACKUP (Some ''k'')"
      "\<lambda>n. ''b''" 9 OS_RUNNING True "[DoClaim 8 ''op_a'']"]
  by (auto simp: sample_defs ops_ok_def sample_created_def simp del: run_attempts.simps)

text \<open>C1: The derived world lock.  From a store where it holds, any sequence of calls whose
  creations do not override the admission policy keeps it: two different operations in flight on
  one world are a sync with anything, two backups, two restores or two cleanups, or a start, stop
  or kill beside a backup or a cleanup.  Creating, deleting, configuring or restoring a world
  never overlaps anything else but a sync.\<close>

theorem world_lock_is_kept:
  assumes "lock_ok sys"
    and "r \<in> set (operations (os_store (run_attempts lock_step sys as)))"
    and "q \<in> set (operations (os_store (run_attempts lock_step sys as)))"
    and "op_id r \<noteq> op_id q" and "op_world r = Some w" and "op_world q = Some w"
    and "in_flight (op_status r)" and "in_flight (op_status q)"
  shows "op_type r = SYNC \<or> op_type q = SYNC \<or>
    (op_type r = op_type q \<and> op_type r \<in> {BACKUP, RESTORE, CLEANUP}) \<or>
    (op_type r \<in> {START, STOP, KILL} \<and> op_type q \<in> {BACKUP, CLEANUP}) \<or>
    (op_type q \<in> {START, STOP, KILL} \<and> op_type r \<in> {BACKUP, CLEANUP})"
proof -
  have "coexist (op_type r) (op_type q)"
    using engine_lock.inv_run[OF assms(1), of as] assms(2-8)
    by (simp add: lock_ok_def world_lock_def)
  then show ?thesis by (auto simp: coexist_def single_flight_types_def runtime_types_def)
qed

theorem world_lock_is_kept_witness:
  "op_type (sample_op ''op_1'' START OS_RUNNING) = SYNC \<or> op_type (sample_op ''op_2'' BACKUP OS_QUEUED) = SYNC \<or>
    (op_type (sample_op ''op_1'' START OS_RUNNING) = op_type (sample_op ''op_2'' BACKUP OS_QUEUED) \<and>
       op_type (sample_op ''op_1'' START OS_RUNNING) \<in> {BACKUP, RESTORE, CLEANUP}) \<or>
    (op_type (sample_op ''op_1'' START OS_RUNNING) \<in> {START, STOP, KILL} \<and>
       op_type (sample_op ''op_2'' BACKUP OS_QUEUED) \<in> {BACKUP, CLEANUP}) \<or>
    (op_type (sample_op ''op_2'' BACKUP OS_QUEUED) \<in> {START, STOP, KILL} \<and>
       op_type (sample_op ''op_1'' START OS_RUNNING) \<in> {BACKUP, CLEANUP})"
  by (rule world_lock_is_kept[where as = "[]" and w = "''w1''" and
        sys = "sample_sys [sample_op ''op_1'' START OS_RUNNING, sample_op ''op_2'' BACKUP OS_QUEUED]"])
    (simp_all add: sample_defs lock_ok_def ops_ok_def world_lock_def coexist_def runtime_types_def)

text \<open>C18: The books are kept.  From a store whose books are in order, after any calls every ended
  operation has exactly one \<open>operation.*\<close> audit record and every operation in flight has none, and
  no operation has more than one notification.\<close>

theorem one_audit_per_ended_operation:
  assumes "books_ok (os_store sys)" and "r \<in> set (operations (os_store (run_ops sys as)))"
  shows "op_audit_count (op_id r) (audits (os_store (run_ops sys as))) =
           (if terminal_status (op_status r) then 1 else 0) \<and>
         length (filter (\<lambda>n. no_operation n = Some (op_id r))
           (notifications (os_store (run_ops sys as)))) \<le> 1"
  using engine_books.inv_run[OF assms(1), of as] assms(2) by (simp add: books_ok_def)

theorem one_audit_per_ended_operation_witness:
  "op_audit_count (op_id (sample_op ''op_1'' BACKUP OS_RUNNING)) (audits (os_store (run_ops
      (sample_sys [sample_op ''op_1'' BACKUP OS_RUNNING]) []))) =
      (if terminal_status (op_status (sample_op ''op_1'' BACKUP OS_RUNNING)) then 1 else 0) \<and>
   length (filter (\<lambda>n. no_operation n = Some (op_id (sample_op ''op_1'' BACKUP OS_RUNNING)))
      (notifications (os_store (run_ops (sample_sys [sample_op ''op_1'' BACKUP OS_RUNNING]) [])))) \<le> 1"
  by (rule one_audit_per_ended_operation)
    (simp_all add: sample_defs books_ok_def ops_ok_def op_audit_count_def)

text \<open>Claiming is exclusive.  A claim either returns nothing and changes nothing, or it turns
  one queued row into a running one, keeps every other row, and then no other operation of the
  same world is created, validating or running.\<close>

lemma claim_is_exclusive:
  assumes "ops_ok (operations (os_store sys))" and "claim_queued now i sys = (res, sys')"
  shows "(res = None \<and> sys' = sys) \<or>
    (\<exists>cur r. res = Some r \<and> cur \<in> set (operations (os_store sys)) \<and> op_id cur = i \<and>
       op_status cur = OS_QUEUED \<and> r = claimed_row now cur \<and> op_status r = OS_RUNNING \<and>
       (\<forall>x\<in>set (operations (os_store sys')). x = r \<or> x \<in> set (operations (os_store sys)) \<and> op_id x \<noteq> i) \<and>
       (\<forall>x\<in>set (operations (os_store sys')). op_world x = op_world r \<and> op_world r \<noteq> None \<and>
          active_status (op_status x) \<longrightarrow> x = r))"
proof (cases "claim_tx now i (os_store sys) = (None, os_store sys)")
  case True
  with assms(2) show ?thesis by (simp add: claim_queued_def)
next
  case False
  from claim_tx_effect[of now i "os_store sys"] False obtain cur where
    cur: "cur \<in> set (operations (os_store sys))" "op_id cur = i" "op_status cur = OS_QUEUED"
    and free: "\<forall>w. op_world cur = Some w \<longrightarrow> \<not> has_active_operation w i (os_store sys)"
    and claim: "claim_tx now i (os_store sys) = (find_op i ((os_store sys)\<lparr>operations :=
       update_rows (\<lambda>r. op_id r = i \<and> op_status r = OS_QUEUED) (claimed_row now) (operations (os_store sys))\<rparr>),
       (os_store sys)\<lparr>operations :=
       update_rows (\<lambda>r. op_id r = i \<and> op_status r = OS_QUEUED) (claimed_row now) (operations (os_store sys))\<rparr>)"
    unfolding Let_def by metis
  define st where "st = (os_store sys)\<lparr>operations :=
       update_rows (\<lambda>r. op_id r = i \<and> op_status r = OS_QUEUED) (claimed_row now) (operations (os_store sys))\<rparr>"
  let ?st = st
  let ?r = "claimed_row now cur"
  have uni: "x = cur" if "x \<in> set (operations (os_store sys))" "op_id x = i" for x
    using ops_ok_unique[OF assms(1) that(1) cur(1)] that(2) cur(2) by simp
  have members: "x = ?r \<or> x \<in> set (operations (os_store sys)) \<and> op_id x \<noteq> i"
    if "x \<in> set (operations ?st)" for x
  proof -
    from that consider (old) "x \<in> set (operations (os_store sys))" "\<not> (op_id x = i \<and> op_status x = OS_QUEUED)"
      | (new) x0 where "x0 \<in> set (operations (os_store sys))" "op_id x0 = i" "x = claimed_row now x0"
      by (auto simp: st_def in_update_rows)
    then show ?thesis
    proof cases
      case old
      with uni[of x] cur(3) show ?thesis by metis
    next
      case new
      with uni[of x0] show ?thesis by simp
    qed
  qed
  have ok: "ops_ok (operations ?st)"
    unfolding st_def using assms(1) by (auto intro!: ops_ok_update claimed_evolves)
  have rin: "?r \<in> set (operations ?st)" using cur by (auto simp: st_def in_update_rows)
  have "find_op i ?st = Some ?r"
    using find_op_unique[OF ok rin] cur(2) by (simp add: claimed_row_def)
  moreover have "claim_tx now i (os_store sys) = (find_op i ?st, ?st)"
    using claim by (simp only: st_def)
  ultimately have "claim_tx now i (os_store sys) = (Some ?r, ?st)" by simp
  with assms(2) have res: "res = Some ?r" "os_store sys' = ?st"
    by (auto simp: claim_queued_def)
  have excl: "x = ?r" if x: "x \<in> set (operations ?st)" "op_world x = op_world ?r" "op_world ?r \<noteq> None"
      "active_status (op_status x)" for x
  proof (rule ccontr)
    assume "x \<noteq> ?r"
    with members[OF x(1)] have "x \<in> set (operations (os_store sys))" "op_id x \<noteq> i" by auto
    moreover obtain w where "op_world cur = Some w" using x(3) by (auto simp: claimed_row_def)
    ultimately show False using free x(2,4)
      by (auto simp: has_active_operation_def row_simps claimed_row_def)
  qed
  have "op_status ?r = OS_RUNNING" by (simp add: claimed_row_def)
  with res members excl cur show ?thesis by metis
qed

lemma claim_is_exclusive_witness:
  "\<exists>r. fst (claim_queued 9 ''op_1'' (sample_sys [sample_op ''op_1'' START OS_QUEUED])) = Some r \<and>
     op_status r = OS_RUNNING \<and>
     r = claimed_row 9 (sample_op ''op_1'' START OS_QUEUED)"
proof -
  have "fst (claim_queued 9 ''op_1'' (sample_sys [sample_op ''op_1'' START OS_QUEUED])) \<noteq> None"
    by (simp add: claim_queued_def claim_tx_def sample_defs has_active_operation_def row_simps
        find_op_def Let_def)
  with claim_is_exclusive[of "sample_sys [sample_op ''op_1'' START OS_QUEUED]" 9 "''op_1''"
      "fst (claim_queued 9 ''op_1'' (sample_sys [sample_op ''op_1'' START OS_QUEUED]))"
      "snd (claim_queued 9 ''op_1'' (sample_sys [sample_op ''op_1'' START OS_QUEUED]))"]
  show ?thesis by (auto simp: sample_defs ops_ok_def)
qed

text \<open>A kill supersedes a stop.  When everything in flight on a world is stops, a kill request
  without a known key is admitted with the requested status; every one of those stops is cancelled
  with \<open>superseded_by_kill\<close> and gets its audit record, and only the kill stays in flight there.\<close>

lemma kill_supersedes_stop:
  assumes "ops_ok (operations st)" and "oi_type req = KILL" and "oi_world req = Some w" and "oi_key req = None"
    and "active_for w st \<noteq> []" and "\<forall>r\<in>set (active_for w st). op_type r = STOP"
    and "create_tx u now req init False st = Inr (res, st')"
  shows "\<exists>r. res = Created r (map (cancelled now ''superseded_by_kill'') (active_for w st)) \<and>
     op_type r = KILL \<and> op_status r = init \<and>
     (\<forall>x\<in>set (operations st'). op_world x = Some w \<and> in_flight (op_status x) \<longrightarrow> x = r) \<and>
     (\<exists>as. audits st' = audits st @ as \<and>
        map au_operation as = map (\<lambda>x. Some (op_id x)) (active_for w st))"
proof -
  let ?act = "active_for w st"
  have types: "set (map op_type ?act) = {STOP}"
    using assms(5,6) by (cases ?act) auto
  have init: "initial_status req init st = init"
    by (simp add: initial_status_def assms(2))
  obtain xs st1 where c: "cancel_rows now ''superseded_by_kill'' ?act st = (xs, st1)" by fastforce
  have "apply_conflict_policy req ?act init now st = Inr ((init, xs), st1)"
    unfolding apply_conflict_policy_def Let_def types assms(2) c using assms(5)
    by (simp add: single_flight_types_def)
  with assms(2-4,7) init have ins: "create_insert u now req init xs st1 = Inr (res, st')"
    by (simp add: create_tx_def Let_def)
  have sub: "set ?act \<subseteq> {x \<in> set (operations st). op_world x = oi_world req \<and> op_world x \<noteq> None \<and> in_flight (op_status x)}"
    using assms(3) by (auto simp: active_for_set)
  let ?r = "new_op_row (''op_'' @ u 0) now req init"
  from create_insert_effect[OF assms(1) sub active_for_distinct[OF assms(1)] c ins]
  have res: "res = Created ?r (map (cancelled now ''superseded_by_kill'') ?act)"
    and e: "create_effect now req ?r ''superseded_by_kill'' ?act st st'" by auto
  have "x = ?r" if x: "x \<in> set (operations st')" "op_world x = Some w" "in_flight (op_status x)" for x
  proof (rule ccontr)
    assume "x \<noteq> ?r"
    with x e have "x \<in> set ?act \<and> \<not> (op_id x \<in> op_id ` set ?act \<and> in_flight (op_status x))"
      by (auto simp: create_effect_def in_update_rows active_for_set cancelled_def)
    with x(3) show False by auto
  qed
  with res e assms(2) show ?thesis
    by (intro exI[of _ ?r]) (auto simp: create_effect_def new_op_row_def)
qed

definition sample_stops :: store where
  "sample_stops = sample_store [sample_op ''op_1'' STOP OS_QUEUED]"

definition sample_after_kill :: store where
  "sample_after_kill = snd (projr (create_tx (\<lambda>n. replicate n (CHR ''x'')) 9 (sample_request KILL None) OS_QUEUED False sample_stops))"

lemma sample_kill_runs:
  "is_ok (create_tx (\<lambda>n. replicate n (CHR ''x'')) 9 (sample_request KILL None) OS_QUEUED False sample_stops)"
  by (simp add: create_tx_def sample_stops_def sample_defs active_for_def initial_status_def
      apply_conflict_policy_def create_insert_def insert_op_def row_simps fk_world_def fk_user_def
      fk_op_def Let_def single_flight_types_def cancel_row_def find_op_def write_terminal_audit_def
      audit_write_def insert_audit_def username_of_def split: option.split)

lemma kill_supersedes_stop_witness:
  "\<exists>r. fst (projr (create_tx (\<lambda>n. replicate n (CHR ''x'')) 9 (sample_request KILL None) OS_QUEUED False sample_stops)) =
      Created r (map (cancelled 9 ''superseded_by_kill'') (active_for ''w1'' sample_stops)) \<and>
     op_type r = KILL \<and> op_status r = OS_QUEUED"
proof -
  have "create_tx (\<lambda>n. replicate n (CHR ''x'')) 9 (sample_request KILL None) OS_QUEUED False sample_stops =
    Inr (fst (projr (create_tx (\<lambda>n. replicate n (CHR ''x'')) 9 (sample_request KILL None) OS_QUEUED False sample_stops)),
         sample_after_kill)"
    using sample_kill_runs unfolding sample_after_kill_def by (auto simp: is_ok_iff)
  from kill_supersedes_stop[OF _ _ _ _ _ _ this, of "''w1''"] show ?thesis
    by (auto simp: sample_stops_def sample_defs ops_ok_def active_for_def)
qed

text \<open>What a transition does, on every branch: an unknown id and an ended operation are refused;
  a move to \<open>Created\<close>, \<open>Queued\<close> or \<open>Validating\<close> never touches the database; and a move to
  \<open>Running\<close> or to an end that succeeds writes the status, keeps the first start time, sets the end
  time exactly for an end, and persists the checkpoint given, or else the pending one, or else the
  last progress, or else the old one.\<close>

lemma transition_outcomes:
  "(find_op i (os_store sys) = None \<longrightarrow>
      transition u now i status ti sys = Inl (OperationNotFound i)) \<and>
   (\<forall>cur. find_op i (os_store sys) = Some cur \<and> terminal_status (op_status cur) \<longrightarrow>
      transition u now i status ti sys = Inl (OperationAlreadyTerminal i)) \<and>
   (\<forall>r sys'. transition u now i status ti sys = Inr (r, sys') \<and> status \<in> {OS_CREATED, OS_QUEUED, OS_VALIDATING} \<longrightarrow>
      os_store sys' = os_store sys) \<and>
   (\<forall>cur r sys'. find_op i (os_store sys) = Some cur \<and> transition u now i status ti sys = Inr (r, sys') \<and>
      status \<notin> {OS_CREATED, OS_QUEUED, OS_VALIDATING} \<longrightarrow>
      op_status r = status \<and> op_id r = op_id cur \<and>
      (op_started_at cur \<noteq> None \<longrightarrow> op_started_at r = op_started_at cur) \<and>
      op_finished_at r = (if terminal_status status then Some now else op_finished_at cur) \<and>
      op_checkpoint r = (case ti_checkpoint ti of Some c \<Rightarrow> Some c | None \<Rightarrow>
        (case map_of (os_pending sys) i of Some c \<Rightarrow> Some c | None \<Rightarrow>
          (case map_of (os_progress sys) i of Some c \<Rightarrow> Some c | None \<Rightarrow> op_checkpoint cur))) \<and>
      operations (os_store sys') = update_rows (\<lambda>x. op_id x = op_id cur) (\<lambda>_. r) (operations (os_store sys)))"
proof (intro conjI)
  show "\<forall>r sys'. transition u now i status ti sys = Inr (r, sys') \<and>
      status \<in> {OS_CREATED, OS_QUEUED, OS_VALIDATING} \<longrightarrow> os_store sys' = os_store sys"
    by (auto elim: transition_cases)
  show "\<forall>cur r sys'. find_op i (os_store sys) = Some cur \<and> transition u now i status ti sys = Inr (r, sys') \<and>
      status \<notin> {OS_CREATED, OS_QUEUED, OS_VALIDATING} \<longrightarrow>
      op_status r = status \<and> op_id r = op_id cur \<and>
      (op_started_at cur \<noteq> None \<longrightarrow> op_started_at r = op_started_at cur) \<and>
      op_finished_at r = (if terminal_status status then Some now else op_finished_at cur) \<and>
      op_checkpoint r = (case ti_checkpoint ti of Some c \<Rightarrow> Some c | None \<Rightarrow>
        (case map_of (os_pending sys) i of Some c \<Rightarrow> Some c | None \<Rightarrow>
          (case map_of (os_progress sys) i of Some c \<Rightarrow> Some c | None \<Rightarrow> op_checkpoint cur))) \<and>
      operations (os_store sys') = update_rows (\<lambda>x. op_id x = op_id cur) (\<lambda>_. r) (operations (os_store sys))"
  proof (intro allI impI, elim conjE)
    fix cur r sys'
    let ?c = "case ti_checkpoint ti of Some c \<Rightarrow> Some c | None \<Rightarrow>
        (case map_of (os_pending sys) i of Some c \<Rightarrow> Some c | None \<Rightarrow> map_of (os_progress sys) i)"
    assume cur: "find_op i (os_store sys) = Some cur" and t: "transition u now i status ti sys = Inr (r, sys')"
      and s: "status \<notin> {OS_CREATED, OS_QUEUED, OS_VALIDATING}"
    have r: "r = transitioned_row now status ti ?c cur"
      using cur t s by (cases status) (auto simp: transition_def result_simps Let_def split: if_splits)
    have "operations (os_store sys') = update_rows (\<lambda>x. op_id x = op_id cur) (\<lambda>_. r) (operations (os_store sys))"
      using t s cur by (auto elim!: transition_cases simp: transition_effect_def)
    then show "op_status r = status \<and> op_id r = op_id cur \<and>
      (op_started_at cur \<noteq> None \<longrightarrow> op_started_at r = op_started_at cur) \<and>
      op_finished_at r = (if terminal_status status then Some now else op_finished_at cur) \<and>
      op_checkpoint r = (case ti_checkpoint ti of Some c \<Rightarrow> Some c | None \<Rightarrow>
        (case map_of (os_pending sys) i of Some c \<Rightarrow> Some c | None \<Rightarrow>
          (case map_of (os_progress sys) i of Some c \<Rightarrow> Some c | None \<Rightarrow> op_checkpoint cur))) \<and>
      operations (os_store sys') = update_rows (\<lambda>x. op_id x = op_id cur) (\<lambda>_. r) (operations (os_store sys))"
      unfolding r by (simp add: transitioned_row_def split: option.split)
  qed
qed (simp_all add: transition_def)

lemma transition_outcomes_witness:
  "transition (\<lambda>n. ''u'') 9 ''op_1'' OS_RUNNING plain_transition
      (sample_sys [sample_op ''op_1'' BACKUP OS_FAILED]) = Inl (OperationAlreadyTerminal ''op_1'')"
  using transition_outcomes[of "''op_1''" "sample_sys [sample_op ''op_1'' BACKUP OS_FAILED]"
      "\<lambda>n. ''u''" 9 OS_RUNNING plain_transition]
  by (simp add: sample_defs find_op_def)

end
