(* ===== verification/Cleanup.thy ===== *)
theory Cleanup
  imports Operations_Inv "HOL-Library.Option_ord"
begin

text \<open>
  Retention of backup artifacts, \<open>app/services/cleanup.py\<close>: which artifacts may go, the preview
  that binds a confirmation to the exact set, and the run that removes files and tombstones rows.
  The files present are a list of paths.  Each reading of the clock within a call is a value of
  \<open>clk\<close>; \<open>sha\<close> is SHA-256 in hexadecimal.  A call gives its result together with the state it
  reached, since a refusal also ends the operation.
\<close>

section \<open>Candidates\<close>

datatype retention_error = AgeFloor | CountFloor | BlastRadius | PreviewRequiredOrStale | CleanupOperationRequired

fun retention_text :: "retention_error \<Rightarrow> string" where
  "retention_text AgeFloor = ''age floor is 3 days''"
| "retention_text CountFloor = ''count floor is 3 per world/category''"
| "retention_text BlastRadius = ''CLEANUP_BLAST_RADIUS''"
| "retention_text PreviewRequiredOrStale = ''CLEANUP_PREVIEW_REQUIRED_OR_STALE''"
| "retention_text CleanupOperationRequired = ''CLEANUP_OPERATION_REQUIRED''"

definition cleanup_age_floor_days :: int where "cleanup_age_floor_days = 3"

definition cleanup_count_floor :: int where "cleanup_count_floor = 3"

definition cleanup_blast_radius_cap :: nat where "cleanup_blast_radius_cap = 500"

record CleanupCandidate =
  ca_id :: string
  ca_path :: string
  ca_world :: "string option"
  ca_category :: TriggerType
  ca_created_at :: int

definition candidate_of :: "artifact_row \<Rightarrow> CleanupCandidate" where
  "candidate_of a = \<lparr>ca_id = ar_id a, ca_path = ar_path a, ca_world = ar_world a,
     ca_category = ar_category a, ca_created_at = ar_created_at a\<rparr>"

definition artifact_group :: "artifact_row \<Rightarrow> string option \<times> TriggerType" where
  "artifact_group a = (ar_world a, ar_category a)"

definition live_artifacts :: "string option \<Rightarrow> store \<Rightarrow> artifact_row list" where
  "live_artifacts w st =
     sort_key (\<lambda>a. (ar_world a, trigger_value (ar_category a), - ar_created_at a))
       (filter (\<lambda>a. ar_deleted_at a = None \<and> (w = None \<or> ar_world a = w)) (artifacts st))"

definition group_candidates :: "int \<Rightarrow> nat \<Rightarrow> artifact_row list \<Rightarrow> artifact_row list" where
  "group_candidates cutoff keep as =
     (let viable = filter (\<lambda>a. \<not> ar_suspect a) as;
          protected = map ar_id (take keep as) @ (case viable of [] \<Rightarrow> [] | v # _ \<Rightarrow> [ar_id v]) in
      filter (\<lambda>a. ar_created_at a < cutoff \<and> ar_id a \<notin> set protected \<and> \<not> ar_suspect a) as)"

definition group_keys :: "artifact_row list \<Rightarrow> (string option \<times> TriggerType) list" where
  "group_keys rows = rev (remdups (rev (map artifact_group rows)))"

definition candidate_rows :: "int \<Rightarrow> nat \<Rightarrow> artifact_row list \<Rightarrow> artifact_row list" where
  "candidate_rows cutoff keep rows = concat
     (map (\<lambda>g. group_candidates cutoff keep (filter (\<lambda>a. artifact_group a = g) rows)) (group_keys rows))"

definition backup_candidates ::
  "int \<Rightarrow> int \<Rightarrow> int \<Rightarrow> string option \<Rightarrow> store \<Rightarrow> retention_error + CleanupCandidate list" where
  "backup_candidates now older keep w st =
     (if older < cleanup_age_floor_days then Inl AgeFloor
      else if keep < cleanup_count_floor then Inl CountFloor
      else Inr (sort_key ca_created_at (map candidate_of
             (candidate_rows (now - older * 24 * 60 * 60) (nat keep) (live_artifacts w st)))))"

section \<open>Execution\<close>

record cleanup_sys =
  cs_ops :: op_sys
  cs_files :: "string list"
  cs_previews :: "((string option \<times> string) \<times> string) list"

datatype cleanup_error = Retention retention_error | CleanupOpError op_error

record cleanup_policy =
  cp_older :: int
  cp_keep :: int
  cp_world :: "string option"
  cp_elevated :: bool
  cp_deleted_by :: string

text \<open>The removal loop: files gone, rows tombstoned, and the number of artifacts deleted.\<close>

fun remove_artifacts ::
  "int \<Rightarrow> string \<Rightarrow> CleanupCandidate list \<Rightarrow> string list \<Rightarrow> artifact_row list
    \<Rightarrow> nat \<times> string list \<times> artifact_row list" where
  "remove_artifacts now by [] files rows = (0, files, rows)"
| "remove_artifacts now by (c # cs) files rows =
     (case find_row (\<lambda>a. ar_id a = ca_id c) rows of
        None \<Rightarrow> remove_artifacts now by cs files rows
      | Some a \<Rightarrow>
          (if ar_deleted_at a \<noteq> None then remove_artifacts now by cs files rows
           else
             let (n, fs, rs) = remove_artifacts now by cs (filter (\<lambda>f. f \<noteq> ca_path c) files)
                   (update_rows (\<lambda>a. ar_id a = ca_id c)
                      (\<lambda>a. a\<lparr>ar_deleted_at := Some now, ar_deleted_by := Some by\<rparr>) rows) in
             (Suc n, fs, rs)))"

definition with_artifacts :: "artifact_row list \<Rightarrow> cleanup_sys \<Rightarrow> cleanup_sys" where
  "with_artifacts rows sys = sys\<lparr>cs_ops := (cs_ops sys)\<lparr>os_store := (os_store (cs_ops sys))\<lparr>artifacts := rows\<rparr>\<rparr>\<rparr>"

definition execute_backup_cleanup ::
  "int \<Rightarrow> int \<Rightarrow> CleanupCandidate list \<Rightarrow> cleanup_policy \<Rightarrow> cleanup_sys
    \<Rightarrow> retention_error + nat \<times> cleanup_sys" where
  "execute_backup_cleanup now1 now2 cands p sys =
     (if cleanup_blast_radius_cap < length cands \<and> \<not> cp_elevated p then Inl BlastRadius
      else res_bind (backup_candidates now1 (cp_older p) (cp_keep p) (cp_world p) (os_store (cs_ops sys)))
        (\<lambda>eligible.
           if cands \<noteq> eligible then Inl PreviewRequiredOrStale
           else
             let (n, files, rows) = remove_artifacts now2 (cp_deleted_by p) cands (cs_files sys)
                   (artifacts (os_store (cs_ops sys))) in
             Inr (n, with_artifacts rows (sys\<lparr>cs_files := files\<rparr>))))"

definition candidate_json :: "CleanupCandidate \<Rightarrow> json" where
  "candidate_json c = JObj [(''artifact_id'', JStr (ca_id c)),
     (''category'', JStr (trigger_value (ca_category c))), (''created_at'', JInt (ca_created_at c)),
     (''storage_path'', JStr (ca_path c)), (''world_id'', jopt_str (ca_world c))]"

definition preview_fingerprint ::
  "(string \<Rightarrow> string) \<Rightarrow> CleanupCandidate list \<Rightarrow> cleanup_policy \<Rightarrow> string \<Rightarrow> string" where
  "preview_fingerprint sha cands p scope = sha (dumps (JObj
     [(''keep_per_category'', JInt (cp_keep p)), (''older_than_days'', JInt (cp_older p)),
      (''scope'', JStr scope), (''targets'', JArr (map candidate_json cands)),
      (''world_id'', jopt_str (cp_world p))]))"

text \<open>The fingerprint a wet run is compared with: the one of the named dry run when an operation
  is named, the one this process remembers otherwise.\<close>

definition matched_preview ::
  "string option \<Rightarrow> bool \<Rightarrow> cleanup_policy \<Rightarrow> string \<Rightarrow> cleanup_sys \<Rightarrow> string option" where
  "matched_preview dry_op dry_run p scope sys =
     (case dry_op of
        None \<Rightarrow> map_of (cs_previews sys) (cp_world p, scope)
      | Some i \<Rightarrow>
          (if dry_run then map_of (cs_previews sys) (cp_world p, scope)
           else case find_op i (os_store (cs_ops sys)) of
             None \<Rightarrow> None
           | Some r \<Rightarrow>
               (case op_data r of
                  None \<Rightarrow> None
                | Some d \<Rightarrow>
                    (if op_type r = CLEANUP \<and> op_status r = OS_COMPLETED \<and>
                        jget ''scope'' d = Some (JStr scope) \<and>
                        (case jget ''world_id'' d of None \<Rightarrow> JNull | Some j \<Rightarrow> j) = jopt_str (cp_world p)
                     then (case jget ''preview_fingerprint'' d of Some (JStr f) \<Rightarrow> Some f | _ \<Rightarrow> None)
                     else None))))"

definition lift_ops :: "(op_sys \<Rightarrow> op_error + op_row \<times> op_sys) \<Rightarrow> cleanup_sys \<Rightarrow> op_error + cleanup_sys" where
  "lift_ops f sys = res_bind (f (cs_ops sys)) (\<lambda>(r, s). Inr (sys\<lparr>cs_ops := s\<rparr>))"

text \<open>The body of the \<open>try\<close>: \<open>Inl\<close> carries the exception and the state at the raise.\<close>

definition cleanup_body ::
  "(nat \<Rightarrow> nat \<Rightarrow> string) \<Rightarrow> (nat \<Rightarrow> int) \<Rightarrow> (string \<Rightarrow> string) \<Rightarrow> string \<Rightarrow> cleanup_policy \<Rightarrow> bool \<Rightarrow> string
    \<Rightarrow> string option \<Rightarrow> cleanup_sys \<Rightarrow> cleanup_error \<times> cleanup_sys + jdict \<times> cleanup_sys" where
  "cleanup_body u clk sha op p dry_run scope dry_op sys =
     (case backup_candidates (clk 0) (cp_older p) (cp_keep p) (cp_world p) (os_store (cs_ops sys)) of
        Inl e \<Rightarrow> Inl (Retention e, sys)
      | Inr cands \<Rightarrow>
          (let fp = preview_fingerprint sha cands p scope in
           if \<not> dry_run \<and> cleanup_blast_radius_cap < length cands \<and> \<not> cp_elevated p
           then Inl (Retention BlastRadius, sys)
           else if \<not> dry_run \<and> matched_preview dry_op dry_run p scope sys \<noteq> Some fp
           then Inl (Retention PreviewRequiredOrStale, sys)
           else case lift_ops (transition (u 0) (clk 1) op OS_RUNNING plain_transition) sys of
             Inl e \<Rightarrow> Inl (CleanupOpError e, sys)
           | Inr sys1 \<Rightarrow>
               (case (if dry_run then
                        Inr ([(''mode'', JStr ''dry_run''), (''scope'', JStr scope),
                              (''world_id'', jopt_str (cp_world p)), (''target_count'', JInt (int (length cands))),
                              (''targets'', JArr (map (\<lambda>c. JStr (ca_id c)) cands)),
                              (''older_than_days'', JInt (cp_older p)), (''keep_per_category'', JInt (cp_keep p)),
                              (''preview_fingerprint'', JStr fp)],
                             sys1\<lparr>cs_previews := dict_set (cp_world p, scope) fp (cs_previews sys1)\<rparr>)
                      else res_bind (execute_backup_cleanup (clk 2) (clk 3) cands p sys1)
                        (\<lambda>(n, sys2). Inr ([(''mode'', JStr ''wet_run''), (''deleted_count'', JInt (int n)),
                                          (''target_count'', JInt (int (length cands)))], sys2))) of
                  Inl e \<Rightarrow> Inl (Retention e, sys1)
                | Inr (result, sys2) \<Rightarrow>
                    (case lift_ops (transition (u 1) (clk 4) op OS_COMPLETED
                             (plain_transition\<lparr>ti_data := Some result\<rparr>)) sys2 of
                       Inl e \<Rightarrow> Inl (CleanupOpError e, sys2)
                     | Inr sys3 \<Rightarrow> Inr (result, sys3)))))"

definition evaluate_and_execute_cleanup ::
  "(nat \<Rightarrow> nat \<Rightarrow> string) \<Rightarrow> (nat \<Rightarrow> int) \<Rightarrow> (string \<Rightarrow> string) \<Rightarrow> string \<Rightarrow> cleanup_policy \<Rightarrow> bool \<Rightarrow> string
    \<Rightarrow> string option \<Rightarrow> cleanup_sys \<Rightarrow> (cleanup_error + jdict) \<times> cleanup_sys" where
  "evaluate_and_execute_cleanup u clk sha op p dry_run scope dry_op sys =
     (case find_op op (os_store (cs_ops sys)) of
        None \<Rightarrow> (Inl (Retention CleanupOperationRequired), sys)
      | Some r \<Rightarrow>
          (if op_type r \<noteq> CLEANUP \<or> terminal_status (op_status r)
           then (Inl (Retention CleanupOperationRequired), sys)
           else case cleanup_body u clk sha op p dry_run scope dry_op sys of
             Inr (result, sys1) \<Rightarrow> (Inr result, sys1)
           | Inl (CleanupOpError e, sys1) \<Rightarrow> (Inl (CleanupOpError e), sys1)
           | Inl (Retention e, sys1) \<Rightarrow>
               (case find_op op (os_store (cs_ops sys1)) of
                  None \<Rightarrow> (Inl (Retention e), sys1)
                | Some r1 \<Rightarrow>
                    (if terminal_status (op_status r1) then (Inl (Retention e), sys1)
                     else case lift_ops (transition (u 2) (clk 5) op OS_FAILED
                            \<lparr>ti_checkpoint = None, ti_error_code = Some (retention_text e),
                             ti_message = Some (retention_text e), ti_data = None\<rparr>) sys1 of
                       Inl oe \<Rightarrow> (Inl (CleanupOpError oe), sys1)
                     | Inr sys2 \<Rightarrow> (Inl (Retention e), sys2)))))"

section \<open>Lemmas on candidates\<close>

lemma live_artifacts_set:
  "set (live_artifacts w st) = {a \<in> set (artifacts st). ar_deleted_at a = None \<and> (w = None \<or> ar_world a = w)}"
  by (auto simp: live_artifacts_def)

lemma live_artifacts_distinct:
  "distinct (map ar_id (artifacts st)) \<Longrightarrow> distinct (map ar_id (live_artifacts w st))"
  unfolding live_artifacts_def by (auto simp: distinct_map inj_on_def)

lemma group_sorted:
  "sorted_wrt (\<lambda>a b. ar_created_at b \<le> ar_created_at a)
     (filter (\<lambda>a. artifact_group a = g) (live_artifacts w st))"
proof -
  let ?f = "\<lambda>a. (ar_world a, trigger_value (ar_category a), - ar_created_at a)"
  let ?xs = "filter (\<lambda>a. artifact_group a = g) (live_artifacts w st)"
  have "sorted (map ?f ?xs)"
    unfolding live_artifacts_def by (intro sorted_filter sorted_sort_key)
  then have "sorted_wrt (\<lambda>a b. ?f a \<le> ?f b) ?xs" by (simp only: sorted_map)
  then show ?thesis
    by (rule sorted_wrt_mono_rel[rotated]) (auto simp: artifact_group_def)
qed

lemma group_keys_set: "set (group_keys rows) = artifact_group ` set rows"
  by (simp add: group_keys_def)

lemma group_candidates_mem: "a \<in> set (group_candidates cutoff keep as) \<Longrightarrow> a \<in> set as"
  by (simp add: group_candidates_def Let_def)

lemma candidate_rows_in:
  "a \<in> set (candidate_rows cutoff keep rows) \<longleftrightarrow>
     a \<in> set (group_candidates cutoff keep (filter (\<lambda>b. artifact_group b = artifact_group a) rows))"
proof
  assume "a \<in> set (candidate_rows cutoff keep rows)"
  then obtain g where g: "a \<in> set (group_candidates cutoff keep (filter (\<lambda>b. artifact_group b = g) rows))"
    by (auto simp: candidate_rows_def)
  from group_candidates_mem[OF g] have "g = artifact_group a" by simp
  with g show "a \<in> set (group_candidates cutoff keep (filter (\<lambda>b. artifact_group b = artifact_group a) rows))"
    by simp
next
  assume a: "a \<in> set (group_candidates cutoff keep (filter (\<lambda>b. artifact_group b = artifact_group a) rows))"
  from group_candidates_mem[OF a] have "artifact_group a \<in> set (group_keys rows)"
    by (simp add: group_keys_set)
  with a show "a \<in> set (candidate_rows cutoff keep rows)"
    by (auto simp: candidate_rows_def)
qed

lemma group_candidates_in:
  "a \<in> set (group_candidates cutoff keep as) \<Longrightarrow>
     a \<in> set as \<and> ar_created_at a < cutoff \<and> \<not> ar_suspect a \<and> ar_id a \<notin> ar_id ` set (take keep as) \<and>
     (\<forall>v vs. filter (\<lambda>a. \<not> ar_suspect a) as = v # vs \<longrightarrow> ar_id a \<noteq> ar_id v)"
  by (auto simp: group_candidates_def Let_def)

lemma backup_candidates_Inr:
  assumes "backup_candidates now older keep w st = Inr cands"
  shows "3 \<le> older" "3 \<le> keep"
    "set cands = candidate_of ` set (candidate_rows (now - 86400 * older) (nat keep) (live_artifacts w st))"
  using assms by (auto simp: backup_candidates_def cleanup_age_floor_days_def cleanup_count_floor_def
      split: if_splits)

text \<open>Whatever the policy protects in a group is not the id of any candidate.\<close>

lemma protected_not_candidate:
  assumes "distinct (map ar_id rows)" and "b \<in> set rows"
    and "c \<in> set (candidate_rows cutoff keep rows)" and "ar_id c = ar_id b"
    and "as = filter (\<lambda>a. artifact_group a = artifact_group b) rows"
  shows "b \<notin> set (take keep as) \<and> (\<forall>v vs. filter (\<lambda>a. \<not> ar_suspect a) as = v # vs \<longrightarrow> b \<noteq> v)"
proof -
  have c: "c \<in> set (group_candidates cutoff keep (filter (\<lambda>b. artifact_group b = artifact_group c) rows))"
    using assms(3) by (simp only: candidate_rows_in)
  then have "c \<in> set rows" by (auto simp: group_candidates_def Let_def)
  then have "c = b" using distinct_map_same[OF assms(1) _ assms(2,4)] by blast
  with group_candidates_in[OF c] assms(5) show ?thesis by blast
qed

lemma newer_kept:
  assumes "distinct (map ar_id (artifacts st))"
    and "a \<in> set (candidate_rows cutoff keep (live_artifacts w st))"
  shows "keep \<le> length (filter (\<lambda>b. artifact_group b = artifact_group a \<and> ar_created_at a \<le> ar_created_at b \<and>
     ar_id b \<notin> ar_id ` set (candidate_rows cutoff keep (live_artifacts w st))) (live_artifacts w st))"
proof -
  let ?rows = "live_artifacts w st"
  let ?as = "filter (\<lambda>b. artifact_group b = artifact_group a) ?rows"
  have dist: "distinct (map ar_id ?rows)" by (rule live_artifacts_distinct[OF assms(1)])
  have a: "a \<in> set ?as" "ar_id a \<notin> ar_id ` set (take keep ?as)"
    using group_candidates_in[OF assms(2)[unfolded candidate_rows_in]] by auto
  have "a \<in> set (take keep ?as) \<or> a \<in> set (drop keep ?as)"
    using a(1) by (metis Un_iff append_take_drop_id set_append)
  with a(2) have drop: "a \<in> set (drop keep ?as)" by auto
  then have "drop keep ?as \<noteq> []" by auto
  then have len: "length (take keep ?as) = keep" by simp
  have "sorted_wrt (\<lambda>a b. ar_created_at b \<le> ar_created_at a) (take keep ?as @ drop keep ?as)"
    using group_sorted[of "artifact_group a" w st] by simp
  then have newer: "\<forall>b\<in>set (take keep ?as). ar_created_at a \<le> ar_created_at b"
    using drop unfolding sorted_wrt_append by blast
  have safe: "ar_id b \<notin> ar_id ` set (candidate_rows cutoff keep ?rows)" if "b \<in> set (take keep ?as)" for b
  proof
    assume "ar_id b \<in> ar_id ` set (candidate_rows cutoff keep ?rows)"
    then obtain c where "c \<in> set (candidate_rows cutoff keep ?rows)" "ar_id c = ar_id b" by auto
    moreover have "b \<in> set ?as" using that in_set_takeD by fast
    ultimately show False
      using protected_not_candidate[OF dist, of b c cutoff keep ?as] that by auto
  qed
  let ?P = "\<lambda>b. ar_created_at a \<le> ar_created_at b \<and> ar_id b \<notin> ar_id ` set (candidate_rows cutoff keep ?rows)"
  have "length (filter ?P (take keep ?as)) = keep"
    using newer safe len by (simp add: filter_id_conv)
  moreover have "length (filter ?P ?as) = length (filter ?P (take keep ?as)) + length (filter ?P (drop keep ?as))"
    by (metis append_take_drop_id filter_append length_append)
  ultimately have "keep \<le> length (filter ?P ?as)" by linarith
  then show ?thesis by (simp add: conj_commute conj_left_commute cong: conj_cong)
qed

lemma newest_viable_kept:
  assumes "distinct (map ar_id (artifacts st))" and "b \<in> set (live_artifacts w st)" and "\<not> ar_suspect b"
  shows "\<exists>v\<in>set (live_artifacts w st). artifact_group v = artifact_group b \<and> \<not> ar_suspect v \<and>
     ar_created_at b \<le> ar_created_at v \<and>
     ar_id v \<notin> ar_id ` set (candidate_rows cutoff keep (live_artifacts w st))"
proof -
  let ?rows = "live_artifacts w st"
  let ?as = "filter (\<lambda>a. artifact_group a = artifact_group b) ?rows"
  let ?vs = "filter (\<lambda>a. \<not> ar_suspect a) ?as"
  have bv: "b \<in> set ?vs" using assms(2,3) by simp
  then obtain v vs where vs: "?vs = v # vs" by (metis empty_iff list.exhaust list.set(1))
  have v: "v \<in> set ?as" "\<not> ar_suspect v"
    using arg_cong[OF vs, of set] by auto
  have "sorted_wrt (\<lambda>a b. ar_created_at b \<le> ar_created_at a) ?vs"
    by (rule sorted_wrt_filter[OF group_sorted])
  then have new: "ar_created_at b \<le> ar_created_at v" using bv unfolding vs by auto
  have "ar_id v \<notin> ar_id ` set (candidate_rows cutoff keep ?rows)"
  proof
    assume "ar_id v \<in> ar_id ` set (candidate_rows cutoff keep ?rows)"
    then obtain c where c: "c \<in> set (candidate_rows cutoff keep ?rows)" "ar_id c = ar_id v" by auto
    have "?as = filter (\<lambda>a. artifact_group a = artifact_group v) ?rows" using v(1) by auto
    with protected_not_candidate[OF live_artifacts_distinct[OF assms(1)] _ c] v(1) vs show False by auto
  qed
  with v new show ?thesis by auto
qed

section \<open>Lemmas on execution\<close>

definition tombstoned :: "int \<Rightarrow> string \<Rightarrow> artifact_row \<Rightarrow> artifact_row" where
  "tombstoned now by a = a\<lparr>ar_deleted_at := Some now, ar_deleted_by := Some by\<rparr>"

lemma remove_artifacts_exact:
  assumes "distinct (map ca_id cs)"
    and "\<forall>c\<in>set cs. \<exists>a. find_row (\<lambda>a. ar_id a = ca_id c) rows = Some a \<and> ar_deleted_at a = None"
  shows "remove_artifacts now by cs files rows =
     (length cs, filter (\<lambda>f. f \<notin> ca_path ` set cs) files,
      update_rows (\<lambda>a. ar_id a \<in> ca_id ` set cs) (tombstoned now by) rows)"
  using assms
proof (induction cs arbitrary: files rows)
  case Nil
  then show ?case by (simp add: update_rows_def)
next
  case (Cons c cs)
  let ?rows = "update_rows (\<lambda>a. ar_id a = ca_id c) (tombstoned now by) rows"
  have step: "remove_artifacts now by (c # cs) files rows =
      (let (n, fs, rs) = remove_artifacts now by cs (filter (\<lambda>f. f \<noteq> ca_path c) files) ?rows in (Suc n, fs, rs))"
    using Cons.prems(2) by (auto simp: tombstoned_def[abs_def])
  have "\<exists>a. find_row (\<lambda>a. ar_id a = ca_id d) ?rows = Some a \<and> ar_deleted_at a = None" if d: "d \<in> set cs" for d
  proof -
    have "ca_id d \<noteq> ca_id c" using Cons.prems(1) d by (auto simp: image_iff)
    then have "find_row (\<lambda>a. ar_id a = ca_id d) ?rows =
        map_option (\<lambda>r. if ar_id r = ca_id c then tombstoned now by r else r) (find_row (\<lambda>a. ar_id a = ca_id d) rows)"
      by (intro find_row_update_rows_stable) (simp add: tombstoned_def)
    moreover obtain a where "find_row (\<lambda>a. ar_id a = ca_id d) rows = Some a" "ar_deleted_at a = None"
      using Cons.prems(2) d by auto
    ultimately show ?thesis
      using find_row_SomeD[of "\<lambda>a. ar_id a = ca_id d" rows a] \<open>ca_id d \<noteq> ca_id c\<close> by auto
  qed
  then have "\<forall>d\<in>set cs. \<exists>a. find_row (\<lambda>a. ar_id a = ca_id d) ?rows = Some a \<and> ar_deleted_at a = None" by blast
  from Cons.IH[OF _ this] Cons.prems(1)
  have rec: "remove_artifacts now by cs (filter (\<lambda>f. f \<noteq> ca_path c) files) ?rows =
      (length cs, filter (\<lambda>f. f \<notin> ca_path ` set cs) (filter (\<lambda>f. f \<noteq> ca_path c) files),
       update_rows (\<lambda>a. ar_id a \<in> ca_id ` set cs) (tombstoned now by) ?rows)" by simp
  have "update_rows (\<lambda>a. ar_id a \<in> ca_id ` set cs) (tombstoned now by) ?rows =
      update_rows (\<lambda>a. ar_id a \<in> ca_id ` set (c # cs)) (tombstoned now by) rows"
    using Cons.prems(1) by (auto simp: update_rows_def tombstoned_def image_iff)
  moreover have "filter (\<lambda>f. f \<notin> ca_path ` set cs) (filter (\<lambda>f. f \<noteq> ca_path c) files) =
      filter (\<lambda>f. f \<notin> ca_path ` set (c # cs)) files"
    by (auto intro: filter_cong)
  ultimately show ?case unfolding step rec by simp
qed

lemma candidate_rows_distinct:
  assumes "distinct (map ar_id rows)"
  shows "distinct (map ar_id (candidate_rows cutoff keep rows))"
proof -
  have "distinct (map ar_id (concat (map (\<lambda>g. group_candidates cutoff keep (filter (\<lambda>a. artifact_group a = g) rows)) gs)))"
    if "distinct gs" for gs
    using that
  proof (induction gs)
    case (Cons g gs)
    have "distinct (map ar_id (group_candidates cutoff keep (filter (\<lambda>a. artifact_group a = g) rows)))"
      using assms by (simp add: group_candidates_def Let_def distinct_map_filter)
    moreover have "ar_id a \<noteq> ar_id b"
      if a: "a \<in> set (group_candidates cutoff keep (filter (\<lambda>a. artifact_group a = g) rows))"
        and b: "g' \<in> set gs" "b \<in> set (group_candidates cutoff keep (filter (\<lambda>a. artifact_group a = g') rows))" for a b g'
    proof
      assume "ar_id a = ar_id b"
      with group_candidates_mem[OF a] group_candidates_mem[OF b(2)] distinct_map_same[OF assms]
      have "a = b" by auto
      with group_candidates_mem[OF a] group_candidates_mem[OF b(2)] b(1) Cons.prems show False by auto
    qed
    ultimately show ?case using Cons by fastforce
  qed simp
  from this[of "group_keys rows"] show ?thesis
    by (simp add: candidate_rows_def group_keys_def)
qed

lemma candidates_distinct_live:
  assumes "distinct (map ar_id (artifacts st))" and "backup_candidates now older keep w st = Inr cands"
  shows "distinct (map ca_id cands)"
    and "\<forall>c\<in>set cands. \<exists>a. find_row (\<lambda>a. ar_id a = ca_id c) (artifacts st) = Some a \<and>
           ar_deleted_at a = None \<and> candidate_of a = c \<and>
           a \<in> set (candidate_rows (now - 86400 * older) (nat keep) (live_artifacts w st))"
proof -
  let ?rows = "candidate_rows (now - 86400 * older) (nat keep) (live_artifacts w st)"
  have id: "ca_id (candidate_of a) = ar_id a" for a by (simp add: candidate_of_def)
  have cands: "cands = sort_key ca_created_at (map candidate_of ?rows)"
    using assms(2) by (auto simp: backup_candidates_def mult.commute split: if_splits)
  have "distinct (map ar_id ?rows)"
    by (rule candidate_rows_distinct[OF live_artifacts_distinct[OF assms(1)]])
  then have "distinct (map ca_id (map candidate_of ?rows))" by (simp add: id comp_def)
  then show "distinct (map ca_id cands)"
    by (auto simp: cands distinct_map inj_on_def)
  show "\<forall>c\<in>set cands. \<exists>a. find_row (\<lambda>a. ar_id a = ca_id c) (artifacts st) = Some a \<and>
      ar_deleted_at a = None \<and> candidate_of a = c \<and> a \<in> set ?rows"
  proof
    fix c assume "c \<in> set cands"
    then obtain a where a: "a \<in> set ?rows" "candidate_of a = c" by (auto simp: cands)
    then have "a \<in> set (live_artifacts w st)"
      unfolding candidate_rows_in using group_candidates_mem by fastforce
    then have "a \<in> set (artifacts st)" "ar_deleted_at a = None" by (auto simp: live_artifacts_set)
    with find_row_unique[OF assms(1)] a id show
      "\<exists>a. find_row (\<lambda>a. ar_id a = ca_id c) (artifacts st) = Some a \<and>
           ar_deleted_at a = None \<and> candidate_of a = c \<and> a \<in> set ?rows" by metis
  qed
qed

lemma lift_ops_transition:
  assumes "lift_ops (transition u now i s ti) sys = Inr sys'"
  shows "artifacts (os_store (cs_ops sys')) = artifacts (os_store (cs_ops sys)) \<and>
     cs_files sys' = cs_files sys \<and> cs_previews sys' = cs_previews sys"
proof -
  from assms obtain r s' where t: "transition u now i s ti (cs_ops sys) = Inr (r, s')"
    and s: "sys' = sys\<lparr>cs_ops := s'\<rparr>"
    unfolding lift_ops_def res_bind_Inr_iff by auto
  from transition_artifacts(1)[OF t] s show ?thesis by simp
qed

lemma execute_exact:
  assumes "distinct (map ar_id (artifacts (os_store (cs_ops sys))))"
    and "execute_backup_cleanup t1 t2 cands p sys = Inr (n, sys')"
  shows "backup_candidates t1 (cp_older p) (cp_keep p) (cp_world p) (os_store (cs_ops sys)) = Inr cands"
    and "length cands \<le> cleanup_blast_radius_cap \<or> cp_elevated p"
    and "n = length cands"
    and "artifacts (os_store (cs_ops sys')) = update_rows (\<lambda>a. ar_id a \<in> ca_id ` set cands)
          (tombstoned t2 (cp_deleted_by p)) (artifacts (os_store (cs_ops sys)))"
    and "cs_files sys' = filter (\<lambda>f. f \<notin> ca_path ` set cands) (cs_files sys)"
proof -
  from assms(2) show c: "backup_candidates t1 (cp_older p) (cp_keep p) (cp_world p) (os_store (cs_ops sys)) = Inr cands"
    and "length cands \<le> cleanup_blast_radius_cap \<or> cp_elevated p"
    by (auto simp: execute_backup_cleanup_def result_simps split: if_splits)
  have "remove_artifacts t2 (cp_deleted_by p) cands (cs_files sys) (artifacts (os_store (cs_ops sys))) =
     (length cands, filter (\<lambda>f. f \<notin> ca_path ` set cands) (cs_files sys),
      update_rows (\<lambda>a. ar_id a \<in> ca_id ` set cands) (tombstoned t2 (cp_deleted_by p)) (artifacts (os_store (cs_ops sys))))"
    using candidates_distinct_live[OF assms(1) c] by (intro remove_artifacts_exact) blast+
  with assms(2) c show "n = length cands"
    "artifacts (os_store (cs_ops sys')) = update_rows (\<lambda>a. ar_id a \<in> ca_id ` set cands)
          (tombstoned t2 (cp_deleted_by p)) (artifacts (os_store (cs_ops sys)))"
    "cs_files sys' = filter (\<lambda>f. f \<notin> ca_path ` set cands) (cs_files sys)"
    by (auto simp: execute_backup_cleanup_def with_artifacts_def split: if_splits)
qed

lemma cleanup_body_wet:
  assumes "cleanup_body u clk sha op p False scope dry_op sys = Inr (res, sys')"
  obtains cands sys1 sys2 n where
    "backup_candidates (clk 0) (cp_older p) (cp_keep p) (cp_world p) (os_store (cs_ops sys)) = Inr cands"
    "matched_preview dry_op False p scope sys = Some (preview_fingerprint sha cands p scope)"
    "lift_ops (transition (u 0) (clk 1) op OS_RUNNING plain_transition) sys = Inr sys1"
    "execute_backup_cleanup (clk 2) (clk 3) cands p sys1 = Inr (n, sys2)"
    "lift_ops (transition (u 1) (clk 4) op OS_COMPLETED (plain_transition\<lparr>ti_data := Some res\<rparr>)) sys2 = Inr sys'"
  using assms
  by (auto simp: cleanup_body_def Let_def res_bind_Inr_iff split: sum.splits if_splits)

lemma cleanup_body_safe:
  assumes "cleanup_body u clk sha op p dry_run scope dry_op sys = out"
    and "dry_run \<and> (out = Inr (res, sys') \<or> out = Inl (e, sys')) \<or> out = Inl (Retention re, sys')"
  shows "artifacts (os_store (cs_ops sys')) = artifacts (os_store (cs_ops sys)) \<and> cs_files sys' = cs_files sys"
proof -
  have l: "artifacts (os_store (cs_ops t)) = artifacts (os_store (cs_ops s)) \<and> cs_files t = cs_files s"
    if "lift_ops (transition v now i st ti) s = Inr t" for v now i st ti s t
    using lift_ops_transition[OF that] by simp
  show ?thesis
    using assms
    by (auto simp: cleanup_body_def Let_def split: sum.splits if_splits dest!: l)
qed

section \<open>Properties\<close>

text \<open>C35: Retention never touches what it must keep.  Every candidate is the row of a live artifact
  that is not suspect and is older than the age limit, which is at least three days; at least
  \<open>keep\<close> (never fewer than three) artifacts of its world and category that are as new or newer
  stay, and so does a viable artifact at least as new.\<close>

theorem retention_is_safe:
  assumes "distinct (map ar_id (artifacts st))"
    and "backup_candidates now older keep w st = Inr cands" and "c \<in> set cands"
  shows "\<exists>a\<in>set (artifacts st). candidate_of a = c \<and> ar_deleted_at a = None \<and> \<not> ar_suspect a \<and>
     ar_created_at a < now - 86400 * older \<and> 3 \<le> older \<and> 3 \<le> keep \<and>
     keep \<le> int (length (filter (\<lambda>b. artifact_group b = artifact_group a \<and>
        ar_created_at a \<le> ar_created_at b \<and> ar_id b \<notin> ca_id ` set cands) (live_artifacts w st))) \<and>
     (\<exists>v\<in>set (live_artifacts w st). artifact_group v = artifact_group a \<and> \<not> ar_suspect v \<and>
        ar_created_at a \<le> ar_created_at v \<and> ar_id v \<notin> ca_id ` set cands)"
proof -
  let ?rows = "candidate_rows (now - 86400 * older) (nat keep) (live_artifacts w st)"
  note inr = backup_candidates_Inr[OF assms(2)]
  have ids: "ca_id ` set cands = ar_id ` set ?rows"
    using inr(3) by (auto simp: candidate_of_def image_iff)
  from inr(3) assms(3) obtain a where a: "a \<in> set ?rows" "candidate_of a = c" by auto
  from group_candidates_in[OF a(1)[unfolded candidate_rows_in]]
  have g: "a \<in> set (live_artifacts w st)" "ar_created_at a < now - 86400 * older" "\<not> ar_suspect a" by auto
  have "nat keep \<le> length (filter (\<lambda>b. artifact_group b = artifact_group a \<and>
        ar_created_at a \<le> ar_created_at b \<and> ar_id b \<notin> ca_id ` set cands) (live_artifacts w st))"
    using newer_kept[OF assms(1) a(1)] by (simp only: ids)
  then have "keep \<le> int (length (filter (\<lambda>b. artifact_group b = artifact_group a \<and>
        ar_created_at a \<le> ar_created_at b \<and> ar_id b \<notin> ca_id ` set cands) (live_artifacts w st)))"
    by linarith
  moreover have "\<exists>v\<in>set (live_artifacts w st). artifact_group v = artifact_group a \<and> \<not> ar_suspect v \<and>
        ar_created_at a \<le> ar_created_at v \<and> ar_id v \<notin> ca_id ` set cands"
    using newest_viable_kept[OF assms(1) g(1,3)] by (simp only: ids)
  ultimately show ?thesis
    using a g inr(1,2) by (intro bexI[of _ a]) (auto simp: live_artifacts_set)
qed

definition sample_artifact :: "string \<Rightarrow> int \<Rightarrow> artifact_row" where
  "sample_artifact i t = \<lparr>ar_id = i, ar_world = Some ''w1'', ar_category = MANUAL, ar_path = ''/b/'' @ i,
     ar_size = 1, ar_checksum = ''c'', ar_suspect = False, ar_operation = ''op_1'', ar_deleted_at = None,
     ar_deleted_by = None, ar_created_at = t\<rparr>"

definition sample_artifacts :: store where
  "sample_artifacts = (sample_store [])\<lparr>artifacts := [sample_artifact ''a1'' 1000, sample_artifact ''a2'' 2000,
     sample_artifact ''a3'' 3000, sample_artifact ''a4'' 4000]\<rparr>"

lemma sample_candidates:
  "backup_candidates 1000000 3 3 None sample_artifacts = Inr [candidate_of (sample_artifact ''a1'' 1000)]"
  by (simp add: backup_candidates_def cleanup_age_floor_days_def cleanup_count_floor_def sample_artifacts_def
      live_artifacts_def sample_artifact_def candidate_rows_def group_keys_def artifact_group_def
      group_candidates_def Let_def candidate_of_def numeral_3_eq_3)

lemma sample_artifacts_distinct: "distinct (map ar_id (artifacts sample_artifacts))"
  by (simp add: sample_artifacts_def sample_artifact_def)

theorem retention_is_safe_witness:
  "\<exists>a\<in>set (artifacts sample_artifacts). candidate_of a = candidate_of (sample_artifact ''a1'' 1000) \<and>
     \<not> ar_suspect a \<and> 3 \<le> int (length (filter (\<lambda>b. artifact_group b = artifact_group a \<and>
        ar_created_at a \<le> ar_created_at b \<and> ar_id b \<notin> ca_id ` set [candidate_of (sample_artifact ''a1'' 1000)])
        (live_artifacts None sample_artifacts)))"
  using retention_is_safe[OF sample_artifacts_distinct sample_candidates,
      of "candidate_of (sample_artifact ''a1'' 1000)"] by auto

text \<open>A wet run removes exactly what was previewed.  When it succeeds, the artifacts it deletes
  are exactly the candidates of the policy, whose fingerprint is the one of the matched preview,
  within the blast-radius cap unless elevated; their files are gone, their rows are tombstoned with
  the actor, and every other row and file is as before.\<close>

lemma wet_run_is_exact:
  assumes "distinct (map ar_id (artifacts (os_store (cs_ops sys))))"
    and "evaluate_and_execute_cleanup u clk sha op p False scope dry_op sys = (Inr res, sys')"
  shows "\<exists>cands. backup_candidates (clk 0) (cp_older p) (cp_keep p) (cp_world p) (os_store (cs_ops sys)) = Inr cands \<and>
     matched_preview dry_op False p scope sys = Some (preview_fingerprint sha cands p scope) \<and>
     (length cands \<le> 500 \<or> cp_elevated p) \<and>
     artifacts (os_store (cs_ops sys')) = update_rows (\<lambda>a. ar_id a \<in> ca_id ` set cands)
       (\<lambda>a. a\<lparr>ar_deleted_at := Some (clk 3), ar_deleted_by := Some (cp_deleted_by p)\<rparr>)
       (artifacts (os_store (cs_ops sys))) \<and>
     cs_files sys' = filter (\<lambda>f. f \<notin> ca_path ` set cands) (cs_files sys)"
proof -
  from assms(2) have "cleanup_body u clk sha op p False scope dry_op sys = Inr (res, sys')"
    by (auto simp: evaluate_and_execute_cleanup_def split: option.splits if_splits sum.splits
        cleanup_error.splits prod.splits)
  then show ?thesis
  proof (rule cleanup_body_wet)
    fix cands sys1 sys2 n
    assume c: "backup_candidates (clk 0) (cp_older p) (cp_keep p) (cp_world p) (os_store (cs_ops sys)) = Inr cands"
      and m: "matched_preview dry_op False p scope sys = Some (preview_fingerprint sha cands p scope)"
      and t1: "lift_ops (transition (u 0) (clk 1) op OS_RUNNING plain_transition) sys = Inr sys1"
      and ex: "execute_backup_cleanup (clk 2) (clk 3) cands p sys1 = Inr (n, sys2)"
      and t2: "lift_ops (transition (u 1) (clk 4) op OS_COMPLETED (plain_transition\<lparr>ti_data := Some res\<rparr>)) sys2 = Inr sys'"
    note l1 = lift_ops_transition[OF t1] and l2 = lift_ops_transition[OF t2]
    have d: "distinct (map ar_id (artifacts (os_store (cs_ops sys1))))" using assms(1) l1 by simp
    from execute_exact[OF d ex] c m l1 l2 show ?thesis
      by (intro exI[of _ cands]) (simp add: cleanup_blast_radius_cap_def tombstoned_def[abs_def])
  qed
qed

definition sample_cleanup :: "(string \<times> string) list \<Rightarrow> cleanup_sys" where
  "sample_cleanup prev = \<lparr>cs_ops = (sample_sys [])\<lparr>os_store := sample_artifacts\<lparr>operations :=
       [sample_op ''op_1'' CLEANUP OS_QUEUED]\<rparr>\<rparr>, cs_files = [''/b/a1'', ''/b/a2''],
     cs_previews = map (\<lambda>(s, f). ((None, s), f)) prev\<rparr>"

definition sample_policy :: cleanup_policy where
  "sample_policy = \<lparr>cp_older = 3, cp_keep = 3, cp_world = None, cp_elevated = False, cp_deleted_by = ''system''\<rparr>"

definition sample_wet :: "(cleanup_error + jdict) \<times> cleanup_sys" where
  "sample_wet = evaluate_and_execute_cleanup (\<lambda>k n. replicate (2 * k + n) (CHR ''x'')) (\<lambda>n. 1000000) (\<lambda>s. ''h'') ''op_1''
     sample_policy False ''backups'' None (sample_cleanup [(''backups'', ''h'')])"

lemma backup_candidates_artifacts:
  "artifacts s = artifacts t \<Longrightarrow> backup_candidates now older keep w s = backup_candidates now older keep w t"
  by (simp only: backup_candidates_def live_artifacts_def)

lemma sample_wet_cands:
  "artifacts s = artifacts sample_artifacts \<Longrightarrow>
     backup_candidates 1000000 3 3 None s = Inr [candidate_of (sample_artifact ''a1'' 1000)]"
  using sample_candidates backup_candidates_artifacts by metis

lemma sample_wet_runs: "is_ok (fst sample_wet)"
proof -
  note cl = sample_wet_def evaluate_and_execute_cleanup_def cleanup_body_def sample_cleanup_def
    sample_policy_def matched_preview_def preview_fingerprint_def cleanup_blast_radius_cap_def
    lift_ops_def execute_backup_cleanup_def with_artifacts_def
  note op = find_op_def transition_def transition_tx_def transitioned_row_def plain_transition_def
    publish_status_def op_publish_def pop_key_def write_terminal_audit_def audit_write_def insert_audit_def
    publish_terminal_operation_def notify_validate_def notify_insert_def notification_row_of_def
    insert_notification_def publish_terminal_def guard_res_def
    terminal_notification_rule_def terminal_notification_rules_def supported_categories_def
    fk_world_def fk_op_def row_simps Let_def
  show ?thesis
    by (simp add: cl op sample_wet_cands sample_op_def new_op_row_def sample_request_def sample_sys_def)
      (simp add: sample_artifacts_def sample_store_def sample_world_def empty_store_def sample_artifact_def
        candidate_of_def op cl)
qed

lemma wet_run_is_exact_witness:
  "cs_files (snd sample_wet) = [''/b/a2'']"
proof -
  have run: "evaluate_and_execute_cleanup (\<lambda>k n. replicate (2 * k + n) (CHR ''x'')) (\<lambda>n. 1000000) (\<lambda>s. ''h'') ''op_1''
     sample_policy False ''backups'' None (sample_cleanup [(''backups'', ''h'')]) = (Inr (projr (fst sample_wet)), snd sample_wet)"
    using sample_wet_runs unfolding sample_wet_def[symmetric]
    by (auto simp: is_ok_iff prod_eq_iff)
  have d: "distinct (map ar_id (artifacts (os_store (cs_ops (sample_cleanup [(''backups'', ''h'')])))))"
    using sample_artifacts_distinct by (simp add: sample_cleanup_def)
  from wet_run_is_exact[OF d run] show ?thesis
    by (auto simp: sample_wet_cands sample_cleanup_def sample_policy_def candidate_of_def sample_artifact_def)
qed

text \<open>Previews and refusals destroy nothing.  A dry run, and any run that ends in a retention
  error (age or count floor, blast radius, missing or stale preview, no cleanup operation), leaves
  every artifact row and every file as it was.\<close>

lemma refused_cleanup_destroys_nothing:
  assumes "evaluate_and_execute_cleanup u clk sha op p dry_run scope dry_op sys = (out, sys')"
    and "dry_run \<or> out = Inl (Retention e)"
  shows "artifacts (os_store (cs_ops sys')) = artifacts (os_store (cs_ops sys)) \<and> cs_files sys' = cs_files sys"
proof (cases "find_op op (os_store (cs_ops sys))")
  case None
  with assms(1) show ?thesis by (simp add: evaluate_and_execute_cleanup_def)
next
  case (Some r)
  show ?thesis
  proof (cases "op_type r \<noteq> CLEANUP \<or> terminal_status (op_status r)")
    case True
    with Some assms(1) show ?thesis by (auto simp: evaluate_and_execute_cleanup_def)
  next
    case False
    show ?thesis
    proof (cases "cleanup_body u clk sha op p dry_run scope dry_op sys")
      case (Inr x)
      obtain res s1 where "x = (res, s1)" by fastforce
      with Inr Some False assms cleanup_body_safe[OF Inr, of res s1 "Retention e" e] show ?thesis
        by (auto simp: evaluate_and_execute_cleanup_def)
    next
      case (Inl x)
      obtain err s1 where x: "x = (err, s1)" by fastforce
      show ?thesis
      proof (cases err)
        case (CleanupOpError oe)
        with Inl x Some False assms cleanup_body_safe[OF Inl, of "[]" s1 err e] show ?thesis
          by (auto simp: evaluate_and_execute_cleanup_def)
      next
        case (Retention re)
        have s1: "artifacts (os_store (cs_ops s1)) = artifacts (os_store (cs_ops sys)) \<and> cs_files s1 = cs_files sys"
          using cleanup_body_safe[OF Inl, of "[]" s1 err re] x Retention by simp
        have "sys' = s1 \<or> (\<exists>v now ti. lift_ops (transition v now op OS_FAILED ti) s1 = Inr sys')"
          using Inl x Retention Some False assms(1)
          by (auto simp: evaluate_and_execute_cleanup_def split: option.splits if_splits sum.splits)
        with s1 lift_ops_transition show ?thesis by metis
      qed
    qed
  qed
qed

lemma refused_cleanup_destroys_nothing_witness:
  "cs_files (snd (evaluate_and_execute_cleanup (\<lambda>k n. ''u'') (\<lambda>n. 1000000) (\<lambda>s. ''h'') ''op_1''
     sample_policy True ''backups'' None (sample_cleanup []))) = [''/b/a1'', ''/b/a2'']"
  using refused_cleanup_destroys_nothing[of "\<lambda>k n. ''u''" "\<lambda>n. 1000000" "\<lambda>s. ''h''" "''op_1''" sample_policy
      True "''backups''" None "sample_cleanup []" _ _ AgeFloor]
  by (cases "evaluate_and_execute_cleanup (\<lambda>k n. ''u'') (\<lambda>n. 1000000) (\<lambda>s. ''h'') ''op_1''
     sample_policy True ''backups'' None (sample_cleanup [])") (auto simp: sample_cleanup_def)

end
