(* ===== verification/Text_Tools.thy ===== *)
theory Text_Tools
  imports Json
begin

text \<open>
  The string methods of Python the components use beyond those of \<open>Json\<close>: \<open>endswith\<close>,
  \<open>strip(c)\<close>, \<open>split(c)\<close>, \<open>splitlines\<close> and \<open>os.path.join\<close> (POSIX), with the laws the
  proofs need.
\<close>

definition ends_with :: "string \<Rightarrow> string \<Rightarrow> bool" where
  "ends_with p s = starts_with (rev p) (rev s)"

definition strip_char :: "char \<Rightarrow> string \<Rightarrow> string" where
  "strip_char c s = rev (dropWhile (\<lambda>x. x = c) (rev (dropWhile (\<lambda>x. x = c) s)))"

fun split_on :: "char \<Rightarrow> string \<Rightarrow> string list" where
  "split_on sep [] = [[]]"
| "split_on sep (c # s) =
     (if c = sep then [] # split_on sep s
      else case split_on sep s of [] \<Rightarrow> [[c]] | w # ws \<Rightarrow> (c # w) # ws)"

text \<open>Text mode reads \<open>\r\n\<close> and a lone \<open>\r\<close> as a line feed; \<open>splitlines\<close> also ends a line at
  the other separators of one byte.\<close>

fun universal_newlines :: "string \<Rightarrow> string" where
  "universal_newlines [] = []"
| "universal_newlines [c] = [if c = CHR 0x0D then CHR 0x0A else c]"
| "universal_newlines (c # d # s) =
     (if c = CHR 0x0D then
        (if d = CHR 0x0A then CHR 0x0A # universal_newlines s
         else CHR 0x0A # universal_newlines (d # s))
      else c # universal_newlines (d # s))"

definition line_break :: "char \<Rightarrow> bool" where
  "line_break c \<longleftrightarrow> (of_char c :: nat) \<in> {10, 11, 12, 13, 28, 29, 30, 133}"

function splitlines :: "string \<Rightarrow> string list" where
  "splitlines s =
     (if s = [] then []
      else takeWhile (\<lambda>c. \<not> line_break c) s #
           splitlines (drop 1 (dropWhile (\<lambda>c. \<not> line_break c) s)))"
  by pat_completeness auto
termination
proof (relation "measure length", simp_all)
  fix s :: string
  assume "s \<noteq> []"
  then show "length (dropWhile (\<lambda>c. \<not> line_break c) s) - Suc 0 < length s"
    using length_dropWhile_le[of "\<lambda>c. \<not> line_break c" s] by (cases s) (auto simp: less_Suc_eq_le)
qed

declare splitlines.simps [simp del]

definition path_join :: "string \<Rightarrow> string \<Rightarrow> string" where
  "path_join a b = (if a = [] \<or> ends_with ''/'' a then a @ b else a @ ''/'' @ b)"

section \<open>Laws\<close>

lemma split_on_plain: "sep \<notin> set s \<Longrightarrow> split_on sep s = [s]"
  by (induction s) auto

lemma split_on_append_sep:
  "sep \<notin> set w \<Longrightarrow> split_on sep (w @ sep # s) = w # split_on sep s"
  by (induction w) auto

lemma strip_char_id:
  assumes "s \<noteq> []" and "hd s \<noteq> c" and "last s \<noteq> c"
  shows "strip_char c s = s"
proof -
  have "dropWhile (\<lambda>x. x = c) t = t" if "t \<noteq> []" "hd t \<noteq> c" for t
    using that by (cases t) auto
  with assms show ?thesis by (simp add: strip_char_def hd_rev)
qed

lemma ends_with_append: "ends_with p (s @ p)"
proof -
  have "starts_with q (q @ r)" for q r by (induction q) auto
  then show ?thesis by (simp add: ends_with_def)
qed

lemma split_on_not_Nil [simp]: "split_on sep s \<noteq> []"
  by (induction s) (auto split: list.split)

lemma join_split_on: "join [sep] (split_on sep s) = s"
proof (induction s)
  case (Cons c s)
  obtain w ws where w: "split_on sep s = w # ws" by (cases "split_on sep s") auto
  with Cons show ?case by (cases ws) auto
qed simp

lemma splitlines_Nil [simp]: "splitlines [] = []"
  by (simp add: splitlines.simps)

lemma splitlines_line:
  assumes "\<forall>c\<in>set w. \<not> line_break c" and "line_break b"
  shows "splitlines (w @ b # s) = w # splitlines s"
  using assms by (subst splitlines.simps) (simp add: takeWhile_append2 dropWhile_append2)

lemma universal_newlines_id: "CHR 0x0D \<notin> set s \<Longrightarrow> universal_newlines s = s"
  by (induction s rule: universal_newlines.induct) auto

end
