(* ===== verification/Rcon.thy ===== *)
theory Rcon
  imports Text_Tools Machines "HOL-Library.Word"
begin

text \<open>
  The RCON client of \<open>app/infrastructure/minecraft/rcon.py\<close>: little-endian frames of 32-bit
  integers, the receive loop over a stream that arrives in pieces, authentication, the command
  allowlist, and the non-reentrant lock.  A connection is what will arrive on it and whether
  sending works; dialling takes the next entry of a list of outcomes.  A response payload stays
  the bytes that arrived.
\<close>

type_synonym bytes = "8 word list"

datatype rcon_error = RconErr string | StructErr | Hang

section \<open>Frames\<close>

definition le32 :: "int \<Rightarrow> bytes" where
  "le32 i = [word_of_int i, word_of_int (i div 256), word_of_int (i div 65536), word_of_int (i div 16777216)]"

text \<open>\<open>struct.pack('<i', n)\<close> raises outside 32 bits.\<close>

definition pack_i :: "int \<Rightarrow> bytes option" where
  "pack_i i = (if - (2 ^ 31) \<le> i \<and> i < 2 ^ 31 then Some (le32 i) else None)"

definition unpack_i :: "bytes \<Rightarrow> int option" where
  "unpack_i bs =
     (case bs of
        [a, b, c, d] \<Rightarrow>
          (let u = uint a + 256 * uint b + 65536 * uint c + 16777216 * uint d in
           Some (if 2 ^ 31 \<le> u then u - 2 ^ 32 else u))
      | _ \<Rightarrow> None)"

text \<open>UTF-8 of a character below 256.\<close>

definition utf8_char :: "char \<Rightarrow> bytes" where
  "utf8_char c =
     (let n = (of_char c :: int) in
      if n < 128 then [word_of_int n] else [word_of_int (192 + n div 64), word_of_int (128 + n mod 64)])"

definition utf8 :: "string \<Rightarrow> bytes" where
  "utf8 s = concat (map utf8_char s)"

definition frame_body :: "int \<Rightarrow> int \<Rightarrow> string \<Rightarrow> bytes option" where
  "frame_body rid ty payload =
     (case (pack_i rid, pack_i ty) of
        (Some a, Some b) \<Rightarrow> Some (a @ b @ utf8 payload @ [0, 0])
      | _ \<Rightarrow> None)"

definition packet :: "int \<Rightarrow> int \<Rightarrow> string \<Rightarrow> bytes option" where
  "packet rid ty payload =
     (case frame_body rid ty payload of
        None \<Rightarrow> None
      | Some body \<Rightarrow> (case pack_i (int (length body)) of None \<Rightarrow> None | Some l \<Rightarrow> Some (l @ body)))"

section \<open>Receiving\<close>

text \<open>One arrival is a piece of the stream (an empty one is the end of it) or an \<open>OSError\<close>.\<close>

datatype arrival = Chunk bytes | Fault

fun recv_exact :: "nat \<Rightarrow> arrival list \<Rightarrow> (rcon_error + bytes) \<times> arrival list" where
  "recv_exact 0 as = (Inr [], as)"
| "recv_exact (Suc n) [] = (Inl (RconErr ''connection closed''), [])"
| "recv_exact (Suc n) (Fault # as) = (Inl (RconErr ''receive failed''), as)"
| "recv_exact (Suc n) (Chunk b # as) =
     (if b = [] then (Inl (RconErr ''connection closed''), as)
      else if length b \<le> Suc n then
        (case recv_exact (Suc n - length b) as of
           (Inl e, as') \<Rightarrow> (Inl e, as')
         | (Inr bs, as') \<Rightarrow> (Inr (b @ bs), as'))
      else (Inr (take (Suc n) b), Chunk (drop (Suc n) b) # as))"

text \<open>\<open>body[8:-2]\<close>.\<close>

definition payload_of :: "bytes \<Rightarrow> bytes" where
  "payload_of body = drop 8 (take (length body - 2) body)"

definition receive :: "arrival list \<Rightarrow> (rcon_error + int \<times> int \<times> bytes) \<times> arrival list" where
  "receive as =
     (case recv_exact 4 as of
        (Inl e, as1) \<Rightarrow> (Inl e, as1)
      | (Inr raw, as1) \<Rightarrow>
          (case unpack_i raw of
             None \<Rightarrow> (Inl StructErr, as1)
           | Some n \<Rightarrow>
               (case recv_exact (nat n) as1 of
                  (Inl e, as2) \<Rightarrow> (Inl e, as2)
                | (Inr body, as2) \<Rightarrow>
                    (case (unpack_i (take 4 body), unpack_i (take 4 (drop 4 body))) of
                       (Some rid, Some ty) \<Rightarrow> (Inr (rid, ty, payload_of body), as2)
                     | _ \<Rightarrow> (Inl StructErr, as2)))))"

section \<open>The client\<close>

record connection =
  cn_arrivals :: "arrival list"
  cn_send_ok :: bool

record rcon_client =
  rc_password :: string
  rc_next_id :: int
  rc_sock :: "connection option"
  rc_dials :: "connection option list"
  rc_sent :: "(int \<times> int \<times> string) list"

type_synonym 'a rcon_result = "(rcon_error + 'a) \<times> rcon_client"

definition type_auth :: int where "type_auth = 3"

definition type_command :: int where "type_command = 2"

definition type_auth_response :: int where "type_auth_response = 2"

definition SAFE_COMMANDS :: "string list" where
  "SAFE_COMMANDS = [''save-all'', ''save-off'', ''save-on'', ''stop'', ''list'', ''tps'', ''tick'']"

definition rcon_new :: "string \<Rightarrow> connection option list \<Rightarrow> rcon_client" where
  "rcon_new password dials = \<lparr>rc_password = password, rc_next_id = 1, rc_sock = None,
     rc_dials = dials, rc_sent = []\<rparr>"

text \<open>A packet handed to a socket that fails counts as sent: part of it may have left.\<close>

definition rcon_send :: "int \<Rightarrow> int \<Rightarrow> string \<Rightarrow> rcon_client \<Rightarrow> unit rcon_result" where
  "rcon_send rid ty payload c =
     (case rc_sock c of
        None \<Rightarrow> (Inl (RconErr ''not connected''), c)
      | Some cn \<Rightarrow>
          (case packet rid ty payload of
             None \<Rightarrow> (Inl StructErr, c)
           | Some _ \<Rightarrow>
               (let c1 = c\<lparr>rc_sent := rc_sent c @ [(rid, ty, payload)]\<rparr> in
                if cn_send_ok cn then (Inr (), c1) else (Inl (RconErr ''send failed''), c1))))"

definition rcon_receive :: "rcon_client \<Rightarrow> (int \<times> int \<times> bytes) rcon_result" where
  "rcon_receive c =
     (case rc_sock c of
        None \<Rightarrow> (Inl (RconErr ''not connected''), c)
      | Some cn \<Rightarrow>
          (case receive (cn_arrivals cn) of
             (r, as) \<Rightarrow> (r, c\<lparr>rc_sock := Some (cn\<lparr>cn_arrivals := as\<rparr>)\<rparr>)))"

definition next_request_id :: "rcon_client \<Rightarrow> int \<times> rcon_client" where
  "next_request_id c = (rc_next_id c, c\<lparr>rc_next_id := rc_next_id c + 1\<rparr>)"

definition rcon_authenticate :: "rcon_client \<Rightarrow> unit rcon_result" where
  "rcon_authenticate c =
     (let (auth_id, c0) = next_request_id c in
      case rcon_send auth_id type_auth (rc_password c0) c0 of
        (Inl e, c1) \<Rightarrow> (Inl e, c1)
      | (Inr _, c1) \<Rightarrow>
          (case rcon_receive c1 of
             (Inl e, c2) \<Rightarrow> (Inl e, c2)
           | (Inr (rid, ty, _), c2) \<Rightarrow>
               (if rid = -1 then (Inl (RconErr ''authentication rejected''), c2)
                else if rid \<noteq> auth_id \<or> ty \<noteq> type_auth_response
                then (Inl (RconErr ''unexpected auth response''), c2)
                else (Inr (), c2))))"

text \<open>\<open>close\<close> takes the lock; \<open>locked\<close> says whether the caller holds it already, and then it never
  returns.\<close>

definition rcon_close :: "bool \<Rightarrow> rcon_client \<Rightarrow> unit rcon_result" where
  "rcon_close locked c = (if locked then (Inl Hang, c) else (Inr (), c\<lparr>rc_sock := None\<rparr>))"

definition rcon_connect :: "bool \<Rightarrow> rcon_client \<Rightarrow> unit rcon_result" where
  "rcon_connect locked c =
     (case rc_dials c of
        [] \<Rightarrow> (Inl (RconErr ''connect failed''), c)
      | None # ds \<Rightarrow> (Inl (RconErr ''connect failed''), c\<lparr>rc_dials := ds\<rparr>)
      | Some cn # ds \<Rightarrow>
          (case rcon_authenticate (c\<lparr>rc_dials := ds, rc_sock := Some cn\<rparr>) of
             (Inr _, c1) \<Rightarrow> (Inr (), c1)
           | (Inl (RconErr m), c1) \<Rightarrow>
               (case rcon_close locked c1 of
                  (Inl e, c2) \<Rightarrow> (Inl e, c2)
                | (Inr _, c2) \<Rightarrow> (Inl (RconErr m), c2))
           | (Inl e, c1) \<Rightarrow> (Inl e, c1)))"

definition command_base :: "string \<Rightarrow> string" where
  "command_base cmd = hd (split_on (CHR '' '') (lower (strip cmd)))"

definition rcon_command :: "string \<Rightarrow> rcon_client \<Rightarrow> bytes rcon_result" where
  "rcon_command cmd c =
     (if command_base cmd \<notin> set SAFE_COMMANDS then (Inl (RconErr ''command not in allowlist''), c)
      else
        (case (if rc_sock c = None then rcon_connect True c else (Inr (), c)) of
           (Inl e, c1) \<Rightarrow> (Inl e, c1)
         | (Inr _, c1) \<Rightarrow>
             (let (rid, c2) = next_request_id c1 in
              case rcon_send rid type_command cmd c2 of
                (Inl e, c3) \<Rightarrow> (Inl e, c3)
              | (Inr _, c3) \<Rightarrow>
                  (case rcon_receive c3 of
                     (Inl e, c4) \<Rightarrow> (Inl e, c4)
                   | (Inr (_, _, payload), c4) \<Rightarrow> (Inr payload, c4)))))"

definition rcon_ping :: "rcon_client \<Rightarrow> bool rcon_result" where
  "rcon_ping c =
     (case (if rc_sock c = None then rcon_connect False c else (Inr (), c)) of
        (Inl (RconErr _), c1) \<Rightarrow> (Inr False, c1)
      | (Inl e, c1) \<Rightarrow> (Inl e, c1)
      | (Inr _, c1) \<Rightarrow>
          (case rcon_command ''list'' c1 of
             (Inl (RconErr _), c2) \<Rightarrow> (Inr False, c2)
           | (Inl e, c2) \<Rightarrow> (Inl e, c2)
           | (Inr _, c2) \<Rightarrow> (Inr True, c2)))"

section \<open>Integers round trip\<close>

lemma uint_byte: "uint (word_of_int x :: 8 word) = x mod 256"
  by (simp add: uint_word_of_int)

lemma bytes_of_int: "i mod 256 + 256 * (i div 256 mod 256) + 65536 * (i div 65536 mod 256) +
   16777216 * (i div 16777216 mod 256) = i mod 4294967296" for i :: int
proof -
  note z = zmod_zmult2_eq[where c = 256 and a = i]
  have "i mod 4294967296 = 16777216 * (i div 16777216 mod 256) + i mod 16777216"
    using z[of 16777216] by simp
  moreover have "i mod 16777216 = 65536 * (i div 65536 mod 256) + i mod 65536"
    using z[of 65536] by simp
  moreover have "i mod 65536 = 256 * (i div 256 mod 256) + i mod 256"
    using z[of 256] by simp
  ultimately show ?thesis by linarith
qed

lemma signed_mod:
  fixes i :: int
  assumes "- 2147483648 \<le> i" and "i < 2147483648"
  shows "(if 2147483648 \<le> i mod 4294967296 then i mod 4294967296 - 4294967296 else i mod 4294967296) = i"
proof (cases "0 \<le> i")
  case True
  with assms have "i mod 4294967296 = i" by (intro mod_pos_pos_trivial) simp_all
  with assms show ?thesis by simp
next
  case False
  have "i mod 4294967296 = (i + 4294967296) mod 4294967296" by simp
  also have "\<dots> = i + 4294967296" using assms False by (intro mod_pos_pos_trivial) simp_all
  finally have m: "i mod 4294967296 = i + 4294967296" .
  from assms False show ?thesis unfolding m by simp
qed

lemma unpack_le32:
  assumes "- (2 ^ 31) \<le> i" and "i < 2 ^ 31"
  shows "unpack_i (le32 i) = Some i"
proof -
  have "unpack_i (le32 i) = Some (if 2147483648 \<le> i mod 4294967296 then i mod 4294967296 - 4294967296
     else i mod 4294967296)"
    unfolding unpack_i_def le32_def list.case Let_def uint_byte bytes_of_int by simp
  also have "\<dots> = Some i" using signed_mod[of i] assms by simp
  finally show ?thesis .
qed

lemma unpack_pack: "pack_i i = Some bs \<Longrightarrow> unpack_i bs = Some i \<and> length bs = 4"
  using unpack_le32 by (auto simp: pack_i_def le32_def split: if_splits)

section \<open>Frames survive fragmentation\<close>

fun arrived :: "arrival list \<Rightarrow> bytes" where
  "arrived [] = []"
| "arrived (Chunk b # as) = b @ arrived as"
| "arrived (Fault # as) = arrived as"

fun pieces :: "arrival list \<Rightarrow> bool" where
  "pieces [] = True"
| "pieces (Chunk b # as) = (b \<noteq> [] \<and> pieces as)"
| "pieces (Fault # as) = False"

lemma recv_exact_pieces:
  assumes "pieces as" and "n \<le> length (arrived as)"
  shows "\<exists>as'. recv_exact n as = (Inr (take n (arrived as)), as') \<and> pieces as' \<and>
     arrived as' = drop n (arrived as)"
  using assms
proof (induction n as rule: recv_exact.induct)
  case (4 n b as)
  show ?case
  proof (cases "length b \<le> Suc n")
    case True
    with 4 have "\<exists>as'. recv_exact (Suc n - length b) as = (Inr (take (Suc n - length b) (arrived as)), as') \<and>
       pieces as' \<and> arrived as' = drop (Suc n - length b) (arrived as)" by simp
    then obtain as' where as': "recv_exact (Suc n - length b) as = (Inr (take (Suc n - length b) (arrived as)), as')"
       "pieces as'" "arrived as' = drop (Suc n - length b) (arrived as)" by blast
    with True 4(2) show ?thesis by (simp add: take_append drop_append)
  next
    case False
    with 4(2) show ?thesis by (auto simp: take_append drop_append)
  qed
qed auto

text \<open>
  However the network cuts a frame into pieces, receiving gives the identifier, the type and
  the payload that were sent and leaves what comes after the frame for the next call.
\<close>
lemma frames_survive_fragmentation:
  assumes "packet rid ty payload = Some bs" and "pieces as" and "arrived as = bs @ rest"
  shows "\<exists>as'. receive as = (Inr (rid, ty, utf8 payload), as') \<and> pieces as' \<and> arrived as' = rest"
proof -
  obtain a b l where p: "pack_i rid = Some a" "pack_i ty = Some b"
    "pack_i (int (length (a @ b @ utf8 payload @ [0, 0]))) = Some l" "bs = l @ a @ b @ utf8 payload @ [0, 0]"
    using assms(1) by (auto simp: packet_def frame_body_def split: option.splits)
  note u = unpack_pack[OF p(1)] unpack_pack[OF p(2)] unpack_pack[OF p(3)]
  let ?body = "a @ b @ utf8 payload @ [0, 0]"
  obtain as1 where r1: "recv_exact 4 as = (Inr l, as1)" "pieces as1" "arrived as1 = ?body @ rest"
    using recv_exact_pieces[of as 4] assms(2,3) u(3) p(4) by auto
  obtain as2 where r2: "recv_exact (length ?body) as1 = (Inr ?body, as2)" "pieces as2" "arrived as2 = rest"
    using recv_exact_pieces[of as1 "length ?body"] r1(2,3) by auto
  have nat_ten: "nat (10 + int n) = 10 + n" for n by simp
  have "receive as = (Inr (rid, ty, payload_of ?body), as2)"
    using r1(1) r2(1) u nat_ten by (simp add: receive_def)
  moreover have "payload_of ?body = utf8 payload" using u by (simp add: payload_of_def)
  ultimately show ?thesis using r2(2,3) by simp
qed

section \<open>Only allowlisted commands reach the wire\<close>

datatype rcon_action = Connect | Command string | Ping | Close

fun rcon_step :: "rcon_client \<Rightarrow> rcon_action \<Rightarrow> rcon_client option" where
  "rcon_step c Connect = Some (snd (rcon_connect False c))"
| "rcon_step c (Command cmd) = Some (snd (rcon_command cmd c))"
| "rcon_step c Ping = Some (snd (rcon_ping c))"
| "rcon_step c Close = Some (snd (rcon_close False c))"

definition sent_ok :: "rcon_client \<Rightarrow> bool" where
  "sent_ok c \<longleftrightarrow> (\<forall>(rid, ty, payload)\<in>set (rc_sent c).
     (ty = type_auth \<and> payload = rc_password c) \<or>
     (ty = type_command \<and> command_base payload \<in> set SAFE_COMMANDS))"

lemma send_effect:
  "rcon_send rid ty payload c = (r, c') \<Longrightarrow> rc_password c' = rc_password c \<and>
     set (rc_sent c') \<subseteq> insert (rid, ty, payload) (set (rc_sent c))"
  by (auto simp: rcon_send_def Let_def split: option.splits if_splits)

lemma receive_effect:
  "rcon_receive c = (r, c') \<Longrightarrow> rc_password c' = rc_password c \<and> rc_sent c' = rc_sent c"
  by (auto simp: rcon_receive_def split: option.splits prod.splits)

lemma sent_ok_subset:
  "sent_ok c \<Longrightarrow> rc_password c' = rc_password c \<Longrightarrow> set (rc_sent c') \<subseteq> insert (rid, ty, payload) (set (rc_sent c)) \<Longrightarrow>
   (ty = type_auth \<and> payload = rc_password c) \<or> (ty = type_command \<and> command_base payload \<in> set SAFE_COMMANDS) \<Longrightarrow>
   sent_ok c'"
  unfolding sent_ok_def by fastforce

lemma sent_ok_same: "sent_ok c \<Longrightarrow> rc_password c' = rc_password c \<Longrightarrow> rc_sent c' = rc_sent c \<Longrightarrow> sent_ok c'"
  by (simp add: sent_ok_def)

lemma authenticate_sent_ok: "sent_ok c \<Longrightarrow> sent_ok (snd (rcon_authenticate c))"
proof -
  assume ok: "sent_ok c"
  define c0 where "c0 = c\<lparr>rc_next_id := rc_next_id c + 1\<rparr>"
  have ok0: "sent_ok c0" by (rule sent_ok_same[OF ok]) (simp_all add: c0_def)
  obtain r1 c1 where s: "rcon_send (rc_next_id c) type_auth (rc_password c0) c0 = (r1, c1)" by (meson surj_pair)
  have ok1: "sent_ok c1" using sent_ok_subset[OF ok0] send_effect[OF s] by blast
  obtain r2 c2 where t: "rcon_receive c1 = (r2, c2)" by (meson surj_pair)
  have ok2: "sent_ok c2" using sent_ok_same[OF ok1] receive_effect[OF t] by blast
  show ?thesis
    using s t ok1 ok2 by (simp add: rcon_authenticate_def next_request_id_def c0_def[symmetric] split: sum.split prod.split)
qed

lemma connect_sent_ok: "sent_ok c \<Longrightarrow> sent_ok (snd (rcon_connect locked c))"
proof -
  assume ok: "sent_ok c"
  have fin: "sent_ok c' \<Longrightarrow> sent_ok (snd (rcon_close locked c'))" for c'
    by (auto simp: rcon_close_def intro: sent_ok_same)
  have auth: "sent_ok (snd (rcon_authenticate (c\<lparr>rc_dials := ds, rc_sock := Some cn\<rparr>)))" for ds cn
    by (rule authenticate_sent_ok, rule sent_ok_same[OF ok]) simp_all
  show ?thesis
  proof (cases "rc_dials c")
    case Nil
    with ok show ?thesis by (simp add: rcon_connect_def)
  next
    case (Cons d ds)
    show ?thesis
    proof (cases d)
      case None
      with Cons ok show ?thesis by (auto simp: rcon_connect_def intro: sent_ok_same)
    next
      case (Some cn)
      obtain r c1 where a: "rcon_authenticate (c\<lparr>rc_dials := ds, rc_sock := Some cn\<rparr>) = (r, c1)" by (meson surj_pair)
      with auth[of cn ds] have "sent_ok c1" by simp
      with fin[of c1] show ?thesis
        by (auto simp: rcon_connect_def Cons Some a split: sum.split rcon_error.split prod.split)
    qed
  qed
qed

lemma command_sent_ok: "sent_ok c \<Longrightarrow> sent_ok (snd (rcon_command cmd c))"
proof (cases "command_base cmd \<in> set SAFE_COMMANDS")
  case True
  assume ok: "sent_ok c"
  obtain r1 c1 where k: "(if rc_sock c = None then rcon_connect True c else (Inr (), c)) = (r1, c1)" by (meson surj_pair)
  have ok1: "sent_ok c1" using k ok connect_sent_ok[OF ok, of True] by (auto split: if_splits)
  define c2 where "c2 = c1\<lparr>rc_next_id := rc_next_id c1 + 1\<rparr>"
  have ok2: "sent_ok c2" by (rule sent_ok_same[OF ok1]) (simp_all add: c2_def)
  obtain r3 c3 where s: "rcon_send (rc_next_id c1) type_command cmd c2 = (r3, c3)" by (meson surj_pair)
  have ok3: "sent_ok c3" using sent_ok_subset[OF ok2] send_effect[OF s] True by blast
  obtain r4 c4 where t: "rcon_receive c3 = (r4, c4)" by (meson surj_pair)
  have ok4: "sent_ok c4" using sent_ok_same[OF ok3] receive_effect[OF t] by blast
  show ?thesis
    using True s t ok1 ok3 ok4
    by (simp add: rcon_command_def k next_request_id_def c2_def[symmetric] split: sum.split prod.split)
qed (simp add: rcon_command_def)

lemma ping_sent_ok: "sent_ok c \<Longrightarrow> sent_ok (snd (rcon_ping c))"
proof -
  assume ok: "sent_ok c"
  obtain r1 c1 where k: "(if rc_sock c = None then rcon_connect False c else (Inr (), c)) = (r1, c1)" by (meson surj_pair)
  have ok1: "sent_ok c1" using k ok connect_sent_ok[OF ok, of False] by (auto split: if_splits)
  with command_sent_ok[OF ok1, of "''list''"] show ?thesis
    by (auto simp: rcon_ping_def k split: sum.split prod.split rcon_error.split)
qed

lemma rcon_step_sent_ok: "sent_ok c \<Longrightarrow> rcon_step c a = Some c' \<Longrightarrow> sent_ok c'"
  by (cases a) (auto simp: connect_sent_ok command_sent_ok ping_sent_ok rcon_close_def intro: sent_ok_same)

interpretation rcon: guarded_machine rcon_step sent_ok
  by unfold_locales (rule rcon_step_sent_ok)

lemma rcon_password_kept: "rc_password (snd (rcon_close locked c)) = rc_password c"
  by (simp add: rcon_close_def)

text \<open>
  Whatever is asked of a client, every packet it hands to a socket is an authentication or a
  command whose first word is on the closed allowlist.
\<close>
lemma only_safe_commands_are_sent:
  "list_all (\<lambda>(rid, ty, payload). ty = type_auth \<or>
       (ty = type_command \<and> command_base payload \<in> set SAFE_COMMANDS))
     (rc_sent (run_attempts rcon_step (rcon_new password dials) as))"
proof -
  have "sent_ok (rcon_new password dials)" by (simp add: sent_ok_def rcon_new_def)
  from rcon.inv_run[OF this, of as] show ?thesis by (auto simp: sent_ok_def list_all_iff)
qed

section \<open>The lock\<close>

text \<open>
  C40: a command on a client that is not connected never returns when the server refuses the
  password: the failing connect closes the client, and closing waits for the lock that the
  command holds.  Connecting first reports the refusal.
\<close>
theorem refused_login_hangs_command:
  assumes "rc_sock c = None" and "rc_dials c = Some cn # ds" and "command_base cmd \<in> set SAFE_COMMANDS"
    and "rcon_authenticate (c\<lparr>rc_dials := ds, rc_sock := Some cn\<rparr>) = (Inl (RconErr m), c1)"
  shows "fst (rcon_command cmd c) = Inl Hang \<and>
     rcon_connect False c = (Inl (RconErr m), c1\<lparr>rc_sock := None\<rparr>)"
  using assms by (simp add: rcon_command_def rcon_connect_def rcon_close_def)

section \<open>Witnesses\<close>

definition sample_answer :: "int \<Rightarrow> arrival list" where
  "sample_answer rid = (case packet rid 2 [] of None \<Rightarrow> [] | Some bs \<Rightarrow> [Chunk (take 5 bs), Chunk (drop 5 bs)])"

lemma frames_survive_fragmentation_witness:
  "\<exists>as'. receive (sample_answer 7) = (Inr (7, 2, utf8 []), as') \<and> pieces as' \<and> arrived as' = []"
proof -
  have "packet 7 2 [] \<noteq> None" by code_simp
  then obtain bs where bs: "packet 7 2 [] = Some bs" by blast
  have "pieces (sample_answer 7)" by code_simp
  moreover have "arrived (sample_answer 7) = bs @ []" by (simp add: sample_answer_def bs)
  ultimately show ?thesis by (rule frames_survive_fragmentation[OF bs])
qed

theorem refused_login_hangs_command_witness:
  "fst (rcon_command ''list'' (rcon_new ''pw'' [Some \<lparr>cn_arrivals = sample_answer (-1), cn_send_ok = True\<rparr>])) = Inl Hang"
proof -
  let ?cn = "\<lparr>cn_arrivals = sample_answer (-1), cn_send_ok = True\<rparr>"
  let ?c = "rcon_new ''pw'' [Some ?cn]"
  have "fst (rcon_authenticate (?c\<lparr>rc_dials := [], rc_sock := Some ?cn\<rparr>)) = Inl (RconErr ''authentication rejected'')"
    by code_simp
  then have "rcon_authenticate (?c\<lparr>rc_dials := [], rc_sock := Some ?cn\<rparr>) =
     (Inl (RconErr ''authentication rejected''), snd (rcon_authenticate (?c\<lparr>rc_dials := [], rc_sock := Some ?cn\<rparr>)))"
    by (simp add: prod_eq_iff)
  moreover have "rc_sock ?c = None" "rc_dials ?c = Some ?cn # []" by (simp_all add: rcon_new_def)
  moreover have "command_base ''list'' \<in> set SAFE_COMMANDS" by code_simp
  ultimately show ?thesis using refused_login_hangs_command by blast
qed

end
