(* ===== verification/World_Lifecycle.thy ===== *)
theory World_Lifecycle
  imports Domain_Values Machines
begin

text \<open>
  The world entity and its lifecycle: \<open>app/domain/entities.py\<close>,
  \<open>invariants.py\<close>, \<open>events.py\<close> and \<open>lifecycle.py\<close>.  The constructor of the
  dataclass validates, so it is a fallible function here.  The \<open>isinstance\<close>
  checks on enum and integer arguments are the types of the model.
\<close>

section \<open>Entity and construction invariant\<close>

record WorldInstance =
  wi_id :: string
  wi_state :: WorldState
  wi_pre_backup :: "WorldState option"
  wi_deleted_at :: "int option"

datatype domain_error = EmptyWorldId | BackingUpNeedsPre | PreOutsideBackup | TombstoneNotOff

definition validate_world_instance ::
  "string \<Rightarrow> WorldState \<Rightarrow> WorldState option \<Rightarrow> int option \<Rightarrow> domain_error + unit" where
  "validate_world_instance wid st pre del =
     (if wid = [] then Inl EmptyWorldId
      else if st = WS_BACKING_UP \<and> pre \<noteq> Some WS_OFF \<and> pre \<noteq> Some WS_RUNNING
        then Inl BackingUpNeedsPre
      else if st \<noteq> WS_BACKING_UP \<and> pre \<noteq> None then Inl PreOutsideBackup
      else if del \<noteq> None \<and> st \<noteq> WS_OFF then Inl TombstoneNotOff
      else Inr ())"

definition make_world ::
  "string \<Rightarrow> WorldState \<Rightarrow> WorldState option \<Rightarrow> int option \<Rightarrow> domain_error + WorldInstance" where
  "make_world wid st pre del =
     res_bind (validate_world_instance wid st pre del)
       (\<lambda>_. Inr \<lparr>wi_id = wid, wi_state = st, wi_pre_backup = pre, wi_deleted_at = del\<rparr>)"

definition world_ok :: "WorldInstance \<Rightarrow> bool" where
  "world_ok w \<longleftrightarrow>
     is_ok (validate_world_instance (wi_id w) (wi_state w) (wi_pre_backup w) (wi_deleted_at w))"

section \<open>Events and transitions\<close>

datatype world_event =
    WorldStateChanged string WorldState WorldState int
  | WorldDeleted string int

datatype WorldTransitionIntent = ORDINARY | CRASH_ACKNOWLEDGEMENT | ERROR_ACKNOWLEDGEMENT
  | EULA_ACCEPTANCE

datatype transition_error =
    Tombstoned string
  | NotAllowed string WorldState WorldState
  | RequiresIntent WorldState WorldTransitionIntent
  | IntentNotValid WorldTransitionIntent WorldState WorldState
  | MustRestorePreBackup
  | NotOffForDelete
  | FromInvariant domain_error

fun allowed_transitions :: "WorldState \<Rightarrow> WorldState list" where
  "allowed_transitions WS_OFF = [WS_QUEUED, WS_BACKING_UP, WS_RESTORING, WS_EULA_REQUIRED]"
| "allowed_transitions WS_QUEUED = [WS_OFF, WS_STARTING]"
| "allowed_transitions WS_STARTING = [WS_RUNNING, WS_ERROR]"
| "allowed_transitions WS_RUNNING = [WS_STOPPING, WS_BACKING_UP, WS_CRASHED]"
| "allowed_transitions WS_STOPPING = [WS_OFF]"
| "allowed_transitions WS_RESTORING = [WS_OFF, WS_ERROR]"
| "allowed_transitions WS_BACKING_UP = [WS_OFF, WS_RUNNING, WS_ERROR]"
| "allowed_transitions WS_CRASHED = [WS_OFF]"
| "allowed_transitions WS_ERROR = [WS_OFF]"
| "allowed_transitions WS_EULA_REQUIRED = [WS_OFF]"

fun guarded_exit_intent :: "WorldState \<Rightarrow> WorldTransitionIntent option" where
  "guarded_exit_intent WS_CRASHED = Some CRASH_ACKNOWLEDGEMENT"
| "guarded_exit_intent WS_ERROR = Some ERROR_ACKNOWLEDGEMENT"
| "guarded_exit_intent WS_EULA_REQUIRED = Some EULA_ACCEPTANCE"
| "guarded_exit_intent _ = None"

definition required_intent :: "WorldState \<Rightarrow> WorldState \<Rightarrow> WorldTransitionIntent option" where
  "required_intent old new = (if new = WS_OFF then guarded_exit_intent old else None)"

definition next_pre_backup :: "WorldInstance \<Rightarrow> WorldState \<Rightarrow> WorldState option" where
  "next_pre_backup w new =
     (if new = WS_BACKING_UP \<and> wi_state w \<noteq> WS_BACKING_UP then Some (wi_state w)
      else if wi_state w = WS_BACKING_UP \<and> new \<noteq> WS_BACKING_UP then None
      else wi_pre_backup w)"

definition transition_guard ::
  "WorldInstance \<Rightarrow> WorldState \<Rightarrow> WorldTransitionIntent \<Rightarrow> transition_error option" where
  "transition_guard w new intent =
     (let old = wi_state w; req = required_intent old new in
      if wi_deleted_at w \<noteq> None then Some (Tombstoned (wi_id w))
      else if new \<noteq> old \<and> new \<notin> set (allowed_transitions old)
        then Some (NotAllowed (wi_id w) old new)
      else if req \<noteq> None \<and> intent \<noteq> the req then Some (RequiresIntent old (the req))
      else if intent \<noteq> ORDINARY \<and> Some intent \<noteq> req then Some (IntentNotValid intent old new)
      else if old = WS_BACKING_UP \<and> new \<noteq> WS_BACKING_UP \<and>
              Some new \<noteq> wi_pre_backup w \<and> new \<noteq> WS_ERROR
        then Some MustRestorePreBackup
      else None)"

definition transition_world ::
  "WorldInstance \<Rightarrow> WorldState \<Rightarrow> int \<Rightarrow> WorldTransitionIntent
    \<Rightarrow> transition_error + WorldInstance \<times> world_event" where
  "transition_world w new occurred intent =
     (case transition_guard w new intent of
        Some e \<Rightarrow> Inl e
      | None \<Rightarrow>
          (case make_world (wi_id w) new (next_pre_backup w new) (wi_deleted_at w) of
             Inl e \<Rightarrow> Inl (FromInvariant e)
           | Inr w' \<Rightarrow> Inr (w', WorldStateChanged (wi_id w) (wi_state w) new occurred)))"

definition tombstone_world ::
  "WorldInstance \<Rightarrow> int \<Rightarrow> transition_error + WorldInstance \<times> world_event" where
  "tombstone_world w occurred =
     (if wi_deleted_at w \<noteq> None then Inl (Tombstoned (wi_id w))
      else if wi_state w \<noteq> WS_OFF then Inl NotOffForDelete
      else (case make_world (wi_id w) (wi_state w) (wi_pre_backup w) (Some occurred) of
              Inl e \<Rightarrow> Inl (FromInvariant e)
            | Inr w' \<Rightarrow> Inr (w', WorldDeleted (wi_id w) occurred)))"

section \<open>Well-formed worlds\<close>

lemma world_ok_iff:
  "world_ok w \<longleftrightarrow> wi_id w \<noteq> [] \<and>
     (if wi_state w = WS_BACKING_UP
      then wi_pre_backup w = Some WS_OFF \<or> wi_pre_backup w = Some WS_RUNNING
      else wi_pre_backup w = None) \<and>
     (wi_deleted_at w = None \<or> wi_state w = WS_OFF)"
  by (auto simp: world_ok_def validate_world_instance_def)

lemma make_world_Inr [result_simps]:
  "make_world wid st pre del = Inr w \<longleftrightarrow>
     w = \<lparr>wi_id = wid, wi_state = st, wi_pre_backup = pre, wi_deleted_at = del\<rparr> \<and> world_ok w"
  by (auto simp: make_world_def result_simps world_ok_def validate_world_instance_def
           split: if_splits)

lemma make_world_ok_cases:
  "make_world wid st pre del =
     (let w = \<lparr>wi_id = wid, wi_state = st, wi_pre_backup = pre, wi_deleted_at = del\<rparr> in
      if world_ok w then Inr w else make_world wid st pre del)"
  by (auto simp: Let_def result_simps)

lemma allowed_into_backup:
  "WS_BACKING_UP \<in> set (allowed_transitions s) \<longleftrightarrow> s = WS_OFF \<or> s = WS_RUNNING"
  by (cases s) simp_all

lemma guarded_exit_cases:
  "guarded_exit_intent s \<noteq> None \<longleftrightarrow> s = WS_CRASHED \<or> s = WS_ERROR \<or> s = WS_EULA_REQUIRED"
  by (cases s) simp_all

lemma guarded_only_off:
  "guarded_exit_intent s \<noteq> None \<Longrightarrow> allowed_transitions s = [WS_OFF]"
  by (cases s) simp_all

section \<open>One transition\<close>

text \<open>The replacement world of a transition, which the final validation accepts
  whenever the guards before it did.\<close>

definition after_transition :: "WorldInstance \<Rightarrow> WorldState \<Rightarrow> WorldInstance" where
  "after_transition w new =
     w\<lparr>wi_state := new, wi_pre_backup := next_pre_backup w new\<rparr>"

definition transition_allowed :: "WorldInstance \<Rightarrow> WorldState \<Rightarrow> WorldTransitionIntent \<Rightarrow> bool" where
  "transition_allowed w new intent \<longleftrightarrow>
     wi_deleted_at w = None \<and>
     (new = wi_state w \<or> new \<in> set (allowed_transitions (wi_state w))) \<and>
     intent = (case required_intent (wi_state w) new of None \<Rightarrow> ORDINARY | Some i \<Rightarrow> i) \<and>
     (wi_state w = WS_BACKING_UP \<longrightarrow>
        new = WS_BACKING_UP \<or> new = WS_ERROR \<or> wi_pre_backup w = Some new)"

lemma required_intent_not_ordinary: "required_intent s n \<noteq> Some ORDINARY"
  by (cases s) (auto simp: required_intent_def)

lemma after_transition_ok:
  assumes "world_ok w" and "transition_allowed w new intent"
  shows "world_ok (after_transition w new)"
proof (cases "new = WS_BACKING_UP")
  case True
  show ?thesis
  proof (cases "wi_state w = WS_BACKING_UP")
    case True
    with assms \<open>new = WS_BACKING_UP\<close> show ?thesis
      by (simp add: world_ok_iff after_transition_def next_pre_backup_def)
  next
    case False
    with assms(2) \<open>new = WS_BACKING_UP\<close> allowed_into_backup[of "wi_state w"]
    have "wi_state w = WS_OFF \<or> wi_state w = WS_RUNNING"
      by (auto simp: transition_allowed_def)
    with assms \<open>new = WS_BACKING_UP\<close> show ?thesis
      by (auto simp: world_ok_iff after_transition_def next_pre_backup_def transition_allowed_def)
  qed
next
  case False
  with assms show ?thesis
    by (auto simp: world_ok_iff after_transition_def next_pre_backup_def transition_allowed_def
             split: if_splits)
qed

lemma transition_guard_None_iff:
  "transition_guard w new intent = None \<longleftrightarrow> transition_allowed w new intent"
  using required_intent_not_ordinary[of "wi_state w" new]
  by (cases "required_intent (wi_state w) new")
    (auto simp: transition_guard_def Let_def transition_allowed_def)

lemma transition_guard_not_invariant: "transition_guard w new intent \<noteq> Some (FromInvariant e)"
  unfolding transition_guard_def Let_def
  by (auto simp del: not_None_eq split del: if_split split: if_split_asm)

lemma transition_world_allowed:
  assumes "world_ok w" and ok: "transition_allowed w new intent"
  shows "transition_world w new occ intent =
           Inr (after_transition w new, WorldStateChanged (wi_id w) (wi_state w) new occ)"
proof -
  have mk: "make_world (wi_id w) new (next_pre_backup w new) (wi_deleted_at w) =
              Inr (after_transition w new)"
    using after_transition_ok[OF assms]
    by (cases w) (simp add: make_world_Inr after_transition_def)
  with ok transition_guard_None_iff[of w new intent] show ?thesis
    by (simp add: transition_world_def)
qed

lemma transition_world_refused:
  assumes "\<not> transition_allowed w new intent"
  shows "\<exists>e. transition_guard w new intent = Some e \<and> transition_world w new occ intent = Inl e"
  using assms transition_guard_None_iff[of w new intent]
  by (auto simp: transition_world_def)

lemma transition_world_guards:
  assumes "transition_world w new occ intent = Inr (w', ev)"
  shows "transition_allowed w new intent"
  using transition_world_refused[of w new intent occ] assms by auto

lemma transition_world_Inr_iff:
  assumes "world_ok w"
  shows "transition_world w new occ intent = Inr (w', ev) \<longleftrightarrow>
     transition_allowed w new intent \<and> w' = after_transition w new \<and>
     ev = WorldStateChanged (wi_id w) (wi_state w) new occ"
  using transition_world_allowed[OF assms, of new intent occ]
    transition_world_guards[of w new occ intent w' ev]
  by auto

lemma transition_world_never_invariant:
  assumes "world_ok w"
  shows "transition_world w new occ intent \<noteq> Inl (FromInvariant e)"
proof (cases "transition_allowed w new intent")
  case True
  from transition_world_allowed[OF assms this] show ?thesis by simp
next
  case False
  with transition_world_refused[of w new intent occ] transition_guard_not_invariant
  show ?thesis by force
qed

lemma tombstone_world_Inr_iff:
  assumes "world_ok w"
  shows "tombstone_world w occ = Inr (w', ev) \<longleftrightarrow>
     wi_deleted_at w = None \<and> wi_state w = WS_OFF \<and>
     w' = w\<lparr>wi_deleted_at := Some occ\<rparr> \<and> ev = WorldDeleted (wi_id w) occ"
proof -
  have "make_world (wi_id w) WS_OFF (wi_pre_backup w) (Some occ) = Inr (w\<lparr>wi_deleted_at := Some occ\<rparr>)"
    if "wi_state w = WS_OFF"
    using assms that by (cases w) (simp add: make_world_Inr world_ok_iff)
  then show ?thesis
    by (auto simp: tombstone_world_def)
qed

section \<open>The lifecycle as a machine\<close>

datatype world_action = DoTransition WorldState int WorldTransitionIntent | DoTombstone int

fun world_step :: "WorldInstance \<Rightarrow> world_action \<Rightarrow> WorldInstance option" where
  "world_step w (DoTransition new occ intent) =
     (case transition_world w new occ intent of Inl e \<Rightarrow> None | Inr (w', ev) \<Rightarrow> Some w')"
| "world_step w (DoTombstone occ) =
     (case tombstone_world w occ of Inl e \<Rightarrow> None | Inr (w', ev) \<Rightarrow> Some w')"

lemma world_step_transition_iff:
  assumes "world_ok w"
  shows "world_step w (DoTransition new occ intent) = Some w' \<longleftrightarrow>
     transition_allowed w new intent \<and> w' = after_transition w new"
  using transition_world_allowed[OF assms, of new intent occ]
    transition_world_guards[of w new occ intent]
  by (auto split: sum.splits)

lemma world_step_tombstone_iff:
  assumes "world_ok w"
  shows "world_step w (DoTombstone occ) = Some w' \<longleftrightarrow>
     wi_deleted_at w = None \<and> wi_state w = WS_OFF \<and> w' = w\<lparr>wi_deleted_at := Some occ\<rparr>"
  using tombstone_world_Inr_iff[OF assms, of occ]
  by (cases "tombstone_world w occ") auto

lemmas world_step_iffs = world_step_transition_iff world_step_tombstone_iff

lemma world_step_ok:
  assumes "world_ok w" and "world_step w a = Some w'"
  shows "world_ok w'"
proof (cases a)
  case (DoTransition new occ intent)
  with assms show ?thesis
    by (metis after_transition_ok world_step_transition_iff)
next
  case (DoTombstone occ)
  with assms have "wi_state w = WS_OFF" "w' = w\<lparr>wi_deleted_at := Some occ\<rparr>"
    by (simp_all only: world_step_tombstone_iff)
  with assms(1) show ?thesis
    by (simp add: world_ok_iff)
qed

interpretation lifecycle: machine_with_final world_step world_ok "\<lambda>w. wi_deleted_at w \<noteq> None"
proof
  show "world_ok w'" if "world_ok w" "world_step w a = Some w'" for w w' a
    using that by (rule world_step_ok)
  show "world_step w a = None" if "world_ok w" "wi_deleted_at w \<noteq> None" for w a
    using that
    by (cases a) (auto simp: transition_world_def transition_guard_def tombstone_world_def)
qed

abbreviation run_world :: "WorldInstance \<Rightarrow> world_action list \<Rightarrow> WorldInstance" where
  "run_world \<equiv> run_attempts world_step"

section \<open>Properties\<close>

text \<open>Sample values used by the witnesses.\<close>

definition world_off :: WorldInstance where
  "world_off = \<lparr>wi_id = ''w1'', wi_state = WS_OFF, wi_pre_backup = None, wi_deleted_at = None\<rparr>"

lemma world_off_ok: "world_ok world_off"
  by (simp add: world_off_def world_ok_iff)

lemma backup_state_step:
  assumes "world_ok w" and "wi_state w = WS_BACKING_UP" and "world_step w a = Some w'"
  shows "wi_state w' = WS_BACKING_UP \<and> wi_pre_backup w' = wi_pre_backup w \<or>
         wi_state w' = WS_ERROR \<or> wi_pre_backup w = Some (wi_state w')"
proof (cases a)
  case (DoTransition new occ intent)
  with assms have "transition_allowed w new intent" "w' = after_transition w new"
    by (simp_all only: world_step_transition_iff)
  with assms(2) show ?thesis
    by (auto simp: transition_allowed_def after_transition_def next_pre_backup_def)
next
  case (DoTombstone occ)
  with assms show ?thesis by (simp only: world_step_tombstone_iff) simp
qed

lemma backup_state_run:
  assumes "world_ok w" and "wi_state w = WS_BACKING_UP"
    and "\<forall>n \<le> length as. wi_state (run_world w (take n as)) = WS_BACKING_UP"
  shows "wi_pre_backup (run_world w as) = wi_pre_backup w"
  using assms
proof (induction as arbitrary: w)
  case (Cons a as)
  define w' where "w' = (case world_step w a of None \<Rightarrow> w | Some v \<Rightarrow> v)"
  have st: "wi_state w' = WS_BACKING_UP"
    using Cons.prems(3)[rule_format, of 1] by (simp add: w'_def)
  have ok: "world_ok w'"
    using Cons.prems(1) by (auto simp: w'_def dest: world_step_ok split: option.splits)
  have pre: "wi_pre_backup w' = wi_pre_backup w"
    using backup_state_step[OF Cons.prems(1,2), of a] st Cons.prems(1,2)
    by (auto simp: w'_def world_ok_iff split: option.splits)
  have "\<forall>n \<le> length as. wi_state (run_world w' (take n as)) = WS_BACKING_UP"
  proof (intro allI impI)
    fix n assume "n \<le> length as"
    with Cons.prems(3)[rule_format, of "Suc n"]
    show "wi_state (run_world w' (take n as)) = WS_BACKING_UP" by (simp add: w'_def)
  qed
  from Cons.IH[OF ok st this] pre show ?case by (simp add: w'_def)
qed simp

text \<open>Whatever sequence of transitions and deletions is attempted on a well-formed
  world, the world stays well-formed, and the re-validation that \<open>transition_world\<close>
  performs through \<open>replace\<close> never raises: its \<open>except DomainInvariantError\<close>
  branch is dead code for every world the lifecycle produces.\<close>

lemma lifecycle_keeps_invariant:
  assumes "world_ok w"
  shows "world_ok (run_world w as) \<and>
         transition_world (run_world w as) new occ intent \<noteq> Inl (FromInvariant e)"
  using lifecycle.inv_run[OF assms] transition_world_never_invariant by blast

lemma lifecycle_keeps_invariant_witness:
  "world_ok (run_world world_off [DoTransition WS_BACKING_UP 5 ORDINARY]) \<and>
   transition_world (run_world world_off [DoTransition WS_BACKING_UP 5 ORDINARY]) WS_RUNNING 6
     ORDINARY \<noteq> Inl (FromInvariant PreOutsideBackup)"
  using lifecycle_keeps_invariant[OF world_off_ok] by blast

text \<open>A backup gives the world back the state it took it in: when a world enters
  \<open>backing_up\<close>, then stays there through any further attempted actions, and then leaves,
  it leaves to the state it had before the backup or to \<open>error\<close>, and the saved
  pre-backup state is cleared.\<close>

lemma backup_restores_state:
  assumes "world_ok w" and "wi_state w \<noteq> WS_BACKING_UP"
    and enter: "transition_world w WS_BACKING_UP t0 i0 = Inr (w1, ev1)"
    and stay: "\<forall>n \<le> length as. wi_state (run_world w1 (take n as)) = WS_BACKING_UP"
    and leave: "transition_world (run_world w1 as) new t1 i1 = Inr (w2, ev2)"
    and "new \<noteq> WS_BACKING_UP"
  shows "(wi_state w2 = wi_state w \<or> wi_state w2 = WS_ERROR) \<and> wi_pre_backup w2 = None"
proof -
  from enter have w1: "w1 = after_transition w WS_BACKING_UP" and al: "transition_allowed w WS_BACKING_UP i0"
    by (simp_all add: transition_world_Inr_iff[OF assms(1)])
  have ok1: "world_ok w1" unfolding w1 by (rule after_transition_ok[OF assms(1) al])
  have pre1: "wi_state w1 = WS_BACKING_UP" "wi_pre_backup w1 = Some (wi_state w)"
    using assms(2) by (simp_all add: w1 after_transition_def next_pre_backup_def)
  have pre: "wi_pre_backup (run_world w1 as) = Some (wi_state w)"
    using backup_state_run[OF ok1 pre1(1) stay] pre1(2) by simp
  have st: "wi_state (run_world w1 as) = WS_BACKING_UP"
    using stay[rule_format, of "length as"] by simp
  from leave lifecycle.inv_run[OF ok1, of as]
  have "transition_allowed (run_world w1 as) new i1" "w2 = after_transition (run_world w1 as) new"
    by (simp_all add: transition_world_Inr_iff)
  with pre st assms(6) show ?thesis
    by (auto simp: transition_allowed_def after_transition_def next_pre_backup_def)
qed

definition world_busy :: WorldInstance where
  "world_busy = \<lparr>wi_id = ''w1'', wi_state = WS_BACKING_UP, wi_pre_backup = Some WS_OFF,
                 wi_deleted_at = None\<rparr>"

lemma backup_restores_state_witness:
  "(wi_state world_off = wi_state world_off \<or> wi_state world_off = WS_ERROR) \<and>
   wi_pre_backup world_off = None"
  by (rule backup_restores_state[of world_off 5 ORDINARY world_busy
        "WorldStateChanged ''w1'' WS_OFF WS_BACKING_UP 5"
        "[DoTransition WS_RUNNING 6 ORDINARY, DoTombstone 7]" WS_OFF 8 ORDINARY world_off
        "WorldStateChanged ''w1'' WS_BACKING_UP WS_OFF 8"])
    (simp_all add: world_ok_iff world_off_def world_busy_def transition_world_def
       transition_guard_def required_intent_def next_pre_backup_def make_world_def
       validate_world_instance_def Let_def prefix_cases tombstone_world_def)

text \<open>A world that crashed, failed or waits for the EULA leaves that state only to
  \<open>off\<close>, and only with the acknowledgement intent that belongs to it; an ordinary request
  never clears it.\<close>

lemma guarded_exit_needs_intent:
  assumes "guarded_exit_intent (wi_state w) \<noteq> None"
    and "transition_world w new occ intent = Inr (w', ev)" and "new \<noteq> wi_state w"
  shows "new = WS_OFF \<and> guarded_exit_intent (wi_state w) = Some intent \<and> intent \<noteq> ORDINARY"
proof -
  have al: "transition_allowed w new intent"
    by (rule transition_world_guards[OF assms(2)])
  with assms(3) guarded_only_off[OF assms(1)] have off: "new = WS_OFF"
    by (simp add: transition_allowed_def)
  with al assms(1) have "guarded_exit_intent (wi_state w) = Some intent"
    by (auto simp: transition_allowed_def required_intent_def)
  with off required_intent_not_ordinary[of "wi_state w" WS_OFF] show ?thesis
    by (auto simp: required_intent_def)
qed

definition world_crashed :: WorldInstance where
  "world_crashed = world_off\<lparr>wi_state := WS_CRASHED\<rparr>"

lemma guarded_exit_needs_intent_witness:
  "WS_OFF = WS_OFF \<and> guarded_exit_intent (wi_state world_crashed) = Some CRASH_ACKNOWLEDGEMENT \<and>
   CRASH_ACKNOWLEDGEMENT \<noteq> ORDINARY"
  by (rule guarded_exit_needs_intent[of world_crashed WS_OFF 3 CRASH_ACKNOWLEDGEMENT world_off
        "WorldStateChanged ''w1'' WS_CRASHED WS_OFF 3"])
    (simp_all add: world_ok_iff world_off_def world_crashed_def transition_world_def
       transition_guard_def required_intent_def next_pre_backup_def make_world_def
       validate_world_instance_def Let_def)

fun way_off :: "WorldState \<Rightarrow> (WorldState \<times> WorldTransitionIntent) list" where
  "way_off WS_OFF = []"
| "way_off WS_QUEUED = [(WS_OFF, ORDINARY)]"
| "way_off WS_STARTING = [(WS_ERROR, ORDINARY), (WS_OFF, ERROR_ACKNOWLEDGEMENT)]"
| "way_off WS_RUNNING = [(WS_STOPPING, ORDINARY), (WS_OFF, ORDINARY)]"
| "way_off WS_STOPPING = [(WS_OFF, ORDINARY)]"
| "way_off WS_RESTORING = [(WS_OFF, ORDINARY)]"
| "way_off WS_BACKING_UP = [(WS_ERROR, ORDINARY), (WS_OFF, ERROR_ACKNOWLEDGEMENT)]"
| "way_off WS_CRASHED = [(WS_OFF, CRASH_ACKNOWLEDGEMENT)]"
| "way_off WS_ERROR = [(WS_OFF, ERROR_ACKNOWLEDGEMENT)]"
| "way_off WS_EULA_REQUIRED = [(WS_OFF, EULA_ACCEPTANCE)]"

lemma world_step_allowed:
  "world_ok w \<Longrightarrow> transition_allowed w new intent \<Longrightarrow>
   world_step w (DoTransition new occ intent) = Some (after_transition w new)"
  by (simp add: transition_world_allowed)

lemma way_off_reaches:
  assumes "world_ok w" and "wi_deleted_at w = None"
  shows "wi_state (run_world w (map (\<lambda>(n, i). DoTransition n occ i) (way_off (wi_state w)))) = WS_OFF"
proof -
  have one: "wi_state (run_world v [DoTransition WS_OFF occ i]) = WS_OFF"
    if "world_ok v" "transition_allowed v WS_OFF i" for v i
    using world_step_allowed[OF that] by (simp add: after_transition_def)
  have two: "wi_state (run_world w [DoTransition n occ i, DoTransition WS_OFF occ j]) = WS_OFF"
    if "transition_allowed w n i" "transition_allowed (after_transition w n) WS_OFF j" for n i j
    using one[OF after_transition_ok[OF assms(1) that(1)] that(2)]
      world_step_allowed[OF assms(1) that(1)] by simp
  note [simp] = transition_allowed_def required_intent_def after_transition_def next_pre_backup_def
  show ?thesis
  proof (cases "wi_state w")
    case WS_STARTING
    with two[of WS_ERROR ORDINARY ERROR_ACKNOWLEDGEMENT] assms show ?thesis by simp
  next
    case WS_RUNNING
    with two[of WS_STOPPING ORDINARY ORDINARY] assms show ?thesis by simp
  next
    case WS_BACKING_UP
    with two[of WS_ERROR ORDINARY ERROR_ACKNOWLEDGEMENT] assms show ?thesis by simp
  qed (use one[OF assms(1), of ORDINARY] one[OF assms(1), of CRASH_ACKNOWLEDGEMENT]
         one[OF assms(1), of ERROR_ACKNOWLEDGEMENT] one[OF assms(1), of EULA_ACCEPTANCE] assms
       in simp_all)
qed

text \<open>No state is a trap: from every well-formed world that is not deleted, some
  sequence of lifecycle actions brings it back to \<open>off\<close> (from where it can be started,
  backed up or deleted).\<close>

lemma every_world_can_return_off:
  assumes "world_ok w" and "wi_deleted_at w = None"
  shows "\<exists>as. wi_state (run_world w as) = WS_OFF \<and> world_ok (run_world w as)"
  using way_off_reaches[OF assms, of 0] lifecycle.inv_run[OF assms(1)] by blast

lemma every_world_can_return_off_witness:
  "\<exists>as. wi_state (run_world world_busy as) = WS_OFF \<and> world_ok (run_world world_busy as)"
  by (rule every_world_can_return_off) (simp_all add: world_ok_iff world_busy_def)

end
