(* ===== verification/Configuration.thy ===== *)
theory Configuration
  imports Operations_Inv
begin

text \<open>
  Effective settings and versioned edits (\<open>app/services/configuration.py\<close>).  Each versioned
  table is a list of rows, a row the values of its columns in the order of the schema
  (\<open>src/migrations\<close>); a JSON column holds the value its text decodes to, and NULL is
  \<open>JNull\<close>.  An update is checked against the \<open>NOT NULL\<close> columns and the unique indexes of its table,
  a new world override against its foreign keys; the \<open>CHECK\<close> constraints and the foreign keys of an
  update are not.
  An edit runs in two parts, because other requests run between them: the checks with the
  creation of its operation, and the transaction that writes.
\<close>

section \<open>Rows\<close>

type_synonym row = jdict

definition col :: "string \<Rightarrow> row \<Rightarrow> json" where
  "col c r = (case map_of r c of None \<Rightarrow> JNull | Some v \<Rightarrow> v)"

definition set_col :: "string \<Rightarrow> json \<Rightarrow> row \<Rightarrow> row" where
  "set_col c v r = map (\<lambda>(k, x). if k = c then (k, v) else (k, x)) r"

definition set_cols :: "jdict \<Rightarrow> row \<Rightarrow> row" where
  "set_cols fs r = foldl (\<lambda>a (k, v). set_col k v a) r fs"

text \<open>\<open>c in row\<close> on a row of \<open>sqlite3\<close> looks among the values of the row, not its columns.\<close>

definition in_row :: "string \<Rightarrow> row \<Rightarrow> bool" where
  "in_row c r \<longleftrightarrow> JStr c \<in> snd ` set r"

fun version_columns :: "ConfigEditEntity \<Rightarrow> (string \<times> string) option" where
  "version_columns CE_SCHEDULES = Some (''schedule_id'', ''version'')"
| "version_columns CE_CLEANUP_POLICIES = Some (''policy_id'', ''version'')"
| "version_columns CE_GLOBAL_SETTINGS = Some (''settings_id'', ''version'')"
| "version_columns CE_WORLD_SETTINGS = Some (''world_id'', ''version'')"
| "version_columns CE_TEMPLATES = Some (''template_id'', ''version'')"
| "version_columns CE_JAVA_RUNTIMES = Some (''runtime_id'', ''version'')"
| "version_columns CE_ROLES = Some (''role_id'', ''version'')"
| "version_columns CE_SYNC_TARGETS = Some (''sync_target_id'', ''version'')"
| "version_columns CE_WORLD_INSTANCES = Some (''world_id'', ''metadata_version'')"
| "version_columns _ = None"

fun table_columns :: "ConfigEditEntity \<Rightarrow> string list" where
  "table_columns CE_SCHEDULES = [''schedule_id'', ''scope'', ''world_id'', ''schedule_type'', ''interval_spec'',
     ''time_of_day'', ''enabled'', ''version'', ''last_changed_by'', ''last_changed_at'', ''deleted_at'',
     ''deleted_by'', ''created_at'']"
| "table_columns CE_CLEANUP_POLICIES = [''policy_id'', ''scope'', ''world_id'', ''age_rule_days'', ''space_rule_pct'',
     ''count_rules'', ''schedule_id'', ''version'', ''last_changed_by'', ''last_changed_at'', ''deleted_at'',
     ''deleted_by'', ''created_at'']"
| "table_columns CE_GLOBAL_SETTINGS = [''settings_id'', ''timezone'', ''idle_countdown_seconds'',
     ''notification_defaults'', ''minecraft_root_path'', ''backup_root_path'', ''log_root_path'',
     ''offsite_sync_defaults'', ''version'', ''updated_at'', ''updated_by'']"
| "table_columns CE_WORLD_SETTINGS = [''world_id'', ''minecraft_root_override'', ''backup_root_override'',
     ''log_root_override'', ''offsite_sync_override'', ''idle_countdown_override'', ''version'', ''updated_at'',
     ''updated_by'']"
| "table_columns CE_TEMPLATES = [''template_id'', ''name'', ''category'', ''default_version'', ''config_defaults'',
     ''source'', ''deprecated'', ''version'', ''deleted_at'', ''deleted_by'', ''created_at'', ''updated_at'']"
| "table_columns CE_JAVA_RUNTIMES = [''runtime_id'', ''label'', ''executable_path'', ''version_detected'',
     ''status'', ''deleted_at'', ''deleted_by'', ''created_at'', ''updated_at'', ''version'']"
| "table_columns CE_ROLES = [''role_id'', ''name'', ''description'', ''is_system_role'', ''version'',
     ''deleted_at'', ''deleted_by'', ''created_at'', ''updated_at'']"
| "table_columns CE_SYNC_TARGETS = [''sync_target_id'', ''scope'', ''world_id'', ''target_type'', ''config'',
     ''secret_id'', ''enabled'', ''version'', ''deleted_at'', ''deleted_by'', ''created_at'', ''updated_at'']"
| "table_columns CE_WORLD_INSTANCES = [''world_id'', ''display_name'', ''template_id'', ''server_type'',
     ''mc_version'', ''java_runtime_id'', ''port'', ''addressing_strategy'', ''addressing_value'', ''state'',
     ''pre_backup_state'', ''launch_args'', ''metadata_version'', ''deleted_at'', ''deleted_by'',
     ''created_at'', ''updated_at'']"
| "table_columns _ = []"

fun entity_value :: "ConfigEditEntity \<Rightarrow> string" where
  "entity_value CE_SCHEDULES = ''schedules''"
| "entity_value CE_CLEANUP_POLICIES = ''cleanup_policies''"
| "entity_value CE_GLOBAL_SETTINGS = ''global_settings''"
| "entity_value CE_WORLD_SETTINGS = ''world_settings''"
| "entity_value CE_TEMPLATES = ''templates''"
| "entity_value CE_ROLES = ''roles''"
| "entity_value CE_SYNC_TARGETS = ''sync_targets''"
| "entity_value CE_WORLD_INSTANCES = ''world_instances''"
| "entity_value CE_SERVER_PROPERTIES = ''server_properties''"
| "entity_value CE_JAVA_RUNTIMES = ''java_runtimes''"
| "entity_value CE_USERS = ''users''"
| "entity_value CE_DEVICES = ''devices''"
| "entity_value CE_EULA = ''eula''"

record config_sys =
  cf_ops :: op_sys
  cf_tables :: "ConfigEditEntity \<Rightarrow> row list"

datatype config_error = ConfigurationConflictError | NotVersioned | NoFields | IdentityField
  | UnknownFields "string list" | MissingRow string | ActorRequired | ConstraintFailed string
  | OpFailed op_error

section \<open>Effective settings\<close>

definition text_key :: "json \<Rightarrow> string" where
  "text_key v = (case v of JStr s \<Rightarrow> s | _ \<Rightarrow> [])"

definition resolve_global :: "config_sys \<Rightarrow> config_error + row" where
  "resolve_global s =
     (case sort_key (\<lambda>r. text_key (col ''settings_id'' r)) (cf_tables s CE_GLOBAL_SETTINGS) of
        [] \<Rightarrow> Inl (MissingRow ''global_settings'')
      | r # _ \<Rightarrow> Inr r)"

definition resolve_world :: "string \<Rightarrow> config_sys \<Rightarrow> row option" where
  "resolve_world w s = find_row (\<lambda>r. col ''world_id'' r = JStr w) (cf_tables s CE_WORLD_SETTINGS)"

definition effective_keys :: "string list" where
  "effective_keys = [''timezone'', ''idle_countdown_seconds'', ''notification_defaults'', ''minecraft_root_path'',
     ''backup_root_path'', ''log_root_path'', ''offsite_sync_defaults'']"

definition overrides :: "(string \<times> string) list" where
  "overrides = [(''idle_countdown_seconds'', ''idle_countdown_override''),
     (''minecraft_root_path'', ''minecraft_root_override''), (''backup_root_path'', ''backup_root_override''),
     (''log_root_path'', ''log_root_override''), (''offsite_sync_defaults'', ''offsite_sync_override'')]"

fun apply_overrides :: "(string \<times> string) list \<Rightarrow> row \<Rightarrow> jdict \<Rightarrow> jdict" where
  "apply_overrides [] w eff = eff"
| "apply_overrides ((k, o') # os) w eff =
     apply_overrides os w (if col o' w = JNull then eff else dict_set k (col o' w) eff)"

definition resolve_effective :: "string \<Rightarrow> config_sys \<Rightarrow> config_error + jdict" where
  "resolve_effective w s =
     res_bind (resolve_global s) (\<lambda>g.
       let eff = map (\<lambda>k. (k, col k g)) effective_keys in
       case resolve_world w s of
         None \<Rightarrow> Inr eff
       | Some ws \<Rightarrow> Inr (apply_overrides overrides ws eff))"

section \<open>Versioned edits\<close>

record VersionedUpdate =
  vu_entity :: ConfigEditEntity
  vu_row :: string
  vu_expected :: int
  vu_fields :: jdict
  vu_actor_type :: ActorType
  vu_actor :: "string option"

definition find_config :: "ConfigEditEntity \<Rightarrow> string \<Rightarrow> string \<Rightarrow> config_sys \<Rightarrow> row option" where
  "find_config e key i s = find_row (\<lambda>r. col key r = JStr i) (cf_tables s e)"

definition creating_override :: "VersionedUpdate \<Rightarrow> row option \<Rightarrow> bool" where
  "creating_override v cur \<longleftrightarrow> vu_entity v = CE_WORLD_SETTINGS \<and> cur = None \<and> vu_expected v = 0"

definition check_update :: "VersionedUpdate \<Rightarrow> config_sys \<Rightarrow> config_error + bool" where
  "check_update v s =
     (case version_columns (vu_entity v) of
        None \<Rightarrow> Inl NotVersioned
      | Some (key, ver) \<Rightarrow>
          (if vu_fields v = [] then Inl NoFields
           else if list_ex (\<lambda>(k, x). k = key \<or> k = ver) (vu_fields v) then Inl IdentityField
           else if \<not> set (map fst (vu_fields v)) \<subseteq> set (table_columns (vu_entity v))
           then Inl (UnknownFields (sort (remdups (filter (\<lambda>k. k \<notin> set (table_columns (vu_entity v)))
                  (map fst (vu_fields v))))))
           else
             (let cur = find_config (vu_entity v) key (vu_row v) s; creating = creating_override v cur in
              case cur of
                None \<Rightarrow> (if creating then Inr True
                         else if vu_entity v = CE_WORLD_SETTINGS then Inl ConfigurationConflictError
                         else Inl (MissingRow (vu_row v)))
              | Some r \<Rightarrow> (if col ver r \<noteq> JInt (vu_expected v) then Inl ConfigurationConflictError
                           else Inr False))))"

definition edit_payload :: "VersionedUpdate \<Rightarrow> jdict \<Rightarrow> jdict \<Rightarrow> jdict" where
  "edit_payload v old new =
     [(''entity'', JStr (entity_value (vu_entity v))), (''row_id'', JStr (vu_row v)),
      (''before'', JObj old), (''after'', JObj new)]"

definition edit_request :: "VersionedUpdate \<Rightarrow> OperationInput" where
  "edit_request v =
     \<lparr>oi_type = CONFIG_EDIT, oi_actor_type = vu_actor_type v,
      oi_world = (if vu_entity v = CE_WORLD_SETTINGS \<or> vu_entity v = CE_WORLD_INSTANCES
                  then Some (vu_row v) else None),
      oi_actor_user = vu_actor v, oi_key = None, oi_data = Some (edit_payload v [] []), oi_compensates = None\<rparr>"

text \<open>The first part: the checks, the operation, and its move to running.  It gives the identifier
  of the operation and whether a world override is to be created.\<close>

definition begin_update ::
  "(nat \<Rightarrow> nat \<Rightarrow> string) \<Rightarrow> int \<Rightarrow> VersionedUpdate \<Rightarrow> config_sys
    \<Rightarrow> (config_error + string \<times> bool) \<times> config_sys" where
  "begin_update u now v s =
     (case check_update v s of
        Inl e \<Rightarrow> (Inl e, s)
      | Inr creating \<Rightarrow>
          (case create_with_replay (u 0) now (edit_request v) OS_QUEUED True (cf_ops s) of
             Inl e \<Rightarrow> (Inl (OpFailed e), s)
           | Inr ((op, _), ops1) \<Rightarrow>
               (case transition (u 1) now (op_id op) OS_RUNNING plain_transition ops1 of
                  Inl e \<Rightarrow> (Inl (OpFailed e), s\<lparr>cf_ops := ops1\<rparr>)
                | Inr (_, ops2) \<Rightarrow> (Inr (op_id op, creating), s\<lparr>cf_ops := ops2\<rparr>))))"

text \<open>The columns an update writes besides those of the request.\<close>

definition written_fields :: "int \<Rightarrow> VersionedUpdate \<Rightarrow> row \<Rightarrow> jdict" where
  "written_fields now v r =
     (let fs = vu_fields v; has = (\<lambda>k. k \<in> fst ` set fs) in
      fs @ (if in_row ''updated_at'' r \<and> \<not> has ''updated_at'' then [(''updated_at'', JInt now)] else []) @
      (case vu_actor v of
         None \<Rightarrow> []
       | Some a \<Rightarrow> if in_row ''updated_by'' r \<and> \<not> has ''updated_by'' then [(''updated_by'', JStr a)] else []) @
      (if in_row ''last_changed_at'' r \<and> \<not> has ''last_changed_at'' then [(''last_changed_at'', JInt now)] else []))"

definition bump :: "string \<Rightarrow> row \<Rightarrow> row" where
  "bump ver r = (case col ver r of JInt n \<Rightarrow> set_col ver (JInt (n + 1)) r | _ \<Rightarrow> r)"

definition new_override :: "int \<Rightarrow> VersionedUpdate \<Rightarrow> string \<Rightarrow> row" where
  "new_override now v actor =
     (let fs = dict_set ''updated_by'' (JStr actor) (dict_set ''updated_at'' (JInt now)
          (dict_set ''version'' (JInt 1) (dict_set ''world_id'' (JStr (vu_row v)) (vu_fields v)))) in
      map (\<lambda>c. (c, col c fs)) (table_columns CE_WORLD_SETTINGS))"

text \<open>The constraint an update breaks: a value that cannot be bound, a column that may not be
  null, or a column whose value must be unique among the rows that are not deleted.\<close>

fun required_columns :: "ConfigEditEntity \<Rightarrow> string list" where
  "required_columns CE_SCHEDULES = [''scope'', ''schedule_type'', ''interval_spec'', ''time_of_day'', ''enabled'',
     ''last_changed_by'', ''last_changed_at'', ''created_at'']"
| "required_columns CE_CLEANUP_POLICIES = [''scope'', ''age_rule_days'', ''last_changed_by'', ''last_changed_at'',
     ''created_at'']"
| "required_columns CE_GLOBAL_SETTINGS = [''timezone'', ''minecraft_root_path'', ''backup_root_path'',
     ''log_root_path'', ''updated_at'', ''updated_by'']"
| "required_columns CE_WORLD_SETTINGS = [''updated_at'', ''updated_by'']"
| "required_columns CE_TEMPLATES = [''name'', ''category'', ''default_version'', ''config_defaults'', ''source'',
     ''deprecated'', ''created_at'', ''updated_at'']"
| "required_columns CE_JAVA_RUNTIMES = [''label'', ''executable_path'', ''status'', ''created_at'', ''updated_at'']"
| "required_columns CE_ROLES = [''name'', ''is_system_role'', ''created_at'', ''updated_at'']"
| "required_columns CE_SYNC_TARGETS = [''scope'', ''target_type'', ''config'', ''secret_id'', ''enabled'',
     ''created_at'', ''updated_at'']"
| "required_columns CE_WORLD_INSTANCES = [''display_name'', ''template_id'', ''server_type'', ''mc_version'',
     ''java_runtime_id'', ''port'', ''addressing_strategy'', ''addressing_value'', ''state'', ''created_at'',
     ''updated_at'']"
| "required_columns _ = []"

fun unique_columns :: "ConfigEditEntity \<Rightarrow> string list" where
  "unique_columns CE_TEMPLATES = [''name'']"
| "unique_columns CE_JAVA_RUNTIMES = [''label'']"
| "unique_columns CE_ROLES = [''name'']"
| "unique_columns CE_WORLD_INSTANCES = [''display_name'', ''port'']"
| "unique_columns _ = []"

text \<open>The columns that hold JSON text; elsewhere the driver refuses to bind a list or an object, and
  an integer of more than 64 bits.\<close>

definition json_columns :: "string list" where
  "json_columns = [''interval_spec'', ''count_rules'', ''notification_defaults'', ''offsite_sync_defaults'',
     ''offsite_sync_override'', ''config_defaults'', ''config'', ''launch_args'']"

fun bindable :: "json \<Rightarrow> bool" where
  "bindable (JArr xs) = False"
| "bindable (JObj d) = False"
| "bindable (JInt n) = (- (2 ^ 63) \<le> n \<and> n < 2 ^ 63)"
| "bindable _ = True"

definition cannot_bind :: "jdict \<Rightarrow> bool" where
  "cannot_bind fs \<longleftrightarrow> list_ex (\<lambda>(k, x). k \<notin> set json_columns \<and> \<not> bindable x) fs"

definition taken :: "string \<Rightarrow> string \<Rightarrow> row list \<Rightarrow> row \<Rightarrow> bool" where
  "taken key c rows r \<longleftrightarrow> col ''deleted_at'' r = JNull \<and>
     exists_row (\<lambda>x. col key x \<noteq> col key r \<and> col ''deleted_at'' x = JNull \<and> col c x = col c r) rows"

definition broken_constraint :: "ConfigEditEntity \<Rightarrow> string \<Rightarrow> jdict \<Rightarrow> row list \<Rightarrow> row \<Rightarrow> string option" where
  "broken_constraint e key fs rows r =
     (if cannot_bind fs then Some ''Error binding parameter''
      else case filter (\<lambda>c. c \<in> fst ` set fs \<and> col c r = JNull) (required_columns e) of
        c # _ \<Rightarrow> Some (''NOT NULL constraint failed: '' @ entity_value e @ ''.'' @ c)
      | [] \<Rightarrow>
          (case filter (\<lambda>c. taken key c rows r) (unique_columns e) of
             c # _ \<Rightarrow> Some (''UNIQUE constraint failed: '' @ entity_value e @ ''.'' @ c)
           | [] \<Rightarrow> None))"

text \<open>The transaction: the payload with the values before and after, and the tables it commits.\<close>

definition update_tx ::
  "int \<Rightarrow> VersionedUpdate \<Rightarrow> bool \<Rightarrow> config_sys \<Rightarrow> jdict \<times> (config_error + row \<times> config_sys)" where
  "update_tx now v creating s =
     (let e = vu_entity v; empty = edit_payload v [] [] in
      case version_columns e of
        None \<Rightarrow> (empty, Inl NotVersioned)
      | Some (key, ver) \<Rightarrow>
          (case find_config e key (vu_row v) s of
             None \<Rightarrow>
               (if \<not> creating then (empty, Inl (MissingRow (vu_row v)))
                else
                  (let payload = edit_payload v (map (\<lambda>(k, x). (k, JNull)) (vu_fields v)) (vu_fields v) in
                   case vu_actor v of
                     None \<Rightarrow> (payload, Inl ActorRequired)
                   | Some a \<Rightarrow>
                       (if cannot_bind (vu_fields v) then (payload, Inl (ConstraintFailed ''Error binding parameter''))
                        else if \<not> fk_world (Some (vu_row v)) (os_store (cf_ops s)) \<or> \<not> fk_user (Some a) (os_store (cf_ops s))
                        then (payload, Inl (ConstraintFailed ''FOREIGN KEY constraint failed''))
                        else (let r = new_override now v a in
                              (payload, Inr (r, s\<lparr>cf_tables := (cf_tables s)(e := cf_tables s e @ [r])\<rparr>))))))
           | Some r \<Rightarrow>
               (let payload = edit_payload v (map (\<lambda>(k, x). (k, col k r)) (vu_fields v)) (vu_fields v) in
                if col ver r \<noteq> JInt (vu_expected v) then (payload, Inl ConfigurationConflictError)
                else case broken_constraint e key (vu_fields v) (cf_tables s e)
                            (bump ver (set_cols (written_fields now v r) r)) of
                  Some m \<Rightarrow> (payload, Inl (ConstraintFailed m))
                | None \<Rightarrow>
                  (let f = (\<lambda>x. bump ver (set_cols (written_fields now v r) x));
                       s1 = s\<lparr>cf_tables := (cf_tables s)(e := update_rows (\<lambda>x. col key x = JStr (vu_row v)) f
                              (cf_tables s e))\<rparr> in
                   (payload, Inr (f r, s1))))))"

fun config_error_text :: "config_error \<Rightarrow> string" where
  "config_error_text ConfigurationConflictError = ''CONFIG_VERSION_CONFLICT''"
| "config_error_text (MissingRow i) = [CHR 0x27] @ i @ [CHR 0x27]"
| "config_error_text ActorRequired = ''creating world settings requires an actor user''"
| "config_error_text (ConstraintFailed m) = m"
| "config_error_text (OpFailed (OperationNotFound i)) = ''operation not found: '' @ i"
| "config_error_text (OpFailed OpIntegrityError) = ''UNIQUE constraint failed''"
| "config_error_text NoFields = ''update requires at least one field''"
| "config_error_text IdentityField = ''cannot update identity or version columns directly''"
| "config_error_text _ = []"

text \<open>The second part: the transaction, then the end of the operation.  A failure ends it as
  failed, and an exception of that takes the place of the first one.\<close>

definition fail_update ::
  "(nat \<Rightarrow> string) \<Rightarrow> int \<Rightarrow> string \<Rightarrow> config_error \<Rightarrow> jdict \<Rightarrow> config_sys
    \<Rightarrow> (config_error + row \<times> op_row) \<times> config_sys" where
  "fail_update u now i e payload s =
     (case transition u now i OS_FAILED
             \<lparr>ti_checkpoint = None,
              ti_error_code = Some (if e = ConfigurationConflictError then ''CONFIG_VERSION_CONFLICT''
                                    else ''CONFIG_EDIT_FAILED''),
              ti_message = Some (config_error_text e), ti_data = Some payload\<rparr> (cf_ops s) of
        Inl e' \<Rightarrow> (Inl (OpFailed e'), s)
      | Inr (_, ops) \<Rightarrow> (Inl e, s\<lparr>cf_ops := ops\<rparr>))"

definition apply_update ::
  "(nat \<Rightarrow> nat \<Rightarrow> string) \<Rightarrow> int \<Rightarrow> VersionedUpdate \<Rightarrow> string \<Rightarrow> bool \<Rightarrow> config_sys
    \<Rightarrow> (config_error + row \<times> op_row) \<times> config_sys" where
  "apply_update u now v i creating s =
     (case update_tx now v creating s of
        (payload, Inl e) \<Rightarrow> fail_update (u 3) now i e payload s
      | (payload, Inr (r, s1)) \<Rightarrow>
          (case transition (u 2) now i OS_COMPLETED
                  \<lparr>ti_checkpoint = None, ti_error_code = None, ti_message = None, ti_data = Some payload\<rparr>
                  (cf_ops s1) of
             Inl e \<Rightarrow> fail_update (u 3) now i (OpFailed e) payload s1
           | Inr (op, ops) \<Rightarrow> (Inr (r, op), s1\<lparr>cf_ops := ops\<rparr>)))"

definition update_versioned_with_operation ::
  "(nat \<Rightarrow> nat \<Rightarrow> string) \<Rightarrow> int \<Rightarrow> VersionedUpdate \<Rightarrow> config_sys
    \<Rightarrow> (config_error + row \<times> op_row) \<times> config_sys" where
  "update_versioned_with_operation u now v s =
     (case begin_update u now v s of
        (Inl e, s1) \<Rightarrow> (Inl e, s1)
      | (Inr (i, creating), s1) \<Rightarrow> apply_update u now v i creating s1)"

section \<open>Columns\<close>

lemma col_set_col:
  "col k (set_col c v r) = (if k = c \<and> c \<in> fst ` set r then v else col k r)"
proof -
  have "map_of (set_col c v r) k = (if k = c \<and> c \<in> fst ` set r then Some v else map_of r k)"
  proof (induction r)
    case (Cons p r)
    obtain k' x where "p = (k', x)" by (cases p)
    with Cons show ?case by (cases "k' = c"; cases "k' = k") (simp_all add: set_col_def)
  qed (simp add: set_col_def)
  then show ?thesis by (simp add: col_def)
qed

lemma cols_set_col [simp]: "map fst (set_col c v r) = map fst r"
  by (induction r) (auto simp: set_col_def)

lemma set_cols_Nil [simp]: "set_cols [] r = r"
  by (simp add: set_cols_def)

lemma set_cols_Cons [simp]: "set_cols ((k, v) # fs) r = set_cols fs (set_col k v r)"
  by (simp add: set_cols_def)

lemma cols_set_cols [simp]: "map fst (set_cols fs r) = map fst r"
  by (induction fs arbitrary: r) auto

lemma fst_set_col [simp]: "fst ` set (set_col c v r) = fst ` set r"
  by (metis cols_set_col set_map)

lemma fst_set_cols [simp]: "fst ` set (set_cols fs r) = fst ` set r"
  by (metis cols_set_cols set_map)

lemma col_set_cols_other: "k \<notin> fst ` set fs \<Longrightarrow> col k (set_cols fs r) = col k r"
  by (induction fs arbitrary: r) (auto simp: col_set_col)

lemma col_set_cols_given:
  assumes "distinct (map fst fs)" and "(k, v) \<in> set fs" and "k \<in> fst ` set r"
  shows "col k (set_cols fs r) = v"
  using assms
proof (induction fs arbitrary: r)
  case (Cons p fs)
  obtain k' v' where p: "p = (k', v')" by (cases p)
  show ?case
  proof (cases "k' = k")
    case True
    then have "k \<notin> fst ` set fs" using Cons.prems(1) p by auto
    moreover from this have "v' = v" using Cons.prems(2) True p by (auto simp: rev_image_eqI)
    ultimately show ?thesis using Cons.prems(3) True by (simp add: p col_set_cols_other col_set_col)
  next
    case False
    with Cons show ?thesis by (auto simp: p)
  qed
qed simp

lemma set_cols_append: "set_cols (xs @ ys) r = set_cols ys (set_cols xs r)"
  by (simp add: set_cols_def)

lemma col_bump:
  "col k (bump ver r) = (if k = ver then (case col ver r of JInt n \<Rightarrow> JInt (n + 1) | x \<Rightarrow> x) else col k r)"
proof -
  have "ver \<in> fst ` set r" if "col ver r = JInt n" for n
    using that map_of_SomeD[of r ver] by (auto simp: col_def intro: image_eqI[rotated] split: option.splits)
  then show ?thesis by (auto simp: bump_def col_set_col split: json.split)
qed

lemma cols_bump [simp]: "map fst (bump ver r) = map fst r"
  by (simp add: bump_def split: json.split)

lemma key_not_version: "version_columns e = Some (key, ver) \<Longrightarrow> key \<noteq> ver"
  by (cases e) auto

lemma key_not_stamp:
  "version_columns e = Some (key, ver) \<Longrightarrow>
     {key, ver} \<inter> {''updated_at'', ''updated_by'', ''last_changed_at''} = {}"
  by (cases e) auto

lemma written_fields_keys:
  "fst ` set (written_fields now v r) \<subseteq> fst ` set (vu_fields v) \<union> {''updated_at'', ''updated_by'', ''last_changed_at''}"
  by (auto simp: written_fields_def Let_def split: if_splits option.splits)

section \<open>Versions of rows\<close>

fun version_of :: "config_sys \<Rightarrow> ConfigEditEntity \<times> string \<Rightarrow> int option" where
  "version_of s (e, i) =
     (case version_columns e of
        None \<Rightarrow> None
      | Some (key, ver) \<Rightarrow>
          (case find_config e key i s of
             None \<Rightarrow> None
           | Some r \<Rightarrow> (case col ver r of JInt n \<Rightarrow> Some n | _ \<Rightarrow> None)))"

lemma version_of_tables: "cf_tables s = cf_tables s' \<Longrightarrow> version_of s = version_of s'"
  by (rule ext) (auto simp: find_config_def split: prod.splits option.splits)

lemma version_of_at:
  "version_columns e = Some (key, ver) \<Longrightarrow> version_of s (e, i) =
     (case find_config e key i s of None \<Rightarrow> None | Some r \<Rightarrow> (case col ver r of JInt n \<Rightarrow> Some n | _ \<Rightarrow> None))"
  by simp

lemma version_of_other_table:
  "cf_tables s e = cf_tables s' e \<Longrightarrow> version_of s (e, i) = version_of s' (e, i)"
  by (auto simp: find_config_def split: option.splits)

declare version_of.simps [simp del]

text \<open>A request that passed the checks leaves the identity and the version columns alone, and
  may create only an override that the client saw as version 0.\<close>

definition checked :: "VersionedUpdate \<Rightarrow> bool \<Rightarrow> bool" where
  "checked v creating \<longleftrightarrow>
     (case version_columns (vu_entity v) of
        None \<Rightarrow> False
      | Some (key, ver) \<Rightarrow> key \<notin> fst ` set (vu_fields v) \<and> ver \<notin> fst ` set (vu_fields v)) \<and>
     fst ` set (vu_fields v) \<subseteq> set (table_columns (vu_entity v)) \<and>
     (creating \<longrightarrow> vu_entity v = CE_WORLD_SETTINGS \<and> vu_expected v = 0)"

lemma checked_fields:
  assumes "checked v creating" and "version_columns (vu_entity v) = Some (key, ver)"
  shows "fst ` set (vu_fields v) \<subseteq> set (table_columns (vu_entity v))"
    and "key \<notin> fst ` set (vu_fields v)" and "ver \<notin> fst ` set (vu_fields v)"
  using assms by (simp_all add: checked_def)

lemma check_update_checked: "check_update v s = Inr creating \<Longrightarrow> checked v creating"
proof -
  assume a: "check_update v s = Inr creating"
  then obtain key ver where kv: "version_columns (vu_entity v) = Some (key, ver)"
    by (auto simp: check_update_def split: option.splits)
  from a have "\<not> list_ex (\<lambda>(k, x). k = key \<or> k = ver) (vu_fields v)"
    "set (map fst (vu_fields v)) \<subseteq> set (table_columns (vu_entity v))"
    by (auto simp: check_update_def kv simp del: set_map split: if_split_asm)
  moreover from a have "creating \<longrightarrow> vu_entity v = CE_WORLD_SETTINGS \<and> vu_expected v = 0"
    by (auto simp: check_update_def kv Let_def creating_override_def simp del: set_map split: if_split_asm option.splits)
  ultimately show ?thesis by (auto simp: checked_def kv list_ex_iff)
qed

lemma written_row:
  assumes "checked v creating" and "version_columns (vu_entity v) = Some (key, ver)"
  shows "col key (bump ver (set_cols (written_fields now v r) x)) = col key x"
    and "col ver (bump ver (set_cols (written_fields now v r) x)) =
           (case col ver x of JInt n \<Rightarrow> JInt (n + 1) | y \<Rightarrow> y)"
proof -
  have "key \<notin> fst ` set (written_fields now v r)" "ver \<notin> fst ` set (written_fields now v r)"
    using assms written_fields_keys[of now v r] key_not_stamp[OF assms(2)] by (auto simp: checked_def)
  then show "col key (bump ver (set_cols (written_fields now v r) x)) = col key x"
    and "col ver (bump ver (set_cols (written_fields now v r) x)) =
           (case col ver x of JInt n \<Rightarrow> JInt (n + 1) | y \<Rightarrow> y)"
    using key_not_version[OF assms(2)] by (simp_all add: col_bump col_set_cols_other)
qed

lemma new_override_cols:
  assumes "checked v True" and "c \<in> set (table_columns CE_WORLD_SETTINGS)"
  shows "col c (new_override now v a) =
     (if c = ''updated_by'' then JStr a else if c = ''updated_at'' then JInt now
      else if c = ''version'' then JInt 1 else if c = ''world_id'' then JStr (vu_row v) else col c (vu_fields v))"
proof -
  have pick: "col c (map (\<lambda>c. (c, f c)) cs) = f c" if "c \<in> set cs" for f :: "string \<Rightarrow> json" and cs
  proof -
    have "map_of (map (\<lambda>c. (c, f c)) cs) c = Some (f c)" using that by (induction cs) auto
    then show ?thesis by (simp add: col_def)
  qed
  show ?thesis unfolding new_override_def Let_def pick[OF assms(2)] by (simp add: col_def)
qed

text \<open>What the transaction of a checked request commits.\<close>

lemma update_tx_commits:
  assumes "checked v creating" and "version_columns (vu_entity v) = Some (key, ver)"
    and "snd (update_tx now v creating s) = Inr (r, s')"
  shows "cf_ops s' = cf_ops s \<and> (\<forall>e. e \<noteq> vu_entity v \<longrightarrow> cf_tables s' e = cf_tables s e) \<and>
     find_config (vu_entity v) key (vu_row v) s' = Some r \<and> col ver r = JInt (vu_expected v + 1) \<and>
     (\<forall>i. i \<noteq> vu_row v \<longrightarrow> find_config (vu_entity v) key i s' = find_config (vu_entity v) key i s) \<and>
     ((\<exists>r0. find_config (vu_entity v) key (vu_row v) s = Some r0 \<and> col ver r0 = JInt (vu_expected v) \<and>
         r = bump ver (set_cols (written_fields now v r0) r0)) \<or>
      (find_config (vu_entity v) key (vu_row v) s = None \<and> creating \<and> vu_expected v = 0 \<and>
         (\<exists>a. vu_actor v = Some a \<and> r = new_override now v a)))"
proof (cases "find_config (vu_entity v) key (vu_row v) s")
  case None
  with assms(2,3) obtain a where a: "creating" "vu_actor v = Some a" "r = new_override now v a"
    "s' = s\<lparr>cf_tables := (cf_tables s)(vu_entity v := cf_tables s (vu_entity v) @ [r])\<rparr>"
    by (auto simp: update_tx_def Let_def split: if_splits option.splits)
  have e: "vu_entity v = CE_WORLD_SETTINGS" "vu_expected v = 0" using assms(1) a(1) by (auto simp: checked_def)
  with assms(2) have k: "key = ''world_id''" "ver = ''version''" by auto
  have cols: "col key r = JStr (vu_row v)" "col ver r = JInt 1"
    using new_override_cols[of v key now a] new_override_cols[of v ver now a] assms(1) a(1,3) k by auto
  have "find_row (\<lambda>x. col key x = JStr (vu_row v)) (cf_tables s (vu_entity v)) = None"
    using None by (simp add: find_config_def)
  then have "find_config (vu_entity v) key (vu_row v) s' = Some r"
    using cols(1) by (simp add: find_config_def a(4) find_row_append)
  moreover have "find_config (vu_entity v) key i s' = find_config (vu_entity v) key i s" if "i \<noteq> vu_row v" for i
    using cols(1) that by (simp add: find_config_def a(4) find_row_append split: option.split)
  ultimately show ?thesis using None a cols e(2) by simp
next
  case (Some r0)
  define f where "f = (\<lambda>x. bump ver (set_cols (written_fields now v r0) x))"
  have *: "col ver r0 = JInt (vu_expected v)" "r = f r0"
    "s' = s\<lparr>cf_tables := (cf_tables s)(vu_entity v := update_rows (\<lambda>x. col key x = JStr (vu_row v)) f
                              (cf_tables s (vu_entity v)))\<rparr>"
    using assms(2,3) Some by (auto simp: update_tx_def Let_def f_def split: if_splits option.splits)
  have fk: "col key (f x) = col key x" for x
    using written_row(1)[OF assms(1,2)] by (simp add: f_def)
  have fv: "col ver (f r0) = JInt (vu_expected v + 1)"
    using written_row(2)[OF assms(1,2)] *(1) by (simp add: f_def)
  have look: "find_config (vu_entity v) key i s' =
     map_option (\<lambda>x. if col key x = JStr (vu_row v) then f x else x) (find_config (vu_entity v) key i s)" for i
    by (simp add: find_config_def *(3) find_row_update_rows_stable fk)
  have r0: "col key r0 = JStr (vu_row v)"
    using Some by (auto simp: find_config_def dest!: find_row_SomeD)
  have other: "find_config (vu_entity v) key i s' = find_config (vu_entity v) key i s" if "i \<noteq> vu_row v" for i
    using that by (cases "find_config (vu_entity v) key i s")
      (auto simp: look, auto simp: find_config_def dest!: find_row_SomeD)
  show ?thesis
    using Some * fv r0 look[of "vu_row v"] other by (auto simp: f_def)
qed

section \<open>No lost updates\<close>

text \<open>
  Stores whose cells carry versions: a commit names the cell and the version its author saw.
  The laws: a commit needs the current version (0 for a cell that is not there yet) and moves
  it on, and no step takes a version back.
\<close>

locale versioned_store =
  fixes nxt :: "'s \<Rightarrow> 'a \<Rightarrow> 's"
    and commit :: "'s \<Rightarrow> 'a \<Rightarrow> ('k \<times> int) option"
    and ver :: "'s \<Rightarrow> 'k \<Rightarrow> int option"
    and inv :: "'s \<Rightarrow> bool"
  assumes inv_nxt: "inv s \<Longrightarrow> inv (nxt s a)"
    and commit_current: "inv s \<Longrightarrow> commit s a = Some (k, v) \<Longrightarrow> ver s k = Some v \<or> (ver s k = None \<and> v = 0)"
    and commit_moves: "inv s \<Longrightarrow> commit s a = Some (k, v) \<Longrightarrow> \<exists>n. ver (nxt s a) k = Some n \<and> v < n \<and> 0 < n"
    and ver_mono: "inv s \<Longrightarrow> ver s k = Some n \<Longrightarrow> \<exists>m. ver (nxt s a) k = Some m \<and> n \<le> m"
begin

fun commits :: "'s \<Rightarrow> 'a list \<Rightarrow> ('k \<times> int) list" where
  "commits s [] = []"
| "commits s (a # as) = (case commit s a of None \<Rightarrow> [] | Some c \<Rightarrow> [c]) @ commits (nxt s a) as"

lemma commits_newer:
  assumes "inv s" and "ver s k = Some n" and "(k, v) \<in> set (commits s as)"
  shows "n \<le> v"
  using assms
proof (induction as arbitrary: s n)
  case (Cons a as)
  obtain m where m: "ver (nxt s a) k = Some m" "n \<le> m" using ver_mono[OF Cons.prems(1,2)] by blast
  from Cons.prems(3) consider "commit s a = Some (k, v)" | "(k, v) \<in> set (commits (nxt s a) as)"
    by (auto split: option.splits)
  then show ?case
  proof cases
    case 1
    then show ?thesis using commit_current[OF Cons.prems(1) 1] Cons.prems(2) by auto
  next
    case 2
    from Cons.IH[OF inv_nxt[OF Cons.prems(1)] m(1) 2] m(2) show ?thesis by simp
  qed
qed simp

lemma no_two_commits_on_one_version: "inv s \<Longrightarrow> distinct (commits s as)"
proof (induction as arbitrary: s)
  case (Cons a as)
  note ih = Cons.IH[OF inv_nxt[OF Cons.prems]]
  show ?case
  proof (cases "commit s a")
    case (Some c)
    obtain k v where c: "c = (k, v)" by (cases c)
    obtain n where n: "ver (nxt s a) k = Some n" "v < n" using commit_moves[OF Cons.prems] Some c by blast
    have "(k, v) \<notin> set (commits (nxt s a) as)"
      using commits_newer[OF inv_nxt[OF Cons.prems] n(1)] n(2) by force
    with ih Some c show ?thesis by simp
  qed (use ih in simp)
qed simp

end

text \<open>The service under concurrent clients: an edit begins, waits, and finishes later; \<open>Finish n\<close>
  runs the transaction of the \<open>n\<close>-th waiting edit.\<close>

record config_run =
  cr_sys :: config_sys
  cr_waiting :: "(VersionedUpdate \<times> string \<times> bool) list"

datatype config_action = Begin "nat \<Rightarrow> nat \<Rightarrow> string" int VersionedUpdate
  | Finish "nat \<Rightarrow> nat \<Rightarrow> string" int nat

fun config_next :: "config_run \<Rightarrow> config_action \<Rightarrow> config_run" where
  "config_next c (Begin u now v) =
     (case begin_update u now v (cr_sys c) of
        (Inl e, s) \<Rightarrow> c\<lparr>cr_sys := s\<rparr>
      | (Inr (i, creating), s) \<Rightarrow> c\<lparr>cr_sys := s, cr_waiting := cr_waiting c @ [(v, i, creating)]\<rparr>)"
| "config_next c (Finish u now n) =
     (if n < length (cr_waiting c)
      then (case cr_waiting c ! n of
              (v, i, creating) \<Rightarrow>
                c\<lparr>cr_sys := snd (apply_update u now v i creating (cr_sys c)),
                  cr_waiting := take n (cr_waiting c) @ drop (Suc n) (cr_waiting c)\<rparr>)
      else c)"

text \<open>The row and the version an action's transaction commits on, if it commits.\<close>

fun config_commit :: "config_run \<Rightarrow> config_action \<Rightarrow> ((ConfigEditEntity \<times> string) \<times> int) option" where
  "config_commit c (Begin u now v) = None"
| "config_commit c (Finish u now n) =
     (if n < length (cr_waiting c)
      then (case cr_waiting c ! n of
              (v, i, creating) \<Rightarrow>
                (if is_ok (snd (update_tx now v creating (cr_sys c)))
                 then Some ((vu_entity v, vu_row v), vu_expected v) else None))
      else None)"

definition waiting_ok :: "config_run \<Rightarrow> bool" where
  "waiting_ok c \<longleftrightarrow> (\<forall>(v, i, creating)\<in>set (cr_waiting c). checked v creating) \<and>
     (\<forall>k n. version_of (cr_sys c) k = Some n \<longrightarrow> 0 \<le> n)"

lemma begin_update_tables: "begin_update u now v s = (r, s') \<Longrightarrow> cf_tables s' = cf_tables s"
  by (auto simp: begin_update_def split: sum.splits prod.splits)

lemma begin_update_checked: "begin_update u now v s = (Inr (i, creating), s') \<Longrightarrow> checked v creating"
  using check_update_checked by (auto simp: begin_update_def split: sum.splits prod.splits)

lemma fail_update_tables: "cf_tables (snd (fail_update u now i e p s)) = cf_tables s"
  by (auto simp: fail_update_def split: sum.splits prod.splits)

lemma apply_update_tables:
  "cf_tables (snd (apply_update u now v i creating s)) =
     (case snd (update_tx now v creating s) of Inl e \<Rightarrow> cf_tables s | Inr (r, s1) \<Rightarrow> cf_tables s1)"
  by (auto simp: apply_update_def fail_update_tables split: sum.splits prod.splits)

lemma commit_versions:
  assumes "checked v creating" and "snd (update_tx now v creating s) = Inr (r, s')"
  shows "(version_of s (vu_entity v, vu_row v) = Some (vu_expected v) \<or>
          (version_of s (vu_entity v, vu_row v) = None \<and> vu_expected v = 0)) \<and>
     version_of s' (vu_entity v, vu_row v) = Some (vu_expected v + 1) \<and>
     (\<forall>k. k \<noteq> (vu_entity v, vu_row v) \<longrightarrow> version_of s' k = version_of s k)"
proof -
  obtain key ver where kv: "version_columns (vu_entity v) = Some (key, ver)"
    using assms(1) by (auto simp: checked_def split: option.splits)
  note c = update_tx_commits[OF assms(1) kv assms(2)]
  have other: "version_of s' (e, i) = version_of s (e, i)" if "(e, i) \<noteq> (vu_entity v, vu_row v)" for e i
  proof (cases "e = vu_entity v")
    case True
    with that have "find_config (vu_entity v) key i s' = find_config (vu_entity v) key i s" using c by simp
    with True kv show ?thesis by (simp add: version_of_at)
  next
    case False
    with c show ?thesis by (intro version_of_other_table) simp
  qed
  have "version_of s' (vu_entity v, vu_row v) = Some (vu_expected v + 1)"
    using c by (simp add: version_of_at[OF kv])
  moreover have "version_of s (vu_entity v, vu_row v) = Some (vu_expected v) \<or>
          (version_of s (vu_entity v, vu_row v) = None \<and> vu_expected v = 0)"
    using c by (auto simp: version_of_at[OF kv])
  ultimately show ?thesis using other by auto
qed

lemma finish_version:
  assumes "waiting_ok c" and "n < length (cr_waiting c)" and "cr_waiting c ! n = (v, i, creating)"
  shows "version_of (cr_sys (config_next c (Finish u now n))) =
     (case snd (update_tx now v creating (cr_sys c)) of Inl e \<Rightarrow> version_of (cr_sys c) | Inr (r, s1) \<Rightarrow> version_of s1)"
proof -
  have e: "cr_sys (config_next c (Finish u now n)) = snd (apply_update u now v i creating (cr_sys c))"
    using assms(2,3) by simp
  show ?thesis
    unfolding e using apply_update_tables[of u now v i creating "cr_sys c"]
    by (auto split: sum.splits prod.splits intro!: version_of_tables)
qed

lemma waiting_checked:
  "waiting_ok c \<Longrightarrow> n < length (cr_waiting c) \<Longrightarrow> cr_waiting c ! n = (v, i, creating) \<Longrightarrow> checked v creating"
  unfolding waiting_ok_def by (metis (no_types, lifting) case_prod_conv nth_mem)

lemma config_step_cases:
  assumes "waiting_ok c"
  obtains (quiet) "version_of (cr_sys (config_next c a)) = version_of (cr_sys c)" "config_commit c a = None"
  | (moves) v creating now r s1 where "checked v creating"
      "snd (update_tx now v creating (cr_sys c)) = Inr (r, s1)"
      "version_of (cr_sys (config_next c a)) = version_of s1"
      "config_commit c a = Some ((vu_entity v, vu_row v), vu_expected v)"
proof (cases a)
  case (Begin u now v)
  have "cf_tables (cr_sys (config_next c a)) = cf_tables (cr_sys c)"
    using begin_update_tables[of u now v "cr_sys c"] Begin by (auto split: sum.splits prod.splits)
  from quiet[OF version_of_tables[OF this]] show thesis by (simp add: Begin)
next
  case (Finish u now n)
  show thesis
  proof (cases "n < length (cr_waiting c)")
    case False
    with Finish show thesis by (intro quiet) auto
  next
    case True
    obtain v i creating where w: "cr_waiting c ! n = (v, i, creating)" by (metis prod_cases3)
    note ver = finish_version[OF assms True w, of u now] and ck = waiting_checked[OF assms True w]
    show thesis
    proof (cases "snd (update_tx now v creating (cr_sys c))")
      case (Inl e)
      with Finish True w ver show thesis by (intro quiet) auto
    next
      case (Inr p)
      obtain r s1 where "p = (r, s1)" by (cases p)
      with Inr Finish True w ver ck show thesis by (intro moves[of v creating now r s1]) auto
    qed
  qed
qed

lemma config_next_ok:
  assumes "waiting_ok c"
  shows "waiting_ok (config_next c a)"
proof -
  have "\<forall>(v, i, creating)\<in>set (cr_waiting (config_next c a)). checked v creating"
  proof (cases a)
    case (Begin u now v)
    with assms begin_update_checked[of u now v "cr_sys c"] show ?thesis
      by (auto simp: waiting_ok_def split: sum.splits prod.splits)
  next
    case (Finish u now n)
    with assms show ?thesis
      by (auto simp: waiting_ok_def split: prod.splits dest: in_set_takeD in_set_dropD)
  qed
  moreover have "\<forall>k n. version_of (cr_sys (config_next c a)) k = Some n \<longrightarrow> 0 \<le> n"
  proof (rule config_step_cases[OF assms, of a])
    assume "version_of (cr_sys (config_next c a)) = version_of (cr_sys c)"
    with assms show ?thesis by (simp add: waiting_ok_def)
  next
    fix v creating now r s1
    assume *: "checked v creating" "snd (update_tx now v creating (cr_sys c)) = Inr (r, s1)"
      "version_of (cr_sys (config_next c a)) = version_of s1"
    note cv = commit_versions[OF *(1,2)]
    have "0 \<le> vu_expected v" using cv assms by (auto simp: waiting_ok_def)
    then show ?thesis using cv assms *(3)
      by (metis (no_types, lifting) add_nonneg_nonneg option.inject waiting_ok_def zero_le_one)
  qed
  ultimately show ?thesis by (simp add: waiting_ok_def)
qed

interpretation settings: versioned_store config_next config_commit "\<lambda>c. version_of (cr_sys c)" waiting_ok
proof
  fix c a
  assume "waiting_ok c"
  then show "waiting_ok (config_next c a)" by (rule config_next_ok)
next
  fix c a k v
  assume ok: "waiting_ok c" and com: "config_commit c a = Some (k, v)"
  from ok show "version_of (cr_sys c) k = Some v \<or> (version_of (cr_sys c) k = None \<and> v = 0)"
    by (rule config_step_cases[of _ a]) (use com commit_versions in auto)
next
  fix c a k v
  assume ok: "waiting_ok c" and com: "config_commit c a = Some (k, v)"
  from ok show "\<exists>n. version_of (cr_sys (config_next c a)) k = Some n \<and> v < n \<and> 0 < n"
  proof (rule config_step_cases[of _ a])
    fix w creating now r s1
    assume *: "checked w creating" "snd (update_tx now w creating (cr_sys c)) = Inr (r, s1)"
      "version_of (cr_sys (config_next c a)) = version_of s1"
      "config_commit c a = Some ((vu_entity w, vu_row w), vu_expected w)"
    note cv = commit_versions[OF *(1,2)]
    have "0 \<le> vu_expected w" using cv ok by (auto simp: waiting_ok_def)
    with cv com * show ?thesis by auto
  qed (use com in simp)
next
  fix c a k n
  assume ok: "waiting_ok c" and k: "version_of (cr_sys c) k = Some n"
  from ok show "\<exists>m. version_of (cr_sys (config_next c a)) k = Some m \<and> n \<le> m"
  proof (rule config_step_cases[of _ a])
    fix w creating now r s1
    assume *: "checked w creating" "snd (update_tx now w creating (cr_sys c)) = Inr (r, s1)"
      "version_of (cr_sys (config_next c a)) = version_of s1"
    note cv = commit_versions[OF *(1,2)]
    show ?thesis
    proof (cases "k = (vu_entity w, vu_row w)")
      case True
      with cv k show ?thesis by (auto simp: *(3))
    next
      case False
      then have "version_of s1 k = version_of (cr_sys c) k" using cv by blast
      with k show ?thesis by (simp add: *(3))
    qed
  qed (use k in simp)
qed

text \<open>The commits of a run of the service, in order.\<close>

fun config_commits :: "config_run \<Rightarrow> config_action list \<Rightarrow> ((ConfigEditEntity \<times> string) \<times> int) list" where
  "config_commits c [] = []"
| "config_commits c (a # as) =
     (case config_commit c a of None \<Rightarrow> [] | Some x \<Rightarrow> [x]) @ config_commits (config_next c a) as"

lemma config_commits_run: "config_commits c as = settings.commits c as"
  by (induction as arbitrary: c) auto

text \<open>
  C27: no edit is lost. However the requests of clients interleave, begun and finished in any
  order, two edits of one row that saw the same version are never both written.
\<close>
theorem no_lost_update:
  assumes "cr_waiting c = []" and "\<forall>k n. version_of (cr_sys c) k = Some n \<longrightarrow> 0 \<le> n"
  shows "distinct (config_commits c as)"
proof -
  have "waiting_ok c" using assms by (simp add: waiting_ok_def)
  then show ?thesis unfolding config_commits_run by (rule settings.no_two_commits_on_one_version)
qed

section \<open>One edit\<close>

text \<open>A database of the shape of the schema.\<close>

definition schema_ok :: "config_sys \<Rightarrow> bool" where
  "schema_ok s \<longleftrightarrow> (\<forall>e. \<forall>r\<in>set (cf_tables s e). map fst r = table_columns e)"

lemma written_field_given:
  assumes "distinct (map fst (vu_fields v))" and "(k, x) \<in> set (vu_fields v)" and "k \<in> fst ` set r"
  shows "col k (set_cols (written_fields now v r0) r) = x"
proof -
  have "k \<notin> fst ` set (drop (length (vu_fields v)) (written_fields now v r0))"
    using assms(2) by (auto simp: written_fields_def Let_def image_iff split: if_splits option.splits)
  moreover have "written_fields now v r0 = vu_fields v @ drop (length (vu_fields v)) (written_fields now v r0)"
    by (simp add: written_fields_def Let_def)
  ultimately show ?thesis
    using col_set_cols_given[OF assms] by (metis col_set_cols_other set_cols_append)
qed

lemma transition_completed:
  assumes "transition u now i OS_COMPLETED ti sys = Inr (op, sys')"
  shows "op_status op = OS_COMPLETED \<and> (\<forall>d. ti_data ti = Some d \<longrightarrow> op_data op = Some d) \<and> op_id op = i"
  using assms unfolding transition_def
  by (auto simp: Let_def result_simps transitioned_row_def dest!: find_op_SomeD split: option.splits if_splits)

lemma find_config_tables: "cf_tables s = cf_tables s' \<Longrightarrow> find_config e key i s = find_config e key i s'"
  by (simp add: find_config_def)

lemma fail_update_error: "fst (fail_update u now i e p s) = Inl e \<or> (\<exists>e'. fst (fail_update u now i e p s) = Inl (OpFailed e'))"
  by (auto simp: fail_update_def split: sum.splits prod.splits)

lemma fail_update_not_ok: "fail_update u now i e p s \<noteq> (Inr x, s')"
  using fail_update_error[of u now i e p s] by auto

text \<open>What a successful edit went through, and what a refused one left.\<close>

lemma edit_committed:
  assumes "update_versioned_with_operation u now v s = (Inr (r, op), s')"
  obtains creating s1 s2 payload where "checked v creating" "cf_tables s1 = cf_tables s"
    "update_tx now v creating s1 = (payload, Inr (r, s2))" "cf_tables s' = cf_tables s2"
    "op_status op = OS_COMPLETED" "op_data op = Some payload"
proof -
  obtain i creating s1 where b: "begin_update u now v s = (Inr (i, creating), s1)"
    and ap: "apply_update u now v i creating s1 = (Inr (r, op), s')"
    using assms by (auto simp: update_versioned_with_operation_def split: sum.splits prod.splits)
  obtain payload s2 where tx: "update_tx now v creating s1 = (payload, Inr (r, s2))"
    and tr: "\<exists>ops. transition (u 2) now i OS_COMPLETED
      \<lparr>ti_checkpoint = None, ti_error_code = None, ti_message = None, ti_data = Some payload\<rparr> (cf_ops s2) =
        Inr (op, ops) \<and> s' = s2\<lparr>cf_ops := ops\<rparr>"
    using ap by (auto simp: apply_update_def fail_update_not_ok split: sum.splits prod.splits)
  obtain ops where ops: "transition (u 2) now i OS_COMPLETED
      \<lparr>ti_checkpoint = None, ti_error_code = None, ti_message = None, ti_data = Some payload\<rparr> (cf_ops s2) =
        Inr (op, ops)" "s' = s2\<lparr>cf_ops := ops\<rparr>" using tr by blast
  show thesis
    using that[OF begin_update_checked[OF b] begin_update_tables[OF b] tx] ops transition_completed[OF ops(1)] by simp
qed

lemma edit_refused:
  assumes "update_versioned_with_operation u now v s = (Inl e, s')" and "\<And>e'. e \<noteq> OpFailed e'"
  shows "cf_tables s' = cf_tables s"
proof (cases "begin_update u now v s")
  case (Pair b s1)
  note t1 = begin_update_tables[OF Pair]
  show ?thesis
  proof (cases b)
    case (Inl x)
    with assms(1) Pair t1 show ?thesis by (simp add: update_versioned_with_operation_def)
  next
    case (Inr p)
    obtain i creating where p: "p = (i, creating)" by (cases p)
    have ap: "apply_update u now v i creating s1 = (Inl e, s')"
      using assms(1) Pair Inr p by (simp add: update_versioned_with_operation_def)
    obtain x where "snd (update_tx now v creating s1) = Inl x"
    proof (cases "snd (update_tx now v creating s1)")
      case (Inr q)
      obtain r s2 payload where tx: "update_tx now v creating s1 = (payload, Inr (r, s2))"
        using Inr by (cases q) (metis prod.collapse)
      obtain e' where "e = OpFailed e'"
        using ap fail_update_error[of "u 3" now i "OpFailed e''" payload s2 for e'']
        by (auto simp: apply_update_def tx split: sum.splits prod.splits) (metis Inl_inject fst_conv)
      with assms(2) show thesis by blast
    qed
    with ap t1 apply_update_tables[of u now v i creating s1] show ?thesis by simp
  qed
qed

lemma override_holds_fields:
  assumes "checked v True" and "version_columns (vu_entity v) = Some (key, ver)"
    and "distinct (map fst (vu_fields v))" and "(k, x) \<in> set (vu_fields v)" and "k \<notin> {''updated_at'', ''updated_by''}"
  shows "col k (new_override now v a) = x"
proof -
  have e: "vu_entity v = CE_WORLD_SETTINGS" using assms(1) by (simp add: checked_def)
  with assms(2) have kv: "key = ''world_id''" "ver = ''version''" by auto
  have "k \<in> fst ` set (vu_fields v)" using assms(4) by (force intro: image_eqI)
  with checked_fields[OF assms(1,2)] have "k \<in> set (table_columns (vu_entity v))" "k \<noteq> key" "k \<noteq> ver" by blast+
  then have k: "k \<in> set (table_columns CE_WORLD_SETTINGS)" "k \<noteq> ''world_id''" "k \<noteq> ''version''"
    unfolding e kv .
  show ?thesis
    using new_override_cols[OF assms(1) k(1)] assms(3,4,5) k(2,3) by (simp add: col_def)
qed

lemma row_holds_fields:
  assumes "checked v creating" and "version_columns (vu_entity v) = Some (key, ver)"
    and "distinct (map fst (vu_fields v))" and "(k, x) \<in> set (vu_fields v)"
    and "fst ` set r0 = set (table_columns (vu_entity v))"
  shows "col k (bump ver (set_cols (written_fields now v r0) r0)) = x"
proof -
  have "k \<in> fst ` set (vu_fields v)" using assms(4) by (force intro: image_eqI)
  then have "k \<in> fst ` set r0" "k \<noteq> ver" using checked_fields[OF assms(1,2)] by (auto simp: assms(5))
  then show ?thesis using written_field_given[OF assms(3,4), of r0] by (simp add: col_bump)
qed

lemma row_keeps_stamp:
  assumes "JStr ''updated_at'' \<notin> snd ` set r0" and "''updated_at'' \<notin> fst ` set (vu_fields v)"
    and "version_columns (vu_entity v) = Some (key, ver)"
  shows "col ''updated_at'' (bump ver (set_cols (written_fields now v r0) r0)) = col ''updated_at'' r0"
proof -
  have "''updated_at'' \<notin> fst ` set (written_fields now v r0)"
    using assms(1,2) by (auto simp: written_fields_def Let_def in_row_def split: if_splits option.splits)
  moreover have "''updated_at'' \<noteq> ver" using key_not_stamp[OF assms(3)] by auto
  ultimately show ?thesis by (simp add: col_bump col_set_cols_other)
qed

text \<open>
  An edit is a compare-and-swap. When it succeeds, the row was at the submitted version (or
  was an override that did not exist, submitted as version 0), it is now one version on and holds
  the submitted values, every other row and table is as it was, and the operation ended
  completed with the values before and after. When it fails before its operation is involved
  nothing of the tables has changed. The time of an update is not refreshed: a column
  \<open>updated_at\<close> that the request does not name keeps its old value, because the test for that
  column looks among the values of the row.
\<close>
lemma edit_is_compare_and_swap:
  assumes "update_versioned_with_operation u now v s = (res, s')" and "schema_ok s"
    and "distinct (map fst (vu_fields v))" and "version_columns (vu_entity v) = Some (key, ver)"
  shows "(case res of
     Inr (r, op) \<Rightarrow>
       find_config (vu_entity v) key (vu_row v) s' = Some r \<and> col ver r = JInt (vu_expected v + 1) \<and>
       (\<forall>(k, x)\<in>set (vu_fields v). k \<notin> {''updated_at'', ''updated_by''} \<longrightarrow> col k r = x) \<and>
       (\<forall>i. i \<noteq> vu_row v \<longrightarrow> find_config (vu_entity v) key i s' = find_config (vu_entity v) key i s) \<and>
       (\<forall>e. e \<noteq> vu_entity v \<longrightarrow> cf_tables s' e = cf_tables s e) \<and>
       op_status op = OS_COMPLETED \<and>
       (case find_config (vu_entity v) key (vu_row v) s of
          None \<Rightarrow> vu_entity v = CE_WORLD_SETTINGS \<and> vu_expected v = 0
        | Some r0 \<Rightarrow> col ver r0 = JInt (vu_expected v) \<and>
            op_data op = Some (edit_payload v (map (\<lambda>(k, x). (k, col k r0)) (vu_fields v)) (vu_fields v)) \<and>
            (JStr ''updated_at'' \<notin> snd ` set r0 \<and> ''updated_at'' \<notin> fst ` set (vu_fields v) \<longrightarrow>
               col ''updated_at'' r = col ''updated_at'' r0))
   | Inl (OpFailed e) \<Rightarrow> True
   | Inl e \<Rightarrow> cf_tables s' = cf_tables s)"
proof (cases res)
  case (Inl e)
  with assms(1) edit_refused[of u now v s e s'] show ?thesis by (cases e) auto
next
  case (Inr q)
  obtain r op where q: "q = (r, op)" by (cases q)
  obtain creating s1 s2 payload where ck: "checked v creating" and t1: "cf_tables s1 = cf_tables s"
    and tx: "update_tx now v creating s1 = (payload, Inr (r, s2))" and t2: "cf_tables s' = cf_tables s2"
    and op: "op_status op = OS_COMPLETED" "op_data op = Some payload"
    using edit_committed[OF assms(1)[unfolded Inr q]] .
  note com = update_tx_commits[OF ck assms(4), of now s1 r s2, unfolded tx snd_conv, OF refl,
      unfolded find_config_tables[OF t1] t1]
  have after: "find_config (vu_entity v) key (vu_row v) s' = Some r"
    "\<forall>i. i \<noteq> vu_row v \<longrightarrow> find_config (vu_entity v) key i s' = find_config (vu_entity v) key i s"
    "\<forall>e. e \<noteq> vu_entity v \<longrightarrow> cf_tables s' e = cf_tables s e"
    using com unfolding find_config_tables[OF t2] t2 by blast+
  show ?thesis
  proof (cases "find_config (vu_entity v) key (vu_row v) s")
    case None
    then obtain a where a: "creating" "vu_expected v = 0" "r = new_override now v a" using com by auto
    have "\<forall>(k, x)\<in>set (vu_fields v). k \<notin> {''updated_at'', ''updated_by''} \<longrightarrow> col k r = x"
      using override_holds_fields[OF _ assms(4,3)] ck a(1) unfolding a(3) by auto
    moreover have "vu_entity v = CE_WORLD_SETTINGS" using ck a(1) by (simp add: checked_def)
    ultimately show ?thesis using com after op a(2) unfolding Inr q sum.case None option.case prod.case by blast
  next
    case (Some r0)
    then have r0: "col ver r0 = JInt (vu_expected v)" "r = bump ver (set_cols (written_fields now v r0) r0)"
      using com by auto
    have pay: "payload = edit_payload v (map (\<lambda>(k, x). (k, col k r0)) (vu_fields v)) (vu_fields v)"
      using tx Some r0(1) by (simp add: update_tx_def assms(4) find_config_tables[OF t1] Let_def split: option.splits)
    have cols: "fst ` set r0 = set (table_columns (vu_entity v))"
      using assms(2) Some unfolding schema_ok_def find_config_def by (metis find_row_SomeD list.set_map)
    have "\<forall>(k, x)\<in>set (vu_fields v). k \<notin> {''updated_at'', ''updated_by''} \<longrightarrow> col k r = x"
      using row_holds_fields[OF ck assms(4,3) _ cols] by (auto simp: r0(2))
    moreover have "JStr ''updated_at'' \<notin> snd ` set r0 \<and> ''updated_at'' \<notin> fst ` set (vu_fields v) \<longrightarrow>
       col ''updated_at'' r = col ''updated_at'' r0"
      using row_keeps_stamp[OF _ _ assms(4)] by (simp add: r0(2))
    ultimately show ?thesis
      using com after op pay r0(1) unfolding Inr q sum.case Some option.case prod.case by blast
  qed
qed

section \<open>Effective settings\<close>

lemma map_of_apply_overrides_other:
  "k \<notin> fst ` set os \<Longrightarrow> map_of (apply_overrides os w eff) k = map_of eff k"
  by (induction os w eff rule: apply_overrides.induct) (auto simp: map_of_dict_set)

lemma apply_overrides_lookup:
  assumes "distinct (map fst os)"
  shows "map_of (apply_overrides os w eff) k =
     (case map_of os k of
        None \<Rightarrow> map_of eff k
      | Some o' \<Rightarrow> if col o' w = JNull then map_of eff k else Some (col o' w))"
  using assms
proof (induction os w eff rule: apply_overrides.induct)
  case (2 k' o' os w eff)
  show ?case
  proof (cases "k = k'")
    case True
    with 2(2) have "k \<notin> fst ` set os" by simp
    with True show ?thesis by (simp add: map_of_apply_overrides_other map_of_dict_set)
  next
    case False
    with 2(1)[OF _] 2(2) show ?thesis by (simp add: map_of_dict_set split: option.split)
  qed
qed simp

text \<open>
  The effective value of a setting is the world's override when the world has a row whose
  override is set, and the global value otherwise; the two settings without an override are
  always global.
\<close>
lemma effective_settings_inherit:
  assumes "resolve_effective w s = Inr eff" and "resolve_global s = Inr g" and "k \<in> set effective_keys"
  shows "jget k eff = Some (case (map_of overrides k, resolve_world w s) of
     (Some o', Some ws) \<Rightarrow> if col o' ws = JNull then col k g else col o' ws
   | _ \<Rightarrow> col k g)"
proof -
  have base: "map_of (map (\<lambda>k. (k, col k g)) ks) k = Some (col k g)" if "k \<in> set ks" for ks
    using that by (induction ks) auto
  have d: "distinct (map fst overrides)" by code_simp
  show ?thesis
    using assms(1,2) base[OF assms(3)]
    by (auto simp: resolve_effective_def jget_def apply_overrides_lookup[OF d] Let_def split: option.splits)
qed

section \<open>Samples\<close>

definition sample_globals :: row where
  "sample_globals = map (\<lambda>c. (c, if c = ''settings_id'' then JStr ''g''
     else if c = ''version'' then JInt 3 else if c = ''updated_at'' then JInt 5
     else if c = ''idle_countdown_seconds'' then JInt 60 else JNull)) (table_columns CE_GLOBAL_SETTINGS)"

definition sample_override :: row where
  "sample_override = map (\<lambda>c. (c, if c = ''world_id'' then JStr ''w1''
     else if c = ''version'' then JInt 1 else if c = ''idle_countdown_override'' then JInt 30 else JNull))
     (table_columns CE_WORLD_SETTINGS)"

definition sample_config :: config_sys where
  "sample_config = \<lparr>cf_ops = sample_sys [], cf_tables = (\<lambda>_. [])
     (CE_GLOBAL_SETTINGS := [sample_globals], CE_WORLD_SETTINGS := [sample_override])\<rparr>"

definition sample_update :: VersionedUpdate where
  "sample_update = \<lparr>vu_entity = CE_GLOBAL_SETTINGS, vu_row = ''g'', vu_expected = 3,
     vu_fields = [(''idle_countdown_seconds'', JInt 90)], vu_actor_type = ACTOR_SYSTEM, vu_actor = None\<rparr>"

definition sample_ids :: "nat \<Rightarrow> nat \<Rightarrow> string" where
  "sample_ids n m = replicate (n + 1) (CHR ''u'') @ replicate m (CHR ''v'')"

lemma sample_schema: "schema_ok sample_config"
  by (auto simp: schema_ok_def sample_config_def sample_globals_def sample_override_def comp_def split: if_splits)

lemma sample_rows:
  "find_config e key i sample_config = Some r \<Longrightarrow>
     (e = CE_GLOBAL_SETTINGS \<and> r = sample_globals) \<or> (e = CE_WORLD_SETTINGS \<and> r = sample_override)"
  by (auto simp: find_config_def sample_config_def split: if_splits)

lemma sample_versions: "version_of sample_config k = Some n \<Longrightarrow> 0 \<le> n"
proof (cases k)
  case (Pair e i)
  assume v: "version_of sample_config k = Some n"
  then obtain key ver r where kv: "version_columns e = Some (key, ver)" "find_config e key i sample_config = Some r"
    "col ver r = JInt n"
    by (auto simp: Pair version_of.simps split: option.splits json.splits)
  have "col ''version'' sample_globals = JInt 3" "col ''version'' sample_override = JInt 1" by code_simp+
  with sample_rows[OF kv(2)] kv(1,3) show ?thesis by auto
qed

definition sample_race :: "config_action list" where
  "sample_race = [Begin sample_ids 9 sample_update, Begin (\<lambda>n. sample_ids (n + 7)) 9 sample_update,
     Finish sample_ids 10 1, Finish (\<lambda>n. sample_ids (n + 7)) 10 0]"

theorem no_lost_update_witness:
  "distinct (config_commits \<lparr>cr_sys = sample_config, cr_waiting = []\<rparr> sample_race) \<and>
   length (config_commits \<lparr>cr_sys = sample_config, cr_waiting = []\<rparr> sample_race) = 1"
proof
  show "distinct (config_commits \<lparr>cr_sys = sample_config, cr_waiting = []\<rparr> sample_race)"
    by (rule no_lost_update) (simp_all add: sample_versions)
  show "length (config_commits \<lparr>cr_sys = sample_config, cr_waiting = []\<rparr> sample_race) = 1"
    by code_simp
qed

lemma edit_is_compare_and_swap_witness:
  "\<exists>r op s'. update_versioned_with_operation sample_ids 9 sample_update sample_config = (Inr (r, op), s') \<and>
     find_config CE_GLOBAL_SETTINGS ''settings_id'' ''g'' s' = Some r \<and> col ''version'' r = JInt 4 \<and>
     col ''idle_countdown_seconds'' r = JInt 90 \<and> col ''updated_at'' r = JInt 5"
proof -
  have "is_ok (fst (update_versioned_with_operation sample_ids 9 sample_update sample_config))" by code_simp
  then obtain r op s' where run: "update_versioned_with_operation sample_ids 9 sample_update sample_config =
      (Inr (r, op), s')"
    by (cases "update_versioned_with_operation sample_ids 9 sample_update sample_config") (auto simp: is_ok_iff)
  have u: "vu_entity sample_update = CE_GLOBAL_SETTINGS" "vu_row sample_update = ''g''" "vu_expected sample_update = 3"
    "vu_fields sample_update = [(''idle_countdown_seconds'', JInt 90)]"
    by (simp_all add: sample_update_def)
  have g: "find_config CE_GLOBAL_SETTINGS ''settings_id'' ''g'' sample_config = Some sample_globals"
    "JStr ''updated_at'' \<notin> snd ` set sample_globals" "col ''updated_at'' sample_globals = JInt 5"
    by code_simp+
  have v: "version_columns (vu_entity sample_update) = Some (''settings_id'', ''version'')" by (simp add: u)
  have d: "distinct (map fst (vu_fields sample_update))" by (simp add: u)
  from edit_is_compare_and_swap[OF run sample_schema d v] show ?thesis
    using run g by (simp add: u)
qed

lemma effective_settings_inherit_witness:
  "\<exists>eff. resolve_effective ''w1'' sample_config = Inr eff \<and>
     jget ''idle_countdown_seconds'' eff = Some (JInt 30) \<and> jget ''timezone'' eff = Some JNull"
proof -
  have "is_ok (resolve_effective ''w1'' sample_config)" by code_simp
  then obtain eff where run: "resolve_effective ''w1'' sample_config = Inr eff" by (auto simp: is_ok_iff)
  have g: "resolve_global sample_config = Inr sample_globals" by code_simp
  have w: "resolve_world ''w1'' sample_config = Some sample_override" by code_simp
  have "jget ''idle_countdown_seconds'' eff = Some (JInt 30)"
    using effective_settings_inherit[OF run g, of "''idle_countdown_seconds''"]
    by (simp add: effective_keys_def overrides_def w) (code_simp)
  moreover have "jget ''timezone'' eff = Some JNull"
    using effective_settings_inherit[OF run g, of "''timezone''"]
    by (simp add: effective_keys_def overrides_def w) (code_simp)
  ultimately show ?thesis using run by blast
qed

end
