(* ===== verification/Minecraft.thy ===== *)
theory Minecraft
  imports Domain_Values Text_Tools
begin

text \<open>
  The Minecraft port and its adapter (\<open>app/ports/minecraft.py\<close>,
  \<open>app/infrastructure/minecraft\<close>): versions, capabilities, the EULA file, the readiness
  ladder, the schema of \<open>server.properties\<close>, Java compatibility and the gate before a launch.
  The file system is a map from paths to texts; connecting to a port, pinging it and running a
  program are parameters.
\<close>

section \<open>Versions\<close>

fun version_parts :: "string list \<Rightarrow> int list" where
  "version_parts [] = []"
| "version_parts (raw # rest) =
     (let digits = takeWhile is_digit raw in
      if digits = [] then [] else digits_value digits # version_parts rest)"

definition version_tuple :: "string \<Rightarrow> int list" where
  "version_tuple v = version_parts (split_on (CHR ''.'') v)"

text \<open>Tuples compare lexicographically, a proper prefix being smaller.\<close>

fun tuple_lt :: "int list \<Rightarrow> int list \<Rightarrow> bool" where
  "tuple_lt xs [] = False"
| "tuple_lt [] (y # ys) = True"
| "tuple_lt (x # xs) (y # ys) = (x < y \<or> (x = y \<and> tuple_lt xs ys))"

definition version_lt :: "string \<Rightarrow> string \<Rightarrow> bool" where
  "version_lt a b = tuple_lt (version_tuple a) (version_tuple b)"

definition version_gt :: "string \<Rightarrow> string \<Rightarrow> bool" where
  "version_gt a b = tuple_lt (version_tuple b) (version_tuple a)"

section \<open>Capabilities\<close>

datatype save_channel = SAVE_RCON | SAVE_PAPER_API

record MinecraftCapabilities =
  cap_rcon :: bool
  cap_protocol_ping :: bool
  cap_paper_api :: bool
  cap_save :: "save_channel option"
  cap_tps :: bool

fun capabilities_for :: "ServerType \<Rightarrow> MinecraftCapabilities" where
  "capabilities_for PAPER = \<lparr>cap_rcon = True, cap_protocol_ping = True, cap_paper_api = True,
     cap_save = Some SAVE_PAPER_API, cap_tps = True\<rparr>"
| "capabilities_for _ = \<lparr>cap_rcon = True, cap_protocol_ping = True, cap_paper_api = False,
     cap_save = Some SAVE_RCON, cap_tps = False\<rparr>"

section \<open>EULA\<close>

type_synonym files = "string \<Rightarrow> string option"

fun eula_of_lines :: "string list \<Rightarrow> EulaState" where
  "eula_of_lines [] = UNACCEPTED"
| "eula_of_lines (l # ls) =
     (let stripped = strip l in
      if starts_with ''#'' stripped then eula_of_lines ls
      else case split_once (CHR ''='') stripped of
        None \<Rightarrow> eula_of_lines ls
      | Some (k, v) \<Rightarrow>
          (if lower (strip k) = ''eula''
           then (if lower (strip v) = ''true'' then ACCEPTED else UNACCEPTED)
           else eula_of_lines ls))"

definition detect_eula :: "files \<Rightarrow> string \<Rightarrow> EulaState" where
  "detect_eula fs dir =
     (case fs (path_join dir ''eula.txt'') of
        None \<Rightarrow> NOT_PRESENT
      | Some text \<Rightarrow> eula_of_lines (splitlines (universal_newlines text)))"

definition eula_notice :: "string list" where
  "eula_notice = [''# By changing the setting below to TRUE you are indicating your agreement to our EULA.'',
     ''# https://aka.ms/MinecraftEULA'']"

definition file_text :: "string list \<Rightarrow> string" where
  "file_text ls = concat (map (\<lambda>l. l @ [CHR 0x0A]) ls)"

definition acceptance_text :: "string option \<Rightarrow> string" where
  "acceptance_text operator = file_text (eula_notice @
     (case operator of
        None \<Rightarrow> []
      | Some i \<Rightarrow> if i = [] then [] else
          [''# Explicitly accepted via mcmanager audit pipeline'', ''# Accepted by Operator: '' @ i]) @
     [''eula=true''])"

definition write_eula_acceptance :: "string \<Rightarrow> string option \<Rightarrow> files \<Rightarrow> files" where
  "write_eula_acceptance dir operator fs = fs(path_join dir ''eula.txt'' \<mapsto> acceptance_text operator)"

definition provision_eula_file :: "string \<Rightarrow> files \<Rightarrow> files" where
  "provision_eula_file dir fs =
     (case fs (path_join dir ''eula.txt'') of
        Some _ \<Rightarrow> fs
      | None \<Rightarrow> fs(path_join dir ''eula.txt'' \<mapsto> file_text (eula_notice @ [''eula=false''])))"

definition current_state :: "files \<Rightarrow> string \<Rightarrow> EulaState" where
  "current_state fs dir = (if dir = [] then NOT_PRESENT else detect_eula fs dir)"

section \<open>Readiness\<close>

record ReadinessState =
  rd_process_alive :: bool
  rd_port_bound :: bool
  rd_rcon_ready :: bool
  rd_probe_ok :: bool
  rd_operationally_valid :: bool

fun signal :: "ReadinessState \<Rightarrow> ServerReadinessLevel \<Rightarrow> bool" where
  "signal s PROCESS_ALIVE = rd_process_alive s"
| "signal s PORT_BOUND = rd_port_bound s"
| "signal s RCON_READY = rd_rcon_ready s"
| "signal s PROBE_OK = rd_probe_ok s"
| "signal s OPERATIONALLY_VALID = rd_operationally_valid s"

definition ladder :: "ServerReadinessLevel list" where
  "ladder = [PROCESS_ALIVE, PORT_BOUND, RCON_READY, PROBE_OK, OPERATIONALLY_VALID]"

fun climb :: "ReadinessState \<Rightarrow> ServerReadinessLevel \<Rightarrow> ServerReadinessLevel \<Rightarrow> ServerReadinessLevel list
    \<Rightarrow> ServerReadinessLevel" where
  "climb s target highest [] = highest"
| "climb s target highest (l # ls) =
     (if readiness_rank target < readiness_rank l then highest
      else if \<not> signal s l then highest
      else climb s target l ls)"

definition evaluate_readiness :: "ReadinessState \<Rightarrow> ServerReadinessLevel \<Rightarrow> ServerReadinessLevel" where
  "evaluate_readiness s target = climb s target PROCESS_ALIVE ladder"

fun target_level_for :: "ServerType \<Rightarrow> ServerReadinessLevel" where
  "target_level_for PAPER = OPERATIONALLY_VALID"
| "target_level_for _ = PROBE_OK"

definition evaluate :: "ServerType \<Rightarrow> MinecraftCapabilities \<Rightarrow> ReadinessState \<Rightarrow> bool \<Rightarrow> ServerReadinessLevel" where
  "evaluate ty caps s rcon_enabled =
     (let target = target_level_for ty;
          applicable = cap_rcon caps \<and> rcon_enabled;
          s1 = (if applicable then s else s\<lparr>rd_rcon_ready := True\<rparr>);
          target1 = (if \<not> applicable \<and> target = OPERATIONALLY_VALID then PROBE_OK else target);
          target2 = (if target1 = OPERATIONALLY_VALID \<and> \<not> cap_paper_api caps then PROBE_OK else target1) in
      evaluate_readiness s1 target2)"

text \<open>\<open>bound\<close> and \<open>pings\<close> are the outcomes of the connection and of the ping to the port.\<close>

record live_signals =
  ls_bound :: bool
  ls_pings :: bool

definition port_is_bound :: "live_signals \<Rightarrow> int \<Rightarrow> bool" where
  "port_is_bound net port = (if port \<le> 0 then False else ls_bound net)"

definition ping_protocol :: "live_signals \<Rightarrow> int \<Rightarrow> bool" where
  "ping_protocol net port = (if port \<le> 0 then False else ls_pings net)"

definition build_state :: "live_signals \<Rightarrow> bool \<Rightarrow> int \<Rightarrow> bool \<Rightarrow> bool \<Rightarrow> bool \<Rightarrow> bool \<Rightarrow> ReadinessState" where
  "build_state net alive port rcon_ready probe_ok operational is_minecraft =
     (let bound = port_is_bound net port;
          live_probe = (bound \<and> alive \<and> is_minecraft \<and> ping_protocol net port);
          effective_probe = ((alive \<and> bound \<and> is_minecraft \<and> probe_ok) \<or> live_probe);
          effective_rcon = (rcon_ready \<and> bound \<and> alive);
          effective_operational = (operational \<and> alive \<and> bound \<and> rcon_ready \<and> effective_probe) in
      \<lparr>rd_process_alive = alive, rd_port_bound = bound, rd_rcon_ready = effective_rcon,
       rd_probe_ok = effective_probe, rd_operationally_valid = effective_operational\<rparr>)"

section \<open>The schema of server.properties\<close>

datatype value_type = VT_INT | VT_STR | VT_BOOL | VT_ENUM "string list"

record PropertySpec =
  ps_type :: value_type
  ps_min :: string
  ps_max :: "string option"
  ps_deprecated :: "string option"
  ps_replaced_by :: "string option"

definition spec :: "value_type \<Rightarrow> PropertySpec" where
  "spec t = \<lparr>ps_type = t, ps_min = ''1.0'', ps_max = None, ps_deprecated = None, ps_replaced_by = None\<rparr>"

definition difficulty_values :: "string list" where
  "difficulty_values = [''peaceful'', ''easy'', ''normal'', ''hard'']"

definition gamemode_values :: "string list" where
  "gamemode_values = [''survival'', ''creative'', ''adventure'', ''spectator'']"

definition default_property_specs :: "(string \<times> PropertySpec) list" where
  "default_property_specs =
     [(''server-port'', spec VT_INT), (''server-ip'', spec VT_STR), (''online-mode'', spec VT_BOOL),
      (''motd'', spec VT_STR), (''level-name'', spec VT_STR), (''level-seed'', spec VT_STR),
      (''enable-rcon'', spec VT_BOOL), (''rcon.port'', spec VT_INT), (''rcon.password'', spec VT_STR),
      (''enable-query'', spec VT_BOOL), (''query.port'', spec VT_INT),
      (''difficulty'', spec (VT_ENUM difficulty_values)), (''gamemode'', spec (VT_ENUM gamemode_values)),
      (''spawn-protection'', spec VT_INT), (''max-players'', spec VT_INT), (''view-distance'', spec VT_INT),
      (''white-list'', spec VT_BOOL), (''enforce-whitelist'', spec VT_BOOL)]"

definition VERSIONED_SPECS :: "(string \<times> PropertySpec) list" where
  "VERSIONED_SPECS =
     [(''max-players'', spec VT_INT), (''view-distance'', spec VT_INT), (''spawn-protection'', spec VT_INT),
      (''white-list'', spec VT_BOOL), (''enforce-whitelist'', spec VT_BOOL),
      (''difficulty'', spec (VT_ENUM difficulty_values)), (''gamemode'', spec (VT_ENUM gamemode_values)),
      (''generator-settings'', (spec VT_STR)\<lparr>ps_max := Some ''1.12'', ps_deprecated := Some ''1.7'',
         ps_replaced_by := Some ''level-seed''\<rparr>)]"

definition merged_specs :: "string \<Rightarrow> PropertySpec option" where
  "merged_specs = map_of default_property_specs ++ map_of VERSIONED_SPECS"

text \<open>\<open>isinstance(value, int)\<close> holds of a bool too.\<close>

fun value_fits :: "value_type \<Rightarrow> json \<Rightarrow> bool" where
  "value_fits VT_INT v = (case v of JInt _ \<Rightarrow> True | JBool _ \<Rightarrow> True | _ \<Rightarrow> False)"
| "value_fits VT_BOOL v = (case v of JBool _ \<Rightarrow> True | _ \<Rightarrow> False)"
| "value_fits (VT_ENUM xs) v = (case v of JStr s \<Rightarrow> s \<in> set xs | _ \<Rightarrow> False)"
| "value_fits VT_STR v = (case v of JStr _ \<Rightarrow> True | _ \<Rightarrow> False)"

definition validate_property_schema ::
  "(string \<Rightarrow> PropertySpec option) \<Rightarrow> string \<Rightarrow> string \<Rightarrow> json \<Rightarrow> bool \<times> string option" where
  "validate_property_schema specs version key v =
     (case specs key of
        None \<Rightarrow> (False, Some ''CONFIG_INVALID_KEY'')
      | Some sp \<Rightarrow>
          (if version_lt version (ps_min sp) then (False, Some ''CONFIG_INVALID_KEY'')
           else if (case ps_max sp of None \<Rightarrow> False
                    | Some m \<Rightarrow> ps_deprecated sp = None \<and> version_gt version m)
           then (False, Some ''CONFIG_INVALID_KEY'')
           else if \<not> value_fits (ps_type sp) v then (False, Some ''CONFIG_INVALID_VALUE'')
           else (True, None)))"

record PropertyValidation =
  pv_valid :: bool
  pv_errors :: "string list"
  pv_hints :: "string list"

definition deprecation_hint :: "string \<Rightarrow> string \<Rightarrow> PropertySpec \<Rightarrow> string option" where
  "deprecation_hint version key sp =
     (case ps_deprecated sp of
        None \<Rightarrow> None
      | Some d \<Rightarrow>
          (if version_lt version d then None
           else Some (key @ '': deprecated in '' @ d @
             (case ps_replaced_by sp of None \<Rightarrow> []
              | Some r \<Rightarrow> if r = [] then [] else '' (replaced by '' @ r @ '')''))))"

fun validate_loop ::
  "string \<Rightarrow> (string \<times> json) list \<Rightarrow> string list \<times> string list \<Rightarrow> string list \<times> string list" where
  "validate_loop version [] acc = acc"
| "validate_loop version ((k, v) # ps) (errors, hints) =
     (case validate_property_schema merged_specs version k v of
        (False, e) \<Rightarrow> validate_loop version ps
          (errors @ [k @ '': '' @ (case e of None \<Rightarrow> ''None'' | Some c \<Rightarrow> c)], hints)
      | (True, _) \<Rightarrow>
          (case merged_specs k of
             None \<Rightarrow> validate_loop version ps (errors, hints)
           | Some sp \<Rightarrow>
               (case deprecation_hint version k sp of
                  None \<Rightarrow> validate_loop version ps (errors, hints)
                | Some h \<Rightarrow> validate_loop version ps (errors, hints @ [h]))))"

definition validate_properties :: "(string \<times> json) list \<Rightarrow> string \<Rightarrow> PropertyValidation" where
  "validate_properties ps version =
     (case validate_loop version ps ([], []) of
        (errors, hints) \<Rightarrow> \<lparr>pv_valid = (errors = []), pv_errors = errors, pv_hints = hints\<rparr>)"

definition is_valid_value :: "string \<Rightarrow> json \<Rightarrow> string \<Rightarrow> bool" where
  "is_valid_value key v version = fst (validate_property_schema merged_specs version key v)"

section \<open>Java\<close>

record JavaCompatibility =
  jc_supported :: "int list"
  jc_recommended :: int
  jc_minimum :: int

definition java_20 :: JavaCompatibility where
  "java_20 = \<lparr>jc_supported = [17, 21], jc_recommended = 21, jc_minimum = 17\<rparr>"

definition java_21 :: JavaCompatibility where
  "java_21 = \<lparr>jc_supported = [21], jc_recommended = 21, jc_minimum = 21\<rparr>"

definition JAVA_COMPATIBILITY :: "((ServerType \<times> string) \<times> JavaCompatibility) list" where
  "JAVA_COMPATIBILITY =
     [((VANILLA, ''1.20''), java_20), ((VANILLA, ''1.21''), java_21),
      ((PAPER, ''1.20''), java_20), ((PAPER, ''1.21''), java_21),
      ((FABRIC, ''1.20''), java_20), ((FABRIC, ''1.21''), java_21),
      ((FORGE, ''1.20''), java_20), ((FORGE, ''1.21''), java_21)]"

definition java_compatibility_for :: "ServerType \<Rightarrow> string \<Rightarrow> JavaCompatibility option" where
  "java_compatibility_for ty version =
     map_option snd (find_row (\<lambda>((t, v), r). t = ty \<and> starts_with v version) JAVA_COMPATIBILITY)"

definition java_major_compatible :: "ServerType \<Rightarrow> string \<Rightarrow> int \<Rightarrow> bool" where
  "java_major_compatible ty version major =
     (case java_compatibility_for ty version of None \<Rightarrow> False | Some r \<Rightarrow> major \<in> set (jc_supported r))"

text \<open>The first match of \<open>version "..."\<close> with a nonempty version in the output.\<close>

definition version_mark :: string where
  "version_mark = ''version '' @ [CHR 0x22]"

fun search_version :: "string \<Rightarrow> string option" where
  "search_version [] = None"
| "search_version (c # s) =
     (if starts_with version_mark (c # s) then
        (let rest = drop (length version_mark) (c # s);
             v = takeWhile (\<lambda>x. x \<noteq> CHR 0x22) rest in
         if v \<noteq> [] \<and> length v < length rest then Some v else search_version s)
      else search_version s)"

text \<open>The pattern \<open>(1\\.)?(\\d+)\<close> at the start of a text that starts with \<open>1.\<close>: the digits after
  the prefix or, with none there, the digit 1 itself.\<close>

definition parse_java_major :: "string \<Rightarrow> int" where
  "parse_java_major raw =
     (if starts_with ''1.'' raw then
        (let ds = takeWhile is_digit (drop 2 raw) in if ds = [] then 1 else digits_value ds)
      else
        (let first = hd (split_on (CHR ''.'') raw) in
         if first \<noteq> [] \<and> list_all is_digit first then digits_value first else 0))"

text \<open>\<open>run\<close> gives the output of \<open>path -version\<close>, \<open>None\<close> when it cannot be run in time.\<close>

definition detect_java :: "(string \<Rightarrow> string option) \<Rightarrow> string \<Rightarrow> int option" where
  "detect_java run path =
     (case run path of None \<Rightarrow> None | Some out \<Rightarrow> map_option parse_java_major (search_version out))"

definition recommended_java :: "ServerType \<Rightarrow> string \<Rightarrow> int option" where
  "recommended_java ty version = map_option jc_recommended (java_compatibility_for ty version)"

section \<open>The gate before a launch\<close>

fun server_type_value :: "ServerType \<Rightarrow> string" where
  "server_type_value VANILLA = ''vanilla''"
| "server_type_value PAPER = ''paper''"
| "server_type_value FABRIC = ''fabric''"
| "server_type_value FORGE = ''forge''"

record LaunchContext =
  lx_world :: string
  lx_type :: ServerType
  lx_version :: string
  lx_dir :: string
  lx_java_path :: string
  lx_jar :: string
  lx_port :: int
  lx_rcon_enabled :: bool
  lx_rcon_port :: int
  lx_launch_args :: "string list"

record GateResult =
  gr_passed :: bool
  gr_code :: "string option"
  gr_detail :: "string option"
  gr_eula :: "EulaState option"
  gr_java :: "int option"

record launch_env =
  le_files :: files
  le_isdir :: "string \<Rightarrow> bool"
  le_bound :: "int \<Rightarrow> bool"
  le_run :: "string \<Rightarrow> string option"

definition gate_fail :: "string \<Rightarrow> string \<Rightarrow> GateResult" where
  "gate_fail code detail = \<lparr>gr_passed = False, gr_code = Some code, gr_detail = Some detail,
     gr_eula = None, gr_java = None\<rparr>"

definition gate_pass :: "int option \<Rightarrow> GateResult" where
  "gate_pass java = \<lparr>gr_passed = True, gr_code = None, gr_detail = None, gr_eula = None, gr_java = java\<rparr>"

definition port_conflict :: "launch_env \<Rightarrow> int \<Rightarrow> bool" where
  "port_conflict env port = (if port \<le> 0 then False else le_bound env port)"

definition java_gate :: "launch_env \<Rightarrow> LaunchContext \<Rightarrow> GateResult" where
  "java_gate env x =
     (if lx_jar x = [] then gate_pass None
      else case detect_java (le_run env) (lx_java_path x) of
        None \<Rightarrow> gate_fail ''JAVA_INCOMPATIBLE'' (''java not runnable at '' @ lx_java_path x)
      | Some major \<Rightarrow>
          (if major \<le> 0 then gate_fail ''JAVA_INCOMPATIBLE'' (''java not runnable at '' @ lx_java_path x)
           else if \<not> java_major_compatible (lx_type x) (lx_version x) major
           then (gate_fail ''JAVA_INCOMPATIBLE'' (''java '' @ int_dec major @ '' incompatible with '' @
                   server_type_value (lx_type x) @ '' '' @ lx_version x))\<lparr>gr_java := Some major\<rparr>
           else gate_pass (Some major)))"

definition validate_launch :: "launch_env \<Rightarrow> LaunchContext \<Rightarrow> GateResult" where
  "validate_launch env x =
     (if \<not> le_isdir env (lx_dir x) then gate_fail ''WORLD_DIR_MISSING'' (''world dir missing: '' @ lx_dir x)
      else
        (let eula = current_state (le_files env) (lx_dir x) in
         if eula \<noteq> ACCEPTED
         then (gate_fail ''EULA_NOT_ACCEPTED'' ''eula.txt not accepted'')\<lparr>gr_eula := Some eula\<rparr>
         else if lx_jar x \<noteq> [] \<and> le_files env (lx_jar x) = None
         then gate_fail ''JAR_MISSING'' (''jar not found: '' @ lx_jar x)
         else if lx_jar x = [] \<and> lx_launch_args x = []
         then gate_fail ''JAR_MISSING'' (''jar not found: '' @ lx_jar x)
         else if port_conflict env (lx_port x)
         then gate_fail ''WORLD_PORT_CONFLICT'' (''port '' @ int_dec (lx_port x) @ '' already bound'')
         else if lx_rcon_enabled x \<and> port_conflict env (lx_rcon_port x)
         then gate_fail ''WORLD_PORT_CONFLICT'' (''rcon port '' @ int_dec (lx_rcon_port x) @ '' already bound'')
         else java_gate env x))"

definition build_launch_argv :: "string \<Rightarrow> string list \<Rightarrow> string \<Rightarrow> string list \<Rightarrow> string list" where
  "build_launch_argv java java_args jar jar_args = [java] @ java_args @ [''-jar'', jar] @ jar_args"

section \<open>The EULA is accepted by acceptance only\<close>

lemma starts_with_append: "starts_with p (p @ s)"
  by (induction p) auto

lemma strip_comment: "starts_with ''#'' l \<Longrightarrow> starts_with ''#'' (strip l)"
proof -
  assume "starts_with ''#'' l"
  then obtain t where l: "l = CHR ''#'' # t" by (cases l) auto
  have "dropWhile is_blank l = l" by (simp add: l is_blank_def)
  moreover have "\<exists>r. rev (dropWhile is_blank (rev (CHR ''#'' # t))) = CHR ''#'' # r"
  proof -
    have "dropWhile is_blank (rev t @ [CHR ''#'']) = dropWhile is_blank (rev t) @ [CHR ''#'']"
      by (induction "rev t" arbitrary: t) (auto simp: is_blank_def dropWhile_append)
    then show ?thesis by simp
  qed
  ultimately show ?thesis by (auto simp: strip_def l)
qed

lemma eula_comments_skip:
  "list_all (starts_with ''#'') cs \<Longrightarrow> eula_of_lines (cs @ ls) = eula_of_lines ls"
  by (induction cs) (auto simp: strip_comment)

lemma splitlines_file_text:
  "list_all (\<lambda>l. \<forall>c\<in>set l. \<not> line_break c) ls \<Longrightarrow> splitlines (file_text ls) = ls"
  by (induction ls) (auto simp: file_text_def splitlines_line[where b = "CHR 0x0A"] line_break_def)

lemma universal_newlines_file_text:
  assumes "list_all (\<lambda>l. \<forall>c\<in>set l. \<not> line_break c) ls"
  shows "universal_newlines (file_text ls) = file_text ls"
proof (rule universal_newlines_id)
  show "CHR 0x0D \<notin> set (file_text ls)"
    using assms by (induction ls) (auto simp: file_text_def line_break_def)
qed

lemma notice_plain: "list_all (\<lambda>l. (\<forall>c\<in>set l. \<not> line_break c) \<and> starts_with ''#'' l) eula_notice"
  by code_simp

lemma plain_eula: "list_all (\<lambda>l. \<forall>c\<in>set l. \<not> line_break c) [''eula=true'', ''eula=false'']"
  by code_simp

lemma eula_values: "eula_of_lines [''eula=true''] = ACCEPTED" "eula_of_lines [''eula=false''] = UNACCEPTED"
  by code_simp+

lemma eula_read_back:
  assumes "list_all (\<lambda>l. (\<forall>c\<in>set l. \<not> line_break c) \<and> starts_with ''#'' l) cs"
    and "list_all (\<lambda>l. \<forall>c\<in>set l. \<not> line_break c) ls"
  shows "eula_of_lines (splitlines (universal_newlines (file_text (cs @ ls)))) = eula_of_lines ls"
proof -
  have "list_all (\<lambda>l. \<forall>c\<in>set l. \<not> line_break c) (cs @ ls)" and "list_all (starts_with ''#'') cs"
    using assms by (auto simp: list_all_iff)
  then show ?thesis
    by (simp add: universal_newlines_file_text splitlines_file_text eula_comments_skip del: list_all_append)
qed

lemma provision_reads:
  "detect_eula (provision_eula_file dir fs) dir =
     (if fs (path_join dir ''eula.txt'') = None then UNACCEPTED else detect_eula fs dir)"
  using eula_read_back[OF notice_plain, of "[''eula=false'']"] plain_eula eula_values(2)
  by (auto simp: provision_eula_file_def detect_eula_def split: option.splits)

text \<open>What the manager does to EULA files: provision a directory, or write an acceptance for it.\<close>

datatype eula_action = ProvisionEula string | AcceptEula string "string option"

fun eula_step :: "files \<Rightarrow> eula_action \<Rightarrow> files" where
  "eula_step fs (ProvisionEula dir) = provision_eula_file dir fs"
| "eula_step fs (AcceptEula dir operator) = write_eula_acceptance dir operator fs"

lemma eula_step_accepted:
  assumes "detect_eula (eula_step fs a) dir = ACCEPTED"
  shows "detect_eula fs dir = ACCEPTED \<or>
     (\<exists>d i. a = AcceptEula d i \<and> path_join d ''eula.txt'' = path_join dir ''eula.txt'')"
proof (cases a)
  case (ProvisionEula d)
  show ?thesis
  proof (cases "path_join d ''eula.txt'' = path_join dir ''eula.txt''")
    case True
    then have "detect_eula (provision_eula_file d fs) d = detect_eula (provision_eula_file d fs) dir"
      "detect_eula fs d = detect_eula fs dir"
      by (simp_all add: detect_eula_def)
    with assms ProvisionEula provision_reads[of d fs] show ?thesis by (auto split: if_splits)
  next
    case False
    with assms ProvisionEula show ?thesis
      by (auto simp: detect_eula_def provision_eula_file_def split: option.splits)
  qed
next
  case (AcceptEula d i)
  with assms show ?thesis
    by (cases "path_join d ''eula.txt'' = path_join dir ''eula.txt''")
      (auto simp: detect_eula_def write_eula_acceptance_def acceptance_text_def)
qed

text \<open>
  A written acceptance reads back as accepted, whoever the operator is as long as the
  identifier has no line break, and however EULA files are provisioned and accepted, a directory
  that reads as accepted was so from the start or had an acceptance written.
\<close>
lemma eula_needs_acceptance:
  assumes "case operator of None \<Rightarrow> True | Some i \<Rightarrow> list_all (\<lambda>c. \<not> line_break c) i"
    and "detect_eula (foldl eula_step fs as) dir = ACCEPTED"
  shows "detect_eula (write_eula_acceptance d operator fs) d = ACCEPTED \<and>
     (detect_eula fs dir = ACCEPTED \<or>
      list_ex (\<lambda>a. case a of AcceptEula d' _ \<Rightarrow> path_join d' ''eula.txt'' = path_join dir ''eula.txt''
                   | _ \<Rightarrow> False) as)"
proof
  let ?cs = "case operator of None \<Rightarrow> [] | Some i \<Rightarrow> if i = [] then [] else
               [''# Explicitly accepted via mcmanager audit pipeline'', ''# Accepted by Operator: '' @ i]"
  have "list_all (\<lambda>l. (\<forall>c\<in>set l. \<not> line_break c) \<and> starts_with ''#'' l) ?cs"
  proof -
    have pre: "\<forall>c\<in>set ''# Accepted by Operator: ''. \<not> line_break c"
      "\<forall>c\<in>set ''# Explicitly accepted via mcmanager audit pipeline''. \<not> line_break c" by code_simp+
    then show ?thesis using assms(1) by (auto simp: list_all_iff split: option.splits)
  qed
  with notice_plain have "list_all (\<lambda>l. (\<forall>c\<in>set l. \<not> line_break c) \<and> starts_with ''#'' l) (eula_notice @ ?cs)"
    by simp
  from eula_read_back[OF this, of "[''eula=true'']"] plain_eula eula_values(1)
  show "detect_eula (write_eula_acceptance d operator fs) d = ACCEPTED"
    by (simp add: detect_eula_def write_eula_acceptance_def acceptance_text_def)
next
  show "detect_eula fs dir = ACCEPTED \<or>
      list_ex (\<lambda>a. case a of AcceptEula d' _ \<Rightarrow> path_join d' ''eula.txt'' = path_join dir ''eula.txt''
                   | _ \<Rightarrow> False) as"
    using assms(2)
  proof (induction as arbitrary: fs)
    case (Cons a as)
    then show ?case using eula_step_accepted[of fs a dir] by (fastforce split: eula_action.splits)
  qed simp
qed

lemma eula_needs_acceptance_witness:
  "detect_eula (write_eula_acceptance ''w'' (Some ''u_1'') (\<lambda>_. None)) ''w'' = ACCEPTED"
proof -
  have "case Some ''u_1'' of None \<Rightarrow> True | Some i \<Rightarrow> list_all (\<lambda>c. \<not> line_break c) i" by code_simp
  moreover have "detect_eula (foldl eula_step (\<lambda>_. None) [ProvisionEula ''w'', AcceptEula ''w'' None]) ''w'' = ACCEPTED"
    by code_simp
  ultimately show ?thesis by (rule eula_needs_acceptance[THEN conjunct1])
qed

section \<open>The ladder\<close>

lemma ladder_ranks: "l = PROCESS_ALIVE \<or> l = PORT_BOUND \<or> l = RCON_READY \<or> l = PROBE_OK \<or> l = OPERATIONALLY_VALID"
  by (cases l) auto

text \<open>
  The level an evaluation gives is at most the target; every rung up to it is confirmed,
  unless it is the lowest, and it is the highest such level, so a gap in the signals is never
  jumped.
\<close>
lemma readiness_is_a_ladder:
  "evaluate_readiness s target \<le> target \<and>
   (evaluate_readiness s target = PROCESS_ALIVE \<or> (\<forall>k. k \<le> evaluate_readiness s target \<longrightarrow> signal s k)) \<and>
   (\<forall>l. l \<le> target \<and> (\<forall>k. k \<le> l \<longrightarrow> signal s k) \<longrightarrow> l \<le> evaluate_readiness s target)"
proof -
  have all: "(\<forall>k. P k) \<longleftrightarrow> P PROCESS_ALIVE \<and> P PORT_BOUND \<and> P RCON_READY \<and> P PROBE_OK \<and> P OPERATIONALLY_VALID"
    for P by (metis ladder_ranks)
  show ?thesis
    by (cases target; cases s)
      (simp_all add: evaluate_readiness_def ladder_def readiness_order_defs all)
qed

lemma readiness_is_a_ladder_witness:
  "PROBE_OK \<le> evaluate_readiness \<lparr>rd_process_alive = True, rd_port_bound = True, rd_rcon_ready = True,
     rd_probe_ok = True, rd_operationally_valid = False\<rparr> OPERATIONALLY_VALID"
proof -
  let ?s = "\<lparr>rd_process_alive = True, rd_port_bound = True, rd_rcon_ready = True,
     rd_probe_ok = True, rd_operationally_valid = False\<rparr>"
  have "\<forall>k. k \<le> PROBE_OK \<longrightarrow> signal ?s k"
  proof (intro allI impI)
    fix k assume "k \<le> PROBE_OK"
    then show "signal ?s k" by (cases k) (simp_all add: readiness_order_defs)
  qed
  moreover have "PROBE_OK \<le> OPERATIONALLY_VALID" by (simp add: readiness_order_defs)
  ultimately show ?thesis using readiness_is_a_ladder[of ?s OPERATIONALLY_VALID] by blast
qed

text \<open>
  A server counts as ready (the level of its type is reached) only with a live process
  behind a bound port that answered a protocol probe, and with RCON on only if RCON answered.
\<close>
lemma ready_server_answers:
  assumes "evaluate ty (capabilities_for ty) (build_state net alive port rcon_ready probe_ok operational mc) rcon_on
     = target_level_for ty"
  shows "alive \<and> 0 < port \<and> ls_bound net \<and> (probe_ok \<or> ls_pings net) \<and> mc \<and> (rcon_on \<longrightarrow> rcon_ready)"
proof -
  let ?s = "build_state net alive port rcon_ready probe_ok operational mc"
  note d = evaluate_def evaluate_readiness_def ladder_def Let_def
  have "rd_probe_ok ?s \<and> (rcon_on \<longrightarrow> rd_rcon_ready ?s)"
    using assms by (cases ty; cases rcon_on) (auto simp: d split: if_split_asm)
  then show ?thesis
    by (auto simp: build_state_def port_is_bound_def ping_protocol_def Let_def split: if_split_asm)
qed

lemma ready_server_answers_witness:
  "(True \<and> (0::int) < 25565 \<and> ls_bound \<lparr>ls_bound = True, ls_pings = True\<rparr>)"
proof -
  have "evaluate VANILLA (capabilities_for VANILLA)
     (build_state \<lparr>ls_bound = True, ls_pings = True\<rparr> True 25565 True False False True) True = target_level_for VANILLA"
    by code_simp
  from ready_server_answers[OF this] show ?thesis by simp
qed

section \<open>The launch gate\<close>

text \<open>The checks of the gate as a table, in order, each with its error code.\<close>

definition launch_checks :: "launch_env \<Rightarrow> LaunchContext \<Rightarrow> (string \<times> bool) list" where
  "launch_checks env x =
     [(''WORLD_DIR_MISSING'', le_isdir env (lx_dir x)),
      (''EULA_NOT_ACCEPTED'', current_state (le_files env) (lx_dir x) = ACCEPTED),
      (''JAR_MISSING'', if lx_jar x = [] then lx_launch_args x \<noteq> [] else le_files env (lx_jar x) \<noteq> None),
      (''WORLD_PORT_CONFLICT'', \<not> port_conflict env (lx_port x)),
      (''WORLD_PORT_CONFLICT'', \<not> (lx_rcon_enabled x \<and> port_conflict env (lx_rcon_port x))),
      (''JAVA_INCOMPATIBLE'', lx_jar x = [] \<or>
         (case detect_java (le_run env) (lx_java_path x) of
            None \<Rightarrow> False
          | Some m \<Rightarrow> 0 < m \<and> java_major_compatible (lx_type x) (lx_version x) m))]"

lemma java_gate_result:
  "gr_code (java_gate env x) = (if snd (launch_checks env x ! 5) then None else Some ''JAVA_INCOMPATIBLE'') \<and>
   (gr_passed (java_gate env x) \<longleftrightarrow> snd (launch_checks env x ! 5))"
  by (auto simp: java_gate_def launch_checks_def gate_pass_def gate_fail_def split: option.split)

text \<open>
  The gate passes a launch exactly when every check of the table holds, and its error code is
  that of the first check that fails: no server is spawned without an accepted EULA, over a bound
  port or, with a jar, on a Java it does not support.
\<close>
lemma launch_gate_exact:
  "gr_passed (validate_launch env x) = list_all snd (launch_checks env x) \<and>
   gr_code (validate_launch env x) = map_option fst (find_row (\<lambda>c. \<not> snd c) (launch_checks env x))"
proof -
  obtain a b c d e f where t: "launch_checks env x =
     [(''WORLD_DIR_MISSING'', a), (''EULA_NOT_ACCEPTED'', b), (''JAR_MISSING'', c),
      (''WORLD_PORT_CONFLICT'', d), (''WORLD_PORT_CONFLICT'', e), (''JAVA_INCOMPATIBLE'', f)]"
    and abc: "a = le_isdir env (lx_dir x)" "b = (current_state (le_files env) (lx_dir x) = ACCEPTED)"
    "c = (if lx_jar x = [] then lx_launch_args x \<noteq> [] else le_files env (lx_jar x) \<noteq> None)"
    "d = (\<not> port_conflict env (lx_port x))"
    "e = (\<not> (lx_rcon_enabled x \<and> port_conflict env (lx_rcon_port x)))"
    by (simp add: launch_checks_def)
  have f: "gr_code (java_gate env x) = (if f then None else Some ''JAVA_INCOMPATIBLE'')"
    "gr_passed (java_gate env x) = f"
    using java_gate_result[of env x] by (simp_all add: t)
  show ?thesis
    unfolding t validate_launch_def Let_def
    by (simp add: abc f gate_fail_def)
qed

section \<open>Validating server.properties\<close>

definition property_error :: "string \<Rightarrow> string \<times> json \<Rightarrow> string" where
  "property_error version = (\<lambda>(k, v). k @ '': '' @
     (case snd (validate_property_schema merged_specs version k v) of None \<Rightarrow> ''None'' | Some c \<Rightarrow> c))"

definition property_hints :: "string \<Rightarrow> string \<times> json \<Rightarrow> string list" where
  "property_hints version = (\<lambda>(k, v).
     case merged_specs k of None \<Rightarrow> []
     | Some sp \<Rightarrow> (case deprecation_hint version k sp of None \<Rightarrow> [] | Some h \<Rightarrow> [h]))"

lemma validate_loop_is:
  "validate_loop version ps (errors, hints) =
     (errors @ map (property_error version) (filter (\<lambda>(k, v). \<not> is_valid_value k v version) ps),
      hints @ concat (map (property_hints version) (filter (\<lambda>(k, v). is_valid_value k v version) ps)))"
proof (induction ps arbitrary: errors hints)
  case (Cons p ps)
  obtain k v where p: "p = (k, v)" by (cases p)
  obtain ok e where r: "validate_property_schema merged_specs version k v = (ok, e)" by (meson surj_pair)
  show ?case
    by (cases ok) (auto simp: p r Cons.IH is_valid_value_def property_error_def property_hints_def
        split: option.split)
qed simp

text \<open>
  Validating a whole file is validating each property on its own: the result is valid when
  every pair is, there is one error per refused pair in the order of the file, and only accepted
  pairs give deprecation hints.
\<close>
lemma properties_validate_pairwise:
  "validate_properties ps version =
     \<lparr>pv_valid = list_all (\<lambda>(k, v). is_valid_value k v version) ps,
      pv_errors = map (property_error version) (filter (\<lambda>(k, v). \<not> is_valid_value k v version) ps),
      pv_hints = concat (map (property_hints version) (filter (\<lambda>(k, v). is_valid_value k v version) ps))\<rparr>"
  by (simp add: validate_properties_def validate_loop_is filter_empty_conv list_all_iff case_prod_unfold)

lemma bool_is_an_int: "is_valid_value ''max-players'' (JBool True) ''1.21''"
  by code_simp

lemma recommended_is_supported:
  assumes "recommended_java ty version = Some m"
  shows "java_major_compatible ty version m"
proof -
  have "list_all (\<lambda>(k, r). jc_recommended r \<in> set (jc_supported r)) JAVA_COMPATIBILITY" by code_simp
  moreover obtain k r where r: "find_row (\<lambda>((t, v), r). t = ty \<and> starts_with v version) JAVA_COMPATIBILITY = Some (k, r)"
    "m = jc_recommended r"
    using assms by (auto simp: recommended_java_def java_compatibility_for_def)
  ultimately have "jc_recommended r \<in> set (jc_supported r)"
    using find_row_SomeD[OF r(1)] by (auto simp: list_all_iff)
  with r show ?thesis by (simp add: java_major_compatible_def java_compatibility_for_def)
qed

text \<open>A process that is dead still evaluates to the lowest rung.\<close>

lemma dead_process_level:
  "evaluate_readiness \<lparr>rd_process_alive = False, rd_port_bound = False, rd_rcon_ready = False,
     rd_probe_ok = False, rd_operationally_valid = False\<rparr> target = PROCESS_ALIVE"
  by (simp add: evaluate_readiness_def ladder_def)

end
