(* ===== verification/Effects.thy ===== *)
theory Effects
  imports Prelude
begin

text \<open>
  Calls that read and change a state and may raise: an action maps the state before the call to
  its result (\<open>Inl\<close> the exception) and the state after it.  The state a call leaves when it
  raises is kept, as in Python.  Laws that hold of every call of a service, whatever it returns,
  are relations between the state before and after; the locale \<open>state_order\<close> carries such a
  relation over the combinators, and each use of it interprets the locale and gives the rules
  for the service's primitive calls.
\<close>

type_synonym ('s, 'e, 'a) action = "'s \<Rightarrow> ('e + 'a) \<times> 's"

definition ret :: "'a \<Rightarrow> ('s, 'e, 'a) action" where
  "ret x s = (Inr x, s)"

definition raise :: "'e \<Rightarrow> ('s, 'e, 'a) action" where
  "raise e s = (Inl e, s)"

definition gets :: "('s \<Rightarrow> 'a) \<Rightarrow> ('s, 'e, 'a) action" where
  "gets f s = (Inr (f s), s)"

definition change :: "('s \<Rightarrow> 's) \<Rightarrow> ('s, 'e, unit) action" where
  "change f s = (Inr (), f s)"

definition bind_run :: "('s, 'e, 'a) action \<Rightarrow> ('a \<Rightarrow> ('s, 'e, 'b) action) \<Rightarrow> ('s, 'e, 'b) action" where
  "bind_run m f s = (case m s of (Inl e, s') \<Rightarrow> (Inl e, s') | (Inr x, s') \<Rightarrow> f x s')"

abbreviation then_run :: "('s, 'e, 'a) action \<Rightarrow> ('s, 'e, 'b) action \<Rightarrow> ('s, 'e, 'b) action" where
  "then_run m k \<equiv> bind_run m (\<lambda>_. k)"

definition try_run :: "('s, 'e, 'a) action \<Rightarrow> ('e \<Rightarrow> ('s, 'e, 'a) action) \<Rightarrow> ('s, 'e, 'a) action" where
  "try_run m h s = (case m s of (Inl e, s') \<Rightarrow> h e s' | (Inr x, s') \<Rightarrow> (Inr x, s'))"

definition check :: "bool \<Rightarrow> 'e \<Rightarrow> ('s, 'e, unit) action" where
  "check b e = (if b then ret () else raise e)"

definition of_option :: "'e \<Rightarrow> 'a option \<Rightarrow> ('s, 'e, 'a) action" where
  "of_option e x = (case x of None \<Rightarrow> raise e | Some y \<Rightarrow> ret y)"

definition when_run :: "bool \<Rightarrow> ('s, 'e, unit) action \<Rightarrow> ('s, 'e, unit) action" where
  "when_run b m = (if b then m else ret ())"

text \<open>\<open>try: .. finally: ..\<close>; an exception of the last part replaces the first one.\<close>

definition finally_run :: "('s, 'e, 'a) action \<Rightarrow> ('s, 'e, unit) action \<Rightarrow> ('s, 'e, 'a) action" where
  "finally_run m f s = (case m s of (r, s1) \<Rightarrow> (case f s1 of (Inl e, s2) \<Rightarrow> (Inl e, s2) | (Inr _, s2) \<Rightarrow> (r, s2)))"

fun for_each :: "('a \<Rightarrow> ('s, 'e, 'b list) action) \<Rightarrow> 'a list \<Rightarrow> ('s, 'e, 'b list) action" where
  "for_each f [] = ret []"
| "for_each f (x # xs) = bind_run (f x) (\<lambda>ys. bind_run (for_each f xs) (\<lambda>zs. ret (ys @ zs)))"

section \<open>What an action returns\<close>

named_theorems run_simps "results of the combinators"

lemma ret_iff [run_simps]: "ret x s = (r, s') \<longleftrightarrow> r = Inr x \<and> s' = s"
  by (auto simp: ret_def)

lemma raise_iff [run_simps]: "raise e s = (r, s') \<longleftrightarrow> r = Inl e \<and> s' = s"
  by (auto simp: raise_def)

lemma gets_iff [run_simps]: "gets f s = (r, s') \<longleftrightarrow> r = Inr (f s) \<and> s' = s"
  by (auto simp: gets_def)

lemma change_iff [run_simps]: "change f s = (r, s') \<longleftrightarrow> r = Inr () \<and> s' = f s"
  by (auto simp: change_def)

lemma bind_run_Inr [run_simps]:
  "bind_run m f s = (Inr y, s') \<longleftrightarrow> (\<exists>x s1. m s = (Inr x, s1) \<and> f x s1 = (Inr y, s'))"
  by (auto simp: bind_run_def split: prod.split sum.split)

lemma bind_run_Inl:
  "bind_run m f s = (Inl e, s') \<longleftrightarrow>
     m s = (Inl e, s') \<or> (\<exists>x s1. m s = (Inr x, s1) \<and> f x s1 = (Inl e, s'))"
  by (auto simp: bind_run_def split: prod.split sum.split)

lemma bind_run_cases:
  assumes "bind_run m f s = (r, s')"
  obtains (raised) e where "m s = (Inl e, s')" "r = Inl e"
  | (went) x s1 where "m s = (Inr x, s1)" "f x s1 = (r, s')"
  using assms by (auto simp: bind_run_def split: prod.splits sum.splits)

lemma try_run_Inr:
  "try_run m h s = (Inr y, s') \<longleftrightarrow>
     m s = (Inr y, s') \<or> (\<exists>e s1. m s = (Inl e, s1) \<and> h e s1 = (Inr y, s'))"
  by (auto simp: try_run_def split: prod.split sum.split)

lemma try_run_Inl:
  "try_run m h s = (Inl e, s') \<longleftrightarrow> (\<exists>e' s1. m s = (Inl e', s1) \<and> h e' s1 = (Inl e, s'))"
  by (auto simp: try_run_def split: prod.split sum.split)

lemma check_Inr [run_simps]: "check b e s = (Inr u, s') \<longleftrightarrow> b \<and> s' = s"
  by (auto simp: check_def ret_def raise_def)

lemma check_Inl [run_simps]: "check b e s = (Inl e', s') \<longleftrightarrow> \<not> b \<and> e' = e \<and> s' = s"
  by (auto simp: check_def ret_def raise_def)

lemma of_option_Inr [run_simps]: "of_option e x s = (Inr y, s') \<longleftrightarrow> x = Some y \<and> s' = s"
  by (auto simp: of_option_def ret_def raise_def split: option.split)

lemma of_option_Inl [run_simps]: "of_option e x s = (Inl e', s') \<longleftrightarrow> x = None \<and> e' = e \<and> s' = s"
  by (auto simp: of_option_def ret_def raise_def split: option.split)

lemma when_run_iff [run_simps]:
  "when_run b m s = (r, s') \<longleftrightarrow> (if b then m s = (r, s') else r = Inr () \<and> s' = s)"
  by (auto simp: when_run_def ret_def)

section \<open>Relations between before and after\<close>

named_theorems stay_rules "rules that carry a state relation over actions"

locale state_order =
  fixes rel :: "'s \<Rightarrow> 's \<Rightarrow> bool"
  assumes rel_refl: "rel s s" and rel_trans: "rel s t \<Longrightarrow> rel t u \<Longrightarrow> rel s u"
begin

definition stays :: "('s, 'e, 'a) action \<Rightarrow> bool" where
  "stays m \<longleftrightarrow> (\<forall>s. rel s (snd (m s)))"

lemma staysD: "stays m \<Longrightarrow> m s = (r, s') \<Longrightarrow> rel s s'"
  unfolding stays_def by (metis snd_conv)

lemma staysI: "(\<And>s r s'. m s = (r, s') \<Longrightarrow> rel s s') \<Longrightarrow> stays m"
  unfolding stays_def by (metis prod.collapse)

lemma stays_ret [stay_rules]: "stays (ret x)"
  by (simp add: stays_def ret_def rel_refl)

lemma stays_raise [stay_rules]: "stays (raise e)"
  by (simp add: stays_def raise_def rel_refl)

lemma stays_gets [stay_rules]: "stays (gets f)"
  by (simp add: stays_def gets_def rel_refl)

lemma stays_change: "(\<And>s. rel s (f s)) \<Longrightarrow> stays (change f)"
  by (simp add: stays_def change_def)

lemma stays_bind [stay_rules]:
  assumes "stays m" and "\<And>x. stays (f x)"
  shows "stays (bind_run m f)"
proof (rule staysI)
  fix s r s'
  assume "bind_run m f s = (r, s')"
  then show "rel s s'"
    by (rule bind_run_cases) (auto dest!: staysD[OF assms(1)] staysD[OF assms(2)] intro: rel_trans)
qed

lemma stays_try [stay_rules]:
  assumes "stays m" and "\<And>e. stays (h e)"
  shows "stays (try_run m h)"
  using assms unfolding stays_def try_run_def
  by (auto split: prod.split sum.split) (metis snd_conv rel_trans)+

lemma stays_finally [stay_rules]:
  assumes "stays m" and "stays f"
  shows "stays (finally_run m f)"
  using assms unfolding stays_def finally_run_def
  by (auto split: prod.split sum.split) (metis snd_conv rel_trans)+

lemma stays_check [stay_rules]: "stays (check b e)"
  by (simp add: check_def stays_ret stays_raise)

lemma stays_of_option [stay_rules]: "stays (of_option e x)"
  by (simp add: of_option_def stays_ret stays_raise split: option.split)

lemma stays_when [stay_rules]: "stays m \<Longrightarrow> stays (when_run b m)"
  by (simp add: when_run_def stays_ret)

lemma stays_if [stay_rules]: "(b \<Longrightarrow> stays m) \<Longrightarrow> (\<not> b \<Longrightarrow> stays n) \<Longrightarrow> stays (if b then m else n)"
  by simp

lemma stays_option [stay_rules]:
  "(x = None \<Longrightarrow> stays m) \<Longrightarrow> (\<And>y. x = Some y \<Longrightarrow> stays (f y)) \<Longrightarrow>
     stays (case x of None \<Rightarrow> m | Some y \<Rightarrow> f y)"
  by (cases x) auto

lemma stays_prod [stay_rules]: "(\<And>a b. x = (a, b) \<Longrightarrow> stays (f a b)) \<Longrightarrow> stays (case x of (a, b) \<Rightarrow> f a b)"
  by (cases x) auto

lemma stays_for_each [stay_rules]:
  assumes "\<And>x. stays (f x)"
  shows "stays (for_each f xs)"
  by (induction xs) (simp_all add: stays_ret stays_bind assms)

end

end
