(* ===== verification/File_Tree.thy ===== *)
theory File_Tree
  imports Effects Realtime Text_Tools "HOL-Library.List_Lexorder" "HOL-Library.Char_ord"
begin

text \<open>
  A file tree with symbolic links, and the file edits of a world
  (\<open>_apply_queued_file_edit\<close> and \<open>_same_file_tree\<close> of \<open>app/services/worlds.py\<close>).  A path is the
  list of its components; the tree lists the nodes below the root directory \<open>[]\<close>.  A link holds
  the components of its absolute target.  \<open>resolve\<close> follows links as \<open>Path.resolve\<close> does, absent
  components included; \<open>None\<close> is a loop of links, at the limit of the system of 40.  Other file
  system errors (permissions, a full disk) are not modelled.
\<close>

section \<open>Nodes and paths\<close>

type_synonym path = "string list"

datatype fnode = Dir | File string | Link path

type_synonym tree = "(path \<times> fnode) list"

definition node :: "tree \<Rightarrow> path \<Rightarrow> fnode option" where
  "node t p = (if p = [] then Some Dir else map_of t p)"

definition is_under :: "path \<Rightarrow> path \<Rightarrow> bool" where
  "is_under root p \<longleftrightarrow> take (length root) p = root"

definition is_absolute :: "string \<Rightarrow> bool" where
  "is_absolute s = starts_with ''/'' s"

definition path_parts :: "string \<Rightarrow> path" where
  "path_parts s = filter (\<lambda>c. c \<noteq> [] \<and> c \<noteq> ''.'') (split_on (CHR ''/'') s)"

function walk :: "tree \<Rightarrow> nat \<Rightarrow> path \<Rightarrow> path \<Rightarrow> path option" where
  "walk t n cur [] = Some cur"
| "walk t n cur (c # cs) =
     (if c = ''..'' then walk t n (butlast cur) cs
      else case node t (cur @ [c]) of
        Some (Link target) \<Rightarrow> (case n of 0 \<Rightarrow> None | Suc m \<Rightarrow> walk t m [] (target @ cs))
      | _ \<Rightarrow> walk t n (cur @ [c]) cs)"
  by pat_completeness auto
termination
  by (relation "measures [\<lambda>(t, n, cur, cs). n, \<lambda>(t, n, cur, cs). length cs]") auto

definition link_limit :: nat where
  "link_limit = 40"

definition resolve :: "tree \<Rightarrow> path \<Rightarrow> path option" where
  "resolve t p = walk t link_limit [] p"

text \<open>Whether \<open>is_symlink\<close> is false for every prefix of the way: below a component that is not a
  directory nothing is a link.\<close>

fun no_links :: "tree \<Rightarrow> path \<Rightarrow> path \<Rightarrow> bool" where
  "no_links t cur [] = True"
| "no_links t cur (c # cs) =
     (if c = ''..'' then no_links t (butlast cur) cs
      else case node t (cur @ [c]) of
        Some (Link _) \<Rightarrow> False
      | Some Dir \<Rightarrow> no_links t (cur @ [c]) cs
      | _ \<Rightarrow> True)"

section \<open>Moving and copying\<close>

definition drop_tree :: "path \<Rightarrow> tree \<Rightarrow> tree" where
  "drop_tree p t = filter (\<lambda>(q, n). \<not> is_under p q) t"

definition move_tree :: "path \<Rightarrow> path \<Rightarrow> tree \<Rightarrow> tree" where
  "move_tree p d t = map (\<lambda>(q, n). (if is_under p q then d @ drop (length p) q else q, n)) t"

definition children :: "tree \<Rightarrow> path \<Rightarrow> string list" where
  "children t p = map last (filter (\<lambda>q. q \<noteq> [] \<and> butlast q = p) (map fst t))"

text \<open>\<open>copytree\<close> copies what links point to, goes on after an error and raises at the end: the
  nodes it makes, and whether all went well.  \<open>n\<close> bounds the depth, which a loop of links exceeds.\<close>

fun copy_nodes :: "tree \<Rightarrow> nat \<Rightarrow> path \<Rightarrow> path \<Rightarrow> tree \<times> bool" where
  "copy_nodes t 0 p d = ([], False)"
| "copy_nodes t (Suc n) p d =
     (case resolve t p of
        None \<Rightarrow> ([], False)
      | Some q \<Rightarrow>
          (case node t q of
             Some (File c) \<Rightarrow> ([(d, File c)], True)
           | Some Dir \<Rightarrow>
               (let parts = map (\<lambda>c. copy_nodes t n (q @ [c]) (d @ [c])) (children t q) in
                ((d, Dir) # concat (map fst parts), list_all snd parts))
           | _ \<Rightarrow> ([], False)))"

definition files_below :: "tree \<Rightarrow> path \<Rightarrow> (path \<times> string) list" where
  "files_below t p = concat (map (\<lambda>(q, n).
     if is_under p q \<and> q \<noteq> p then
       (case n of
          File c \<Rightarrow> [(drop (length p) q, c)]
        | Link _ \<Rightarrow> (case resolve t q of
             Some q' \<Rightarrow> (case node t q' of Some (File c) \<Rightarrow> [(drop (length p) q, c)] | _ \<Rightarrow> [])
           | None \<Rightarrow> [])
        | Dir \<Rightarrow> [])
     else []) t)"

definition same_file_tree :: "tree \<Rightarrow> path \<Rightarrow> path \<Rightarrow> bool" where
  "same_file_tree t a b =
     (case (node t a, node t b) of
        (Some (File c), Some (File d)) \<Rightarrow> c = d
      | (Some Dir, Some Dir) \<Rightarrow> sort_key fst (files_below t a) = sort_key fst (files_below t b)
      | _ \<Rightarrow> False)"

section \<open>A queued file edit\<close>

datatype file_error = PathsMustBeRelative | TraversesLink | LinkLoop | EscapesRoot | EditsRoot
  | NotFound | Exists | UnsupportedAction | OsFailure

record file_edit =
  fe_root :: string
  fe_from :: string
  fe_to :: string
  fe_action :: string

definition path_error :: "tree \<Rightarrow> file_edit \<Rightarrow> file_error + path \<times> path \<times> path" where
  "path_error t e =
     (case resolve t (path_parts (fe_root e)) of
        None \<Rightarrow> Inl LinkLoop
      | Some root \<Rightarrow>
          (if is_absolute (fe_from e) \<or> is_absolute (fe_to e) then Inl PathsMustBeRelative
           else if \<not> no_links t root (path_parts (fe_from e)) \<or> \<not> no_links t root (path_parts (fe_to e))
           then Inl TraversesLink
           else case (resolve t (root @ path_parts (fe_from e)), resolve t (root @ path_parts (fe_to e))) of
             (Some source, Some target) \<Rightarrow>
               (if \<not> is_under root source \<or> \<not> is_under root target then Inl EscapesRoot
                else if source = root \<or> target = root then Inl EditsRoot
                else Inr (root, source, target))
           | _ \<Rightarrow> Inl LinkLoop))"

definition staging_path :: "path \<Rightarrow> string \<Rightarrow> path" where
  "staging_path target oid = butlast target @ [''.'' @ last target @ ''.'' @ oid @ ''.part'']"

definition copy_depth :: "tree \<Rightarrow> nat" where
  "copy_depth t = link_limit + length t"

definition rename_edit :: "path \<Rightarrow> path \<Rightarrow> tree \<Rightarrow> (file_error + unit) \<times> tree" where
  "rename_edit source target t =
     (if node t target \<noteq> None then (Inl Exists, t)
      else if is_under source target then (Inl OsFailure, t)
      else (Inr (), move_tree source target t))"

text \<open>What is at the staging path goes first; a link there is removed when it leads to a file.\<close>

definition clear_staging :: "path \<Rightarrow> tree \<Rightarrow> tree option" where
  "clear_staging p t =
     (case node t p of
        Some (Link _) \<Rightarrow> (case resolve t p of
             None \<Rightarrow> None
           | Some q \<Rightarrow> (case node t q of Some (File _) \<Rightarrow> Some (drop_tree p t) | _ \<Rightarrow> None))
      | _ \<Rightarrow> Some (drop_tree p t))"

definition copy_edit :: "string \<Rightarrow> path \<Rightarrow> path \<Rightarrow> tree \<Rightarrow> (file_error + unit) \<times> tree" where
  "copy_edit oid source target t =
     (if node t target \<noteq> None then
        (if same_file_tree t source target then (Inr (), t) else (Inl Exists, t))
      else
        (let staging = staging_path target oid in
         case clear_staging staging t of
           None \<Rightarrow> (Inl OsFailure, t)
         | Some t1 \<Rightarrow>
             (let (made, ok) = copy_nodes t1 (copy_depth t1) source staging; t2 = t1 @ made in
              if ok then (Inr (), move_tree staging target t2) else (Inl OsFailure, t2))))"

definition apply_file_edit :: "string \<Rightarrow> file_edit \<Rightarrow> tree \<Rightarrow> (file_error + unit) \<times> tree" where
  "apply_file_edit oid e t =
     (case path_error t e of
        Inl x \<Rightarrow> (Inl x, t)
      | Inr (root, source, target) \<Rightarrow>
          (if node t source = None \<and> node t target \<noteq> None \<and> fe_action e \<noteq> ''copy'' then (Inr (), t)
           else if node t source = None then (Inl NotFound, t)
           else if node t (butlast target) \<noteq> Some Dir then (Inl NotFound, t)
           else if fe_action e = ''rename'' \<or> fe_action e = ''move'' then rename_edit source target t
           else if fe_action e = ''copy'' then copy_edit oid source target t
           else (Inl UnsupportedAction, t)))"

section \<open>Edits stay inside the world directory\<close>

definition same_outside :: "path \<Rightarrow> tree \<Rightarrow> tree \<Rightarrow> bool" where
  "same_outside root t t' \<longleftrightarrow> (\<forall>p. \<not> is_under root p \<longrightarrow> node t' p = node t p)"

lemma is_under_append [simp]: "is_under p (p @ q)"
  by (simp add: is_under_def)

lemma is_under_iff: "is_under root p \<longleftrightarrow> (\<exists>q. p = root @ q)"
  unfolding is_under_def by (metis append_eq_conv_conj append_take_drop_id)

lemma is_under_trans: "is_under a b \<Longrightarrow> is_under b c \<Longrightarrow> is_under a c"
  by (auto simp: is_under_iff)

lemma same_outside_refl: "same_outside root t t"
  by (simp add: same_outside_def)

lemma same_outside_trans: "same_outside root a b \<Longrightarrow> same_outside root b c \<Longrightarrow> same_outside root a c"
  by (simp add: same_outside_def)

lemma map_of_map_keys:
  assumes "\<And>q n. (q, n) \<in> set t \<Longrightarrow> f q = p \<longleftrightarrow> q = p"
  shows "map_of (map (\<lambda>(q, n). (f q, n)) t) p = map_of t p"
  using assms
proof (induction t)
  case (Cons a t)
  obtain q n where a: "a = (q, n)" by (cases a)
  have "f q = p \<longleftrightarrow> q = p" using Cons.prems[of q n] by (simp add: a)
  moreover have "map_of (map (\<lambda>(q, n). (f q, n)) t) p = map_of t p"
    using Cons.prems by (intro Cons.IH) auto
  ultimately show ?case by (cases "q = p") (auto simp: a)
qed simp

lemma move_tree_outside:
  assumes "is_under root source" and "is_under root target"
  shows "same_outside root t (move_tree source target t)"
proof -
  have "map_of (move_tree source target t) p = map_of t p" if p: "\<not> is_under root p" for p
    unfolding move_tree_def
  proof (rule map_of_map_keys)
    fix q n
    show "(if is_under source q then target @ drop (length source) q else q) = p \<longleftrightarrow> q = p"
      using p assms by (auto simp: is_under_iff)
  qed
  then show ?thesis by (simp add: same_outside_def node_def)
qed

lemma map_of_drop_tree: "map_of (drop_tree p t) q = (if is_under p q then None else map_of t q)"
  by (induction t) (auto simp: drop_tree_def)

lemma drop_tree_outside: "is_under root p \<Longrightarrow> same_outside root t (drop_tree p t)"
  by (auto simp: same_outside_def node_def map_of_drop_tree dest: is_under_trans)

lemma copy_nodes_under: "q \<in> fst ` set (fst (copy_nodes t n p d)) \<Longrightarrow> is_under d q"
proof (induction n arbitrary: p d q)
  case (Suc n)
  have sub: "is_under d q" if "q \<in> fst ` set (fst (copy_nodes t n (r @ [c]) (d @ [c])))" for r c
    using Suc.IH[OF that] is_under_trans[OF is_under_append] by blast
  have self: "is_under d d" using is_under_append[of d "[]"] by simp
  show ?case
  proof (cases "resolve t p")
    case (Some r)
    show ?thesis
    proof (cases "node t r = Some Dir")
      case True
      with Suc.prems Some have "q = d \<or> (\<exists>c. q \<in> fst ` set (fst (copy_nodes t n (r @ [c]) (d @ [c]))))"
        by (auto simp: Let_def)
      with sub self show ?thesis by blast
    next
      case False
      with Suc.prems Some self show ?thesis by (auto split: option.splits fnode.splits)
    qed
  qed (use Suc.prems in simp)
qed simp

lemma append_outside:
  assumes "\<And>q. q \<in> fst ` set new \<Longrightarrow> is_under root q"
  shows "same_outside root t (t @ new)"
proof -
  have "map_of new p = None" if "\<not> is_under root p" for p
    using that assms by (auto simp: map_of_eq_None_iff)
  then show ?thesis by (auto simp: same_outside_def node_def map_add_def split: option.split)
qed

lemma staging_under:
  assumes "is_under root target" and "target \<noteq> root"
  shows "is_under root (staging_path target oid)"
proof -
  obtain q where q: "target = root @ q" "q \<noteq> []" using assms by (auto simp: is_under_iff)
  then have "staging_path target oid = root @ butlast q @ [''.'' @ last target @ ''.'' @ oid @ ''.part'']"
    by (simp add: staging_path_def butlast_append)
  then show ?thesis by simp
qed

lemma clear_staging_is: "clear_staging p t = Some t1 \<Longrightarrow> t1 = drop_tree p t"
  by (auto simp: clear_staging_def split: option.splits fnode.splits)

lemma copy_edit_outside:
  assumes "is_under root target" and "target \<noteq> root" and "copy_edit oid source target t = (r, t')"
  shows "same_outside root t t'"
proof (cases "node t target \<noteq> None \<or> clear_staging (staging_path target oid) t = None")
  case True
  with assms(3) show ?thesis
    by (auto simp: copy_edit_def Let_def same_outside_refl split: if_splits option.splits)
next
  case False
  define st where "st = staging_path target oid"
  have st: "is_under root st" using staging_under[OF assms(1,2)] by (simp add: st_def)
  from False obtain t1 where t1: "clear_staging st t = Some t1" by (auto simp: st_def)
  obtain made ok where cp: "copy_nodes t1 (copy_depth t1) source st = (made, ok)" by (cases "copy_nodes t1 (copy_depth t1) source st")
  have "t' = (if ok then move_tree st target (t1 @ made) else t1 @ made)"
    using assms(3) False t1 cp by (auto simp: copy_edit_def Let_def simp flip: st_def split: if_splits)
  moreover have "same_outside root t t1"
    using drop_tree_outside[OF st] clear_staging_is[OF t1] by simp
  moreover have "same_outside root t1 (t1 @ made)"
    using copy_nodes_under[of _ t1 "copy_depth t1" source st] st
    by (intro append_outside) (auto simp: cp intro: is_under_trans)
  moreover have "same_outside root (t1 @ made) (move_tree st target (t1 @ made))"
    by (rule move_tree_outside[OF st assms(1)])
  ultimately show ?thesis by (auto intro: same_outside_trans)
qed

lemma path_error_Inr:
  assumes "path_error t e = Inr (root, source, target)"
  shows "resolve t (path_parts (fe_root e)) = Some root \<and> is_under root source \<and> is_under root target \<and>
     source \<noteq> root \<and> target \<noteq> root \<and> no_links t root (path_parts (fe_from e)) \<and>
     no_links t root (path_parts (fe_to e)) \<and> resolve t (root @ path_parts (fe_from e)) = Some source \<and>
     resolve t (root @ path_parts (fe_to e)) = Some target"
  using assms by (auto simp: path_error_def split: option.splits if_splits)

text \<open>
  C24: a file edit changes nothing outside the directory of the world, whatever names, parent
  steps and links it is given, and a refused edit (a path that is absolute, goes through a link,
  leaves the directory or names it) changes nothing at all.
\<close>
theorem file_edits_stay_inside:
  "case apply_file_edit oid e t of (r, t') \<Rightarrow>
     (case path_error t e of
        Inl x \<Rightarrow> r = Inl x \<and> t' = t
      | Inr (root, source, target) \<Rightarrow>
          resolve t (path_parts (fe_root e)) = Some root \<and> is_under root source \<and> is_under root target \<and>
          source \<noteq> root \<and> target \<noteq> root \<and> same_outside root t t')"
proof (cases "path_error t e")
  case (Inr q)
  obtain root source target where q: "q = (root, source, target)" by (cases q)
  note p = path_error_Inr[OF Inr[unfolded q]]
  obtain r t' where a: "apply_file_edit oid e t = (r, t')" by (cases "apply_file_edit oid e t")
  then have "t' = t \<or> rename_edit source target t = (r, t') \<or> copy_edit oid source target t = (r, t')"
    using Inr q by (auto simp: apply_file_edit_def split: if_splits)
  then have "same_outside root t t'"
    using p by (auto simp: rename_edit_def same_outside_refl move_tree_outside split: if_splits
        dest!: copy_edit_outside[rotated 2])
  with p show ?thesis by (simp add: a Inr q)
qed (simp add: apply_file_edit_def)

section \<open>Copies follow links inside directories\<close>

definition sample_tree :: tree where
  "sample_tree = [([''etc''], Dir), ([''etc'', ''key''], File ''secret''), ([''w''], Dir), ([''w'', ''a''], Dir),
     ([''w'', ''a'', ''l''], Link [''etc'', ''key''])]"

definition sample_edit :: "string \<Rightarrow> string \<Rightarrow> string \<Rightarrow> file_edit" where
  "sample_edit action a b = \<lparr>fe_root = ''/w'', fe_from = a, fe_to = b, fe_action = action\<rparr>"

text \<open>A path through a link is refused, but a copied directory takes along the content of what
  its links point to, outside the world directory too.\<close>

lemma copy_takes_linked_content:
  "fst (apply_file_edit ''op'' (sample_edit ''copy'' ''a/l'' ''b'') sample_tree) = Inl TraversesLink"
  "fst (apply_file_edit ''op'' (sample_edit ''copy'' ''a'' ''b'') sample_tree) = Inr ()"
  "node (snd (apply_file_edit ''op'' (sample_edit ''copy'' ''a'' ''b'') sample_tree)) [''w'', ''b'', ''l''] =
     Some (File ''secret'')"
  by code_simp+

end
