(* ===== verification/Archive.thy ===== *)
theory Archive
  imports File_Tree
begin

text \<open>
  The archive engine (\<open>app/infrastructure/backup_engine.py\<close>) and the local file system adapter
  (\<open>app/infrastructure/filesystem.py\<close>) over the file trees of \<open>File_Tree\<close>.  The ZIP format and
  SHA-256 are a record of functions: writing members to bytes, reading them back (\<open>None\<close> is a bad
  ZIP file, the flag whether the checksum of the member is right) and hashing.  The bytes of a
  file are its content; the failures of the disk itself are not modelled here.
\<close>

section \<open>Files behind links\<close>

definition stat :: "tree \<Rightarrow> path \<Rightarrow> fnode option" where
  "stat t p = (case resolve t p of None \<Rightarrow> None | Some q \<Rightarrow> node t q)"

text \<open>The entry itself, a link or not: its parent followed to where it leads.\<close>

definition entry :: "tree \<Rightarrow> path \<Rightarrow> path" where
  "entry t p = (if p = [] then [] else case resolve t (butlast p) of None \<Rightarrow> p | Some d \<Rightarrow> d @ [last p])"

definition put_node :: "path \<Rightarrow> fnode \<Rightarrow> tree \<Rightarrow> tree" where
  "put_node p n t = (p, n) # filter (\<lambda>(q, m). q \<noteq> p) t"

text \<open>\<open>open(p, 'wb')\<close> writes through links; its directory must be there.\<close>

definition write_file :: "path \<Rightarrow> string \<Rightarrow> tree \<Rightarrow> tree option" where
  "write_file p x t =
     (case resolve t p of
        None \<Rightarrow> None
      | Some q \<Rightarrow> if node t q = Some Dir \<or> node t (butlast q) \<noteq> Some Dir then None
          else Some (put_node q (File x) t))"

text \<open>\<open>mkdir(parents=True, exist_ok=True)\<close>, for the components after \<open>cur\<close>.\<close>

fun make_dirs :: "path \<Rightarrow> path \<Rightarrow> tree \<Rightarrow> tree option" where
  "make_dirs cur [] t = (if stat t cur = Some Dir then Some t else None)"
| "make_dirs cur (c # cs) t =
     (case stat t (cur @ [c]) of
        Some Dir \<Rightarrow> make_dirs (cur @ [c]) cs t
      | Some _ \<Rightarrow> None
      | None \<Rightarrow> if stat t cur = Some Dir \<and> node t (entry t (cur @ [c])) = None
          then make_dirs (cur @ [c]) cs (put_node (entry t (cur @ [c])) Dir t) else None)"

text \<open>\<open>unlink(missing_ok=True)\<close> and \<open>os.replace\<close> of a file.\<close>

definition unlink :: "path \<Rightarrow> tree \<Rightarrow> tree" where
  "unlink p t = (if node t (entry t p) = Some Dir then t else filter (\<lambda>(q, m). q \<noteq> entry t p) t)"

definition replace_file :: "path \<Rightarrow> path \<Rightarrow> tree \<Rightarrow> tree option" where
  "replace_file p d t =
     (case node t (entry t p) of
        None \<Rightarrow> None
      | Some n \<Rightarrow> if n = Dir \<or> node t (entry t d) = Some Dir \<or> stat t (butlast d) \<noteq> Some Dir then None
          else Some (put_node (entry t d) n (unlink p t)))"

section \<open>Walking a directory\<close>

datatype dir_entry = Skipped | Ignored | Member path string | Subdir string path | Broken

definition volatile_name :: "string \<Rightarrow> bool" where
  "volatile_name c \<longleftrightarrow> ends_with ''.part'' c \<or> c = ''mcmanager.lock'' \<or> c = ''mcmanager.pid''"

definition classify :: "tree \<Rightarrow> path \<Rightarrow> path \<Rightarrow> path \<Rightarrow> path list \<Rightarrow> string \<Rightarrow> dir_entry" where
  "classify t root dir rel anc c =
     (case resolve t (dir @ [c]) of
        None \<Rightarrow> Skipped
      | Some r \<Rightarrow>
          (if \<not> is_under root r then Skipped
           else if volatile_name c then Ignored
           else case node t r of
             Some Dir \<Rightarrow> (if r \<in> set anc then Skipped else Subdir c r)
           | Some (File x) \<Rightarrow> Member (rel @ [c]) x
           | _ \<Rightarrow> Broken))"

definition members_of :: "dir_entry list \<Rightarrow> (path \<times> string) list" where
  "members_of es = concat (map (\<lambda>e. case e of Member p x \<Rightarrow> [(p, x)] | _ \<Rightarrow> []) es)"

definition subdirs_of :: "dir_entry list \<Rightarrow> (string \<times> path) list" where
  "subdirs_of es = concat (map (\<lambda>e. case e of Subdir c r \<Rightarrow> [(c, r)] | _ \<Rightarrow> []) es)"

definition skipped_of :: "dir_entry list \<Rightarrow> nat" where
  "skipped_of es = length (filter (\<lambda>e. e = Skipped) es)"

text \<open>The stack of the code is last in, first out: a directory is finished before the next one,
  and its directories come in reverse order.  \<open>n\<close> bounds the depth; the directories above are
  distinct, so \<open>walk_depth\<close> is never exceeded.\<close>

fun walk_dir :: "nat \<Rightarrow> tree \<Rightarrow> path \<Rightarrow> path \<Rightarrow> path \<Rightarrow> path list \<Rightarrow> ((path \<times> string) list \<times> nat) option" where
  "walk_dir 0 t root dir rel anc = None"
| "walk_dir (Suc n) t root dir rel anc =
     (case resolve t dir of
        None \<Rightarrow> None
      | Some q \<Rightarrow>
          (if node t q \<noteq> Some Dir then None
           else
             let es = map (classify t root dir rel anc) (sort (children t q)) in
             if Broken \<in> set es then None
             else case those (map (\<lambda>(c, r). walk_dir n t root (dir @ [c]) (rel @ [c]) (r # anc)) (rev (subdirs_of es))) of
               None \<Rightarrow> None
             | Some parts \<Rightarrow> Some (members_of es @ concat (map fst parts), skipped_of es + sum_list (map snd parts))))"

definition walk_depth :: "tree \<Rightarrow> nat" where
  "walk_depth t = length t + 2"

section \<open>Archives\<close>

record zip_lib =
  zl_write :: "(string \<times> string) list \<Rightarrow> string"
  zl_read :: "string \<Rightarrow> (string \<times> string \<times> bool) list option"
  zl_hash :: "string \<Rightarrow> string"

fun posix_name :: "path \<Rightarrow> string" where
  "posix_name [] = []"
| "posix_name [c] = c"
| "posix_name (c # cs) = c @ (CHR ''/'') # posix_name cs"

datatype archive_error = UnsafePath | BadZip | BadMember | WalkFailed | DiskError

definition slashes :: "string \<Rightarrow> string" where
  "slashes s = map (\<lambda>c. if c = CHR 0x5C then CHR ''/'' else c) s"

text \<open>Empty, absolute, with a drive, or with a parent step, under either path syntax.\<close>

definition unsafe_name :: "string \<Rightarrow> bool" where
  "unsafe_name s \<longleftrightarrow> s = [] \<or> is_absolute (slashes s) \<or> take 1 (drop 1 s) = '':'' \<or>
     ''..'' \<in> set (path_parts (slashes s))"

definition verify_archive :: "zip_lib \<Rightarrow> string \<Rightarrow> archive_error + unit" where
  "verify_archive z bytes =
     (case zl_read z bytes of
        None \<Rightarrow> Inl BadZip
      | Some ms \<Rightarrow>
          (if list_ex (\<lambda>m. unsafe_name (fst m)) ms then Inl UnsafePath
           else if list_ex (\<lambda>m. \<not> snd (snd m)) ms then Inl BadMember else Inr ()))"

definition part_of :: "path \<Rightarrow> path" where
  "part_of p = butlast p @ [last p @ ''.part'']"

definition verify_at :: "zip_lib \<Rightarrow> path \<Rightarrow> tree \<Rightarrow> archive_error + unit" where
  "verify_at z p t = (case stat t p of Some (File b) \<Rightarrow> verify_archive z b | _ \<Rightarrow> Inl DiskError)"

definition hash_at :: "zip_lib \<Rightarrow> path \<Rightarrow> tree \<Rightarrow> string option" where
  "hash_at z p t = (case stat t p of Some (File b) \<Rightarrow> Some (zl_hash z b) | _ \<Rightarrow> None)"

definition create_archive :: "zip_lib \<Rightarrow> path \<Rightarrow> path \<Rightarrow> tree \<Rightarrow> (archive_error + nat) \<times> tree" where
  "create_archive z source target t =
     (let staged = part_of target in
      case resolve t source of
        None \<Rightarrow> (Inl WalkFailed, t)
      | Some root \<Rightarrow>
          (case write_file staged [] t of
             None \<Rightarrow> (Inl DiskError, unlink staged t)
           | Some t1 \<Rightarrow>
               (case walk_dir (walk_depth t1) t1 root source [] [root] of
                  None \<Rightarrow> (Inl WalkFailed, unlink staged t1)
                | Some (ms, skipped) \<Rightarrow>
                    (case write_file staged (zl_write z (map (\<lambda>(p, x). (posix_name p, x)) ms)) t1 of
                       None \<Rightarrow> (Inl DiskError, unlink staged t1)
                     | Some t2 \<Rightarrow>
                         (case verify_at z staged t2 of
                            Inl e \<Rightarrow> (Inl e, unlink staged t2)
                          | Inr _ \<Rightarrow>
                              (case replace_file staged target t2 of
                                 None \<Rightarrow> (Inl DiskError, unlink staged t2)
                               | Some t3 \<Rightarrow> (Inr skipped, t3)))))))"

text \<open>\<open>extractall\<close> drops empty, \<open>.\<close> and \<open>..\<close> components; a name that ends with a slash is a directory.\<close>

definition member_parts :: "string \<Rightarrow> path" where
  "member_parts s = filter (\<lambda>c. c \<noteq> ''..'') (path_parts s)"

definition extract_member :: "path \<Rightarrow> string \<times> string \<times> bool \<Rightarrow> tree \<Rightarrow> tree option" where
  "extract_member target m t =
     (case m of (name, x, ok) \<Rightarrow>
        let parts = member_parts name in
        if ends_with ''/'' name then make_dirs target parts t
        else case make_dirs target (butlast parts) t of
          None \<Rightarrow> None
        | Some t1 \<Rightarrow> (case write_file (target @ parts) x t1 of
            None \<Rightarrow> None
          | Some t2 \<Rightarrow> if ok then Some t2 else None))"

fun extract_members :: "path \<Rightarrow> (string \<times> string \<times> bool) list \<Rightarrow> tree \<Rightarrow> tree option" where
  "extract_members target [] t = Some t"
| "extract_members target (m # ms) t =
     (case extract_member target m t of None \<Rightarrow> None | Some t1 \<Rightarrow> extract_members target ms t1)"

definition leaves :: "tree \<Rightarrow> path \<Rightarrow> path \<Rightarrow> string \<Rightarrow> bool" where
  "leaves t target root name \<longleftrightarrow>
     (case resolve t (target @ path_parts name) of None \<Rightarrow> True | Some q \<Rightarrow> \<not> is_under root q)"

text \<open>What an extraction that fails has made is removed with its directory.\<close>

definition discard_dir :: "path \<Rightarrow> tree \<Rightarrow> tree" where
  "discard_dir p t = (if node t (entry t p) = Some Dir then drop_tree (entry t p) t else t)"

definition extract_archive :: "zip_lib \<Rightarrow> path \<Rightarrow> path \<Rightarrow> tree \<Rightarrow> (archive_error + unit) \<times> tree" where
  "extract_archive z archive target t =
     (case (resolve t target, stat t archive) of
        (Some root, Some (File b)) \<Rightarrow>
          (case zl_read z b of
             None \<Rightarrow> (Inl BadZip, discard_dir target t)
           | Some ms \<Rightarrow>
               (if list_ex (\<lambda>m. unsafe_name (fst m) \<or> leaves t target root (fst m)) ms
                then (Inl UnsafePath, discard_dir target t)
                else case extract_members target ms t of
                  None \<Rightarrow> (Inl DiskError, discard_dir target t)
                | Some t1 \<Rightarrow> (Inr (), t1)))
      | _ \<Rightarrow> (Inl DiskError, discard_dir target t))"

section \<open>The file system adapter\<close>

definition is_within :: "tree \<Rightarrow> path \<Rightarrow> path \<Rightarrow> bool" where
  "is_within t p root =
     (case (resolve t p, resolve t root) of (Some q, Some r) \<Rightarrow> is_under r q | _ \<Rightarrow> False)"

text \<open>The size of what an archive would hold: entries that cannot be read are left out.\<close>

fun tree_bytes :: "nat \<Rightarrow> tree \<Rightarrow> path \<Rightarrow> path \<Rightarrow> path list \<Rightarrow> nat" where
  "tree_bytes 0 t root dir anc = 0"
| "tree_bytes (Suc n) t root dir anc =
     (case resolve t dir of
        None \<Rightarrow> 0
      | Some q \<Rightarrow>
          (if node t q \<noteq> Some Dir then 0
           else
             let es = map (classify t root dir [] anc) (children t q) in
             sum_list (map (\<lambda>(p, x). length x) (members_of es)) +
             sum_list (map (\<lambda>(c, r). tree_bytes n t root (dir @ [c]) (r # anc)) (subdirs_of es))))"

definition tree_size :: "tree \<Rightarrow> path \<Rightarrow> nat" where
  "tree_size t p = (case resolve t p of None \<Rightarrow> 0 | Some root \<Rightarrow> tree_bytes (walk_depth t) t root p [root])"

end
