(* ===== verification/Worlds_Env.thy ===== *)
theory Worlds_Env
  imports World_Lifecycle Configuration Minecraft Archive
begin

text \<open>
  What the world driver (\<open>app/services/worlds.py\<close>) works on: its state and the helpers of the
  service.  The processes, sockets, clocks and identifiers are the environment, one answer per
  question: \<open>ws_tick\<close> numbers the questions, and an answer may be different at every tick.  Each
  request to a process, to a console or to the archive engine is logged in \<open>ws_calls\<close>.  \<open>ws_time\<close> is the monotonic clock
  in milliseconds; answering takes the time the environment says and a sleep at least its
  argument.
  The files of all worlds are the tree \<open>ws_tree\<close>, which backups, restores and file edits work on too;
  what a server process itself writes is not modelled.
\<close>

section \<open>Processes\<close>

record ProcessHandle =
  ph_world :: string
  ph_pid :: int
  ph_epoch :: int

record SpawnRequest =
  sp_world :: string
  sp_command :: "string list"
  sp_cwd :: string
  sp_session :: string
  sp_log_dir :: string

record SpawnResult =
  sr_handle :: "ProcessHandle option"
  sr_error :: "string option"

record ProcessStatus =
  ps_state :: ProcessState
  ps_exit :: ExitClass

definition alive :: "ProcessStatus \<Rightarrow> bool" where
  "alive p \<longleftrightarrow> ps_state p = PS_RUNNING"

record ProbeFingerprint =
  fp_pid :: "int option"
  fp_epoch :: "int option"
  fp_cwd :: "string option"
  fp_marker :: "string option"

record ProbeResult =
  pr_found :: bool
  pr_handle :: "ProcessHandle option"
  pr_matched :: bool

record TerminateResult =
  tr_resolved :: bool
  tr_exit :: ExitClass

fun exit_class_value :: "ExitClass \<Rightarrow> string" where
  "exit_class_value EC_RUNNING = ''running''"
| "exit_class_value EC_GRACEFUL = ''graceful''"
| "exit_class_value EC_FORCED = ''forced''"
| "exit_class_value EC_CRASHED = ''crashed''"
| "exit_class_value EC_RECONCILED_MISSING = ''reconciled_missing''"
| "exit_class_value EC_SPAWN_FAILED = ''spawn_failed''"

datatype world_call =
    Spawn SpawnRequest
  | Probe string string "ProbeFingerprint option"
  | Poll ProcessHandle
  | WriteStdin ProcessHandle string
  | Terminate ProcessHandle int
  | CloseHandle ProcessHandle
  | Tail ProcessHandle
  | RconConnect int string
  | RconPing int
  | RconCommand int string
  | RconClose int
  | WriteArchive path nat

text \<open>\<open>Inl\<close> is a raised exception with its text.\<close>

record world_env =
  en_ids :: "nat \<Rightarrow> nat \<Rightarrow> string"
  en_now :: "nat \<Rightarrow> int"
  en_spent :: "nat \<Rightarrow> nat"
  en_bound :: "nat \<Rightarrow> int \<Rightarrow> bool"
  en_java :: "nat \<Rightarrow> string \<Rightarrow> string option"
  en_jars :: "nat \<Rightarrow> string \<Rightarrow> string list"
  en_signals :: "nat \<Rightarrow> live_signals"
  en_spawn :: "nat \<Rightarrow> string + SpawnResult"
  en_probe :: "nat \<Rightarrow> string + ProbeResult"
  en_poll :: "nat \<Rightarrow> string + ProcessStatus"
  en_stdin :: "nat \<Rightarrow> string + bool"
  en_terminate :: "nat \<Rightarrow> string + TerminateResult"
  en_tail :: "nat \<Rightarrow> string + unit"
  en_connect :: "nat \<Rightarrow> string + unit"
  en_ping :: "nat \<Rightarrow> string + bool"
  en_command :: "nat \<Rightarrow> string + string"

section \<open>State and errors\<close>

record world_sys =
  ws_ops :: op_sys
  ws_tables :: "ConfigEditEntity \<Rightarrow> row list"
  ws_javas :: "(string \<times> string) list"
  ws_tree :: tree
  ws_secrets :: "(string \<times> string) list"
  ws_logs :: bool
  ws_audit :: bool
  ws_mutating :: bool
  ws_tick :: nat
  ws_time :: nat
  ws_calls :: "world_call list"

datatype world_error =
    WorldLifecycleError string
  | WorldNotFoundError string
  | WorldConflictError string
  | StartTimeoutError string
  | SpawnFailedError string
  | RconFailed string
  | OpFailure op_error
  | ConfigConflict string
  | OtherError string

fun lifecycle_error :: "world_error \<Rightarrow> bool" where
  "lifecycle_error (WorldLifecycleError m) = True"
| "lifecycle_error (WorldNotFoundError m) = True"
| "lifecycle_error (WorldConflictError m) = True"
| "lifecycle_error (StartTimeoutError m) = True"
| "lifecycle_error (SpawnFailedError m) = True"
| "lifecycle_error _ = False"

fun error_text :: "world_error \<Rightarrow> string" where
  "error_text (WorldLifecycleError m) = m"
| "error_text (WorldNotFoundError m) = m"
| "error_text (WorldConflictError m) = m"
| "error_text (StartTimeoutError m) = m"
| "error_text (SpawnFailedError m) = m"
| "error_text (RconFailed m) = m"
| "error_text (ConfigConflict m) = m"
| "error_text (OtherError m) = m"
| "error_text (OpFailure (OperationNotFound i)) = ''operation not found: '' @ i"
| "error_text (OpFailure (OperationAlreadyTerminal i)) = ''operation is terminal: '' @ i"
| "error_text (OpFailure OpIntegrityError) = ''UNIQUE constraint failed''"
| "error_text (OpFailure e) = ''operation conflict''"

type_synonym 'a world_run = "(world_sys, world_error, 'a) action"

abbreviation ws_store :: "world_sys \<Rightarrow> store" where
  "ws_store s \<equiv> os_store (ws_ops s)"

text \<open>The files a world has are those of the tree, read by the text of their path.\<close>

definition file_texts :: "tree \<Rightarrow> files" where
  "file_texts t p = (case stat t (path_parts p) of Some (File x) \<Rightarrow> Some x | _ \<Rightarrow> None)"

definition ws_files :: "world_sys \<Rightarrow> files" where
  "ws_files s = file_texts (ws_tree s)"

definition ws_dirs :: "world_sys \<Rightarrow> string \<Rightarrow> bool" where
  "ws_dirs s p \<longleftrightarrow> stat (ws_tree s) (path_parts p) = Some Dir"

section \<open>Questions to the environment\<close>

definition now_at :: "world_env \<Rightarrow> world_sys \<Rightarrow> int" where
  "now_at E s = en_now E (ws_tick s)"

definition tick :: "world_env \<Rightarrow> world_sys \<Rightarrow> world_sys" where
  "tick E s = s\<lparr>ws_tick := Suc (ws_tick s), ws_time := ws_time s + en_spent E (ws_tick s)\<rparr>"

definition ask ::
  "world_env \<Rightarrow> (nat \<Rightarrow> string + 'a) \<Rightarrow> (string \<Rightarrow> world_error) \<Rightarrow> world_call \<Rightarrow> 'a world_run" where
  "ask E f err c s =
     (case f (ws_tick s) of Inl m \<Rightarrow> Inl (err m) | Inr x \<Rightarrow> Inr x,
      (tick E s)\<lparr>ws_calls := ws_calls s @ [c]\<rparr>)"

definition tell :: "world_env \<Rightarrow> world_call \<Rightarrow> unit world_run" where
  "tell E c = ask E (\<lambda>_. Inr ()) OtherError c"

definition sleep :: "nat \<Rightarrow> world_sys \<Rightarrow> world_sys" where
  "sleep ms s = s\<lparr>ws_time := ws_time s + ms\<rparr>"

text \<open>A call to the operation service, with identifiers and a clock of its own.\<close>

definition op_call ::
  "world_env \<Rightarrow> ((nat \<Rightarrow> string) \<Rightarrow> int \<Rightarrow> op_sys \<Rightarrow> op_error + 'a \<times> op_sys) \<Rightarrow> 'a world_run" where
  "op_call E f s =
     (case f (en_ids E (ws_tick s)) (now_at E s) (ws_ops s) of
        Inl e \<Rightarrow> (Inl (OpFailure e), tick E s)
      | Inr (x, ops) \<Rightarrow> (Inr x, (tick E s)\<lparr>ws_ops := ops\<rparr>))"

definition create_op :: "world_env \<Rightarrow> OperationInput \<Rightarrow> bool \<Rightarrow> (op_row \<times> bool) world_run" where
  "create_op E req allow = op_call E (\<lambda>u now. create_with_replay u now req OS_QUEUED allow)"

definition move_op :: "world_env \<Rightarrow> string \<Rightarrow> OperationStatus \<Rightarrow> transition_input \<Rightarrow> op_row world_run" where
  "move_op E i status ti = op_call E (\<lambda>u now. transition u now i status ti)"

definition staged :: "jdict \<Rightarrow> transition_input" where
  "staged c = plain_transition\<lparr>ti_checkpoint := Some c\<rparr>"

definition failure :: "string \<Rightarrow> string option \<Rightarrow> transition_input" where
  "failure code m = plain_transition\<lparr>ti_error_code := Some code, ti_message := m\<rparr>"

definition fail_op :: "world_env \<Rightarrow> string \<Rightarrow> string \<Rightarrow> string option \<Rightarrow> unit world_run" where
  "fail_op E i code m = then_run (move_op E i OS_FAILED (failure code m)) (ret ())"

definition request_for :: "OperationType \<Rightarrow> ActorType \<Rightarrow> string \<Rightarrow> string option \<Rightarrow> OperationInput" where
  "request_for ty actor w user = \<lparr>oi_type = ty, oi_actor_type = actor, oi_world = Some w,
     oi_actor_user = user, oi_key = None, oi_data = None, oi_compensates = None\<rparr>"

section \<open>Worlds and their files\<close>

definition find_world :: "string \<Rightarrow> store \<Rightarrow> world_row option" where
  "find_world w st = find_row (\<lambda>r. wo_id r = w) (worlds st)"

definition world_of :: "string \<Rightarrow> world_row world_run" where
  "world_of w = bind_run (gets (\<lambda>s. find_world w (ws_store s))) (of_option (WorldNotFoundError w))"

text \<open>A root setting as text: \<open>str(None)\<close> where it is unset.\<close>

definition setting_text :: "json option \<Rightarrow> string" where
  "setting_text v = (case v of Some (JStr t) \<Rightarrow> t | _ \<Rightarrow> ''None'')"

definition effective_of :: "string \<Rightarrow> world_sys \<Rightarrow> config_error + jdict" where
  "effective_of w s = resolve_effective w \<lparr>cf_ops = ws_ops s, cf_tables = ws_tables s\<rparr>"

text \<open>\<open>a / b\<close> on paths in normal form: an absolute right side stands alone.\<close>

definition path_div :: "string \<Rightarrow> string \<Rightarrow> string" where
  "path_div a b = (if starts_with ''/'' b then b else path_join a b)"

definition world_dir :: "world_row \<Rightarrow> world_sys \<Rightarrow> string" where
  "world_dir w s =
     (if wo_strategy w = ''path'' \<and> starts_with ''/'' (wo_address w) then wo_address w
      else path_div
        (case effective_of (wo_id w) s of
           Inl e \<Rightarrow> ''worlds''
         | Inr eff \<Rightarrow> setting_text (jget ''minecraft_root_path'' eff))
        (wo_display_name w))"

definition log_root :: "string \<Rightarrow> world_sys \<Rightarrow> string" where
  "log_root w s =
     (case effective_of w s of
        Inl e \<Rightarrow> ''logs''
      | Inr eff \<Rightarrow> (case jget ''log_root_path'' eff of
           Some (JStr t) \<Rightarrow> if t = [] then ''logs'' else t
         | _ \<Rightarrow> ''logs''))"

section \<open>The launch\<close>

definition argv_override :: "world_row \<Rightarrow> string list option" where
  "argv_override w = (case wo_launch_args w of
     Some (LaunchArgv (a # as)) \<Rightarrow> Some (a # as) | _ \<Rightarrow> None)"

definition launch_args :: "world_row \<Rightarrow> string list" where
  "launch_args w = (case wo_launch_args w of Some (LaunchExtra server java) \<Rightarrow> server | _ \<Rightarrow> [])"

definition extra_java_args :: "world_row \<Rightarrow> string list" where
  "extra_java_args w = (case wo_launch_args w of Some (LaunchExtra server java) \<Rightarrow> java | _ \<Rightarrow> [])"

definition find_jar :: "world_env \<Rightarrow> string \<Rightarrow> world_sys \<Rightarrow> string" where
  "find_jar E dir s = (case en_jars E (ws_tick s) dir of [] \<Rightarrow> [] | j # _ \<Rightarrow> j)"

definition rcon_port_offset :: int where
  "rcon_port_offset = 10"

definition launch_context :: "world_env \<Rightarrow> world_row \<Rightarrow> LaunchContext world_run" where
  "launch_context E w s =
     (case map_of (ws_javas s) (wo_java_runtime w) of
        None \<Rightarrow> (Inl (WorldLifecycleError (''java runtime missing: '' @ wo_java_runtime w)), s)
      | Some java \<Rightarrow>
          (let dir = world_dir w s; override = argv_override w in
           (Inr \<lparr>lx_world = wo_id w, lx_type = wo_server_type w, lx_version = wo_mc_version w, lx_dir = dir,
              lx_java_path = java, lx_jar = (if override = None then find_jar E dir s else []),
              lx_port = wo_port w, lx_rcon_enabled = True, lx_rcon_port = wo_port w + rcon_port_offset,
              lx_launch_args = (case override of Some argv \<Rightarrow> argv | None \<Rightarrow> launch_args w)\<rparr>,
            tick E s)))"

definition launch_command :: "world_row \<Rightarrow> LaunchContext \<Rightarrow> string list" where
  "launch_command w x =
     (case argv_override w of
        Some argv \<Rightarrow> argv
      | None \<Rightarrow> build_launch_argv (lx_java_path x) (extra_java_args w) (lx_jar x) (lx_launch_args x))"

definition env_of :: "world_env \<Rightarrow> world_sys \<Rightarrow> launch_env" where
  "env_of E s = \<lparr>le_files = ws_files s, le_isdir = ws_dirs s, le_bound = en_bound E (ws_tick s),
     le_run = en_java E (ws_tick s)\<rparr>"

definition eula_audited :: "string \<Rightarrow> store \<Rightarrow> bool" where
  "eula_audited w st \<longleftrightarrow> exists_row (\<lambda>a. au_world a = Some w \<and> au_event a = ''world_eula_accepted'') (audits st)"

text \<open>\<open>_validate_launch\<close>: the EULA file, the audited acceptance, then the gate.  Where a directory has
  the name of the file, opening it raises.\<close>

definition eula_path :: "string \<Rightarrow> path" where
  "eula_path dir = path_parts (path_join dir ''eula.txt'')"

definition eula_unreadable :: "string \<Rightarrow> tree \<Rightarrow> bool" where
  "eula_unreadable dir t \<longleftrightarrow> dir \<noteq> [] \<and> stat t (eula_path dir) = Some Dir"

definition driver_gate :: "world_env \<Rightarrow> world_row \<Rightarrow> LaunchContext \<Rightarrow> GateResult world_run" where
  "driver_gate E w x s =
     (let eula = current_state (ws_files s) (lx_dir x) in
      (if eula_unreadable (lx_dir x) (ws_tree s) then Inl (OtherError ''eula.txt is a directory'') else
       Inr (if eula \<noteq> ACCEPTED
            then (gate_fail ''EULA_NOT_ACCEPTED'' ''eula.txt not accepted'')\<lparr>gr_eula := Some eula\<rparr>
            else if \<not> eula_audited (wo_id w) (ws_store s)
            then (gate_fail ''EULA_NOT_ACCEPTED'' ''EULA acceptance has not been audited'')
              \<lparr>gr_eula := Some UNACCEPTED\<rparr>
            else Minecraft.validate_launch (env_of E s) x), tick E s))"

definition property_line :: "string \<Rightarrow> (string \<times> string) option" where
  "property_line l =
     (let t = strip l in
      if t = [] \<or> starts_with ''#'' t then None
      else map_option (\<lambda>(k, v). (strip k, strip v)) (split_once (CHR ''='') t))"

definition read_properties :: "string list \<Rightarrow> (string \<times> string) list" where
  "read_properties ls = foldl (\<lambda>d l. case property_line l of None \<Rightarrow> d | Some (k, v) \<Rightarrow> dict_set k v d) [] ls"

definition rcon_properties :: "int \<Rightarrow> string \<Rightarrow> (string \<times> string) list \<Rightarrow> (string \<times> string) list" where
  "rcon_properties port pw props =
     dict_set ''rcon.password'' pw (dict_set ''rcon.port'' (int_dec port) (dict_set ''enable-rcon'' ''true'' props))"

definition rcon_text :: "int \<Rightarrow> string \<Rightarrow> string option \<Rightarrow> string" where
  "rcon_text port pw old = file_text (map (\<lambda>(k, v). k @ ''='' @ v) (rcon_properties port pw
     (case old of None \<Rightarrow> [] | Some t \<Rightarrow> read_properties (splitlines (universal_newlines t)))))"

text \<open>The file is rewritten in the directory of the world, with the directory made where it is
  missing: what was done before a failure stays.\<close>

definition rewrite_properties :: "path \<Rightarrow> int \<Rightarrow> string \<Rightarrow> tree \<Rightarrow> bool \<times> tree" where
  "rewrite_properties dir port pw t =
     (let place = dir @ [''server.properties''] in
      case make_dirs [] dir t of
        None \<Rightarrow> (False, t)
      | Some t1 \<Rightarrow>
          (if stat t1 place = Some Dir then (False, t1)
           else case write_file place (rcon_text port pw
               (case stat t1 place of Some (File x) \<Rightarrow> Some x | _ \<Rightarrow> None)) t1 of
             None \<Rightarrow> (False, t1)
           | Some t2 \<Rightarrow> (True, t2)))"

definition provision_rcon :: "world_env \<Rightarrow> LaunchContext \<Rightarrow> (int \<times> string) world_run" where
  "provision_rcon E x s =
     (let port = lx_rcon_port x; pw = en_ids E (ws_tick s) 0 in
      case rewrite_properties (path_parts (lx_dir x)) port pw (ws_tree s) of
        (ok, t) \<Rightarrow> (if ok then Inr (port, pw) else Inl (OtherError ''server.properties cannot be written''),
                      (tick E s)\<lparr>ws_tree := t\<rparr>))"

section \<open>Runtime sessions\<close>

fun has_text :: "string \<Rightarrow> string \<Rightarrow> bool" where
  "has_text p [] = (p = [])"
| "has_text p (c # t) = (starts_with p (c # t) \<or> has_text p t)"

definition launch_marker :: "string list \<Rightarrow> string" where
  "launch_marker argv =
     (case find_row (\<lambda>p. has_text ''--marker='' p \<or> ends_with ''.jar'' p) argv of
        Some p \<Rightarrow> p
      | None \<Rightarrow> if argv = [] then [] else last argv)"

definition open_row :: "string \<Rightarrow> runtime_session_row \<Rightarrow> bool" where
  "open_row w r \<longleftrightarrow> rs_world r = w \<and> rs_ended_at r = None"

definition insert_session :: "runtime_session_row \<Rightarrow> world_sys \<Rightarrow> store option" where
  "insert_session r s =
     (let st = ws_store s in
      if exists_row (\<lambda>x. rs_id x = rs_id r) (runtime_sessions st) \<or>
         exists_row (open_row (rs_world r)) (runtime_sessions st) \<or> \<not> fk_world (Some (rs_world r)) st \<or>
         \<not> list_ex (\<lambda>k. fst k = rs_rcon_secret r) (ws_secrets s) \<or>
         \<not> list_ex (\<lambda>j. fst j = rs_java r) (ws_javas s)
      then None else Some (st\<lparr>runtime_sessions := runtime_sessions st @ [r]\<rparr>))"

abbreviation set_store :: "store \<Rightarrow> world_sys \<Rightarrow> world_sys" where
  "set_store st s \<equiv> s\<lparr>ws_ops := (ws_ops s)\<lparr>os_store := st\<rparr>\<rparr>"

definition open_session ::
  "world_env \<Rightarrow> world_row \<Rightarrow> LaunchContext \<Rightarrow> ProcessHandle \<Rightarrow> string list \<Rightarrow> int \<Rightarrow> string \<Rightarrow> string
    \<Rightarrow> string world_run" where
  "open_session E w x h argv port pw sid s =
     (let has = port \<noteq> 0 \<and> pw \<noteq> []; key = ''sec_'' @ en_ids E (ws_tick s) 0;
          s1 = (if has then s\<lparr>ws_secrets := ws_secrets s @ [(key, pw)]\<rparr> else s); now = now_at E s;
          r = \<lparr>rs_id = sid, rs_world = wo_id w, rs_started_at = now, rs_ended_at = None,
               rs_end_reason = None, rs_rcon_secret = (if has then key else []), rs_port = wo_port w,
               rs_java = wo_java_runtime w,
               rs_snapshot = \<lparr>ln_argv = argv, ln_pid = ph_pid h, ln_epoch = ph_epoch h, ln_cwd = lx_dir x,
                              ln_marker = launch_marker argv\<rparr>,
               rs_rcon_port = Some port, rs_created_at = now\<rparr> in
      if \<not> has then (Inl (OtherError ''NOT NULL constraint failed''), tick E s)
      else case insert_session r s1 of
             None \<Rightarrow> (Inl (OtherError ''UNIQUE constraint failed''), tick E s1)
           | Some st \<Rightarrow> (Inr sid, set_store st (tick E s1)))"

definition close_session :: "world_env \<Rightarrow> string \<Rightarrow> EndReason \<Rightarrow> unit world_run" where
  "close_session E w reason s =
     (let st = ws_store s; now = now_at E s in
      (Inr (), set_store (st\<lparr>runtime_sessions := update_rows (open_row w)
          (\<lambda>r. r\<lparr>rs_ended_at := Some now, rs_end_reason := Some reason\<rparr>) (runtime_sessions st)\<rparr>) (tick E s)))"

definition open_sessions :: "store \<Rightarrow> runtime_session_row list" where
  "open_sessions st = filter (\<lambda>r. rs_ended_at r = None) (runtime_sessions st)"

section \<open>The state of a world\<close>

fun intent_value :: "WorldTransitionIntent \<Rightarrow> string" where
  "intent_value ORDINARY = ''ordinary''"
| "intent_value CRASH_ACKNOWLEDGEMENT = ''crash_acknowledgement''"
| "intent_value ERROR_ACKNOWLEDGEMENT = ''error_acknowledgement''"
| "intent_value EULA_ACCEPTANCE = ''eula_acceptance''"

fun transition_text :: "transition_error \<Rightarrow> string" where
  "transition_text (Tombstoned i) = ''world '' @ i @ '' is tombstoned''"
| "transition_text (NotAllowed i old new) =
     ''world '' @ i @ '' cannot transition from '' @ world_state_value old @ '' to '' @ world_state_value new"
| "transition_text (RequiresIntent old req) =
     ''transition from '' @ world_state_value old @ '' to off requires '' @ intent_value req"
| "transition_text (IntentNotValid i old new) =
     intent_value i @ '' is not valid for transition from '' @ world_state_value old @ '' to '' @
     world_state_value new"
| "transition_text MustRestorePreBackup = ''a backup must restore the world to pre_backup_state or enter error''"
| "transition_text NotOffForDelete = ''only an off world can be deleted''"
| "transition_text (FromInvariant e) = ''domain invariant violated''"

definition state_event :: "string \<Rightarrow> WorldState \<Rightarrow> WorldState \<Rightarrow> int \<Rightarrow> WorldTransitionIntent \<Rightarrow> jdict" where
  "state_event w old new at intent =
     [(''world_id'', JStr w), (''state'', JStr (world_state_value new)),
      (''previous_state'', JStr (world_state_value old)), (''at'', JInt at),
      (''reason'', JStr (intent_value intent))]"

text \<open>The entity the driver builds from the row leaves out the tombstone.\<close>

definition moved_world ::
  "world_row \<Rightarrow> WorldState \<Rightarrow> int \<Rightarrow> WorldTransitionIntent \<Rightarrow> world_error + WorldInstance" where
  "moved_world r new now intent =
     (case make_world (wo_id r) (wo_state r) (wo_pre_backup r) None of
        Inl e \<Rightarrow> Inl (OtherError ''domain invariant violated'')
      | Inr w \<Rightarrow>
          (case transition_world w new now intent of
             Inl e \<Rightarrow> Inl (WorldConflictError (transition_text e))
           | Inr (w', ev) \<Rightarrow> Inr w'))"

definition set_world_state ::
  "world_env \<Rightarrow> string \<Rightarrow> WorldState \<Rightarrow> WorldTransitionIntent \<Rightarrow> unit world_run" where
  "set_world_state E w new intent s =
     (let st = ws_store s; now = now_at E s in
      case find_world w st of
        None \<Rightarrow> (Inl (WorldNotFoundError (''world not found: '' @ w)), tick E s)
      | Some r \<Rightarrow>
          (case moved_world r new now intent of
             Inl e \<Rightarrow> (Inl e, tick E s)
           | Inr w' \<Rightarrow>
               (let st' = st\<lparr>worlds := update_rows (\<lambda>x. wo_id x = w)
                      (\<lambda>x. x\<lparr>wo_state := wi_state w', wo_pre_backup := wi_pre_backup w', wo_updated_at := now\<rparr>)
                      (worlds st)\<rparr>;
                    ops = (ws_ops s)\<lparr>os_store := st'\<rparr> in
                (Inr (), (tick E s)\<lparr>ws_ops := (if wo_state r = new then ops
                   else op_publish ''world.state'' (state_event w (wo_state r) new now intent) (Some w) ops)\<rparr>))))"

abbreviation put_state :: "world_env \<Rightarrow> string \<Rightarrow> WorldState \<Rightarrow> unit world_run" where
  "put_state E w new \<equiv> set_world_state E w new ORDINARY"

section \<open>Handles and consoles\<close>

definition resolve_handle :: "world_env \<Rightarrow> string \<Rightarrow> ProcessHandle option world_run" where
  "resolve_handle E w = bind_run (ask E (en_probe E) OtherError (Probe w [] None))
     (\<lambda>p. ret (if pr_found p then pr_handle p else None))"

text \<open>The newest open session of a world: \<open>ORDER BY created_at DESC LIMIT 1\<close>.\<close>

definition newest_session :: "string \<Rightarrow> store \<Rightarrow> runtime_session_row option" where
  "newest_session w st =
     (case sort_key (\<lambda>r. - rs_created_at r) (filter (open_row w) (runtime_sessions st)) of
        [] \<Rightarrow> None | r # _ \<Rightarrow> Some r)"

definition rcon_command_quiet :: "world_env \<Rightarrow> string \<Rightarrow> string \<Rightarrow> unit world_run" where
  "rcon_command_quiet E w c =
     bind_run (gets (\<lambda>s. newest_session w (ws_store s))) (\<lambda>row.
       case row of
         None \<Rightarrow> ret ()
       | Some r \<Rightarrow>
           (case rs_rcon_port r of
              None \<Rightarrow> ret ()
            | Some port \<Rightarrow>
                (if port = 0 \<or> rs_rcon_secret r = [] then ret ()
                 else bind_run (gets (\<lambda>s. map_of (ws_secrets s) (rs_rcon_secret r)))
                   (\<lambda>k. bind_run (of_option (OtherError (rs_rcon_secret r)) k)
                     (\<lambda>pw. finally_run
                        (then_run (ask E (en_connect E) RconFailed (RconConnect port pw))
                          (bind_run (ask E (en_command E) RconFailed (RconCommand port c)) (\<lambda>_. ret ())))
                        (tell E (RconClose port)))))))"

end
