(* ===== verification/Worlds.thy ===== *)
theory Worlds
  imports Worlds_Env
begin

text \<open>
  Starting, stopping and killing worlds, and accepting the EULA
  (\<open>app/services/worlds.py\<close>, \<open>enqueue_start\<close> to \<open>kill\<close>).  The two waiting loops are recursive
  functions that end because a round sleeps: the readiness loop at least 250 ms, the exit loop
  500 ms.
\<close>

section \<open>Waiting for readiness\<close>

record rcon_watch =
  rw_client :: bool
  rw_ready :: bool
  rw_valid :: bool

definition rcon_idle :: rcon_watch where
  "rcon_idle = \<lparr>rw_client = False, rw_ready = False, rw_valid = False\<rparr>"

fun readiness_value :: "ServerReadinessLevel \<Rightarrow> string" where
  "readiness_value PROCESS_ALIVE = ''process_alive''"
| "readiness_value PORT_BOUND = ''port_bound''"
| "readiness_value RCON_READY = ''rcon_ready''"
| "readiness_value PROBE_OK = ''probe_ok''"
| "readiness_value OPERATIONALLY_VALID = ''operationally_valid''"

definition watch_console :: "world_env \<Rightarrow> int \<Rightarrow> string \<Rightarrow> rcon_watch \<Rightarrow> rcon_watch world_run" where
  "watch_console E port pw wt =
     (if \<not> rw_client wt then
        try_run (then_run (ask E (en_connect E) RconFailed (RconConnect port pw))
            (bind_run (ask E (en_ping E) RconFailed (RconPing port))
              (\<lambda>b. ret (wt\<lparr>rw_client := True, rw_ready := b\<rparr>))))
          (\<lambda>_. then_run (tell E (RconClose port)) (ret (wt\<lparr>rw_client := False\<rparr>)))
      else if \<not> rw_ready wt then
        try_run (bind_run (ask E (en_ping E) RconFailed (RconPing port)) (\<lambda>b. ret (wt\<lparr>rw_ready := b\<rparr>)))
          (\<lambda>_. then_run (tell E (RconClose port)) (ret (wt\<lparr>rw_ready := False, rw_client := False\<rparr>)))
      else ret wt)"

definition console_answers :: "world_env \<Rightarrow> ServerType \<Rightarrow> int \<Rightarrow> rcon_watch \<Rightarrow> rcon_watch world_run" where
  "console_answers E ty port wt =
     try_run (bind_run (ask E (en_command E) RconFailed (RconCommand port ''list'')) (\<lambda>t.
         if strip t \<noteq> [] \<and> ty = PAPER \<and> cap_paper_api (capabilities_for ty)
         then bind_run (ask E (en_command E) RconFailed (RconCommand port ''tps''))
                (\<lambda>t2. ret (wt\<lparr>rw_valid := strip t2 \<noteq> []\<rparr>))
         else ret (wt\<lparr>rw_valid := strip t \<noteq> []\<rparr>)))
       (\<lambda>_. ret (wt\<lparr>rw_valid := False\<rparr>))"

definition probe_console :: "world_env \<Rightarrow> ServerType \<Rightarrow> int \<Rightarrow> string \<Rightarrow> rcon_watch \<Rightarrow> rcon_watch world_run" where
  "probe_console E ty port pw wt =
     (if port = 0 \<or> pw = [] then ret wt
      else bind_run (watch_console E port pw wt) (\<lambda>wt1.
        if rw_client wt1 \<and> rw_ready wt1 \<and> target_level_for ty = OPERATIONALLY_VALID
        then console_answers E ty port wt1 else ret wt1))"

text \<open>One round: \<open>Some\<close> level when the target is reached, \<open>None\<close> after the sleep otherwise.\<close>

definition measured_level :: "world_env \<Rightarrow> world_row \<Rightarrow> rcon_watch \<Rightarrow> world_sys \<Rightarrow> ServerReadinessLevel" where
  "measured_level E r wt s =
     evaluate (wo_server_type r) (capabilities_for (wo_server_type r))
       (build_state (en_signals E (ws_tick s)) True (wo_port r) (rw_ready wt) False (rw_valid wt) True) True"

definition end_round ::
  "world_env \<Rightarrow> world_row \<Rightarrow> int \<Rightarrow> rcon_watch \<Rightarrow> (ServerReadinessLevel option \<times> rcon_watch) world_run" where
  "end_round E r port wt s =
     (let level = measured_level E r wt s in
      if target_level_for (wo_server_type r) \<le> level
      then then_run (when_run (rw_client wt) (tell E (RconClose port))) (ret (Some level, wt)) (tick E s)
      else (Inr (None, wt), sleep 250 (tick E s)))"

definition await_round ::
  "world_env \<Rightarrow> world_row \<Rightarrow> ProcessHandle \<Rightarrow> int \<Rightarrow> string \<Rightarrow> rcon_watch
    \<Rightarrow> (ServerReadinessLevel option \<times> rcon_watch) world_run" where
  "await_round E r h port pw wt =
     bind_run (ask E (en_poll E) OtherError (Poll h)) (\<lambda>p.
       if \<not> alive p
       then raise (StartTimeoutError (''world '' @ wo_id r @ '' process exited before ready: '' @
              exit_class_value (ps_exit p)))
       else bind_run (probe_console E (wo_server_type r) port pw wt) (end_round E r port))"

definition teardown :: "world_env \<Rightarrow> ProcessHandle \<Rightarrow> int \<Rightarrow> unit world_run" where
  "teardown E h grace = finally_run
     (bind_run (ask E (en_terminate E) OtherError (Terminate h grace)) (\<lambda>_. ret ()))
     (tell E (CloseHandle h))"

section \<open>Time passes\<close>

interpretation clock: state_order "\<lambda>s t. ws_time s \<le> ws_time t"
  by unfold_locales auto

lemma clock_ask [stay_rules]: "clock.stays (ask E f err c)"
  by (simp add: clock.stays_def ask_def tick_def)

lemma clock_tell [stay_rules]: "clock.stays (tell E c)"
  by (simp add: tell_def clock_ask)

lemma clock_probe_console: "clock.stays (probe_console E ty port pw wt)"
  unfolding probe_console_def watch_console_def console_answers_def by (intro stay_rules)

lemma end_round_sleeps:
  "end_round E r port wt s = (Inr (None, wt'), s') \<Longrightarrow> ws_time s + 250 \<le> ws_time s'"
  by (auto simp: end_round_def Let_def run_simps sleep_def tick_def split: if_splits)

lemma await_round_sleeps:
  assumes "await_round E r h port pw wt s = (Inr (None, wt'), s')"
  shows "ws_time s + 250 \<le> ws_time s'"
proof -
  obtain p s1 wt1 s2 where *: "ask E (en_poll E) OtherError (Poll h) s = (Inr p, s1)"
    "probe_console E (wo_server_type r) port pw wt s1 = (Inr wt1, s2)"
    "end_round E r port wt1 s2 = (Inr (None, wt'), s')"
    using assms by (auto simp: await_round_def run_simps split: if_splits)
  show ?thesis
    using clock.staysD[OF clock_ask *(1)] clock.staysD[OF clock_probe_console *(2)] end_round_sleeps[OF *(3)] by simp
qed

function await_ready ::
  "world_env \<Rightarrow> world_row \<Rightarrow> ProcessHandle \<Rightarrow> int \<Rightarrow> string \<Rightarrow> nat \<Rightarrow> rcon_watch
    \<Rightarrow> ServerReadinessLevel world_run" where
  "await_ready E r h port pw deadline wt s =
     (if ws_time s < deadline then
        (case await_round E r h port pw wt s of
           (Inl e, s') \<Rightarrow> (Inl e, s')
         | (Inr (Some level, _), s') \<Rightarrow> (Inr level, s')
         | (Inr (None, wt'), s') \<Rightarrow> await_ready E r h port pw deadline wt' s')
      else then_run (when_run (rw_client wt) (tell E (RconClose port)))
             (then_run (teardown E h 0)
               (raise (StartTimeoutError (''world '' @ wo_id r @ '' did not reach '' @
                  readiness_value (target_level_for (wo_server_type r)) @ '' in time'')))) s)"
  by pat_completeness auto
termination
proof (relation "measure (\<lambda>(E, r, h, port, pw, deadline, wt, s). deadline - ws_time s)", goal_cases)
  case (2 E r h port pw deadline wt s)
  then show ?case by (auto dest!: await_round_sleeps[OF sym])
qed simp

declare await_ready.simps [simp del]

definition start_readiness_timeout_ms :: nat where
  "start_readiness_timeout_ms = 120000"

definition await_readiness ::
  "world_env \<Rightarrow> world_row \<Rightarrow> ProcessHandle \<Rightarrow> int \<Rightarrow> string \<Rightarrow> ServerReadinessLevel world_run" where
  "await_readiness E r h port pw s =
     await_ready E r h port pw (ws_time s + start_readiness_timeout_ms) rcon_idle s"

section \<open>Start\<close>

fun busy :: "WorldState \<Rightarrow> bool" where
  "busy WS_STARTING = True"
| "busy WS_RUNNING = True"
| "busy WS_STOPPING = True"
| "busy _ = False"

definition already :: "world_row \<Rightarrow> world_error" where
  "already r = WorldConflictError (''world '' @ wo_id r @ '' is already '' @ world_state_value (wo_state r))"

definition or_none :: "string option \<Rightarrow> string" where
  "or_none m = (case m of None \<Rightarrow> ''None'' | Some t \<Rightarrow> t)"

definition gate_error :: "GateResult \<Rightarrow> world_error" where
  "gate_error g = WorldLifecycleError (or_none (gr_code g) @ '': '' @ or_none (gr_detail g))"

definition wants_eula :: "GateResult \<Rightarrow> bool" where
  "wants_eula g \<longleftrightarrow> gr_code g = Some ''EULA_NOT_ACCEPTED''"

text \<open>The checks before any operation exists, the same in \<open>enqueue_start\<close> and \<open>start\<close>.\<close>

definition precheck_start :: "world_env \<Rightarrow> string \<Rightarrow> unit world_run" where
  "precheck_start E w =
     bind_run (world_of w) (\<lambda>r.
     then_run (check (\<not> busy (wo_state r)) (already r))
     (bind_run (launch_context E r) (\<lambda>x.
      bind_run (driver_gate E r x) (\<lambda>g.
        if gr_passed g then ret ()
        else then_run (when_run (wants_eula g) (put_state E w WS_EULA_REQUIRED)) (raise (gate_error g))))))"

definition spawn_request :: "world_row \<Rightarrow> LaunchContext \<Rightarrow> string \<Rightarrow> string \<Rightarrow> SpawnRequest" where
  "spawn_request r x sid logs = \<lparr>sp_world = wo_id r, sp_command = launch_command r x, sp_cwd = lx_dir x,
     sp_session = sid, sp_log_dir = path_div logs (wo_id r)\<rparr>"

text \<open>From a live process to a completed operation.\<close>

definition bring_up ::
  "world_env \<Rightarrow> string \<Rightarrow> world_row \<Rightarrow> LaunchContext \<Rightarrow> int \<Rightarrow> string \<Rightarrow> string \<Rightarrow> ProcessHandle
    \<Rightarrow> string world_run" where
  "bring_up E oid r x port pw sid h =
     then_run (open_session E r x h (launch_command r x) port pw sid)
     (bind_run (gets ws_logs) (\<lambda>logs.
      then_run (when_run logs (ask E (en_tail E) OtherError (Tail h)))
      (bind_run (await_readiness E r h port pw) (\<lambda>level.
       then_run (put_state E (wo_id r) WS_RUNNING)
       (then_run (move_op E oid OS_COMPLETED
          ((staged [(''stage'', JStr ''running''), (''readiness'', JStr (readiness_value level)),
             (''session_id'', JStr sid)])\<lparr>ti_data := Some [(''session_id'', JStr sid)]\<rparr>))
        (ret sid))))))"

definition fresh_session_id :: "world_env \<Rightarrow> string world_run" where
  "fresh_session_id E s = (Inr (''rs_'' @ en_ids E (ws_tick s) 0), tick E s)"

definition launch_process ::
  "world_env \<Rightarrow> string \<Rightarrow> world_row \<Rightarrow> LaunchContext \<Rightarrow> int \<Rightarrow> string \<Rightarrow> string world_run" where
  "launch_process E oid r x port pw =
     bind_run (fresh_session_id E) (\<lambda>sid.
     then_run (put_state E (wo_id r) WS_QUEUED)
     (then_run (put_state E (wo_id r) WS_STARTING)
     (bind_run (gets (log_root (wo_id r))) (\<lambda>logs.
      bind_run (ask E (en_spawn E) OtherError (Spawn (spawn_request r x sid logs))) (\<lambda>res.
        case sr_handle res of
          None \<Rightarrow> then_run (fail_op E oid ''SPAWN_FAILED'' (sr_error res))
            (then_run (put_state E (wo_id r) WS_ERROR)
              (raise (SpawnFailedError (case sr_error res of None \<Rightarrow> ''spawn failed''
                 | Some m \<Rightarrow> if m = [] then ''spawn failed'' else m))))
        | Some h \<Rightarrow> bring_up E oid r x port pw sid h)))))"

definition launch_world :: "world_env \<Rightarrow> string \<Rightarrow> world_row \<Rightarrow> LaunchContext \<Rightarrow> string world_run" where
  "launch_world E oid r x =
     bind_run (provision_rcon E x) (\<lambda>(port, pw). launch_process E oid r x port pw)"

definition start_refused :: "world_env \<Rightarrow> string \<Rightarrow> string \<Rightarrow> GateResult \<Rightarrow> string world_run" where
  "start_refused E w oid g =
     then_run (fail_op E oid (case gr_code g of None \<Rightarrow> ''GATE_REJECTED'' | Some c \<Rightarrow> c) (gr_detail g))
     (then_run (put_state E w (if wants_eula g then WS_EULA_REQUIRED else WS_ERROR)) (raise (gate_error g)))"

definition start_gated :: "world_env \<Rightarrow> string \<Rightarrow> string \<Rightarrow> world_row \<Rightarrow> string world_run" where
  "start_gated E w oid r =
     (if busy (wo_state r) then
        then_run (move_op E oid OS_CANCELLED
          (plain_transition\<lparr>ti_message := Some ''conflict with current state''\<rparr>)) (raise (already r))
      else bind_run (launch_context E r) (\<lambda>x.
       bind_run (driver_gate E r x) (\<lambda>g.
        if gr_passed g then launch_world E oid r x else start_refused E w oid g)))"

definition start_body :: "world_env \<Rightarrow> string \<Rightarrow> string \<Rightarrow> string world_run" where
  "start_body E w oid =
     then_run (move_op E oid OS_RUNNING (staged [(''stage'', JStr ''validating'')]))
     (bind_run (world_of w) (start_gated E w oid))"

definition start_failed :: "world_env \<Rightarrow> string \<Rightarrow> string \<Rightarrow> world_error \<Rightarrow> string world_run" where
  "start_failed E w oid e =
     (case e of
        StartTimeoutError m \<Rightarrow>
          then_run (close_session E w ER_CRASHED)
          (then_run (put_state E w WS_ERROR)
          (then_run (move_op E oid OS_TIMED_OUT (failure ''START_TIMEOUT'' (Some m))) (raise e)))
      | _ \<Rightarrow>
          (if lifecycle_error e then raise e
           else then_run (fail_op E oid ''START_ERROR'' (Some (error_text e)))
             (then_run (put_state E w WS_ERROR) (raise (WorldLifecycleError (error_text e))))))"

definition op_for :: "world_env \<Rightarrow> OperationInput \<Rightarrow> bool \<Rightarrow> string option \<Rightarrow> string world_run" where
  "op_for E req allow oid =
     (case oid of
        Some i \<Rightarrow> ret i
      | None \<Rightarrow> bind_run (create_op E req allow) (\<lambda>(r, _). ret (op_id r)))"

definition start ::
  "world_env \<Rightarrow> string \<Rightarrow> ActorType \<Rightarrow> string option \<Rightarrow> bool \<Rightarrow> string option \<Rightarrow> string world_run" where
  "start E w actor user allow oid =
     then_run (precheck_start E w)
     (bind_run (op_for E (request_for START actor w user) allow oid) (\<lambda>i.
      try_run (start_body E w i) (start_failed E w i)))"

section \<open>Queueing\<close>

definition keyed_request :: "OperationType \<Rightarrow> ActorType \<Rightarrow> string \<Rightarrow> string option \<Rightarrow> string \<Rightarrow> OperationInput" where
  "keyed_request ty actor w user key = (request_for ty actor w user)\<lparr>oi_key := Some key\<rparr>"

definition enqueue_start ::
  "world_env \<Rightarrow> string \<Rightarrow> ActorType \<Rightarrow> string option \<Rightarrow> string \<Rightarrow> (op_row \<times> bool) world_run" where
  "enqueue_start E w actor user key =
     bind_run (gets (\<lambda>s. find_by_key START key (ws_store s))) (\<lambda>r.
       case r of
         Some o' \<Rightarrow> ret (o', True)
       | None \<Rightarrow> then_run (precheck_start E w) (create_op E (keyed_request START actor w user key) False))"

definition enqueue_stop ::
  "world_env \<Rightarrow> string \<Rightarrow> ActorType \<Rightarrow> string option \<Rightarrow> string \<Rightarrow> (op_row \<times> bool) world_run" where
  "enqueue_stop E w actor user key =
     bind_run (gets (\<lambda>s. find_by_key STOP key (ws_store s))) (\<lambda>r.
       case r of
         Some o' \<Rightarrow> ret (o', True)
       | None \<Rightarrow> then_run (world_of w) (create_op E (keyed_request STOP actor w user key) False))"

definition enqueue_kill ::
  "world_env \<Rightarrow> string \<Rightarrow> ActorType \<Rightarrow> string option \<Rightarrow> string \<Rightarrow> (op_row \<times> bool) world_run" where
  "enqueue_kill E w actor user key =
     bind_run (gets (\<lambda>s. find_by_key KILL key (ws_store s))) (\<lambda>r.
       case r of
         Some o' \<Rightarrow> ret (o', True)
       | None \<Rightarrow> then_run (world_of w) (create_op E (keyed_request KILL actor w user key) False))"

section \<open>Stop and kill\<close>

definition exit_poll :: "world_env \<Rightarrow> ProcessHandle \<Rightarrow> bool world_run" where
  "exit_poll E h = bind_run (ask E (en_poll E) OtherError (Poll h)) (\<lambda>p. ret (\<not> alive p))"

lemma clock_exit_poll [stay_rules]: "clock.stays (exit_poll E h)"
  unfolding exit_poll_def by (intro stay_rules)

function wait_loop :: "world_env \<Rightarrow> ProcessHandle \<Rightarrow> nat \<Rightarrow> bool world_run" where
  "wait_loop E h deadline s =
     (if ws_time s < deadline then
        (case exit_poll E h s of
           (Inl e, s') \<Rightarrow> (Inl e, s')
         | (Inr True, s') \<Rightarrow> (Inr True, s')
         | (Inr False, s') \<Rightarrow> wait_loop E h deadline (sleep 500 s'))
      else exit_poll E h s)"
  by pat_completeness auto
termination
proof (relation "measure (\<lambda>(E, h, deadline, s). deadline - ws_time s)", goal_cases)
  case (2 E h deadline s)
  then show ?case by (auto simp: sleep_def dest!: clock.staysD[OF clock_exit_poll, OF sym])
qed simp

declare wait_loop.simps [simp del]

definition wait_exit :: "world_env \<Rightarrow> ProcessHandle \<Rightarrow> nat \<Rightarrow> bool world_run" where
  "wait_exit E h timeout_s s = wait_loop E h (ws_time s + timeout_s * 1000) s"

definition stop_graceful_deadline :: nat where
  "stop_graceful_deadline = 60"

text \<open>The ladder of a stop: the console, the standard input, then the process adapter.\<close>

definition stop_by_console :: "world_env \<Rightarrow> string \<Rightarrow> ProcessHandle \<Rightarrow> bool world_run" where
  "stop_by_console E w h =
     try_run (then_run (rcon_command_quiet E w ''stop'') (wait_exit E h stop_graceful_deadline))
       (\<lambda>e. case e of RconFailed m \<Rightarrow> ret False | _ \<Rightarrow> raise e)"

definition stop_by_stdin :: "world_env \<Rightarrow> ProcessHandle \<Rightarrow> bool world_run" where
  "stop_by_stdin E h =
     bind_run (ask E (en_stdin E) OtherError (WriteStdin h ''stop'')) (\<lambda>delivered.
       if delivered then wait_exit E h stop_graceful_deadline else ret False)"

definition stop_by_terminate :: "world_env \<Rightarrow> ProcessHandle \<Rightarrow> bool world_run" where
  "stop_by_terminate E h =
     bind_run (ask E (en_terminate E) OtherError (Terminate h (int stop_graceful_deadline))) (\<lambda>o'.
       ret (tr_resolved o' \<and> has_text ''grace'' (exit_class_value (tr_exit o'))))"

definition attempt_graceful_stop :: "world_env \<Rightarrow> string \<Rightarrow> bool world_run" where
  "attempt_graceful_stop E w =
     bind_run (resolve_handle E w) (\<lambda>hd'.
       case hd' of
         None \<Rightarrow> ret True
       | Some h \<Rightarrow>
           bind_run (stop_by_console E w h) (\<lambda>gone.
            if gone then ret True
            else bind_run (stop_by_stdin E h) (\<lambda>gone2.
              if gone2 then ret True else stop_by_terminate E h)))"

definition stop_body :: "world_env \<Rightarrow> string \<Rightarrow> string \<Rightarrow> string world_run" where
  "stop_body E w oid =
     then_run (move_op E oid OS_RUNNING (staged [(''stage'', JStr ''stopping'')]))
     (then_run (put_state E w WS_STOPPING)
     (bind_run (attempt_graceful_stop E w) (\<lambda>closed.
      then_run (close_session E w (if closed then GRACEFUL_STOP else FORCED_STOP))
      (then_run (put_state E w WS_OFF)
      (then_run (move_op E oid OS_COMPLETED (staged [(''stage'', JStr ''off''), (''graceful'', JBool closed)]))
        (ret oid))))))"

definition ladder_failed :: "world_env \<Rightarrow> string \<Rightarrow> string \<Rightarrow> world_error \<Rightarrow> string world_run" where
  "ladder_failed E code oid e =
     then_run (fail_op E oid code (Some (error_text e))) (raise (WorldLifecycleError (error_text e)))"

definition stop :: "world_env \<Rightarrow> string \<Rightarrow> ActorType \<Rightarrow> string option \<Rightarrow> string option \<Rightarrow> string world_run" where
  "stop E w actor user oid =
     then_run (world_of w)
     (bind_run (op_for E (request_for STOP actor w user) False oid) (\<lambda>i.
      try_run (stop_body E w i) (ladder_failed E ''STOP_ERROR'' i)))"

definition kill_body :: "world_env \<Rightarrow> string \<Rightarrow> string \<Rightarrow> string world_run" where
  "kill_body E w oid =
     then_run (move_op E oid OS_RUNNING (staged [(''stage'', JStr ''killing'')]))
     (then_run (put_state E w WS_STOPPING)
     (bind_run (resolve_handle E w) (\<lambda>hd'.
      then_run (case hd' of
                  None \<Rightarrow> ret ()
                | Some h \<Rightarrow> bind_run (ask E (en_terminate E) OtherError (Terminate h 0)) (\<lambda>_. ret ()))
      (then_run (close_session E w FORCED_STOP)
      (then_run (put_state E w WS_OFF)
      (then_run (move_op E oid OS_COMPLETED (staged [(''stage'', JStr ''off'')])) (ret oid)))))))"

definition kill :: "world_env \<Rightarrow> string \<Rightarrow> ActorType \<Rightarrow> string option \<Rightarrow> string option \<Rightarrow> string world_run" where
  "kill E w actor user oid =
     then_run (world_of w)
     (bind_run (op_for E (request_for KILL actor w user) False oid) (\<lambda>i.
      try_run (kill_body E w i) (ladder_failed E ''KILL_ERROR'' i)))"

section \<open>Accepting the EULA\<close>

definition audit_call :: "world_env \<Rightarrow> audit_input \<Rightarrow> unit world_run" where
  "audit_call E i s =
     (case audit_write (en_ids E (ws_tick s) 0) (now_at E s) i (ws_store s) of
        None \<Rightarrow> (Inl (OtherError ''FOREIGN KEY constraint failed''), tick E s)
      | Some st \<Rightarrow> (Inr (), set_store st (tick E s)))"

definition eula_payload :: "string \<Rightarrow> jdict" where
  "eula_payload w = [(''entity'', JStr ''eula''), (''row_id'', JStr w),
     (''before'', JObj [(''accepted'', JBool False)]), (''after'', JObj [(''accepted'', JBool True)])]"

definition eula_request :: "string \<Rightarrow> string \<Rightarrow> OperationInput" where
  "eula_request w user = (request_for CONFIG_EDIT ACTOR_USER w (Some user))\<lparr>oi_data := Some (eula_payload w)\<rparr>"

definition eula_audit :: "string \<Rightarrow> string \<Rightarrow> string option \<Rightarrow> store \<Rightarrow> audit_input" where
  "eula_audit w user ip st =
     \<lparr>ai_event = ''world_eula_accepted'', ai_actor = snapshot_for_user user None None ip st,
      ai_operation = None, ai_world = Some w, ai_payload = Some [(''accepted'', JBool True)],
      ai_target = None, ai_annotation = None, ai_when = None\<rparr>"

definition write_eula_audit :: "world_env \<Rightarrow> string \<Rightarrow> string \<Rightarrow> string option \<Rightarrow> unit world_run" where
  "write_eula_audit E w user ip s = audit_call E (eula_audit w user ip (ws_store s)) s"

definition write_eula :: "world_row \<Rightarrow> string \<Rightarrow> unit world_run" where
  "write_eula r user s =
     (case write_file (eula_path (world_dir r s)) (acceptance_text (Some user)) (ws_tree s) of
        None \<Rightarrow> (Inl (OtherError ''eula.txt cannot be written''), s)
      | Some t \<Rightarrow> (Inr (), s\<lparr>ws_tree := t\<rparr>))"

definition eula_body :: "world_env \<Rightarrow> world_row \<Rightarrow> string \<Rightarrow> string option \<Rightarrow> string \<Rightarrow> op_row world_run" where
  "eula_body E r user ip oid =
     then_run (write_eula_audit E (wo_id r) user ip)
     (then_run (write_eula r user)
     (then_run (set_world_state E (wo_id r) WS_OFF EULA_ACCEPTANCE)
     (then_run (move_op E oid OS_COMPLETED (plain_transition\<lparr>ti_data := Some (eula_payload (wo_id r))\<rparr>))
     (bind_run (gets (\<lambda>s. find_op oid (ws_store s)))
        (of_option (WorldLifecycleError ''EULA acceptance operation disappeared.''))))))"

definition eula_failed :: "world_env \<Rightarrow> string \<Rightarrow> string \<Rightarrow> world_error \<Rightarrow> op_row world_run" where
  "eula_failed E w oid e =
     then_run (move_op E oid OS_FAILED ((failure ''EULA_ACCEPTANCE_FAILED'' (Some (error_text e)))
         \<lparr>ti_data := Some (eula_payload w)\<rparr>))
       (raise e)"

definition accept_eula :: "world_env \<Rightarrow> string \<Rightarrow> string \<Rightarrow> bool \<Rightarrow> string option \<Rightarrow> op_row world_run" where
  "accept_eula E w user accepted ip =
     then_run (check accepted (WorldLifecycleError ''explicit EULA acceptance is required''))
     (then_run (check (user \<noteq> []) (WorldLifecycleError ''EULA acceptance requires an operator identity''))
     (bind_run (gets ws_audit) (\<lambda>audited.
      then_run (check audited (WorldLifecycleError ''EULA acceptance audit is unavailable''))
      (bind_run (world_of w) (\<lambda>r.
       then_run (check (wo_state r = WS_EULA_REQUIRED) (WorldConflictError ''world is not awaiting EULA acceptance''))
       (bind_run (create_op E (eula_request w user) False) (\<lambda>(o', _).
        then_run (move_op E (op_id o') OS_RUNNING plain_transition)
          (try_run (eula_body E r user ip (op_id o')) (eula_failed E w (op_id o'))))))))))"

end
