(* ===== verification/Backup.thy ===== *)
theory Backup
  imports Worlds Archive
begin

text \<open>
  Backups of worlds (\<open>app/services/backup.py\<close>) and the suspension of autosave around them
  (\<open>app/services/save_coordination.py\<close>), on the state of the world driver: the artifacts are files
  of its tree and rows of its store, and consoles answer as the environment says.  The free space,
  the modification times (in milliseconds) and the wall clock are answers of the environment
  too.  A path is absolute.
\<close>

section \<open>State, environment and errors\<close>

record restore_row =
  rr_id :: string
  rr_world :: string
  rr_operation :: string
  rr_source :: string
  rr_pre_restore :: string
  rr_operator :: string
  rr_outcome :: string
  rr_rollback_of :: "string option"
  rr_started_at :: int
  rr_finished_at :: int

record backup_sys =
  bs_sys :: world_sys
  bs_restores :: "restore_row list"

text \<open>\<open>be_move\<close> says what a failing move leaves at its destination, \<open>None\<close> that it works.\<close>

record backup_env =
  be_world :: world_env
  be_zip :: zip_lib
  be_coordinator :: bool
  be_probe :: bool
  be_free :: "nat \<Rightarrow> path \<Rightarrow> int"
  be_mtime :: "nat \<Rightarrow> path \<Rightarrow> int option"
  be_wall :: "nat \<Rightarrow> int"
  be_move :: "nat \<Rightarrow> tree option"

datatype backup_error =
    BackupIntegrity string
  | SaveCoordination string
  | RestorePrecondition string string
  | ArchiveFailure archive_error
  | DiskFailure
  | RowRefused
  | WorldFailure world_error

type_synonym 'a backup_run = "(backup_sys, backup_error, 'a) action"

abbreviation bs_store :: "backup_sys \<Rightarrow> store" where
  "bs_store s \<equiv> ws_store (bs_sys s)"

abbreviation bs_tree :: "backup_sys \<Rightarrow> tree" where
  "bs_tree s \<equiv> ws_tree (bs_sys s)"

definition put_store :: "store \<Rightarrow> backup_sys \<Rightarrow> backup_sys" where
  "put_store st s = s\<lparr>bs_sys := set_store st (bs_sys s)\<rparr>"

definition put_tree :: "tree \<Rightarrow> backup_sys \<Rightarrow> backup_sys" where
  "put_tree t s = s\<lparr>bs_sys := (bs_sys s)\<lparr>ws_tree := t\<rparr>\<rparr>"

text \<open>A call of the world driver, its exception wrapped.\<close>

definition on_world :: "(world_error \<Rightarrow> backup_error) \<Rightarrow> 'a world_run \<Rightarrow> 'a backup_run" where
  "on_world wrap m s =
     (case m (bs_sys s) of
        (Inl e, t) \<Rightarrow> (Inl (wrap e), s\<lparr>bs_sys := t\<rparr>)
      | (Inr x, t) \<Rightarrow> (Inr x, s\<lparr>bs_sys := t\<rparr>))"

text \<open>A question to the environment about the host.\<close>

definition host :: "backup_env \<Rightarrow> (nat \<Rightarrow> 'a) \<Rightarrow> 'a backup_run" where
  "host E f s = (Inr (f (ws_tick (bs_sys s))), s\<lparr>bs_sys := tick (be_world E) (bs_sys s)\<rparr>)"

abbreviation clock_now :: "backup_env \<Rightarrow> int backup_run" where
  "clock_now E \<equiv> host E (en_now (be_world E))"

definition fresh :: "backup_env \<Rightarrow> string \<Rightarrow> string backup_run" where
  "fresh E prefix = host E (\<lambda>n. prefix @ en_ids (be_world E) n 0)"

text \<open>An operation on the files: what it leaves stays also when it fails.\<close>

definition on_tree :: "('e \<Rightarrow> backup_error) \<Rightarrow> (tree \<Rightarrow> ('e + 'a) \<times> tree) \<Rightarrow> 'a backup_run" where
  "on_tree wrap f s = (case f (bs_tree s) of (r, t) \<Rightarrow> (map_sum wrap id r, put_tree t s))"

definition or_disk :: "(tree \<Rightarrow> tree option) \<Rightarrow> unit backup_run" where
  "or_disk f = on_tree (\<lambda>_. DiskFailure)
     (\<lambda>t. case f t of None \<Rightarrow> (Inl (), t) | Some t' \<Rightarrow> (Inr (), t'))"

definition remove_file :: "path \<Rightarrow> unit backup_run" where
  "remove_file p = change (\<lambda>s. put_tree (unlink p (bs_tree s)) s)"

definition path_text :: "path \<Rightarrow> string" where
  "path_text p = CHR ''/'' # posix_name p"

section \<open>Autosave\<close>

text \<open>Every failure on the way to a command is a coordination error with a text of its own.\<close>

definition save_connect :: "world_env \<Rightarrow> string \<Rightarrow> int world_run" where
  "save_connect W w =
     bind_run (gets (\<lambda>s. newest_session w (ws_store s))) (\<lambda>row.
     bind_run (of_option (OtherError (''no open runtime session for world '' @ w)) row) (\<lambda>r.
     bind_run (of_option (OtherError (''rcon port missing for world '' @ w @ '' session '' @ rs_id r))
         (rs_rcon_port r)) (\<lambda>port.
     bind_run (gets (\<lambda>s. map_of (ws_secrets s) (rs_rcon_secret r))) (\<lambda>k.
     bind_run (of_option (OtherError (''rcon secret unreadable for world '' @ w)) k) (\<lambda>pw.
     try_run (then_run (ask W (en_connect W) RconFailed (RconConnect port pw)) (ret port))
       (\<lambda>e. then_run (tell W (RconClose port))
          (raise (OtherError (''rcon connect failed for world '' @ w @ '': '' @ error_text e)))))))))"

definition save_call :: "backup_env \<Rightarrow> string \<Rightarrow> string \<Rightarrow> unit backup_run" where
  "save_call E w c =
     on_world (\<lambda>e. SaveCoordination (error_text e))
       (let W = be_world E in
        bind_run (save_connect W w) (\<lambda>port.
        finally_run
          (try_run (then_run (ask W (en_command W) RconFailed (RconCommand port c)) (ret ()))
             (\<lambda>e. raise (OtherError (c @ '' failed: '' @ error_text e))))
          (tell W (RconClose port))))"

definition suspend_autosave :: "backup_env \<Rightarrow> string \<Rightarrow> unit backup_run" where
  "suspend_autosave E w = save_call E w ''save-off''"

definition flush :: "backup_env \<Rightarrow> string \<Rightarrow> unit backup_run" where
  "flush E w = save_call E w ''save-all''"

definition resume_autosave :: "backup_env \<Rightarrow> string \<Rightarrow> unit backup_run" where
  "resume_autosave E w = save_call E w ''save-on''"

section \<open>The storage guard\<close>

definition storage_guard_reserve :: int where
  "storage_guard_reserve = 10 * 1024 * 1024 * 1024"

definition storage_guard_overflow_pct :: int where
  "storage_guard_overflow_pct = 10"

function nearest :: "tree \<Rightarrow> path \<Rightarrow> path" where
  "nearest t p = (if stat t p \<noteq> None \<or> p = [] then p else nearest t (butlast p))"
  by pat_completeness auto
termination
  by (relation "measure (\<lambda>(t, p). length p)") auto

declare nearest.simps [simp del]

definition required_free :: "int \<Rightarrow> int" where
  "required_free est = est + max storage_guard_reserve (est * storage_guard_overflow_pct div 100)"

definition enforce_storage_guard :: "backup_env \<Rightarrow> path \<Rightarrow> path \<Rightarrow> unit backup_run" where
  "enforce_storage_guard E source dir =
     bind_run (gets (\<lambda>s. (int (tree_size (bs_tree s) source), nearest (bs_tree s) dir))) (\<lambda>(est, place).
     bind_run (host E (\<lambda>n. be_free E n place)) (\<lambda>free.
     check (required_free est \<le> free) (BackupIntegrity ''STORAGE_GUARD_FAILED'')))"

section \<open>The flush of level.dat\<close>

definition unverified :: backup_error where
  "unverified = BackupIntegrity ''LEVEL_DAT_FLUSH_UNVERIFIED''"

definition modified_at :: "backup_env \<Rightarrow> path \<Rightarrow> int backup_run" where
  "modified_at E p = bind_run (host E (\<lambda>n. be_mtime E n p)) (of_option unverified)"

definition level_dat_max_age :: int where
  "level_dat_max_age = 30000"

definition verify_level_dat_flush :: "backup_env \<Rightarrow> path \<Rightarrow> int option \<Rightarrow> unit backup_run" where
  "verify_level_dat_flush E p before =
     bind_run (modified_at E p) (\<lambda>m.
     bind_run (host E (be_wall E)) (\<lambda>w.
     then_run (check (- 5000 \<le> w - m \<and> w - m \<le> level_dat_max_age) unverified)
       (case before of
          None \<Rightarrow> ret ()
        | Some b \<Rightarrow>
            then_run (check (b \<le> m) unverified)
              (if m = b then bind_run (host E (be_wall E)) (\<lambda>w'. check (w' - b < 1000) unverified)
               else ret ()))))"

section \<open>Artifacts\<close>

record BackupResult =
  br_artifact :: string
  br_path :: string
  br_checksum :: string
  br_size :: int
  br_skipped :: nat

definition insert_artifact :: "artifact_row \<Rightarrow> store \<Rightarrow> store option" where
  "insert_artifact r st =
     (if exists_row (\<lambda>a. ar_id a = ar_id r) (artifacts st) \<or> \<not> fk_world (ar_world r) st \<or>
         \<not> fk_op (Some (ar_operation r)) st
      then None else Some (st\<lparr>artifacts := artifacts st @ [r]\<rparr>))"

definition add_artifact :: "artifact_row \<Rightarrow> unit backup_run" where
  "add_artifact r s =
     (case insert_artifact r (bs_store s) of
        None \<Rightarrow> (Inl RowRefused, s)
      | Some st \<Rightarrow> (Inr (), put_store st s))"

definition hash_of :: "backup_env \<Rightarrow> path \<Rightarrow> string backup_run" where
  "hash_of E p = bind_run (gets (\<lambda>s. hash_at (be_zip E) p (bs_tree s))) (of_option DiskFailure)"

definition verify_zip :: "backup_env \<Rightarrow> path \<Rightarrow> unit backup_run" where
  "verify_zip E p =
     bind_run (gets (\<lambda>s. verify_at (be_zip E) p (bs_tree s))) (\<lambda>r.
       case r of
         Inr _ \<Rightarrow> ret ()
       | Inl e \<Rightarrow> then_run (remove_file p)
           (raise (BackupIntegrity ''created artifact failed archive verification'')))"

definition file_size :: "path \<Rightarrow> int backup_run" where
  "file_size p =
     bind_run (gets (\<lambda>s. stat (bs_tree s) p)) (\<lambda>n.
       case n of Some (File b) \<Rightarrow> ret (int (length b)) | _ \<Rightarrow> raise DiskFailure)"

definition artifact_of ::
  "string \<Rightarrow> string \<Rightarrow> TriggerType \<Rightarrow> string \<Rightarrow> int \<Rightarrow> string \<Rightarrow> string \<Rightarrow> int \<Rightarrow> artifact_row" where
  "artifact_of i w cat p len csum oid now = \<lparr>ar_id = i, ar_world = Some w, ar_category = cat, ar_path = p,
     ar_size = len, ar_checksum = csum, ar_suspect = False, ar_operation = oid, ar_deleted_at = None,
     ar_deleted_by = None, ar_created_at = now\<rparr>"

text \<open>The call of the archive engine is logged with the number of the next question.  From the archive
  to its row: the archive is built in a file of its own, checked, moved to
  its place, hashed again and registered.\<close>

definition archive_call :: "backup_env \<Rightarrow> path \<Rightarrow> path \<Rightarrow> nat backup_run" where
  "archive_call E source part =
     then_run (change (\<lambda>s. s\<lparr>bs_sys := (bs_sys s)
         \<lparr>ws_calls := ws_calls (bs_sys s) @ [WriteArchive source (ws_tick (bs_sys s))]\<rparr>\<rparr>))
       (on_tree ArchiveFailure (create_archive (be_zip E) source part))"

definition write_artifact ::
  "backup_env \<Rightarrow> string \<Rightarrow> path \<Rightarrow> string \<Rightarrow> TriggerType \<Rightarrow> string \<Rightarrow> path \<Rightarrow> BackupResult backup_run" where
  "write_artifact E w source oid cat i final =
     (let part = part_of final in
      bind_run (archive_call E source part) (\<lambda>skipped.
      bind_run (hash_of E part) (\<lambda>csum.
      then_run (verify_zip E part)
      (then_run (or_disk (replace_file part final))
      (bind_run (file_size final) (\<lambda>len.
       bind_run (hash_of E final) (\<lambda>csum'.
       then_run (check (csum' = csum) (BackupIntegrity ''post-rename checksum mismatch''))
       (bind_run (clock_now E) (\<lambda>now.
        then_run (add_artifact (artifact_of i w cat (path_text final) len csum oid now))
          (ret \<lparr>br_artifact = i, br_path = path_text final, br_checksum = csum, br_size = len,
                br_skipped = skipped\<rparr>))))))))))"

definition write_and_register ::
  "backup_env \<Rightarrow> string \<Rightarrow> path \<Rightarrow> path \<Rightarrow> string \<Rightarrow> TriggerType \<Rightarrow> BackupResult backup_run" where
  "write_and_register E w source dir oid cat =
     bind_run (fresh E ''ba_'') (\<lambda>i.
     then_run (or_disk (make_dirs [] dir))
     (let final = dir @ [w @ ''-'' @ i @ ''.zip''] in
      try_run (write_artifact E w source oid cat i final)
        (\<lambda>e. then_run (remove_file (part_of final)) (then_run (remove_file final) (raise e)))))"

definition capture_running ::
  "backup_env \<Rightarrow> string \<Rightarrow> path \<Rightarrow> path \<Rightarrow> string \<Rightarrow> TriggerType \<Rightarrow> BackupResult backup_run" where
  "capture_running E w source dir oid cat =
     (let level_dat = source @ [''level.dat''] in
      then_run (suspend_autosave E w)
      (bind_run (modified_at E level_dat) (\<lambda>before.
       then_run (flush E w)
       (then_run (verify_level_dat_flush E level_dat (Some before))
         (write_and_register E w source dir oid cat)))))"

definition create_world_backup ::
  "backup_env \<Rightarrow> string \<Rightarrow> path \<Rightarrow> path \<Rightarrow> string \<Rightarrow> TriggerType \<Rightarrow> bool \<Rightarrow> BackupResult backup_run" where
  "create_world_backup E w source dir oid cat running =
     then_run (check (running \<longrightarrow> be_coordinator E)
        (BackupIntegrity ''running-world backup requires save coordination''))
     (then_run (enforce_storage_guard E source dir)
       (if running then finally_run (capture_running E w source dir oid cat) (resume_autosave E w)
        else write_and_register E w source dir oid cat))"

section \<open>Reading artifacts back\<close>

definition flag_suspect :: "string \<Rightarrow> unit backup_run" where
  "flag_suspect i = change (\<lambda>s. put_store ((bs_store s)\<lparr>artifacts :=
     update_rows (\<lambda>a. ar_id a = i) (\<lambda>a. a\<lparr>ar_suspect := True\<rparr>) (artifacts (bs_store s))\<rparr>) s)"

definition find_artifact :: "string \<Rightarrow> store \<Rightarrow> artifact_row option" where
  "find_artifact i st = find_row (\<lambda>a. ar_id a = i) (artifacts st)"

definition suspect :: "string \<Rightarrow> string \<Rightarrow> 'a backup_run" where
  "suspect i m = then_run (flag_suspect i) (raise (BackupIntegrity m))"

definition validate_artifact :: "backup_env \<Rightarrow> string \<Rightarrow> artifact_row backup_run" where
  "validate_artifact E i =
     bind_run (gets (\<lambda>s. find_artifact i (bs_store s))) (\<lambda>row.
     bind_run (of_option (BackupIntegrity (''backup artifact not found: '' @ i)) row) (\<lambda>r.
     bind_run (gets (\<lambda>s. stat (bs_tree s) (path_parts (ar_path r)))) (\<lambda>n.
     then_run (if n = None then suspect i ''artifact file missing'' else ret ())
     (bind_run (hash_of E (path_parts (ar_path r))) (\<lambda>csum.
      then_run (if csum \<noteq> ar_checksum r then suspect i ''artifact checksum mismatch'' else ret ())
      (bind_run (gets (\<lambda>s. verify_at (be_zip E) (path_parts (ar_path r)) (bs_tree s))) (\<lambda>v.
       case v of
         Inl e \<Rightarrow> suspect i ''artifact is not a valid zip''
       | Inr _ \<Rightarrow> ret r)))))))"

text \<open>An empty directory of its own, whatever was there.\<close>

definition clear_place :: "path \<Rightarrow> tree \<Rightarrow> tree" where
  "clear_place p t =
     (case node t (entry t p) of
        None \<Rightarrow> t
      | Some Dir \<Rightarrow> drop_tree (entry t p) t
      | Some _ \<Rightarrow> unlink p t)"

definition make_new_dir :: "path \<Rightarrow> tree \<Rightarrow> tree option" where
  "make_new_dir p t = (if stat t p \<noteq> None then None else make_dirs [] p t)"

definition fresh_dir :: "path \<Rightarrow> unit backup_run" where
  "fresh_dir p = or_disk (\<lambda>t. make_new_dir p (clear_place p t))"

definition extract_to_staging :: "backup_env \<Rightarrow> string \<Rightarrow> path \<Rightarrow> unit backup_run" where
  "extract_to_staging E i staging =
     bind_run (validate_artifact E i) (\<lambda>r.
     then_run (fresh_dir staging)
     (try_run (on_tree ArchiveFailure (extract_archive (be_zip E) (path_parts (ar_path r)) staging))
       (\<lambda>e. case e of
          ArchiveFailure UnsafePath \<Rightarrow> suspect i ''archive path escapes staging directory''
        | ArchiveFailure BadZip \<Rightarrow> suspect i ''archive is not a zip file''
        | _ \<Rightarrow> raise e)))"

end
