(* ===== verification/Restore.thy ===== *)
theory Restore
  imports Backup
begin

text \<open>
  Restoring a world from an artifact (\<open>app/services/restore.py\<close>): validate, back up what is there,
  extract into a staging directory, switch the directories, and start the world again when it was
  running; when that start fails the backup made before is put back by a compensating operation.
  The restart is the start of the world driver (\<open>restart_and_confirm\<close> of \<open>app/services/runtime.py\<close>).
\<close>

section \<open>Switching directories\<close>

text \<open>\<open>shutil.move\<close>: into the destination where that is a directory, and a rename otherwise.  A move
  that fails leaves its source, and at the destination whatever the environment says.\<close>

definition move_target :: "path \<Rightarrow> path \<Rightarrow> tree \<Rightarrow> path" where
  "move_target p d t = entry t (if stat t d = Some Dir then d @ [last p] else d)"

definition can_move :: "path \<Rightarrow> path \<Rightarrow> tree \<Rightarrow> bool" where
  "can_move p d t \<longleftrightarrow> node t (entry t p) \<noteq> None \<and> node t (move_target p d t) = None \<and>
     node t (butlast (move_target p d t)) = Some Dir \<and> \<not> is_under (entry t p) (move_target p d t)"

definition moved :: "path \<Rightarrow> path \<Rightarrow> tree \<Rightarrow> tree" where
  "moved p d t = move_tree (entry t p) (move_target p d t) t"

definition half_moved :: "path \<Rightarrow> path \<Rightarrow> tree \<Rightarrow> tree \<Rightarrow> tree" where
  "half_moved p d debris t = t @ map (\<lambda>(q, n). (move_target p d t @ q, n)) debris"

definition move_path :: "backup_env \<Rightarrow> path \<Rightarrow> path \<Rightarrow> unit backup_run" where
  "move_path E p d =
     bind_run (host E (be_move E)) (\<lambda>fails.
     on_tree (\<lambda>_. DiskFailure) (\<lambda>t.
       if \<not> can_move p d t then (Inl (), t)
       else case fails of
         None \<Rightarrow> (Inr (), moved p d t)
       | Some debris \<Rightarrow> (Inl (), half_moved p d debris t)))"

definition path_exists :: "path \<Rightarrow> tree \<Rightarrow> bool" where
  "path_exists p t \<longleftrightarrow> stat t p \<noteq> None"

definition archive_name :: "path \<Rightarrow> string \<Rightarrow> path" where
  "archive_name world suffix = butlast world @ [last world @ ''.restore-archive-'' @ take 8 suffix]"

definition remove_place :: "path \<Rightarrow> unit backup_run" where
  "remove_place p = change (\<lambda>s. put_tree (clear_place p (bs_tree s)) s)"

definition switch_world :: "backup_env \<Rightarrow> path \<Rightarrow> path \<Rightarrow> unit backup_run" where
  "switch_world E world staging =
     bind_run (fresh E []) (\<lambda>suffix.
     bind_run (gets (\<lambda>s. path_exists world (bs_tree s))) (\<lambda>was.
     then_run (when_run was (move_path E world (archive_name world suffix)))
     (try_run (move_path E staging world)
       (\<lambda>e. bind_run (gets (\<lambda>s. path_exists (archive_name world suffix) (bs_tree s))) (\<lambda>kept.
          then_run (when_run (was \<and> kept)
             (then_run (remove_place world) (move_path E (archive_name world suffix) world)))
           (raise e))))))"

section \<open>The history of restores\<close>

definition fk_artifact :: "string \<Rightarrow> store \<Rightarrow> bool" where
  "fk_artifact i st \<longleftrightarrow> exists_row (\<lambda>a. ar_id a = i) (artifacts st)"

definition insert_restore :: "restore_row \<Rightarrow> backup_sys \<Rightarrow> backup_sys option" where
  "insert_restore r s =
     (let st = bs_store s in
      if exists_row (\<lambda>x. rr_id x = rr_id r) (bs_restores s) \<or> \<not> fk_world (Some (rr_world r)) st \<or>
         \<not> fk_op (Some (rr_operation r)) st \<or> \<not> fk_artifact (rr_source r) st \<or>
         \<not> fk_artifact (rr_pre_restore r) st \<or> \<not> fk_user (Some (rr_operator r)) st \<or>
         (case rr_rollback_of r of None \<Rightarrow> False
          | Some i \<Rightarrow> \<not> exists_row (\<lambda>x. rr_id x = i) (bs_restores s))
      then None else Some (s\<lparr>bs_restores := bs_restores s @ [r]\<rparr>))"

definition restore_of ::
  "string \<Rightarrow> string \<Rightarrow> string \<Rightarrow> string \<Rightarrow> string \<Rightarrow> string \<Rightarrow> string \<Rightarrow> string option \<Rightarrow> int \<Rightarrow> restore_row" where
  "restore_of i w oid source pre user result back now = \<lparr>rr_id = i, rr_world = w, rr_operation = oid,
     rr_source = source, rr_pre_restore = pre, rr_operator = user, rr_outcome = result, rr_rollback_of = back,
     rr_started_at = now, rr_finished_at = now\<rparr>"

definition record_history ::
  "backup_env \<Rightarrow> string \<Rightarrow> string \<Rightarrow> string \<Rightarrow> string \<Rightarrow> string \<Rightarrow> string \<Rightarrow> string option \<Rightarrow> string backup_run" where
  "record_history E w oid source pre user result back =
     bind_run (fresh E ''rs_'') (\<lambda>i.
     bind_run (clock_now E) (\<lambda>now.
     bind_run (gets (insert_restore (restore_of i w oid source pre user result back now))) (\<lambda>s'.
     bind_run (of_option RowRefused s') (\<lambda>new.
     then_run (change (\<lambda>_. new)) (ret i)))))"

definition update_restore_outcome :: "backup_env \<Rightarrow> string \<Rightarrow> string \<Rightarrow> unit backup_run" where
  "update_restore_outcome E i result =
     bind_run (clock_now E) (\<lambda>now.
     change (\<lambda>s. s\<lparr>bs_restores := update_rows (\<lambda>r. rr_id r = i)
       (\<lambda>r. r\<lparr>rr_outcome := result, rr_finished_at := now\<rparr>) (bs_restores s)\<rparr>))"

text \<open>The state is written as it is, past the lifecycle of the world.\<close>

definition write_world_state :: "backup_env \<Rightarrow> string \<Rightarrow> WorldState \<Rightarrow> unit backup_run" where
  "write_world_state E w new =
     bind_run (clock_now E) (\<lambda>now.
     change (\<lambda>s. put_store ((bs_store s)\<lparr>worlds := update_rows (\<lambda>r. wo_id r = w)
       (\<lambda>r. r\<lparr>wo_state := new, wo_updated_at := now\<rparr>) (worlds (bs_store s))\<rparr>) s))"

section \<open>The restore\<close>

record RestoreResult =
  re_restore :: string
  re_outcome :: string
  re_rollback :: "string option"

definition restart_and_confirm :: "world_env \<Rightarrow> string \<Rightarrow> bool world_run" where
  "restart_and_confirm W w = then_run (start W w ACTOR_SYSTEM None True None) (ret True)"

definition restart_succeeded :: "backup_env \<Rightarrow> string \<Rightarrow> bool backup_run" where
  "restart_succeeded E w =
     (if be_probe E
      then try_run (on_world WorldFailure (restart_and_confirm (be_world E) w)) (\<lambda>_. ret False)
      else ret False)"

record restore_request =
  rq_world :: string
  rq_artifact :: string
  rq_world_dir :: path
  rq_backup_dir :: path
  rq_staging :: path
  rq_operation :: string
  rq_user :: string
  rq_was_running :: bool

definition restore_allowed :: "restore_request \<Rightarrow> unit backup_run" where
  "restore_allowed q =
     bind_run (gets (\<lambda>s. find_world (rq_world q) (bs_store s))) (\<lambda>row.
     bind_run (of_option (RestorePrecondition ''WORLD_NOT_FOUND'' (''world not found: '' @ rq_world q)) row) (\<lambda>r.
     check (wo_state r = WS_OFF) (RestorePrecondition ''WORLD_NOT_OFF''
       (''WORLD_NOT_OFF: restore requires an off world (state='' @ world_state_value (wo_state r) @ '')''))))"

definition rollback_request :: "restore_request \<Rightarrow> string \<Rightarrow> string \<Rightarrow> OperationInput" where
  "rollback_request q rid pre = \<lparr>oi_type = RESTORE, oi_actor_type = ACTOR_SYSTEM, oi_world = Some (rq_world q),
     oi_actor_user = None, oi_key = None,
     oi_data = Some [(''rollback_of_restore_id'', JStr rid), (''source_artifact_id'', JStr pre)],
     oi_compensates = Some (rq_operation q)\<rparr>"

definition put_back :: "backup_env \<Rightarrow> restore_request \<Rightarrow> string \<Rightarrow> string \<Rightarrow> string \<Rightarrow> RestoreResult backup_run" where
  "put_back E q rid pre oid =
     then_run (extract_to_staging E pre (rq_staging q))
     (then_run (switch_world E (rq_world_dir q) (rq_staging q))
     (then_run (on_world WorldFailure (move_op (be_world E) oid OS_COMPLETED plain_transition))
     (then_run (record_history E (rq_world q) oid pre pre (rq_user q) ''reverted'' (Some rid))
     (then_run (update_restore_outcome E rid ''reverted'')
     (then_run (write_world_state E (rq_world q) WS_OFF)
       (ret \<lparr>re_restore = rid, re_outcome = ''reverted'', re_rollback = Some oid\<rparr>))))))"

definition revert_failed :: "backup_env \<Rightarrow> restore_request \<Rightarrow> string \<Rightarrow> string \<Rightarrow> backup_error \<Rightarrow> 'a backup_run" where
  "revert_failed E q rid oid e =
     then_run (on_world WorldFailure
        (move_op (be_world E) oid OS_FAILED (failure ''RESTORE_REVERT_FAILED'' None)))
     (then_run (update_restore_outcome E rid ''failed'')
     (then_run (write_world_state E (rq_world q) WS_ERROR) (raise e)))"

definition roll_back :: "backup_env \<Rightarrow> restore_request \<Rightarrow> string \<Rightarrow> string \<Rightarrow> RestoreResult backup_run" where
  "roll_back E q rid pre =
     then_run (flag_suspect (rq_artifact q))
     (bind_run (on_world WorldFailure (create_op (be_world E) (rollback_request q rid pre) True)) (\<lambda>(o', _).
      try_run (put_back E q rid pre (op_id o')) (revert_failed E q rid (op_id o'))))"

definition succeeded :: "string \<Rightarrow> RestoreResult" where
  "succeeded rid = \<lparr>re_restore = rid, re_outcome = ''success'', re_rollback = None\<rparr>"

text \<open>After the switch: a world that was running must come up again.\<close>

definition confirm :: "backup_env \<Rightarrow> restore_request \<Rightarrow> string \<Rightarrow> string \<Rightarrow> RestoreResult backup_run" where
  "confirm E q rid pre =
     (if \<not> rq_was_running q then then_run (write_world_state E (rq_world q) WS_OFF) (ret (succeeded rid))
      else bind_run (restart_succeeded E (rq_world q)) (\<lambda>up.
        if up then then_run (write_world_state E (rq_world q) WS_RUNNING) (ret (succeeded rid))
        else roll_back E q rid pre))"

definition restore :: "backup_env \<Rightarrow> restore_request \<Rightarrow> RestoreResult backup_run" where
  "restore E q =
     then_run (restore_allowed q)
     (then_run (validate_artifact E (rq_artifact q))
     (bind_run (create_world_backup E (rq_world q) (rq_world_dir q) (rq_backup_dir q) (rq_operation q)
         PRE_RESTORE False) (\<lambda>pre.
      then_run (extract_to_staging E (rq_artifact q) (rq_staging q))
      (then_run (switch_world E (rq_world_dir q) (rq_staging q))
      (bind_run (record_history E (rq_world q) (rq_operation q) (rq_artifact q) (br_artifact pre) (rq_user q)
          ''success'' None) (\<lambda>rid. confirm E q rid (br_artifact pre)))))))"

end
