(* ===== verification/Archive_Props.thy ===== *)
theory Archive_Props
  imports Archive
begin

text \<open>
  What the archive engine guarantees: its walk ends, and a directory comes back from its archive.
\<close>

section \<open>The walk ends\<close>

definition dirs_of :: "tree \<Rightarrow> path set" where
  "dirs_of t = insert [] (fst ` set t)"

lemma dirs_of_finite: "finite (dirs_of t)" "card (dirs_of t) \<le> length t + 1"
proof -
  show "finite (dirs_of t)" by (simp add: dirs_of_def)
  have "card (fst ` set t) \<le> length t" by (metis card_length image_set length_map)
  then show "card (dirs_of t) \<le> length t + 1"
    unfolding dirs_of_def using card_insert_le_m1 card.insert_remove by (metis Suc_eq_plus1 card_insert_if finite_imageI finite_set le_SucI Suc_le_mono)
qed

lemma node_in_dirs: "node t p = Some n \<Longrightarrow> p \<in> dirs_of t"
  by (cases "p = []") (auto simp: node_def dirs_of_def dest!: map_of_SomeD intro!: image_eqI[of _ fst])

lemma ancestors_bounded: "distinct anc \<Longrightarrow> set anc \<subseteq> dirs_of t \<Longrightarrow> length anc \<le> length t + 1"
  using dirs_of_finite[of t] card_mono[of "dirs_of t" "set anc"] by (metis distinct_card le_trans)

lemma classify_iffs:
  "classify t root dir rel anc c = Subdir c' r \<longleftrightarrow> c' = c \<and> resolve t (dir @ [c]) = Some r \<and> is_under root r \<and>
     \<not> volatile_name c \<and> node t r = Some Dir \<and> r \<notin> set anc"
  "classify t root dir rel anc c = Member p x \<longleftrightarrow> p = rel @ [c] \<and> (\<exists>r. resolve t (dir @ [c]) = Some r \<and>
     is_under root r \<and> \<not> volatile_name c \<and> node t r = Some (File x))"
  by (auto simp: classify_def split: option.split fnode.split)

lemma in_subdirs: "(c, r) \<in> set (subdirs_of es) \<longleftrightarrow> Subdir c r \<in> set es"
  by (induction es) (auto simp: subdirs_of_def split: dir_entry.splits)

lemma in_members: "(p, x) \<in> set (members_of es) \<longleftrightarrow> Member p x \<in> set es"
  by (induction es) (auto simp: members_of_def split: dir_entry.splits)

lemma subdirs_new:
  "(c, r) \<in> set (subdirs_of (map (classify t root dir rel anc) cs)) \<Longrightarrow> r \<notin> set anc \<and> node t r = Some Dir"
proof -
  assume "(c, r) \<in> set (subdirs_of (map (classify t root dir rel anc) cs))"
  then obtain d where "classify t root dir rel anc d = Subdir c r" unfolding in_subdirs by auto
  then show ?thesis by (simp add: classify_iffs)
qed

lemma walk_fuel:
  assumes "distinct anc" and "set anc \<subseteq> dirs_of t" and "length t + 1 < n + length anc" and "n \<le> m"
  shows "walk_dir n t root dir rel anc = walk_dir m t root dir rel anc"
  using assms
proof (induction n arbitrary: m dir rel anc)
  case 0
  then show ?case using ancestors_bounded[of anc t] by simp
next
  case (Suc n)
  obtain k where m: "m = Suc k" "n \<le> k" using Suc.prems(4) by (cases m) auto
  define subs where "subs = (\<lambda>q. rev (subdirs_of (map (classify t root dir rel anc) (sort (children t q)))))"
  have "walk_dir n t root (dir @ [c]) (rel @ [c]) (r # anc) = walk_dir k t root (dir @ [c]) (rel @ [c]) (r # anc)"
    if "(c, r) \<in> set (subs q)" for c r q
  proof (rule Suc.IH[OF _ _ _ m(2)])
    have r: "r \<notin> set anc" "node t r = Some Dir"
      using subdirs_new[of c r t root dir rel anc "sort (children t q)"] that by (simp_all add: subs_def)
    show "distinct (r # anc)" "set (r # anc) \<subseteq> dirs_of t" "length t + 1 < n + length (r # anc)"
      using r Suc.prems(1-3) node_in_dirs by auto
  qed
  then have eq: "map (\<lambda>(c, r). walk_dir n t root (dir @ [c]) (rel @ [c]) (r # anc)) (subs q) =
      map (\<lambda>(c, r). walk_dir k t root (dir @ [c]) (rel @ [c]) (r # anc)) (subs q)" for q
    by (intro map_cong) auto
  then show ?case
    unfolding m(1) walk_dir.simps Let_def by (simp only: subs_def)
qed

section \<open>Trees without links\<close>

definition good_name :: "string \<Rightarrow> bool" where
  "good_name c \<longleftrightarrow> c \<noteq> [] \<and> c \<noteq> ''.'' \<and> c \<noteq> ''..'' \<and> CHR ''/'' \<notin> set c"

definition link_free :: "tree \<Rightarrow> bool" where
  "link_free t \<longleftrightarrow> (\<forall>p q. node t p \<noteq> Some (Link q))"

definition rooted :: "tree \<Rightarrow> bool" where
  "rooted t \<longleftrightarrow> (\<forall>p. p \<noteq> [] \<longrightarrow> node t p \<noteq> None \<longrightarrow> node t (butlast p) = Some Dir \<and> (\<forall>c\<in>set p. good_name c))"

lemma walk_plain: "link_free t \<Longrightarrow> ''..'' \<notin> set cs \<Longrightarrow> walk t n cur cs = Some (cur @ cs)"
proof (induction cs arbitrary: cur)
  case (Cons c cs)
  then have "walk t n cur (c # cs) = walk t n (cur @ [c]) cs"
    by (auto simp: link_free_def split: option.split fnode.split)
  with Cons show ?case by simp
qed simp

lemma resolve_plain: "link_free t \<Longrightarrow> ''..'' \<notin> set p \<Longrightarrow> resolve t p = Some p"
  by (simp add: resolve_def walk_plain)

lemma stat_plain: "link_free t \<Longrightarrow> ''..'' \<notin> set p \<Longrightarrow> stat t p = node t p"
  by (simp add: stat_def resolve_plain)

lemma no_dots_butlast: "''..'' \<notin> set p \<Longrightarrow> ''..'' \<notin> set (butlast p)"
  by (metis in_set_butlastD)

lemma entry_plain: "link_free t \<Longrightarrow> ''..'' \<notin> set p \<Longrightarrow> entry t p = p"
  by (simp add: entry_def resolve_plain no_dots_butlast)

lemma node_key: "node t p = Some n \<Longrightarrow> p \<noteq> [] \<Longrightarrow> p \<in> fst ` set t"
  by (auto simp: node_def dest!: map_of_SomeD intro!: image_eqI[of _ fst])

lemma key_node: "p \<in> fst ` set t \<Longrightarrow> p \<noteq> [] \<Longrightarrow> \<exists>n. node t p = Some n"
  by (cases "map_of t p") (auto simp: node_def map_of_eq_None_iff)

lemma node_above:
  assumes "rooted t" and "node t (p @ q) = Some n" and "q \<noteq> []"
  shows "node t p = Some Dir"
  using assms(2,3)
proof (induction q arbitrary: n rule: rev_induct)
  case (snoc c q)
  have "node t (butlast (p @ q @ [c])) = Some Dir" using assms(1) snoc.prems(1) unfolding rooted_def by auto
  then have up: "node t (p @ q) = Some Dir" by (simp add: butlast_append)
  then show ?case using snoc.IH by (cases "q = []") auto
qed simp

lemma good_parts: "rooted t \<Longrightarrow> node t p = Some n \<Longrightarrow> c \<in> set p \<Longrightarrow> good_name c"
  by (cases "p = []") (auto simp: rooted_def)

lemma no_dots: "rooted t \<Longrightarrow> node t p = Some n \<Longrightarrow> ''..'' \<notin> set p"
  using good_parts by (fastforce simp: good_name_def)

lemma in_children: "c \<in> set (children t p) \<longleftrightarrow> p @ [c] \<in> fst ` set t"
proof
  assume "c \<in> set (children t p)"
  then obtain q where "q \<in> fst ` set t" "q \<noteq> []" "butlast q = p" "c = last q"
    by (auto simp: children_def)
  then show "p @ [c] \<in> fst ` set t" by (metis append_butlast_last_id)
next
  assume "p @ [c] \<in> fst ` set t"
  then show "c \<in> set (children t p)" by (force simp: children_def)
qed

lemma those_map: "(\<And>x. x \<in> set xs \<Longrightarrow> \<exists>y. f x = Some y) \<Longrightarrow> those (map f xs) = Some (map (\<lambda>x. the (f x)) xs)"
  by (induction xs) fastforce+

section \<open>What the walk collects\<close>

definition files_at :: "tree \<Rightarrow> path \<Rightarrow> (path \<times> string) set" where
  "files_at t dir = {(s, x). s \<noteq> [] \<and> node t (dir @ s) = Some (File x)}"

definition plain_below :: "tree \<Rightarrow> path \<Rightarrow> bool" where
  "plain_below t dir \<longleftrightarrow> (\<forall>s n. node t (dir @ s) = Some n \<longrightarrow> (\<forall>c\<in>set s. \<not> volatile_name c))"

lemma not_under_parent: "\<not> is_under (p @ [c]) p"
  by (simp add: is_under_def)

lemma walk_collects:
  assumes "link_free t" and "rooted t"
  shows "distinct anc \<Longrightarrow> set anc \<subseteq> dirs_of t \<Longrightarrow> length t + 1 < n + length anc \<Longrightarrow>
    (\<forall>a\<in>set anc. is_under a dir) \<Longrightarrow> node t dir = Some Dir \<Longrightarrow> is_under root dir \<Longrightarrow> plain_below t dir \<Longrightarrow>
    \<exists>ms. walk_dir n t root dir rel anc = Some (ms, 0) \<and> set ms = (\<lambda>(s, x). (rel @ s, x)) ` files_at t dir"
proof (induction n arbitrary: dir rel anc)
  case 0
  then show ?case using ancestors_bounded[of anc t] by simp
next
  case (Suc n)
  define cs where "cs = sort (children t dir)"
  define es where "es = map (classify t root dir rel anc) cs"
  have rd: "resolve t dir = Some dir" using resolve_plain assms no_dots Suc.prems(5) by blast
  have child: "resolve t (dir @ [c]) = Some (dir @ [c]) \<and> is_under root (dir @ [c]) \<and> \<not> volatile_name c \<and>
      dir @ [c] \<notin> set anc \<and> (\<exists>n. node t (dir @ [c]) = Some n)" if "c \<in> set cs" for c
  proof -
    have k: "dir @ [c] \<in> fst ` set t" using that in_children by (simp add: cs_def)
    obtain m where m: "node t (dir @ [c]) = Some m" using key_node[OF k] by auto
    have "resolve t (dir @ [c]) = Some (dir @ [c])" using resolve_plain[OF assms(1)] no_dots[OF assms(2) m] by blast
    moreover have "is_under root (dir @ [c])" by (rule is_under_trans[OF Suc.prems(6) is_under_append])
    moreover have "\<not> volatile_name c" using Suc.prems(7) m by (auto simp: plain_below_def)
    moreover have "dir @ [c] \<notin> set anc" using Suc.prems(4) not_under_parent by blast
    ultimately show ?thesis using m by simp
  qed
  have ent: "(\<exists>x. node t (dir @ [c]) = Some (File x) \<and> classify t root dir rel anc c = Member (rel @ [c]) x) \<or>
      node t (dir @ [c]) = Some Dir \<and> classify t root dir rel anc c = Subdir c (dir @ [c])" if "c \<in> set cs" for c
  proof -
    note c = child[OF that]
    obtain m where "node t (dir @ [c]) = Some m" using c by blast
    with c assms(1) show ?thesis by (cases m) (auto simp: classify_def link_free_def)
  qed
  have nb: "Broken \<notin> set es" and ns: "skipped_of es = 0"
    using ent by (auto simp: es_def skipped_of_def filter_empty_conv) (metis dir_entry.distinct)+
  have sub: "(c, r) \<in> set (subdirs_of es) \<longleftrightarrow> c \<in> set cs \<and> r = dir @ [c] \<and> node t (dir @ [c]) = Some Dir" for c r
  proof -
    have "Subdir c r \<in> set es \<longleftrightarrow> (\<exists>d\<in>set cs. classify t root dir rel anc d = Subdir c r)"
      unfolding es_def by (auto simp: image_iff) metis
    then show ?thesis using child[of c] by (auto simp: in_subdirs classify_iffs)
  qed
  have mem: "(p, x) \<in> set (members_of es) \<longleftrightarrow> (\<exists>c\<in>set cs. p = rel @ [c] \<and> node t (dir @ [c]) = Some (File x))" for p x
  proof -
    have "Member p x \<in> set es \<longleftrightarrow> (\<exists>d\<in>set cs. classify t root dir rel anc d = Member p x)"
      unfolding es_def by (auto simp: image_iff) metis
    then show ?thesis using child by (auto simp: in_members classify_iffs)
  qed
  have rec: "\<exists>ms. walk_dir n t root (dir @ [c]) (rel @ [c]) (r # anc) = Some (ms, 0) \<and>
      set ms = (\<lambda>(s, x). ((rel @ [c]) @ s, x)) ` files_at t (dir @ [c])" if "(c, r) \<in> set (subdirs_of es)" for c r
  proof (rule Suc.IH)
    have r: "c \<in> set cs" "r = dir @ [c]" "node t (dir @ [c]) = Some Dir" using that sub by blast+
    show "distinct (r # anc)" "set (r # anc) \<subseteq> dirs_of t" "length t + 1 < n + length (r # anc)"
      "\<forall>a\<in>set (r # anc). is_under a (dir @ [c])" "node t (dir @ [c]) = Some Dir" "is_under root (dir @ [c])"
      using r child[OF r(1)] Suc.prems(1-4) node_in_dirs[OF r(3)] is_under_append[of r "[]"]
      by (auto intro: is_under_trans[OF _ is_under_append])
    show "plain_below t (dir @ [c])" using Suc.prems(7) by (auto simp: plain_below_def)
  qed
  have all: "\<exists>y. (\<lambda>(c, r). walk_dir n t root (dir @ [c]) (rel @ [c]) (r # anc)) z = Some y" if "z \<in> set (rev (subdirs_of es))" for z
    using rec[of "fst z" "snd z"] that by (cases z) auto
  define parts where "parts = map (\<lambda>z. the ((\<lambda>(c, r). walk_dir n t root (dir @ [c]) (rel @ [c]) (r # anc)) z)) (rev (subdirs_of es))"
  have zeros: "snd p = 0" if "p \<in> set parts" for p
    using that rec by (fastforce simp: parts_def)
  have files: "set (concat (map fst parts)) = {(rel @ c # s, x) | c s x. c \<in> set cs \<and> node t (dir @ [c]) = Some Dir \<and>
      s \<noteq> [] \<and> node t (dir @ c # s) = Some (File x)}" (is "_ = ?R")
  proof -
    have one: "set (fst (the (walk_dir n t root (dir @ [c]) (rel @ [c]) (r # anc)))) =
        {(rel @ c # s, x) | s x. s \<noteq> [] \<and> node t (dir @ c # s) = Some (File x)}"
      if "(c, r) \<in> set (subdirs_of es)" for c r
      using rec[OF that] by (auto simp: files_at_def image_iff)
    have "set (concat (map fst parts)) = (\<Union>z\<in>set (subdirs_of es).
        set (fst (the (walk_dir n t root (dir @ [fst z]) (rel @ [fst z]) (snd z # anc)))))"
      by (simp add: parts_def case_prod_beta)
    also have "\<dots> = (\<Union>z\<in>set (subdirs_of es).
        {(rel @ fst z # s, x) | s x. s \<noteq> [] \<and> node t (dir @ fst z # s) = Some (File x)})"
      using one by (intro SUP_cong) auto
    also have "\<dots> = ?R" using sub by (fastforce simp: Bex_def)
    finally show ?thesis .
  qed
  have "walk_dir (Suc n) t root dir rel anc = Some (members_of es @ concat (map fst parts), 0)"
  proof -
    have "those (map (\<lambda>(c, r). walk_dir n t root (dir @ [c]) (rel @ [c]) (r # anc)) (rev (subdirs_of es))) = Some parts"
      unfolding parts_def by (rule those_map) (rule all)
    moreover have "sum_list (map snd parts) = 0" using zeros by simp
    ultimately show ?thesis using rd Suc.prems(5) nb ns by (simp add: es_def cs_def)
  qed
  moreover have "set (members_of es @ concat (map fst parts)) = (\<lambda>(s, x). (rel @ s, x)) ` files_at t dir"
  proof (intro set_eqI iffI)
    fix y
    assume "y \<in> set (members_of es @ concat (map fst parts))"
    moreover obtain p x where "y = (p, x)" by (rule prod.exhaust)
    ultimately have "(\<exists>c\<in>set cs. p = rel @ [c] \<and> node t (dir @ [c]) = Some (File x)) \<or>
        (\<exists>c s. p = rel @ c # s \<and> node t (dir @ c # s) = Some (File x))"
      unfolding set_append Un_iff files using mem by auto
    with \<open>y = (p, x)\<close> show "y \<in> (\<lambda>(s, x). (rel @ s, x)) ` files_at t dir"
      by (auto simp: files_at_def image_iff)
  next
    fix y
    assume "y \<in> (\<lambda>(s, x). (rel @ s, x)) ` files_at t dir"
    then obtain c s x where y: "y = (rel @ c # s, x)" and x: "node t (dir @ c # s) = Some (File x)"
      by (auto simp: files_at_def neq_Nil_conv)
    have up: "s = [] \<or> node t (dir @ [c]) = Some Dir" using node_above[OF assms(2), of "dir @ [c]" s] x by auto
    have "c \<in> set cs"
      using up x node_key[of t "dir @ [c]"] by (auto simp: cs_def in_children)
    with up x y mem show "y \<in> set (members_of es @ concat (map fst parts))"
      unfolding set_append Un_iff files by (cases "s = []") auto
  qed
  ultimately show ?case by blast
qed

section \<open>Names\<close>

lemma posix_name_nonempty: "u \<noteq> [] \<Longrightarrow> \<forall>c\<in>set u. good_name c \<Longrightarrow> posix_name u \<noteq> []"
  by (cases u rule: posix_name.cases) (auto simp: good_name_def)

lemma split_posix: "u \<noteq> [] \<Longrightarrow> \<forall>c\<in>set u. good_name c \<Longrightarrow> split_on (CHR ''/'') (posix_name u) = u"
  by (induction u rule: posix_name.induct) (auto simp: good_name_def split_on_plain split_on_append_sep)

lemma parts_posix: "u \<noteq> [] \<Longrightarrow> \<forall>c\<in>set u. good_name c \<Longrightarrow> path_parts (posix_name u) = u"
  by (auto simp: path_parts_def split_posix good_name_def filter_id_conv)

lemma member_parts_posix: "u \<noteq> [] \<Longrightarrow> \<forall>c\<in>set u. good_name c \<Longrightarrow> member_parts (posix_name u) = u"
  by (auto simp: member_parts_def parts_posix good_name_def filter_id_conv)

lemma last_posix: "u \<noteq> [] \<Longrightarrow> \<forall>c\<in>set u. good_name c \<Longrightarrow> last (posix_name u) \<noteq> CHR ''/''"
proof (induction u rule: posix_name.induct)
  case (2 c)
  then show ?case by (auto simp: good_name_def) (metis last_in_set)
next
  case (3 c d cs)
  then have "posix_name (d # cs) \<noteq> []" by (intro posix_name_nonempty) auto
  with 3 show ?case by auto
qed simp

lemma file_posix: "u \<noteq> [] \<Longrightarrow> \<forall>c\<in>set u. good_name c \<Longrightarrow> \<not> ends_with ''/'' (posix_name u)"
proof -
  assume u: "u \<noteq> []" "\<forall>c\<in>set u. good_name c"
  obtain x xs where "rev (posix_name u) = x # xs" using posix_name_nonempty[OF u] by (cases "rev (posix_name u)") auto
  moreover have "x = last (posix_name u)" using \<open>rev (posix_name u) = x # xs\<close> by (metis hd_rev list.sel(1))
  ultimately show ?thesis using last_posix[OF u] \<open>rev (posix_name u) = x # xs\<close>
    by (simp only: ends_with_def rev.simps append_Nil starts_with.simps) simp
qed

section \<open>Extracting\<close>

lemma node_put: "p \<noteq> [] \<Longrightarrow> node (put_node p n t) q = (if q = p then Some n else node t q)"
proof -
  have "map_of (filter (\<lambda>(q, m). q \<noteq> p) t) q = (if q = p then None else map_of t q)"
    by (induction t) auto
  then show "p \<noteq> [] \<Longrightarrow> ?thesis" by (auto simp: node_def put_node_def)
qed

lemma link_free_put: "link_free t \<Longrightarrow> p \<noteq> [] \<Longrightarrow> (\<forall>q. n \<noteq> Link q) \<Longrightarrow> link_free (put_node p n t)"
  by (auto simp: link_free_def node_put)

lemma prefix_step: "(\<exists>a b. c # cs = a @ b \<and> a \<noteq> [] \<and> q = cur @ a) \<longleftrightarrow>
    q = cur @ [c] \<or> (\<exists>a b. cs = a @ b \<and> a \<noteq> [] \<and> q = (cur @ [c]) @ a)" (is "?L = ?R")
proof
  assume ?L
  then obtain a b where a: "c # cs = a @ b" "a \<noteq> []" "q = cur @ a" by blast
  then obtain a' where "a = c # a'" "cs = a' @ b" by (cases a) auto
  with a(3) show ?R by (cases "a' = []") auto
next
  assume ?R
  then show ?L
  proof
    assume "q = cur @ [c]"
    then show ?L by (intro exI[of _ "[c]"] exI[of _ cs]) simp
  next
    assume "\<exists>a b. cs = a @ b \<and> a \<noteq> [] \<and> q = (cur @ [c]) @ a"
    then obtain a b where "cs = a @ b" "q = (cur @ [c]) @ a" by blast
    then show ?L by (intro exI[of _ "c # a"] exI[of _ b]) simp
  qed
qed

lemma make_dirs_ok:
  assumes "link_free t" and "''..'' \<notin> set cur" and "''..'' \<notin> set cs" and "node t cur = Some Dir"
    and "\<And>a b x. cs = a @ b \<Longrightarrow> node t (cur @ a) \<noteq> Some (File x)"
  shows "\<exists>t'. make_dirs cur cs t = Some t' \<and> link_free t' \<and>
     (\<forall>q. node t' q = (if \<exists>a b. cs = a @ b \<and> a \<noteq> [] \<and> q = cur @ a then Some Dir else node t q))"
  using assms
proof (induction cs arbitrary: cur t)
  case Nil
  then show ?case by (simp add: stat_plain)
next
  case (Cons c cs)
  have dots: "''..'' \<notin> set (cur @ [c])" "''..'' \<notin> set cs" using Cons.prems by auto
  define t1 where "t1 = (if node t (cur @ [c]) = Some Dir then t else put_node (cur @ [c]) Dir t)"
  have n1: "node t1 q = (if q = cur @ [c] then Some Dir else node t q)" for q
    by (auto simp: t1_def node_put)
  have lf: "link_free t1" using Cons.prems(1) by (auto simp: t1_def link_free_put)
  have nf: "node t1 ((cur @ [c]) @ a) \<noteq> Some (File x)" if "cs = a @ b" for a b x
    using Cons.prems(5)[of "c # a" b] that by (simp add: n1)
  have "node t (cur @ [c]) = Some Dir \<or> node t (cur @ [c]) = None"
    using Cons.prems(1) Cons.prems(5)[of "[c]" cs] by (cases "node t (cur @ [c])") (auto simp: link_free_def, metis fnode.exhaust)
  then have "make_dirs cur (c # cs) t = make_dirs (cur @ [c]) cs t1"
    using Cons.prems(1,2,4) dots by (auto simp: stat_plain entry_plain t1_def)
  moreover have "\<exists>t'. make_dirs (cur @ [c]) cs t1 = Some t' \<and> link_free t' \<and>
     (\<forall>q. node t' q = (if \<exists>a b. cs = a @ b \<and> a \<noteq> [] \<and> q = (cur @ [c]) @ a then Some Dir else node t1 q))"
    by (rule Cons.IH[OF lf dots]) (simp add: n1, erule nf)
  moreover have "(if \<exists>a b. cs = a @ b \<and> a \<noteq> [] \<and> q = (cur @ [c]) @ a then Some Dir else node t1 q) =
      (if \<exists>a b. c # cs = a @ b \<and> a \<noteq> [] \<and> q = cur @ a then Some Dir else node t q)" for q
    unfolding n1 prefix_step[of c cs q cur] by auto
  ultimately show ?case by simp
qed

text \<open>What is below the target after the members \<open>fs\<close> came out of the archive.\<close>

definition unpacked :: "path \<Rightarrow> (path \<times> string) set \<Rightarrow> tree \<Rightarrow> tree \<Rightarrow> bool" where
  "unpacked d fs t t' \<longleftrightarrow> link_free t' \<and> node t' d = Some Dir \<and> same_outside d t t' \<and>
     (\<forall>s x. s \<noteq> [] \<longrightarrow> node t' (d @ s) = Some (File x) \<longleftrightarrow> (s, x) \<in> fs) \<and>
     (\<forall>s. s \<noteq> [] \<longrightarrow> node t' (d @ s) = Some Dir \<longrightarrow> (\<exists>v x. v \<noteq> [] \<and> (s @ v, x) \<in> fs))"

text \<open>No member lies below another, and a name has one content.\<close>

definition antichain :: "(path \<times> string) set \<Rightarrow> bool" where
  "antichain fs \<longleftrightarrow> (\<forall>u v x y. (u, x) \<in> fs \<longrightarrow> (u @ v, y) \<in> fs \<longrightarrow> v = [] \<and> x = y)"

lemma antichain_sub: "antichain fs \<Longrightarrow> gs \<subseteq> fs \<Longrightarrow> antichain gs"
  unfolding antichain_def by blast

lemma files_antichain: "rooted t \<Longrightarrow> antichain (files_at t dir)"
  unfolding antichain_def files_at_def
proof (clarsimp, goal_cases)
  case (1 u v x y)
  then show ?case using node_above[OF 1(1), of "dir @ u" v "File y"] by (cases "v = []") auto
qed

lemma extract_file:
  assumes "unpacked d fs t t'" and "''..'' \<notin> set d" and "d \<noteq> []" and "u \<noteq> []" and "\<forall>c\<in>set u. good_name c"
    and "antichain (insert (u, x) fs)"
  shows "\<exists>t2. extract_member d (posix_name u, x, True) t' = Some t2 \<and> unpacked d (insert (u, x) fs) t t2"
proof -
  have t': "link_free t'" "node t' d = Some Dir" "same_outside d t t'"
    and files: "\<And>s x. s \<noteq> [] \<Longrightarrow> node t' (d @ s) = Some (File x) \<longleftrightarrow> (s, x) \<in> fs"
    and dirs: "\<And>s. s \<noteq> [] \<Longrightarrow> node t' (d @ s) = Some Dir \<Longrightarrow> \<exists>v x. v \<noteq> [] \<and> (s @ v, x) \<in> fs"
    using assms(1) by (simp_all add: unpacked_def)
  have anti: "v = [] \<and> x1 = x2" if "(u1, x1) \<in> insert (u, x) fs" "(u1 @ v, x2) \<in> insert (u, x) fs" for u1 v x1 x2
    using assms(6) that unfolding antichain_def by blast
  have gu: "''..'' \<notin> set u" using assms(5) by (auto simp: good_name_def)
  have du: "''..'' \<notin> set (butlast u)" using gu in_set_butlastD by metis
  have ddu: "''..'' \<notin> set (d @ u)" using gu assms(2) by simp
  obtain l where u: "u = butlast u @ [l]" using append_butlast_last_id[OF assms(4)] by (metis that)
  have nf: "node t' (d @ a) \<noteq> Some (File y)" if "butlast u = a @ b" for a b y
  proof
    assume f: "node t' (d @ a) = Some (File y)"
    with t'(2) have "a \<noteq> []" by auto
    with f files have "(a, y) \<in> fs" by blast
    moreover have "u = a @ (b @ [l])" using u that by simp
    ultimately show False using anti[of a y "b @ [l]" x] by auto
  qed
  obtain t1 where m: "make_dirs d (butlast u) t' = Some t1" and lf1: "link_free t1"
    and n1: "\<And>q. node t1 q = (if \<exists>a b. butlast u = a @ b \<and> a \<noteq> [] \<and> q = d @ a then Some Dir else node t' q)"
  proof -
    have "\<exists>t1. make_dirs d (butlast u) t' = Some t1 \<and> link_free t1 \<and>
        (\<forall>q. node t1 q = (if \<exists>a b. butlast u = a @ b \<and> a \<noteq> [] \<and> q = d @ a then Some Dir else node t' q))"
      by (rule make_dirs_ok[OF t'(1) assms(2) du t'(2)]) (erule nf)
    then show thesis using that by blast
  qed
  have below: "node t1 (d @ s) = (if \<exists>b. butlast u = s @ b \<and> s \<noteq> [] then Some Dir else node t' (d @ s))" for s
    unfolding n1 by simp
  have "node t1 (d @ u) = node t' (d @ u)"
  proof -
    have "butlast u \<noteq> u @ b" for b using arg_cong[OF u, of length] by (auto dest: arg_cong[of _ _ length])
    then show ?thesis unfolding below by simp
  qed
  moreover have "node t' (d @ u) \<noteq> Some Dir"
    using dirs[of u] anti[of u x] assms(4) by blast
  moreover have "node t1 (d @ butlast u) = Some Dir"
    unfolding below using t'(2) by (cases "butlast u = []") auto
  ultimately have w: "write_file (d @ u) x t1 = Some (put_node (d @ u) (File x) t1)"
    using resolve_plain[OF lf1 ddu] assms(4) by (simp add: write_file_def butlast_append)
  define t2 where "t2 = put_node (d @ u) (File x) t1"
  have n2: "node t2 (d @ s) = (if s = u then Some (File x) else if \<exists>b. butlast u = s @ b \<and> s \<noteq> [] then Some Dir
      else node t' (d @ s))" for s
    using assms(3) by (simp add: t2_def node_put below)
  have e: "extract_member d (posix_name u, x, True) t' = Some t2"
    using m w file_posix[OF assms(4,5)] by (simp add: extract_member_def member_parts_posix[OF assms(4,5)] t2_def)
  have "same_outside d t t2"
    using t'(3) assms(3) by (auto simp: same_outside_def t2_def node_put n1)
  moreover have "link_free t2" using lf1 assms(3) by (simp add: t2_def link_free_put)
  moreover have "node t2 d = Some Dir" using n2[of "[]"] assms(4) t'(2) by simp
  moreover have "node t2 (d @ s) = Some (File y) \<longleftrightarrow> (s, y) \<in> insert (u, x) fs" if "s \<noteq> []" for s y
  proof (cases "\<exists>b. butlast u = s @ b")
    case True
    then obtain b where "u = s @ b @ [l]" using u by auto
    with anti[of s y "b @ [l]" x] have "(s, y) \<notin> insert (u, x) fs" "s \<noteq> u" by auto
    with True that show ?thesis by (auto simp: n2)
  next
    case False
    with that files[of s y] anti[of u y "[]" x] show ?thesis by (auto simp: n2)
  qed
  moreover have "\<exists>v x'. v \<noteq> [] \<and> (s @ v, x') \<in> insert (u, x) fs" if "s \<noteq> []" "node t2 (d @ s) = Some Dir" for s
  proof (cases "\<exists>b. butlast u = s @ b")
    case True
    then obtain b where "u = s @ b @ [l]" using u by auto
    then show ?thesis by (intro exI[of _ "b @ [l]"] exI[of _ x]) auto
  next
    case False
    with that dirs[of s] show ?thesis by (auto simp: n2 split: if_splits)
  qed
  ultimately have "unpacked d (insert (u, x) fs) t t2" unfolding unpacked_def by blast
  with e show ?thesis by blast
qed

lemma extract_files:
  assumes "unpacked d fs t t'" and "''..'' \<notin> set d" and "d \<noteq> []"
    and "\<forall>(u, x)\<in>set ms. u \<noteq> [] \<and> (\<forall>c\<in>set u. good_name c)" and "antichain (set ms \<union> fs)"
  shows "\<exists>t2. extract_members d (map (\<lambda>(u, x). (posix_name u, x, True)) ms) t' = Some t2 \<and>
     unpacked d (set ms \<union> fs) t t2"
  using assms(1,4,5)
proof (induction ms arbitrary: fs t')
  case (Cons m ms)
  obtain u x where m: "m = (u, x)" by (cases m)
  have anti: "antichain (insert (u, x) fs)" by (rule antichain_sub[OF Cons.prems(3)]) (auto simp: m)
  have u: "u \<noteq> []" "\<forall>c\<in>set u. good_name c" using Cons.prems(2) by (auto simp: m)
  obtain t1 where t1: "extract_member d (posix_name u, x, True) t' = Some t1" "unpacked d (insert (u, x) fs) t t1"
    using extract_file[OF Cons.prems(1) assms(2,3) u anti] by blast
  have "antichain (set ms \<union> insert (u, x) fs)" using Cons.prems(3) by (simp add: m)
  with Cons.IH[OF t1(2)] Cons.prems(2) t1(1) show ?case by (simp add: m)
qed simp

section \<open>There and back\<close>

lemma node_without: "p \<noteq> [] \<Longrightarrow> node (filter (\<lambda>(q, m). q \<noteq> p) t) q = (if q = p then None else node t q)"
proof -
  have "map_of (filter (\<lambda>(q, m). q \<noteq> p) t) q = (if q = p then None else map_of t q)" by (induction t) auto
  then show "p \<noteq> [] \<Longrightarrow> ?thesis" by (auto simp: node_def)
qed

lemma node_unlink:
  assumes "link_free t" and "''..'' \<notin> set p" and "p \<noteq> []" and "node t p \<noteq> Some Dir"
  shows "node (unlink p t) q = (if q = p then None else node t q)"
  using assms by (simp add: unlink_def entry_plain node_without)

lemma replace_file_ok:
  assumes "node t p = Some (File x)" and "node t d \<noteq> Some Dir" and "node t (butlast d) = Some Dir" and "p \<noteq> []"
    and "d \<noteq> []" and "p \<noteq> d" and "link_free t" and "''..'' \<notin> set p" and "''..'' \<notin> set d"
  shows "\<exists>t'. replace_file p d t = Some t' \<and>
     (\<forall>q. node t' q = (if q = d then Some (File x) else if q = p then None else node t q))"
  using assms by (simp add: replace_file_def node_put node_unlink entry_plain stat_plain no_dots_butlast)

lemma write_file_ok:
  assumes "link_free t" and "''..'' \<notin> set p" and "p \<noteq> []" and "node t (butlast p) = Some Dir" and "node t p \<noteq> Some Dir"
  shows "write_file p x t = Some (put_node p (File x) t)"
  using assms by (simp add: write_file_def resolve_plain)

text \<open>What the library documents: an archive reads back as the members written, all intact.\<close>

definition zip_law :: "zip_lib \<Rightarrow> bool" where
  "zip_law z \<longleftrightarrow> (\<forall>ms. zl_read z (zl_write z ms) = Some (map (\<lambda>(n, x). (n, x, True)) ms))"

text \<open>A place for an archive: a directory outside the source, with nothing at the name or at the
  name of the partial file.\<close>

definition free_place :: "tree \<Rightarrow> path \<Rightarrow> path \<Rightarrow> bool" where
  "free_place t src p \<longleftrightarrow> p \<noteq> [] \<and> (\<forall>c\<in>set p. good_name c) \<and> node t (butlast p) = Some Dir \<and> node t p = None \<and>
     node t (part_of p) = None \<and> \<not> is_under src p \<and> \<not> is_under src (part_of p)"

definition archivable :: "tree \<Rightarrow> path \<Rightarrow> bool" where
  "archivable t src \<longleftrightarrow> link_free t \<and> rooted t \<and> node t src = Some Dir \<and> plain_below t src \<and>
     (\<forall>(u, x)\<in>files_at t src. \<not> unsafe_name (posix_name u))"

lemma part_of_facts:
  assumes "p \<noteq> []" and "\<forall>c\<in>set p. good_name c"
  shows "part_of p \<noteq> []" and "butlast (part_of p) = butlast p" and "part_of p \<noteq> p" and "\<forall>c\<in>set (part_of p). good_name c"
    and "''..'' \<notin> set (part_of p)" and "''..'' \<notin> set p"
proof -
  show "part_of p \<noteq> []" "butlast (part_of p) = butlast p" by (simp_all add: part_of_def)
  show "part_of p \<noteq> p" using assms(1) by (metis append_butlast_last_id append_self_conv last_snoc list.distinct(1) part_of_def)
  have l: "good_name (last p)" using assms by simp
  have "good_name (last p @ ''.part'')" using l by (auto simp: good_name_def)
  then show g: "\<forall>c\<in>set (part_of p). good_name c" using assms(2) by (auto simp: part_of_def dest: in_set_butlastD)
  show "''..'' \<notin> set (part_of p)" "''..'' \<notin> set p" using g assms(2) by (auto simp: good_name_def)
qed

lemma rooted_put:
  assumes "rooted t" and "p \<noteq> []" and "node t (butlast p) = Some Dir" and "\<forall>c\<in>set p. good_name c" and "node t p \<noteq> Some Dir"
  shows "rooted (put_node p (File x) t)"
proof -
  have "butlast q \<noteq> p" if "q \<noteq> []" "q \<noteq> p" "node t q \<noteq> None" for q
    using that assms(1,5) by (auto simp: rooted_def)
  then show ?thesis using assms unfolding rooted_def by (auto simp: node_put)
qed

lemma create_archive_ok:
  assumes "zip_law z" and "archivable t src" and "free_place t src p"
  shows "\<exists>ms t1. create_archive z src p t = (Inr 0, t1) \<and> set ms = files_at t src \<and>
     (\<forall>q. node t1 q = (if q = p then Some (File (zl_write z (map (\<lambda>(u, x). (posix_name u, x)) ms))) else node t q))"
proof -
  have p: "p \<noteq> []" "\<forall>c\<in>set p. good_name c" "node t (butlast p) = Some Dir" "node t p = None"
    "node t (part_of p) = None" "\<not> is_under src p" "\<not> is_under src (part_of p)"
    using assms(3) by (simp_all add: free_place_def)
  note pp = part_of_facts[OF p(1,2)]
  have t: "link_free t" "rooted t" "node t src = Some Dir" "plain_below t src"
    and safe: "\<And>u x. (u, x) \<in> files_at t src \<Longrightarrow> \<not> unsafe_name (posix_name u)"
    using assms(2) by (auto simp: archivable_def)
  define t1 where "t1 = put_node (part_of p) (File []) t"
  have n1: "node t1 q = (if q = part_of p then Some (File []) else node t q)" for q
    using pp(1) by (simp add: t1_def node_put)
  have below: "node t1 (src @ s) = node t (src @ s)" for s using p(7) n1 by (metis is_under_append)
  have f1: "files_at t1 src = files_at t src" and pb: "plain_below t1 src"
    using below t(4) by (simp_all add: files_at_def plain_below_def)
  have lf: "link_free t1" using t(1) pp(1) by (simp add: t1_def link_free_put)
  have rt: "rooted t1" unfolding t1_def by (rule rooted_put[OF t(2) pp(1)]) (use p pp in auto)
  have rs: "resolve t src = Some src" using resolve_plain[OF t(1)] no_dots[OF t(2,3)] by blast
  have dir1: "node t1 src = Some Dir" using below[of "[]"] t(3) by simp
  have bp: "part_of p \<noteq> butlast p" using p(3,5) by auto
  have w1: "write_file (part_of p) [] t = Some t1"
    unfolding t1_def by (rule write_file_ok[OF t(1) pp(5) pp(1)]) (use p pp in auto)
  obtain ms where ms: "walk_dir (walk_depth t1) t1 src src [] [src] = Some (ms, 0)"
    "set ms = (\<lambda>(s, x). ([] @ s, x)) ` files_at t1 src"
    using walk_collects[OF lf rt, of "[src]" "walk_depth t1" src src "[]"] dir1 pb node_in_dirs[OF dir1]
      is_under_append[of src "[]"] by (auto simp: walk_depth_def)
  have ms': "set ms = files_at t src" using ms(2) f1 by auto
  define b where "b = zl_write z (map (\<lambda>(u, x). (posix_name u, x)) ms)"
  define t2 where "t2 = put_node (part_of p) (File b) t1"
  have n2: "node t2 q = (if q = part_of p then Some (File b) else node t q)" for q
    using pp(1) n1 by (simp add: t2_def node_put)
  have w2: "write_file (part_of p) b t1 = Some t2"
    unfolding t2_def by (rule write_file_ok[OF lf pp(5) pp(1)]) (use n1 p pp bp in auto)
  have lf2: "link_free t2" using lf pp(1) by (simp add: t2_def link_free_put)
  have v: "verify_at z (part_of p) t2 = Inr ()"
    using assms(1) ms' safe n2
    by (auto simp: verify_at_def stat_plain[OF lf2 pp(5)] verify_archive_def b_def zip_law_def list_ex_iff)
  obtain t3 where t3: "replace_file (part_of p) p t2 = Some t3"
    "\<And>q. node t3 q = (if q = p then Some (File b) else if q = part_of p then None else node t2 q)"
    using replace_file_ok[of t2 "part_of p" b p] n2 p pp bp lf2 by auto
  have "create_archive z src p t = (Inr 0, t3)"
    using rs w1 ms(1) w2 v t3(1) by (simp add: create_archive_def Let_def b_def)
  moreover have "node t3 q = (if q = p then Some (File b) else node t q)" for q using t3(2) n2 p(5) by simp
  ultimately show ?thesis using ms' unfolding b_def by blast
qed

text \<open>The archive at a place holds the files \<open>fs\<close>, all with names that extract to themselves.\<close>

definition holds_files :: "zip_lib \<Rightarrow> tree \<Rightarrow> path \<Rightarrow> (path \<times> string) set \<Rightarrow> bool" where
  "holds_files z t p fs \<longleftrightarrow> (\<exists>b ms. node t p = Some (File b) \<and>
     zl_read z b = Some (map (\<lambda>(u, x). (posix_name u, x, True)) ms) \<and> set ms = fs \<and> antichain fs \<and>
     (\<forall>(u, x)\<in>fs. u \<noteq> [] \<and> (\<forall>c\<in>set u. good_name c) \<and> \<not> unsafe_name (posix_name u)))"

lemma create_archive_holds:
  assumes "zip_law z" and "archivable t src" and "free_place t src p"
  shows "\<exists>t1. create_archive z src p t = (Inr 0, t1) \<and> holds_files z t1 p (files_at t src) \<and>
     (\<forall>q. q \<noteq> p \<longrightarrow> node t1 q = node t q)"
proof -
  obtain ms t1 where c: "create_archive z src p t = (Inr 0, t1)" and ms: "set ms = files_at t src"
    and n1: "\<And>q. node t1 q = (if q = p then Some (File (zl_write z (map (\<lambda>(u, x). (posix_name u, x)) ms))) else node t q)"
    using create_archive_ok[OF assms] by blast
  have t: "rooted t" and safe: "\<forall>(u, x)\<in>files_at t src. \<not> unsafe_name (posix_name u)"
    using assms(2) by (auto simp: archivable_def)
  have read: "zl_read z (zl_write z (map (\<lambda>(u, x). (posix_name u, x)) ms)) = Some (map (\<lambda>(u, x). (posix_name u, x, True)) ms)"
    using assms(1) by (simp add: zip_law_def case_prod_beta comp_def)
  have good: "\<forall>(u, x)\<in>files_at t src. u \<noteq> [] \<and> (\<forall>c\<in>set u. good_name c) \<and> \<not> unsafe_name (posix_name u)"
    using safe good_parts[OF t] by (fastforce simp: files_at_def)
  have "holds_files z t1 p (files_at t src)"
    unfolding holds_files_def using n1[of p] read ms files_antichain[OF t] good by auto
  then show ?thesis using c n1 by auto
qed

lemma extract_holds:
  assumes "holds_files z t p fs" and "link_free t" and "''..'' \<notin> set p" and "''..'' \<notin> set d" and "d \<noteq> []"
    and "node t d = Some Dir" and "\<forall>s. s \<noteq> [] \<longrightarrow> node t (d @ s) = None"
  shows "\<exists>t2. extract_archive z p d t = (Inr (), t2) \<and> unpacked d fs t t2"
proof -
  obtain b ms where b: "node t p = Some (File b)" "zl_read z b = Some (map (\<lambda>(u, x). (posix_name u, x, True)) ms)"
    "set ms = fs" "antichain fs" and good: "\<forall>(u, x)\<in>fs. u \<noteq> [] \<and> (\<forall>c\<in>set u. good_name c) \<and> \<not> unsafe_name (posix_name u)"
    using assms(1) unfolding holds_files_def by blast
  have inside: "\<not> leaves t d d (posix_name u)" if "(u, x) \<in> fs" for u x
  proof -
    have "u \<noteq> []" "\<forall>c\<in>set u. good_name c" using good that by auto
    moreover from this(2) have "''..'' \<notin> set (d @ u)" using assms(4) by (auto simp: good_name_def)
    ultimately show ?thesis using resolve_plain[OF assms(2)] by (simp add: leaves_def parts_posix)
  qed
  have "unpacked d {} t t" using assms by (simp add: unpacked_def same_outside_refl)
  moreover have "\<forall>(u, x)\<in>set ms. u \<noteq> [] \<and> (\<forall>c\<in>set u. good_name c)" using good b(3) by auto
  ultimately obtain t2 where x: "extract_members d (map (\<lambda>(u, x). (posix_name u, x, True)) ms) t = Some t2"
    and u: "unpacked d (set ms \<union> {}) t t2"
    using extract_files[OF _ assms(4,5), of "{}" t t ms] b(3,4) by auto
  have "extract_archive z p d t = (Inr (), t2)"
    using b x good inside resolve_plain[OF assms(2,4)]
    by (auto simp: extract_archive_def stat_plain[OF assms(2,3)] list_ex_iff case_prod_beta)
  with u b(3) show ?thesis by auto
qed

text \<open>
  C13: a backup can be restored. A directory without links, none of whose names is one that
  archives leave out or refuse, is archived without a skip: the archive appears at its place and
  nothing else changes; extracting it into an empty directory succeeds, gives back exactly the
  files of the source with their contents at their relative paths, and changes nothing outside.
\<close>
theorem archive_roundtrip:
  assumes "zip_law z" and "archivable t src" and "free_place t src p"
    and "node t d = Some Dir" and "d \<noteq> []" and "\<not> is_under d p" and "\<forall>s. s \<noteq> [] \<longrightarrow> node t (d @ s) = None"
  shows "\<exists>t1 t2. create_archive z src p t = (Inr 0, t1) \<and> (\<forall>q. q \<noteq> p \<longrightarrow> node t1 q = node t q) \<and>
     extract_archive z p d t1 = (Inr (), t2) \<and> same_outside d t1 t2 \<and> files_at t2 d = files_at t src"
proof -
  obtain t1 where c: "create_archive z src p t = (Inr 0, t1)" and h: "holds_files z t1 p (files_at t src)"
    and n1: "\<And>q. q \<noteq> p \<Longrightarrow> node t1 q = node t q"
    using create_archive_holds[OF assms(1-3)] by blast
  have t: "link_free t" "rooted t" using assms(2) by (auto simp: archivable_def)
  have dots: "''..'' \<notin> set p" "''..'' \<notin> set d"
    using assms(3) part_of_facts(6)[of p] no_dots[OF t(2) assms(4)] by (auto simp: free_place_def)
  have away: "d @ s \<noteq> p" for s using assms(6) by auto
  have "link_free t1" using t(1) n1 h unfolding link_free_def holds_files_def
    by (metis fnode.distinct(5) option.inject)
  moreover have "node t1 d = Some Dir" "\<forall>s. s \<noteq> [] \<longrightarrow> node t1 (d @ s) = None"
    using assms(4,7) n1 away away[of "[]"] by auto
  ultimately obtain t2 where "extract_archive z p d t1 = (Inr (), t2)" and u: "unpacked d (files_at t src) t1 t2"
    using extract_holds[OF h _ dots assms(5)] by blast
  moreover have "files_at t2 d = files_at t src" using u by (auto simp: unpacked_def files_at_def)
  ultimately show ?thesis using c n1 u by (auto simp: unpacked_def)
qed

section \<open>A concrete library\<close>

text \<open>Members as marked characters: \<open>x\<close> before each character, a point after each text.\<close>

definition put_text :: "string \<Rightarrow> string" where
  "put_text s = concat (map (\<lambda>c. [CHR ''x'', c]) s) @ ''.''"

fun take_text :: "string \<Rightarrow> (string \<times> string) option" where
  "take_text (m # s) =
     (if m = CHR ''.'' then Some ([], s)
      else case s of c # r \<Rightarrow> map_option (\<lambda>(u, v). (c # u, v)) (take_text r) | [] \<Rightarrow> None)"
| "take_text [] = None"

fun take_members :: "nat \<Rightarrow> string \<Rightarrow> (string \<times> string \<times> bool) list option" where
  "take_members 0 s = (if s = [] then Some [] else None)"
| "take_members (Suc n) s =
     (if s = [] then Some []
      else case take_text s of None \<Rightarrow> None
      | Some (a, r) \<Rightarrow> (case take_text r of None \<Rightarrow> None
          | Some (b, r') \<Rightarrow> map_option (\<lambda>ms. (a, b, True) # ms) (take_members n r')))"

definition sample_zip :: zip_lib where
  "sample_zip = \<lparr>zl_write = (\<lambda>ms. concat (map (\<lambda>(n, x). put_text n @ put_text x) ms)),
     zl_read = (\<lambda>s. take_members (length s) s), zl_hash = (\<lambda>s. s)\<rparr>"

lemma take_put: "take_text (put_text s @ r) = Some (s, r)"
  by (induction s) (simp_all add: put_text_def)

lemma take_members_put:
  "length ms \<le> n \<Longrightarrow> take_members n (concat (map (\<lambda>(n, x). put_text n @ put_text x) ms)) =
     Some (map (\<lambda>(n, x). (n, x, True)) ms)"
proof (induction ms arbitrary: n)
  case Nil
  then show ?case by (cases n) simp_all
next
  case (Cons m ms)
  obtain a b where m: "m = (a, b)" by (cases m)
  obtain k where n: "n = Suc k" "length ms \<le> k" using Cons.prems by (cases n) auto
  have "put_text a \<noteq> []" by (simp add: put_text_def)
  then show ?case using Cons.IH[OF n(2)] by (simp add: m n(1) take_put)
qed

lemma sample_zip_law: "zip_law sample_zip"
proof -
  have "length ms \<le> length (concat (map (\<lambda>(n, x). put_text n @ put_text x) ms))" for ms :: "(string \<times> string) list"
    by (induction ms) (auto simp: put_text_def)
  then show ?thesis by (simp add: zip_law_def sample_zip_def take_members_put)
qed

definition sample_worlds :: tree where
  "sample_worlds = [([''w''], Dir), ([''w'', ''level.dat''], File ''data''), ([''w'', ''region''], Dir),
     ([''w'', ''region'', ''r.mca''], File ''chunks''), ([''b''], Dir), ([''s''], Dir)]"

lemma sample_node: "node sample_worlds p = Some n \<Longrightarrow> p = [] \<and> n = Dir \<or> (p, n) \<in> set sample_worlds"
  by (auto simp: node_def split: if_splits dest: map_of_SomeD)

lemma sample_link_free: "link_free sample_worlds"
  unfolding link_free_def using sample_node by (fastforce simp: sample_worlds_def)

lemma rooted_listed:
  assumes "list_all (\<lambda>(p, n). p \<noteq> [] \<and> node t (butlast p) = Some Dir \<and> list_all good_name p) t"
  shows "rooted t"
  unfolding rooted_def
proof (intro allI impI)
  fix p
  assume "p \<noteq> []" "node t p \<noteq> None"
  then have "p \<in> fst ` set t" using node_key by blast
  with assms show "node t (butlast p) = Some Dir \<and> (\<forall>c\<in>set p. good_name c)" by (auto simp: list_all_iff)
qed

lemma sample_rooted: "rooted sample_worlds"
  by (rule rooted_listed) (simp add: sample_worlds_def node_def good_name_def)

lemma sample_archivable: "archivable sample_worlds [''w'']"
proof -
  have "plain_below sample_worlds [''w'']"
    unfolding plain_below_def
  proof (intro allI impI)
    fix s n
    assume "node sample_worlds ([''w''] @ s) = Some n"
    then have "([''w''] @ s, n) \<in> set sample_worlds" using sample_node by fastforce
    then show "\<forall>c\<in>set s. \<not> volatile_name c"
      by (auto simp: sample_worlds_def volatile_name_def ends_with_def)
  qed
  moreover have "\<not> unsafe_name (posix_name u)" if "(u, x) \<in> files_at sample_worlds [''w'']" for u x
  proof -
    have "([''w''] @ u, File x) \<in> set sample_worlds" using that sample_node by (fastforce simp: files_at_def)
    then show ?thesis
      by (auto simp: sample_worlds_def unsafe_name_def slashes_def is_absolute_def path_parts_def)
  qed
  ultimately show ?thesis
    using sample_link_free sample_rooted by (auto simp: archivable_def) (simp add: sample_worlds_def node_def)
qed

theorem archive_roundtrip_witness:
  "\<exists>t1 t2. create_archive sample_zip [''w''] [''b'', ''z''] sample_worlds = (Inr 0, t1) \<and>
     extract_archive sample_zip [''b'', ''z''] [''s''] t1 = (Inr (), t2) \<and>
     files_at t2 [''s''] = files_at sample_worlds [''w'']"
proof -
  have "free_place sample_worlds [''w''] [''b'', ''z'']"
    by (simp add: free_place_def sample_worlds_def node_def part_of_def good_name_def is_under_def)
  moreover have "\<forall>s. s \<noteq> [] \<longrightarrow> node sample_worlds ([''s''] @ s) = None"
  proof (intro allI impI)
    fix s :: path
    assume "s \<noteq> []"
    then show "node sample_worlds ([''s''] @ s) = None" by (simp add: node_def sample_worlds_def)
  qed
  moreover have "node sample_worlds [''s''] = Some Dir" by (simp add: node_def sample_worlds_def)
  moreover have "\<not> is_under [''s''] [''b'', ''z'']" by (simp add: is_under_def)
  ultimately show ?thesis using archive_roundtrip[OF sample_zip_law sample_archivable] by blast
qed

end
