(* ===== verification/Backup_Props.thy ===== *)
theory Backup_Props
  imports Backup Archive_Props
begin

text \<open>
  What backups guarantee: a running world is archived between a verified flush and the resumption
  of its autosave, and what is registered is a whole archive, whatever fails on the way.
\<close>

section \<open>The console\<close>

text \<open>The commands sent to consoles and the calls of the archive engine, in their order.\<close>

datatype fence_event = Console string | Archived path nat

definition fence_of :: "world_call list \<Rightarrow> fence_event list" where
  "fence_of cs = concat (map (\<lambda>c. case c of RconCommand p m \<Rightarrow> [Console m] | WriteArchive d n \<Rightarrow> [Archived d n] | _ \<Rightarrow> []) cs)"

definition fence :: "backup_sys \<Rightarrow> fence_event list" where
  "fence s = fence_of (ws_calls (bs_sys s))"

lemma fence_of_simps [simp]: "fence_of [] = []" "fence_of (xs @ ys) = fence_of xs @ fence_of ys"
  "fence_of (c # cs) = (case c of RconCommand p m \<Rightarrow> [Console m] | WriteArchive d n \<Rightarrow> [Archived d n] | _ \<Rightarrow> []) @ fence_of cs"
  by (simp_all add: fence_of_def)

text \<open>Everything but the files, the calls and the clock is as it was.\<close>

definition only_files :: "backup_sys \<Rightarrow> backup_sys \<Rightarrow> bool" where
  "only_files s t \<longleftrightarrow> ws_ops (bs_sys t) = ws_ops (bs_sys s) \<and> ws_tables (bs_sys t) = ws_tables (bs_sys s) \<and>
     bs_restores t = bs_restores s"

definition only_calls :: "backup_sys \<Rightarrow> backup_sys \<Rightarrow> bool" where
  "only_calls s t \<longleftrightarrow> ws_ops (bs_sys t) = ws_ops (bs_sys s) \<and> bs_tree t = bs_tree s \<and> bs_restores t = bs_restores s"

definition later :: "backup_sys \<Rightarrow> backup_sys \<Rightarrow> bool" where
  "later s t \<longleftrightarrow> ws_tick (bs_sys s) \<le> ws_tick (bs_sys t) \<and> fence t = fence s"

interpretation fi: state_order only_files
  by unfold_locales (auto simp: only_files_def)

interpretation ca: state_order only_calls
  by unfold_locales (auto simp: only_calls_def)

interpretation la: state_order later
  by unfold_locales (auto simp: later_def)

lemma fi_host [stay_rules]: "fi.stays (host E f)"
  by (simp add: fi.stays_def host_def only_files_def tick_def)

lemma fi_tree [stay_rules]: "fi.stays (on_tree wrap f)"
  by (simp add: fi.stays_def on_tree_def only_files_def put_tree_def split: prod.split)

lemma fi_disk [stay_rules]: "fi.stays (or_disk f)"
  unfolding or_disk_def by (intro stay_rules)

lemma fi_archive [stay_rules]: "fi.stays (archive_call E source part)"
  unfolding archive_call_def by (intro fi.stays_bind fi_tree fi.stays_change) (simp add: only_files_def)

lemma fi_remove [stay_rules]: "fi.stays (remove_file p)"
  unfolding remove_file_def by (rule fi.stays_change) (simp add: only_files_def put_tree_def)

lemma fi_hash [stay_rules]: "fi.stays (hash_of E p)"
  unfolding hash_of_def by (intro stay_rules)

lemma fi_size [stay_rules]: "fi.stays (file_size p)"
  unfolding file_size_def by (rule fi.stays_bind[OF fi.stays_gets])
    (simp add: fi.stays_ret fi.stays_raise split: option.split fnode.split)

lemma fi_verify [stay_rules]: "fi.stays (verify_zip E p)"
  unfolding verify_zip_def
  by (rule fi.stays_bind[OF fi.stays_gets], simp split: sum.split, intro conjI allI impI)
    (intro stay_rules fi_remove)+

lemma ca_host [stay_rules]: "ca.stays (host E f)"
  by (simp add: ca.stays_def host_def only_calls_def tick_def)

lemma host_Inr: "host E f s = (Inr x, t) \<longleftrightarrow>
    x = f (ws_tick (bs_sys s)) \<and> t = s\<lparr>bs_sys := tick (be_world E) (bs_sys s)\<rparr>"
  by (auto simp: host_def)

lemma host_Inl [simp]: "host E f s \<noteq> (Inl e, t)"
  by (simp add: host_def)

lemma save_connect_keeps:
  assumes "save_connect W w s = (r, t)"
  shows "ws_ops t = ws_ops s \<and> ws_tree t = ws_tree s \<and> ws_tick s \<le> ws_tick t \<and>
     fence_of (ws_calls t) = fence_of (ws_calls s)"
  using assms unfolding save_connect_def
  by (auto simp: bind_run_def gets_def of_option_def raise_def ret_def try_run_def ask_def tell_def tick_def
      split: option.splits sum.splits prod.splits)

lemma save_call_result:
  assumes "save_call E w c s = (r, t)"
  shows "only_calls s t \<and> ws_tick (bs_sys s) \<le> ws_tick (bs_sys t) \<and>
     (fence t = fence s @ [Console c] \<and> (r = Inr () \<or> (\<exists>m. r = Inl (SaveCoordination m))) \<or>
      fence t = fence s \<and> (\<exists>m. r = Inl (SaveCoordination m)))"
proof -
  define W where "W = be_world E"
  obtain p s1 where p: "save_connect W w (bs_sys s) = (p, s1)" by (cases "save_connect W w (bs_sys s)")
  note k = save_connect_keeps[OF p]
  show ?thesis
    using assms p k
    by (cases p) (auto simp: save_call_def on_world_def W_def[symmetric] Let_def bind_run_def finally_run_def
        try_run_def ask_def tell_def tick_def ret_def raise_def only_calls_def fence_def
        split: option.splits sum.splits prod.splits)
qed

section \<open>The flush\<close>

text \<open>What a verified flush is, in terms of the answers of the host: \<open>level.dat\<close> was touched after the
  flush, or at the same millisecond less than a second ago, and is at most 30 seconds old.\<close>

definition flushed :: "backup_env \<Rightarrow> path \<Rightarrow> nat \<Rightarrow> nat \<Rightarrow> bool" where
  "flushed E p from til \<longleftrightarrow> (\<exists>i j n b m. from \<le> i \<and> i < j \<and> j < n \<and> n < til \<and> be_mtime E i p = Some b \<and>
     be_mtime E j p = Some m \<and> b \<le> m \<and> be_wall E n - m \<in> {- 5000..30000} \<and>
     (m = b \<longrightarrow> (\<exists>k<til. n < k \<and> be_wall E k - b < 1000)))"

lemma modified_at_result:
  assumes "modified_at E p s = (r, t)"
  shows "t = s\<lparr>bs_sys := tick (be_world E) (bs_sys s)\<rparr> \<and>
     (case be_mtime E (ws_tick (bs_sys s)) p of None \<Rightarrow> r = Inl unverified | Some m \<Rightarrow> r = Inr m)"
  using assms by (auto simp: modified_at_def bind_run_def host_def of_option_def raise_def ret_def split: option.splits)

lemma verify_flush_calls: "ca.stays (verify_level_dat_flush E p b)"
  unfolding verify_level_dat_flush_def modified_at_def by (intro stay_rules)

lemma verify_flush_files: "fi.stays (verify_level_dat_flush E p b)"
  unfolding verify_level_dat_flush_def modified_at_def by (intro stay_rules)

lemma verify_flush_fails: "verify_level_dat_flush E p b s = (Inl e, t) \<Longrightarrow> e = unverified"
  by (auto simp: verify_level_dat_flush_def modified_at_def bind_run_Inl run_simps host_Inr
      split: option.splits if_splits)

lemma verify_flush_Inr:
  assumes "verify_level_dat_flush E p (Some b) s = (Inr u, t)"
  shows "\<exists>m. be_mtime E (ws_tick (bs_sys s)) p = Some m \<and> b \<le> m \<and>
     be_wall E (Suc (ws_tick (bs_sys s))) - m \<in> {- 5000..30000} \<and>
     Suc (Suc (ws_tick (bs_sys s))) \<le> ws_tick (bs_sys t) \<and>
     (m = b \<longrightarrow> be_wall E (Suc (Suc (ws_tick (bs_sys s)))) - b < 1000 \<and>
        Suc (Suc (Suc (ws_tick (bs_sys s)))) \<le> ws_tick (bs_sys t))"
proof -
  define s1 where "s1 = s\<lparr>bs_sys := tick (be_world E) (bs_sys s)\<rparr>"
  define s2 where "s2 = s1\<lparr>bs_sys := tick (be_world E) (bs_sys s1)\<rparr>"
  define s3 where "s3 = s2\<lparr>bs_sys := tick (be_world E) (bs_sys s2)\<rparr>"
  have ticks: "ws_tick (bs_sys s1) = Suc (ws_tick (bs_sys s))" "ws_tick (bs_sys s2) = Suc (Suc (ws_tick (bs_sys s)))"
    "ws_tick (bs_sys s3) = Suc (Suc (Suc (ws_tick (bs_sys s))))"
    by (simp_all add: s1_def s2_def s3_def tick_def)
  obtain m where m: "be_mtime E (ws_tick (bs_sys s)) p = Some m"
    and rest: "- 5000 \<le> be_wall E (ws_tick (bs_sys s1)) - m" "be_wall E (ws_tick (bs_sys s1)) - m \<le> level_dat_max_age"
      "b \<le> m" "(if m = b then bind_run (host E (be_wall E)) (\<lambda>w'. check (w' - b < 1000) unverified) else ret ()) s2 = (Inr u, t)"
    using assms unfolding verify_level_dat_flush_def modified_at_def
    by (simp add: run_simps host_Inr s1_def[symmetric] s2_def[symmetric]) blast
  show ?thesis
  proof (cases "m = b")
    case True
    with rest(4) have "be_wall E (ws_tick (bs_sys s2)) - b < 1000" "t = s3"
      by (simp_all add: run_simps host_Inr s3_def)
    with True m rest show ?thesis by (simp add: ticks level_dat_max_age_def)
  next
    case False
    with rest(4) have "t = s2" by (simp add: run_simps)
    with False m rest show ?thesis by (simp add: ticks level_dat_max_age_def)
  qed
qed

section \<open>The fence\<close>

text \<open>What a capture has done when it ends: of the two commands and the call of the engine the first
  \<open>k\<close>, the call only after the flush was verified, and nothing else before it.\<close>

definition steps :: "path \<Rightarrow> nat \<Rightarrow> fence_event list" where
  "steps source n = [Console ''save-off'', Console ''save-all'', Archived source n]"

definition captured :: "backup_env \<Rightarrow> path \<Rightarrow> path \<Rightarrow> backup_sys \<Rightarrow> (backup_error + BackupResult) \<Rightarrow> backup_sys \<Rightarrow> nat \<Rightarrow> nat \<Rightarrow> bool" where
  "captured E p source s r t k n \<longleftrightarrow> fence t = fence s @ take k (steps source n) \<and> k \<le> 3 \<and>
     ((\<exists>b. r = Inr b) \<or> \<not> only_calls s t \<longrightarrow> k = 3) \<and> (k = 3 \<longrightarrow> flushed E p (ws_tick (bs_sys s)) n)"

lemma la_host [stay_rules]: "la.stays (host E f)"
  by (simp add: la.stays_def host_def later_def tick_def fence_def)

lemma la_tree [stay_rules]: "la.stays (on_tree wrap f)"
  by (simp add: la.stays_def on_tree_def later_def put_tree_def fence_def split: prod.split)

lemma la_disk [stay_rules]: "la.stays (or_disk f)"
  unfolding or_disk_def by (intro stay_rules)

lemma la_remove [stay_rules]: "la.stays (remove_file p)"
  unfolding remove_file_def by (rule la.stays_change) (simp add: later_def put_tree_def fence_def)

lemma la_add [stay_rules]: "la.stays (add_artifact r)"
  by (simp add: la.stays_def add_artifact_def later_def put_store_def fence_def split: option.split)

lemmas la_rules = la.stays_ret la.stays_raise la.stays_gets la.stays_bind la.stays_try la.stays_check la.stays_of_option
  la_host la_tree la_disk la_remove la_add

lemma la_verify: "la.stays (verify_level_dat_flush E p b)"
  unfolding verify_level_dat_flush_def modified_at_def by (intro stay_rules)

text \<open>The archive is one call, and before it only the directory for it is made.\<close>

definition archives :: "path \<Rightarrow> backup_sys \<Rightarrow> (backup_error + 'a) \<Rightarrow> backup_sys \<Rightarrow> bool" where
  "archives source s r t \<longleftrightarrow> (fence t = fence s \<and> only_calls s t \<and> (\<exists>e. r = Inl e)) \<or>
     (\<exists>n. ws_tick (bs_sys s) \<le> n \<and> fence t = fence s @ [Archived source n])"

lemma archive_call_logs:
  assumes "archive_call E source part s = (r, t)"
  shows "fence t = fence s @ [Archived source (ws_tick (bs_sys s))]"
  using assms by (auto simp: archive_call_def run_simps bind_run_def change_def on_tree_def put_tree_def fence_def
      split: prod.splits sum.splits)

lemma write_artifact_logs:
  assumes "write_artifact E w source oid cat i final s = (r, t)"
  shows "fence t = fence s @ [Archived source (ws_tick (bs_sys s))]"
proof -
  have v: "la.stays (verify_zip E p)" for p
    unfolding verify_zip_def
    by (rule la.stays_bind[OF la.stays_gets], simp split: sum.split, intro conjI allI impI)
      (intro la_rules)+
  have z: "la.stays (file_size p)" for p
    unfolding file_size_def by (rule la.stays_bind[OF la.stays_gets])
      (simp add: la.stays_ret la.stays_raise split: option.split fnode.split)
  define rest where "rest = (\<lambda>skipped. bind_run (hash_of E (part_of final)) (\<lambda>csum.
      then_run (verify_zip E (part_of final)) (then_run (or_disk (replace_file (part_of final) final))
      (bind_run (file_size final) (\<lambda>len. bind_run (hash_of E final) (\<lambda>csum'.
       then_run (check (csum' = csum) (BackupIntegrity ''post-rename checksum mismatch''))
       (bind_run (clock_now E) (\<lambda>now.
        then_run (add_artifact (artifact_of i w cat (path_text final) len csum oid now))
          (ret \<lparr>br_artifact = i, br_path = path_text final, br_checksum = csum, br_size = len, br_skipped = skipped\<rparr>)))))))))"
  have rest: "la.stays (rest x)" for x unfolding rest_def hash_of_def by (intro la_rules v z)
  have run: "bind_run (archive_call E source (part_of final)) rest s = (r, t)"
    using assms unfolding write_artifact_def Let_def rest_def .
  show ?thesis
  proof (cases rule: bind_run_cases[OF run])
    case (1 e)
    then show ?thesis using archive_call_logs by blast
  next
    case (2 x s1)
    from archive_call_logs[OF 2(1)] la.staysD[OF rest 2(2)] show ?thesis by (simp add: later_def)
  qed
qed

lemma la_handler: "la.stays (\<lambda>s. then_run (remove_file p) (then_run (remove_file q) (raise e)) s)"
  by (intro la_rules)

lemma write_archives:
  assumes "write_and_register E w source dir oid cat s = (r, t)"
  shows "archives source s r t"
proof -
  define put where "put = (\<lambda>i. then_run (or_disk (make_dirs [] dir))
     (try_run (write_artifact E w source oid cat i (dir @ [w @ ''-'' @ i @ ''.zip'']))
        (\<lambda>e. then_run (remove_file (part_of (dir @ [w @ ''-'' @ i @ ''.zip''])))
           (then_run (remove_file (dir @ [w @ ''-'' @ i @ ''.zip''])) (raise e)))))"
  obtain i s1 where i: "fresh E ''ba_'' s = (Inr i, s1)" by (simp add: fresh_def host_def)
  have s1: "only_calls s s1" "later s s1"
    using i ca.staysD[OF ca_host] la.staysD[OF la_host] by (auto simp: fresh_def)
  have run: "put i s1 = (r, t)"
    using assms i unfolding write_and_register_def Let_def put_def by (simp add: bind_run_def)
  show ?thesis
  proof (cases rule: bind_run_cases[OF run[unfolded put_def]])
    case (1 e)
    then have "t = s1" by (auto simp: or_disk_def on_tree_def put_tree_def split: option.splits)
    then show ?thesis using 1 s1 by (auto simp: archives_def later_def)
  next
    case (2 x s2)
    have l2: "later s1 s2" by (rule la.staysD[OF la_disk 2(1)])
    obtain r3 s3 where w3: "write_artifact E w source oid cat i (dir @ [w @ ''-'' @ i @ ''.zip'']) s2 = (r3, s3)"
      by (metis surj_pair)
    have "later s3 t"
      using 2(2) w3 la.staysD[OF la_handler] by (auto simp: try_run_def la.rel_refl split: sum.splits)
    with write_artifact_logs[OF w3] l2 s1(2) show ?thesis by (auto simp: archives_def later_def)
  qed
qed

lemma captured_early:
  assumes "only_calls s t" and "r = Inl e" and "fence t = fence s @ take k (steps source n)" and "k < 3"
  shows "captured E p source s r t k n"
  using assms by (simp add: captured_def)

lemma flushedI:
  assumes "from \<le> i" and "i < j" and "j < n" and "n < til" and "be_mtime E i p = Some b" and "be_mtime E j p = Some m"
    and "b \<le> m" and "be_wall E n - m \<in> {- 5000..30000}" and "m = b \<Longrightarrow> \<exists>k<til. n < k \<and> be_wall E k - b < 1000"
  shows "flushed E p from til"
  using assms unfolding flushed_def by blast

lemma flushed_wider: "flushed E p a b \<Longrightarrow> a' \<le> a \<Longrightarrow> b \<le> b' \<Longrightarrow> flushed E p a' b'"
  unfolding flushed_def by (meson le_trans less_le_trans)

text \<open>From a suspended autosave on.\<close>

lemma capture_suspended:
  assumes run: "bind_run (modified_at E p) (\<lambda>before. then_run (flush E w)
      (then_run (verify_level_dat_flush E p (Some before)) (write_and_register E w source dir oid cat))) s1 = (r, t)"
    and o1: "only_calls s s1 \<and> ws_tick (bs_sys s) \<le> ws_tick (bs_sys s1)" and v1: "fence s1 = fence s @ [Console ''save-off'']"
  shows "\<exists>k n. captured E p source s r t k n \<and> 0 < k"
proof (cases rule: bind_run_cases[OF run])
  case (1 e)
  from modified_at_result[OF 1(1)] have "only_calls s t" "fence t = fence s1"
    using o1 by (auto simp: only_calls_def tick_def fence_def)
  with 1 v1 show ?thesis by (intro exI[of _ 1]) (simp add: captured_early steps_def)
next
  case (2 b s2)
  have s2: "s2 = s1\<lparr>bs_sys := tick (be_world E) (bs_sys s1)\<rparr>" and b: "be_mtime E (ws_tick (bs_sys s1)) p = Some b"
    using modified_at_result[OF 2(1)] by (auto split: option.splits)
  have o2: "only_calls s s2" "fence s2 = fence s @ [Console ''save-off'']" "ws_tick (bs_sys s2) = Suc (ws_tick (bs_sys s1))"
    using o1 v1 by (auto simp: s2 only_calls_def tick_def fence_def)
  show ?thesis
  proof (cases rule: bind_run_cases[OF 2(2)])
    case (1 e)
    note c = save_call_result[OF 1(1)[unfolded flush_def]]
    have o3: "only_calls s t" using c o2 ca.rel_trans by blast
    from c consider "fence t = fence s @ [Console ''save-off'', Console ''save-all'']" | "fence t = fence s @ [Console ''save-off'']"
      using o2 by auto
    then show ?thesis
    proof cases
      case 1
      with o3 \<open>r = Inl e\<close> show ?thesis by (intro exI[of _ 2]) (simp add: captured_early steps_def)
    next
      case 2
      with o3 \<open>r = Inl e\<close> show ?thesis by (intro exI[of _ 1]) (simp add: captured_early steps_def)
    qed
  next
    case (2 x s3)
    note c = save_call_result[OF 2(1)[unfolded flush_def]]
    have o3: "only_calls s s3" "fence s3 = fence s @ [Console ''save-off'', Console ''save-all'']"
      "ws_tick (bs_sys s2) \<le> ws_tick (bs_sys s3)"
      using c o2 ca.rel_trans by auto
    show ?thesis
    proof (cases rule: bind_run_cases[OF 2(2)])
      case (1 e)
      have "only_calls s3 t" "fence t = fence s3"
        using 1(1) ca.staysD[OF verify_flush_calls] la.staysD[OF la_verify] by (blast, simp add: later_def)
      with o3 1 show ?thesis using ca.rel_trans by (intro exI[of _ 2]) (simp add: captured_early steps_def)
    next
      case (2 y s4)
      have o4: "only_calls s s4" "fence s4 = fence s @ [Console ''save-off'', Console ''save-all'']"
        using 2(1) ca.staysD[OF verify_flush_calls] la.staysD[OF la_verify] o3 ca.rel_trans by (blast, simp add: later_def)
      obtain m where m: "be_mtime E (ws_tick (bs_sys s3)) p = Some m" "b \<le> m"
        "be_wall E (Suc (ws_tick (bs_sys s3))) - m \<in> {- 5000..30000}" "Suc (Suc (ws_tick (bs_sys s3))) \<le> ws_tick (bs_sys s4)"
        "m = b \<longrightarrow> be_wall E (Suc (Suc (ws_tick (bs_sys s3)))) - b < 1000 \<and> Suc (Suc (Suc (ws_tick (bs_sys s3)))) \<le> ws_tick (bs_sys s4)"
        using verify_flush_Inr[OF 2(1)] by blast
      have fl: "flushed E p (ws_tick (bs_sys s1)) (ws_tick (bs_sys s4))"
      proof (rule flushedI[OF _ _ _ _ b m(1,2,3)])
        show "\<exists>k<ws_tick (bs_sys s4). Suc (ws_tick (bs_sys s3)) < k \<and> be_wall E k - b < 1000" if "m = b"
          using m(5) that by (intro exI[of _ "Suc (Suc (ws_tick (bs_sys s3)))"]) simp
      qed (use m(4) o2(3) o3(3) in auto)
      from write_archives[OF 2(2)] show ?thesis unfolding archives_def
      proof (elim disjE exE conjE)
        fix e assume "fence t = fence s4" "only_calls s4 t" "r = Inl e"
        then show ?thesis using o4 ca.rel_trans by (intro exI[of _ 2]) (simp add: captured_early steps_def)
      next
        fix n assume "ws_tick (bs_sys s4) \<le> n" "fence t = fence s4 @ [Archived source n]"
        then show ?thesis using o4 o1 flushed_wider[OF fl]
          by (intro exI[of _ 3] exI[of _ n]) (simp add: captured_def steps_def)
      qed
    qed
  qed
qed

lemma capture_running_result:
  assumes "capture_running E w source dir oid cat s = (r, t)"
  shows "\<exists>k n. captured E (source @ [''level.dat'']) source s r t k n \<and> (k = 0 \<longrightarrow> (\<exists>m. r = Inl (SaveCoordination m)))"
proof -
  define p where "p = source @ [''level.dat'']"
  have run: "then_run (suspend_autosave E w) (bind_run (modified_at E p) (\<lambda>before.
       then_run (flush E w) (then_run (verify_level_dat_flush E p (Some before))
         (write_and_register E w source dir oid cat)))) s = (r, t)"
    using assms by (simp add: capture_running_def Let_def p_def)
  have "\<exists>k n. captured E p source s r t k n \<and> (k = 0 \<longrightarrow> (\<exists>m. r = Inl (SaveCoordination m)))"
  proof (cases rule: bind_run_cases[OF run])
    case (1 e)
    note c = save_call_result[OF 1(1)[unfolded suspend_autosave_def]]
    then obtain m where m: "r = Inl (SaveCoordination m)" using 1(2) by auto
    from c consider "fence t = fence s" | "fence t = fence s @ [Console ''save-off'']" by blast
    then show ?thesis
    proof cases
      case 1
      then show ?thesis using c m by (intro exI[of _ 0]) (simp add: captured_early)
    next
      case 2
      then show ?thesis using c m by (intro exI[of _ 1]) (simp add: captured_early steps_def)
    qed
  next
    case (2 u s1)
    note c1 = save_call_result[OF 2(1)[unfolded suspend_autosave_def]]
    then have v1: "fence s1 = fence s @ [Console ''save-off'']" by auto
    show ?thesis using capture_suspended[OF 2(2) _ v1] c1 by (metis less_irrefl)
  qed
  then show ?thesis by (simp add: p_def)
qed


section \<open>What is written where\<close>

text \<open>Only the places \<open>ps\<close> differ, no link is made, and a file there is an old one unless at \<open>qs\<close>.\<close>

definition writes_at :: "path set \<Rightarrow> path set \<Rightarrow> tree \<Rightarrow> tree \<Rightarrow> bool" where
  "writes_at ps qs t t' \<longleftrightarrow> link_free t' \<and> (\<forall>q. q \<notin> ps \<longrightarrow> node t' q = node t q) \<and>
     (\<forall>q x. q \<notin> qs \<longrightarrow> node t' q = Some (File x) \<longrightarrow> node t q = Some (File x))"

lemma writes_refl: "link_free t \<Longrightarrow> writes_at ps qs t t"
  by (simp add: writes_at_def)

lemma writes_trans: "writes_at ps qs a b \<Longrightarrow> writes_at ps qs b c \<Longrightarrow> writes_at ps qs a c"
  by (auto simp: writes_at_def)

lemma writes_then:
  assumes ab: "writes_at ps qs a b" and bc: "writes_at ps' qs' b c" and gone: "\<And>q x. q \<in> qs \<Longrightarrow> q \<notin> qs' \<Longrightarrow> node c q \<noteq> Some (File x)"
  shows "writes_at (ps \<union> ps') qs' a c"
  unfolding writes_at_def
proof (intro conjI allI impI)
  show "link_free c" using bc by (simp add: writes_at_def)
  show "node c q = node a q" if "q \<notin> ps \<union> ps'" for q
    using ab bc that unfolding writes_at_def by simp
  show "node a q = Some (File x)" if q: "q \<notin> qs'" and f: "node c q = Some (File x)" for q x
  proof -
    have "node b q = Some (File x)" using bc q f unfolding writes_at_def by blast
    moreover have "q \<notin> qs" using gone q f by blast
    ultimately show ?thesis using ab unfolding writes_at_def by blast
  qed
qed

lemma writes_mono: "writes_at ps qs a b \<Longrightarrow> ps \<subseteq> ps' \<Longrightarrow> qs \<subseteq> qs' \<Longrightarrow> writes_at ps' qs' a b"
  by (auto simp: writes_at_def)

lemma write_file_at:
  assumes "write_file p x t = Some t'" and "link_free t" and "''..'' \<notin> set p" and "p \<noteq> []"
  shows "writes_at {p} {p} t t' \<and> node t' p = Some (File x)"
proof -
  have "t' = put_node p (File x) t"
    using assms by (auto simp: write_file_def resolve_plain split: if_splits)
  then show ?thesis using assms by (auto simp: writes_at_def node_put link_free_put)
qed

lemma unlink_at:
  assumes "link_free t" and "''..'' \<notin> set p" and "p \<noteq> []"
  shows "writes_at {p} {} t (unlink p t) \<and> (\<forall>x. node (unlink p t) p \<noteq> Some (File x))"
proof (cases "node t p = Some Dir")
  case True
  then show ?thesis using assms by (simp add: unlink_def entry_plain writes_refl)
next
  case False
  note n = node_unlink[OF assms False]
  have "link_free (unlink p t)" using assms(1) by (simp add: link_free_def n)
  then show ?thesis by (auto simp: writes_at_def n split: if_splits)
qed

lemma replace_file_at:
  assumes "replace_file p d t = Some t'" and "link_free t" and "''..'' \<notin> set p" and "''..'' \<notin> set d" and "p \<noteq> []"
    and "d \<noteq> []" and "p \<noteq> d"
  shows "writes_at {p, d} {d} t t' \<and> node t' p = None \<and> (\<exists>x. node t p = Some (File x) \<and> node t' d = Some (File x))"
proof -
  obtain n where n: "node t p = Some n" "n \<noteq> Dir" "t' = put_node d n (unlink p t)"
    using assms by (auto simp: replace_file_def entry_plain split: option.splits if_splits)
  then obtain x where x: "n = File x" using assms(2) by (cases n) (auto simp: link_free_def)
  have u: "node t' q = (if q = d then Some (File x) else if q = p then None else node t q)" for q
    using n x assms by (simp add: node_put node_unlink)
  then have "link_free t'" using assms(2) by (simp add: link_free_def)
  with u n x assms(7) show ?thesis by (auto simp: writes_at_def split: if_splits)
qed

lemma make_dirs_step:
  assumes "link_free t" and "''..'' \<notin> set (cur @ [c])" and "make_dirs cur (c # cs) t = Some t'"
  shows "make_dirs (cur @ [c]) cs t = Some t' \<or>
     node t cur = Some Dir \<and> node t (cur @ [c]) = None \<and> make_dirs (cur @ [c]) cs (put_node (cur @ [c]) Dir t) = Some t'"
proof -
  note here = stat_plain[OF assms(1,2)] entry_plain[OF assms(1,2)]
  have up: "stat t cur = node t cur" using assms(1,2) by (simp add: stat_plain)
  show ?thesis
  proof (cases "node t (cur @ [c])")
    case None
    then show ?thesis using assms(3) unfolding make_dirs.simps here None up by (simp split: if_splits)
  next
    case (Some n)
    then show ?thesis using assms(3) unfolding make_dirs.simps here Some by (cases n) simp_all
  qed
qed

lemma make_dirs_at:
  assumes "make_dirs cur cs t = Some t'" and "link_free t" and "''..'' \<notin> set (cur @ cs)"
  shows "link_free t' \<and> node t' (cur @ cs) = Some Dir \<and>
     (\<forall>q. node t' q = node t q \<or> node t q = None \<and> node t' q = Some Dir \<and> is_under q (cur @ cs))"
  using assms
proof (induction cs arbitrary: cur t)
  case Nil
  then show ?case by (auto simp: stat_plain split: if_splits)
next
  case (Cons c cs)
  define t1 where "t1 = put_node (cur @ [c]) Dir t"
  have dots: "''..'' \<notin> set (cur @ [c])" "''..'' \<notin> set ((cur @ [c]) @ cs)" using Cons.prems(3) by simp_all
  from make_dirs_step[OF Cons.prems(2) dots(1) Cons.prems(1)] show ?case
  proof
    assume "make_dirs (cur @ [c]) cs t = Some t'"
    from Cons.IH[OF this Cons.prems(2) dots(2)] show ?thesis by simp
  next
    assume n: "node t cur = Some Dir \<and> node t (cur @ [c]) = None \<and> make_dirs (cur @ [c]) cs (put_node (cur @ [c]) Dir t) = Some t'"
    have "link_free t1" using Cons.prems(2) by (simp add: t1_def link_free_put)
    from Cons.IH[OF _ this dots(2)] n have i: "link_free t'" "node t' (cur @ c # cs) = Some Dir"
      "node t' q = node t1 q \<or> node t1 q = None \<and> node t' q = Some Dir \<and> is_under q (cur @ c # cs)" for q
      unfolding t1_def by auto
    have "node t1 q = (if q = cur @ [c] then Some Dir else node t q)" for q by (simp add: t1_def node_put)
    moreover have "is_under (cur @ [c]) (cur @ c # cs)" by (simp add: is_under_def)
    ultimately show ?thesis using i n by (metis option.distinct(1))
  qed
qed

lemma create_archive_at:
  assumes "create_archive z src p t = (r, t')" and "link_free t" and "p \<noteq> []" and "\<forall>c\<in>set p. good_name c"
  shows "writes_at {p, part_of p} (if (\<exists>n. r = Inr n) then {p} else {}) t t'"
proof -
  note pp = part_of_facts[OF assms(3,4)]
  let ?q = "part_of p"
  have un: "writes_at {p, ?q} {} t (unlink ?q t2)" if w: "writes_at {?q} {?q} t t2" for t2
  proof -
    have "link_free t2" using w by (simp add: writes_at_def)
    note u = unlink_at[OF this pp(5,1)]
    have "writes_at ({?q} \<union> {?q}) {} t (unlink ?q t2)"
      by (rule writes_then[OF w]) (use u in blast)+
    then show ?thesis by (rule writes_mono) auto
  qed
  have w1: "writes_at {?q} {?q} t t1" if "write_file ?q x t0 = Some t1" "writes_at {?q} {?q} t t0" for x t0 t1
  proof -
    have "link_free t0" using that(2) by (simp add: writes_at_def)
    then show ?thesis using write_file_at[OF that(1) _ pp(5,1)] that(2) writes_trans by blast
  qed
  have rp: "writes_at {p, ?q} {p} t t3" if w: "writes_at {?q} {?q} t t2" and r: "replace_file ?q p t2 = Some t3" for t2 t3
  proof -
    have "link_free t2" using w by (simp add: writes_at_def)
    note u = replace_file_at[OF r this pp(5) pp(6) pp(1) assms(3) pp(3)]
    have "writes_at ({?q} \<union> {?q, p}) {p} t t3"
      by (rule writes_then[OF w]) (use u in auto)
    then show ?thesis by (rule writes_mono) auto
  qed
  note w0 = writes_refl[OF assms(2)]
  show ?thesis
  proof (cases "resolve t src")
    case None
    then show ?thesis using assms(1) w0 by (auto simp: create_archive_def)
  next
    case (Some root)
    show ?thesis
    proof (cases "write_file ?q [] t")
      case None
      then show ?thesis using assms(1) Some un[OF w0] by (auto simp: create_archive_def Let_def)
    next
      case (Some t1)
      note s1 = \<open>resolve t src = Some root\<close> Some
      note a1 = w1[OF Some w0]
      show ?thesis
      proof (cases "walk_dir (walk_depth t1) t1 root src [] [root]")
        case None
        then show ?thesis using assms(1) s1 un[OF a1] by (auto simp: create_archive_def Let_def)
      next
        case (Some x)
        obtain ms n where x: "x = (ms, n)" by (cases x)
        define b where "b = zl_write z (map (\<lambda>(p, x). (posix_name p, x)) ms)"
        show ?thesis
        proof (cases "write_file ?q b t1")
          case None
          then show ?thesis using assms(1) s1 Some x un[OF a1] by (auto simp: create_archive_def Let_def b_def)
        next
          case (Some t2)
          note s2 = s1 \<open>walk_dir (walk_depth t1) t1 root src [] [root] = Some x\<close>[unfolded x] Some[unfolded b_def]
          note a2 = w1[OF Some a1]
          show ?thesis
          proof (cases "verify_at z ?q t2")
            case (Inl e)
            then show ?thesis using assms(1) s2 un[OF a2] by (auto simp: create_archive_def Let_def)
          next
            case (Inr u)
            then show ?thesis using assms(1) s2 un[OF a2] rp[OF a2]
              by (cases "replace_file ?q p t2") (auto simp: create_archive_def Let_def)
          qed
        qed
      qed
    qed
  qed
qed


section \<open>Writing an artifact\<close>

definition writes :: "path set \<Rightarrow> path set \<Rightarrow> backup_sys \<Rightarrow> backup_sys \<Rightarrow> bool" where
  "writes ps qs s t \<longleftrightarrow> (link_free (bs_tree s) \<longrightarrow> writes_at ps qs (bs_tree s) (bs_tree t))"

interpretation wr: state_order "writes ps qs" for ps qs
proof
  fix s t u
  show "writes ps qs s s" by (simp add: writes_def writes_refl)
  assume "writes ps qs s t" "writes ps qs t u"
  then show "writes ps qs s u" by (auto simp: writes_def intro: writes_trans) (simp add: writes_at_def)
qed

lemma writes_same: "bs_tree t = bs_tree s \<Longrightarrow> writes ps qs s t"
  by (simp add: writes_def writes_refl)

lemma wr_host: "wr.stays ps qs (host E f)"
  by (simp add: wr.stays_def host_def tick_def writes_same)

lemma wr_add: "wr.stays ps qs (add_artifact r)"
  by (simp add: wr.stays_def add_artifact_def put_store_def writes_same split: option.split)

lemma wr_tree:
  assumes "\<And>t r t'. f t = (r, t') \<Longrightarrow> link_free t \<Longrightarrow> writes_at ps qs t t'"
  shows "wr.stays ps qs (on_tree wrap f)"
  by (rule wr.staysI) (auto simp: on_tree_def writes_def put_tree_def split: prod.splits dest: assms)

lemma wr_disk:
  assumes "\<And>t t'. f t = Some t' \<Longrightarrow> link_free t \<Longrightarrow> writes_at ps qs t t'"
  shows "wr.stays ps qs (or_disk f)"
  unfolding or_disk_def by (rule wr_tree) (auto split: option.splits dest: assms intro: writes_refl)

lemma wr_remove:
  assumes "''..'' \<notin> set p" and "p \<noteq> []" and "p \<in> ps"
  shows "wr.stays ps qs (remove_file p)"
  unfolding remove_file_def
proof (rule wr.stays_change)
  fix s
  have "writes_at ps qs (bs_tree s) (unlink p (bs_tree s))" if "link_free (bs_tree s)"
    using unlink_at[OF that assms(1,2)] assms(3) by (auto intro: writes_mono)
  then show "writes ps qs s (put_tree (unlink p (bs_tree s)) s)" by (simp add: writes_def put_tree_def)
qed

lemmas wr_rules = wr.stays_ret wr.stays_raise wr.stays_gets wr.stays_bind wr.stays_check wr.stays_of_option wr_host wr_add

definition places :: "path \<Rightarrow> path set" where
  "places final = {final, part_of final, part_of (part_of final)}"

lemma wr_artifact:
  assumes "final \<noteq> []" and "\<forall>c\<in>set final. good_name c"
  shows "wr.stays (places final) {final, part_of final} (write_artifact E w source oid cat i final)"
proof -
  let ?part = "part_of final"
  note pp = part_of_facts[OF assms]
  note qq = part_of_facts[OF pp(1,4)]
  have a: "wr.stays (places final) {final, ?part} (on_tree ArchiveFailure (create_archive z source ?part))" for z
    by (rule wr_tree, drule (1) create_archive_at[OF _ _ pp(1,4)]) (auto elim!: writes_mono simp: places_def split: if_splits)
  have l: "wr.stays (places final) {final, ?part} (change (\<lambda>s. s\<lparr>bs_sys := (bs_sys s)\<lparr>ws_calls := f s\<rparr>\<rparr>))" for f
    by (rule wr.stays_change) (simp add: writes_same)
  have b: "wr.stays (places final) {final, ?part} (or_disk (replace_file ?part final))"
    by (rule wr_disk, drule (1) replace_file_at[OF _ _ pp(5,6,1) assms(1) pp(3)])
      (auto elim!: writes_mono simp: places_def)
  have c: "wr.stays (places final) {final, ?part} (remove_file ?part)"
    by (rule wr_remove[OF pp(5,1)]) (simp add: places_def)
  have v: "wr.stays (places final) {final, ?part} (verify_zip E ?part)"
    unfolding verify_zip_def
    by (rule wr.stays_bind[OF wr.stays_gets], simp split: sum.split, intro conjI allI impI) (intro wr_rules c)+
  have z: "wr.stays (places final) {final, ?part} (file_size final)"
    unfolding file_size_def by (rule wr.stays_bind[OF wr.stays_gets])
      (simp add: wr.stays_ret wr.stays_raise split: option.split fnode.split)
  show ?thesis unfolding write_artifact_def archive_call_def hash_of_def Let_def by (intro wr_rules a l b v z)
qed

text \<open>A failing run has registered unwritten.\<close>

definition clean :: "'a backup_run \<Rightarrow> bool" where
  "clean m \<longleftrightarrow> (\<forall>s e t. m s = (Inl e, t) \<longrightarrow> only_files s t)"

lemma clean_bind: "fi.stays m \<Longrightarrow> (\<And>x. clean (f x)) \<Longrightarrow> clean (bind_run m f)"
  unfolding clean_def by (auto simp: bind_run_Inl intro: fi.rel_trans fi.staysD)

lemma clean_add: "clean (then_run (add_artifact a) (ret x))"
  by (auto simp: clean_def bind_run_Inl add_artifact_def run_simps fi.rel_refl split: option.splits)

lemma clean_artifact: "clean (write_artifact E w source oid cat i final)"
  unfolding write_artifact_def Let_def
  by (intro clean_bind clean_add fi_host fi_archive fi_disk fi_hash fi_size fi_verify fi.stays_check)


definition holds_archive :: "zip_lib \<Rightarrow> tree \<Rightarrow> path \<Rightarrow> artifact_row \<Rightarrow> bool" where
  "holds_archive z t p a \<longleftrightarrow> (\<exists>x. node t p = Some (File x) \<and> ar_size a = int (length x) \<and>
     ar_checksum a = zl_hash z x \<and> verify_archive z x = Inr ())"

lemma write_artifact_Inr:
  assumes run: "write_artifact E w source oid cat i final s = (Inr b, t)" and lf: "link_free (bs_tree s)"
    and p: "final \<noteq> []" "\<forall>c\<in>set final. good_name c"
  shows "\<exists>a. bs_store t = (bs_store s)\<lparr>artifacts := artifacts (bs_store s) @ [a]\<rparr> \<and> holds_archive (be_zip E) (bs_tree t) final a \<and>
     (\<exists>now. a = artifact_of i w cat (path_text final) (br_size b) (br_checksum b) oid now) \<and> br_artifact b = i \<and>
     br_path b = path_text final \<and> (\<forall>x\<in>set (artifacts (bs_store s)). ar_id x \<noteq> i) \<and> bs_restores t = bs_restores s"
proof -
  let ?part = "part_of final" and ?z = "be_zip E"
  note pp = part_of_facts[OF p]
  obtain sk s1 csum s2 s3 s4 len s5 csum' s6 now s7 where
    1: "archive_call E source ?part s = (Inr sk, s1)"
    and 2: "hash_of E ?part s1 = (Inr csum, s2)" and 3: "verify_zip E ?part s2 = (Inr (), s3)"
    and 4: "or_disk (replace_file ?part final) s3 = (Inr (), s4)" and 5: "file_size final s4 = (Inr len, s5)"
    and 6: "hash_of E final s5 = (Inr csum', s6)" and 7: "csum' = csum" and 8: "clock_now E s6 = (Inr now, s7)"
    and 9: "add_artifact (artifact_of i w cat (path_text final) len csum oid now) s7 = (Inr (), t)"
    and b: "b = \<lparr>br_artifact = i, br_path = path_text final, br_checksum = csum, br_size = len, br_skipped = sk\<rparr>"
    using run unfolding write_artifact_def Let_def by (auto simp: run_simps)
  have s2: "s2 = s1" using 2 by (simp add: hash_of_def run_simps)
  have v: "verify_at ?z ?part (bs_tree s1) = Inr ()" "s3 = s1"
    using 3 by (auto simp: verify_zip_def run_simps s2 split: sum.splits)
  have s5: "s5 = s4" using 5 by (auto simp: file_size_def run_simps split: option.splits fnode.splits)
  have s6: "s6 = s4" using 6 by (simp add: hash_of_def run_simps s5)
  have t7: "bs_tree s7 = bs_tree s4" using 8 by (simp add: host_Inr s6 tick_def)
  have l1: "link_free (bs_tree s1)"
    using 1 create_archive_at[OF _ lf pp(1,4)]
    by (auto simp: archive_call_def run_simps on_tree_def put_tree_def writes_at_def split: prod.splits)
  have r: "replace_file ?part final (bs_tree s1) = Some (bs_tree s4)"
    using 4 v(2) by (auto simp: or_disk_def on_tree_def put_tree_def split: option.splits prod.splits)
  then obtain x where x: "node (bs_tree s1) ?part = Some (File x)" "node (bs_tree s4) final = Some (File x)" "link_free (bs_tree s4)"
    using replace_file_at[OF r l1 pp(5,6,1) p(1) pp(3)] by (auto simp: writes_at_def)
  have "csum = zl_hash ?z x"
    using 2 stat_plain[OF l1 pp(5)] x(1) by (simp add: hash_of_def run_simps hash_at_def)
  moreover have "len = int (length x)"
    using 5 stat_plain[OF x(3) pp(6)] x(2) by (simp add: file_size_def run_simps)
  moreover have "verify_archive ?z x = Inr ()"
    using v(1) stat_plain[OF l1 pp(5)] x(1) by (simp add: verify_at_def)
  moreover have "only_files s s7"
  proof -
    have "only_files s s1" using fi.staysD[OF fi_archive 1] .
    moreover have "only_files s3 s4" using fi.staysD[OF fi_disk 4] .
    moreover have "only_files s6 s7" using fi.staysD[OF fi_host 8] .
    ultimately show ?thesis using v(2) s6 fi.rel_trans by blast
  qed
  moreover have "bs_store t = (bs_store s7)\<lparr>artifacts := artifacts (bs_store s7) @ [artifact_of i w cat (path_text final) len csum oid now]\<rparr> \<and>
      bs_tree t = bs_tree s7 \<and> bs_restores t = bs_restores s7 \<and> (\<forall>x\<in>set (artifacts (bs_store s7)). ar_id x \<noteq> i)"
    using 9 by (auto simp: add_artifact_def insert_artifact_def put_store_def row_simps artifact_of_def split: option.splits if_splits)
  ultimately show ?thesis
    using x(2) t7 b by (auto simp: only_files_def holds_archive_def artifact_of_def)
qed


lemma parts_of_text: "p \<noteq> [] \<Longrightarrow> \<forall>c\<in>set p. good_name c \<Longrightarrow> path_parts (path_text p) = p"
  using parts_posix[of p] by (simp add: path_text_def path_parts_def)

text \<open>An artifact that is whole: its file is there with the size and checksum of the row, and
  passes the checks of the engine.\<close>

definition whole :: "zip_lib \<Rightarrow> backup_sys \<Rightarrow> artifact_row \<Rightarrow> bool" where
  "whole z s a \<longleftrightarrow> link_free (bs_tree s) \<and> ''..'' \<notin> set (path_parts (ar_path a)) \<and>
     holds_archive z (bs_tree s) (path_parts (ar_path a)) a \<and> find_artifact (ar_id a) (bs_store s) = Some a"

lemma whole_validates:
  assumes "whole (be_zip E) s a"
  shows "validate_artifact E (ar_id a) s = (Inr a, s)"
proof -
  obtain x where x: "stat (bs_tree s) (path_parts (ar_path a)) = Some (File x)" "ar_checksum a = zl_hash (be_zip E) x"
    "verify_archive (be_zip E) x = Inr ()"
    using assms by (auto simp: whole_def holds_archive_def stat_plain)
  with assms show ?thesis
    by (simp add: validate_artifact_def run_simps whole_def hash_of_def hash_at_def verify_at_def)
qed

definition names_fit :: "backup_env \<Rightarrow> string \<Rightarrow> path \<Rightarrow> bool" where
  "names_fit E w dir \<longleftrightarrow> (\<forall>c\<in>set dir. good_name c) \<and>
     (\<forall>n. good_name (w @ ''-'' @ (''ba_'' @ en_ids (be_world E) n 0) @ ''.zip''))"

definition no_new_files :: "backup_sys \<Rightarrow> backup_sys \<Rightarrow> bool" where
  "no_new_files s t \<longleftrightarrow> link_free (bs_tree t) \<and>
     (\<forall>q x. node (bs_tree t) q = Some (File x) \<longrightarrow> node (bs_tree s) q = Some (File x))"

lemma no_new_refl: "link_free (bs_tree s) \<Longrightarrow> no_new_files s s"
  by (simp add: no_new_files_def)

lemma no_new_trans: "no_new_files s t \<Longrightarrow> no_new_files t u \<Longrightarrow> no_new_files s u"
  by (simp add: no_new_files_def)

lemma remove_file_at:
  assumes "remove_file p s = (r, t)" and "link_free (bs_tree s)" and "''..'' \<notin> set p" and "p \<noteq> []"
  shows "r = Inr () \<and> only_files s t \<and> writes_at {p} {} (bs_tree s) (bs_tree t) \<and> (\<forall>x. node (bs_tree t) p \<noteq> Some (File x))"
  using assms(1) unlink_at[OF assms(2-4)] by (auto simp: remove_file_def run_simps put_tree_def only_files_def)

lemma write_and_register_result:
  assumes run: "write_and_register E w source dir oid cat s = (r, t)" and lf: "link_free (bs_tree s)"
    and fit: "names_fit E w dir"
  shows "(\<exists>e. r = Inl e \<and> only_files s t \<and> no_new_files s t) \<or>
     (\<exists>a b. r = Inr b \<and> bs_store t = (bs_store s)\<lparr>artifacts := artifacts (bs_store s) @ [a]\<rparr> \<and> whole (be_zip E) t a \<and>
        (\<exists>now. a = artifact_of (br_artifact b) w cat (br_path b) (br_size b) (br_checksum b) oid now) \<and>
        bs_restores t = bs_restores s)"
proof -
  obtain i s1 where i: "fresh E ''ba_'' s = (Inr i, s1)" "i = ''ba_'' @ en_ids (be_world E) (ws_tick (bs_sys s)) 0"
    by (simp add: fresh_def host_def)
  define final where "final = dir @ [w @ ''-'' @ i @ ''.zip'']"
  have p: "final \<noteq> []" "\<forall>c\<in>set final. good_name c" and dd: "''..'' \<notin> set dir"
    using fit by (auto simp: final_def names_fit_def i(2) good_name_def)
  note pp = part_of_facts[OF p]
  have s1: "bs_tree s1 = bs_tree s" "only_files s s1"
    using i(1) fi.staysD[OF fi_host i(1)[unfolded fresh_def]] by (auto simp: fresh_def host_Inr tick_def)
  obtain q2 s2 where 2: "or_disk (make_dirs [] dir) s1 = (q2, s2)" by (metis surj_pair)
  have k2: "only_files s1 s2" by (rule fi.staysD[OF fi_disk 2])
  have n2: "no_new_files s s2"
    using 2 make_dirs_at[of "[]" dir "bs_tree s"] lf dd s1(1)
    by (auto simp: or_disk_def on_tree_def no_new_files_def put_tree_def split: option.splits) (metis option.inject fnode.distinct(1))
  have rest: "bind_run (fresh E ''ba_'') (\<lambda>i. then_run (or_disk (make_dirs [] dir)) (K i)) s = bind_run (\<lambda>s. (q2, s2)) (\<lambda>_. K i) s" for K
    using i(1) 2 by (simp add: bind_run_def)
  have r: "bind_run (\<lambda>s. (q2, s2)) (\<lambda>_. try_run (write_artifact E w source oid cat i final)
        (\<lambda>e. then_run (remove_file (part_of final)) (then_run (remove_file final) (raise e)))) s = (r, t)"
    using run unfolding write_and_register_def Let_def rest final_def[symmetric] by simp
  show ?thesis
  proof (cases q2)
    case (Inl e)
    with r have "r = Inl e" "t = s2" by (auto simp: bind_run_def)
    then show ?thesis using n2 k2 s1 fi.rel_trans by blast
  next
    case (Inr u)
    obtain q3 s3 where 3: "write_artifact E w source oid cat i final s2 = (q3, s3)" by (metis surj_pair)
    have l2: "link_free (bs_tree s2)" using n2 by (simp add: no_new_files_def)
    have w3: "writes_at (places final) {final, part_of final} (bs_tree s2) (bs_tree s3)"
      using wr.staysD[OF wr_artifact[OF p] 3] l2 by (simp add: writes_def)
    then have l3: "link_free (bs_tree s3)" by (simp add: writes_at_def)
    show ?thesis
    proof (cases q3)
      case (Inl e)
      obtain q4 s4 q5 s5 where 45: "remove_file (part_of final) s3 = (q4, s4)" "remove_file final s4 = (q5, s5)"
        by (metis surj_pair)
      note f4 = remove_file_at[OF 45(1) l3 pp(5,1)]
      have l4: "link_free (bs_tree s4)" using f4 by (simp add: writes_at_def)
      note f5 = remove_file_at[OF 45(2) l4 pp(6) p(1)]
      have "r = Inl e" "t = s5"
        using r Inr Inl 3 45 f4 f5 by (auto simp: bind_run_def try_run_def raise_def)
      moreover have "only_files s2 s3" using clean_artifact 3 Inl unfolding clean_def by blast
      moreover have "writes_at (places final \<union> {part_of final}) {final} (bs_tree s2) (bs_tree s4)"
        by (rule writes_then[OF w3 writes_mono[OF f4[THEN conjunct2, THEN conjunct2, THEN conjunct1]]]) (use f4 in auto)
      then have "writes_at (places final \<union> {part_of final} \<union> {final}) {} (bs_tree s2) (bs_tree s5)"
        by (rule writes_then) (use f5 in auto)
      then have "no_new_files s2 s5" by (auto simp: writes_at_def no_new_files_def)
      ultimately show ?thesis using f4 f5 n2 k2 s1(2) no_new_trans fi.rel_trans by metis
    next
      case Inr3: (Inr b)
      then have "r = Inr b" "t = s3" using r Inr 3 by (auto simp: bind_run_def try_run_def)
      moreover obtain a where a: "bs_store s3 = (bs_store s2)\<lparr>artifacts := artifacts (bs_store s2) @ [a]\<rparr>"
        "holds_archive (be_zip E) (bs_tree s3) final a"
        "\<exists>now. a = artifact_of i w cat (path_text final) (br_size b) (br_checksum b) oid now" "br_artifact b = i"
        "br_path b = path_text final" "\<forall>x\<in>set (artifacts (bs_store s2)). ar_id x \<noteq> i" "bs_restores s3 = bs_restores s2"
        using write_artifact_Inr[OF 3[unfolded Inr3] l2 p] by blast
      moreover have "ar_id a = i" "ar_path a = path_text final" using a(3) by (auto simp: artifact_of_def)
      moreover have "find_row (\<lambda>x. ar_id x = i) (artifacts (bs_store s2)) = None"
        using a(6) by (simp add: find_row_None_iff)
      ultimately have "whole (be_zip E) t a"
        using l3 pp(6) parts_of_text[OF p] by (auto simp: whole_def find_artifact_def find_row_append)
      then show ?thesis using \<open>r = Inr b\<close> \<open>t = s3\<close> a k2 s1(2) by (auto simp: only_files_def)
    qed
  qed
qed

text \<open>A step that writes unwritten, then the rest.\<close>

lemma ca_then:
  assumes "bind_run m f s = (r, t)" and "ca.stays m" and "only_calls s0 s"
  shows "(\<exists>e. r = Inl e \<and> only_calls s0 t) \<or> (\<exists>x s1. only_calls s0 s1 \<and> f x s1 = (r, t))"
proof (cases rule: bind_run_cases[OF assms(1)])
  case (1 e)
  then show ?thesis using ca.staysD[OF assms(2)] assms(3) ca.rel_trans by blast
next
  case (2 x s1)
  then show ?thesis using ca.staysD[OF assms(2)] assms(3) ca.rel_trans by blast
qed

lemma ca_save_call: "ca.stays (save_call E w c)"
  by (rule ca.staysI) (blast dest: save_call_result)

lemma capture_writes:
  assumes "capture_running E w source dir oid cat s = (r, t)"
  shows "(\<exists>e. r = Inl e \<and> only_calls s t) \<or>
     (\<exists>s1. only_calls s s1 \<and> write_and_register E w source dir oid cat s1 = (r, t))"
proof -
  have m: "ca.stays (modified_at E p)" for p unfolding modified_at_def by (intro stay_rules)
  show ?thesis
    using assms unfolding capture_running_def Let_def suspend_autosave_def flush_def
    by (fastforce dest!: ca_then[OF _ ca_save_call] ca_then[OF _ m] ca_then[OF _ verify_flush_calls] intro: ca.rel_refl)
qed

definition registered :: "backup_env \<Rightarrow> string \<Rightarrow> TriggerType \<Rightarrow> string \<Rightarrow> backup_sys \<Rightarrow> artifact_row \<Rightarrow> backup_sys \<Rightarrow> bool" where
  "registered E w cat oid s a t \<longleftrightarrow> artifacts (bs_store t) = artifacts (bs_store s) @ [a] \<and> whole (be_zip E) t a \<and>
     ar_world a = Some w \<and> ar_category a = cat \<and> ar_operation a = oid \<and> \<not> ar_suspect a"

definition returned :: "backup_error + BackupResult \<Rightarrow> artifact_row \<Rightarrow> bool" where
  "returned r a \<longleftrightarrow> (\<exists>b. r = Inr b \<and> br_artifact b = ar_id a \<and> br_path b = ar_path a \<and> br_checksum b = ar_checksum a)"

lemma registered_calls: "registered E w cat oid s a t \<Longrightarrow> only_calls t u \<Longrightarrow> registered E w cat oid s a u"
  unfolding registered_def whole_def only_calls_def find_artifact_def by (elim conjE) simp

lemma write_outcome:
  assumes o1: "only_calls s s1" and w: "write_and_register E w source dir oid cat s1 = (r, t)"
    and l: "link_free (bs_tree s)" and fit: "names_fit E w dir"
  shows "(\<exists>a. registered E w cat oid s a t \<and> returned r a) \<or>
     (\<exists>e. r = Inl e) \<and> artifacts (bs_store t) = artifacts (bs_store s) \<and> no_new_files s t"
proof -
  have "link_free (bs_tree s1)" using l o1 by (simp add: only_calls_def)
  from write_and_register_result[OF w this fit] o1 show ?thesis
    by (auto simp: registered_def returned_def only_calls_def only_files_def no_new_files_def artifact_of_def)
qed

lemma guard_calls: "enforce_storage_guard E source dir s = (q, s1) \<Longrightarrow> only_calls s s1"
  by (auto simp: enforce_storage_guard_def bind_run_def gets_def host_def check_def ret_def raise_def
      only_calls_def tick_def split: if_splits)

lemma live_outcome:
  assumes o1: "only_calls s s1" and f: "finally_run (capture_running E w source dir oid cat) (resume_autosave E w) s1 = (r, t)"
    and l: "link_free (bs_tree s)" and fit: "names_fit E w dir"
  shows "(\<exists>a. registered E w cat oid s a t \<and> (returned r a \<or> (\<exists>m. r = Inl (SaveCoordination m)))) \<or>
     (\<exists>e. r = Inl e) \<and> artifacts (bs_store t) = artifacts (bs_store s) \<and> no_new_files s t"
proof -
  obtain r2 s2 where c: "capture_running E w source dir oid cat s1 = (r2, s2)" by (metis surj_pair)
  obtain r3 where f: "resume_autosave E w s2 = (r3, t)" and r: "r = (case r3 of Inl e \<Rightarrow> Inl e | Inr u \<Rightarrow> r2)"
    using f c by (auto simp: finally_run_def split: prod.splits sum.splits)
  note call = save_call_result[OF f[unfolded resume_autosave_def]]
  then have r3: "r3 = Inr () \<or> (\<exists>m. r3 = Inl (SaveCoordination m))" and o3: "only_calls s2 t" by blast+
  have "(\<exists>a. registered E w cat oid s a s2 \<and> returned r2 a) \<or>
      (\<exists>e. r2 = Inl e) \<and> artifacts (bs_store s2) = artifacts (bs_store s) \<and> no_new_files s s2"
    using capture_writes[OF c]
  proof
    assume "\<exists>e. r2 = Inl e \<and> only_calls s1 s2"
    then have o: "only_calls s s2" and e: "\<exists>e. r2 = Inl e" using o1 ca.rel_trans by blast+
    then show ?thesis using l by (simp add: only_calls_def no_new_files_def)
  next
    assume "\<exists>sa. only_calls s1 sa \<and> write_and_register E w source dir oid cat sa = (r2, s2)"
    then obtain sa where sa: "only_calls s sa" "write_and_register E w source dir oid cat sa = (r2, s2)"
      using o1 ca.rel_trans by blast
    from write_outcome[OF sa l fit] show ?thesis .
  qed
  then show ?thesis
  proof
    assume "\<exists>a. registered E w cat oid s a s2 \<and> returned r2 a"
    then obtain a where "registered E w cat oid s a t" "returned r2 a" using registered_calls[OF _ o3] by blast
    then show ?thesis using r r3 by (auto split: sum.splits)
  next
    assume a: "(\<exists>e. r2 = Inl e) \<and> artifacts (bs_store s2) = artifacts (bs_store s) \<and> no_new_files s s2"
    then have "\<exists>e. r = Inl e" using r r3 by (auto split: sum.splits)
    with a o3 show ?thesis by (simp add: only_calls_def no_new_files_def)
  qed
qed

text \<open>
  C11: what is registered is whole. A backup either registers exactly one artifact, last in the
  table, whose file is on the disk with the size and checksum of its row and passes validation, and
  then it returns that artifact, unless the console of a running world could not be told to resume;
  or it raises, registers nothing and leaves no file that was not there.
\<close>
theorem registered_backup_is_whole:
  assumes "create_world_backup E w source dir oid cat running s = (r, t)" and "link_free (bs_tree s)"
    and "names_fit E w dir"
  shows "(\<exists>a. artifacts (bs_store t) = artifacts (bs_store s) @ [a] \<and> whole (be_zip E) t a \<and>
        validate_artifact E (ar_id a) t = (Inr a, t) \<and> ar_world a = Some w \<and> ar_category a = cat \<and>
        ar_operation a = oid \<and> \<not> ar_suspect a \<and>
        ((\<exists>b. r = Inr b \<and> br_artifact b = ar_id a \<and> br_path b = ar_path a \<and> br_checksum b = ar_checksum a) \<or>
         running \<and> (\<exists>m. r = Inl (SaveCoordination m)))) \<or>
     (\<exists>e. r = Inl e) \<and> artifacts (bs_store t) = artifacts (bs_store s) \<and> no_new_files s t"
proof -
  consider (refused) e where "r = Inl e" "only_calls s t"
    | (idle) s1 where "only_calls s s1" "\<not> running" "write_and_register E w source dir oid cat s1 = (r, t)"
    | (live) s1 where "only_calls s s1" "running"
        "finally_run (capture_running E w source dir oid cat) (resume_autosave E w) s1 = (r, t)"
    using assms(1) guard_calls[of E source dir s]
    by (auto simp: create_world_backup_def bind_run_def check_def ret_def raise_def ca.rel_refl
        split: sum.splits prod.splits if_splits)
  then show ?thesis
  proof cases
    case refused
    then show ?thesis using assms(2) by (simp add: only_calls_def no_new_files_def)
  next
    case idle
    from write_outcome[OF idle(1,3) assms(2,3)] show ?thesis
      unfolding registered_def returned_def using whole_validates by blast
  next
    case live
    from live_outcome[OF live(1,3) assms(2,3)] live(2) show ?thesis
      unfolding registered_def returned_def using whole_validates by blast
  qed
qed

end
