(* ===== verification/Supervisor.thy ===== *)
theory Supervisor
  imports Worlds
begin

text \<open>
  The supervisor of \<open>app/services/worlds.py\<close>: the periodic poll that classifies crashes, the
  reconciliation after a restart of the manager, and the dispatch of queued starts, stops and
  kills.
\<close>

section \<open>Crashes\<close>

definition crash_request :: "int \<Rightarrow> string \<Rightarrow> OperationInput" where
  "crash_request now w =
     (request_for CRASH_DETECTED ACTOR_SYSTEM w None)\<lparr>oi_data := Some [(''detected_at'', JInt now)]\<rparr>"

definition record_crash :: "world_env \<Rightarrow> string \<Rightarrow> unit world_run" where
  "record_crash E w =
     bind_run (gets (now_at E)) (\<lambda>now.
     bind_run (create_op E (crash_request now w) True) (\<lambda>(o', _).
     then_run (move_op E (op_id o') OS_RUNNING (staged [(''stage'', JStr ''crash_detected'')]))
     (then_run (move_op E (op_id o') OS_COMPLETED (staged [(''stage'', JStr ''crashed'')])) (ret ()))))"

definition crashed_world :: "world_env \<Rightarrow> string \<Rightarrow> unit world_run" where
  "crashed_world E w = then_run (put_state E w WS_CRASHED) (record_crash E w)"

definition process_up :: "world_env \<Rightarrow> string \<Rightarrow> bool world_run" where
  "process_up E w =
     bind_run (resolve_handle E w) (\<lambda>hd'.
       case hd' of
         None \<Rightarrow> ret False
       | Some h \<Rightarrow> bind_run (ask E (en_poll E) OtherError (Poll h)) (\<lambda>p. ret (alive p)))"

definition poll_session :: "world_env \<Rightarrow> runtime_session_row \<Rightarrow> string list world_run" where
  "poll_session E r =
     bind_run (process_up E (rs_world r)) (\<lambda>up.
       if up then ret []
       else then_run (close_session E (rs_world r) ER_CRASHED)
         (then_run (crashed_world E (rs_world r)) (ret [rs_world r])))"

definition poll_running :: "world_env \<Rightarrow> string list world_run" where
  "poll_running E = bind_run (gets (\<lambda>s. open_sessions (ws_store s))) (for_each (poll_session E))"

definition supervisor_interval_seconds :: "store \<Rightarrow> int" where
  "supervisor_interval_seconds st =
     (if exists_row (\<lambda>r. wo_deleted_at r = None \<and> busy (wo_state r)) (worlds st) then 1 else 15)"

section \<open>Reconciliation\<close>

definition pending_start :: "op_row \<Rightarrow> bool" where
  "pending_start r \<longleftrightarrow> op_type r = START \<and> (op_status r = OS_VALIDATING \<or> op_status r = OS_RUNNING)"

definition in_flight_start :: "string \<Rightarrow> store \<Rightarrow> op_row option" where
  "in_flight_start w st =
     (case sort_key (\<lambda>r. - op_created_at r) (filter (\<lambda>r. op_world r = Some w \<and> pending_start r) (operations st)) of
        [] \<Rightarrow> None | r # _ \<Rightarrow> Some r)"

definition incomplete_starts_without_sessions :: "store \<Rightarrow> op_row list" where
  "incomplete_starts_without_sessions st = sort_key op_created_at (filter (\<lambda>r. pending_start r \<and>
     \<not> exists_row (\<lambda>x. op_world r = Some (rs_world x) \<and> rs_ended_at x = None) (runtime_sessions st))
     (operations st))"

definition settle_state :: "world_env \<Rightarrow> world_row \<Rightarrow> unit world_run" where
  "settle_state E r =
     (case wo_state r of
        WS_STARTING \<Rightarrow> put_state E (wo_id r) WS_ERROR
      | WS_RUNNING \<Rightarrow> put_state E (wo_id r) WS_CRASHED
      | WS_STOPPING \<Rightarrow> put_state E (wo_id r) WS_CRASHED
      | WS_QUEUED \<Rightarrow> put_state E (wo_id r) WS_OFF
      | WS_OFF \<Rightarrow> ret ()
      | WS_ERROR \<Rightarrow> ret ()
      | WS_CRASHED \<Rightarrow> ret ()
      | st \<Rightarrow> raise (WorldLifecycleError (''cannot reconcile interrupted Start from '' @ world_state_value st)))"

definition fail_interrupted_start :: "world_env \<Rightarrow> string \<Rightarrow> string option \<Rightarrow> unit world_run" where
  "fail_interrupted_start E oid w =
     bind_run (of_option (WorldNotFoundError ''None'') w) (\<lambda>i.
     bind_run (world_of i) (\<lambda>r.
     then_run (settle_state E r)
       (fail_op E oid ''manager_restart_incomplete''
         (Some ''Start was interrupted by manager restart before process recovery.''))))"

definition fingerprint_of :: "runtime_session_row \<Rightarrow> ProbeFingerprint" where
  "fingerprint_of r = \<lparr>fp_pid = Some (ln_pid (rs_snapshot r)), fp_epoch = Some (ln_epoch (rs_snapshot r)),
     fp_cwd = Some (ln_cwd (rs_snapshot r)), fp_marker = Some (ln_marker (rs_snapshot r))\<rparr>"

definition reconcile_session :: "world_env \<Rightarrow> runtime_session_row \<Rightarrow> string list world_run" where
  "reconcile_session E r =
     (let w = rs_world r in
      bind_run (ask E (en_probe E) OtherError (Probe w (rs_id r) (Some (fingerprint_of r)))) (\<lambda>p.
        if pr_found p \<and> pr_matched p then then_run (put_state E w WS_RUNNING) (ret [w])
        else then_run (close_session E w RECONCILED_MISSING)
          (bind_run (gets (\<lambda>s. in_flight_start w (ws_store s))) (\<lambda>o'.
            then_run (case o' of
                None \<Rightarrow> crashed_world E w
              | Some x \<Rightarrow> fail_interrupted_start E (op_id x) (Some w)) (ret [])))))"

definition fail_leftover :: "world_env \<Rightarrow> op_row \<Rightarrow> string list world_run" where
  "fail_leftover E r = then_run (fail_interrupted_start E (op_id r) (op_world r)) (ret [])"

definition reconcile :: "world_env \<Rightarrow> string list world_run" where
  "reconcile E =
     bind_run (gets (\<lambda>s. open_sessions (ws_store s))) (\<lambda>rows.
     bind_run (for_each (reconcile_session E) rows) (\<lambda>reattached.
     bind_run (gets (\<lambda>s. incomplete_starts_without_sessions (ws_store s))) (\<lambda>left.
     bind_run (for_each (fail_leftover E) left) (\<lambda>_. ret reattached))))"

section \<open>Dispatch\<close>

definition claim_call :: "world_env \<Rightarrow> string \<Rightarrow> op_row option world_run" where
  "claim_call E i s =
     (let (r, ops) = claim_queued (now_at E s) i (ws_ops s) in (Inr r, (tick E s)\<lparr>ws_ops := ops\<rparr>))"

definition run_claimed :: "world_env \<Rightarrow> op_row \<Rightarrow> string world_run" where
  "run_claimed E r =
     (case op_world r of
        None \<Rightarrow> raise (WorldLifecycleError (optype_value (op_type r) @ '' operation is missing a world id''))
      | Some w \<Rightarrow>
          (if op_type r = START then start E w (op_actor_type r) (op_actor_user r) False (Some (op_id r))
           else if op_type r = STOP then stop E w (op_actor_type r) (op_actor_user r) (Some (op_id r))
           else kill E w (op_actor_type r) (op_actor_user r) (Some (op_id r))))"

definition dispatch_failed :: "world_env \<Rightarrow> string \<Rightarrow> world_error \<Rightarrow> string world_run" where
  "dispatch_failed E i e =
     bind_run (gets (\<lambda>s. find_op i (ws_store s))) (\<lambda>cur.
       case cur of
         None \<Rightarrow> ret i
       | Some r \<Rightarrow>
           (if terminal_status (op_status r) then ret i
            else then_run (fail_op E i ''OP_EXECUTION_FAILED'' (Some (error_text e))) (ret i)))"

definition dispatch_one :: "world_env \<Rightarrow> op_row \<Rightarrow> string list world_run" where
  "dispatch_one E q =
     bind_run (claim_call E (op_id q)) (\<lambda>c.
       case c of
         None \<Rightarrow> ret []
       | Some r \<Rightarrow>
           then_run (try_run (run_claimed E r) (dispatch_failed E (op_id r))) (ret [op_id r]))"

text \<open>At most one operation of a world per pass: \<open>seen\<close> are the worlds met.\<close>

fun dispatch_loop :: "world_env \<Rightarrow> string list \<Rightarrow> op_row list \<Rightarrow> string list world_run" where
  "dispatch_loop E seen [] = ret []"
| "dispatch_loop E seen (q # qs) =
     (case op_world q of
        None \<Rightarrow> bind_run (dispatch_one E q) (\<lambda>d. bind_run (dispatch_loop E seen qs) (\<lambda>ds. ret (d @ ds)))
      | Some w \<Rightarrow>
          (if w \<in> set seen then dispatch_loop E seen qs
           else bind_run (gets (\<lambda>s. has_active_operation w (op_id q) (ws_store s))) (\<lambda>b.
             if b then dispatch_loop E (w # seen) qs
             else bind_run (dispatch_one E q) (\<lambda>d.
               bind_run (dispatch_loop E (w # seen) qs) (\<lambda>ds. ret (d @ ds))))))"

definition dispatch_lifecycle :: "world_env \<Rightarrow> string list world_run" where
  "dispatch_lifecycle E =
     bind_run (gets (\<lambda>s. list_queued [START, STOP, KILL] (ws_store s))) (dispatch_loop E [])"

end
