(* ===== verification/World_Mutations.thy ===== *)
theory World_Mutations
  imports Supervisor
begin

text \<open>
  The queued changes of worlds (\<open>app/services/worlds.py\<close>, \<open>enqueue_world_mutation\<close> to
  \<open>_apply_queued_file_edit\<close>) and the read model of worlds.  The transactions of creation,
  deletion and runtime configuration are functions of the database; each recognises its own
  finished write, so that a dispatch interrupted between the commit and the end of the
  operation can be repeated.
\<close>

section \<open>Rows and columns\<close>

definition json_strings :: "json list \<Rightarrow> string list option" where
  "json_strings xs = (if list_all (\<lambda>x. case x of JStr s \<Rightarrow> True | _ \<Rightarrow> False) xs
     then Some (map (\<lambda>x. case x of JStr s \<Rightarrow> s | _ \<Rightarrow> []) xs) else None)"

fun launch_json :: "launch_column option \<Rightarrow> json" where
  "launch_json None = JNull"
| "launch_json (Some (LaunchArgv as)) = JArr (map JStr as)"
| "launch_json (Some (LaunchExtra server java)) =
     JObj [(''server_args'', JArr (map JStr server)), (''java_args'', JArr (map JStr java))]"

fun launch_of_json :: "json \<Rightarrow> launch_column option option" where
  "launch_of_json JNull = Some None"
| "launch_of_json (JArr xs) = map_option (\<lambda>as. Some (LaunchArgv as)) (json_strings xs)"
| "launch_of_json _ = None"

definition server_type_of :: "string \<Rightarrow> ServerType option" where
  "server_type_of v = find_row (\<lambda>t. server_type_value t = v) [VANILLA, PAPER, FABRIC, FORGE]"

definition world_state_of :: "string \<Rightarrow> WorldState option" where
  "world_state_of v = find_row (\<lambda>t. world_state_value t = v) [WS_OFF, WS_QUEUED, WS_STARTING, WS_RUNNING,
     WS_STOPPING, WS_RESTORING, WS_BACKING_UP, WS_CRASHED, WS_ERROR, WS_EULA_REQUIRED]"

fun jopt_int :: "int option \<Rightarrow> json" where
  "jopt_int None = JNull"
| "jopt_int (Some i) = JInt i"

definition world_columns :: "(string \<times> (world_row \<Rightarrow> json)) list" where
  "world_columns = [
     (''world_id'', \<lambda>r. JStr (wo_id r)), (''display_name'', \<lambda>r. JStr (wo_display_name r)),
     (''template_id'', \<lambda>r. JStr (wo_template r)),
     (''server_type'', \<lambda>r. JStr (server_type_value (wo_server_type r))),
     (''mc_version'', \<lambda>r. JStr (wo_mc_version r)), (''java_runtime_id'', \<lambda>r. JStr (wo_java_runtime r)),
     (''port'', \<lambda>r. JInt (wo_port r)), (''addressing_strategy'', \<lambda>r. JStr (wo_strategy r)),
     (''addressing_value'', \<lambda>r. JStr (wo_address r)),
     (''state'', \<lambda>r. JStr (world_state_value (wo_state r))),
     (''pre_backup_state'', \<lambda>r. jopt_str (map_option world_state_value (wo_pre_backup r))),
     (''launch_args'', \<lambda>r. launch_json (wo_launch_args r)),
     (''metadata_version'', \<lambda>r. JInt (wo_metadata_version r)),
     (''deleted_at'', \<lambda>r. jopt_int (wo_deleted_at r)), (''deleted_by'', \<lambda>r. jopt_str (wo_deleted_by r)),
     (''created_at'', \<lambda>r. JInt (wo_created_at r)), (''updated_at'', \<lambda>r. JInt (wo_updated_at r))]"

definition world_col :: "string \<Rightarrow> world_row \<Rightarrow> json option" where
  "world_col k r = map_option (\<lambda>f. f r) (map_of world_columns k)"

definition same_columns :: "jdict \<Rightarrow> world_row \<Rightarrow> bool" where
  "same_columns fs r = list_all (\<lambda>(k, v). world_col k r = Some v) fs"

fun jstr_of :: "json \<Rightarrow> string option" where
  "jstr_of (JStr s) = Some s"
| "jstr_of _ = None"

fun jint_of :: "json \<Rightarrow> int option" where
  "jint_of (JInt i) = Some i"
| "jint_of _ = None"

text \<open>The columns a runtime configuration may set; \<open>None\<close> is a value the column refuses.\<close>

definition set_runtime_col :: "string \<Rightarrow> json \<Rightarrow> world_row \<Rightarrow> world_row option" where
  "set_runtime_col k v r =
     (if k = ''java_runtime_id'' then map_option (\<lambda>x. r\<lparr>wo_java_runtime := x\<rparr>) (jstr_of v)
      else if k = ''launch_args'' then map_option (\<lambda>x. r\<lparr>wo_launch_args := x\<rparr>) (launch_of_json v)
      else if k = ''port'' then map_option (\<lambda>x. r\<lparr>wo_port := x\<rparr>) (jint_of v)
      else if k = ''addressing_strategy'' then map_option (\<lambda>x. r\<lparr>wo_strategy := x\<rparr>) (jstr_of v)
      else if k = ''addressing_value'' then map_option (\<lambda>x. r\<lparr>wo_address := x\<rparr>) (jstr_of v)
      else None)"

fun set_runtime_cols :: "jdict \<Rightarrow> world_row \<Rightarrow> world_row option" where
  "set_runtime_cols [] r = Some r"
| "set_runtime_cols ((k, v) # fs) r =
     (case set_runtime_col k v r of None \<Rightarrow> None | Some r' \<Rightarrow> set_runtime_cols fs r')"

text \<open>The row a creation inserts: the seventeen columns of the payload.\<close>

definition world_of_json :: "jdict \<Rightarrow> world_row option" where
  "world_of_json w =
     (let txt = (\<lambda>k. case jget k w of Some (JStr s) \<Rightarrow> Some s | _ \<Rightarrow> None);
          num = (\<lambda>k. case jget k w of Some (JInt i) \<Rightarrow> Some i | _ \<Rightarrow> None) in
      case (txt ''world_id'', txt ''display_name'', txt ''template_id'', Option.bind (txt ''server_type'') server_type_of,
            txt ''mc_version'', txt ''java_runtime_id'', num ''port'', txt ''addressing_strategy'',
            txt ''addressing_value'', Option.bind (txt ''state'') world_state_of,
            Option.bind (jget ''launch_args'' w) launch_of_json, num ''metadata_version'', num ''created_at'',
            num ''updated_at'') of
        (Some i, Some name, Some tmpl, Some ty, Some ver, Some java, Some port, Some strat, Some addr, Some st,
           Some args, Some meta, Some created, Some updated) \<Rightarrow>
          Some \<lparr>wo_id = i, wo_display_name = name, wo_template = tmpl, wo_server_type = ty, wo_mc_version = ver,
            wo_java_runtime = java, wo_port = port, wo_strategy = strat, wo_address = addr, wo_state = st,
            wo_pre_backup = Option.bind (txt ''pre_backup_state'') world_state_of, wo_launch_args = args,
            wo_metadata_version = meta, wo_deleted_at = num ''deleted_at'', wo_deleted_by = txt ''deleted_by'',
            wo_created_at = created, wo_updated_at = updated\<rparr>
      | _ \<Rightarrow> None)"

text \<open>The constraints of the table: identity, unique live names and ports, the references.\<close>

definition live_clash :: "world_row \<Rightarrow> world_row \<Rightarrow> bool" where
  "live_clash r x \<longleftrightarrow> wo_deleted_at r = None \<and> wo_deleted_at x = None \<and>
     (wo_display_name x = wo_display_name r \<or> wo_port x = wo_port r)"

definition references_ok :: "world_row \<Rightarrow> world_sys \<Rightarrow> bool" where
  "references_ok r s \<longleftrightarrow> list_ex (\<lambda>j. fst j = wo_java_runtime r) (ws_javas s) \<and>
     exists_row (\<lambda>x. col ''template_id'' x = JStr (wo_template r)) (ws_tables s CE_TEMPLATES)"

definition insert_world :: "world_row \<Rightarrow> world_sys \<Rightarrow> store option" where
  "insert_world r s =
     (let st = ws_store s in
      if exists_row (\<lambda>x. wo_id x = wo_id r \<or> live_clash r x) (worlds st) \<or> \<not> references_ok r s
      then None else Some (st\<lparr>worlds := worlds st @ [r]\<rparr>))"

section \<open>The transactions\<close>

definition constraint_failed :: world_error where
  "constraint_failed = OtherError ''constraint failed''"

definition create_world_tx :: "string \<Rightarrow> jdict \<Rightarrow> world_sys \<Rightarrow> world_error + store" where
  "create_world_tx oid w s =
     (case jget ''world_id'' w of
        Some (JStr i) \<Rightarrow>
          res_bind
            (case find_world i (ws_store s) of
               None \<Rightarrow> (case world_of_json w of
                   None \<Rightarrow> Inl constraint_failed
                 | Some r \<Rightarrow> (case insert_world r s of None \<Rightarrow> Inl constraint_failed | Some st \<Rightarrow> Inr st))
             | Some r \<Rightarrow> if same_columns w r then Inr (ws_store s)
                 else Inl (WorldConflictError ''world create operation does not match persisted world''))
            (\<lambda>st. Inr (st\<lparr>operations := update_rows (\<lambda>o'. op_id o' = oid \<and> op_world o' = None)
                      (\<lambda>o'. o'\<lparr>op_world := Some i\<rparr>) (operations st)\<rparr>))
      | _ \<Rightarrow> Inl (OtherError ''world_id''))"

definition deletion_conflict :: world_error where
  "deletion_conflict = ConfigConflict ''World changed after deletion preview.''"

definition delete_world_tx :: "int \<Rightarrow> string option \<Rightarrow> string option \<Rightarrow> int \<Rightarrow> store \<Rightarrow> world_error + store" where
  "delete_world_tx now user w expected st =
     (case Option.bind w (\<lambda>i. find_world i st) of
        None \<Rightarrow> Inl (WorldNotFoundError (or_none w))
      | Some r \<Rightarrow>
          (if wo_deleted_at r \<noteq> None \<and> wo_deleted_by r = user \<and> wo_metadata_version r = expected + 1 then Inr st
           else if wo_deleted_at r \<noteq> None \<or> wo_state r \<noteq> WS_OFF \<or> wo_metadata_version r \<noteq> expected
           then Inl deletion_conflict
           else Inr (st\<lparr>worlds := update_rows (\<lambda>x. wo_id x = wo_id r)
                  (\<lambda>x. x\<lparr>wo_deleted_at := Some now, wo_deleted_by := user,
                         wo_metadata_version := wo_metadata_version x + 1, wo_updated_at := now\<rparr>) (worlds st)\<rparr>)))"

definition runtime_config_tx ::
  "int \<Rightarrow> string option \<Rightarrow> int \<Rightarrow> jdict \<Rightarrow> world_sys \<Rightarrow> world_error + store" where
  "runtime_config_tx now w expected after s =
     (let st = ws_store s in
      case find_row (\<lambda>r. Some (wo_id r) = w \<and> wo_deleted_at r = None) (worlds st) of
        None \<Rightarrow> Inl (WorldNotFoundError (or_none w))
      | Some r \<Rightarrow>
          (if wo_metadata_version r = expected + 1 \<and> same_columns after r then Inr st
           else if wo_metadata_version r \<noteq> expected then Inl (ConfigConflict ''CONFIG_VERSION_CONFLICT'')
           else if wo_state r \<noteq> WS_OFF
           then Inl (WorldConflictError ''Runtime configuration requires an off world.'')
           else (case set_runtime_cols after r of
                   None \<Rightarrow> Inl constraint_failed
                 | Some r1 \<Rightarrow>
                     (let r2 = r1\<lparr>wo_metadata_version := wo_metadata_version r + 1, wo_updated_at := now\<rparr> in
                      if exists_row (\<lambda>x. wo_id x \<noteq> wo_id r \<and> wo_deleted_at x = None \<and> wo_port x = wo_port r2) (worlds st) \<or>
                         \<not> list_ex (\<lambda>j. fst j = wo_java_runtime r2) (ws_javas s)
                      then Inl constraint_failed
                      else Inr (st\<lparr>worlds := update_rows (\<lambda>x. wo_id x = wo_id r) (\<lambda>_. r2) (worlds st)\<rparr>)))))"

section \<open>Applying a queued change\<close>

definition commit :: "world_env \<Rightarrow> (int \<Rightarrow> world_sys \<Rightarrow> world_error + store) \<Rightarrow> 'a \<Rightarrow> 'a world_run" where
  "commit E f x s =
     (case f (now_at E s) s of
        Inl e \<Rightarrow> (Inl e, tick E s)
      | Inr st \<Rightarrow> (Inr x, set_store st (tick E s)))"

definition field :: "string \<Rightarrow> jdict \<Rightarrow> json world_run" where
  "field k d = of_option (OtherError k) (jget k d)"

definition int_field :: "string \<Rightarrow> jdict \<Rightarrow> int world_run" where
  "int_field k d = bind_run (field k d) (\<lambda>v. of_option (OtherError ''TypeError'') (jint_of v))"

definition str_field :: "string \<Rightarrow> jdict \<Rightarrow> string world_run" where
  "str_field k d = bind_run (field k d) (\<lambda>v. of_option (OtherError ''TypeError'') (jstr_of v))"

definition obj_field :: "string \<Rightarrow> jdict \<Rightarrow> jdict world_run" where
  "obj_field k d = bind_run (field k d)
     (\<lambda>v. of_option (OtherError ''TypeError'') (case v of JObj x \<Rightarrow> Some x | _ \<Rightarrow> None))"

definition apply_world_create :: "world_env \<Rightarrow> op_row \<Rightarrow> jdict \<Rightarrow> jdict world_run" where
  "apply_world_create E o' data =
     bind_run (obj_field ''world'' data) (\<lambda>w.
       commit E (\<lambda>now. create_world_tx (op_id o') w)
         [(''world_id'', case jget ''world_id'' w of None \<Rightarrow> JNull | Some v \<Rightarrow> v)])"

definition apply_world_delete :: "world_env \<Rightarrow> op_row \<Rightarrow> jdict \<Rightarrow> jdict world_run" where
  "apply_world_delete E o' data =
     bind_run (int_field ''preview_version'' data) (\<lambda>v.
       commit E (\<lambda>now s. delete_world_tx now (op_actor_user o') (op_world o') v (ws_store s))
         [(''world_id'', jopt_str (op_world o')), (''deleted'', JBool True)])"

definition apply_runtime_config :: "world_env \<Rightarrow> op_row \<Rightarrow> jdict \<Rightarrow> jdict world_run" where
  "apply_runtime_config E o' data =
     bind_run (int_field ''expected_version'' data) (\<lambda>v.
     bind_run (obj_field ''after'' data) (\<lambda>after.
     bind_run (commit E (\<lambda>now. runtime_config_tx now (op_world o') v after) ()) (\<lambda>_.
     bind_run (field ''before'' data) (\<lambda>old.
       ret [(''entity'', JStr (entity_value CE_WORLD_INSTANCES)), (''row_id'', jopt_str (op_world o')),
            (''before'', old), (''after'', JObj after)]))))"

fun file_failure :: "file_error \<Rightarrow> world_error" where
  "file_failure PathsMustBeRelative = WorldLifecycleError ''FileEdit paths must be relative.''"
| "file_failure TraversesLink = WorldLifecycleError ''FileEdit paths cannot traverse symbolic links.''"
| "file_failure EscapesRoot = WorldLifecycleError ''FileEdit path escapes the world directory.''"
| "file_failure EditsRoot = WorldLifecycleError ''FileEdit cannot operate on the world root.''"
| "file_failure UnsupportedAction = WorldLifecycleError ''Unsupported FileEdit action.''"
| "file_failure NotFound = OtherError ''not found''"
| "file_failure Exists = OtherError ''file exists''"
| "file_failure LinkLoop = OtherError ''symlink loop''"
| "file_failure OsFailure = OtherError ''OSError''"

definition edit_tree :: "string \<Rightarrow> file_edit \<Rightarrow> unit world_run" where
  "edit_tree oid e s =
     (case apply_file_edit oid e (ws_tree s) of
        (r, t) \<Rightarrow> (case r of Inl x \<Rightarrow> Inl (file_failure x) | Inr u \<Rightarrow> Inr u, s\<lparr>ws_tree := t\<rparr>))"

definition apply_queued_file_edit :: "op_row \<Rightarrow> jdict \<Rightarrow> jdict world_run" where
  "apply_queued_file_edit o' data =
     bind_run (str_field ''world_root'' data) (\<lambda>root.
     bind_run (str_field ''from'' data) (\<lambda>a.
     bind_run (str_field ''to'' data) (\<lambda>b.
     bind_run (str_field ''action'' data) (\<lambda>act.
       then_run (edit_tree (op_id o') \<lparr>fe_root = root, fe_from = a, fe_to = b, fe_action = act\<rparr>)
         (ret [(''action'', JStr act), (''from'', JStr a), (''to'', JStr b)])))))"

section \<open>Dispatch\<close>

datatype mutation = MCreate | MDelete | MRuntimeConfig | MFileEdit

definition op_payload :: "op_row \<Rightarrow> jdict" where
  "op_payload r = (case op_data r of None \<Rightarrow> [] | Some d \<Rightarrow> d)"

definition mutation_of :: "op_row \<Rightarrow> mutation option" where
  "mutation_of r =
     (if op_type r = CONFIG_EDIT then
        (if json_truthy (jget ''queued_runtime_config'' (op_payload r)) then Some MRuntimeConfig
         else if json_truthy (jget ''queued_file_edit'' (op_payload r)) then Some MFileEdit else None)
      else case jget ''world_action'' (op_payload r) of
        Some (JStr a) \<Rightarrow>
          (if a = ''create'' then Some MCreate else if a = ''delete'' then Some MDelete
           else if a = ''runtime_config'' then Some MRuntimeConfig
           else if a = ''file_edit'' then Some MFileEdit else None)
      | _ \<Rightarrow> None)"

definition pending_mutations :: "store \<Rightarrow> op_row list" where
  "pending_mutations st = sort_key (\<lambda>r. (op_created_at r, op_id r))
     (filter (\<lambda>r. (op_type r = CREATE_WORLD \<or> op_type r = DELETE_WORLD \<or> op_type r = CONFIG_EDIT) \<and>
        (op_status r = OS_QUEUED \<or> op_status r = OS_RUNNING)) (operations st))"

definition apply_mutation :: "world_env \<Rightarrow> mutation \<Rightarrow> op_row \<Rightarrow> jdict \<Rightarrow> jdict world_run" where
  "apply_mutation E m o' data =
     (case m of
        MCreate \<Rightarrow> apply_world_create E o' data
      | MDelete \<Rightarrow> apply_world_delete E o' data
      | MFileEdit \<Rightarrow> apply_queued_file_edit o' data
      | MRuntimeConfig \<Rightarrow> apply_runtime_config E o' data)"

definition mutation_failed :: "world_env \<Rightarrow> string \<Rightarrow> world_error \<Rightarrow> unit world_run" where
  "mutation_failed E i e =
     try_run (fail_op E i (case e of ConfigConflict m \<Rightarrow> ''CONFIG_VERSION_CONFLICT'' | _ \<Rightarrow> ''OP_EXECUTION_FAILED'')
         (Some (error_text e)))
       (\<lambda>_. ret ())"

definition run_mutation :: "world_env \<Rightarrow> mutation \<Rightarrow> op_row \<Rightarrow> jdict \<Rightarrow> unit world_run" where
  "run_mutation E m o' data =
     try_run (bind_run (apply_mutation E m o' data) (\<lambda>res.
         then_run (move_op E (op_id o') OS_COMPLETED (plain_transition\<lparr>ti_data := Some res\<rparr>)) (ret ())))
       (mutation_failed E (op_id o'))"

definition dispatch_mutation :: "world_env \<Rightarrow> op_row \<Rightarrow> string list world_run" where
  "dispatch_mutation E q =
     (case mutation_of q of
        None \<Rightarrow> ret []
      | Some m \<Rightarrow>
          bind_run (if op_status q = OS_QUEUED then claim_call E (op_id q) else ret (Some q)) (\<lambda>c.
            case c of
              None \<Rightarrow> ret []
            | Some o' \<Rightarrow> then_run (run_mutation E m o' (op_payload q)) (ret [op_id o'])))"

definition dispatch_queued_world_mutations :: "world_env \<Rightarrow> string list world_run" where
  "dispatch_queued_world_mutations E =
     bind_run (gets ws_mutating) (\<lambda>taken.
       if taken then ret []
       else finally_run
         (then_run (change (\<lambda>s. s\<lparr>ws_mutating := True\<rparr>))
           (bind_run (gets (\<lambda>s. pending_mutations (ws_store s))) (for_each (dispatch_mutation E))))
         (change (\<lambda>s. s\<lparr>ws_mutating := False\<rparr>)))"

definition dispatch_queued_operations :: "world_env \<Rightarrow> string list world_run" where
  "dispatch_queued_operations E =
     bind_run (dispatch_lifecycle E) (\<lambda>a.
     bind_run (dispatch_queued_world_mutations E) (\<lambda>b. ret (a @ b)))"

definition mutation_request ::
  "OperationType \<Rightarrow> string option \<Rightarrow> string \<Rightarrow> string \<Rightarrow> jdict \<Rightarrow> OperationInput" where
  "mutation_request ty w user key data = \<lparr>oi_type = ty, oi_actor_type = ACTOR_USER, oi_world = w,
     oi_actor_user = Some user, oi_key = Some key, oi_data = Some data, oi_compensates = None\<rparr>"

definition enqueue_world_mutation ::
  "world_env \<Rightarrow> OperationType \<Rightarrow> string option \<Rightarrow> string \<Rightarrow> string \<Rightarrow> jdict \<Rightarrow> (op_row \<times> bool) world_run" where
  "enqueue_world_mutation E ty w user key data =
     create_op E (mutation_request ty w user key data) (ty = CONFIG_EDIT \<or> ty = DELETE_WORLD)"

section \<open>The read model\<close>

definition summary_of :: "world_row \<Rightarrow> jdict" where
  "summary_of r = map (\<lambda>k. (k, case world_col k r of None \<Rightarrow> JNull | Some v \<Rightarrow> v))
     [''world_id'', ''display_name'', ''server_type'', ''mc_version'', ''port'', ''state'',
      ''addressing_strategy'', ''addressing_value'']"

definition world_summary :: "string \<Rightarrow> jdict world_run" where
  "world_summary w = bind_run (world_of w) (\<lambda>r. ret (summary_of r))"

definition list_worlds :: "store \<Rightarrow> jdict list" where
  "list_worlds st = map summary_of
     (sort_key (\<lambda>r. - wo_created_at r) (filter (\<lambda>r. wo_deleted_at r = None) (worlds st)))"

definition ascii_lower :: "string \<Rightarrow> string" where
  "ascii_lower s = map (\<lambda>c. if CHR ''A'' \<le> c \<and> c \<le> CHR ''Z'' then char_of ((of_char c :: nat) + 32) else c) s"

record world_query =
  wq_state :: "string option"
  wq_server_type :: "string option"
  wq_version :: "string option"
  wq_search :: string
  wq_deleted :: bool
  wq_limit :: int
  wq_offset :: int

definition asked :: "string option \<Rightarrow> string \<Rightarrow> bool" where
  "asked q v = (case q of None \<Rightarrow> True | Some x \<Rightarrow> v = x)"

definition world_matches :: "world_query \<Rightarrow> world_row \<Rightarrow> bool" where
  "world_matches q r \<longleftrightarrow> (wq_deleted q \<or> wo_deleted_at r = None) \<and>
     asked (wq_state q) (world_state_value (wo_state r)) \<and>
     asked (wq_server_type q) (server_type_value (wo_server_type r)) \<and> asked (wq_version q) (wo_mc_version r) \<and>
     (wq_search q = [] \<or> has_text (ascii_lower (wq_search q)) (ascii_lower (wo_display_name r)))"

text \<open>\<open>LIMIT\<close> below zero is no limit, \<open>OFFSET\<close> below zero is none.\<close>

definition page :: "int \<Rightarrow> int \<Rightarrow> 'a list \<Rightarrow> 'a list" where
  "page limit offset xs =
     (let ys = drop (nat offset) xs in if limit < 0 then ys else take (nat limit) ys)"

definition query_worlds :: "world_query \<Rightarrow> store \<Rightarrow> jdict list \<times> nat" where
  "query_worlds q st =
     (let rows = filter (world_matches q) (worlds st) in
      (map summary_of (page (wq_limit q) (wq_offset q) (sort_key (\<lambda>r. (- wo_created_at r, wo_id r)) rows)),
       length rows))"

end
