(* ===== verification/Operations_Frame.thy ===== *)
theory Operations_Frame
  imports Operations_Inv
begin

text \<open>
  What the operation engine leaves alone: every table but the operations, the audit records and
  the notifications.  The services that run on the engine take their own frames from these.
\<close>

text \<open>The engine writes operations, audit records and notifications only.\<close>

definition store_frame :: "store \<Rightarrow> store \<Rightarrow> bool" where
  "store_frame st st' \<longleftrightarrow> worlds st' = worlds st \<and> users st' = users st \<and> reads st' = reads st \<and>
     artifacts st' = artifacts st \<and> schedules st' = schedules st \<and> missed_runs st' = missed_runs st \<and>
     runtime_sessions st' = runtime_sessions st \<and> sync_targets st' = sync_targets st \<and>
     sync_records st' = sync_records st \<and> sync_attempts st' = sync_attempts st"

lemma store_frame_refl [simp]: "store_frame st st"
  by (simp add: store_frame_def)

lemma store_frame_trans: "store_frame a b \<Longrightarrow> store_frame b c \<Longrightarrow> store_frame a c"
  by (simp add: store_frame_def)

lemma store_frame_updates [simp]:
  "store_frame st (st\<lparr>operations := ops\<rparr>)" "store_frame st (st\<lparr>audits := al\<rparr>)"
  "store_frame st (st\<lparr>operations := ops, audits := al, notifications := nl\<rparr>)"
  by (simp_all add: store_frame_def)

lemma apply_policy_frame:
  assumes "apply_conflict_policy req active status now st = Inr ((s, xs), st')"
  shows "store_frame st st'"
proof -
  obtain code dead where "(xs, st') = cancel_rows now code dead st"
    using apply_policy_effect[OF assms] by blast
  then have "st' = snd (cancel_rows now code dead st)" by (metis snd_conv)
  then show ?thesis by (simp add: cancel_rows_store)
qed

lemma create_insert_frame:
  assumes "create_insert u now req status dead st = Inr (res, st')"
  shows "store_frame st st'"
proof -
  from assms obtain st1 where "insert_op (new_op_row (''op_'' @ u 0) now req status) st = Some st1"
    "write_terminal_audits u 1 now dead st1 = Some st'"
    by (auto simp: create_insert_def Let_def split: option.splits)
  then obtain al where "st1 = st\<lparr>operations := operations st @ [new_op_row (''op_'' @ u 0) now req status]\<rparr>"
    "st' = st1\<lparr>audits := al\<rparr>"
    using insert_op_Some write_terminal_audits_Some by blast
  then show ?thesis by (simp add: store_frame_def)
qed

lemma create_tx_frame:
  assumes "create_tx u now req init allow st = Inr (res, st')"
  shows "store_frame st st'"
proof (cases "case oi_key req of None \<Rightarrow> None | Some k \<Rightarrow> find_by_key (oi_type req) k st")
  case None
  with assms show ?thesis
    by (auto simp: create_tx_def Let_def result_simps split: if_splits option.splits
        dest!: create_insert_frame apply_policy_frame intro: store_frame_trans)
next
  case (Some r)
  with assms show ?thesis by (simp add: create_tx_def)
qed

lemma create_with_replay_keeps:
  assumes "create_with_replay u now req init allow sys = Inr (x, sys')"
  shows "store_frame (os_store sys) (os_store sys')"
proof -
  obtain r b where "x = (r, b)" by (cases x)
  with assms create_with_replay_store obtain res where
    "create_tx u now req init allow (os_store sys) = Inr (res, os_store sys')" by blast
  then show ?thesis by (rule create_tx_frame)
qed

lemma transition_keeps:
  assumes "transition u now i status ti sys = Inr (r, sys')"
  shows "store_frame (os_store sys) (os_store sys')"
  by (rule transition_cases[OF assms]) (auto simp: transition_effect_def)

lemma claim_keeps: "store_frame (os_store sys) (os_store (snd (claim_queued now i sys)))"
  using claim_tx_effect[of now i "os_store sys"]
  by (auto simp: claim_queued_def Let_def store_frame_def split: prod.splits option.splits)

end
