(* ===== verification/Worlds_Laws.thy ===== *)
theory Worlds_Laws
  imports World_Mutations Operations_Frame
begin

text \<open>
  What every call of the world driver keeps.  Two relations between the state before and after
  are carried through the services by \<open>state_order\<close>: the states of worlds move only along the
  lifecycle (\<open>moves\<close>), and the operation rows evolve as the engine lets them (\<open>evolves\<close>).
\<close>

section \<open>Worlds move along the lifecycle\<close>

text \<open>The moves the driver asks for: no acknowledgement of a crash or an error.\<close>

definition driver_edge :: "WorldState \<Rightarrow> WorldState \<Rightarrow> bool" where
  "driver_edge old new \<longleftrightarrow> new = old \<or>
     (new \<in> set (allowed_transitions old) \<and> required_intent old new \<in> {None, Some EULA_ACCEPTANCE})"

definition driver_path :: "WorldState \<Rightarrow> WorldState \<Rightarrow> bool" where
  "driver_path = driver_edge\<^sup>*\<^sup>*"

definition world_moved :: "world_row \<Rightarrow> world_row \<Rightarrow> bool" where
  "world_moved r r' \<longleftrightarrow> (\<exists>st pre at. driver_path (wo_state r) st \<and>
     r' = r\<lparr>wo_state := st, wo_pre_backup := pre, wo_updated_at := at\<rparr>)"

definition moves :: "world_sys \<Rightarrow> world_sys \<Rightarrow> bool" where
  "moves s t \<longleftrightarrow> (\<forall>w. case find_world w (ws_store s) of
       None \<Rightarrow> find_world w (ws_store t) = None
     | Some r \<Rightarrow> \<exists>r'. find_world w (ws_store t) = Some r' \<and> world_moved r r')"

lemma world_moved_refl: "world_moved r r"
proof -
  have "r = r\<lparr>wo_state := wo_state r, wo_pre_backup := wo_pre_backup r, wo_updated_at := wo_updated_at r\<rparr>" by simp
  then show ?thesis unfolding world_moved_def driver_path_def by blast
qed

lemma world_moved_trans: "world_moved a b \<Longrightarrow> world_moved b c \<Longrightarrow> world_moved a c"
  unfolding world_moved_def driver_path_def
  by (elim exE conjE) (auto intro: rtranclp_trans)

lemma movesD: "moves s t \<Longrightarrow> find_world w (ws_store s) = Some r \<Longrightarrow>
    \<exists>r'. find_world w (ws_store t) = Some r' \<and> world_moved r r'"
  unfolding moves_def by (auto dest: spec[of _ w])

interpretation mv: state_order moves
proof
  fix s t u
  show "moves s s"
    by (simp add: moves_def world_moved_refl split: option.split)
  assume st: "moves s t" and tu: "moves t u"
  show "moves s u"
    unfolding moves_def
  proof
    fix w
    show "case find_world w (ws_store s) of None \<Rightarrow> find_world w (ws_store u) = None
      | Some r \<Rightarrow> \<exists>r'. find_world w (ws_store u) = Some r' \<and> world_moved r r'"
    proof (cases "find_world w (ws_store s)")
      case None
      with st have "find_world w (ws_store t) = None" unfolding moves_def by (auto dest: spec[of _ w])
      with tu have "find_world w (ws_store u) = None" unfolding moves_def by (auto dest: spec[of _ w])
      with None show ?thesis by simp
    next
      case (Some r)
      with movesD[OF st] movesD[OF tu] world_moved_trans show ?thesis by fastforce
    qed
  qed
qed

lemma moves_same: "worlds (ws_store t) = worlds (ws_store s) \<Longrightarrow> moves s t"
  by (simp add: moves_def find_world_def world_moved_refl split: option.split)

lemma moves_frame: "store_frame (ws_store s) (ws_store t) \<Longrightarrow> moves s t"
  by (simp add: moves_same store_frame_def)

lemma required_intent_proper: "required_intent old new \<noteq> Some ORDINARY"
  by (cases old) (simp_all add: required_intent_def)

lemma moved_world_edge:
  assumes "moved_world r new now intent = Inr w'" and "intent \<in> {ORDINARY, EULA_ACCEPTANCE}"
  shows "wi_state w' = new \<and> driver_edge (wo_state r) new"
proof -
  from assms(1) obtain w ev where w: "make_world (wo_id r) (wo_state r) (wo_pre_backup r) None = Inr w"
    "transition_world w new now intent = Inr (w', ev)"
    by (auto simp: moved_world_def split: sum.splits prod.splits)
  from w(1) have ws: "wi_state w = wo_state r" "wi_deleted_at w = None" by (auto simp: make_world_Inr)
  from w(2) have g: "transition_guard w new intent = None" "wi_state w' = new"
    by (auto simp: transition_world_def result_simps split: option.splits sum.splits)
  with ws assms(2) have "driver_edge (wo_state r) new"
    unfolding driver_edge_def transition_guard_def Let_def
    using required_intent_proper[of "wo_state r" new] by (cases "required_intent (wo_state r) new") (auto split: if_splits)
  with g show ?thesis by simp
qed

lemma set_state_moves:
  assumes i: "intent \<in> {ORDINARY, EULA_ACCEPTANCE}" and run: "set_world_state E w new intent s = (r, t)"
  shows "moves s t"
proof (cases "find_world w (ws_store s)")
  case None
  with run show ?thesis by (auto simp: set_world_state_def Let_def tick_def intro!: moves_same)
next
  case (Some x)
  show ?thesis
  proof (cases "moved_world x new (now_at E s) intent")
    case (Inl e)
    with Some run show ?thesis by (auto simp: set_world_state_def Let_def tick_def intro!: moves_same)
  next
    case (Inr w')
    define f where "f = (\<lambda>x::world_row. x\<lparr>wo_state := wi_state w', wo_pre_backup := wi_pre_backup w', wo_updated_at := now_at E s\<rparr>)"
    have t: "worlds (ws_store t) = update_rows (\<lambda>x. wo_id x = w) f (worlds (ws_store s))"
      using run Some Inr by (auto simp: set_world_state_def Let_def tick_def f_def)
    have look: "find_world v (ws_store t) = map_option (\<lambda>x. if wo_id x = w then f x else x) (find_world v (ws_store s))" for v
      unfolding find_world_def t by (rule find_row_update_rows_stable) (simp add: f_def)
    have id: "wo_id y = v" if "find_world v (ws_store s) = Some y" for v y
      using that by (auto simp: find_world_def dest: find_row_SomeD)
    have fx: "world_moved x (f x)"
      using moved_world_edge[OF Inr i] by (auto simp: world_moved_def driver_path_def f_def)
    have "world_moved y (if wo_id y = w then f y else y)" if "find_world v (ws_store s) = Some y" for v y
      using fx id[OF that] id[OF Some] that Some world_moved_refl by (cases "v = w") auto
    then show ?thesis unfolding moves_def look by (auto split: option.split)
  qed
qed

section \<open>Laws of the driver\<close>

text \<open>
  A relation kept by the primitive calls of the driver: whatever leaves the operation service and
  the log alone, every request but a spawn, the calls of the operation service, the writes to
  sessions and audit records, and the moves of a world.  Polls and consoles need fewer laws
  (\<open>console_law\<close>), the waiting loops and the stop ladder the laws of requests (\<open>request_law\<close>), every part of the driver that does not spawn the laws
  of \<open>driver_calls\<close>; a launch needs the law for spawns too (\<open>spawning_calls\<close>), and the services that
  write into the directory of a world the law for files (\<open>driver_law\<close>).
\<close>

definition is_spawn :: "world_call \<Rightarrow> bool" where
  "is_spawn c \<longleftrightarrow> (case c of Spawn q \<Rightarrow> True | _ \<Rightarrow> False)"

lemma is_spawn_simps [simp]:
  "is_spawn (Spawn q)" "\<not> is_spawn (Probe w i f)" "\<not> is_spawn (Poll h)" "\<not> is_spawn (WriteStdin h m)"
  "\<not> is_spawn (Terminate h g)" "\<not> is_spawn (CloseHandle h)" "\<not> is_spawn (Tail h)"
  "\<not> is_spawn (RconConnect p k)" "\<not> is_spawn (RconPing p)" "\<not> is_spawn (RconCommand p m)"
  "\<not> is_spawn (RconClose p)" "\<not> is_spawn (WriteArchive a d)"
  by (simp_all add: is_spawn_def)

definition is_console :: "world_call \<Rightarrow> bool" where
  "is_console c \<longleftrightarrow> (case c of Poll h \<Rightarrow> True | RconConnect p k \<Rightarrow> True | RconPing p \<Rightarrow> True
     | RconCommand p m \<Rightarrow> True | RconClose p \<Rightarrow> True | _ \<Rightarrow> False)"

lemma is_console_simps [simp]:
  "is_console (Poll h)" "is_console (RconConnect p k)" "is_console (RconPing p)" "is_console (RconCommand p m)"
  "is_console (RconClose p)" "\<not> is_console (Spawn q)" "\<not> is_console (WriteStdin h m)"
  "\<not> is_console (Terminate h g)" "\<not> is_console (WriteArchive a d)"
  by (simp_all add: is_console_def)

locale console_law = state_order rel
  for rel :: "world_sys \<Rightarrow> world_sys \<Rightarrow> bool" +
  assumes quiet: "ws_ops t = ws_ops s \<Longrightarrow> ws_calls t = ws_calls s \<Longrightarrow> ws_tree t = ws_tree s \<Longrightarrow> rel s t"
    and polled: "is_console c \<Longrightarrow> ws_ops t = ws_ops s \<Longrightarrow> ws_calls t = ws_calls s @ [c] \<Longrightarrow>
        ws_tree t = ws_tree s \<Longrightarrow> rel s t"
begin

lemma stays_ask_any:
  assumes "\<And>s t. ws_ops t = ws_ops s \<Longrightarrow> ws_calls t = ws_calls s @ [c] \<Longrightarrow>
        ws_tree t = ws_tree s \<Longrightarrow> rel s t"
  shows "stays (ask E f err c)"
  by (rule staysI) (auto simp: ask_def tick_def intro!: assms)

lemma stays_console_ask: "is_console c \<Longrightarrow> stays (ask E f err c)"
  by (rule stays_ask_any) (rule polled)

lemma stays_console_tell: "is_console c \<Longrightarrow> stays (tell E c)"
  by (simp add: tell_def stays_console_ask)

lemmas stays_console_requests [stay_rules] =
  is_console_simps(1-5)[THEN stays_console_ask] is_console_simps(1-5)[THEN stays_console_tell]

lemma stays_world_of [stay_rules]: "stays (world_of w)"
  unfolding world_of_def by (intro stay_rules)

lemma stays_launch_context [stay_rules]: "stays (launch_context E w)"
  by (rule staysI) (auto simp: launch_context_def Let_def tick_def split: option.splits intro: quiet)

lemma stays_driver_gate [stay_rules]: "stays (driver_gate E w x)"
  by (rule staysI) (auto simp: driver_gate_def Let_def tick_def intro: quiet)

lemma stays_fresh [stay_rules]: "stays (fresh_session_id E)"
  by (rule staysI) (auto simp: fresh_session_id_def tick_def intro: quiet)

lemma stays_console [stay_rules]: "stays (rcon_command_quiet E w c)"
  unfolding rcon_command_quiet_def by (intro stay_rules)

lemma stays_probe_console [stay_rules]: "stays (probe_console E ty port pw wt)"
  unfolding probe_console_def watch_console_def console_answers_def by (intro stay_rules)

lemma stays_tick: "stays (\<lambda>s. f (tick E s))" if "stays f"
proof (rule staysI)
  fix s r t
  assume "f (tick E s) = (r, t)"
  from staysD[OF that this] quiet[of "tick E s" s] rel_trans show "rel s t" by (auto simp: tick_def)
qed

lemma stays_end_round [stay_rules]: "stays (end_round E r port wt)"
proof (rule staysI)
  fix s res t
  assume run: "end_round E r port wt s = (res, t)"
  have k: "stays (\<lambda>s. then_run (when_run (rw_client wt) (tell E (RconClose port))) (ret (Some l, wt)) (tick E s))" for l
    by (intro stays_tick stay_rules)
  show "rel s t"
  proof (cases "target_level_for (wo_server_type r) \<le> measured_level E r wt s")
    case True
    with run show ?thesis by (auto simp: end_round_def Let_def dest: staysD[OF k])
  next
    case False
    with run show ?thesis by (auto simp: end_round_def Let_def sleep_def tick_def intro: quiet)
  qed
qed

lemma stays_await_round [stay_rules]: "stays (await_round E r h port pw wt)"
  unfolding await_round_def by (intro stay_rules)

lemma stays_exit_poll [stay_rules]: "stays (exit_poll E h)"
  unfolding exit_poll_def by (intro stay_rules)

lemma wait_loop_rel: "wait_loop E h d s = (res, t) \<Longrightarrow> rel s t"
proof (induction E h d s arbitrary: res t rule: wait_loop.induct)
  case (1 E h d s)
  obtain x s1 where a: "exit_poll E h s = (x, s1)" by (metis surj_pair)
  note r1 = staysD[OF stays_exit_poll a]
  show ?case
  proof (cases "ws_time s < d \<and> x = Inr False")
    case True
    with 1(2) a have "wait_loop E h d (sleep 500 s1) = (res, t)"
      by (subst (asm) wait_loop.simps) simp
    with 1(1) True a have "rel (sleep 500 s1) t" by metis
    moreover have "rel s1 (sleep 500 s1)" by (rule quiet) (simp_all add: sleep_def)
    ultimately show ?thesis using r1 rel_trans by blast
  next
    case False
    with 1(2) a r1 show ?thesis
      by (subst (asm) wait_loop.simps) (auto split: if_splits sum.splits bool.splits)
  qed
qed

lemma stays_wait_exit [stay_rules]: "stays (wait_exit E h d)"
  unfolding wait_exit_def by (rule staysI) (rule wait_loop_rel)

lemma stays_stop_by_console [stay_rules]: "stays (stop_by_console E w h)"
proof -
  have "stays (case e of RconFailed m \<Rightarrow> ret False | _ \<Rightarrow> raise e)" for e
    by (cases e) (simp_all add: stays_ret stays_raise)
  then show ?thesis unfolding stop_by_console_def by (intro stay_rules)
qed

end

locale request_law = state_order rel
  for rel :: "world_sys \<Rightarrow> world_sys \<Rightarrow> bool" +
  assumes still: "ws_ops t = ws_ops s \<Longrightarrow> ws_calls t = ws_calls s \<Longrightarrow> ws_tree t = ws_tree s \<Longrightarrow> rel s t"
    and asked: "\<not> is_spawn c \<Longrightarrow> ws_ops t = ws_ops s \<Longrightarrow> ws_calls t = ws_calls s @ [c] \<Longrightarrow>
        ws_tree t = ws_tree s \<Longrightarrow> rel s t"

sublocale request_law \<subseteq> console_law
proof
  fix c and s t :: world_sys
  assume "is_console c" "ws_ops t = ws_ops s" "ws_calls t = ws_calls s @ [c]" "ws_tree t = ws_tree s"
  moreover have "\<not> is_spawn c" using \<open>is_console c\<close> by (cases c) simp_all
  ultimately show "rel s t" using asked by blast
qed (rule still)

context request_law
begin

lemma stays_ask: "\<not> is_spawn c \<Longrightarrow> stays (ask E f err c)"
  by (rule stays_ask_any) (rule asked)

lemma stays_tell: "\<not> is_spawn c \<Longrightarrow> stays (tell E c)"
  by (simp add: tell_def stays_ask)

lemmas stays_requests [stay_rules] =
  is_spawn_simps(2-12)[THEN stays_ask] is_spawn_simps(2-12)[THEN stays_tell]

lemma stays_resolve [stay_rules]: "stays (resolve_handle E w)"
  unfolding resolve_handle_def by (intro stay_rules)

lemma stays_teardown [stay_rules]: "stays (teardown E h g)"
  unfolding teardown_def by (intro stay_rules)

lemma await_ready_rel: "await_ready E r h port pw d wt s = (res, t) \<Longrightarrow> rel s t"
proof (induction E r h port pw d wt s arbitrary: res t rule: await_ready.induct)
  case (1 E r h port pw d wt s)
  have k: "stays (then_run (when_run (rw_client wt) (tell E (RconClose port)))
             (then_run (teardown E h 0) (raise e)))" for e
    by (intro stay_rules)
  show ?case
  proof (cases "ws_time s < d")
    case False
    with 1(2) staysD[OF k] show ?thesis by (subst (asm) await_ready.simps) simp
  next
    case True
    obtain x s1 where a: "await_round E r h port pw wt s = (x, s1)" by (metis surj_pair)
    note r1 = staysD[OF stays_await_round a]
    show ?thesis
    proof (cases x)
      case (Inl e)
      with 1(2) True a r1 show ?thesis by (subst (asm) await_ready.simps) simp
    next
      case (Inr p)
      obtain lv wt' where p: "p = (lv, wt')" by (cases p)
      show ?thesis
      proof (cases lv)
        case (Some l)
        with 1(2) True a r1 Inr p show ?thesis by (subst (asm) await_ready.simps) simp
      next
        case None
        with 1(2) True a Inr p have "await_ready E r h port pw d wt' s1 = (res, t)"
          by (subst (asm) await_ready.simps) simp
        from 1(1)[OF True a[symmetric] Inr p[symmetric] None this] r1 show ?thesis by (rule rel_trans[rotated])
      qed
    qed
  qed
qed

lemma stays_readiness [stay_rules]: "stays (await_readiness E r h port pw)"
  unfolding await_readiness_def by (rule staysI) (rule await_ready_rel)

lemma stays_graceful_stop [stay_rules]: "stays (attempt_graceful_stop E w)"
  unfolding attempt_graceful_stop_def stop_by_stdin_def stop_by_terminate_def by (intro stay_rules)

end

locale driver_calls = request_law rel
  for rel :: "world_sys \<Rightarrow> world_sys \<Rightarrow> bool" +
  assumes created: "create_with_replay u now req OS_QUEUED allow (ws_ops s) = Inr (x, ws_ops t) \<Longrightarrow>
        ws_calls t = ws_calls s \<Longrightarrow> ws_tree t = ws_tree s \<Longrightarrow> rel s t"
    and moved: "transition u now i st ti (ws_ops s) = Inr (r, ws_ops t) \<Longrightarrow> ws_calls t = ws_calls s \<Longrightarrow>
        ws_tree t = ws_tree s \<Longrightarrow> rel s t"
    and claimed: "claim_queued now i (ws_ops s) = (c', ws_ops t) \<Longrightarrow> ws_calls t = ws_calls s \<Longrightarrow>
        ws_tree t = ws_tree s \<Longrightarrow> rel s t"
    and recorded: "ws_ops t = (ws_ops s)\<lparr>os_store := (ws_store s)\<lparr>runtime_sessions := rs\<rparr>\<rparr> \<Longrightarrow>
        ws_calls t = ws_calls s \<Longrightarrow> ws_tree t = ws_tree s \<Longrightarrow> rel s t"
    and audited: "audit_write i now a (ws_store s) = Some st' \<Longrightarrow> ai_operation a = None \<Longrightarrow>
        ws_ops t = (ws_ops s)\<lparr>os_store := st'\<rparr> \<Longrightarrow> ws_calls t = ws_calls s \<Longrightarrow>
        ws_tree t = ws_tree s \<Longrightarrow> rel s t"
    and world_set: "intent \<in> {ORDINARY, EULA_ACCEPTANCE} \<Longrightarrow> set_world_state E w new intent s = (q, t) \<Longrightarrow> rel s t"
begin

lemma stays_create_op [stay_rules]: "stays (create_op E req allow)"
  by (rule staysI) (auto simp: create_op_def op_call_def tick_def split: sum.splits intro: quiet created)

lemma stays_move_op [stay_rules]: "stays (move_op E i st ti)"
  by (rule staysI) (auto simp: move_op_def op_call_def tick_def split: sum.splits intro: quiet moved)

lemma stays_claim [stay_rules]: "stays (claim_call E i)"
  by (rule staysI) (auto simp: claim_call_def tick_def split: prod.splits intro: claimed)

lemma stays_fail_op [stay_rules]: "stays (fail_op E i code m)"
  unfolding fail_op_def by (intro stay_rules)

lemma stays_put [stay_rules]: "stays (put_state E w new)"
  by (rule staysI) (auto intro: world_set[of ORDINARY])

lemma stays_accept [stay_rules]: "stays (set_world_state E w new EULA_ACCEPTANCE)"
  by (rule staysI) (auto intro: world_set[of EULA_ACCEPTANCE])

lemma stays_open_session [stay_rules]: "stays (open_session E w x h argv port pw sid)"
proof (rule staysI)
  fix s r t
  assume "open_session E w x h argv port pw sid s = (r, t)"
  then show "rel s t"
    by (auto simp: open_session_def insert_session_def Let_def tick_def split: if_splits option.splits
        intro: quiet recorded)
qed

lemma stays_close_session [stay_rules]: "stays (close_session E w reason)"
  by (rule staysI) (auto simp: close_session_def Let_def tick_def intro: recorded)

lemma stays_eula_audit [stay_rules]: "stays (write_eula_audit E w user ip)"
  by (rule staysI) (auto simp: write_eula_audit_def audit_call_def tick_def eula_audit_def split: option.splits
      intro: quiet audited)

section \<open>The services keep it\<close>

lemma stays_precheck [stay_rules]: "stays (precheck_start E w)"
  unfolding precheck_start_def by (intro stay_rules)

lemma stays_bring_up [stay_rules]: "stays (bring_up E oid r x port pw sid h)"
  unfolding bring_up_def by (intro stay_rules)

lemma stays_start_refused [stay_rules]: "stays (start_refused E w oid g)"
  unfolding start_refused_def by (intro stay_rules)

lemma stays_start_failed [stay_rules]: "stays (start_failed E w oid e)"
  unfolding start_failed_def by (cases e) (simp_all, (intro stay_rules)+)

lemma stays_op_for [stay_rules]: "stays (op_for E req allow oid)"
  unfolding op_for_def by (intro stay_rules)

lemma stays_ladder_failed [stay_rules]: "stays (ladder_failed E code oid e)"
  unfolding ladder_failed_def by (intro stay_rules)

lemma stays_stop [stay_rules]: "stays (stop E w actor user oid)"
  unfolding stop_def stop_body_def by (intro stay_rules)

lemma stays_kill [stay_rules]: "stays (kill E w actor user oid)"
  unfolding kill_def kill_body_def by (intro stay_rules)

lemma stays_enqueue:
  "stays (enqueue_start E w actor user key)" "stays (enqueue_stop E w actor user key)"
  "stays (enqueue_kill E w actor user key)"
  unfolding enqueue_start_def enqueue_stop_def enqueue_kill_def by (intro stay_rules)+

lemma stays_record_crash [stay_rules]: "stays (record_crash E w)"
  unfolding record_crash_def by (intro stay_rules)

lemma stays_crashed [stay_rules]: "stays (crashed_world E w)"
  unfolding crashed_world_def by (intro stay_rules)

lemma stays_poll_running: "stays (poll_running E)"
  unfolding poll_running_def poll_session_def process_up_def by (intro stay_rules)

lemma stays_settle [stay_rules]: "stays (settle_state E r)"
  unfolding settle_state_def by (cases "wo_state r") (simp_all, (intro stay_rules)+)

lemma stays_fail_interrupted [stay_rules]: "stays (fail_interrupted_start E oid w)"
  unfolding fail_interrupted_start_def by (intro stay_rules)

lemma stays_reconcile: "stays (reconcile E)"
  unfolding reconcile_def reconcile_session_def fail_leftover_def Let_def by (intro stay_rules)

end

locale spawning_calls = driver_calls +
  assumes spawned: "ws_ops t = ws_ops s \<Longrightarrow> ws_calls t = ws_calls s @ [Spawn q] \<Longrightarrow>
        ws_tree t = ws_tree s \<Longrightarrow> rel s t"
begin

lemma stays_spawn [stay_rules]: "stays (ask E f err (Spawn q))"
  by (rule stays_ask_any) (rule spawned)

lemma stays_launch_process [stay_rules]: "stays (launch_process E oid r x port pw)"
  unfolding launch_process_def by (intro stay_rules)

end

locale driver_law = spawning_calls +
  assumes edited: "ws_ops t = ws_ops s \<Longrightarrow> ws_calls t = ws_calls s \<Longrightarrow> rel s t"
begin

lemma stays_provision [stay_rules]: "stays (provision_rcon E x)"
  by (rule staysI) (auto simp: provision_rcon_def Let_def tick_def split: prod.splits intro: edited)

lemma stays_write_eula [stay_rules]: "stays (write_eula r user)"
  by (rule staysI) (auto simp: write_eula_def split: option.splits intro: edited)

lemma stays_eula_body [stay_rules]: "stays (eula_body E r user ip oid)"
  unfolding eula_body_def by (intro stay_rules)

lemma stays_accept_eula: "stays (accept_eula E w user accepted ip)"
  unfolding accept_eula_def eula_failed_def by (intro stay_rules)

lemma stays_launch [stay_rules]: "stays (launch_world E oid r x)"
  unfolding launch_world_def by (intro stay_rules)

lemma stays_start_body [stay_rules]: "stays (start_body E w oid)"
  unfolding start_body_def start_gated_def by (intro stay_rules)

lemma stays_start [stay_rules]: "stays (start E w actor user allow oid)"
  unfolding start_def by (intro stay_rules)

lemma stays_run_claimed [stay_rules]: "stays (run_claimed E r)"
  unfolding run_claimed_def by (intro stay_rules)

lemma stays_dispatch_failed [stay_rules]: "stays (dispatch_failed E i e)"
  unfolding dispatch_failed_def by (intro stay_rules)

lemma stays_dispatch_one [stay_rules]: "stays (dispatch_one E q)"
  unfolding dispatch_one_def by (intro stay_rules)

lemma stays_dispatch_loop [stay_rules]: "stays (dispatch_loop E seen qs)"
  by (induction qs arbitrary: seen) (simp_all add: stays_ret, (intro stay_rules, assumption?)+)

lemma stays_dispatch: "stays (dispatch_lifecycle E)"
  unfolding dispatch_lifecycle_def by (intro stay_rules)

end

section \<open>Two laws\<close>

interpretation lc: driver_law moves
proof
  fix s t :: world_sys and E w new intent q
  assume "intent \<in> {ORDINARY, EULA_ACCEPTANCE}" "set_world_state E w new intent s = (q, t)"
  then show "moves s t" by (rule set_state_moves)
next
  fix s t :: world_sys and i now a st'
  assume "audit_write i now a (ws_store s) = Some st'" "ws_ops t = (ws_ops s)\<lparr>os_store := st'\<rparr>"
  then show "moves s t" by (intro moves_same) (auto dest!: audit_write_Some)
next
  fix s t :: world_sys and u now req allow x
  assume "create_with_replay u now req OS_QUEUED allow (ws_ops s) = Inr (x, ws_ops t)"
  then show "moves s t" by (intro moves_frame) (rule create_with_replay_keeps)
next
  fix s t :: world_sys and u now i st ti r
  assume "transition u now i st ti (ws_ops s) = Inr (r, ws_ops t)"
  then show "moves s t" by (intro moves_frame) (rule transition_keeps)
next
  fix s t :: world_sys and now i c
  assume "claim_queued now i (ws_ops s) = (c, ws_ops t)"
  then show "moves s t" using claim_keeps[of "ws_ops s" now i] by (intro moves_frame) simp
qed (auto intro!: moves_same)

text \<open>What no call of the driver touches but the writes of \<open>server.properties\<close> and \<open>eula.txt\<close>: the tree of
  files, the artifacts and the users.\<close>

definition archives_kept :: "world_sys \<Rightarrow> world_sys \<Rightarrow> bool" where
  "archives_kept s t \<longleftrightarrow> ws_tree t = ws_tree s \<and> artifacts (ws_store t) = artifacts (ws_store s) \<and>
     users (ws_store t) = users (ws_store s)"

lemma archives_frame: "ws_tree t = ws_tree s \<Longrightarrow> store_frame (ws_store s) (ws_store t) \<Longrightarrow> archives_kept s t"
  by (simp add: archives_kept_def store_frame_def)

lemma set_state_archives: "set_world_state E w new intent s = (q, t) \<Longrightarrow> archives_kept s t"
  by (auto simp: archives_kept_def set_world_state_def Let_def tick_def split: option.splits sum.splits if_splits)

interpretation fl: spawning_calls archives_kept
proof
  fix s t :: world_sys and E w new intent q
  assume "set_world_state E w new intent s = (q, t)"
  then show "archives_kept s t" by (rule set_state_archives)
next
  fix s t :: world_sys and i now a st'
  assume "audit_write i now a (ws_store s) = Some st'" "ws_tree t = ws_tree s" "ws_ops t = (ws_ops s)\<lparr>os_store := st'\<rparr>"
  then show "archives_kept s t" by (auto simp: archives_kept_def dest!: audit_write_Some)
next
  fix s t :: world_sys and u now req allow x
  assume "create_with_replay u now req OS_QUEUED allow (ws_ops s) = Inr (x, ws_ops t)" "ws_tree t = ws_tree s"
  then show "archives_kept s t" by (intro archives_frame) (auto dest: create_with_replay_keeps)
next
  fix s t :: world_sys and u now i st ti r
  assume "transition u now i st ti (ws_ops s) = Inr (r, ws_ops t)" "ws_tree t = ws_tree s"
  then show "archives_kept s t" by (intro archives_frame) (auto dest: transition_keeps)
next
  fix s t :: world_sys and now i c
  assume "claim_queued now i (ws_ops s) = (c, ws_ops t)" "ws_tree t = ws_tree s"
  then show "archives_kept s t" using claim_keeps[of "ws_ops s" now i] by (intro archives_frame) simp_all
qed (auto simp: archives_kept_def)

text \<open>The books of the engine: rows only evolve, and audit records and notifications match them.\<close>

definition books_kept :: "world_sys \<Rightarrow> world_sys \<Rightarrow> bool" where
  "books_kept s t \<longleftrightarrow> (books_ok (ws_store s) \<longrightarrow>
     books_ok (ws_store t) \<and> rows_evolve (operations (ws_store s)) (operations (ws_store t)))"

lemma books_kept_same:
  assumes "operations (ws_store t) = operations (ws_store s)" and "audits (ws_store t) = audits (ws_store s)"
    and "notifications (ws_store t) = notifications (ws_store s)"
  shows "books_kept s t"
  using assms by (simp add: books_kept_def books_ok_def)

lemma books_kept_step:
  assumes "op_step (ws_ops s) a = Some (ws_ops t)"
  shows "books_kept s t"
  using op_step_books[OF _ assms] op_step_ops[OF assms] by (auto simp: books_kept_def books_ok_def)

lemma set_state_books:
  assumes "set_world_state E w new intent s = (q, t)"
  shows "books_kept s t"
  using assms by (intro books_kept_same)
    (auto simp: set_world_state_def Let_def tick_def split: option.splits sum.splits if_splits)

interpretation bk: driver_law books_kept
proof
  fix s t u :: world_sys
  show "books_kept s s" by (simp add: books_kept_def)
  assume "books_kept s t" "books_kept t u"
  then show "books_kept s u" by (auto simp: books_kept_def intro: rows_evolve_trans)
next
  fix s t :: world_sys and i now a st'
  assume a: "audit_write i now a (ws_store s) = Some st'" "ai_operation a = None"
    "ws_ops t = (ws_ops s)\<lparr>os_store := st'\<rparr>"
  then obtain r where "st' = (ws_store s)\<lparr>audits := audits (ws_store s) @ [r]\<rparr>" "au_operation r = None"
    by (auto dest!: audit_write_Some)
  with a(3) show "books_kept s t" by (simp add: books_kept_def books_ok_def op_audit_count_def op_audit_def)
next
  fix s t :: world_sys and E w new intent q
  assume "set_world_state E w new intent s = (q, t)"
  then show "books_kept s t" by (rule set_state_books)
next
  fix s t :: world_sys and u now req allow x
  assume "create_with_replay u now req OS_QUEUED allow (ws_ops s) = Inr (x, ws_ops t)"
  then show "books_kept s t" by (intro books_kept_step[of _ "DoCreate u now req OS_QUEUED allow"]) simp
next
  fix s t :: world_sys and u now i st ti r
  assume "transition u now i st ti (ws_ops s) = Inr (r, ws_ops t)"
  then show "books_kept s t" by (intro books_kept_step[of _ "DoMove u now i st ti"]) simp
next
  fix s t :: world_sys and now i c
  assume "claim_queued now i (ws_ops s) = (c, ws_ops t)"
  then show "books_kept s t" by (intro books_kept_step[of _ "DoClaim now i"]) simp
qed (auto intro!: books_kept_same)

section \<open>Any sequence of calls\<close>

text \<open>What clients, the scheduler and the supervisor call on the driver.\<close>

datatype driver_action =
    EnqueueStart string ActorType "string option" string
  | EnqueueStop string ActorType "string option" string
  | EnqueueKill string ActorType "string option" string
  | Start string ActorType "string option" bool "string option"
  | Stop string ActorType "string option" "string option"
  | Kill string ActorType "string option" "string option"
  | AcceptEulaOf string string bool "string option"
  | PollRunning
  | Reconcile
  | DispatchLifecycle

fun driver_step :: "world_env \<Rightarrow> driver_action \<Rightarrow> world_sys \<Rightarrow> world_sys" where
  "driver_step E (EnqueueStart w a u k) s = snd (enqueue_start E w a u k s)"
| "driver_step E (EnqueueStop w a u k) s = snd (enqueue_stop E w a u k s)"
| "driver_step E (EnqueueKill w a u k) s = snd (enqueue_kill E w a u k s)"
| "driver_step E (Start w a u c i) s = snd (start E w a u c i s)"
| "driver_step E (Stop w a u i) s = snd (stop E w a u i s)"
| "driver_step E (Kill w a u i) s = snd (kill E w a u i s)"
| "driver_step E (AcceptEulaOf w u b ip) s = snd (accept_eula E w u b ip s)"
| "driver_step E PollRunning s = snd (poll_running E s)"
| "driver_step E Reconcile s = snd (reconcile E s)"
| "driver_step E DispatchLifecycle s = snd (dispatch_lifecycle E s)"

definition driver_run :: "world_env \<Rightarrow> driver_action list \<Rightarrow> world_sys \<Rightarrow> world_sys" where
  "driver_run E as s = fold (driver_step E) as s"

context driver_law
begin

lemma driver_step_rel: "rel s (driver_step E a s)"
proof -
  have *: "stays m \<Longrightarrow> rel s (snd (m s))" for m :: "'x world_run" by (simp add: stays_def)
  show ?thesis
    by (cases a) (simp_all add: * stays_enqueue stays_start stays_stop stays_kill stays_accept_eula
        stays_poll_running stays_reconcile stays_dispatch)
qed

lemma driver_run_rel: "rel s (driver_run E as s)"
  unfolding driver_run_def
proof (induction as arbitrary: s)
  case (Cons a as)
  from driver_step_rel[of s E a] Cons.IH[of "driver_step E a s"] show ?case by (auto intro: rel_trans)
qed (simp add: rel_refl)

end

lemma driver_edge_stuck: "driver_edge old new \<Longrightarrow> old = WS_CRASHED \<or> old = WS_ERROR \<Longrightarrow> new = old"
  by (auto simp: driver_edge_def required_intent_def)

lemma driver_path_stuck: "driver_path old new \<Longrightarrow> old = WS_CRASHED \<or> old = WS_ERROR \<Longrightarrow> new = old"
  unfolding driver_path_def by (induction rule: rtranclp_induct) (auto dest: driver_edge_stuck)

text \<open>
  C6: whatever is called on the driver, each world keeps everything but its state, its
  pre-backup state and its time of update, and its state moves only along the transitions of the
  lifecycle, never past the acknowledgement that leaving \<open>crashed\<close> or \<open>error\<close> asks for.
\<close>
theorem driver_follows_lifecycle:
  assumes "find_world w (ws_store s) = Some r"
  shows "\<exists>r'. find_world w (ws_store (driver_run E as s)) = Some r' \<and>
     driver_edge\<^sup>*\<^sup>* (wo_state r) (wo_state r') \<and>
     r' = r\<lparr>wo_state := wo_state r', wo_pre_backup := wo_pre_backup r', wo_updated_at := wo_updated_at r'\<rparr>"
proof -
  obtain r' where "find_world w (ws_store (driver_run E as s)) = Some r'" "world_moved r r'"
    using movesD[OF lc.driver_run_rel assms] by blast
  then show ?thesis by (auto simp: world_moved_def driver_path_def)
qed

text \<open>
  A world that has crashed or failed stays so: no call of the driver, a start included, ever
  takes it out of \<open>crashed\<close> or \<open>error\<close>, and the service has no call that acknowledges them.
\<close>
lemma crashed_worlds_stay_crashed:
  assumes "find_world w (ws_store s) = Some r" and "wo_state r = WS_CRASHED \<or> wo_state r = WS_ERROR"
  shows "map_option wo_state (find_world w (ws_store (driver_run E as s))) = Some (wo_state r)"
proof -
  obtain r' where "find_world w (ws_store (driver_run E as s)) = Some r'" "world_moved r r'"
    using movesD[OF lc.driver_run_rel assms(1)] by blast
  then show ?thesis using driver_path_stuck[OF _ assms(2)] by (auto simp: world_moved_def)
qed

text \<open>
  C7: the books of the engine hold under the driver.  From a store whose books are in order,
  after any calls of the driver every operation that existed is still there with its identity,
  one that had ended is unchanged, every ended operation has exactly one operation audit record,
  and none has two notifications.
\<close>
theorem driver_keeps_books:
  assumes "books_ok (ws_store s)"
  shows "books_ok (ws_store (driver_run E as s)) \<and>
     rows_evolve (operations (ws_store s)) (operations (ws_store (driver_run E as s)))"
  using bk.driver_run_rel[of s E as] assms by (simp add: books_kept_def)

end
