(* ===== verification/Worlds_Props.thy ===== *)
theory Worlds_Props
  imports Worlds_Laws "HOL-Library.Sublist"
begin

text \<open>
  What starts, stops, kills, polls, reconciliations and dispatches of the world driver achieve.
  The first lemmas say what the single calls return; the log and the clock are followed with
  further instances of \<open>state_order\<close> and \<open>driver_calls\<close>.
\<close>

section \<open>Calls that succeed\<close>

lemma world_of_Inr: "world_of w s = (Inr r, t) \<longleftrightarrow> find_world w (ws_store s) = Some r \<and> t = s"
  by (auto simp: world_of_def run_simps)

lemma ask_Inr: "ask E f err c s = (Inr x, t) \<longleftrightarrow>
    f (ws_tick s) = Inr x \<and> t = (tick E s)\<lparr>ws_calls := ws_calls s @ [c]\<rparr>"
  by (auto simp: ask_def split: sum.splits)

lemma ask_Inl: "ask E f err c s = (Inl e, t) \<longleftrightarrow>
    (\<exists>m. f (ws_tick s) = Inl m \<and> e = err m) \<and> t = (tick E s)\<lparr>ws_calls := ws_calls s @ [c]\<rparr>"
  by (auto simp: ask_def split: sum.splits)

lemma tell_Inr: "tell E c s = (r, t) \<longleftrightarrow> r = Inr () \<and> t = (tick E s)\<lparr>ws_calls := ws_calls s @ [c]\<rparr>"
  by (auto simp: tell_def ask_def)

lemma tick_simps [simp]:
  "ws_ops (tick E s) = ws_ops s" "ws_tables (tick E s) = ws_tables s" "ws_javas (tick E s) = ws_javas s"
  "ws_files (tick E s) = ws_files s" "ws_dirs (tick E s) = ws_dirs s" "ws_calls (tick E s) = ws_calls s"
  "ws_secrets (tick E s) = ws_secrets s" "ws_tree (tick E s) = ws_tree s"
  by (simp_all add: tick_def ws_files_def ws_dirs_def fun_eq_iff)

lemma launch_context_Inr:
  assumes "launch_context E w s = (Inr x, t)"
  shows "t = tick E s \<and> lx_dir x = world_dir w s \<and> lx_port x = wo_port w \<and> lx_world x = wo_id w \<and>
     lx_rcon_port x = wo_port w + 10"
  using assms by (auto simp: launch_context_def Let_def rcon_port_offset_def split: option.splits)

lemma driver_gate_result:
  "driver_gate E w x s = (Inr g, t) \<Longrightarrow> gr_passed g \<Longrightarrow>
     t = tick E s \<and> current_state (ws_files s) (lx_dir x) = ACCEPTED \<and> eula_audited (wo_id w) (ws_store s) \<and>
     gr_passed (Minecraft.validate_launch (env_of E s) x)"
  by (auto simp: driver_gate_def Let_def gate_fail_def split: if_splits)

lemma driver_gate_tick: "driver_gate E w x s = (r, t) \<Longrightarrow> t = tick E s"
  by (simp add: driver_gate_def Let_def)

lemma world_dir_tables: "ws_tables s = ws_tables t \<Longrightarrow> world_dir w s = world_dir w t"
  by (simp add: world_dir_def effective_of_def resolve_effective_def resolve_global_def resolve_world_def)

lemma precheck_Inr:
  assumes "precheck_start E w s = (Inr u, t)"
  shows "\<exists>r. find_world w (ws_store s) = Some r \<and> \<not> busy (wo_state r) \<and>
     current_state (ws_files s) (world_dir r s) = ACCEPTED \<and> eula_audited w (ws_store s) \<and> t = tick E (tick E s)"
proof -
  obtain r x g s1 s2 where *: "find_world w (ws_store s) = Some r" "\<not> busy (wo_state r)"
    "launch_context E r s = (Inr x, s1)" "driver_gate E r x s1 = (Inr g, s2)" "gr_passed g" "t = s2"
    using assms by (auto simp: precheck_start_def run_simps world_of_Inr split: if_splits)
  have "wo_id r = w" using *(1) by (auto simp: find_world_def dest: find_row_SomeD)
  with launch_context_Inr[OF *(3)] driver_gate_result[OF *(4,5)] * show ?thesis by auto
qed

section \<open>No spawn past the gate\<close>

definition spawns :: "world_sys \<Rightarrow> world_call list" where
  "spawns s = filter is_spawn (ws_calls s)"

text \<open>Nothing is spawned and no file is touched.\<close>

definition held :: "world_sys \<Rightarrow> world_sys \<Rightarrow> bool" where
  "held s t \<longleftrightarrow> spawns t = spawns s \<and> ws_tree t = ws_tree s"

interpretation sp: driver_calls held
proof
  fix s t E w new intent q
  assume "set_world_state E w new intent s = (q, t)"
  then show "held s t"
    by (auto simp: set_world_state_def Let_def spawns_def held_def split: option.splits sum.splits)
qed (auto simp: spawns_def held_def)

text \<open>What a start may have changed before its second gate: operation rows, audit records,
  notifications, but neither worlds nor files nor settings, and no acceptance is recorded.\<close>

definition pre_launch :: "world_sys \<Rightarrow> world_sys \<Rightarrow> bool" where
  "pre_launch s t \<longleftrightarrow> store_frame (ws_store s) (ws_store t) \<and> ws_tree t = ws_tree s \<and>
     ws_tables t = ws_tables s \<and> ws_javas t = ws_javas s"

lemma pre_launch_refl: "pre_launch s s"
  by (simp add: pre_launch_def)

lemma pre_launch_files: "pre_launch s t \<Longrightarrow> ws_files t = ws_files s \<and> ws_dirs t = ws_dirs s"
  by (auto simp: pre_launch_def ws_files_def ws_dirs_def fun_eq_iff)

lemma pre_launch_tick: "pre_launch s t \<Longrightarrow> pre_launch s (tick E t)"
  by (simp add: pre_launch_def)

lemma pre_launch_trans: "pre_launch s t \<Longrightarrow> pre_launch t u \<Longrightarrow> pre_launch s u"
  by (auto simp: pre_launch_def intro: store_frame_trans)

lemma create_op_pre: "create_op E req allow s = (r, t) \<Longrightarrow> pre_launch s t"
  by (auto simp: create_op_def op_call_def pre_launch_def tick_def split: sum.splits
      dest!: create_with_replay_keeps)

lemma move_op_pre: "move_op E i st ti s = (r, t) \<Longrightarrow> pre_launch s t"
  by (auto simp: move_op_def op_call_def pre_launch_def tick_def split: sum.splits dest!: transition_keeps)

lemma op_for_pre: "op_for E req allow oid s = (r, t) \<Longrightarrow> pre_launch s t"
  by (auto simp: op_for_def pre_launch_refl ret_def bind_run_def split: option.splits sum.splits prod.splits
      dest!: create_op_pre)

text \<open>Every spawn is one that \<open>Q\<close> allows.\<close>

interpretation sq: driver_calls "\<lambda>s t. \<exists>new. spawns t = spawns s @ new \<and> (\<forall>c\<in>set new. Q c)" for Q
proof
  fix s t u
  show "\<exists>new. spawns s = spawns s @ new \<and> (\<forall>c\<in>set new. Q c)" by simp
  assume "\<exists>new. spawns t = spawns s @ new \<and> (\<forall>c\<in>set new. Q c)"
    "\<exists>new. spawns u = spawns t @ new \<and> (\<forall>c\<in>set new. Q c)"
  then show "\<exists>new. spawns u = spawns s @ new \<and> (\<forall>c\<in>set new. Q c)" by fastforce
next
  fix s t E w new intent q
  assume "set_world_state E w new intent s = (q, t)"
  then have "spawns t = spawns s"
    by (auto simp: set_world_state_def Let_def spawns_def split: option.splits sum.splits)
  then show "\<exists>new. spawns t = spawns s @ new \<and> (\<forall>c\<in>set new. Q c)" by simp
qed (auto simp: spawns_def)

lemma launch_world_spawns:
  assumes "\<And>sid logs. Q (Spawn (spawn_request r x sid logs))"
  shows "sq.stays Q (launch_world E oid r x)"
proof -
  have sp: "sq.stays Q (ask E f err (Spawn (spawn_request r x sid logs)))" for f :: "nat \<Rightarrow> string + SpawnResult" and err sid logs
    by (rule sq.stays_ask_any) (use assms in \<open>auto simp: spawns_def\<close>)
  have pr: "sq.stays Q (provision_rcon E x)"
    by (rule sq.staysI) (auto simp: provision_rcon_def Let_def spawns_def split: prod.splits)
  show ?thesis unfolding launch_world_def launch_process_def by (intro stay_rules sp pr)
qed

text \<open>A start that returns, spawns or touches a file has come as far as the launch.\<close>

definition gave_up :: "world_sys \<Rightarrow> (world_error + string) \<times> world_sys \<Rightarrow> bool" where
  "gave_up s q \<longleftrightarrow> held s (snd q) \<and> (\<exists>e. fst q = Inl e)"

lemma gave_up_after: "held s s1 \<Longrightarrow> gave_up s1 q \<Longrightarrow> gave_up s q"
  by (auto simp: gave_up_def held_def)

lemma gave_up_stays: "sp.stays m \<Longrightarrow> m s = (Inl e, t) \<Longrightarrow> gave_up s (Inl e, t)"
  by (auto simp: gave_up_def dest: sp.staysD)

lemma start_raises:
  "start_refused E w oid g s \<noteq> (Inr v, t)" "start_failed E w oid e s \<noteq> (Inr v, t)"
  by (simp add: start_refused_def run_simps, cases e) (simp_all add: start_failed_def run_simps)

lemma start_gated_busy: "busy (wo_state r) \<Longrightarrow> start_gated E w oid r s = q \<Longrightarrow> gave_up s q"
proof -
  assume b: "busy (wo_state r)" and q: "start_gated E w oid r s = q"
  have "sp.stays (start_gated E w oid r)" unfolding start_gated_def using b by (simp, intro stay_rules)
  moreover have "start_gated E w oid r s \<noteq> (Inr v, t)" for v t using b by (simp add: start_gated_def run_simps)
  ultimately show "gave_up s q" using q by (cases q; cases "fst q") (auto simp: gave_up_def dest: sp.staysD)
qed

lemma start_body_launch:
  assumes "start_body E w oid s = (res, t)" and "\<not> gave_up s (res, t)"
  obtains r x s1 g s2 where "find_world w (ws_store s) = Some r" "\<not> busy (wo_state r)" "pre_launch s s1"
    "held s s2" "lx_dir x = world_dir r s" "lx_port x = wo_port r" "lx_rcon_port x = wo_port r + 10"
    "driver_gate E r x s1 = (Inr g, s2)" "gr_passed g" "launch_world E oid r x s2 = (res, t)"
proof -
  obtain y s1 where m: "move_op E oid OS_RUNNING (staged [(''stage'', JStr ''validating'')]) s = (Inr y, s1)"
    and k: "bind_run (world_of w) (start_gated E w oid) s1 = (res, t)"
    using assms(1) unfolding start_body_def
    by (rule bind_run_cases) (use assms(2) gave_up_stays[OF sp.stays_move_op] in auto)
  note h1 = sp.staysD[OF sp.stays_move_op m] and p1 = move_op_pre[OF m]
  obtain r where r: "find_world w (ws_store s1) = Some r" and g: "start_gated E w oid r s1 = (res, t)"
    using k by (rule bind_run_cases) (use assms(2) gave_up_after[OF h1] gave_up_stays[OF sp.stays_world_of] in \<open>auto simp: world_of_Inr\<close>)
  have nb: "\<not> busy (wo_state r)" using start_gated_busy[OF _ g] gave_up_after[OF h1] assms(2) by blast
  obtain x s2 where x: "launch_context E r s1 = (Inr x, s2)"
    and g2: "bind_run (driver_gate E r x) (\<lambda>g. if gr_passed g then launch_world E oid r x else start_refused E w oid g) s2 = (res, t)"
    using g[unfolded start_gated_def] nb assms(2) gave_up_after[OF h1] gave_up_stays[OF sp.stays_launch_context]
    by (simp, elim bind_run_cases[of "launch_context E r"]) auto
  note xs = launch_context_Inr[OF x]
  have h2: "held s s2" using h1 xs by (simp add: held_def spawns_def)
  obtain gr s3 where gr: "driver_gate E r x s2 = (Inr gr, s3)"
    and g3: "(if gr_passed gr then launch_world E oid r x else start_refused E w oid gr) s3 = (res, t)"
    using g2 by (rule bind_run_cases) (use assms(2) gave_up_after[OF h2] gave_up_stays[OF sp.stays_driver_gate] in auto)
  have s3: "s3 = tick E s2" by (rule driver_gate_tick[OF gr])
  have h3: "held s s3" using h2 s3 by (simp add: held_def spawns_def)
  have ps: "gr_passed gr"
  proof (rule ccontr)
    assume "\<not> gr_passed gr"
    with g3 have f: "start_refused E w oid gr s3 = (res, t)" by simp
    with start_raises(1) obtain e where "res = Inl e" by (cases res) auto
    with gave_up_stays[OF sp.stays_start_refused] gave_up_after[OF h3] f assms(2) show False by blast
  qed
  have "find_world w (ws_store s) = Some r" "world_dir r s1 = world_dir r s"
    using r p1 world_dir_tables[of s1 s r] by (auto simp: pre_launch_def find_world_def store_frame_def)
  then show thesis
    using that[of r s2 s3 x gr] nb p1 xs h3 gr ps g3 pre_launch_tick by simp
qed

lemma start_launch:
  assumes "start E w actor user allow oid s = (res, t)" and "\<not> gave_up s (res, t)"
  obtains i s1 res' t' where "precheck_start E w s = (Inr (), tick E (tick E s))" "pre_launch s s1"
    "held s s1" "start_body E w i s1 = (res', t')" "held t' t" "\<And>v. res = Inr v \<Longrightarrow> res' = Inr v \<and> t' = t"
    "\<not> gave_up s1 (res', t')"
proof -
  obtain u s0 where p: "precheck_start E w s = (Inr u, s0)"
    and k: "bind_run (op_for E (request_for START actor w user) allow oid)
      (\<lambda>i. try_run (start_body E w i) (start_failed E w i)) s0 = (res, t)"
    using assms(1) unfolding start_def
    by (rule bind_run_cases) (use assms(2) gave_up_stays[OF sp.stays_precheck] in auto)
  have s0: "s0 = tick E (tick E s)" using precheck_Inr[OF p] by blast
  have h0: "held s s0" by (rule sp.staysD[OF sp.stays_precheck p])
  obtain i s1 where o1: "op_for E (request_for START actor w user) allow oid s0 = (Inr i, s1)"
    and b: "try_run (start_body E w i) (start_failed E w i) s1 = (res, t)"
    using k by (rule bind_run_cases) (use assms(2) gave_up_after[OF h0] gave_up_stays[OF sp.stays_op_for] in auto)
  have h1: "held s s1" using h0 sp.staysD[OF sp.stays_op_for o1] by (simp add: held_def)
  obtain res' t' where body: "start_body E w i s1 = (res', t')" by (metis surj_pair)
  have end': "(case res' of Inl e \<Rightarrow> start_failed E w i e t' | Inr v \<Rightarrow> (Inr v, t')) = (res, t)"
    using b body by (simp add: try_run_def split: sum.splits)
  have h: "held t' t" using end' by (auto simp: sp.rel_refl split: sum.splits dest: sp.staysD[OF sp.stays_start_failed])
  have v: "res' = Inr v \<and> t' = t" if "res = Inr v" for v using end' that start_raises(2) by (auto split: sum.splits)
  have "\<not> gave_up s1 (res', t')"
  proof
    assume "gave_up s1 (res', t')"
    then have "held s t" "\<exists>e. res = Inl e" using h h1 v by (auto simp: gave_up_def held_def) (metis sum.exhaust Inl_Inr_False)
    then show False using assms(2) by (simp add: gave_up_def)
  qed
  moreover have "pre_launch s s1"
    using op_for_pre[OF o1] s0 pre_launch_tick pre_launch_refl pre_launch_trans by metis
  ultimately show thesis
    using that[of s1 i res' t'] p s0 body h1 h v by auto
qed

text \<open>
  C2: nothing is spawned past the gate. When a start asks the process adapter to spawn, the
  world exists and was not starting, running or stopping, its EULA file was accepted and the
  acceptance is on record, the launch gate passed on the files and directories of that moment,
  and what is spawned is the launch command of that world in the directory of that world.
\<close>
theorem no_spawn_past_the_gate:
  assumes "start E w actor user allow oid s = (res, t)" and "Spawn q \<in> set (spawns t)" and "Spawn q \<notin> set (spawns s)"
  shows "\<exists>r x n. find_world w (ws_store s) = Some r \<and> \<not> busy (wo_state r) \<and> eula_audited w (ws_store s) \<and>
     current_state (ws_files s) (world_dir r s) = ACCEPTED \<and>
     gr_passed (Minecraft.validate_launch \<lparr>le_files = ws_files s, le_isdir = ws_dirs s,
         le_bound = en_bound E n, le_run = en_java E n\<rparr> x) \<and>
     lx_dir x = world_dir r s \<and> lx_port x = wo_port r \<and>
     sp_world q = w \<and> sp_cwd q = world_dir r s \<and> sp_command q = launch_command r x"
proof -
  have ne: "\<not> gave_up s (res, t)" using assms(2,3) by (auto simp: gave_up_def held_def)
  obtain i s1 res' t' where p: "precheck_start E w s = (Inr (), tick E (tick E s))" and p1: "pre_launch s s1"
    and sp1: "held s s1" and b: "start_body E w i s1 = (res', t')" "held t' t" and ne': "\<not> gave_up s1 (res', t')"
    by (rule start_launch[OF assms(1) ne])
  obtain r0 where pre: "find_world w (ws_store s) = Some r0" "eula_audited w (ws_store s)" using precheck_Inr[OF p] by blast
  obtain r x s2 g s3 where r: "find_world w (ws_store s1) = Some r" "\<not> busy (wo_state r)" and p2: "pre_launch s1 s2"
    and sp3: "held s1 s3" and x: "lx_dir x = world_dir r s1" "lx_port x = wo_port r"
    and g: "driver_gate E r x s2 = (Inr g, s3)" "gr_passed g" and l: "launch_world E i r x s3 = (res', t')"
    by (rule start_body_launch[OF b(1) ne'])
  have "find_world w (ws_store s) = Some r" "world_dir r s1 = world_dir r s"
    using r p1 world_dir_tables[of s1 s r] by (auto simp: pre_launch_def find_world_def store_frame_def)
  moreover have "wo_id r = w" using r(1) by (auto simp: find_world_def dest: find_row_SomeD)
  moreover have f: "ws_files s2 = ws_files s" "ws_dirs s2 = ws_dirs s"
    using pre_launch_files[OF p1] pre_launch_files[OF p2] by simp_all
  then have "env_of E s2 = \<lparr>le_files = ws_files s, le_isdir = ws_dirs s,
      le_bound = en_bound E (ws_tick s2), le_run = en_java E (ws_tick s2)\<rparr>"
    by (simp add: env_of_def)
  moreover obtain new where "spawns t' = spawns s3 @ new"
    "\<forall>c\<in>set new. \<exists>sid logs. c = Spawn (spawn_request r x sid logs)"
    using sq.staysD[OF launch_world_spawns l, of "\<lambda>c. \<exists>sid logs. c = Spawn (spawn_request r x sid logs)"] by blast
  then obtain sid logs where "q = spawn_request r x sid logs"
    using assms(2,3) b(2) sp3 sp1 by (auto simp: held_def)
  ultimately show ?thesis
    using r(2) x pre(2) driver_gate_result[OF g] f
    by (intro exI[of _ r] exI[of _ x] exI[of _ "ws_tick s2"]) (simp add: spawn_request_def)
qed

section \<open>What a start does to the files\<close>

lemma launch_process_tree: "launch_process E oid r x port pw s = (res, t) \<Longrightarrow> ws_tree t = ws_tree s"
  using fl.staysD[OF fl.stays_launch_process] by (simp add: archives_kept_def)

lemma launch_world_tree:
  assumes "launch_world E oid r x s = (res, t)"
  shows "\<exists>pw ok. rewrite_properties (path_parts (lx_dir x)) (lx_rcon_port x) pw (ws_tree s) = (ok, ws_tree t) \<and>
     ((\<exists>v. res = Inr v) \<longrightarrow> ok)"
proof -
  obtain ok tr where rw: "rewrite_properties (path_parts (lx_dir x)) (lx_rcon_port x) (en_ids E (ws_tick s) 0) (ws_tree s) = (ok, tr)"
    by fastforce
  have "ws_tree t = tr \<and> ((\<exists>v. res = Inr v) \<longrightarrow> ok)"
    using assms rw unfolding launch_world_def
    by (cases ok) (auto simp: bind_run_def provision_rcon_def Let_def dest!: launch_process_tree)
  with rw show ?thesis by blast
qed

text \<open>A start leaves the tree alone, or rewrites \<open>server.properties\<close> in the directory of its world; one
  that succeeds has rewritten it.\<close>

lemma start_tree:
  assumes "start E w actor user allow oid s = (res, t)"
  shows "(ws_tree t = ws_tree s \<and> (\<exists>e. res = Inl e)) \<or>
     (\<exists>r pw ok. find_world w (ws_store s) = Some r \<and>
        rewrite_properties (path_parts (world_dir r s)) (wo_port r + 10) pw (ws_tree s) = (ok, ws_tree t) \<and>
        ((\<exists>v. res = Inr v) \<longrightarrow> ok))"
proof (cases "gave_up s (res, t)")
  case True
  then show ?thesis by (auto simp: gave_up_def held_def)
next
  case False
  obtain i s1 res' t' where p1: "pre_launch s s1" and h1: "held s s1" and b: "start_body E w i s1 = (res', t')" "held t' t"
    and v: "\<And>v. res = Inr v \<Longrightarrow> res' = Inr v \<and> t' = t" and ne': "\<not> gave_up s1 (res', t')"
    by (rule start_launch[OF assms False]) metis
  obtain r x s2 g s3 where r: "find_world w (ws_store s1) = Some r" and h3: "held s1 s3" and x: "lx_dir x = world_dir r s1"
    "lx_rcon_port x = wo_port r + 10" and l: "launch_world E i r x s3 = (res', t')"
    by (rule start_body_launch[OF b(1) ne'])
  have "find_world w (ws_store s) = Some r" "world_dir r s1 = world_dir r s"
    using r p1 world_dir_tables[of s1 s r] by (auto simp: pre_launch_def find_world_def store_frame_def)
  with launch_world_tree[OF l] x h1 h3 b(2) v show ?thesis by (fastforce simp: held_def)
qed

section \<open>Single writes\<close>

interpretation idle: request_law "\<lambda>s t. ws_ops t = ws_ops s"
  by unfold_locales auto

lemma find_op_transition:
  assumes "transition u now i st ti sys = Inr (r, sys')" and "st = OS_RUNNING \<or> terminal_status st"
  shows "find_op i (os_store sys') = Some r \<and> op_id r = i \<and> op_status r = st"
proof -
  obtain cur where cur: "find_op i (os_store sys) = Some cur"
    and e: "transition_effect now st ti cur r (os_store sys) (os_store sys')"
    by (rule transition_cases[OF assms(1)]) (use assms(2) in \<open>cases st; auto\<close>)
  obtain c where r: "r = transitioned_row now st ti c cur" using e by (auto simp: transition_effect_def)
  have ci: "op_id cur = i" using cur by (auto dest: find_op_SomeD)
  have ri: "op_id r = i" "op_status r = st" by (simp_all add: r transitioned_row_def ci)
  have ops: "operations (os_store sys') = update_rows (\<lambda>x. op_id x = i) (\<lambda>_. r) (operations (os_store sys))"
    using e ci by (simp add: transition_effect_def)
  have "find_op i (os_store sys') = map_option (\<lambda>x. if op_id x = i then r else x) (find_op i (os_store sys))"
    unfolding find_op_def ops by (rule find_row_update_rows_stable) (simp add: ri)
  with cur ci ri show ?thesis by simp
qed

lemma move_op_Inr:
  assumes "move_op E i st ti s = (Inr r, t)" and "st = OS_RUNNING \<or> terminal_status st"
  shows "find_op i (ws_store t) = Some r" and "op_status r = st" and "ws_calls t = ws_calls s"
    and "worlds (ws_store t) = worlds (ws_store s)" and "runtime_sessions (ws_store t) = runtime_sessions (ws_store s)"
proof -
  obtain ops where tr: "transition (en_ids E (ws_tick s)) (now_at E s) i st ti (ws_ops s) = Inr (r, ops)"
    and t: "t = (tick E s)\<lparr>ws_ops := ops\<rparr>"
    using assms(1) by (auto simp: move_op_def op_call_def split: sum.splits)
  show "find_op i (ws_store t) = Some r" "op_status r = st" using find_op_transition[OF tr assms(2)] t by simp_all
  show "ws_calls t = ws_calls s" by (simp add: t)
  show "worlds (ws_store t) = worlds (ws_store s)" "runtime_sessions (ws_store t) = runtime_sessions (ws_store s)"
    using transition_keeps[OF tr] by (simp_all add: t store_frame_def)
qed

lemma transition_checkpoint:
  "transition u now i st ti sys = Inr (r, sys') \<Longrightarrow> terminal_status st \<Longrightarrow> ti_checkpoint ti = Some c \<Longrightarrow>
     op_checkpoint r = Some c"
  by (auto simp: transition_def Let_def result_simps transitioned_row_def split: option.splits if_splits sum.splits)

lemma move_op_checkpoint:
  "move_op E i st ti s = (Inr r, t) \<Longrightarrow> terminal_status st \<Longrightarrow> ti_checkpoint ti = Some c \<Longrightarrow>
     op_checkpoint r = Some c"
  by (auto simp: move_op_def op_call_def split: sum.splits dest: transition_checkpoint)

lemma put_state_Inr:
  assumes "set_world_state E w new intent s = (Inr u, t)"
  shows "\<exists>r. find_world w (ws_store t) = Some r \<and> wo_state r = new" and "ws_calls t = ws_calls s"
    and "runtime_sessions (ws_store t) = runtime_sessions (ws_store s)"
    and "operations (ws_store t) = operations (ws_store s)"
    and "\<And>v. v \<noteq> w \<Longrightarrow> find_world v (ws_store t) = find_world v (ws_store s)"
proof -
  from assms obtain r w' where r: "find_world w (ws_store s) = Some r" and m: "moved_world r new (now_at E s) intent = Inr w'"
    by (auto simp: set_world_state_def Let_def split: option.splits sum.splits)
  have st: "wi_state w' = new"
    using m by (auto simp: moved_world_def transition_world_def result_simps split: sum.splits prod.splits option.splits)
  define f where "f = (\<lambda>x::world_row. x\<lparr>wo_state := wi_state w', wo_pre_backup := wi_pre_backup w', wo_updated_at := now_at E s\<rparr>)"
  have ws: "worlds (ws_store t) = update_rows (\<lambda>x. wo_id x = w) f (worlds (ws_store s))"
    using assms r m by (auto simp: set_world_state_def Let_def f_def)
  have look: "find_world v (ws_store t) = map_option (\<lambda>x. if wo_id x = w then f x else x) (find_world v (ws_store s))" for v
    unfolding find_world_def ws by (rule find_row_update_rows_stable) (simp add: f_def)
  have "wo_id r = w" using r by (auto simp: find_world_def dest: find_row_SomeD)
  with look[of w] r st show "\<exists>r. find_world w (ws_store t) = Some r \<and> wo_state r = new" by (simp add: f_def)
  show "find_world v (ws_store t) = find_world v (ws_store s)" if "v \<noteq> w" for v
    using that look[of v] by (cases "find_world v (ws_store s)") (auto simp: find_world_def dest: find_row_SomeD)
  show "ws_calls t = ws_calls s" "runtime_sessions (ws_store t) = runtime_sessions (ws_store s)"
    "operations (ws_store t) = operations (ws_store s)"
    using assms r m by (auto simp: set_world_state_def Let_def)
qed

definition sessions_closed :: "string \<Rightarrow> store \<Rightarrow> bool" where
  "sessions_closed w st \<longleftrightarrow> (\<forall>x\<in>set (runtime_sessions st). rs_world x = w \<longrightarrow> rs_ended_at x \<noteq> None)"

lemma sessions_closed_update:
  assumes "\<And>x. p x \<Longrightarrow> rs_world (f x) = rs_world x \<and> rs_ended_at (f x) \<noteq> None"
    and "w = v \<or> sessions_closed v st" and "\<And>x. rs_world x = w \<Longrightarrow> rs_ended_at x = None \<Longrightarrow> p x"
  shows "sessions_closed v (st\<lparr>runtime_sessions := update_rows p f (runtime_sessions st)\<rparr>)"
  unfolding sessions_closed_def
proof (intro ballI impI)
  fix x
  assume "x \<in> set (runtime_sessions (st\<lparr>runtime_sessions := update_rows p f (runtime_sessions st)\<rparr>))" "rs_world x = v"
  then consider y where "p y" "x = f y" | "x \<in> set (runtime_sessions st)" "\<not> p x"
    by (auto simp: in_update_rows)
  then show "rs_ended_at x \<noteq> None"
  proof cases
    case 2
    with assms(2,3) \<open>rs_world x = v\<close> show ?thesis by (auto simp: sessions_closed_def)
  qed (use assms(1) in simp)
qed

lemma close_session_Inr:
  assumes "close_session E w reason s = (r, t)"
  shows "r = Inr ()" and "ws_calls t = ws_calls s"
    and "worlds (ws_store t) = worlds (ws_store s)" and "operations (ws_store t) = operations (ws_store s)"
    and "sessions_closed w (ws_store t)"
    and "\<And>v. sessions_closed v (ws_store s) \<Longrightarrow> sessions_closed v (ws_store t)"
proof -
  define f where "f = (\<lambda>r::runtime_session_row. r\<lparr>rs_ended_at := Some (now_at E s), rs_end_reason := Some reason\<rparr>)"
  have t: "t = set_store ((ws_store s)\<lparr>runtime_sessions := update_rows (open_row w) f (runtime_sessions (ws_store s))\<rparr>) (tick E s)"
    and "r = Inr ()"
    using assms by (simp_all add: close_session_def Let_def f_def)
  then show "r = Inr ()" "ws_calls t = ws_calls s"
    "worlds (ws_store t) = worlds (ws_store s)" "operations (ws_store t) = operations (ws_store s)"
    by simp_all
  have "sessions_closed v ((ws_store s)\<lparr>runtime_sessions := update_rows (open_row w) f (runtime_sessions (ws_store s))\<rparr>)"
    if "w = v \<or> sessions_closed v (ws_store s)" for v
    by (rule sessions_closed_update[OF _ that]) (simp_all add: f_def open_row_def)
  then show "sessions_closed w (ws_store t)" "\<And>v. sessions_closed v (ws_store s) \<Longrightarrow> sessions_closed v (ws_store t)"
    by (simp_all add: t)
qed

lemma find_world_frame: "worlds st' = worlds st \<Longrightarrow> find_world w st' = find_world w st"
  by (simp add: find_world_def)

text \<open>A stop or kill that completes leaves the world off, its sessions closed and its operation
  completed.\<close>

definition ended_clean :: "string \<Rightarrow> string \<Rightarrow> store \<Rightarrow> bool" where
  "ended_clean w i st \<longleftrightarrow> (\<exists>r. find_world w st = Some r \<and> wo_state r = WS_OFF) \<and> sessions_closed w st \<and>
     (\<exists>o'. find_op i st = Some o' \<and> op_status o' = OS_COMPLETED)"

lemma put_off_and_complete:
  assumes "close_session E w reason s = (r, s1)" and "put_state E w WS_OFF s1 = (Inr u, s2)"
    and "move_op E i OS_COMPLETED ti s2 = (Inr o', t)"
  shows "ended_clean w i (ws_store t) \<and> ws_calls t = ws_calls s"
proof -
  have wt: "find_world w (ws_store t) = find_world w (ws_store s2)"
    by (rule find_world_frame) (rule move_op_Inr(4)[OF assms(3)], simp)
  have st: "sessions_closed w (ws_store t)"
    using close_session_Inr(5)[OF assms(1)] put_state_Inr(3)[OF assms(2)] move_op_Inr(5)[OF assms(3)]
    by (simp add: sessions_closed_def)
  show ?thesis
    unfolding ended_clean_def wt
    using put_state_Inr(1,2)[OF assms(2)] close_session_Inr(2)[OF assms(1)] move_op_Inr(1-3)[OF assms(3)] st by simp
qed

lemma ladder_never_returns: "ladder_failed E c j e x \<noteq> (Inr i, t)"
  by (auto simp: ladder_failed_def run_simps)

lemma op_for_calls: "op_for E req allow oid s = (r, t) \<Longrightarrow> ws_calls t = ws_calls s"
  by (auto simp: op_for_def ret_def bind_run_def create_op_def op_call_def split: option.splits sum.splits prod.splits)

lemma resolve_handle_Inr:
  "resolve_handle E w s = (Inr hd', t) \<longleftrightarrow> (\<exists>p. en_probe E (ws_tick s) = Inr p \<and>
     hd' = (if pr_found p then pr_handle p else None)) \<and> t = (tick E s)\<lparr>ws_calls := ws_calls s @ [Probe w [] None]\<rparr>"
  by (auto simp: resolve_handle_def run_simps ask_Inr)

text \<open>
  A kill is immediate. When it succeeds it has asked the process adapter for the handle of
  the world and, if there is one, for its termination with no grace, and nothing else; the world
  is off, its sessions are closed and the operation is completed.
\<close>
lemma kill_is_immediate:
  assumes "kill E w actor user oid s = (Inr i, t)"
  shows "ended_clean w i (ws_store t) \<and>
     (\<exists>p n. en_probe E n = Inr p \<and>
        ws_calls t = ws_calls s @ Probe w [] None #
          (case (if pr_found p then pr_handle p else None) of None \<Rightarrow> [] | Some h \<Rightarrow> [Terminate h 0]))"
proof -
  obtain r s0 j s1 where op: "op_for E (request_for KILL actor w user) False oid s = (Inr j, s1)"
    and k: "kill_body E w j s1 = (Inr i, t)"
    using assms by (auto simp: kill_def run_simps world_of_Inr try_run_Inr ladder_never_returns)
  note calls1 = op_for_calls[OF op]
  obtain y s2 u s3 p s4 q s5 r6 s6 u7 s7 o' where
    m: "move_op E j OS_RUNNING (staged [(''stage'', JStr ''killing'')]) s1 = (Inr y, s2)"
    and st: "put_state E w WS_STOPPING s2 = (Inr u, s3)" and p: "en_probe E (ws_tick s3) = Inr p"
    and s4: "s4 = (tick E s3)\<lparr>ws_calls := ws_calls s3 @ [Probe w [] None]\<rparr>"
    and te: "(case if pr_found p then pr_handle p else None of None \<Rightarrow> ret ()
        | Some h \<Rightarrow> bind_run (ask E (en_terminate E) OtherError (Terminate h 0)) (\<lambda>_. ret ())) s4 = (Inr q, s5)"
    and fin: "close_session E w FORCED_STOP s5 = (Inr r6, s6)" "put_state E w WS_OFF s6 = (Inr u7, s7)"
      "move_op E j OS_COMPLETED (staged [(''stage'', JStr ''off'')]) s7 = (Inr o', t)"
    and ij: "i = j"
    using k by (auto simp: kill_body_def run_simps resolve_handle_Inr)
  have "ws_calls s5 = ws_calls s4 @ (case (if pr_found p then pr_handle p else None) of None \<Rightarrow> [] | Some h \<Rightarrow> [Terminate h 0])"
    using te by (cases "if pr_found p then pr_handle p else None") (auto simp: run_simps ask_Inr)
  moreover have "ws_calls s3 = ws_calls s" using calls1 move_op_Inr(3)[OF m] put_state_Inr(2)[OF st] by simp
  ultimately have "ws_calls s5 = ws_calls s @ Probe w [] None #
      (case (if pr_found p then pr_handle p else None) of None \<Rightarrow> [] | Some h \<Rightarrow> [Terminate h 0])"
    by (simp add: s4)
  with put_off_and_complete[OF fin] p ij show ?thesis by metis
qed

section \<open>The stop ladder\<close>

definition is_order :: "world_call \<Rightarrow> bool" where
  "is_order c \<longleftrightarrow> (case c of WriteStdin h m \<Rightarrow> True | Terminate h g \<Rightarrow> True | _ \<Rightarrow> False)"

definition orders :: "world_sys \<Rightarrow> world_call list" where
  "orders s = filter is_order (ws_calls s)"

lemma console_no_order: "is_console c \<Longrightarrow> \<not> is_order c"
  by (cases c) (simp_all add: is_order_def)

interpretation co: console_law "\<lambda>s t. orders t = orders s"
  by unfold_locales (auto simp: orders_def console_no_order)

text \<open>Evidence that the process of a handle is gone.\<close>

definition seen_dead :: "world_env \<Rightarrow> bool" where
  "seen_dead E \<longleftrightarrow> (\<exists>n p. en_poll E n = Inr p \<and> \<not> alive p)"

lemma exit_poll_True: "exit_poll E h s = (Inr True, t) \<Longrightarrow> seen_dead E"
  by (auto simp: exit_poll_def run_simps ask_Inr seen_dead_def)

lemma wait_loop_True: "wait_loop E h d s = (Inr True, t) \<Longrightarrow> seen_dead E"
proof (induction E h d s rule: wait_loop.induct)
  case (1 E h d s)
  obtain x s1 where a: "exit_poll E h s = (x, s1)" by (metis surj_pair)
  show ?case
  proof (cases "ws_time s < d \<and> x = Inr False")
    case True
    with 1(2) a have "wait_loop E h d (sleep 500 s1) = (Inr True, t)" by (subst (asm) wait_loop.simps) simp
    with 1(1) True a show ?thesis by metis
  next
    case False
    with 1(2) a have "x = Inr True"
      by (subst (asm) wait_loop.simps) (auto split: if_splits sum.splits bool.splits)
    with a exit_poll_True show ?thesis by blast
  qed
qed

lemma stop_by_console_Inr:
  assumes "stop_by_console E w h s = (Inr b, t)"
  shows "orders t = orders s" and "b \<Longrightarrow> seen_dead E"
proof -
  show "orders t = orders s" by (rule co.staysD[OF co.stays_stop_by_console assms])
  have no: "(case e of RconFailed m \<Rightarrow> ret False | _ \<Rightarrow> raise e) s1 \<noteq> (Inr True, t)" for e s1
    by (cases e) (auto simp: run_simps)
  then show "b \<Longrightarrow> seen_dead E"
    using assms by (auto simp: stop_by_console_def try_run_Inr run_simps wait_exit_def no dest: wait_loop_True)
qed

lemma stop_by_stdin_Inr:
  assumes "stop_by_stdin E h s = (Inr b, t)"
  shows "orders t = orders s @ [WriteStdin h ''stop'']" and "b \<Longrightarrow> seen_dead E"
proof -
  obtain d s1 where d: "s1 = (tick E s)\<lparr>ws_calls := ws_calls s @ [WriteStdin h ''stop'']\<rparr>"
    and k: "(if d then wait_exit E h stop_graceful_deadline else ret False) s1 = (Inr b, t)"
    using assms by (auto simp: stop_by_stdin_def run_simps ask_Inr)
  have "orders t = orders s1"
    using k co.staysD[OF co.stays_wait_exit] by (cases d) (auto simp: run_simps)
  then show "orders t = orders s @ [WriteStdin h ''stop'']" by (simp add: d orders_def is_order_def)
  show "b \<Longrightarrow> seen_dead E" using k by (cases d) (auto simp: run_simps wait_exit_def dest: wait_loop_True)
qed

lemma stop_by_terminate_Inr:
  assumes "stop_by_terminate E h s = (Inr b, t)"
  shows "orders t = orders s @ [Terminate h 60]"
    and "b \<Longrightarrow> \<exists>n o'. en_terminate E n = Inr o' \<and> tr_resolved o' \<and> tr_exit o' = EC_GRACEFUL"
proof -
  from assms obtain o' where o': "en_terminate E (ws_tick s) = Inr o'"
    "b = (tr_resolved o' \<and> has_text ''grace'' (exit_class_value (tr_exit o')))"
    "t = (tick E s)\<lparr>ws_calls := ws_calls s @ [Terminate h 60]\<rparr>"
    by (auto simp: stop_by_terminate_def run_simps ask_Inr stop_graceful_deadline_def)
  then show "orders t = orders s @ [Terminate h 60]" by (simp add: orders_def is_order_def)
  have "has_text ''grace'' (exit_class_value c) \<Longrightarrow> c = EC_GRACEFUL" for c
    by (cases c) simp_all
  with o' show "b \<Longrightarrow> \<exists>n o'. en_terminate E n = Inr o' \<and> tr_resolved o' \<and> tr_exit o' = EC_GRACEFUL" by blast
qed

definition gone :: "world_env \<Rightarrow> bool" where
  "gone E \<longleftrightarrow> (\<exists>n p. en_probe E n = Inr p \<and> (if pr_found p then pr_handle p else None) = None) \<or> seen_dead E \<or>
     (\<exists>n o'. en_terminate E n = Inr o' \<and> tr_resolved o' \<and> tr_exit o' = EC_GRACEFUL)"

text \<open>The steps of the ladder for one handle, as far as it is climbed.\<close>

definition ladder_orders :: "ProcessHandle \<Rightarrow> world_call list set" where
  "ladder_orders h = {[], [WriteStdin h ''stop''], [WriteStdin h ''stop'', Terminate h 60]}"

lemma attempt_graceful_stop_Inr:
  assumes "attempt_graceful_stop E w s = (Inr b, t)"
  shows "\<exists>h. \<exists>os\<in>ladder_orders h. orders t = orders s @ os" and "b \<Longrightarrow> gone E"
proof -
  obtain p s1 where p: "en_probe E (ws_tick s) = Inr p"
    and s1: "s1 = (tick E s)\<lparr>ws_calls := ws_calls s @ [Probe w [] None]\<rparr>"
    and k: "(case if pr_found p then pr_handle p else None of None \<Rightarrow> ret True | Some h \<Rightarrow>
        bind_run (stop_by_console E w h) (\<lambda>gone. if gone then ret True
            else bind_run (stop_by_stdin E h) (\<lambda>gone2. if gone2 then ret True else stop_by_terminate E h))) s1 = (Inr b, t)"
    using assms by (auto simp: attempt_graceful_stop_def run_simps resolve_handle_Inr)
  have os1: "orders s1 = orders s" by (simp add: s1 orders_def is_order_def)
  have "(\<exists>h. \<exists>os\<in>ladder_orders h. orders t = orders s @ os) \<and> (b \<longrightarrow> gone E)"
  proof (cases "if pr_found p then pr_handle p else None")
    case None
    have "gone E" unfolding gone_def using p None by blast
    with k None os1 show ?thesis by (auto simp: run_simps ladder_orders_def)
  next
    case (Some h)
    obtain b1 s2 where c: "stop_by_console E w h s1 = (Inr b1, s2)"
      and k2: "(if b1 then ret True else bind_run (stop_by_stdin E h)
          (\<lambda>gone2. if gone2 then ret True else stop_by_terminate E h)) s2 = (Inr b, t)"
      using k Some by (auto simp: run_simps)
    show ?thesis
    proof (cases b1)
      case True
      with k2 stop_by_console_Inr[OF c] os1 show ?thesis by (auto simp: run_simps gone_def ladder_orders_def)
    next
      case False
      then obtain b2 s3 where d: "stop_by_stdin E h s2 = (Inr b2, s3)"
        and k3: "(if b2 then ret True else stop_by_terminate E h) s3 = (Inr b, t)"
        using k2 by (auto simp: run_simps)
      show ?thesis
      proof (cases b2)
        case True
        with k3 stop_by_stdin_Inr[OF d] stop_by_console_Inr(1)[OF c] os1 show ?thesis
          by (auto simp: run_simps gone_def ladder_orders_def)
      next
        case False
        with k3 have "stop_by_terminate E h s3 = (Inr b, t)" by simp
        from stop_by_terminate_Inr[OF this] stop_by_stdin_Inr(1)[OF d] stop_by_console_Inr(1)[OF c] os1
        show ?thesis by (auto simp: gone_def ladder_orders_def)
      qed
    qed
  qed
  then show "\<exists>h. \<exists>os\<in>ladder_orders h. orders t = orders s @ os" "b \<Longrightarrow> gone E" by blast+
qed

text \<open>
  C4: a stop that succeeds has ended the world, and gently. The world is off, its sessions are
  closed and the operation is completed; the orders given to the process are no more than
  \<open>stop\<close> on its standard input and, after that only, a termination with sixty seconds of
  grace; and a session is recorded as a graceful stop only on evidence: no process was found, a
  poll saw it dead, or the adapter reported a graceful exit.
\<close>
theorem stop_climbs_the_ladder:
  assumes "stop E w actor user oid s = (Inr i, t)"
  shows "ended_clean w i (ws_store t) \<and> (\<exists>h. \<exists>os\<in>ladder_orders h. orders t = orders s @ os) \<and>
     (\<exists>o' b. find_op i (ws_store t) = Some o' \<and>
        op_checkpoint o' = Some [(''stage'', JStr ''off''), (''graceful'', JBool b)] \<and> (b \<longrightarrow> gone E))"
proof -
  obtain r j s1 where op: "op_for E (request_for STOP actor w user) False oid s = (Inr j, s1)"
    and k: "stop_body E w j s1 = (Inr i, t)"
    using assms by (auto simp: stop_def run_simps world_of_Inr try_run_Inr ladder_never_returns)
  obtain y s2 u s3 b s4 r5 s5 u6 s6 o' where
    m: "move_op E j OS_RUNNING (staged [(''stage'', JStr ''stopping'')]) s1 = (Inr y, s2)"
    and st: "put_state E w WS_STOPPING s2 = (Inr u, s3)"
    and a: "attempt_graceful_stop E w s3 = (Inr b, s4)"
    and fin: "close_session E w (if b then GRACEFUL_STOP else FORCED_STOP) s4 = (Inr r5, s5)"
      "put_state E w WS_OFF s5 = (Inr u6, s6)"
      "move_op E j OS_COMPLETED (staged [(''stage'', JStr ''off''), (''graceful'', JBool b)]) s6 = (Inr o', t)"
    and ij: "i = j"
    using k by (auto simp: stop_body_def run_simps)
  have "orders s3 = orders s"
    using op_for_calls[OF op] move_op_Inr(3)[OF m] put_state_Inr(2)[OF st] by (simp add: orders_def)
  moreover have "orders t = orders s4" using put_off_and_complete[OF fin] by (simp add: orders_def)
  moreover have "op_checkpoint o' = Some [(''stage'', JStr ''off''), (''graceful'', JBool b)]"
    by (rule move_op_checkpoint[OF fin(3)]) (simp_all add: staged_def)
  moreover have "find_op i (ws_store t) = Some o'" using move_op_Inr(1)[OF fin(3)] ij by simp
  ultimately show ?thesis
    using put_off_and_complete[OF fin] attempt_graceful_stop_Inr[OF a] ij by auto
qed

section \<open>The waits\<close>

fun is_poll :: "world_call \<Rightarrow> bool" where
  "is_poll (Poll h) = True"
| "is_poll _ = False"

definition polls :: "world_sys \<Rightarrow> nat" where
  "polls s = length (filter is_poll (ws_calls s))"

lemma console_no_poll: "\<not> is_poll (RconConnect p w)" "\<not> is_poll (RconPing p)" "\<not> is_poll (RconCommand p c)"
  "\<not> is_poll (RconClose p)"
  by simp_all

definition polls_kept :: "world_sys \<Rightarrow> world_sys \<Rightarrow> bool" where
  "polls_kept s t \<longleftrightarrow> polls t = polls s"

interpretation pk: state_order polls_kept
  by unfold_locales (auto simp: polls_kept_def)

lemma polls_kept_ask: "\<not> is_poll c \<Longrightarrow> pk.stays (ask E f err c)"
  by (simp add: pk.stays_def polls_kept_def ask_def polls_def)

lemma polls_kept_tell: "\<not> is_poll c \<Longrightarrow> pk.stays (tell E c)"
  by (simp add: tell_def polls_kept_ask)

lemma polls_probe_console: "pk.stays (probe_console E ty port pw wt)"
  unfolding probe_console_def watch_console_def console_answers_def
  by (intro stay_rules polls_kept_ask polls_kept_tell) simp_all

lemma polls_end_round: "pk.stays (end_round E r port wt)"
proof (rule pk.staysI)
  fix s a s'
  have p: "polls (tick E s) = polls s" "polls (sleep n (tick E s)) = polls s" for n
    by (simp_all add: polls_def sleep_def)
  assume "end_round E r port wt s = (a, s')"
  then show "polls_kept s s'"
    by (auto simp: end_round_def Let_def p polls_kept_def run_simps tell_def bind_run_def ask_def when_run_def ret_def
        polls_def sleep_def split: if_splits)
qed

lemma polls_await_round:
  assumes "await_round E r h port pw wt s = (a, s')"
  shows "polls s' = Suc (polls s)"
proof -
  have q: "polls s1 = Suc (polls s)" if "ask E (en_poll E) OtherError (Poll h) s = (b, s1)" for b s1
    using that by (auto simp: ask_def polls_def)
  have k: "pk.stays (if \<not> alive p then raise (StartTimeoutError m)
      else bind_run (probe_console E ty port pw wt) (end_round E r port))" for p m ty
    by (intro stay_rules polls_probe_console polls_end_round)
  show ?thesis
    using assms unfolding await_round_def
    by (rule bind_run_cases) (use q pk.staysD[OF k] in \<open>auto simp: polls_kept_def\<close>)
qed

lemma whole_rounds: "k * a \<le> k * b + c \<Longrightarrow> c < k \<Longrightarrow> a \<le> (b::nat)"
proof (rule ccontr)
  assume "k * a \<le> k * b + c" "c < k" "\<not> a \<le> b"
  then have "k * Suc b \<le> k * a" by (intro mult_le_mono2) simp
  with \<open>k * a \<le> k * b + c\<close> \<open>c < k\<close> show False by simp
qed

lemma polls_await_ready:
  "await_ready E r h port pw d wt s = (res, t) \<Longrightarrow> 250 * polls t \<le> 250 * polls s + (d - ws_time s) + 249"
proof (induction E r h port pw d wt s arbitrary: res t rule: await_ready.induct)
  case (1 E r h port pw d wt s)
  have k: "pk.stays (then_run (when_run (rw_client wt) (tell E (RconClose port)))
             (then_run (teardown E h 0) (raise e) :: ServerReadinessLevel world_run))" for e
    unfolding teardown_def by (intro stay_rules polls_kept_ask polls_kept_tell) simp_all
  show ?case
  proof (cases "ws_time s < d")
    case False
    with 1(2) pk.staysD[OF k] show ?thesis by (subst (asm) await_ready.simps) (simp add: polls_kept_def)
  next
    case True
    obtain x s1 where a: "await_round E r h port pw wt s = (x, s1)" by (metis surj_pair)
    note p1 = polls_await_round[OF a]
    consider (ended) "polls t = polls s1" | (again) wt' where "x = Inr (None, wt')"
      using 1(2) True a by (subst (asm) await_ready.simps) (auto split: sum.splits option.splits prod.splits)
    then show ?thesis
    proof cases
      case ended
      with p1 True show ?thesis by simp
    next
      case again
      with 1(2) True a have "await_ready E r h port pw d wt' s1 = (res, t)"
        by (subst (asm) await_ready.simps) simp
      from 1(1)[OF True a[symmetric] again refl refl this]
      have ih: "250 * polls t \<le> 250 * polls s1 + (d - ws_time s1) + 249" .
      note time = await_round_sleeps[OF a[unfolded again]]
      show ?thesis
      proof (cases "ws_time s1 \<le> d")
        case True
        with ih time p1 show ?thesis by simp
      next
        case False
        with ih have "250 * polls t \<le> 250 * polls s1 + 249" by simp
        then have "polls t \<le> polls s1" by (rule whole_rounds) simp
        with p1 True show ?thesis by simp
      qed
    qed
  qed
qed

lemma polls_wait_loop:
  "wait_loop E h d s = (res, t) \<Longrightarrow> 500 * polls t \<le> 500 * polls s + (d - ws_time s) + 999"
proof (induction E h d s arbitrary: res t rule: wait_loop.induct)
  case (1 E h d s)
  obtain x s1 where a: "exit_poll E h s = (x, s1)" by (metis surj_pair)
  have p1: "polls s1 = Suc (polls s)" and c1: "ws_time s \<le> ws_time s1"
    using a clock.staysD[OF clock_exit_poll a]
    by (auto simp: exit_poll_def bind_run_def ask_def polls_def ret_def split: sum.splits prod.splits)
  show ?case
  proof (cases "ws_time s < d \<and> x = Inr False")
    case True
    with 1(2) a have "wait_loop E h d (sleep 500 s1) = (res, t)" by (subst (asm) wait_loop.simps) simp
    with 1(1)[OF conjunct1[OF True] a[symmetric] conjunct2[OF True]]
    have "500 * polls t \<le> 500 * polls (sleep 500 s1) + (d - ws_time (sleep 500 s1)) + 999" by simp
    then have ih: "500 * polls t \<le> 500 * polls s1 + (d - (ws_time s1 + 500)) + 999"
      by (simp add: sleep_def polls_def)
    show ?thesis
    proof (cases "ws_time s1 + 500 \<le> d")
      case True
      with ih c1 p1 show ?thesis by simp
    next
      case False
      with ih have "500 * polls t \<le> 500 * (polls s1 + 1) + 499" by simp
      then have "polls t \<le> polls s1 + 1" by (rule whole_rounds) simp
      with p1 conjunct1[OF \<open>ws_time s < d \<and> x = Inr False\<close>] show ?thesis by simp
    qed
  next
    case False
    then have "t = s1"
      using 1(2) a by (subst (asm) wait_loop.simps) (auto split: if_splits sum.splits bool.splits)
    with p1 show ?thesis by simp
  qed
qed

text \<open>
  C22: both waits end, and soon. Whatever the process and the console answer, a start polls the
  process at most 480 times before it is ready or given up, and a step of the stop ladder at most
  121 times.
\<close>
theorem waits_are_bounded:
  "polls (snd (await_readiness E r h port pw s)) \<le> polls s + 480 \<and>
   polls (snd (wait_exit E h stop_graceful_deadline s)) \<le> polls s + 121"
proof
  have "250 * polls (snd (await_readiness E r h port pw s)) \<le> 250 * (polls s + 480) + 249"
    using polls_await_ready[of E r h port pw "ws_time s + start_readiness_timeout_ms" rcon_idle s]
    by (simp add: await_readiness_def start_readiness_timeout_ms_def prod_eq_iff)
  then show "polls (snd (await_readiness E r h port pw s)) \<le> polls s + 480" by (rule whole_rounds) simp
  have "500 * polls (snd (wait_exit E h stop_graceful_deadline s)) \<le> 500 * (polls s + 121) + 499"
    using polls_wait_loop[of E h "ws_time s + 60000" s]
    by (simp add: wait_exit_def stop_graceful_deadline_def prod_eq_iff)
  then show "polls (snd (wait_exit E h stop_graceful_deadline s)) \<le> polls s + 121" by (rule whole_rounds) simp
qed

section \<open>A start that succeeds\<close>

definition seen_alive :: "world_env \<Rightarrow> bool" where
  "seen_alive E \<longleftrightarrow> (\<exists>n p. en_poll E n = Inr p \<and> alive p)"

definition ready :: "world_env \<Rightarrow> world_row \<Rightarrow> ServerReadinessLevel \<Rightarrow> bool" where
  "ready E r level \<longleftrightarrow> seen_alive E \<and> target_level_for (wo_server_type r) \<le> level \<and>
     (\<exists>n (wt::rcon_watch). level = evaluate (wo_server_type r) (capabilities_for (wo_server_type r))
        (build_state (en_signals E n) True (wo_port r) (rw_ready wt) False (rw_valid wt) True) True)"

lemma await_round_ready:
  assumes "await_round E r h port pw wt s = (Inr (Some level, wt'), t)"
  shows "ready E r level"
proof -
  obtain p wt1 s1 where p: "en_poll E (ws_tick s) = Inr p" "alive p"
    and e: "end_round E r port wt1 s1 = (Inr (Some level, wt'), t)"
    using assms by (auto simp: await_round_def run_simps ask_Inr split: if_splits)
  have "level = measured_level E r wt1 s1 \<and> target_level_for (wo_server_type r) \<le> measured_level E r wt1 s1"
    using e by (auto simp: end_round_def Let_def run_simps split: if_splits)
  with p show ?thesis by (auto simp: ready_def seen_alive_def measured_level_def)
qed

lemma await_ready_Inr: "await_ready E r h port pw d wt s = (Inr level, t) \<Longrightarrow> ready E r level"
proof (induction E r h port pw d wt s rule: await_ready.induct)
  case (1 E r h port pw d wt s)
  have k: "then_run m (then_run n (raise e)) x \<noteq> (Inr level, t)" for m :: "unit world_run" and n :: "unit world_run" and e x
    by (auto simp: run_simps)
  have d: "ws_time s < d"
    by (rule ccontr) (use 1(2) in \<open>subst (asm) await_ready.simps, simp add: k\<close>)
  obtain x s1 where a: "await_round E r h port pw wt s = (x, s1)" by (metis surj_pair)
  then consider (now) wt' where "x = Inr (Some level, wt')"
    | (again) wt' where "x = Inr (None, wt')" "await_ready E r h port pw d wt' s1 = (Inr level, t)"
    using 1(2) d by (subst (asm) await_ready.simps) (auto split: sum.splits option.splits prod.splits)
  then show ?case
  proof cases
    case now
    with a show ?thesis by (auto intro: await_round_ready)
  next
    case again
    from 1(1)[OF d a[symmetric] again(1) refl refl again(2)] show ?thesis .
  qed
qed

definition session_open :: "string \<Rightarrow> string \<Rightarrow> store \<Rightarrow> bool" where
  "session_open sid w st \<longleftrightarrow> exists_row (\<lambda>x. rs_id x = sid \<and> rs_world x = w \<and> rs_ended_at x = None) (runtime_sessions st)"

lemma open_session_Inr:
  assumes "open_session E w x h argv port pw sid s = (Inr i, t)"
  shows "session_open sid (wo_id w) (ws_store t)"
  using assms
  by (auto simp: open_session_def Let_def insert_session_def session_open_def exists_row_def split: if_splits option.splits)

text \<open>The end of a start: the world runs, its session is open, the operation says how ready it is.\<close>

definition started :: "string \<Rightarrow> string \<Rightarrow> string \<Rightarrow> ServerReadinessLevel \<Rightarrow> store \<Rightarrow> bool" where
  "started w sid i level st \<longleftrightarrow> (\<exists>r. find_world w st = Some r \<and> wo_state r = WS_RUNNING) \<and> session_open sid w st \<and>
     (\<exists>o'. find_op i st = Some o' \<and> op_status o' = OS_COMPLETED \<and> op_checkpoint o' =
        Some [(''stage'', JStr ''running''), (''readiness'', JStr (readiness_value level)), (''session_id'', JStr sid)])"

lemma bring_up_Inr:
  assumes "bring_up E oid r x port pw sid h s = (Inr i, t)"
  shows "i = sid \<and> (\<exists>level. ready E r level \<and> started (wo_id r) sid oid level (ws_store t))"
proof -
  obtain j s1 u1 s2 level s3 u3 s4 o' where
    a: "open_session E r x h (launch_command r x) port pw sid s = (Inr j, s1)"
    and b: "when_run (ws_logs s1) (ask E (en_tail E) OtherError (Tail h)) s1 = (Inr u1, s2)"
    and c: "await_readiness E r h port pw s2 = (Inr level, s3)"
    and d: "put_state E (wo_id r) WS_RUNNING s3 = (Inr u3, s4)"
    and e: "move_op E oid OS_COMPLETED ((staged [(''stage'', JStr ''running''),
          (''readiness'', JStr (readiness_value level)), (''session_id'', JStr sid)])
          \<lparr>ti_data := Some [(''session_id'', JStr sid)]\<rparr>) s4 = (Inr o', t)" and i: "i = sid"
    using assms by (auto simp: bring_up_def run_simps)
  have "ws_ops s2 = ws_ops s1"
    using b by (auto simp: run_simps ask_Inr split: if_splits)
  with idle.staysD[OF idle.stays_readiness c] have "ws_ops s3 = ws_ops s1" by simp
  then have sess: "runtime_sessions (ws_store t) = runtime_sessions (ws_store s1)"
    using move_op_Inr(5)[OF e] put_state_Inr(3)[OF d] by simp
  have world: "find_world (wo_id r) (ws_store t) = find_world (wo_id r) (ws_store s4)"
    by (rule find_world_frame) (rule move_op_Inr(4)[OF e], simp)
  have "op_checkpoint o' = Some [(''stage'', JStr ''running''), (''readiness'', JStr (readiness_value level)),
       (''session_id'', JStr sid)]"
    by (rule move_op_checkpoint[OF e]) (simp_all add: staged_def)
  then have "started (wo_id r) sid oid level (ws_store t)"
    unfolding started_def world session_open_def sess
    using put_state_Inr(1)[OF d] move_op_Inr(1,2)[OF e] open_session_Inr[OF a] by (simp add: session_open_def)
  moreover have "ready E r level"
    using c by (auto simp: await_readiness_def dest: await_ready_Inr)
  ultimately show ?thesis using i by blast
qed

lemma launch_world_Inr:
  assumes "launch_world E oid r x s = (Inr sid, t)"
  shows "(\<exists>n q h. en_spawn E n = Inr q \<and> sr_handle q = Some h) \<and>
     (\<exists>level. ready E r level \<and> started (wo_id r) sid oid level (ws_store t))"
proof -
  obtain port pw sid' q h s1 n where "en_spawn E n = Inr q" "sr_handle q = Some h"
    "bring_up E oid r x port pw sid' h s1 = (Inr sid, t)"
    using assms by (auto simp: launch_world_def launch_process_def run_simps ask_Inr split: option.splits)
  with bring_up_Inr show ?thesis by metis
qed

lemma start_body_Inr:
  assumes "start_body E w i s = (Inr sid, t)"
  shows "\<exists>r x s2. find_world w (ws_store s) = Some r \<and> launch_world E i r x s2 = (Inr sid, t)"
proof -
  have f: "start_refused E w i g x \<noteq> (Inr sid, t)" for g x by (auto simp: start_refused_def run_simps)
  obtain y s1 r x s3 where m: "move_op E i OS_RUNNING (staged [(''stage'', JStr ''validating'')]) s = (Inr y, s1)"
    and r: "find_world w (ws_store s1) = Some r" and l: "launch_world E i r x s3 = (Inr sid, t)"
    using assms by (auto simp: start_body_def start_gated_def run_simps world_of_Inr f split: if_splits)
  moreover have "find_world w (ws_store s1) = find_world w (ws_store s)"
    by (rule find_world_frame) (rule move_op_Inr(4)[OF m], simp)
  ultimately show ?thesis using r l by auto
qed

text \<open>
  C3: a start that succeeds has started the world. A spawn answered with a handle, the process
  was polled alive and its readiness was measured at or above what the server type asks for; the
  world is running, the session returned is open, and the operation is completed with that
  readiness and that session in its checkpoint.
\<close>
theorem started_world_is_ready:
  assumes "start E w actor user allow oid s = (Inr sid, t)"
  shows "(\<exists>n q h. en_spawn E n = Inr q \<and> sr_handle q = Some h) \<and>
     (\<exists>r i level. find_world w (ws_store s) = Some r \<and> (oid = None \<or> oid = Some i) \<and> ready E r level \<and>
        started w sid i level (ws_store t))"
proof -
  have f: "start_failed E w i e x \<noteq> (Inr sid, t)" for i e x
    by (cases e) (auto simp: start_failed_def run_simps split: if_splits)
  obtain s0 i s1 where p: "precheck_start E w s = (Inr (), s0)"
    and o1: "op_for E (request_for START actor w user) allow oid s0 = (Inr i, s1)"
    and b: "start_body E w i s1 = (Inr sid, t)"
    using assms by (auto simp: start_def run_simps try_run_Inr f)
  obtain r x s2 where r: "find_world w (ws_store s1) = Some r" and l: "launch_world E i r x s2 = (Inr sid, t)"
    using start_body_Inr[OF b] by blast
  have "pre_launch s s1"
    using precheck_Inr[OF p] op_for_pre[OF o1] pre_launch_tick pre_launch_refl pre_launch_trans by metis
  then have "find_world w (ws_store s) = Some r" using r by (simp add: pre_launch_def find_world_def store_frame_def)
  moreover have "wo_id r = w" using r by (auto simp: find_world_def dest: find_row_SomeD)
  moreover have "oid = None \<or> oid = Some i" using o1 by (auto simp: op_for_def run_simps split: option.splits)
  ultimately show ?thesis using launch_world_Inr[OF l] by blast
qed

section \<open>What a dispatch leaves\<close>

definition op_ended :: "string \<Rightarrow> store \<Rightarrow> bool" where
  "op_ended i st \<longleftrightarrow> (\<exists>o'. find_op i st = Some o' \<and> terminal_status (op_status o'))"

lemma op_ended_move: "move_op E i st ti s = (Inr r, t) \<Longrightarrow> terminal_status st \<Longrightarrow> op_ended i (ws_store t)"
  using move_op_Inr(1,2) unfolding op_ended_def by blast

lemma op_ended_kept:
  assumes "op_ended i (ws_store s)" and "books_kept s t" and "books_ok (ws_store s)"
  shows "op_ended i (ws_store t)"
proof -
  obtain r where r: "r \<in> set (operations (ws_store s))" "op_id r = i" "terminal_status (op_status r)"
    using assms(1) by (auto simp: op_ended_def dest: find_op_SomeD)
  have t: "ops_ok (operations (ws_store t))" "rows_evolve (operations (ws_store s)) (operations (ws_store t))"
    using assms(2,3) by (auto simp: books_kept_def books_ok_def)
  obtain r' where "r' \<in> set (operations (ws_store t))" "row_evolves r r'"
    using rows_evolve_member[OF t(2) r(1)] by blast
  with find_op_unique[OF t(1), of r'] r show ?thesis by (auto simp: op_ended_def row_evolves_def)
qed

lemma start_ends_op:
  assumes "start E w actor user allow (Some i) s = (Inr sid, t)"
  shows "op_ended i (ws_store t)"
proof -
  have f: "start_failed E w i e x \<noteq> (Inr sid, t)" for e x
    by (cases e) (auto simp: start_failed_def run_simps split: if_splits)
  obtain s1 where "start_body E w i s1 = (Inr sid, t)"
    using assms by (auto simp: start_def op_for_def run_simps try_run_Inr f)
  then obtain r x s2 where "launch_world E i r x s2 = (Inr sid, t)" using start_body_Inr by blast
  with launch_world_Inr show ?thesis by (fastforce simp: started_def op_ended_def)
qed

lemma stop_ends_op: "stop E w actor user (Some i) s = (Inr j, t) \<Longrightarrow> op_ended i (ws_store t)"
  by (auto simp: stop_def op_for_def stop_body_def run_simps world_of_Inr try_run_Inr ladder_never_returns
      dest!: op_ended_move)

lemma kill_ends_op: "kill E w actor user (Some i) s = (Inr j, t) \<Longrightarrow> op_ended i (ws_store t)"
  by (auto simp: kill_def op_for_def kill_body_def run_simps world_of_Inr try_run_Inr ladder_never_returns
      dest!: op_ended_move)

lemma run_claimed_ends: "run_claimed E r s = (Inr j, t) \<Longrightarrow> op_ended (op_id r) (ws_store t)"
  by (auto simp: run_claimed_def run_simps split: option.splits if_splits
      dest: start_ends_op stop_ends_op kill_ends_op)

lemma claim_call_Inr:
  assumes "claim_call E i s = (Inr (Some r), t)"
  shows "find_op i (ws_store t) = Some r \<and> op_id r = i"
proof -
  have "find_op i (ws_store t) = Some r"
    using assms claim_tx_effect[of "now_at E s" i "ws_store s"]
    by (auto simp: claim_call_def claim_queued_def Let_def split: prod.splits option.splits)
  then show ?thesis by (auto dest: find_op_SomeD)
qed

lemma dispatch_one_Inr:
  assumes "dispatch_one E q s = (Inr ids, t)" and "books_ok (ws_store s)"
  shows "ids = [] \<or> ids = [op_id q] \<and> op_ended (op_id q) (ws_store t)"
proof -
  obtain c s1 where c: "claim_call E (op_id q) s = (Inr c, s1)"
    and k: "(case c of None \<Rightarrow> ret []
       | Some r \<Rightarrow> then_run (try_run (run_claimed E r) (dispatch_failed E (op_id r))) (ret [op_id r])) s1 = (Inr ids, t)"
    using assms(1) by (auto simp: dispatch_one_def run_simps)
  have ok1: "books_ok (ws_store s1)"
    using bk.staysD[OF bk.stays_claim c] assms(2) by (simp add: books_kept_def)
  show ?thesis
  proof (cases c)
    case None
    with k show ?thesis by (simp add: run_simps)
  next
    case (Some r)
    have r: "find_op (op_id q) (ws_store s1) = Some r" "op_id r = op_id q" using claim_call_Inr c Some by blast+
    obtain j where j: "try_run (run_claimed E r) (dispatch_failed E (op_id q)) s1 = (Inr j, t)" "ids = [op_id q]"
      using k Some r by (auto simp: run_simps)
    from j(1) consider (went) "run_claimed E r s1 = (Inr j, t)"
      | (failed) e s2 where "run_claimed E r s1 = (Inl e, s2)" "dispatch_failed E (op_id q) e s2 = (Inr j, t)"
      by (auto simp: try_run_Inr)
    then have "op_ended (op_id q) (ws_store t)"
    proof cases
      case went
      with run_claimed_ends r show ?thesis by metis
    next
      case failed
      have "r \<in> set (operations (ws_store s1))" using r(1) by (auto dest: find_op_SomeD)
      moreover have ev: "rows_evolve (operations (ws_store s1)) (operations (ws_store s2))"
        and ok2: "ops_ok (operations (ws_store s2))"
        using bk.staysD[OF bk.stays_run_claimed failed(1)] ok1 by (auto simp: books_kept_def books_ok_def)
      ultimately obtain r' where r': "r' \<in> set (operations (ws_store s2))" "row_evolves r r'"
        using rows_evolve_member by blast
      have f: "find_op (op_id q) (ws_store s2) = Some r'"
        using find_op_unique[OF ok2 r'(1)] r' r(2) by (simp add: row_evolves_def)
      show ?thesis
      proof (cases "terminal_status (op_status r')")
        case True
        with failed(2) f show ?thesis by (auto simp: dispatch_failed_def run_simps op_ended_def)
      next
        case False
        with failed(2) f obtain y where "move_op E (op_id q) OS_FAILED
            (failure ''OP_EXECUTION_FAILED'' (Some (error_text e))) s2 = (Inr y, t)"
          by (auto simp: dispatch_failed_def run_simps fail_op_def)
        then show ?thesis by (rule op_ended_move) simp
      qed
    qed
    with j(2) show ?thesis by simp
  qed
qed

text \<open>The dispatched operations are among the queued ones, in their order, and no two of them, nor
  one of them and a world of \<open>seen\<close>, share a world.\<close>

definition one_per_world :: "string list \<Rightarrow> op_row list \<Rightarrow> string list \<Rightarrow> bool" where
  "one_per_world seen qs ids \<longleftrightarrow> (\<exists>ps. subseq ps qs \<and> ids = map op_id ps \<and>
     distinct (List.map_filter op_world ps) \<and> set (List.map_filter op_world ps) \<inter> set seen = {})"

lemma one_per_world_Nil: "one_per_world seen [] []"
  by (auto simp: one_per_world_def map_filter_simps)

lemma one_per_world_skip: "one_per_world seen' qs ids \<Longrightarrow> set seen \<subseteq> set seen' \<Longrightarrow> one_per_world seen (q # qs) ids"
  unfolding one_per_world_def by blast

lemma one_per_world_take:
  assumes "one_per_world (case op_world q of None \<Rightarrow> seen | Some w \<Rightarrow> w # seen) qs ids"
    and "\<And>w. op_world q = Some w \<Longrightarrow> w \<notin> set seen"
  shows "one_per_world seen (q # qs) (op_id q # ids)"
proof -
  obtain ps where "subseq ps qs" "ids = map op_id ps" "distinct (List.map_filter op_world ps)"
    "set (List.map_filter op_world ps) \<inter> set (case op_world q of None \<Rightarrow> seen | Some w \<Rightarrow> w # seen) = {}"
    using assms(1) by (auto simp: one_per_world_def)
  with assms(2) show ?thesis
    unfolding one_per_world_def
    by (intro exI[of _ "q # ps"]) (auto simp: map_filter_simps split: option.splits)
qed

definition all_ended :: "string list \<Rightarrow> store \<Rightarrow> bool" where
  "all_ended ids st \<longleftrightarrow> (\<forall>i\<in>set ids. op_ended i st)"

lemma dispatch_then:
  assumes "dispatch_one E q s = (Inr d, s1)" and "dispatch_loop E seen' qs s1 = (Inr ds, t)"
    and "books_ok (ws_store s)" and "seen' = (case op_world q of None \<Rightarrow> seen | Some w \<Rightarrow> w # seen)"
    and "\<And>w. op_world q = Some w \<Longrightarrow> w \<notin> set seen"
    and "books_ok (ws_store s1) \<Longrightarrow> all_ended ds (ws_store t) \<and> one_per_world seen' qs ds"
  shows "all_ended (d @ ds) (ws_store t) \<and> one_per_world seen (q # qs) (d @ ds)"
proof -
  have ok1: "books_ok (ws_store s1)" and k: "books_kept s1 t"
    using bk.staysD[OF bk.stays_dispatch_one assms(1)] assms(3) bk.staysD[OF bk.stays_dispatch_loop assms(2)]
    by (simp_all add: books_kept_def)
  note ih = assms(6)[OF ok1]
  from dispatch_one_Inr[OF assms(1,3)] show ?thesis
  proof
    assume "d = []"
    then show ?thesis
      using ih one_per_world_skip[of seen' qs ds seen q] assms(4) by (auto split: option.splits)
  next
    assume d: "d = [op_id q] \<and> op_ended (op_id q) (ws_store s1)"
    then have "op_ended (op_id q) (ws_store t)" using op_ended_kept[OF _ k ok1] by blast
    then show ?thesis
      using d ih one_per_world_take[of seen q qs ds] assms(4,5) by (simp add: all_ended_def)
  qed
qed

lemma dispatch_loop_Inr:
  assumes "dispatch_loop E seen qs s = (Inr ids, t)" and "books_ok (ws_store s)"
  shows "all_ended ids (ws_store t) \<and> one_per_world seen qs ids"
  using assms
proof (induction E seen qs arbitrary: s ids rule: dispatch_loop.induct)
  case (1 E seen)
  then show ?case by (auto simp: run_simps one_per_world_Nil all_ended_def)
next
  case (2 E seen q qs)
  show ?case
  proof (cases "op_world q")
    case None
    then obtain d s1 ds where "dispatch_one E q s = (Inr d, s1)" "dispatch_loop E seen qs s1 = (Inr ds, t)"
      and "ids = d @ ds"
      using 2(5) by (auto simp: run_simps)
    with None 2(1)[OF None] dispatch_then[of E q s d s1 seen qs ds t seen] 2(6) show ?thesis by simp
  next
    case (Some w)
    consider (seen) "w \<in> set seen" "dispatch_loop E seen qs s = (Inr ids, t)"
      | (active) "w \<notin> set seen" "dispatch_loop E (w # seen) qs s = (Inr ids, t)"
          "has_active_operation w (op_id q) (ws_store s)"
      | (run) d s1 ds where "w \<notin> set seen" "\<not> has_active_operation w (op_id q) (ws_store s)"
          "dispatch_one E q s = (Inr d, s1)" "dispatch_loop E (w # seen) qs s1 = (Inr ds, t)" "ids = d @ ds"
      using 2(5) Some by (auto simp: run_simps split: if_splits)
    then show ?thesis
    proof cases
      case seen
      from 2(2)[OF Some seen(1,2) 2(6)] show ?thesis using one_per_world_skip[of seen qs ids seen q] by simp
    next
      case active
      from 2(3)[OF Some active(1,3,2) 2(6)] show ?thesis
        using one_per_world_skip[of "w # seen" qs ids seen q] by auto
    next
      case run
      then show ?thesis
        using Some 2(4)[OF Some run(1,2,4)] dispatch_then[OF run(3,4) 2(6), of seen] by simp
    qed
  qed
qed

text \<open>
  C5: what a dispatch takes up it ends. After a pass over the queued starts, stops and kills,
  every operation it reports has ended, and the operations reported are queued ones in the order
  of the queue, at most one for each world.
\<close>
theorem dispatched_operations_end:
  assumes "dispatch_lifecycle E s = (Inr ids, t)" and "books_ok (ws_store s)"
  shows "(\<forall>i\<in>set ids. \<exists>o'. find_op i (ws_store t) = Some o' \<and> terminal_status (op_status o')) \<and>
     one_per_world [] (list_queued [START, STOP, KILL] (ws_store s)) ids"
  using dispatch_loop_Inr[of E "[]" _ s ids t] assms
  by (simp add: dispatch_lifecycle_def run_simps all_ended_def op_ended_def)

end
