(* ===== verification/Restore_Props.thy ===== *)
theory Restore_Props
  imports Restore Backup_Props Worlds_Props
begin

text \<open>
  What a restore guarantees: after a success the world is what the artifact holds, but for the
  \<open>server.properties\<close> that a restart rewrites; after a failed restart it is what it was before, and
  the backup made first holds that state in both cases.
\<close>

section \<open>Tidy trees\<close>

text \<open>No links, every entry in a directory, proper names.\<close>

definition tidy :: "tree \<Rightarrow> bool" where
  "tidy t \<longleftrightarrow> link_free t \<and> rooted t"

definition good_path :: "path \<Rightarrow> bool" where
  "good_path p \<longleftrightarrow> (\<forall>c\<in>set p. good_name c)"

lemma good_path_simps [simp]:
  "good_path []" "good_path (c # p) \<longleftrightarrow> good_name c \<and> good_path p" "good_path (p @ q) \<longleftrightarrow> good_path p \<and> good_path q"
  by (auto simp: good_path_def)

lemma good_no_dots: "good_path p \<Longrightarrow> ''..'' \<notin> set p"
  by (auto simp: good_path_def good_name_def)

lemma tidyD: "tidy t \<Longrightarrow> link_free t" "tidy t \<Longrightarrow> rooted t"
  by (simp_all add: tidy_def)

lemma tidy_up: "tidy t \<Longrightarrow> node t q = Some n \<Longrightarrow> q \<noteq> [] \<Longrightarrow> node t (butlast q) = Some Dir"
  by (auto simp: tidy_def rooted_def)

lemma tidy_good: "tidy t \<Longrightarrow> node t q = Some n \<Longrightarrow> good_path q"
  using good_parts[of t q n] by (auto simp: tidy_def good_path_def)

lemma tidy_above: "tidy t \<Longrightarrow> node t (p @ q) = Some n \<Longrightarrow> q \<noteq> [] \<Longrightarrow> node t p = Some Dir"
  by (auto simp: tidy_def intro: node_above)

lemma tidy_below: "tidy t \<Longrightarrow> node t p \<noteq> Some Dir \<Longrightarrow> q \<noteq> [] \<Longrightarrow> node t (p @ q) = None"
  using tidy_above by (cases "node t (p @ q)") auto

text \<open>From what each entry became.\<close>

lemma tidyI:
  assumes "\<And>q l. node t q \<noteq> Some (Link l)"
    and "\<And>q n. q \<noteq> [] \<Longrightarrow> node t q = Some n \<Longrightarrow> node t (butlast q) = Some Dir \<and> good_path q"
  shows "tidy t"
  using assms unfolding tidy_def link_free_def rooted_def good_path_def by blast

lemma node_root [simp]: "node t [] = Some Dir"
  by (simp add: node_def)

lemma tidy_put:
  assumes "tidy t" and "p \<noteq> []" and "good_path p" and "node t (butlast p) = Some Dir" and "\<forall>l. n \<noteq> Link l"
    and "node t p = Some Dir \<longrightarrow> n = Dir"
  shows "tidy (put_node p n t)"
proof (rule tidyI)
  show "node (put_node p n t) q \<noteq> Some (Link l)" for q l
    using assms(1,2,5) by (auto simp: node_put tidy_def link_free_def)
  fix q m
  assume q: "q \<noteq> []" "node (put_node p n t) q = Some m"
  show "node (put_node p n t) (butlast q) = Some Dir \<and> good_path q"
  proof (cases "q = p")
    case True
    with assms(2,3,4,6) show ?thesis by (auto simp: node_put)
  next
    case False
    with q assms(2) have "node t q = Some m" by (simp add: node_put)
    with tidy_up[OF assms(1) this q(1)] tidy_good[OF assms(1) this] assms(2,6) show ?thesis by (auto simp: node_put)
  qed
qed

lemma tidy_filter:
  assumes "tidy t" and "\<And>q. node t' q = (if q \<noteq> [] \<and> lost q then None else node t q)"
    and "\<And>q. q \<noteq> [] \<Longrightarrow> \<not> lost q \<Longrightarrow> node t q \<noteq> None \<Longrightarrow> \<not> lost (butlast q)"
  shows "tidy t'"
proof (rule tidyI)
  show "node t' q \<noteq> Some (Link l)" for q l
    using assms(1,2) by (auto simp: tidy_def link_free_def)
  fix q n
  assume q: "q \<noteq> []" "node t' q = Some n"
  then have "node t q = Some n" "\<not> lost q" using assms(2)[of q] by (auto split: if_splits)
  with q assms(3) tidy_up[OF assms(1)] tidy_good[OF assms(1)] show "node t' (butlast q) = Some Dir \<and> good_path q"
    by (auto simp: assms(2))
qed

lemma tidy_unlink:
  assumes "tidy t" and "good_path p" and "p \<noteq> []"
  shows "tidy (unlink p t)"
proof (cases "node t p = Some Dir")
  case True
  then show ?thesis using assms tidyD good_no_dots by (simp add: unlink_def entry_plain)
next
  case False
  note n = node_unlink[OF tidyD(1)[OF assms(1)] good_no_dots[OF assms(2)] assms(3) False]
  show ?thesis
    by (rule tidy_filter[OF assms(1), of _ "\<lambda>q. q = p"]) (use n assms(3) tidy_up[OF assms(1)] False in auto)
qed

lemma node_drop: "node (drop_tree p t) q = (if q \<noteq> [] \<and> is_under p q then None else node t q)"
  by (simp add: node_def map_of_drop_tree)

lemma under_butlast: "is_under p (butlast q) \<Longrightarrow> is_under p q"
  by (metis append_butlast_last_id butlast.simps(1) is_under_append is_under_trans)

lemma tidy_drop: "tidy t \<Longrightarrow> tidy (drop_tree p t)"
  by (rule tidy_filter[where lost = "is_under p"]) (auto simp: node_drop dest: under_butlast)

lemma tidy_clear:
  assumes "tidy t" and "good_path p" and "p \<noteq> []"
  shows "tidy (clear_place p t)"
  using assms tidy_drop tidy_unlink entry_plain[OF tidyD(1) good_no_dots]
  by (auto simp: clear_place_def split: option.split fnode.split)

lemma tidy_make_dirs:
  assumes "make_dirs cur cs t = Some t'" and "tidy t" and "good_path (cur @ cs)"
  shows "tidy t'"
  using assms
proof (induction cs arbitrary: cur t)
  case Nil
  then show ?case by (auto split: if_splits)
next
  case (Cons c cs)
  have dots: "''..'' \<notin> set (cur @ [c])" using good_no_dots[OF Cons.prems(3)] by simp
  from make_dirs_step[OF tidyD(1)[OF Cons.prems(2)] dots Cons.prems(1)] show ?case
  proof
    assume "make_dirs (cur @ [c]) cs t = Some t'"
    then show ?thesis using Cons.IH Cons.prems by simp
  next
    assume n: "node t cur = Some Dir \<and> node t (cur @ [c]) = None \<and> make_dirs (cur @ [c]) cs (put_node (cur @ [c]) Dir t) = Some t'"
    have "tidy (put_node (cur @ [c]) Dir t)" using n Cons.prems by (intro tidy_put) simp_all
    with n show ?thesis by (intro Cons.IH[of "cur @ [c]" "put_node (cur @ [c]) Dir t"]) (use Cons.prems(3) in simp_all)
  qed
qed

lemma tidy_write:
  assumes "write_file p x t = Some t'" and "tidy t" and "good_path p" and "p \<noteq> []"
  shows "tidy t'"
proof -
  have "t' = put_node p (File x) t" "node t p \<noteq> Some Dir" "node t (butlast p) = Some Dir"
    using assms tidyD good_no_dots by (auto simp: write_file_def resolve_plain split: if_splits)
  then show ?thesis using assms by (auto intro: tidy_put)
qed

lemma good_member: "good_path (member_parts s)"
proof -
  have "sep \<notin> set w" if "w \<in> set (split_on sep s)" for w sep
    using that by (induction s arbitrary: w) (auto split: if_splits list.splits)
  then show ?thesis by (auto simp: good_path_def good_name_def member_parts_def path_parts_def)
qed

lemma tidy_extract:
  assumes "extract_members d ms t = Some t'" and "tidy t" and "good_path d" and "d \<noteq> []"
  shows "tidy t'"
  using assms(1,2)
proof (induction ms arbitrary: t)
  case (Cons m ms)
  obtain name x ok where m: "m = (name, x, ok)" by (cases m)
  have b: "good_path (d @ butlast (member_parts name))"
    using assms(3) good_member[of name] by (auto simp: good_path_def dest: in_set_butlastD)
  obtain t1 where t1: "extract_member d m t = Some t1" "extract_members d ms t1 = Some t'"
    using Cons.prems(1) by (auto split: option.splits)
  have "tidy t1"
  proof (cases "ends_with ''/'' name")
    case True
    with t1(1) have "make_dirs d (member_parts name) t = Some t1" by (simp add: extract_member_def m Let_def)
    then show ?thesis by (rule tidy_make_dirs) (use Cons.prems(2) assms(3) good_member in auto)
  next
    case False
    with t1(1) obtain t0 where "make_dirs d (butlast (member_parts name)) t = Some t0"
      "write_file (d @ member_parts name) x t0 = Some t1"
      by (auto simp: extract_member_def m Let_def split: option.splits if_splits)
    with tidy_make_dirs[OF _ Cons.prems(2) b] show ?thesis
      using tidy_write[of "d @ member_parts name" x t0 t1] assms(3,4) good_member by auto
  qed
  with Cons.IH t1(2) show ?case by blast
qed simp

section \<open>Moving\<close>

lemma node_move:
  assumes "tidy t" and "node t p \<noteq> None" and "p \<noteq> []" and "node t d = None"
  shows "node (move_tree p d t) q =
     (if is_under d q then node t (p @ drop (length d) q) else if is_under p q then None else node t q)"
proof -
  have d: "d \<noteq> []" using assms(4) by auto
  have fresh: "node t (d @ s) = None" for s
    using tidy_below[OF assms(1), of d s] assms(4) by (cases "s = []") auto
  then have keys: "d @ s \<notin> fst ` set t" for s using key_node[of "d @ s" t] d by auto
  have pd: "\<not> is_under d p" using fresh assms(2) by (auto simp: is_under_iff)
  have "map_of (move_tree p d u) q = (if is_under d q then map_of u (p @ drop (length d) q)
      else if is_under p q then None else map_of u q)" if "fst ` set u \<subseteq> fst ` set t" for u
    using that
  proof (induction u)
    case (Cons a u)
    obtain k n where a: "a = (k, n)" by (cases a)
    have "k \<in> fst ` set t" using Cons.prems by (simp add: a)
    then have k: "\<not> is_under d k" using keys unfolding is_under_iff by metis
    have ih: "map_of (move_tree p d u) q = (if is_under d q then map_of u (p @ drop (length d) q)
      else if is_under p q then None else map_of u q)" using Cons by auto
    show ?case
    proof (cases "is_under p k")
      case True
      then obtain s where s: "k = p @ s" by (auto simp: is_under_iff)
      have "map_of (move_tree p d (a # u)) q = (if q = d @ s then Some n else map_of (move_tree p d u) q)"
        by (simp add: move_tree_def a s)
      then show ?thesis using ih s by (auto simp: a is_under_iff)
    next
      case False
      have "map_of (move_tree p d (a # u)) q = (if q = k then Some n else map_of (move_tree p d u) q)"
        using False by (simp add: move_tree_def a)
      then show ?thesis using ih k False by (auto simp: a is_under_iff)
    qed
  qed (simp add: move_tree_def)
  from this[of t] show ?thesis using d assms(3) by (auto simp: node_def is_under_iff)
qed

lemma under_both: "a @ q = b @ s \<Longrightarrow> is_under a b \<or> is_under b a"
  by (auto simp: is_under_iff append_eq_append_conv2)

lemma tidy_move:
  assumes "tidy t" and "node t p \<noteq> None" and "p \<noteq> []" and "node t d = None" and "node t (butlast d) = Some Dir"
    and "good_path d" and "\<not> is_under p d"
  shows "tidy (move_tree p d t)"
proof (rule tidyI)
  note n = node_move[OF assms(1-4)]
  show "node (move_tree p d t) q \<noteq> Some (Link l)" for q l
    using tidyD(1)[OF assms(1)] by (auto simp: n link_free_def)
  have dd: "d \<noteq> []" using assms(4) by auto
  fix q m
  assume q: "q \<noteq> []" "node (move_tree p d t) q = Some m"
  show "node (move_tree p d t) (butlast q) = Some Dir \<and> good_path q"
  proof (cases "is_under d q")
    case True
    then obtain s where s: "q = d @ s" by (auto simp: is_under_iff)
    with q(2) have ps: "node t (p @ s) = Some m" by (simp add: n)
    have "good_path q" using tidy_good[OF assms(1) ps] assms(6) by (simp add: s)
    moreover have "node (move_tree p d t) (butlast q) = Some Dir"
    proof (cases "s = []")
      case True
      have "length (butlast d) < length d" using dd by simp
      then have "\<not> is_under d (butlast d)" unfolding is_under_iff by (metis length_append not_add_less1)
      moreover have "\<not> is_under p (butlast d)" using assms(7) under_butlast by blast
      ultimately show ?thesis using assms(5) True s by (simp add: n)
    next
      case False
      have "node t (p @ butlast s) = Some Dir"
        using tidy_up[OF assms(1) ps] False assms(3) by (simp add: butlast_append)
      with False s show ?thesis by (simp add: n butlast_append)
    qed
    ultimately show ?thesis by blast
  next
    case False
    with q(2) have q': "node t q = Some m" "\<not> is_under p q" by (auto simp: n split: if_splits)
    have "\<not> is_under d (butlast q)" "\<not> is_under p (butlast q)" using False q'(2) under_butlast by blast+
    then show ?thesis using tidy_up[OF assms(1) q'(1) q(1)] tidy_good[OF assms(1) q'(1)] by (simp add: n)
  qed
qed

lemma move_path_Inr:
  assumes run: "move_path E p d s = (Inr (), s')" and t: "tidy (bs_tree s)" and p: "good_path p" "p \<noteq> []"
    and d: "good_path d" "d \<noteq> []"
  shows "\<exists>T. T = (if node (bs_tree s) d = Some Dir then d @ [last p] else d) \<and> node (bs_tree s) T = None \<and>
     node (bs_tree s) p \<noteq> None \<and> \<not> is_under p T \<and> bs_tree s' = move_tree p T (bs_tree s) \<and> only_files s s' \<and>
     tidy (bs_tree s')"
proof -
  let ?t = "bs_tree s"
  define T where "T = (if node ?t d = Some Dir then d @ [last p] else d)"
  have gT: "good_path T" using p d(1) by (auto simp: T_def good_path_def)
  have T: "move_target p d ?t = T"
    using entry_plain[OF tidyD(1)[OF t] good_no_dots[OF gT]] stat_plain[OF tidyD(1)[OF t] good_no_dots[OF d(1)]]
    by (simp add: move_target_def T_def)
  have e: "entry ?t p = p" by (rule entry_plain[OF tidyD(1)[OF t] good_no_dots[OF p(1)]])
  have "can_move p d ?t" and t': "bs_tree s' = move_tree p T ?t"
    using run by (auto simp: move_path_def run_simps host_Inr on_tree_def put_tree_def tick_def moved_def T e
        split: if_splits option.splits)
  then have c: "node ?t p \<noteq> None" "node ?t T = None" "node ?t (butlast T) = Some Dir" "\<not> is_under p T"
    by (simp_all add: can_move_def T e)
  have "fi.stays (move_path E p d)" unfolding move_path_def by (intro fi.stays_bind fi_host fi_tree)
  then have "only_files s s'" using run fi.staysD by blast
  moreover have "tidy (bs_tree s')" unfolding t' by (rule tidy_move[OF t c(1) p(2) c(2,3) gT c(4)])
  ultimately show ?thesis using c t' T_def by blast
qed

section \<open>The switch\<close>

definition apart :: "path \<Rightarrow> path \<Rightarrow> bool" where
  "apart a b \<longleftrightarrow> \<not> is_under a b \<and> \<not> is_under b a"

lemma apart_below: "apart a b \<Longrightarrow> \<not> is_under b (a @ q) \<and> \<not> is_under a (b @ q)"
  unfolding apart_def is_under_iff by (metis is_under_iff under_both)

text \<open>The world was somewhere else, and the staging directory takes its place.\<close>

lemma switch_second:
  assumes run: "move_path E staging world s = (Inr (), s')" and t: "tidy (bs_tree s)"
    and g: "good_path world" "world \<noteq> []" "good_path staging" "staging \<noteq> []" and ap: "apart world staging"
    and n: "node (bs_tree s) world = None"
  shows "tidy (bs_tree s') \<and> only_files s s' \<and> (\<forall>q. node (bs_tree s') (world @ q) = node (bs_tree s) (staging @ q)) \<and>
     (\<forall>q. \<not> is_under world q \<longrightarrow> \<not> is_under staging q \<longrightarrow> node (bs_tree s') q = node (bs_tree s) q)"
proof -
  from move_path_Inr[OF run t g(3,4,1,2)] n
  have m: "node (bs_tree s) staging \<noteq> None" "bs_tree s' = move_tree staging world (bs_tree s)" "only_files s s'" "tidy (bs_tree s')"
    by auto
  note f = node_move[OF t m(1) g(4) n]
  show ?thesis using m f by simp
qed

lemma switch_Inr:
  assumes run: "switch_world E world staging s = (Inr (), s')" and t: "tidy (bs_tree s)"
    and g: "good_path world" "world \<noteq> []" "good_path staging" "staging \<noteq> []" and ap: "apart world staging"
    and st: "node (bs_tree s) staging \<noteq> None" and names: "\<And>x. staging \<noteq> archive_name world x"
    and ids: "\<And>n. CHR ''/'' \<notin> set (en_ids (be_world E) n 0)"
  shows "tidy (bs_tree s') \<and> only_files s s' \<and> (\<forall>q. node (bs_tree s') (world @ q) = node (bs_tree s) (staging @ q)) \<and>
     (\<forall>q n. \<not> is_under world q \<longrightarrow> \<not> is_under staging q \<longrightarrow> node (bs_tree s) q = Some n \<longrightarrow> node (bs_tree s') q = Some n)"
proof -
  obtain s1 x where x: "x = en_ids (be_world E) (ws_tick (bs_sys s)) 0" "fresh E [] s = (Inr x, s1)"
    by (simp add: fresh_def host_def)
  define arch where "arch = archive_name world x"
  have s1: "bs_tree s1 = bs_tree s" "only_files s s1"
    using x(2) fi.staysD[OF fi_host x(2)[unfolded fresh_def]] by (auto simp: fresh_def host_Inr tick_def)
  have ga: "good_path arch" "arch \<noteq> []" "butlast arch = butlast world"
  proof -
    have "good_name (last world)" using g(1,2) by (simp add: good_path_def)
    then have "good_name (last world @ ''.restore-archive-'' @ take 8 x)"
      using ids[of "ws_tick (bs_sys s)"] x(1) by (auto simp: good_name_def dest: in_set_takeD)
    then show "good_path arch" using g(1) by (auto simp: arch_def archive_name_def good_path_def dest: in_set_butlastD)
  qed (simp_all add: arch_def archive_name_def)
  have pe: "path_exists world (bs_tree s) \<longleftrightarrow> node (bs_tree s) world \<noteq> None"
    by (simp add: path_exists_def stat_plain[OF tidyD(1)[OF t] good_no_dots[OF g(1)]])
  obtain s2 where s2: "when_run (node (bs_tree s) world \<noteq> None) (move_path E world arch) s1 = (Inr (), s2)"
    and m2: "move_path E staging world s2 = (Inr (), s')"
    using run x(2) s1(1) pe unfolding switch_world_def arch_def
    by (auto simp: run_simps try_run_Inr path_exists_def)
  show ?thesis
  proof (cases "node (bs_tree s) world")
    case None
    with s2 have "s2 = s1" by (simp add: run_simps)
    then show ?thesis using switch_second[OF m2 _ g ap] t None s1 fi.rel_trans by auto
  next
    case (Some nw)
    with s2 have "move_path E world arch s1 = (Inr (), s2)" by (simp add: run_simps)
    from move_path_Inr[OF this _ g(1,2) ga(1,2)] t s1(1) obtain T where
      T: "T = (if node (bs_tree s) arch = Some Dir then arch @ [last world] else arch)" "node (bs_tree s) T = None"
      "\<not> is_under world T" "bs_tree s2 = move_tree world T (bs_tree s)" "only_files s1 s2" "tidy (bs_tree s2)" by auto
    have n2: "node (bs_tree s2) q = (if is_under T q then node (bs_tree s) (world @ drop (length T) q)
        else if is_under world q then None else node (bs_tree s) q)" for q
      unfolding T(4) by (rule node_move[OF t _ g(2) T(2)]) (simp add: Some)
    have away: "\<not> is_under T q" if "node (bs_tree s) q \<noteq> None" for q
      using that T(2) tidy_below[OF t, of T] unfolding is_under_iff by (metis append_Nil2 option.distinct(1))
    have "\<not> is_under staging T"
    proof
      assume "is_under staging T"
      then obtain r where r: "T = staging @ r" by (auto simp: is_under_iff)
      have bw: "\<not> is_under staging (butlast world)" using ap under_butlast by (auto simp: apart_def)
      have rn: "r \<noteq> []" using r st T(2) by auto
      then have bT: "butlast T = staging @ butlast r" using r by (simp add: butlast_append)
      show False
      proof (cases "node (bs_tree s) arch = Some Dir")
        case True
        then have "arch = staging @ butlast r" using T(1) bT by simp
        moreover have "butlast r \<noteq> []" using names[of x] calculation by (auto simp: arch_def)
        ultimately have "butlast world = staging @ butlast (butlast r)" using ga(3) by (simp add: butlast_append)
        then show False using bw by simp
      next
        case False
        then have "butlast world = staging @ butlast r" using T(1) bT ga(3) by simp
        then show False using bw by simp
      qed
    qed
    then have apT: "apart T staging" using away[OF st] by (simp add: apart_def)
    have w2: "node (bs_tree s2) world = None" using away[of world] Some is_under_append[of world "[]"] by (simp add: n2)
    have st2: "node (bs_tree s2) (staging @ q) = node (bs_tree s) (staging @ q)" for q
      using apart_below[OF apT] apart_below[OF ap] by (simp add: n2)
    note sw = switch_second[OF m2 T(6) g ap w2]
    show ?thesis
    proof (intro conjI allI impI)
      show "tidy (bs_tree s')" using sw by blast
      show "only_files s s'" using sw T(5) s1(2) fi.rel_trans by blast
      show "node (bs_tree s') (world @ q) = node (bs_tree s) (staging @ q)" for q using sw st2 by simp
      show "node (bs_tree s') q = Some n" if "\<not> is_under world q" "\<not> is_under staging q" "node (bs_tree s) q = Some n" for q n
        using sw that away[of q] by (simp add: n2)
    qed
  qed
qed

section \<open>Staging\<close>

lemma validate_Inr:
  assumes "validate_artifact E i s = (Inr r, t)"
  shows "t = s \<and> find_artifact i (bs_store s) = Some r"
  using assms by (auto simp: validate_artifact_def run_simps suspect_def hash_of_def split: if_splits sum.splits)

text \<open>What was there outside \<open>d\<close> is still there.\<close>

definition kept_outside :: "path \<Rightarrow> tree \<Rightarrow> tree \<Rightarrow> bool" where
  "kept_outside d t t' \<longleftrightarrow> (\<forall>q n. \<not> is_under d q \<longrightarrow> node t q = Some n \<longrightarrow> node t' q = Some n) \<and>
     (\<forall>q x. \<not> is_under d q \<longrightarrow> node t' q = Some (File x) \<longrightarrow> node t q = Some (File x))"

lemma kept_trans: "kept_outside d a b \<Longrightarrow> kept_outside d b c \<Longrightarrow> kept_outside d a c"
  unfolding kept_outside_def by blast

lemma kept_same: "same_outside d a b \<Longrightarrow> kept_outside d a b"
  unfolding kept_outside_def same_outside_def by auto

lemma kept_files: "kept_outside d t t' \<Longrightarrow> apart d w \<Longrightarrow> files_at t' w = files_at t w"
  using apart_below[of d w] unfolding kept_outside_def files_at_def by blast

lemma fresh_dir_Inr:
  assumes run: "fresh_dir p s = (Inr u, s')" and t: "tidy (bs_tree s)" and p: "good_path p" "p \<noteq> []"
  shows "tidy (bs_tree s') \<and> only_files s s' \<and> node (bs_tree s') p = Some Dir \<and>
     (\<forall>r. r \<noteq> [] \<longrightarrow> node (bs_tree s') (p @ r) = None) \<and> kept_outside p (bs_tree s) (bs_tree s')"
proof -
  let ?t = "bs_tree s"
  define t1 where "t1 = clear_place p ?t"
  have k1: "tidy t1" unfolding t1_def by (rule tidy_clear[OF t p])
  have e: "entry ?t p = p" by (rule entry_plain[OF tidyD(1)[OF t] good_no_dots[OF p(1)]])
  have n1: "node t1 q = (if is_under p q then None else node ?t q)" for q
  proof (cases "node ?t p = Some Dir")
    case True
    then show ?thesis using p(2) by (auto simp: t1_def clear_place_def e node_drop is_under_iff)
  next
    case False
    have below: "node ?t (p @ r) = (if r = [] then node ?t p else None)" for r
      using tidy_below[OF t False] by simp
    show ?thesis
    proof (cases "node ?t p")
      case None
      then show ?thesis using below by (auto simp: t1_def clear_place_def e is_under_iff)
    next
      case (Some n)
      note u = node_unlink[OF tidyD(1)[OF t] good_no_dots[OF p(1)] p(2) False]
      have "t1 = unlink p ?t" using Some False by (cases n) (auto simp: t1_def clear_place_def e)
      then show ?thesis using u below by (auto simp: is_under_iff split: if_splits)
    qed
  qed
  have m: "make_dirs [] p t1 = Some (bs_tree s')"
    using run by (auto simp: fresh_dir_def or_disk_def on_tree_def put_tree_def make_new_dir_def t1_def
        split: option.splits if_splits)
  note at = make_dirs_at[OF m tidyD(1)[OF k1], simplified, OF good_no_dots[OF p(1)]]
  have "only_files s s'" using run fi.staysD[OF fi_disk] unfolding fresh_dir_def by blast
  moreover have "tidy (bs_tree s')" by (rule tidy_make_dirs[OF m k1]) (simp add: p)
  moreover have "node (bs_tree s') (p @ r) = None" if "r \<noteq> []" for r
    using at n1[of "p @ r"] that by (metis append_self_conv is_under_append is_under_iff append_assoc append_is_Nil_conv)
  moreover have "kept_outside p ?t (bs_tree s')"
    unfolding kept_outside_def
  proof (intro conjI allI impI)
    show "node (bs_tree s') q = Some n" if "\<not> is_under p q" "node ?t q = Some n" for q n
      using at n1[of q] that by (metis option.distinct(1))
    show "node ?t q = Some (File x)" if "\<not> is_under p q" "node (bs_tree s') q = Some (File x)" for q x
      using at n1[of q] that by (metis fnode.distinct(1) option.inject)
  qed
  ultimately show ?thesis using at by blast
qed

lemma extract_to_staging_Inr:
  assumes run: "extract_to_staging E i d s = (Inr (), s')" and t: "tidy (bs_tree s)" and d: "good_path d" "d \<noteq> []"
    and a: "find_artifact i (bs_store s) = Some a" and h: "holds_files (be_zip E) (bs_tree s) (path_parts (ar_path a)) fs"
    and ap: "\<not> is_under d (path_parts (ar_path a))"
  shows "tidy (bs_tree s') \<and> only_files s s' \<and> node (bs_tree s') d = Some Dir \<and> files_at (bs_tree s') d = fs \<and>
     kept_outside d (bs_tree s) (bs_tree s')"
proof -
  let ?p = "path_parts (ar_path a)" and ?z = "be_zip E"
  obtain s1 where f: "fresh_dir d s = (Inr (), s1)"
    and x: "try_run (on_tree ArchiveFailure (extract_archive ?z ?p d)) (\<lambda>e. case e of
          ArchiveFailure UnsafePath \<Rightarrow> suspect i ''archive path escapes staging directory''
        | ArchiveFailure BadZip \<Rightarrow> suspect i ''archive is not a zip file'' | _ \<Rightarrow> raise e) s1 = (Inr (), s')"
    using run a by (auto simp: extract_to_staging_def run_simps dest!: validate_Inr)
  note k = fresh_dir_Inr[OF f t d]
  obtain b where "node (bs_tree s) ?p = Some (File b)" using h by (auto simp: holds_files_def)
  then have "node (bs_tree s1) ?p = Some (File b)" using k ap unfolding kept_outside_def by blast
  then have h1: "holds_files ?z (bs_tree s1) ?p fs" and dp: "''..'' \<notin> set ?p"
    using h \<open>node (bs_tree s) ?p = Some (File b)\<close> tidy_good[OF t] good_no_dots by (auto simp: holds_files_def)
  obtain t2 where t2: "extract_archive ?z ?p d (bs_tree s1) = (Inr (), t2)" "unpacked d fs (bs_tree s1) t2"
    using extract_holds[OF h1 tidyD(1)[OF k[THEN conjunct1]] dp good_no_dots[OF d(1)] d(2)] k by auto
  have s': "s' = put_tree t2 s1" using x t2(1) by (simp add: try_run_def on_tree_def)
  have "\<exists>ms. extract_members d ms (bs_tree s1) = Some t2"
    using t2(1) by (auto simp: extract_archive_def split: option.splits fnode.splits if_splits)
  then have "tidy t2" using tidy_extract k d by blast
  moreover have "files_at t2 d = fs" using t2(2) h1 by (auto simp: unpacked_def files_at_def holds_files_def)
  moreover have "kept_outside d (bs_tree s) t2"
    using k kept_same t2(2) kept_trans by (auto simp: unpacked_def)
  moreover have "node t2 d = Some Dir" using t2(2) by (simp add: unpacked_def)
  moreover have "only_files s s'" using k s' by (simp add: only_files_def put_tree_def)
  ultimately show ?thesis by (simp add: s' put_tree_def)
qed

section \<open>The backup before\<close>

text \<open>The rows of the worlds and the settings are as they were.\<close>

definition rows_kept :: "backup_sys \<Rightarrow> backup_sys \<Rightarrow> bool" where
  "rows_kept s t \<longleftrightarrow> worlds (bs_store t) = worlds (bs_store s) \<and> ws_tables (bs_sys t) = ws_tables (bs_sys s)"

interpretation ro: state_order rows_kept
  by unfold_locales (auto simp: rows_kept_def)

lemma rows_files: "fi.stays m \<Longrightarrow> ro.stays m"
  by (rule ro.staysI) (auto simp: rows_kept_def only_files_def dest: fi.staysD)

lemma ro_add: "ro.stays (add_artifact r)"
  by (rule ro.staysI) (auto simp: add_artifact_def insert_artifact_def put_store_def rows_kept_def split: option.splits if_splits)

lemma ro_register: "ro.stays (write_and_register E w source dir oid cat)"
  unfolding write_and_register_def write_artifact_def fresh_def Let_def
  by (intro ro.stays_bind ro.stays_try ro.stays_ret ro.stays_raise ro.stays_check ro_add
      fi_host[THEN rows_files] fi_disk[THEN rows_files] fi_archive[THEN rows_files] fi_remove[THEN rows_files]
      fi_hash[THEN rows_files] fi_size[THEN rows_files] fi_verify[THEN rows_files])

definition places_free :: "tree \<Rightarrow> backup_env \<Rightarrow> string \<Rightarrow> path \<Rightarrow> bool" where
  "places_free t E w dir \<longleftrightarrow> (\<forall>n. \<forall>p\<in>places (dir @ [w @ ''-'' @ (''ba_'' @ en_ids (be_world E) n 0) @ ''.zip'']). node t p = None)"

lemma map_sum_Inr: "map_sum f id x = Inr y \<longleftrightarrow> x = Inr y"
  by (cases x) auto

lemma write_artifact_holds:
  assumes run: "write_artifact E w source oid cat i final s = (Inr b, s')" and z: "zip_law (be_zip E)"
    and ar: "archivable (bs_tree s) source" and t: "tidy (bs_tree s)" and p: "good_path final" "final \<noteq> []"
    and dir: "node (bs_tree s) (butlast final) = Some Dir" and free: "\<forall>q\<in>places final. node (bs_tree s) q = None"
    and ap: "\<not> is_under source (butlast final)"
  shows "holds_files (be_zip E) (bs_tree s') final (files_at (bs_tree s) source) \<and>
     (\<forall>q. q \<noteq> final \<longrightarrow> node (bs_tree s') q = node (bs_tree s) q) \<and> tidy (bs_tree s')"
proof -
  let ?part = "part_of final"
  have g: "\<forall>c\<in>set final. good_name c" using p(1) by (simp add: good_path_def)
  note pp = part_of_facts[OF p(2) g]
  note qq = part_of_facts[OF pp(1,4)]
  obtain sk s1 s4 where 1: "create_archive (be_zip E) source ?part (bs_tree s) = (Inr sk, bs_tree s1)"
    and 4: "replace_file ?part final (bs_tree s1) = Some (bs_tree s4)" and s': "bs_tree s' = bs_tree s4"
  proof -
    obtain sk s1 csum s2 s3 s4 len s5 csum' s6 now s7 where
      1: "archive_call E source ?part s = (Inr sk, s1)"
      and 2: "hash_of E ?part s1 = (Inr csum, s2)" and 3: "verify_zip E ?part s2 = (Inr (), s3)"
      and 4: "or_disk (replace_file ?part final) s3 = (Inr (), s4)" and 5: "file_size final s4 = (Inr len, s5)"
      and 6: "hash_of E final s5 = (Inr csum', s6)" and 8: "clock_now E s6 = (Inr now, s7)"
      and 9: "add_artifact (artifact_of i w cat (path_text final) len csum oid now) s7 = (Inr (), s')"
      using run unfolding write_artifact_def Let_def by (auto simp: run_simps)
    have "s2 = s1" "s3 = s2" "s5 = s4" "s6 = s5" "bs_tree s7 = bs_tree s6" "bs_tree s' = bs_tree s7"
      using 2 3 5 6 8 9 by (auto simp: hash_of_def verify_zip_def file_size_def run_simps host_Inr tick_def add_artifact_def
          put_store_def split: sum.splits option.splits fnode.splits)
    moreover have "create_archive (be_zip E) source ?part (bs_tree s) = (Inr sk, bs_tree s1)"
      using 1 by (auto simp: archive_call_def run_simps on_tree_def put_tree_def map_sum_Inr split: prod.splits)
    moreover have "replace_file ?part final (bs_tree s3) = Some (bs_tree s4)"
      using 4 by (auto simp: or_disk_def on_tree_def put_tree_def split: option.splits)
    ultimately show thesis using that by simp
  qed
  have "\<not> is_under source ?part"
  proof
    assume "is_under source ?part"
    then obtain r where r: "?part = source @ r" by (auto simp: is_under_iff)
    have "r \<noteq> []" using r free ar by (auto simp: places_def archivable_def)
    then have "butlast final = source @ butlast r" using r pp(2) by (metis butlast_append)
    then show False using ap by simp
  qed
  moreover have "\<not> is_under source (part_of ?part)"
  proof
    assume "is_under source (part_of ?part)"
    then obtain r where r: "part_of ?part = source @ r" by (auto simp: is_under_iff)
    have "r \<noteq> []" using r free ar by (auto simp: places_def archivable_def)
    then have "butlast final = source @ butlast r" using r pp(2) qq(2) by (metis butlast_append)
    then show False using ap by simp
  qed
  ultimately have "free_place (bs_tree s) source ?part"
    using pp qq free dir by (simp add: free_place_def places_def)
  then obtain t1 where t1: "create_archive (be_zip E) source ?part (bs_tree s) = (Inr 0, t1)"
    "holds_files (be_zip E) t1 ?part (files_at (bs_tree s) source)" "\<forall>q. q \<noteq> ?part \<longrightarrow> node t1 q = node (bs_tree s) q"
    using create_archive_holds[OF z ar] by blast
  with 1 have e1: "bs_tree s1 = t1" by simp
  have l1: "link_free t1"
    using create_archive_at[OF t1(1) tidyD(1)[OF t] pp(1,4)] by (simp add: writes_at_def)
  note rp = replace_file_at[OF 4[unfolded e1] l1 pp(5,6,1) p(2) pp(3)]
  obtain x where x: "node t1 ?part = Some (File x)" "node (bs_tree s') final = Some (File x)" using rp s' by auto
  have n: "node (bs_tree s') q = (if q = final then Some (File x) else node (bs_tree s) q)" for q
  proof (cases "q = final \<or> q = ?part")
    case True
    then show ?thesis using x rp s' free by (auto simp: places_def)
  next
    case False
    then show ?thesis using rp s' t1(3) by (simp add: writes_at_def)
  qed
  have "holds_files (be_zip E) (bs_tree s') final (files_at (bs_tree s) source)"
    using t1(2) x by (simp add: holds_files_def)
  moreover have "tidy (bs_tree s')"
  proof (rule tidyI)
    show "node (bs_tree s') q \<noteq> Some (Link l)" for q l using tidyD(1)[OF t] by (simp add: n link_free_def)
    fix q m
    assume q: "q \<noteq> []" "node (bs_tree s') q = Some m"
    have f: "node (bs_tree s) final = None" using free by (simp add: places_def)
    show "node (bs_tree s') (butlast q) = Some Dir \<and> good_path q"
    proof (cases "q = final")
      case True
      have "butlast final \<noteq> final" using dir f by auto
      with True dir p(1) show ?thesis by (simp add: n)
    next
      case False
      with q have "node (bs_tree s) q = Some m" by (simp add: n)
      with tidy_up[OF t this q(1)] tidy_good[OF t this] f show ?thesis by (auto simp: n)
    qed
  qed
  ultimately show ?thesis using n by simp
qed

lemma write_and_register_Inr:
  assumes "write_and_register E w source dir oid cat s = (Inr b, s')"
  shows "\<exists>n s1 s2. only_files s s1 \<and> bs_tree s1 = bs_tree s \<and> or_disk (make_dirs [] dir) s1 = (Inr (), s2) \<and>
     write_artifact E w source oid cat (''ba_'' @ en_ids (be_world E) n 0)
       (dir @ [w @ ''-'' @ (''ba_'' @ en_ids (be_world E) n 0) @ ''.zip'']) s2 = (Inr b, s')"
proof -
  obtain i s1 s2 where i: "fresh E ''ba_'' s = (Inr i, s1)" "or_disk (make_dirs [] dir) s1 = (Inr (), s2)"
    "write_artifact E w source oid cat i (dir @ [w @ ''-'' @ i @ ''.zip'']) s2 = (Inr b, s')"
    using assms unfolding write_and_register_def Let_def by (auto simp: run_simps try_run_Inr)
  moreover have "i = ''ba_'' @ en_ids (be_world E) (ws_tick (bs_sys s)) 0" "bs_tree s1 = bs_tree s"
    using i(1) by (auto simp: fresh_def host_Inr tick_def)
  moreover have "only_files s s1" using fi.staysD[OF fi_host i(1)[unfolded fresh_def]] .
  ultimately show ?thesis by blast
qed

lemma backup_while_off:
  assumes "create_world_backup E w source dir oid cat False s = (Inr b, s')"
  shows "\<exists>s1. only_files s s1 \<and> bs_tree s1 = bs_tree s \<and> write_and_register E w source dir oid cat s1 = (Inr b, s')"
proof -
  define s1 where "s1 = s\<lparr>bs_sys := tick (be_world E) (bs_sys s)\<rparr>"
  have "write_and_register E w source dir oid cat s1 = (Inr b, s')"
    using assms by (simp add: create_world_backup_def enforce_storage_guard_def run_simps host_Inr s1_def)
  moreover have "only_files s s1" "bs_tree s1 = bs_tree s" by (simp_all add: s1_def tick_def only_files_def)
  ultimately show ?thesis by blast
qed

lemma pre_backup_Inr:
  assumes run: "create_world_backup E w source dir oid cat False s = (Inr b, s')" and z: "zip_law (be_zip E)"
    and ar: "archivable (bs_tree s) source" and t: "tidy (bs_tree s)" and fit: "names_fit E w dir"
    and free: "places_free (bs_tree s) E w dir" and ap: "\<not> is_under source dir"
  shows "\<exists>a. bs_store s' = (bs_store s)\<lparr>artifacts := artifacts (bs_store s) @ [a]\<rparr> \<and> find_artifact (ar_id a) (bs_store s') = Some a \<and>
     br_artifact b = ar_id a \<and> ar_category a = cat \<and> ar_operation a = oid \<and> butlast (path_parts (ar_path a)) = dir \<and>
     path_parts (ar_path a) \<noteq> [] \<and> holds_files (be_zip E) (bs_tree s') (path_parts (ar_path a)) (files_at (bs_tree s) source) \<and>
     tidy (bs_tree s') \<and> (\<forall>q n. node (bs_tree s) q = Some n \<longrightarrow> node (bs_tree s') q = Some n) \<and>
     (\<forall>a'\<in>set (artifacts (bs_store s)). ar_id a' \<noteq> ar_id a) \<and> bs_restores s' = bs_restores s \<and> rows_kept s s'"
proof -
  obtain sa where sa: "only_files s sa" "bs_tree sa = bs_tree s" "write_and_register E w source dir oid cat sa = (Inr b, s')"
    using backup_while_off[OF run] by blast
  obtain n s1 s2 where s1: "only_files sa s1" "bs_tree s1 = bs_tree s" and m: "or_disk (make_dirs [] dir) s1 = (Inr (), s2)"
    and wr0: "write_artifact E w source oid cat (''ba_'' @ en_ids (be_world E) n 0)
       (dir @ [w @ ''-'' @ (''ba_'' @ en_ids (be_world E) n 0) @ ''.zip'']) s2 = (Inr b, s')"
    using write_and_register_Inr[OF sa(3)] sa(2) by metis
  define i where "i = ''ba_'' @ en_ids (be_world E) n 0"
  define final where "final = dir @ [w @ ''-'' @ i @ ''.zip'']"
  note wr = wr0[folded i_def, folded final_def]
  have g: "good_path final" "final \<noteq> []" "good_path dir" "butlast final = dir"
    using fit by (auto simp: final_def names_fit_def i_def good_path_def)
  have gf: "\<forall>c\<in>set final. good_name c" using g(1) by (simp add: good_path_def)
  have md: "make_dirs [] dir (bs_tree s) = Some (bs_tree s2)" and k2: "only_files s1 s2"
    using m s1(2) fi.staysD[OF fi_disk m] by (auto simp: or_disk_def on_tree_def put_tree_def split: option.splits)
  note at = make_dirs_at[OF md tidyD(1)[OF t], simplified, OF good_no_dots[OF g(3)]]
  have t2: "tidy (bs_tree s2)" by (rule tidy_make_dirs[OF md t]) (simp add: g)
  have below: "node (bs_tree s2) (source @ r) = node (bs_tree s) (source @ r)" for r
    using at ap is_under_append is_under_trans by metis
  have "archivable (bs_tree s2) source"
    using ar t2 below below[of "[]"] by (simp add: archivable_def tidy_def plain_below_def files_at_def)
  moreover have "\<forall>q\<in>places final. node (bs_tree s2) q = None"
  proof
    fix q
    assume q: "q \<in> places final"
    have "node (bs_tree s) q = None" using free q unfolding places_free_def final_def i_def by blast
    moreover have "\<not> is_under q dir"
    proof -
      have "length q = Suc (length dir)"
        using q part_of_facts(1,2)[OF g(2) gf] by (auto simp: places_def final_def part_of_def)
      then show ?thesis by (auto simp: is_under_iff)
    qed
    ultimately show "node (bs_tree s2) q = None" using at by metis
  qed
  moreover have "\<not> is_under source (butlast final)" "node (bs_tree s2) (butlast final) = Some Dir" using ap at g(4) by simp_all
  ultimately have h: "holds_files (be_zip E) (bs_tree s') final (files_at (bs_tree s2) source) \<and>
     (\<forall>q. q \<noteq> final \<longrightarrow> node (bs_tree s') q = node (bs_tree s2) q) \<and> tidy (bs_tree s')"
    and fn: "node (bs_tree s2) final = None"
    using write_artifact_holds[OF wr z _ t2 g(1,2)] by (blast, simp add: places_def)
  obtain a where a: "bs_store s' = (bs_store s2)\<lparr>artifacts := artifacts (bs_store s2) @ [a]\<rparr>"
    "\<exists>now. a = artifact_of i w cat (path_text final) (br_size b) (br_checksum b) oid now" "br_artifact b = i"
    "\<forall>x\<in>set (artifacts (bs_store s2)). ar_id x \<noteq> i" "bs_restores s' = bs_restores s2"
    using write_artifact_Inr[OF wr tidyD(1)[OF t2] g(2) gf] by blast
  have o2: "bs_store s2 = bs_store s" "bs_restores s2 = bs_restores s"
    using k2 s1(1) sa(1) by (auto simp: only_files_def)
  have fields: "ar_id a = i" "ar_category a = cat" "ar_operation a = oid" "ar_path a = path_text final"
    using a(2) by (auto simp: artifact_of_def)
  have "find_row (\<lambda>x. ar_id x = i) (artifacts (bs_store s2)) = None" using a(4) by (simp add: find_row_None_iff)
  then have found: "find_artifact (ar_id a) (bs_store s') = Some a"
    using a(1) fields by (simp add: find_artifact_def find_row_append)
  have "files_at (bs_tree s2) source = files_at (bs_tree s) source" using below by (simp add: files_at_def)
  moreover have "node (bs_tree s') q = Some n" if "node (bs_tree s) q = Some n" for q n
  proof -
    have "node (bs_tree s2) q = Some n" using that at by (metis option.distinct(1))
    then show ?thesis using h fn by (cases "q = final") auto
  qed
  moreover have "rows_kept s s'"
    using ro.staysD[OF ro_register sa(3)] sa(1) by (auto simp: rows_kept_def only_files_def)
  ultimately show ?thesis
    using a found fields h o2 g parts_of_text[OF g(2) gf] by (intro exI[of _ a]) auto
qed

section \<open>The restore\<close>

text \<open>The directories of a request are proper and apart, and the names of archives cannot clash.\<close>

definition laid_out :: "backup_env \<Rightarrow> restore_request \<Rightarrow> bool" where
  "laid_out E q \<longleftrightarrow> good_path (rq_world_dir q) \<and> rq_world_dir q \<noteq> [] \<and> good_path (rq_staging q) \<and> rq_staging q \<noteq> [] \<and>
     apart (rq_world_dir q) (rq_staging q) \<and> \<not> is_under (rq_world_dir q) (rq_backup_dir q) \<and>
     \<not> is_under (rq_staging q) (rq_backup_dir q) \<and> butlast (rq_staging q) \<noteq> rq_backup_dir q \<and>
     (\<forall>x. rq_staging q \<noteq> archive_name (rq_world_dir q) x) \<and> (\<forall>n. CHR ''/'' \<notin> set (en_ids (be_world E) n 0)) \<and>
     names_fit E (rq_world q) (rq_backup_dir q)"

definition artifact_with :: "backup_env \<Rightarrow> restore_request \<Rightarrow> backup_sys \<Rightarrow> string \<Rightarrow> (path \<times> string) set \<Rightarrow> bool" where
  "artifact_with E q s i fs \<longleftrightarrow> (\<exists>a. find_artifact i (bs_store s) = Some a \<and>
     holds_files (be_zip E) (bs_tree s) (path_parts (ar_path a)) fs \<and>
     \<not> is_under (rq_staging q) (path_parts (ar_path a)) \<and> \<not> is_under (rq_world_dir q) (path_parts (ar_path a)))"

text \<open>Extraction and switch together: the world is what the artifact holds.\<close>

lemma place_artifact:
  assumes x: "extract_to_staging E i (rq_staging q) s = (Inr (), s1)"
    and sw: "switch_world E (rq_world_dir q) (rq_staging q) s1 = (Inr (), s2)"
    and l: "laid_out E q" and t: "tidy (bs_tree s)" and a: "artifact_with E q s i fs"
  shows "tidy (bs_tree s2) \<and> only_files s s2 \<and> files_at (bs_tree s2) (rq_world_dir q) = fs \<and>
     (\<forall>p b. \<not> is_under (rq_staging q) p \<longrightarrow> \<not> is_under (rq_world_dir q) p \<longrightarrow> node (bs_tree s) p = Some (File b) \<longrightarrow>
        node (bs_tree s2) p = Some (File b)) \<and> rows_kept s s2"
proof -
  have d: "good_path (rq_world_dir q)" "rq_world_dir q \<noteq> []" "good_path (rq_staging q)" "rq_staging q \<noteq> []"
    "apart (rq_world_dir q) (rq_staging q)" "\<And>x. rq_staging q \<noteq> archive_name (rq_world_dir q) x"
    "\<And>n. CHR ''/'' \<notin> set (en_ids (be_world E) n 0)"
    using l by (auto simp: laid_out_def)
  obtain r where r: "find_artifact i (bs_store s) = Some r" "holds_files (be_zip E) (bs_tree s) (path_parts (ar_path r)) fs"
    "\<not> is_under (rq_staging q) (path_parts (ar_path r))"
    using a by (auto simp: artifact_with_def)
  note e = extract_to_staging_Inr[OF x t d(3,4) r]
  have "node (bs_tree s1) (rq_staging q) \<noteq> None" using e by simp
  note w = switch_Inr[OF sw conjunct1[OF e] d(1-5) this d(6,7)]
  have f: "files_at (bs_tree s2) (rq_world_dir q) = files_at (bs_tree s1) (rq_staging q)" using w by (simp add: files_at_def)
  have "node (bs_tree s2) p = Some (File b)" if p: "\<not> is_under (rq_staging q) p" "\<not> is_under (rq_world_dir q) p"
    "node (bs_tree s) p = Some (File b)" for p b
  proof -
    have "node (bs_tree s1) p = Some (File b)" using e p unfolding kept_outside_def by blast
    then show ?thesis using w p by blast
  qed
  moreover have "only_files s s2" using e w fi.rel_trans by blast
  moreover from this have "rows_kept s s2" by (simp add: only_files_def rows_kept_def)
  ultimately show ?thesis using e w f by blast
qed

text \<open>What neither files nor artifacts notice.\<close>

definition books_only :: "backup_sys \<Rightarrow> backup_sys \<Rightarrow> bool" where
  "books_only s t \<longleftrightarrow> bs_tree t = bs_tree s \<and> artifacts (bs_store t) = artifacts (bs_store s)"

interpretation bo: state_order books_only
  by unfold_locales (auto simp: books_only_def)

lemma bo_host: "bo.stays (host E f)"
  by (simp add: bo.stays_def host_def books_only_def tick_def)

lemma bo_world: "fl.stays m \<Longrightarrow> bo.stays (on_world wrap m)"
  by (rule bo.staysI) (auto simp: on_world_def books_only_def archives_kept_def split: prod.splits sum.splits dest!: fl.staysD)

lemma bo_write_state: "bo.stays (write_world_state E w new)"
  unfolding write_world_state_def
  by (intro bo.stays_bind bo_host bo.stays_change) (simp add: books_only_def put_store_def)

lemma bo_outcome: "bo.stays (update_restore_outcome E i x)"
  unfolding update_restore_outcome_def by (intro bo.stays_bind bo_host bo.stays_change) (simp add: books_only_def)

lemma record_history_Inr:
  assumes "record_history E w oid source pre user result back s = (Inr i, t)"
  shows "books_only s t \<and> rows_kept s t \<and> (\<exists>now. bs_restores t = bs_restores s @ [restore_of i w oid source pre user result back now])"
  using assms
  by (auto simp: record_history_def fresh_def run_simps host_Inr insert_restore_def Let_def books_only_def rows_kept_def tick_def
      split: if_splits option.splits)

lemma write_state_Inr:
  assumes "write_world_state E w new s = (Inr u, t)"
  shows "books_only s t \<and> bs_restores t = bs_restores s \<and> (\<forall>r. find_world w (bs_store t) = Some r \<longrightarrow> wo_state r = new)"
proof -
  obtain now where t: "worlds (bs_store t) = update_rows (\<lambda>r. wo_id r = w) (\<lambda>r. r\<lparr>wo_state := new, wo_updated_at := now\<rparr>) (worlds (bs_store s))"
    "bs_restores t = bs_restores s"
    using assms by (auto simp: write_world_state_def run_simps host_Inr put_store_def tick_def)
  have "wo_state r = new" if "find_world w (bs_store t) = Some r" for r
    using that unfolding find_world_def t(1)
    by (subst (asm) find_row_update_rows_stable) (auto dest: find_row_SomeD)
  with t(2) bo.staysD[OF bo_write_state assms] show ?thesis by blast
qed

section \<open>The restart\<close>

text \<open>A start rewrites \<open>server.properties\<close>: the files with the console settings put in.\<close>

definition provisioned :: "int \<Rightarrow> string \<Rightarrow> (path \<times> string) set \<Rightarrow> (path \<times> string) set \<Rightarrow> bool" where
  "provisioned port pw fs fs' \<longleftrightarrow> (\<exists>old. (case old of None \<Rightarrow> \<forall>x. ([''server.properties''], x) \<notin> fs
       | Some x \<Rightarrow> ([''server.properties''], x) \<in> fs) \<and>
     fs' = {(u, x) \<in> fs. u \<noteq> [''server.properties'']} \<union> {([''server.properties''], rcon_text port pw old)})"

text \<open>What a rewriting of the properties in \<open>d\<close> does to a tidy tree.\<close>

definition rewritten :: "path \<Rightarrow> tree \<Rightarrow> tree \<Rightarrow> bool" where
  "rewritten d t t' \<longleftrightarrow> tidy t' \<and>
     (\<forall>p b. \<not> is_under d p \<longrightarrow> node t p = Some (File b) \<longrightarrow> node t' p = Some (File b))"

lemma rewrite_place:
  assumes run: "rewrite_properties d port pw t = (ok, t')" and t: "tidy t" and d: "good_path d"
  shows "rewritten d t t' \<and> (ok \<longrightarrow> provisioned port pw (files_at t d) (files_at t' d))"
proof -
  let ?p = "d @ [''server.properties'']"
  have gp: "good_path ?p" using d by (simp add: good_name_def)
  show ?thesis
  proof (cases "make_dirs [] d t")
    case None
    with run t show ?thesis by (auto simp: rewrite_properties_def rewritten_def)
  next
    case (Some t1)
    have t1: "tidy t1" by (rule tidy_make_dirs[OF Some t]) (simp add: d)
    note at = make_dirs_at[OF Some tidyD(1)[OF t], simplified, OF good_no_dots[OF d]]
    have files: "node t1 p = Some (File b) \<longleftrightarrow> node t p = Some (File b)" for p b
      using at by (metis fnode.distinct(1) option.distinct(1) option.inject)
    have fs: "files_at t1 d = files_at t d" using files by (simp add: files_at_def)
    have st: "stat t1 ?p = node t1 ?p" by (rule stat_plain[OF tidyD(1)[OF t1] good_no_dots[OF gp]])
    define old where "old = (case node t1 ?p of Some (File x) \<Rightarrow> Some x | _ \<Rightarrow> None)"
    show ?thesis
    proof (cases ok)
      case False
      with run Some have "t' = t1" by (auto simp: rewrite_properties_def Let_def split: if_splits option.splits)
      with False t1 files show ?thesis by (simp add: rewritten_def)
    next
      case True
      with run Some st have nd: "node t1 ?p \<noteq> Some Dir" and w: "write_file ?p (rcon_text port pw old) t1 = Some t'"
        by (auto simp: rewrite_properties_def Let_def old_def split: if_splits option.splits)
      have t': "t' = put_node ?p (File (rcon_text port pw old)) t1"
        using w tidyD(1)[OF t1] good_no_dots[OF gp] by (auto simp: write_file_def resolve_plain split: if_splits)
      have "tidy t'" by (rule tidy_write[OF w t1 gp]) simp
      moreover have "node t' p = Some (File b)" if "\<not> is_under d p" "node t p = Some (File b)" for p b
        using that files by (auto simp: t' node_put is_under_append)
      moreover have "provisioned port pw (files_at t d) (files_at t' d)"
        unfolding provisioned_def
      proof (intro exI[of _ old] conjI)
        have n: "node t1 ?p \<noteq> Some (Link l)" for l using tidyD(1)[OF t1] by (auto simp: link_free_def)
        show "case old of None \<Rightarrow> \<forall>x. ([''server.properties''], x) \<notin> files_at t d
           | Some x \<Rightarrow> ([''server.properties''], x) \<in> files_at t d"
          unfolding fs[symmetric] using nd n
          by (auto simp: old_def files_at_def split: option.splits fnode.splits)
        show "files_at t' d = {(u, x) \<in> files_at t d. u \<noteq> [''server.properties'']} \<union>
            {([''server.properties''], rcon_text port pw old)}"
          unfolding fs[symmetric] by (auto simp: files_at_def t' node_put split: if_splits)
      qed
      ultimately show ?thesis by (simp add: rewritten_def)
    qed
  qed
qed

text \<open>The driver leaves the artifacts alone.\<close>

definition shelf_kept :: "world_sys \<Rightarrow> world_sys \<Rightarrow> bool" where
  "shelf_kept s t \<longleftrightarrow> artifacts (ws_store t) = artifacts (ws_store s)"

lemma shelf_frame: "store_frame (ws_store s) (ws_store t) \<Longrightarrow> shelf_kept s t"
  by (simp add: shelf_kept_def store_frame_def)

interpretation sh: driver_law shelf_kept
proof
  fix s t :: world_sys and E w new intent q
  assume "set_world_state E w new intent s = (q, t)"
  then show "shelf_kept s t" by (auto simp: shelf_kept_def archives_kept_def dest: set_state_archives)
next
  fix s t :: world_sys and i now a st'
  assume "audit_write i now a (ws_store s) = Some st'" "ws_ops t = (ws_ops s)\<lparr>os_store := st'\<rparr>"
  then show "shelf_kept s t" by (auto simp: shelf_kept_def dest!: audit_write_Some)
next
  fix s t :: world_sys and u now req allow x
  assume "create_with_replay u now req OS_QUEUED allow (ws_ops s) = Inr (x, ws_ops t)"
  then show "shelf_kept s t" by (intro shelf_frame) (rule create_with_replay_keeps)
next
  fix s t :: world_sys and u now i st ti r
  assume "transition u now i st ti (ws_ops s) = Inr (r, ws_ops t)"
  then show "shelf_kept s t" by (intro shelf_frame) (rule transition_keeps)
next
  fix s t :: world_sys and now i c
  assume "claim_queued now i (ws_ops s) = (c, ws_ops t)"
  then show "shelf_kept s t" using claim_keeps[of "ws_ops s" now i] by (intro shelf_frame) simp_all
qed (auto simp: shelf_kept_def)

text \<open>A restart leaves rows of artifacts and history alone, and of the files it touches only those in the
  directory of the world; one that succeeds has put the console settings in.\<close>

lemma restart_places:
  assumes run: "restart_succeeded E w s = (Inr up, t)" and td: "tidy (bs_tree s)" and d: "good_path d"
    and place: "\<forall>r. find_world w (bs_store s) = Some r \<longrightarrow> path_parts (world_dir r (bs_sys s)) = d"
  shows "artifacts (bs_store t) = artifacts (bs_store s) \<and> rewritten d (bs_tree s) (bs_tree t) \<and>
     (up \<longrightarrow> (\<exists>r pw. find_world w (bs_store s) = Some r \<and>
        provisioned (wo_port r + 10) pw (files_at (bs_tree s) d) (files_at (bs_tree t) d)))"
proof (cases "be_probe E")
  case False
  with run td show ?thesis by (auto simp: restart_succeeded_def run_simps rewritten_def)
next
  case True
  obtain x u where st: "start (be_world E) w ACTOR_SYSTEM None True None (bs_sys s) = (x, u)" by fastforce
  have t: "bs_sys t = u" "up \<longleftrightarrow> (\<exists>v. x = Inr v)"
    using run True st by (auto simp: restart_succeeded_def restart_and_confirm_def try_run_def on_world_def
        bind_run_def ret_def split: sum.splits)
  have "artifacts (bs_store t) = artifacts (bs_store s)"
    using sh.staysD[OF sh.stays_start st] t(1) by (simp add: shelf_kept_def)
  moreover from start_tree[OF st] have "rewritten d (bs_tree s) (bs_tree t) \<and> (up \<longrightarrow> (\<exists>r pw. find_world w (bs_store s) = Some r \<and>
        provisioned (wo_port r + 10) pw (files_at (bs_tree s) d) (files_at (bs_tree t) d)))"
  proof
    assume "ws_tree u = bs_tree s \<and> (\<exists>e. x = Inl e)"
    with t td show ?thesis by (auto simp: rewritten_def)
  next
    assume "\<exists>r pw ok. find_world w (bs_store s) = Some r \<and>
        rewrite_properties (path_parts (world_dir r (bs_sys s))) (wo_port r + 10) pw (bs_tree s) = (ok, ws_tree u) \<and>
        ((\<exists>v. x = Inr v) \<longrightarrow> ok)"
    then obtain r pw ok where r: "find_world w (bs_store s) = Some r" "(\<exists>v. x = Inr v) \<longrightarrow> ok"
      and rw: "rewrite_properties d (wo_port r + 10) pw (bs_tree s) = (ok, ws_tree u)"
      using place by auto
    from rewrite_place[OF rw td d] r t show ?thesis by auto
  qed
  ultimately show ?thesis by blast
qed

lemma restart_history: "restart_succeeded E w s = (r, t) \<Longrightarrow> bs_restores t = bs_restores s"
  by (auto simp: restart_succeeded_def try_run_def on_world_def ret_def split: if_splits prod.splits sum.splits)

lemma outcome_Inr:
  assumes "update_restore_outcome E i x s = (Inr u, t)" and "h \<in> set (bs_restores s)" and "rr_id h = i"
  shows "\<exists>h'\<in>set (bs_restores t). rr_id h' = i \<and> rr_outcome h' = x \<and> rr_operation h' = rr_operation h"
proof -
  obtain now where "bs_restores t = update_rows (\<lambda>r. rr_id r = i) (\<lambda>r. r\<lparr>rr_outcome := x, rr_finished_at := now\<rparr>) (bs_restores s)"
    using assms(1) by (auto simp: update_restore_outcome_def run_simps host_Inr)
  then show ?thesis using assms(2,3) by (intro bexI[of _ "h\<lparr>rr_outcome := x, rr_finished_at := now\<rparr>"]) (auto simp: update_rows_def)
qed

text \<open>The pre-restore artifact, seen from a later state.\<close>

definition saved :: "backup_env \<Rightarrow> restore_request \<Rightarrow> string \<Rightarrow> (path \<times> string) set \<Rightarrow> backup_sys \<Rightarrow> bool" where
  "saved E q i old s \<longleftrightarrow> (\<exists>a. find_artifact i (bs_store s) = Some a \<and> ar_category a = PRE_RESTORE \<and>
     ar_operation a = rq_operation q) \<and> artifact_with E q s i old"

lemma saved_kept: "saved E q i old s \<Longrightarrow> books_only s t \<Longrightarrow> saved E q i old t"
  by (simp add: saved_def artifact_with_def books_only_def find_artifact_def)

lemma saved_placed:
  assumes "saved E q i old s" and "artifacts (bs_store t) = artifacts (bs_store s)"
    and "\<And>p b. \<not> is_under (rq_staging q) p \<Longrightarrow> \<not> is_under (rq_world_dir q) p \<Longrightarrow> node (bs_tree s) p = Some (File b) \<Longrightarrow>
        node (bs_tree t) p = Some (File b)"
  shows "saved E q i old t"
proof -
  have st: "find_artifact j (bs_store t) = find_artifact j (bs_store s)" for j using assms(2) by (simp add: find_artifact_def)
  obtain a where a: "find_artifact i (bs_store s) = Some a" "ar_category a = PRE_RESTORE" "ar_operation a = rq_operation q"
    "holds_files (be_zip E) (bs_tree s) (path_parts (ar_path a)) old"
    "\<not> is_under (rq_staging q) (path_parts (ar_path a))" "\<not> is_under (rq_world_dir q) (path_parts (ar_path a))"
    using assms(1) by (auto simp: saved_def artifact_with_def)
  obtain b where b: "node (bs_tree s) (path_parts (ar_path a)) = Some (File b)"
    using a(4) by (auto simp: holds_files_def)
  with assms(3)[OF a(5,6) this] a(4) have "holds_files (be_zip E) (bs_tree t) (path_parts (ar_path a)) old"
    by (simp add: holds_files_def)
  with a st show ?thesis by (simp add: saved_def artifact_with_def)
qed

lemma saved_flag:
  assumes "saved E q i old s" and "flag_suspect j s = (r, t)" and "i \<noteq> j"
  shows "saved E q i old t"
proof -
  have "artifacts (bs_store t) = update_rows (\<lambda>a. ar_id a = j) (\<lambda>a. a\<lparr>ar_suspect := True\<rparr>) (artifacts (bs_store s))"
    "bs_tree t = bs_tree s"
    using assms(2) by (auto simp: flag_suspect_def run_simps put_store_def)
  moreover have "find_row (\<lambda>a. ar_id a = i) (update_rows (\<lambda>a. ar_id a = j) (\<lambda>a. a\<lparr>ar_suspect := True\<rparr>) rows) = Some a"
    if "find_row (\<lambda>a. ar_id a = i) rows = Some a" for rows a
    using that assms(3) by (subst find_row_update_rows_stable) (auto dest: find_row_SomeD)
  ultimately show ?thesis using assms(1) by (auto simp: saved_def artifact_with_def find_artifact_def)
qed

lemma revert_failed_raises: "revert_failed E q rid oid e s \<noteq> (Inr x, t)"
  by (simp add: revert_failed_def run_simps)

lemma files_books: "books_only s t \<Longrightarrow> files_at (bs_tree t) w = files_at (bs_tree s) w"
  by (simp add: books_only_def)

lemma backup_saved:
  assumes bk: "create_world_backup E (rq_world q) (rq_world_dir q) (rq_backup_dir q) (rq_operation q) PRE_RESTORE False s = (Inr pre, s1)"
    and z: "zip_law (be_zip E)" and l: "laid_out E q" and td: "tidy (bs_tree s)"
    and free: "places_free (bs_tree s) E (rq_world q) (rq_backup_dir q)" and ar: "archivable (bs_tree s) (rq_world_dir q)"
    and a: "artifact_with E q s i fs"
  shows "saved E q (br_artifact pre) (files_at (bs_tree s) (rq_world_dir q)) s1 \<and> tidy (bs_tree s1) \<and>
     artifact_with E q s1 i fs \<and> br_artifact pre \<noteq> i \<and> bs_restores s1 = bs_restores s \<and> rows_kept s s1"
proof -
  let ?w = "rq_world_dir q" and ?d = "rq_backup_dir q"
  have lo: "names_fit E (rq_world q) ?d" "\<not> is_under ?w ?d" "\<not> is_under (rq_staging q) ?d" "butlast (rq_staging q) \<noteq> ?d"
    using l by (auto simp: laid_out_def)
  obtain b where b: "bs_store s1 = (bs_store s)\<lparr>artifacts := artifacts (bs_store s) @ [b]\<rparr>" "find_artifact (ar_id b) (bs_store s1) = Some b"
    "br_artifact pre = ar_id b" "ar_category b = PRE_RESTORE" "ar_operation b = rq_operation q" "butlast (path_parts (ar_path b)) = ?d"
    "path_parts (ar_path b) \<noteq> []" "holds_files (be_zip E) (bs_tree s1) (path_parts (ar_path b)) (files_at (bs_tree s) ?w)"
    "tidy (bs_tree s1)" "\<And>q n. node (bs_tree s) q = Some n \<Longrightarrow> node (bs_tree s1) q = Some n"
    "\<forall>a'\<in>set (artifacts (bs_store s)). ar_id a' \<noteq> ar_id b" "bs_restores s1 = bs_restores s" "rows_kept s s1"
    using pre_backup_Inr[OF bk z ar td lo(1) free lo(2)] by blast
  have out: "\<not> is_under p (path_parts (ar_path b))" if "\<not> is_under p ?d" "path_parts (ar_path b) \<noteq> p" for p
  proof
    assume "is_under p (path_parts (ar_path b))"
    then obtain r where r: "path_parts (ar_path b) = p @ r" by (auto simp: is_under_iff)
    with that(2) have "?d = p @ butlast r" using b(6) by (cases "r = []") (auto simp: butlast_append)
    then show False using that(1) by simp
  qed
  have "node (bs_tree s1) ?w = Some Dir" using b(10) ar by (simp add: archivable_def)
  then have "path_parts (ar_path b) \<noteq> ?w" using b(8) by (auto simp: holds_files_def)
  moreover have "path_parts (ar_path b) \<noteq> rq_staging q" using b(6) lo(4) by auto
  ultimately have "saved E q (ar_id b) (files_at (bs_tree s) ?w) s1"
    using b(2,4,5,8) out lo by (auto simp: saved_def artifact_with_def)
  moreover obtain c where c: "find_artifact i (bs_store s) = Some c" "holds_files (be_zip E) (bs_tree s) (path_parts (ar_path c)) fs"
    "\<not> is_under (rq_staging q) (path_parts (ar_path c))" "\<not> is_under ?w (path_parts (ar_path c))"
    using a by (auto simp: artifact_with_def)
  moreover have "find_artifact i (bs_store s1) = Some c" using c(1) b(1) by (simp add: find_artifact_def find_row_append)
  moreover have "holds_files (be_zip E) (bs_tree s1) (path_parts (ar_path c)) fs"
    using c(2) b(10) unfolding holds_files_def by blast
  moreover have "ar_id b \<noteq> i" using c(1) b(11) by (auto simp: find_artifact_def dest: find_row_SomeD)
  ultimately show ?thesis using b(3,9,12,13) unfolding artifact_with_def by auto
qed

text \<open>A rollback that returns has put the files of the pre-restore artifact back.\<close>

lemma roll_back_Inr:
  assumes run: "roll_back E q rid pre s = (Inr res, t)" and l: "laid_out E q" and td: "tidy (bs_tree s)"
    and sv: "saved E q pre old s" and ne: "pre \<noteq> rq_artifact q" and h: "h \<in> set (bs_restores s)" "rr_id h = rid"
  shows "re_outcome res = ''reverted'' \<and> re_restore res = rid \<and> files_at (bs_tree t) (rq_world_dir q) = old \<and> saved E q pre old t \<and>
     (\<forall>r. find_world (rq_world q) (bs_store t) = Some r \<longrightarrow> wo_state r = WS_OFF) \<and>
     (\<exists>h'\<in>set (bs_restores t). rr_id h' = rid \<and> rr_outcome h' = ''reverted'' \<and> rr_operation h' = rr_operation h)"
proof -
  obtain s1 o' b s2 where fl: "flag_suspect (rq_artifact q) s = (Inr (), s1)"
    and cr: "on_world WorldFailure (create_op (be_world E) (rollback_request q rid pre) True) s1 = (Inr (o', b), s2)"
    and pb: "put_back E q rid pre (op_id o') s2 = (Inr res, t)"
    using run by (auto simp: roll_back_def run_simps try_run_Inr revert_failed_raises)
  obtain s3 s4 s5 s6 s7 r5 i6 where ex: "extract_to_staging E pre (rq_staging q) s2 = (Inr (), s3)"
    and sw: "switch_world E (rq_world_dir q) (rq_staging q) s3 = (Inr (), s4)"
    and mv: "on_world WorldFailure (move_op (be_world E) (op_id o') OS_COMPLETED plain_transition) s4 = (Inr r5, s5)"
    and hi: "record_history E (rq_world q) (op_id o') pre pre (rq_user q) ''reverted'' (Some rid) s5 = (Inr i6, s6)"
    and up: "update_restore_outcome E rid ''reverted'' s6 = (Inr (), s7)"
    and ws: "write_world_state E (rq_world q) WS_OFF s7 = (Inr (), t)"
    and res: "res = \<lparr>re_restore = rid, re_outcome = ''reverted'', re_rollback = Some (op_id o')\<rparr>"
    using pb by (auto simp: put_back_def run_simps)
  have k1: "bs_tree s1 = bs_tree s" "bs_restores s1 = bs_restores s" using fl by (auto simp: flag_suspect_def run_simps put_store_def)
  have k2: "books_only s1 s2" "bs_restores s2 = bs_restores s1"
    using bo.staysD[OF bo_world[OF fl.stays_create_op] cr] cr by (auto simp: on_world_def split: prod.splits sum.splits)
  have k5: "books_only s4 s5" "bs_restores s5 = bs_restores s4"
    using bo.staysD[OF bo_world[OF fl.stays_move_op] mv] mv by (auto simp: on_world_def split: prod.splits sum.splits)
  have sv2: "saved E q pre old s2" using saved_kept[OF saved_flag[OF sv fl ne] k2(1)] .
  have td2: "tidy (bs_tree s2)" using td k1 k2 by (simp add: books_only_def)
  have "artifact_with E q s2 pre old" using sv2 by (simp add: saved_def)
  note pl = place_artifact[OF ex sw l td2 this]
  have sv4: "saved E q pre old s4" by (rule saved_placed[OF sv2]) (use pl in \<open>simp add: only_files_def\<close>, use pl in blast)
  note rh = record_history_Inr[OF hi] and wr = write_state_Inr[OF ws]
  have o7: "books_only s6 s7" by (rule bo.staysD[OF bo_outcome up])
  have bo: "books_only s4 t"
    using bo.rel_trans[OF k5(1) bo.rel_trans[OF conjunct1[OF rh] bo.rel_trans[OF o7 conjunct1[OF wr]]]] .
  have "saved E q pre old t" by (rule saved_kept[OF sv4 bo])
  moreover have "files_at (bs_tree t) (rq_world_dir q) = old"
    using pl files_books[OF bo] by simp
  moreover have "h \<in> set (bs_restores s6)" using h(1) k1 k2 pl k5 rh by (auto simp: only_files_def)
  then have "\<exists>h'\<in>set (bs_restores t). rr_id h' = rid \<and> rr_outcome h' = ''reverted'' \<and> rr_operation h' = rr_operation h"
    using outcome_Inr[OF up _ h(2)] wr by simp
  ultimately show ?thesis using wr res by simp
qed

definition history_row :: "restore_request \<Rightarrow> string \<Rightarrow> string \<Rightarrow> backup_sys \<Rightarrow> bool" where
  "history_row q rid result s \<longleftrightarrow> (\<exists>h\<in>set (bs_restores s). rr_id h = rid \<and> rr_outcome h = result \<and> rr_operation h = rq_operation q)"

text \<open>The state after the switch.\<close>

lemma restore_switched:
  assumes run: "restore E q s = (Inr res, t)" and z: "zip_law (be_zip E)" and l: "laid_out E q"
    and td: "tidy (bs_tree s)" and free: "places_free (bs_tree s) E (rq_world q) (rq_backup_dir q)"
    and ar: "archivable (bs_tree s) (rq_world_dir q)" and a: "artifact_with E q s (rq_artifact q) fs"
  shows "\<exists>pre rid s4. confirm E q rid pre s4 = (Inr res, t) \<and> tidy (bs_tree s4) \<and> files_at (bs_tree s4) (rq_world_dir q) = fs \<and>
     saved E q pre (files_at (bs_tree s) (rq_world_dir q)) s4 \<and> pre \<noteq> rq_artifact q \<and> history_row q rid ''success'' s4 \<and>
     rows_kept s s4"
proof -
  let ?w = "rq_world_dir q" and ?old = "files_at (bs_tree s) (rq_world_dir q)"
  obtain sa v sb pre s1 s2 s3 rid s4 where al: "restore_allowed q s = (Inr (), sa)"
    and va: "validate_artifact E (rq_artifact q) sa = (Inr v, sb)"
    and bk: "create_world_backup E (rq_world q) ?w (rq_backup_dir q) (rq_operation q) PRE_RESTORE False sb = (Inr pre, s1)"
    and ex: "extract_to_staging E (rq_artifact q) (rq_staging q) s1 = (Inr (), s2)"
    and sw: "switch_world E ?w (rq_staging q) s2 = (Inr (), s3)"
    and hi: "record_history E (rq_world q) (rq_operation q) (rq_artifact q) (br_artifact pre) (rq_user q) ''success'' None s3 = (Inr rid, s4)"
    and rest: "confirm E q rid (br_artifact pre) s4 = (Inr res, t)"
    using run by (auto simp: restore_def bind_run_Inr)
  have "sa = s" using al by (auto simp: restore_allowed_def run_simps)
  then have sb: "sb = s" using validate_Inr[OF va] by simp
  note b = backup_saved[OF bk[unfolded sb] z l td free ar a]
  then have t1: "tidy (bs_tree s1)" and aw: "artifact_with E q s1 (rq_artifact q) fs" by blast+
  note p = place_artifact[OF ex sw l t1 aw]
  have "saved E q (br_artifact pre) ?old s3" by (rule saved_placed[OF conjunct1[OF b]]) (use p in \<open>simp add: only_files_def\<close>, use p in blast)
  moreover note rh = record_history_Inr[OF hi]
  ultimately have "saved E q (br_artifact pre) ?old s4" using saved_kept by blast
  moreover have "files_at (bs_tree s4) ?w = fs" "tidy (bs_tree s4)"
    using p files_books[OF conjunct1[OF rh]] rh by (auto simp: books_only_def)
  moreover have "history_row q rid ''success'' s4" using rh by (auto simp: history_row_def restore_of_def)
  moreover have "rows_kept s s4" using b p rh ro.rel_trans by meson
  ultimately show ?thesis using rest b by blast
qed

text \<open>The last write leaves files and history alone.\<close>

lemma confirm_done:
  assumes ws: "write_world_state E (rq_world q) new s5 = (Inr (), t)" and sv: "saved E q pre old s5"
    and h: "history_row q rid ''success'' s5"
  shows "files_at (bs_tree t) (rq_world_dir q) = files_at (bs_tree s5) (rq_world_dir q) \<and> saved E q pre old t \<and>
     history_row q rid ''success'' t \<and> (\<forall>r. find_world (rq_world q) (bs_store t) = Some r \<longrightarrow> wo_state r = new)"
  using write_state_Inr[OF ws] saved_kept[OF sv] files_books h by (simp add: history_row_def)

text \<open>The world of a restored artifact: its files, with the console settings of the restart in a world
  that was running.\<close>

definition restored :: "restore_request \<Rightarrow> backup_sys \<Rightarrow> (path \<times> string) set \<Rightarrow> (path \<times> string) set \<Rightarrow> bool" where
  "restored q s fs fs' \<longleftrightarrow>
     (if rq_was_running q then \<exists>r pw. find_world (rq_world q) (bs_store s) = Some r \<and> provisioned (wo_port r + 10) pw fs fs'
      else fs' = fs)"


end
