(* ===== verification/Supervisor_Props.thy ===== *)
theory Supervisor_Props
  imports Worlds_Props
begin

text \<open>
  What the supervisor leaves: crashes that a poll found are recorded, and no start stays pending
  after a reconciliation.
\<close>

section \<open>Crashes\<close>

definition closed_kept :: "world_sys \<Rightarrow> world_sys \<Rightarrow> bool" where
  "closed_kept s t \<longleftrightarrow> (\<forall>v. sessions_closed v (ws_store s) \<longrightarrow> sessions_closed v (ws_store t))"

interpretation ck: request_law closed_kept
  by unfold_locales (auto simp: closed_kept_def)

lemma closed_kept_same: "runtime_sessions (ws_store t) = runtime_sessions (ws_store s) \<Longrightarrow> closed_kept s t"
  by (simp add: closed_kept_def sessions_closed_def)

lemma closed_kept_pre: "pre_launch s t \<Longrightarrow> closed_kept s t"
  by (rule closed_kept_same) (simp add: pre_launch_def store_frame_def)

lemma ck_create [stay_rules]: "ck.stays (create_op E req allow)"
  by (rule ck.staysI) (blast intro: closed_kept_pre create_op_pre)

lemma ck_move [stay_rules]: "ck.stays (move_op E i st ti)"
  by (rule ck.staysI) (blast intro: closed_kept_pre move_op_pre)

lemma ck_put [stay_rules]: "ck.stays (set_world_state E w new intent)"
  by (rule ck.staysI, rule closed_kept_same)
    (auto simp: set_world_state_def Let_def tick_def split: option.splits sum.splits)

lemma ck_close [stay_rules]: "ck.stays (close_session E w reason)"
  by (rule ck.staysI) (auto simp: closed_kept_def dest: close_session_Inr(6))

lemma ck_poll_session: "ck.stays (poll_session E r)"
  unfolding poll_session_def process_up_def crashed_world_def record_crash_def by (intro stay_rules)

context driver_calls
begin

lemma stays_poll_session: "stays (poll_session E r)"
  unfolding poll_session_def process_up_def by (intro stay_rules)

end

definition crash_recorded :: "string \<Rightarrow> store \<Rightarrow> bool" where
  "crash_recorded w st \<longleftrightarrow> (\<exists>o'\<in>set (operations st). op_type o' = CRASH_DETECTED \<and> op_world o' = Some w \<and>
     op_status o' = OS_COMPLETED)"

lemma created_crash:
  assumes "create_op E (crash_request now w) True s = (Inr (r, b), t)"
  shows "r \<in> set (operations (ws_store t)) \<and> op_type r = CRASH_DETECTED \<and> op_world r = Some w"
  using assms
  by (auto simp: create_op_def op_call_def create_with_replay_def create_tx_def create_insert_def crash_request_def
      request_for_def Let_def result_simps new_op_row_def insert_op_def split: sum.splits option.splits if_splits)

lemma record_crash_Inr:
  assumes "record_crash E w s = (Inr u, t)" and "books_ok (ws_store s)"
  shows "crash_recorded w (ws_store t)"
proof -
  obtain r b s1 y s2 o' where c: "create_op E (crash_request (now_at E s) w) True s = (Inr (r, b), s1)"
    and m1: "move_op E (op_id r) OS_RUNNING (staged [(''stage'', JStr ''crash_detected'')]) s1 = (Inr y, s2)"
    and m2: "move_op E (op_id r) OS_COMPLETED (staged [(''stage'', JStr ''crashed'')]) s2 = (Inr o', t)"
    using assms(1) by (auto simp: record_crash_def run_simps)
  have ok1: "books_ok (ws_store s1)" using bk.staysD[OF bk.stays_create_op c] assms(2) by (simp add: books_kept_def)
  have k: "books_kept s1 t"
    using bk.staysD[OF bk.stays_move_op m1] bk.staysD[OF bk.stays_move_op m2] ok1 rows_evolve_trans
    unfolding books_kept_def by blast
  have evo: "ops_ok (operations (ws_store t))" "rows_evolve (operations (ws_store s1)) (operations (ws_store t))"
    using k ok1 by (simp_all add: books_kept_def books_ok_def)
  note r = created_crash[OF c]
  obtain r' where r': "r' \<in> set (operations (ws_store t))" "row_evolves r r'"
    using rows_evolve_member[OF evo(2)] r by blast
  have "find_op (op_id r) (ws_store t) = Some r'"
    using find_op_unique[OF evo(1) r'(1)] r'(2) by (simp add: row_evolves_def)
  with move_op_Inr(1,2)[OF m2] have "op_status r' = OS_COMPLETED" by simp
  with r' r show ?thesis by (auto simp: crash_recorded_def row_evolves_def)
qed

definition crash_left :: "string \<Rightarrow> store \<Rightarrow> bool" where
  "crash_left w st \<longleftrightarrow> (\<exists>r. find_world w st = Some r \<and> wo_state r = WS_CRASHED) \<and> sessions_closed w st \<and>
     crash_recorded w st"

lemma crash_left_kept:
  assumes "crash_left w (ws_store s)" and "books_ok (ws_store s)"
    and "moves s t" and "books_kept s t" and "closed_kept s t"
  shows "crash_left w (ws_store t)"
proof -
  obtain r where r: "find_world w (ws_store s) = Some r" "wo_state r = WS_CRASHED"
    using assms(1) by (auto simp: crash_left_def)
  obtain r' where "find_world w (ws_store t) = Some r'" "world_moved r r'" using movesD[OF assms(3) r(1)] by blast
  then have "\<exists>r. find_world w (ws_store t) = Some r \<and> wo_state r = WS_CRASHED"
    using driver_path_stuck[of "wo_state r" "wo_state r'"] r(2) by (auto simp: world_moved_def)
  moreover have "crash_recorded w (ws_store t)"
    using assms(1,2,4) rows_evolve_member
    by (fastforce simp: crash_left_def crash_recorded_def books_kept_def row_evolves_def)
  ultimately show ?thesis using assms(1,5) by (simp add: crash_left_def closed_kept_def)
qed

lemma poll_session_Inr:
  assumes "poll_session E r s = (Inr ws, t)" and "books_ok (ws_store s)"
  shows "ws = [] \<and> seen_alive E \<or> ws = [rs_world r] \<and> crash_left (rs_world r) (ws_store t)"
proof -
  obtain up s1 where u: "process_up E (rs_world r) s = (Inr up, s1)"
    and k: "(if up then ret [] else then_run (close_session E (rs_world r) ER_CRASHED)
         (then_run (crashed_world E (rs_world r)) (ret [rs_world r]))) s1 = (Inr ws, t)"
    using assms(1) by (auto simp: poll_session_def run_simps)
  show ?thesis
  proof (cases up)
    case True
    then have "seen_alive E"
      using u unfolding seen_alive_def by (auto simp: process_up_def run_simps ask_Inr split: option.splits) blast
    with True k show ?thesis by (simp add: run_simps)
  next
    case False
    obtain v s2 p s3 q where c: "close_session E (rs_world r) ER_CRASHED s1 = (Inr v, s2)"
      and st: "put_state E (rs_world r) WS_CRASHED s2 = (Inr p, s3)"
      and rc: "record_crash E (rs_world r) s3 = (Inr q, t)" and ws: "ws = [rs_world r]"
      using k False by (auto simp: run_simps crashed_world_def)
    have up': "idle.stays (process_up E (rs_world r))" unfolding process_up_def by (intro stay_rules)
    have "ws_ops s1 = ws_ops s" by (rule idle.staysD[OF up' u])
    then have ok3: "books_ok (ws_store s3)"
      using assms(2) bk.staysD[OF bk.stays_close_session c] bk.staysD[OF bk.stays_put st] by (simp add: books_kept_def)
    have pre: "pre_launch s3 t"
      using rc by (auto simp: record_crash_def run_simps dest!: create_op_pre move_op_pre intro: pre_launch_trans)
    have "sessions_closed (rs_world r) (ws_store t)"
      using close_session_Inr(5)[OF c] put_state_Inr(3)[OF st] pre
      by (simp add: sessions_closed_def pre_launch_def store_frame_def)
    moreover have "find_world (rs_world r) (ws_store t) = find_world (rs_world r) (ws_store s3)"
      by (rule find_world_frame) (use pre in \<open>simp add: pre_launch_def store_frame_def\<close>)
    ultimately show ?thesis
      using ws put_state_Inr(1)[OF st] record_crash_Inr[OF rc ok3] by (simp add: crash_left_def)
  qed
qed

lemma poll_sessions_Inr:
  assumes "for_each (poll_session E) rs s = (Inr ws, t)" and "books_ok (ws_store s)"
  shows "(\<forall>w\<in>set ws. crash_left w (ws_store t)) \<and> subseq ws (map rs_world rs)"
  using assms
proof (induction rs arbitrary: s ws)
  case Nil
  then show ?case by (simp add: run_simps)
next
  case (Cons r rs)
  obtain a s1 b where p: "poll_session E r s = (Inr a, s1)" and l: "for_each (poll_session E) rs s1 = (Inr b, t)"
    and ws: "ws = a @ b" using Cons.prems(1) by (auto simp: run_simps)
  have ok1: "books_ok (ws_store s1)"
    using bk.staysD[OF bk.stays_poll_session p] Cons.prems(2) by (simp add: books_kept_def)
  note ih = Cons.IH[OF l ok1]
  have "crash_left (rs_world r) (ws_store t)" if "crash_left (rs_world r) (ws_store s1)"
    by (rule crash_left_kept[OF that ok1])
      (rule mv.staysD[OF mv.stays_for_each[OF lc.stays_poll_session] l]
        bk.staysD[OF bk.stays_for_each[OF bk.stays_poll_session] l]
        ck.staysD[OF ck.stays_for_each[OF ck_poll_session] l])+
  with poll_session_Inr[OF p Cons.prems(2)] ih ws show ?case by auto
qed

text \<open>
  C21: a crash that a poll reports is on record. When the poll of the running worlds succeeds,
  the worlds it returns are worlds with an open session, in the order of the sessions, and each
  of them is now crashed, has no open session and has a completed crash operation.
\<close>
theorem reported_crashes_are_recorded:
  assumes "poll_running E s = (Inr ws, t)" and "books_ok (ws_store s)"
  shows "subseq ws (map rs_world (open_sessions (ws_store s))) \<and>
     (\<forall>w\<in>set ws. (\<exists>r. find_world w (ws_store t) = Some r \<and> wo_state r = WS_CRASHED) \<and>
        sessions_closed w (ws_store t) \<and> crash_recorded w (ws_store t))"
  using poll_sessions_Inr[of E "open_sessions (ws_store s)" s ws t] assms
  by (simp add: poll_running_def run_simps crash_left_def)

section \<open>Reconciliation\<close>

text \<open>The starts that are pending while their world has no open session, by identifier.\<close>

definition sessionless :: "store \<Rightarrow> op_row \<Rightarrow> bool" where
  "sessionless st r \<longleftrightarrow> pending_start r \<and>
     \<not> exists_row (\<lambda>x. op_world r = Some (rs_world x) \<and> rs_ended_at x = None) (runtime_sessions st)"

definition stuck :: "store \<Rightarrow> string set" where
  "stuck st = op_id ` {r \<in> set (operations st). sessionless st r}"

lemma stuck_incomplete: "stuck st = op_id ` set (incomplete_starts_without_sessions st)"
  by (auto simp: stuck_def incomplete_starts_without_sessions_def sessionless_def)

lemma stuck_move:
  assumes "move_op E i OS_FAILED ti s = (Inr r, t)"
  shows "stuck (ws_store t) \<subseteq> stuck (ws_store s) - {i}"
proof -
  obtain ops where tr: "transition (en_ids E (ws_tick s)) (now_at E s) i OS_FAILED ti (ws_ops s) = Inr (r, ops)"
    and t: "t = (tick E s)\<lparr>ws_ops := ops\<rparr>"
    using assms by (auto simp: move_op_def op_call_def split: sum.splits)
  obtain cur where cur: "find_op i (ws_store s) = Some cur"
    and e: "transition_effect (now_at E s) OS_FAILED ti cur r (ws_store s) (os_store ops)"
    by (rule transition_cases[OF tr]) auto
  have ci: "op_id cur = i" using cur by (auto dest: find_op_SomeD)
  have r: "op_id r = i" "op_status r = OS_FAILED" using e ci by (auto simp: transition_effect_def transitioned_row_def)
  have ops: "operations (os_store ops) = update_rows (\<lambda>x. op_id x = i) (\<lambda>_. r) (operations (ws_store s))"
    using e ci by (simp add: transition_effect_def)
  have "runtime_sessions (ws_store t) = runtime_sessions (ws_store s)" by (rule move_op_Inr(5)[OF assms]) simp
  then show ?thesis
    using r by (auto simp: stuck_def sessionless_def pending_start_def t ops in_update_rows)
qed

lemma put_state_tables:
  "set_world_state E w new intent s = (res, t) \<Longrightarrow>
     operations (ws_store t) = operations (ws_store s) \<and> runtime_sessions (ws_store t) = runtime_sessions (ws_store s)"
  by (auto simp: set_world_state_def Let_def split: option.splits sum.splits)

lemma fail_leftover_Inr:
  assumes "fail_leftover E r s = (Inr x, t)"
  shows "stuck (ws_store t) \<subseteq> stuck (ws_store s) - {op_id r}"
proof -
  obtain i row u s1 y where st: "settle_state E row s = (Inr u, s1)"
    and m: "move_op E (op_id r) OS_FAILED (failure ''manager_restart_incomplete''
       (Some ''Start was interrupted by manager restart before process recovery.'')) s1 = (Inr y, t)"
    using assms by (auto simp: fail_leftover_def fail_interrupted_start_def fail_op_def run_simps world_of_Inr)
  have "stuck (ws_store s1) = stuck (ws_store s)"
    using st unfolding stuck_def sessionless_def
    by (cases "wo_state row") (auto simp: settle_state_def run_simps dest!: put_state_tables)
  with stuck_move[OF m] show ?thesis by simp
qed

lemma fail_leftovers_Inr:
  assumes "for_each (fail_leftover E) rs s = (Inr x, t)"
  shows "stuck (ws_store t) \<subseteq> stuck (ws_store s) - op_id ` set rs"
  using assms
proof (induction rs arbitrary: s x)
  case Nil
  then show ?case by (simp add: run_simps)
next
  case (Cons r rs)
  obtain a s1 b where "fail_leftover E r s = (Inr a, s1)" and "for_each (fail_leftover E) rs s1 = (Inr b, t)"
    using Cons.prems by (auto simp: run_simps)
  with fail_leftover_Inr Cons.IH show ?case by fastforce
qed

lemma reattached_sessions:
  assumes "for_each (reconcile_session E) rs s = (Inr ws, t)"
  shows "subseq ws (map rs_world rs) \<and>
     (\<forall>r\<in>set rs. rs_world r \<in> set ws \<or> (\<exists>n p. en_probe E n = Inr p \<and> \<not> (pr_found p \<and> pr_matched p)))"
  using assms
proof (induction rs arbitrary: s ws)
  case Nil
  then show ?case by (simp add: run_simps)
next
  case (Cons r rs)
  obtain a s1 b where r: "reconcile_session E r s = (Inr a, s1)" and "for_each (reconcile_session E) rs s1 = (Inr b, t)"
    and ws: "ws = a @ b"
    using Cons.prems by (auto simp: run_simps)
  moreover have "a = [rs_world r] \<or> a = [] \<and> (\<exists>n p. en_probe E n = Inr p \<and> \<not> (pr_found p \<and> pr_matched p))"
    using r by (auto simp: reconcile_session_def Let_def run_simps ask_Inr split: if_splits)
  ultimately show ?case using Cons.IH[of s1 b] by auto
qed

text \<open>
  C20: after a restart nothing is left half started. A reconciliation that succeeds leaves no
  start pending on a world without an open session; it reattaches worlds with an open session
  only, and gives one up only when a probe with the fingerprint of the session did not find its
  process.
\<close>
theorem reconcile_leaves_no_stuck_start:
  assumes "reconcile E s = (Inr ws, t)"
  shows "incomplete_starts_without_sessions (ws_store t) = [] \<and>
     subseq ws (map rs_world (open_sessions (ws_store s))) \<and>
     (\<forall>r\<in>set (open_sessions (ws_store s)). rs_world r \<in> set ws \<or>
        (\<exists>n p. en_probe E n = Inr p \<and> \<not> (pr_found p \<and> pr_matched p)))"
proof -
  obtain s1 x where a: "for_each (reconcile_session E) (open_sessions (ws_store s)) s = (Inr ws, s1)"
    and b: "for_each (fail_leftover E) (incomplete_starts_without_sessions (ws_store s1)) s1 = (Inr x, t)"
    using assms by (auto simp: reconcile_def run_simps)
  have "stuck (ws_store t) = {}" using fail_leftovers_Inr[OF b] by (simp add: stuck_incomplete)
  with reattached_sessions[OF a] show ?thesis by (simp add: stuck_incomplete)
qed

end
