(* ===== verification/Mutations_Props.thy ===== *)
theory Mutations_Props
  imports Worlds_Props
begin

text \<open>
  The queued changes of worlds: the row of a world survives its JSON payload, and a change that
  was dispatched twice does nothing the second time.
\<close>

section \<open>Rows and their JSON\<close>

definition world_json :: "world_row \<Rightarrow> jdict" where
  "world_json r = map (\<lambda>(k, f). (k, f r)) world_columns"

lemma world_col_json: "same_columns (world_json r) r"
  by (simp add: same_columns_def world_json_def world_col_def world_columns_def)

lemma update_rows_none: "(\<And>x. x \<in> set rs \<Longrightarrow> \<not> p x) \<Longrightarrow> update_rows p f rs = rs"
  by (induction rs) (auto simp: update_rows_def)

lemma update_rows_twice:
  "(\<And>x. p x \<Longrightarrow> \<not> p (f x)) \<Longrightarrow> update_rows p f (update_rows p f rs) = update_rows p f rs"
  by (rule update_rows_none) (auto simp: in_update_rows)

lemma server_type_of_value: "server_type_of (server_type_value t) = Some t"
  by (cases t) (simp_all add: server_type_of_def)

lemma world_state_of_value: "world_state_of (world_state_value t) = Some t"
  by (cases t) (simp_all add: world_state_of_def)

lemma json_strings_map: "json_strings (map JStr xs) = Some xs"
  by (simp add: json_strings_def list_all_iff comp_def)

lemma jget_world_json: "jget k (world_json r) = world_col k r"
  by (simp add: jget_def world_json_def world_col_def world_columns_def)

lemma world_cols:
  "world_col ''world_id'' r = Some (JStr (wo_id r))" "world_col ''display_name'' r = Some (JStr (wo_display_name r))"
  "world_col ''template_id'' r = Some (JStr (wo_template r))"
  "world_col ''server_type'' r = Some (JStr (server_type_value (wo_server_type r)))"
  "world_col ''mc_version'' r = Some (JStr (wo_mc_version r))"
  "world_col ''java_runtime_id'' r = Some (JStr (wo_java_runtime r))" "world_col ''port'' r = Some (JInt (wo_port r))"
  "world_col ''addressing_strategy'' r = Some (JStr (wo_strategy r))"
  "world_col ''addressing_value'' r = Some (JStr (wo_address r))"
  "world_col ''state'' r = Some (JStr (world_state_value (wo_state r)))"
  "world_col ''pre_backup_state'' r = Some (jopt_str (map_option world_state_value (wo_pre_backup r)))"
  "world_col ''launch_args'' r = Some (launch_json (wo_launch_args r))"
  "world_col ''metadata_version'' r = Some (JInt (wo_metadata_version r))"
  "world_col ''deleted_at'' r = Some (jopt_int (wo_deleted_at r))"
  "world_col ''deleted_by'' r = Some (jopt_str (wo_deleted_by r))"
  "world_col ''created_at'' r = Some (JInt (wo_created_at r))" "world_col ''updated_at'' r = Some (JInt (wo_updated_at r))"
  by (simp_all add: world_col_def world_columns_def)

lemma jopt_text: "(case jopt_str x of JStr s \<Rightarrow> Some s | _ \<Rightarrow> None) = x"
  by (cases x) simp_all

lemma jopt_number: "(case jopt_int x of JInt i \<Rightarrow> Some i | _ \<Rightarrow> None) = x"
  by (cases x) simp_all

lemma launch_roundtrip: "launch_of_json (launch_json a) = Some a \<or> launch_of_json (launch_json a) = None"
  by (cases a rule: launch_json.cases) (simp_all add: json_strings_map)

lemma world_of_world_json: "world_of_json (world_json r) = Some r \<or> world_of_json (world_json r) = None"
proof -
  have p: "Option.bind (map_option world_state_value (wo_pre_backup r)) world_state_of = wo_pre_backup r"
    by (cases "wo_pre_backup r") (simp_all add: world_state_of_value)
  from launch_roundtrip[of "wo_launch_args r"] show ?thesis
    by (auto simp: world_of_json_def jget_world_json world_cols Let_def jopt_text jopt_number p server_type_of_value
        world_state_of_value)
qed


section \<open>Doing it again\<close>

lemma find_world_append: "find_world i st = None \<Longrightarrow> wo_id r = i \<Longrightarrow>
    find_world i (st\<lparr>worlds := worlds st @ [r]\<rparr>) = Some r"
  by (simp add: find_world_def find_row_append)

lemma find_world_operations: "find_world i (st\<lparr>operations := x\<rparr>) = find_world i st"
  by (simp add: find_world_def)

lemma create_again:
  assumes "create_world_tx oid (world_json r) s = Inr st"
  shows "create_world_tx oid (world_json r) (set_store st s) = Inr st"
proof -
  define g where "g = (\<lambda>o'::op_row. o'\<lparr>op_world := Some (wo_id r)\<rparr>)"
  define p where "p = (\<lambda>o'::op_row. op_id o' = oid \<and> op_world o' = None)"
  define q where "q st' = st'\<lparr>operations := update_rows p g (operations st')\<rparr>" for st' :: store
  have twice: "q (q st') = q st'" for st'
    using update_rows_twice[of p g "operations st'"] by (simp add: q_def p_def g_def)
  have tx: "create_world_tx oid (world_json r) s' = (case find_world (wo_id r) (ws_store s') of
      None \<Rightarrow> (case world_of_json (world_json r) of None \<Rightarrow> Inl constraint_failed
         | Some r' \<Rightarrow> (case insert_world r' s' of None \<Rightarrow> Inl constraint_failed | Some st' \<Rightarrow> Inr (q st')))
    | Some r' \<Rightarrow> if same_columns (world_json r) r' then Inr (q (ws_store s'))
         else Inl (WorldConflictError ''world create operation does not match persisted world''))" for s'
    by (simp add: create_world_tx_def jget_world_json world_cols q_def p_def g_def split: option.split)
  obtain st1 r' where st: "st = q st1" and f: "find_world (wo_id r) st1 = Some r'" and c: "same_columns (world_json r) r'"
  proof (cases "find_world (wo_id r) (ws_store s)")
    case None
    then have "world_of_json (world_json r) = Some r"
      using assms world_of_world_json[of r] by (auto simp: tx split: option.splits)
    with assms None obtain st1 where "insert_world r s = Some st1" "st = q st1"
      by (auto simp: tx split: option.splits)
    then show thesis
      using that[of st1 r] find_world_append[OF None, of r] world_col_json
      by (auto simp: insert_world_def Let_def split: if_splits)
  next
    case (Some r')
    with assms show thesis using that[of "ws_store s" r'] by (simp add: tx split: if_splits)
  qed
  have "find_world (wo_id r) st = Some r'" using f by (simp add: st q_def find_world_operations)
  with c show ?thesis using twice[of st1] by (simp add: tx st)
qed


lemma delete_again:
  assumes "delete_world_tx now user w v st = Inr st'"
  shows "delete_world_tx now' user w v st' = Inr st'"
proof -
  define f where "f = (\<lambda>x::world_row. x\<lparr>wo_deleted_at := Some now, wo_deleted_by := user,
      wo_metadata_version := wo_metadata_version x + 1, wo_updated_at := now\<rparr>)"
  obtain i r where w: "w = Some i" and r: "find_world i st = Some r"
    using assms by (auto simp: delete_world_tx_def split: option.splits bind_splits)
  have id: "wo_id r = i" using r by (auto simp: find_world_def dest: find_row_SomeD)
  show ?thesis
  proof (cases "wo_deleted_at r \<noteq> None \<and> wo_deleted_by r = user \<and> wo_metadata_version r = v + 1")
    case True
    with assms w r show ?thesis by (simp add: delete_world_tx_def)
  next
    case False
    then have st': "st' = st\<lparr>worlds := update_rows (\<lambda>x. wo_id x = i) f (worlds st)\<rparr>" and v: "wo_metadata_version r = v"
      using assms w r id by (auto simp: delete_world_tx_def f_def split: if_splits)
    have "find_world i st' = map_option (\<lambda>x. if wo_id x = i then f x else x) (find_world i st)"
      unfolding find_world_def st' by (simp, rule find_row_update_rows_stable) (simp add: f_def)
    then have "find_world i st' = Some (f r)" using r id by simp
    then show ?thesis by (simp add: delete_world_tx_def w f_def v)
  qed
qed

text \<open>What a runtime configuration writes it reads back.\<close>

definition runtime_keys :: "string list" where
  "runtime_keys = [''java_runtime_id'', ''launch_args'', ''port'', ''addressing_strategy'', ''addressing_value'']"

lemma launch_of_json_back: "launch_of_json v = Some x \<Longrightarrow> launch_json x = v"
proof (cases v rule: launch_of_json.cases)
  case (2 xs)
  assume "launch_of_json v = Some x"
  with 2 obtain as where "json_strings xs = Some as" "x = Some (LaunchArgv as)" by auto
  then have "map JStr as = xs"
    by (auto simp: json_strings_def list_all_iff comp_def split: if_splits json.splits intro!: map_idI)
  with 2 \<open>x = Some (LaunchArgv as)\<close> show ?thesis by simp
qed auto

lemma jstr_of_back: "jstr_of v = Some x \<Longrightarrow> v = JStr x"
  by (cases v) simp_all

lemma jint_of_back: "jint_of v = Some x \<Longrightarrow> v = JInt x"
  by (cases v) simp_all

lemma set_runtime_col_cases:
  assumes "set_runtime_col k v r = Some r'"
  obtains (java) x where "k = ''java_runtime_id''" "v = JStr x" "r' = r\<lparr>wo_java_runtime := x\<rparr>"
  | (args) x where "k = ''launch_args''" "v = launch_json x" "r' = r\<lparr>wo_launch_args := x\<rparr>"
  | (port) x where "k = ''port''" "v = JInt x" "r' = r\<lparr>wo_port := x\<rparr>"
  | (strategy) x where "k = ''addressing_strategy''" "v = JStr x" "r' = r\<lparr>wo_strategy := x\<rparr>"
  | (address) x where "k = ''addressing_value''" "v = JStr x" "r' = r\<lparr>wo_address := x\<rparr>"
proof -
  note d = assms[unfolded set_runtime_col_def]
  show thesis
  proof (cases "k = ''java_runtime_id''")
    case True
    with d obtain x where "jstr_of v = Some x" "r' = r\<lparr>wo_java_runtime := x\<rparr>" by auto
    with True show thesis using java jstr_of_back by metis
  next
    case False
    note d = d[unfolded if_not_P[OF False]]
    show thesis
    proof (cases "k = ''launch_args''")
      case True
      with d obtain x where "launch_of_json v = Some x" "r' = r\<lparr>wo_launch_args := x\<rparr>" by auto
      with True show thesis using args launch_of_json_back by metis
    next
      case False
      note d = d[unfolded if_not_P[OF False]]
      show thesis
      proof (cases "k = ''port''")
        case True
        with d obtain x where "jint_of v = Some x" "r' = r\<lparr>wo_port := x\<rparr>" by auto
        with True show thesis using port jint_of_back by metis
      next
        case False
        note d = d[unfolded if_not_P[OF False]]
        show thesis
        proof (cases "k = ''addressing_strategy''")
          case True
          with d obtain x where "jstr_of v = Some x" "r' = r\<lparr>wo_strategy := x\<rparr>" by auto
          with True show thesis using strategy jstr_of_back by metis
        next
          case False
          note d = d[unfolded if_not_P[OF False]]
          show thesis
          proof (cases "k = ''addressing_value''")
            case True
            with d obtain x where "jstr_of v = Some x" "r' = r\<lparr>wo_address := x\<rparr>" by auto
            with True show thesis using address jstr_of_back by metis
          next
            case False
            note d = d[unfolded if_not_P[OF False]]
            from d show thesis by simp
          qed
        qed
      qed
    qed
  qed
qed

lemma set_runtime_col_reads:
  assumes "set_runtime_col k v r = Some r'"
  shows "k \<in> set runtime_keys" and "world_col k r' = Some v"
    and "wo_id r' = wo_id r \<and> wo_deleted_at r' = wo_deleted_at r \<and> wo_state r' = wo_state r \<and>
      wo_metadata_version r' = wo_metadata_version r"
    and "k' \<in> set runtime_keys \<Longrightarrow> k' \<noteq> k \<Longrightarrow> world_col k' r' = world_col k' r"
proof -
  show "k \<in> set runtime_keys" by (rule set_runtime_col_cases[OF assms]) (simp_all add: runtime_keys_def)
  show "world_col k r' = Some v" by (rule set_runtime_col_cases[OF assms]) (simp_all add: world_cols)
  show "wo_id r' = wo_id r \<and> wo_deleted_at r' = wo_deleted_at r \<and> wo_state r' = wo_state r \<and>
      wo_metadata_version r' = wo_metadata_version r"
    by (rule set_runtime_col_cases[OF assms]) simp_all
  assume k': "k' \<in> set runtime_keys" "k' \<noteq> k"
  have "k' = ''java_runtime_id'' \<or> k' = ''launch_args'' \<or> k' = ''port'' \<or> k' = ''addressing_strategy'' \<or>
      k' = ''addressing_value''"
    using k'(1) by (simp only: runtime_keys_def list.set insert_iff empty_iff simp_thms)
  then show "world_col k' r' = world_col k' r"
    using k'(2) by (elim disjE) (rule set_runtime_col_cases[OF assms]; simp add: world_cols)+
qed

lemma set_runtime_cols_read:
  assumes "set_runtime_cols fs r = Some r'" and "distinct (map fst fs)"
  shows "same_columns fs r' \<and> (\<forall>k'. k' \<in> set runtime_keys \<longrightarrow> k' \<notin> fst ` set fs \<longrightarrow> world_col k' r' = world_col k' r) \<and>
     fst ` set fs \<subseteq> set runtime_keys \<and>
     wo_id r' = wo_id r \<and> wo_deleted_at r' = wo_deleted_at r \<and> wo_state r' = wo_state r \<and>
     wo_metadata_version r' = wo_metadata_version r"
  using assms
proof (induction fs arbitrary: r)
  case Nil
  then show ?case by (simp add: same_columns_def)
next
  case (Cons a fs)
  obtain k v where a: "a = (k, v)" by (cases a)
  obtain r1 where r1: "set_runtime_col k v r = Some r1" "set_runtime_cols fs r1 = Some r'"
    using Cons.prems(1) by (auto simp: a split: option.splits)
  note c = set_runtime_col_reads[OF r1(1)]
  have ih: "same_columns fs r'" "\<And>k'. k' \<in> set runtime_keys \<Longrightarrow> k' \<notin> fst ` set fs \<Longrightarrow> world_col k' r' = world_col k' r1"
    "fst ` set fs \<subseteq> set runtime_keys"
    "wo_id r' = wo_id r1 \<and> wo_deleted_at r' = wo_deleted_at r1 \<and> wo_state r' = wo_state r1 \<and>
     wo_metadata_version r' = wo_metadata_version r1"
    using Cons.IH[OF r1(2)] Cons.prems(2) by (auto simp: a)
  have "k \<notin> fst ` set fs" using Cons.prems(2) by (simp add: a image_iff)
  with ih(2)[OF c(1)] c(2) ih(1) have "same_columns (a # fs) r'" by (simp add: a same_columns_def)
  moreover have "world_col k' r' = world_col k' r" if "k' \<in> set runtime_keys" "k' \<notin> fst ` set (a # fs)" for k'
    using that ih(2)[of k'] c(4)[of k'] by (simp add: a)
  ultimately show ?case using ih(3,4) c(1,3) by (simp add: a)
qed

lemma same_columns_stamp:
  assumes "same_columns fs r" and "fst ` set fs \<subseteq> set runtime_keys"
  shows "same_columns fs (r\<lparr>wo_metadata_version := v, wo_updated_at := now\<rparr>)"
proof -
  have "world_col k (r\<lparr>wo_metadata_version := v, wo_updated_at := now\<rparr>) = world_col k r" if "k \<in> set runtime_keys" for k
    using that by (auto simp: runtime_keys_def world_cols)
  with assms show ?thesis by (fastforce simp: same_columns_def list_all_iff)
qed

lemma runtime_config_again:
  assumes "runtime_config_tx now w v after s = Inr st" and "distinct (map fst after)"
  shows "runtime_config_tx now' w v after (set_store st s) = Inr st"
proof -
  define p where "p = (\<lambda>r::world_row. Some (wo_id r) = w \<and> wo_deleted_at r = None)"
  obtain r where r: "find_row p (worlds (ws_store s)) = Some r"
    using assms(1) by (auto simp: runtime_config_tx_def Let_def p_def split: option.splits)
  note pr = find_row_SomeD[OF r]
  show ?thesis
  proof (cases "wo_metadata_version r = v + 1 \<and> same_columns after r")
    case True
    with assms(1) r show ?thesis by (simp add: runtime_config_tx_def Let_def p_def)
  next
    case False
    then have v: "wo_metadata_version r = v"
      using assms(1) r by (auto simp: runtime_config_tx_def Let_def p_def split: if_splits)
    with assms(1) r False obtain r1 where r1: "set_runtime_cols after r = Some r1"
      and st: "st = (ws_store s)\<lparr>worlds := update_rows (\<lambda>x. wo_id x = wo_id r)
          (\<lambda>_. r1\<lparr>wo_metadata_version := v + 1, wo_updated_at := now\<rparr>) (worlds (ws_store s))\<rparr>"
      by (auto simp: runtime_config_tx_def Let_def p_def split: if_splits option.splits)
    define r2 where "r2 = r1\<lparr>wo_metadata_version := v + 1, wo_updated_at := now\<rparr>"
    note reads = set_runtime_cols_read[OF r1 assms(2)]
    have p2: "p r2" and c2: "same_columns after r2" "wo_metadata_version r2 = v + 1"
      using reads pr same_columns_stamp[of after r1] by (auto simp: r2_def p_def)
    have only: "x = r2" if "x \<in> set (worlds st)" "p x" for x
      using that pr by (auto simp: st in_update_rows r2_def p_def)
    have "r2 \<in> set (worlds st)" using pr by (auto simp: st in_update_rows r2_def)
    with p2 have "\<exists>x. find_row p (worlds st) = Some x" by (auto simp: find_row_Some_iff_ex)
    with only have "find_row p (worlds st) = Some r2" by (auto dest: find_row_SomeD)
    with c2 show ?thesis by (simp add: runtime_config_tx_def Let_def p_def)
  qed
qed

text \<open>
  C23: a queued change of a world may be applied again. When the creation, the deletion or the
  runtime configuration was committed and the manager went down before the operation ended, the
  repeated transaction succeeds and changes nothing, whatever time it is then.
\<close>
theorem queued_changes_are_idempotent:
  assumes "distinct (map fst after)"
  shows "(create_world_tx oid (world_json r) s = Inr st \<longrightarrow>
        create_world_tx oid (world_json r) (set_store st s) = Inr st) \<and>
     (delete_world_tx now user w v (ws_store s) = Inr st \<longrightarrow> delete_world_tx now' user w v st = Inr st) \<and>
     (runtime_config_tx now w v after s = Inr st \<longrightarrow>
        runtime_config_tx now' w v after (set_store st s) = Inr st)"
  using create_again delete_again runtime_config_again[OF _ assms] by blast

end
