(* ===== verification/Worlds_Witness.thy ===== *)
theory Worlds_Witness
  imports Supervisor_Props Mutations_Props "HOL-Library.Code_Target_Nat"
begin

text \<open>
  The properties of the world driver at concrete inputs: one world, a process adapter that
  answers, and calls evaluated in the kernel.
\<close>

section \<open>A sample\<close>

definition sample_handle :: ProcessHandle where
  "sample_handle = \<lparr>ph_world = ''w1'', ph_pid = 42, ph_epoch = 7\<rparr>"

definition sample_env :: world_env where
  "sample_env = \<lparr>en_ids = (\<lambda>n k. int_dec (int (10 * n + k))), en_now = (\<lambda>n. 100 + int n), en_spent = (\<lambda>n. 1),
     en_bound = (\<lambda>n p. False), en_java = (\<lambda>n j. Some ''version \"17\"''),
     en_jars = (\<lambda>n d. [path_join d ''s.jar'']), en_signals = (\<lambda>n. \<lparr>ls_bound = True, ls_pings = True\<rparr>),
     en_spawn = (\<lambda>n. Inr \<lparr>sr_handle = Some sample_handle, sr_error = None\<rparr>),
     en_probe = (\<lambda>n. Inr \<lparr>pr_found = True, pr_handle = Some sample_handle, pr_matched = True\<rparr>),
     en_poll = (\<lambda>n. Inr \<lparr>ps_state = PS_RUNNING, ps_exit = EC_RUNNING\<rparr>), en_stdin = (\<lambda>n. Inr True),
     en_terminate = (\<lambda>n. Inr \<lparr>tr_resolved = True, tr_exit = EC_GRACEFUL\<rparr>), en_tail = (\<lambda>n. Inr ()),
     en_connect = (\<lambda>n. Inr ()), en_ping = (\<lambda>n. Inr True), en_command = (\<lambda>n. Inr ''ok'')\<rparr>"

definition sample_files :: tree where
  "sample_files = [([''w''], Dir), ([''w'', ''eula.txt''], File ''eula=true'')]"

definition sample_eula :: audit_row where
  "sample_eula = \<lparr>au_id = ''aud_1'', au_event = ''world_eula_accepted'', au_actor_type = ACTOR_USER,
     au_user = None, au_username = None, au_device = None, au_device_name = None, au_ip = None,
     au_operation = None, au_world = Some ''w1'', au_payload = None, au_annotation_of = None, au_created_at = 1\<rparr>"

definition world_sample :: "world_row \<Rightarrow> op_row list \<Rightarrow> runtime_session_row list \<Rightarrow> world_sys" where
  "world_sample w ops ses = \<lparr>ws_ops = (sample_sys ops)\<lparr>os_store := empty_store\<lparr>worlds := [w], operations := ops,
       audits := [sample_eula], runtime_sessions := ses\<rparr>\<rparr>,
     ws_tables = (\<lambda>_. []), ws_javas = [(''j17'', ''java'')], ws_tree = sample_files,
     ws_secrets = [], ws_logs = True, ws_audit = True,
     ws_mutating = False, ws_tick = 0, ws_time = 0, ws_calls = []\<rparr>"

definition sample_row :: "WorldState \<Rightarrow> world_row" where
  "sample_row st = sample_world\<lparr>wo_server_type := VANILLA, wo_strategy := ''path'', wo_address := ''/w'',
     wo_launch_args := Some (LaunchArgv [''run'']), wo_state := st\<rparr>"

definition sample_session :: runtime_session_row where
  "sample_session = \<lparr>rs_id = ''rs_1'', rs_world = ''w1'', rs_started_at = 5, rs_ended_at = None,
     rs_end_reason = None, rs_rcon_secret = ''sec_1'', rs_port = 25565, rs_java = ''j17'',
     rs_snapshot = \<lparr>ln_argv = [], ln_pid = 42, ln_epoch = 7, ln_cwd = ''worlds/One'', ln_marker = []\<rparr>,
     rs_rcon_port = Some 0, rs_created_at = 5\<rparr>"

text \<open>The process is gone.\<close>

definition dead_env :: world_env where
  "dead_env = sample_env\<lparr>en_probe := (\<lambda>n. Inr \<lparr>pr_found = False, pr_handle = None, pr_matched = False\<rparr>)\<rparr>"

section \<open>Witnesses\<close>

lemma sample_found: "find_world ''w1'' (ws_store (world_sample (sample_row st) ops ses)) = Some (sample_row st)"
  by (simp add: find_world_def world_sample_def sample_sys_def sample_row_def sample_world_def)

abbreviation sample_off :: world_sys where
  "sample_off \<equiv> world_sample (sample_row WS_OFF) [] []"

abbreviation sample_running :: world_sys where
  "sample_running \<equiv> world_sample (sample_row WS_RUNNING) [sample_op ''op_1'' STOP OS_QUEUED] [sample_session]"

lemma evaluated: "(case m of (r, t) \<Rightarrow> is_ok r \<and> P r t) \<Longrightarrow> \<exists>x t. m = (Inr x, t) \<and> P (Inr x) t"
  by (cases m) (auto simp: is_ok_iff)

lemma sample_books: "books_ok (ws_store sample_running)"
  by (simp add: books_ok_def ops_ok_def world_sample_def sample_sys_def op_audit_count_def sample_eula_def empty_store_def
      sample_op_def new_op_row_def sample_request_def op_audit_def)

definition sample_spawn :: SpawnRequest where
  "sample_spawn = \<lparr>sp_world = ''w1'', sp_command = [''run''], sp_cwd = ''/w'', sp_session = ''rs_70'', sp_log_dir = ''logs/w1''\<rparr>"

lemma sample_start: "\<exists>x t. start sample_env ''w1'' ACTOR_SYSTEM None False None sample_off = (Inr x, t) \<and>
    Inr x = (Inr ''rs_70'' :: world_error + string) \<and> spawns t = [Spawn sample_spawn]"
  by (rule evaluated) code_simp

theorem started_world_is_ready_witness:
  "\<exists>level i. ready sample_env (sample_row WS_OFF) level \<and>
     started ''w1'' ''rs_70'' i level (ws_store (snd (start sample_env ''w1'' ACTOR_SYSTEM None False None sample_off)))"
proof -
  obtain t where t: "start sample_env ''w1'' ACTOR_SYSTEM None False None sample_off = (Inr ''rs_70'', t)"
    using sample_start by auto
  from started_world_is_ready[OF t] show ?thesis by (auto simp: sample_found t)
qed

theorem no_spawn_past_the_gate_witness:
  "eula_audited ''w1'' (ws_store sample_off) \<and> sp_cwd sample_spawn = world_dir (sample_row WS_OFF) sample_off"
proof -
  obtain r t where t: "start sample_env ''w1'' ACTOR_SYSTEM None False None sample_off = (r, t)"
    and q: "Spawn sample_spawn \<in> set (spawns t)"
    using sample_start by fastforce
  have "Spawn sample_spawn \<notin> set (spawns sample_off)" by (simp add: spawns_def world_sample_def)
  from no_spawn_past_the_gate[OF t q this] show ?thesis by (auto simp: sample_found)
qed

theorem kill_is_immediate_witness:
  "\<exists>i t. kill sample_env ''w1'' ACTOR_SYSTEM None None sample_running = (Inr i, t) \<and> ended_clean ''w1'' i (ws_store t) \<and>
     ws_calls t = [Probe ''w1'' [] None, Terminate sample_handle 0]"
proof -
  have "\<exists>i t. kill sample_env ''w1'' ACTOR_SYSTEM None None sample_running = (Inr i, t) \<and> True"
    by (rule evaluated) code_simp
  then obtain i t where t: "kill sample_env ''w1'' ACTOR_SYSTEM None None sample_running = (Inr i, t)" by blast
  have "ws_calls sample_running = []" by (simp add: world_sample_def)
  with kill_is_immediate[OF t] t show ?thesis by (auto simp: sample_env_def)
qed

theorem stop_climbs_the_ladder_witness:
  "\<exists>i t. stop dead_env ''w1'' ACTOR_SYSTEM None None sample_running = (Inr i, t) \<and> ended_clean ''w1'' i (ws_store t)"
proof -
  have "\<exists>i t. stop dead_env ''w1'' ACTOR_SYSTEM None None sample_running = (Inr i, t) \<and> True"
    by (rule evaluated) code_simp
  then obtain i t where t: "stop dead_env ''w1'' ACTOR_SYSTEM None None sample_running = (Inr i, t)" by blast
  from stop_climbs_the_ladder[OF t] t show ?thesis by blast
qed

theorem dispatched_operations_end_witness:
  "\<exists>t. dispatch_lifecycle dead_env sample_running = (Inr [''op_1''], t) \<and>
     (\<exists>o'. find_op ''op_1'' (ws_store t) = Some o' \<and> terminal_status (op_status o'))"
proof -
  have "\<exists>i t. dispatch_lifecycle dead_env sample_running = (Inr i, t) \<and> Inr i = (Inr [''op_1''] :: world_error + string list)"
    by (rule evaluated) code_simp
  then obtain t where t: "dispatch_lifecycle dead_env sample_running = (Inr [''op_1''], t)" by auto
  from dispatched_operations_end[OF t sample_books] t show ?thesis by auto
qed

theorem reported_crashes_are_recorded_witness:
  "\<exists>t. poll_running dead_env sample_running = (Inr [''w1''], t) \<and> sessions_closed ''w1'' (ws_store t)"
proof -
  have "\<exists>i t. poll_running dead_env sample_running = (Inr i, t) \<and> Inr i = (Inr [''w1''] :: world_error + string list)"
    by (rule evaluated) code_simp
  then obtain t where t: "poll_running dead_env sample_running = (Inr [''w1''], t)" by auto
  from reported_crashes_are_recorded[OF t sample_books] t show ?thesis by auto
qed

theorem reconcile_leaves_no_stuck_start_witness:
  "\<exists>ws t. reconcile dead_env sample_running = (Inr ws, t) \<and> incomplete_starts_without_sessions (ws_store t) = []"
proof -
  have "\<exists>ws t. reconcile dead_env sample_running = (Inr ws, t) \<and> True"
    by (rule evaluated) code_simp
  then obtain ws t where t: "reconcile dead_env sample_running = (Inr ws, t)" by blast
  from reconcile_leaves_no_stuck_start[OF t] t show ?thesis by blast
qed

theorem driver_follows_lifecycle_witness:
  "\<exists>r. find_world ''w1'' (ws_store (driver_run dead_env [Reconcile] sample_running)) = Some r \<and>
     driver_edge\<^sup>*\<^sup>* WS_RUNNING (wo_state r) \<and> wo_port r = 25565"
proof -
  obtain r where r: "find_world ''w1'' (ws_store (driver_run dead_env [Reconcile] sample_running)) = Some r"
    "driver_edge\<^sup>*\<^sup>* (wo_state (sample_row WS_RUNNING)) (wo_state r)"
    "r = (sample_row WS_RUNNING)\<lparr>wo_state := wo_state r, wo_pre_backup := wo_pre_backup r, wo_updated_at := wo_updated_at r\<rparr>"
    using driver_follows_lifecycle[OF sample_found] by blast
  have "wo_port r = wo_port (sample_row WS_RUNNING)" by (subst r(3)) simp
  with r(1,2) show ?thesis by (auto simp: sample_row_def sample_world_def)
qed

theorem crashed_worlds_stay_crashed_witness:
  "map_option wo_state (find_world ''w1'' (ws_store (driver_run sample_env
     [Start ''w1'' ACTOR_SYSTEM None False None] (world_sample (sample_row WS_CRASHED) [] [])))) = Some WS_CRASHED"
  using crashed_worlds_stay_crashed[OF sample_found, of WS_CRASHED] by (simp add: sample_row_def)

theorem driver_keeps_books_witness: "books_ok (ws_store (driver_run sample_env [Reconcile] sample_running))"
  using driver_keeps_books[OF sample_books] by blast

theorem queued_changes_are_idempotent_witness:
  "\<exists>st. delete_world_tx 9 (Some ''u'') (Some ''w1'') 1 (ws_store sample_off) = Inr st \<and>
     delete_world_tx 10 (Some ''u'') (Some ''w1'') 1 st = Inr st"
proof -
  have "\<exists>st. delete_world_tx 9 (Some ''u'') (Some ''w1'') 1 (ws_store sample_off) = Inr st"
    using sample_found[of WS_OFF "[]" "[]"] by (simp add: delete_world_tx_def sample_row_def sample_world_def)
  moreover have "distinct (map fst ([]::jdict))" by simp
  ultimately show ?thesis using queued_changes_are_idempotent by blast
qed

end
