(* ===== verification/Restore_Witness.thy ===== *)
theory Restore_Witness
  imports Restore_Props Worlds_Witness
begin

text \<open>
  Backups and restores at concrete inputs: one world with two files, an artifact that holds an
  older one, and runs evaluated in the kernel.
\<close>

section \<open>A sample\<close>

definition vault_env :: world_env where
  "vault_env = sample_env\<lparr>en_ids := (\<lambda>n k. replicate n (CHR ''i'') @ replicate k (CHR ''j''))\<rparr>"

definition backup_sample :: "bool \<Rightarrow> backup_env" where
  "backup_sample probe = \<lparr>be_world = vault_env, be_zip = sample_zip, be_coordinator = True, be_probe = probe,
     be_free = (\<lambda>n p. 20000000000), be_mtime = (\<lambda>n p. Some (1000 * int n)), be_wall = (\<lambda>n. 1000 * int n),
     be_move = (\<lambda>n. None)\<rparr>"

definition old_archive :: string where
  "old_archive = zl_write sample_zip [(''eula.txt'', ''eula=true''), (''level.dat'', ''old'')]"

definition sample_vault :: tree where
  "sample_vault = ([''b'', ''z''], File old_archive) # sample_worlds"

definition old_artifact :: artifact_row where
  "old_artifact = \<lparr>ar_id = ''ba_0'', ar_world = Some ''w1'', ar_category = MANUAL, ar_path = ''/b/z'',
     ar_size = int (length old_archive), ar_checksum = old_archive, ar_suspect = False, ar_operation = ''op_1'',
     ar_deleted_at = None, ar_deleted_by = None, ar_created_at = 1\<rparr>"

definition sample_user :: user_row where
  "sample_user = \<lparr>us_id = ''u1'', us_username = ''u'', us_secret = [], us_status = US_ACTIVE, us_failed = 0,
     us_locked_until = None, us_deleted_at = None, us_updated_at = 1,
     us_display = None, us_created_at = 1\<rparr>"

definition backup_state :: "WorldState \<Rightarrow> runtime_session_row list \<Rightarrow> backup_sys" where
  "backup_state st ses =
     (let w = world_sample (sample_row st) [sample_op ''op_1'' RESTORE OS_RUNNING] ses; store = ws_store w in
      \<lparr>bs_sys = (set_store (store\<lparr>users := [sample_user], artifacts := [old_artifact]\<rparr>) w)
         \<lparr>ws_tree := sample_vault, ws_secrets := [(''sec_1'', ''pw'')]\<rparr>, bs_restores = []\<rparr>)"

definition sample_request :: restore_request where
  "sample_request = \<lparr>rq_world = ''w1'', rq_artifact = ''ba_0'', rq_world_dir = [''w''], rq_backup_dir = [''b''],
     rq_staging = [''s''], rq_operation = ''op_1'', rq_user = ''u1'', rq_was_running = True\<rparr>"

lemma sample_restore: "\<exists>x t. restore (backup_sample True) sample_request (backup_state WS_OFF []) = (Inr x, t) \<and>
    (case Inr x :: backup_error + RestoreResult of Inr r \<Rightarrow> re_outcome r = ''success'' | _ \<Rightarrow> False)"
  by (rule evaluated) code_simp

lemma sample_backup: "\<exists>x t. create_world_backup (backup_sample False) ''w1'' [''w''] [''b''] ''op_1'' MANUAL True
    (backup_state WS_RUNNING [sample_session]) = (Inr x, t) \<and> True"
  by (rule evaluated) code_simp

lemma vault_tree: "bs_tree (backup_state st ses) = sample_vault"
  by (simp add: backup_state_def Let_def)

lemma vault_put: "sample_vault = put_node [''b'', ''z''] (File old_archive) sample_worlds"
  by (simp add: sample_vault_def put_node_def sample_worlds_def)

lemma vault_tidy: "tidy sample_vault"
proof -
  have "tidy sample_worlds" using sample_link_free sample_rooted by (simp add: tidy_def)
  then show ?thesis
    unfolding vault_put by (rule tidy_put) (simp_all add: good_name_def node_def sample_worlds_def)
qed

lemma vault_world: "node sample_vault ([''w''] @ r) = node sample_worlds ([''w''] @ r)"
  by (simp add: vault_put node_put)

lemma vault_archivable: "archivable sample_vault [''w'']"
  using sample_archivable vault_tidy vault_world vault_world[of "[]"]
  by (simp add: archivable_def tidy_def plain_below_def files_at_def)

lemma id_chars: "set (en_ids vault_env n k) \<subseteq> {CHR ''i'', CHR ''j''}"
  by (auto simp: vault_env_def)

lemma sample_fits: "names_fit (backup_sample p) ''w1'' [''b'']"
  using id_chars[of _ 0] by (auto simp: names_fit_def good_name_def backup_sample_def)


theorem registered_backup_is_whole_witness:
  "\<exists>b t a. create_world_backup (backup_sample False) ''w1'' [''w''] [''b''] ''op_1'' MANUAL True
       (backup_state WS_RUNNING [sample_session]) = (Inr b, t) \<and> br_artifact b = ar_id a \<and>
     validate_artifact (backup_sample False) (ar_id a) t = (Inr a, t)"
proof -
  obtain b t where run: "create_world_backup (backup_sample False) ''w1'' [''w''] [''b''] ''op_1'' MANUAL True
       (backup_state WS_RUNNING [sample_session]) = (Inr b, t)"
    using sample_backup by blast
  have "link_free (bs_tree (backup_state WS_RUNNING [sample_session]))"
    using vault_tidy by (simp add: vault_tree tidy_def)
  from registered_backup_is_whole[OF run this sample_fits] show ?thesis using run by auto
qed


end
