(* ===== verification/Sync.thy ===== *)
theory Sync
  imports Backup
begin

text \<open>
  Offsite copies of artifacts (\<open>app/services/sync.py\<close>) over the mounted share of
  \<open>app/infrastructure/sync_transport/nas.py\<close>, on the state of the world driver.  A copy may fail at
  any question to the environment, with a text of its own.  Paths are absolute; the clock counts
  seconds since the epoch, and the day is that of UTC.
\<close>

section \<open>Bounds\<close>

definition sync_transient_retries :: nat where
  "sync_transient_retries = 3"

definition sync_backoff_base :: nat where
  "sync_backoff_base = 30"

definition backoff_delays :: "nat list" where
  "backoff_delays = map (\<lambda>i. sync_backoff_base * 2 ^ i) [0..<sync_transient_retries - 1]"

definition daily_transfer_cap :: int where
  "daily_transfer_cap = 50 * 1024 ^ 3"

record sync_env =
  sn_world :: world_env
  sn_disk :: "nat \<Rightarrow> string option"
  sn_text :: "nat \<Rightarrow> string"

datatype sync_error =
    SyncError string
  | SyncRowRefused
  | SyncDriver world_error

type_synonym 'a sync_run = "(world_sys, sync_error, 'a) action"

definition driver :: "'a world_run \<Rightarrow> 'a sync_run" where
  "driver m s = (case m s of (Inl e, t) \<Rightarrow> (Inl (SyncDriver e), t) | (Inr x, t) \<Rightarrow> (Inr x, t))"

definition queried :: "sync_env \<Rightarrow> (nat \<Rightarrow> 'a) \<Rightarrow> 'a sync_run" where
  "queried E f s = (Inr (f (ws_tick s)), tick (sn_world E) s)"

abbreviation sync_now :: "sync_env \<Rightarrow> int sync_run" where
  "sync_now E \<equiv> queried E (en_now (sn_world E))"

definition new_id :: "sync_env \<Rightarrow> string \<Rightarrow> string sync_run" where
  "new_id E prefix = queried E (\<lambda>n. prefix @ en_ids (sn_world E) n 0)"

definition put_row :: "(store \<Rightarrow> store option) \<Rightarrow> unit sync_run" where
  "put_row f s = (case f (ws_store s) of None \<Rightarrow> (Inl SyncRowRefused, s) | Some st \<Rightarrow> (Inr (), set_store st s))"

section \<open>The share\<close>

datatype upload = Uploaded | UploadPermanent string | UploadFailed string

definition usable_target :: "string \<Rightarrow> store \<Rightarrow> sync_target_row option" where
  "usable_target i st = find_row (\<lambda>r. tg_id r = i \<and> tg_enabled r \<and> tg_deleted_at r = None) (sync_targets st)"

definition share_path :: "sync_target_row \<Rightarrow> string option" where
  "share_path r = (case jget ''path'' (tg_config r) of Some (JStr p) \<Rightarrow> if p = [] then None else Some p | _ \<Rightarrow> None)"

definition copy_to_share :: "string option \<Rightarrow> string \<Rightarrow> path \<Rightarrow> path \<Rightarrow> tree \<Rightarrow> upload \<times> tree" where
  "copy_to_share fails text source root t =
     (case make_dirs [] root t of
        None \<Rightarrow> (UploadFailed text, t)
      | Some t1 \<Rightarrow>
          (case fails of
             Some m \<Rightarrow> (UploadFailed m, t1)
           | None \<Rightarrow>
               (case stat t1 source of
                  Some (File b) \<Rightarrow>
                    (if resolve t1 source = resolve t1 (root @ [last source]) then (UploadFailed text, t1)
                     else case write_file (root @ [last source]) b t1 of
                       None \<Rightarrow> (UploadFailed text, t1)
                     | Some t2 \<Rightarrow> (Uploaded, t2))
                | _ \<Rightarrow> (UploadFailed text, t1))))"

definition upload_file :: "sync_env \<Rightarrow> string \<Rightarrow> string \<Rightarrow> upload sync_run" where
  "upload_file E i source s =
     (case usable_target i (ws_store s) of
        None \<Rightarrow> (Inr (UploadPermanent (''NAS target is not configured: '' @ i)), s)
      | Some r \<Rightarrow>
          (if tg_type r \<noteq> ''nas'' then (Inr (UploadPermanent (''NAS target is not configured: '' @ i)), s)
           else case share_path r of
             None \<Rightarrow> (Inr (UploadPermanent (''NAS target path is missing: '' @ i)), s)
           | Some p \<Rightarrow>
               (case copy_to_share (sn_disk E (ws_tick s)) (sn_text E (ws_tick s)) (path_parts source) (path_parts p) (ws_tree s) of
                  (u, t) \<Rightarrow> (Inr u, (tick (sn_world E) s)\<lparr>ws_tree := t\<rparr>))))"

section \<open>The daily cap\<close>

definition size_of :: "string \<Rightarrow> store \<Rightarrow> int" where
  "size_of i st = (case find_row (\<lambda>r. sy_id r = i) (sync_records st) of
     None \<Rightarrow> 0
   | Some r \<Rightarrow> (case find_artifact (sy_artifact r) st of None \<Rightarrow> 0 | Some a \<Rightarrow> ar_size a))"

definition transferred :: "int \<Rightarrow> store \<Rightarrow> int" where
  "transferred now st =
     (let start = now - now mod 86400 in
      sum_list (map (\<lambda>a. size_of (sa_sync a) st) (filter (\<lambda>a. sa_outcome a = SYNC_SUCCEEDED \<and>
        (case sa_finished_at a of None \<Rightarrow> False | Some f \<Rightarrow> start \<le> f \<and> f < start + 86400)) (sync_attempts st))))"

definition get_bytes_transferred_today :: "sync_env \<Rightarrow> int sync_run" where
  "get_bytes_transferred_today E = bind_run (sync_now E) (\<lambda>now. gets (\<lambda>s. transferred now (ws_store s)))"

section \<open>Targets\<close>

definition default_target :: "string \<Rightarrow> string \<Rightarrow> int \<Rightarrow> sync_target_row" where
  "default_target i secret now = \<lparr>tg_id = i, tg_scope = SCOPE_GLOBAL, tg_world = None, tg_type = ''nas'',
     tg_config = [(''adapter'', JStr ''nas'')], tg_secret = secret, tg_enabled = True, tg_deleted_at = None,
     tg_created_at = now\<rparr>"

definition insert_target :: "sync_target_row \<Rightarrow> store \<Rightarrow> store option" where
  "insert_target r st = (if exists_row (\<lambda>x. tg_id x = tg_id r) (sync_targets st) then None
     else Some (st\<lparr>sync_targets := sync_targets st @ [r]\<rparr>))"

definition resolve_target :: "sync_env \<Rightarrow> string \<Rightarrow> string sync_run" where
  "resolve_target E i =
     bind_run (gets (\<lambda>s. find_row (\<lambda>r. tg_id r = i \<and> tg_deleted_at r = None) (sync_targets (ws_store s)))) (\<lambda>row.
       case row of
         Some r \<Rightarrow> then_run (check (tg_enabled r) (SyncError (''SYNC_TARGET_DISABLED: '' @ i))) (ret (tg_id r))
       | None \<Rightarrow>
           bind_run (gets ws_secrets) (\<lambda>secrets.
             case secrets of
               [] \<Rightarrow> raise (SyncError (''SYNC_TARGET_NOT_FOUND: '' @ i))
             | (k, v) # _ \<Rightarrow> bind_run (sync_now E) (\<lambda>now. then_run (sync_now E)
                 (then_run (put_row (insert_target (default_target i k now))) (ret i)))))"

section \<open>Attempts\<close>

definition insert_record :: "sync_record_row \<Rightarrow> store \<Rightarrow> store option" where
  "insert_record r st =
     (if exists_row (\<lambda>x. sy_id x = sy_id r) (sync_records st) \<or> \<not> exists_row (\<lambda>a. ar_id a = sy_artifact r) (artifacts st) \<or>
         \<not> exists_row (\<lambda>x. tg_id x = sy_target r) (sync_targets st) \<or> \<not> fk_op (Some (sy_operation r)) st
      then None else Some (st\<lparr>sync_records := sync_records st @ [r]\<rparr>))"

definition insert_attempt :: "sync_attempt_row \<Rightarrow> store \<Rightarrow> store option" where
  "insert_attempt r st =
     (if exists_row (\<lambda>x. sa_id x = sa_id r) (sync_attempts st) \<or>
         exists_row (\<lambda>x. sa_sync x = sa_sync r \<and> sa_number x = sa_number r) (sync_attempts st) \<or>
         \<not> exists_row (\<lambda>x. sy_id x = sa_sync r) (sync_records st)
      then None else Some (st\<lparr>sync_attempts := sync_attempts st @ [r]\<rparr>))"

fun outcome_of :: "upload \<Rightarrow> SyncOutcome" where
  "outcome_of Uploaded = SYNC_SUCCEEDED"
| "outcome_of (UploadPermanent m) = SYNC_FAILED_PERMANENT"
| "outcome_of (UploadFailed m) = SYNC_FAILED_TRANSIENT"

fun message_of :: "upload \<Rightarrow> string option" where
  "message_of Uploaded = None"
| "message_of (UploadPermanent m) = Some (take 1000 m)"
| "message_of (UploadFailed m) = Some (take 1000 m)"

definition record_attempt ::
  "sync_env \<Rightarrow> string \<Rightarrow> nat \<Rightarrow> int \<Rightarrow> int \<Rightarrow> SyncOutcome \<Rightarrow> string option \<Rightarrow> unit sync_run" where
  "record_attempt E sid k started finished result m =
     bind_run (new_id E ''sa_'') (\<lambda>i.
     put_row (insert_attempt \<lparr>sa_id = i, sa_sync = sid, sa_number = int k, sa_started_at = started,
       sa_finished_at = Some finished, sa_outcome = result, sa_error = m\<rparr>))"

definition attempt_once :: "sync_env \<Rightarrow> string \<Rightarrow> string \<Rightarrow> string \<Rightarrow> nat \<Rightarrow> SyncOutcome sync_run" where
  "attempt_once E sid target source k =
     bind_run (sync_now E) (\<lambda>started.
     bind_run (upload_file E target source) (\<lambda>u.
     bind_run (sync_now E) (\<lambda>finished.
     then_run (record_attempt E sid k started finished (outcome_of u) (message_of u)) (ret (outcome_of u)))))"

fun attempts :: "sync_env \<Rightarrow> string \<Rightarrow> string \<Rightarrow> string \<Rightarrow> nat list \<Rightarrow> bool sync_run" where
  "attempts E sid target source [] = ret False"
| "attempts E sid target source (k # ks) =
     bind_run (attempt_once E sid target source k) (\<lambda>result.
       if result = SYNC_SUCCEEDED then ret True
       else if result = SYNC_FAILED_PERMANENT then ret False
       else then_run
         (when_run (k < sync_transient_retries) (change (sleep (1000 * (backoff_delays ! (k - 1))))))
         (attempts E sid target source ks))"

section \<open>A sync\<close>

definition sync_request :: "artifact_row \<Rightarrow> string \<Rightarrow> OperationInput" where
  "sync_request a target = \<lparr>oi_type = SYNC, oi_actor_type = ACTOR_SYSTEM, oi_world = ar_world a, oi_actor_user = None,
     oi_key = None, oi_data = Some [(''artifact_id'', JStr (ar_id a)), (''sync_target_id'', JStr target)],
     oi_compensates = None\<rparr>"

definition create_running :: "sync_env \<Rightarrow> OperationInput \<Rightarrow> op_row sync_run" where
  "create_running E req = driver (bind_run
     (op_call (sn_world E) (\<lambda>u now. create_with_replay u now req OS_RUNNING True)) (\<lambda>(r, _). ret r))"

fun record_status_value :: "SyncRecordStatus \<Rightarrow> string" where
  "record_status_value SR_PENDING = ''pending''"
| "record_status_value SR_SUCCEEDED = ''succeeded''"
| "record_status_value SR_FAILED = ''failed''"

definition end_record :: "sync_env \<Rightarrow> string \<Rightarrow> SyncRecordStatus \<Rightarrow> unit sync_run" where
  "end_record E sid status =
     bind_run (sync_now E) (\<lambda>now. change (\<lambda>s. set_store ((ws_store s)\<lparr>sync_records :=
       update_rows (\<lambda>r. sy_id r = sid) (\<lambda>r. r\<lparr>sy_status := status, sy_finished_at := Some now\<rparr>)
         (sync_records (ws_store s))\<rparr>) s))"

definition sync_end :: "bool \<Rightarrow> string \<Rightarrow> transition_input" where
  "sync_end ok sid = plain_transition\<lparr>ti_error_code := (if ok then None else Some ''SYNC_FAILED''),
     ti_message := (if ok then None else Some ''offsite upload exhausted transient retries''),
     ti_data := Some [(''sync_id'', JStr sid),
       (''status'', JStr (record_status_value (if ok then SR_SUCCEEDED else SR_FAILED)))]\<rparr>"

definition run_sync :: "sync_env \<Rightarrow> artifact_row \<Rightarrow> string \<Rightarrow> string \<Rightarrow> string sync_run" where
  "run_sync E a target asked_for =
     bind_run (sync_now E) (\<lambda>now.
     bind_run (create_running E (sync_request a asked_for)) (\<lambda>op'.
     bind_run (new_id E ''sy_'') (\<lambda>sid.
     then_run (put_row (insert_record \<lparr>sy_id = sid, sy_artifact = ar_id a, sy_target = target,
        sy_operation = op_id op', sy_status = SR_PENDING, sy_started_at = now, sy_finished_at = None\<rparr>))
     (bind_run (attempts E sid asked_for (ar_path a) [1..<sync_transient_retries + 1]) (\<lambda>ok.
      then_run (end_record E sid (if ok then SR_SUCCEEDED else SR_FAILED))
      (then_run (driver (move_op (sn_world E) (op_id op') (if ok then OS_COMPLETED else OS_FAILED) (sync_end ok sid)))
        (ret sid)))))))"

definition live_artifact :: "string \<Rightarrow> store \<Rightarrow> artifact_row option" where
  "live_artifact i st = find_row (\<lambda>a. ar_id a = i \<and> ar_deleted_at a = None) (artifacts st)"

definition dispatch_sync :: "sync_env \<Rightarrow> string \<Rightarrow> string \<Rightarrow> string sync_run" where
  "dispatch_sync E artifact target =
     bind_run (get_bytes_transferred_today E) (\<lambda>sent.
     then_run (check (sent < daily_transfer_cap) (SyncError ''SYNC_CAP_EXCEEDED''))
     (bind_run (gets (\<lambda>s. live_artifact artifact (ws_store s))) (\<lambda>row.
      bind_run (of_option (SyncError (''BACKUP_NOT_FOUND: '' @ artifact)) row) (\<lambda>a.
      bind_run (get_bytes_transferred_today E) (\<lambda>sent2.
      then_run (check (sent2 + ar_size a \<le> daily_transfer_cap) (SyncError ''SYNC_CAP_EXCEEDED''))
      (bind_run (resolve_target E target) (\<lambda>tg. run_sync E a tg target)))))))"

end
