(* ===== verification/Sync_Props.thy ===== *)
theory Sync_Props
  imports Sync Worlds_Props
begin

text \<open>
  The timeline of a sync: at most three attempts, strictly sequential, with the backoff between
  them, and one verdict in the record, the operation and the last attempt.
\<close>

section \<open>One attempt\<close>

lemma driver_Inr: "driver m s = (Inr x, t) \<longleftrightarrow> m s = (Inr x, t)"
  by (auto simp: driver_def split: prod.splits sum.splits)

lemma queried_Inr: "queried E f s = (Inr x, t) \<longleftrightarrow> x = f (ws_tick s) \<and> t = tick (sn_world E) s"
  by (auto simp: queried_def)

lemma put_row_Inr: "put_row f s = (Inr u, t) \<longleftrightarrow> (\<exists>st. f (ws_store s) = Some st \<and> t = set_store st s)"
  by (auto simp: put_row_def split: option.splits)

lemma upload_Inr:
  "upload_file E i source s = (Inr u, t) \<Longrightarrow> ws_ops t = ws_ops s \<and> ws_time s \<le> ws_time t"
  by (auto simp: upload_file_def tick_def split: option.splits if_splits prod.splits)

lemma attempt_once_Inr:
  assumes "attempt_once E sid target source k s = (Inr o', t)"
  shows "\<exists>r. ws_store t = (ws_store s)\<lparr>sync_attempts := sync_attempts (ws_store s) @ [r]\<rparr> \<and> sa_sync r = sid \<and>
     sa_number r = int k \<and> sa_outcome r = o' \<and> (o' = SYNC_SUCCEEDED \<longleftrightarrow> sa_error r = None)" and "ws_time s \<le> ws_time t"
proof -
  obtain s1 u s2 s3 i s4 st where s1: "s1 = tick (sn_world E) s" and u: "upload_file E target source s1 = (Inr u, s2)"
    and s3: "s3 = tick (sn_world E) s2" and s4: "s4 = tick (sn_world E) s3"
    and r: "insert_attempt \<lparr>sa_id = i, sa_sync = sid, sa_number = int k, sa_started_at = en_now (sn_world E) (ws_tick s),
       sa_finished_at = Some (en_now (sn_world E) (ws_tick s2)), sa_outcome = outcome_of u, sa_error = message_of u\<rparr> (ws_store s4) = Some st"
    and t: "t = set_store st s4" and o': "o' = outcome_of u"
    using assms by (auto simp: attempt_once_def record_attempt_def new_id_def run_simps queried_Inr put_row_Inr)
  have w: "ws_store s4 = ws_store s" "ws_time s \<le> ws_time s4"
    using upload_Inr[OF u] by (simp_all add: s1 s3 s4 tick_def)
  have "(outcome_of u = SYNC_SUCCEEDED) = (message_of u = None)" by (cases u) simp_all
  with r t w o' show "\<exists>r. ws_store t = (ws_store s)\<lparr>sync_attempts := sync_attempts (ws_store s) @ [r]\<rparr> \<and> sa_sync r = sid \<and>
     sa_number r = int k \<and> sa_outcome r = o' \<and> (o' = SYNC_SUCCEEDED \<longleftrightarrow> sa_error r = None)"
    by (auto simp: insert_attempt_def split: if_splits)
  show "ws_time s \<le> ws_time t" using w t by simp
qed

section \<open>The timeline\<close>

text \<open>The attempts \<open>rows\<close> for the numbers \<open>ks\<close>: a prefix of them, transient failures but for the last.\<close>

definition timeline :: "string \<Rightarrow> nat list \<Rightarrow> sync_attempt_row list \<Rightarrow> bool \<Rightarrow> bool" where
  "timeline sid ks rows ok \<longleftrightarrow> map sa_number rows = map int (take (length rows) ks) \<and> length rows \<le> length ks \<and>
     (\<forall>r\<in>set rows. sa_sync r = sid) \<and> (\<forall>r\<in>set (butlast rows). sa_outcome r = SYNC_FAILED_TRANSIENT) \<and>
     (ks \<noteq> [] \<longrightarrow> rows \<noteq> [] \<and> (ok \<longleftrightarrow> sa_outcome (last rows) = SYNC_SUCCEEDED) \<and>
        (sa_outcome (last rows) = SYNC_FAILED_TRANSIENT \<longrightarrow> length rows = length ks))"

definition waits :: "nat list \<Rightarrow> nat" where
  "waits ks = sum_list (map (\<lambda>k. if k < sync_transient_retries then 1000 * (backoff_delays ! (k - 1)) else 0) ks)"

lemma timeline_Cons:
  assumes "timeline sid ks rows ok" and "sa_sync r = sid" and "sa_number r = int k" and "sa_outcome r = SYNC_FAILED_TRANSIENT"
    and "ks = [] \<Longrightarrow> \<not> ok \<and> rows = []"
  shows "timeline sid (k # ks) (r # rows) ok"
  using assms by (cases "ks = []") (auto simp: timeline_def)

lemma attempts_Inr:
  assumes "attempts E sid target source ks s = (Inr ok, t)"
  shows "\<exists>rows. ws_store t = (ws_store s)\<lparr>sync_attempts := sync_attempts (ws_store s) @ rows\<rparr> \<and> timeline sid ks rows ok \<and>
     ws_time s + waits (take (length rows - 1) ks) \<le> ws_time t"
  using assms
proof (induction ks arbitrary: s)
  case Nil
  then show ?case by (intro exI[of _ "[]"]) (simp add: run_simps timeline_def waits_def)
next
  case (Cons k ks)
  obtain o' s1 where a: "attempt_once E sid target source k s = (Inr o', s1)"
    and rest: "(if o' = SYNC_SUCCEEDED then ret True else if o' = SYNC_FAILED_PERMANENT then ret False
       else then_run (when_run (k < sync_transient_retries) (change (sleep (1000 * (backoff_delays ! (k - 1))))))
         (attempts E sid target source ks)) s1 = (Inr ok, t)"
    using Cons.prems by (auto simp: bind_run_Inr)
  obtain r where r: "ws_store s1 = (ws_store s)\<lparr>sync_attempts := sync_attempts (ws_store s) @ [r]\<rparr>" "sa_sync r = sid"
    "sa_number r = int k" "sa_outcome r = o'" and tm: "ws_time s \<le> ws_time s1"
    using attempt_once_Inr[OF a] by blast
  show ?case
  proof (cases "o' = SYNC_FAILED_TRANSIENT")
    case False
    then have "t = s1" "ok \<longleftrightarrow> o' = SYNC_SUCCEEDED"
      using rest by (cases o'; auto simp: run_simps)+
    then show ?thesis using r tm False by (intro exI[of _ "[r]"]) (auto simp: timeline_def waits_def)
  next
    case True
    define s2 where "s2 = (if k < sync_transient_retries then sleep (1000 * (backoff_delays ! (k - 1))) s1 else s1)"
    have s2: "attempts E sid target source ks s2 = (Inr ok, t)" "ws_store s2 = ws_store s1"
      "ws_time s1 + waits [k] \<le> ws_time s2"
      using rest True by (auto simp: run_simps s2_def sleep_def waits_def split: if_splits)
    obtain rows where rows: "ws_store t = (ws_store s2)\<lparr>sync_attempts := sync_attempts (ws_store s2) @ rows\<rparr>"
      "timeline sid ks rows ok" "ws_time s2 + waits (take (length rows - 1) ks) \<le> ws_time t"
      using Cons.IH[OF s2(1)] by blast
    have nil: "\<not> ok \<and> rows = []" if "ks = []" using s2(1) rows(2) that by (auto simp: run_simps timeline_def)
    have "timeline sid (k # ks) (r # rows) ok"
      by (rule timeline_Cons[OF rows(2) r(2,3)]) (use r(4) True nil in auto)
    moreover have "waits (take (length (r # rows) - 1) (k # ks)) \<le> waits [k] + waits (take (length rows - 1) ks)"
      by (cases rows) (auto simp: waits_def)
    ultimately show ?thesis using r rows s2 tm by (intro exI[of _ "r # rows"]) auto
  qed
qed

section \<open>The sync\<close>

lemma create_running_Inr:
  assumes "create_running E req s = (Inr r, t)"
  shows "store_frame (ws_store s) (ws_store t) \<and> ws_time s \<le> ws_time t"
  using assms
  by (auto simp: create_running_def driver_Inr run_simps op_call_def tick_def split: sum.splits prod.splits
      dest!: create_with_replay_keeps)

lemma delays: "backoff_delays = [30, 60]" "[1..<sync_transient_retries + 1] = [1, 2, 3]"
  by code_simp+

text \<open>What a sync changes in the join of attempts, records and artifacts.\<close>

definition sizes_after :: "string \<Rightarrow> artifact_row \<Rightarrow> store \<Rightarrow> store \<Rightarrow> bool" where
  "sizes_after sid a st st' \<longleftrightarrow>
     size_of sid st' = (case find_artifact (ar_id a) st of None \<Rightarrow> 0 | Some b \<Rightarrow> ar_size b) \<and>
     (\<forall>j. exists_row (\<lambda>r. sy_id r = j) (sync_records st) \<longrightarrow> size_of j st' = size_of j st)"

lemma size_of_records:
  assumes "artifacts st' = artifacts st" and "sync_records st' = update_rows (\<lambda>r. sy_id r = sid) f (sync_records st @ [new])"
    and "\<And>r. sy_id (f r) = sy_id r \<and> sy_artifact (f r) = sy_artifact r" and "sy_id new = sid" and "sy_artifact new = ar_id a"
    and "\<not> exists_row (\<lambda>r. sy_id r = sid) (sync_records st)"
  shows "sizes_after sid a st st'"
proof -
  have look: "find_row (\<lambda>r. sy_id r = j) (sync_records st') =
      map_option (\<lambda>x. if sy_id x = sid then f x else x) (find_row (\<lambda>r. sy_id r = j) (sync_records st @ [new]))" for j
    unfolding assms(2) by (rule find_row_update_rows_stable) (simp add: assms(3))
  have art: "find_artifact i st' = find_artifact i st" for i by (simp add: find_artifact_def assms(1))
  have "find_row (\<lambda>r. sy_id r = sid) (sync_records st) = None" using assms(6) by (simp add: row_simps find_row_None_iff)
  then have "size_of sid st' = (case find_artifact (ar_id a) st of None \<Rightarrow> 0 | Some b \<Rightarrow> ar_size b)"
    by (simp add: size_of_def look find_row_append assms(3-5) art)
  moreover have "size_of j st' = size_of j st" if ex: "exists_row (\<lambda>r. sy_id r = j) (sync_records st)" for j
  proof -
    obtain x where x: "find_row (\<lambda>r. sy_id r = j) (sync_records st) = Some x" using ex by (metis exists_row_iff find_row_Some_iff_ex)
    then show ?thesis by (simp add: size_of_def look find_row_append assms(3) art)
  qed
  ultimately show ?thesis by (simp add: sizes_after_def)
qed

lemma run_sync_Inr:
  assumes "run_sync E a target asked_for s = (Inr sid, t)"
  shows "\<exists>rows ok r o'. sizes_after sid a (ws_store s) (ws_store t) \<and> sync_attempts (ws_store t) = sync_attempts (ws_store s) @ rows \<and> timeline sid [1, 2, 3] rows ok \<and>
     r \<in> set (sync_records (ws_store t)) \<and> sy_id r = sid \<and> sy_artifact r = ar_id a \<and>
     sy_status r = (if ok then SR_SUCCEEDED else SR_FAILED) \<and> sy_finished_at r \<noteq> None \<and>
     find_op (sy_operation r) (ws_store t) = Some o' \<and> op_status o' = (if ok then OS_COMPLETED else OS_FAILED) \<and>
     ws_time s + waits (take (length rows - 1) [1, 2, 3]) \<le> ws_time t"
proof -
  obtain s1 op' s2 s3 st s4 ok s5 s6 m where s1: "s1 = tick (sn_world E) s"
    and c: "create_running E (sync_request a asked_for) s1 = (Inr op', s2)" and s3: "s3 = tick (sn_world E) s2"
    and i: "insert_record \<lparr>sy_id = sid, sy_artifact = ar_id a, sy_target = target, sy_operation = op_id op',
        sy_status = SR_PENDING, sy_started_at = en_now (sn_world E) (ws_tick s), sy_finished_at = None\<rparr> (ws_store s3) = Some st"
    and s4: "s4 = set_store st s3"
    and at: "attempts E sid asked_for (ar_path a) [1..<sync_transient_retries + 1] s4 = (Inr ok, s5)"
    and e: "end_record E sid (if ok then SR_SUCCEEDED else SR_FAILED) s5 = (Inr (), s6)"
    and mv: "move_op (sn_world E) (op_id op') (if ok then OS_COMPLETED else OS_FAILED) (sync_end ok sid) s6 = (Inr m, t)"
    using assms by (auto simp: run_sync_def new_id_def run_simps queried_Inr put_row_Inr driver_Inr)
  obtain rows where rows: "ws_store s5 = (ws_store s4)\<lparr>sync_attempts := sync_attempts (ws_store s4) @ rows\<rparr>"
    "timeline sid [1, 2, 3] rows ok" "ws_time s4 + waits (take (length rows - 1) [1, 2, 3]) \<le> ws_time s5"
    using attempts_Inr[OF at] unfolding delays by blast
  note fr = create_running_Inr[OF c]
  obtain r0 where st: "st = (ws_store s3)\<lparr>sync_records := sync_records (ws_store s3) @ [r0]\<rparr>" "sy_id r0 = sid"
    "sy_artifact r0 = ar_id a" "sy_operation r0 = op_id op'"
    using i by (auto simp: insert_record_def split: if_splits)
  define now where "now = en_now (sn_world E) (ws_tick s5)"
  define f where "f = (\<lambda>r::sync_record_row. r\<lparr>sy_status := (if ok then SR_SUCCEEDED else SR_FAILED), sy_finished_at := Some now\<rparr>)"
  have s6: "ws_store s6 = (ws_store s5)\<lparr>sync_records := update_rows (\<lambda>r. sy_id r = sid) f (sync_records (ws_store s5))\<rparr>"
    "ws_time s5 \<le> ws_time s6"
    using e by (auto simp: end_record_def run_simps queried_Inr f_def now_def tick_def)
  have keep: "store_frame (ws_store s6) (ws_store t)" "ws_time s6 \<le> ws_time t"
    using mv by (auto simp: move_op_def op_call_def tick_def split: sum.splits dest!: transition_keeps)
  have "sync_attempts (ws_store t) = sync_attempts (ws_store s) @ rows"
    using keep s6 rows(1) st fr by (simp add: store_frame_def s4 s3 s1 tick_def)
  moreover have "f r0 \<in> set (sync_records (ws_store t))"
    using keep s6 rows(1) st by (auto simp: store_frame_def s4 update_rows_def)
  moreover have "find_op (op_id op') (ws_store t) = Some m" "op_status m = (if ok then OS_COMPLETED else OS_FAILED)"
    using move_op_Inr(1,2)[OF mv] by (cases ok; simp)+
  moreover have "ws_time s \<le> ws_time s4" using fr by (simp add: s4 s3 s1 tick_def)
  moreover have "sizes_after sid a (ws_store s) (ws_store t)"
  proof (rule size_of_records[where f = f and new = r0])
    have "sync_records (ws_store s3) = sync_records (ws_store s)" using fr by (simp add: s3 s1 tick_def store_frame_def)
    then show "sync_records (ws_store t) = update_rows (\<lambda>r. sy_id r = sid) f (sync_records (ws_store s) @ [r0])"
      using keep(1) s6(1) rows(1) st(1) by (simp add: store_frame_def s4)
    show "\<not> exists_row (\<lambda>r. sy_id r = sid) (sync_records (ws_store s))"
      using i \<open>sync_records (ws_store s3) = sync_records (ws_store s)\<close> by (auto simp: insert_record_def split: if_splits)
    show "artifacts (ws_store t) = artifacts (ws_store s)"
      using keep(1) s6(1) rows(1) st(1) fr by (simp add: store_frame_def s4 s3 s1 tick_def)
  qed (use st in \<open>simp_all add: f_def\<close>)
  ultimately show ?thesis using rows s6(2) keep(2) st
    by (intro exI[of _ rows] exI[of _ ok] exI[of _ "f r0"] exI[of _ m]) (auto simp: f_def)
qed

text \<open>The references of the tables of a sync, and sizes that are sizes.\<close>

definition sync_refs_ok :: "store \<Rightarrow> bool" where
  "sync_refs_ok st \<longleftrightarrow> distinct (map ar_id (artifacts st)) \<and> (\<forall>a\<in>set (artifacts st). 0 \<le> ar_size a) \<and>
     (\<forall>x\<in>set (sync_attempts st). exists_row (\<lambda>r. sy_id r = sa_sync x) (sync_records st))"

lemma one_success:
  assumes "\<forall>r\<in>set (butlast rows). sa_outcome r = SYNC_FAILED_TRANSIENT" and "\<forall>r\<in>set rows. sa_sync r = sid"
    and "0 \<le> n" and "size_of sid st = n"
  shows "sum_list (map (\<lambda>a. size_of (sa_sync a) st) (filter (\<lambda>a. sa_outcome a = SYNC_SUCCEEDED \<and> p a) rows)) \<le> n"
proof (cases rows rule: rev_cases)
  case (snoc xs x)
  then have "filter (\<lambda>a. sa_outcome a = SYNC_SUCCEEDED \<and> p a) xs = []" using assms(1) by (auto simp: filter_empty_conv)
  then show ?thesis using snoc assms(2-4) by simp
qed (use assms(3) in simp)

lemma transferred_after:
  assumes ok: "sync_refs_ok st" and a: "live_artifact i st = Some a" and z: "sizes_after sid a st st'"
    and new: "sync_attempts st' = sync_attempts st @ rows" and tl: "timeline sid [1, 2, 3] rows b"
  shows "transferred n st' \<le> transferred n st + ar_size a"
proof -
  let ?p = "\<lambda>x. case sa_finished_at x of None \<Rightarrow> False | Some f \<Rightarrow> n - n mod 86400 \<le> f \<and> f < n - n mod 86400 + 86400"
  have am: "a \<in> set (artifacts st)" using a by (auto simp: live_artifact_def dest: find_row_SomeD)
  have "find_artifact (ar_id a) st = Some a"
    using ok am unfolding sync_refs_ok_def find_artifact_def by (intro find_row_unique[where k = ar_id]) auto
  then have s: "size_of sid st' = ar_size a" using z by (simp add: sizes_after_def)
  have old: "sum_list (map (\<lambda>x. size_of (sa_sync x) st') (filter q (sync_attempts st))) =
      sum_list (map (\<lambda>x. size_of (sa_sync x) st) (filter q (sync_attempts st)))" for q
    using ok z by (intro arg_cong[of _ _ sum_list] map_cong refl) (auto simp: sync_refs_ok_def sizes_after_def)
  have "sum_list (map (\<lambda>x. size_of (sa_sync x) st') (filter (\<lambda>x. sa_outcome x = SYNC_SUCCEEDED \<and> ?p x) rows)) \<le> ar_size a"
    by (rule one_success[OF _ _ _ s]) (use tl ok am in \<open>auto simp: timeline_def sync_refs_ok_def\<close>)
  then show ?thesis by (simp add: transferred_def Let_def new old)
qed

text \<open>
  C25: a sync is bounded and leaves one verdict. A sync that returns was dispatched only because
  what had been sent on the day of the clock and the size of a live artifact were together within
  the daily cap; what has been sent on that day is within the cap still when it returns. It wrote at
  most three attempts numbered from one without a gap, all but the last transient failures, waited
  30 and 60 seconds between them, and its record, its operation and its last attempt agree on
  whether the copy succeeded.
\<close>
theorem sync_is_bounded:
  assumes "dispatch_sync E i target s = (Inr sid, t)" and "sync_refs_ok (ws_store s)"
    and "today = en_now (sn_world E) (Suc (ws_tick s))"
  shows "\<exists>a rows ok r o'. live_artifact i (ws_store s) = Some a \<and>
     transferred today (ws_store s) + ar_size a \<le> 50 * 1024 ^ 3 \<and> transferred today (ws_store t) \<le> 50 * 1024 ^ 3 \<and>
     sync_attempts (ws_store t) = sync_attempts (ws_store s) @ rows \<and> timeline sid [1, 2, 3] rows ok \<and>
     r \<in> set (sync_records (ws_store t)) \<and> sy_id r = sid \<and> sy_artifact r = i \<and>
     sy_status r = (if ok then SR_SUCCEEDED else SR_FAILED) \<and>
     find_op (sy_operation r) (ws_store t) = Some o' \<and> op_status o' = (if ok then OS_COMPLETED else OS_FAILED) \<and>
     ws_time s + (if length rows = 1 then 0 else if length rows = 2 then 30000 else 90000) \<le> ws_time t"
proof -
  obtain s1 s2 a tg s3 where s1: "s1 = tick (sn_world E) s" and a: "live_artifact i (ws_store s1) = Some a"
    and cap: "transferred (en_now (sn_world E) (ws_tick s1)) (ws_store s1) + ar_size a \<le> daily_transfer_cap"
    and s2: "s2 = tick (sn_world E) s1" and tg: "resolve_target E target s2 = (Inr tg, s3)"
    and run: "run_sync E a tg target s3 = (Inr sid, t)"
    using assms(1) by (auto simp: dispatch_sync_def get_bytes_transferred_today_def run_simps queried_Inr)
  have s3: "sync_attempts (ws_store s3) = sync_attempts (ws_store s)" "ws_time s \<le> ws_time s3"
    "sync_records (ws_store s3) = sync_records (ws_store s)" "artifacts (ws_store s3) = artifacts (ws_store s)"
    using tg by (auto simp: resolve_target_def run_simps queried_Inr put_row_Inr insert_target_def s2 s1 tick_def
        split: option.splits list.splits if_splits)
  have today: "en_now (sn_world E) (ws_tick s1) = today" "ws_store s1 = ws_store s" by (simp_all add: s1 tick_def assms(3))
  have a': "live_artifact i (ws_store s) = Some a" using a today(2) by simp
  obtain rows ok r o' where R: "sizes_after sid a (ws_store s3) (ws_store t)"
    "sync_attempts (ws_store t) = sync_attempts (ws_store s3) @ rows" "timeline sid [1, 2, 3] rows ok"
    "r \<in> set (sync_records (ws_store t))" "sy_id r = sid" "sy_artifact r = ar_id a" "sy_status r = (if ok then SR_SUCCEEDED else SR_FAILED)"
    "find_op (sy_operation r) (ws_store t) = Some o'" "op_status o' = (if ok then OS_COMPLETED else OS_FAILED)"
    "ws_time s3 + waits (take (length rows - 1) [1, 2, 3]) \<le> ws_time t"
    using run_sync_Inr[OF run] by blast
  have id: "ar_id a = i" using a by (auto simp: live_artifact_def dest: find_row_SomeD)
  have "find_artifact j (ws_store s3) = find_artifact j (ws_store s)" for j by (simp add: find_artifact_def s3(4))
  then have "size_of j (ws_store s3) = size_of j (ws_store s)" "find_artifact j (ws_store s3) = find_artifact j (ws_store s)" for j
    using s3(3) by (simp_all add: size_of_def split: option.split)
  then have "sizes_after sid a (ws_store s) (ws_store t)" using R(1) s3(3) by (simp add: sizes_after_def)
  moreover have "sync_attempts (ws_store t) = sync_attempts (ws_store s) @ rows" using R(2) s3(1) by simp
  ultimately have "transferred today (ws_store t) \<le> transferred today (ws_store s) + ar_size a"
    using transferred_after[OF assms(2) a' _ _ R(3)] by blast
  moreover have "transferred today (ws_store s) + ar_size a \<le> 50 * 1024 ^ 3"
    using cap today by (simp add: daily_transfer_cap_def)
  ultimately have sent: "transferred today (ws_store s) + ar_size a \<le> 50 * 1024 ^ 3" "transferred today (ws_store t) \<le> 50 * 1024 ^ 3"
    by linarith+
  have "rows \<noteq> []" "length rows \<le> 3" using R(3) by (simp_all add: timeline_def)
  then consider "length rows = 1" | "length rows = 2" | "length rows = 3"
    by (cases rows) (auto simp: le_Suc_eq numeral_3_eq_3)
  then have "(if length rows = 1 then 0 else if length rows = 2 then 30000 else 90000) = waits (take (length rows - 1) [1, 2, 3])"
    by cases (simp_all add: waits_def delays sync_transient_retries_def)
  then have "ws_time s + (if length rows = 1 then 0 else if length rows = 2 then 30000 else 90000) \<le> ws_time t"
    using R(10) s3(2) by linarith
  then show ?thesis using a' sent R s3(1) id
    by (intro exI[of _ a] exI[of _ rows] exI[of _ ok] exI[of _ r] exI[of _ o']) simp
qed

end
