(* ===== verification/Sync_Witness.thy ===== *)
theory Sync_Witness
  imports Restore_Witness Sync_Props
begin

text \<open>A sync to a share that answers at the third attempt.\<close>

definition share_target :: sync_target_row where
  "share_target = (default_target ''t1'' ''sec_1'' 1)\<lparr>tg_config := [(''path'', JStr ''/nas'')]\<rparr>"

definition share_env :: sync_env where
  "share_env = \<lparr>sn_world = vault_env, sn_disk = (\<lambda>n. if n < 12 then Some ''unreachable'' else None), sn_text = (\<lambda>n. ''error'')\<rparr>"

definition share_state :: world_sys where
  "share_state = (let s = bs_sys (backup_state WS_OFF []) in set_store ((ws_store s)\<lparr>sync_targets := [share_target]\<rparr>) s)"

lemma sample_sync: "\<exists>x t. dispatch_sync share_env ''ba_0'' ''t1'' share_state = (Inr x, t) \<and>
    map sa_outcome (sync_attempts (ws_store t)) = [SYNC_FAILED_TRANSIENT, SYNC_FAILED_TRANSIENT, SYNC_SUCCEEDED]"
  by (rule evaluated) code_simp

theorem sync_is_bounded_witness:
  "\<exists>sid t. dispatch_sync share_env ''ba_0'' ''t1'' share_state = (Inr sid, t) \<and> ws_time share_state + 90000 \<le> ws_time t \<and>
     (\<exists>r\<in>set (sync_records (ws_store t)). sy_id r = sid \<and> sy_status r = SR_SUCCEEDED)"
proof -
  obtain sid t where run: "dispatch_sync share_env ''ba_0'' ''t1'' share_state = (Inr sid, t)"
    and o': "map sa_outcome (sync_attempts (ws_store t)) = [SYNC_FAILED_TRANSIENT, SYNC_FAILED_TRANSIENT, SYNC_SUCCEEDED]"
    using sample_sync by auto
  have "sync_attempts (ws_store share_state) = []"
    by (simp add: share_state_def backup_state_def world_sample_def Let_def empty_store_def)
  moreover have "sync_refs_ok (ws_store share_state)"
    by (simp add: sync_refs_ok_def share_state_def backup_state_def world_sample_def Let_def empty_store_def old_artifact_def)
  ultimately obtain rows ok r where r: "sync_attempts (ws_store t) = rows" "timeline sid [1, 2, 3] rows ok"
    "r \<in> set (sync_records (ws_store t))" "sy_id r = sid" "sy_status r = (if ok then SR_SUCCEEDED else SR_FAILED)"
    "ws_time share_state + (if length rows = 1 then 0 else if length rows = 2 then 30000 else 90000) \<le> ws_time t"
    using sync_is_bounded[OF run] by auto
  have n: "length rows = 3" using arg_cong[OF o', of length] r(1) by simp
  have "last (map sa_outcome rows) = SYNC_SUCCEEDED" using o' r(1) by simp
  moreover have "rows \<noteq> []" using n by auto
  ultimately have "sa_outcome (last rows) = SYNC_SUCCEEDED" by (simp add: last_map)
  with r(2) have ok by (simp add: timeline_def)
  with r n run show ?thesis by auto
qed

end
