(* ===== verification/Archive_Links.thy ===== *)
theory Archive_Links
  imports Archive_Props
begin

text \<open>
  Hostile archives on trees with links: whatever links there are in and around the directory that
  an archive is extracted into, nothing outside of it changes.
\<close>

section \<open>Following paths\<close>

definition same_links :: "tree \<Rightarrow> tree \<Rightarrow> bool" where
  "same_links t t' \<longleftrightarrow> (\<forall>q l. node t' q = Some (Link l) \<longleftrightarrow> node t q = Some (Link l))"

text \<open>Every entry is in a directory.\<close>

definition grounded :: "tree \<Rightarrow> bool" where
  "grounded t \<longleftrightarrow> (\<forall>q. q \<noteq> [] \<longrightarrow> node t q \<noteq> None \<longrightarrow> node t (butlast q) = Some Dir)"

definition no_link_between :: "tree \<Rightarrow> path \<Rightarrow> path \<Rightarrow> bool" where
  "no_link_between t e rest \<longleftrightarrow> (\<forall>s r l. rest = s @ r \<longrightarrow> s \<noteq> [] \<longrightarrow> node t (e @ s) \<noteq> Some (Link l))"

lemma same_links_trans: "same_links a b \<Longrightarrow> same_links b c \<Longrightarrow> same_links a c"
  by (simp add: same_links_def)

lemma walk_same_links: "same_links t t' \<Longrightarrow> walk t' n cur p = walk t n cur p"
proof (induction t n cur p rule: walk.induct)
  case (2 t n cur c cs)
  have "node t' (cur @ [c]) = Some (Link l) \<longleftrightarrow> node t (cur @ [c]) = Some (Link l)" for l
    using "2.prems" by (simp add: same_links_def)
  then show ?case
    using 2 by (cases "node t (cur @ [c])" rule: option.exhaust; cases "node t' (cur @ [c])" rule: option.exhaust)
      (auto split: fnode.splits nat.splits)
qed simp

lemma resolve_same_links: "same_links t t' \<Longrightarrow> resolve t' p = resolve t p"
  by (simp add: resolve_def walk_same_links)

lemma walk_straight: "no_link_between t e rest \<Longrightarrow> ''..'' \<notin> set rest \<Longrightarrow> walk t n e rest = Some (e @ rest)"
proof (induction rest arbitrary: e)
  case (Cons c cs)
  have n: "node t (e @ [c]) \<noteq> Some (Link l)" for l
    using Cons.prems(1) unfolding no_link_between_def by (metis append_Cons append_Nil list.distinct(1))
  have "no_link_between t (e @ [c]) cs"
    using Cons.prems(1) unfolding no_link_between_def by (metis append.assoc append_Cons append_Nil list.distinct(1))
  with Cons n show ?case by (auto split: option.split fnode.split)
qed simp

lemma walk_then:
  "walk t n cur p = Some e \<Longrightarrow> no_link_between t e rest \<Longrightarrow> ''..'' \<notin> set rest \<Longrightarrow>
     walk t n cur (p @ rest) = Some (e @ rest)"
proof (induction t n cur p rule: walk.induct)
  case (1 t n cur)
  then show ?case by (simp add: walk_straight)
next
  case (2 t n cur c cs)
  then show ?case by (auto split: option.splits fnode.splits nat.splits if_splits)
qed

lemma resolve_then:
  "resolve t p = Some e \<Longrightarrow> no_link_between t e rest \<Longrightarrow> ''..'' \<notin> set rest \<Longrightarrow> resolve t (p @ rest) = Some (e @ rest)"
  unfolding resolve_def by (rule walk_then)

lemma walk_no_link: "walk t n cur p = Some q \<Longrightarrow> \<forall>s r. cur = s @ r \<longrightarrow> node t s \<noteq> Some (Link l) \<Longrightarrow> node t q \<noteq> Some (Link l)"
proof (induction t n cur p rule: walk.induct)
  case (1 t n cur)
  then show ?case by auto
next
  case (2 t n cur c cs)
  have up: "\<forall>s r. butlast cur = s @ r \<longrightarrow> node t s \<noteq> Some (Link l)"
    using "2.prems"(2) by (cases cur rule: rev_cases) auto
  have root: "\<forall>s r. [] = s @ r \<longrightarrow> node t s \<noteq> Some (Link l)" by (simp add: node_def)
  have on: "\<forall>s r. cur @ [c] = s @ r \<longrightarrow> node t s \<noteq> Some (Link l)" if "node t (cur @ [c]) \<noteq> Some (Link l)"
    using "2.prems"(2) that by (metis append_assoc append_eq_append_conv2 append_self_conv butlast_append butlast_snoc)
  show ?case
    using 2 up root on by (auto split: option.splits fnode.splits nat.splits if_splits)
qed

lemma resolve_no_link: "resolve t p = Some q \<Longrightarrow> node t q \<noteq> Some (Link l)"
  unfolding resolve_def by (erule walk_no_link) (simp add: node_def)

lemma grounded_below: "grounded t \<Longrightarrow> node t e \<noteq> Some Dir \<Longrightarrow> s \<noteq> [] \<Longrightarrow> node t (e @ s) = None"
proof (induction s rule: rev_induct)
  case (snoc c s)
  have "node t (e @ s) \<noteq> Some Dir" using snoc by (cases "s = []") auto
  then show ?case using snoc.prems(1) unfolding grounded_def
    by (metis append_assoc append_is_Nil_conv butlast_snoc not_Cons_self2)
qed simp

section \<open>Writing below the root\<close>

lemma put_below:
  assumes "is_under root q" and "q \<noteq> []" and "\<And>l. node t q \<noteq> Some (Link l)" and "\<And>l. n \<noteq> Link l"
    and "node t (butlast q) = Some Dir" and "node t q = Some Dir \<longrightarrow> n = Dir" and "grounded t" and "node t root = Some Dir"
  shows "same_outside root t (put_node q n t) \<and> same_links t (put_node q n t) \<and> grounded (put_node q n t) \<and>
     node (put_node q n t) root = Some Dir"
proof -
  have "butlast q \<noteq> q" using assms(2) by (metis append_butlast_last_id not_Cons_self2 append_self_conv)
  then have "grounded (put_node q n t)"
    using assms(5,6,7) unfolding grounded_def by (auto simp: node_put[OF assms(2)])
  then show ?thesis
    using assms by (auto simp: same_outside_def same_links_def node_put)
qed

text \<open>A directory is made only on the way to a place below the root.\<close>

definition ready :: "path \<Rightarrow> tree \<Rightarrow> bool" where
  "ready root t \<longleftrightarrow> grounded t \<and> node t root = Some Dir"

definition below :: "path \<Rightarrow> tree \<Rightarrow> tree \<Rightarrow> bool" where
  "below root t t' \<longleftrightarrow> same_outside root t t' \<and> same_links t t' \<and> ready root t'"

lemma below_trans: "below root a b \<Longrightarrow> below root b c \<Longrightarrow> below root a c"
  by (auto simp: below_def intro: same_outside_trans same_links_trans)

lemma below_refl: "ready root t \<Longrightarrow> below root t t"
  by (simp add: below_def same_outside_refl same_links_def)

lemma make_dirs_below:
  assumes "make_dirs cur cs t = Some t'" and "ready root t" and "resolve t (cur @ cs @ rest) = Some q"
    and "is_under root q" and "''..'' \<notin> set (cs @ rest)"
  shows "below root t t'"
  using assms
proof (induction cs arbitrary: cur t)
  case Nil
  then show ?case by (auto simp: below_refl split: if_splits)
next
  case (Cons c cs)
  have dots: "''..'' \<notin> set (cs @ rest)" using Cons.prems(5) by simp
  have res: "resolve t ((cur @ [c]) @ cs @ rest) = Some q" using Cons.prems(3) by simp
  consider (there) "make_dirs (cur @ [c]) cs t = Some t'"
    | (new) "stat t cur = Some Dir" "node t (entry t (cur @ [c])) = None"
        "make_dirs (cur @ [c]) cs (put_node (entry t (cur @ [c])) Dir t) = Some t'"
    using Cons.prems(1) by (auto split: option.splits fnode.splits if_splits)
  then show ?case
  proof cases
    case there
    from Cons.IH[OF there Cons.prems(2) res Cons.prems(4) dots] show ?thesis .
  next
    case new
    obtain cq where cq: "resolve t cur = Some cq" "node t cq = Some Dir"
      using new(1) by (auto simp: stat_def split: option.splits)
    define e where "e = cq @ [c]"
    have e: "entry t (cur @ [c]) = e" "node t e = None" using new(2) cq by (simp_all add: entry_def e_def)
    have gr: "grounded t" "node t root = Some Dir" using Cons.prems(2) by (simp_all add: ready_def)
    have gone: "node t (e @ s) = None" for s using grounded_below[OF gr(1), of e s] e(2) by (cases "s = []") auto
    have "resolve t (cur @ (c # cs @ rest)) = Some (cq @ (c # cs @ rest))"
    proof (rule resolve_then[OF cq(1)])
      show "no_link_between t cq (c # cs @ rest)"
        unfolding no_link_between_def
      proof (intro allI impI)
        fix s r l assume "c # cs @ rest = s @ r" "s \<noteq> []"
        then obtain s' where "s = c # s'" by (cases s) auto
        with gone[of s'] show "node t (cq @ s) \<noteq> Some (Link l)" by (simp add: e_def)
      qed
    qed (use Cons.prems(5) in simp)
    then have q: "q = e @ cs @ rest" using res by (simp add: e_def)
    have "is_under root e"
    proof -
      obtain r where "root @ r = e @ (cs @ rest)" using Cons.prems(4) q by (auto simp: is_under_iff)
      then consider "is_under root e" | s where "root = e @ s"
        by (auto simp: is_under_iff append_eq_append_conv2)
      then show ?thesis using gone gr(2) by cases auto
    qed
    then have b: "below root t (put_node e Dir t)"
      using put_below[of root e t Dir] e(2) cq(2) gr by (simp add: below_def ready_def e_def)
    have "resolve (put_node e Dir t) ((cur @ [c]) @ cs @ rest) = Some q"
      using res resolve_same_links[of t "put_node e Dir t"] b by (simp add: below_def)
    moreover have "ready root (put_node e Dir t)" using b by (simp add: below_def)
    ultimately have "below root (put_node e Dir t) t'" using Cons.IH[OF new(3)[unfolded e(1)]] Cons.prems(4) dots by blast
    with b show ?thesis by (rule below_trans)
  qed
qed

definition lands :: "path \<Rightarrow> path \<Rightarrow> tree \<Rightarrow> string \<Rightarrow> bool" where
  "lands root d t name \<longleftrightarrow> (\<exists>q. resolve t (d @ member_parts name) = Some q \<and> is_under root q)"

lemma lands_same_links: "same_links t t' \<Longrightarrow> lands root d t' name = lands root d t name"
  by (simp add: lands_def resolve_same_links)

lemma member_parts_no_dots: "''..'' \<notin> set (member_parts s)"
  by (simp add: member_parts_def)

lemma extract_member_below:
  assumes "extract_member d m t = Some t'" and "ready root t" and "lands root d t (fst m)"
  shows "below root t t'"
proof -
  obtain name x ok where m: "m = (name, x, ok)" by (cases m)
  obtain q where q: "resolve t (d @ member_parts name) = Some q" "is_under root q" using assms(3) by (auto simp: lands_def m)
  show ?thesis
  proof (cases "ends_with ''/'' name")
    case True
    then have "make_dirs d (member_parts name) t = Some t'" using assms(1) by (simp add: extract_member_def m Let_def)
    from make_dirs_below[OF this assms(2), of "[]" q] q show ?thesis by (simp add: member_parts_no_dots)
  next
    case False
    then obtain t1 where t1: "make_dirs d (butlast (member_parts name)) t = Some t1"
      and w: "write_file (d @ member_parts name) x t1 = Some t'"
      using assms(1) by (auto simp: extract_member_def m Let_def split: option.splits if_splits)
    define last_part where "last_part = (if member_parts name = [] then [] else [last (member_parts name)])"
    have parts: "member_parts name = butlast (member_parts name) @ last_part" by (simp add: last_part_def)
    have "below root t t1"
    proof (rule make_dirs_below[OF t1 assms(2)])
      show "resolve t (d @ butlast (member_parts name) @ last_part) = Some q" using q(1) parts by simp
      show "''..'' \<notin> set (butlast (member_parts name) @ last_part)" using member_parts_no_dots parts by metis
    qed (rule q(2))
    moreover have r1: "resolve t1 (d @ member_parts name) = Some q"
      using q(1) resolve_same_links calculation by (auto simp: below_def)
    then have n: "node t1 q \<noteq> Some Dir" "node t1 (butlast q) = Some Dir" "t' = put_node q (File x) t1"
      using w by (auto simp: write_file_def split: if_splits)
    moreover have "q \<noteq> []" using n(1) by (auto simp: node_def)
    ultimately have "below root t1 t'"
      using put_below[OF q(2), of t1 "File x"] resolve_no_link[OF r1] by (auto simp: below_def ready_def)
    with \<open>below root t t1\<close> show ?thesis by (rule below_trans)
  qed
qed

lemma extract_members_below:
  assumes "extract_members d ms t = Some t'" and "ready root t" and "\<forall>m\<in>set ms. lands root d t (fst m)"
  shows "below root t t'"
  using assms
proof (induction ms arbitrary: t)
  case Nil
  then show ?case by (simp add: below_refl)
next
  case (Cons m ms)
  obtain t1 where t1: "extract_member d m t = Some t1" "extract_members d ms t1 = Some t'"
    using Cons.prems(1) by (auto split: option.splits)
  have b: "below root t t1" using extract_member_below[OF t1(1)] Cons.prems(2,3) by simp
  then have "\<forall>m\<in>set ms. lands root d t1 (fst m)"
    using Cons.prems(3) lands_same_links by (auto simp: below_def)
  moreover have "ready root t1" using b by (simp add: below_def)
  ultimately have "below root t1 t'" using Cons.IH[OF t1(2)] by blast
  with b show ?case by (rule below_trans)
qed

section \<open>Safe names\<close>

lemma split_on_slashes:
  "(case (split_on (CHR ''/'') s, split_on (CHR ''/'') (slashes s)) of
     (w # ws, v # vs) \<Rightarrow> (CHR 0x5C \<notin> set w \<longrightarrow> v = w) \<and> (\<forall>u\<in>set ws. CHR 0x5C \<notin> set u \<longrightarrow> u \<in> set vs) | _ \<Rightarrow> True)"
proof (induction s)
  case (Cons c s)
  obtain w ws v vs where "split_on (CHR ''/'') s = w # ws" "split_on (CHR ''/'') (slashes s) = v # vs"
    using split_on_not_Nil by (metis list.exhaust)
  with Cons show ?case by (auto simp: slashes_def)
qed (simp add: slashes_def)

lemma safe_no_dots: "\<not> unsafe_name s \<Longrightarrow> member_parts s = path_parts s"
proof -
  assume "\<not> unsafe_name s"
  then have no: "''..'' \<notin> set (path_parts (slashes s))" by (simp add: unsafe_name_def)
  have "''..'' \<notin> set (split_on (CHR ''/'') s)"
  proof
    assume in': "''..'' \<in> set (split_on (CHR ''/'') s)"
    obtain w ws v vs where sp: "split_on (CHR ''/'') s = w # ws" "split_on (CHR ''/'') (slashes s) = v # vs"
      using split_on_not_Nil by (metis list.exhaust)
    with split_on_slashes[of s] in' have "''..'' \<in> set (split_on (CHR ''/'') (slashes s))" by auto
    with no show False by (simp add: path_parts_def)
  qed
  then have "''..'' \<notin> set (path_parts s)" by (simp add: path_parts_def)
  then show ?thesis unfolding member_parts_def by (intro filter_True) auto
qed

section \<open>Hostile archives\<close>

text \<open>
  C15: an archive cannot write outside. Whatever the bytes of an archive, and whatever links there
  are in the tree (one where every entry is in a directory), also below the target: extracting it into a directory that is not itself a link
  changes nothing outside of that directory and makes no link. An archive with an empty, absolute or drive name,
  with a parent step in a name, or with a name that a link leads out of the directory is refused,
  and nothing of the directory is left.
\<close>
theorem extraction_stays_inside:
  assumes "grounded t" and "resolve t d = Some root" and "entry t d = root" and "node t root = Some Dir"
    and "extract_archive z p d t = (r, t')"
  shows "same_outside root t t' \<and> (\<forall>q l. node t' q = Some (Link l) \<longrightarrow> node t q = Some (Link l)) \<and>
     (\<forall>b ms m. stat t p = Some (File b) \<and> zl_read z b = Some ms \<and> m \<in> set ms \<and>
        (unsafe_name (fst m) \<or> (\<forall>q. resolve t (d @ path_parts (fst m)) = Some q \<longrightarrow> \<not> is_under root q)) \<longrightarrow>
        r = Inl UnsafePath \<and> (root \<noteq> [] \<longrightarrow> (\<forall>s. node t' (root @ s) = None)))"
proof -
  have dis: "discard_dir d t = drop_tree root t" using assms(3,4) by (simp add: discard_dir_def)
  have dropped: "same_outside root t (drop_tree root t)" "node (drop_tree root t) q = Some (Link l) \<Longrightarrow> node t q = Some (Link l)" for q l
    using drop_tree_outside[of root root t] is_under_append[of root "[]"]
    by (auto simp: node_def map_of_drop_tree split: if_splits)
  have "t' = drop_tree root t \<or> below root t t'"
  proof (cases "t' = discard_dir d t")
    case False
    then obtain b ms where b: "zl_read z b = Some ms" "extract_members d ms t = Some t'"
      "\<not> list_ex (\<lambda>m. unsafe_name (fst m) \<or> leaves t d root (fst m)) ms"
      using assms(2,5) by (auto simp: extract_archive_def split: option.splits fnode.splits if_splits)
    have "lands root d t (fst m)" if "m \<in> set ms" for m
    proof -
      have "\<not> unsafe_name (fst m)" "\<not> leaves t d root (fst m)" using b(3) that by (auto simp: list_ex_iff)
      then show ?thesis using safe_no_dots[of "fst m"] by (auto simp: lands_def leaves_def split: option.splits)
    qed
    with extract_members_below[OF b(2)] assms(1,4) show ?thesis by (simp add: ready_def)
  qed (simp add: dis)
  then have "same_outside root t t' \<and> (\<forall>q l. node t' q = Some (Link l) \<longrightarrow> node t q = Some (Link l))"
    using dropped by (auto simp: below_def same_links_def)
  moreover have "r = Inl UnsafePath \<and> t' = drop_tree root t"
    if "stat t p = Some (File b)" "zl_read z b = Some ms" "m \<in> set ms"
      "unsafe_name (fst m) \<or> (\<forall>q. resolve t (d @ path_parts (fst m)) = Some q \<longrightarrow> \<not> is_under root q)" for b ms m
  proof -
    have "list_ex (\<lambda>m. unsafe_name (fst m) \<or> leaves t d root (fst m)) ms"
      using that by (force simp: list_ex_iff leaves_def split: option.split)
    with that show ?thesis using assms(2,5) dis by (simp add: extract_archive_def)
  qed
  moreover have "node (drop_tree root t) (root @ s) = None" if "root \<noteq> []" for s
    using that by (simp add: node_def map_of_drop_tree)
  ultimately show ?thesis by metis
qed

text \<open>A directory with a link to the outside, and an archive with a name that goes through it.\<close>

definition linked_tree :: tree where
  "linked_tree = [([''s''], Dir), ([''s'', ''out''], Link [''etc'']), ([''etc''], Dir), ([''b''], Dir),
     ([''b'', ''z''], File (zl_write sample_zip [(''out/x'', ''evil'')]))]"

theorem extraction_stays_inside_witness:
  "extract_archive sample_zip [''b'', ''z''] [''s''] linked_tree = (Inl UnsafePath, drop_tree [''s''] linked_tree) \<and>
   node (snd (extract_archive sample_zip [''b'', ''z''] [''s''] linked_tree)) [''etc'', ''x''] = node linked_tree [''etc'', ''x'']"
proof -
  obtain r t' where x: "extract_archive sample_zip [''b'', ''z''] [''s''] linked_tree = (r, t')" by (metis surj_pair)
  have g: "grounded linked_tree"
    unfolding grounded_def by (auto simp: linked_tree_def node_def split: if_splits)
  have d: "resolve linked_tree [''s''] = Some [''s'']" "entry linked_tree [''s''] = [''s'']" "node linked_tree [''s''] = Some Dir"
    by (simp_all add: resolve_def entry_def node_def linked_tree_def link_limit_def)
  note th = extraction_stays_inside[OF g d x]
  have "same_outside [''s''] linked_tree t'" using th by blast
  then have o': "node t' [''etc'', ''x''] = node linked_tree [''etc'', ''x'']" by (simp add: same_outside_def is_under_def)
  have st: "stat linked_tree [''b'', ''z''] = Some (File (zl_write sample_zip [(''out/x'', ''evil'')]))"
    by (simp add: stat_def resolve_def node_def linked_tree_def link_limit_def)
  have rd: "zl_read sample_zip (zl_write sample_zip [(''out/x'', ''evil'')]) = Some [(''out/x'', ''evil'', True)]"
    using sample_zip_law by (simp add: zip_law_def)
  have "resolve linked_tree ([''s''] @ path_parts ''out/x'') = Some [''etc'', ''x'']"
    by (simp add: resolve_def path_parts_def node_def linked_tree_def link_limit_def)
  then have "r = Inl UnsafePath" using th st rd by (fastforce simp: is_under_def)
  moreover have "t' = drop_tree [''s''] linked_tree"
    using x calculation st rd d by (auto simp: extract_archive_def discard_dir_def split: if_splits option.splits)
  ultimately show ?thesis using x o' by simp
qed

end
