(* ===== verification/Auth.thy ===== *)
theory Auth
  imports Audit_Notify Realtime Machines
begin

text \<open>
  The identity service of \<open>app/services/auth.py\<close>: first superadmin, login with throttling and
  lockout, sessions, step-up and password change, with the secrets store it uses
  (\<open>app/infrastructure/secrets.py\<close>, whose encryption is its own inverse here: a row holds the
  plaintext a read would decrypt).  Argon2, SHA-256 and the random token are the fields of
  \<open>crypto\<close> and arguments; \<open>now\<close> is the clock of one call in whole seconds and \<open>u\<close> the
  identifiers it draws.  Each call commits as it goes, so it gives the state it reached with its
  result.
\<close>

section \<open>Tables\<close>

record device_row =
  dv_id :: string
  dv_name :: string
  dv_ip :: string
  dv_status :: DeviceStatus
  dv_last_seen :: "int option"
  dv_owner :: "string option"
  dv_deleted_at :: "int option"
  dv_created_at :: int
  dv_updated_at :: int

record session_row =
  se_id :: string
  se_user :: string
  se_device :: "string option"
  se_ip :: string
  se_expires_at :: int
  se_step_up_at :: "int option"
  se_last_activity :: int
  se_deleted_at :: "int option"
  se_deleted_by :: "string option"
  se_created_at :: int

record role_row =
  ro_id :: string
  ro_name :: string
  ro_system :: bool
  ro_deleted_at :: "int option"

record assignment_row =
  ra_id :: string
  ra_user :: string
  ra_role :: string
  ra_deleted_at :: "int option"

record secret_row =
  sk_id :: string
  sk_plaintext :: string
  sk_rotation_of :: "string option"
  sk_rotated_at :: "int option"

record auth_sys =
  at_store :: store
  at_devices :: "device_row list"
  at_sessions :: "session_row list"
  at_roles :: "role_row list"
  at_assignments :: "assignment_row list"
  at_secrets :: "secret_row list"

record crypto =
  hash_token :: "string \<Rightarrow> string"
  verify_hash :: "string \<Rightarrow> string \<Rightarrow> bool"
  hash_password :: "string \<Rightarrow> string"

record Session =
  sn_user :: string
  sn_token :: string
  sn_expires_at :: int
  sn_step_up_at :: "int option"
  sn_created_at :: int

datatype auth_error = UsersExist | InvalidCredentials | UserLocked | UserDisabled | SessionError
  | StepUpRequired | SecretMissing | AuthIntegrity

type_synonym 'a auth_result = "(auth_error + 'a) \<times> auth_sys"

definition max_failed_logins :: int where "max_failed_logins = 5"

definition lockout_seconds :: int where "lockout_seconds = 15 * 60"

definition step_up_window_s :: int where "step_up_window_s = 10 * 60"

definition session_idle_seconds :: int where "session_idle_seconds = 7 * 24 * 3600"

section \<open>Secrets\<close>

definition secret_store :: "string \<Rightarrow> string \<Rightarrow> auth_sys \<Rightarrow> (string \<times> auth_sys) option" where
  "secret_store uid text sys =
     (let i = ''sec_'' @ uid in
      if exists_row (\<lambda>s. sk_id s = i) (at_secrets sys) then None
      else Some (i, sys\<lparr>at_secrets := at_secrets sys @
             [\<lparr>sk_id = i, sk_plaintext = text, sk_rotation_of = None, sk_rotated_at = None\<rparr>]\<rparr>))"

definition secret_read :: "string \<Rightarrow> auth_sys \<Rightarrow> string option" where
  "secret_read i sys = map_option sk_plaintext (find_row (\<lambda>s. sk_id s = i) (at_secrets sys))"

definition secret_rotate :: "string \<Rightarrow> int \<Rightarrow> string \<Rightarrow> string \<Rightarrow> auth_sys \<Rightarrow> string auth_result" where
  "secret_rotate uid now i text sys =
     (if \<not> exists_row (\<lambda>s. sk_id s = i) (at_secrets sys) then (Inl SecretMissing, sys)
      else
        let sys1 = sys\<lparr>at_secrets := update_rows (\<lambda>s. sk_id s = i) (\<lambda>s. s\<lparr>sk_rotated_at := Some now\<rparr>)
                     (at_secrets sys)\<rparr> in
        case secret_store uid text sys1 of
          None \<Rightarrow> (Inl AuthIntegrity, sys1)
        | Some (j, sys2) \<Rightarrow> (Inr j, sys2\<lparr>at_secrets :=
            update_rows (\<lambda>s. sk_id s = j) (\<lambda>s. s\<lparr>sk_rotation_of := Some i\<rparr>) (at_secrets sys2)\<rparr>))"

section \<open>Helpers\<close>

definition live_user :: "string \<Rightarrow> store \<Rightarrow> user_row option" where
  "live_user name st = find_row (\<lambda>u. us_username u = name \<and> us_deleted_at u = None) (users st)"

definition find_user :: "string \<Rightarrow> store \<Rightarrow> user_row option" where
  "find_user i st = find_row (\<lambda>u. us_id u = i) (users st)"

definition find_session :: "string \<Rightarrow> auth_sys \<Rightarrow> session_row option" where
  "find_session i sys = find_row (\<lambda>s. se_id s = i) (at_sessions sys)"

definition update_user :: "string \<Rightarrow> (user_row \<Rightarrow> user_row) \<Rightarrow> auth_sys \<Rightarrow> auth_sys" where
  "update_user i f sys = sys\<lparr>at_store := (at_store sys)\<lparr>users :=
     update_rows (\<lambda>u. us_id u = i) f (users (at_store sys))\<rparr>\<rparr>"

text \<open>Write an audit record and go on; the write raises on a reused identifier.\<close>

definition auth_audit ::
  "string \<Rightarrow> int \<Rightarrow> string \<Rightarrow> ActorSnapshot \<Rightarrow> jdict option \<Rightarrow> auth_sys
    \<Rightarrow> (auth_sys \<Rightarrow> 'a auth_result) \<Rightarrow> 'a auth_result" where
  "auth_audit uid now event actor payload sys k =
     (case audit_write uid now \<lparr>ai_event = event, ai_actor = actor, ai_operation = None, ai_world = None,
             ai_payload = payload, ai_target = None, ai_annotation = None, ai_when = None\<rparr> (at_store sys) of
        None \<Rightarrow> (Inl AuthIntegrity, sys)
      | Some st \<Rightarrow> k (sys\<lparr>at_store := st\<rparr>))"

record login_context =
  lc_device :: "string option"
  lc_device_name :: "string option"
  lc_ip :: string

definition actor_for :: "string \<Rightarrow> login_context \<Rightarrow> auth_sys \<Rightarrow> ActorSnapshot" where
  "actor_for uid c sys = snapshot_for_user uid (lc_device c) (lc_device_name c) (Some (lc_ip c)) (at_store sys)"

definition role_id :: "string \<Rightarrow> auth_sys \<Rightarrow> string option" where
  "role_id name sys = map_option ro_id (find_row (\<lambda>r. ro_name r = name \<and> ro_deleted_at r = None) (at_roles sys))"

definition ensure_system_role :: "string \<Rightarrow> string \<Rightarrow> auth_sys \<Rightarrow> auth_sys" where
  "ensure_system_role uid name sys =
     (if role_id name sys \<noteq> None then sys
      else sys\<lparr>at_roles := at_roles sys @
             [\<lparr>ro_id = ''r_'' @ uid, ro_name = name, ro_system = True, ro_deleted_at = None\<rparr>]\<rparr>)"

definition verify_password :: "crypto \<Rightarrow> string \<Rightarrow> string \<Rightarrow> auth_sys \<Rightarrow> auth_error + bool" where
  "verify_password cr uid pw sys =
     (case find_user uid (at_store sys) of
        None \<Rightarrow> Inl InvalidCredentials
      | Some u \<Rightarrow> (case secret_read (us_secret u) sys of
          None \<Rightarrow> Inl SecretMissing
        | Some stored \<Rightarrow> Inr (verify_hash cr stored pw)))"

section \<open>Bootstrap\<close>

definition provision_first_superadmin ::
  "crypto \<Rightarrow> (nat \<Rightarrow> string) \<Rightarrow> int \<Rightarrow> string \<Rightarrow> string \<Rightarrow> login_context \<Rightarrow> auth_sys \<Rightarrow> string auth_result" where
  "provision_first_superadmin cr u now name pw c sys =
     (if exists_row (\<lambda>x. us_deleted_at x = None) (users (at_store sys)) then (Inl UsersExist, sys)
      else
        let i = ''u_'' @ u 0 in
        case secret_store (u 1) (hash_password cr pw) sys of
          None \<Rightarrow> (Inl AuthIntegrity, sys)
        | Some (sec, sys1) \<Rightarrow>
            (if exists_row (\<lambda>x. us_id x = i) (users (at_store sys1)) then (Inl AuthIntegrity, sys1)
             else
               let usr = \<lparr>us_id = i, us_username = name, us_secret = sec, us_status = US_ACTIVE,
                          us_failed = 0, us_locked_until = None, us_deleted_at = None, us_updated_at = now,
                          us_display = None, us_created_at = now\<rparr>;
                   sys2 = sys1\<lparr>at_store := (at_store sys1)\<lparr>users := users (at_store sys1) @ [usr]\<rparr>\<rparr>;
                   sys3 = ensure_system_role (u 2) ''Superadmin'' sys2;
                   rid = (case role_id ''Superadmin'' sys3 of None \<Rightarrow> [] | Some r \<Rightarrow> r);
                   sys4 = sys3\<lparr>at_assignments := at_assignments sys3 @
                     [\<lparr>ra_id = ''ra_'' @ u 3, ra_user = i, ra_role = rid, ra_deleted_at = None\<rparr>]\<rparr> in
               auth_audit (u 4) now ''user_created'' (actor_for i c sys4)
                 (Some [(''username'', JStr name), (''role'', JStr ''Superadmin''), (''bootstrap'', JBool True)])
                 sys4 (\<lambda>s. (Inr i, s))))"

section \<open>Sessions\<close>

definition ensure_device :: "int \<Rightarrow> login_context \<Rightarrow> auth_sys \<Rightarrow> auth_sys" where
  "ensure_device now c sys =
     (case lc_device c of
        None \<Rightarrow> sys
      | Some d \<Rightarrow>
          (if exists_row (\<lambda>r. dv_id r = d) (at_devices sys)
           then sys\<lparr>at_devices := update_rows (\<lambda>r. dv_id r = d) (\<lambda>r. r\<lparr>dv_last_seen := Some now\<rparr>) (at_devices sys)\<rparr>
           else sys\<lparr>at_devices := at_devices sys @
             [\<lparr>dv_id = d,
               dv_name = (case lc_device_name c of None \<Rightarrow> d | Some n \<Rightarrow> if n = [] then d else n),
               dv_ip = lc_ip c, dv_status = UNRECOGNIZED, dv_last_seen = Some now, dv_owner = None,
               dv_deleted_at = None, dv_created_at = now, dv_updated_at = now\<rparr>]\<rparr>))"

definition issue_session ::
  "crypto \<Rightarrow> string \<Rightarrow> string \<Rightarrow> int \<Rightarrow> string \<Rightarrow> login_context \<Rightarrow> auth_sys \<Rightarrow> Session auth_result" where
  "issue_session cr token uid now user c sys =
     (let sys1 = ensure_device now c sys;
          sn = \<lparr>sn_user = user, sn_token = token, sn_expires_at = now + session_idle_seconds,
                sn_step_up_at = None, sn_created_at = now\<rparr>;
          row = \<lparr>se_id = hash_token cr token, se_user = user, se_device = lc_device c, se_ip = lc_ip c,
                 se_expires_at = sn_expires_at sn, se_step_up_at = None, se_last_activity = now,
                 se_deleted_at = None, se_deleted_by = None, se_created_at = now\<rparr> in
      if exists_row (\<lambda>s. se_id s = se_id row) (at_sessions sys1) \<or> \<not> fk_user (Some user) (at_store sys1)
      then (Inl AuthIntegrity, sys1)
      else auth_audit uid now ''session_issued'' (actor_for user c sys1) None
             (sys1\<lparr>at_sessions := at_sessions sys1 @ [row]\<rparr>) (\<lambda>s. (Inr sn, s)))"

definition revoke_session_id :: "string \<Rightarrow> int \<Rightarrow> string \<Rightarrow> auth_sys \<Rightarrow> unit auth_result" where
  "revoke_session_id uid now i sys =
     (case find_session i sys of
        None \<Rightarrow> (Inr (), sys)
      | Some row \<Rightarrow>
          auth_audit uid now ''session_revoked'' audit_system (Some [(''user_id'', JStr (se_user row))])
            (sys\<lparr>at_sessions := update_rows (\<lambda>s. se_id s = i)
               (\<lambda>s. s\<lparr>se_deleted_at := Some now, se_deleted_by := Some ''system'', se_last_activity := now\<rparr>)
               (at_sessions sys)\<rparr>) (\<lambda>s. (Inr (), s)))"

definition validate_session ::
  "crypto \<Rightarrow> string \<Rightarrow> int \<Rightarrow> string \<Rightarrow> auth_sys \<Rightarrow> Session auth_result" where
  "validate_session cr uid now token sys =
     (case find_session (hash_token cr token) sys of
        None \<Rightarrow> (Inl SessionError, sys)
      | Some row \<Rightarrow>
          (if se_deleted_at row \<noteq> None then (Inl SessionError, sys)
           else if se_expires_at row < now then
             (case revoke_session_id uid now (hash_token cr token) sys of
                (Inl e, s) \<Rightarrow> (Inl e, s)
              | (Inr _, s) \<Rightarrow> (Inl SessionError, s))
           else (Inr \<lparr>sn_user = se_user row, sn_token = token, sn_expires_at = se_expires_at row,
                      sn_step_up_at = se_step_up_at row, sn_created_at = se_created_at row\<rparr>, sys)))"

section \<open>Login\<close>

definition register_failure ::
  "string \<Rightarrow> int \<Rightarrow> string \<Rightarrow> int \<Rightarrow> ActorSnapshot \<Rightarrow> auth_sys \<Rightarrow> (auth_sys \<Rightarrow> 'a auth_result) \<Rightarrow> 'a auth_result" where
  "register_failure uid now i previous actor sys k =
     (let count = previous + 1;
          locked = (if max_failed_logins \<le> count then Some (now + lockout_seconds) else None);
          sys1 = update_user i (\<lambda>u. u\<lparr>us_failed := count, us_locked_until := locked,
                   us_status := (if locked = None \<or> locked = Some 0 then US_ACTIVE else US_LOCKED),
                   us_updated_at := now\<rparr>) sys in
      if locked = None \<or> locked = Some 0 then k sys1
      else auth_audit uid now ''user_login_locked'' actor (Some [(''lockout_seconds'', JInt lockout_seconds)]) sys1 k)"

definition clear_failures :: "int \<Rightarrow> string \<Rightarrow> auth_sys \<Rightarrow> auth_sys" where
  "clear_failures now i = update_user i (\<lambda>u. u\<lparr>us_failed := 0, us_locked_until := None,
     us_status := (if us_status u = US_LOCKED then US_ACTIVE else us_status u), us_updated_at := now\<rparr>)"

definition authenticate ::
  "crypto \<Rightarrow> string \<Rightarrow> (nat \<Rightarrow> string) \<Rightarrow> int \<Rightarrow> string \<Rightarrow> string \<Rightarrow> login_context \<Rightarrow> auth_sys \<Rightarrow> Session auth_result" where
  "authenticate cr token u now name pw c sys =
     (case live_user name (at_store sys) of
        None \<Rightarrow> auth_audit (u 0) now ''user_login_failed'' audit_system
                  (Some [(''username'', JStr name), (''ip'', JStr (lc_ip c)), (''reason'', JStr ''unknown_user'')])
                  sys (\<lambda>s. (Inl InvalidCredentials, s))
      | Some r \<Rightarrow>
          (let actor = actor_for (us_id r) c sys in
           if us_status r = US_LOCKED \<and>
              (case us_locked_until r of None \<Rightarrow> False | Some t \<Rightarrow> t \<noteq> 0 \<and> now < t)
           then auth_audit (u 0) now ''user_login_locked'' actor None sys (\<lambda>s. (Inl UserLocked, s))
           else if us_status r = US_DISABLED
           then auth_audit (u 0) now ''user_login_failed'' actor (Some [(''reason'', JStr ''disabled'')]) sys
                  (\<lambda>s. (Inl UserDisabled, s))
           else case verify_password cr (us_id r) pw sys of
             Inl e \<Rightarrow> (Inl e, sys)
           | Inr False \<Rightarrow>
               register_failure (u 0) now (us_id r) (us_failed r) actor sys
                 (\<lambda>s. auth_audit (u 1) now ''user_login_failed'' actor
                        (Some [(''reason'', JStr ''bad_password'')]) s (\<lambda>s'. (Inl InvalidCredentials, s')))
           | Inr True \<Rightarrow>
               auth_audit (u 0) now ''user_login_success'' actor None (clear_failures now (us_id r) sys)
                 (issue_session cr token (u 1) now (us_id r) c)))"

section \<open>Step-up and password change\<close>

definition confirm_step_up ::
  "crypto \<Rightarrow> string \<Rightarrow> (nat \<Rightarrow> string) \<Rightarrow> int \<Rightarrow> string \<Rightarrow> string \<Rightarrow> login_context \<Rightarrow> auth_sys \<Rightarrow> Session auth_result" where
  "confirm_step_up cr token u now raw pw c sys =
     (case validate_session cr (u 0) now raw sys of
        (Inl e, s) \<Rightarrow> (Inl e, s)
      | (Inr cur, sys1) \<Rightarrow>
          (case verify_password cr (sn_user cur) pw sys1 of
             Inl e \<Rightarrow> (Inl e, sys1)
           | Inr False \<Rightarrow> auth_audit (u 1) now ''user_login_failed'' (actor_for (sn_user cur) c sys1)
               (Some [(''reason'', JStr ''step_up'')]) sys1 (\<lambda>s. (Inl InvalidCredentials, s))
           | Inr True \<Rightarrow>
               (case revoke_session_id (u 1) now (hash_token cr raw) sys1 of
                  (Inl e, s) \<Rightarrow> (Inl e, s)
                | (Inr _, sys2) \<Rightarrow>
                    (case issue_session cr token (u 2) now (sn_user cur) c sys2 of
                       (Inl e, s) \<Rightarrow> (Inl e, s)
                     | (Inr sn, sys3) \<Rightarrow>
                         (let sys4 = sys3\<lparr>at_sessions := update_rows (\<lambda>s. se_id s = hash_token cr (sn_token sn))
                                (\<lambda>s. s\<lparr>se_step_up_at := Some now\<rparr>) (at_sessions sys3)\<rparr> in
                          auth_audit (u 3) now ''step_up_confirmed'' (actor_for (sn_user cur) c sys4) None sys4
                            (\<lambda>s. (Inr (sn\<lparr>sn_step_up_at := Some now\<rparr>), s)))))))"

definition require_step_up :: "int \<Rightarrow> Session \<Rightarrow> auth_error + unit" where
  "require_step_up now sn =
     (case sn_step_up_at sn of
        None \<Rightarrow> Inl StepUpRequired
      | Some t \<Rightarrow> if step_up_window_s < now - t then Inl StepUpRequired else Inr ())"

definition change_password ::
  "crypto \<Rightarrow> (nat \<Rightarrow> string) \<Rightarrow> int \<Rightarrow> string \<Rightarrow> string \<Rightarrow> string \<Rightarrow> auth_sys \<Rightarrow> unit auth_result" where
  "change_password cr u now user pw by sys =
     (case find_user user (at_store sys) of
        None \<Rightarrow> (Inl InvalidCredentials, sys)
      | Some r \<Rightarrow>
          (case secret_rotate (u 0) now (us_secret r) (hash_password cr pw) sys of
             (Inl e, s) \<Rightarrow> (Inl e, s)
           | (Inr sec, sys1) \<Rightarrow>
               (let sys2 = update_user user (\<lambda>x. x\<lparr>us_secret := sec, us_updated_at := now\<rparr>) sys1;
                    sys3 = sys2\<lparr>at_sessions := update_rows (\<lambda>s. se_user s = user \<and> se_deleted_at s = None)
                       (\<lambda>s. s\<lparr>se_deleted_at := Some now, se_deleted_by := Some by\<rparr>) (at_sessions sys2)\<rparr> in
                auth_audit (u 1) now ''password_changed''
                  (snapshot_for_user by None None None (at_store sys3))
                  (Some [(''target_user_id'', JStr user)]) sys3 (\<lambda>s. (Inr (), s)))))"

section \<open>Runs of the service\<close>

datatype auth_action =
    Provision "nat \<Rightarrow> string" int string string login_context
  | Login string "nat \<Rightarrow> string" int string string login_context
  | StepUp string "nat \<Rightarrow> string" int string string login_context
  | Validate string int string
  | Revoke string int string
  | ChangePassword "nat \<Rightarrow> string" int string string string

fun auth_step :: "crypto \<Rightarrow> auth_sys \<Rightarrow> auth_action \<Rightarrow> auth_sys option" where
  "auth_step cr sys (Provision u now name pw c) = Some (snd (provision_first_superadmin cr u now name pw c sys))"
| "auth_step cr sys (Login t u now name pw c) = Some (snd (authenticate cr t u now name pw c sys))"
| "auth_step cr sys (StepUp t u now raw pw c) = Some (snd (confirm_step_up cr t u now raw pw c sys))"
| "auth_step cr sys (Validate uid now raw) = Some (snd (validate_session cr uid now raw sys))"
| "auth_step cr sys (Revoke uid now h) = Some (snd (revoke_session_id uid now h sys))"
| "auth_step cr sys (ChangePassword u now user pw by) = Some (snd (change_password cr u now user pw by sys))"

text \<open>A run of the service: every action is attempted, an exception keeps what was committed.\<close>

abbreviation auth_run :: "crypto \<Rightarrow> auth_sys \<Rightarrow> auth_action list \<Rightarrow> auth_sys" where
  "auth_run cr \<equiv> run_attempts (auth_step cr)"

section \<open>Sessions only die\<close>

text \<open>What later states keep of the session rows: every row stays, with its owner and expiry,
  and a revoked row stays revoked.\<close>

definition sess_le :: "auth_sys \<Rightarrow> auth_sys \<Rightarrow> bool" where
  "sess_le s s' = (\<forall>h row. find_session h s = Some row \<longrightarrow>
     (\<exists>row'. find_session h s' = Some row' \<and> se_user row' = se_user row \<and>
        se_expires_at row' = se_expires_at row \<and> (se_deleted_at row \<noteq> None \<longrightarrow> se_deleted_at row' \<noteq> None)))"

lemma sess_le_eq: "at_sessions s' = at_sessions s \<Longrightarrow> sess_le s s'"
  by (simp add: sess_le_def find_session_def)

lemma sess_le_refl [simp]: "sess_le s s"
  by (rule sess_le_eq) simp

lemma sess_le_trans: "sess_le s s' \<Longrightarrow> sess_le s' s'' \<Longrightarrow> sess_le s s''"
  unfolding sess_le_def by metis

lemma sess_le_append: "at_sessions s' = at_sessions s @ xs \<Longrightarrow> sess_le s s'"
  by (auto simp: sess_le_def find_session_def row_simps)

lemma sess_le_update:
  assumes "at_sessions s' = update_rows p f (at_sessions s)"
    and "\<And>r. se_id (f r) = se_id r \<and> se_user (f r) = se_user r \<and> se_expires_at (f r) = se_expires_at r"
    and "\<And>r. se_deleted_at r \<noteq> None \<Longrightarrow> se_deleted_at (f r) \<noteq> None"
  shows "sess_le s s'"
  unfolding sess_le_def
proof (intro allI impI)
  fix h row
  assume *: "find_session h s = Some row"
  have "find_session h s' = Some (if p row then f row else row)"
    using * assms(2) by (simp add: find_session_def assms(1) find_row_update_rows_stable)
  with assms(2,3)[of row] show "\<exists>row'. find_session h s' = Some row' \<and> se_user row' = se_user row \<and>
        se_expires_at row' = se_expires_at row \<and> (se_deleted_at row \<noteq> None \<longrightarrow> se_deleted_at row' \<noteq> None)"
    by auto
qed

lemma auth_audit_cases:
  assumes "auth_audit uid now ev a p sys k = (r, s')"
  obtains (refused) "r = Inl AuthIntegrity" "s' = sys"
  | (written) row where
      "k (sys\<lparr>at_store := (at_store sys)\<lparr>audits := audits (at_store sys) @ [row]\<rparr>\<rparr>) = (r, s')"
      "au_event row = ev" "au_user row = as_user a"
proof (cases "audit_write uid now \<lparr>ai_event = ev, ai_actor = a, ai_operation = None, ai_world = None,
             ai_payload = p, ai_target = None, ai_annotation = None, ai_when = None\<rparr> (at_store sys)")
  case None
  with assms show thesis by (intro refused) (auto simp: auth_audit_def)
next
  case (Some st)
  then obtain row where "st = (at_store sys)\<lparr>audits := audits (at_store sys) @ [row]\<rparr>"
    "au_event row = ev" "au_user row = as_user a"
    using insert_audit_Some unfolding audit_write_def Let_def by fastforce
  with Some assms show thesis by (intro written) (auto simp: auth_audit_def)
qed

lemma auth_audit_sess_le:
  assumes "\<And>s. at_sessions s = at_sessions sys \<Longrightarrow> sess_le s (snd (k s))"
  shows "sess_le sys (snd (auth_audit uid now ev a p sys k))"
proof -
  obtain r s' where e: "auth_audit uid now ev a p sys k = (r, s')" by (cases "auth_audit uid now ev a p sys k")
  from e show ?thesis
  proof (cases rule: auth_audit_cases)
    case (written row)
    then show ?thesis using assms sess_le_eq sess_le_trans e by (metis (no_types, lifting) auth_sys.select_convs(3)
        auth_sys.surjective auth_sys.update_convs(1) snd_conv)
  qed (simp add: e)
qed

lemma auth_audit_sess_after:
  assumes "sess_le s0 sys" and "\<And>s. at_sessions s = at_sessions sys \<Longrightarrow> sess_le s (snd (k s))"
  shows "sess_le s0 (snd (auth_audit uid now ev a p sys k))"
  using sess_le_trans[OF assms(1) auth_audit_sess_le[of sys k, OF assms(2)]] by simp

lemma sess_le_same:
  "at_sessions s1 = at_sessions s \<Longrightarrow> sess_le s1 (snd x) \<Longrightarrow> sess_le s (snd x)"
  by (simp add: sess_le_def find_session_def)

lemma update_user_sessions [simp]: "at_sessions (update_user i f s) = at_sessions s"
  by (simp add: update_user_def)

lemma ensure_device_sessions [simp]: "at_sessions (ensure_device now c s) = at_sessions s"
  by (simp add: ensure_device_def split: option.split)

lemma clear_failures_sessions [simp]: "at_sessions (clear_failures now i s) = at_sessions s"
  by (simp add: clear_failures_def)

lemma secret_store_sessions: "secret_store uid t s = Some (i, s') \<Longrightarrow> at_sessions s' = at_sessions s"
  by (auto simp: secret_store_def Let_def split: if_splits)

lemma secret_rotate_sessions: "secret_rotate uid now i t s = (r, s') \<Longrightarrow> at_sessions s' = at_sessions s"
  by (auto simp: secret_rotate_def Let_def dest!: secret_store_sessions split: if_splits option.splits)

lemma ensure_role_sessions [simp]: "at_sessions (ensure_system_role uid n s) = at_sessions s"
  by (simp add: ensure_system_role_def)

lemma issue_sess_le: "sess_le sys (snd (issue_session cr t uid now user c sys))"
  unfolding issue_session_def Let_def
  by (auto intro!: sess_le_eq[of "ensure_device now c sys" sys]
      auth_audit_sess_after[OF sess_le_append] intro: sess_le_eq)

lemma revoke_sess_le: "sess_le sys (snd (revoke_session_id uid now i sys))"
  unfolding revoke_session_id_def
  by (auto split: option.split intro!: auth_audit_sess_after[OF sess_le_update])

lemma validate_sess_le: "sess_le sys (snd (validate_session cr uid now t sys))"
  using revoke_sess_le[of sys uid now "hash_token cr t"]
  unfolding validate_session_def by (auto split: option.split prod.split sum.split)

lemma register_failure_sess_le:
  assumes "\<And>s'. at_sessions s' = at_sessions s \<Longrightarrow> sess_le s' (snd (k s'))"
  shows "sess_le s (snd (register_failure uid now i n a s k))"
  unfolding register_failure_def Let_def
  by (auto simp: sess_le_eq intro!: auth_audit_sess_after assms intro: sess_le_same[OF _ assms])

lemma authenticate_sess_le: "sess_le sys (snd (authenticate cr t u now name pw c sys))"
  unfolding authenticate_def Let_def
  by (auto split: option.split sum.split bool.split
      intro!: auth_audit_sess_le register_failure_sess_le issue_sess_le
        auth_audit_sess_after[OF sess_le_eq])

lemma step_up_sess_le: "sess_le sys (snd (confirm_step_up cr t u now raw pw c sys))"
proof -
  obtain r1 s1 where v: "validate_session cr (u 0) now raw sys = (r1, s1)" by (meson surj_pair)
  have le1: "sess_le sys s1" using validate_sess_le[of sys cr "u 0" now raw] v by simp
  show ?thesis
  proof (cases r1)
    case (Inr cur)
    obtain r2 s2 where k: "revoke_session_id (u 1) now (hash_token cr raw) s1 = (r2, s2)" by (meson surj_pair)
    obtain r3 s3 where i: "issue_session cr t (u 2) now (sn_user cur) c s2 = (r3, s3)" by (meson surj_pair)
    have le2: "sess_le sys s2" using sess_le_trans[OF le1] revoke_sess_le[of s1 "u 1" now "hash_token cr raw"] k by simp
    have le3: "sess_le sys s3" using sess_le_trans[OF le2] issue_sess_le[of s2 cr t "u 2" now "sn_user cur" c] i by simp
    have up: "sess_le s3 (s3\<lparr>at_sessions := update_rows (\<lambda>s. se_id s = h) (\<lambda>s. s\<lparr>se_step_up_at := Some now\<rparr>) (at_sessions s3)\<rparr>)" for h
      by (rule sess_le_update[where p = "\<lambda>s. se_id s = h" and f = "\<lambda>s. s\<lparr>se_step_up_at := Some now\<rparr>"]) auto
    show ?thesis
      unfolding confirm_step_up_def Let_def
      using le1 le2 le3 sess_le_trans[OF le3 up]
      by (auto simp: v k[simplified] i Inr split: sum.split bool.split
          intro!: auth_audit_sess_after)
  qed (simp add: confirm_step_up_def v le1)
qed

lemma change_password_sess_le: "sess_le sys (snd (change_password cr u now user pw by sys))"
proof (cases "find_user user (at_store sys)")
  case (Some r)
  obtain r1 s1 where k: "secret_rotate (u 0) now (us_secret r) (hash_password cr pw) sys = (r1, s1)"
    by (meson surj_pair)
  show ?thesis
    unfolding change_password_def Let_def
    using secret_rotate_sessions[OF k]
    by (auto simp: Some k sess_le_eq split: sum.split intro!: auth_audit_sess_after[OF sess_le_update])
qed (simp add: change_password_def)

lemma provision_sess_le: "sess_le sys (snd (provision_first_superadmin cr u now name pw c sys))"
  unfolding provision_first_superadmin_def Let_def
  by (auto simp: sess_le_eq split: option.split intro!: auth_audit_sess_after[OF sess_le_eq] dest!: secret_store_sessions)

lemma auth_step_sess_le: "auth_step cr s a = Some s' \<Longrightarrow> sess_le s s'"
  by (cases a) (auto simp: provision_sess_le authenticate_sess_le step_up_sess_le validate_sess_le
      revoke_sess_le change_password_sess_le)

lemma auth_run_sess_le: "sess_le s (auth_run cr s as)"
proof (induction as arbitrary: s)
  case (Cons a as)
  obtain s' where "auth_step cr s a = Some s'" by (cases a) auto
  with Cons show ?case using auth_step_sess_le sess_le_trans by fastforce
qed simp

text \<open>A revoked row is refused in every later state.\<close>

definition revoked :: "string \<Rightarrow> auth_sys \<Rightarrow> bool" where
  "revoked h s = (case find_session h s of None \<Rightarrow> False | Some row \<Rightarrow> se_deleted_at row \<noteq> None)"

lemma revoked_le: "sess_le s s' \<Longrightarrow> revoked h s \<Longrightarrow> revoked h s'"
  unfolding revoked_def sess_le_def by (cases "find_session h s") fastforce+

lemma revoked_forever: "revoked h s \<Longrightarrow> revoked h (auth_run cr s as)"
  by (rule revoked_le[OF auth_run_sess_le])

lemma revoked_refused:
  "revoked (hash_token cr raw) s \<Longrightarrow> validate_session cr uid now raw s = (Inl SessionError, s)"
  by (auto simp: revoked_def validate_session_def split: option.splits)

section \<open>Invariant\<close>

definition auth_core :: "auth_sys \<Rightarrow> user_row list \<times> session_row list \<times> secret_row list" where
  "auth_core s = (users (at_store s), at_sessions s, at_secrets s)"

definition auth_inv :: "auth_sys \<Rightarrow> bool" where
  "auth_inv s \<longleftrightarrow> distinct (map us_id (users (at_store s))) \<and> distinct (map se_id (at_sessions s)) \<and>
     us_secret ` set (users (at_store s)) \<subseteq> sk_id ` set (at_secrets s) \<and>
     se_user ` set (at_sessions s) \<subseteq> us_id ` set (users (at_store s))"

lemma auth_inv_core: "auth_core s = auth_core s' \<Longrightarrow> auth_inv s = auth_inv s'"
  by (simp add: auth_core_def auth_inv_def)

lemma auth_inv_core_snd: "auth_core (snd x) = auth_core s' \<Longrightarrow> auth_inv s' \<Longrightarrow> auth_inv (snd x)"
  using auth_inv_core by blast

lemma auth_audit_inv:
  assumes "auth_inv sys" and "\<And>s. auth_core s = auth_core sys \<Longrightarrow> auth_inv s \<Longrightarrow> auth_inv (snd (k s))"
  shows "auth_inv (snd (auth_audit uid now ev a p sys k))"
proof -
  obtain r s' where e: "auth_audit uid now ev a p sys k = (r, s')" by (meson surj_pair)
  from e show ?thesis
  proof (cases rule: auth_audit_cases)
    case (written row)
    let ?s = "sys\<lparr>at_store := (at_store sys)\<lparr>audits := audits (at_store sys) @ [row]\<rparr>\<rparr>"
    have c: "auth_core ?s = auth_core sys" by (simp add: auth_core_def)
    with assms(1) auth_inv_core have "auth_inv ?s" by blast
    with assms(2)[OF c] written(1) e show ?thesis by simp
  qed (simp add: e assms(1))
qed

lemma image_key_update_rows:
  "(\<And>r. k (f r) = k r) \<Longrightarrow> k ` set (update_rows p f rs) = k ` set rs"
  by (metis map_key_update_rows set_map)

lemma auth_inv_update_user:
  assumes "auth_inv s" and "\<And>u. us_id (f u) = us_id u \<and> us_secret (f u) \<in> insert (us_secret u) (sk_id ` set (at_secrets s))"
  shows "auth_inv (update_user i f s)"
proof -
  have "us_secret ` set (update_rows (\<lambda>u. us_id u = i) f (users (at_store s))) \<subseteq> sk_id ` set (at_secrets s)"
  proof
    fix x
    assume "x \<in> us_secret ` set (update_rows (\<lambda>u. us_id u = i) f (users (at_store s)))"
    then obtain u where "u \<in> set (users (at_store s))" "x = us_secret u \<or> x = us_secret (f u)"
      by (auto simp: in_update_rows)
    with assms(1) assms(2)[of u] show "x \<in> sk_id ` set (at_secrets s)"
      by (auto simp: auth_inv_def)
  qed
  with assms show ?thesis
    by (simp add: auth_inv_def update_user_def map_key_update_rows image_key_update_rows)
qed

lemma auth_inv_update_sessions:
  assumes "auth_inv s" and "\<And>r. se_id (f r) = se_id r \<and> se_user (f r) = se_user r"
  shows "auth_inv (s\<lparr>at_sessions := update_rows p f (at_sessions s)\<rparr>)"
  using assms by (simp add: auth_inv_def map_key_update_rows image_key_update_rows)

lemma ensure_device_core [simp]: "auth_core (ensure_device now c s) = auth_core s"
  by (simp add: ensure_device_def auth_core_def split: option.split)

lemma ensure_device_inv: "auth_inv s \<Longrightarrow> auth_inv (ensure_device now c s)"
  using auth_inv_core[OF ensure_device_core] by blast

lemma clear_failures_inv: "auth_inv s \<Longrightarrow> auth_inv (clear_failures now i s)"
  unfolding clear_failures_def by (rule auth_inv_update_user) auto

lemma auth_inv_new_session:
  assumes "auth_inv s" and "\<not> exists_row (\<lambda>x. se_id x = se_id r) (at_sessions s)"
    and "fk_user (Some (se_user r)) (at_store s)"
  shows "auth_inv (s\<lparr>at_sessions := at_sessions s @ [r]\<rparr>)"
proof -
  have "se_user r \<in> us_id ` set (users (at_store s))"
    using assms(3) unfolding fk_user_def exists_row_iff by (auto intro: image_eqI[rotated])
  with assms(1,2) show ?thesis by (auto simp: auth_inv_def exists_row_iff)
qed

lemma issue_inv: "auth_inv s \<Longrightarrow> auth_inv (snd (issue_session cr t uid now user c s))"
  unfolding issue_session_def Let_def
  by (auto intro!: auth_audit_inv ensure_device_inv auth_inv_new_session[of "ensure_device now c s", simplified])

lemma revoke_inv: "auth_inv s \<Longrightarrow> auth_inv (snd (revoke_session_id uid now i s))"
  unfolding revoke_session_id_def
  by (auto split: option.split intro!: auth_audit_inv auth_inv_update_sessions)

lemma validate_inv: "auth_inv s \<Longrightarrow> auth_inv (snd (validate_session cr uid now t s))"
  using revoke_inv[of s uid now "hash_token cr t"]
  unfolding validate_session_def by (auto split: option.split prod.split sum.split)

lemma register_failure_inv:
  assumes "auth_inv s" and "\<And>s'. auth_inv s' \<Longrightarrow> auth_inv (snd (k s'))"
  shows "auth_inv (snd (register_failure uid now i n a s k))"
  unfolding register_failure_def Let_def
  by (auto intro!: auth_audit_inv assms auth_inv_update_user)

lemma authenticate_inv: "auth_inv s \<Longrightarrow> auth_inv (snd (authenticate cr t u now name pw c s))"
  unfolding authenticate_def Let_def
  by (auto split: option.split sum.split bool.split
      intro!: auth_audit_inv register_failure_inv issue_inv clear_failures_inv)

lemma step_up_inv:
  assumes "auth_inv s"
  shows "auth_inv (snd (confirm_step_up cr t u now raw pw c s))"
proof -
  obtain r1 s1 where v: "validate_session cr (u 0) now raw s = (r1, s1)" by (meson surj_pair)
  have i1: "auth_inv s1" using validate_inv[OF assms, of cr "u 0" now raw] v by simp
  show ?thesis
  proof (cases r1)
    case (Inr cur)
    obtain r2 s2 where k: "revoke_session_id (u 1) now (hash_token cr raw) s1 = (r2, s2)" by (meson surj_pair)
    obtain r3 s3 where i: "issue_session cr t (u 2) now (sn_user cur) c s2 = (r3, s3)" by (meson surj_pair)
    have i2: "auth_inv s2" using revoke_inv[OF i1, of "u 1" now "hash_token cr raw"] k by simp
    have i3: "auth_inv s3" using issue_inv[OF i2, of cr t "u 2" now "sn_user cur" c] i by simp
    show ?thesis
      unfolding confirm_step_up_def Let_def using i1 i2 i3
      by (auto simp: v k[simplified] i Inr split: sum.split bool.split
          intro!: auth_audit_inv auth_inv_update_sessions)
  qed (simp add: confirm_step_up_def v i1)
qed

lemma secret_store_inv:
  assumes "secret_store uid t s = Some (i, s')" and "auth_inv s"
  shows "auth_inv s'" and "i \<in> sk_id ` set (at_secrets s')" and "at_store s' = at_store s"
    and "secret_read i s' = Some t"
proof -
  let ?i = "''sec_'' @ uid"
  have no: "\<forall>r\<in>set (at_secrets s). sk_id r \<noteq> ?i" and i: "i = ?i"
    and s': "s' = s\<lparr>at_secrets := at_secrets s @
      [\<lparr>sk_id = ?i, sk_plaintext = t, sk_rotation_of = None, sk_rotated_at = None\<rparr>]\<rparr>"
    using assms(1) by (auto simp: secret_store_def row_simps Let_def split: if_splits)
  show "auth_inv s'" using assms(2) by (auto simp: auth_inv_def s')
  show "i \<in> sk_id ` set (at_secrets s')" and "at_store s' = at_store s" by (simp_all add: s' i)
  have "find_row (\<lambda>x. sk_id x = ?i) (at_secrets s) = None" using no by (simp add: find_row_None_iff)
  then show "secret_read i s' = Some t" by (simp add: secret_read_def s' i find_row_append)
qed

lemma auth_inv_update_secrets:
  assumes "auth_inv s" and "\<And>r. sk_id (f r) = sk_id r"
  shows "auth_inv (s\<lparr>at_secrets := update_rows p f (at_secrets s)\<rparr>)"
  using assms by (simp add: auth_inv_def map_key_update_rows image_key_update_rows)

lemma secret_rotate_inv:
  assumes "secret_rotate uid now i t s = (r, s')" and "auth_inv s"
  shows "auth_inv s' \<and> at_store s' = at_store s \<and>
     (\<forall>j. r = Inr j \<longrightarrow> j \<in> sk_id ` set (at_secrets s') \<and> secret_read j s' = Some t)"
proof (cases "exists_row (\<lambda>x. sk_id x = i) (at_secrets s)")
  case True
  define s1 where "s1 = s\<lparr>at_secrets := update_rows (\<lambda>x. sk_id x = i) (\<lambda>x. x\<lparr>sk_rotated_at := Some now\<rparr>) (at_secrets s)\<rparr>"
  have i1: "auth_inv s1" unfolding s1_def by (rule auth_inv_update_secrets[OF assms(2)]) simp
  have st: "at_store s1 = at_store s" by (simp add: s1_def)
  show ?thesis
  proof (cases "secret_store uid t s1")
    case None
    with True assms(1) i1 st show ?thesis by (auto simp add: secret_rotate_def Let_def s1_def[symmetric])
  next
    case (Some p)
    obtain j s2 where p: "p = (j, s2)" by (cases p)
    note new = secret_store_inv[OF Some[unfolded p] i1]
    define s3 where "s3 = s2\<lparr>at_secrets := update_rows (\<lambda>x. sk_id x = j) (\<lambda>x. x\<lparr>sk_rotation_of := Some i\<rparr>) (at_secrets s2)\<rparr>"
    have e: "r = Inr j" "s' = s3"
      using True assms(1) Some p by (simp_all add: secret_rotate_def Let_def s1_def[symmetric] s3_def)
    have "auth_inv s3" unfolding s3_def by (rule auth_inv_update_secrets[OF new(1)]) simp
    moreover have "secret_read j s3 = Some t"
      using new(4) by (auto simp: secret_read_def s3_def find_row_update_rows_stable split: if_splits)
        (metis secret_row.select_convs(2) secret_row.surjective secret_row.update_convs(3))
    moreover from this have "j \<in> sk_id ` set (at_secrets s3)"
      by (auto simp: secret_read_def dest!: find_row_SomeD)
    ultimately show ?thesis using e new(3) st by (simp add: s3_def)
  qed
qed (use assms in \<open>auto simp: secret_rotate_def\<close>)

lemma change_password_inv:
  assumes "auth_inv s"
  shows "auth_inv (snd (change_password cr u now user pw by s))"
proof (cases "find_user user (at_store s)")
  case (Some row)
  obtain r1 s1 where k: "secret_rotate (u 0) now (us_secret row) (hash_password cr pw) s = (r1, s1)"
    by (meson surj_pair)
  note rot = secret_rotate_inv[OF k assms]
  show ?thesis
  proof (cases r1)
    case (Inr sec)
    have "auth_inv (update_user user (\<lambda>x. x\<lparr>us_secret := sec, us_updated_at := now\<rparr>) s1)"
      by (rule auth_inv_update_user) (use rot Inr in auto)
    then show ?thesis
      unfolding change_password_def Let_def Some k Inr option.case prod.case sum.case
      by (intro auth_audit_inv auth_inv_update_sessions) simp_all
  qed (use rot in \<open>simp add: change_password_def Some k\<close>)
qed (simp add: change_password_def assms)

lemma ensure_role_core [simp]: "auth_core (ensure_system_role uid n s) = auth_core s"
  by (simp add: auth_core_def ensure_system_role_def)

lemma provision_inv:
  assumes "auth_inv s"
  shows "auth_inv (snd (provision_first_superadmin cr u now name pw c s))"
proof (cases "secret_store (u 1) (hash_password cr pw) s")
  case None
  then show ?thesis by (simp add: provision_first_superadmin_def assms Let_def)
next
  case (Some p)
  obtain sec s1 where p: "p = (sec, s1)" by (cases p)
  note new = secret_store_inv[OF Some[unfolded p] assms]
  have *: "auth_inv x" if "\<not> exists_row (\<lambda>y. us_id y = us_id row) (users (at_store s1))" "us_secret row = sec"
    "auth_core x = (users (at_store s1) @ [row], at_sessions s1, at_secrets s1)" for row x
    using new(1,2) that by (auto simp: auth_inv_def auth_core_def row_simps)
  show ?thesis
    unfolding provision_first_superadmin_def Let_def Some p option.case prod.case
    by (simp add: assms new(1)) (intro impI auth_audit_inv *[where row = "\<lparr>us_id = ''u_'' @ u 0,
        us_username = name, us_secret = sec, us_status = US_ACTIVE, us_failed = 0, us_locked_until = None,
        us_deleted_at = None, us_updated_at = now, us_display = None, us_created_at = now\<rparr>"]; simp add: auth_core_def ensure_system_role_def)
qed

lemma auth_step_inv: "auth_inv s \<Longrightarrow> auth_step cr s a = Some s' \<Longrightarrow> auth_inv s'"
  by (cases a) (auto simp: provision_inv authenticate_inv step_up_inv validate_inv
      revoke_inv change_password_inv)

interpretation identity: guarded_machine "auth_step cr" auth_inv for cr
  by unfold_locales (rule auth_step_inv)

section \<open>What successful calls did\<close>

lemma validate_accepts:
  "validate_session cr uid now raw s = (Inr sn, s') \<longleftrightarrow>
     s' = s \<and> (\<exists>row. find_session (hash_token cr raw) s = Some row \<and> se_deleted_at row = None \<and>
       now \<le> se_expires_at row \<and> sn = \<lparr>sn_user = se_user row, sn_token = raw,
         sn_expires_at = se_expires_at row, sn_step_up_at = se_step_up_at row, sn_created_at = se_created_at row\<rparr>)"
  by (auto simp: validate_session_def not_less[symmetric] split: option.splits prod.splits sum.splits if_splits)

lemma issue_ok:
  assumes "issue_session cr t uid now user c s = (Inr sn, s')"
  shows "sn = \<lparr>sn_user = user, sn_token = t, sn_expires_at = now + session_idle_seconds,
            sn_step_up_at = None, sn_created_at = now\<rparr>"
    and "\<forall>r\<in>set (at_sessions s). se_id r \<noteq> hash_token cr t"
    and "\<exists>row. at_sessions s' = at_sessions s @ [row] \<and> se_id row = hash_token cr t \<and> se_user row = user \<and>
            se_deleted_at row = None \<and> se_expires_at row = now + session_idle_seconds"
  using assms by (auto simp: issue_session_def Let_def row_simps split: if_splits elim!: auth_audit_cases)

lemma revoke_ok:
  assumes "revoke_session_id uid now h s = (Inr x, s')" and "find_session h s = Some row"
  shows "revoked h s'"
proof -
  have "find_session h (s\<lparr>at_sessions := update_rows (\<lambda>s. se_id s = h)
     (\<lambda>s. s\<lparr>se_deleted_at := Some now, se_deleted_by := Some ''system'', se_last_activity := now\<rparr>)
     (at_sessions s)\<rparr>) = Some (row\<lparr>se_deleted_at := Some now, se_deleted_by := Some ''system'', se_last_activity := now\<rparr>)"
    using assms(2) by (auto simp: find_session_def find_row_update_rows_stable dest: find_row_SomeD)
  with assms show ?thesis
    by (auto simp: revoke_session_id_def revoked_def find_session_def elim!: auth_audit_cases)
qed

lemma require_step_up_iff:
  "require_step_up t sn = Inr () \<longleftrightarrow> (\<exists>c. sn_step_up_at sn = Some c \<and> t - c \<le> step_up_window_s)"
  by (auto simp: require_step_up_def split: option.splits if_splits)

text \<open>
  C30: a step-up that succeeds checked the password of the owner of the presented token, killed
  that token for good (no later call of the service brings it back), issued a live session of
  the same user under the new token, and its elevated state lasts exactly ten minutes.
\<close>
theorem step_up_rotates:
  assumes "confirm_step_up cr token u now raw pw c sys = (Inr sn, sys')"
  shows "(\<exists>cur. validate_session cr (u 0) now raw sys = (Inr cur, sys) \<and>
            verify_password cr (sn_user cur) pw sys = Inr True \<and> sn_user sn = sn_user cur) \<and>
     fst (validate_session cr uid t raw (auth_run cr sys' as)) = Inl SessionError \<and>
     (\<exists>row. find_session (hash_token cr token) sys' = Some row \<and> se_user row = sn_user sn \<and>
            se_deleted_at row = None \<and> se_step_up_at row = Some now) \<and>
     (require_step_up t sn = Inr () \<longleftrightarrow> t \<le> now + 600)"
proof -
  obtain r1 s1 where v: "validate_session cr (u 0) now raw sys = (r1, s1)" by (meson surj_pair)
  with assms obtain cur where cur: "r1 = Inr cur" by (cases r1) (auto simp: confirm_step_up_def)
  note acc = v[unfolded cur validate_accepts]
  then have s1: "s1 = sys" by simp
  obtain r2 s2 where k: "revoke_session_id (u 1) now (hash_token cr raw) sys = (r2, s2)" by (meson surj_pair)
  obtain r3 s3 where i: "issue_session cr token (u 2) now (sn_user cur) c s2 = (r3, s3)" by (meson surj_pair)
  have pw: "verify_password cr (sn_user cur) pw sys = Inr True"
    using assms by (auto simp: confirm_step_up_def v cur s1 split: sum.splits bool.splits elim!: auth_audit_cases)
  obtain x where r2: "r2 = Inr x"
    using assms by (cases r2) (auto simp: confirm_step_up_def v cur s1 k[simplified] pw)
  obtain sn3 where r3: "r3 = Inr sn3"
    using assms by (cases r3) (auto simp: confirm_step_up_def v cur s1 k[simplified] pw r2 i)
  note iss = issue_ok[OF i[unfolded r3]]
  define s4 where "s4 = s3\<lparr>at_sessions := update_rows (\<lambda>s. se_id s = hash_token cr (sn_token sn3))
     (\<lambda>s. s\<lparr>se_step_up_at := Some now\<rparr>) (at_sessions s3)\<rparr>"
  have fin: "sn = sn3\<lparr>sn_step_up_at := Some now\<rparr>" "at_sessions sys' = at_sessions s4"
    using assms by (auto simp: confirm_step_up_def v cur s1 k[simplified] pw r2 i r3 Let_def s4_def
        elim!: auth_audit_cases)
  have "revoked (hash_token cr raw) s2" using revoke_ok k r2 acc by blast
  moreover have "sess_le s2 s3" using issue_sess_le[of s2 cr token "u 2" now "sn_user cur" c] i by simp
  moreover have "sess_le s3 s4"
    by (rule sess_le_update[where p = "\<lambda>s. se_id s = hash_token cr (sn_token sn3)"
          and f = "\<lambda>s. s\<lparr>se_step_up_at := Some now\<rparr>"]) (auto simp: s4_def)
  ultimately have "revoked (hash_token cr raw) sys'"
    using revoked_le sess_le_eq[of sys' s4, OF fin(2)] by blast
  then have dead: "fst (validate_session cr uid t raw (auth_run cr sys' as)) = Inl SessionError"
    by (simp add: revoked_refused[OF revoked_forever])
  obtain row where row: "at_sessions s3 = at_sessions s2 @ [row]" "se_id row = hash_token cr token"
    "se_user row = sn_user cur" "se_deleted_at row = None" using iss(3) by blast
  have "find_row (\<lambda>s. se_id s = hash_token cr token) (at_sessions s2) = None"
    using iss(2) by (simp add: find_row_None_iff)
  then have "find_session (hash_token cr token) s3 = Some row"
    by (simp add: find_session_def row find_row_append)
  then have "find_session (hash_token cr token) sys' = Some (row\<lparr>se_step_up_at := Some now\<rparr>)"
    by (simp add: find_session_def fin(2) s4_def find_row_update_rows_stable iss(1) row(2))
  with dead pw v cur s1 show ?thesis
    by (auto simp: fin(1) iss(1) row(3,4) require_step_up_iff step_up_window_s_def)
qed

text \<open>
  C38: after a password change no session the user held before is accepted again, whatever the
  service does later, and the password that then verifies is the new one.
\<close>
theorem password_change_ends_sessions:
  assumes "change_password cr u now user pw by sys = (Inr (), sys')"
    and "validate_session cr uid t raw sys = (Inr sn, s1)" and "sn_user sn = user" and "auth_inv sys"
  shows "fst (validate_session cr uid' t' raw (auth_run cr sys' as)) = Inl SessionError \<and>
     verify_password cr user pw' sys' = Inr (verify_hash cr (hash_password cr pw) pw')"
proof -
  obtain r where r: "find_user user (at_store sys) = Some r"
    using assms(1) by (cases "find_user user (at_store sys)") (auto simp: change_password_def)
  obtain r1 s1 where k: "secret_rotate (u 0) now (us_secret r) (hash_password cr pw) sys = (r1, s1)"
    by (meson surj_pair)
  obtain sec where sec: "r1 = Inr sec" using assms(1) by (cases r1) (auto simp: change_password_def r k)
  have rot: "at_store s1 = at_store sys" "secret_read sec s1 = Some (hash_password cr pw)"
    using secret_rotate_inv[OF k assms(4)] sec by auto
  let ?p = "\<lambda>s. se_user s = user \<and> se_deleted_at s = None"
  let ?f = "\<lambda>s. s\<lparr>se_deleted_at := Some now, se_deleted_by := Some by\<rparr>"
  have fin: "at_sessions sys' = update_rows ?p ?f (at_sessions sys)" "at_secrets sys' = at_secrets s1"
    "users (at_store sys') = update_rows (\<lambda>u. us_id u = user) (\<lambda>x. x\<lparr>us_secret := sec, us_updated_at := now\<rparr>)
       (users (at_store sys))"
    using assms(1) secret_rotate_sessions[OF k]
    by (auto simp: change_password_def r k sec Let_def update_user_def rot elim!: auth_audit_cases)
  obtain row where row: "find_session (hash_token cr raw) sys = Some row" "se_deleted_at row = None" "se_user row = user"
    using assms(2,3) by (auto simp: validate_accepts)
  have "find_session (hash_token cr raw) sys' = Some (?f row)"
    using row by (simp add: find_session_def fin(1) find_row_update_rows_stable)
  then have "revoked (hash_token cr raw) sys'" by (simp add: revoked_def)
  then have "fst (validate_session cr uid' t' raw (auth_run cr sys' as)) = Inl SessionError"
    by (simp add: revoked_refused[OF revoked_forever])
  moreover have "find_user user (at_store sys') = Some (r\<lparr>us_secret := sec, us_updated_at := now\<rparr>)"
    using r by (auto simp: find_user_def fin(3) find_row_update_rows_stable dest: find_row_SomeD)
  moreover have "secret_read sec sys' = Some (hash_password cr pw)"
    using rot(2) by (simp add: secret_read_def fin(2))
  ultimately show ?thesis by (simp add: verify_password_def)
qed

section \<open>Lockout\<close>

text \<open>Successive logins to one account: token, identifiers, time, password and origin of each.\<close>

fun login_attempts ::
  "crypto \<Rightarrow> string \<Rightarrow> (string \<times> (nat \<Rightarrow> string) \<times> int \<times> string \<times> login_context) list \<Rightarrow> auth_sys
    \<Rightarrow> (auth_error + Session) list \<times> auth_sys" where
  "login_attempts cr name [] sys = ([], sys)"
| "login_attempts cr name ((token, u, now, pw, c) # as) sys =
     (case authenticate cr token u now name pw c sys of
        (r, sys') \<Rightarrow> (case login_attempts cr name as sys' of (rs, sys'') \<Rightarrow> (r # rs, sys'')))"

lemma live_user_find:
  assumes "auth_inv s" and "live_user name (at_store s) = Some r"
  shows "find_user (us_id r) (at_store s) = Some r"
  using assms find_row_unique[of us_id "users (at_store s)" r]
  by (auto simp: live_user_def find_user_def auth_inv_def dest!: find_row_SomeD)

lemma live_user_updated:
  assumes "auth_inv s" and "live_user name (at_store s) = Some r"
    and "\<And>u. us_username (f u) = us_username u \<and> us_deleted_at (f u) = us_deleted_at u"
  shows "live_user name (at_store (update_user (us_id r) f s)) = Some (f r)"
  using assms by (simp add: live_user_def update_user_def find_row_update_rows_stable)

lemma verify_password_total:
  assumes "auth_inv s" and "find_user i (at_store s) = Some r"
  shows "\<exists>h. verify_password cr i pw s = Inr (verify_hash cr h pw)"
proof -
  have "us_secret r \<in> sk_id ` set (at_secrets s)"
    using assms by (auto simp: auth_inv_def find_user_def dest!: find_row_SomeD)
  then obtain k where "secret_read (us_secret r) s = Some k"
    by (cases "secret_read (us_secret r) s") (auto simp: secret_read_def find_row_None_iff)
  then show ?thesis by (auto simp: verify_password_def assms(2))
qed

definition after_failure :: "int \<Rightarrow> user_row \<Rightarrow> user_row \<Rightarrow> bool" where
  "after_failure now r r' \<longleftrightarrow> us_id r' = us_id r \<and> us_failed r' = us_failed r + 1 \<and>
     (5 \<le> us_failed r' \<longrightarrow> us_locked_until r' = Some (now + 900) \<and> us_status r' = US_LOCKED)"

lemma bad_password_counts:
  assumes "auth_inv s" and "live_user name (at_store s) = Some r" and "0 < now"
    and "authenticate cr token u now name pw c s = (Inl InvalidCredentials, s')"
  shows "\<exists>r'. live_user name (at_store s') = Some r' \<and> after_failure now r r'"
proof -
  obtain h where h: "verify_password cr (us_id r) pw s = Inr (verify_hash cr h pw)"
    using verify_password_total[OF assms(1) live_user_find[OF assms(1,2)]] by blast
  let ?l = "if max_failed_logins \<le> us_failed r + 1 then Some (now + lockout_seconds) else None"
  let ?f = "\<lambda>x. x\<lparr>us_failed := us_failed r + 1, us_locked_until := ?l,
     us_status := (if ?l = None \<or> ?l = Some 0 then US_ACTIVE else US_LOCKED), us_updated_at := now\<rparr>"
  have up: "live_user name (at_store (update_user (us_id r) ?f s)) = Some (?f r)"
    by (rule live_user_updated[OF assms(1,2)]) simp
  have no_issue: "\<And>x y. issue_session cr token (u 1) now (us_id r) c x \<noteq> (Inl InvalidCredentials, y)"
    by (auto simp: issue_session_def Let_def elim!: auth_audit_cases)
  have bad: "register_failure (u 0) now (us_id r) (us_failed r) (actor_for (us_id r) c s) s
     (\<lambda>s. auth_audit (u 1) now ''user_login_failed'' (actor_for (us_id r) c s0)
        (Some [(''reason'', JStr ''bad_password'')]) s (\<lambda>s'. (Inl InvalidCredentials, s')))
       = (Inl InvalidCredentials :: auth_error + Session, s')" if "s0 = s" for s0
    using assms(4) that no_issue unfolding authenticate_def assms(2) option.case Let_def h
    by (auto split: if_splits sum.splits bool.splits elim!: auth_audit_cases)
  have "users (at_store s') = users (at_store (update_user (us_id r) ?f s))"
    using bad[OF refl] unfolding register_failure_def Let_def
    by (auto split: if_splits elim!: auth_audit_cases)
  with up have "live_user name (at_store s') = Some (?f r)" by (simp add: live_user_def)
  then show ?thesis using assms(3)
    by (auto simp: after_failure_def max_failed_logins_def lockout_seconds_def)
qed

lemma failures_count:
  assumes "auth_inv s" and "live_user name (at_store s) = Some r"
    and "login_attempts cr name as s = (replicate (length as) (Inl InvalidCredentials), s')"
    and "\<forall>a\<in>set as. 0 < fst (snd (snd a))"
  shows "auth_inv s' \<and> (\<exists>r'. live_user name (at_store s') = Some r' \<and>
     us_failed r' = us_failed r + int (length as) \<and>
     (as \<noteq> [] \<and> 5 \<le> us_failed r' \<longrightarrow>
        us_locked_until r' = Some (fst (snd (snd (last as))) + 900) \<and> us_status r' = US_LOCKED))"
  using assms
proof (induction as arbitrary: s r)
  case (Cons a as)
  obtain token u now pw c where a: "a = (token, u, now, pw, c)" by (metis prod_cases5)
  obtain s1 where s1: "authenticate cr token u now name pw c s = (Inl InvalidCredentials, s1)"
    "login_attempts cr name as s1 = (replicate (length as) (Inl InvalidCredentials), s')"
    using Cons.prems(3) by (auto simp: a split: prod.splits)
  obtain r1 where r1: "live_user name (at_store s1) = Some r1" "after_failure now r r1"
    using bad_password_counts[OF Cons.prems(1,2) _ s1(1)] Cons.prems(4) by (auto simp: a)
  have "auth_inv s1" using authenticate_inv[OF Cons.prems(1), of cr token u now name pw c] s1(1) by simp
  note ih = Cons.IH[OF this r1(1) s1(2)]
  show ?case
  proof (cases as)
    case Nil
    with s1(2) r1 \<open>auth_inv s1\<close> show ?thesis by (auto simp: a after_failure_def)
  next
    case (Cons b bs)
    with ih r1(2) Cons.prems(4) show ?thesis by (auto simp: after_failure_def)
  qed
qed simp

text \<open>
  Guessing is bounded. Once an account has five consecutive bad passwords on record, every
  login to it in the fifteen minutes after the last of them is refused and opens no session,
  with the right password too.
\<close>
lemma lockout_refuses_logins:
  assumes "auth_inv sys" and "live_user name (at_store sys) = Some r" and "0 \<le> us_failed r"
    and "login_attempts cr name as sys = (replicate (length as) (Inl InvalidCredentials), sys')"
    and "\<forall>a\<in>set as. 0 < fst (snd (snd a))" and "5 \<le> length as"
    and "t < fst (snd (snd (last as))) + 900"
  shows "fst (authenticate cr token u t name pw c sys') \<in> {Inl UserLocked, Inl AuthIntegrity} \<and>
     at_sessions (snd (authenticate cr token u t name pw c sys')) = at_sessions sys'"
proof -
  have ne: "as \<noteq> []" using assms(6) by auto
  obtain r' where r': "live_user name (at_store sys') = Some r'"
    "us_locked_until r' = Some (fst (snd (snd (last as))) + 900)" "us_status r' = US_LOCKED"
    using failures_count[OF assms(1,2,4,5)] assms(3,6) ne by auto
  have "0 < fst (snd (snd (last as)))" using assms(5) ne last_in_set by blast
  then have locked: "us_status r' = US_LOCKED \<and>
    (case us_locked_until r' of None \<Rightarrow> False | Some t' \<Rightarrow> t' \<noteq> 0 \<and> t < t')"
    using r'(2,3) assms(7) by simp
  obtain x y where e: "auth_audit (u 0) t ''user_login_locked'' (actor_for (us_id r') c sys') None sys'
     (\<lambda>s. (Inl UserLocked, s)) = (x :: auth_error + Session, y)" by (meson surj_pair)
  then have "authenticate cr token u t name pw c sys' = (x, y)"
    by (simp add: authenticate_def r'(1) Let_def locked del: not_None_eq)
  moreover from e have "x \<in> {Inl UserLocked, Inl AuthIntegrity} \<and> at_sessions y = at_sessions sys'"
    by (auto elim!: auth_audit_cases)
  ultimately show ?thesis by simp
qed

text \<open>
  C39: the tables stay consistent under every run: identifiers are unique, each session has its
  user and each user a stored secret, so checking the password of a user never misses its secret.
\<close>
theorem identity_stays_consistent:
  assumes "auth_inv sys" and "find_user i (at_store (auth_run cr sys as)) \<noteq> None"
  shows "auth_inv (auth_run cr sys as) \<and>
     (\<exists>h. verify_password cr i pw (auth_run cr sys as) = Inr (verify_hash cr h pw))"
proof -
  have i: "auth_inv (auth_run cr sys as)" by (rule identity.inv_run[OF assms(1)])
  with assms(2) show ?thesis using verify_password_total[OF i] by blast
qed

section \<open>Witnesses\<close>

definition sample_crypto :: crypto where
  "sample_crypto = \<lparr>hash_token = (\<lambda>t. CHR ''#'' # t), verify_hash = (\<lambda>h p. h = CHR ''$'' # p),
     hash_password = (\<lambda>p. CHR ''$'' # p)\<rparr>"

definition empty_auth :: auth_sys where
  "empty_auth = \<lparr>at_store = empty_store, at_devices = [], at_sessions = [], at_roles = [],
     at_assignments = [], at_secrets = []\<rparr>"

definition sample_login :: login_context where
  "sample_login = \<lparr>lc_device = None, lc_device_name = None, lc_ip = ''ip''\<rparr>"

definition sample_ids :: "string \<Rightarrow> nat \<Rightarrow> string" where
  "sample_ids p n = p @ replicate n (CHR ''x'')"

text \<open>A service with the user \<open>root\<close>, password \<open>pw\<close>, and one session under the token \<open>tok\<close>.\<close>

definition sample_auth :: auth_sys where
  "sample_auth = snd (authenticate sample_crypto ''tok'' (sample_ids ''b'') 100 ''root'' ''pw'' sample_login
     (snd (provision_first_superadmin sample_crypto (sample_ids ''a'') 50 ''root'' ''pw'' sample_login empty_auth)))"

lemma is_ok_fst_cases:
  assumes "is_ok (fst p)" obtains x s' where "p = (Inr x, s')"
  using assms by (cases p; cases "fst p") auto

lemma sample_auth_inv: "auth_inv sample_auth"
  by code_simp

definition sample_later :: "auth_action list" where
  "sample_later = [Login ''tok3'' (sample_ids ''d'') 300 ''root'' ''pw'' sample_login, Validate ''e'' 301 ''tok3'']"

theorem step_up_rotates_witness:
  "\<exists>sn s'. confirm_step_up sample_crypto ''tok2'' (sample_ids ''c'') 200 ''tok'' ''pw'' sample_login sample_auth = (Inr sn, s') \<and>
     fst (validate_session sample_crypto ''f'' 400 ''tok'' (auth_run sample_crypto s' sample_later)) = Inl SessionError \<and>
     require_step_up 800 sn = Inr ()"
proof -
  have "is_ok (fst (confirm_step_up sample_crypto ''tok2'' (sample_ids ''c'') 200 ''tok'' ''pw'' sample_login sample_auth))"
    by code_simp
  then obtain sn s' where
    *: "confirm_step_up sample_crypto ''tok2'' (sample_ids ''c'') 200 ''tok'' ''pw'' sample_login sample_auth = (Inr sn, s')"
    by (elim is_ok_fst_cases)
  from step_up_rotates[OF *, of "''f''" 400 sample_later] step_up_rotates[OF *, of "''f''" 800 sample_later]
  show ?thesis using * by auto
qed

theorem password_change_ends_sessions_witness:
  "\<exists>s'. change_password sample_crypto (sample_ids ''c'') 200 ''u_a'' ''new'' ''u_a'' sample_auth = (Inr (), s') \<and>
     fst (validate_session sample_crypto ''f'' 400 ''tok'' (auth_run sample_crypto s' sample_later)) = Inl SessionError \<and>
     verify_password sample_crypto ''u_a'' ''new'' s' = Inr True"
proof -
  let ?c = "change_password sample_crypto (sample_ids ''c'') 200 ''u_a'' ''new'' ''u_a'' sample_auth"
  let ?v = "validate_session sample_crypto ''g'' 150 ''tok'' sample_auth"
  have "is_ok (fst ?c)" by code_simp
  then obtain x s' where c: "?c = (Inr (), s')" by (elim is_ok_fst_cases) auto
  have "is_ok (fst ?v)" by code_simp
  then obtain sn s1 where v: "?v = (Inr sn, s1)" by (elim is_ok_fst_cases)
  have "(case fst ?v of Inr y \<Rightarrow> sn_user y = ''u_a'' | Inl e \<Rightarrow> False)" by code_simp
  then have u: "sn_user sn = ''u_a''" by (simp add: v)
  have "verify_hash sample_crypto (hash_password sample_crypto ''new'') ''new''" by code_simp
  with password_change_ends_sessions[OF c v u sample_auth_inv, of "''f''" 400 sample_later "''new''"] c
  show ?thesis by auto
qed

definition sample_guesses :: "(string \<times> (nat \<Rightarrow> string) \<times> int \<times> string \<times> login_context) list" where
  "sample_guesses = map (\<lambda>n. (''t'', sample_ids (''g'' @ int_dec (int n)), 200 + int n, ''bad'', sample_login)) [0, 1, 2, 3, 4]"

lemma lockout_refuses_logins_witness:
  "fst (authenticate sample_crypto ''tok2'' (sample_ids ''c'') 1000 ''root'' ''pw'' sample_login
     (snd (login_attempts sample_crypto ''root'' sample_guesses sample_auth))) \<in> {Inl UserLocked, Inl AuthIntegrity}"
proof -
  let ?l = "login_attempts sample_crypto ''root'' sample_guesses sample_auth"
  have "fst ?l = replicate (length sample_guesses) (Inl InvalidCredentials)" by code_simp
  then have l: "?l = (replicate (length sample_guesses) (Inl InvalidCredentials), snd ?l)" by (simp add: prod_eq_iff)
  have "(case live_user ''root'' (at_store sample_auth) of Some r \<Rightarrow> 0 \<le> us_failed r | None \<Rightarrow> False)" by code_simp
  then obtain r where r: "live_user ''root'' (at_store sample_auth) = Some r" "0 \<le> us_failed r"
    by (auto split: option.splits)
  have "\<forall>a\<in>set sample_guesses. 0 < fst (snd (snd a))" "5 \<le> length sample_guesses"
    "1000 < fst (snd (snd (last sample_guesses))) + 900" by code_simp+
  with lockout_refuses_logins[OF sample_auth_inv r l] show ?thesis by blast
qed

theorem identity_stays_consistent_witness:
  "auth_inv (auth_run sample_crypto sample_auth sample_later) \<and>
     (\<exists>h. verify_password sample_crypto ''u_a'' ''pw'' (auth_run sample_crypto sample_auth sample_later)
        = Inr (verify_hash sample_crypto h ''pw''))"
proof -
  have "find_user ''u_a'' (at_store (auth_run sample_crypto sample_auth sample_later)) \<noteq> None"
    by code_simp
  from identity_stays_consistent[OF sample_auth_inv this] show ?thesis by blast
qed

end
