(* ===== verification/Web_Gate.thy ===== *)
theory Web_Gate
  imports Auth Text_Tools
begin

text \<open>
  The HTTP gate of \<open>app/web/middleware.py\<close> and the error envelope of \<open>app/web/errors.py\<close>.
  A request is the path, the method, the parsed body and the cookies and header the gate reads;
  \<open>mac\<close> is HMAC-SHA-256 of the fixed message under a session token.  The clock, the drawn
  identifier and \<open>crypto\<close> are those of the identity service.
\<close>

section \<open>Errors\<close>

definition ERROR_STATUS_CODES :: "(string \<times> int) list" where
  "ERROR_STATUS_CODES = [
     (''VALIDATION_ERROR'', 400), (''VALIDATION_STALE_VERSION'', 409),
     (''AUTH_INVALID_CREDENTIALS'', 401), (''AUTH_ACCOUNT_LOCKED'', 403), (''AUTH_THROTTLED'', 429),
     (''AUTH_SESSION_EXPIRED'', 401), (''AUTH_SESSION_REVOKED'', 401), (''AUTH_CSRF_INVALID'', 403),
     (''AUTH_STEP_UP_REQUIRED'', 403), (''AUTH_STEP_UP_EXPIRED'', 403), (''FORBIDDEN'', 403),
     (''FORBIDDEN_LAST_SUPERADMIN'', 409), (''NOT_FOUND'', 404),
     (''WORLD_NOT_FOUND'', 404), (''WORLD_DELETED'', 409), (''WORLD_NOT_OFF'', 409),
     (''WORLD_ALREADY_RUNNING'', 409), (''WORLD_IN_COOLDOWN'', 409), (''WORLD_NAME_CONFLICT'', 409),
     (''WORLD_PORT_CONFLICT'', 409), (''WORLD_RUNTIME_CONFIG_STATE'', 409), (''EULA_NOT_ACCEPTED'', 409),
     (''JAVA_INCOMPATIBLE'', 409), (''OP_NOT_FOUND'', 404), (''OP_NOT_CANCELLABLE'', 409),
     (''OP_ALREADY_TERMINAL'', 409), (''OP_CONFLICT_IN_FLIGHT'', 409), (''OP_QUEUED'', 202),
     (''OP_MANAGER_RESTART_INCOMPLETE'', 409), (''STORAGE_GUARD_TRIPPED'', 409),
     (''BACKUP_ARTIFACT_NOT_FOUND'', 404), (''BACKUP_INVALID_CHECKSUM'', 409),
     (''BACKUP_RETENTION_GUARD'', 409), (''RESTORE_ARTIFACT_INVALID'', 409),
     (''RESTORE_PREBACKUP_FAILED'', 502), (''SYNC_TARGET_UNRESOLVED'', 409),
     (''SYNC_CONCURRENCY_CAP'', 429), (''CONFIG_INVALID_KEY'', 400), (''CONFIG_INVALID_VALUE'', 400),
     (''CONFIG_VERSION_CONFLICT'', 409), (''CLEANUP_NOTHING_TO_DO'', 200),
     (''CLEANUP_PREVIEW_REQUIRED'', 409), (''CLEANUP_BLAST_RADIUS'', 409), (''CLEANUP_POLICY_FLOOR'', 409),
     (''FILE_PATH_UNAUTHORIZED'', 403), (''FILE_NOT_FOUND'', 404), (''FILE_EXISTS'', 409),
     (''FILE_TOO_LARGE'', 400), (''FILE_INVALID'', 400), (''SCHEDULE_CONFLICT'', 409),
     (''MISSED_RUN_RESOLVED'', 409), (''DEVICE_UNREGISTERED'', 403), (''DEVICE_REVOKED'', 403),
     (''INTERNAL_ERROR'', 500), (''NOT_IMPLEMENTED'', 501),
     (''AUTH_SESSION_INVALID'', 401), (''AUTH_LOCKED'', 429), (''AUTH_DISABLED'', 403),
     (''AUTH_FORBIDDEN'', 403), (''CSRF_INVALID'', 403), (''STEP_UP_REQUIRED'', 403),
     (''WORLD_CONFLICT'', 409), (''START_FAILED'', 422), (''STOP_FAILED'', 422), (''KILL_FAILED'', 422),
     (''EULA_ACCEPT_FAILED'', 422), (''STORAGE_GUARD_FAILED'', 409)]"

record cookie =
  ck_name :: string
  ck_value :: string
  ck_secure :: bool
  ck_httponly :: bool
  ck_samesite :: string
  ck_path :: string
  ck_max_age :: "int option"

record response =
  rp_status :: int
  rp_body :: json
  rp_headers :: "(string \<times> string) list"
  rp_set_cookies :: "cookie list"

definition ok_response :: "jdict \<Rightarrow> int \<Rightarrow> response" where
  "ok_response data status =
     \<lparr>rp_status = status, rp_body = JObj [(''ok'', JBool True), (''data'', JObj data), (''meta'', JObj [])],
      rp_headers = [], rp_set_cookies = []\<rparr>"

definition error_response :: "string \<Rightarrow> string \<Rightarrow> int option \<Rightarrow> response" where
  "error_response code message status =
     \<lparr>rp_status = (case map_of ERROR_STATUS_CODES code of
          Some n \<Rightarrow> n
        | None \<Rightarrow> (case status of None \<Rightarrow> 500 | Some n \<Rightarrow> n)),
      rp_body = JObj [(''ok'', JBool False),
        (''error'', JObj [(''code'', JStr code), (''message'', JStr message), (''details'', JObj [])]),
        (''meta'', JObj [])],
      rp_headers = [], rp_set_cookies = []\<rparr>"

section \<open>Requests\<close>

record http_request =
  rq_path :: string
  rq_method :: string
  rq_json :: "json option"
  rq_session_cookie :: "string option"
  rq_csrf_cookie :: "string option"
  rq_csrf_header :: "string option"
  rq_remote :: "string option"
  rq_secure :: bool

definition state_changing :: "http_request \<Rightarrow> bool" where
  "state_changing rq \<longleftrightarrow> rq_method rq \<in> {''POST'', ''PATCH'', ''DELETE''}"

text \<open>\<open>hmac.compare_digest\<close> of two strings raises on characters outside ASCII.\<close>

definition ascii :: "string \<Rightarrow> bool" where
  "ascii s = list_all (\<lambda>c. (of_char c :: nat) < 128) s"

definition compare_digest :: "string \<Rightarrow> string \<Rightarrow> bool option" where
  "compare_digest a b = (if ascii a \<and> ascii b then Some (a = b) else None)"

definition is_public_request :: "http_request \<Rightarrow> bool" where
  "is_public_request rq \<longleftrightarrow>
     rq_path rq = ''/'' \<or> starts_with ''/pages/'' (rq_path rq) \<or> starts_with ''/static/'' (rq_path rq) \<or>
     rq_path rq = ''/api/health'' \<or> rq_path rq = ''/api/auth/login'' \<or> rq_method rq = ''OPTIONS''"

definition segments :: "string \<Rightarrow> string list" where
  "segments path = split_on (CHR ''/'') (strip_char (CHR ''/'') path)"

definition json_has_key :: "string \<Rightarrow> json option \<Rightarrow> bool" where
  "json_has_key k j = (case j of Some (JObj d) \<Rightarrow> map_of d k \<noteq> None | _ \<Rightarrow> False)"

definition requires_step_up :: "http_request \<Rightarrow> bool" where
  "requires_step_up rq \<longleftrightarrow> state_changing rq \<and>
     (let path = rq_path rq; segs = segments path in
      ends_with ''/stop'' path \<or> ends_with ''/kill'' path \<or> ends_with ''/eula/accept'' path \<or>
      ends_with ''/runtime-config'' path \<or>
      (rq_method rq = ''DELETE'' \<and> starts_with ''/api/worlds/'' path \<and> length segs = 3) \<or>
      (rq_method rq = ''DELETE'' \<and> starts_with ''/api/worlds/'' path \<and> length segs = 4 \<and>
         segs ! 3 = ''files'') \<or>
      path = ''/api/manager/restore'' \<or> path \<in> {''/api/manager/update'', ''/api/manager/rollback''} \<or>
      (rq_method rq = ''PATCH'' \<and> starts_with ''/api/users/'' path \<and> json_has_key ''username'' (rq_json rq)))"

definition requires_admin :: "http_request \<Rightarrow> bool" where
  "requires_admin rq \<longleftrightarrow>
     (let path = rq_path rq; segs = segments path;
          files = starts_with ''/api/worlds/'' path \<and> 4 \<le> length segs \<and> segs ! 3 = ''files'';
          logs = starts_with ''/api/worlds/'' path \<and> 5 \<le> length segs \<and> segs ! 3 = ''logs'' in
      path = ''/api/diagnostics'' \<or> path = ''/api/settings'' \<or>
      (starts_with ''/api/worlds/'' path \<and> ends_with ''/settings'' path) \<or>
      starts_with ''/api/supervisor/'' path \<or> ends_with ''/stop'' path \<or> ends_with ''/kill'' path \<or>
      ends_with ''/eula/accept'' path \<or> ends_with ''/runtime-config'' path \<or> files \<or> logs \<or>
      ends_with ''/delete-preview'' path \<or>
      (state_changing rq \<and>
        (starts_with ''/api/schedules'' path \<or> starts_with ''/api/templates'' path \<or>
         starts_with ''/api/java-runtimes'' path \<or>
         path \<in> {''/api/manager/backup'', ''/api/manager/restore'', ''/api/manager/restart'',
                 ''/api/manager/update'', ''/api/manager/rollback''})) \<or>
      (state_changing rq \<and> starts_with ''/api/worlds/'' path \<and> \<not> ends_with ''/start'' path))"

definition requires_superadmin :: "http_request \<Rightarrow> bool" where
  "requires_superadmin rq \<longleftrightarrow>
     (let path = rq_path rq in
      (path = ''/api/setup'' \<and> rq_method rq = ''POST'') \<or>
      starts_with ''/api/users'' path \<or> starts_with ''/api/roles'' path \<or>
      starts_with ''/api/permissions'' path \<or> starts_with ''/api/devices'' path \<or>
      path \<in> {''/api/manager/update'', ''/api/manager/rollback''})"

definition has_role :: "string list \<Rightarrow> string \<Rightarrow> auth_sys \<Rightarrow> bool" where
  "has_role names uid sys =
     exists_row (\<lambda>a. ra_user a = uid \<and> ra_deleted_at a = None \<and>
       exists_row (\<lambda>r. ro_id r = ra_role a \<and> ro_deleted_at r = None \<and> ro_name r \<in> set names) (at_roles sys))
       (at_assignments sys)"

section \<open>The gate\<close>

datatype verdict = Pass | Refuse response | Raised

definition forbid :: "string \<Rightarrow> string \<Rightarrow> int \<Rightarrow> verdict" where
  "forbid code message status = Refuse (error_response code message (Some status))"

abbreviation csrf_refusal :: verdict where
  "csrf_refusal \<equiv> forbid ''CSRF_INVALID'' ''CSRF token validation failed.'' 403"

abbreviation session_refusal :: verdict where
  "session_refusal \<equiv> forbid ''AUTH_SESSION_INVALID'' ''A valid session is required.'' 401"

text \<open>The double-submit test: both values present and equal; \<open>request.cookies.get\<close> defaults to
  the empty string, which counts as missing.\<close>

definition double_submit :: "http_request \<Rightarrow> bool option" where
  "double_submit rq =
     (let ck = (case rq_csrf_cookie rq of None \<Rightarrow> [] | Some v \<Rightarrow> v);
          hd = (case rq_csrf_header rq of None \<Rightarrow> [] | Some v \<Rightarrow> v) in
      if ck = [] \<or> hd = [] then Some False else compare_digest ck hd)"

definition setup_open :: "http_request \<Rightarrow> bool \<Rightarrow> auth_sys \<Rightarrow> bool" where
  "setup_open rq container sys \<longleftrightarrow>
     rq_path rq = ''/api/setup'' \<and> rq_method rq = ''POST'' \<and> container \<and>
     \<not> exists_row (\<lambda>u. us_deleted_at u = None) (users (at_store sys))"

definition of_csrf :: "bool option \<Rightarrow> verdict \<Rightarrow> verdict" where
  "of_csrf b k = (case b of None \<Rightarrow> Raised | Some False \<Rightarrow> csrf_refusal | Some True \<Rightarrow> k)"

definition session_csrf :: "(string \<Rightarrow> string) \<Rightarrow> http_request \<Rightarrow> Session \<Rightarrow> verdict \<Rightarrow> verdict" where
  "session_csrf mac rq sn k =
     (if \<not> state_changing rq then k
      else of_csrf (double_submit rq)
        (of_csrf (compare_digest (case rq_csrf_cookie rq of None \<Rightarrow> [] | Some v \<Rightarrow> v) (mac (sn_token sn))) k))"

definition role_gate :: "http_request \<Rightarrow> Session \<Rightarrow> auth_sys \<Rightarrow> verdict \<Rightarrow> verdict" where
  "role_gate rq sn sys k =
     (if requires_superadmin rq then
        (if has_role [''Superadmin''] (sn_user sn) sys then k
         else forbid ''AUTH_FORBIDDEN'' ''A Superadmin role is required.'' 403)
      else if requires_admin rq then
        (if has_role [''Admin'', ''Superadmin''] (sn_user sn) sys then k
         else forbid ''AUTH_FORBIDDEN'' ''An administrator role is required.'' 403)
      else k)"

definition step_up_gate :: "int \<Rightarrow> http_request \<Rightarrow> Session \<Rightarrow> verdict" where
  "step_up_gate now rq sn =
     (if \<not> requires_step_up rq then Pass
      else case require_step_up now sn of
        Inl _ \<Rightarrow> forbid ''STEP_UP_REQUIRED'' ''A fresh step-up is required.'' 403
      | Inr _ \<Rightarrow> Pass)"

text \<open>The handler run before every request: its verdict, the session it leaves in \<open>g\<close> and the
  database it reached.\<close>

definition before_request ::
  "crypto \<Rightarrow> (string \<Rightarrow> string) \<Rightarrow> bool \<Rightarrow> string \<Rightarrow> int \<Rightarrow> http_request \<Rightarrow> auth_sys
    \<Rightarrow> verdict \<times> Session option \<times> auth_sys" where
  "before_request cr mac container uid now rq sys =
     (if setup_open rq container sys then (of_csrf (double_submit rq) Pass, None, sys)
      else if is_public_request rq then
        (if rq_path rq = ''/api/auth/login'' \<and> state_changing rq
         then (of_csrf (double_submit rq) Pass, None, sys) else (Pass, None, sys))
      else if \<not> container then (session_refusal, None, sys)
      else case rq_session_cookie rq of
        None \<Rightarrow> (session_refusal, None, sys)
      | Some raw \<Rightarrow>
          (if raw = [] then (session_refusal, None, sys)
           else case validate_session cr uid now raw sys of
             (Inl SessionError, s) \<Rightarrow> (session_refusal, None, s)
           | (Inl _, s) \<Rightarrow> (Raised, None, s)
           | (Inr sn, s) \<Rightarrow>
               (session_csrf mac rq sn (role_gate rq sn s (step_up_gate now rq sn)), Some sn, s)))"

section \<open>Responses\<close>

definition has_header :: "string \<Rightarrow> (string \<times> string) list \<Rightarrow> bool" where
  "has_header k hs = list_ex (\<lambda>(n, v). lower n = lower k) hs"

definition header_default :: "string \<Rightarrow> string \<Rightarrow> (string \<times> string) list \<Rightarrow> (string \<times> string) list" where
  "header_default k v hs = (if has_header k hs then hs else hs @ [(k, v)])"

definition self_source :: string where
  "self_source = [CHR 0x27] @ ''self'' @ [CHR 0x27]"

definition security_headers :: "(string \<times> string) list" where
  "security_headers =
     [(''Content-Security-Policy'', ''default-src '' @ self_source @ ''; script-src '' @ self_source @ ''; style-src '' @ self_source),
      (''X-Frame-Options'', ''DENY''), (''X-Content-Type-Options'', ''nosniff''),
      (''Referrer-Policy'', ''same-origin''), (''X-XSS-Protection'', ''0'')]"

definition csrf_cookie :: "http_request \<Rightarrow> string \<Rightarrow> cookie" where
  "csrf_cookie rq v = \<lparr>ck_name = ''csrf_token'', ck_value = v, ck_secure = rq_secure rq,
     ck_httponly = False, ck_samesite = ''Lax'', ck_path = ''/'', ck_max_age = None\<rparr>"

definition after_request ::
  "(string \<Rightarrow> string) \<Rightarrow> string \<Rightarrow> http_request \<Rightarrow> Session option \<Rightarrow> response \<Rightarrow> response" where
  "after_request mac random rq cur rp =
     (let rp1 = rp\<lparr>rp_headers := fold (\<lambda>(k, v). header_default k v) security_headers (rp_headers rp)\<rparr>;
          sets_csrf = list_ex (\<lambda>ck. ck_name ck = ''csrf_token'') (rp_set_cookies rp1) in
      case cur of
        Some sn \<Rightarrow>
          (if \<not> sets_csrf \<and> rq_csrf_cookie rq \<noteq> Some (mac (sn_token sn))
           then rp1\<lparr>rp_set_cookies := rp_set_cookies rp1 @ [csrf_cookie rq (mac (sn_token sn))]\<rparr> else rp1)
      | None \<Rightarrow>
          (if \<not> sets_csrf \<and> (rq_csrf_cookie rq = None \<or> rq_csrf_cookie rq = Some [])
           then rp1\<lparr>rp_set_cookies := rp_set_cookies rp1 @ [csrf_cookie rq random]\<rparr> else rp1))"

section \<open>What a pass means\<close>

lemma of_csrf_Pass [result_simps]: "of_csrf b k = Pass \<longleftrightarrow> b = Some True \<and> k = Pass"
  by (auto simp: of_csrf_def split: option.splits bool.splits simp: forbid_def)

lemma forbid_not_Pass [simp]: "forbid c m s \<noteq> Pass"
  by (simp add: forbid_def)

lemma double_submit_True [result_simps]:
  "double_submit rq = Some True \<longleftrightarrow>
     (\<exists>t. t \<noteq> [] \<and> ascii t \<and> rq_csrf_cookie rq = Some t \<and> rq_csrf_header rq = Some t)"
  by (auto simp: double_submit_def compare_digest_def Let_def split: option.splits)

lemma session_csrf_Pass [result_simps]:
  "session_csrf mac rq sn k = Pass \<longleftrightarrow> k = Pass \<and> (state_changing rq \<longrightarrow>
     mac (sn_token sn) \<noteq> [] \<and> ascii (mac (sn_token sn)) \<and>
     rq_csrf_cookie rq = Some (mac (sn_token sn)) \<and> rq_csrf_header rq = Some (mac (sn_token sn)))"
  by (auto simp: session_csrf_def result_simps compare_digest_def)

lemma role_gate_Pass [result_simps]:
  "role_gate rq sn sys k = Pass \<longleftrightarrow> k = Pass \<and>
     (requires_superadmin rq \<longrightarrow> has_role [''Superadmin''] (sn_user sn) sys) \<and>
     (requires_admin rq \<and> \<not> requires_superadmin rq \<longrightarrow> has_role [''Admin'', ''Superadmin''] (sn_user sn) sys)"
  by (auto simp: role_gate_def)

lemma step_up_gate_Pass [result_simps]:
  "step_up_gate now rq sn = Pass \<longleftrightarrow>
     (requires_step_up rq \<longrightarrow> (\<exists>c. sn_step_up_at sn = Some c \<and> now - c \<le> step_up_window_s))"
  using require_step_up_iff[of now sn]
  by (auto simp: step_up_gate_def split: sum.splits)

lemma before_request_Pass:
  assumes "before_request cr mac container uid now rq sys = (Pass, cur, sys')"
    and "\<not> is_public_request rq" and "\<not> setup_open rq container sys"
  obtains raw sn where "rq_session_cookie rq = Some raw" "validate_session cr uid now raw sys = (Inr sn, sys)"
    "cur = Some sn" "sys' = sys"
    "session_csrf mac rq sn (role_gate rq sn sys (step_up_gate now rq sn)) = Pass"
proof -
  have c: "container" and "rq_session_cookie rq \<noteq> None"
    using assms by (auto simp: before_request_def split: if_split_asm option.splits)
  then obtain raw where raw: "rq_session_cookie rq = Some raw" by blast
  have ne: "raw \<noteq> []" using assms c by (auto simp: before_request_def raw)
  obtain r s where v: "validate_session cr uid now raw sys = (r, s)" by (meson surj_pair)
  from assms c raw ne v have *: "(case (r, s) of (Inl SessionError, s) \<Rightarrow> (session_refusal, None, s)
           | (Inl _, s) \<Rightarrow> (Raised, None, s)
           | (Inr sn, s) \<Rightarrow>
               (session_csrf mac rq sn (role_gate rq sn s (step_up_gate now rq sn)), Some sn, s)) = (Pass, cur, sys')"
    by (simp add: before_request_def)
  then obtain sn where sn: "r = Inr sn" by (cases r) (auto split: auth_error.splits)
  have "s = sys" using v sn by (simp add: validate_accepts)
  with * sn v raw show thesis by (intro that[of raw sn]) auto
qed

lemma session_pass_facts:
  assumes "before_request cr mac container uid now rq sys = (Pass, cur, sys')"
    and "\<not> is_public_request rq" and "\<not> setup_open rq container sys"
  shows "sys' = sys \<and> (\<exists>raw row. rq_session_cookie rq = Some raw \<and>
     find_session (hash_token cr raw) sys = Some row \<and> se_deleted_at row = None \<and> now \<le> se_expires_at row \<and>
     (state_changing rq \<longrightarrow> rq_csrf_header rq = Some (mac raw) \<and> rq_csrf_cookie rq = Some (mac raw)) \<and>
     (requires_superadmin rq \<longrightarrow> has_role [''Superadmin''] (se_user row) sys) \<and>
     (requires_admin rq \<longrightarrow> has_role [''Admin'', ''Superadmin''] (se_user row) sys) \<and>
     (requires_step_up rq \<longrightarrow> (\<exists>c. se_step_up_at row = Some c \<and> now \<le> c + 600)))"
proof -
  obtain raw sn where raw: "rq_session_cookie rq = Some raw" "sys' = sys"
    "validate_session cr uid now raw sys = (Inr sn, sys)"
    "session_csrf mac rq sn (role_gate rq sn sys (step_up_gate now rq sn)) = Pass"
    using before_request_Pass[OF assms] by metis
  obtain row where row: "find_session (hash_token cr raw) sys = Some row" "se_deleted_at row = None"
    "now \<le> se_expires_at row" "sn_user sn = se_user row" "sn_token sn = raw" "sn_step_up_at sn = se_step_up_at row"
    using raw(3) unfolding validate_accepts by auto
  have super: "has_role [''Admin'', ''Superadmin''] i sys" if "has_role [''Superadmin''] i sys" for i
    using that by (auto simp: has_role_def exists_row_iff)
  show ?thesis
    using raw(1,2,4) row super
    by (auto simp: session_csrf_Pass role_gate_Pass step_up_gate_Pass step_up_window_s_def)
qed

text \<open>
  C32: a request that the gate lets through to a protected route carries a live session; when it
  changes state, both its CSRF values are the one derived from that session, so a page that only
  makes the browser send its cookies is refused; and the session's user has the role, and the
  session the step-up of the last ten minutes, that the route asks for.
\<close>
theorem gate_authorises:
  assumes "before_request cr mac container uid now rq sys = (Pass, cur, sys')"
    and "\<not> is_public_request rq" and "\<not> setup_open rq container sys"
  shows "sys' = sys \<and> (\<exists>raw row. rq_session_cookie rq = Some raw \<and>
     find_session (hash_token cr raw) sys = Some row \<and> se_deleted_at row = None \<and> now \<le> se_expires_at row \<and>
     (state_changing rq \<longrightarrow> rq_csrf_header rq = Some (mac raw) \<and> rq_csrf_cookie rq = Some (mac raw)) \<and>
     (requires_superadmin rq \<longrightarrow> has_role [''Superadmin''] (se_user row) sys) \<and>
     (requires_admin rq \<longrightarrow> has_role [''Admin'', ''Superadmin''] (se_user row) sys) \<and>
     (requires_step_up rq \<longrightarrow> (\<exists>c. se_step_up_at row = Some c \<and> now \<le> c + 600)))"
  by (rule session_pass_facts[OF assms])

section \<open>Routes of a world\<close>

definition guarded_world_routes :: "(string \<times> string) list" where
  "guarded_world_routes = [(''DELETE'', []), (''DELETE'', ''/files''), (''POST'', ''/stop''), (''POST'', ''/kill''),
     (''POST'', ''/eula/accept''), (''PATCH'', ''/runtime-config'')]"

lemma world_path_segments:
  assumes "i \<noteq> []" and "CHR ''/'' \<notin> set i"
  shows "segments (''/api/worlds/'' @ i) = [''api'', ''worlds'', i]"
    and "segments (''/api/worlds/'' @ i @ ''/files'') = [''api'', ''worlds'', i, ''files'']"
proof -
  have strip: "strip_char (CHR ''/'') (CHR ''/'' # t) = strip_char (CHR ''/'') t" for t
    by (simp add: strip_char_def)
  have "last i \<noteq> CHR ''/''" using assms last_in_set by metis
  then have "strip_char (CHR ''/'') (''api/worlds/'' @ i) = ''api/worlds/'' @ i"
    using assms by (intro strip_char_id) auto
  then have 1: "strip_char (CHR ''/'') (''/api/worlds/'' @ i) = ''api'' @ CHR ''/'' # ''worlds'' @ CHR ''/'' # i"
    using strip[of "''api/worlds/'' @ i"] by simp
  have "strip_char (CHR ''/'') (''api/worlds/'' @ i @ ''/files'') = ''api/worlds/'' @ i @ ''/files''"
    by (intro strip_char_id) auto
  then have 2: "strip_char (CHR ''/'') (''/api/worlds/'' @ i @ ''/files'') =
     ''api'' @ CHR ''/'' # ''worlds'' @ CHR ''/'' # i @ CHR ''/'' # ''files''"
    using strip[of "''api/worlds/'' @ i @ ''/files''"] by simp
  show "segments (''/api/worlds/'' @ i) = [''api'', ''worlds'', i]"
    unfolding segments_def 1 using assms by (subst split_on_append_sep, simp)+ (simp add: split_on_plain)
  show "segments (''/api/worlds/'' @ i @ ''/files'') = [''api'', ''worlds'', i, ''files'']"
    unfolding segments_def 2 using assms by (subst split_on_append_sep, simp)+ (simp add: split_on_plain)
qed

lemma ends_with_start:
  assumes "CHR ''/'' \<notin> set i" and "i \<noteq> ''start''"
  shows "\<not> ends_with ''/start'' (''/api/worlds/'' @ i)"
proof
  have pre: "starts_with p t \<Longrightarrow> \<exists>r. t = p @ r" for p t
    by (induction p t rule: starts_with.induct) auto
  assume "ends_with ''/start'' (''/api/worlds/'' @ i)"
  then obtain r where "rev (''/api/worlds/'' @ i) = rev ''/start'' @ r"
    unfolding ends_with_def using pre by blast
  then have "rev (rev (''/api/worlds/'' @ i)) = rev (rev ''/start'' @ r)" by (rule arg_cong)
  then have e: "''/api/worlds/'' @ i = rev r @ ''/start''" by simp
  have tw: "takeWhile (\<lambda>c. c \<noteq> CHR ''/'') (rev (s @ CHR ''/'' # w)) = rev w" if "CHR ''/'' \<notin> set w" for s w
    using that by (auto simp: takeWhile_tail intro!: takeWhile_append2[THEN trans])
  have "rev i = takeWhile (\<lambda>c. c \<noteq> CHR ''/'') (rev (''/api/worlds/'' @ i))"
    using tw[of i "''/api/worlds''"] assms(1) by simp
  also have "\<dots> = rev ''start''" unfolding e using tw[of "''start''" "rev r"] by simp
  finally show False using assms(2) by (metis rev_rev_ident)
qed

lemma guarded_route_needs:
  assumes "i \<noteq> []" and "CHR ''/'' \<notin> set i" and "i \<noteq> ''start''"
    and "(rq_method rq, suffix) \<in> set guarded_world_routes" and "rq_path rq = ''/api/worlds/'' @ i @ suffix"
  shows "state_changing rq \<and> requires_admin rq \<and> requires_step_up rq \<and> \<not> is_public_request rq \<and>
     \<not> setup_open rq container sys"
proof -
  have e: "ends_with q (''/api/worlds/'' @ i @ q)" for q
    using ends_with_append[of q "''/api/worlds/'' @ i"] by simp
  have six: "y = e \<and> x = d \<or> y = f \<and> x = d \<or> y \<in> {s, k, a} \<and> x = p \<or> y = r \<and> x = q"
    if "(x, y) \<in> set [(d, e), (d, f), (p, s), (p, k), (p, a), (q, r)]"
    for x d p q :: string and y e f s k a r :: string
    using that by auto
  note d = requires_admin_def requires_step_up_def is_public_request_def setup_open_def state_changing_def
  have "suffix = [] \<and> rq_method rq = ''DELETE'' \<or> suffix = ''/files'' \<and> rq_method rq = ''DELETE'' \<or>
     suffix \<in> {''/stop'', ''/kill'', ''/eula/accept''} \<and> rq_method rq = ''POST'' \<or>
     suffix = ''/runtime-config'' \<and> rq_method rq = ''PATCH''"
    using six[OF assms(4)[unfolded guarded_world_routes_def]] .
  then show ?thesis
  proof (elim disjE conjE)
    assume "suffix = []" "rq_method rq = ''DELETE''"
    with assms(5) world_path_segments(1)[OF assms(1,2)] ends_with_start[OF assms(2,3)]
    show ?thesis by (simp add: d Let_def)
  next
    assume "suffix = ''/files''" "rq_method rq = ''DELETE''"
    with assms(5) world_path_segments(2)[OF assms(1,2)] show ?thesis by (simp add: d Let_def)
  next
    assume *: "suffix \<in> {''/stop'', ''/kill'', ''/eula/accept''}" "rq_method rq = ''POST''"
    have "ends_with suffix (rq_path rq)" using e[of suffix] assms(5) by simp
    with * have "ends_with ''/stop'' (rq_path rq) \<or> ends_with ''/kill'' (rq_path rq) \<or>
      ends_with ''/eula/accept'' (rq_path rq)"
      by (elim insertE emptyE) simp_all
    moreover have "state_changing rq" "\<not> is_public_request rq" "\<not> setup_open rq container sys"
      using assms(5) *(2) by (simp_all add: d)
    ultimately show ?thesis by (auto simp: requires_admin_def requires_step_up_def Let_def)
  next
    assume "suffix = ''/runtime-config''" "rq_method rq = ''PATCH''"
    with assms(5) e[of "''/runtime-config''"] show ?thesis by (simp add: d Let_def)
  qed
qed

text \<open>
  Stopping, killing or removing a world, deleting its files, accepting its EULA and changing
  its runtime configuration pass the gate only with an administrator's live session that was
  stepped up in the last ten minutes and with that session's CSRF value in the header.
\<close>
lemma world_destruction_is_gated:
  assumes "before_request cr mac container uid now rq sys = (Pass, cur, sys')"
    and "i \<noteq> []" and "CHR ''/'' \<notin> set i" and "i \<noteq> ''start''"
    and "(rq_method rq, suffix) \<in> set guarded_world_routes" and "rq_path rq = ''/api/worlds/'' @ i @ suffix"
  shows "\<exists>raw row c. rq_session_cookie rq = Some raw \<and> find_session (hash_token cr raw) sys = Some row \<and>
     se_deleted_at row = None \<and> rq_csrf_header rq = Some (mac raw) \<and>
     has_role [''Admin'', ''Superadmin''] (se_user row) sys \<and>
     se_step_up_at row = Some c \<and> now \<le> c + 600"
  using session_pass_facts[OF assms(1)] guarded_route_needs[OF assms(2-6), of container sys] by blast

text \<open>
  After a logout the token opens no protected route again, whatever the identity service
  does in between.
\<close>
lemma logout_locks_out:
  assumes "validate_session cr uid t raw sys = (Inr sn, s1)"
    and "revoke_session_id uid' t' (hash_token cr raw) sys = (Inr (), sys')"
    and "\<not> is_public_request rq" and "rq_path rq \<noteq> ''/api/setup''" and "rq_session_cookie rq = Some raw"
  shows "fst (before_request cr mac container uid'' now rq (auth_run cr sys' as)) = session_refusal"
proof -
  have "revoked (hash_token cr raw) sys'"
    using assms(1,2) revoke_ok by (auto simp: validate_accepts)
  note dead = revoked_refused[OF revoked_forever[OF this]]
  show ?thesis
    using assms(3-5) by (simp add: before_request_def setup_open_def dead)
qed

section \<open>What responses carry\<close>

text \<open>The CSRF cookie the browser holds once it has processed a response.\<close>

definition browser_csrf :: "http_request \<Rightarrow> response \<Rightarrow> string option" where
  "browser_csrf rq rp =
     (case find_row (\<lambda>ck. ck_name ck = ''csrf_token'') (rev (rp_set_cookies rp)) of
        None \<Rightarrow> rq_csrf_cookie rq
      | Some ck \<Rightarrow> if ck_max_age ck = Some 0 then None else Some (ck_value ck))"

lemma header_default_keeps: "has_header k hs \<Longrightarrow> has_header k (header_default n v hs)"
  by (simp add: header_default_def has_header_def)

lemma header_default_has: "has_header k (header_default k v hs)"
  by (simp add: header_default_def has_header_def)

lemma default_headers_present:
  "has_header k hs \<or> k \<in> fst ` set xs \<Longrightarrow> has_header k (fold (\<lambda>(n, v). header_default n v) xs hs)"
  by (induction xs arbitrary: hs) (auto simp: header_default_keeps header_default_has)

lemma default_headers_keep:
  "h \<in> set hs \<Longrightarrow> h \<in> set (fold (\<lambda>(n, v). header_default n v) xs hs)"
  by (induction xs arbitrary: hs) (auto simp: header_default_def)

text \<open>
  Every response carries the five security headers and keeps those its handler set; after a
  response to a request with a session, the browser's CSRF cookie is that session's value, unless
  the handler chose it, so the next state-changing request of the page can pass.
\<close>
lemma responses_are_hardened:
  assumes "find_row (\<lambda>ck. ck_name ck = ''csrf_token'') (rp_set_cookies rp) = None"
  shows "list_all (\<lambda>(k, v). has_header k (rp_headers (after_request mac random rq cur rp))) security_headers \<and>
     set (rp_headers rp) \<subseteq> set (rp_headers (after_request mac random rq cur rp)) \<and>
     browser_csrf rq (after_request mac random rq (Some sn) rp) = Some (mac (sn_token sn))"
proof -
  have h: "rp_headers (after_request mac random rq cur rp) =
     fold (\<lambda>(k, v). header_default k v) security_headers (rp_headers rp)"
    by (simp add: after_request_def Let_def split: option.split)
  have "list_all (\<lambda>(k, v). has_header k (rp_headers (after_request mac random rq cur rp))) security_headers"
    unfolding h list_all_iff by (auto intro!: default_headers_present intro: rev_image_eqI)
  moreover have "set (rp_headers rp) \<subseteq> set (rp_headers (after_request mac random rq cur rp))"
    unfolding h using default_headers_keep by blast
  moreover have "find_row (\<lambda>ck. ck_name ck = ''csrf_token'') (rev (rp_set_cookies rp)) = None"
    using assms by (simp add: find_row_None_iff)
  moreover have "\<not> list_ex (\<lambda>ck. ck_name ck = ''csrf_token'') (rp_set_cookies rp)"
    using assms by (simp add: find_row_None_iff list_ex_iff)
  ultimately show ?thesis
    by (auto simp: browser_csrf_def after_request_def Let_def csrf_cookie_def)
qed

section \<open>Witnesses\<close>

definition sample_mac :: "string \<Rightarrow> string" where
  "sample_mac t = CHR ''m'' # t"

text \<open>The sample service after a step-up at 200, and a request that kills the world \<open>w1\<close>.\<close>

definition sample_stepped :: auth_sys where
  "sample_stepped = snd (confirm_step_up sample_crypto ''tok2'' (sample_ids ''c'') 200 ''tok'' ''pw'' sample_login sample_auth)"

definition sample_request :: "string \<Rightarrow> http_request" where
  "sample_request raw = \<lparr>rq_path = ''/api/worlds/w1/kill'', rq_method = ''POST'', rq_json = None,
     rq_session_cookie = Some raw, rq_csrf_cookie = Some (sample_mac raw),
     rq_csrf_header = Some (sample_mac raw), rq_remote = Some ''ip'', rq_secure = True\<rparr>"

lemma sample_gate_passes:
  "fst (before_request sample_crypto sample_mac True ''z'' 300 (sample_request ''tok2'') sample_stepped) = Pass"
  by code_simp

lemma sample_gate:
  obtains cur sys' where
    "before_request sample_crypto sample_mac True ''z'' 300 (sample_request ''tok2'') sample_stepped = (Pass, cur, sys')"
  using sample_gate_passes
  by (cases "before_request sample_crypto sample_mac True ''z'' 300 (sample_request ''tok2'') sample_stepped") auto

theorem gate_authorises_witness:
  "\<exists>row. find_session (hash_token sample_crypto ''tok2'') sample_stepped = Some row \<and>
     has_role [''Admin'', ''Superadmin''] (se_user row) sample_stepped \<and>
     rq_csrf_header (sample_request ''tok2'') = Some (sample_mac ''tok2'')"
proof -
  obtain cur sys' where p: "before_request sample_crypto sample_mac True ''z'' 300 (sample_request ''tok2'') sample_stepped = (Pass, cur, sys')"
    by (rule sample_gate)
  have "\<not> is_public_request (sample_request ''tok2'')"
    "\<not> setup_open (sample_request ''tok2'') True sample_stepped" by code_simp+
  note facts = gate_authorises[OF p this]
  have "state_changing (sample_request ''tok2'')" "requires_admin (sample_request ''tok2'')"
    "rq_session_cookie (sample_request ''tok2'') = Some ''tok2''" by code_simp+
  with facts show ?thesis by auto
qed

lemma world_destruction_is_gated_witness:
  "\<exists>raw row c. rq_session_cookie (sample_request ''tok2'') = Some raw \<and>
     find_session (hash_token sample_crypto raw) sample_stepped = Some row \<and>
     se_deleted_at row = None \<and> rq_csrf_header (sample_request ''tok2'') = Some (sample_mac raw) \<and>
     has_role [''Admin'', ''Superadmin''] (se_user row) sample_stepped \<and>
     se_step_up_at row = Some c \<and> 300 \<le> c + 600"
proof -
  obtain cur sys' where p: "before_request sample_crypto sample_mac True ''z'' 300 (sample_request ''tok2'') sample_stepped = (Pass, cur, sys')"
    by (rule sample_gate)
  have "''w1'' \<noteq> []" "CHR ''/'' \<notin> set ''w1''" "''w1'' \<noteq> ''start''"
    "(rq_method (sample_request ''tok2''), ''/kill'') \<in> set guarded_world_routes"
    "rq_path (sample_request ''tok2'') = ''/api/worlds/'' @ ''w1'' @ ''/kill''" by code_simp+
  from world_destruction_is_gated[OF p this] show ?thesis .
qed

lemma logout_locks_out_witness:
  "\<exists>s. revoke_session_id ''k'' 250 (hash_token sample_crypto ''tok2'') sample_stepped = (Inr (), s) \<and>
     fst (before_request sample_crypto sample_mac True ''z'' 400 (sample_request ''tok2'')
       (auth_run sample_crypto s sample_later)) = session_refusal"
proof -
  let ?v = "validate_session sample_crypto ''g'' 240 ''tok2'' sample_stepped"
  let ?r = "revoke_session_id ''k'' 250 (hash_token sample_crypto ''tok2'') sample_stepped"
  have "is_ok (fst ?v)" "is_ok (fst ?r)" by code_simp+
  then obtain sn s1 s where v: "?v = (Inr sn, s1)" and r: "?r = (Inr (), s)"
    by (cases ?v; cases "fst ?v"; cases ?r; cases "fst ?r") auto
  have "\<not> is_public_request (sample_request ''tok2'')" "rq_path (sample_request ''tok2'') \<noteq> ''/api/setup''"
    "rq_session_cookie (sample_request ''tok2'') = Some ''tok2''" by code_simp+
  from logout_locks_out[OF v r this] r show ?thesis by blast
qed

lemma responses_are_hardened_witness:
  "browser_csrf (sample_request ''tok2'') (after_request sample_mac ''r'' (sample_request ''tok2'')
     (Some \<lparr>sn_user = ''u_a'', sn_token = ''tok4'', sn_expires_at = 0, sn_step_up_at = None, sn_created_at = 0\<rparr>)
     (ok_response [] 200)) = Some ''mtok4''"
proof -
  have "find_row (\<lambda>ck. ck_name ck = ''csrf_token'') (rp_set_cookies (ok_response [] 200)) = None"
    by code_simp
  from responses_are_hardened[OF this, of sample_mac "''r''" "sample_request ''tok2''" None
    "\<lparr>sn_user = ''u_a'', sn_token = ''tok4'', sn_expires_at = 0, sn_step_up_at = None, sn_created_at = 0\<rparr>"]
  show ?thesis by (simp add: sample_mac_def)
qed

end
