(* ===== verification/Web_Session.thy ===== *)
theory Web_Session
  imports Web_Gate Effects
begin

text \<open>
  The login, logout, step-up and session routes (\<open>app/web/api/auth_routes.py\<close>) and what the
  handlers of the other routes share.  A handler runs after the gate passed the request: its
  context is the request, the session the gate left in \<open>g\<close>, the clock and the identifiers
  drawn.  A handler is an action on the state of its services; \<open>Inl Escaped\<close> is an exception it
  does not catch, which the framework answers with status 500, and the state it then leaves is
  what it had committed.
\<close>

section \<open>Handlers\<close>

datatype web_error = Escaped

type_synonym 's handler = "('s, web_error, response) action"

record web_ctx =
  wc_request :: http_request
  wc_session :: Session
  wc_now :: int
  wc_ids :: "nat \<Rightarrow> nat \<Rightarrow> string"

abbreviation wc_user :: "web_ctx \<Rightarrow> string" where
  "wc_user c \<equiv> sn_user (wc_session c)"

abbreviation escape :: "('s, web_error, 'a) action" where
  "escape \<equiv> raise Escaped"

definition refuse :: "string \<Rightarrow> string \<Rightarrow> int \<Rightarrow> 's handler" where
  "refuse code message status = ret (error_response code message (Some status))"

definition invalid :: "string \<Rightarrow> 's handler" where
  "invalid message = ret (error_response ''VALIDATION_ERROR'' message None)"

definition answer :: "jdict \<Rightarrow> 's handler" where
  "answer data = ret (ok_response data 200)"

definition with_meta :: "jdict \<Rightarrow> response \<Rightarrow> response" where
  "with_meta meta rp = (case rp_body rp of
     JObj d \<Rightarrow> rp\<lparr>rp_body := JObj (dict_set ''meta'' (JObj meta) d)\<rparr> | _ \<Rightarrow> rp)"

text \<open>A row of the operations table as the services return it: the JSON columns as their text.\<close>

definition json_text :: "jdict option \<Rightarrow> json" where
  "json_text d = (case d of None \<Rightarrow> JNull | Some x \<Rightarrow> JStr (dumps (JObj x)))"

definition operation_json :: "op_row \<Rightarrow> jdict" where
  "operation_json r =
     [(''op_id'', JStr (op_id r)), (''op_type'', JStr (optype_value (op_type r))),
      (''world_id'', jopt_str (op_world r)), (''actor_type'', JStr (actor_value (op_actor_type r))),
      (''actor_user_id'', jopt_str (op_actor_user r)), (''idempotency_key'', jopt_str (op_key r)),
      (''status'', JStr (opstatus_value (op_status r))), (''checkpoint'', json_text (op_checkpoint r)),
      (''attempt'', JInt (op_attempt r)), (''compensates_operation_id'', jopt_str (op_compensates r)),
      (''intent_at'', JInt (op_intent_at r)), (''started_at'', jopt_int (op_started_at r)),
      (''finished_at'', jopt_int (op_finished_at r)), (''error_code'', jopt_str (op_error_code r)),
      (''message'', jopt_str (op_message r)), (''data_json'', json_text (op_data r)),
      (''created_at'', JInt (op_created_at r)), (''updated_at'', JInt (op_updated_at r))]"

text \<open>A parsed JSON object keeps the last value of a repeated key.\<close>

definition py_dict :: "jdict \<Rightarrow> jdict" where
  "py_dict d = foldl (\<lambda>a (k, v). dict_set k v a) [] d"

definition object_body :: "json option \<Rightarrow> jdict option" where
  "object_body j = (case j of Some (JObj d) \<Rightarrow> Some (py_dict d) | _ \<Rightarrow> None)"

text \<open>\<open>request.get_json(silent=True) or {}\<close>, on which the handler then calls \<open>get\<close>.\<close>

definition body_or_empty :: "json option \<Rightarrow> jdict option" where
  "body_or_empty j =
     (if \<not> json_truthy j then Some [] else object_body j)"

fun as_str :: "json option \<Rightarrow> string option" where
  "as_str (Some (JStr s)) = Some s"
| "as_str _ = None"

text \<open>A call of a service: its result, with the state it leaves.\<close>

definition service :: "('s \<Rightarrow> ('e + 'a) \<times> 's) \<Rightarrow> ('s, web_error, 'e + 'a) action" where
  "service m s = (case m s of (r, s') \<Rightarrow> (Inr r, s'))"

section \<open>Session cookies\<close>

definition request_device :: "jdict \<Rightarrow> string option \<times> string option" where
  "request_device body =
     (let pick = (\<lambda>k. case as_str (jget k body) of Some s \<Rightarrow> if s = [] then None else Some s | None \<Rightarrow> None) in
      (pick ''device_id'', pick ''device_name''))"

definition context_of :: "jdict \<Rightarrow> http_request \<Rightarrow> login_context" where
  "context_of body rq =
     (let d = request_device body in
      \<lparr>lc_device = fst d, lc_device_name = snd d, lc_ip = (case rq_remote rq of None \<Rightarrow> [] | Some ip \<Rightarrow> ip)\<rparr>)"

definition session_cookie :: "http_request \<Rightarrow> string \<Rightarrow> cookie" where
  "session_cookie rq token = \<lparr>ck_name = ''mcmanager_session'', ck_value = token, ck_secure = rq_secure rq,
     ck_httponly = True, ck_samesite = ''Lax'', ck_path = ''/'', ck_max_age = None\<rparr>"

definition set_session_cookies :: "(string \<Rightarrow> string) \<Rightarrow> http_request \<Rightarrow> string \<Rightarrow> response \<Rightarrow> response" where
  "set_session_cookies mac rq token rp =
     rp\<lparr>rp_set_cookies := rp_set_cookies rp @ [session_cookie rq token, csrf_cookie rq (mac token)]\<rparr>"

definition dropped_cookie :: "cookie \<Rightarrow> cookie" where
  "dropped_cookie ck = ck\<lparr>ck_value := [], ck_max_age := Some 0\<rparr>"

text \<open>The names of the live roles a user holds, as \<open>GROUP_CONCAT\<close> and \<open>split(',')\<close> give them.
  SQLite leaves their order open; here it is the order of the assignments.\<close>

definition role_names :: "string \<Rightarrow> auth_sys \<Rightarrow> string list" where
  "role_names uid s =
     concat (map (\<lambda>a. map ro_name (filter (\<lambda>r. ro_id r = ra_role a \<and> ro_deleted_at r = None) (at_roles s)))
       (filter (\<lambda>a. ra_user a = uid \<and> ra_deleted_at a = None) (at_assignments s)))"

definition listed_roles :: "string \<Rightarrow> auth_sys \<Rightarrow> string list" where
  "listed_roles uid s =
     (let t = join '','' (role_names uid s) in if t = [] then [] else split_on (CHR '','') t)"

definition session_identity :: "string \<Rightarrow> auth_sys \<Rightarrow> jdict option" where
  "session_identity uid s =
     (case find_row (\<lambda>u. us_id u = uid \<and> us_deleted_at u = None) (users (at_store s)) of
        None \<Rightarrow> None
      | Some u \<Rightarrow> Some [(''user_id'', JStr uid), (''username'', JStr (us_username u)),
          (''display_name'', jopt_str (us_display u)),
          (''roles'', JArr (map JStr (listed_roles uid s)))])"

section \<open>Routes\<close>

definition login :: "crypto \<Rightarrow> (string \<Rightarrow> string) \<Rightarrow> string \<Rightarrow> web_ctx \<Rightarrow> auth_sys handler" where
  "login cr mac token c =
     bind_run (of_option Escaped (body_or_empty (rq_json (wc_request c)))) (\<lambda>body.
       case (as_str (jget ''username'' body), as_str (jget ''password'' body)) of
         (Some name, Some pw) \<Rightarrow>
           bind_run (service (authenticate cr token (wc_ids c 0) (wc_now c) name pw (context_of body (wc_request c)))) (\<lambda>r.
             case r of
               Inl UserLocked \<Rightarrow> refuse ''AUTH_LOCKED'' ''Account is temporarily locked.'' 429
             | Inl UserDisabled \<Rightarrow> refuse ''AUTH_DISABLED'' ''Account is disabled.'' 403
             | Inl InvalidCredentials \<Rightarrow> refuse ''AUTH_INVALID_CREDENTIALS'' ''Invalid username or password.'' 401
             | Inl _ \<Rightarrow> escape
             | Inr sn \<Rightarrow>
                 bind_run (gets (session_identity (sn_user sn))) (\<lambda>i.
                 bind_run (of_option Escaped i) (\<lambda>identity.
                   ret (set_session_cookies mac (wc_request c) (sn_token sn)
                     (ok_response [(''session'', JObj identity)] 201)))))
       | _ \<Rightarrow> invalid ''Username and password are required.'')"

definition logout :: "crypto \<Rightarrow> web_ctx \<Rightarrow> auth_sys handler" where
  "logout cr c =
     bind_run (service (revoke_session_id (wc_ids c 0 0) (wc_now c) (hash_token cr (sn_token (wc_session c))))) (\<lambda>r.
       case r of
         Inl _ \<Rightarrow> escape
       | Inr _ \<Rightarrow>
           (let rp = ok_response [(''logged_out'', JBool True)] 200 in
            ret (rp\<lparr>rp_set_cookies := [dropped_cookie (session_cookie (wc_request c) []),
                                       dropped_cookie (csrf_cookie (wc_request c) [])]\<rparr>)))"

definition step_up :: "crypto \<Rightarrow> (string \<Rightarrow> string) \<Rightarrow> string \<Rightarrow> web_ctx \<Rightarrow> auth_sys handler" where
  "step_up cr mac token c =
     bind_run (of_option Escaped (body_or_empty (rq_json (wc_request c)))) (\<lambda>body.
       let pw = as_str (jget ''password'' body) in
       if pw = None \<or> pw = Some [] then invalid ''Password is required.''
       else
         bind_run (service (confirm_step_up cr token (wc_ids c 0) (wc_now c) (sn_token (wc_session c)) (the pw)
             (context_of body (wc_request c)))) (\<lambda>r.
           case r of
             Inl InvalidCredentials \<Rightarrow> refuse ''AUTH_INVALID_CREDENTIALS'' ''Invalid password.'' 401
           | Inl SecretMissing \<Rightarrow> escape
           | Inl AuthIntegrity \<Rightarrow> escape
           | Inl _ \<Rightarrow> refuse ''AUTH_SESSION_INVALID'' ''A valid session is required.'' 401
           | Inr sn \<Rightarrow>
               bind_run (gets (session_identity (sn_user sn))) (\<lambda>i.
               bind_run (of_option Escaped i) (\<lambda>identity.
               bind_run (of_option Escaped (sn_step_up_at sn)) (\<lambda>at.
                 ret (set_session_cookies mac (wc_request c) (sn_token sn)
                   (ok_response [(''session'', JObj identity), (''step_up_expires_at'', JInt (at + 600))] 200)))))))"

definition current_session :: "web_ctx \<Rightarrow> auth_sys handler" where
  "current_session c =
     (let expires = (case sn_step_up_at (wc_session c) of
            None \<Rightarrow> None
          | Some t \<Rightarrow> if t + 600 < wc_now c then None else Some (t + 600)) in
      bind_run (gets (session_identity (wc_user c))) (\<lambda>i.
      bind_run (of_option Escaped i) (\<lambda>identity.
        answer (identity @ [(''expires_at'', JInt (sn_expires_at (wc_session c))),
                            (''step_up_expires_at'', jopt_int expires)]))))"

end
