(* ===== verification/Iso_Time.thy ===== *)
theory Iso_Time
  imports Json
begin

text \<open>
  \<open>datetime.fromtimestamp(t, tz=UTC).isoformat()\<close> with \<open>Z\<close> for the offset, as the route modules
  render times (\<open>_iso\<close> in \<open>app/web/api/administration.py\<close>): the proleptic Gregorian date of a
  whole second.  Years outside 1 to 9999 raise.
\<close>

definition civil :: "int \<Rightarrow> int \<times> int \<times> int" where
  "civil day =
     (let z = day + 719468;
          era = z div 146097;
          doe = z mod 146097;
          yoe = (doe - doe div 1460 + doe div 36524 - doe div 146096) div 365;
          doy = doe - (365 * yoe + yoe div 4 - yoe div 100);
          mp = (5 * doy + 2) div 153;
          d = doy - (153 * mp + 2) div 5 + 1;
          m = (if mp < 10 then mp + 3 else mp - 9) in
      (yoe + era * 400 + (if m \<le> 2 then 1 else 0), m, d))"

definition pad_dec :: "nat \<Rightarrow> int \<Rightarrow> string" where
  "pad_dec w n = (let t = int_dec n in replicate (w - length t) (CHR ''0'') @ t)"

definition iso_utc :: "int \<Rightarrow> string option" where
  "iso_utc t =
     (let (y, m, d) = civil (t div 86400); s = t mod 86400 in
      if y < 1 \<or> 9999 < y then None
      else Some (pad_dec 4 y @ ''-'' @ pad_dec 2 m @ ''-'' @ pad_dec 2 d @ ''T'' @
                 pad_dec 2 (s div 3600) @ '':'' @ pad_dec 2 (s div 60 mod 60) @ '':'' @ pad_dec 2 (s mod 60) @ ''Z''))"

definition iso_json :: "int option \<Rightarrow> json option" where
  "iso_json t = (case t of None \<Rightarrow> Some JNull | Some n \<Rightarrow> map_option JStr (iso_utc n))"

text \<open>Known instants: the epoch, a leap day, the day after one, and the last second of a century.\<close>

lemma iso_utc_samples:
  "iso_utc 0 = Some ''1970-01-01T00:00:00Z''"
  "iso_utc 951782400 = Some ''2000-02-29T00:00:00Z''"
  "iso_utc 1709251199 = Some ''2024-02-29T23:59:59Z''"
  "iso_utc 4107542399 = Some ''2100-02-28T23:59:59Z''"
  "iso_utc 4107542400 = Some ''2100-03-01T00:00:00Z''"
  by code_simp+

end
