(* ===== verification/Web_Admin.thy ===== *)
theory Web_Admin
  imports Web_Session Configuration Iso_Time
begin

text \<open>
  The administration routes (\<open>app/web/api/administration.py\<close>): setup, users, roles, permissions,
  devices and session activity.  They work on the tables of the identity service and, for role
  edits, through the configuration service, so their state is the configuration service's with
  the identity tables; the roles are the rows of its table, of which the identity service sees
  the columns it reads.  \<open>wc_now\<close> is the one reading of the clock of a request.
\<close>

section \<open>State\<close>

record permission_row =
  pe_id :: string
  pe_role :: "string option"
  pe_user :: "string option"
  pe_category :: string
  pe_world :: "string option"
  pe_granted_at :: int
  pe_granted_by :: string
  pe_deleted_at :: "int option"
  pe_updated_at :: int

record manager_row =
  mg_version :: string
  mg_setup :: bool
  mg_updated_at :: int

record admin_sys =
  am_config :: config_sys
  am_devices :: "device_row list"
  am_sessions :: "session_row list"
  am_assignments :: "assignment_row list"
  am_secrets :: "secret_row list"
  am_permissions :: "permission_row list"
  am_manager :: "manager_row option"

text \<open>A role as a row of its table and as the identity service reads it.\<close>

definition role_of :: "row \<Rightarrow> role_row" where
  "role_of r = \<lparr>ro_id = text_key (col ''role_id'' r), ro_name = text_key (col ''name'' r),
     ro_system = (col ''is_system_role'' r \<noteq> JInt 0),
     ro_deleted_at = (case col ''deleted_at'' r of JNull \<Rightarrow> None | JInt n \<Rightarrow> Some n | _ \<Rightarrow> Some 0)\<rparr>"

definition role_cells :: "int \<Rightarrow> string \<Rightarrow> json \<Rightarrow> json \<Rightarrow> bool \<Rightarrow> row" where
  "role_cells now i name description sys =
     [(''role_id'', JStr i), (''name'', name), (''description'', description),
      (''is_system_role'', JInt (if sys then 1 else 0)), (''version'', JInt 1), (''deleted_at'', JNull),
      (''deleted_by'', JNull), (''created_at'', JInt now), (''updated_at'', JInt now)]"

definition am_store :: "admin_sys \<Rightarrow> store" where
  "am_store m = os_store (cf_ops (am_config m))"

definition set_store :: "store \<Rightarrow> admin_sys \<Rightarrow> admin_sys" where
  "set_store st m = m\<lparr>am_config := (am_config m)\<lparr>cf_ops := (cf_ops (am_config m))\<lparr>os_store := st\<rparr>\<rparr>\<rparr>"

definition role_rows :: "admin_sys \<Rightarrow> row list" where
  "role_rows m = cf_tables (am_config m) CE_ROLES"

definition set_role_rows :: "row list \<Rightarrow> admin_sys \<Rightarrow> admin_sys" where
  "set_role_rows rs m = m\<lparr>am_config := (am_config m)\<lparr>cf_tables := (cf_tables (am_config m))(CE_ROLES := rs)\<rparr>\<rparr>"

definition identity :: "admin_sys \<Rightarrow> auth_sys" where
  "identity m = \<lparr>at_store = am_store m, at_devices = am_devices m, at_sessions = am_sessions m,
     at_roles = map role_of (role_rows m), at_assignments = am_assignments m, at_secrets = am_secrets m\<rparr>"

text \<open>What a call of the identity service leaves; the roles it adds are the baseline ones.\<close>

definition after_auth :: "int \<Rightarrow> auth_sys \<Rightarrow> admin_sys \<Rightarrow> admin_sys" where
  "after_auth now a m =
     (let fresh = map (\<lambda>r. role_cells now (ro_id r) (JStr (ro_name r))
                (JStr (''baseline '' @ ro_name r @ '' role'')) (ro_system r))
              (drop (length (role_rows m)) (at_roles a)) in
      set_role_rows (role_rows m @ fresh) (set_store (at_store a)
        (m\<lparr>am_devices := at_devices a, am_sessions := at_sessions a, am_assignments := at_assignments a,
           am_secrets := at_secrets a\<rparr>)))"

definition auth_call :: "int \<Rightarrow> (auth_sys \<Rightarrow> (auth_error + 'a) \<times> auth_sys)
    \<Rightarrow> (admin_sys, web_error, auth_error + 'a) action" where
  "auth_call now f m = (case f (identity m) of (r, a) \<Rightarrow> (Inr r, after_auth now a m))"

definition on_users :: "(user_row \<Rightarrow> bool) \<Rightarrow> (user_row \<Rightarrow> user_row) \<Rightarrow> admin_sys \<Rightarrow> admin_sys" where
  "on_users p f m = set_store ((am_store m)\<lparr>users := update_rows p f (users (am_store m))\<rparr>) m"

definition revoke_sessions :: "int \<Rightarrow> string \<Rightarrow> (session_row \<Rightarrow> bool) \<Rightarrow> admin_sys \<Rightarrow> admin_sys" where
  "revoke_sessions now by p m = m\<lparr>am_sessions := update_rows (\<lambda>s. p s \<and> se_deleted_at s = None)
     (\<lambda>s. s\<lparr>se_deleted_at := Some now, se_deleted_by := Some by\<rparr>) (am_sessions m)\<rparr>"

type_synonym admin_handler = "admin_sys handler"

section \<open>Values bound to text columns\<close>

text \<open>\<open>None\<close> is a value the database driver refuses to bind: a list, an object, or an integer of
  more than 64 bits.  A number that goes into a text column, or is compared with one, becomes its
  text.\<close>

fun bind_text :: "json \<Rightarrow> string option option" where
  "bind_text JNull = Some None"
| "bind_text (JStr s) = Some (Some s)"
| "bind_text (JInt n) = (if - (2 ^ 63) \<le> n \<and> n < 2 ^ 63 then Some (Some (int_dec n)) else None)"
| "bind_text (JBool b) = Some (Some (if b then ''1'' else ''0''))"
| "bind_text _ = None"

definition body_get :: "string \<Rightarrow> jdict \<Rightarrow> json" where
  "body_get k d = (case jget k d of None \<Rightarrow> JNull | Some v \<Rightarrow> v)"

definition has_key :: "string \<Rightarrow> jdict \<Rightarrow> bool" where
  "has_key k d \<longleftrightarrow> jget k d \<noteq> None"

definition only_keys :: "string list \<Rightarrow> jdict \<Rightarrow> bool" where
  "only_keys ks d \<longleftrightarrow> fst ` set d \<subseteq> set ks"

definition filled :: "json option \<Rightarrow> bool" where
  "filled j = (case as_str j of None \<Rightarrow> False | Some s \<Rightarrow> strip s \<noteq> [])"

definition text_of :: "string \<Rightarrow> jdict \<Rightarrow> string" where
  "text_of k d = (case as_str (jget k d) of None \<Rightarrow> [] | Some s \<Rightarrow> s)"

text \<open>Membership in a set of strings raises on a value that has no hash.\<close>

fun member :: "json \<Rightarrow> string list \<Rightarrow> bool option" where
  "member (JStr s) xs = Some (s \<in> set xs)"
| "member (JArr _) xs = None"
| "member (JObj _) xs = None"
| "member _ xs = Some False"

text \<open>\<open>409\<close> in these calls is not the status sent: the code has a status of its own.\<close>

definition sql_refusal :: "string \<Rightarrow> 's handler" where
  "sql_refusal message = refuse ''VALIDATION_ERROR'' message 409"

definition unbindable :: string where
  "unbindable = ''Error binding parameter''"

definition live_role :: "string \<Rightarrow> admin_sys \<Rightarrow> bool" where
  "live_role i m = exists_row (\<lambda>r. ro_id r = i \<and> ro_deleted_at r = None) (map role_of (role_rows m))"

definition user_live :: "string \<Rightarrow> admin_sys \<Rightarrow> bool" where
  "user_live i m = exists_row (\<lambda>u. us_id u = i \<and> us_deleted_at u = None) (users (am_store m))"

section \<open>Setup\<close>

definition manager_response :: "manager_row option \<Rightarrow> jdict option" where
  "manager_response row =
     (case row of
        None \<Rightarrow> Some [(''deployed_version'', JStr ''unknown''), (''setup_completed'', JBool False),
                       (''state'', JStr ''setup'')]
      | Some g \<Rightarrow> map_option (\<lambda>t. [(''deployed_version'', JStr (mg_version g)), (''setup_completed'', JBool (mg_setup g)),
          (''state'', JStr (if mg_setup g then ''ready'' else ''setup'')), (''updated_at'', t)])
          (iso_json (Some (mg_updated_at g))))"

definition get_manager :: admin_handler where
  "get_manager = bind_run (gets (\<lambda>m. manager_response (am_manager m))) (\<lambda>d.
     bind_run (of_option Escaped d) answer)"

definition get_setup :: admin_handler where
  "get_setup = bind_run (gets (\<lambda>m. exists_row (\<lambda>u. us_deleted_at u = None) (users (am_store m)))) (\<lambda>some.
     answer [(''setup_completed'', JBool some), (''first_superadmin_required'', JBool (\<not> some))])"

text \<open>The texts of the identity service's exceptions, and of those of the stores under it.\<close>

fun auth_error_text :: "auth_error \<Rightarrow> string" where
  "auth_error_text UsersExist = ''users already exist; first-superadmin path closed''"
| "auth_error_text InvalidCredentials = ''unknown user''"
| "auth_error_text AuthIntegrity = ''UNIQUE constraint failed''"
| "auth_error_text _ = []"

definition complete_setup :: "crypto \<Rightarrow> web_ctx \<Rightarrow> admin_handler" where
  "complete_setup cr c =
     (case object_body (rq_json (wc_request c)) of
        None \<Rightarrow> invalid ''Username and password are required.''
      | Some body \<Rightarrow>
          if \<not> filled (jget ''username'' body) \<or> \<not> filled (jget ''password'' body)
          then invalid ''Username and password are required.''
          else
            bind_run (auth_call (wc_now c) (provision_first_superadmin cr (wc_ids c 0) (wc_now c)
                (strip (text_of ''username'' body)) (text_of ''password'' body)
                \<lparr>lc_device = None, lc_device_name = None,
                 lc_ip = (case rq_remote (wc_request c) of None \<Rightarrow> [] | Some ip \<Rightarrow> ip)\<rparr>)) (\<lambda>r.
              case r of
                Inl e \<Rightarrow> refuse ''AUTH_FORBIDDEN'' (auth_error_text e) 409
              | Inr uid \<Rightarrow>
                  then_run (change (\<lambda>m. m\<lparr>am_manager := Some (case am_manager m of
                      None \<Rightarrow> \<lparr>mg_version = ''unknown'', mg_setup = True, mg_updated_at = wc_now c\<rparr>
                    | Some g \<Rightarrow> g\<lparr>mg_setup := True, mg_updated_at := wc_now c\<rparr>)\<rparr>))
                    (ret (ok_response [(''setup_completed'', JBool True), (''user_id'', JStr uid)] 201))))"

definition manager_action :: "string \<Rightarrow> admin_handler" where
  "manager_action action =
     refuse ''NOT_IMPLEMENTED'' (''Manager '' @ action @ '' requires the manager lifecycle service.'') 501"

section \<open>Users\<close>

definition last_activity :: "string \<Rightarrow> admin_sys \<Rightarrow> int option" where
  "last_activity uid m =
     (case map se_last_activity (filter (\<lambda>s. se_user s = uid \<and> se_deleted_at s = None) (am_sessions m)) of
        [] \<Rightarrow> None
      | t # ts \<Rightarrow> Some (foldl max t ts))"

fun user_status :: "UserStatus \<Rightarrow> string" where
  "user_status US_ACTIVE = ''active''"
| "user_status US_DISABLED = ''disabled''"
| "user_status US_LOCKED = ''locked''"

definition user_json :: "admin_sys \<Rightarrow> user_row \<Rightarrow> json option" where
  "user_json m u =
     (case (iso_json (Some (us_created_at u)), iso_json (last_activity (us_id u) m)) of
        (Some created, Some active) \<Rightarrow>
          Some (JObj [(''user_id'', JStr (us_id u)), (''username'', JStr (us_username u)),
            (''display_name'', jopt_str (us_display u)), (''status'', JStr (user_status (us_status u))),
            (''created_at'', created), (''last_activity_at'', active),
            (''roles'', JArr (map JStr (listed_roles (us_id u) (identity m))))])
      | _ \<Rightarrow> None)"

definition list_users :: admin_handler where
  "list_users =
     bind_run (gets (\<lambda>m. those (map (user_json m)
       (sort_key us_username (filter (\<lambda>u. us_deleted_at u = None) (users (am_store m))))))) (\<lambda>rows.
     bind_run (of_option Escaped rows) (\<lambda>js. answer [(''users'', JArr js)]))"

definition new_user :: "int \<Rightarrow> string \<Rightarrow> string \<Rightarrow> string option \<Rightarrow> string \<Rightarrow> user_row" where
  "new_user now i name display secret =
     \<lparr>us_id = i, us_username = name, us_secret = secret, us_status = US_ACTIVE, us_failed = 0,
      us_locked_until = None, us_deleted_at = None, us_updated_at = now, us_display = display,
      us_created_at = now\<rparr>"

text \<open>The transaction that inserts the user and its role: the text of the exception, or the state.\<close>

definition insert_user_tx :: "web_ctx \<Rightarrow> string \<Rightarrow> string \<Rightarrow> json \<Rightarrow> string \<Rightarrow> string \<Rightarrow> admin_sys \<Rightarrow> string + admin_sys" where
  "insert_user_tx c i name display secret role m =
     (case bind_text display of
        None \<Rightarrow> Inl unbindable
      | Some d \<Rightarrow>
          (if exists_row (\<lambda>u. us_id u = i) (users (am_store m)) then Inl ''UNIQUE constraint failed: users.user_id''
           else if exists_row (\<lambda>u. us_username u = name \<and> us_deleted_at u = None) (users (am_store m))
           then Inl ''UNIQUE constraint failed: users.username''
           else if \<not> fk_user (Some (wc_user c)) (am_store m) then Inl ''FOREIGN KEY constraint failed''
           else if exists_row (\<lambda>a. ra_id a = ''ra_'' @ wc_ids c 0 2) (am_assignments m)
           then Inl ''UNIQUE constraint failed: role_assignments.assignment_id''
           else Inr ((set_store ((am_store m)\<lparr>users := users (am_store m) @
                    [new_user (wc_now c) i name d secret]\<rparr>) m)\<lparr>am_assignments := am_assignments m @
                    [\<lparr>ra_id = ''ra_'' @ wc_ids c 0 2, ra_user = i, ra_role = role, ra_deleted_at = None\<rparr>]\<rparr>)))"

definition admin_audit :: "web_ctx \<Rightarrow> string \<Rightarrow> string \<Rightarrow> jdict \<Rightarrow> (admin_sys, web_error, unit) action" where
  "admin_audit c uid event payload m =
     (case audit_write uid (wc_now c) \<lparr>ai_event = event,
             ai_actor = snapshot_for_user (wc_user c) None None (rq_remote (wc_request c)) (am_store m),
             ai_operation = None, ai_world = None, ai_payload = Some payload, ai_target = None,
             ai_annotation = None, ai_when = None\<rparr> (am_store m) of
        None \<Rightarrow> (Inl Escaped, m)
      | Some st \<Rightarrow> (Inr (), set_store st m))"

definition create_user :: "crypto \<Rightarrow> web_ctx \<Rightarrow> admin_handler" where
  "create_user cr c =
     bind_run (gets (\<lambda>m. case object_body (rq_json (wc_request c)) of
         None \<Rightarrow> None
       | Some body \<Rightarrow>
           if filled (jget ''username'' body) \<and> as_str (jget ''password'' body) \<noteq> None \<and>
              12 \<le> length (text_of ''password'' body) \<and> as_str (jget ''role_id'' body) \<noteq> None \<and>
              live_role (text_of ''role_id'' body) m then Some body else None)) (\<lambda>ok.
       case ok of
         None \<Rightarrow> invalid ''A username, 12-character password, and live role are required.''
       | Some body \<Rightarrow>
           (let i = ''u_'' @ wc_ids c 0 0; name = strip (text_of ''username'' body) in
            bind_run (gets (\<lambda>m. secret_store (wc_ids c 0 1) (hash_password cr (text_of ''password'' body)) (identity m))) (\<lambda>sec.
            bind_run (of_option Escaped sec) (\<lambda>(secret, a).
            then_run (change (\<lambda>m. m\<lparr>am_secrets := at_secrets a\<rparr>))
            (bind_run (gets (insert_user_tx c i name (body_get ''display_name'' body) secret (text_of ''role_id'' body))) (\<lambda>tx.
              case tx of
                Inl e \<Rightarrow> sql_refusal e
              | Inr m' \<Rightarrow>
                  then_run (change (\<lambda>_. m'))
                  (then_run (admin_audit c (wc_ids c 0 3) ''user_created''
                     [(''target_user_id'', JStr i), (''username'', JStr name)])
                  (ret (ok_response [(''user_id'', JStr i), (''username'', JStr name)] 201)))))))))"

definition is_superadmin :: "string \<Rightarrow> admin_sys \<Rightarrow> bool" where
  "is_superadmin uid m = has_role [''Superadmin''] uid (identity m)"

definition active_superadmins :: "admin_sys \<Rightarrow> nat" where
  "active_superadmins m = card (us_id ` set (filter (\<lambda>u. us_deleted_at u = None \<and> us_status u = US_ACTIVE \<and>
     is_superadmin (us_id u) m) (users (am_store m))))"

definition last_superadmin :: "string \<Rightarrow> admin_sys \<Rightarrow> bool" where
  "last_superadmin uid m \<longleftrightarrow> is_superadmin uid m \<and> active_superadmins m \<le> 1"

text \<open>The columns a request sets; \<open>None\<close> where the row would break the unique name of live users.\<close>

definition set_user_fields :: "int \<Rightarrow> jdict \<Rightarrow> user_row \<Rightarrow> user_row" where
  "set_user_fields now fs u =
     (let u1 = (if has_key ''username'' fs then u\<lparr>us_username := strip (text_of ''username'' fs)\<rparr> else u);
          u2 = (if has_key ''display_name'' fs then u1\<lparr>us_display := as_str (jget ''display_name'' fs)\<rparr> else u1);
          u3 = (if has_key ''status'' fs then u2\<lparr>us_status :=
                  (if text_of ''status'' fs = ''disabled'' then US_DISABLED else US_ACTIVE)\<rparr> else u2) in
      u3\<lparr>us_updated_at := now\<rparr>)"

definition write_user_fields :: "int \<Rightarrow> string \<Rightarrow> jdict \<Rightarrow> admin_sys \<Rightarrow> admin_sys option" where
  "write_user_fields now i fs m =
     (if has_key ''username'' fs \<and>
         exists_row (\<lambda>u. us_id u \<noteq> i \<and> us_username u = strip (text_of ''username'' fs) \<and> us_deleted_at u = None)
           (users (am_store m))
      then None else Some (on_users (\<lambda>u. us_id u = i) (set_user_fields now fs) m))"

definition apply_user_fields :: "web_ctx \<Rightarrow> string \<Rightarrow> jdict \<Rightarrow> admin_handler" where
  "apply_user_fields c i body =
     (let fs = filter (\<lambda>(k, v). k \<noteq> ''password'') body;
          done' = answer [(''user_id'', JStr i), (''updated'', JArr (map JStr (sort (map fst body))))] in
      if fs = [] then done'
      else
        bind_run (gets (write_user_fields (wc_now c) i fs)) (\<lambda>tx.
          case tx of
            None \<Rightarrow> sql_refusal ''UNIQUE constraint failed: users.username''
          | Some m' \<Rightarrow>
              then_run (change (\<lambda>_. m'))
              (then_run (when_run (jget ''status'' fs = Some (JStr ''disabled''))
                 (change (revoke_sessions (wc_now c) (wc_user c) (\<lambda>s. se_user s = i))))
              done')))"

definition change_other_password :: "crypto \<Rightarrow> web_ctx \<Rightarrow> string \<Rightarrow> jdict \<Rightarrow> admin_handler \<Rightarrow> admin_handler" where
  "change_other_password cr c i body k =
     (if \<not> has_key ''password'' body then k
      else if as_str (jget ''password'' body) = None \<or> length (text_of ''password'' body) < 12
      then invalid ''password must contain at least 12 characters.''
      else if i = wc_user c then invalid ''Use password change for your own account.''
      else
        bind_run (auth_call (wc_now c) (change_password cr (wc_ids c 0) (wc_now c) i (text_of ''password'' body) (wc_user c)))
          (\<lambda>r. case r of Inl _ \<Rightarrow> escape | Inr _ \<Rightarrow> k))"

definition update_user_route :: "crypto \<Rightarrow> web_ctx \<Rightarrow> string \<Rightarrow> admin_handler" where
  "update_user_route cr c i =
     (case object_body (rq_json (wc_request c)) of
        None \<Rightarrow> invalid ''Editable user fields are required.''
      | Some body \<Rightarrow>
          if body = [] \<or> \<not> only_keys [''display_name'', ''status'', ''password'', ''username''] body
          then invalid ''Editable user fields are required.''
          else
            bind_run (gets (user_live i)) (\<lambda>live.
            if \<not> live then refuse ''NOT_FOUND'' ''User not found.'' 404
            else if has_key ''username'' body \<and> \<not> filled (jget ''username'' body)
            then invalid ''username must be a non-empty string.''
            else if has_key ''display_name'' body \<and> body_get ''display_name'' body \<noteq> JNull \<and>
                    as_str (jget ''display_name'' body) = None
            then invalid ''display_name must be a string or null.''
            else
              bind_run (of_option Escaped (if has_key ''status'' body
                  then member (body_get ''status'' body) [''active'', ''disabled''] else Some True)) (\<lambda>known.
              if \<not> known then invalid ''status must be active or disabled.''
              else
                bind_run (gets (last_superadmin i)) (\<lambda>last.
                if jget ''status'' body = Some (JStr ''disabled'') \<and> last
                then refuse ''FORBIDDEN_LAST_SUPERADMIN'' ''Cannot disable the last active Superadmin.'' 409
                else change_other_password cr c i body (apply_user_fields c i body)))))"

definition delete_user_tx :: "web_ctx \<Rightarrow> string \<Rightarrow> admin_sys \<Rightarrow> admin_sys" where
  "delete_user_tx c i m =
     revoke_sessions (wc_now c) (wc_user c) (\<lambda>s. se_user s = i)
       ((on_users (\<lambda>u. us_id u = i) (\<lambda>u. u\<lparr>us_deleted_at := Some (wc_now c), us_updated_at := wc_now c\<rparr>) m)
        \<lparr>am_assignments := update_rows (\<lambda>a. ra_user a = i \<and> ra_deleted_at a = None)
           (\<lambda>a. a\<lparr>ra_deleted_at := Some (wc_now c)\<rparr>) (am_assignments m)\<rparr>)"

definition delete_user :: "web_ctx \<Rightarrow> string \<Rightarrow> admin_handler" where
  "delete_user c i =
     bind_run (gets (user_live i)) (\<lambda>live.
     if \<not> live then refuse ''NOT_FOUND'' ''User not found.'' 404
     else
       bind_run (gets (last_superadmin i)) (\<lambda>last.
       if last then refuse ''FORBIDDEN_LAST_SUPERADMIN'' ''Cannot delete the last active Superadmin.'' 409
       else then_run (change (delete_user_tx c i))
              (answer [(''user_id'', JStr i), (''deleted'', JBool True)])))"

section \<open>Roles\<close>

definition role_json :: "row \<Rightarrow> json option" where
  "role_json r =
     (case (col ''created_at'' r, col ''updated_at'' r) of
        (JInt a, JInt b) \<Rightarrow>
          (case (iso_json (Some a), iso_json (Some b)) of
             (Some created, Some updated) \<Rightarrow>
               Some (JObj [(''role_id'', col ''role_id'' r), (''name'', col ''name'' r),
                 (''description'', col ''description'' r), (''is_system_role'', JBool (ro_system (role_of r))),
                 (''version'', col ''version'' r), (''created_at'', created), (''updated_at'', updated)])
           | _ \<Rightarrow> None)
      | _ \<Rightarrow> None)"

definition list_roles :: admin_handler where
  "list_roles =
     bind_run (gets (\<lambda>m. those (map role_json
       (sort_key (\<lambda>r. (if ro_system (role_of r) then 0 else 1 :: int, ro_name (role_of r)))
         (filter (\<lambda>r. ro_deleted_at (role_of r) = None) (role_rows m)))))) (\<lambda>rows.
     bind_run (of_option Escaped rows) (\<lambda>js. answer [(''roles'', JArr js)]))"

definition insert_role_tx :: "int \<Rightarrow> string \<Rightarrow> string \<Rightarrow> json \<Rightarrow> admin_sys \<Rightarrow> string + admin_sys" where
  "insert_role_tx now i name description m =
     (case bind_text description of
        None \<Rightarrow> Inl unbindable
      | Some d \<Rightarrow>
          (if exists_row (\<lambda>r. ro_id (role_of r) = i) (role_rows m) then Inl ''UNIQUE constraint failed: roles.role_id''
           else if exists_row (\<lambda>r. ro_name (role_of r) = name \<and> ro_deleted_at (role_of r) = None) (role_rows m)
           then Inl ''UNIQUE constraint failed: roles.name''
           else Inr (set_role_rows (role_rows m @ [role_cells now i (JStr name) (jopt_str d) False]) m)))"

definition create_role :: "web_ctx \<Rightarrow> admin_handler" where
  "create_role c =
     (case object_body (rq_json (wc_request c)) of
        None \<Rightarrow> invalid ''A role name is required.''
      | Some body \<Rightarrow>
          if \<not> filled (jget ''name'' body) then invalid ''A role name is required.''
          else
            (let i = ''r_'' @ wc_ids c 0 0; name = strip (text_of ''name'' body) in
             bind_run (gets (insert_role_tx (wc_now c) i name (body_get ''description'' body))) (\<lambda>tx.
               case tx of
                 Inl e \<Rightarrow> sql_refusal e
               | Inr m' \<Rightarrow>
                   then_run (change (\<lambda>_. m'))
                     (ret (ok_response [(''role_id'', JStr i), (''name'', JStr name), (''version'', JInt 1)] 201)))))"

definition find_role :: "string \<Rightarrow> admin_sys \<Rightarrow> row option" where
  "find_role i m = find_row (\<lambda>r. ro_id (role_of r) = i \<and> ro_deleted_at (role_of r) = None) (role_rows m)"

text \<open>An edit of a role through the configuration service.\<close>

definition role_update :: "web_ctx \<Rightarrow> string \<Rightarrow> int \<Rightarrow> jdict \<Rightarrow> VersionedUpdate" where
  "role_update c i version fs = \<lparr>vu_entity = CE_ROLES, vu_row = i, vu_expected = version, vu_fields = fs,
     vu_actor_type = ACTOR_USER, vu_actor = Some (wc_user c)\<rparr>"

definition config_call :: "web_ctx \<Rightarrow> VersionedUpdate \<Rightarrow> (admin_sys, web_error, config_error + row \<times> op_row) action" where
  "config_call c v m =
     (case update_versioned_with_operation (wc_ids c) (wc_now c) v (am_config m) of
        (r, cf) \<Rightarrow> (Inr r, m\<lparr>am_config := cf\<rparr>))"

definition update_role :: "web_ctx \<Rightarrow> string \<Rightarrow> admin_handler" where
  "update_role c i =
     (case object_body (rq_json (wc_request c)) of
        None \<Rightarrow> invalid ''A version and editable role fields are required.''
      | Some body \<Rightarrow>
          (case jget ''version'' body of
             Some (JInt version) \<Rightarrow>
               if \<not> only_keys [''version'', ''name'', ''description''] body
               then invalid ''A version and editable role fields are required.''
               else
                 bind_run (gets (find_role i)) (\<lambda>row.
                 case row of
                   None \<Rightarrow> refuse ''NOT_FOUND'' ''Role not found.'' 404
                 | Some r \<Rightarrow>
                     if ro_system (role_of r)
                     then refuse ''CONFIG_VERSION_CONFLICT'' ''Baseline roles are immutable.'' 409
                     else
                       (let fs = map (\<lambda>k. (k, body_get k body))
                              (filter (\<lambda>k. has_key k body) [''name'', ''description'']) in
                        bind_run (config_call c (role_update c i version fs)) (\<lambda>res.
                          case res of
                            Inr (updated, op) \<Rightarrow>
                              ret (with_meta [(''op_id'', JStr (op_id op))]
                                (ok_response [(''role'', JObj updated), (''operation'', JObj (operation_json op))] 200))
                          | Inl ConfigurationConflictError \<Rightarrow>
                              refuse ''CONFIG_VERSION_CONFLICT'' ''Role changed; reload and retry.'' 409
                          | Inl (MissingRow _) \<Rightarrow> refuse ''NOT_FOUND'' ''Role not found.'' 404
                          | Inl (ConstraintFailed _) \<Rightarrow> escape
                          | Inl (OpFailed _) \<Rightarrow> escape
                          | Inl e \<Rightarrow> invalid (config_error_text e))))
           | _ \<Rightarrow> invalid ''A version and editable role fields are required.''))"

definition delete_role :: "web_ctx \<Rightarrow> string \<Rightarrow> admin_handler" where
  "delete_role c i =
     bind_run (gets (find_role i)) (\<lambda>row.
     case row of
       None \<Rightarrow> refuse ''NOT_FOUND'' ''Role not found.'' 404
     | Some r \<Rightarrow>
         if ro_system (role_of r)
         then refuse ''CONFIG_VERSION_CONFLICT'' ''Baseline roles are immutable.'' 409
         else
           bind_run (gets (\<lambda>m. exists_row (\<lambda>a. ra_role a = i \<and> ra_deleted_at a = None) (am_assignments m))) (\<lambda>held.
           if held then refuse ''CONFIG_VERSION_CONFLICT'' ''Role still has active holders.'' 409
           else
             bind_run (of_option Escaped (case col ''version'' r of JInt n \<Rightarrow> Some n | _ \<Rightarrow> None)) (\<lambda>version.
             bind_run (config_call c (role_update c i version
                 [(''deleted_at'', JInt (wc_now c)), (''deleted_by'', JStr (wc_user c))])) (\<lambda>res.
               case res of
                 Inr (_, op) \<Rightarrow> answer [(''role_id'', JStr i), (''deleted'', JBool True),
                                 (''operation'', JObj (operation_json op))]
               | Inl ConfigurationConflictError \<Rightarrow>
                   refuse ''CONFIG_VERSION_CONFLICT'' ''Role changed; reload and retry.'' 409
               | Inl (MissingRow _) \<Rightarrow>
                   refuse ''CONFIG_VERSION_CONFLICT'' ''Role changed; reload and retry.'' 409
               | Inl _ \<Rightarrow> escape))))"

section \<open>Permissions\<close>

definition list_role_permissions :: "string \<Rightarrow> admin_handler" where
  "list_role_permissions i =
     bind_run (gets (live_role i)) (\<lambda>live.
     if \<not> live then refuse ''NOT_FOUND'' ''Role not found.'' 404
     else
       bind_run (gets (\<lambda>m. sort_key pe_category
           (filter (\<lambda>p. pe_role p = Some i \<and> pe_deleted_at p = None) (am_permissions m)))) (\<lambda>ps.
       answer [(''permissions'', JArr (map (\<lambda>p. JObj [(''permission_id'', JStr (pe_id p)),
         (''action_category'', JStr (pe_category p)), (''world_id'', jopt_str (pe_world p)),
         (''granted_at'', JInt (pe_granted_at p)), (''granted_by'', JStr (pe_granted_by p))]) ps))]))"

definition world_live :: "string \<Rightarrow> admin_sys \<Rightarrow> bool" where
  "world_live w m = exists_row (\<lambda>r. wo_id r = w \<and> wo_deleted_at r = None) (worlds (am_store m))"

text \<open>A lookup with a value of the request as its parameter: none is asked for null.\<close>

definition asked_for :: "json \<Rightarrow> (string \<Rightarrow> admin_sys \<Rightarrow> bool) \<Rightarrow> (admin_sys, web_error, bool) action" where
  "asked_for j p =
     bind_run (of_option Escaped (bind_text j)) (\<lambda>t.
       case t of None \<Rightarrow> ret True | Some i \<Rightarrow> gets (p i))"

definition grant_permission :: "web_ctx \<Rightarrow> admin_handler" where
  "grant_permission c =
     (case object_body (rq_json (wc_request c)) of
        None \<Rightarrow> invalid ''A JSON object is required.''
      | Some body \<Rightarrow>
          (let role = body_get ''role_id'' body; user = body_get ''user_id'' body; world = body_get ''world_id'' body;
               category = text_of ''action_category'' body in
           if (role = JNull) = (user = JNull) \<or> category = []
           then invalid ''Exactly one role or user and an action category are required.''
           else
             bind_run (asked_for role live_role) (\<lambda>role_ok.
             if \<not> role_ok then refuse ''NOT_FOUND'' ''Role not found.'' 404
             else bind_run (asked_for user user_live) (\<lambda>user_ok.
             if \<not> user_ok then refuse ''NOT_FOUND'' ''User not found.'' 404
             else bind_run (asked_for world world_live) (\<lambda>world_ok.
             if \<not> world_ok then refuse ''NOT_FOUND'' ''World not found.'' 404
             else
               (let i = ''perm_'' @ wc_ids c 0 0; text = (\<lambda>j. case bind_text j of Some (Some t) \<Rightarrow> Some t | _ \<Rightarrow> None) in
                bind_run (gets (\<lambda>m. if exists_row (\<lambda>p. pe_id p = i) (am_permissions m)
                    then Some ''UNIQUE constraint failed: permissions.permission_id''
                    else if \<not> fk_user (Some (wc_user c)) (am_store m) then Some ''FOREIGN KEY constraint failed''
                    else None)) (\<lambda>failed.
                  case failed of
                    Some e \<Rightarrow> sql_refusal e
                  | None \<Rightarrow>
                      then_run (change (\<lambda>m. m\<lparr>am_permissions := am_permissions m @
                        [\<lparr>pe_id = i, pe_role = text role, pe_user = text user, pe_category = category,
                          pe_world = text world, pe_granted_at = wc_now c, pe_granted_by = wc_user c,
                          pe_deleted_at = None, pe_updated_at = wc_now c\<rparr>]\<rparr>))
                      (ret (ok_response [(''permission_id'', JStr i)] 201)))))))))"

definition revoke_permission :: "web_ctx \<Rightarrow> string \<Rightarrow> admin_handler" where
  "revoke_permission c i =
     bind_run (gets (\<lambda>m. exists_row (\<lambda>p. pe_id p = i \<and> pe_deleted_at p = None) (am_permissions m))) (\<lambda>changed.
     then_run (change (\<lambda>m. m\<lparr>am_permissions := update_rows (\<lambda>p. pe_id p = i \<and> pe_deleted_at p = None)
         (\<lambda>p. p\<lparr>pe_deleted_at := Some (wc_now c), pe_updated_at := wc_now c\<rparr>) (am_permissions m)\<rparr>))
     (if \<not> changed then refuse ''NOT_FOUND'' ''Permission not found.'' 404
      else answer [(''permission_id'', JStr i), (''revoked'', JBool True)]))"

section \<open>Devices and sessions\<close>

fun device_status :: "DeviceStatus \<Rightarrow> string" where
  "device_status UNRECOGNIZED = ''unrecognized''"
| "device_status REGISTERED = ''registered''"

definition device_json :: "device_row \<Rightarrow> json option" where
  "device_json d =
     (case (iso_json (dv_last_seen d), iso_json (Some (dv_created_at d)), iso_json (Some (dv_updated_at d))) of
        (Some seen, Some created, Some updated) \<Rightarrow>
          Some (JObj [(''device_id'', JStr (dv_id d)), (''device_name'', JStr (dv_name d)),
            (''ip_address'', JStr (dv_ip d)), (''owner'', jopt_str (dv_owner d)),
            (''status'', JStr (device_status (dv_status d))), (''last_seen_at'', seen),
            (''created_at'', created), (''updated_at'', updated)])
      | _ \<Rightarrow> None)"

definition list_devices :: admin_handler where
  "list_devices =
     bind_run (gets (\<lambda>m. those (map device_json
       (sort_key (\<lambda>d. case dv_last_seen d of None \<Rightarrow> (1 :: int, 0) | Some t \<Rightarrow> (0, - t))
         (filter (\<lambda>d. dv_deleted_at d = None) (am_devices m)))))) (\<lambda>rows.
     bind_run (of_option Escaped rows) (\<lambda>js. answer [(''devices'', JArr js)]))"

definition set_device_fields :: "int \<Rightarrow> jdict \<Rightarrow> device_row \<Rightarrow> device_row" where
  "set_device_fields now fs d =
     (let d1 = (if has_key ''device_name'' fs then d\<lparr>dv_name := text_of ''device_name'' fs\<rparr> else d);
          d2 = (if has_key ''status'' fs then d1\<lparr>dv_status :=
                  (if text_of ''status'' fs = ''registered'' then REGISTERED else UNRECOGNIZED)\<rparr> else d1) in
      d2\<lparr>dv_updated_at := now\<rparr>)"

definition update_device :: "web_ctx \<Rightarrow> string \<Rightarrow> admin_handler" where
  "update_device c i =
     (case object_body (rq_json (wc_request c)) of
        None \<Rightarrow> invalid ''Editable device fields are required.''
      | Some body \<Rightarrow>
          if body = [] \<or> \<not> only_keys [''device_name'', ''status''] body
          then invalid ''Editable device fields are required.''
          else if has_key ''device_name'' body \<and> \<not> filled (jget ''device_name'' body)
          then invalid ''device_name must be a non-empty string.''
          else
            bind_run (of_option Escaped (if has_key ''status'' body
                then member (body_get ''status'' body) [''registered'', ''unrecognized'', ''revoked''] else Some True)) (\<lambda>known.
            if \<not> known then invalid ''status is invalid.''
            else
              bind_run (gets (\<lambda>m. exists_row (\<lambda>d. dv_id d = i \<and> dv_deleted_at d = None) (am_devices m))) (\<lambda>live.
              if \<not> live then refuse ''NOT_FOUND'' ''Device not found.'' 404
              else if jget ''status'' body = Some (JStr ''revoked'') then
                then_run (change (\<lambda>m. m\<lparr>am_devices := update_rows (\<lambda>d. dv_id d = i)
                    (\<lambda>d. d\<lparr>dv_deleted_at := Some (wc_now c), dv_updated_at := wc_now c\<rparr>) (am_devices m)\<rparr>))
                (then_run (change (revoke_sessions (wc_now c) (wc_user c) (\<lambda>s. se_device s = Some i)))
                (answer [(''device_id'', JStr i), (''status'', JStr ''revoked'')]))
              else
                (let fs = map (\<lambda>(k, v). (k, case v of JStr s \<Rightarrow> JStr (strip s) | _ \<Rightarrow> v)) body in
                 then_run (change (\<lambda>m. m\<lparr>am_devices := update_rows (\<lambda>d. dv_id d = i)
                    (set_device_fields (wc_now c) fs) (am_devices m)\<rparr>))
                 (answer ((''device_id'', JStr i) # fs))))))"

definition session_json :: "session_row \<Rightarrow> json option" where
  "session_json s =
     (case (iso_json (Some (se_expires_at s)), iso_json (Some (se_last_activity s)), iso_json (se_deleted_at s),
            iso_json (Some (se_created_at s))) of
        (Some expires, Some active, Some gone', Some created) \<Rightarrow>
          Some (JObj [(''session_id'', JStr (se_id s)), (''user_id'', JStr (se_user s)),
            (''ip_address'', JStr (se_ip s)), (''expires_at'', expires), (''last_activity_at'', active),
            (''deleted_at'', gone'), (''created_at'', created)])
      | _ \<Rightarrow> None)"

definition device_sessions :: "string \<Rightarrow> admin_handler" where
  "device_sessions i =
     bind_run (gets (\<lambda>m. exists_row (\<lambda>d. dv_id d = i) (am_devices m))) (\<lambda>known.
     if \<not> known then refuse ''NOT_FOUND'' ''Device not found.'' 404
     else
       bind_run (gets (\<lambda>m. those (map session_json (take 500
         (sort_key (\<lambda>s. - se_created_at s) (filter (\<lambda>s. se_device s = Some i) (am_sessions m))))))) (\<lambda>rows.
       bind_run (of_option Escaped rows) (\<lambda>js. answer [(''sessions'', JArr js)])))"

definition activity_json :: "session_row \<Rightarrow> json option" where
  "activity_json s =
     (case (iso_json (Some (se_expires_at s)), iso_json (se_step_up_at s), iso_json (Some (se_last_activity s)),
            iso_json (Some (se_created_at s))) of
        (Some expires, Some step, Some active, Some created) \<Rightarrow>
          Some (JObj [(''session_id'', JStr (se_id s)), (''device_id'', jopt_str (se_device s)),
            (''ip_address'', JStr (se_ip s)), (''expires_at'', expires), (''step_up_confirmed_at'', step),
            (''last_activity_at'', active), (''created_at'', created)])
      | _ \<Rightarrow> None)"

definition session_activity :: "crypto \<Rightarrow> web_ctx \<Rightarrow> admin_handler" where
  "session_activity cr c =
     bind_run (gets (\<lambda>m. find_row (\<lambda>s. se_id s = hash_token cr (sn_token (wc_session c))) (am_sessions m))) (\<lambda>row.
     case row of
       None \<Rightarrow> refuse ''NOT_FOUND'' ''Session activity is unavailable.'' 404
     | Some s \<Rightarrow> bind_run (of_option Escaped (activity_json s)) (\<lambda>j. answer [(''activity'', j)]))"

end
