(* ===== verification/Log_Tail.thy ===== *)
theory Log_Tail
  imports Realtime Text_Tools
begin

text \<open>
  The log lines of a running world: the line readers, the bounded rings with their subscribers and
  the session files of \<open>app/platform/process/tailing.py\<close>, and the ring behind the log stream,
  \<open>LogFanout\<close> of \<open>app/services/realtime.py\<close>.  A character stands for one code point below 256, so
  that UTF-8 takes one or two bytes of it.  Threads are turns: a reader appends a line under the
  lock and hands it to the subscribers after it, a worker takes one line of its queue; other turns
  may come between.
\<close>

section \<open>Which lines are kept\<close>

definition word_char :: "char \<Rightarrow> bool" where
  "word_char c \<longleftrightarrow>
     (let n = (of_char c :: nat) in
      48 \<le> n \<and> n \<le> 57 \<or> 65 \<le> n \<and> n \<le> 90 \<or> n = 95 \<or> 97 \<le> n \<and> n \<le> 122 \<or>
      n \<in> {170, 178, 179, 181, 185, 186, 188, 189, 190} \<or> 192 \<le> n \<and> n \<noteq> 215 \<and> n \<noteq> 247)"

text \<open>\<open>search\<close> of a pattern that begins with a word boundary and a letter.\<close>

fun search :: "(string \<Rightarrow> bool) \<Rightarrow> bool \<Rightarrow> string \<Rightarrow> bool" where
  "search p inside [] = False"
| "search p inside (c # s) = (\<not> inside \<and> p (c # s) \<or> search p (word_char c) s)"

fun ends_word :: "string \<Rightarrow> bool" where
  "ends_word [] = True"
| "ends_word (c # s) = (\<not> word_char c)"

definition word_at :: "string \<Rightarrow> string \<Rightarrow> bool" where
  "word_at w s \<longleftrightarrow> starts_with w s \<and> ends_word (drop (length w) s)"

definition done_at :: "string \<Rightarrow> bool" where
  "done_at s \<longleftrightarrow> starts_with ''done'' s \<and> starts_with ''('' (dropWhile is_blank (drop 4 s))"

definition important_words :: "string list" where
  "important_words = [''starting minecraft server'', ''ready'', ''warning'', ''warn'', ''error'', ''fatal'',
     ''exception'', ''traceback'', ''crash'', ''crashed'', ''failed'', ''failure'']"

definition important_line :: "string \<Rightarrow> bool" where
  "important_line line = search (\<lambda>s. done_at s \<or> list_ex (\<lambda>w. word_at w s) important_words) False (lower line)"

definition verbose_logging_enabled :: "string option \<Rightarrow> bool" where
  "verbose_logging_enabled var =
     (lower (strip (case var of None \<Rightarrow> ''false'' | Some v \<Rightarrow> v)) \<in> {''1'', ''true'', ''yes'', ''on''})"

definition is_debug_log_line :: "string \<Rightarrow> string \<Rightarrow> bool" where
  "is_debug_log_line channel line \<longleftrightarrow>
     lower (strip channel) = ''debug'' \<or> search (word_at ''debug'') False (lower line)"

definition retain_log_line :: "bool \<Rightarrow> string \<Rightarrow> string \<Rightarrow> bool" where
  "retain_log_line verbose channel line =
     (if verbose then True
      else if important_line line then True
      else if is_debug_log_line channel line then False
      else lower (strip channel) \<notin> {''stdout'', ''stderr''})"

section \<open>The length of a line\<close>

definition utf8_width :: "char \<Rightarrow> nat" where
  "utf8_width c = (if (of_char c :: nat) < 128 then 1 else 2)"

definition utf8_length :: "string \<Rightarrow> nat" where
  "utf8_length s = sum_list (map utf8_width s)"

text \<open>The characters that fit whole into the first bytes: a cut one is ignored by the decoder.\<close>

fun utf8_take :: "nat \<Rightarrow> string \<Rightarrow> string" where
  "utf8_take n [] = []"
| "utf8_take n (c # s) = (if utf8_width c \<le> n then c # utf8_take (n - utf8_width c) s else [])"

definition truncated_mark :: string where
  "truncated_mark = '' ...[line truncated]''"

definition truncate_log_line :: "string \<Rightarrow> nat \<Rightarrow> string" where
  "truncate_log_line line n =
     (if utf8_length line \<le> n then line
      else if n < utf8_length truncated_mark then take n truncated_mark
      else utf8_take (n - utf8_length truncated_mark) line @ truncated_mark)"

section \<open>Session files\<close>

record DurableSessionLog =
  dl_dir :: string
  dl_session :: string

type_synonym log_files = "string \<Rightarrow> string option"

definition append_text :: "string \<Rightarrow> string \<Rightarrow> log_files \<Rightarrow> log_files" where
  "append_text path t fs = fs(path := Some ((case fs path of None \<Rightarrow> [] | Some x \<Rightarrow> x) @ t))"

text \<open>A run of characters other than letters, digits, \<open>_\<close> and \<open>-\<close> becomes one \<open>_\<close>.\<close>

definition safe_char :: "char \<Rightarrow> bool" where
  "safe_char c \<longleftrightarrow> (let n = (of_char c :: nat) in
     48 \<le> n \<and> n \<le> 57 \<or> 65 \<le> n \<and> n \<le> 90 \<or> n = 95 \<or> 97 \<le> n \<and> n \<le> 122 \<or> n = 45)"

fun squeeze :: "bool \<Rightarrow> string \<Rightarrow> string" where
  "squeeze bad [] = []"
| "squeeze bad (c # s) =
     (if safe_char c then c # squeeze False s
      else if bad then squeeze True s else CHR ''_'' # squeeze True s)"

definition safe_channel :: "string \<Rightarrow> string" where
  "safe_channel channel = (let t = strip_char (CHR ''_'') (squeeze False channel) in if t = [] then ''unknown'' else t)"

definition session_path :: "DurableSessionLog \<Rightarrow> string" where
  "session_path d = path_join (dl_dir d) (dl_session d @ ''.log'')"

definition channel_path :: "DurableSessionLog \<Rightarrow> string \<Rightarrow> string" where
  "channel_path d channel = path_join (dl_dir d) (dl_session d @ ''.'' @ safe_channel channel @ ''.log'')"

definition durable_write :: "DurableSessionLog \<Rightarrow> string \<Rightarrow> string \<Rightarrow> log_files \<Rightarrow> log_files" where
  "durable_write d channel line fs =
     append_text (channel_path d channel) (line @ [CHR 0x0A])
       (append_text (session_path d) (''['' @ channel @ ''] '' @ line @ [CHR 0x0A]) fs)"

definition session_log_for :: "string option \<Rightarrow> string \<Rightarrow> DurableSessionLog option" where
  "session_log_for dir session =
     (case dir of
        None \<Rightarrow> None
      | Some d \<Rightarrow> if d = [] \<or> session = [] then None else Some \<lparr>dl_dir = d, dl_session = session\<rparr>)"

section \<open>Subscribers\<close>

record Subscription =
  sb_queue :: "(nat \<times> string) list"
  sb_dropped :: nat
  sb_closed :: bool

definition subscriber_capacity :: nat where
  "subscriber_capacity = 256"

definition subscription_new :: Subscription where
  "subscription_new = \<lparr>sb_queue = [], sb_dropped = 0, sb_closed = False\<rparr>"

definition submit :: "nat \<Rightarrow> string \<Rightarrow> Subscription \<Rightarrow> Subscription" where
  "submit n line sb =
     (if sb_closed sb then sb
      else if length (sb_queue sb) < subscriber_capacity then sb\<lparr>sb_queue := sb_queue sb @ [(n, line)]\<rparr>
      else sb\<lparr>sb_dropped := sb_dropped sb + 1\<rparr>)"

text \<open>One turn of the worker: \<open>accepts\<close> says whether the callback returns or raises.  The first part
  is what the callback took.\<close>

definition worker_turn :: "(nat \<times> string \<Rightarrow> bool) \<Rightarrow> Subscription \<Rightarrow> (nat \<times> string) option \<times> Subscription" where
  "worker_turn accepts sb =
     (if sb_closed sb then (None, sb)
      else case sb_queue sb of
        [] \<Rightarrow> (None, sb)
      | x # q \<Rightarrow>
          (if accepts x then (Some x, sb\<lparr>sb_queue := q\<rparr>)
           else (None, sb\<lparr>sb_queue := q, sb_dropped := sb_dropped sb + 1\<rparr>)))"

definition close_subscription :: "Subscription \<Rightarrow> Subscription" where
  "close_subscription sb = sb\<lparr>sb_closed := True\<rparr>"

section \<open>Rings\<close>

text \<open>The subscriptions are objects the reader and the workers share; the ring lists their
  identities, which are positions among the objects.\<close>

record RingBuffer =
  rb_maxlen :: nat
  rb_buffer :: "(nat \<times> string) list"
  rb_next :: nat
  rb_subscribers :: "nat list"
  rb_objects :: "Subscription list"

definition LOG_LINE_BUFFER_LINES :: nat where
  "LOG_LINE_BUFFER_LINES = 5000"

definition ring_new :: "nat \<Rightarrow> RingBuffer" where
  "ring_new n = \<lparr>rb_maxlen = n, rb_buffer = [], rb_next = 0, rb_subscribers = [], rb_objects = []\<rparr>"

text \<open>The part under the lock, which reads the list of subscribers, and the part after it, which
  reads the counter again.\<close>

definition append_locked :: "string \<Rightarrow> RingBuffer \<Rightarrow> RingBuffer" where
  "append_locked line rb =
     rb\<lparr>rb_buffer := deque_append (rb_maxlen rb) (rb_buffer rb) (rb_next rb, line), rb_next := rb_next rb + 1\<rparr>"

definition submit_all :: "nat list \<Rightarrow> string \<Rightarrow> RingBuffer \<Rightarrow> RingBuffer" where
  "submit_all subs line rb =
     foldl (\<lambda>r i. r\<lparr>rb_objects := (rb_objects r)[i := submit (rb_next r - 1) line (rb_objects r ! i)]\<rparr>) rb subs"

definition ring_append :: "string \<Rightarrow> RingBuffer \<Rightarrow> RingBuffer" where
  "ring_append line rb = submit_all (rb_subscribers rb) line (append_locked line rb)"

definition ring_tail :: "nat \<Rightarrow> RingBuffer \<Rightarrow> (nat \<times> string) list" where
  "ring_tail since rb = filter (\<lambda>(n, line). since \<le> n) (rb_buffer rb)"

definition ring_trimmed :: "nat \<Rightarrow> RingBuffer \<Rightarrow> bool" where
  "ring_trimmed since rb = (case rb_buffer rb of [] \<Rightarrow> 0 < since | (n, line) # _ \<Rightarrow> since < n)"

definition max_line_no :: "RingBuffer \<Rightarrow> int" where
  "max_line_no rb = int (rb_next rb) - 1"

definition ring_subscribe :: "RingBuffer \<Rightarrow> nat \<times> RingBuffer" where
  "ring_subscribe rb =
     (let i = length (rb_objects rb) in
      (i, rb\<lparr>rb_objects := rb_objects rb @ [subscription_new], rb_subscribers := rb_subscribers rb @ [i]\<rparr>))"

definition ring_unsubscribe :: "nat \<Rightarrow> RingBuffer \<Rightarrow> RingBuffer" where
  "ring_unsubscribe i rb =
     rb\<lparr>rb_subscribers := remove1 i (rb_subscribers rb),
        rb_objects := (rb_objects rb)[i := close_subscription (rb_objects rb ! i)]\<rparr>"

definition ring_clear :: "RingBuffer \<Rightarrow> RingBuffer" where
  "ring_clear rb = rb\<lparr>rb_buffer := []\<rparr>"

record LogRingBuffer =
  lr_maxlen :: nat
  lr_channels :: "(string \<times> RingBuffer) list"

definition ring_channel :: "string \<Rightarrow> LogRingBuffer \<Rightarrow> RingBuffer \<times> LogRingBuffer" where
  "ring_channel name lr =
     (case map_of (lr_channels lr) name of
        Some rb \<Rightarrow> (rb, lr)
      | None \<Rightarrow> (let rb = ring_new (lr_maxlen lr) in (rb, lr\<lparr>lr_channels := lr_channels lr @ [(name, rb)]\<rparr>)))"

definition channel_append :: "string \<Rightarrow> string \<Rightarrow> LogRingBuffer \<Rightarrow> LogRingBuffer" where
  "channel_append name line lr =
     (case ring_channel name lr of
        (rb, lr1) \<Rightarrow> lr1\<lparr>lr_channels := dict_set name (ring_append line rb) (lr_channels lr1)\<rparr>)"

definition ring_channels :: "LogRingBuffer \<Rightarrow> string list" where
  "ring_channels lr = map fst (lr_channels lr)"

section \<open>Ingestion\<close>

datatype log_ring = Channels LogRingBuffer | Single RingBuffer

fun put_line :: "string \<Rightarrow> string \<Rightarrow> log_ring \<Rightarrow> log_ring" where
  "put_line channel line (Channels lr) = Channels (channel_append channel line lr)"
| "put_line channel line (Single rb) = Single (ring_append line rb)"

definition ingest_log_line ::
  "bool \<Rightarrow> string \<Rightarrow> string \<Rightarrow> DurableSessionLog option \<Rightarrow> log_ring \<times> log_files \<Rightarrow> bool \<times> log_ring \<times> log_files" where
  "ingest_log_line verbose channel line durable st =
     (if \<not> retain_log_line verbose channel line then (False, st)
      else (True, put_line channel line (fst st),
            case durable of None \<Rightarrow> snd st | Some d \<Rightarrow> durable_write d channel line (snd st)))"

record LogStreamTailer =
  lt_world :: string
  lt_ring :: "jdict list"
  lt_verbose :: bool
  lt_durable :: "DurableSessionLog option"

definition tailer_new :: "string option \<Rightarrow> string \<Rightarrow> string \<Rightarrow> string option \<Rightarrow> LogStreamTailer" where
  "tailer_new var world session dir = \<lparr>lt_world = world, lt_ring = [],
     lt_verbose = verbose_logging_enabled var, lt_durable = session_log_for dir session\<rparr>"

definition process_pipe_output ::
  "string \<Rightarrow> string \<Rightarrow> LogStreamTailer \<times> log_files \<Rightarrow> bool \<times> LogStreamTailer \<times> log_files" where
  "process_pipe_output channel line st =
     (case st of (t, fs) \<Rightarrow>
        if \<not> retain_log_line (lt_verbose t) channel line then (False, t, fs)
        else (True,
          t\<lparr>lt_ring := deque_append LOG_LINE_BUFFER_LINES (lt_ring t)
              [(''world_id'', JStr (lt_world t)), (''channel'', JStr channel), (''line'', JStr line)]\<rparr>,
          case lt_durable t of None \<Rightarrow> fs | Some d \<Rightarrow> durable_write d channel line fs))"

section \<open>The line reader\<close>

text \<open>\<open>readline\<close> with \<open>newline=''\<close>: a line ends with \<open>\n\<close>, \<open>\r\<close> or \<open>\r\n\<close> and keeps its end.\<close>

fun raw_lines :: "string \<Rightarrow> string list" where
  "raw_lines [] = []"
| "raw_lines (c # s) =
     (if c = CHR 0x0A then [c] # raw_lines s
      else if c = CHR 0x0D then
        (case s of
           d # s' \<Rightarrow> if d = CHR 0x0A then [c, d] # raw_lines s' else [c] # raw_lines s
         | [] \<Rightarrow> [[c]])
      else (case raw_lines s of [] \<Rightarrow> [[c]] | l # ls \<Rightarrow> (c # l) # ls))"

definition rstrip_newline :: "string \<Rightarrow> string" where
  "rstrip_newline s = rev (dropWhile (\<lambda>c. c = CHR 0x0A \<or> c = CHR 0x0D) (rev s))"

record ProcessLineReader =
  lr_world :: string
  lr_session :: string
  lr_channel :: string
  lr_max_bytes :: nat
  lr_verbose :: bool
  lr_durable :: "DurableSessionLog option"

record reader_state =
  rd_ring :: log_ring
  rd_files :: log_files
  rd_sunk :: "string list"

definition read_line :: "ProcessLineReader \<Rightarrow> string \<Rightarrow> string" where
  "read_line r raw = truncate_log_line (rstrip_newline raw) (lr_max_bytes r)"

text \<open>The body of the loop for one line; the sink is called with each line that is kept.\<close>

definition reader_turn :: "ProcessLineReader \<Rightarrow> reader_state \<Rightarrow> string \<Rightarrow> reader_state" where
  "reader_turn r s raw =
     (let line = read_line r raw in
      case ingest_log_line (lr_verbose r) (lr_channel r) line (lr_durable r) (rd_ring s, rd_files s) of
        (kept, ring, fs) \<Rightarrow>
          s\<lparr>rd_ring := ring, rd_files := fs, rd_sunk := (if kept then rd_sunk s @ [line] else rd_sunk s)\<rparr>)"

text \<open>The reader over a decoded text, until its end or until it was stopped after \<open>n\<close> lines.\<close>

definition reader_run :: "ProcessLineReader \<Rightarrow> nat \<Rightarrow> string \<Rightarrow> reader_state \<Rightarrow> reader_state" where
  "reader_run r n text s = foldl (reader_turn r) s (take n (raw_lines text))"

section \<open>The ring of the log stream\<close>

record LogFanout =
  lf_hub :: RealtimeHub
  lf_limit :: nat
  lf_lines :: "(string \<times> jdict list) list"
  lf_numbers :: "(string \<times> int) list"

definition fanout_new :: "RealtimeHub \<Rightarrow> LogFanout" where
  "fanout_new h = \<lparr>lf_hub = h, lf_limit = LOG_LINE_BUFFER_LINES, lf_lines = [], lf_numbers = []\<rparr>"

definition buffered :: "string \<Rightarrow> LogFanout \<Rightarrow> jdict list" where
  "buffered world f = dict_get world [] (lf_lines f)"

definition log_payload :: "string \<Rightarrow> string \<Rightarrow> string \<Rightarrow> string \<Rightarrow> int \<Rightarrow> int \<Rightarrow> jdict" where
  "log_payload world session channel line n ts =
     [(''world_id'', JStr world), (''session_id'', JStr session), (''channel'', JStr channel),
      (''line'', JStr line), (''line_no'', JInt n), (''ts'', JInt ts)]"

definition fanout_append ::
  "string \<Rightarrow> string \<Rightarrow> string \<Rightarrow> string \<Rightarrow> int \<Rightarrow> LogFanout \<Rightarrow> StreamEvent \<times> LogFanout" where
  "fanout_append world session channel line ts f =
     (let n = dict_get world 0 (lf_numbers f) + 1;
          payload = log_payload world session channel line n ts;
          (ev, h) = publish (''world:'' @ world @ '':logs'') ''log.line'' payload (lf_hub f) in
      (ev, f\<lparr>lf_hub := h, lf_numbers := dict_set world n (lf_numbers f),
             lf_lines := dict_set world (deque_append (lf_limit f) (buffered world f) payload) (lf_lines f)\<rparr>))"

section \<open>Laws\<close>

lemma utf8_take_length: "utf8_length (utf8_take n s) \<le> n"
  by (induction n s rule: utf8_take.induct) (auto simp: utf8_length_def)

lemma utf8_length_append [simp]: "utf8_length (a @ b) = utf8_length a + utf8_length b"
  by (simp add: utf8_length_def)

lemma plain_utf8_length: "\<forall>c\<in>set s. utf8_width c = 1 \<Longrightarrow> utf8_length s = length s"
  by (induction s) (simp_all add: utf8_length_def)

lemma mark_prefix_length: "utf8_length (take n truncated_mark) \<le> n"
proof -
  have "\<forall>c\<in>set truncated_mark. utf8_width c = 1" by (simp add: truncated_mark_def utf8_width_def)
  then have "\<forall>c\<in>set (take n truncated_mark). utf8_width c = 1" by (meson in_set_takeD)
  from plain_utf8_length[OF this] show ?thesis by simp
qed

lemma map_last_n: "map f (last_n n xs) = last_n n (map f xs)"
  by (simp add: last_n_def drop_map)

lemma truncated_length: "utf8_length (truncate_log_line line n) \<le> n"
  using utf8_take_length[of "n - utf8_length truncated_mark" line] mark_prefix_length[of n]
  by (auto simp: truncate_log_line_def)

lemma submit_all_frame [simp]:
  "rb_buffer (submit_all subs line rb) = rb_buffer rb" "rb_next (submit_all subs line rb) = rb_next rb"
  "rb_maxlen (submit_all subs line rb) = rb_maxlen rb"
  unfolding submit_all_def by (induction subs arbitrary: rb) simp_all

lemma ring_append_frame [simp]:
  "rb_buffer (ring_append line rb) = deque_append (rb_maxlen rb) (rb_buffer rb) (rb_next rb, line)"
  "rb_next (ring_append line rb) = rb_next rb + 1" "rb_maxlen (ring_append line rb) = rb_maxlen rb"
  by (simp_all add: ring_append_def append_locked_def)

interpretation ring: bounded_buffer "\<lambda>rb line. ring_append line rb" "\<lambda>rb. map snd (rb_buffer rb)" rb_maxlen
    "\<lambda>rb. length (rb_buffer rb) \<le> rb_maxlen rb"
  by unfold_locales (auto simp: deque_append_last_n map_last_n)

text \<open>The numbers of the lines in a ring are consecutive and end at the counter.\<close>

definition numbered_ring :: "RingBuffer \<Rightarrow> bool" where
  "numbered_ring rb \<longleftrightarrow> length (rb_buffer rb) = min (rb_maxlen rb) (rb_next rb) \<and>
     map fst (rb_buffer rb) = [rb_next rb - length (rb_buffer rb)..<rb_next rb]"

lemma numbered_append:
  assumes "numbered_ring rb"
  shows "numbered_ring (ring_append line rb)"
proof -
  let ?b = "rb_buffer rb" and ?m = "rb_maxlen rb" and ?k = "rb_next rb"
  have len: "length ?b = min ?m ?k" and num: "map fst ?b = [?k - length ?b..<?k]"
    using assms by (simp_all add: numbered_ring_def)
  have b: "rb_buffer (ring_append line rb) = last_n ?m (?b @ [(?k, line)])"
    using len by (simp add: deque_append_last_n)
  have "map fst (last_n ?m (?b @ [(?k, line)])) = last_n ?m ([?k - length ?b..<?k] @ [?k])"
    by (simp only: map_last_n map_append num list.map fst_conv)
  also have "[?k - length ?b..<?k] @ [?k] = [?k - length ?b..<Suc ?k]" by (simp only: upt_Suc_append[OF diff_le_self])
  also have "last_n ?m \<dots> = [?k - length ?b + (Suc ?k - (?k - length ?b) - ?m)..<Suc ?k]"
    by (simp only: last_n_def length_upt drop_upt)
  also have "?k - length ?b + (Suc ?k - (?k - length ?b) - ?m) = Suc ?k - min ?m (Suc ?k)" using len by auto
  finally have nums: "map fst (rb_buffer (ring_append line rb)) = [Suc ?k - min ?m (Suc ?k)..<Suc ?k]" by (simp only: b)
  have "length (rb_buffer (ring_append line rb)) = min ?m (Suc ?k)" using len by (simp only: b) auto
  with nums show ?thesis by (simp only: numbered_ring_def ring_append_frame(2,3) Suc_eq_plus1[symmetric])
qed

lemma ring_appends:
  fixes rb ls
  assumes "numbered_ring rb"
  defines "rb' \<equiv> foldl (\<lambda>rb line. ring_append line rb) rb ls"
  shows "numbered_ring rb'" and "rb_next rb' = rb_next rb + length ls"
    and "map snd (rb_buffer rb') = last_n (rb_maxlen rb) (map snd (rb_buffer rb) @ ls)"
    and "rb_maxlen rb' = rb_maxlen rb"
proof -
  show "numbered_ring rb'" and "rb_next rb' = rb_next rb + length ls"
    unfolding rb'_def using assms(1) by (induction ls arbitrary: rb) (simp_all add: numbered_append)
  have "length (rb_buffer rb) \<le> rb_maxlen rb" using assms(1) by (simp add: numbered_ring_def)
  from ring.pushes[OF this, of ls]
  show "map snd (rb_buffer rb') = last_n (rb_maxlen rb) (map snd (rb_buffer rb) @ ls)"
    and "rb_maxlen rb' = rb_maxlen rb" by (simp_all add: rb'_def)
qed

lemma numbered_new: "numbered_ring (ring_new m)"
  by (simp add: numbered_ring_def ring_new_def)

lemma path_join_length: "length a < length b \<Longrightarrow> path_join d a \<noteq> path_join d b"
  by (auto simp: path_join_def dest: arg_cong[where f = length])

lemma session_file_apart: "channel_path d c \<noteq> session_path d"
  using path_join_length[of "dl_session d @ ''.log''" "dl_session d @ ''.'' @ safe_channel c @ ''.log''" "dl_dir d"]
  by (auto simp: channel_path_def session_path_def)

definition file_content :: "string \<Rightarrow> log_files \<Rightarrow> string" where
  "file_content p fs = (case fs p of None \<Rightarrow> [] | Some x \<Rightarrow> x)"

lemma durable_content:
  "file_content (session_path d) (durable_write d c line fs) =
     file_content (session_path d) fs @ ''['' @ c @ ''] '' @ line @ [CHR 0x0A]"
  using session_file_apart[of d c] by (simp add: durable_write_def append_text_def file_content_def)

definition kept_lines :: "ProcessLineReader \<Rightarrow> string list \<Rightarrow> string list" where
  "kept_lines r raws = filter (retain_log_line (lr_verbose r) (lr_channel r)) (map (read_line r) raws)"

lemma reader_turns:
  assumes "rd_ring s = Single rb"
  shows "rd_ring (foldl (reader_turn r) s raws) =
           Single (foldl (\<lambda>rb line. ring_append line rb) rb (kept_lines r raws))"
    and "rd_sunk (foldl (reader_turn r) s raws) = rd_sunk s @ kept_lines r raws"
    and "lr_durable r = Some d \<Longrightarrow> file_content (session_path d) (rd_files (foldl (reader_turn r) s raws)) =
           file_content (session_path d) (rd_files s) @
           concat (map (\<lambda>l. ''['' @ lr_channel r @ ''] '' @ l @ [CHR 0x0A]) (kept_lines r raws))"
  using assms
  by (induction raws arbitrary: s rb)
     (simp_all add: kept_lines_def reader_turn_def ingest_log_line_def Let_def durable_content)

text \<open>C31: a line reader on a fresh ring, whatever the process wrote and wherever the reader was
  stopped: the ring ends with the last of the relevant lines, numbered without a gap up to the
  count of them; the sink and the session file got every relevant line, in order, the ones the
  ring has already dropped included; and no line takes more bytes in UTF-8 than the limit.\<close>

theorem reader_keeps_the_relevant_lines:
  "let kept = kept_lines r (take n (raw_lines text));
       s = reader_run (r\<lparr>lr_durable := Some d\<rparr>) n text
             \<lparr>rd_ring = Single (ring_new m), rd_files = fs, rd_sunk = []\<rparr> in
   (\<exists>rb. rd_ring s = Single rb \<and> map snd (rb_buffer rb) = last_n m kept \<and>
      map fst (rb_buffer rb) = [length kept - length (rb_buffer rb)..<length kept]) \<and>
   rd_sunk s = kept \<and>
   file_content (session_path d) (rd_files s) = file_content (session_path d) fs @
     concat (map (\<lambda>l. ''['' @ lr_channel r @ ''] '' @ l @ [CHR 0x0A]) kept) \<and>
   list_all (\<lambda>l. utf8_length l \<le> lr_max_bytes r) kept"
proof -
  define kept where "kept = kept_lines r (take n (raw_lines text))"
  have same: "kept_lines (r\<lparr>lr_durable := Some d\<rparr>) raws = kept_lines r raws" for raws
    by (simp add: kept_lines_def read_line_def[abs_def])
  let ?s0 = "\<lparr>rd_ring = Single (ring_new m), rd_files = fs, rd_sunk = []\<rparr>"
  note turns = reader_turns[where s = ?s0 and rb = "ring_new m" and r = "r\<lparr>lr_durable := Some d\<rparr>"
    and raws = "take n (raw_lines text)", simplified same]
  have "list_all (\<lambda>l. utf8_length l \<le> lr_max_bytes r) kept"
    by (auto simp: kept_def kept_lines_def list_all_iff read_line_def truncated_length)
  moreover note ring_appends[OF numbered_new[of m], of kept]
  ultimately show ?thesis
    using turns(1,2) turns(3)[of d] unfolding reader_run_def Let_def kept_def[symmetric]
    by (auto simp: numbered_ring_def ring_new_def)
qed

text \<open>Between the two parts of an append another reader may have taken the next number: then the
  subscriber gets the first line under the number of the second.\<close>

lemma interleaved_appends_share_a_number:
  "map (\<lambda>sb. map fst (sb_queue sb)) (rb_objects
     (submit_all [0] ''b'' (submit_all [0] ''a'' (append_locked ''b'' (append_locked ''a'' (snd (ring_subscribe (ring_new 5)))))))) =
   [[1, 1]]"
  by code_simp

end
