(* ===== verification/Web_Worlds.thy ===== *)
theory Web_Worlds
  imports Web_Admin World_Mutations Log_Tail
begin

text \<open>
  The world routes (\<open>app/web/api/world_management.py\<close>): metadata, deletion with its preview,
  runtime configuration, files and logs.  The state is the one of the world service with the
  registry of deletion previews and the log ring.  \<open>ws_time\<close> is the monotonic clock; the
  operation service draws its identifiers and reads its clock from the environment, the handlers
  from the context.  A JSON text inside an operation's payload (the launch arguments) is written
  as its value, as in the columns; relative roots start at the root of the tree, which stands for
  the working directory.  Times of modification are in nanoseconds.
\<close>

section \<open>State and context\<close>

record delete_preview =
  dp_world :: string
  dp_user :: string
  dp_session :: string
  dp_version :: int
  dp_expires :: nat

record worlds_web =
  ww_sys :: world_sys
  ww_previews :: "(string \<times> delete_preview) list"
  ww_fanout :: LogFanout

text \<open>What a handler reads of its request: the header, the query, the form, and the uploaded file
  with its name.\<close>

record worlds_ctx = web_ctx +
  wx_key :: "string option"
  wx_args :: "(string \<times> string) list"
  wx_form :: "(string \<times> string) list"
  wx_upload :: "(string \<times> string) option"
  wx_mtime :: "path \<Rightarrow> int"

text \<open>The functions of the web framework the routes call, and the decoding of UTF-8 with
  replacement.\<close>

record web_lib =
  wl_secure_filename :: "string \<Rightarrow> string"
  wl_send_file :: "http_request \<Rightarrow> string \<Rightarrow> string \<Rightarrow> response"
  wl_decode :: "string \<Rightarrow> string"

type_synonym worlds_handler = "worlds_web handler"

abbreviation ww_store :: "worlds_web \<Rightarrow> store" where
  "ww_store s \<equiv> ws_store (ww_sys s)"

abbreviation ww_tree :: "worlds_web \<Rightarrow> tree" where
  "ww_tree s \<equiv> ws_tree (ww_sys s)"

definition write_tree :: "tree \<Rightarrow> worlds_web \<Rightarrow> worlds_web" where
  "write_tree t s = s\<lparr>ww_sys := (ww_sys s)\<lparr>ws_tree := t\<rparr>\<rparr>"

definition fault :: "string \<Rightarrow> string \<Rightarrow> 's handler" where
  "fault code message = ret (error_response code message None)"

definition arg :: "string \<Rightarrow> string \<Rightarrow> (string \<times> string) list \<Rightarrow> string" where
  "arg k d xs = (case map_of xs k of None \<Rightarrow> d | Some v \<Rightarrow> v)"

definition json_body :: "worlds_ctx \<Rightarrow> jdict option" where
  "json_body c = object_body (rq_json (wc_request c))"

definition exact_keys :: "string list \<Rightarrow> jdict \<Rightarrow> bool" where
  "exact_keys ks d \<longleftrightarrow> only_keys ks d \<and> list_all (\<lambda>k. has_key k d) ks"

definition is_text :: "string \<Rightarrow> jdict \<Rightarrow> bool" where
  "is_text k d \<longleftrightarrow> as_str (jget k d) \<noteq> None"

text \<open>A call of the world service that raises is not caught.\<close>

definition on_driver :: "'a world_run \<Rightarrow> (worlds_web, web_error, 'a) action" where
  "on_driver m s = (case m (ww_sys s) of (r, s') \<Rightarrow>
     (case r of Inl _ \<Rightarrow> Inl Escaped | Inr x \<Rightarrow> Inr x, s\<lparr>ww_sys := s'\<rparr>))"

definition live_world :: "string \<Rightarrow> worlds_web \<Rightarrow> world_row option" where
  "live_world w s = find_row (\<lambda>r. wo_id r = w \<and> wo_deleted_at r = None) (worlds (ww_store s))"

definition with_world :: "string \<Rightarrow> (world_row \<Rightarrow> worlds_handler) \<Rightarrow> worlds_handler" where
  "with_world w f =
     bind_run (gets (live_world w)) (\<lambda>r.
       case r of None \<Rightarrow> fault ''WORLD_NOT_FOUND'' ''World not found.'' | Some x \<Rightarrow> f x)"

definition world_directory :: "world_row \<Rightarrow> worlds_web \<Rightarrow> path" where
  "world_directory r s = path_parts (world_dir r (ww_sys s))"

definition log_directory :: "string \<Rightarrow> worlds_web \<Rightarrow> path" where
  "log_directory w s = path_parts (path_div (log_root w (ww_sys s)) w)"

text \<open>\<open>_resolve_under\<close>; a text with a null character raises in \<open>resolve\<close>.\<close>

definition resolve_under :: "tree \<Rightarrow> path \<Rightarrow> string \<Rightarrow> bool \<Rightarrow> path option" where
  "resolve_under t root rel allow_root =
     (case resolve t root of
        None \<Rightarrow> None
      | Some r \<Rightarrow>
          (if is_absolute rel \<or> CHR 0x00 \<in> set rel \<or> \<not> no_links t r (path_parts rel) then None
           else case resolve t (r @ path_parts rel) of
             None \<Rightarrow> None
           | Some p \<Rightarrow> if \<not> is_under r p \<or> \<not> allow_root \<and> p = r then None else Some p))"

section \<open>Operations\<close>

definition idempotency_key :: "worlds_ctx \<Rightarrow> string option" where
  "idempotency_key c =
     (case wx_key c of
        None \<Rightarrow> Some (wc_ids c 0 0)
      | Some v \<Rightarrow> (let t = strip v in if t = [] then None else Some t))"

definition operation_payload :: "op_row \<Rightarrow> jdict" where
  "operation_payload r = operation_json r @ (case op_data r of None \<Rightarrow> [] | Some d \<Rightarrow> [(''data'', JObj d)])"

definition queue_position :: "op_row \<Rightarrow> string \<Rightarrow> store \<Rightarrow> nat" where
  "queue_position r w st = length (filter (\<lambda>x. op_world x = Some w \<and> op_status x = OS_QUEUED \<and>
     (op_created_at x < op_created_at r \<or> op_created_at x = op_created_at r \<and> op_id x \<le> op_id r)) (operations st))"

definition operation_response :: "op_row \<Rightarrow> bool \<Rightarrow> store \<Rightarrow> response" where
  "operation_response r replayed st =
     (let terminal = op_status r \<in> {OS_COMPLETED, OS_FAILED, OS_CANCELLED, OS_TIMED_OUT} in
      with_meta
        ([(''op_id'', JStr (op_id r)), (''idempotency_key'', jopt_str (op_key r))] @
         (case op_world r of
            Some w \<Rightarrow> if op_status r = OS_QUEUED \<and> w \<noteq> []
              then [(''queue_position'', JInt (int (queue_position r w st)))] else []
          | None \<Rightarrow> []))
        (ok_response [(''operation'', JObj (operation_payload r))] (if replayed \<or> terminal then 200 else 202)))"

definition respond :: "op_row \<Rightarrow> bool \<Rightarrow> worlds_handler" where
  "respond r replayed = gets (\<lambda>s. operation_response r replayed (ww_store s))"

text \<open>The start of the handlers that enqueue: the key, and the operation it already names.\<close>

definition with_key :: "OperationType \<Rightarrow> worlds_ctx \<Rightarrow> (string \<Rightarrow> worlds_handler) \<Rightarrow> worlds_handler" where
  "with_key ty c f =
     (case idempotency_key c of
        None \<Rightarrow> invalid ''Idempotency-Key must not be empty.''
      | Some k \<Rightarrow>
          bind_run (gets (\<lambda>s. find_by_key ty k (ww_store s))) (\<lambda>r.
            case r of Some x \<Rightarrow> respond x True | None \<Rightarrow> f k))"

definition enqueue :: "world_env \<Rightarrow> OperationType \<Rightarrow> string option \<Rightarrow> worlds_ctx \<Rightarrow> string \<Rightarrow> jdict \<Rightarrow> worlds_handler" where
  "enqueue E ty w c k data =
     bind_run (on_driver (enqueue_world_mutation E ty w (sn_user (wc_session c)) k data)) (\<lambda>(r, replayed). respond r replayed)"

definition world_conflict :: "string \<Rightarrow> worlds_web \<Rightarrow> bool" where
  "world_conflict w s =
     (case live_world w s of
        None \<Rightarrow> True
      | Some r \<Rightarrow> wo_state r \<noteq> WS_OFF \<or> has_in_flight_operation w None (ww_store s))"

section \<open>Creation\<close>

definition string_list :: "json \<Rightarrow> bool" where
  "string_list v = (case v of JArr xs \<Rightarrow> xs \<noteq> [] \<and> json_strings xs \<noteq> None | _ \<Rightarrow> False)"

definition port_number :: "json \<Rightarrow> bool" where
  "port_number v = (case v of JInt n \<Rightarrow> 1 \<le> n \<and> n \<le> 65535 | _ \<Rightarrow> False)"

definition strategies :: "string list" where
  "strategies = [''subdomain'', ''port'', ''path'']"

definition display_name_ok :: "jdict \<Rightarrow> bool" where
  "display_name_ok b \<longleftrightarrow> filled (jget ''display_name'' b) \<and> length (text_of ''display_name'' b) \<le> 120"

text \<open>\<open>None\<close> where the check of the strategy raises.\<close>

definition world_fields_ok :: "jdict \<Rightarrow> bool option" where
  "world_fields_ok b =
     (if \<not> display_name_ok b \<or> text_of ''template_id'' b = [] \<or> \<not> port_number (body_get ''port'' b) then Some False
      else map_option (\<lambda>known. known \<and> filled (jget ''addressing_value'' b) \<and> is_text ''java_runtime_id'' b \<and>
             (has_key ''launch_args'' b \<longrightarrow> string_list (body_get ''launch_args'' b)))
           (member (body_get ''addressing_strategy'' b) strategies))"

definition live_template :: "string \<Rightarrow> worlds_web \<Rightarrow> row option" where
  "live_template i s = find_row (\<lambda>r. col ''template_id'' r = JStr i \<and> col ''deleted_at'' r = JNull \<and>
     col ''deprecated'' r = JInt 0) (ws_tables (ww_sys s) CE_TEMPLATES)"

definition live_runtime :: "json \<Rightarrow> worlds_web \<Rightarrow> bool" where
  "live_runtime i s = exists_row (\<lambda>r. col ''runtime_id'' r = i \<and> i \<noteq> JNull \<and> col ''deleted_at'' r = JNull \<and>
     (col ''status'' r = JStr ''registered'' \<or> col ''status'' r = JStr ''verified''))
     (ws_tables (ww_sys s) CE_JAVA_RUNTIMES)"

definition name_or_port_taken :: "string \<Rightarrow> json \<Rightarrow> worlds_web \<Rightarrow> bool" where
  "name_or_port_taken name port s = exists_row (\<lambda>r. wo_deleted_at r = None \<and>
     (wo_display_name r = name \<or> JInt (wo_port r) = port)) (worlds (ww_store s))"

definition new_world :: "int \<Rightarrow> string \<Rightarrow> row \<Rightarrow> ServerType \<Rightarrow> jdict \<Rightarrow> jdict" where
  "new_world now i tmpl ty b =
     [(''world_id'', JStr i), (''display_name'', JStr (strip (text_of ''display_name'' b))),
      (''template_id'', col ''template_id'' tmpl), (''server_type'', JStr (server_type_value ty)),
      (''mc_version'', col ''default_version'' tmpl), (''java_runtime_id'', body_get ''java_runtime_id'' b),
      (''port'', body_get ''port'' b), (''addressing_strategy'', body_get ''addressing_strategy'' b),
      (''addressing_value'', JStr (strip (text_of ''addressing_value'' b))),
      (''state'', JStr (world_state_value WS_OFF)), (''pre_backup_state'', JNull),
      (''launch_args'', body_get ''launch_args'' b), (''metadata_version'', JInt 1), (''deleted_at'', JNull),
      (''deleted_by'', JNull), (''created_at'', JInt now), (''updated_at'', JInt now)]"

definition required_world_fields :: "string list" where
  "required_world_fields = [''template_id'', ''display_name'', ''port'', ''addressing_strategy'',
     ''addressing_value'', ''java_runtime_id'']"

definition create_world :: "world_env \<Rightarrow> worlds_ctx \<Rightarrow> worlds_handler" where
  "create_world E c = with_key CREATE_WORLD c (\<lambda>k.
     case json_body c of
       None \<Rightarrow> invalid ''Required world fields are missing.''
     | Some b \<Rightarrow>
         if \<not> list_all (\<lambda>f. has_key f b) required_world_fields then invalid ''Required world fields are missing.''
         else bind_run (of_option Escaped (world_fields_ok b)) (\<lambda>ok.
           if \<not> ok then invalid ''World fields are invalid.''
           else bind_run (gets (live_template (text_of ''template_id'' b))) (\<lambda>template.
                bind_run (gets (live_runtime (body_get ''java_runtime_id'' b))) (\<lambda>runtime.
             case template of
               None \<Rightarrow> invalid ''A live template and Java runtime are required.''
             | Some t \<Rightarrow>
                 if \<not> runtime then invalid ''A live template and Java runtime are required.''
                 else case server_type_of (text_key (col ''category'' t)) of
                   None \<Rightarrow> invalid ''The template has an unsupported server type.''
                 | Some ty \<Rightarrow>
                     bind_run (gets (name_or_port_taken (strip (text_of ''display_name'' b)) (body_get ''port'' b))) (\<lambda>taken.
                       if taken then refuse ''WORLD_CONFLICT'' ''World name or port is already in use.'' 409
                       else enqueue E CREATE_WORLD None c k
                         [(''world_action'', JStr ''create''),
                          (''world'', JObj (new_world (wc_now c) (''w_'' @ wc_ids c 0 1) t ty b))])))))"

section \<open>Metadata\<close>

text \<open>The configuration service on the rows of the worlds.\<close>

definition world_cells :: "world_row \<Rightarrow> row" where
  "world_cells r = map (\<lambda>(k, f). (k, f r)) world_columns"

definition worlds_config :: "worlds_web \<Rightarrow> config_sys" where
  "worlds_config s = \<lparr>cf_ops = ws_ops (ww_sys s),
     cf_tables = (ws_tables (ww_sys s))(CE_WORLD_INSTANCES := map world_cells (worlds (ww_store s)))\<rparr>"

definition from_cells :: "row \<Rightarrow> world_row \<Rightarrow> world_row" where
  "from_cells x r = r\<lparr>wo_display_name := text_key (col ''display_name'' x),
     wo_metadata_version := (case col ''metadata_version'' x of JInt n \<Rightarrow> n | _ \<Rightarrow> wo_metadata_version r),
     wo_updated_at := (case col ''updated_at'' x of JInt n \<Rightarrow> n | _ \<Rightarrow> wo_updated_at r)\<rparr>"

definition after_config :: "config_sys \<Rightarrow> worlds_web \<Rightarrow> worlds_web" where
  "after_config cf s =
     (let st = os_store (cf_ops cf) in
      s\<lparr>ww_sys := (ww_sys s)\<lparr>ws_ops := (cf_ops cf)\<lparr>os_store :=
          st\<lparr>worlds := map2 from_cells (cf_tables cf CE_WORLD_INSTANCES) (worlds st)\<rparr>\<rparr>\<rparr>\<rparr>)"

definition rename_update :: "worlds_ctx \<Rightarrow> string \<Rightarrow> int \<Rightarrow> string \<Rightarrow> VersionedUpdate" where
  "rename_update c w version name = \<lparr>vu_entity = CE_WORLD_INSTANCES, vu_row = w, vu_expected = version,
     vu_fields = [(''display_name'', JStr name)], vu_actor_type = ACTOR_USER, vu_actor = Some (sn_user (wc_session c))\<rparr>"

definition rename_call :: "worlds_ctx \<Rightarrow> VersionedUpdate \<Rightarrow> (worlds_web, web_error, config_error + row \<times> op_row) action" where
  "rename_call c v s =
     (case update_versioned_with_operation (wc_ids c) (wc_now c) v (worlds_config s) of
        (r, cf) \<Rightarrow> (Inr r, after_config cf s))"

definition positive_version :: "jdict \<Rightarrow> int option" where
  "positive_version b = (case jget ''version'' b of Some (JInt n) \<Rightarrow> if 1 \<le> n then Some n else None | _ \<Rightarrow> None)"

definition update_world :: "worlds_ctx \<Rightarrow> string \<Rightarrow> worlds_handler" where
  "update_world c w =
     (case Option.bind (json_body c) (\<lambda>b.
         if exact_keys [''display_name'', ''version''] b \<and> display_name_ok b
         then map_option (\<lambda>n. (n, strip (text_of ''display_name'' b))) (positive_version b) else None) of
        None \<Rightarrow> invalid ''A display name and metadata version are required.''
      | Some (version, name) \<Rightarrow>
          with_world w (\<lambda>_.
            bind_run (rename_call c (rename_update c w version name)) (\<lambda>r.
              case r of
                Inr _ \<Rightarrow> bind_run (on_driver (world_summary w)) (\<lambda>d. answer [(''world'', JObj d)])
              | Inl e \<Rightarrow>
                  if e = ConfigurationConflictError
                  then fault ''CONFIG_VERSION_CONFLICT'' ''Configuration changed; reload and retry.''
                  else if has_text ''UNIQUE constraint failed'' (config_error_text e)
                  then fault ''WORLD_NAME_CONFLICT'' ''World name is already in use.''
                  else escape)))"

section \<open>Deletion\<close>

definition preview_ttl :: nat where
  "preview_ttl = 300 * 1000"

definition session_hash :: "crypto \<Rightarrow> worlds_ctx \<Rightarrow> string" where
  "session_hash cr c = hash_token cr (sn_token (wc_session c))"

definition fresh_previews :: "nat \<Rightarrow> (string \<times> delete_preview) list \<Rightarrow> (string \<times> delete_preview) list" where
  "fresh_previews now ps = filter (\<lambda>(k, p). \<not> dp_expires p < now) ps"

definition make_preview :: "crypto \<Rightarrow> worlds_ctx \<Rightarrow> world_row \<Rightarrow> worlds_web \<Rightarrow> worlds_web" where
  "make_preview cr c r s =
     s\<lparr>ww_previews := dict_set (wc_ids c 0 2)
         \<lparr>dp_world = wo_id r, dp_user = sn_user (wc_session c), dp_session = session_hash cr c,
          dp_version = wo_metadata_version r, dp_expires = ws_time (ww_sys s) + preview_ttl\<rparr>
         (fresh_previews (ws_time (ww_sys s)) (ww_previews s))\<rparr>"

definition world_delete_preview :: "crypto \<Rightarrow> worlds_ctx \<Rightarrow> string \<Rightarrow> worlds_handler" where
  "world_delete_preview cr c w =
     with_world w (\<lambda>r.
       bind_run (gets (world_conflict w)) (\<lambda>busy.
         if busy then fault ''WORLD_NOT_OFF'' ''World must be off with no in-flight operations.''
         else then_run (change (make_preview cr c r))
           (bind_run (gets (\<lambda>s. world_dir r (ww_sys s))) (\<lambda>dir.
             answer [(''preview_token'', JStr (wc_ids c 0 2)), (''world_id'', JStr w),
               (''display_name'', JStr (wo_display_name r)), (''state'', JStr (world_state_value (wo_state r))),
               (''metadata_version'', JInt (wo_metadata_version r)), (''world_directory'', JStr dir)]))))"

definition pop_preview :: "string option \<Rightarrow> (worlds_web, web_error, delete_preview option) action" where
  "pop_preview token s =
     (case token of
        None \<Rightarrow> (Inr None, s)
      | Some k \<Rightarrow> (Inr (map_of (ww_previews s) k), s\<lparr>ww_previews := filter (\<lambda>(k', p). k' \<noteq> k) (ww_previews s)\<rparr>))"

definition preview_fits :: "crypto \<Rightarrow> worlds_ctx \<Rightarrow> world_row \<Rightarrow> nat \<Rightarrow> delete_preview \<Rightarrow> bool" where
  "preview_fits cr c r now p \<longleftrightarrow> dp_world p = wo_id r \<and> dp_user p = sn_user (wc_session c) \<and>
     dp_session p = session_hash cr c \<and> \<not> dp_expires p < now \<and> dp_version p = wo_metadata_version r"

definition checked_preview :: "crypto \<Rightarrow> worlds_ctx \<Rightarrow> string \<Rightarrow> delete_preview option \<Rightarrow> worlds_web \<Rightarrow> delete_preview option" where
  "checked_preview cr c w preview s =
     (case (live_world w s, preview) of
        (Some r, Some p) \<Rightarrow> if preview_fits cr c r (ws_time (ww_sys s)) p then Some p else None
      | _ \<Rightarrow> None)"

definition delete_world :: "crypto \<Rightarrow> world_env \<Rightarrow> worlds_ctx \<Rightarrow> string \<Rightarrow> worlds_handler" where
  "delete_world cr E c w = with_key DELETE_WORLD c (\<lambda>k.
     bind_run (pop_preview (Option.bind (json_body c) (\<lambda>b. as_str (jget ''preview_token'' b)))) (\<lambda>preview.
     bind_run (gets (checked_preview cr c w preview)) (\<lambda>p.
       case p of
         None \<Rightarrow> fault ''CLEANUP_PREVIEW_REQUIRED'' ''A fresh world deletion preview is required.''
       | Some pv \<Rightarrow>
           bind_run (gets (world_conflict w)) (\<lambda>busy.
             if busy then fault ''WORLD_NOT_OFF'' ''World must be off with no in-flight operations.''
             else enqueue E DELETE_WORLD (Some w) c k
               [(''world_action'', JStr ''delete''), (''preview_version'', JInt (dp_version pv))]))))"

section \<open>Runtime configuration\<close>

definition get_runtime_config :: "string \<Rightarrow> worlds_handler" where
  "get_runtime_config w =
     with_world w (\<lambda>r. answer
       [(''runtime_config'', JObj
          [(''java_runtime_id'', JStr (wo_java_runtime r)), (''launch_args'', launch_json (wo_launch_args r)),
           (''port'', JInt (wo_port r)), (''addressing_strategy'', JStr (wo_strategy r)),
           (''addressing_value'', JStr (wo_address r))]),
        (''version'', JInt (wo_metadata_version r))])"

definition runtime_fields :: "string list" where
  "runtime_fields = [''java_runtime_id'', ''launch_args'', ''port'', ''addressing_strategy'', ''addressing_value'', ''version'']"

text \<open>The checks of the fields in their order: the exception, the message, or none.  Only the
  duplicate port has another error code, and it comes last.\<close>

definition runtime_fault :: "jdict \<Rightarrow> worlds_web \<Rightarrow> unit + string option" where
  "runtime_fault u s =
     (if has_key ''java_runtime_id'' u \<and> \<not> bindable (body_get ''java_runtime_id'' u) then Inl ()
      else if has_key ''java_runtime_id'' u \<and> (\<not> is_text ''java_runtime_id'' u \<or> \<not> live_runtime (body_get ''java_runtime_id'' u) s)
      then Inr (Some ''A live Java runtime is required.'')
      else if has_key ''launch_args'' u \<and> \<not> string_list (body_get ''launch_args'' u)
      then Inr (Some ''launch_args must be a non-empty string list.'')
      else if has_key ''port'' u \<and> \<not> port_number (body_get ''port'' u)
      then Inr (Some ''port must be between 1 and 65535.'')
      else if has_key ''addressing_strategy'' u \<and> member (body_get ''addressing_strategy'' u) strategies = None then Inl ()
      else if has_key ''addressing_strategy'' u \<and> member (body_get ''addressing_strategy'' u) strategies = Some False
      then Inr (Some ''addressing_strategy is unsupported.'')
      else if has_key ''addressing_value'' u \<and> \<not> filled (jget ''addressing_value'' u)
      then Inr (Some ''addressing_value must be a non-empty string.'')
      else Inr None)"

definition other_has_port :: "string \<Rightarrow> jdict \<Rightarrow> worlds_web \<Rightarrow> bool" where
  "other_has_port w u s \<longleftrightarrow> has_key ''port'' u \<and> exists_row (\<lambda>r. JInt (wo_port r) = body_get ''port'' u \<and> wo_id r \<noteq> w \<and>
     wo_deleted_at r = None) (worlds (ww_store s))"

definition runtime_payload :: "string \<Rightarrow> int \<Rightarrow> jdict \<Rightarrow> world_row \<Rightarrow> jdict" where
  "runtime_payload w version u r =
     [(''entity'', JStr (entity_value CE_WORLD_INSTANCES)), (''row_id'', JStr w),
      (''before'', JObj (map (\<lambda>(k, v). (k, case world_col k r of None \<Rightarrow> JNull | Some x \<Rightarrow> x)) u)),
      (''after'', JObj u), (''expected_version'', JInt version), (''queued_runtime_config'', JBool True)]"

definition update_runtime_config :: "world_env \<Rightarrow> worlds_ctx \<Rightarrow> string \<Rightarrow> worlds_handler" where
  "update_runtime_config E c w = with_key CONFIG_EDIT c (\<lambda>k.
     case Option.bind (json_body c) (\<lambda>b. if only_keys runtime_fields b
         then map_option (\<lambda>n. (b, n)) (positive_version b) else None) of
       None \<Rightarrow> invalid ''A valid version and runtime fields are required.''
     | Some (b, version) \<Rightarrow>
         with_world w (\<lambda>r.
           if wo_state r \<noteq> WS_OFF
           then fault ''WORLD_RUNTIME_CONFIG_STATE'' ''Runtime configuration requires an off world.''
           else if version \<noteq> wo_metadata_version r
           then fault ''CONFIG_VERSION_CONFLICT'' ''Configuration changed; reload and retry.''
           else
             (let u = filter (\<lambda>(f, v). f \<noteq> ''version'') b in
              if u = [] then invalid ''At least one runtime field is required.''
              else bind_run (gets (runtime_fault u)) (\<lambda>f.
                case f of
                  Inl _ \<Rightarrow> escape
                | Inr (Some m) \<Rightarrow> invalid m
                | Inr None \<Rightarrow>
                    bind_run (gets (other_has_port w u)) (\<lambda>taken.
                      if taken then fault ''WORLD_PORT_CONFLICT'' ''World port is already in use.''
                      else enqueue E CONFIG_EDIT (Some w) c k (runtime_payload w version u r))))))"

fun eula_value :: "EulaState \<Rightarrow> string" where
  "eula_value NOT_PRESENT = ''not_present''"
| "eula_value UNACCEPTED = ''unaccepted''"
| "eula_value ACCEPTED = ''accepted''"

definition get_world_eula :: "string \<Rightarrow> worlds_handler" where
  "get_world_eula w =
     with_world w (\<lambda>r.
       bind_run (gets (\<lambda>s. eula_unreadable (world_dir r (ww_sys s)) (ww_tree s))) (\<lambda>bad.
       if bad then escape
       else bind_run (gets (\<lambda>s. detect_eula (ws_files (ww_sys s)) (world_dir r (ww_sys s)))) (\<lambda>e.
         answer [(''eula'', JStr (eula_value e)), (''world_state'', JStr (world_state_value (wo_state r)))])))"

section \<open>Files\<close>

definition unauthorized_path :: worlds_handler where
  "unauthorized_path = fault ''FILE_PATH_UNAUTHORIZED'' ''Path escapes the world directory.''"

definition is_dir :: "tree \<Rightarrow> path \<Rightarrow> bool" where
  "is_dir t p \<longleftrightarrow> node t p = Some Dir"

fun file_bytes :: "fnode option \<Rightarrow> string option" where
  "file_bytes (Some (File x)) = Some x"
| "file_bytes _ = None"

fun is_link :: "fnode option \<Rightarrow> bool" where
  "is_link (Some (Link x)) = True"
| "is_link _ = False"

definition mtime_seconds :: "worlds_ctx \<Rightarrow> path \<Rightarrow> json" where
  "mtime_seconds c p = JInt (wx_mtime c p div 10 ^ 9)"

definition size_json :: "fnode option \<Rightarrow> json" where
  "size_json n = (case file_bytes n of None \<Rightarrow> JNull | Some x \<Rightarrow> JInt (int (length x)))"

definition listed_names :: "bool \<Rightarrow> tree \<Rightarrow> path \<Rightarrow> path \<Rightarrow> string list" where
  "listed_names hidden t root d = filter (\<lambda>n. (hidden \<or> \<not> starts_with ''.'' n) \<and> \<not> is_link (node t (d @ [n])) \<and>
     (case resolve t (d @ [n]) of None \<Rightarrow> False | Some q \<Rightarrow> is_under root q)) (sort_key lower (children t d))"

definition file_entry :: "worlds_ctx \<Rightarrow> tree \<Rightarrow> path \<Rightarrow> string \<Rightarrow> json" where
  "file_entry c t d n =
     (let x = node t (d @ [n]) in
      JObj [(''name'', JStr n), (''type'', JStr (if x = Some Dir then ''directory'' else ''file'')),
            (''size'', size_json x), (''mtime'', mtime_seconds c (d @ [n]))])"

definition list_world_files :: "worlds_ctx \<Rightarrow> string \<Rightarrow> worlds_handler" where
  "list_world_files c w =
     with_world w (\<lambda>r.
       (let rel = arg ''path'' [] (wx_args c); hidden = arg ''include_hidden'' ''false'' (wx_args c) in
        if hidden \<noteq> ''true'' \<and> hidden \<noteq> ''false'' then invalid ''include_hidden must be true or false.''
        else
          bind_run (gets (\<lambda>s. (ww_tree s, resolve (ww_tree s) (world_directory r s)))) (\<lambda>(t, rt).
          bind_run (of_option Escaped rt) (\<lambda>root.
            case resolve_under t root rel True of
              None \<Rightarrow> unauthorized_path
            | Some d \<Rightarrow>
                if node t d = None then fault ''FILE_NOT_FOUND'' ''Directory not found.''
                else if \<not> is_dir t d then fault ''FILE_INVALID'' ''Path is not a directory.''
                else answer [(''path'', JStr rel), (''files'', JArr (map (file_entry c t d)
                       (listed_names (hidden = ''true'') t root d)))]))))"

definition download_world_file :: "web_lib \<Rightarrow> worlds_ctx \<Rightarrow> string \<Rightarrow> worlds_handler" where
  "download_world_file L c w =
     with_world w (\<lambda>r.
       bind_run (gets (\<lambda>s. (ww_tree s, world_directory r s))) (\<lambda>(t, root).
         case resolve_under t root (arg ''path'' [] (wx_args c)) False of
           None \<Rightarrow> unauthorized_path
         | Some p \<Rightarrow>
             (case file_bytes (node t p) of
                None \<Rightarrow> fault ''FILE_NOT_FOUND'' ''File not found.''
              | Some x \<Rightarrow> ret (wl_send_file L (wc_request c) (last p) x))))"

definition upload_limit :: nat where
  "upload_limit = 64 * 1024 * 1024"

definition upload_world_file :: "worlds_ctx \<Rightarrow> string \<Rightarrow> worlds_handler" where
  "upload_world_file c w =
     with_world w (\<lambda>r.
       (let rel = arg ''path'' [] (wx_form c) in
        case wx_upload c of
          None \<Rightarrow> invalid ''A destination path and file are required.''
        | Some (name, content) \<Rightarrow>
            if rel = [] \<or> name = [] then invalid ''A destination path and file are required.''
            else if upload_limit < length content then fault ''FILE_TOO_LARGE'' ''File exceeds the upload limit.''
            else bind_run (gets (\<lambda>s. (ww_tree s, world_directory r s))) (\<lambda>(t, root).
              case resolve_under t root rel False of
                None \<Rightarrow> unauthorized_path
              | Some p \<Rightarrow>
                  if node t p \<noteq> None then fault ''FILE_EXISTS'' ''Destination already exists.''
                  else if \<not> is_dir t (butlast p) then fault ''FILE_NOT_FOUND'' ''Destination directory not found.''
                  else then_run (change (write_tree (t @ [(p, File content)])))
                    (ret (ok_response [(''path'', JStr rel), (''size'', JInt (int (length content)))] 201)))))"

text \<open>\<open>str(Path(a) / b)\<close> for a relative \<open>a\<close>.\<close>

definition child_text :: "string \<Rightarrow> string \<Rightarrow> string" where
  "child_text a b = (if is_absolute b then b else join ''/'' (path_parts a @ path_parts b))"

definition create_world_directory :: "web_lib \<Rightarrow> worlds_ctx \<Rightarrow> string \<Rightarrow> worlds_handler" where
  "create_world_directory L c w =
     with_world w (\<lambda>r.
       case json_body c of
         None \<Rightarrow> invalid ''A parent path and directory name are required.''
       | Some b \<Rightarrow>
           if \<not> (exact_keys [''path'', ''name''] b \<and> is_text ''path'' b \<and> is_text ''name'' b)
           then invalid ''A parent path and directory name are required.''
           else
             (let rel = text_of ''path'' b; name = wl_secure_filename L (text_of ''name'' b) in
              if name = [] \<or> name \<noteq> text_of ''name'' b \<or> name = ''.'' \<or> name = ''..'' then invalid ''Directory name is invalid.''
              else bind_run (gets (\<lambda>s. (ww_tree s, world_directory r s))) (\<lambda>(t, root).
                case (resolve_under t root rel True, resolve_under t root (child_text rel name) False) of
                  (Some parent, Some p) \<Rightarrow>
                    if \<not> is_dir t parent then fault ''FILE_NOT_FOUND'' ''Parent directory not found.''
                    else if node t p \<noteq> None then fault ''FILE_EXISTS'' ''Destination already exists.''
                    else if \<not> is_dir t (butlast p) then escape
                    else then_run (change (write_tree (t @ [(p, Dir)])))
                      (ret (ok_response [(''path'', JStr (child_text rel name))] 201))
                | _ \<Rightarrow> unauthorized_path)))"

definition file_actions :: "string list" where
  "file_actions = [''rename'', ''move'', ''copy'']"

definition links_below :: "tree \<Rightarrow> path \<Rightarrow> bool" where
  "links_below t p \<longleftrightarrow> list_ex (\<lambda>(q, n). is_under p q \<and> q \<noteq> p \<and> is_link (Some n)) t"

definition file_edit_payload :: "worlds_ctx \<Rightarrow> tree \<Rightarrow> path \<Rightarrow> string \<Rightarrow> string \<Rightarrow> string \<Rightarrow> path \<Rightarrow> jdict" where
  "file_edit_payload c t source action a b root =
     [(''entity'', JStr ''files''), (''row_id'', JStr a),
      (''before'', JObj [(''source'', JObj [(''is_directory'', JBool (is_dir t source)), (''size'', size_json (node t source)),
         (''mtime'', mtime_seconds c source)]), (''destination'', JNull)]),
      (''after'', JObj [(''action'', JStr action), (''from'', JStr a), (''to'', JStr b)]),
      (''queued_file_edit'', JBool True), (''world_root'', JStr (''/'' @ join ''/'' root)),
      (''action'', JStr action), (''from'', JStr a), (''to'', JStr b)]"

definition edit_world_file :: "world_env \<Rightarrow> worlds_ctx \<Rightarrow> string \<Rightarrow> worlds_handler" where
  "edit_world_file E c w = with_key CONFIG_EDIT c (\<lambda>k.
     with_world w (\<lambda>r.
       case json_body c of
         None \<Rightarrow> invalid ''A valid file action, source, and destination are required.''
       | Some b \<Rightarrow>
           if \<not> (exact_keys [''action'', ''from'', ''to''] b \<and> is_text ''action'' b \<and>
                text_of ''action'' b \<in> set file_actions \<and> is_text ''from'' b \<and> is_text ''to'' b)
           then invalid ''A valid file action, source, and destination are required.''
           else bind_run (gets (\<lambda>s. (ww_tree s, world_directory r s))) (\<lambda>(t, root).
             let act = text_of ''action'' b in
             case (resolve_under t root (text_of ''from'' b) False, resolve_under t root (text_of ''to'' b) False) of
               (Some source, Some target) \<Rightarrow>
                 if node t source = None then fault ''FILE_NOT_FOUND'' ''Source not found.''
                 else if node t target \<noteq> None then fault ''FILE_EXISTS'' ''Destination already exists.''
                 else if \<not> is_dir t (butlast target) then fault ''FILE_NOT_FOUND'' ''Destination directory not found.''
                 else if act = ''copy'' \<and> (is_link (node t source) \<or> is_dir t source \<and> links_below t source)
                 then fault ''FILE_PATH_UNAUTHORIZED'' ''Symbolic links cannot be copied.''
                 else bind_run (of_option Escaped (resolve t root)) (\<lambda>real.
                   enqueue E CONFIG_EDIT (Some w) c k
                     (file_edit_payload c t source act (text_of ''from'' b) (text_of ''to'' b) real))
             | _ \<Rightarrow> unauthorized_path)))"

definition file_audit :: "worlds_ctx \<Rightarrow> string \<Rightarrow> string \<Rightarrow> (worlds_web, web_error, unit) action" where
  "file_audit c w rel s =
     (case audit_write (wc_ids c 0 0) (wc_now c) \<lparr>ai_event = ''world_file_deleted'',
             ai_actor = snapshot_for_user (sn_user (wc_session c)) None None (rq_remote (wc_request c)) (ww_store s),
             ai_operation = None, ai_world = Some w, ai_payload = Some [(''path'', JStr rel)], ai_target = None,
             ai_annotation = None, ai_when = None\<rparr> (ww_store s) of
        None \<Rightarrow> (Inl Escaped, s)
      | Some st \<Rightarrow> (Inr (), s\<lparr>ww_sys := (ww_sys s)\<lparr>ws_ops := (ws_ops (ww_sys s))\<lparr>os_store := st\<rparr>\<rparr>\<rparr>))"

definition delete_world_file :: "worlds_ctx \<Rightarrow> string \<Rightarrow> worlds_handler" where
  "delete_world_file c w =
     with_world w (\<lambda>r.
       case Option.bind (json_body c) (\<lambda>b. as_str (jget ''path'' b)) of
         None \<Rightarrow> invalid ''A file path is required.''
       | Some rel \<Rightarrow>
           bind_run (gets (\<lambda>s. (ww_tree s, world_directory r s))) (\<lambda>(t, root).
             case resolve_under t root rel False of
               None \<Rightarrow> unauthorized_path
             | Some p \<Rightarrow>
                 if node t p = None then fault ''FILE_NOT_FOUND'' ''File not found.''
                 else then_run (file_audit c w rel)
                   (then_run (change (write_tree (drop_tree p t)))
                     (answer [(''path'', JStr rel), (''deleted'', JBool True)]))))"

section \<open>Logs\<close>

definition LOG_CHANNELS :: "string list" where
  "LOG_CHANNELS = [''minecraft'', ''crash_reports'', ''backup_restore'', ''panel_activity'', ''panel_errors'',
     ''debug'', ''sync'', ''manager_action'']"

definition valid_channel :: "string \<Rightarrow> bool" where
  "valid_channel channel \<longleftrightarrow> channel \<in> set LOG_CHANNELS"

definition list_world_log_channels :: "string \<Rightarrow> worlds_handler" where
  "list_world_log_channels w = with_world w (\<lambda>_. answer [(''channels'', JArr (map JStr LOG_CHANNELS))])"

definition channel_directory :: "world_row \<Rightarrow> string \<Rightarrow> worlds_web \<Rightarrow> path" where
  "channel_directory r channel s =
     (if channel = ''crash_reports'' then world_directory r s @ [''crash-reports'']
      else if channel = ''minecraft'' then log_directory (wo_id r) s
      else log_directory (wo_id r) s @ [channel])"

text \<open>The regular files of a directory that is reached through links or not; none when it is not one.\<close>

definition plain_files :: "tree \<Rightarrow> path \<Rightarrow> (path \<times> string) list option" where
  "plain_files t dir =
     (case resolve t dir of
        None \<Rightarrow> None
      | Some d \<Rightarrow>
          if \<not> is_dir t d then None
          else Some (map (\<lambda>n. (d @ [n], n)) (filter (\<lambda>n. file_bytes (node t (d @ [n])) \<noteq> None) (children t d))))"

text \<open>\<open>isdigit\<close> also holds of superscript digits, on which \<open>int\<close> raises.\<close>

definition py_isdigit :: "string \<Rightarrow> bool" where
  "py_isdigit s \<longleftrightarrow> s \<noteq> [] \<and> list_all (\<lambda>ch. is_digit ch \<or> (of_char ch :: nat) \<in> {178, 179, 185}) s"

definition tail_of_file :: "web_lib \<Rightarrow> string \<Rightarrow> string \<Rightarrow> int \<Rightarrow> string \<Rightarrow> jdict" where
  "tail_of_file L channel name offset content =
     (let start = min offset (int (length content)); rest = drop (nat start) content in
      [(''channel'', JStr channel), (''file'', JStr name), (''offset'', JInt offset),
       (''next_offset'', JInt (start + int (length rest))),
       (''lines'', JArr (map JStr (splitlines (wl_decode L rest))))])"

definition buffered_after :: "int \<Rightarrow> jdict list \<Rightarrow> json list" where
  "buffered_after offset ls = map JObj (filter (\<lambda>l. case jget ''line_no'' l of Some (JInt n) \<Rightarrow> offset < n | _ \<Rightarrow> False) ls)"

definition tail_world_log :: "web_lib \<Rightarrow> worlds_ctx \<Rightarrow> string \<Rightarrow> string \<Rightarrow> worlds_handler" where
  "tail_world_log L c w channel =
     with_world w (\<lambda>r.
       (let text = arg ''offset'' ''0'' (wx_args c) in
        if \<not> valid_channel channel then invalid ''Unsupported log channel.''
        else if \<not> py_isdigit text then invalid ''offset must be a non-negative integer.''
        else
          bind_run (of_option Escaped (parse_digits text)) (\<lambda>offset.
          bind_run (gets (\<lambda>s. (ww_tree s, plain_files (ww_tree s) (channel_directory r channel s)))) (\<lambda>(t, fs).
          case sort_key (\<lambda>(p, n). wx_mtime c p) (case fs of None \<Rightarrow> [] | Some xs \<Rightarrow> xs) of
            [] \<Rightarrow>
              (if channel = ''minecraft''
               then bind_run (gets (\<lambda>s. buffered w (ww_fanout s))) (\<lambda>ls.
                 answer [(''channel'', JStr channel), (''offset'', JInt offset), (''lines'', JArr (buffered_after offset ls))])
               else fault ''FILE_NOT_FOUND'' ''No historical log file was found.'')
          | x # xs \<Rightarrow>
              (let (p, n) = last (x # xs) in
               answer (tail_of_file L channel n offset (case file_bytes (node t p) of None \<Rightarrow> [] | Some y \<Rightarrow> y)))))))"

definition download_world_log :: "web_lib \<Rightarrow> worlds_ctx \<Rightarrow> string \<Rightarrow> string \<Rightarrow> string \<Rightarrow> worlds_handler" where
  "download_world_log L c w channel file =
     with_world w (\<lambda>r.
       if \<not> valid_channel channel then invalid ''Unsupported log channel.''
       else bind_run (gets (\<lambda>s. (ww_tree s, channel_directory r channel s))) (\<lambda>(t, dir).
         case resolve_under t dir file False of
           None \<Rightarrow> fault ''FILE_PATH_UNAUTHORIZED'' ''Path escapes the log directory.''
         | Some p \<Rightarrow>
             (case file_bytes (node t p) of
                None \<Rightarrow> fault ''FILE_NOT_FOUND'' ''Log file not found.''
              | Some x \<Rightarrow> ret (wl_send_file L (wc_request c) (last p) x))))"

definition log_file_entry :: "worlds_ctx \<Rightarrow> tree \<Rightarrow> path \<times> string \<Rightarrow> json" where
  "log_file_entry c t x =
     (case x of (p, n) \<Rightarrow> JObj [(''name'', JStr n), (''size'', size_json (node t p)), (''mtime'', mtime_seconds c p)])"

definition list_world_log_files :: "worlds_ctx \<Rightarrow> string \<Rightarrow> string \<Rightarrow> worlds_handler" where
  "list_world_log_files c w channel =
     with_world w (\<lambda>r.
       if \<not> valid_channel channel then invalid ''Unsupported log channel.''
       else bind_run (gets (\<lambda>s. (ww_tree s, plain_files (ww_tree s) (channel_directory r channel s),
                                 resolve (ww_tree s) (channel_directory r channel s)))) (\<lambda>(t, fs, dir).
         if dir = None then escape
         else answer [(''channel'', JStr channel), (''files'', JArr (map (log_file_entry c t)
                (sort_key (\<lambda>(p, n). lower n) (case fs of None \<Rightarrow> [] | Some xs \<Rightarrow> xs))))]))"

section \<open>All routes\<close>

datatype worlds_route =
    CreateWorld
  | UpdateWorld string
  | DeletePreview string
  | DeleteWorld string
  | GetRuntimeConfig string
  | UpdateRuntimeConfig string
  | GetEula string
  | ListFiles string
  | DownloadFile string
  | UploadFile string
  | MakeDirectory string
  | EditFile string
  | DeleteFile string
  | ListChannels string
  | TailLog string string
  | DownloadLog string string string
  | ListLogFiles string string

fun handle_route :: "crypto \<Rightarrow> web_lib \<Rightarrow> world_env \<Rightarrow> worlds_ctx \<Rightarrow> worlds_route \<Rightarrow> worlds_handler" where
  "handle_route cr L E c CreateWorld = create_world E c"
| "handle_route cr L E c (UpdateWorld w) = update_world c w"
| "handle_route cr L E c (DeletePreview w) = world_delete_preview cr c w"
| "handle_route cr L E c (DeleteWorld w) = delete_world cr E c w"
| "handle_route cr L E c (GetRuntimeConfig w) = get_runtime_config w"
| "handle_route cr L E c (UpdateRuntimeConfig w) = update_runtime_config E c w"
| "handle_route cr L E c (GetEula w) = get_world_eula w"
| "handle_route cr L E c (ListFiles w) = list_world_files c w"
| "handle_route cr L E c (DownloadFile w) = download_world_file L c w"
| "handle_route cr L E c (UploadFile w) = upload_world_file c w"
| "handle_route cr L E c (MakeDirectory w) = create_world_directory L c w"
| "handle_route cr L E c (EditFile w) = edit_world_file E c w"
| "handle_route cr L E c (DeleteFile w) = delete_world_file c w"
| "handle_route cr L E c (ListChannels w) = list_world_log_channels w"
| "handle_route cr L E c (TailLog w ch) = tail_world_log L c w ch"
| "handle_route cr L E c (DownloadLog w ch f) = download_world_log L c w ch f"
| "handle_route cr L E c (ListLogFiles w ch) = list_world_log_files c w ch"

end
