(* ===== verification/Web_Worlds_Props.thy ===== *)
theory Web_Worlds_Props
  imports Web_Worlds
begin

text \<open>
  What the world routes change: which of them touch the tree and the previews, that file requests
  stay inside the directory of their world, and that a deletion needs a fresh preview.
\<close>

section \<open>What the handlers leave alone\<close>

text \<open>\<open>calm\<close>: the tree is the same; \<open>hold\<close>: the previews are the same.  In both the monotonic
  clock does not go back.\<close>

definition calm :: "worlds_web \<Rightarrow> worlds_web \<Rightarrow> bool" where
  "calm s t \<longleftrightarrow> ww_tree t = ww_tree s \<and> ws_time (ww_sys s) \<le> ws_time (ww_sys t)"

definition hold :: "worlds_web \<Rightarrow> worlds_web \<Rightarrow> bool" where
  "hold s t \<longleftrightarrow> ww_previews t = ww_previews s \<and> ws_time (ww_sys s) \<le> ws_time (ww_sys t)"

interpretation calm: state_order calm
  by unfold_locales (auto simp: calm_def)

interpretation hold: state_order hold
  by unfold_locales (auto simp: hold_def)

lemma create_op_sys:
  assumes "create_op E req allow s = (r, s')"
  shows "ws_tree s' = ws_tree s" and "ws_time s \<le> ws_time s'"
  using assms by (auto simp: create_op_def op_call_def tick_def split: sum.splits prod.splits)

lemma world_summary_sys: "world_summary w s = (r, s') \<Longrightarrow> s' = s"
  by (auto simp: world_summary_def world_of_def bind_run_def gets_def of_option_def ret_def raise_def
      split: prod.splits sum.splits option.splits)

lemma driver_enqueue [stay_rules]:
  "calm.stays (on_driver (enqueue_world_mutation E ty w u k d))" "hold.stays (on_driver (enqueue_world_mutation E ty w u k d))"
  by (auto intro!: calm.staysI hold.staysI dest: create_op_sys
      simp: on_driver_def enqueue_world_mutation_def calm_def hold_def split: prod.splits)

lemma driver_summary [stay_rules]:
  "calm.stays (on_driver (world_summary w))" "hold.stays (on_driver (world_summary w))"
  by (auto intro!: calm.staysI hold.staysI dest: world_summary_sys simp: on_driver_def calm_def hold_def split: prod.splits)

lemma rename_stays [stay_rules]: "calm.stays (rename_call c v)" "hold.stays (rename_call c v)"
  by (auto intro!: calm.staysI hold.staysI simp: rename_call_def after_config_def calm_def hold_def Let_def split: prod.splits)

lemma preview_stays [stay_rules]:
  "calm.stays (pop_preview t)" "calm.stays (change (make_preview cr c r))"
  by (auto intro!: calm.staysI simp: pop_preview_def change_def make_preview_def calm_def split: option.splits)

lemma audit_stays [stay_rules]: "calm.stays (file_audit c w rel)" "hold.stays (file_audit c w rel)"
  by (auto intro!: calm.staysI hold.staysI simp: file_audit_def calm_def hold_def split: option.splits)

lemma write_tree_stays [stay_rules]: "hold.stays (change (write_tree t))"
  by (auto intro!: hold.staysI simp: change_def write_tree_def hold_def)

lemmas handler_defs = fault_def refuse_def invalid_def answer_def respond_def unauthorized_path_def

lemma with_world_stays [stay_rules]:
  "(\<And>r. calm.stays (f r)) \<Longrightarrow> calm.stays (with_world w f)" "(\<And>r. hold.stays (f r)) \<Longrightarrow> hold.stays (with_world w f)"
  unfolding with_world_def handler_defs by (intro stay_rules; simp)+

lemma enqueue_stays [stay_rules]:
  "calm.stays (enqueue E ty w c k d)" "hold.stays (enqueue E ty w c k d)"
  unfolding enqueue_def handler_defs by (intro stay_rules)+

lemma with_key_stays [stay_rules]:
  "(\<And>k. calm.stays (f k)) \<Longrightarrow> calm.stays (with_key ty c f)" "(\<And>k. hold.stays (f k)) \<Longrightarrow> hold.stays (with_key ty c f)"
  unfolding with_key_def handler_defs by (intro stay_rules; simp)+

lemma create_world_stays: "calm.stays (create_world E c)" "hold.stays (create_world E c)"
  unfolding create_world_def handler_defs Let_def
  by (auto intro!: stay_rules split: option.split sum.split prod.split list.split)

lemma update_world_stays: "calm.stays (update_world c w)" "hold.stays (update_world c w)"
  unfolding update_world_def handler_defs Let_def
  by (auto intro!: stay_rules split: option.split sum.split prod.split list.split)

lemma world_delete_preview_stays: "calm.stays (world_delete_preview cr c w)"
  unfolding world_delete_preview_def handler_defs Let_def
  by (auto intro!: stay_rules split: option.split sum.split prod.split list.split)

lemma delete_world_stays: "calm.stays (delete_world cr E c w)"
  unfolding delete_world_def handler_defs Let_def
  by (auto intro!: stay_rules split: option.split sum.split prod.split list.split)

lemma get_runtime_config_stays: "calm.stays (get_runtime_config w)" "hold.stays (get_runtime_config w)"
  unfolding get_runtime_config_def handler_defs Let_def
  by (auto intro!: stay_rules split: option.split sum.split prod.split list.split)

lemma update_runtime_config_stays: "calm.stays (update_runtime_config E c w)" "hold.stays (update_runtime_config E c w)"
  unfolding update_runtime_config_def handler_defs Let_def
  by (auto intro!: stay_rules split: option.split sum.split prod.split list.split)

lemma get_world_eula_stays: "calm.stays (get_world_eula w)" "hold.stays (get_world_eula w)"
  unfolding get_world_eula_def handler_defs Let_def
  by (auto intro!: stay_rules split: option.split sum.split prod.split list.split)

lemma list_world_files_stays: "calm.stays (list_world_files c w)" "hold.stays (list_world_files c w)"
  unfolding list_world_files_def handler_defs Let_def
  by (auto intro!: stay_rules split: option.split sum.split prod.split list.split)

lemma download_world_file_stays: "calm.stays (download_world_file L c w)" "hold.stays (download_world_file L c w)"
  unfolding download_world_file_def handler_defs Let_def
  by (auto intro!: stay_rules split: option.split sum.split prod.split list.split)

lemma upload_world_file_stays: "hold.stays (upload_world_file c w)"
  unfolding upload_world_file_def handler_defs Let_def
  by (auto intro!: stay_rules split: option.split sum.split prod.split list.split)

lemma create_world_directory_stays: "hold.stays (create_world_directory L c w)"
  unfolding create_world_directory_def handler_defs Let_def
  by (auto intro!: stay_rules split: option.split sum.split prod.split list.split)

lemma edit_world_file_stays: "calm.stays (edit_world_file E c w)" "hold.stays (edit_world_file E c w)"
  unfolding edit_world_file_def handler_defs Let_def
  by (auto intro!: stay_rules split: option.split sum.split prod.split list.split)

lemma delete_world_file_stays: "hold.stays (delete_world_file c w)"
  unfolding delete_world_file_def handler_defs Let_def
  by (auto intro!: stay_rules split: option.split sum.split prod.split list.split)

lemma list_world_log_channels_stays: "calm.stays (list_world_log_channels w)" "hold.stays (list_world_log_channels w)"
  unfolding list_world_log_channels_def handler_defs Let_def
  by (auto intro!: stay_rules split: option.split sum.split prod.split list.split)

lemma tail_world_log_stays: "calm.stays (tail_world_log L c w ch)" "hold.stays (tail_world_log L c w ch)"
  unfolding tail_world_log_def handler_defs Let_def
  by (auto intro!: stay_rules split: option.split sum.split prod.split list.split)

lemma download_world_log_stays: "calm.stays (download_world_log L c w ch f)" "hold.stays (download_world_log L c w ch f)"
  unfolding download_world_log_def handler_defs Let_def
  by (auto intro!: stay_rules split: option.split sum.split prod.split list.split)

lemma list_world_log_files_stays: "calm.stays (list_world_log_files c w ch)" "hold.stays (list_world_log_files c w ch)"
  unfolding list_world_log_files_def handler_defs Let_def
  by (auto intro!: stay_rules split: option.split sum.split prod.split list.split)


section \<open>File requests stay inside\<close>

lemma resolve_under_inside:
  assumes "resolve_under t root rel a = Some p"
  obtains r where "resolve t root = Some r" "is_under r p"
  using assms by (auto simp: resolve_under_def split: option.splits if_splits)

lemma with_world_cases:
  assumes "with_world w f s = (r, s')"
  obtains (missing) "live_world w s = None" "s' = s" "r = Inr (error_response ''WORLD_NOT_FOUND'' ''World not found.'' None)"
  | (found) row where "live_world w s = Some row" "f row s = (r, s')"
  using assms by (auto simp: with_world_def bind_run_def gets_def fault_def ret_def split: option.splits)

lemma write_tree_tree [simp]: "ww_tree (write_tree t s) = t"
  by (simp add: write_tree_def)

lemma new_node_outside: "is_under root p \<Longrightarrow> same_outside root t (t @ [(p, n)])"
  by (rule append_outside) auto

text \<open>The tree after a handler for a row: as before outside the directory.\<close>

definition confined :: "path \<Rightarrow> worlds_web \<Rightarrow> worlds_web \<Rightarrow> bool" where
  "confined dir s t \<longleftrightarrow> (case resolve (ww_tree s) dir of
     None \<Rightarrow> ww_tree t = ww_tree s | Some root \<Rightarrow> same_outside root (ww_tree s) (ww_tree t))"

lemma confined_same: "ww_tree t = ww_tree s \<Longrightarrow> confined dir s t"
  by (simp add: confined_def same_outside_refl split: option.split)

lemma confined_new:
  assumes "resolve_under (ww_tree s) dir rel a = Some p"
  shows "confined dir s (write_tree (ww_tree s @ [(p, n)]) t)"
  using assms by (rule resolve_under_inside) (simp add: confined_def new_node_outside)

lemma confined_drop:
  assumes "resolve_under (ww_tree s) dir rel a = Some p"
  shows "confined dir s (write_tree (drop_tree p (ww_tree s)) t)"
  using assms by (rule resolve_under_inside) (simp add: confined_def drop_tree_outside)

lemmas run_defs = bind_run_def gets_def ret_def change_def raise_def handler_defs

lemma upload_confined:
  assumes "upload_world_file c w s = (r, s')" and "live_world w s = Some row"
  shows "confined (world_directory row s) s s'"
  using assms(1) unfolding upload_world_file_def
  by (cases rule: with_world_cases)
     (use assms(2) in \<open>auto simp: Let_def run_defs intro: confined_same confined_new confined_drop
        split: option.splits if_splits prod.splits\<close>)

lemma mkdir_confined:
  assumes "create_world_directory L c w s = (r, s')" and "live_world w s = Some row"
  shows "confined (world_directory row s) s s'"
  using assms(1) unfolding create_world_directory_def
  by (cases rule: with_world_cases)
     (use assms(2) in \<open>auto simp: Let_def run_defs intro: confined_same confined_new confined_drop
        split: option.splits if_splits prod.splits\<close>)

lemma delete_confined:
  assumes "delete_world_file c w s = (r, s')" and "live_world w s = Some row"
  shows "confined (world_directory row s) s s'"
  using assms(1) unfolding delete_world_file_def
  by (cases rule: with_world_cases)
     (use assms(2) in \<open>auto simp: Let_def run_defs file_audit_def intro: confined_same confined_new confined_drop
        split: option.splits if_splits prod.splits\<close>)

fun route_world :: "worlds_route \<Rightarrow> string option" where
  "route_world CreateWorld = None"
| "route_world (UpdateWorld w) = Some w"
| "route_world (DeletePreview w) = Some w"
| "route_world (DeleteWorld w) = Some w"
| "route_world (GetRuntimeConfig w) = Some w"
| "route_world (UpdateRuntimeConfig w) = Some w"
| "route_world (GetEula w) = Some w"
| "route_world (ListFiles w) = Some w"
| "route_world (DownloadFile w) = Some w"
| "route_world (UploadFile w) = Some w"
| "route_world (MakeDirectory w) = Some w"
| "route_world (EditFile w) = Some w"
| "route_world (DeleteFile w) = Some w"
| "route_world (ListChannels w) = Some w"
| "route_world (TailLog w ch) = Some w"
| "route_world (DownloadLog w ch f) = Some w"
| "route_world (ListLogFiles w ch) = Some w"

text \<open>The directory a download serves from.\<close>

fun served_from :: "worlds_route \<Rightarrow> world_row \<Rightarrow> worlds_web \<Rightarrow> path option" where
  "served_from (DownloadFile w) row s = Some (world_directory row s)"
| "served_from (DownloadLog w ch f) row s = Some (channel_directory row ch s)"
| "served_from _ row s = None"

definition serves_inside :: "web_lib \<Rightarrow> worlds_ctx \<Rightarrow> path \<Rightarrow> tree \<Rightarrow> response \<Rightarrow> bool" where
  "serves_inside L c dir t rp \<longleftrightarrow> (\<exists>root p x. resolve t dir = Some root \<and> is_under root p \<and> node t p = Some (File x) \<and>
     rp = wl_send_file L (wc_request c) (last p) x)"

definition is_error :: "response \<Rightarrow> bool" where
  "is_error rp \<longleftrightarrow> (\<exists>code message. rp = error_response code message None)"

lemma file_bytes_Some: "file_bytes n = Some x \<longleftrightarrow> n = Some (File x)"
  by (cases n rule: file_bytes.cases) auto

lemma serves_insideI:
  assumes "resolve_under t dir rel a = Some p" and "file_bytes (node t p) = Some x"
  shows "serves_inside L c dir t (wl_send_file L (wc_request c) (last p) x)"
  using assms(1) by (rule resolve_under_inside) (use assms(2) in \<open>auto simp: serves_inside_def file_bytes_Some\<close>)

lemma is_errorI [intro]: "is_error (error_response code message None)"
  by (auto simp: is_error_def)

lemma download_serves:
  assumes "download_world_file L c w s = (Inr rp, s')" and "live_world w s = Some row"
  shows "is_error rp \<or> serves_inside L c (world_directory row s) (ww_tree s) rp"
  using assms(1) unfolding download_world_file_def
  by (cases rule: with_world_cases)
     (use assms(2) in \<open>auto simp: run_defs intro: serves_insideI split: option.splits\<close>)

lemma log_download_serves:
  assumes "download_world_log L c w ch f s = (Inr rp, s')" and "live_world w s = Some row"
  shows "is_error rp \<or> serves_inside L c (channel_directory row ch s) (ww_tree s) rp"
  using assms(1) unfolding download_world_log_def
  by (cases rule: with_world_cases)
     (use assms(2) in \<open>auto simp: run_defs intro: serves_insideI split: option.splits if_splits\<close>)

lemmas calm_routes =
  create_world_stays(1) update_world_stays(1) world_delete_preview_stays delete_world_stays
  get_runtime_config_stays(1) update_runtime_config_stays(1) get_world_eula_stays(1) list_world_files_stays(1)
  download_world_file_stays(1) edit_world_file_stays(1) list_world_log_channels_stays(1)
  tail_world_log_stays(1) download_world_log_stays(1) list_world_log_files_stays(1)

lemma route_calm:
  assumes "handle_route cr L E c rt s = (r, s')"
  shows "calm s s' \<or> (\<exists>w. rt \<in> {UploadFile w, MakeDirectory w, DeleteFile w})"
  using assms by (cases rt) (auto dest: calm_routes[THEN calm.staysD])

lemma missing_world_calm:
  assumes "rt \<in> {UploadFile w, MakeDirectory w, DeleteFile w}" and "live_world w s = None"
    and "handle_route cr L E c rt s = (r, s')"
  shows "s' = s"
proof -
  have "with_world w f s = (r, s') \<Longrightarrow> s' = s" for f
    by (erule with_world_cases) (use assms(2) in simp_all)
  with assms(1,3) show ?thesis
    by (auto simp: upload_world_file_def create_world_directory_def delete_world_file_def)
qed

text \<open>C12: whatever a request to the world routes says, it changes nothing in the tree outside the
  directory of the live world it names, and nothing at all when there is no such world or its
  directory does not resolve; and a download answers with an error or serves a regular file below
  the world's directory (a log: below the channel's), however the path is written and wherever
  links lead.\<close>

theorem file_requests_stay_inside:
  assumes "handle_route cr L E c rt s = (r, s')"
  shows "case Option.bind (route_world rt) (\<lambda>w. live_world w s) of
       None \<Rightarrow> ww_tree s' = ww_tree s
     | Some row \<Rightarrow>
         confined (world_directory row s) s s' \<and>
         (case (served_from rt row s, r) of
            (Some dir, Inr rp) \<Rightarrow> is_error rp \<or> serves_inside L c dir (ww_tree s) rp
          | _ \<Rightarrow> True)"
proof (cases "Option.bind (route_world rt) (\<lambda>w. live_world w s)")
  case None
  with route_calm[OF assms] missing_world_calm[OF _ _ assms] show ?thesis by (auto simp: calm_def)
next
  case (Some row)
  have "confined (world_directory row s) s s'"
    using route_calm[OF assms]
  proof
    assume "calm s s'" then show ?thesis by (simp add: calm_def confined_same)
  next
    assume "\<exists>w. rt \<in> {UploadFile w, MakeDirectory w, DeleteFile w}"
    then show ?thesis using assms Some upload_confined mkdir_confined delete_confined by auto
  qed
  moreover have "case (served_from rt row s, r) of
      (Some dir, Inr rp) \<Rightarrow> is_error rp \<or> serves_inside L c dir (ww_tree s) rp | _ \<Rightarrow> True"
    using assms Some download_serves log_download_serves by (cases rt; cases r) auto
  ultimately show ?thesis using Some by simp
qed

section \<open>Deletions\<close>

text \<open>The requests of a run, each with the state it met; between them other components change the
  state of the world service and time passes.  The manager starts with no previews.\<close>

inductive requests ::
  "crypto \<Rightarrow> web_lib \<Rightarrow> world_env \<Rightarrow> (worlds_web \<times> worlds_ctx \<times> worlds_route) list \<Rightarrow> worlds_web \<Rightarrow> bool"
  for cr L E where
  start: "ww_previews s = [] \<Longrightarrow> requests cr L E [] s"
| request: "requests cr L E h s \<Longrightarrow> handle_route cr L E c rt s = (r, s') \<Longrightarrow> requests cr L E (h @ [(s, c, rt)]) s'"
| meanwhile: "requests cr L E h s \<Longrightarrow> ws_time (ww_sys s) \<le> ws_time sys \<Longrightarrow> requests cr L E h (s\<lparr>ww_sys := sys\<rparr>)"

definition preview_of :: "crypto \<Rightarrow> worlds_ctx \<Rightarrow> world_row \<Rightarrow> worlds_web \<Rightarrow> delete_preview" where
  "preview_of cr c r s = \<lparr>dp_world = wo_id r, dp_user = sn_user (wc_session c), dp_session = session_hash cr c,
     dp_version = wo_metadata_version r, dp_expires = ws_time (ww_sys s) + preview_ttl\<rparr>"

text \<open>A preview was asked for in the run.\<close>

definition preview_asked ::
  "crypto \<Rightarrow> (worlds_web \<times> worlds_ctx \<times> worlds_route) list \<Rightarrow> string \<Rightarrow> delete_preview \<Rightarrow> bool" where
  "preview_asked cr h k p \<longleftrightarrow> (\<exists>s c r. (s, c, DeletePreview (wo_id r)) \<in> set h \<and> live_world (wo_id r) s = Some r \<and>
     k = wc_ids c 0 2 \<and> p = preview_of cr c r s)"

lemma in_dict_set: "(k, v) \<in> set (dict_set k' v' xs) \<Longrightarrow> (k, v) = (k', v') \<or> (k, v) \<in> set xs"
  by (induction xs) (auto split: if_splits)

lemma live_world_id: "live_world w s = Some r \<Longrightarrow> wo_id r = w"
  by (auto simp: live_world_def dest: find_row_SomeD)

lemma preview_request:
  assumes "world_delete_preview cr c w s = (r, s')" and "(k, p) \<in> set (ww_previews s')"
  shows "(k, p) \<in> set (ww_previews s) \<or>
     (\<exists>row. live_world w s = Some row \<and> k = wc_ids c 0 2 \<and> p = preview_of cr c row s)"
  using assms(1) unfolding world_delete_preview_def
proof (cases rule: with_world_cases)
  case (found row)
  then have "s' = s \<or> s' = make_preview cr c row s" by (auto simp: run_defs split: if_splits)
  with assms(2) found(1) show ?thesis
    by (auto simp: make_preview_def preview_of_def fresh_previews_def dest!: in_dict_set)
qed (use assms(2) in simp)

lemma pop_preview_Inr:
  assumes "pop_preview t s = (r, s1)"
  shows "ww_sys s1 = ww_sys s" and "ww_previews s1 \<noteq> ww_previews s \<Longrightarrow> t \<noteq> None"
    and "r = Inr (Option.bind t (map_of (ww_previews s)))" and "(k, p) \<in> set (ww_previews s1) \<Longrightarrow> (k, p) \<in> set (ww_previews s)"
    and "t = Some k \<Longrightarrow> map_of (ww_previews s1) k = None"
  using assms by (auto simp: pop_preview_def map_of_eq_None_iff split: option.splits)

lemma delete_world_cases:
  assumes "delete_world cr E c w s = (r, s')"
  obtains (early) "s' = s"
  | (popped) t s1 where "pop_preview t s = (Inr (Option.bind t (map_of (ww_previews s))), s1)" "s' = s1"
  | (enqueued) t s1 k p row where "t = Option.bind (json_body c) (\<lambda>b. as_str (jget ''preview_token'' b))"
      "pop_preview t s = (Inr (Some p), s1)" "live_world w s1 = Some row"
      "preview_fits cr c row (ws_time (ww_sys s1)) p" "\<not> world_conflict w s1"
      "enqueue E DELETE_WORLD (Some w) c k [(''world_action'', JStr ''delete''),
         (''preview_version'', JInt (dp_version p))] s1 = (r, s')"
proof -
  let ?t = "Option.bind (json_body c) (\<lambda>b. as_str (jget ''preview_token'' b))"
  obtain q s1 where pop: "pop_preview ?t s = (q, s1)" by fastforce
  have q: "q = Inr (Option.bind ?t (map_of (ww_previews s)))" using pop_preview_Inr(3)[OF pop] .
  show ?thesis
    using assms popped[of ?t s1] enqueued[of ?t] early pop unfolding delete_world_def with_key_def q
    by (auto simp: run_defs checked_preview_def split: option.splits if_splits)
qed

lemma enqueue_previews: "enqueue E ty w c k d s = (r, s') \<Longrightarrow> ww_previews s' = ww_previews s"
  using hold.staysD[OF enqueue_stays(2)] by (auto simp: hold_def)

lemma delete_request:
  assumes "delete_world cr E c w s = (r, s')" and "(k, p) \<in> set (ww_previews s')"
  shows "(k, p) \<in> set (ww_previews s)"
  using assms(1)
  by (cases rule: delete_world_cases) (use assms(2) pop_preview_Inr(4) enqueue_previews in fastforce)+

lemmas hold_routes =
  create_world_stays(2) update_world_stays(2) get_runtime_config_stays(2) update_runtime_config_stays(2)
  get_world_eula_stays(2) list_world_files_stays(2) download_world_file_stays(2) upload_world_file_stays
  create_world_directory_stays edit_world_file_stays(2) delete_world_file_stays list_world_log_channels_stays(2)
  tail_world_log_stays(2) download_world_log_stays(2) list_world_log_files_stays(2)

lemma route_previews:
  assumes "handle_route cr L E c rt s = (r, s')" and "(k, p) \<in> set (ww_previews s')"
  shows "(k, p) \<in> set (ww_previews s) \<or> preview_asked cr [(s, c, rt)] k p"
proof -
  have "hold s s' \<or> (\<exists>w. rt = DeletePreview w \<or> rt = DeleteWorld w)"
    using assms(1) by (cases rt) (auto dest: hold_routes[THEN hold.staysD])
  then consider "hold s s'" | w where "rt = DeletePreview w" | w where "rt = DeleteWorld w" by blast
  then show ?thesis
  proof cases
    case 2
    with assms preview_request[of cr c w s r s' k p] show ?thesis
      by (auto simp: preview_asked_def) (metis live_world_id)
  qed (use assms delete_request in \<open>auto simp: hold_def\<close>)
qed

lemma previews_were_asked:
  "requests cr L E h s \<Longrightarrow> (k, p) \<in> set (ww_previews s) \<Longrightarrow> preview_asked cr h k p"
proof (induction rule: requests.induct)
  case (request h s c rt r s')
  from route_previews[OF request.hyps(2) request.prems] request.IH
  show ?case by (auto simp: preview_asked_def)
qed auto

text \<open>C14: in every run of requests, whatever other components do in between: a request that deletes
  a world and adds an operation carries the token of a preview that was asked for in the run, for
  this world, by the same user in the same session, at most 300 seconds ago, when the world had
  the metadata version it still has; the world is off with nothing in flight; and the token is
  spent.\<close>

theorem deletion_needs_a_fresh_preview:
  assumes "requests cr L E h s" and "handle_route cr L E c (DeleteWorld w) s = (r, s')"
    and "operations (ww_store s') \<noteq> operations (ww_store s)"
  shows "\<exists>s0 c0 r0 row k b. (s0, c0, DeletePreview w) \<in> set h \<and> json_body c = Some b \<and>
     jget ''preview_token'' b = Some (JStr k) \<and> k = wc_ids c0 0 2 \<and>
     live_world w s0 = Some r0 \<and> live_world w s = Some row \<and>
     sn_user (wc_session c0) = sn_user (wc_session c) \<and> session_hash cr c0 = session_hash cr c \<and>
     wo_metadata_version r0 = wo_metadata_version row \<and>
     ws_time (ww_sys s) \<le> ws_time (ww_sys s0) + 300000 \<and>
     wo_state row = WS_OFF \<and> \<not> has_in_flight_operation w None (ww_store s) \<and>
     map_of (ww_previews s') k = None"
proof -
  from assms(2) have "delete_world cr E c w s = (r, s')" by simp
  then show ?thesis
  proof (cases rule: delete_world_cases)
    case early
    with assms(3) show ?thesis by simp
  next
    case (popped t s1)
    with assms(3) pop_preview_Inr(1)[OF popped(1)] show ?thesis by simp
  next
    case (enqueued t s1 k0 p row)
    note sys = pop_preview_Inr(1)[OF enqueued(2)]
    have live: "live_world w s1 = live_world w s" by (simp add: live_world_def sys)
    from pop_preview_Inr(3)[OF enqueued(2)] obtain k where t: "t = Some k" and k: "map_of (ww_previews s) k = Some p"
      by (cases t) auto
    from t enqueued(1) obtain b where b: "json_body c = Some b" "jget ''preview_token'' b = Some (JStr k)"
      by (auto simp: bind_eq_Some_conv elim!: as_str.elims)
    from previews_were_asked[OF assms(1) map_of_SomeD[OF k]]
    obtain s0 c0 r0 where a: "(s0, c0, DeletePreview (wo_id r0)) \<in> set h" "live_world (wo_id r0) s0 = Some r0"
      "k = wc_ids c0 0 2" "p = preview_of cr c0 r0 s0" by (auto simp: preview_asked_def)
    have fits: "wo_id r0 = wo_id row" "sn_user (wc_session c0) = sn_user (wc_session c)"
      "session_hash cr c0 = session_hash cr c" "wo_metadata_version r0 = wo_metadata_version row"
      "ws_time (ww_sys s) \<le> ws_time (ww_sys s0) + 300000"
      using enqueued(4) by (auto simp: preview_fits_def a(4) preview_of_def preview_ttl_def sys)
    have w: "wo_id row = w" by (rule live_world_id[OF enqueued(3)])
    have off: "wo_state row = WS_OFF" "\<not> has_in_flight_operation w None (ww_store s)"
      using enqueued(3,5) by (simp_all add: world_conflict_def live sys)
    have gone: "map_of (ww_previews s') k = None"
      using enqueue_previews[OF enqueued(6)] pop_preview_Inr(5)[OF enqueued(2) t] by simp
    show ?thesis
      using a fits off gone b enqueued(3) unfolding w live by (intro exI conjI) (assumption | simp add: w)+
  qed
qed

end
