(* ===== verification/Configuration_Edits.thy ===== *)
theory Configuration_Edits
  imports Configuration Operations_Frame
begin

text \<open>What a versioned edit leaves, for the services and routes that go through one: the other
  tables of the database as they were, and at most the rows of the edited key written.\<close>

section \<open>What an edit leaves of the other tables\<close>

lemma fail_update_frame: "store_frame (os_store (cf_ops s)) (os_store (cf_ops (snd (fail_update u now i e p s))))"
  by (auto simp: fail_update_def split: sum.splits prod.splits dest: transition_keeps)

lemma begin_update_frame:
  "begin_update u now v s = (r, s') \<Longrightarrow> store_frame (os_store (cf_ops s)) (os_store (cf_ops s'))"
  by (auto simp: begin_update_def split: sum.splits prod.splits
      dest!: transition_keeps create_with_replay_keeps intro: store_frame_trans)

lemma update_tx_ops: "snd (update_tx now v creating s) = Inr (r, s') \<Longrightarrow> cf_ops s' = cf_ops s"
  by (auto simp: update_tx_def Let_def split: if_splits option.splits)

lemma apply_update_frame:
  "store_frame (os_store (cf_ops s)) (os_store (cf_ops (snd (apply_update u now v i creating s))))"
proof (cases "snd (update_tx now v creating s)")
  case (Inl e)
  then obtain pl where "update_tx now v creating s = (pl, Inl e)" by (metis prod.collapse)
  then show ?thesis using fail_update_frame by (simp add: apply_update_def)
next
  case (Inr p)
  then obtain pl r s1 where tx: "update_tx now v creating s = (pl, Inr (r, s1))" by (metis prod.collapse)
  then have ops: "cf_ops s1 = cf_ops s" using update_tx_ops by (metis snd_conv)
  let ?ti = "\<lparr>ti_checkpoint = None, ti_error_code = None, ti_message = None, ti_data = Some pl\<rparr>"
  show ?thesis
  proof (cases "transition (u 2) now i OS_COMPLETED ?ti (cf_ops s1)")
    case (Inl e)
    then show ?thesis using fail_update_frame[of s1] by (simp add: apply_update_def tx ops)
  next
    case (Inr q)
    then show ?thesis using transition_keeps ops by (cases q) (fastforce simp: apply_update_def tx)
  qed
qed

lemma edit_frame:
  assumes "update_versioned_with_operation u now v s = (r, s')"
  shows "store_frame (os_store (cf_ops s)) (os_store (cf_ops s'))"
proof -
  obtain b s1 where b: "begin_update u now v s = (b, s1)" by (meson surj_pair)
  show ?thesis
  proof (cases b)
    case (Inr q)
    obtain i creating where "q = (i, creating)" by (cases q)
    with assms b Inr have "s' = snd (apply_update u now v i creating s1)"
      by (auto simp: update_versioned_with_operation_def dest: arg_cong[of _ _ snd])
    with apply_update_frame begin_update_frame[OF b] show ?thesis by (metis store_frame_trans)
  qed (use assms b begin_update_frame[OF b] in \<open>simp add: update_versioned_with_operation_def\<close>)
qed

section \<open>The rows an edit leaves\<close>

text \<open>The old rows, or the row of the edit with the fields written.\<close>

lemma edit_rows:
  assumes "update_versioned_with_operation u now v s = (res, s')" and "vu_entity v \<noteq> CE_WORLD_SETTINGS"
  obtains (same) "cf_tables s' = cf_tables s"
  | (written) key ver r f where "version_columns (vu_entity v) = Some (key, ver)"
      "r \<in> set (cf_tables s (vu_entity v))" "col key r = JStr (vu_row v)"
      "f = (\<lambda>x. bump ver (set_cols (written_fields now v r) x))"
      "broken_constraint (vu_entity v) key (vu_fields v) (cf_tables s (vu_entity v)) (f r) = None"
      "cf_tables s' = (cf_tables s)(vu_entity v :=
         update_rows (\<lambda>x. col key x = JStr (vu_row v)) f (cf_tables s (vu_entity v)))"
      "checked v False"
proof -
  obtain b s1 where b: "begin_update u now v s = (b, s1)" by (meson surj_pair)
  note t1 = begin_update_tables[OF b]
  show thesis
  proof (cases b)
    case (Inr q)
    obtain i creating where q: "q = (i, creating)" by (cases q)
    have ck: "checked v creating" using b Inr q by (auto intro: begin_update_checked)
    then have nc: "\<not> creating" using assms(2) by (simp add: checked_def)
    have s': "s' = snd (apply_update u now v i creating s1)"
      using assms(1) b Inr q by (auto simp: update_versioned_with_operation_def dest: arg_cong[of _ _ snd])
    note tb = apply_update_tables[of u now v i creating s1]
    show thesis
    proof (cases "snd (update_tx now v creating s1)")
      case (Inl e)
      with tb t1 s' same show thesis by simp
    next
      case (Inr p)
      obtain r' s2 where p: "p = (r', s2)" by (cases p)
      from Inr[unfolded p] nc obtain key ver r where r: "version_columns (vu_entity v) = Some (key, ver)"
        "find_config (vu_entity v) key (vu_row v) s1 = Some r"
        "broken_constraint (vu_entity v) key (vu_fields v) (cf_tables s1 (vu_entity v))
           (bump ver (set_cols (written_fields now v r) r)) = None"
        "cf_tables s2 = (cf_tables s1)(vu_entity v := update_rows (\<lambda>x. col key x = JStr (vu_row v))
           (\<lambda>x. bump ver (set_cols (written_fields now v r) x)) (cf_tables s1 (vu_entity v)))"
        by (auto simp: update_tx_def Let_def split: if_splits option.splits)
      have "cf_tables s' = cf_tables s2" using tb s' Inr p by simp
      with r t1 ck nc show thesis
        by (intro written[of key ver r]) (auto simp: find_config_def dest!: find_row_SomeD)
    qed
  next
    case (Inl e)
    with assms(1) b t1 same show thesis by (simp add: update_versioned_with_operation_def)
  qed
qed

end
