(* ===== verification/Web_Admin_Props.thy ===== *)
theory Web_Admin_Props
  imports Web_Admin Operations_Frame Configuration_Edits
begin

text \<open>
  What the administration routes keep, whatever requests and logins come in between: somebody can
  always administer the manager, and whoever was removed stays out.  The identity service is
  entered through one interface, the locale \<open>identity_invariant\<close>: a predicate on its tables that
  survives the writes the service makes survives all its calls.
\<close>

section \<open>Invariants of the identity service\<close>

text \<open>The service only ever adds roles, and live ones.\<close>

definition roles_extend :: "auth_sys \<Rightarrow> auth_sys \<Rightarrow> bool" where
  "roles_extend s t \<longleftrightarrow> (\<exists>rs. at_roles t = at_roles s @ rs \<and> (\<forall>r\<in>set rs. ro_deleted_at r = None))"

lemma roles_extend_refl [simp]: "roles_extend s s"
  by (simp add: roles_extend_def)

lemma roles_extend_same: "at_roles t = at_roles s \<Longrightarrow> roles_extend s t"
  by (simp add: roles_extend_def)

lemma roles_extend_trans: "roles_extend s t \<Longrightarrow> roles_extend t u \<Longrightarrow> roles_extend s u"
  by (auto simp: roles_extend_def)

locale identity_invariant =
  fixes P :: "auth_sys \<Rightarrow> bool" and barred :: "string \<Rightarrow> bool"
  assumes view: "P s \<Longrightarrow> users (at_store t) = users (at_store s) \<Longrightarrow> at_sessions t = at_sessions s \<Longrightarrow>
      at_roles t = at_roles s \<Longrightarrow> at_assignments t = at_assignments s \<Longrightarrow> P t"
    and user_kept: "P s \<Longrightarrow> (\<And>u. us_id (f u) = us_id u \<and> us_deleted_at (f u) = us_deleted_at u \<and>
      (us_status u \<noteq> US_DISABLED \<longrightarrow> us_status (f u) \<noteq> US_DISABLED)) \<Longrightarrow> P (update_user i f s)"
    and session_kept: "P s \<Longrightarrow> (\<And>r. se_user (g r) = se_user r \<and>
      (se_deleted_at r \<noteq> None \<longrightarrow> se_deleted_at (g r) \<noteq> None)) \<Longrightarrow>
      P (s\<lparr>at_sessions := update_rows p g (at_sessions s)\<rparr>)"
    and user_free: "P s \<Longrightarrow> u \<in> set (users (at_store s)) \<Longrightarrow> us_deleted_at u = None \<Longrightarrow> \<not> barred (us_id u)"
    and session_free: "P s \<Longrightarrow> r \<in> set (at_sessions s) \<Longrightarrow> se_deleted_at r = None \<Longrightarrow> \<not> barred (se_user r)"
    and admit: "P s \<Longrightarrow> \<not> barred (se_user r) \<Longrightarrow> P (s\<lparr>at_sessions := at_sessions s @ [r]\<rparr>)"
    and found: "P s \<Longrightarrow> (\<And>x. x \<in> set (users (at_store s)) \<Longrightarrow> us_deleted_at x \<noteq> None) \<Longrightarrow>
      us_id usr \<notin> us_id ` set (users (at_store s)) \<Longrightarrow> users (at_store t) = users (at_store s) @ [usr] \<Longrightarrow>
      at_sessions t = at_sessions s \<Longrightarrow> roles_extend s t \<Longrightarrow> P t"
begin

lemma audit_keeps:
  assumes "P s" and "\<And>t. P t \<Longrightarrow> P (snd (k t))"
  shows "P (snd (auth_audit uid now ev a p s k))"
proof -
  obtain r s' where e: "auth_audit uid now ev a p s k = (r, s')" by (meson surj_pair)
  from e show ?thesis
  proof (cases rule: auth_audit_cases)
    case (written row)
    let ?t = "s\<lparr>at_store := (at_store s)\<lparr>audits := audits (at_store s) @ [row]\<rparr>\<rparr>"
    have "P ?t" by (rule view[OF assms(1)]) simp_all
    from assms(2)[OF this] written(1) e show ?thesis by simp
  qed (simp add: e assms(1))
qed

lemma device_keeps: "P s \<Longrightarrow> P (ensure_device now c s)"
  by (erule view) (simp_all add: ensure_device_def split: option.split)

lemma clear_keeps: "P s \<Longrightarrow> P (clear_failures now i s)"
  unfolding clear_failures_def by (erule user_kept) simp

lemma issue_keeps:
  assumes "P s" and "\<not> barred user"
  shows "P (snd (issue_session cr t uid now user c s))"
  unfolding issue_session_def Let_def
  using admit[OF device_keeps[OF assms(1)]] assms
  by (auto intro!: audit_keeps device_keeps)

lemma revoke_keeps: "P s \<Longrightarrow> P (snd (revoke_session_id uid now i s))"
  unfolding revoke_session_id_def
  by (auto split: option.split intro!: audit_keeps session_kept)

lemma validate_keeps: "P s \<Longrightarrow> P (snd (validate_session cr uid now t s))"
  using revoke_keeps[of s uid now "hash_token cr t"]
  unfolding validate_session_def by (auto split: option.split prod.split sum.split)

lemma failure_keeps:
  assumes "P s" and "\<And>t. P t \<Longrightarrow> P (snd (k t))"
  shows "P (snd (register_failure uid now i n a s k))"
  unfolding register_failure_def Let_def
  by (auto intro!: audit_keeps assms user_kept)

lemma login_keeps:
  assumes "P s"
  shows "P (snd (authenticate cr t u now name pw c s))"
proof (cases "live_user name (at_store s)")
  case (Some r)
  then have "\<not> barred (us_id r)"
    using user_free[OF assms, of r] by (auto simp: live_user_def dest!: find_row_SomeD)
  then show ?thesis
    unfolding authenticate_def Let_def using assms
    by (auto simp: Some split: sum.split bool.split intro!: audit_keeps failure_keeps issue_keeps clear_keeps)
qed (auto simp: authenticate_def intro!: audit_keeps assms)

lemma step_up_keeps:
  assumes "P s"
  shows "P (snd (confirm_step_up cr t u now raw pw c s))"
proof -
  obtain r1 s1 where v: "validate_session cr (u 0) now raw s = (r1, s1)" by (meson surj_pair)
  have i1: "P s1" using validate_keeps[OF assms, of cr "u 0" now raw] v by simp
  show ?thesis
  proof (cases r1)
    case (Inr cur)
    with v have free: "\<not> barred (sn_user cur)"
      using session_free[OF assms] by (auto simp: validate_accepts find_session_def dest!: find_row_SomeD)
    obtain r2 s2 where k: "revoke_session_id (u 1) now (hash_token cr raw) s1 = (r2, s2)" by (meson surj_pair)
    obtain r3 s3 where i: "issue_session cr t (u 2) now (sn_user cur) c s2 = (r3, s3)" by (meson surj_pair)
    have i2: "P s2" using revoke_keeps[OF i1, of "u 1" now "hash_token cr raw"] k by simp
    have i3: "P s3" using issue_keeps[OF i2 free, of cr t "u 2" now c] i by simp
    show ?thesis
      unfolding confirm_step_up_def Let_def using i1 i2 i3
      by (auto simp: v k[simplified] i Inr split: sum.split bool.split intro!: audit_keeps session_kept)
  qed (simp add: confirm_step_up_def v i1)
qed

lemma rotate_keeps:
  assumes "P s" and "secret_rotate uid now i t s = (r, s')"
  shows "P s'"
  using assms(2)
  by (auto simp: secret_rotate_def secret_store_def Let_def split: if_splits
      intro: view[OF assms(1)])

lemma user_and_sessions_kept:
  assumes "P s" and "\<And>u. us_id (f u) = us_id u \<and> us_deleted_at (f u) = us_deleted_at u \<and>
      (us_status u \<noteq> US_DISABLED \<longrightarrow> us_status (f u) \<noteq> US_DISABLED)"
    and "\<And>r. se_user (g r) = se_user r \<and> (se_deleted_at r \<noteq> None \<longrightarrow> se_deleted_at (g r) \<noteq> None)"
  shows "P ((update_user i f s)\<lparr>at_sessions := update_rows p g (at_sessions s)\<rparr>)"
  using session_kept[OF user_kept[of s f i], of g p] assms by simp

lemma password_keeps:
  assumes "P s"
  shows "P (snd (change_password cr u now user pw by s))"
proof (cases "find_user user (at_store s)")
  case (Some r)
  obtain r1 s1 where k: "secret_rotate (u 0) now (us_secret r) (hash_password cr pw) s = (r1, s1)"
    by (meson surj_pair)
  show ?thesis
    unfolding change_password_def Let_def using rotate_keeps[OF assms k]
    by (auto simp: Some k split: sum.split intro!: audit_keeps user_and_sessions_kept)
qed (simp add: change_password_def assms)

lemma provision_keeps:
  assumes "P s"
  shows "P (snd (provision_first_superadmin cr u now name pw c s))"
proof (cases "exists_row (\<lambda>x. us_deleted_at x = None) (users (at_store s))")
  case False
  then have none: "\<And>x. x \<in> set (users (at_store s)) \<Longrightarrow> us_deleted_at x \<noteq> None"
    by (auto simp: exists_row_iff)
  show ?thesis
  proof (cases "secret_store (u 1) (hash_password cr pw) s")
    case (Some q)
    then obtain sec s1 where q: "q = (sec, s1)" "at_store s1 = at_store s" "at_sessions s1 = at_sessions s"
      "at_roles s1 = at_roles s" "at_assignments s1 = at_assignments s"
      by (cases q) (auto simp: secret_store_def Let_def split: if_splits)
    have p1: "P s1" by (rule view[OF assms]) (simp_all add: q)
    let ?usr = "\<lparr>us_id = ''u_'' @ u 0, us_username = name, us_secret = sec, us_status = US_ACTIVE,
      us_failed = 0, us_locked_until = None, us_deleted_at = None, us_updated_at = now,
      us_display = None, us_created_at = now\<rparr>"
    note new = found[OF assms none, of ?usr, simplified]
    have "P (snd (auth_audit (u 4) now ''user_created'' a pl t (\<lambda>t. (Inr i, t))))"
      if "us_id ?usr \<notin> us_id ` set (users (at_store s))" "users (at_store t) = users (at_store s) @ [?usr]"
        "at_sessions t = at_sessions s" "roles_extend s t" for a pl t and i :: string
      using new[of t] that by (auto intro!: audit_keeps)
    note written = this
    show ?thesis
      unfolding provision_first_superadmin_def Let_def using False p1
      by (auto simp: Some[simplified] q exists_row_iff ensure_system_role_def roles_extend_def intro!: written)
  qed (simp add: provision_first_superadmin_def Let_def assms)
qed (simp add: provision_first_superadmin_def assms)

lemma step_keeps: "P s \<Longrightarrow> auth_step cr s a = Some s' \<Longrightarrow> P s'"
  by (cases a) (auto simp: provision_keeps login_keeps step_up_keeps validate_keeps revoke_keeps password_keeps)

end

section \<open>Runs\<close>

text \<open>One request to an administration route that writes, or one call of the identity service for
  a login, a session or a step-up.\<close>

datatype admin_call =
    Identity int auth_action
  | CompleteSetup web_ctx
  | CreateUser web_ctx
  | UpdateUser web_ctx string
  | DeleteUser web_ctx string
  | CreateRole web_ctx
  | UpdateRole web_ctx string
  | DeleteRole web_ctx string
  | GrantPermission web_ctx
  | RevokePermission web_ctx string
  | UpdateDevice web_ctx string

fun admin_step :: "crypto \<Rightarrow> admin_sys \<Rightarrow> admin_call \<Rightarrow> admin_sys" where
  "admin_step cr m (Identity now a) =
     (case auth_step cr (identity m) a of None \<Rightarrow> m | Some s \<Rightarrow> after_auth now s m)"
| "admin_step cr m (CompleteSetup c) = snd (complete_setup cr c m)"
| "admin_step cr m (CreateUser c) = snd (create_user cr c m)"
| "admin_step cr m (UpdateUser c i) = snd (update_user_route cr c i m)"
| "admin_step cr m (DeleteUser c i) = snd (delete_user c i m)"
| "admin_step cr m (CreateRole c) = snd (create_role c m)"
| "admin_step cr m (UpdateRole c i) = snd (update_role c i m)"
| "admin_step cr m (DeleteRole c i) = snd (delete_role c i m)"
| "admin_step cr m (GrantPermission c) = snd (grant_permission c m)"
| "admin_step cr m (RevokePermission c i) = snd (revoke_permission c i m)"
| "admin_step cr m (UpdateDevice c i) = snd (update_device c i m)"

definition admin_run :: "crypto \<Rightarrow> admin_sys \<Rightarrow> admin_call list \<Rightarrow> admin_sys" where
  "admin_run cr m cs = foldl (admin_step cr) m cs"

section \<open>What the routes change of the identity tables\<close>

named_theorems admin_simps "the identity tables after the writes of the routes"

lemma am_store_set [admin_simps]: "am_store (set_store st m) = st"
  by (simp add: am_store_def set_store_def)

lemma set_store_other [admin_simps]:
  "am_devices (set_store st m) = am_devices m" "am_sessions (set_store st m) = am_sessions m"
  "am_assignments (set_store st m) = am_assignments m" "am_secrets (set_store st m) = am_secrets m"
  "role_rows (set_store st m) = role_rows m"
  by (simp_all add: set_store_def role_rows_def)

lemma set_role_rows_other [admin_simps]:
  "role_rows (set_role_rows rs m) = rs" "am_store (set_role_rows rs m) = am_store m"
  "am_devices (set_role_rows rs m) = am_devices m" "am_sessions (set_role_rows rs m) = am_sessions m"
  "am_assignments (set_role_rows rs m) = am_assignments m" "am_secrets (set_role_rows rs m) = am_secrets m"
  by (simp_all add: set_role_rows_def role_rows_def am_store_def)

lemma identity_fields [admin_simps]:
  "at_store (identity m) = am_store m" "at_devices (identity m) = am_devices m"
  "at_sessions (identity m) = am_sessions m" "at_roles (identity m) = map role_of (role_rows m)"
  "at_assignments (identity m) = am_assignments m" "at_secrets (identity m) = am_secrets m"
  by (simp_all add: identity_def)

lemma plain_updates [admin_simps]:
  "am_store (m\<lparr>am_devices := a\<rparr>) = am_store m" "role_rows (m\<lparr>am_devices := a\<rparr>) = role_rows m"
  "am_store (m\<lparr>am_sessions := b\<rparr>) = am_store m" "role_rows (m\<lparr>am_sessions := b\<rparr>) = role_rows m"
  "am_store (m\<lparr>am_assignments := d\<rparr>) = am_store m" "role_rows (m\<lparr>am_assignments := d\<rparr>) = role_rows m"
  "am_store (m\<lparr>am_secrets := e\<rparr>) = am_store m" "role_rows (m\<lparr>am_secrets := e\<rparr>) = role_rows m"
  "am_store (m\<lparr>am_permissions := p\<rparr>) = am_store m" "role_rows (m\<lparr>am_permissions := p\<rparr>) = role_rows m"
  "am_store (m\<lparr>am_manager := g\<rparr>) = am_store m" "role_rows (m\<lparr>am_manager := g\<rparr>) = role_rows m"
  by (simp_all add: am_store_def role_rows_def)

lemma role_of_cells [simp]:
  "role_of (role_cells now i (JStr name) d sys) = \<lparr>ro_id = i, ro_name = name, ro_system = sys, ro_deleted_at = None\<rparr>"
  by (simp add: role_of_def role_cells_def col_def text_key_def)

text \<open>The identity service finds its own tables again after one of its calls.\<close>

lemma identity_after_auth:
  assumes "roles_extend (identity m) a"
  shows "identity (after_auth now a m) = a"
proof -
  obtain rs where rs: "at_roles a = map role_of (role_rows m) @ rs" "\<forall>r\<in>set rs. ro_deleted_at r = None"
    using assms by (auto simp: roles_extend_def admin_simps)
  have "map (role_of \<circ> (\<lambda>r. role_cells now (ro_id r) (JStr (ro_name r)) (JStr (''baseline '' @ ro_name r @ '' role''))
      (ro_system r))) rs = rs"
    using rs(2) by (intro map_idI) (simp add: role_row.splits)
  then have "identity (after_auth now a m) = \<lparr>at_store = at_store a, at_devices = at_devices a,
      at_sessions = at_sessions a, at_roles = at_roles a, at_assignments = at_assignments a, at_secrets = at_secrets a\<rparr>"
    by (simp add: after_auth_def Let_def identity_def admin_simps rs(1) del: append.simps)
  then show ?thesis by simp
qed

interpretation ext: identity_invariant "roles_extend s0" "\<lambda>_. False" for s0
proof unfold_locales
  fix s t :: auth_sys
  assume "roles_extend s0 s" "roles_extend s t"
  then show "roles_extend s0 t" by (rule roles_extend_trans)
qed (auto simp: roles_extend_def update_user_def)

text \<open>An invariant of the identity tables that the routes read through \<open>identity\<close> survives the
  calls they make to the service.\<close>

context identity_invariant
begin

lemma identity_step_keeps:
  assumes "P (identity m)"
  shows "P (identity (admin_step cr m (Identity now a)))"
proof (cases "auth_step cr (identity m) a")
  case (Some s)
  have "roles_extend (identity m) s" by (rule ext.step_keeps[OF roles_extend_refl Some])
  then show ?thesis using step_keeps[OF assms Some] Some by (simp add: identity_after_auth)
qed (simp add: assms)

lemma provision_call_keeps:
  assumes "P (identity m)" and "auth_call now (provision_first_superadmin cr u t name pw c) m = (r, m')"
  shows "P (identity m')"
  using assms provision_keeps[OF assms(1), of cr u t name pw c]
    ext.provision_keeps[OF roles_extend_refl, of "identity m" cr u t name pw c]
  by (auto simp: auth_call_def identity_after_auth split: prod.splits)

lemma password_call_keeps:
  assumes "P (identity m)" and "auth_call now (change_password cr u t i pw by) m = (r, m')"
  shows "P (identity m')"
  using assms password_keeps[OF assms(1), of cr u t i pw "by"]
    ext.password_keeps[OF roles_extend_refl, of "identity m" cr u t i pw "by"]
  by (auto simp: auth_call_def identity_after_auth split: prod.splits)

end

section \<open>Edits of the roles\<close>

lemma role_edit_rows:
  assumes "update_versioned_with_operation u now v s = (res, s')" and "vu_entity v = CE_ROLES"
  obtains (same) "cf_tables s' CE_ROLES = cf_tables s CE_ROLES"
  | (written) r f where "r \<in> set (cf_tables s CE_ROLES)" "col ''role_id'' r = JStr (vu_row v)"
      "f = (\<lambda>x. bump ''version'' (set_cols (written_fields now v r) x))"
      "broken_constraint CE_ROLES ''role_id'' (vu_fields v) (cf_tables s CE_ROLES) (f r) = None"
      "cf_tables s' CE_ROLES = update_rows (\<lambda>x. col ''role_id'' x = JStr (vu_row v)) f (cf_tables s CE_ROLES)"
      "checked v False"
proof -
  have ent: "vu_entity v \<noteq> CE_WORLD_SETTINGS" by (simp add: assms(2))
  show thesis
    using assms(1) ent
  proof (cases rule: edit_rows)
    case same
    then show thesis by (intro that(1)) simp_all
  next
    case (written key ver r f)
    then show thesis using assms(2) by (intro that(2)[of r f]) auto
  qed
qed

section \<open>Changes of the roles\<close>

definition role_added :: "auth_sys \<Rightarrow> auth_sys \<Rightarrow> bool" where
  "role_added s t \<longleftrightarrow> (\<exists>r. at_roles t = at_roles s @ [r] \<and> ro_id r \<notin> ro_id ` set (at_roles s) \<and>
     (\<forall>z\<in>set (at_roles s). ro_deleted_at z = None \<longrightarrow> ro_name z \<noteq> ro_name r))"

definition role_edited :: "auth_sys \<Rightarrow> auth_sys \<Rightarrow> bool" where
  "role_edited s t \<longleftrightarrow> (\<exists>xs r0 r1 ys. at_roles s = xs @ r0 # ys \<and> at_roles t = xs @ r1 # ys \<and>
     ro_id r1 = ro_id r0 \<and> \<not> ro_system r0 \<and> \<not> ro_system r1 \<and>
     (ro_deleted_at r1 = None \<longrightarrow>
        (\<forall>z\<in>set (xs @ ys). ro_deleted_at z = None \<and> ro_name z \<noteq> [] \<longrightarrow> ro_name z \<noteq> ro_name r1)))"

text \<open>A route changed at most one role that is no baseline role, and left names unique.\<close>

definition role_change :: "auth_sys \<Rightarrow> auth_sys \<Rightarrow> bool" where
  "role_change s t \<longleftrightarrow> users (at_store t) = users (at_store s) \<and> at_sessions t = at_sessions s \<and>
     at_assignments t = at_assignments s \<and>
     (distinct (map ro_id (at_roles s)) \<longrightarrow> at_roles t = at_roles s \<or> role_added s t \<or> role_edited s t)"

lemma find_role_SomeD:
  "find_role i m = Some r \<Longrightarrow> r \<in> set (role_rows m) \<and> ro_id (role_of r) = i \<and> ro_deleted_at (role_of r) = None"
  by (auto simp: find_role_def dest: find_row_SomeD)

lemma written_role_keeps:
  assumes "fst ` set fs \<subseteq> {''name'', ''description'', ''deleted_at'', ''deleted_by''}"
    and "f = (\<lambda>x. bump ''version'' (set_cols (written_fields now (role_update c i v fs) r) x))"
  shows "col ''role_id'' (f x) = col ''role_id'' x" and "col ''is_system_role'' (f x) = col ''is_system_role'' x"
proof -
  have "fst ` set (written_fields now (role_update c i v fs) r) \<subseteq>
      fst ` set fs \<union> {''updated_at'', ''updated_by'', ''last_changed_at''}"
    using written_fields_keys[of now "role_update c i v fs" r] by (auto simp: role_update_def)
  then have sub: "fst ` set (written_fields now (role_update c i v fs) r) \<subseteq> {''name'', ''description'',
      ''deleted_at'', ''deleted_by'', ''updated_at'', ''updated_by'', ''last_changed_at''}" using assms(1) by blast
  have "''role_id'' \<notin> fst ` set (written_fields now (role_update c i v fs) r)"
    "''is_system_role'' \<notin> fst ` set (written_fields now (role_update c i v fs) r)"
    by (rule notI, drule subsetD[OF sub], simp)+
  then show "col ''role_id'' (f x) = col ''role_id'' x" "col ''is_system_role'' (f x) = col ''is_system_role'' x"
    by (simp_all add: assms(2) col_bump col_set_cols_other)
qed

lemma free_name:
  assumes "broken_constraint CE_ROLES ''role_id'' fs rows r = None" and "z \<in> set rows"
    and "ro_id (role_of z) \<noteq> ro_id (role_of r)" and "ro_deleted_at (role_of r) = None"
    and "ro_deleted_at (role_of z) = None" and "ro_name (role_of z) \<noteq> []"
  shows "ro_name (role_of z) \<noteq> ro_name (role_of r)"
proof
  assume same: "ro_name (role_of z) = ro_name (role_of r)"
  have "\<not> taken ''role_id'' ''name'' rows r"
    using assms(1) by (auto simp: broken_constraint_def split: if_splits list.splits)
  moreover have "col ''role_id'' z \<noteq> col ''role_id'' r" using assms(3) by (auto simp: role_of_def)
  moreover have "col ''name'' z = col ''name'' r"
    using same assms(6) by (auto simp: role_of_def text_key_def split: json.splits)
  moreover have "col ''deleted_at'' z = JNull" "col ''deleted_at'' r = JNull"
    using assms(4,5) by (auto simp: role_of_def split: json.splits)
  ultimately show False using assms(2) by (auto simp: taken_def exists_row_iff)
qed

lemma config_call_change:
  assumes "config_call c (role_update c i v fs) m = (q, m')"
    and "fst ` set fs \<subseteq> {''name'', ''description'', ''deleted_at'', ''deleted_by''}"
    and "find_role i m = Some r0" and "\<not> ro_system (role_of r0)"
  shows "role_change (identity m) (identity m')"
proof -
  obtain res cf where e: "update_versioned_with_operation (wc_ids c) (wc_now c) (role_update c i v fs) (am_config m) = (res, cf)"
    "m' = m\<lparr>am_config := cf\<rparr>" using assms(1) by (auto simp: config_call_def split: prod.splits)
  have same: "users (am_store m') = users (am_store m)" "am_sessions m' = am_sessions m"
    "am_assignments m' = am_assignments m" "role_rows m' = cf_tables cf CE_ROLES"
    using edit_frame[OF e(1)] by (simp_all add: e(2) am_store_def role_rows_def store_frame_def)
  have ent: "vu_entity (role_update c i v fs) = CE_ROLES" "vu_row (role_update c i v fs) = i"
    "vu_fields (role_update c i v fs) = fs" by (simp_all add: role_update_def)
  have "role_edited (identity m) (identity m') \<or> role_rows m' = role_rows m"
    if d: "distinct (map ro_id (at_roles (identity m)))"
  proof (cases rule: role_edit_rows[OF e(1) ent(1)])
    case 1
    then show ?thesis using same(4) by (simp add: role_rows_def)
  next
    case (2 r f)
    note rows = 2[folded role_rows_def, unfolded ent, folded same(4)]
    note keep = written_role_keeps[OF assms(2) rows(3)[unfolded role_update_def, folded role_update_def]]
    obtain xs ys where split: "role_rows m = xs @ r # ys" using rows(1) by (meson split_list)
    have dist: "distinct (map (ro_id \<circ> role_of) (role_rows m))" using d by (simp add: admin_simps)
    have ri: "ro_id (role_of r) = i" using rows(2) by (simp add: role_of_def text_key_def)
    have "ro_id (role_of r) \<notin> (\<lambda>x. ro_id (role_of x)) ` set (xs @ ys)"
      using dist by (simp add: split image_Un o_def)
    then have other: "ro_id (role_of x) \<noteq> i" if "x \<in> set (xs @ ys)" for x
      using that ri by (metis (no_types, lifting) imageI)
    then have "col ''role_id'' x \<noteq> JStr i" if "x \<in> set (xs @ ys)" for x
      using that by (force simp: role_of_def text_key_def)
    then have new: "role_rows m' = xs @ f r # ys"
      using rows(2,5) by (simp add: split update_rows_append update_rows_Cons update_rows_id)
    have "r0 = r"
      using find_role_SomeD[OF assms(3)] other by (auto simp: split)
    then have sys: "\<not> ro_system (role_of r)" "\<not> ro_system (role_of (f r))" "ro_id (role_of (f r)) = ro_id (role_of r)"
      using assms(4) keep by (simp_all add: role_of_def)
    have "ro_name z \<noteq> ro_name (role_of (f r))"
      if z: "ro_deleted_at (role_of (f r)) = None" "z \<in> role_of ` set (xs @ ys)" "ro_deleted_at z = None" "ro_name z \<noteq> []" for z
    proof -
      obtain x where x: "x \<in> set (xs @ ys)" "z = role_of x" using z(2) by blast
      with z free_name[OF rows(4), of x] other[of x] sys(3) ri show ?thesis by (auto simp: split)
    qed
    with sys split new show ?thesis
      unfolding role_edited_def identity_fields
      by (intro disjI1 exI[of _ "map role_of xs"] exI[of _ "role_of r"] exI[of _ "role_of (f r)"]
          exI[of _ "map role_of ys"]) auto
  qed
  with same show ?thesis by (auto simp: role_change_def admin_simps)
qed

section \<open>Invariants of the administration\<close>

text \<open>A password change leaves the standing of every user alone.\<close>

definition standing :: "auth_sys \<Rightarrow> (string \<times> int option \<times> UserStatus) list" where
  "standing s = map (\<lambda>u. (us_id u, us_deleted_at u, us_status u)) (users (at_store s))"

lemma last_superadmin_standing:
  assumes "standing (identity m') = standing (identity m)" and "role_rows m' = role_rows m"
    and "am_assignments m' = am_assignments m"
  shows "last_superadmin i m' = last_superadmin i m"
proof -
  have ids: "us_id ` set (filter (\<lambda>u. us_deleted_at u = None \<and> us_status u = US_ACTIVE \<and> Q (us_id u)) (users (am_store m))) =
      fst ` {(a, b, c) \<in> set (standing (identity m)). b = None \<and> c = US_ACTIVE \<and> Q a}" for Q m
    by (force simp: standing_def admin_simps)
  have same: "is_superadmin j m' = is_superadmin j m" for j
    using assms(2,3) by (simp add: is_superadmin_def has_role_def admin_simps)
  show ?thesis
    using ids[of "\<lambda>j. is_superadmin j m" m] ids[of "\<lambda>j. is_superadmin j m" m']
    by (simp only: last_superadmin_def active_superadmins_def assms(1) same)
qed

lemma standing_audit [simp]:
  "standing (s\<lparr>at_store := (at_store s)\<lparr>audits := a\<rparr>\<rparr>) = standing s"
  "standing (s\<lparr>at_sessions := ss\<rparr>) = standing s" "standing (s\<lparr>at_secrets := k\<rparr>) = standing s"
  by (simp_all add: standing_def)

lemma standing_update:
  "(\<And>u. us_id (f u) = us_id u \<and> us_deleted_at (f u) = us_deleted_at u \<and> us_status (f u) = us_status u) \<Longrightarrow>
   standing (update_user i f s) = standing s"
  by (simp add: standing_def update_user_def update_rows_def)

lemma auth_audit_final:
  assumes "auth_audit uid now ev a p s (\<lambda>t. (Inr x, t)) = (r, s')"
  shows "standing s' = standing s \<and> at_roles s' = at_roles s \<and> at_assignments s' = at_assignments s"
  by (rule auth_audit_cases[OF assms]) auto

lemma rotate_tables:
  assumes "secret_rotate uid now i t s = (r, s')"
  shows "standing s' = standing s \<and> at_roles s' = at_roles s \<and> at_assignments s' = at_assignments s"
  using assms by (auto simp: secret_rotate_def secret_store_def Let_def standing_def split: if_splits)

lemma password_tables:
  assumes "change_password cr u now user pw by s = (r, s')"
  shows "standing s' = standing s \<and> at_roles s' = at_roles s \<and> at_assignments s' = at_assignments s"
proof (cases "find_user user (at_store s)")
  case (Some row)
  obtain r1 s1 where k: "secret_rotate (u 0) now (us_secret row) (hash_password cr pw) s = (r1, s1)"
    by (meson surj_pair)
  show ?thesis
  proof (cases r1)
    case (Inr sec)
    have "standing (update_user user (\<lambda>x. x\<lparr>us_secret := sec, us_updated_at := now\<rparr>) s1) = standing s1"
      by (rule standing_update) simp
    moreover have "at_roles (update_user i f t) = at_roles t" "at_assignments (update_user i f t) = at_assignments t"
      for i f t by (simp_all add: update_user_def)
    ultimately show ?thesis
      using assms rotate_tables[OF k]
      by (auto simp: change_password_def Let_def Some k Inr dest!: auth_audit_final)
  qed (use assms Some k rotate_tables[OF k] in \<open>simp add: change_password_def\<close>)
qed (use assms in \<open>simp add: change_password_def\<close>)

lemma password_call_standing:
  assumes "auth_call now (change_password cr u t i pw by) m = (r, m')"
  shows "last_superadmin j m' = last_superadmin j m"
proof -
  obtain q a where a: "change_password cr u t i pw by (identity m) = (q, a)" "m' = after_auth now a m"
    using assms by (auto simp: auth_call_def split: prod.splits)
  note tab = password_tables[OF a(1)]
  have "identity m' = a" using tab by (simp add: a(2) identity_after_auth roles_extend_same)
  moreover have "role_rows m' = role_rows m"
    using tab by (simp add: a(2) after_auth_def Let_def admin_simps)
  moreover have "am_assignments m' = am_assignments m"
    using tab by (simp add: a(2) after_auth_def Let_def admin_simps)
  ultimately show ?thesis using tab by (intro last_superadmin_standing) simp_all
qed

text \<open>What a predicate on the identity tables has to survive so that it survives every route.\<close>

definition disables :: "jdict \<Rightarrow> bool" where
  "disables fs \<longleftrightarrow> jget ''status'' fs = Some (JStr ''disabled'')"

locale admin_invariant = identity_invariant +
  assumes enrol: "P s \<Longrightarrow> us_id usr \<notin> us_id ` set (users (at_store s)) \<Longrightarrow>
      users (at_store t) = users (at_store s) @ [usr] \<Longrightarrow> at_sessions t = at_sessions s \<Longrightarrow>
      at_roles t = at_roles s \<Longrightarrow> at_assignments t = at_assignments s @ [a] \<Longrightarrow> P t"
    and edited: "P (identity m) \<Longrightarrow> \<not> (disables fs \<and> last_superadmin i m) \<Longrightarrow>
      P (identity (on_users (\<lambda>u. us_id u = i) (set_user_fields now fs) m))"
    and dismissed: "P (identity m) \<Longrightarrow> \<not> last_superadmin i m \<Longrightarrow> P (identity (delete_user_tx c i m))"
    and roles_changed: "P s \<Longrightarrow> role_change s t \<Longrightarrow> P t"
begin

lemma same_tables:
  "P (identity m) \<Longrightarrow> users (am_store m') = users (am_store m) \<Longrightarrow> am_sessions m' = am_sessions m \<Longrightarrow>
   role_rows m' = role_rows m \<Longrightarrow> am_assignments m' = am_assignments m \<Longrightarrow> P (identity m')"
  by (erule view) (simp_all add: admin_simps)

lemma revoked_sessions: "P (identity m) \<Longrightarrow> P (identity (revoke_sessions now by p m))"
  using session_kept[of "identity m" "\<lambda>s. s\<lparr>se_deleted_at := Some now, se_deleted_by := Some by\<rparr>"
      "\<lambda>s. p s \<and> se_deleted_at s = None"]
  by (auto simp: revoke_sessions_def admin_simps elim: view)

lemma audited:
  assumes "P (identity m)" and "admin_audit c uid ev pl m = (r, m')"
  shows "P (identity m')"
proof (rule same_tables[OF assms(1)])
  show "users (am_store m') = users (am_store m)" "am_sessions m' = am_sessions m"
    "role_rows m' = role_rows m" "am_assignments m' = am_assignments m"
    using assms(2) unfolding admin_audit_def audit_write_def Let_def
    by (auto simp: admin_simps split: option.splits dest!: insert_audit_Some)
qed

lemmas handler_simps = bind_run_def gets_def ret_def raise_def change_def of_option_def refuse_def
  invalid_def answer_def sql_refusal_def when_run_def

lemma unseen:
  assumes "P (identity m)"
  shows "P (identity (m\<lparr>am_manager := g\<rparr>))" and "P (identity (m\<lparr>am_permissions := ps\<rparr>))"
    and "P (identity (m\<lparr>am_secrets := ss\<rparr>))" and "P (identity (m\<lparr>am_devices := ds\<rparr>))"
  by (rule same_tables[OF assms]; simp add: admin_simps)+

lemma setup_keeps: "P (identity m) \<Longrightarrow> P (identity (snd (complete_setup cr c m)))"
  unfolding complete_setup_def handler_simps
  by (auto split: option.split prod.split sum.split dest: provision_call_keeps intro!: unseen)

lemma insert_user_keeps:
  assumes "P (identity m)" and "insert_user_tx c i name display secret role m = Inr m'"
  shows "P (identity m')"
proof -
  obtain d where fresh: "i \<notin> us_id ` set (users (am_store m))"
    and m': "m' = (set_store ((am_store m)\<lparr>users := users (am_store m) @
        [new_user (wc_now c) i name d secret]\<rparr>) m)\<lparr>am_assignments := am_assignments m @
        [\<lparr>ra_id = ''ra_'' @ wc_ids c 0 2, ra_user = i, ra_role = role, ra_deleted_at = None\<rparr>]\<rparr>"
    using assms(2) by (auto simp: insert_user_tx_def exists_row_iff split: option.splits if_splits)
  from fresh show ?thesis
    by (intro enrol[OF assms(1), of "new_user (wc_now c) i name d secret"])
      (simp_all add: m' admin_simps new_user_def)
qed

lemma create_user_keeps: "P (identity m) \<Longrightarrow> P (identity (snd (create_user cr c m)))"
  unfolding create_user_def handler_simps Let_def
  by (auto split: option.split prod.split sum.split
      dest: audited[rotated] insert_user_keeps[rotated] intro: unseen)

lemma fields_keep:
  assumes "P (identity m)" and "\<not> (disables body \<and> last_superadmin i m)"
  shows "P (identity (snd (apply_user_fields c i body m)))"
proof -
  let ?fs = "filter (\<lambda>(k, v). k \<noteq> ''password'') body"
  have st: "jget ''status'' ?fs = jget ''status'' body"
    by (induction body) (auto simp: jget_def)
  have "P (identity m')" if "write_user_fields now i ?fs m = Some m'" for now m'
    using that assms edited[of m ?fs i now] by (auto simp: write_user_fields_def disables_def st split: if_splits)
  with assms(1) show ?thesis
    unfolding apply_user_fields_def handler_simps Let_def
    by (auto split: option.split intro: revoked_sessions)
qed

lemma password_then_fields:
  assumes "P (identity m)" and "\<not> (disables body \<and> last_superadmin i m)"
  shows "P (identity (snd (change_other_password cr c i body (apply_user_fields c i body) m)))"
  using fields_keep[OF assms] assms
  unfolding change_other_password_def handler_simps
  by (auto split: prod.split sum.split intro!: fields_keep
      dest: password_call_keeps password_call_standing)

lemma update_user_keeps:
  assumes "P (identity m)"
  shows "P (identity (snd (update_user_route cr c i m)))"
  using password_then_fields[OF assms] assms
  unfolding update_user_route_def handler_simps
  by (auto split: option.split simp: disables_def)

lemma delete_user_keeps: "P (identity m) \<Longrightarrow> P (identity (snd (delete_user c i m)))"
  unfolding delete_user_def handler_simps by (auto intro: dismissed)

lemma create_role_keeps:
  assumes "P (identity m)"
  shows "P (identity (snd (create_role c m)))"
proof -
  have "P (identity m')" if tx: "insert_role_tx now i name desc m = Inr m'" for now i name desc m'
  proof (rule roles_changed[OF assms])
    obtain d where d: "bind_text desc = Some d" using tx by (auto simp: insert_role_tx_def split: option.splits)
    have "\<not> exists_row (\<lambda>r. ro_id (role_of r) = i) (role_rows m)"
      "\<not> exists_row (\<lambda>r. ro_name (role_of r) = name \<and> ro_deleted_at (role_of r) = None) (role_rows m)"
      "m' = set_role_rows (role_rows m @ [role_cells now i (JStr name) (jopt_str d) False]) m"
      using tx d by (auto simp: insert_role_tx_def split: if_splits)
    then show "role_change (identity m) (identity m')"
      by (auto simp: role_change_def role_added_def admin_simps exists_row_iff)
  qed
  with assms show ?thesis
    unfolding create_role_def handler_simps Let_def by (auto split: option.split sum.split)
qed

lemma config_keeps:
  assumes "P (identity m)" and "find_role i m = Some r" and "\<not> ro_system (role_of r)"
    and "fst ` set fs \<subseteq> {''name'', ''description'', ''deleted_at'', ''deleted_by''}"
    and "config_call c (role_update c i v fs) m = (q, m')"
  shows "P (identity m')"
  by (rule roles_changed[OF assms(1) config_call_change[OF assms(5,4,2,3)]])

lemma update_role_keeps:
  assumes "P (identity m)"
  shows "P (identity (snd (update_role c i m)))"
proof -
  have fs: "fst ` set (map (\<lambda>k. (k, body_get k body)) (filter (\<lambda>k. has_key k body) [''name'', ''description''])) \<subseteq>
      {''name'', ''description'', ''deleted_at'', ''deleted_by''}" for body by auto
  show ?thesis
    unfolding update_role_def handler_simps Let_def
    by (auto simp: assms split: option.split json.split prod.split sum.split config_error.split
        dest!: config_keeps[OF assms _ _ fs])
qed

lemma delete_role_keeps:
  assumes "P (identity m)"
  shows "P (identity (snd (delete_role c i m)))"
proof -
  have fs: "fst ` set [(''deleted_at'', JInt (wc_now c)), (''deleted_by'', JStr (wc_user c))] \<subseteq>
      {''name'', ''description'', ''deleted_at'', ''deleted_by''}" by simp
  show ?thesis
    unfolding delete_role_def handler_simps
    by (auto simp: assms split: option.split json.split prod.split sum.split config_error.split
        dest!: config_keeps[OF assms _ _ fs])
qed

lemma permissions_keep:
  assumes "P (identity m)"
  shows "P (identity (snd (grant_permission c m)))" and "P (identity (snd (revoke_permission c i m)))"
proof -
  show "P (identity (snd (revoke_permission c i m)))"
    unfolding revoke_permission_def handler_simps using assms by (auto intro: unseen)
  have "P (identity (snd (bind_run (asked_for j p) k m)))" if "\<And>b. P (identity (snd (k b m)))" for j p k
    using that assms unfolding asked_for_def handler_simps by (auto split: option.split)
  note ask = this
  have "P (identity (snd (bind_run (gets (\<lambda>m. f m)) (\<lambda>failed. case failed of Some e \<Rightarrow> sql_refusal e
      | None \<Rightarrow> then_run (change (\<lambda>m. m\<lparr>am_permissions := g m\<rparr>)) (ret rp)) m)))" for f g rp
    unfolding handler_simps using assms by (auto split: option.split intro: unseen)
  note wrote = this
  have guard: "P (identity (snd ((if b then h else k) m)))"
    if "P (identity (snd (h m)))" "P (identity (snd (k m)))" for b and h k :: admin_handler
    using that by simp
  have refused: "P (identity (snd (refuse code msg n m)))" "P (identity (snd (invalid msg m)))" for code msg n
    using assms by (simp_all add: refuse_def invalid_def ret_def)
  show "P (identity (snd (grant_permission c m)))"
    unfolding grant_permission_def Let_def
    by (cases "object_body (rq_json (wc_request c))"; simp only: option.case)
      (intro guard ask wrote refused)+
qed

lemma device_update_keeps:
  assumes "P (identity m)"
  shows "P (identity (snd (update_device c i m)))"
  using assms unfolding update_device_def handler_simps Let_def
  by (auto split: option.split intro: revoked_sessions unseen)

lemma admin_step_keeps: "P (identity m) \<Longrightarrow> P (identity (admin_step cr m a))"
  using identity_step_keeps
  by (cases a) (simp_all del: admin_step.simps(1) add: setup_keeps create_user_keeps update_user_keeps delete_user_keeps
      create_role_keeps update_role_keeps delete_role_keeps permissions_keep device_update_keeps)

lemma admin_run_keeps: "P (identity m) \<Longrightarrow> P (identity (admin_run cr m as))"
  by (induction as arbitrary: m) (simp_all add: admin_run_def admin_step_keeps)

end

section \<open>Somebody can administer\<close>

text \<open>There is a live user that is not disabled and holds the Superadmin role, which is a baseline
  role; no other live role has that name.\<close>

definition superadmin_user :: "auth_sys \<Rightarrow> user_row \<Rightarrow> bool" where
  "superadmin_user s u \<longleftrightarrow> u \<in> set (users (at_store s)) \<and> us_deleted_at u = None \<and> us_status u \<noteq> US_DISABLED \<and>
     has_role [''Superadmin''] (us_id u) s"

definition governed :: "auth_sys \<Rightarrow> bool" where
  "governed s \<longleftrightarrow> distinct (map ro_id (at_roles s)) \<and>
     (\<forall>r\<in>set (at_roles s). ro_deleted_at r = None \<and> ro_name r = ''Superadmin'' \<longrightarrow> ro_system r) \<and>
     (\<exists>u. superadmin_user s u)"

lemma has_role_iff:
  "has_role ns i s \<longleftrightarrow> (\<exists>a\<in>set (at_assignments s). ra_user a = i \<and> ra_deleted_at a = None \<and>
     (\<exists>r\<in>set (at_roles s). ro_id r = ra_role a \<and> ro_deleted_at r = None \<and> ro_name r \<in> set ns))"
  by (auto simp: has_role_def exists_row_iff)

lemma governed_users:
  assumes "governed s" and "at_roles t = at_roles s" and "superadmin_user s u"
    and "u' \<in> set (users (at_store t))" and "us_id u' = us_id u" and "us_deleted_at u' = None"
    and "us_status u' \<noteq> US_DISABLED" and "set (at_assignments s) \<subseteq> set (at_assignments t)"
  shows "governed t"
proof -
  have "has_role [''Superadmin''] (us_id u') t"
    using assms(2,3,5,8) by (fastforce simp: superadmin_user_def has_role_iff)
  then show ?thesis using assms by (auto simp: governed_def superadmin_user_def)
qed

lemma governed_update:
  assumes "governed s" and "\<And>u. us_id (f u) = us_id u \<and> us_deleted_at (f u) = us_deleted_at u \<and>
      (us_status u \<noteq> US_DISABLED \<longrightarrow> us_status (f u) \<noteq> US_DISABLED)"
  shows "governed (update_user i f s)"
proof -
  obtain u where u: "superadmin_user s u" using assms(1) by (auto simp: governed_def)
  let ?v = "if us_id u = i then f u else u"
  have "?v \<in> set (users (at_store (update_user i f s)))"
    using u by (auto simp: superadmin_user_def update_user_def update_rows_def)
  with u assms(2)[of u] show ?thesis
    by (intro governed_users[OF assms(1) _ u, of _ ?v]) (auto simp: superadmin_user_def update_user_def)
qed

lemma governed_roles:
  assumes "governed s" and "role_change s t"
  shows "governed t"
proof -
  obtain u where u: "superadmin_user s u" using assms(1) by (auto simp: governed_def)
  have d: "distinct (map ro_id (at_roles s))"
    and sys: "\<And>r. r \<in> set (at_roles s) \<Longrightarrow> ro_deleted_at r = None \<Longrightarrow> ro_name r = ''Superadmin'' \<Longrightarrow> ro_system r"
    using assms(1) by (auto simp: governed_def)
  obtain a z where az: "a \<in> set (at_assignments s)" "ra_user a = us_id u" "ra_deleted_at a = None"
    "z \<in> set (at_roles s)" "ro_id z = ra_role a" "ro_deleted_at z = None" "ro_name z = ''Superadmin''"
    using u by (auto simp: superadmin_user_def has_role_iff)
  have same: "users (at_store t) = users (at_store s)" "at_assignments t = at_assignments s"
    using assms(2) by (auto simp: role_change_def)
  have keep: "superadmin_user t u" if "z \<in> set (at_roles t)"
    using u az that by (auto simp: superadmin_user_def has_role_iff same)
  from assms(2) d consider "at_roles t = at_roles s" | "role_added s t" | "role_edited s t"
    by (auto simp: role_change_def)
  then show ?thesis
  proof cases
    case 1
    with keep az(4) d sys show ?thesis by (auto simp: governed_def)
  next
    case 2
    then obtain r where r: "at_roles t = at_roles s @ [r]" "ro_id r \<notin> ro_id ` set (at_roles s)"
      "ro_name r \<noteq> ''Superadmin''" using az(4,6,7) by (auto simp: role_added_def)
    with keep az(4) d sys show ?thesis by (auto simp: governed_def)
  next
    case 3
    then obtain xs r0 r1 ys where e: "at_roles s = xs @ r0 # ys" "at_roles t = xs @ r1 # ys" "ro_id r1 = ro_id r0"
      "\<not> ro_system r0" "ro_deleted_at r1 = None \<longrightarrow>
        (\<forall>z\<in>set (xs @ ys). ro_deleted_at z = None \<and> ro_name z \<noteq> [] \<longrightarrow> ro_name z \<noteq> ro_name r1)"
      unfolding role_edited_def by (elim exE conjE) (rule that; assumption)
    have "z \<noteq> r0" using sys[OF az(4,6,7)] e(4) by blast
    then have z: "z \<in> set (xs @ ys)" using az(4) by (auto simp: e(1))
    with e(5) az(6,7) have "ro_deleted_at r1 = None \<longrightarrow> ro_name r1 \<noteq> ''Superadmin''" by fastforce
    moreover have "superadmin_user t u" using keep z by (auto simp: e(2))
    ultimately show ?thesis using d sys by (auto simp: governed_def e)
  qed
qed

text \<open>Where a user is not the last Superadmin, there is a way on without that user.\<close>

lemma another_superadmin:
  assumes "governed (identity m)" and "\<not> last_superadmin i m"
  obtains u where "superadmin_user (identity m) u" "us_id u \<noteq> i"
proof (cases "is_superadmin i m")
  case True
  let ?ids = "us_id ` set (filter (\<lambda>u. us_deleted_at u = None \<and> us_status u = US_ACTIVE \<and> is_superadmin (us_id u) m)
      (users (am_store m)))"
  have "\<not> ?ids \<subseteq> {i}"
  proof
    assume "?ids \<subseteq> {i}"
    then have "card ?ids \<le> card {i}" by (intro card_mono) auto
    with True assms(2) show False by (simp add: last_superadmin_def active_superadmins_def)
  qed
  then obtain u where "u \<in> set (users (am_store m))" "us_deleted_at u = None" "us_status u = US_ACTIVE"
    "is_superadmin (us_id u) m" "us_id u \<noteq> i" by auto
  then show thesis by (intro that[of u]) (simp_all add: superadmin_user_def is_superadmin_def admin_simps)
next
  case False
  obtain u where u: "superadmin_user (identity m) u" using assms(1) by (auto simp: governed_def)
  with False have "us_id u \<noteq> i" by (auto simp: superadmin_user_def is_superadmin_def)
  with u that show thesis by blast
qed

interpretation governed: admin_invariant governed "\<lambda>_. False"
proof unfold_locales
  fix s t :: auth_sys
  assume "governed s" "users (at_store t) = users (at_store s)" "at_sessions t = at_sessions s"
    "at_roles t = at_roles s" "at_assignments t = at_assignments s"
  then show "governed t" by (simp add: governed_def superadmin_user_def has_role_def)
next
  fix s :: auth_sys and f :: "user_row \<Rightarrow> user_row" and i
  assume "governed s" "\<And>u. us_id (f u) = us_id u \<and> us_deleted_at (f u) = us_deleted_at u \<and>
      (us_status u \<noteq> US_DISABLED \<longrightarrow> us_status (f u) \<noteq> US_DISABLED)"
  then show "governed (update_user i f s)" by (rule governed_update)
next
  fix s :: auth_sys and g :: "session_row \<Rightarrow> session_row" and p and r :: session_row
  assume *: "governed s"
  show "governed (s\<lparr>at_sessions := update_rows p g (at_sessions s)\<rparr>)" "governed (s\<lparr>at_sessions := at_sessions s @ [r]\<rparr>)"
    using * by (simp_all add: governed_def superadmin_user_def has_role_def)
next
  fix s t :: auth_sys and usr
  assume "governed s" "\<And>x. x \<in> set (users (at_store s)) \<Longrightarrow> us_deleted_at x \<noteq> None"
  then have False unfolding governed_def superadmin_user_def by fastforce
  then show "governed t" ..
next
  fix s t :: auth_sys and usr a
  assume s: "governed s" and t: "users (at_store t) = users (at_store s) @ [usr]"
    "at_roles t = at_roles s" "at_assignments t = at_assignments s @ [a]"
  obtain u where u: "superadmin_user s u" using s by (auto simp: governed_def)
  then show "governed t"
    by (intro governed_users[OF s t(2) u, of u]) (auto simp: t superadmin_user_def)
next
  fix m fs i now
  assume g: "governed (identity m)" and "\<not> (disables fs \<and> last_superadmin i m)"
  let ?f = "set_user_fields now fs"
  have f: "us_id (?f u) = us_id u" "us_deleted_at (?f u) = us_deleted_at u"
    "\<not> disables fs \<Longrightarrow> us_status u \<noteq> US_DISABLED \<Longrightarrow> us_status (?f u) \<noteq> US_DISABLED" for u
    by (auto simp: set_user_fields_def Let_def disables_def text_of_def has_key_def split: option.splits)
      (auto elim!: as_str.elims)
  obtain u where u: "superadmin_user (identity m) u" "\<not> disables fs \<or> us_id u \<noteq> i"
    using another_superadmin[OF g] \<open>\<not> (disables fs \<and> _)\<close> g by (metis governed_def)
  let ?v = "if us_id u = i then ?f u else u"
  show "governed (identity (on_users (\<lambda>u. us_id u = i) ?f m))"
    using u f by (intro governed_users[OF g _ u(1), of _ ?v])
      (auto simp: superadmin_user_def on_users_def admin_simps update_rows_def)
next
  fix m i c
  assume g: "governed (identity m)" and "\<not> last_superadmin i m"
  then obtain u where u: "superadmin_user (identity m) u" "us_id u \<noteq> i" by (rule another_superadmin)
  have kept: "a \<in> set (am_assignments (delete_user_tx c i m))" if "a \<in> set (am_assignments m)" "ra_user a \<noteq> i" for a
    using that by (force simp: delete_user_tx_def revoke_sessions_def update_rows_def)
  have same: "role_rows (delete_user_tx c i m) = role_rows m"
    by (simp add: delete_user_tx_def revoke_sessions_def on_users_def admin_simps)
  have "superadmin_user (identity (delete_user_tx c i m)) u"
    unfolding superadmin_user_def
  proof (intro conjI)
    show "u \<in> set (users (at_store (identity (delete_user_tx c i m))))"
      using u by (force simp: superadmin_user_def delete_user_tx_def revoke_sessions_def on_users_def admin_simps update_rows_def)
    show "has_role [''Superadmin''] (us_id u) (identity (delete_user_tx c i m))"
      using u kept by (fastforce simp: superadmin_user_def has_role_iff admin_simps same)
  qed (use u in \<open>auto simp: superadmin_user_def\<close>)
  with g show "governed (identity (delete_user_tx c i m))"
    by (auto simp: governed_def admin_simps same)
next
  fix s t
  assume "governed s" "role_change s t"
  then show "governed t" by (rule governed_roles)
qed simp_all

section \<open>Who was removed stays out\<close>

definition banned :: "string \<Rightarrow> auth_sys \<Rightarrow> bool" where
  "banned i s \<longleftrightarrow> i \<in> us_id ` set (users (at_store s)) \<and>
     (\<forall>u\<in>set (users (at_store s)). us_id u = i \<longrightarrow> us_deleted_at u \<noteq> None) \<and>
     (\<forall>r\<in>set (at_sessions s). se_user r = i \<longrightarrow> se_deleted_at r \<noteq> None)"

lemma banned_users:
  assumes "banned i s" and "users (at_store t) = update_rows p f (users (at_store s))" and "at_sessions t = at_sessions s"
    and "\<And>u. us_id (f u) = us_id u \<and> (us_deleted_at u \<noteq> None \<longrightarrow> us_deleted_at (f u) \<noteq> None)"
  shows "banned i t"
proof -
  have "us_id ` set (users (at_store t)) = us_id ` set (users (at_store s))"
    unfolding assms(2) by (rule image_key_update_rows) (simp add: assms(4))
  with assms show ?thesis by (auto simp: banned_def in_update_rows)
qed

lemma banned_sessions:
  assumes "banned i s" and "users (at_store t) = users (at_store s)" and "at_sessions t = update_rows p g (at_sessions s)"
    and "\<And>r. se_user (g r) = se_user r \<and> (se_deleted_at r \<noteq> None \<longrightarrow> se_deleted_at (g r) \<noteq> None)"
  shows "banned i t"
  using assms by (auto simp: banned_def in_update_rows)

lemma user_fields_keep: "us_id (set_user_fields now fs u) = us_id u"
  "us_deleted_at (set_user_fields now fs u) = us_deleted_at u"
  by (simp_all add: set_user_fields_def Let_def)

lemma delete_tx_tables:
  "users (am_store (delete_user_tx c i m)) = update_rows (\<lambda>u. us_id u = i)
     (\<lambda>u. u\<lparr>us_deleted_at := Some (wc_now c), us_updated_at := wc_now c\<rparr>) (users (am_store m))"
  "am_sessions (delete_user_tx c i m) = update_rows (\<lambda>s. se_user s = i \<and> se_deleted_at s = None)
     (\<lambda>s. s\<lparr>se_deleted_at := Some (wc_now c), se_deleted_by := Some (wc_user c)\<rparr>) (am_sessions m)"
  by (simp_all add: delete_user_tx_def revoke_sessions_def on_users_def admin_simps)

lemma banned_delete:
  assumes "banned i (identity m)"
  shows "banned i (identity (delete_user_tx c j m))"
proof -
  let ?mid = "(identity m)\<lparr>at_store := am_store (delete_user_tx c j m)\<rparr>"
  have "banned i ?mid"
    by (rule banned_users[OF assms, where p = "\<lambda>u. us_id u = j" and
          f = "\<lambda>u. u\<lparr>us_deleted_at := Some (wc_now c), us_updated_at := wc_now c\<rparr>"])
      (simp_all add: admin_simps delete_tx_tables)
  then show ?thesis
    by (rule banned_sessions[where p = "\<lambda>s. se_user s = j \<and> se_deleted_at s = None" and
          g = "\<lambda>s. s\<lparr>se_deleted_at := Some (wc_now c), se_deleted_by := Some (wc_user c)\<rparr>"])
      (simp_all add: admin_simps delete_tx_tables)
qed

lemma banned_new_user:
  assumes "banned i s" and "us_id usr \<notin> us_id ` set (users (at_store s))"
    and "users (at_store t) = users (at_store s) @ [usr]" and "at_sessions t = at_sessions s"
  shows "banned i t"
proof -
  have "us_id usr \<noteq> i" using assms(1,2) by (auto simp: banned_def)
  with assms show ?thesis by (auto simp: banned_def)
qed

interpretation banned: admin_invariant "banned i" "\<lambda>j. j = i" for i
proof unfold_locales
  fix s :: auth_sys and f :: "user_row \<Rightarrow> user_row" and j
  assume b: "banned i s" and f: "\<And>u. us_id (f u) = us_id u \<and> us_deleted_at (f u) = us_deleted_at u \<and>
      (us_status u \<noteq> US_DISABLED \<longrightarrow> us_status (f u) \<noteq> US_DISABLED)"
  have f': "us_id (f u) = us_id u \<and> (us_deleted_at u \<noteq> None \<longrightarrow> us_deleted_at (f u) \<noteq> None)" for u
    using f[of u] by simp
  show "banned i (update_user j f s)"
    by (rule banned_users[OF b _ _ f', of _ "\<lambda>u. us_id u = j"]) (simp_all add: update_user_def)
next
  fix s :: auth_sys and g :: "session_row \<Rightarrow> session_row" and p
  assume b: "banned i s" and g: "\<And>r. se_user (g r) = se_user r \<and> (se_deleted_at r \<noteq> None \<longrightarrow> se_deleted_at (g r) \<noteq> None)"
  show "banned i (s\<lparr>at_sessions := update_rows p g (at_sessions s)\<rparr>)"
    by (rule banned_sessions[OF b _ _ g]) simp_all
next
  fix m fs j now
  assume "banned i (identity m)"
  then show "banned i (identity (on_users (\<lambda>u. us_id u = j) (set_user_fields now fs) m))"
    by (rule banned_users[where p = "\<lambda>u. us_id u = j" and f = "set_user_fields now fs"])
      (simp_all add: on_users_def admin_simps user_fields_keep)
next
  fix m j c
  assume "banned i (identity m)"
  then show "banned i (identity (delete_user_tx c j m))" by (rule banned_delete)
next
  fix s t :: auth_sys
  assume *: "banned i s" "role_change s t"
  then have "users (at_store t) = users (at_store s)" "at_sessions t = at_sessions s" by (simp_all add: role_change_def)
  with *(1) show "banned i t" by (simp add: banned_def)
next
  fix s t :: auth_sys
  assume "banned i s" "users (at_store t) = users (at_store s)" "at_sessions t = at_sessions s"
  then show "banned i t" by (simp add: banned_def)
next
  fix s t :: auth_sys and usr
  assume "banned i s" "us_id usr \<notin> us_id ` set (users (at_store s))"
    "users (at_store t) = users (at_store s) @ [usr]" "at_sessions t = at_sessions s"
  then show "banned i t" by (rule banned_new_user)
next
  fix s t :: auth_sys and usr
  assume "banned i s" "us_id usr \<notin> us_id ` set (users (at_store s))"
    "users (at_store t) = users (at_store s) @ [usr]" "at_sessions t = at_sessions s"
  then show "banned i t" by (rule banned_new_user)
next
  fix s :: auth_sys and r :: session_row
  assume "banned i s" "se_user r \<noteq> i"
  then show "banned i (s\<lparr>at_sessions := at_sessions s @ [r]\<rparr>)" by (simp add: banned_def)
qed (unfold banned_def, blast+)

lemma deleted_is_banned:
  assumes "user_live i m"
  shows "banned i (identity (delete_user_tx c i m))"
proof -
  have "us_id ` set (users (am_store (delete_user_tx c i m))) = us_id ` set (users (am_store m))"
    unfolding delete_tx_tables by (rule image_key_update_rows) simp
  then show ?thesis
    using assms by (auto simp: banned_def admin_simps delete_tx_tables in_update_rows user_live_def exists_row_iff)
qed

lemma refused_status:
  "rp_status (error_response ''NOT_FOUND'' msg st) = 404"
  "rp_status (error_response ''FORBIDDEN_LAST_SUPERADMIN'' msg st) = 409"
proof -
  have "map_of ERROR_STATUS_CODES ''NOT_FOUND'' = Some 404"
    "map_of ERROR_STATUS_CODES ''FORBIDDEN_LAST_SUPERADMIN'' = Some 409" by code_simp+
  then show "rp_status (error_response ''NOT_FOUND'' msg st) = 404"
    "rp_status (error_response ''FORBIDDEN_LAST_SUPERADMIN'' msg st) = 409" by (simp_all add: error_response_def)
qed

lemma delete_user_ok:
  assumes "delete_user c i m = (Inr rp, m')" and "rp_status rp = 200"
  shows "user_live i m" and "m' = delete_user_tx c i m"
  using assms
  by (auto simp: delete_user_def bind_run_def gets_def change_def refuse_def answer_def ret_def
      refused_status split: if_splits)

section \<open>Properties\<close>

text \<open>
  C26: The manager can always be administered. Once a live Superadmin exists that is not disabled, one
  exists after every sequence of administration requests, with any bodies and by anybody, and of logins,
  failed logins, step-ups, password changes and revocations: no deletion, disabling, change of a role or
  of a role's name takes the last one away.
\<close>
theorem a_superadmin_remains:
  assumes "governed (identity m)"
  shows "governed (identity (admin_run cr m as)) \<and> (\<exists>u. superadmin_user (identity (admin_run cr m as)) u)"
  using governed.admin_run_keeps[OF assms] by (auto simp: governed_def)

text \<open>
  C28: Deleting a user ends that user's access for good: after the deletion was answered with success no
  session token is accepted for that user, whatever administration requests, logins and step-ups
  follow.
\<close>
theorem a_deleted_user_is_out:
  assumes "delete_user c i m = (Inr rp, m')" and "rp_status rp = 200"
    and "validate_session cr uid now raw (identity (admin_run cr m' as)) = (Inr sn, s)"
  shows "sn_user sn \<noteq> i"
proof -
  have "banned i (identity (admin_run cr m' as))"
    using deleted_is_banned[OF delete_user_ok(1)[OF assms(1,2)]]
    by (intro banned.admin_run_keeps) (simp add: delete_user_ok(2)[OF assms(1,2)])
  with assms(3) show ?thesis
    by (auto simp: validate_accepts find_session_def banned_def dest!: find_row_SomeD)
qed

section \<open>Witnesses\<close>

text \<open>The sample service's users \<open>root\<close> and, created by an administration request, \<open>eve\<close>, who logs
  in; then \<open>eve\<close> is deleted and \<open>root\<close> tries to disable itself.\<close>

definition sample_admin :: admin_sys where
  "sample_admin = after_auth 50 sample_auth
     \<lparr>am_config = sample_config, am_devices = [], am_sessions = [], am_assignments = [], am_secrets = [],
      am_permissions = [], am_manager = None\<rparr>"

definition sample_ctx :: "string \<Rightarrow> int \<Rightarrow> jdict \<Rightarrow> web_ctx" where
  "sample_ctx p now body = \<lparr>wc_request = (Web_Gate.sample_request ''tok'')\<lparr>rq_json := Some (JObj body)\<rparr>,
     wc_session = \<lparr>sn_user = ''u_a'', sn_token = ''tok'', sn_expires_at = 1000000, sn_step_up_at = None, sn_created_at = 100\<rparr>,
     wc_now = now, wc_ids = (\<lambda>k n. p @ replicate k (CHR ''x'') @ replicate n (CHR ''y''))\<rparr>"

definition eve_created :: admin_call where
  "eve_created = CreateUser (sample_ctx ''e'' 110 [(''username'', JStr '' eve ''),
     (''password'', JStr ''twelve chars''), (''role_id'', JStr ''r_axx'')])"

definition eve_login :: admin_call where
  "eve_login = Identity 120 (Login ''tok9'' (Auth.sample_ids ''l'') 120 ''eve'' ''twelve chars'' sample_login)"

definition root_disabled :: admin_call where
  "root_disabled = UpdateUser (sample_ctx ''f'' 130 [(''status'', JStr ''disabled'')]) ''u_a''"

text \<open>\<open>eve\<close> got the Superadmin role, so \<open>root\<close> can be disabled; then \<open>eve\<close> is the last one.\<close>

theorem a_superadmin_remains_witness:
  "\<exists>u. superadmin_user (identity (admin_run sample_crypto sample_admin
     [eve_created, eve_login, root_disabled, DeleteUser (sample_ctx ''g'' 140 []) ''u_e''])) u"
proof -
  have "distinct (map ro_id (at_roles (identity sample_admin)))"
    "\<forall>r\<in>set (at_roles (identity sample_admin)). ro_deleted_at r = None \<and> ro_name r = ''Superadmin'' \<longrightarrow> ro_system r"
    "\<exists>u\<in>set (users (at_store (identity sample_admin))). us_deleted_at u = None \<and> us_status u \<noteq> US_DISABLED \<and>
       has_role [''Superadmin''] (us_id u) (identity sample_admin)" by code_simp+
  then have "governed (identity sample_admin)" by (auto simp: governed_def superadmin_user_def)
  from a_superadmin_remains[OF this] show ?thesis by blast
qed

theorem a_deleted_user_is_out_witness:
  "\<exists>rp m'. delete_user (sample_ctx ''g'' 140 []) ''u_e'' (admin_run sample_crypto sample_admin [eve_created, eve_login]) =
       (Inr rp, m') \<and> rp_status rp = 200 \<and>
     (\<exists>sn s. validate_session sample_crypto ''v'' 160 ''tok'' (identity (admin_run sample_crypto m' [eve_login])) = (Inr sn, s) \<and>
       sn_user sn \<noteq> ''u_e'')"
proof -
  let ?m = "admin_run sample_crypto sample_admin [eve_created, eve_login]"
  let ?d = "delete_user (sample_ctx ''g'' 140 []) ''u_e'' ?m"
  let ?v = "validate_session sample_crypto ''v'' 160 ''tok'' (identity (admin_run sample_crypto (snd ?d) [eve_login]))"
  have "is_ok (fst ?d)" "(case fst ?d of Inr rp \<Rightarrow> rp_status rp = 200 | _ \<Rightarrow> False)" "is_ok (fst ?v)" by code_simp+
  then obtain rp m' sn s where d: "?d = (Inr rp, m')" "rp_status rp = 200" and v: "?v = (Inr sn, s)"
    by (cases ?d; cases "fst ?d"; cases ?v; cases "fst ?v") auto
  from a_deleted_user_is_out[OF d, of sample_crypto "''v''" 160 "''tok''" "[eve_login]" sn s] d v show ?thesis by auto
qed

end
