(* ===== verification/Web_Worlds_Witness.thy ===== *)
theory Web_Worlds_Witness
  imports Web_Worlds_Props Worlds_Witness Web_Admin_Props
begin

text \<open>The properties of the world routes at concrete requests.\<close>

definition sample_lib :: web_lib where
  "sample_lib = \<lparr>wl_secure_filename = (\<lambda>n. n),
     wl_send_file = (\<lambda>rq n x. ok_response [(''name'', JStr n), (''content'', JStr x)] 200), wl_decode = (\<lambda>x. x)\<rparr>"

definition sample_worlds_web :: worlds_web where
  "sample_worlds_web =
     (let s = world_sample (sample_row WS_OFF) [] [] in
      \<lparr>ww_sys = s\<lparr>ws_ops := (ws_ops s)\<lparr>os_store := (ws_store s)\<lparr>users := [new_user 1 ''u_a'' ''root'' None ''sec'']\<rparr>\<rparr>,
          ws_tree := [([''w''], Dir), ([''w'', ''a''], File ''hello''), ([''w'', ''out''], Link [''etc'']), ([''etc''], Dir)]\<rparr>,
       ww_previews = [], ww_fanout = fanout_new (hub_new 5)\<rparr>)"

definition sample_worlds_ctx :: "jdict \<Rightarrow> (string \<times> string) list \<Rightarrow> worlds_ctx" where
  "sample_worlds_ctx body args = web_ctx.extend (sample_ctx ''d'' 110 body)
     \<lparr>wx_key = None, wx_args = args, wx_form = args, wx_upload = Some (''f'', ''bytes''), wx_mtime = (\<lambda>p. 0)\<rparr>"

text \<open>A file is fetched, one is uploaded, and the link that leads out of the directory is refused.\<close>

theorem file_requests_stay_inside_witness:
  "(let row = sample_row WS_OFF; fetch = sample_worlds_ctx [] [(''path'', ''a'')];
        put = sample_worlds_ctx [] [(''path'', ''b'')]; leak = sample_worlds_ctx [] [(''path'', ''out/b'')];
        t = snd (handle_route sample_crypto sample_lib sample_env put (UploadFile ''w1'') sample_worlds_web) in
     confined (world_directory row sample_worlds_web) sample_worlds_web t \<and>
     node (ww_tree t) [''w'', ''b''] = Some (File ''bytes'') \<and>
     (\<exists>rp. fst (handle_route sample_crypto sample_lib sample_env fetch (DownloadFile ''w1'') sample_worlds_web) = Inr rp \<and>
        (is_error rp \<or> serves_inside sample_lib fetch (world_directory row sample_worlds_web) (ww_tree sample_worlds_web) rp)) \<and>
     fst (handle_route sample_crypto sample_lib sample_env leak (UploadFile ''w1'') sample_worlds_web) =
       Inr (error_response ''FILE_PATH_UNAUTHORIZED'' ''Path escapes the world directory.'' None))"
proof -
  let ?fetch = "sample_worlds_ctx [] [(''path'', ''a'')]" and ?put = "sample_worlds_ctx [] [(''path'', ''b'')]"
  let ?leak = "sample_worlds_ctx [] [(''path'', ''out/b'')]"
  let ?h = "handle_route sample_crypto sample_lib sample_env"
  have live: "live_world ''w1'' sample_worlds_web = Some (sample_row WS_OFF)"
    by (simp add: live_world_def sample_worlds_web_def Let_def world_sample_def sample_row_def sample_world_def sample_sys_def)
  have "is_ok (fst (?h ?fetch (DownloadFile ''w1'') sample_worlds_web))" by code_simp
  then obtain rp s1 where d: "?h ?fetch (DownloadFile ''w1'') sample_worlds_web = (Inr rp, s1)"
    by (cases "?h ?fetch (DownloadFile ''w1'') sample_worlds_web"; cases "fst (?h ?fetch (DownloadFile ''w1'') sample_worlds_web)") auto
  obtain r t where u: "?h ?put (UploadFile ''w1'') sample_worlds_web = (r, t)" by fastforce
  have "node (ww_tree (snd (?h ?put (UploadFile ''w1'') sample_worlds_web))) [''w'', ''b''] = Some (File ''bytes'')" by code_simp
  moreover have "fst (?h ?leak (UploadFile ''w1'') sample_worlds_web) =
      Inr (error_response ''FILE_PATH_UNAUTHORIZED'' ''Path escapes the world directory.'' None)" by code_simp
  ultimately show ?thesis
    using file_requests_stay_inside[OF d] file_requests_stay_inside[OF u] live by (simp add: Let_def d u del: handle_route.simps)
qed

text \<open>The world is deleted with the token of the preview.\<close>

theorem deletion_needs_a_fresh_preview_witness:
  "\<exists>s0 c0 r0. (s0, c0, DeletePreview ''w1'') \<in> set [(sample_worlds_web, sample_worlds_ctx [] [], DeletePreview ''w1'')] \<and>
     live_world ''w1'' s0 = Some r0 \<and> wo_metadata_version r0 = wo_metadata_version (sample_row WS_OFF)"
proof -
  let ?c = "sample_worlds_ctx [] []" and ?d = "sample_worlds_ctx [(''preview_token'', JStr ''dyy'')] []"
  let ?h = "handle_route sample_crypto sample_lib sample_env"
  let ?p = "?h ?c (DeletePreview ''w1'') sample_worlds_web"
  have "requests sample_crypto sample_lib sample_env [] sample_worlds_web"
    by (rule requests.start) (simp add: sample_worlds_web_def Let_def)
  from requests.request[OF this, of ?c "DeletePreview ''w1''" "fst ?p" "snd ?p"]
  have run: "requests sample_crypto sample_lib sample_env [(sample_worlds_web, ?c, DeletePreview ''w1'')] (snd ?p)" by simp
  obtain r s' where d: "?h ?d (DeleteWorld ''w1'') (snd ?p) = (r, s')" by fastforce
  have "length (operations (ww_store (snd (?h ?d (DeleteWorld ''w1'') (snd ?p))))) = 1"
    "operations (ww_store (snd ?p)) = []" "live_world ''w1'' (snd ?p) = Some (sample_row WS_OFF)" by code_simp+
  then have "operations (ww_store s') \<noteq> operations (ww_store (snd ?p))"
    and live: "live_world ''w1'' (snd ?p) = Some (sample_row WS_OFF)" using d by auto
  from deletion_needs_a_fresh_preview[OF run d this(1)] live show ?thesis by fastforce
qed

end
