(* ===== verification/Scheduler.thy ===== *)
theory Scheduler
  imports Operations_Inv
begin

text \<open>
  The scheduler tick of \<open>app/services/scheduler.py\<close>: which run of a schedule is due, whether
  it was already accounted for, and its dispatch as an operation or its record as a missed run.
  Times are whole seconds since the epoch, so the UTC calendar day of \<open>now\<close> is
  \<open>now div 86400\<close>.  A tick draws the identifiers of its \<open>k\<close>-th schedule from \<open>u k\<close>.  An
  exception (malformed text in a schedule, an integrity error) leaves the tick where it is:
  what was committed before stays.  The numbers of an interval are integers: what Python makes of
  a float there (\<open>int()\<close> truncates it, and raises on an infinite one) is not modelled.
\<close>

section \<open>When a run is due\<close>

datatype sched_error = SchedValueError | SchedTypeError | SchedOpError op_error

fun json_int :: "json \<Rightarrow> sched_error + int" where
  "json_int (JInt i) = Inr i"
| "json_int (JBool b) = Inr (if b then 1 else 0)"
| "json_int (JStr s) = (case py_int s of None \<Rightarrow> Inl SchedValueError | Some i \<Rightarrow> Inr i)"
| "json_int _ = Inl SchedTypeError"

definition parse_time_of_day :: "string \<Rightarrow> sched_error + int \<times> int" where
  "parse_time_of_day s =
     (case split_once (CHR '':'') s of
        None \<Rightarrow> Inl SchedValueError
      | Some (h, m) \<Rightarrow>
          (case (py_int h, py_int m) of (Some a, Some b) \<Rightarrow> Inr (a, b) | _ \<Rightarrow> Inl SchedValueError))"

definition schedule_kind :: "schedule_row \<Rightarrow> json option" where
  "schedule_kind s =
     (let k = jget ''kind'' (sc_interval s) in
      if json_truthy k then k else jget ''type'' (sc_interval s))"

definition expected_run_at :: "schedule_row \<Rightarrow> int \<Rightarrow> sched_error + int option" where
  "expected_run_at s now =
     (let kind = schedule_kind s; base = sc_last_changed_at s in
      if kind = Some (JStr ''every_n_days'') then
        res_bind (case jget ''days'' (sc_interval s) of None \<Rightarrow> Inr 1 | Some j \<Rightarrow> json_int j)
          (\<lambda>n. let period = max 1 n * 24 * 60 * 60; elapsed = now - base in
               Inr (if elapsed < period then None else Some (base + elapsed div period * period)))
      else if kind \<in> {Some (JStr ''daily''), Some (JStr ''weekly''), Some (JStr ''monthly'')} then
        res_bind (parse_time_of_day (sc_time s))
          (\<lambda>(h, m).
             if \<not> (0 \<le> h \<and> h \<le> 23 \<and> 0 \<le> m \<and> m \<le> 59) then Inl SchedValueError
             else let today = now div 86400 * 86400 + h * 3600 + m * 60;
                      expected = (if now < today then today - 86400 else today) in
                  Inr (if expected \<le> base then None else Some expected))
      else Inr None)"

section \<open>Queries\<close>

definition enabled_schedules :: "store \<Rightarrow> schedule_row list" where
  "enabled_schedules st = sort_key sc_created_at
     (filter (\<lambda>s. sc_enabled s \<and> sc_deleted_at s = None) (schedules st))"

definition schedule_for_dispatch :: "string \<Rightarrow> store \<Rightarrow> schedule_row option" where
  "schedule_for_dispatch i st =
     find_row (\<lambda>s. sc_id s = i \<and> sc_enabled s \<and> sc_deleted_at s = None) (schedules st)"

definition run_key :: "string \<Rightarrow> int \<Rightarrow> string" where
  "run_key i expected = ''schedule:'' @ i @ '':'' @ int_dec expected"

definition has_run_operation :: "string \<Rightarrow> int \<Rightarrow> store \<Rightarrow> bool" where
  "has_run_operation i expected st =
     exists_row (\<lambda>r. op_key r = Some (run_key i expected)) (operations st)"

definition has_recorded :: "string \<Rightarrow> int \<Rightarrow> store \<Rightarrow> bool" where
  "has_recorded i expected st =
     exists_row (\<lambda>m. mr_schedule m = i \<and> mr_expected m = expected) (missed_runs st)"

definition has_schedule_conflict :: "string option \<Rightarrow> store \<Rightarrow> bool" where
  "has_schedule_conflict w st =
     exists_row (\<lambda>r. op_world r = w \<and> op_type r \<in> {BACKUP, RESTORE, CLEANUP} \<and>
       in_flight (op_status r)) (operations st)"

definition operation_type_for :: "string \<Rightarrow> OperationType option" where
  "operation_type_for t =
     (if t = ''backup'' then Some BACKUP
      else if t = ''cleanup'' \<or> t = ''maintenance'' then Some CLEANUP
      else None)"

definition snapshot_name :: "schedule_row \<Rightarrow> string" where
  "snapshot_name s =
     (case sc_world s of None \<Rightarrow> ''Global'' | Some w \<Rightarrow> w) @ '' '' @ sc_type s @ '' schedule''"

section \<open>The tick\<close>

definition record_missed ::
  "(nat \<Rightarrow> string) \<Rightarrow> schedule_row \<Rightarrow> int \<Rightarrow> int \<Rightarrow> op_sys \<Rightarrow> sched_error + nat \<times> op_sys" where
  "record_missed u s expected detected sys =
     (let st = os_store sys; i = ''mr_'' @ u 0 in
      if has_recorded (sc_id s) expected st then Inr (0, sys)
      else if exists_row (\<lambda>m. mr_id m = i) (missed_runs st) then Inl (SchedOpError OpIntegrityError)
      else
        let m = \<lparr>mr_id = i, mr_schedule = sc_id s, mr_name = snapshot_name s, mr_type = sc_type s,
                 mr_expected = expected, mr_detected = detected, mr_resolution = ''pending'',
                 mr_created_at = detected, mr_resolved_at = None, mr_resolved_by = None\<rparr>;
            sys1 = sys\<lparr>os_store := st\<lparr>missed_runs := missed_runs st @ [m]\<rparr>\<rparr> in
        Inr (1, op_publish ''missed_run''
          [(''missed_run_id'', JStr i), (''schedule_id'', JStr (sc_id s)),
           (''schedule_name_snapshot'', JStr (snapshot_name s)), (''expected_run_at'', JInt expected)]
          (sc_world s) sys1))"

definition schedule_request :: "schedule_row \<Rightarrow> OperationType \<Rightarrow> int \<Rightarrow> OperationInput" where
  "schedule_request s ty expected =
     \<lparr>oi_type = ty, oi_actor_type = ACTOR_SYSTEM, oi_world = sc_world s, oi_actor_user = None,
      oi_key = Some (run_key (sc_id s) expected),
      oi_data = Some [(''schedule_id'', JStr (sc_id s)), (''expected_run_at'', JInt expected)],
      oi_compensates = None\<rparr>"

datatype tick_step = NotDue | Passed | Dispatched | Missed nat

definition dispatch_run ::
  "(nat \<Rightarrow> string) \<Rightarrow> int \<Rightarrow> schedule_row \<Rightarrow> int \<Rightarrow> op_sys \<Rightarrow> sched_error + tick_step \<times> op_sys" where
  "dispatch_run u now cur expected sys =
     (let missed = res_bind (record_missed u cur expected now sys) (\<lambda>(n, sys'). Inr (Missed n, sys')) in
      case operation_type_for (sc_type cur) of
        None \<Rightarrow> missed
      | Some ty \<Rightarrow>
          (if has_schedule_conflict (sc_world cur) (os_store sys) then missed
           else case create_with_replay u now (schedule_request cur ty expected) OS_QUEUED False sys of
             Inr (res, sys') \<Rightarrow> Inr (Dispatched, sys')
           | Inl e \<Rightarrow> (case e of OperationConflictError t w \<Rightarrow> missed | _ \<Rightarrow> Inl (SchedOpError e))))"

definition tick_one ::
  "(nat \<Rightarrow> string) \<Rightarrow> int \<Rightarrow> schedule_row \<Rightarrow> op_sys \<Rightarrow> sched_error + tick_step \<times> op_sys" where
  "tick_one u now s sys =
     res_bind (expected_run_at s now)
       (\<lambda>due. case due of
          None \<Rightarrow> Inr (NotDue, sys)
        | Some expected \<Rightarrow>
            (if has_recorded (sc_id s) expected (os_store sys) \<or>
                has_run_operation (sc_id s) expected (os_store sys)
             then Inr (Passed, sys)
             else case schedule_for_dispatch (sc_id s) (os_store sys) of
               None \<Rightarrow> Inr (Passed, sys)
             | Some cur \<Rightarrow>
                 res_bind (expected_run_at cur now)
                   (\<lambda>cur_due. if cur_due \<noteq> Some expected then Inr (Passed, sys)
                              else dispatch_run u now cur expected sys)))"

record tick_result =
  tr_due :: nat
  tr_dispatched :: nat
  tr_missed :: nat

definition count_step :: "tick_step \<Rightarrow> tick_result \<Rightarrow> tick_result" where
  "count_step x r =
     (case x of
        NotDue \<Rightarrow> r
      | Passed \<Rightarrow> r\<lparr>tr_due := tr_due r + 1\<rparr>
      | Dispatched \<Rightarrow> r\<lparr>tr_due := tr_due r + 1, tr_dispatched := tr_dispatched r + 1\<rparr>
      | Missed n \<Rightarrow> r\<lparr>tr_due := tr_due r + 1, tr_missed := tr_missed r + n\<rparr>)"

text \<open>The loop gives the state it reached also when a schedule raises.\<close>

fun tick_loop ::
  "(nat \<Rightarrow> nat \<Rightarrow> string) \<Rightarrow> nat \<Rightarrow> int \<Rightarrow> schedule_row list \<Rightarrow> tick_result \<Rightarrow> op_sys
    \<Rightarrow> (sched_error + tick_result) \<times> op_sys" where
  "tick_loop u k now [] r sys = (Inr r, sys)"
| "tick_loop u k now (s # ss) r sys =
     (case tick_one (u k) now s sys of
        Inl e \<Rightarrow> (Inl e, sys)
      | Inr (x, sys') \<Rightarrow> tick_loop u (Suc k) now ss (count_step x r) sys')"

definition tick :: "(nat \<Rightarrow> nat \<Rightarrow> string) \<Rightarrow> int \<Rightarrow> op_sys \<Rightarrow> (sched_error + tick_result) \<times> op_sys" where
  "tick u now sys =
     tick_loop u 0 now (enabled_schedules (os_store sys))
       \<lparr>tr_due = 0, tr_dispatched = 0, tr_missed = 0\<rparr> sys"

section \<open>Lemmas\<close>

lemma run_key_inj [simp]: "run_key i e = run_key j f \<longleftrightarrow> i = j \<and> e = f"
proof
  assume "run_key i e = run_key j f"
  then have "i @ CHR '':'' # int_dec e = j @ CHR '':'' # int_dec f" by (simp add: run_key_def)
  then show "i = j \<and> e = f" by (rule split_last_colon)
qed simp

definition accounted :: "string \<Rightarrow> int \<Rightarrow> store \<Rightarrow> bool" where
  "accounted i e st \<longleftrightarrow> has_recorded i e st \<or> has_run_operation i e st"

text \<open>Every recorded miss is a run without an operation, and is recorded once.\<close>

definition runs_ok :: "store \<Rightarrow> bool" where
  "runs_ok st \<longleftrightarrow> ops_ok (operations st) \<and>
     distinct (map (\<lambda>m. (mr_schedule m, mr_expected m)) (missed_runs st)) \<and>
     (\<forall>m\<in>set (missed_runs st). \<not> has_run_operation (mr_schedule m) (mr_expected m) st)"

lemma create_with_replay_frame:
  assumes "ops_ok (operations (os_store sys))"
    and "create_with_replay u now req init allow sys = Inr ((r, b), sys')"
  shows "ops_ok (operations (os_store sys'))"
    and "rows_evolve (operations (os_store sys)) (operations (os_store sys'))"
    and "missed_runs (os_store sys') = missed_runs (os_store sys)"
    and "schedules (os_store sys') = schedules (os_store sys)"
    and "r \<in> set (operations (os_store sys'))"
proof -
  from create_with_replay_store[OF assms(2)] obtain res where
    tx: "create_tx u now req init allow (os_store sys) = Inr (res, os_store sys')"
    and res: "res = Replayed r \<or> (\<exists>xs. res = Created r xs)" by blast
  have *: "(os_store sys' = os_store sys \<and> r \<in> set (operations (os_store sys))) \<or>
      (\<exists>code dead. create_effect now req r code dead (os_store sys) (os_store sys'))"
    using create_tx_effect[OF assms(1) tx] res by (elim disjE exE conjE) auto
  have fr: "missed_runs (os_store sys') = missed_runs (os_store sys)"
      "schedules (os_store sys') = schedules (os_store sys)" "r \<in> set (operations (os_store sys'))"
    if "create_effect now req r code dead (os_store sys) (os_store sys')" for code dead
  proof -
    from that obtain ops al where "os_store sys' = (os_store sys)\<lparr>operations := ops, audits := al\<rparr>"
      by (auto simp: create_effect_def)
    then show "missed_runs (os_store sys') = missed_runs (os_store sys)"
      "schedules (os_store sys') = schedules (os_store sys)" by simp_all
    show "r \<in> set (operations (os_store sys'))" using that by (simp add: create_effect_def)
  qed
  from * fr create_effect_ops[OF _ assms(1)] assms(1)
  show "ops_ok (operations (os_store sys'))"
    "rows_evolve (operations (os_store sys)) (operations (os_store sys'))"
    "missed_runs (os_store sys') = missed_runs (os_store sys)"
    "schedules (os_store sys') = schedules (os_store sys)"
    "r \<in> set (operations (os_store sys'))"
    by (metis rows_evolve_refl)+
qed

lemma fresh_key_creates:
  assumes "ops_ok (operations (os_store sys))" and "oi_key req = Some k"
    and "\<forall>r\<in>set (operations (os_store sys)). op_key r \<noteq> Some k"
    and "oi_type req \<noteq> START" and "oi_type req \<noteq> STOP"
    and "create_with_replay u now req init allow sys = Inr ((r, b), sys')"
  shows "\<not> b"
proof -
  from create_with_replay_store[OF assms(6)] obtain res where
    tx: "create_tx u now req init allow (os_store sys) = Inr (res, os_store sys')"
    and res: "b \<and> res = Replayed r \<or> \<not> b \<and> (\<exists>xs. res = Created r xs)" by blast
  have nokey: "find_by_key (oi_type req) k (os_store sys) = None"
    using assms(3) by (auto simp: find_by_key_def row_simps)
  have "\<exists>r xs. res = Created r xs"
    using tx assms(2,4,5) nokey
    by (auto simp: create_tx_def create_insert_def Let_def result_simps split: if_splits option.splits)
  with res show ?thesis by auto
qed

lemma created_key_runs:
  assumes "ops_ok (operations (os_store sys))" and "\<not> has_run_operation i e (os_store sys)"
    and "operation_type_for t = Some ty"
    and "create_with_replay u now (schedule_request s ty e) OS_QUEUED False sys = Inr ((r, b), sys')"
    and "sc_id s = i"
  shows "r \<in> set (operations (os_store sys')) \<and> op_key r = Some (run_key i e)"
proof -
  have "ty = BACKUP \<or> ty = CLEANUP" using assms(3) by (auto simp: operation_type_for_def split: if_splits)
  then have "\<not> b"
    using assms by (intro fresh_key_creates[OF assms(1) _ _ _ _ assms(4), of "run_key i e"])
      (auto simp: schedule_request_def has_run_operation_def row_simps)
  with created_row_present[OF assms(1)] assms(4,5) show ?thesis
    by (auto simp: schedule_request_def)
qed

lemma has_run_mono:
  assumes "rows_evolve (operations st) (operations st')" and "has_run_operation i e st"
  shows "has_run_operation i e st'"
proof -
  from assms(2) obtain r where r: "r \<in> set (operations st)" "op_key r = Some (run_key i e)"
    by (auto simp: has_run_operation_def row_simps)
  from rows_evolve_member[OF assms(1) r(1)] r(2) show ?thesis
    by (auto simp: has_run_operation_def row_simps row_evolves_def)
qed

lemma create_new_keys:
  assumes "ops_ok (operations (os_store sys))"
    and "create_with_replay u now req init allow sys = Inr ((r, b), sys')"
    and "x \<in> set (operations (os_store sys'))"
  shows "op_key x = oi_key req \<or> (\<exists>x0\<in>set (operations (os_store sys)). op_key x0 = op_key x)"
proof -
  from create_with_replay_store[OF assms(2)] obtain res where
    tx: "create_tx u now req init allow (os_store sys) = Inr (res, os_store sys')" by blast
  from create_tx_effect[OF assms(1) tx]
  have "os_store sys' = os_store sys \<or> (\<exists>s code dead. create_effect now req
      (new_op_row (''op_'' @ u 0) now req s) code dead (os_store sys) (os_store sys'))"
    by (elim disjE exE conjE) blast+
  then show ?thesis
  proof (elim disjE exE)
    assume "os_store sys' = os_store sys"
    with assms(3) show ?thesis by auto
  next
    fix s code dead
    assume "create_effect now req (new_op_row (''op_'' @ u 0) now req s) code dead
      (os_store sys) (os_store sys')"
    with assms(3) show ?thesis
      by (auto simp: create_effect_def in_update_rows cancelled_def new_op_row_def)
  qed
qed

text \<open>The effect of one schedule's turn.\<close>

definition turn_ok :: "store \<Rightarrow> store \<Rightarrow> bool" where
  "turn_ok st st' \<longleftrightarrow> runs_ok st' \<and> schedules st' = schedules st \<and>
     rows_evolve (operations st) (operations st') \<and> set (missed_runs st) \<subseteq> set (missed_runs st')"

lemma turn_ok_refl: "runs_ok st \<Longrightarrow> turn_ok st st"
  by (simp add: turn_ok_def)

lemma turn_ok_trans: "turn_ok a b \<Longrightarrow> turn_ok b c \<Longrightarrow> turn_ok a c"
  by (auto simp: turn_ok_def intro: rows_evolve_trans)

lemma accounted_mono: "turn_ok st st' \<Longrightarrow> accounted i e st \<Longrightarrow> accounted i e st'"
  using has_run_mono by (auto simp: turn_ok_def accounted_def has_recorded_def row_simps)

lemma record_missed_turn:
  assumes "runs_ok (os_store sys)" and "\<not> has_run_operation (sc_id s) e (os_store sys)"
    and "record_missed u s e now sys = Inr (n, sys')"
  shows "turn_ok (os_store sys) (os_store sys') \<and> accounted (sc_id s) e (os_store sys') \<and> n \<le> 1"
proof (cases "has_recorded (sc_id s) e (os_store sys)")
  case True
  with assms show ?thesis by (simp add: record_missed_def Let_def turn_ok_refl accounted_def)
next
  case False
  with assms(3) obtain m where m: "os_store sys' = (os_store sys)\<lparr>missed_runs := missed_runs (os_store sys) @ [m]\<rparr>"
    "mr_schedule m = sc_id s" "mr_expected m = e" "n = 1"
    by (auto simp: record_missed_def Let_def split: if_splits)
  have "runs_ok (os_store sys')"
    using assms(1,2) False m(2,3)
    by (auto simp: runs_ok_def m(1) has_run_operation_def has_recorded_def row_simps)
  with m show ?thesis
    by (auto simp: turn_ok_def accounted_def has_recorded_def row_simps)
qed

lemma create_turn:
  assumes "runs_ok (os_store sys)" and "\<not> has_recorded i e (os_store sys)"
    and "\<not> has_run_operation i e (os_store sys)" and "operation_type_for t = Some ty"
    and "create_with_replay u now (schedule_request s ty e) OS_QUEUED False sys = Inr (res, sys')"
    and "sc_id s = i"
  shows "turn_ok (os_store sys) (os_store sys') \<and> accounted i e (os_store sys')"
proof -
  obtain r b where res: "res = (r, b)" by fastforce
  have ok: "ops_ok (operations (os_store sys))" using assms(1) by (simp add: runs_ok_def)
  note c = assms(5)[unfolded res]
  note fr = create_with_replay_frame[OF ok c]
  have "\<not> has_run_operation (mr_schedule m) (mr_expected m) (os_store sys')"
    if m: "m \<in> set (missed_runs (os_store sys))" for m
  proof
    assume "has_run_operation (mr_schedule m) (mr_expected m) (os_store sys')"
    then obtain x where x: "x \<in> set (operations (os_store sys'))"
      "op_key x = Some (run_key (mr_schedule m) (mr_expected m))"
      by (auto simp: has_run_operation_def row_simps)
    from create_new_keys[OF ok c x(1)] show False
    proof
      assume "op_key x = oi_key (schedule_request s ty e)"
      with x(2) assms(2,6) m show False
        by (auto simp: schedule_request_def has_recorded_def row_simps)
    next
      assume "\<exists>x0\<in>set (operations (os_store sys)). op_key x0 = op_key x"
      with x(2) m assms(1) show False
        by (auto simp: runs_ok_def has_run_operation_def row_simps)
    qed
  qed
  with assms(1) fr have "turn_ok (os_store sys) (os_store sys')"
    by (auto simp: turn_ok_def runs_ok_def)
  moreover have "accounted i e (os_store sys')"
    using created_key_runs[OF ok assms(3,4) c assms(6)]
    by (auto simp: accounted_def has_run_operation_def row_simps)
  ultimately show ?thesis by blast
qed

lemma schedule_for_dispatch_unique:
  assumes "distinct (map sc_id (schedules st))" and "s \<in> set (enabled_schedules st)"
  shows "schedule_for_dispatch (sc_id s) st = Some s"
proof -
  have s: "s \<in> set (schedules st)" "sc_enabled s \<and> sc_deleted_at s = None"
    using assms(2) by (auto simp: enabled_schedules_def)
  then obtain t where "schedule_for_dispatch (sc_id s) st = Some t"
    using find_row_Some_iff_ex[of "\<lambda>x. sc_id x = sc_id s \<and> sc_enabled x \<and> sc_deleted_at x = None" "schedules st"]
    by (auto simp: schedule_for_dispatch_def)
  with find_row_SomeD[of _ "schedules st" t] s distinct_map_same[OF assms(1)] show ?thesis
    by (auto simp: schedule_for_dispatch_def)
qed

lemma dispatch_run_turn:
  assumes "runs_ok (os_store sys)" and "\<not> has_recorded (sc_id s) e (os_store sys)"
    and "\<not> has_run_operation (sc_id s) e (os_store sys)"
    and "dispatch_run u now s e sys = Inr (x, sys')"
  shows "turn_ok (os_store sys) (os_store sys') \<and> accounted (sc_id s) e (os_store sys')"
proof -
  define missed where "missed = res_bind (record_missed u s e now sys) (\<lambda>(n, y). Inr (Missed n, y))"
  have miss: ?thesis if "missed = Inr (x, sys')"
    using that record_missed_turn[OF assms(1,3), of u now] by (auto simp: missed_def result_simps)
  note body = assms(4)[unfolded dispatch_run_def Let_def missed_def[symmetric]]
  show ?thesis
  proof (cases "operation_type_for (sc_type s)")
    case None
    with body miss show ?thesis by simp
  next
    case (Some ty)
    note ty = this
    show ?thesis
    proof (cases "create_with_replay u now (schedule_request s ty e) OS_QUEUED False sys")
      case (Inl err)
      with body miss ty show ?thesis by (cases err) (simp_all split: if_splits)
    next
      case (Inr p)
      obtain res sys1 where p: "p = (res, sys1)" by fastforce
      from create_turn[OF assms(1-3) ty Inr[unfolded p] refl] body miss ty Inr p
      show ?thesis by (simp split: if_splits)
    qed
  qed
qed

lemma tick_one_turn:
  assumes "runs_ok (os_store sys)" and "distinct (map sc_id (schedules (os_store sys)))"
    and "s \<in> set (enabled_schedules (os_store sys))"
    and "tick_one u now s sys = Inr (x, sys')"
  shows "turn_ok (os_store sys) (os_store sys') \<and>
     (\<forall>e. expected_run_at s now = Inr (Some e) \<longrightarrow> accounted (sc_id s) e (os_store sys'))"
proof (cases "expected_run_at s now")
  case (Inl err)
  with assms(4) show ?thesis by (simp add: tick_one_def)
next
  case (Inr due)
  show ?thesis
  proof (cases due)
    case None
    with Inr assms(1,4) show ?thesis by (simp add: tick_one_def turn_ok_refl)
  next
    case (Some e)
    note cur = schedule_for_dispatch_unique[OF assms(2,3)]
    show ?thesis
    proof (cases "has_recorded (sc_id s) e (os_store sys) \<or> has_run_operation (sc_id s) e (os_store sys)")
      case True
      with Inr Some assms(1,4) show ?thesis
        by (simp add: tick_one_def turn_ok_refl accounted_def)
    next
      case False
      with Inr Some assms(4) cur have "dispatch_run u now s e sys = Inr (x, sys')"
        by (simp add: tick_one_def)
      with dispatch_run_turn[OF assms(1), of s e u now x sys'] False Inr Some show ?thesis by simp
    qed
  qed
qed

lemma tick_loop_turns:
  assumes "runs_ok (os_store sys)" and "distinct (map sc_id (schedules (os_store sys)))"
    and "set ss \<subseteq> set (enabled_schedules (os_store sys))"
    and "tick_loop u k now ss r sys = (res, sys')"
  shows "turn_ok (os_store sys) (os_store sys') \<and>
     (is_ok res \<longrightarrow> (\<forall>s\<in>set ss. \<forall>e. expected_run_at s now = Inr (Some e) \<longrightarrow>
        accounted (sc_id s) e (os_store sys')))"
  using assms
proof (induction ss arbitrary: k r sys)
  case Nil
  then show ?case by (auto simp: turn_ok_refl)
next
  case (Cons s ss)
  show ?case
  proof (cases "tick_one (u k) now s sys")
    case (Inl e)
    with Cons.prems show ?thesis by (auto simp: turn_ok_refl)
  next
    case (Inr p)
    obtain x sys1 where p: "p = (x, sys1)" by fastforce
    from tick_one_turn[OF Cons.prems(1,2) _ Inr[unfolded p]] Cons.prems(3) have
      t: "turn_ok (os_store sys) (os_store sys1)"
        "\<forall>e. expected_run_at s now = Inr (Some e) \<longrightarrow> accounted (sc_id s) e (os_store sys1)" by auto
    have "turn_ok (os_store sys1) (os_store sys') \<and>
     (is_ok res \<longrightarrow> (\<forall>s\<in>set ss. \<forall>e. expected_run_at s now = Inr (Some e) \<longrightarrow>
        accounted (sc_id s) e (os_store sys')))"
      using Cons.prems Inr p t(1)
      by (intro Cons.IH[of sys1 "Suc k" "count_step x r"])
        (auto simp: turn_ok_def enabled_schedules_def)
    then show ?thesis
      using t turn_ok_trans[OF t(1), of "os_store sys'"]
        accounted_mono[of "os_store sys1" "os_store sys'"] by (auto simp only: list.set insert_iff ball_simps)
  qed
qed

text \<open>A turn accounts for no run but the due one of its schedule.\<close>

definition turn_adds :: "string \<Rightarrow> int \<Rightarrow> store \<Rightarrow> store \<Rightarrow> bool" where
  "turn_adds i e st st' \<longleftrightarrow> (\<forall>j f. accounted j f st' \<longrightarrow> accounted j f st \<or> j = i \<and> f = e)"

lemma turn_adds_refl: "turn_adds i e st st"
  by (simp add: turn_adds_def)

lemma record_missed_adds: "record_missed u s e now sys = Inr (n, sys') \<Longrightarrow> turn_adds (sc_id s) e (os_store sys) (os_store sys')"
  by (auto simp: turn_adds_def record_missed_def Let_def accounted_def has_recorded_def has_run_operation_def row_simps
      split: if_splits)

lemma create_adds:
  assumes "ops_ok (operations (os_store sys))"
    and "create_with_replay u now (schedule_request s ty e) OS_QUEUED False sys = Inr (res, sys')"
  shows "turn_adds (sc_id s) e (os_store sys) (os_store sys')"
  unfolding turn_adds_def
proof (intro allI impI)
  obtain r b where res: "res = (r, b)" by fastforce
  note c = assms(2)[unfolded res]
  fix j f
  assume "accounted j f (os_store sys')"
  then consider "has_recorded j f (os_store sys')" | x where "x \<in> set (operations (os_store sys'))" "op_key x = Some (run_key j f)"
    by (auto simp: accounted_def has_run_operation_def row_simps)
  then show "accounted j f (os_store sys) \<or> j = sc_id s \<and> f = e"
  proof cases
    case 1
    then show ?thesis using create_with_replay_frame(3)[OF assms(1) c] by (simp add: accounted_def has_recorded_def)
  next
    case 2
    with create_new_keys[OF assms(1) c 2(1)] show ?thesis
      by (auto simp: schedule_request_def accounted_def has_run_operation_def row_simps)
  qed
qed

lemma tick_one_adds:
  assumes "runs_ok (os_store sys)" and "distinct (map sc_id (schedules (os_store sys)))"
    and "s \<in> set (enabled_schedules (os_store sys))" and "tick_one u now s sys = Inr (x, sys')"
  shows "os_store sys' = os_store sys \<or> (\<exists>e. expected_run_at s now = Inr (Some e) \<and>
     turn_adds (sc_id s) e (os_store sys) (os_store sys'))"
proof (cases "sys' = sys")
  case False
  note cur = schedule_for_dispatch_unique[OF assms(2,3)]
  obtain e where e: "expected_run_at s now = Inr (Some e)" and d: "dispatch_run u now s e sys = Inr (x, sys')"
    using assms(4) False cur by (auto simp: tick_one_def result_simps split: option.splits if_splits)
  have "ops_ok (operations (os_store sys))" using assms(1) by (simp add: runs_ok_def)
  note c = create_adds[OF this] and m = record_missed_adds
  have "turn_adds (sc_id s) e (os_store sys) (os_store sys')"
    using d unfolding dispatch_run_def Let_def
    by (auto simp: result_simps split: option.splits if_splits sum.splits op_error.splits dest: c m)
  with e show ?thesis by blast
qed simp

lemma tick_loop_adds:
  assumes "runs_ok (os_store sys)" and "distinct (map sc_id (schedules (os_store sys)))"
    and "set ss \<subseteq> set (enabled_schedules (os_store sys))" and "tick_loop u k now ss r sys = (res, sys')"
    and "accounted i e (os_store sys')"
  shows "accounted i e (os_store sys) \<or> (\<exists>s\<in>set ss. sc_id s = i \<and> expected_run_at s now = Inr (Some e))"
  using assms
proof (induction ss arbitrary: k r sys)
  case (Cons s ss)
  show ?case
  proof (cases "tick_one (u k) now s sys")
    case (Inr p)
    obtain x sys1 where p: "p = (x, sys1)" by fastforce
    have t: "turn_ok (os_store sys) (os_store sys1)"
      using tick_one_turn[OF Cons.prems(1,2) _ Inr[unfolded p]] Cons.prems(3) by simp
    have "accounted i e (os_store sys1) \<or> (\<exists>s\<in>set ss. sc_id s = i \<and> expected_run_at s now = Inr (Some e))"
      using Cons.prems Inr p t
      by (intro Cons.IH[of sys1 "Suc k" "count_step x r"]) (auto simp: turn_ok_def enabled_schedules_def)
    with tick_one_adds[OF Cons.prems(1,2) _ Inr[unfolded p]] Cons.prems(3) show ?thesis
      by (auto simp: turn_adds_def)
  qed (use Cons.prems in auto)
qed auto

lemma tick_idle:
  assumes "\<forall>s\<in>set ss. \<exists>d. expected_run_at s now = Inr d \<and>
     (\<forall>e. d = Some e \<longrightarrow> accounted (sc_id s) e (os_store sys))"
  shows "\<exists>r'. tick_loop u k now ss r sys = (Inr r', sys) \<and> tr_dispatched r' = tr_dispatched r \<and>
     tr_missed r' = tr_missed r"
  using assms
proof (induction ss arbitrary: k r)
  case (Cons s ss)
  then obtain d where d: "expected_run_at s now = Inr d"
    "\<forall>e. d = Some e \<longrightarrow> accounted (sc_id s) e (os_store sys)" by auto
  then have "tick_one (u k) now s sys = Inr (NotDue, sys) \<or> tick_one (u k) now s sys = Inr (Passed, sys)"
    by (cases d) (auto simp: tick_one_def accounted_def)
  moreover have *: "\<exists>r'. tick_loop u (Suc k) now ss r2 sys = (Inr r', sys) \<and>
      tr_dispatched r' = tr_dispatched r2 \<and> tr_missed r' = tr_missed r2" for r2
    using Cons.IH[of "Suc k" r2] Cons.prems by simp
  ultimately show ?case
    using *[of "count_step NotDue r"] *[of "count_step Passed r"]
    by (elim disjE) (simp_all add: count_step_def)
qed simp

lemma tick_loop_ok_due:
  "tick_loop u k now ss r sys = (Inr r', sys') \<Longrightarrow> \<forall>s\<in>set ss. \<exists>d. expected_run_at s now = Inr d"
proof (induction ss arbitrary: k r sys)
  case (Cons s ss)
  then obtain x sys1 where t: "tick_one (u k) now s sys = Inr (x, sys1)"
    "tick_loop u (Suc k) now ss (count_step x r) sys1 = (Inr r', sys')"
    by (auto split: sum.splits)
  then have "\<exists>d. expected_run_at s now = Inr d" by (auto simp: tick_one_def result_simps)
  with Cons.IH[OF t(2)] show ?case by auto
qed simp

section \<open>Properties\<close>

text \<open>A due run is a real past instant of the schedule.  The time the scheduler expects lies
  after the last change of the schedule and not after now; for an every-n-days schedule it is a
  whole number of periods after the last change and less than one period ago, for the others it
  is less than a day ago and at the configured hour and minute of the UTC day.\<close>

lemma expected_run_is_sound:
  assumes "expected_run_at s now = Inr (Some e)"
  shows "sc_last_changed_at s < e \<and> e \<le> now \<and>
    ((\<exists>n \<ge> 1. (e - sc_last_changed_at s) mod (n * 86400) = 0 \<and> now - e < n * 86400) \<or>
     (\<exists>h m. parse_time_of_day (sc_time s) = Inr (h, m) \<and> e mod 86400 = h * 3600 + m * 60 \<and> now - e < 86400))"
proof (cases "schedule_kind s = Some (JStr ''every_n_days'')")
  case True
  with assms obtain n where n: "(case jget ''days'' (sc_interval s) of None \<Rightarrow> Inr 1 | Some j \<Rightarrow> json_int j) = Inr n"
    by (auto simp: expected_run_at_def Let_def result_simps)
  define p where "p = max 1 n * 24 * 60 * 60"
  define d where "d = now - sc_last_changed_at s"
  have "(if d < p then None else Some (sc_last_changed_at s + d div p * p)) = Some e"
    using assms True n
    by (cases "d < p") (simp_all add: expected_run_at_def Let_def p_def d_def mult.commute)
  then have e: "p \<le> d" "e = sc_last_changed_at s + d div p * p" by (simp_all split: if_splits)
  have p: "0 < p" "p \<le> d" using e(1) by (simp_all add: p_def)
  have "1 \<le> d div p" using p pos_imp_zdiv_pos_iff[of p d] by simp
  define q where "q = d div p * p"
  have "p \<le> q" using \<open>1 \<le> d div p\<close> p(1) by (simp add: q_def mult_le_cancel_right1)
  moreover have "q = d - d mod p" by (simp add: q_def minus_mod_eq_div_mult)
  moreover have "0 \<le> d mod p" "d mod p < p" using p(1) by simp_all
  moreover have "q mod p = 0" by (simp add: q_def)
  moreover have "e - sc_last_changed_at s = q" using e(2) by (simp add: q_def)
  moreover have "now - sc_last_changed_at s = d" by (simp add: d_def)
  ultimately have "sc_last_changed_at s < e" "e \<le> now" "now - e < p" "(e - sc_last_changed_at s) mod p = 0"
    using p(1) by (linarith, linarith, linarith, simp)
  then show ?thesis by (intro conjI disjI1 exI[of _ "max 1 n"]) (simp_all add: p_def algebra_simps)
next
  case False
  with assms obtain h m today where hm: "parse_time_of_day (sc_time s) = Inr (h, m)"
      "0 \<le> h" "h \<le> 23" "0 \<le> m" "m \<le> 59" "today = now div 86400 * 86400 + h * 3600 + m * 60"
      "e = (if now < today then today - 86400 else today)" "sc_last_changed_at s < e"
    by (auto simp: expected_run_at_def Let_def result_simps split: if_splits)
  define c where "c = h * 3600 + m * 60"
  have c: "0 \<le> c" "c < 86400" using hm(2-5) by (auto simp: c_def)
  have now: "now = now div 86400 * 86400 + now mod 86400" "0 \<le> now mod 86400" "now mod 86400 < 86400"
    by simp_all
  have "today = now div 86400 * 86400 + c" using hm(6) by (simp add: c_def)
  with hm(7) c now have "e \<le> now \<and> now - e < 86400 \<and> e mod 86400 = c"
    by (auto split: if_splits)
  with hm(1,8) show ?thesis by (auto simp: c_def)
qed

definition sample_schedule :: schedule_row where
  "sample_schedule = \<lparr>sc_id = ''s1'', sc_world = Some ''w1'', sc_type = ''backup'',
     sc_interval = [(''kind'', JStr ''every_n_days''), (''days'', JInt 2)], sc_time = ''04:30'',
     sc_enabled = True, sc_last_changed_at = 1000, sc_deleted_at = None, sc_created_at = 0\<rparr>"

lemma expected_run_is_sound_witness:
  "sc_last_changed_at sample_schedule < 173800 \<and> (173800 :: int) \<le> 200000 \<and>
    ((\<exists>n \<ge> 1. (173800 - sc_last_changed_at sample_schedule) mod (n * 86400) = 0 \<and> 200000 - 173800 < n * 86400) \<or>
     (\<exists>h m. parse_time_of_day (sc_time sample_schedule) = Inr (h, m) \<and> 173800 mod 86400 = h * 3600 + m * 60 \<and> (200000 :: int) - 173800 < 86400))"
  by (rule expected_run_is_sound) (simp add: expected_run_at_def sample_schedule_def schedule_kind_def jget_def Let_def)

text \<open>C34: A tick accounts for the latest due run of each enabled schedule, and for no other run of it.
  After a tick that ends without an exception there is an operation with the key of that run, or
  there is a missed-run record of it, never both, and it is recorded as missed at most once; any
  other run of the schedule, an earlier one whose tick was missed included, has an operation or a
  record exactly if it had one before the tick.\<close>

theorem tick_accounts_each_run_once:
  assumes "runs_ok (os_store sys)" and "distinct (map sc_id (schedules (os_store sys)))"
    and "tick u now sys = (Inr r, sys')"
    and "s \<in> set (enabled_schedules (os_store sys))" and "expected_run_at s now = Inr (Some e)"
  shows "has_recorded (sc_id s) e (os_store sys') \<noteq> has_run_operation (sc_id s) e (os_store sys') \<and>
     length (filter (\<lambda>m. mr_schedule m = sc_id s \<and> mr_expected m = e) (missed_runs (os_store sys'))) \<le> 1 \<and>
     (\<forall>f. f \<noteq> e \<longrightarrow> has_recorded (sc_id s) f (os_store sys') = has_recorded (sc_id s) f (os_store sys) \<and>
        has_run_operation (sc_id s) f (os_store sys') = has_run_operation (sc_id s) f (os_store sys))"
proof -
  from tick_loop_turns[OF assms(1,2) _ assms(3)[unfolded tick_def]] assms(4,5)
  have t: "turn_ok (os_store sys) (os_store sys')" "accounted (sc_id s) e (os_store sys')" by auto
  then have ok: "runs_ok (os_store sys')" by (simp add: turn_ok_def)
  let ?ms = "missed_runs (os_store sys')"
  let ?k = "\<lambda>m. (mr_schedule m, mr_expected m)"
  have "distinct (map ?k ?ms)" using ok by (simp add: runs_ok_def)
  then have "length (filter (\<lambda>m. ?k m = (sc_id s, e)) ?ms) \<le> 1"
    by (rule filter_key_le_one)
  moreover have one: "\<not> (has_recorded i f (os_store sys') \<and> has_run_operation i f (os_store sys'))" for i f
    using ok by (auto simp: runs_ok_def has_recorded_def row_simps)
  moreover have "has_recorded (sc_id s) f (os_store sys') = has_recorded (sc_id s) f (os_store sys) \<and>
        has_run_operation (sc_id s) f (os_store sys') = has_run_operation (sc_id s) f (os_store sys)" if "f \<noteq> e" for f
  proof -
    have "s' = s" if "s' \<in> set (enabled_schedules (os_store sys))" "sc_id s' = sc_id s" for s'
      using that assms(4) distinct_map_same[OF assms(2)] by (auto simp: enabled_schedules_def)
    then have new: "accounted (sc_id s) f (os_store sys') \<Longrightarrow> accounted (sc_id s) f (os_store sys)"
      using tick_loop_adds[OF assms(1,2) subset_refl assms(3)[unfolded tick_def], of "sc_id s" f] assms(5) \<open>f \<noteq> e\<close>
      by (metis sum.inject(2) option.inject)
    have "has_recorded (sc_id s) f (os_store sys) \<Longrightarrow> has_recorded (sc_id s) f (os_store sys')"
      using t(1) by (auto simp: turn_ok_def has_recorded_def row_simps)
    moreover have "has_run_operation (sc_id s) f (os_store sys) \<Longrightarrow> has_run_operation (sc_id s) f (os_store sys')"
      using t(1) has_run_mono by (auto simp: turn_ok_def)
    ultimately show ?thesis using new one[of "sc_id s" f] unfolding accounted_def by blast
  qed
  ultimately show ?thesis using t(2) by (auto simp: accounted_def)
qed

text \<open>Ticking again at the same instant does nothing: after a tick that ended without an
  exception, another tick at the same time ends too, dispatches nothing, records nothing and
  leaves the service exactly as it was.\<close>

lemma tick_again_is_idle:
  assumes "runs_ok (os_store sys)" and "distinct (map sc_id (schedules (os_store sys)))"
    and "tick u now sys = (Inr r, sys')"
  shows "\<exists>r'. tick v now sys' = (Inr r', sys') \<and> tr_dispatched r' = 0 \<and> tr_missed r' = 0"
proof -
  note t = assms(3)[unfolded tick_def]
  from tick_loop_turns[OF assms(1,2) _ t] have
    turn: "turn_ok (os_store sys) (os_store sys')" and
    acc: "\<forall>s\<in>set (enabled_schedules (os_store sys)). \<forall>e. expected_run_at s now = Inr (Some e) \<longrightarrow>
        accounted (sc_id s) e (os_store sys')" by auto
  from turn have "enabled_schedules (os_store sys') = enabled_schedules (os_store sys)"
    by (simp add: turn_ok_def enabled_schedules_def)
  with acc tick_loop_ok_due[OF t] have "\<forall>s\<in>set (enabled_schedules (os_store sys')). \<exists>d.
      expected_run_at s now = Inr d \<and> (\<forall>e. d = Some e \<longrightarrow> accounted (sc_id s) e (os_store sys'))"
    by fastforce
  from tick_idle[OF this, of v 0 "\<lparr>tr_due = 0, tr_dispatched = 0, tr_missed = 0\<rparr>"] show ?thesis
    by (simp add: tick_def)
qed

text \<open>A weekly or monthly schedule is due exactly when a daily one is.\<close>

lemma weekly_and_monthly_run_daily:
  "expected_run_at (s\<lparr>sc_interval := [(''kind'', JStr ''weekly'')]\<rparr>) now =
     expected_run_at (s\<lparr>sc_interval := [(''kind'', JStr ''daily'')]\<rparr>) now \<and>
   expected_run_at (s\<lparr>sc_interval := [(''kind'', JStr ''monthly'')]\<rparr>) now =
     expected_run_at (s\<lparr>sc_interval := [(''kind'', JStr ''daily'')]\<rparr>) now"
  by (simp add: expected_run_at_def schedule_kind_def jget_def Let_def)

definition sample_sched_sys :: op_sys where
  "sample_sched_sys = (sample_sys [])\<lparr>os_store := (sample_store [])\<lparr>schedules := [sample_schedule]\<rparr>\<rparr>"

lemma sample_tick_runs: "is_ok (fst (tick (\<lambda>k n. ''a'') 200000 sample_sched_sys))"
  by (simp add: tick_def sample_sched_sys_def sample_defs sample_schedule_def enabled_schedules_def
      tick_one_def expected_run_at_def schedule_kind_def jget_def Let_def has_recorded_def
      has_run_operation_def row_simps schedule_for_dispatch_def dispatch_run_def operation_type_for_def
      has_schedule_conflict_def create_with_replay_def create_tx_def schedule_request_def find_by_key_def
      active_for_def initial_status_def apply_conflict_policy_def create_insert_def insert_op_def
      fk_world_def fk_user_def fk_op_def publish_created_def op_publish_def)

lemma sample_sched_ok: "runs_ok (os_store sample_sched_sys)"
    "distinct (map sc_id (schedules (os_store sample_sched_sys)))"
    "sample_schedule \<in> set (enabled_schedules (os_store sample_sched_sys))"
    "expected_run_at sample_schedule 200000 = Inr (Some 173800)"
  by (simp_all add: sample_sched_sys_def sample_defs runs_ok_def ops_ok_def enabled_schedules_def
      sample_schedule_def expected_run_at_def schedule_kind_def jget_def Let_def)

lemma sample_tick:
  "\<exists>r sys'. tick (\<lambda>k n. ''a'') 200000 sample_sched_sys = (Inr r, sys')"
  using sample_tick_runs by (cases "tick (\<lambda>k n. ''a'') 200000 sample_sched_sys") (auto simp: is_ok_iff)

theorem tick_accounts_each_run_once_witness:
  "\<exists>r sys'. tick (\<lambda>k n. ''a'') 200000 sample_sched_sys = (Inr r, sys') \<and>
     has_recorded ''s1'' 173800 (os_store sys') \<noteq> has_run_operation ''s1'' 173800 (os_store sys')"
proof -
  obtain r sys' where t: "tick (\<lambda>k n. ''a'') 200000 sample_sched_sys = (Inr r, sys')" using sample_tick by blast
  from tick_accounts_each_run_once[OF sample_sched_ok(1,2) t sample_sched_ok(3,4)] t show ?thesis
    by (auto simp: sample_schedule_def)
qed

lemma tick_again_is_idle_witness:
  "\<exists>r sys' r'. tick (\<lambda>k n. ''a'') 200000 sample_sched_sys = (Inr r, sys') \<and>
     tick (\<lambda>k n. ''b'') 200000 sys' = (Inr r', sys') \<and> tr_dispatched r' = 0 \<and> tr_missed r' = 0"
proof -
  obtain r sys' where t: "tick (\<lambda>k n. ''a'') 200000 sample_sched_sys = (Inr r, sys')" using sample_tick by blast
  from tick_again_is_idle[OF sample_sched_ok(1,2) t, of "\<lambda>k n. ''b''"] t show ?thesis by blast
qed

end
