(* ===== verification/Web_Catalogs.thy ===== *)
theory Web_Catalogs
  imports Web_Session Configuration Iso_Time Minecraft Scheduler
begin

text \<open>
  The catalogue routes (\<open>app/web/api/catalogs.py\<close>): schedules, missed runs, templates and Java
  runtimes.  They write the tables of the configuration service, each change under an operation of
  its own; the scheduler reads the schedules through \<open>scheduler_view\<close>.  A JSON column holds its
  value; the rows of a table are in the order of their insertion, which is the order SQLite gives
  where the query leaves it open.
\<close>

section \<open>State and context\<close>

type_synonym catalog_handler = "config_sys handler"

record catalog_ctx = web_ctx +
  ct_args :: "(string \<times> string) list"

abbreviation cg_store :: "config_sys \<Rightarrow> store" where
  "cg_store s \<equiv> os_store (cf_ops s)"

definition query_arg :: "string \<Rightarrow> catalog_ctx \<Rightarrow> string option" where
  "query_arg k c = map_of (ct_args c) k"

definition dict_get_or :: "string \<Rightarrow> json \<Rightarrow> jdict \<Rightarrow> json" where
  "dict_get_or k d b = (case jget k b of None \<Rightarrow> d | Some v \<Rightarrow> v)"

definition present :: "string \<Rightarrow> jdict \<Rightarrow> bool" where
  "present k b \<longleftrightarrow> jget k b \<noteq> None"

definition keys_within :: "string list \<Rightarrow> jdict \<Rightarrow> bool" where
  "keys_within ks b \<longleftrightarrow> fst ` set b \<subseteq> set ks"

definition nonblank :: "json \<Rightarrow> bool" where
  "nonblank v = (case v of JStr t \<Rightarrow> strip t \<noteq> [] | _ \<Rightarrow> False)"

definition stripped :: "json \<Rightarrow> string" where
  "stripped v = (case v of JStr t \<Rightarrow> strip t | _ \<Rightarrow> [])"

text \<open>Membership in a set of strings, which raises on a value without a hash.\<close>

fun one_of :: "json \<Rightarrow> string list \<Rightarrow> bool option" where
  "one_of (JStr s) xs = Some (s \<in> set xs)"
| "one_of (JArr _) xs = None"
| "one_of (JObj _) xs = None"
| "one_of _ xs = Some False"

fun iso_value :: "json \<Rightarrow> json option" where
  "iso_value (JInt n) = map_option JStr (iso_utc n)"
| "iso_value v = Some v"

text \<open>\<open>row[k] = _iso(row[k])\<close> for some columns.\<close>

fun iso_columns :: "string list \<Rightarrow> row \<Rightarrow> row option" where
  "iso_columns [] r = Some r"
| "iso_columns (k # ks) r =
     (case iso_value (col k r) of None \<Rightarrow> None | Some v \<Rightarrow> iso_columns ks (set_col k v r))"

text \<open>The page of a query's rows: \<open>Inl ()\<close> is the database driver's exception for an offset of more
  than 64 bits.\<close>

definition catalog_page :: "catalog_ctx \<Rightarrow> row list \<Rightarrow> unit + (row list \<times> jdict) option" where
  "catalog_page c rows =
     (case (py_int (case query_arg ''limit'' c of None \<Rightarrow> ''50'' | Some t \<Rightarrow> t),
            py_int (case query_arg ''offset'' c of None \<Rightarrow> ''0'' | Some t \<Rightarrow> t)) of
        (Some limit, Some offset) \<Rightarrow>
          (if \<not> (1 \<le> limit \<and> limit \<le> 500) \<or> offset < 0 then Inr None
           else if 2 ^ 63 \<le> offset then Inl ()
           else Inr (Some (take (nat limit) (drop (nat offset) rows),
                  [(''limit'', JInt limit), (''offset'', JInt offset), (''total'', JInt (int (length rows)))])))
      | _ \<Rightarrow> Inr None)"

text \<open>A listing: the page, its rows rendered, under their name.\<close>

definition listing :: "catalog_ctx \<Rightarrow> string \<Rightarrow> (row \<Rightarrow> row option) \<Rightarrow> row list \<Rightarrow> catalog_handler" where
  "listing c name render rows =
     (case catalog_page c rows of
        Inl _ \<Rightarrow> escape
      | Inr None \<Rightarrow> invalid ''Invalid pagination values.''
      | Inr (Some (shown, pagination)) \<Rightarrow>
          bind_run (of_option Escaped (those (map render shown))) (\<lambda>rs.
            ret (with_meta [(''pagination'', JObj pagination)] (ok_response [(name, JArr (map JObj rs))] 200))))"

section \<open>Configuration operations\<close>

definition catalog_update :: "catalog_ctx \<Rightarrow> ConfigEditEntity \<Rightarrow> string \<Rightarrow> int \<Rightarrow> jdict \<Rightarrow> VersionedUpdate" where
  "catalog_update c e i version fs = \<lparr>vu_entity = e, vu_row = i, vu_expected = version, vu_fields = fs,
     vu_actor_type = ACTOR_USER, vu_actor = Some (sn_user (wc_session c))\<rparr>"

definition config_update ::
  "catalog_ctx \<Rightarrow> ConfigEditEntity \<Rightarrow> string \<Rightarrow> int \<Rightarrow> jdict
    \<Rightarrow> (config_sys, web_error, response + row \<times> op_row) action" where
  "config_update c e i version fs =
     bind_run (service (update_versioned_with_operation (wc_ids c) (wc_now c) (catalog_update c e i version fs))) (\<lambda>r.
       case r of
         Inr x \<Rightarrow> ret (Inr x)
       | Inl ConfigurationConflictError \<Rightarrow>
           ret (Inl (error_response ''CONFIG_VERSION_CONFLICT'' ''Configuration changed; reload and retry.'' (Some 409)))
       | Inl (MissingRow _) \<Rightarrow> ret (Inl (error_response ''NOT_FOUND'' ''Catalog entry not found.'' (Some 404)))
       | Inl (ConstraintFailed _) \<Rightarrow> escape
       | Inl (OpFailed _) \<Rightarrow> escape
       | Inl err \<Rightarrow> ret (Inl (error_response ''VALIDATION_ERROR'' (config_error_text err) (Some 400))))"

definition op_service :: "(op_sys \<Rightarrow> op_error + 'a \<times> op_sys) \<Rightarrow> (config_sys, web_error, 'a) action" where
  "op_service f s = (case f (cf_ops s) of Inl _ \<Rightarrow> (Inl Escaped, s) | Inr (x, ops) \<Rightarrow> (Inr x, s\<lparr>cf_ops := ops\<rparr>))"

definition config_payload :: "ConfigEditEntity \<Rightarrow> string \<Rightarrow> jdict" where
  "config_payload e i = [(''entity'', JStr (entity_value e)), (''row_id'', JStr i)]"

definition start_config_operation ::
  "catalog_ctx \<Rightarrow> ConfigEditEntity \<Rightarrow> string \<Rightarrow> jdict \<Rightarrow> string option \<Rightarrow> (config_sys, web_error, op_row) action" where
  "start_config_operation c e i fs w =
     bind_run (op_service (create_with_replay (wc_ids c 0) (wc_now c)
         \<lparr>oi_type = CONFIG_EDIT, oi_actor_type = ACTOR_USER, oi_world = w, oi_actor_user = Some (sn_user (wc_session c)),
          oi_key = None, oi_data = Some (config_payload e i @ [(''before'', JObj []), (''after'', JObj fs)]),
          oi_compensates = None\<rparr> OS_QUEUED True)) (\<lambda>(op, _).
       op_service (transition (wc_ids c 1) (wc_now c) (op_id op) OS_RUNNING plain_transition))"

definition finish_config_operation ::
  "catalog_ctx \<Rightarrow> op_row \<Rightarrow> ConfigEditEntity \<Rightarrow> string \<Rightarrow> (config_sys, web_error, op_row) action" where
  "finish_config_operation c op e i =
     op_service (transition (wc_ids c 2) (wc_now c) (op_id op) OS_COMPLETED
       (plain_transition\<lparr>ti_data := Some (config_payload e i)\<rparr>))"

definition fail_config_operation :: "catalog_ctx \<Rightarrow> op_row \<Rightarrow> string \<Rightarrow> string \<Rightarrow> (config_sys, web_error, op_row) action" where
  "fail_config_operation c op code message =
     op_service (transition (wc_ids c 3) (wc_now c) (op_id op) OS_FAILED
       (plain_transition\<lparr>ti_error_code := Some code, ti_message := Some message\<rparr>))"

text \<open>An insert: the text of the exception of a broken constraint, or the tables after it.\<close>

definition references_live :: "ConfigEditEntity \<Rightarrow> row \<Rightarrow> store \<Rightarrow> bool" where
  "references_live e r st \<longleftrightarrow> (e = CE_SCHEDULES \<longrightarrow> fk_user (Some (text_key (col ''last_changed_by'' r))) st \<and>
     (col ''world_id'' r = JNull \<or> fk_world (Some (text_key (col ''world_id'' r))) st))"

definition insert_row :: "ConfigEditEntity \<Rightarrow> string \<Rightarrow> row \<Rightarrow> config_sys \<Rightarrow> string + config_sys" where
  "insert_row e key r s =
     (if exists_row (\<lambda>x. col key x = col key r) (cf_tables s e)
      then Inl (''UNIQUE constraint failed: '' @ entity_value e @ ''.'' @ key)
      else case filter (\<lambda>k. taken key k (cf_tables s e) r) (unique_columns e) of
        k # _ \<Rightarrow> Inl (''UNIQUE constraint failed: '' @ entity_value e @ ''.'' @ k)
      | [] \<Rightarrow>
          (if \<not> references_live e r (cg_store s) then Inl ''FOREIGN KEY constraint failed''
           else Inr (s\<lparr>cf_tables := (cf_tables s)(e := cf_tables s e @ [r])\<rparr>)))"

text \<open>The insert under its operation: the answer of a failed one, or the finished operation.\<close>

definition insert_under ::
  "catalog_ctx \<Rightarrow> op_row \<Rightarrow> ConfigEditEntity \<Rightarrow> string \<Rightarrow> row \<Rightarrow> string \<Rightarrow> (op_row \<Rightarrow> catalog_handler) \<Rightarrow> catalog_handler" where
  "insert_under c op e key r i k =
     bind_run (gets (insert_row e key r)) (\<lambda>x.
       case x of
         Inl m \<Rightarrow> then_run (fail_config_operation c op ''CONFIG_EDIT_FAILED'' m) (refuse ''VALIDATION_ERROR'' m 400)
       | Inr s' \<Rightarrow> then_run (change (\<lambda>_. s')) (bind_run (finish_config_operation c op e i) k))"

definition live_row :: "ConfigEditEntity \<Rightarrow> string \<Rightarrow> string \<Rightarrow> config_sys \<Rightarrow> row option" where
  "live_row e key i s = find_row (\<lambda>r. col key r = JStr i \<and> col ''deleted_at'' r = JNull) (cf_tables s e)"

definition world_exists :: "string \<Rightarrow> config_sys \<Rightarrow> bool" where
  "world_exists w s = exists_row (\<lambda>r. wo_id r = w \<and> wo_deleted_at r = None) (worlds (cg_store s))"

definition row_version :: "string \<Rightarrow> row \<Rightarrow> int" where
  "row_version k r = (case col k r of JInt n \<Rightarrow> n | _ \<Rightarrow> 0)"

text \<open>The checks of a versioned edit: the version and at least one field, all of them known.\<close>

definition versioned_body :: "string list \<Rightarrow> catalog_ctx \<Rightarrow> (int \<times> jdict) option" where
  "versioned_body allowed c =
     (case object_body (rq_json (wc_request c)) of
        None \<Rightarrow> None
      | Some b \<Rightarrow>
          (case jget ''version'' b of
             Some (JInt n) \<Rightarrow>
               (let fs = filter (\<lambda>(k, v). k \<noteq> ''version'') b in
                if n < 1 \<or> fs = [] \<or> \<not> keys_within allowed fs then None else Some (n, fs))
           | _ \<Rightarrow> None))"

text \<open>The answer to an edit: its failure, or the rendered row with the operation.\<close>

definition answer_edit :: "catalog_ctx \<Rightarrow> ConfigEditEntity \<Rightarrow> string \<Rightarrow> int \<Rightarrow> jdict \<Rightarrow>
    (row \<Rightarrow> op_row \<Rightarrow> response option) \<Rightarrow> catalog_handler" where
  "answer_edit c e i version fs f =
     bind_run (config_update c e i version fs) (\<lambda>r.
       case r of
         Inl failure \<Rightarrow> ret failure
       | Inr (updated, op) \<Rightarrow> bind_run (of_option Escaped (f updated op)) ret)"

definition with_op :: "op_row \<Rightarrow> response \<Rightarrow> response" where
  "with_op op rp = with_meta [(''op_id'', JStr (op_id op))] rp"

section \<open>Schedules\<close>

definition serialize_schedule :: "row \<Rightarrow> row option" where
  "serialize_schedule r =
     iso_columns [''last_changed_at'', ''created_at''] (set_col ''enabled'' (JBool (col ''enabled'' r \<noteq> JInt 0)) r)"

definition column_filter :: "catalog_ctx \<Rightarrow> string \<Rightarrow> row \<Rightarrow> bool" where
  "column_filter c k r = (case query_arg k c of None \<Rightarrow> True | Some v \<Rightarrow> col k r = JStr v)"

definition newest_first :: "string \<Rightarrow> row list \<Rightarrow> row list" where
  "newest_first k rows = sort_key (\<lambda>r. - row_version k r) rows"

definition list_schedules :: "catalog_ctx \<Rightarrow> catalog_handler" where
  "list_schedules c =
     (let flag = map_option lower (query_arg ''enabled'' c) in
      if flag \<noteq> None \<and> the flag \<notin> {''true'', ''false'', ''1'', ''0''}
      then invalid ''enabled must be true or false.''
      else
        bind_run (gets (\<lambda>s. newest_first ''created_at'' (filter (\<lambda>r. col ''deleted_at'' r = JNull \<and>
            column_filter c ''scope'' r \<and> column_filter c ''world_id'' r \<and> column_filter c ''schedule_type'' r \<and>
            (case flag of None \<Rightarrow> True
             | Some f \<Rightarrow> col ''enabled'' r = JInt (if f = ''true'' \<or> f = ''1'' then 1 else 0))) (cf_tables s CE_SCHEDULES))))
          (listing c ''schedules'' serialize_schedule))"

definition schedule_types :: "string list" where
  "schedule_types = [''backup'', ''cleanup'', ''maintenance'']"

definition interval_kinds :: "string list" where
  "interval_kinds = [''daily'', ''weekly'', ''monthly'', ''every_n_days'']"

definition time_pattern :: "string \<Rightarrow> bool" where
  "time_pattern s = (case s of
       [a, b, x, d, e] \<Rightarrow> (a \<in> {CHR ''0'', CHR ''1''} \<and> is_digit b \<or> a = CHR ''2'' \<and> b \<in> {CHR ''0'', CHR ''1'', CHR ''2'', CHR ''3''}) \<and>
          x = CHR '':'' \<and> d \<in> {CHR ''0'', CHR ''1'', CHR ''2'', CHR ''3'', CHR ''4'', CHR ''5''} \<and> is_digit e
     | _ \<Rightarrow> False)"

definition time_ok :: "json \<Rightarrow> bool" where
  "time_ok v = (case v of JStr t \<Rightarrow> time_pattern t | _ \<Rightarrow> False)"

text \<open>\<open>None\<close> where a membership test raises.\<close>

definition interval_ok :: "json \<Rightarrow> bool option" where
  "interval_ok v = (case v of
       JObj d \<Rightarrow> one_of (dict_get_or ''kind'' (dict_get_or ''type'' JNull d) d) interval_kinds
     | _ \<Rightarrow> Some False)"

definition scope_ok :: "json \<Rightarrow> json \<Rightarrow> bool option" where
  "scope_ok scope world = map_option (\<lambda>known. known \<and> (if scope = JStr ''global'' then world = JNull
     else case world of JStr _ \<Rightarrow> True | _ \<Rightarrow> False)) (one_of scope [''global'', ''world''])"

definition both :: "bool option \<Rightarrow> bool option \<Rightarrow> bool option" where
  "both a b = (case a of None \<Rightarrow> None | Some False \<Rightarrow> Some False | Some True \<Rightarrow> b)"

definition is_flag :: "json \<Rightarrow> bool" where
  "is_flag v = (case v of JBool _ \<Rightarrow> True | _ \<Rightarrow> False)"

definition schedule_ok :: "jdict \<Rightarrow> bool option" where
  "schedule_ok b =
     both (scope_ok (dict_get_or ''scope'' JNull b) (dict_get_or ''world_id'' JNull b))
    (both (one_of (dict_get_or ''schedule_type'' JNull b) schedule_types)
    (both (interval_ok (dict_get_or ''interval_spec'' JNull b))
       (Some (time_ok (dict_get_or ''time_of_day'' JNull b) \<and> is_flag (dict_get_or ''enabled'' (JBool True) b)))))"

definition flag_int :: "json \<Rightarrow> json" where
  "flag_int v = JInt (if v = JBool True then 1 else 0)"

definition schedule_fields :: "jdict \<Rightarrow> jdict" where
  "schedule_fields b = [(''scope'', dict_get_or ''scope'' JNull b), (''world_id'', dict_get_or ''world_id'' JNull b),
     (''schedule_type'', dict_get_or ''schedule_type'' JNull b), (''interval_spec'', dict_get_or ''interval_spec'' JNull b),
     (''time_of_day'', dict_get_or ''time_of_day'' JNull b), (''enabled'', dict_get_or ''enabled'' (JBool True) b)]"

definition new_schedule :: "int \<Rightarrow> string \<Rightarrow> string \<Rightarrow> jdict \<Rightarrow> row" where
  "new_schedule now i user b =
     [(''schedule_id'', JStr i), (''scope'', dict_get_or ''scope'' JNull b), (''world_id'', dict_get_or ''world_id'' JNull b),
      (''schedule_type'', dict_get_or ''schedule_type'' JNull b), (''interval_spec'', dict_get_or ''interval_spec'' JNull b),
      (''time_of_day'', dict_get_or ''time_of_day'' JNull b), (''enabled'', flag_int (dict_get_or ''enabled'' (JBool True) b)),
      (''version'', JInt 1), (''last_changed_by'', JStr user), (''last_changed_at'', JInt now), (''deleted_at'', JNull),
      (''deleted_by'', JNull), (''created_at'', JInt now)]"

definition known_world :: "json \<Rightarrow> config_sys \<Rightarrow> bool" where
  "known_world w s = (case w of JStr i \<Rightarrow> world_exists i s | _ \<Rightarrow> True)"

definition create_schedule :: "catalog_ctx \<Rightarrow> catalog_handler" where
  "create_schedule c =
     (case object_body (rq_json (wc_request c)) of
        None \<Rightarrow> invalid ''A JSON object is required.''
      | Some b \<Rightarrow>
          bind_run (of_option Escaped (schedule_ok b)) (\<lambda>ok.
          if \<not> ok then invalid ''Schedule fields are invalid.''
          else bind_run (gets (known_world (dict_get_or ''world_id'' JNull b))) (\<lambda>known.
            if \<not> known then refuse ''NOT_FOUND'' ''World not found.'' 404
            else
              (let i = ''sch_'' @ wc_ids c 4 0; r = new_schedule (wc_now c) i (sn_user (wc_session c)) b in
               bind_run (start_config_operation c CE_SCHEDULES i (schedule_fields b)
                   (case dict_get_or ''world_id'' JNull b of JStr w \<Rightarrow> Some w | _ \<Rightarrow> None)) (\<lambda>op.
               insert_under c op CE_SCHEDULES ''schedule_id'' r i (\<lambda>done.
                 bind_run (of_option Escaped (serialize_schedule r)) (\<lambda>shown.
                   ret (with_op done (ok_response
                     [(''schedule'', JObj shown), (''operation'', JObj (operation_json done))] 201)))))))))"

definition schedule_keys :: "string list" where
  "schedule_keys = [''scope'', ''world_id'', ''schedule_type'', ''interval_spec'', ''time_of_day'', ''enabled'']"

text \<open>The checks of an edit after the schedule was found: \<open>Inl ()\<close> raises, \<open>Inr (Some r)\<close> refuses.\<close>

definition schedule_edit_fault :: "jdict \<Rightarrow> row \<Rightarrow> config_sys \<Rightarrow> unit + response option" where
  "schedule_edit_fault fs r s =
     (let bad = (\<lambda>m. Inr (Some (error_response ''VALIDATION_ERROR'' m None)));
          scope = dict_get_or ''scope'' (col ''scope'' r) fs; world = dict_get_or ''world_id'' (col ''world_id'' r) fs in
      case scope_ok scope world of
        None \<Rightarrow> Inl ()
      | Some False \<Rightarrow> bad ''Schedule scope and world_id are inconsistent.''
      | Some True \<Rightarrow>
          if \<not> known_world (dict_get_or ''world_id'' JNull fs) s
          then Inr (Some (error_response ''NOT_FOUND'' ''World not found.'' (Some 404)))
          else (case (if present ''interval_spec'' fs then interval_ok (dict_get_or ''interval_spec'' JNull fs) else Some True) of
            None \<Rightarrow> Inl ()
          | Some False \<Rightarrow> bad (case dict_get_or ''interval_spec'' JNull fs of JObj _ \<Rightarrow> ''interval_spec kind is invalid.''
               | _ \<Rightarrow> ''interval_spec must be an object.'')
          | Some True \<Rightarrow>
              if present ''time_of_day'' fs \<and> \<not> time_ok (dict_get_or ''time_of_day'' JNull fs)
              then bad ''time_of_day must use HH:MM.''
              else (case (if present ''schedule_type'' fs then one_of (dict_get_or ''schedule_type'' JNull fs) schedule_types
                          else Some True) of
                None \<Rightarrow> Inl ()
              | Some False \<Rightarrow> bad ''schedule_type is invalid.''
              | Some True \<Rightarrow>
                  if present ''enabled'' fs \<and> \<not> is_flag (dict_get_or ''enabled'' JNull fs)
                  then bad ''enabled must be a boolean.'' else Inr None)))"

definition schedule_edit_fields :: "catalog_ctx \<Rightarrow> jdict \<Rightarrow> jdict" where
  "schedule_edit_fields c fs = map (\<lambda>(k, v). if k = ''enabled'' then (k, flag_int v) else (k, v)) fs @
     [(''last_changed_by'', JStr (sn_user (wc_session c))), (''last_changed_at'', JInt (wc_now c))]"

definition update_schedule :: "catalog_ctx \<Rightarrow> string \<Rightarrow> catalog_handler" where
  "update_schedule c i =
     (case versioned_body schedule_keys c of
        None \<Rightarrow> invalid ''A version and editable schedule fields are required.''
      | Some (version, fs) \<Rightarrow>
          bind_run (gets (live_row CE_SCHEDULES ''schedule_id'' i)) (\<lambda>row.
            case row of
              None \<Rightarrow> refuse ''NOT_FOUND'' ''Schedule not found.'' 404
            | Some r \<Rightarrow>
                bind_run (gets (schedule_edit_fault fs r)) (\<lambda>f.
                  case f of
                    Inl _ \<Rightarrow> escape
                  | Inr (Some rp) \<Rightarrow> ret rp
                  | Inr None \<Rightarrow>
                      answer_edit c CE_SCHEDULES i version (schedule_edit_fields c fs) (\<lambda>x op.
                        map_option (\<lambda>shown. with_op op (ok_response
                          [(''schedule'', JObj shown), (''operation'', JObj (operation_json op))] 200)) (serialize_schedule x)))))"

definition delete_schedule :: "catalog_ctx \<Rightarrow> string \<Rightarrow> catalog_handler" where
  "delete_schedule c i =
     bind_run (gets (live_row CE_SCHEDULES ''schedule_id'' i)) (\<lambda>row.
       case row of
         None \<Rightarrow> refuse ''NOT_FOUND'' ''Schedule not found.'' 404
       | Some r \<Rightarrow>
           answer_edit c CE_SCHEDULES i (row_version ''version'' r)
             [(''enabled'', JInt 0), (''deleted_at'', JInt (wc_now c)), (''deleted_by'', JStr (sn_user (wc_session c))),
              (''last_changed_by'', JStr (sn_user (wc_session c)))]
             (\<lambda>x op. Some (with_op op (ok_response [(''deleted'', JBool True), (''operation'', JObj (operation_json op))] 200))))"

text \<open>The schedules as the scheduler reads them.\<close>

definition schedule_of :: "row \<Rightarrow> schedule_row" where
  "schedule_of r =
     \<lparr>sc_id = text_key (col ''schedule_id'' r),
      sc_world = (case col ''world_id'' r of JStr w \<Rightarrow> Some w | _ \<Rightarrow> None), sc_type = text_key (col ''schedule_type'' r),
      sc_interval = (case col ''interval_spec'' r of JObj d \<Rightarrow> d | _ \<Rightarrow> []), sc_time = text_key (col ''time_of_day'' r),
      sc_enabled = (col ''enabled'' r = JInt 1), sc_last_changed_at = row_version ''last_changed_at'' r,
      sc_deleted_at = (case col ''deleted_at'' r of JInt n \<Rightarrow> Some n | _ \<Rightarrow> None),
      sc_created_at = row_version ''created_at'' r\<rparr>"

definition scheduler_view :: "config_sys \<Rightarrow> op_sys" where
  "scheduler_view s = (cf_ops s)\<lparr>os_store := (cg_store s)\<lparr>schedules := map schedule_of (cf_tables s CE_SCHEDULES)\<rparr>\<rparr>"

section \<open>Missed runs\<close>

definition missed_json :: "missed_row \<Rightarrow> row" where
  "missed_json m =
     [(''missed_run_id'', JStr (mr_id m)), (''schedule_id'', JStr (mr_schedule m)),
      (''schedule_name_snapshot'', JStr (mr_name m)), (''schedule_type_snapshot'', JStr (mr_type m)),
      (''expected_run_at'', JInt (mr_expected m)), (''detected_at'', JInt (mr_detected m)),
      (''resolution'', JStr (mr_resolution m)),
      (''resolution_at'', case mr_resolved_at m of None \<Rightarrow> JNull | Some t \<Rightarrow> JInt t),
      (''resolution_by'', jopt_str (mr_resolved_by m)), (''created_at'', JInt (mr_created_at m))]"

definition list_missed_runs :: "catalog_ctx \<Rightarrow> catalog_handler" where
  "list_missed_runs c =
     (let want = query_arg ''resolution'' c in
      if want \<noteq> None \<and> the want \<notin> {''pending'', ''resolved'', ''ignored''}
      then invalid ''resolution must be pending, resolved, or ignored.''
      else
        bind_run (gets (\<lambda>s. map missed_json (sort_key (\<lambda>m. - mr_detected m)
            (filter (\<lambda>m. want = None \<or> mr_resolution m = the want) (missed_runs (cg_store s))))))
          (listing c ''missed_runs'' (iso_columns [''expected_run_at'', ''detected_at'', ''resolution_at'', ''created_at''])))"

definition resolve_row :: "int \<Rightarrow> string \<Rightarrow> string \<Rightarrow> missed_row \<Rightarrow> missed_row" where
  "resolve_row now user what m = m\<lparr>mr_resolution := what, mr_resolved_at := Some now, mr_resolved_by := Some user\<rparr>"

definition set_missed :: "missed_row list \<Rightarrow> config_sys \<Rightarrow> config_sys" where
  "set_missed ms s = s\<lparr>cf_ops := (cf_ops s)\<lparr>os_store := (cg_store s)\<lparr>missed_runs := ms\<rparr>\<rparr>\<rparr>"

definition resolve_missed_run :: "catalog_ctx \<Rightarrow> string \<Rightarrow> catalog_handler" where
  "resolve_missed_run c i =
     (let v = (case object_body (rq_json (wc_request c)) of None \<Rightarrow> JNull | Some b \<Rightarrow> dict_get_or ''resolution'' JNull b) in
      bind_run (of_option Escaped (one_of v [''resolved'', ''ignored''])) (\<lambda>ok.
        if \<not> ok then invalid ''resolution must be resolved or ignored.''
        else
          bind_run (gets (\<lambda>s. missed_runs (cg_store s))) (\<lambda>ms.
            let open_run = (\<lambda>m. mr_id m = i \<and> mr_resolution m = ''pending'') in
            if exists_row open_run ms then
              then_run (change (set_missed (update_rows open_run
                  (resolve_row (wc_now c) (sn_user (wc_session c)) (text_key v)) ms)))
                (answer [(''missed_run_id'', JStr i), (''resolution'', v)])
            else if \<not> exists_row (\<lambda>m. mr_id m = i) ms then refuse ''NOT_FOUND'' ''Missed run not found.'' 404
            else refuse ''MISSED_RUN_RESOLVED'' ''Missed-run resolution is terminal.'' 409)))"

section \<open>Templates\<close>

definition render_template :: "row \<Rightarrow> row option" where
  "render_template r = iso_columns [''created_at'', ''updated_at'']
     (set_col ''deprecated'' (JBool (col ''deprecated'' r \<noteq> JInt 0)) r)"

definition by_text :: "string \<Rightarrow> row list \<Rightarrow> row list" where
  "by_text k rows = sort_key (\<lambda>r. text_key (col k r)) rows"

definition list_templates :: "catalog_ctx \<Rightarrow> catalog_handler" where
  "list_templates c =
     (let flag = map_option lower (query_arg ''deprecated'' c) in
      if flag \<noteq> None \<and> the flag \<notin> {''true'', ''false''} then invalid ''deprecated must be true or false.''
      else
        bind_run (gets (\<lambda>s. by_text ''name'' (filter (\<lambda>r. col ''deleted_at'' r = JNull \<and> column_filter c ''category'' r \<and>
            col ''deprecated'' r = JInt (if flag = Some ''true'' then 1 else 0)) (cf_tables s CE_TEMPLATES))))
          (listing c ''templates'' render_template))"

definition has_launch_command :: "json \<Rightarrow> bool" where
  "has_launch_command v = (case v of
     JObj d \<Rightarrow> present ''launch_command_template'' d \<or> present ''launch_command'' d | _ \<Rightarrow> False)"

definition template_text_keys :: "string list" where
  "template_text_keys = [''name'', ''category'', ''default_version'']"

definition new_template :: "int \<Rightarrow> string \<Rightarrow> jdict \<Rightarrow> row" where
  "new_template now i b =
     (let txt = (\<lambda>k. JStr (stripped (dict_get_or k JNull b))) in
      [(''template_id'', JStr i), (''name'', txt ''name''), (''category'', txt ''category''),
       (''default_version'', txt ''default_version''), (''config_defaults'', dict_get_or ''config_defaults'' JNull b),
       (''source'', JStr ''imported''), (''deprecated'', JInt 0), (''version'', JInt 1), (''deleted_at'', JNull),
       (''deleted_by'', JNull), (''created_at'', JInt now), (''updated_at'', JInt now)])"

definition template_fields :: "jdict \<Rightarrow> jdict" where
  "template_fields b = map (\<lambda>k. (k, JStr (stripped (dict_get_or k JNull b)))) template_text_keys @
     [(''config_defaults'', dict_get_or ''config_defaults'' JNull b)]"

definition create_template :: "catalog_ctx \<Rightarrow> catalog_handler" where
  "create_template c =
     (case object_body (rq_json (wc_request c)) of
        None \<Rightarrow> invalid ''Template fields are invalid.''
      | Some b \<Rightarrow>
          if \<not> (list_all (\<lambda>k. nonblank (dict_get_or k JNull b)) template_text_keys \<and>
               (case dict_get_or ''config_defaults'' JNull b of JObj _ \<Rightarrow> True | _ \<Rightarrow> False))
          then invalid ''Template fields are invalid.''
          else if \<not> has_launch_command (dict_get_or ''config_defaults'' JNull b)
          then invalid ''config_defaults must include a launch command template.''
          else
            (let i = ''tpl_'' @ wc_ids c 4 0 in
             bind_run (start_config_operation c CE_TEMPLATES i (template_fields b) None) (\<lambda>op.
             insert_under c op CE_TEMPLATES ''template_id'' (new_template (wc_now c) i b) i (\<lambda>done.
               ret (with_op done (ok_response
                 (foldl (\<lambda>d (k, v). dict_set k v d) [(''template_id'', JStr i)]
                    (b @ [(''version'', JInt 1), (''operation'', JObj (operation_json done))])) 201))))))"

definition update_template :: "catalog_ctx \<Rightarrow> string \<Rightarrow> catalog_handler" where
  "update_template c i =
     (case versioned_body (template_text_keys @ [''config_defaults'']) c of
        None \<Rightarrow> invalid ''A version and editable template fields are required.''
      | Some (version, fs) \<Rightarrow>
          if \<not> list_all (\<lambda>(k, v). k = ''config_defaults'' \<or> nonblank v) fs
          then invalid ''Template text fields must be non-empty strings.''
          else if present ''config_defaults'' fs \<and> \<not> has_launch_command (dict_get_or ''config_defaults'' JNull fs)
          then invalid ''config_defaults must include a launch command template.''
          else answer_edit c CE_TEMPLATES i version fs (\<lambda>x op. Some (with_op op (ok_response
            [(''template'', JObj x), (''operation'', JObj (operation_json op))] 200))))"

definition deprecate_template :: "catalog_ctx \<Rightarrow> string \<Rightarrow> catalog_handler" where
  "deprecate_template c i =
     bind_run (gets (live_row CE_TEMPLATES ''template_id'' i)) (\<lambda>row.
       case row of
         None \<Rightarrow> refuse ''NOT_FOUND'' ''Template not found.'' 404
       | Some r \<Rightarrow>
           answer_edit c CE_TEMPLATES i (row_version ''version'' r) [(''deprecated'', JInt 1)] (\<lambda>x op. Some (ok_response
             [(''template_id'', JStr i), (''deprecated'', JBool True), (''operation'', JObj (operation_json op))] 200)))"

section \<open>Java runtimes\<close>

definition list_java_runtimes :: "catalog_ctx \<Rightarrow> catalog_handler" where
  "list_java_runtimes c =
     bind_run (gets (\<lambda>s. by_text ''label'' (filter (\<lambda>r. col ''deleted_at'' r = JNull \<and>
         (query_arg ''status'' c = Some [] \<or> column_filter c ''status'' r)) (cf_tables s CE_JAVA_RUNTIMES))))
       (listing c ''java_runtimes'' (iso_columns [''created_at'', ''updated_at'']))"

definition new_runtime :: "int \<Rightarrow> string \<Rightarrow> string \<Rightarrow> string \<Rightarrow> row" where
  "new_runtime now i label path =
     [(''runtime_id'', JStr i), (''label'', JStr label), (''executable_path'', JStr path), (''version_detected'', JNull),
      (''status'', JStr ''registered''), (''deleted_at'', JNull), (''deleted_by'', JNull), (''created_at'', JInt now),
      (''updated_at'', JInt now), (''version'', JInt 1)]"

definition register_java_runtime :: "catalog_ctx \<Rightarrow> catalog_handler" where
  "register_java_runtime c =
     (case object_body (rq_json (wc_request c)) of
        None \<Rightarrow> invalid ''A label and executable path are required.''
      | Some b \<Rightarrow>
          if \<not> (nonblank (dict_get_or ''label'' JNull b) \<and> nonblank (dict_get_or ''path'' JNull b))
          then invalid ''A label and executable path are required.''
          else
            (let i = ''jrt_'' @ wc_ids c 4 0; label = stripped (dict_get_or ''label'' JNull b);
                 path = stripped (dict_get_or ''path'' JNull b) in
             bind_run (start_config_operation c CE_JAVA_RUNTIMES i
                 [(''label'', JStr label), (''executable_path'', JStr path)] None) (\<lambda>op.
             insert_under c op CE_JAVA_RUNTIMES ''runtime_id'' (new_runtime (wc_now c) i label path) i (\<lambda>done.
               ret (with_op done (ok_response [(''runtime'', JObj
                 [(''runtime_id'', JStr i), (''label'', JStr label), (''executable_path'', JStr path),
                  (''version_detected'', JNull), (''status'', JStr ''registered''), (''version'', JInt 1),
                  (''operation'', JObj (operation_json done))])] 201))))))"

definition set_runtime :: "string \<Rightarrow> jdict \<Rightarrow> config_sys \<Rightarrow> config_sys" where
  "set_runtime i fs s = s\<lparr>cf_tables := (cf_tables s)(CE_JAVA_RUNTIMES := update_rows (\<lambda>r. col ''runtime_id'' r = JStr i)
     (\<lambda>r. bump ''version'' (set_cols fs r)) (cf_tables s CE_JAVA_RUNTIMES))\<rparr>"

text \<open>\<open>run\<close> gives the output of \<open>path -version\<close>; the version is the one of its first match.\<close>

definition verify_java_runtime :: "(string \<Rightarrow> string option) \<Rightarrow> catalog_ctx \<Rightarrow> string \<Rightarrow> catalog_handler" where
  "verify_java_runtime run c i =
     bind_run (gets (live_row CE_JAVA_RUNTIMES ''runtime_id'' i)) (\<lambda>row.
       case row of
         None \<Rightarrow> refuse ''NOT_FOUND'' ''Java runtime not found.'' 404
       | Some r \<Rightarrow>
           bind_run (start_config_operation c CE_JAVA_RUNTIMES i [(''status'', JStr ''verified'')] None) (\<lambda>op.
             case Option.bind (run (text_key (col ''executable_path'' r))) search_version of
               None \<Rightarrow>
                 then_run (change (set_runtime i [(''status'', JStr ''missing''), (''updated_at'', JInt (wc_now c))]))
                 (then_run (fail_config_operation c op ''CONFIG_INVALID_VALUE'' ''Java executable could not be verified.'')
                   (refuse ''CONFIG_INVALID_VALUE'' ''Java executable could not be verified.'' 409))
             | Some v \<Rightarrow>
                 then_run (change (set_runtime i [(''status'', JStr ''verified''), (''version_detected'', JStr v),
                     (''updated_at'', JInt (wc_now c))]))
                 (bind_run (finish_config_operation c op CE_JAVA_RUNTIMES i) (\<lambda>done.
                   answer [(''runtime_id'', JStr i), (''status'', JStr ''verified''), (''version_detected'', JStr v),
                     (''version'', JInt (row_version ''version'' r + 1)), (''operation'', JObj (operation_json done))]))))"

definition runtime_edit_keys :: "string list" where
  "runtime_edit_keys = [''label'', ''executable_path'', ''status'']"

definition update_java_runtime :: "catalog_ctx \<Rightarrow> string \<Rightarrow> catalog_handler" where
  "update_java_runtime c i =
     (case versioned_body runtime_edit_keys c of
        None \<Rightarrow> invalid ''A version and valid runtime fields are required.''
      | Some (version, fs) \<Rightarrow>
          if \<not> list_all (\<lambda>(k, v). nonblank v) fs then invalid ''A version and valid runtime fields are required.''
          else
            bind_run (gets (live_row CE_JAVA_RUNTIMES ''runtime_id'' i)) (\<lambda>row.
              let updates = map (\<lambda>(k, v). (k, JStr (stripped v))) fs in
              if row = None then refuse ''NOT_FOUND'' ''Java runtime not found.'' 404
              else if dict_get_or ''status'' JNull updates \<notin>
                {JNull, JStr ''registered'', JStr ''verified'', JStr ''missing''}
              then invalid ''Java runtime status is invalid.''
              else answer_edit c CE_JAVA_RUNTIMES i version updates (\<lambda>x op.
                map_option (\<lambda>shown. with_op op (ok_response
                  [(''runtime'', JObj shown), (''operation'', JObj (operation_json op))] 200))
                  (iso_columns [''created_at'', ''updated_at''] x))))"

definition deprecate_java_runtime :: "catalog_ctx \<Rightarrow> string \<Rightarrow> catalog_handler" where
  "deprecate_java_runtime c i =
     bind_run (gets (live_row CE_JAVA_RUNTIMES ''runtime_id'' i)) (\<lambda>row.
       case row of
         None \<Rightarrow> refuse ''NOT_FOUND'' ''Java runtime not found.'' 404
       | Some r \<Rightarrow>
           answer_edit c CE_JAVA_RUNTIMES i (row_version ''version'' r) [(''status'', JStr ''deprecated'')]
             (\<lambda>x op. Some (with_op op (ok_response
               [(''runtime_id'', JStr i), (''deprecated'', JBool True), (''operation'', JObj (operation_json op))] 200))))"

end
