(* ===== verification/Web_Catalogs_Props.thy ===== *)
theory Web_Catalogs_Props
  imports Web_Catalogs Configuration_Edits
begin

text \<open>
  What the catalogue routes let into the schedules, and what the scheduler makes of it: every
  schedule has a time of day and a kind the scheduler can read; only the days of a schedule of
  kind \<open>every_n_days\<close> are not checked.
\<close>

section \<open>All routes\<close>

datatype catalog_route =
    ListSchedules | PostSchedule | PatchSchedule string | RemoveSchedule string
  | ListMissedRuns | PatchMissedRun string
  | ListTemplates | PostTemplate | PatchTemplate string | RemoveTemplate string
  | ListRuntimes | PostRuntime | VerifyRuntime string | PatchRuntime string | RemoveRuntime string

fun handle_catalog :: "(string \<Rightarrow> string option) \<Rightarrow> catalog_ctx \<Rightarrow> catalog_route \<Rightarrow> catalog_handler" where
  "handle_catalog run c ListSchedules = list_schedules c"
| "handle_catalog run c PostSchedule = create_schedule c"
| "handle_catalog run c (PatchSchedule i) = update_schedule c i"
| "handle_catalog run c (RemoveSchedule i) = delete_schedule c i"
| "handle_catalog run c ListMissedRuns = list_missed_runs c"
| "handle_catalog run c (PatchMissedRun i) = resolve_missed_run c i"
| "handle_catalog run c ListTemplates = list_templates c"
| "handle_catalog run c PostTemplate = create_template c"
| "handle_catalog run c (PatchTemplate i) = update_template c i"
| "handle_catalog run c (RemoveTemplate i) = deprecate_template c i"
| "handle_catalog run c ListRuntimes = list_java_runtimes c"
| "handle_catalog run c PostRuntime = register_java_runtime c"
| "handle_catalog run c (VerifyRuntime i) = verify_java_runtime run c i"
| "handle_catalog run c (PatchRuntime i) = update_java_runtime c i"
| "handle_catalog run c (RemoveRuntime i) = deprecate_java_runtime c i"

definition catalog_run ::
  "(string \<Rightarrow> string option) \<Rightarrow> config_sys \<Rightarrow> (catalog_ctx \<times> catalog_route) list \<Rightarrow> config_sys" where
  "catalog_run run s rs = foldl (\<lambda>s (c, rt). snd (handle_catalog run c rt s)) s rs"

section \<open>Readable schedules\<close>

definition readable_field :: "string \<Rightarrow> json \<Rightarrow> bool" where
  "readable_field k v \<longleftrightarrow> (k = ''time_of_day'' \<longrightarrow> time_ok v) \<and> (k = ''interval_spec'' \<longrightarrow> interval_ok v = Some True) \<and>
     (k = ''schedule_type'' \<longrightarrow> one_of v schedule_types = Some True)"

definition readable_schedule :: "row \<Rightarrow> bool" where
  "readable_schedule r \<longleftrightarrow> readable_field ''time_of_day'' (col ''time_of_day'' r) \<and>
     readable_field ''interval_spec'' (col ''interval_spec'' r) \<and> readable_field ''schedule_type'' (col ''schedule_type'' r)"

definition schedules_readable :: "config_sys \<Rightarrow> bool" where
  "schedules_readable s \<longleftrightarrow> (\<forall>r\<in>set (cf_tables s CE_SCHEDULES). readable_schedule r)"

lemma col_set_cols_cases: "col k (set_cols fs r) = col k r \<or> (k, col k (set_cols fs r)) \<in> set fs"
proof (induction fs arbitrary: r)
  case (Cons p fs)
  obtain c v where p: "p = (c, v)" by (cases p)
  from Cons[of "set_col c v r"] show ?case by (auto simp: p col_set_col split: if_splits)
qed simp

lemma readable_written:
  assumes "readable_schedule r" and "\<And>k v. (k, v) \<in> set (vu_fields u) \<Longrightarrow> readable_field k v"
  shows "readable_schedule (bump ''version'' (set_cols (written_fields now u r0) r))"
proof -
  have "readable_field k v" if "(k, v) \<in> set (written_fields now u r0)" for k v
    using that assms(2) by (auto simp: written_fields_def Let_def readable_field_def split: if_splits option.splits)
  then have "readable_field k (col k (set_cols (written_fields now u r0) r))" if "readable_field k (col k r)" for k
    using col_set_cols_cases[of k "written_fields now u r0" r] that by auto
  with assms(1) show ?thesis by (simp add: readable_schedule_def col_bump)
qed

text \<open>The relation between the state before and after a call that keeps the schedules readable.\<close>

definition reads :: "config_sys \<Rightarrow> config_sys \<Rightarrow> bool" where
  "reads s t \<longleftrightarrow> (schedules_readable s \<longrightarrow> schedules_readable t)"

interpretation reads: state_order reads
  by unfold_locales (auto simp: reads_def)

lemma reads_same: "cf_tables t CE_SCHEDULES = cf_tables s CE_SCHEDULES \<Longrightarrow> reads s t"
  by (simp add: reads_def schedules_readable_def)

lemma edit_reads:
  assumes "update_versioned_with_operation u now v s = (res, s')" and "vu_entity v \<noteq> CE_WORLD_SETTINGS"
    and "vu_entity v = CE_SCHEDULES \<Longrightarrow> (\<And>k x. (k, x) \<in> set (vu_fields v) \<Longrightarrow> readable_field k x)"
  shows "reads s s'"
  using assms(1,2)
proof (cases rule: edit_rows)
  case same
  then show ?thesis by (simp add: reads_same)
next
  case (written key ver r f)
  show ?thesis
  proof (cases "vu_entity v = CE_SCHEDULES")
    case True
    then have ver: "ver = ''version''" using written(1) by simp
    have "readable_schedule (f x)" if "readable_schedule x" for x
      using readable_written[OF that assms(3)[OF True]] by (simp add: written(4) ver)
    then show ?thesis using True written(6)
      by (auto simp: reads_def schedules_readable_def in_update_rows)
  next
    case False
    then show ?thesis by (intro reads_same) (simp add: written(6))
  qed
qed

lemma config_update_reads:
  assumes "e \<noteq> CE_WORLD_SETTINGS" and "e = CE_SCHEDULES \<Longrightarrow> (\<And>k x. (k, x) \<in> set fs \<Longrightarrow> readable_field k x)"
  shows "reads.stays (config_update c e i version fs)"
proof -
  have "reads.stays (service (update_versioned_with_operation (wc_ids c) (wc_now c) (catalog_update c e i version fs)))"
    using assms by (intro reads.staysI) (auto simp: service_def catalog_update_def split: prod.splits elim!: edit_reads)
  then show ?thesis
    unfolding config_update_def by (auto intro!: reads.stays_bind stay_rules split: sum.split config_error.split)
qed

lemma answer_edit_reads [stay_rules]:
  assumes "e \<noteq> CE_WORLD_SETTINGS" and "e = CE_SCHEDULES \<Longrightarrow> (\<And>k x. (k, x) \<in> set fs \<Longrightarrow> readable_field k x)"
  shows "reads.stays (answer_edit c e i version fs f)"
  unfolding answer_edit_def
  by (auto intro!: reads.stays_bind config_update_reads assms stay_rules split: sum.split)

lemma op_service_reads [stay_rules]: "reads.stays (op_service f)"
  by (rule reads.staysI) (auto simp: op_service_def intro: reads_same split: sum.splits prod.splits)

lemma operation_reads [stay_rules]:
  "reads.stays (start_config_operation c e i fs w)" "reads.stays (finish_config_operation c op e i)"
  "reads.stays (fail_config_operation c op code m)"
  unfolding start_config_operation_def finish_config_operation_def fail_config_operation_def
  by (auto intro!: stay_rules)

lemmas refusal_defs = refuse_def invalid_def answer_def listing_def

lemma insert_reads [stay_rules]:
  assumes "e = CE_SCHEDULES \<Longrightarrow> readable_schedule r" and k: "\<And>op. reads.stays (k op)"
  shows "reads.stays (insert_under c op e key r i k)"
proof (rule reads.staysI)
  fix s res s'
  assume run: "insert_under c op e key r i k s = (res, s')"
  show "reads s s'"
  proof (cases "insert_row e key r s")
    case (Inl m)
    have "reads.stays (then_run (fail_config_operation c op ''CONFIG_EDIT_FAILED'' m) (refuse ''VALIDATION_ERROR'' m 400))"
      unfolding refuse_def by (intro stay_rules)
    with run Inl show ?thesis by (auto simp: insert_under_def bind_run_def gets_def dest: reads.staysD)
  next
    case (Inr t)
    have "reads s t"
      using Inr assms(1) by (auto simp: insert_row_def reads_def schedules_readable_def split: if_splits list.splits)
    moreover have "reads t s'"
    proof -
      have "reads.stays (bind_run (finish_config_operation c op e i) k)" by (intro stay_rules k)
      moreover have "bind_run (finish_config_operation c op e i) k t = (res, s')"
        using run Inr by (simp add: insert_under_def bind_run_def gets_def change_def)
      ultimately show ?thesis by (rule reads.staysD)
    qed
    ultimately show ?thesis by (rule reads.rel_trans)
  qed
qed

lemma bind_of_option: "bind_run (of_option e x) f = (case x of None \<Rightarrow> raise e | Some y \<Rightarrow> f y)"
  by (auto simp: fun_eq_iff bind_run_def of_option_def raise_def ret_def split: option.split)

lemma listing_reads [stay_rules]: "reads.stays (listing c name render rows)"
  unfolding listing_def invalid_def refuse_def by (auto intro!: stay_rules split: sum.split)

lemma set_tables_reads [stay_rules]:
  "reads.stays (change (set_missed ms))" "reads.stays (change (set_runtime i fs))"
  by (auto intro!: reads.stays_change reads_same simp: set_missed_def set_runtime_def)

section \<open>Checked fields\<close>

lemma keys_dict_set: "fst ` set (dict_set k v d) = insert k (fst ` set d)"
proof (induction d)
  case (Cons p d)
  then show ?case by (cases p) (simp add: insert_commute)
qed simp

lemma distinct_dict_set: "distinct (map fst d) \<Longrightarrow> distinct (map fst (dict_set k v d))"
  by (induction d) (auto simp: keys_dict_set)

lemma distinct_py_dict: "distinct (map fst (py_dict d))"
proof -
  have "distinct (map fst (foldl (\<lambda>a (k, v). dict_set k v a) e d))" if "distinct (map fst e)" for e
    using that by (induction d arbitrary: e) (auto intro: distinct_dict_set)
  then show ?thesis by (simp add: py_dict_def)
qed

lemma versioned_body_distinct: "versioned_body ks c = Some (n, fs) \<Longrightarrow> distinct (map fst fs)"
  by (auto simp: versioned_body_def object_body_def Let_def distinct_map_filter[OF distinct_py_dict]
      split: option.splits json.splits if_splits)

lemma dict_get_member: "distinct (map fst d) \<Longrightarrow> (k, v) \<in> set d \<Longrightarrow> dict_get_or k j d = v \<and> present k d"
  by (simp add: dict_get_or_def present_def jget_def)

lemma both_true: "both a b = Some True \<longleftrightarrow> a = Some True \<and> b = Some True"
  by (auto simp: both_def split: option.splits bool.splits)

lemma new_schedule_readable:
  assumes "schedule_ok b = Some True"
  shows "readable_schedule (new_schedule now i u b)"
  using assms by (simp add: schedule_ok_def both_true readable_schedule_def readable_field_def new_schedule_def col_def)

lemma edit_fields_readable:
  assumes "schedule_edit_fault fs r s = Inr None" and "distinct (map fst fs)" and "(k, v) \<in> set (schedule_edit_fields c fs)"
  shows "readable_field k v"
proof (cases "(k, v) \<in> set fs")
  case True
  with assms(2) have "dict_get_or k JNull fs = v" "present k fs" by (simp_all add: dict_get_member)
  with assms(1) show ?thesis
    by (auto simp: schedule_edit_fault_def Let_def readable_field_def split: option.splits bool.splits if_splits)
next
  case False
  with assms(3) have "k = ''enabled'' \<or> k = ''last_changed_by'' \<or> k = ''last_changed_at''"
    by (auto simp: schedule_edit_fields_def split: if_splits)
  then show ?thesis by (auto simp: readable_field_def)
qed

section \<open>Every route\<close>

lemma create_schedule_reads: "reads.stays (create_schedule c)"
  unfolding create_schedule_def refusal_defs Let_def bind_of_option
  by (auto intro!: stay_rules new_schedule_readable split: option.split)

lemma update_schedule_reads: "reads.stays (update_schedule c i)"
proof (cases "versioned_body schedule_keys c")
  case None
  then show ?thesis unfolding update_schedule_def refusal_defs by (auto intro!: stay_rules)
next
  case (Some p)
  obtain version fs where p: "p = (version, fs)" by (cases p)
  note d = versioned_body_distinct[OF Some[unfolded p]]
  have edit: "reads.stays (answer_edit c CE_SCHEDULES i version (schedule_edit_fields c fs) f)"
    if "schedule_edit_fault fs r s = Inr None" for f r s
    using edit_fields_readable[OF that d] by (intro answer_edit_reads) auto
  show ?thesis
  proof (rule reads.staysI)
    fix s res s'
    assume run: "update_schedule c i s = (res, s')"
    then show "reads s s'"
      by (auto simp: update_schedule_def Some p bind_run_def gets_def refusal_defs raise_def ret_def reads.rel_refl
          split: option.splits sum.splits dest: reads.staysD[OF edit])
  qed
qed

lemma other_routes_read:
  "reads.stays (list_schedules c)" "reads.stays (delete_schedule c i)" "reads.stays (list_missed_runs c)"
  "reads.stays (resolve_missed_run c i)" "reads.stays (list_templates c)" "reads.stays (create_template c)"
  "reads.stays (update_template c i)" "reads.stays (deprecate_template c i)" "reads.stays (list_java_runtimes c)"
  "reads.stays (register_java_runtime c)" "reads.stays (update_java_runtime c i)" "reads.stays (deprecate_java_runtime c i)"
  unfolding list_schedules_def delete_schedule_def list_missed_runs_def resolve_missed_run_def list_templates_def
    create_template_def update_template_def deprecate_template_def list_java_runtimes_def register_java_runtime_def
    update_java_runtime_def deprecate_java_runtime_def refuse_def invalid_def answer_def Let_def
  by (auto intro!: stay_rules simp: readable_field_def split: option.split)

lemma verify_reads: "reads.stays (verify_java_runtime run c i)"
  unfolding verify_java_runtime_def refuse_def answer_def Let_def by (auto intro!: stay_rules split: option.split)

lemma route_reads: "reads s (snd (handle_catalog run c rt s))"
proof -
  have "reads.stays (handle_catalog run c rt)"
    by (cases rt) (simp_all add: create_schedule_reads update_schedule_reads other_routes_read verify_reads)
  then show ?thesis by (simp add: reads.stays_def)
qed

lemma run_reads: "reads s (catalog_run run s rs)"
proof (induction rs arbitrary: s)
  case (Cons x rs)
  obtain c rt where x: "x = (c, rt)" by (cases x)
  show ?case using Cons[of "snd (handle_catalog run c rt s)"] reads.rel_trans[OF route_reads]
    by (simp add: x catalog_run_def)
qed (simp add: catalog_run_def reads.rel_refl)

section \<open>What the scheduler reads\<close>

lemma digit_cases: "is_digit c \<Longrightarrow> c \<in> set ''0123456789''"
proof -
  assume d: "is_digit c"
  have ten: "n \<in> {48, 49, 50, 51, 52, 53, 54, 55, 56, 57}" if "48 \<le> n" "n \<le> 57" for n :: nat
    using that by simp arith
  have "(of_char c :: nat) \<in> {48, 49, 50, 51, 52, 53, 54, 55, 56, 57}" using d by (intro ten) (simp_all add: is_digit_def)
  then have "(of_char c :: nat) \<in> of_char ` set ''0123456789''" by simp
  then show ?thesis by (auto simp only: of_char_eq_iff)
qed

lemma all_two_digits: "\<forall>a\<in>set ''0123456789''. \<forall>b\<in>set ''0123456789''.
    py_int [a, b] = Some (10 * (of_char a - 48) + (of_char b - 48))"
  by code_simp

lemma two_digits: "is_digit a \<Longrightarrow> is_digit b \<Longrightarrow> py_int [a, b] = Some (10 * (of_char a - 48) + (of_char b - 48))"
  using all_two_digits digit_cases by blast

lemma digit_range: "is_digit c \<Longrightarrow> (48 :: int) \<le> of_char c \<and> (of_char c :: int) \<le> 57"
  by (drule digit_cases) auto

lemma pattern_time:
  assumes "time_pattern t"
  shows "\<exists>h m. parse_time_of_day t = Inr (h, m) \<and> 0 \<le> h \<and> h \<le> 23 \<and> 0 \<le> m \<and> m \<le> 59"
proof -
  from assms obtain a b d e where t: "t = [a, b, CHR '':'', d, e]"
    and ab: "a \<in> {CHR ''0'', CHR ''1''} \<and> is_digit b \<or> a = CHR ''2'' \<and> b \<in> {CHR ''0'', CHR ''1'', CHR ''2'', CHR ''3''}"
    and de: "d \<in> {CHR ''0'', CHR ''1'', CHR ''2'', CHR ''3'', CHR ''4'', CHR ''5''}" "is_digit e"
    by (auto simp: time_pattern_def split: list.splits)
  have dig: "is_digit a" "is_digit b" "is_digit d" using ab de(1) by (auto simp: is_digit_def)
  then have "a \<noteq> CHR '':''" "b \<noteq> CHR '':''" by (auto simp: is_digit_def)
  then have run: "parse_time_of_day t = Inr (10 * (of_char a - 48) + (of_char b - 48), 10 * (of_char d - 48) + (of_char e - 48))"
    by (simp add: parse_time_of_day_def t two_digits dig de(2))
  have "(of_char a :: int) \<le> 49 \<or> (of_char a :: int) = 50 \<and> (of_char b :: int) \<le> 51" "(of_char d :: int) \<le> 53"
    using ab de(1) by auto
  then show ?thesis using run digit_range[OF dig(1)] digit_range[OF dig(2)] digit_range[OF dig(3)] digit_range[OF de(2)]
    by auto
qed

lemma known_kind:
  assumes "readable_schedule r"
  shows "\<exists>k\<in>set interval_kinds. schedule_kind (schedule_of r) = Some (JStr k)"
proof -
  from assms obtain d where d: "col ''interval_spec'' r = JObj d"
    and "one_of (dict_get_or ''kind'' (dict_get_or ''type'' JNull d) d) interval_kinds = Some True"
    by (auto simp: readable_schedule_def readable_field_def interval_ok_def split: json.splits)
  then obtain k where k: "k \<in> set interval_kinds" "dict_get_or ''kind'' (dict_get_or ''type'' JNull d) d = JStr k"
    by (cases "dict_get_or ''kind'' (dict_get_or ''type'' JNull d) d") auto
  then have "k \<noteq> []" by (auto simp: interval_kinds_def)
  with k show ?thesis
    by (auto simp: schedule_kind_def schedule_of_def d Let_def dict_get_or_def split: option.splits)
qed

lemma readable_expected:
  assumes "readable_schedule r"
  shows "expected_run_at (schedule_of r) now = Inl e \<longleftrightarrow> schedule_kind (schedule_of r) = Some (JStr ''every_n_days'') \<and>
     (\<exists>j. jget ''days'' (sc_interval (schedule_of r)) = Some j \<and> json_int j = Inl e)"
proof -
  from assms have "time_pattern (sc_time (schedule_of r))"
    by (auto simp: readable_schedule_def readable_field_def schedule_of_def time_ok_def text_key_def split: json.splits)
  then obtain h m where "parse_time_of_day (sc_time (schedule_of r)) = Inr (h, m)" "0 \<le> h" "h \<le> 23" "0 \<le> m" "m \<le> 59"
    using pattern_time by blast
  then show ?thesis using known_kind[OF assms]
    by (auto simp: expected_run_at_def Let_def interval_kinds_def result_simps split: option.splits)
qed

lemma readable_type: "readable_schedule r \<Longrightarrow> operation_type_for (sc_type (schedule_of r)) \<noteq> None"
  by (auto simp: readable_schedule_def readable_field_def schedule_of_def operation_type_for_def schedule_types_def
      text_key_def split: json.splits elim!: one_of.elims)

text \<open>
  C36: Whatever requests the catalogue routes answered, the scheduler can dispatch every schedule
  they left: its type has an operation, its kind is one of the four, and the expected run is
  computed without an exception, but for the days of a schedule of kind \<open>every_n_days\<close>, which no
  route checks.
\<close>
theorem catalogue_schedules_are_readable:
  assumes "schedules_readable s0"
    and "r \<in> set (schedules (os_store (scheduler_view (catalog_run run s0 rs))))"
  shows "operation_type_for (sc_type r) \<noteq> None \<and> (\<exists>k\<in>set interval_kinds. schedule_kind r = Some (JStr k)) \<and>
     (\<forall>now e. expected_run_at r now = Inl e \<longleftrightarrow> schedule_kind r = Some (JStr ''every_n_days'') \<and>
       (\<exists>j. jget ''days'' (sc_interval r) = Some j \<and> json_int j = Inl e))"
proof -
  have "schedules_readable (catalog_run run s0 rs)" using run_reads assms(1) by (auto simp: reads_def)
  with assms(2) obtain x where "r = schedule_of x" "readable_schedule x"
    by (auto simp: scheduler_view_def schedules_readable_def)
  then show ?thesis by (simp add: readable_type known_kind readable_expected)
qed

text \<open>
  A schedule whose number of days is a word is accepted; from then on every tick of the scheduler
  that reaches it ends with an exception.
\<close>

definition sample_catalog :: config_sys where
  "sample_catalog = \<lparr>cf_ops = (sample_sys [])\<lparr>os_store := (sample_store [])\<lparr>users := users (at_store sample_auth)\<rparr>\<rparr>,
     cf_tables = (\<lambda>_. [])\<rparr>"

definition sample_call :: "string \<Rightarrow> int \<Rightarrow> jdict \<Rightarrow> catalog_ctx" where
  "sample_call p now body = \<lparr>wc_request = (Web_Gate.sample_request ''tok'')\<lparr>rq_json := Some (JObj body)\<rparr>,
     wc_session = \<lparr>sn_user = ''u_a'', sn_token = ''tok'', sn_expires_at = 1000000, sn_step_up_at = None, sn_created_at = 100\<rparr>,
     wc_now = now, wc_ids = (\<lambda>k n. p @ replicate k (CHR ''x'') @ replicate n (CHR ''y'')), ct_args = []\<rparr>"

definition sample_post :: "string \<Rightarrow> jdict \<Rightarrow> catalog_ctx \<times> catalog_route" where
  "sample_post p iv = (sample_call p 100 [(''scope'', JStr ''global''), (''schedule_type'', JStr ''backup''),
     (''time_of_day'', JStr ''23:05''), (''interval_spec'', JObj iv)], PostSchedule)"

definition sample_posts :: "(catalog_ctx \<times> catalog_route) list" where
  "sample_posts = [sample_post ''a'' [(''kind'', JStr ''daily'')],
     sample_post ''b'' [(''type'', JStr ''every_n_days''), (''days'', JStr ''soon'')], sample_post ''c'' [(''kind'', JStr ''hourly'')]]"

lemma catalogue_schedules_are_readable_witness:
  "\<exists>a b. schedules (os_store (scheduler_view (catalog_run (\<lambda>_. None) sample_catalog sample_posts))) = [a, b] \<and>
     expected_run_at a 200000 = Inr (Some 169500) \<and> expected_run_at b 200000 = Inl SchedValueError"
proof -
  define ss where "ss = schedules (os_store (scheduler_view (catalog_run (\<lambda>_. None) sample_catalog sample_posts)))"
  have "case ss of [a, b] \<Rightarrow> schedule_kind b = Some (JStr ''every_n_days'') \<and> jget ''days'' (sc_interval b) = Some (JStr ''soon'') \<and>
      expected_run_at a 200000 = Inr (Some 169500) | _ \<Rightarrow> False"
    unfolding ss_def by code_simp
  then obtain a b where ss: "ss = [a, b]" and b: "schedule_kind b = Some (JStr ''every_n_days'')"
      "jget ''days'' (sc_interval b) = Some (JStr ''soon'')" and a: "expected_run_at a 200000 = Inr (Some 169500)"
    by (auto split: list.splits)
  have "schedules_readable sample_catalog" by (simp add: schedules_readable_def sample_catalog_def)
  moreover have "b \<in> set ss" by (simp add: ss)
  ultimately have "expected_run_at b 200000 = Inl SchedValueError \<longleftrightarrow> schedule_kind b = Some (JStr ''every_n_days'') \<and>
      (\<exists>j. jget ''days'' (sc_interval b) = Some j \<and> json_int j = Inl SchedValueError)"
    using catalogue_schedules_are_readable unfolding ss_def by blast
  moreover have "json_int (JStr ''soon'') = Inl SchedValueError" by code_simp
  ultimately show ?thesis using ss a b by (auto simp: ss_def)
qed

end
