(* ===== verification/Web_Settings.thy ===== *)
theory Web_Settings
  imports Web_Catalogs
begin

text \<open>
  The settings routes (\<open>app/web/api/configuration.py\<close>): the settings of the manager and the
  overrides of a world, over the configuration service.  As in the service a JSON column holds its
  value, so \<open>json.dumps\<close> is the identity here.
\<close>

section \<open>The request\<close>

definition global_fields :: "(string \<times> string) list" where
  "global_fields = map (\<lambda>k. (k, k)) [''timezone'', ''idle_countdown_seconds'', ''notification_defaults'',
     ''minecraft_root_path'', ''backup_root_path'', ''log_root_path'', ''offsite_sync_defaults'']"

definition world_fields :: "(string \<times> string) list" where
  "world_fields = [(''idle_countdown_seconds'', ''idle_countdown_override''),
     (''minecraft_root_path'', ''minecraft_root_override''), (''backup_root_path'', ''backup_root_override''),
     (''log_root_path'', ''log_root_override''), (''offsite_sync_defaults'', ''offsite_sync_override'')]"

definition setting_valid :: "bool \<Rightarrow> string \<Rightarrow> json \<Rightarrow> bool" where
  "setting_valid override k v =
     (if k = ''idle_countdown_seconds'' then (case v of JNull \<Rightarrow> True | JInt n \<Rightarrow> 0 \<le> n | _ \<Rightarrow> False)
      else if k \<in> {''notification_defaults'', ''offsite_sync_defaults''}
      then (case v of JNull \<Rightarrow> True | JObj _ \<Rightarrow> True | _ \<Rightarrow> False)
      else (case v of JStr _ \<Rightarrow> True | JNull \<Rightarrow> override | _ \<Rightarrow> False))"

text \<open>The version and the columns to write; \<open>override\<close> tells the world's request from the global one.\<close>

definition request_update :: "(string \<times> string) list \<Rightarrow> bool \<Rightarrow> web_ctx \<Rightarrow> (int \<times> jdict) option" where
  "request_update names override c =
     (case object_body (rq_json (wc_request c)) of
        None \<Rightarrow> None
      | Some b \<Rightarrow>
          (case jget ''version'' b of
             Some (JInt n) \<Rightarrow>
               (let vs = filter (\<lambda>(k, v). k \<noteq> ''version'') b in
                if n < 0 \<or> vs = [] \<or> \<not> keys_within (map fst names) vs \<or>
                   \<not> list_all (\<lambda>(k, v). setting_valid override k v) vs then None
                else Some (n, map (\<lambda>(k, v). (the (map_of names k), v)) vs))
           | _ \<Rightarrow> None))"

section \<open>Routes\<close>

definition shown_settings :: "row \<Rightarrow> jdict" where
  "shown_settings g = map (\<lambda>k. (k, col k g)) [''timezone'', ''idle_countdown_seconds'', ''notification_defaults'',
     ''minecraft_root_path'', ''backup_root_path'', ''log_root_path'', ''offsite_sync_defaults'']"

definition get_global_settings :: catalog_handler where
  "get_global_settings =
     bind_run (gets resolve_global) (\<lambda>r.
       case r of
         Inl _ \<Rightarrow> refuse ''NOT_FOUND'' ''Global settings are not initialized.'' 404
       | Inr g \<Rightarrow> answer [(''settings'', JObj (shown_settings g)), (''version'', col ''version'' g)])"

text \<open>The versioned edit of both routes; \<open>missing\<close> is the text for a row that does not exist.\<close>

definition edit_settings :: "web_ctx \<Rightarrow> ConfigEditEntity \<Rightarrow> string \<Rightarrow> int \<Rightarrow> jdict \<Rightarrow> string \<Rightarrow>
    (op_row \<Rightarrow> catalog_handler) \<Rightarrow> catalog_handler" where
  "edit_settings c e i version fs missing k =
     bind_run (service (update_versioned_with_operation (wc_ids c) (wc_now c)
         \<lparr>vu_entity = e, vu_row = i, vu_expected = version, vu_fields = fs,
          vu_actor_type = ACTOR_USER, vu_actor = Some (wc_user c)\<rparr>)) (\<lambda>r.
       case r of
         Inr (_, op) \<Rightarrow> k op
       | Inl ConfigurationConflictError \<Rightarrow>
           refuse ''CONFIG_VERSION_CONFLICT'' ''Configuration changed; reload and retry.'' 409
       | Inl (MissingRow _) \<Rightarrow> refuse ''NOT_FOUND'' missing 404
       | Inl _ \<Rightarrow> escape)"

definition op_answer :: "op_row \<Rightarrow> jdict \<Rightarrow> response" where
  "op_answer op d = with_meta [(''op_id'', JStr (op_id op))] (ok_response (d @ [(''operation'', JObj (operation_json op))]) 200)"

definition update_global_settings :: "web_ctx \<Rightarrow> catalog_handler" where
  "update_global_settings c =
     (case request_update global_fields False c of
        None \<Rightarrow> invalid ''A version and editable settings are required.''
      | Some (version, fs) \<Rightarrow>
          bind_run (gets resolve_global) (\<lambda>r.
            case r of
              Inl _ \<Rightarrow> refuse ''NOT_FOUND'' ''Global settings are not initialized.'' 404
            | Inr g0 \<Rightarrow>
                edit_settings c CE_GLOBAL_SETTINGS (text_key (col ''settings_id'' g0)) version fs
                  ''Global settings are not initialized.'' (\<lambda>op.
                  bind_run (gets resolve_global) (\<lambda>r.
                    case r of
                      Inl _ \<Rightarrow> escape
                    | Inr g \<Rightarrow> ret (op_answer op
                        [(''settings'', JObj (shown_settings g)), (''version'', col ''version'' g)])))))"

definition override_version :: "string \<Rightarrow> config_sys \<Rightarrow> json option" where
  "override_version w s = map_option (col ''version'') (resolve_world w s)"

definition get_world_settings :: "string \<Rightarrow> catalog_handler" where
  "get_world_settings w =
     bind_run (gets (world_exists w)) (\<lambda>known.
       if \<not> known then refuse ''NOT_FOUND'' ''World not found.'' 404
       else
         bind_run (gets (resolve_effective w)) (\<lambda>r.
           case r of
             Inl _ \<Rightarrow> escape
           | Inr eff \<Rightarrow>
               bind_run (gets (override_version w)) (\<lambda>v.
                 answer [(''settings'', JObj eff), (''version'', case v of None \<Rightarrow> JInt 0 | Some n \<Rightarrow> n)])))"

definition update_world_settings :: "web_ctx \<Rightarrow> string \<Rightarrow> catalog_handler" where
  "update_world_settings c w =
     bind_run (gets (world_exists w)) (\<lambda>known.
       if \<not> known then refuse ''NOT_FOUND'' ''World not found.'' 404
       else
         case request_update world_fields True c of
           None \<Rightarrow> invalid ''A version and editable settings are required.''
         | Some (version, fs) \<Rightarrow>
             edit_settings c CE_WORLD_SETTINGS w version fs ''World not found.'' (\<lambda>op.
               bind_run (gets (resolve_effective w)) (\<lambda>r.
                 case r of
                   Inl _ \<Rightarrow> escape
                 | Inr eff \<Rightarrow>
                     bind_run (gets (override_version w)) (\<lambda>v.
                       bind_run (of_option Escaped v) (\<lambda>n.
                         ret (op_answer op [(''settings'', JObj eff), (''version'', n)]))))))"

end
