(* ===== verification/Web_Answers.thy ===== *)
theory Web_Answers
  imports Web_Worlds Web_Catalogs_Props Web_Settings
begin

text \<open>
  The form of the answers of \<open>app/web/errors.py\<close>, as a judgement on handlers: whatever the state,
  a handler that returns gives a response of the form.  The judgement is compositional, one rule
  per combinator, as a type system is.
\<close>

section \<open>The envelope\<close>

definition success_envelope :: "response \<Rightarrow> bool" where
  "success_envelope rp \<longleftrightarrow> rp_status rp \<in> {200, 201, 202} \<and>
     (\<exists>data meta. rp_body rp = JObj [(''ok'', JBool True), (''data'', JObj data), (''meta'', JObj meta)])"

definition error_envelope :: "response \<Rightarrow> bool" where
  "error_envelope rp \<longleftrightarrow> rp_headers rp = [] \<and> rp_set_cookies rp = [] \<and>
     (\<exists>code message. map_of ERROR_STATUS_CODES code = Some (rp_status rp) \<and>
        rp_body rp = JObj [(''ok'', JBool False),
          (''error'', JObj [(''code'', JStr code), (''message'', JStr message), (''details'', JObj [])]),
          (''meta'', JObj [])])"

definition enveloped :: "response \<Rightarrow> bool" where
  "enveloped rp \<longleftrightarrow> success_envelope rp \<or> error_envelope rp"

definition answers :: "(response \<Rightarrow> bool) \<Rightarrow> 's handler \<Rightarrow> bool" where
  "answers good m \<longleftrightarrow> (\<forall>s. case fst (m s) of Inl _ \<Rightarrow> True | Inr rp \<Rightarrow> good rp)"

definition catalogued :: "string \<Rightarrow> bool" where
  "catalogued code \<longleftrightarrow> map_of ERROR_STATUS_CODES code \<noteq> None"

section \<open>Rules\<close>

named_theorems answer_rules "handlers answer in the envelope"

lemma answers_ret [answer_rules]: "good rp \<Longrightarrow> answers good (ret rp)"
  by (simp add: answers_def ret_def)

lemma answers_escape [answer_rules]: "answers good (raise e)"
  by (simp add: answers_def raise_def)

lemma answers_gets: "(\<And>s. good (f s)) \<Longrightarrow> answers good (gets f)"
  by (simp add: answers_def gets_def)

lemma answersI: "(\<And>s rp s'. m s = (Inr rp, s') \<Longrightarrow> good rp) \<Longrightarrow> answers good m"
  unfolding answers_def by (metis prod.collapse sum.case_eq_if sum.collapse(2))

lemma answersD: "answers good m \<Longrightarrow> m s = (Inr rp, s') \<Longrightarrow> good rp"
  unfolding answers_def by (metis fst_conv sum.simps(6))

lemma answers_bind [answer_rules]: "(\<And>x. answers good (f x)) \<Longrightarrow> answers good (bind_run m f)"
  by (rule answersI) (auto simp: bind_run_Inr dest: answersD)

lemma answers_try [answer_rules]:
  "answers good m \<Longrightarrow> (\<And>e. answers good (h e)) \<Longrightarrow> answers good (try_run m h)"
  by (rule answersI) (auto simp: try_run_Inr dest: answersD)

lemma success_ok [answer_rules]: "n \<in> {200, 201, 202} \<Longrightarrow> success_envelope (ok_response d n)"
  by (auto simp: success_envelope_def ok_response_def)

lemma enveloped_ok [answer_rules]: "n \<in> {200, 201, 202} \<Longrightarrow> enveloped (ok_response d n)"
  by (simp add: enveloped_def success_ok)

lemma success_cookies: "success_envelope rp \<Longrightarrow> success_envelope (rp\<lparr>rp_set_cookies := cs\<rparr>)"
  by (simp add: success_envelope_def)

lemma enveloped_meta [answer_rules]: "n \<in> {200, 201, 202} \<Longrightarrow> enveloped (with_meta m (ok_response d n))"
  by (auto simp: enveloped_def success_envelope_def with_meta_def ok_response_def)

lemma enveloped_error [answer_rules]: "catalogued code \<Longrightarrow> enveloped (error_response code message st)"
  by (auto simp: enveloped_def error_envelope_def error_response_def catalogued_def)

lemma catalogue [answer_rules]:
  "catalogued ''VALIDATION_ERROR''" "catalogued ''NOT_FOUND''" "catalogued ''CONFIG_VERSION_CONFLICT''"
  "catalogued ''AUTH_FORBIDDEN''" "catalogued ''NOT_IMPLEMENTED''" "catalogued ''FORBIDDEN_LAST_SUPERADMIN''"
  "catalogued ''AUTH_LOCKED''" "catalogued ''AUTH_DISABLED''" "catalogued ''AUTH_INVALID_CREDENTIALS''"
  "catalogued ''AUTH_SESSION_INVALID''" "catalogued ''WORLD_NOT_FOUND''" "catalogued ''WORLD_CONFLICT''"
  "catalogued ''WORLD_NAME_CONFLICT''" "catalogued ''WORLD_NOT_OFF''" "catalogued ''WORLD_PORT_CONFLICT''"
  "catalogued ''WORLD_RUNTIME_CONFIG_STATE''" "catalogued ''CLEANUP_PREVIEW_REQUIRED''"
  "catalogued ''FILE_PATH_UNAUTHORIZED''" "catalogued ''FILE_NOT_FOUND''" "catalogued ''FILE_EXISTS''"
  "catalogued ''FILE_INVALID''" "catalogued ''FILE_TOO_LARGE''" "catalogued ''CONFIG_INVALID_VALUE''"
  "catalogued ''MISSED_RUN_RESOLVED''"
  unfolding catalogued_def by code_simp+

lemma answers_refuse [answer_rules]: "catalogued code \<Longrightarrow> answers enveloped (refuse code message st)"
  by (simp add: refuse_def answers_ret enveloped_error)

lemma answers_invalid [answer_rules]: "answers enveloped (invalid message)"
  by (simp add: invalid_def answers_ret enveloped_error catalogue)

lemma answers_answer [answer_rules]: "answers enveloped (answer d)"
  by (simp add: answer_def answers_ret enveloped_ok)

lemma answers_fault [answer_rules]: "catalogued code \<Longrightarrow> answers enveloped (fault code message)"
  by (simp add: fault_def answers_ret enveloped_error)

lemma answers_sql [answer_rules]: "answers enveloped (sql_refusal message)"
  by (simp add: sql_refusal_def answers_refuse catalogue)

lemma answers_if [answer_rules]:
  "(b \<Longrightarrow> answers good m) \<Longrightarrow> (\<not> b \<Longrightarrow> answers good n) \<Longrightarrow> answers good (if b then m else n)"
  by simp

lemma answers_option [answer_rules]:
  "(x = None \<Longrightarrow> answers good m) \<Longrightarrow> (\<And>y. x = Some y \<Longrightarrow> answers good (f y)) \<Longrightarrow>
     answers good (case x of None \<Rightarrow> m | Some y \<Rightarrow> f y)"
  by (cases x) auto

lemma answers_sum [answer_rules]:
  "(\<And>e. x = Inl e \<Longrightarrow> answers good (g e)) \<Longrightarrow> (\<And>y. x = Inr y \<Longrightarrow> answers good (f y)) \<Longrightarrow>
     answers good (case x of Inl e \<Rightarrow> g e | Inr y \<Rightarrow> f y)"
  by (cases x) auto

lemma answers_prod [answer_rules]: "(\<And>a b. answers good (f a b)) \<Longrightarrow> answers good (case x of (a, b) \<Rightarrow> f a b)"
  by (cases x) auto

lemma answers_list [answer_rules]:
  "(x = [] \<Longrightarrow> answers good m) \<Longrightarrow> (\<And>y ys. x = y # ys \<Longrightarrow> answers good (f y ys)) \<Longrightarrow>
     answers good (case x of [] \<Rightarrow> m | y # ys \<Rightarrow> f y ys)"
  by (cases x) auto

section \<open>The administration and session routes\<close>

datatype admin_route =
    GetManager | GetSetup | PostSetup | ManagerAction string
  | ListUsers | PostUser | PatchUser string | RemoveUser string
  | ListRoles | PostRole | PatchRole string | RemoveRole string | ListPermissions string
  | PostPermission | RemovePermission string
  | ListDevices | PatchDevice string | DeviceSessions string | SessionActivity

fun handle_admin :: "crypto \<Rightarrow> web_ctx \<Rightarrow> admin_route \<Rightarrow> admin_handler" where
  "handle_admin cr c GetManager = get_manager"
| "handle_admin cr c GetSetup = get_setup"
| "handle_admin cr c PostSetup = complete_setup cr c"
| "handle_admin cr c (ManagerAction a) = manager_action a"
| "handle_admin cr c ListUsers = list_users"
| "handle_admin cr c PostUser = create_user cr c"
| "handle_admin cr c (PatchUser i) = update_user_route cr c i"
| "handle_admin cr c (RemoveUser i) = delete_user c i"
| "handle_admin cr c ListRoles = list_roles"
| "handle_admin cr c PostRole = create_role c"
| "handle_admin cr c (PatchRole i) = update_role c i"
| "handle_admin cr c (RemoveRole i) = delete_role c i"
| "handle_admin cr c (ListPermissions i) = list_role_permissions i"
| "handle_admin cr c PostPermission = grant_permission c"
| "handle_admin cr c (RemovePermission i) = revoke_permission c i"
| "handle_admin cr c ListDevices = list_devices"
| "handle_admin cr c (PatchDevice i) = update_device c i"
| "handle_admin cr c (DeviceSessions i) = device_sessions i"
| "handle_admin cr c SessionActivity = session_activity cr c"

lemma apply_user_fields_answers [answer_rules]: "answers enveloped (apply_user_fields c i body)"
  unfolding apply_user_fields_def Let_def by (auto intro!: answer_rules)

lemma change_other_password_answers [answer_rules]:
  "answers enveloped k \<Longrightarrow> answers enveloped (change_other_password cr c i body k)"
  unfolding change_other_password_def Let_def by (auto intro!: answer_rules)

lemma admin_answers:
  "answers enveloped (get_manager)"
  "answers enveloped (get_setup)"
  "answers enveloped (complete_setup cr c)"
  "answers enveloped (manager_action a)"
  "answers enveloped (list_users)"
  "answers enveloped (create_user cr c)"
  "answers enveloped (update_user_route cr c i)"
  "answers enveloped (delete_user c i)"
  "answers enveloped (list_roles)"
  "answers enveloped (create_role c)"
  "answers enveloped (update_role c i)"
  "answers enveloped (delete_role c i)"
  "answers enveloped (list_role_permissions i)"
  "answers enveloped (grant_permission c)"
  "answers enveloped (revoke_permission c i)"
  "answers enveloped (list_devices)"
  "answers enveloped (update_device c i)"
  "answers enveloped (device_sessions i)"
  "answers enveloped (session_activity cr c)"
  unfolding get_manager_def get_setup_def complete_setup_def manager_action_def list_users_def create_user_def
    update_user_route_def delete_user_def list_roles_def create_role_def update_role_def delete_role_def
    list_role_permissions_def grant_permission_def revoke_permission_def list_devices_def
    update_device_def device_sessions_def session_activity_def Let_def
  by (auto intro!: answer_rules split: json.split config_error.split)

section \<open>The session routes\<close>

lemma enveloped_cookies [answer_rules]:
  "n \<in> {200, 201, 202} \<Longrightarrow> enveloped (set_session_cookies mac rq token (ok_response d n))"
  "n \<in> {200, 201, 202} \<Longrightarrow> enveloped ((ok_response d n)\<lparr>rp_set_cookies := cs\<rparr>)"
  by (simp_all add: enveloped_def set_session_cookies_def success_cookies success_ok)

lemma session_answers:
  "answers enveloped (login cr mac token c)"
  "answers enveloped (logout cr c)"
  "answers enveloped (step_up cr mac token c)"
  "answers enveloped (current_session c)"
  unfolding login_def logout_def step_up_def current_session_def Let_def
  by (auto intro!: answer_rules split: json.split auth_error.split)

section \<open>The world routes\<close>

lemma respond_answers [answer_rules]: "answers enveloped (respond r replayed)"
  by (auto simp: respond_def operation_response_def Let_def intro!: answers_gets enveloped_meta)

lemma with_world_answers [answer_rules]: "(\<And>r. answers enveloped (f r)) \<Longrightarrow> answers enveloped (with_world w f)"
  unfolding with_world_def by (auto intro!: answer_rules)

lemma with_key_answers [answer_rules]: "(\<And>k. answers enveloped (f k)) \<Longrightarrow> answers enveloped (with_key ty c f)"
  unfolding with_key_def by (auto intro!: answer_rules)

lemma enqueue_answers [answer_rules]: "answers enveloped (enqueue E ty w c k d)"
  unfolding enqueue_def by (auto intro!: answer_rules)

lemma unauthorized_answers [answer_rules]: "answers enveloped unauthorized_path"
  unfolding unauthorized_path_def by (auto intro!: answer_rules)

lemma world_answers:
  "answers enveloped (create_world E c)"
  "answers enveloped (update_world c w)"
  "answers enveloped (world_delete_preview cr c w)"
  "answers enveloped (delete_world cr E c w)"
  "answers enveloped (get_runtime_config w)"
  "answers enveloped (update_runtime_config E c w)"
  "answers enveloped (get_world_eula w)"
  "answers enveloped (list_world_files c w)"
  "answers enveloped (upload_world_file c w)"
  "answers enveloped (create_world_directory L c w)"
  "answers enveloped (edit_world_file E c w)"
  "answers enveloped (delete_world_file c w)"
  "answers enveloped (list_world_log_channels w)"
  "answers enveloped (tail_world_log L c w ch)"
  "answers enveloped (list_world_log_files c w ch)"
  unfolding create_world_def update_world_def world_delete_preview_def delete_world_def get_runtime_config_def
    update_runtime_config_def get_world_eula_def list_world_files_def upload_world_file_def
    create_world_directory_def edit_world_file_def delete_world_file_def list_world_log_channels_def
    tail_world_log_def list_world_log_files_def Let_def
  by (auto intro!: answer_rules)

text \<open>Besides the envelope a world route may answer with a file.\<close>

definition world_answer :: "web_lib \<Rightarrow> worlds_ctx \<Rightarrow> response \<Rightarrow> bool" where
  "world_answer L c rp \<longleftrightarrow> enveloped rp \<or> (\<exists>name content. rp = wl_send_file L (wc_request c) name content)"

lemma answers_weaken: "answers enveloped m \<Longrightarrow> answers (world_answer L c) m"
  by (auto intro!: answersI dest: answersD simp: world_answer_def)

lemma answers_file: "answers (world_answer L c) (ret (wl_send_file L (wc_request c) name content))"
  by (rule answers_ret) (unfold world_answer_def, blast)

lemma with_world_file:
  "(\<And>r. answers (world_answer L c) (f r)) \<Longrightarrow> answers (world_answer L c) (with_world w f)"
  unfolding with_world_def by (auto intro!: answers_bind answers_option answers_weaken[OF answers_fault] catalogue)

lemma download_world_file_answers: "answers (world_answer L c) (download_world_file L c w)"
  unfolding download_world_file_def
  by (auto intro!: with_world_file answers_bind answers_option answers_prod answers_file
      answers_weaken[OF unauthorized_answers] answers_weaken[OF answers_fault] catalogue)

lemma download_world_log_answers: "answers (world_answer L c) (download_world_log L c w ch f)"
  unfolding download_world_log_def
  by (auto intro!: with_world_file answers_bind answers_option answers_prod answers_file answers_if
      answers_weaken[OF answers_invalid] answers_weaken[OF answers_fault] catalogue)

section \<open>The catalogue routes\<close>

lemma listing_answers [answer_rules]: "answers enveloped (listing c name render rows)"
  unfolding listing_def by (auto intro!: answer_rules)

lemma insert_answers [answer_rules]:
  "(\<And>op. answers enveloped (k op)) \<Longrightarrow> answers enveloped (insert_under c op e key r i k)"
  unfolding insert_under_def by (auto intro!: answer_rules)

lemma config_update_failure:
  assumes "config_update c e i version fs s = (Inr (Inl rp), s')"
  shows "enveloped rp"
proof -
  obtain res s1 where u: "update_versioned_with_operation (wc_ids c) (wc_now c) (catalog_update c e i version fs) s = (res, s1)"
    by fastforce
  show ?thesis
  proof (cases res)
    case (Inl err)
    with assms u show ?thesis
      by (cases err) (auto simp: config_update_def bind_run_def service_def ret_def raise_def enveloped_error catalogue)
  qed (use assms u in \<open>simp add: config_update_def bind_run_def service_def ret_def\<close>)
qed

lemma edit_answers [answer_rules]:
  assumes "\<And>x op rp. f x op = Some rp \<Longrightarrow> enveloped rp"
  shows "answers enveloped (answer_edit c e i version fs f)"
proof (rule answersI)
  fix s rp s'
  assume run: "answer_edit c e i version fs f s = (Inr rp, s')"
  obtain x s1 where x: "config_update c e i version fs s = (x, s1)" by fastforce
  show "enveloped rp"
  proof (cases x)
    case (Inr y)
    show ?thesis
    proof (cases y)
      case (Inl bad)
      with x Inr run show ?thesis by (auto simp: answer_edit_def bind_run_def ret_def dest: config_update_failure)
    next
      case (Inr p)
      with x \<open>x = Inr y\<close> run show ?thesis
        by (cases p; cases "f (fst p) (snd p)")
           (auto simp: answer_edit_def bind_run_def of_option_def ret_def raise_def dest: assms)
    qed
  qed (use x run in \<open>simp add: answer_edit_def bind_run_def\<close>)
qed

lemma enveloped_op [answer_rules]: "n \<in> {200, 201, 202} \<Longrightarrow> enveloped (with_op op (ok_response d n))"
  by (simp add: with_op_def enveloped_meta)

lemma edit_fault_enveloped: "schedule_edit_fault fs r s = Inr (Some rp) \<Longrightarrow> enveloped rp"
  by (auto simp: schedule_edit_fault_def Let_def split: option.splits bool.splits if_splits intro!: answer_rules)

lemma update_schedule_answers: "answers enveloped (update_schedule c i)"
proof -
  have edit: "answers enveloped (answer_edit c CE_SCHEDULES i version fs (\<lambda>x op.
      map_option (\<lambda>shown. with_op op (ok_response (d op shown) 200)) (serialize_schedule x)))" for version fs d
    by (auto intro!: answer_rules)
  show ?thesis
    by (rule answersI)
       (auto simp: update_schedule_def bind_run_Inr gets_def ret_def raise_def split: option.splits sum.splits prod.splits
         dest: edit_fault_enveloped answersD[OF edit] answersD[OF answers_invalid]
         answersD[OF answers_refuse[OF catalogue(2)]])
qed

lemma catalog_answers:
  "answers enveloped (list_schedules c)" "answers enveloped (create_schedule c)" "answers enveloped (delete_schedule c i)"
  "answers enveloped (list_missed_runs c)" "answers enveloped (resolve_missed_run c i)"
  "answers enveloped (list_templates c)" "answers enveloped (create_template c)"
  "answers enveloped (update_template c i)" "answers enveloped (deprecate_template c i)"
  "answers enveloped (list_java_runtimes c)" "answers enveloped (register_java_runtime c)"
  "answers enveloped (verify_java_runtime run c i)" "answers enveloped (update_java_runtime c i)"
  "answers enveloped (deprecate_java_runtime c i)"
  unfolding list_schedules_def create_schedule_def delete_schedule_def list_missed_runs_def resolve_missed_run_def
    list_templates_def create_template_def update_template_def deprecate_template_def list_java_runtimes_def
    register_java_runtime_def verify_java_runtime_def update_java_runtime_def deprecate_java_runtime_def Let_def
  by (auto intro!: answer_rules)

lemma edit_settings_answers [answer_rules]:
  "(\<And>op. answers enveloped (k op)) \<Longrightarrow> answers enveloped (edit_settings c e i version fs missing k)"
  unfolding edit_settings_def by (auto intro!: answer_rules split: config_error.split)

lemma enveloped_op_answer [answer_rules]: "enveloped (op_answer op d)"
  by (simp add: op_answer_def enveloped_meta)

lemma settings_answers:
  "answers enveloped get_global_settings" "answers enveloped (update_global_settings c)"
  "answers enveloped (get_world_settings w)" "answers enveloped (update_world_settings c w)"
  unfolding get_global_settings_def update_global_settings_def get_world_settings_def update_world_settings_def
  by (auto intro!: answer_rules)

section \<open>Every answer has the form\<close>

lemma world_route_answers: "answers (world_answer L c) (handle_route cr L E c rt)"
  by (cases rt) (simp_all add: answers_weaken world_answers download_world_file_answers download_world_log_answers)

lemma admin_route_answers: "answers enveloped (handle_admin cr c rt)"
  by (cases rt) (simp_all add: admin_answers)

lemma catalog_route_answers: "answers enveloped (handle_catalog run c rt)"
  by (cases rt) (simp_all add: catalog_answers update_schedule_answers)

text \<open>C33: every session, administration, catalogue, settings and world route, on every request and
  in every state, either raises or answers in the envelope: \<open>ok\<close>, \<open>data\<close> and \<open>meta\<close> with status 200, 201 or
  202, or an error whose code is in the catalogue, sent with the status of the catalogue; only a
  download answers with a file instead.\<close>

theorem every_answer_is_enveloped:
  "answers enveloped (login cr mac token c) \<and> answers enveloped (logout cr c) \<and>
   answers enveloped (step_up cr mac token c) \<and> answers enveloped (current_session c) \<and>
   answers enveloped (handle_admin cr c art) \<and> answers enveloped (handle_catalog run cc crt) \<and>
   answers enveloped get_global_settings \<and> answers enveloped (update_global_settings c) \<and>
   answers enveloped (get_world_settings w) \<and> answers enveloped (update_world_settings c w) \<and>
   answers (world_answer L wc) (handle_route cr L E wc wrt)"
  by (intro conjI session_answers settings_answers admin_route_answers catalog_route_answers world_route_answers)

end
