(* ===== verification/Web_Settings_Props.thy ===== *)
theory Web_Settings_Props
  imports Web_Settings Web_Catalogs_Props
begin

text \<open>What the settings of a world show after an edit: the written values, the settings of the
  manager where an override was removed, and the rest as before.\<close>

section \<open>The columns of an edit\<close>

definition override_of :: "string \<Rightarrow> string" where
  "override_of k = the (map_of world_fields k)"

lemma override_inj: "inj_on override_of (fst ` set world_fields)"
  by (simp add: override_of_def world_fields_def inj_on_def)

lemma map_of_renamed:
  assumes "inj_on f (insert k (fst ` set vs))"
  shows "map_of (map (\<lambda>(k, v). (f k, v)) vs) (f k) = map_of vs k"
  using assms by (induction vs) (auto simp: inj_on_def)

lemma map_of_filtered: "k \<noteq> j \<Longrightarrow> map_of (filter (\<lambda>(k, v). k \<noteq> j) b) k = map_of b k"
  by (induction b) auto

text \<open>The columns to write are those of the body, under the names of the overrides.\<close>

lemma request_columns:
  assumes "request_update world_fields True c = Some (n, fs)"
  obtains b where "object_body (rq_json (wc_request c)) = Some b" "jget ''version'' b = Some (JInt n)"
    "distinct (map fst fs)" "fst ` set fs \<subseteq> snd ` set world_fields" "fs \<noteq> []"
    "\<And>k o'. (k, o') \<in> set world_fields \<Longrightarrow> map_of fs o' = jget k b"
    "\<And>k. k \<notin> fst ` set world_fields \<Longrightarrow> k \<noteq> ''version'' \<Longrightarrow> jget k b = None"
proof -
  obtain b where b: "object_body (rq_json (wc_request c)) = Some b" and n: "jget ''version'' b = Some (JInt n)"
    using assms by (auto simp: request_update_def Let_def split: option.splits json.splits if_splits)
  define vs where "vs = filter (\<lambda>(k, v). k \<noteq> ''version'') b"
  have within: "fst ` set vs \<subseteq> fst ` set world_fields" and ne: "vs \<noteq> []"
    and fs: "fs = map (\<lambda>(k, v). (override_of k, v)) vs"
    using assms by (auto simp: request_update_def b n Let_def keys_within_def vs_def override_of_def split: if_splits)
  have dist: "distinct (map fst vs)"
    using b by (auto simp: vs_def object_body_def distinct_map_filter[OF distinct_py_dict] split: option.splits json.splits)
  have names: "map fst fs = map override_of (map fst vs)" by (simp add: fs comp_def case_prod_unfold)
  show thesis
  proof (rule that[OF b n])
    show "distinct (map fst fs)"
      unfolding names using dist within override_inj by (simp only: distinct_map) (auto intro: inj_on_subset)
    show "fst ` set fs \<subseteq> snd ` set world_fields"
    proof -
      have "fst ` set fs = override_of ` (fst ` set vs)" by (simp add: fs image_image case_prod_unfold)
      also have "\<dots> \<subseteq> override_of ` (fst ` set world_fields)" using within by (rule image_mono)
      also have "\<dots> = snd ` set world_fields" by (simp add: override_of_def world_fields_def)
      finally show ?thesis .
    qed
    show "fs \<noteq> []" using ne by (simp add: fs)
    show "jget k b = None" if "k \<notin> fst ` set world_fields" "k \<noteq> ''version''" for k
      using that within by (force simp: jget_def map_of_eq_None_iff vs_def)
    show "map_of fs o' = jget k b" if "(k, o') \<in> set world_fields" for k o'
    proof -
      have "o' = override_of k" "k \<noteq> ''version''" "k \<in> fst ` set world_fields"
        using that by (auto simp: override_of_def world_fields_def)
      moreover have "inj_on override_of (insert k (fst ` set vs))"
        using within calculation(3) by (intro inj_on_subset[OF override_inj]) auto
      ultimately show ?thesis by (simp add: fs map_of_renamed jget_def vs_def map_of_filtered)
    qed
  qed
qed

lemma override_edit:
  assumes "update_versioned_with_operation u now v s = (Inr (r, op), s')" and "vu_entity v = CE_WORLD_SETTINGS"
    and "schema_ok s" and "distinct (map fst (vu_fields v))" and "fst ` set (vu_fields v) \<subseteq> snd ` set world_fields"
  shows "resolve_world (vu_row v) s' = Some r" and "col ''version'' r = JInt (vu_expected v + 1)"
    and "(case override_version (vu_row v) s of None \<Rightarrow> JInt 0 | Some n \<Rightarrow> n) = JInt (vu_expected v)"
    and "resolve_global s' = resolve_global s"
    and "o' \<in> snd ` set world_fields \<Longrightarrow> col o' r = (case map_of (vu_fields v) o' of Some x \<Rightarrow> x
      | None \<Rightarrow> (case resolve_world (vu_row v) s of None \<Rightarrow> JNull | Some r0 \<Rightarrow> col o' r0))"
proof -
  have kv: "version_columns (vu_entity v) = Some (''world_id'', ''version'')" by (simp add: assms(2))
  have find: "find_config CE_WORLD_SETTINGS ''world_id'' w t = resolve_world w t" for w t
    by (simp add: find_config_def resolve_world_def)
  note swap = edit_is_compare_and_swap[OF assms(1,3,4) kv, unfolded assms(2) find, simplified]
  show "resolve_world (vu_row v) s' = Some r" "col ''version'' r = JInt (vu_expected v + 1)" using swap by blast+
  show "(case override_version (vu_row v) s of None \<Rightarrow> JInt 0 | Some n \<Rightarrow> n) = JInt (vu_expected v)"
    using swap by (auto simp: override_version_def split: option.splits)
  show "resolve_global s' = resolve_global s" using swap by (simp add: resolve_global_def)
  assume o': "o' \<in> snd ` set world_fields"
  then have clean: "o' \<in> set (table_columns CE_WORLD_SETTINGS)"
    "o' \<notin> {''updated_at'', ''updated_by'', ''last_changed_at'', ''version'', ''world_id''}"
    by (auto simp: world_fields_def)
  show "col o' r = (case map_of (vu_fields v) o' of Some x \<Rightarrow> x
      | None \<Rightarrow> (case resolve_world (vu_row v) s of None \<Rightarrow> JNull | Some r0 \<Rightarrow> col o' r0))"
  proof (cases "map_of (vu_fields v) o'")
    case (Some x)
    then show ?thesis using swap map_of_SomeD[OF Some] clean(2) by fastforce
  next
    case None
    obtain creating s1 s2 payload where ck: "checked v creating" and t1: "cf_tables s1 = cf_tables s"
      and tx: "update_tx now v creating s1 = (payload, Inr (r, s2))"
      by (rule edit_committed[OF assms(1)])
    have "find_config (vu_entity v) ''world_id'' (vu_row v) s1 = resolve_world (vu_row v) s"
      using find_config_tables[OF t1] by (simp add: assms(2) find)
    with update_tx_commits[OF ck kv, of now s1 r s2] tx
    have "(\<exists>r0. resolve_world (vu_row v) s = Some r0 \<and> r = bump ''version'' (set_cols (written_fields now v r0) r0)) \<or>
        resolve_world (vu_row v) s = None \<and> creating \<and> (\<exists>a. r = new_override now v a)"
      by auto
    then show ?thesis
    proof (elim disjE exE conjE)
      fix r0 assume r: "resolve_world (vu_row v) s = Some r0" "r = bump ''version'' (set_cols (written_fields now v r0) r0)"
      have "o' \<notin> fst ` set (written_fields now v r0)"
        using written_fields_keys[of now v r0] None clean(2) by (auto simp: map_of_eq_None_iff)
      then show ?thesis using r None clean(2) by (simp add: col_bump col_set_cols_other)
    next
      fix a assume "resolve_world (vu_row v) s = None" "creating" "r = new_override now v a"
      then show ?thesis using new_override_cols[of v o' now a] ck None clean by (simp add: col_def)
    qed
  qed
qed

section \<open>Reading an edit back\<close>

lemma refusal_status:
  "rp_status (error_response ''NOT_FOUND'' m st) = 404" "rp_status (error_response ''CONFIG_VERSION_CONFLICT'' m st) = 409"
  "rp_status (error_response ''VALIDATION_ERROR'' m st) = 400"
proof -
  have "map_of ERROR_STATUS_CODES ''NOT_FOUND'' = Some 404" "map_of ERROR_STATUS_CODES ''CONFIG_VERSION_CONFLICT'' = Some 409"
    "map_of ERROR_STATUS_CODES ''VALIDATION_ERROR'' = Some 400" by code_simp+
  then show "rp_status (error_response ''NOT_FOUND'' m st) = 404"
    "rp_status (error_response ''CONFIG_VERSION_CONFLICT'' m st) = 409"
    "rp_status (error_response ''VALIDATION_ERROR'' m st) = 400" by (simp_all add: error_response_def)
qed

lemma world_edit_ok:
  assumes "update_world_settings c w s = (Inr rp, s')" and "rp_status rp = 200"
  obtains n fs r op v where "world_exists w s" "request_update world_fields True c = Some (n, fs)"
    "v = \<lparr>vu_entity = CE_WORLD_SETTINGS, vu_row = w, vu_expected = n, vu_fields = fs,
       vu_actor_type = ACTOR_USER, vu_actor = Some (wc_user c)\<rparr>"
    "update_versioned_with_operation (wc_ids c) (wc_now c) v s = (Inr (r, op), s')"
proof (cases "world_exists w s \<and> request_update world_fields True c \<noteq> None")
  case False
  with assms show thesis
    by (cases "request_update world_fields True c")
       (auto simp: update_world_settings_def bind_run_def gets_def refuse_def invalid_def ret_def refusal_status
        split: if_splits)
next
  case True
  then obtain n fs where w: "world_exists w s" and req: "request_update world_fields True c = Some (n, fs)" by auto
  define v where "v = \<lparr>vu_entity = CE_WORLD_SETTINGS, vu_row = w, vu_expected = n, vu_fields = fs,
       vu_actor_type = ACTOR_USER, vu_actor = Some (wc_user c)\<rparr>"
  obtain res s1 where run: "update_versioned_with_operation (wc_ids c) (wc_now c) v s = (res, s1)" by fastforce
  note step = assms(1)[unfolded update_world_settings_def edit_settings_def] and run' = run[unfolded v_def]
  show thesis
  proof (cases res)
    case (Inl e)
    with step run' w req assms(2) show thesis
      by (cases e) (auto simp: bind_run_def gets_def service_def refuse_def ret_def raise_def refusal_status)
  next
    case (Inr p)
    obtain r op where p: "p = (r, op)" by (cases p)
    from step run' w req Inr p have "s' = s1"
      by (auto simp: bind_run_def gets_def service_def ret_def raise_def of_option_def split: sum.splits option.splits)
    with run Inr p show thesis by (intro that[OF w req v_def]) simp
  qed
qed

lemma get_world:
  assumes "world_exists w s" and "resolve_effective w s = Inr eff"
  shows "get_world_settings w s = (Inr (ok_response [(''settings'', JObj eff),
     (''version'', case override_version w s of None \<Rightarrow> JInt 0 | Some n \<Rightarrow> n)] 200), s)"
  using assms by (simp add: get_world_settings_def bind_run_def gets_def answer_def ret_def)

lemma effective_value:
  assumes "resolve_effective w s = Inr eff" and "resolve_global s = Inr g"
  shows "(k, o') \<in> set world_fields \<Longrightarrow> jget k eff = Some (case resolve_world w s of None \<Rightarrow> col k g
      | Some ws \<Rightarrow> if col o' ws = JNull then col k g else col o' ws)"
    and "k \<in> set effective_keys \<Longrightarrow> k \<notin> fst ` set world_fields \<Longrightarrow> jget k eff = Some (col k g)"
proof -
  have same: "overrides = world_fields" by (simp add: overrides_def world_fields_def)
  have "distinct (map fst world_fields)" by code_simp
  then have named: "(k, o') \<in> set world_fields \<Longrightarrow> map_of overrides k = Some o'" by (simp add: same)
  have keys: "(k, o') \<in> set world_fields \<Longrightarrow> k \<in> set effective_keys"
    by (auto simp: world_fields_def effective_keys_def)
  show "(k, o') \<in> set world_fields \<Longrightarrow> jget k eff = Some (case resolve_world w s of None \<Rightarrow> col k g
      | Some ws \<Rightarrow> if col o' ws = JNull then col k g else col o' ws)"
    using effective_settings_inherit[OF assms keys] named by (simp split: option.split)
  show "k \<in> set effective_keys \<Longrightarrow> k \<notin> fst ` set world_fields \<Longrightarrow> jget k eff = Some (col k g)"
    using effective_settings_inherit[OF assms] map_of_eq_None_iff[of world_fields k] by (simp add: same)
qed

lemma resolve_effective_ok: "resolve_global s = Inr g \<Longrightarrow> \<exists>eff. resolve_effective w s = Inr eff"
  by (auto simp: resolve_effective_def Let_def split: option.split)

text \<open>
  C29: A world's settings read back as they were written. When an edit is answered with success,
  the version it was sent with is the one a read showed before, a read now shows the next one, and
  each setting is the value of the request, the manager's where the request had null, and what a
  read showed before where the request did not name it.
\<close>
theorem settings_read_back:
  assumes "schema_ok s" and "resolve_global s = Inr g"
    and "update_world_settings c w s = (Inr rp, s')" and "rp_status rp = 200"
  shows "\<exists>b n old new. object_body (rq_json (wc_request c)) = Some b \<and> jget ''version'' b = Some (JInt n) \<and>
     get_world_settings w s = (Inr (ok_response [(''settings'', JObj old), (''version'', JInt n)] 200), s) \<and>
     get_world_settings w s' = (Inr (ok_response [(''settings'', JObj new), (''version'', JInt (n + 1))] 200), s') \<and>
     (\<forall>k\<in>set effective_keys. jget k new = (case jget k b of
        None \<Rightarrow> jget k old | Some v \<Rightarrow> Some (if v = JNull then col k g else v)))"
proof -
  obtain n fs r op v where ex: "world_exists w s" and req: "request_update world_fields True c = Some (n, fs)"
    and v: "v = \<lparr>vu_entity = CE_WORLD_SETTINGS, vu_row = w, vu_expected = n, vu_fields = fs,
       vu_actor_type = ACTOR_USER, vu_actor = Some (wc_user c)\<rparr>"
    and run: "update_versioned_with_operation (wc_ids c) (wc_now c) v s = (Inr (r, op), s')"
    by (rule world_edit_ok[OF assms(3,4)])
  from req obtain b where b: "object_body (rq_json (wc_request c)) = Some b" "jget ''version'' b = Some (JInt n)"
    and fs: "distinct (map fst fs)" "fst ` set fs \<subseteq> snd ` set world_fields"
    and named: "\<And>k o'. (k, o') \<in> set world_fields \<Longrightarrow> map_of fs o' = jget k b"
    and other: "\<And>k. k \<notin> fst ` set world_fields \<Longrightarrow> k \<noteq> ''version'' \<Longrightarrow> jget k b = None"
    by (rule request_columns) blast
  note edit = override_edit[OF run _ assms(1), unfolded v, simplified, OF fs]
  have g': "resolve_global s' = Inr g" using edit(4) assms(2) by simp
  obtain old new where eff: "resolve_effective w s = Inr old" "resolve_effective w s' = Inr new"
    using resolve_effective_ok[OF assms(2)] resolve_effective_ok[OF g'] by blast
  have ex': "world_exists w s'" using edit_frame[OF run] ex by (simp add: world_exists_def store_frame_def)
  have "jget k new = (case jget k b of None \<Rightarrow> jget k old | Some v \<Rightarrow> Some (if v = JNull then col k g else v))"
    if k: "k \<in> set effective_keys" for k
  proof (cases "k \<in> fst ` set world_fields")
    case True
    then obtain o' where o': "(k, o') \<in> set world_fields" by auto
    then have "o' \<in> snd ` set world_fields" by force
    from edit(5)[OF this] show ?thesis
      unfolding effective_value(1)[OF eff(1) assms(2) o'] effective_value(1)[OF eff(2) g' o'] edit(1) named[OF o']
      by (auto split: option.split)
  next
    case False
    moreover from k have "k \<noteq> ''version''" by (auto simp: effective_keys_def)
    ultimately show ?thesis using k other effective_value(2)[OF eff(1) assms(2)] effective_value(2)[OF eff(2) g'] by simp
  qed
  then show ?thesis
    using b get_world[OF ex eff(1)] get_world[OF ex' eff(2)] edit(1,2,3) by (auto simp: override_version_def)
qed

text \<open>World \<open>w1\<close> has a countdown of 30 s at version 1, the manager one of 60 s.\<close>

definition sample_settings :: config_sys where
  "sample_settings = sample_config\<lparr>cf_ops := cf_ops sample_catalog\<rparr>"

definition sample_patch :: web_ctx where
  "sample_patch = web_ctx.truncate (sample_call ''p'' 100 [(''version'', JInt 1),
     (''idle_countdown_seconds'', JNull), (''log_root_path'', JStr ''/logs'')])"

lemma settings_read_back_witness:
  "\<exists>new s'. snd (update_world_settings sample_patch ''w1'' sample_settings) = s' \<and>
     get_world_settings ''w1'' s' = (Inr (ok_response [(''settings'', JObj new), (''version'', JInt 2)] 200), s') \<and>
     jget ''idle_countdown_seconds'' new = Some (JInt 60) \<and> jget ''log_root_path'' new = Some (JStr ''/logs'')"
proof -
  have schema: "schema_ok sample_settings"
    using sample_schema by (simp add: schema_ok_def sample_settings_def)
  have g: "resolve_global sample_settings = Inr sample_globals" and idle: "col ''idle_countdown_seconds'' sample_globals = JInt 60"
    by code_simp+
  have "case update_world_settings sample_patch ''w1'' sample_settings of (Inr rp, s') \<Rightarrow> rp_status rp = 200 | _ \<Rightarrow> False"
    by code_simp
  then obtain rp s' where run: "update_world_settings sample_patch ''w1'' sample_settings = (Inr rp, s')" "rp_status rp = 200"
    by (auto split: prod.splits sum.splits)
  have body: "object_body (rq_json (wc_request sample_patch)) = Some [(''version'', JInt 1),
      (''idle_countdown_seconds'', JNull), (''log_root_path'', JStr ''/logs'')]"
    by code_simp
  have keys: "''idle_countdown_seconds'' \<in> set effective_keys" "''log_root_path'' \<in> set effective_keys"
    by (simp_all add: effective_keys_def)
  from settings_read_back[OF schema g run] keys show ?thesis
    by (auto simp: run(1) body jget_def idle)
qed

end
