(* ===== verification/Process_Adapter.thy ===== *)
theory Process_Adapter
  imports Worlds_Env Log_Tail
begin

text \<open>
  The process adapter of POSIX hosts (\<open>app/platform/process/base.py\<close>, \<open>posix.py\<close>).  The answers of
  \<open>psutil\<close>, of the process calls of \<open>os\<close> and \<open>subprocess\<close> and of the clock are functions of the
  number of the access: whatever the host does between two accesses is in the next answer.  The
  accesses that matter are logged, the newest first, so that the order of checks and signals can be
  stated.  Times are in milliseconds.
\<close>

section \<open>The host\<close>

datatype process_error =
    NoSuchProcess string | AccessDenied string | PsutilError string
  | ProcessLookup string | NotPermitted string | OsFault string
  | ValueFault string | NoEntry string

text \<open>An exception of a call, or a wait that needs more rounds than its bound.\<close>

datatype adapter_error = Fault process_error | StillWaiting

fun fault_text :: "process_error \<Rightarrow> string" where
  "fault_text (NoSuchProcess m) = m"
| "fault_text (AccessDenied m) = m"
| "fault_text (PsutilError m) = m"
| "fault_text (ProcessLookup m) = m"
| "fault_text (NotPermitted m) = m"
| "fault_text (OsFault m) = m"
| "fault_text (ValueFault m) = m"
| "fault_text (NoEntry m) = m"

fun psutil_fault :: "process_error \<Rightarrow> bool" where
  "psutil_fault (NoSuchProcess _) = True"
| "psutil_fault (AccessDenied _) = True"
| "psutil_fault (PsutilError _) = True"
| "psutil_fault _ = False"

fun os_fault :: "process_error \<Rightarrow> bool" where
  "os_fault (ProcessLookup _) = True"
| "os_fault (NotPermitted _) = True"
| "os_fault (OsFault _) = True"
| "os_fault _ = False"

text \<open>A \<open>psutil.Process\<close>: its identifier and the access that made it.\<close>

type_synonym process_object = "int \<times> nat"

record os_env =
  oe_process :: "nat \<Rightarrow> int \<Rightarrow> process_error + unit"
  oe_create_time :: "nat \<Rightarrow> process_object \<Rightarrow> process_error + int"
  oe_running :: "nat \<Rightarrow> process_object \<Rightarrow> process_error + bool"
  oe_status :: "nat \<Rightarrow> process_object \<Rightarrow> process_error + string"
  oe_cmdline :: "nat \<Rightarrow> process_object \<Rightarrow> process_error + string list"
  oe_getpgid :: "nat \<Rightarrow> int \<Rightarrow> process_error + int"
  oe_killpg :: "nat \<Rightarrow> int \<Rightarrow> ProcSignal \<Rightarrow> process_error + unit"
  oe_popen :: "nat \<Rightarrow> SpawnRequest \<Rightarrow> process_error + int"
  oe_poll :: "nat \<Rightarrow> int \<Rightarrow> process_error + int option"
  oe_stdin :: "nat \<Rightarrow> int \<Rightarrow> string \<Rightarrow> process_error + unit"
  oe_time :: "nat \<Rightarrow> int"
  oe_verbose :: bool

record PosixHandle = ProcessHandle +
  px_group :: "int option"

datatype access =
    BornAt int "int option" | Signalled PosixHandle int ProcSignal | Typed PosixHandle string | Asked

record RegistryEntry =
  re_handle :: PosixHandle
  re_process :: process_object
  re_args :: "string list"
  re_epoch :: int
  re_popen :: "int option"
  re_buffer :: LogRingBuffer
  re_readers :: "ProcessLineReader list"

record adapter_sys =
  as_tick :: nat
  as_slept :: int
  as_log :: "access list"
  as_registry :: "(string \<times> RegistryEntry) list"
  as_jobs :: "(string \<times> int) list"

type_synonym 'a adapter_run = "(adapter_sys, adapter_error, 'a) action"

text \<open>\<open>except .. as exc\<close> with the text of the exception.\<close>

definition caught_as :: "(process_error \<Rightarrow> bool) \<Rightarrow> (string \<Rightarrow> 'a) \<Rightarrow> adapter_error \<Rightarrow> 'a adapter_run" where
  "caught_as p f e = (case e of Fault x \<Rightarrow> if p x then ret (f (fault_text x)) else raise e | StillWaiting \<Rightarrow> raise e)"

definition ask_os :: "(nat \<Rightarrow> process_error + 'a) \<Rightarrow> (process_error + 'a \<Rightarrow> access) \<Rightarrow> 'a adapter_run" where
  "ask_os f ev s = (let r = f (as_tick s) in (map_sum Fault id r, s\<lparr>as_tick := Suc (as_tick s), as_log := ev r # as_log s\<rparr>))"

definition open_process :: "os_env \<Rightarrow> int \<Rightarrow> process_object adapter_run" where
  "open_process E pid = ask_os (\<lambda>n. map_sum id (\<lambda>_. (pid, n)) (oe_process E n pid)) (\<lambda>_. Asked)"

definition create_time :: "os_env \<Rightarrow> process_object \<Rightarrow> int adapter_run" where
  "create_time E p = ask_os (\<lambda>n. oe_create_time E n p) (\<lambda>r. BornAt (fst p) (case r of Inr t \<Rightarrow> Some t | Inl _ \<Rightarrow> None))"

definition is_running :: "os_env \<Rightarrow> process_object \<Rightarrow> bool adapter_run" where
  "is_running E p = ask_os (\<lambda>n. oe_running E n p) (\<lambda>_. Asked)"

text \<open>The clock of the host and \<open>sleep(0.2)\<close>; what else passes between accesses is in \<open>oe_time\<close>.\<close>

definition time_now :: "os_env \<Rightarrow> int adapter_run" where
  "time_now E s = ask_os (\<lambda>n. Inr (oe_time E n + as_slept s)) (\<lambda>_. Asked) s"

definition sleep_round :: "unit adapter_run" where
  "sleep_round = change (\<lambda>s. s\<lparr>as_slept := as_slept s + 200\<rparr>)"

section \<open>The registry\<close>

definition registry_get :: "string \<Rightarrow> adapter_sys \<Rightarrow> RegistryEntry option" where
  "registry_get w s = map_of (as_registry s) w"

definition register :: "RegistryEntry \<Rightarrow> adapter_sys \<Rightarrow> adapter_sys" where
  "register e s = s\<lparr>as_registry := dict_set (ph_world (re_handle e)) e (as_registry s)\<rparr>"

definition registry_remove :: "string \<Rightarrow> adapter_sys \<Rightarrow> adapter_sys" where
  "registry_remove w s = s\<lparr>as_registry := filter (\<lambda>(k, e). k \<noteq> w) (as_registry s)\<rparr>"

definition snapshot_for_probe :: "adapter_sys \<Rightarrow> (string \<times> int \<times> int \<times> string) list" where
  "snapshot_for_probe s = map (\<lambda>(k, e). (ph_world (re_handle e), ph_pid (re_handle e), ph_epoch (re_handle e),
     case re_args e of [] \<Rightarrow> [] | a # _ \<Rightarrow> a)) (as_registry s)"

section \<open>Identity\<close>

definition identity_tolerance :: int where
  "identity_tolerance = 1000"

definition identity_matches :: "os_env \<Rightarrow> int \<Rightarrow> int \<Rightarrow> bool adapter_run" where
  "identity_matches E pid epoch =
     try_run
       (bind_run (open_process E pid) (\<lambda>p.
        bind_run (create_time E p) (\<lambda>t. ret (\<bar>t - epoch\<bar> < identity_tolerance))))
       (\<lambda>e. case e of Fault (NoSuchProcess _) \<Rightarrow> ret False | Fault (AccessDenied _) \<Rightarrow> ret False | Fault (ValueFault _) \<Rightarrow> ret False
          | _ \<Rightarrow> raise e)"

abbreviation handle_matches :: "os_env \<Rightarrow> PosixHandle \<Rightarrow> bool adapter_run" where
  "handle_matches E h \<equiv> identity_matches E (ph_pid h) (ph_epoch h)"

definition or_missing :: "'a \<Rightarrow> adapter_error \<Rightarrow> 'a adapter_run" where
  "or_missing x e = (case e of Fault (NoSuchProcess _) \<Rightarrow> ret x | _ \<Rightarrow> raise e)"

definition resolve_process :: "os_env \<Rightarrow> PosixHandle \<Rightarrow> process_object option adapter_run" where
  "resolve_process E h =
     bind_run (handle_matches E h) (\<lambda>ok.
       if \<not> ok then ret None
       else try_run (bind_run (open_process E (ph_pid h)) (\<lambda>p. ret (Some p))) (or_missing None))"

section \<open>Spawn\<close>

record PosixSpawn =
  sw_handle :: "PosixHandle option"
  sw_started :: int
  sw_error :: "string option"

definition default_line_bytes :: nat where
  "default_line_bytes = 64 * 1024"

text \<open>One reader per channel; both write to the session file, when there is one.\<close>

definition start_readers :: "os_env \<Rightarrow> SpawnRequest \<Rightarrow> RegistryEntry \<Rightarrow> RegistryEntry" where
  "start_readers E rq e =
     (let session = (if sp_session rq = [] then sp_world rq else sp_session rq);
          durable = session_log_for (Some (sp_log_dir rq)) session;
          reader = (\<lambda>ch. \<lparr>lr_world = ph_world (re_handle e), lr_session = sp_session rq, lr_channel = ch,
             lr_max_bytes = default_line_bytes, lr_verbose = oe_verbose E, lr_durable = durable\<rparr>) in
      e\<lparr>re_buffer := snd (ring_channel ''stderr'' (snd (ring_channel ''stdout'' (re_buffer e)))),
        re_readers := re_readers e @ [reader ''stdout'', reader ''stderr'']\<rparr>)"

definition new_buffer :: LogRingBuffer where
  "new_buffer = \<lparr>lr_maxlen = LOG_LINE_BUFFER_LINES, lr_channels = []\<rparr>"

definition spawn :: "os_env \<Rightarrow> SpawnRequest \<Rightarrow> PosixSpawn adapter_run" where
  "spawn E rq =
     bind_run (try_run (bind_run (ask_os (\<lambda>n. oe_popen E n rq) (\<lambda>_. Asked)) (\<lambda>pid. ret (Inr pid)))
       (caught_as os_fault Inl)) (\<lambda>r.
       case r of
         Inl m \<Rightarrow> bind_run (time_now E) (\<lambda>t. ret \<lparr>sw_handle = None, sw_started = t, sw_error = Some m\<rparr>)
       | Inr pid \<Rightarrow>
           bind_run (open_process E pid) (\<lambda>p.
           bind_run (create_time E p) (\<lambda>t.
           bind_run (ask_os (\<lambda>n. oe_getpgid E n pid) (\<lambda>_. Asked)) (\<lambda>g.
             let h = \<lparr>ph_world = sp_world rq, ph_pid = pid, ph_epoch = t, px_group = Some g\<rparr>;
                 e = \<lparr>re_handle = h, re_process = p, re_args = sp_command rq, re_epoch = t, re_popen = Some pid,
                      re_buffer = new_buffer, re_readers = []\<rparr> in
             then_run (change (register (start_readers E rq e)))
               (ret \<lparr>sw_handle = Some h, sw_started = t, sw_error = None\<rparr>)))))"

section \<open>Exit codes\<close>

definition registry_exit_code :: "os_env \<Rightarrow> string \<Rightarrow> int option adapter_run" where
  "registry_exit_code E w =
     bind_run (gets (registry_get w)) (\<lambda>e.
       case Option.bind e re_popen of
         None \<Rightarrow> ret None
       | Some pid \<Rightarrow> try_run (ask_os (\<lambda>n. oe_poll E n pid) (\<lambda>_. Asked))
           (\<lambda>f. case f of Fault (ValueFault _) \<Rightarrow> ret None | _ \<Rightarrow> raise f))"

text \<open>A \<open>psutil.Process\<close> has no return code of its own.\<close>

definition poll_exit_code :: "os_env \<Rightarrow> string \<Rightarrow> int option adapter_run" where
  "poll_exit_code E w = registry_exit_code E w"

section \<open>Signals and input\<close>

record SendResult =
  sd_delivered :: bool
  sd_error :: "string option"

definition not_sent :: "string \<Rightarrow> SendResult" where
  "not_sent m = \<lparr>sd_delivered = False, sd_error = Some m\<rparr>"

definition group_of :: "os_env \<Rightarrow> PosixHandle \<Rightarrow> process_object \<Rightarrow> int adapter_run" where
  "group_of E h p = (case px_group h of Some g \<Rightarrow> ret g | None \<Rightarrow> ask_os (\<lambda>n. oe_getpgid E n (fst p)) (\<lambda>_. Asked))"

definition killpg :: "os_env \<Rightarrow> PosixHandle \<Rightarrow> process_object \<Rightarrow> ProcSignal \<Rightarrow> unit adapter_run" where
  "killpg E h p sig =
     bind_run (group_of E h p) (\<lambda>g. ask_os (\<lambda>n. oe_killpg E n g sig) (\<lambda>_. Signalled h g sig))"

definition signal_tree :: "os_env \<Rightarrow> process_object \<Rightarrow> PosixHandle \<Rightarrow> ProcSignal \<Rightarrow> SendResult adapter_run" where
  "signal_tree E p h sig =
     (if sig = SIG_KILL then ret (not_sent ''use_terminate_for_kill'')
      else then_run (killpg E h p SIG_TERMINATE) (ret \<lparr>sd_delivered = True, sd_error = None\<rparr>))"

definition kill_tree :: "os_env \<Rightarrow> process_object \<Rightarrow> PosixHandle \<Rightarrow> unit adapter_run" where
  "kill_tree E p h = killpg E h p SIG_KILL"

definition send_signal :: "os_env \<Rightarrow> PosixHandle \<Rightarrow> ProcSignal \<Rightarrow> SendResult adapter_run" where
  "send_signal E h sig =
     bind_run (resolve_process E h) (\<lambda>p.
       case p of
         None \<Rightarrow> ret (not_sent ''process_missing'')
       | Some p \<Rightarrow>
           bind_run (handle_matches E h) (\<lambda>ok.
             if \<not> ok then ret (not_sent ''process_missing'')
             else try_run (signal_tree E p h sig)
               (caught_as (\<lambda>e. psutil_fault e \<or> os_fault e) not_sent)))"

fun value_fault :: "process_error \<Rightarrow> bool" where
  "value_fault (ValueFault _) = True"
| "value_fault _ = False"

definition write_stdin :: "os_env \<Rightarrow> PosixHandle \<Rightarrow> string \<Rightarrow> SendResult adapter_run" where
  "write_stdin E h text =
     bind_run (resolve_process E h) (\<lambda>p.
       case p of
         None \<Rightarrow> ret (not_sent ''process_missing'')
       | Some _ \<Rightarrow>
           bind_run (gets (registry_get (ph_world h))) (\<lambda>e.
             case Option.bind e re_popen of
               None \<Rightarrow> ret (not_sent ''stdin_unavailable'')
             | Some pid \<Rightarrow>
                 try_run
                   (then_run (ask_os (\<lambda>n. oe_stdin E n pid (text @ [CHR 0x0A])) (\<lambda>_. Typed h text))
                     (ret \<lparr>sd_delivered = True, sd_error = None\<rparr>))
                   (caught_as (\<lambda>f. os_fault f \<or> value_fault f) not_sent)))"

section \<open>Termination\<close>

definition process_exited :: "os_env \<Rightarrow> process_object \<Rightarrow> bool adapter_run" where
  "process_exited E p =
     try_run
       (bind_run (ask_os (\<lambda>n. oe_status E n p) (\<lambda>_. Asked)) (\<lambda>st.
          if st = ''zombie'' then ret True else bind_run (is_running E p) (\<lambda>r. ret (\<not> r))))
       (\<lambda>e. case e of Fault (NoSuchProcess _) \<Rightarrow> ret True | Fault (AccessDenied _) \<Rightarrow> ret False | _ \<Rightarrow> raise e)"

text \<open>\<open>while time.time() < deadline\<close>: whether the process was seen to end.  The first argument bounds
  the rounds; \<open>StillWaiting\<close> is a wait that needs more of them.\<close>

fun exit_wait :: "nat \<Rightarrow> os_env \<Rightarrow> process_object \<Rightarrow> int \<Rightarrow> bool adapter_run" where
  "exit_wait 0 E p deadline = raise StillWaiting"
| "exit_wait (Suc k) E p deadline =
     bind_run (time_now E) (\<lambda>t.
       if \<not> t < deadline then ret False
       else bind_run (process_exited E p) (\<lambda>x.
         if x then ret True else then_run sleep_round (exit_wait k E p deadline)))"

text \<open>A wait of so many milliseconds takes at most this many rounds.\<close>

definition wait_rounds :: "int \<Rightarrow> nat" where
  "wait_rounds ms = nat (ms div 200) + 2"

definition await_exit :: "os_env \<Rightarrow> process_object \<Rightarrow> int \<Rightarrow> bool adapter_run" where
  "await_exit E p ms = bind_run (time_now E) (\<lambda>t. exit_wait (wait_rounds ms) E p (t + ms))"

record Termination = TerminateResult +
  tm_code :: "int option"
  tm_error :: "string option"

definition process_missing :: Termination where
  "process_missing = \<lparr>tr_resolved = False, tr_exit = EC_RECONCILED_MISSING, tm_code = None,
     tm_error = Some ''process_missing''\<rparr>"

definition kill_settle :: int where
  "kill_settle = 10000"

definition kill_and_classify :: "os_env \<Rightarrow> PosixHandle \<Rightarrow> process_object \<Rightarrow> Termination adapter_run" where
  "kill_and_classify E h p =
     bind_run (handle_matches E h) (\<lambda>ok.
       if \<not> ok then ret process_missing
       else
         bind_run (try_run (then_run (kill_tree E p h) (ret None))
           (caught_as (\<lambda>e. psutil_fault e \<or> os_fault e) Some)) (\<lambda>failed.
         case failed of
           Some m \<Rightarrow> ret \<lparr>tr_resolved = False, tr_exit = EC_FORCED, tm_code = None, tm_error = Some m\<rparr>
         | None \<Rightarrow>
             bind_run (await_exit E p kill_settle) (\<lambda>x.
               if x then bind_run (poll_exit_code E (ph_world h)) (\<lambda>code.
                 ret \<lparr>tr_resolved = True, tr_exit = EC_FORCED, tm_code = code, tm_error = None\<rparr>)
               else ret \<lparr>tr_resolved = False, tr_exit = EC_FORCED, tm_code = None,
                 tm_error = Some ''kill_settle_timeout''\<rparr>)))"

definition terminate :: "os_env \<Rightarrow> PosixHandle \<Rightarrow> int \<Rightarrow> Termination adapter_run" where
  "terminate E h seconds =
     bind_run (resolve_process E h) (\<lambda>p.
       case p of
         None \<Rightarrow> ret process_missing
       | Some p \<Rightarrow>
           if seconds \<le> 0 then kill_and_classify E h p
           else bind_run (handle_matches E h) (\<lambda>ok.
             if \<not> ok then ret process_missing
             else bind_run (signal_tree E p h SIG_TERMINATE) (\<lambda>sent.
               if \<not> sd_delivered sent then kill_and_classify E h p
               else bind_run (await_exit E p (seconds * 1000)) (\<lambda>x.
                 if x then bind_run (poll_exit_code E (ph_world h)) (\<lambda>code.
                   ret \<lparr>tr_resolved = True, tr_exit = EC_GRACEFUL, tm_code = code, tm_error = None\<rparr>)
                 else kill_and_classify E h p))))"

section \<open>Polling\<close>

record AdapterStatus = ProcessStatus +
  pa_code :: "int option"
  pa_time :: "int option"

definition classify_exit :: "int option \<Rightarrow> ExitClass" where
  "classify_exit code = (if code = Some 0 \<or> code = Some 1 then EC_GRACEFUL else EC_CRASHED)"

definition exited_status :: "os_env \<Rightarrow> int option \<Rightarrow> AdapterStatus adapter_run" where
  "exited_status E code = bind_run (time_now E) (\<lambda>t.
     ret \<lparr>ps_state = PS_EXITED, ps_exit = classify_exit code, pa_code = code, pa_time = Some t\<rparr>)"

definition poll :: "os_env \<Rightarrow> PosixHandle \<Rightarrow> AdapterStatus adapter_run" where
  "poll E h =
     (let vanished = bind_run (registry_exit_code E (ph_world h)) (exited_status E) in
      bind_run (try_run (bind_run (open_process E (ph_pid h)) (\<lambda>p. ret (Some p))) (or_missing None)) (\<lambda>p.
        case p of
          None \<Rightarrow> vanished
        | Some p \<Rightarrow>
            bind_run (handle_matches E h) (\<lambda>ok.
              if \<not> ok then ret \<lparr>ps_state = PS_MISSING, ps_exit = EC_RECONCILED_MISSING, pa_code = None, pa_time = None\<rparr>
              else bind_run (try_run (bind_run (is_running E p) (\<lambda>r. ret (Some r))) (or_missing None)) (\<lambda>r.
                if r = Some True then ret \<lparr>ps_state = PS_RUNNING, ps_exit = EC_RUNNING, pa_code = None, pa_time = None\<rparr>
                else vanished))))"

definition close_handle :: "PosixHandle \<Rightarrow> unit adapter_run" where
  "close_handle h = change (registry_remove (ph_world h))"

section \<open>Probing\<close>

record PosixProbe =
  pb_found :: bool
  pb_handle :: "PosixHandle option"
  pb_matched :: bool

definition not_found :: PosixProbe where
  "not_found = \<lparr>pb_found = False, pb_handle = None, pb_matched = False\<rparr>"

definition found_handle :: "PosixHandle \<Rightarrow> PosixProbe" where
  "found_handle h = \<lparr>pb_found = True, pb_handle = Some h, pb_matched = True\<rparr>"

text \<open>\<open>psutil.Process(pid)\<close> that is running, where a process that is gone counts as none.\<close>

definition running_process :: "os_env \<Rightarrow> int \<Rightarrow> process_object option adapter_run" where
  "running_process E pid =
     try_run (bind_run (open_process E pid) (\<lambda>p. bind_run (is_running E p) (\<lambda>r. ret (if r then Some p else None))))
       (or_missing None)"

definition marker_fits :: "os_env \<Rightarrow> string option \<Rightarrow> process_object \<Rightarrow> bool adapter_run" where
  "marker_fits E marker p =
     (case marker of
        None \<Rightarrow> ret True
      | Some m \<Rightarrow>
          if m = [] then ret True
          else bind_run (try_run (ask_os (\<lambda>n. oe_cmdline E n p) (\<lambda>_. Asked))
              (\<lambda>e. case e of Fault (NoSuchProcess _) \<Rightarrow> ret [] | Fault (AccessDenied _) \<Rightarrow> ret [] | _ \<Rightarrow> raise e)) (\<lambda>argv.
            ret (list_ex (contains_str m) argv)))"

definition probe_fingerprint :: "os_env \<Rightarrow> string \<Rightarrow> ProbeFingerprint \<Rightarrow> PosixProbe adapter_run" where
  "probe_fingerprint E w fp =
     (case (fp_pid fp, fp_epoch fp) of
        (Some pid, Some epoch) \<Rightarrow>
          bind_run (identity_matches E pid epoch) (\<lambda>ok.
            if \<not> ok then ret not_found
            else bind_run (running_process E pid) (\<lambda>p.
              case p of
                None \<Rightarrow> ret not_found
              | Some p \<Rightarrow>
                  bind_run (marker_fits E (fp_marker fp) p) (\<lambda>fits.
                    if \<not> fits then ret not_found
                    else bind_run (try_run (ask_os (\<lambda>n. oe_getpgid E n pid) (\<lambda>_. Asked))
                        (\<lambda>e. case e of Fault (ProcessLookup _) \<Rightarrow> ret pid | Fault (NotPermitted _) \<Rightarrow> ret pid | _ \<Rightarrow> raise e)) (\<lambda>g.
                      let h = \<lparr>ph_world = w, ph_pid = pid, ph_epoch = epoch, px_group = Some g\<rparr>;
                          e = \<lparr>re_handle = h, re_process = p,
                               re_args = [case fp_marker fp of None \<Rightarrow> [] | Some m \<Rightarrow> m], re_epoch = epoch,
                               re_popen = None, re_buffer = new_buffer, re_readers = []\<rparr> in
                      then_run (change (\<lambda>s. (register e s)\<lparr>as_jobs := dict_set w g (as_jobs s)\<rparr>))
                        (ret (found_handle h))))))
      | _ \<Rightarrow> ret not_found)"

definition probe :: "os_env \<Rightarrow> string \<Rightarrow> ProbeFingerprint option \<Rightarrow> PosixProbe adapter_run" where
  "probe E w fp =
     bind_run (case fp of None \<Rightarrow> ret not_found | Some f \<Rightarrow> probe_fingerprint E w f) (\<lambda>r.
       if pb_found r then ret r
       else bind_run (gets (registry_get w)) (\<lambda>e.
         case e of
           None \<Rightarrow> ret not_found
         | Some e \<Rightarrow>
             bind_run (handle_matches E (re_handle e)) (\<lambda>ok.
               if \<not> ok then ret not_found
               else bind_run (running_process E (ph_pid (re_handle e))) (\<lambda>p.
                 ret (case p of None \<Rightarrow> not_found | Some _ \<Rightarrow> found_handle (re_handle e))))))"

section \<open>Tails\<close>

definition entry_channels :: "RegistryEntry \<Rightarrow> (string \<times> RingBuffer) list" where
  "entry_channels e = lr_channels (re_buffer e)"

definition tail_replay :: "PosixHandle \<Rightarrow> nat \<Rightarrow> adapter_sys \<Rightarrow> (string \<times> nat \<times> string) list" where
  "tail_replay h since s =
     (case registry_get (ph_world h) s of
        None \<Rightarrow> []
      | Some e \<Rightarrow> concat (map (\<lambda>(ch, rb). map (\<lambda>(n, l). (ch, n, l)) (ring_tail since rb)) (entry_channels e)))"

text \<open>What a new tail gives its sink at once, and the subscriptions it leaves in the rings.\<close>

definition replayed_lines :: "nat \<Rightarrow> RegistryEntry \<Rightarrow> (string \<times> string) list" where
  "replayed_lines since e = concat (map (\<lambda>(ch, rb). map (\<lambda>(n, l). (ch, l)) (ring_tail since rb) @
     (if since \<noteq> 0 \<and> ring_trimmed since rb then [(''__meta'', ''buffer_trimmed'')] else [])) (entry_channels e))"

definition tail_open :: "PosixHandle \<Rightarrow> nat \<Rightarrow> ((string \<times> string) list \<times> (string \<times> nat) list) adapter_run" where
  "tail_open h since =
     bind_run (gets (registry_get (ph_world h))) (\<lambda>e.
       case e of
         None \<Rightarrow> raise (Fault (NoEntry (''no registry entry for '' @ ph_world h)))
       | Some e \<Rightarrow>
           (let chans = map (\<lambda>(ch, rb). (ch, ring_subscribe rb)) (entry_channels e);
                e' = e\<lparr>re_buffer := (re_buffer e)\<lparr>lr_channels := map (\<lambda>(ch, i, rb). (ch, rb)) chans\<rparr>\<rparr> in
            then_run (change (\<lambda>s. s\<lparr>as_registry := dict_set (ph_world h) e' (as_registry s)\<rparr>))
              (ret (replayed_lines since e, map (\<lambda>(ch, i, rb). (ch, i)) chans))))"

text \<open>\<open>close\<close> of a tail, on the entry it was opened on.\<close>

definition tail_close :: "(string \<times> nat) list \<Rightarrow> RegistryEntry \<Rightarrow> RegistryEntry" where
  "tail_close subs e = e\<lparr>re_buffer := (re_buffer e)\<lparr>lr_channels :=
     map (\<lambda>(ch, rb). (ch, case map_of subs ch of None \<Rightarrow> rb | Some i \<Rightarrow> ring_unsubscribe i rb)) (lr_channels (re_buffer e))\<rparr>\<rparr>"

end
