(* ===== verification/Process_Adapter_Props.thy ===== *)
theory Process_Adapter_Props
  imports Process_Adapter
begin

text \<open>What the adapter promises the driver: a signal or a line of input goes out only right after
  the process was seen to be the one of the handle, and a termination climbs its ladder in bounded
  time.\<close>

section \<open>Orders\<close>

text \<open>Accesses that send nothing and take no sleep.\<close>

fun signals :: "access list \<Rightarrow> ProcSignal list" where
  "signals [] = []"
| "signals (Signalled h g sig # l) = signals l @ [sig]"
| "signals (_ # l) = signals l"

lemma signals_append [simp]: "signals (k @ l) = signals l @ signals k"
  by (induction k rule: signals.induct) simp_all

definition mute :: "adapter_sys \<Rightarrow> adapter_sys \<Rightarrow> bool" where
  "mute s t \<longleftrightarrow> (\<exists>l. as_log t = l @ as_log s \<and> signals l = [])"

definition prompt :: "adapter_sys \<Rightarrow> adapter_sys \<Rightarrow> bool" where
  "prompt s t \<longleftrightarrow> as_tick s \<le> as_tick t \<and> as_slept t = as_slept s"

text \<open>The check of a handle is the last thing before, but for one question to the host.\<close>

fun vouched :: "PosixHandle \<Rightarrow> access list \<Rightarrow> bool" where
  "vouched h (BornAt p (Some c) # l) = (p = ph_pid h \<and> \<bar>c - ph_epoch h\<bar> < identity_tolerance)"
| "vouched h (Asked # BornAt p (Some c) # l) = (p = ph_pid h \<and> \<bar>c - ph_epoch h\<bar> < identity_tolerance)"
| "vouched h _ = False"

fun guarded :: "access list \<Rightarrow> bool" where
  "guarded [] = True"
| "guarded (Signalled h g sig # l) = (vouched h l \<and> (\<forall>g'. px_group h = Some g' \<longrightarrow> g = g') \<and> guarded l)"
| "guarded (Typed h t # l) = (vouched h l \<and> guarded l)"
| "guarded (_ # l) = guarded l"

definition heeds :: "adapter_sys \<Rightarrow> adapter_sys \<Rightarrow> bool" where
  "heeds s t \<longleftrightarrow> (guarded (as_log s) \<longrightarrow> guarded (as_log t))"

interpretation mute: state_order mute
  by unfold_locales (auto simp: mute_def)

interpretation prompt: state_order prompt
  by unfold_locales (auto simp: prompt_def)

interpretation heed: state_order heeds
  by unfold_locales (auto simp: heeds_def)

section \<open>Questions\<close>

lemma ask_iff: "ask_os f ev s = (r, s') \<longleftrightarrow>
    r = map_sum Fault id (f (as_tick s)) \<and> s' = s\<lparr>as_tick := Suc (as_tick s), as_log := ev (f (as_tick s)) # as_log s\<rparr>"
  by (auto simp: ask_os_def Let_def)

lemma asked [stay_rules]:
  "mute.stays (ask_os f (\<lambda>_. Asked))" "prompt.stays (ask_os f ev)" "heed.stays (ask_os f (\<lambda>_. Asked))"
  by (auto intro!: mute.staysI prompt.staysI heed.staysI simp: ask_iff mute_def prompt_def heeds_def)

lemma created [stay_rules]:
  "mute.stays (ask_os f (\<lambda>r. BornAt p (g r)))" "heed.stays (ask_os f (\<lambda>r. BornAt p (g r)))"
  by (auto intro!: mute.staysI heed.staysI simp: ask_iff mute_def heeds_def)

lemma clock [stay_rules]: "mute.stays (time_now E)" "prompt.stays (time_now E)" "heed.stays (time_now E)"
  by (auto intro!: mute.staysI prompt.staysI heed.staysI simp: time_now_def ask_iff mute_def prompt_def heeds_def)

lemma sleeps [stay_rules]: "mute.stays sleep_round" "heed.stays sleep_round"
  by (auto intro!: mute.stays_change heed.stays_change simp: sleep_round_def mute_def heeds_def)

lemma changed [stay_rules]:
  "mute.stays (change (register e))" "mute.stays (change (registry_remove w))"
  "heed.stays (change (register e))" "heed.stays (change (registry_remove w))"
  "heed.stays (change (\<lambda>s. (register e s)\<lparr>as_jobs := f s\<rparr>))" "heed.stays (change (\<lambda>s. s\<lparr>as_registry := f' s\<rparr>))"
  by (auto intro!: mute.stays_change heed.stays_change simp: register_def registry_remove_def mute_def heeds_def)

lemma caught [stay_rules]:
  "mute.stays (caught_as p f e)" "prompt.stays (caught_as p f e)" "heed.stays (caught_as p f e)"
  by (auto simp: caught_as_def intro!: stay_rules split: adapter_error.split)

lemma missing [stay_rules]:
  "mute.stays (or_missing x e)" "prompt.stays (or_missing x e)" "heed.stays (or_missing x e)"
  by (auto simp: or_missing_def intro!: stay_rules split: adapter_error.split process_error.split)

lemmas question_defs = open_process_def create_time_def is_running_def

lemma questions [stay_rules]:
  "mute.stays (open_process E i)" "prompt.stays (open_process E i)" "heed.stays (open_process E i)"
  "mute.stays (create_time E p)" "prompt.stays (create_time E p)" "heed.stays (create_time E p)"
  "mute.stays (is_running E p)" "prompt.stays (is_running E p)" "heed.stays (is_running E p)"
  unfolding question_defs by (intro stay_rules)+

lemma checks [stay_rules]:
  "mute.stays (identity_matches E i e)" "prompt.stays (identity_matches E i e)" "heed.stays (identity_matches E i e)"
  unfolding identity_matches_def by (auto intro!: stay_rules split: adapter_error.split process_error.split)

lemma resolves [stay_rules]:
  "mute.stays (resolve_process E h)" "prompt.stays (resolve_process E h)" "heed.stays (resolve_process E h)"
  unfolding resolve_process_def by (auto intro!: stay_rules)

lemma exits [stay_rules]:
  "mute.stays (process_exited E p)" "prompt.stays (process_exited E p)" "heed.stays (process_exited E p)"
  unfolding process_exited_def by (auto intro!: stay_rules split: adapter_error.split process_error.split)

lemma codes [stay_rules]: "mute.stays (poll_exit_code E w)" "prompt.stays (poll_exit_code E w)" "heed.stays (poll_exit_code E w)"
  unfolding poll_exit_code_def registry_exit_code_def
  by (auto intro!: stay_rules split: adapter_error.split process_error.split)

lemma waits [stay_rules]: "mute.stays (exit_wait k E p d)" "heed.stays (exit_wait k E p d)"
  by (induction k) (auto intro!: stay_rules)

lemma bounded_waits [stay_rules]: "mute.stays (await_exit E p ms)" "heed.stays (await_exit E p ms)"
  unfolding await_exit_def by (auto intro!: stay_rules)

section \<open>Signals follow the check\<close>

definition just_vouched :: "PosixHandle \<Rightarrow> adapter_sys \<Rightarrow> bool" where
  "just_vouched h s \<longleftrightarrow> (\<exists>c l. as_log s = BornAt (ph_pid h) (Some c) # l \<and> \<bar>c - ph_epoch h\<bar> < identity_tolerance)"

lemma matched_log:
  assumes "identity_matches E i e s = (Inr True, s')"
  shows "\<exists>c. as_log s' = BornAt i (Some c) # Asked # as_log s \<and> \<bar>c - e\<bar> < identity_tolerance"
proof (cases "oe_process E (as_tick s) i")
  case (Inl x)
  with assms show ?thesis
    by (cases x) (auto simp: identity_matches_def try_run_def bind_run_def open_process_def ask_os_def Let_def ret_def raise_def)
next
  case (Inr u)
  note seen = this
  show ?thesis
  proof (cases "oe_create_time E (Suc (as_tick s)) (i, as_tick s)")
    case (Inl x)
    with assms seen show ?thesis
      by (cases x) (auto simp: identity_matches_def try_run_def bind_run_def open_process_def create_time_def ask_os_def
          Let_def ret_def raise_def)
  next
    case (Inr c)
    with assms seen show ?thesis
      by (auto simp: identity_matches_def try_run_def bind_run_def open_process_def create_time_def ask_os_def Let_def ret_def)
  qed
qed

lemma matched_fresh: "handle_matches E h s = (Inr True, s') \<Longrightarrow> just_vouched h s'"
  by (auto simp: just_vouched_def dest!: matched_log)

lemma killpg_heeds: "just_vouched h s \<Longrightarrow> heeds s (snd (killpg E h p sig s))"
  by (auto simp: killpg_def group_of_def heeds_def just_vouched_def bind_run_def ret_def ask_os_def Let_def map_sum_def
      split: option.splits sum.splits)

lemma heeds_bind: "heeds s (snd (m s)) \<Longrightarrow> (\<And>x. heed.stays (f x)) \<Longrightarrow> heeds s (snd (bind_run m f s))"
  by (cases "m s") (auto simp: bind_run_def heed.stays_def split: sum.split intro: heed.rel_trans)

lemma heeds_try: "heeds s (snd (m s)) \<Longrightarrow> (\<And>e. heed.stays (f e)) \<Longrightarrow> heeds s (snd (try_run m f s))"
  by (cases "m s") (auto simp: try_run_def heed.stays_def split: sum.split intro: heed.rel_trans)

lemma heed_matched:
  assumes "\<And>t. just_vouched h t \<Longrightarrow> heeds t (snd (k t))" and "heed.stays n"
  shows "heed.stays (bind_run (handle_matches E h) (\<lambda>ok. if \<not> ok then n else k))"
proof (rule heed.staysI)
  fix s r s'
  assume "bind_run (handle_matches E h) (\<lambda>ok. if \<not> ok then n else k) s = (r, s')"
  then show "heeds s s'"
  proof (cases rule: bind_run_cases)
    case (raised e)
    then show ?thesis using heed.staysD checks(3) by blast
  next
    case (went ok s1)
    have "heeds s s1" using heed.staysD[OF checks(3) went(1)] .
    moreover have "heeds s1 s'"
    proof (cases ok)
      case True
      with went assms(1)[OF matched_fresh] show ?thesis by (metis snd_conv)
    next
      case False
      with went heed.staysD[OF assms(2)] show ?thesis by simp
    qed
    ultimately show ?thesis by (rule heed.rel_trans)
  qed
qed

lemma signal_heeds: "just_vouched h s \<Longrightarrow> heeds s (snd (signal_tree E p h sig s))"
  unfolding signal_tree_def
  by (auto intro!: heeds_bind killpg_heeds stay_rules simp: ret_def heed.rel_refl)

lemma kill_heeds: "just_vouched h s \<Longrightarrow> heeds s (snd (then_run (kill_tree E p h) (ret x) s))"
  unfolding kill_tree_def by (intro heeds_bind killpg_heeds stay_rules)

lemma kill_and_classify_heeds [stay_rules]: "heed.stays (kill_and_classify E h p)"
  unfolding kill_and_classify_def
  by (intro heed_matched heeds_bind heeds_try kill_heeds) (auto intro!: stay_rules)

lemma terminate_heeds: "heed.stays (terminate E h seconds)"
  unfolding terminate_def
proof (intro heed.stays_bind[OF resolves(3)] heed.stays_option heed.stays_if kill_and_classify_heeds heed.stays_ret
    heed_matched heeds_bind)
  show "just_vouched h t \<Longrightarrow> heeds t (snd (signal_tree E p h SIG_TERMINATE t))" for p t by (rule signal_heeds)
qed (auto intro!: stay_rules)

lemma send_signal_heeds: "heed.stays (send_signal E h sig)"
  unfolding send_signal_def
proof (intro heed.stays_bind[OF resolves(3)] heed.stays_option heed.stays_ret heed_matched heeds_try)
  show "just_vouched h t \<Longrightarrow> heeds t (snd (signal_tree E p h sig t))" for p t by (rule signal_heeds)
qed (auto intro!: stay_rules)

lemma resolve_vouched:
  assumes "resolve_process E h s = (Inr (Some p), s')"
  shows "vouched h (as_log s')"
  using assms unfolding resolve_process_def
proof (cases rule: bind_run_cases)
  case (went ok s1)
  then have ok: ok by (cases ok) (auto simp: ret_def)
  have "as_log s' = Asked # as_log s1"
  proof (cases "oe_process E (as_tick s1) (ph_pid h)")
    case (Inl x)
    with went(2) ok show ?thesis
      by (cases x) (auto simp: try_run_def bind_run_def open_process_def ask_os_def Let_def or_missing_def ret_def raise_def)
  next
    case (Inr u)
    with went(2) ok show ?thesis by (auto simp: try_run_def bind_run_def open_process_def ask_os_def Let_def ret_def)
  qed
  moreover have "handle_matches E h s = (Inr True, s1)" using went(1) ok by simp
  ultimately show ?thesis using matched_log by fastforce
qed simp

lemma write_stdin_heeds: "heed.stays (write_stdin E h text)"
proof (rule heed.staysI)
  fix s r s'
  assume "write_stdin E h text s = (r, s')"
  then show "heeds s s'"
    unfolding write_stdin_def
  proof (cases rule: bind_run_cases)
    case (raised e)
    then show ?thesis using heed.staysD resolves(3) by blast
  next
    case (went p s1)
    have "heeds s s1" using heed.staysD[OF resolves(3) went(1)] .
    moreover have "heeds s1 s'"
    proof (cases p)
      case (Some q)
      have v: "vouched h (as_log s1)" using resolve_vouched went(1) Some by blast
      have typed: "heeds s1 (snd (ask_os f (\<lambda>_. Typed h text) s1))" for f
        using v by (simp add: ask_os_def Let_def heeds_def)
      show ?thesis
      proof (cases "Option.bind (registry_get (ph_world h) s1) re_popen")
        case (Some pid)
        let ?run = "try_run (then_run (ask_os (\<lambda>n. oe_stdin E n pid (text @ [CHR 0x0A])) (\<lambda>_. Typed h text))
            (ret \<lparr>sd_delivered = True, sd_error = None\<rparr>)) (caught_as (\<lambda>f. os_fault f \<or> value_fault f) not_sent)"
        have "?run s1 = (r, s')" using went(2) \<open>p = Some q\<close> Some by (simp add: bind_run_def gets_def)
        moreover have "heeds s1 (snd (?run s1))" by (intro heeds_try heeds_bind typed stay_rules)
        ultimately show ?thesis by simp
      qed (use went(2) \<open>p = Some q\<close> in \<open>simp add: bind_run_def gets_def ret_def heed.rel_refl\<close>)
    qed (use went(2) in \<open>simp add: ret_def heed.rel_refl\<close>)
    ultimately show ?thesis by (rule heed.rel_trans)
  qed
qed

datatype adapter_call =
    SpawnWorld SpawnRequest | ProbeWorld string "ProbeFingerprint option" | SendSignal PosixHandle ProcSignal
  | TypeLine PosixHandle string | TerminateTree PosixHandle int | PollTree PosixHandle | DropHandle PosixHandle
  | OpenTail PosixHandle nat

fun adapter_step :: "os_env \<Rightarrow> adapter_call \<Rightarrow> adapter_sys \<Rightarrow> adapter_sys" where
  "adapter_step E (SpawnWorld rq) s = snd (spawn E rq s)"
| "adapter_step E (ProbeWorld w fp) s = snd (probe E w fp s)"
| "adapter_step E (SendSignal h sig) s = snd (send_signal E h sig s)"
| "adapter_step E (TypeLine h t) s = snd (write_stdin E h t s)"
| "adapter_step E (TerminateTree h n) s = snd (terminate E h n s)"
| "adapter_step E (PollTree h) s = snd (poll E h s)"
| "adapter_step E (DropHandle h) s = snd (close_handle h s)"
| "adapter_step E (OpenTail h n) s = snd (tail_open h n s)"

definition adapter_calls :: "os_env \<Rightarrow> adapter_call list \<Rightarrow> adapter_sys \<Rightarrow> adapter_sys" where
  "adapter_calls E cs s = foldl (\<lambda>s c. adapter_step E c s) s cs"

lemma spawn_heeds: "heed.stays (spawn E rq)"
  unfolding spawn_def Let_def by (auto intro!: stay_rules split: sum.split)

lemma poll_heeds: "heed.stays (poll E h)"
  unfolding poll_def Let_def exited_status_def registry_exit_code_def
  by (auto intro!: stay_rules split: adapter_error.split process_error.split)

lemma probe_heeds: "heed.stays (probe E w fp)"
  unfolding probe_def probe_fingerprint_def running_process_def marker_fits_def Let_def
  by (auto intro!: stay_rules split: adapter_error.split process_error.split)

lemma tail_heeds: "heed.stays (tail_open h n)" "heed.stays (close_handle h)"
  unfolding tail_open_def close_handle_def Let_def by (auto intro!: stay_rules)

lemma step_heeds: "heeds s (adapter_step E c s)"
  using spawn_heeds probe_heeds send_signal_heeds write_stdin_heeds terminate_heeds poll_heeds tail_heeds
  by (cases c) (auto simp: heed.stays_def)

lemma calls_heed: "heeds s (adapter_calls E cs s)"
proof (induction cs arbitrary: s)
  case (Cons c cs)
  have "heeds (adapter_step E c s) (adapter_calls E (c # cs) s)" using Cons by (simp add: adapter_calls_def)
  then show ?case using step_heeds heed.rel_trans by blast
qed (simp add: adapter_calls_def heed.rel_refl)

lemma guarded_split: "guarded (k @ x # l) \<Longrightarrow> guarded (x # l)"
  by (induction k rule: guarded.induct) auto

text \<open>
  C16: No stranger is signalled. Whatever the host does in between and whatever calls are made,
  every signal and every line of input was preceded, with at most one question to the host
  between, by an answer of \<open>psutil\<close> that the process of the handle was created within a second of
  the time in the handle; and a signal goes to the group the handle was made with.
\<close>
theorem signals_follow_the_check:
  assumes "as_log s0 = []" and "as_log (adapter_calls E cs s0) = newer @ x # older"
    and "x = Signalled h g sig \<or> x = Typed h text"
  shows "\<exists>c rest. (let seen = BornAt (ph_pid h) (Some c) # rest in older = seen \<or> older = Asked # seen) \<and>
     \<bar>c - ph_epoch h\<bar> < 1000 \<and> (x = Signalled h g sig \<and> px_group h \<noteq> None \<longrightarrow> px_group h = Some g)"
proof -
  have "guarded (as_log (adapter_calls E cs s0))" using calls_heed[of s0 E cs] assms(1) by (simp add: heeds_def)
  then have g: "guarded (x # older)" using assms(2) guarded_split by simp
  then have "vouched h older" using assms(3) by auto
  then have "\<exists>c rest. (let seen = BornAt (ph_pid h) (Some c) # rest in older = seen \<or> older = Asked # seen) \<and>
      \<bar>c - ph_epoch h\<bar> < 1000"
    by (cases "(h, older)" rule: vouched.cases) (auto simp: identity_tolerance_def Let_def)
  then show ?thesis using g by auto
qed

section \<open>The ladder\<close>

definition sure :: "'a adapter_run \<Rightarrow> bool" where
  "sure m \<longleftrightarrow> (\<forall>s. fst (m s) \<noteq> Inl StillWaiting)"

named_theorems sure_rules "actions that never exceed the bound of a wait"

lemma sure_basic [sure_rules]: "sure (ret x)" "sure (gets f)" "sure (change g)" "sure (raise (Fault e))" "sure (ask_os q ev)"
  by (auto simp: sure_def ret_def gets_def change_def raise_def ask_os_def Let_def map_sum_def split: sum.split)

lemma sure_bind [sure_rules]: "sure m \<Longrightarrow> (\<And>x. sure (f x)) \<Longrightarrow> sure (bind_run m f)"
  by (auto simp: sure_def bind_run_def split: prod.split sum.split) (metis fst_conv)+

lemma sure_try [sure_rules]: "sure m \<Longrightarrow> (\<And>x. sure (h (Fault x))) \<Longrightarrow> sure (try_run m h)"
  unfolding sure_def try_run_def
  by (auto split: prod.split sum.split) (metis adapter_error.exhaust fst_conv)

lemma sure_if [sure_rules]: "sure m \<Longrightarrow> sure n \<Longrightarrow> sure (if b then m else n)"
  by simp

lemma sure_option [sure_rules]: "sure m \<Longrightarrow> (\<And>y. sure (f y)) \<Longrightarrow> sure (case x of None \<Rightarrow> m | Some y \<Rightarrow> f y)"
  by (cases x) auto

lemma sure_caught [sure_rules]: "sure (caught_as p f (Fault e))" "sure (or_missing x (Fault e))"
  by (auto simp: caught_as_def or_missing_def intro!: sure_rules split: process_error.split)

lemma sure_clock [sure_rules]: "sure (time_now E)"
  by (simp add: sure_def time_now_def ask_os_def Let_def)

lemma sure_calls [sure_rules]:
  "sure (identity_matches E i e)" "sure (resolve_process E h)" "sure (process_exited E p)" "sure (poll_exit_code E w)"
  "sure (killpg E h p sig)" "sure sleep_round"
  unfolding identity_matches_def resolve_process_def process_exited_def poll_exit_code_def registry_exit_code_def
    killpg_def group_of_def question_defs sleep_round_def
  by (auto intro!: sure_rules split: process_error.split)

text \<open>What an action sent, and an upper bound of what it slept.\<close>

definition climbs :: "adapter_sys \<Rightarrow> adapter_sys \<Rightarrow> ProcSignal list \<Rightarrow> int \<Rightarrow> bool" where
  "climbs s t sent ms \<longleftrightarrow> (\<exists>l. as_log t = l @ as_log s \<and> signals l = sent) \<and> as_slept t - as_slept s \<le> ms"

lemma climbs_trans: "climbs s t a m \<Longrightarrow> climbs t u b n \<Longrightarrow> climbs s u (a @ b) (m + n)"
  by (auto simp: climbs_def)

lemma climbs_quiet: "mute s t \<Longrightarrow> prompt s t \<Longrightarrow> climbs s t [] 0"
  by (auto simp: climbs_def mute_def prompt_def)

lemma quiet_calls:
  "identity_matches E i e s = (x, t) \<Longrightarrow> climbs s t [] 0" "resolve_process E h s = (y, t) \<Longrightarrow> climbs s t [] 0"
  "poll_exit_code E w s = (z, t) \<Longrightarrow> climbs s t [] 0"
  by (blast intro: climbs_quiet mute.staysD prompt.staysD stay_rules)+

lemma killpg_climbs: "px_group h = Some g \<Longrightarrow> killpg E h p sig s = (r, t) \<Longrightarrow> climbs s t [sig] 0"
  by (auto simp: killpg_def group_of_def bind_run_def ret_def ask_os_def Let_def climbs_def)

text \<open>The clock of the host never goes back, apart from the sleeps.\<close>

definition steady :: "os_env \<Rightarrow> bool" where
  "steady E \<longleftrightarrow> (\<forall>m n. m \<le> n \<longrightarrow> oe_time E m \<le> oe_time E n)"

lemma exit_wait_bounded:
  assumes "steady E"
  shows "exit_wait k E p d s = (r, t) \<Longrightarrow> 1 \<le> k \<Longrightarrow>
     d - (oe_time E (as_tick s) + as_slept s) \<le> 200 * (int k - 1) \<Longrightarrow>
     r \<noteq> Inl StillWaiting \<and> as_slept t - as_slept s \<le> max 0 (d - (oe_time E (as_tick s) + as_slept s) + 199)"
proof (induction k arbitrary: s)
  case (Suc k)
  let ?now = "oe_time E (as_tick s) + as_slept s"
  define s1 where "s1 = s\<lparr>as_tick := Suc (as_tick s), as_log := Asked # as_log s\<rparr>"
  have now: "time_now E s = (Inr ?now, s1)" by (simp add: time_now_def ask_os_def Let_def s1_def)
  show ?case
  proof (cases "?now < d")
    case False
    with Suc.prems(1) now show ?thesis by (auto simp: bind_run_def ret_def s1_def)
  next
    case True
    obtain x s2 where ex: "process_exited E p s1 = (x, s2)" by fastforce
    have s2: "as_tick s1 \<le> as_tick s2" "as_slept s2 = as_slept s"
      using prompt.staysD[OF exits(2) ex] by (auto simp: prompt_def s1_def)
    have fine: "x \<noteq> Inl StillWaiting" using sure_calls(3)[unfolded sure_def] ex by (metis fst_conv)
    show ?thesis
    proof (cases "x = Inr False")
      case False
      with Suc.prems(1) now True ex fine s2 show ?thesis
        by (cases x) (auto simp: bind_run_def ret_def)
    next
      case again: True
      define s3 where "s3 = s2\<lparr>as_slept := as_slept s2 + 200\<rparr>"
      have run: "exit_wait k E p d s3 = (r, t)"
        using Suc.prems(1) now True ex again by (simp add: bind_run_def sleep_round_def change_def s3_def)
      have "oe_time E (as_tick s) \<le> oe_time E (as_tick s3)"
        using assms s2(1) by (auto simp: steady_def s3_def s1_def)
      moreover have "as_slept s3 = as_slept s + 200" using s2 by (simp add: s3_def)
      moreover have "1 \<le> k" using True Suc.prems(3) by (cases k) auto
      ultimately show ?thesis using Suc.IH[OF run] Suc.prems(3) True by auto
    qed
  qed
qed simp

lemma await_exit_climbs:
  assumes "steady E" and "0 \<le> ms" and "await_exit E p ms s = (r, t)"
  shows "r \<noteq> Inl StillWaiting \<and> climbs s t [] (ms + 199)"
proof -
  define s1 where "s1 = s\<lparr>as_tick := Suc (as_tick s), as_log := Asked # as_log s\<rparr>"
  have run: "exit_wait (wait_rounds ms) E p (oe_time E (as_tick s) + as_slept s + ms) s1 = (r, t)"
    using assms(3) by (simp add: await_exit_def bind_run_def time_now_def ask_os_def Let_def s1_def)
  have later: "oe_time E (as_tick s) \<le> oe_time E (as_tick s1)" using assms(1) by (simp add: steady_def s1_def)
  have "ms \<le> 200 * (ms div 200) + 199" by presburger
  then have "ms \<le> 200 * (int (wait_rounds ms) - 1)" using assms(2) by (simp add: wait_rounds_def)
  with later have "r \<noteq> Inl StillWaiting \<and> as_slept t - as_slept s1 \<le> ms + 199"
    using exit_wait_bounded[OF assms(1) run] assms(2) by (auto simp: s1_def wait_rounds_def)
  moreover have "mute s t" using mute.staysD[OF bounded_waits(1) assms(3)] .
  ultimately show ?thesis by (simp add: climbs_def mute_def s1_def)
qed

lemma caught_state: "caught_as p f e s = (r, t) \<Longrightarrow> t = s"
  by (auto simp: caught_as_def ret_def raise_def split: adapter_error.splits if_splits)

text \<open>The result of an action with what it sent and slept.\<close>

definition goes :: "'a adapter_run \<Rightarrow> ('a \<Rightarrow> ProcSignal list \<Rightarrow> int \<Rightarrow> bool) \<Rightarrow> bool" where
  "goes m post \<longleftrightarrow> sure m \<and> (\<forall>s x t. m s = (Inr x, t) \<longrightarrow> (\<exists>sent ms. climbs s t sent ms \<and> post x sent ms))"

lemma goes_ret: "post x [] 0 \<Longrightarrow> goes (ret x) post"
  by (auto simp: goes_def sure_rules ret_def climbs_def intro!: exI[of _ "[]"] exI[of _ 0])

lemma goes_bind:
  assumes "goes m post" and "\<And>x a b. post x a b \<Longrightarrow> goes (f x) (\<lambda>y c d. final y (a @ c) (b + d))"
  shows "goes (bind_run m f) final"
proof -
  have "fst (bind_run m f s) \<noteq> Inl StillWaiting" for s
  proof (cases "m s")
    case (Pair r t)
    show ?thesis
    proof (cases r)
      case (Inl e)
      moreover have "fst (m s) \<noteq> Inl StillWaiting" using assms(1) by (simp add: goes_def sure_def)
      ultimately show ?thesis using Pair by (simp add: bind_run_def)
    next
      case (Inr x)
      then obtain a b where "post x a b" using Pair assms(1) unfolding goes_def by blast
      from assms(2)[OF this] have "fst (f x t) \<noteq> Inl StillWaiting" by (simp add: goes_def sure_def)
      then show ?thesis using Pair Inr by (simp add: bind_run_def)
    qed
  qed
  moreover have "\<exists>sent ms. climbs s u sent ms \<and> final y sent ms" if "bind_run m f s = (Inr y, u)" for s y u
    using that assms unfolding goes_def bind_run_Inr by (meson climbs_trans)
  ultimately show ?thesis by (simp add: goes_def sure_def)
qed

lemma goes_if: "(b \<Longrightarrow> goes m post) \<Longrightarrow> (\<not> b \<Longrightarrow> goes n post) \<Longrightarrow> goes (if b then m else n) post"
  by simp

lemma goes_option:
  "(x = None \<Longrightarrow> goes m post) \<Longrightarrow> (\<And>y. x = Some y \<Longrightarrow> goes (f y) post) \<Longrightarrow> goes (case x of None \<Rightarrow> m | Some y \<Rightarrow> f y) post"
  by (cases x) auto

lemma goes_weaken: "goes m post \<Longrightarrow> (\<And>x a b. post x a b \<Longrightarrow> final x a b) \<Longrightarrow> goes m final"
  by (auto simp: goes_def) blast

lemma quiet_goes:
  "goes (handle_matches E h) (\<lambda>x sent ms. sent = [] \<and> ms = 0)" "goes (resolve_process E h) (\<lambda>x sent ms. sent = [] \<and> ms = 0)"
  "goes (poll_exit_code E w) (\<lambda>x sent ms. sent = [] \<and> ms = 0)"
  by (auto simp: goes_def sure_rules dest: quiet_calls)

lemma wait_goes: "steady E \<Longrightarrow> 0 \<le> ms \<Longrightarrow> goes (await_exit E p ms) (\<lambda>x sent b. sent = [] \<and> b = ms + 199)"
  by (auto simp: goes_def sure_def dest: await_exit_climbs) (metis prod.collapse await_exit_climbs)

lemma kill_goes:
  assumes "px_group h = Some g"
  shows "goes (try_run (then_run (kill_tree E p h) (ret y)) (caught_as q f)) (\<lambda>x sent ms. sent = [SIG_KILL] \<and> ms = 0)"
proof -
  have "climbs s t [SIG_KILL] 0" if "try_run (then_run (kill_tree E p h) (ret y)) (caught_as q f) s = (Inr x, t)" for s x t
  proof -
    obtain z s1 where k: "killpg E h p SIG_KILL s = (z, s1)" by fastforce
    then have "t = s1"
      using that by (cases z) (auto simp: try_run_def bind_run_def kill_tree_def ret_def dest!: caught_state)
    with killpg_climbs[OF assms k] show ?thesis by simp
  qed
  then show ?thesis by (auto simp: goes_def kill_tree_def intro!: sure_rules)
qed

lemma signal_goes:
  assumes "px_group h = Some g"
  shows "goes (signal_tree E p h SIG_TERMINATE) (\<lambda>x sent ms. sd_delivered x \<and> sent = [SIG_TERMINATE] \<and> ms = 0)"
proof -
  have "climbs s t [SIG_TERMINATE] 0 \<and> sd_delivered x" if "signal_tree E p h SIG_TERMINATE s = (Inr x, t)" for s x t
    using that killpg_climbs[OF assms, of E p SIG_TERMINATE s] by (auto simp: signal_tree_def bind_run_Inr ret_iff)
  moreover have "sure (signal_tree E p h SIG_TERMINATE)" unfolding signal_tree_def by (intro sure_rules)
  ultimately show ?thesis by (auto simp: goes_def)
qed

definition forced :: "Termination \<Rightarrow> ProcSignal list \<Rightarrow> int \<Rightarrow> bool" where
  "forced x sent ms \<longleftrightarrow> x = process_missing \<and> sent = [] \<and> ms = 0 \<or>
     tr_exit x = EC_FORCED \<and> sent = [SIG_KILL] \<and> ms \<le> kill_settle + 199"

lemma kill_and_classify_goes:
  assumes "steady E" and "px_group h = Some g"
  shows "goes (kill_and_classify E h p) forced"
  unfolding kill_and_classify_def
  by (rule goes_bind[OF quiet_goes(1)], rule goes_if, rule goes_ret, simp add: forced_def,
      rule goes_bind[OF kill_goes[OF assms(2)]], rule goes_option, rule goes_bind[OF wait_goes[OF assms(1)]],
      simp add: kill_settle_def, rule goes_if, rule goes_bind[OF quiet_goes(3)])
     (auto intro!: goes_ret simp: forced_def kill_settle_def)

text \<open>
  C17: A termination climbs its ladder, in bounded time. When the clock of the host does not go
  back, every wait ends within its rounds; a graceful result means that one SIGTERM and no SIGKILL
  was sent and the process was seen to end, a forced one that SIGKILL came last and at most once, a
  missing process is never killed, and the sleeps take at most the two deadlines and 0.4 s.
\<close>
theorem termination_is_a_ladder:
  assumes "steady E" and "px_group h = Some g" and "terminate E h seconds s = (r, t)"
  shows "r \<noteq> Inl StillWaiting \<and> (\<forall>x. r = Inr x \<longrightarrow> (\<exists>sent.
     (\<exists>l. as_log t = l @ as_log s \<and> signals l = sent) \<and>
     as_slept t - as_slept s \<le> max 0 seconds * 1000 + 10000 + 400 \<and>
     (case tr_exit x of
        EC_GRACEFUL \<Rightarrow> tr_resolved x \<and> 0 < seconds \<and> sent = [SIG_TERMINATE]
      | EC_FORCED \<Rightarrow> sent = (if 0 < seconds then [SIG_TERMINATE, SIG_KILL] else [SIG_KILL])
      | _ \<Rightarrow> x = process_missing \<and> SIG_KILL \<notin> set sent)))"
proof -
  define post where "post = (\<lambda>x sent ms. ms \<le> max 0 seconds * 1000 + 10000 + 400 \<and>
     (case tr_exit x of
        EC_GRACEFUL \<Rightarrow> tr_resolved x \<and> 0 < seconds \<and> sent = [SIG_TERMINATE]
      | EC_FORCED \<Rightarrow> sent = (if 0 < seconds then [SIG_TERMINATE, SIG_KILL] else [SIG_KILL])
      | _ \<Rightarrow> x = process_missing \<and> SIG_KILL \<notin> set sent))"
  have kill: "goes (kill_and_classify E h p) (\<lambda>x c d. post x (a @ c) (b + d))"
    if "a = (if 0 < seconds then [SIG_TERMINATE] else [])" "b \<le> max 0 seconds * 1000 + 199" for p a b
    by (rule goes_weaken[OF kill_and_classify_goes[OF assms(1,2)]])
       (use that in \<open>auto simp: forced_def post_def process_missing_def kill_settle_def\<close>)
  have runs: "goes (terminate E h seconds) post"
    unfolding terminate_def
    apply (rule goes_bind[OF quiet_goes(2)], rule goes_option, rule goes_ret, simp add: post_def process_missing_def)
    apply (rule goes_if, use kill[of "[]" 0] in simp)
    apply (rule goes_bind[OF quiet_goes(1)], rule goes_if, rule goes_ret, simp add: post_def process_missing_def)
    apply (rule goes_bind[OF signal_goes[OF assms(2)]], rule goes_if, simp)
    apply (rule goes_bind[OF wait_goes[OF assms(1)]], simp, rule goes_if, rule goes_bind[OF quiet_goes(3)])
    apply (auto intro!: goes_ret simp: post_def)[1]
    using kill[of "[SIG_TERMINATE]" "seconds * 1000 + 199"] by simp
  have ends: "\<exists>sent ms. climbs s t sent ms \<and> post x sent ms" if "r = Inr x" for x
    using runs assms(3) that by (auto simp: goes_def)
  have "\<exists>sent. (\<exists>l. as_log t = l @ as_log s \<and> signals l = sent) \<and>
     as_slept t - as_slept s \<le> max 0 seconds * 1000 + 10000 + 400 \<and>
     (case tr_exit x of
        EC_GRACEFUL \<Rightarrow> tr_resolved x \<and> 0 < seconds \<and> sent = [SIG_TERMINATE]
      | EC_FORCED \<Rightarrow> sent = (if 0 < seconds then [SIG_TERMINATE, SIG_KILL] else [SIG_KILL])
      | _ \<Rightarrow> x = process_missing \<and> SIG_KILL \<notin> set sent)" if r: "r = Inr x" for x
  proof -
    obtain sent ms where c: "climbs s t sent ms" and p: "post x sent ms" using ends[OF r] by blast
    have "as_slept t - as_slept s \<le> max 0 seconds * 1000 + 10000 + 400" using c p unfolding climbs_def post_def by linarith
    then show ?thesis using c p unfolding climbs_def post_def by blast
  qed
  moreover have "fst (terminate E h seconds s) \<noteq> Inl StillWaiting" using runs by (simp add: goes_def sure_def)
  ultimately show ?thesis using assms(3) by simp
qed

section \<open>An unreaped child\<close>

text \<open>
  A child that ended is a zombie until somebody reads its exit code, and \<open>psutil\<close> documents that
  \<open>is_running\<close> is true for a zombie.  A poll never reads the code of a process it finds, so it
  reports the server as running; only a termination looks at the status.
\<close>
lemma zombies_poll_as_running:
  assumes "\<And>n. oe_process E n (ph_pid h) = Inr ()" and "\<And>n p. oe_create_time E n p = Inr (ph_epoch h)"
    and "\<And>n p. oe_status E n p = Inr ''zombie''" and "\<And>n p. oe_running E n p = Inr True"
  shows "\<exists>t. poll E h s = (Inr \<lparr>ps_state = PS_RUNNING, ps_exit = EC_RUNNING, pa_code = None, pa_time = None\<rparr>, t)"
    and "\<exists>t. process_exited E (ph_pid h, n) s = (Inr True, t)"
  using assms
  by (simp_all add: poll_def process_exited_def identity_matches_def is_running_def open_process_def create_time_def
      ask_os_def Let_def try_run_def bind_run_def ret_def identity_tolerance_def)

section \<open>Samples\<close>

text \<open>A host with one process 7 of group 7, made at 5000; it ends after the access number \<open>n\<close>.\<close>

definition sample_host :: "nat \<Rightarrow> os_env" where
  "sample_host n = \<lparr>oe_process = (\<lambda>k i. if i = 7 then Inr () else Inl (NoSuchProcess ''gone'')),
     oe_create_time = (\<lambda>k p. Inr 5000), oe_running = (\<lambda>k p. Inr (k < n)), oe_status = (\<lambda>k p. Inr ''sleeping''),
     oe_cmdline = (\<lambda>k p. Inr [''java'']), oe_getpgid = (\<lambda>k i. Inr i), oe_killpg = (\<lambda>k g sig. Inr ()),
     oe_popen = (\<lambda>k rq. Inr 7), oe_poll = (\<lambda>k i. Inr (if k < n then None else Some 0)),
     oe_stdin = (\<lambda>k i t. Inr ()), oe_time = (\<lambda>k. 100 * int k), oe_verbose = False\<rparr>"

definition posix_handle :: PosixHandle where
  "posix_handle = \<lparr>ph_world = ''w1'', ph_pid = 7, ph_epoch = 5400, px_group = Some 7\<rparr>"

definition sample_adapter :: adapter_sys where
  "sample_adapter = \<lparr>as_tick = 0, as_slept = 0, as_log = [], as_registry = [], as_jobs = []\<rparr>"

theorem termination_is_a_ladder_witness:
  "\<exists>x t. terminate (sample_host 12) posix_handle 2 sample_adapter = (Inr x, t) \<and> tr_exit x = EC_GRACEFUL \<and>
     signals (as_log t) = [SIG_TERMINATE]"
proof -
  have "case terminate (sample_host 12) posix_handle 2 sample_adapter of (Inr x, t) \<Rightarrow> tr_exit x = EC_GRACEFUL | _ \<Rightarrow> False"
    by code_simp
  then obtain x t where run: "terminate (sample_host 12) posix_handle 2 sample_adapter = (Inr x, t)" "tr_exit x = EC_GRACEFUL"
    by (auto split: prod.splits sum.splits)
  have "steady (sample_host 12)" by (simp add: steady_def sample_host_def)
  moreover have "px_group posix_handle = Some 7" by (simp add: posix_handle_def)
  ultimately show ?thesis
    using termination_is_a_ladder[OF _ _ run(1)] run by (auto simp: sample_adapter_def)
qed

theorem signals_follow_the_check_witness:
  "\<exists>newer older c rest. as_log (adapter_calls (sample_host 0) [SendSignal posix_handle SIG_TERMINATE] sample_adapter) =
     newer @ Signalled posix_handle 7 SIG_TERMINATE # older \<and> older = BornAt 7 (Some c) # rest \<and> \<bar>c - 5400\<bar> < 1000"
proof -
  have log: "as_log (adapter_calls (sample_host 0) [SendSignal posix_handle SIG_TERMINATE] sample_adapter) =
      [] @ Signalled posix_handle 7 SIG_TERMINATE # [BornAt 7 (Some 5000), Asked, Asked, BornAt 7 (Some 5000), Asked]"
    by code_simp
  have "as_log sample_adapter = []" by (simp add: sample_adapter_def)
  from signals_follow_the_check[OF this log, of posix_handle 7 SIG_TERMINATE "[]"] obtain c rest where
    "[BornAt 7 (Some 5000), Asked, Asked, BornAt 7 (Some 5000), Asked] = BornAt 7 (Some c) # rest" "\<bar>c - 5400\<bar> < 1000"
    by (auto simp: Let_def posix_handle_def)
  then show ?thesis unfolding log by blast
qed

end
