(* ===== verification/Spec2Isabelle.thy ===== *)
theory Spec2Isabelle
  imports Cleanup Rcon Sync_Witness Archive_Links Web_Worlds_Witness Web_Answers Web_Settings_Props Process_Adapter_Props
begin

text \<open>
  A model of the Minecraft server manager in \<open>src/app\<close>: a Flask application that starts, stops,
  edits, backs up and restores the worlds of one host.  Every definition is a translation of the
  Python code it is named after; every theorem is about these definitions.

  \<^bold>\<open>The program.\<close>  All state is in one SQLite database, in the directories of the worlds and in the
  processes of their servers.  A request passes the gate (\<open>web/middleware.py\<close>: session, step-up,
  role, CSRF token), reaches a route (\<open>web/api\<close>), and the route either reads, edits a versioned row
  through the configuration service, or queues an operation with the operation engine
  (\<open>services/operations.py\<close>).  The engine gives each operation its state machine, its audit record
  and its notifications, and allows one mutating operation per world.  The dispatcher of
  \<open>services/worlds.py\<close> claims queued operations and runs them: the driver starts, stops and kills
  servers through the process port and the Minecraft port (properties, EULA, readiness, RCON) and
  applies the queued changes of worlds and files.  The supervisor polls for crashes and
  reconciles after a restart of the manager.  Backups (\<open>services/backup.py\<close>) fence the saves of a
  running world over RCON and archive its directory; restores and offsite copies work on the
  artifacts; the cleanup removes them by policy; the scheduler queues backups and cleanups.

  \<^bold>\<open>Layers.\<close>
  \<^item> Shared: \<open>Prelude\<close> (results, tables), \<open>Json\<close> (values, \<open>json.dumps\<close>, \<open>int\<close>), \<open>Text_Tools\<close>,
    \<open>Iso_Time\<close>, \<open>Effects\<close> (actions that read, change and raise, with the locale \<open>state_order\<close>),
    \<open>Machines\<close> (the locales of guarded machines).
  \<^item> Domain: \<open>Domain_Values\<close> (\<open>domain/value_objects.py\<close>), \<open>World_Lifecycle\<close> (\<open>domain/entities.py\<close>,
    \<open>invariants.py\<close>, \<open>events.py\<close>, \<open>lifecycle.py\<close>).
  \<^item> Database and engine: \<open>Store\<close> (the tables and their constraints), \<open>Audit_Notify\<close>
    (\<open>services/audit.py\<close>, \<open>notifications.py\<close>), \<open>Realtime\<close> (\<open>services/realtime.py\<close>), \<open>Operations\<close>
    with \<open>Operations_Inv\<close> and \<open>Operations_Frame\<close> (\<open>services/operations.py\<close>), \<open>Scheduler\<close>,
    \<open>Cleanup\<close> (\<open>services/cleanup.py\<close>, \<open>domain/tuning.py\<close>), \<open>Configuration\<close> and
    \<open>Configuration_Edits\<close> (\<open>services/configuration.py\<close>), \<open>Auth\<close> (\<open>services/auth.py\<close>,
    \<open>infrastructure/secrets.py\<close>).
  \<^item> Worlds: \<open>Minecraft\<close> (\<open>ports/minecraft.py\<close>, \<open>infrastructure/minecraft\<close>), \<open>Rcon\<close> (its frames and
    client), \<open>File_Tree\<close> (directories with links, queued file edits), \<open>Log_Tail\<close>
    (\<open>platform/process/tailing.py\<close>), \<open>Worlds_Env\<close>, \<open>Worlds\<close>, \<open>Supervisor\<close> and \<open>World_Mutations\<close>
    (\<open>services/worlds.py\<close>, \<open>ports/process_control.py\<close>) with \<open>Worlds_Laws\<close>, \<open>Worlds_Props\<close>,
    \<open>Supervisor_Props\<close>, \<open>Mutations_Props\<close> and \<open>Worlds_Witness\<close>; \<open>Process_Adapter\<close> and
    \<open>Process_Adapter_Props\<close> (\<open>platform/process/base.py\<close>, \<open>posix.py\<close>), the adapter behind the process
    port on POSIX hosts.
  \<^item> Artifacts: \<open>Archive\<close>, \<open>Archive_Props\<close> and \<open>Archive_Links\<close> (\<open>infrastructure/backup_engine.py\<close>,
    \<open>filesystem.py\<close>; the last on trees with links), \<open>Backup\<close> and \<open>Backup_Props\<close> (\<open>services/backup.py\<close>, \<open>save_coordination.py\<close>),
    \<open>Restore\<close>, \<open>Restore_Props\<close>, \<open>Restore_Witness\<close> (\<open>services/restore.py\<close>, \<open>runtime.py\<close>), \<open>Sync\<close>,
    \<open>Sync_Props\<close>, \<open>Sync_Witness\<close> (\<open>services/sync.py\<close>, \<open>sync_transport/nas.py\<close>).
  \<^item> HTTP: \<open>Web_Gate\<close> (\<open>web/middleware.py\<close>, \<open>errors.py\<close>), \<open>Web_Session\<close> (\<open>web/api/auth_routes.py\<close>),
    \<open>Web_Admin\<close> and \<open>Web_Admin_Props\<close> (\<open>administration.py\<close>), \<open>Web_Worlds\<close>, \<open>Web_Worlds_Props\<close>,
    \<open>Web_Worlds_Witness\<close> (\<open>world_management.py\<close>), \<open>Web_Catalogs\<close> and \<open>Web_Catalogs_Props\<close>
    (\<open>catalogs.py\<close>), \<open>Web_Settings\<close> and \<open>Web_Settings_Props\<close> (\<open>configuration.py\<close>), \<open>Web_Answers\<close> (the form of all answers).

  \<^bold>\<open>How the code is modelled.\<close>  A row of a table is a record, a table the list of its rows in the
  order of insertion; a versioned table of the configuration is a list of rows by column.  A
  service is a function from the state (the database, the hub, what goes to the log) to its result
  and the state after it, an exception is the left part of a sum; in the driver and the routes this
  is the type of actions of \<open>Effects\<close>.  A state change before an exception is kept, as the code
  keeps it, except where the code rolls back.  The files of all worlds and artifacts are one tree,
  which starts, EULA acceptances, backups, restores, syncs and file edits read and write; the calls to
  processes, consoles and the archive engine are logged in their order.  Identifiers, the clock, hashes and the answers of
  processes and servers are arguments.  Where calls of several clients interleave, the model has
  explicit steps (the two parts of a configuration edit, the calls of the engine, the turns of log
  readers) and the theorems quantify over all their orders.

  \<^bold>\<open>Interfaces.\<close>  \<open>guarded_machine\<close> and \<open>machine_with_final\<close> are the laws of a component that moves
  one state by actions that may be refused; they are interpreted for the world lifecycle, for
  three invariants of the engine, for the identity service and for the RCON client.
  \<open>bounded_buffer\<close> is the law of a buffer that drops its oldest entries, interpreted for the replay
  buffer of the hub and for the rings of the log.  \<open>versioned_store\<close> is compare-and-swap on
  versions, interpreted for the configuration.  \<open>state_order\<close> carries a relation between the states
  before and after through every combinator of actions; its instances are the frames and
  invariants of the driver, the backups, the adapter and the routes.  \<open>console_law\<close>, \<open>request_law\<close>,
  \<open>driver_calls\<close>, \<open>spawning_calls\<close> and \<open>driver_law\<close> state what single calls of the driver owe so that whole runs keep a
  relation.  \<open>identity_invariant\<close> and \<open>admin_invariant\<close> do this for the identity service under the
  administration routes.

  \<^bold>\<open>What the lemmas show.\<close>  The engine: one active mutation per world, keys that create once, ended
  rows that stay, one audit record per end.  The driver: no process before the gate passed, a
  started world that answers, a stop that climbs its ladder, states that follow the lifecycle,
  dispatched operations that end, edits that stay inside the world.  The adapter: no signal without
  a check of the process, terminations that end.  Archives: round trip and
  confinement, whatever links the tree has.  Backups: fenced (flush, archive, resumption, in this
  order) and whole.  Restores: the world is the artifact's, but for the console settings a restart
  writes into \<open>server.properties\<close>, or what it was.  Syncs: at most three attempts, within the cap of
  the day.  The scheduler: the latest due run of a schedule is accounted for once, and no other run
  of it is (the documents ask for a record of every missed one).  Configuration: no lost update.  Identity: sessions, lockout,
  step-up; an administrator remains, whoever was deleted stays out.  Routes: the gate decides as
  the role says, every answer is enveloped, deletions need a fresh preview, schedules can be read,
  settings read back.
  Each property with hypotheses has a witness at a concrete input, evaluated in the kernel.

  \<^bold>\<open>Bounds.\<close>  Links are followed 40 deep as the kernel of the host does; the walk over a tree has the
  number of its nodes and 2 as fuel, a copy 40 more, and \<open>Archive_Props\<close> shows that this is enough.
  The readiness wait is 120 s in steps of 250 ms, so 480 polls; the wait of a stop is 60 s in steps
  of 500 ms, so 121 polls; a sync waits 30 s and 60 s between its three attempts; a preview lives
  300 s; a log ring holds 5000 lines; the hub replays 200 events into queues of 256.  A wait of the adapter
  has five rounds per second and two more, enough when the clock does not go back.  These
  are the constants of the code.  RCON frames use 32-bit words.

  \<^bold>\<open>Not modelled.\<close>  The rest of \<open>services\<close> and \<open>web\<close>: health, statistics and the routes that queue
  starts, stops and kills (\<open>web/api/system.py\<close>; the calls they make are in \<open>World_Mutations\<close> and
  \<open>Worlds\<close>), the history routes, the pages, the event streams (generators over a socket; the hub
  behind them is in \<open>Realtime\<close>), the diagnostics and the loop of \<open>services/reconciliation.py\<close>
  (its work is in \<open>Supervisor\<close>).  The adapter of Windows is calls of the Win32 interface behind
  \<open>ports/process_control.py\<close>; the driver takes the answers of its adapter as arguments, so the
  theorems about the driver hold for both.  The wiring
  (\<open>app/__init__.py\<close>, \<open>bootstrap.py\<close>), connections and migrations of SQLite, paths, the ports without
  logic, templates, tests and tools have no logic to state.  Cryptography, \<open>secure_filename\<close>,
  \<open>send_file\<close> and the other library functions are parameters.  JSON values have no floats: what a
  route or the scheduler makes of one is left out, and no theorem speaks of it.  What a server process
  writes into its directory is not modelled.  Strings are lists of characters
  below 256; file system errors besides those of links and of missing or existing files, and the
  \<open>CHECK\<close> constraints of updates, are left out.
\<close>

end
